(* ===== verification/Prelude.thy ===== *)
theory Prelude
  imports Main
begin

text \<open>
  The shared vocabulary of the development.

  \<^item> Errors: \<open>WeasylError code\<close> is \<^verbatim>\<open>raise WeasylError("code")\<close> of \<^verbatim>\<open>weasyl/error.py\<close>; the other
    constructors are the exceptions of Python and of the database driver that the modelled code can
    raise. A function that may raise returns \<open>error + 'a\<close>, \<open>Inl\<close> being the exception.
  \<^item> Settings columns: PostgreSQL's \<open>settings ~ 'p'\<close> on a column of one-letter flags is
    \<open>has_flag\<close>, and \<open>settings ~ '[pr]'\<close> is \<open>has_any_flag\<close>.
  \<^item> Statements: a table is the list of its rows; \<open>DELETE .. WHERE\<close>, \<open>UPDATE .. SET .. WHERE\<close>,
    \<open>SELECT EXISTS\<close> and \<open>INSERT .. ON CONFLICT .. DO NOTHING\<close> are one function each. A query
    without \<open>ORDER BY\<close> has no order in SQL; the model gives it the order of insertion.
  \<^item> Numbers: Python integers and PostgreSQL ids are \<open>int\<close>; the value 0 stands for both 0 and
    \<open>None\<close> where the code only tests an optional id for truth.
  \<^item> \<open>unique_table\<close>: the interface of a table with a unique key inside a database record, with
    the facts every component uses about it; each component interprets it on its own tables.
\<close>

subsection \<open>Errors and results\<close>

datatype error =
    WeasylError string
  | UsernameTooLong
  | AssertionError
  | ValueError
  | KeyError
  | TypeError
  | AttributeError
  | IntegrityError
  | UndoExpired
  | InvalidTag
  | DuplicateCode string
  | InvalidValue
  | IndexError
  | NoResultFound
  | MultipleResultsFound
  | OverflowError
  | HTTPNotFound
  | InvalidOperation

type_synonym 'a result = "error + 'a"

named_theorems table_simps \<open>facts about the statement functions\<close>
named_theorems frame \<open>tables and caches an operation leaves as they are\<close>

definition is_ok :: "'a result \<Rightarrow> bool" where
  "is_ok r = (case r of Inl _ \<Rightarrow> False | Inr _ \<Rightarrow> True)"

lemma is_ok_simps [simp]: "is_ok (Inr x)" "\<not> is_ok (Inl e)"
  by (simp_all add: is_ok_def)

lemma is_ok_iff: "is_ok r \<longleftrightarrow> (\<exists>x. r = Inr x)"
  by (cases r) auto

text \<open>
  A step that may raise after it has changed the state returns the outcome and the state;
  \<open>and_then\<close> goes on with the next step unless it raised.
\<close>

definition and_then :: "'a result \<times> 's \<Rightarrow> ('a \<Rightarrow> 's \<Rightarrow> 'b result \<times> 's) \<Rightarrow> 'b result \<times> 's" where
  "and_then r f = (case r of (Inl e, s) \<Rightarrow> (Inl e, s) | (Inr x, s) \<Rightarrow> f x s)"

lemma and_then_simps [simp]:
  "and_then (Inl e, s) f = (Inl e, s)"
  "and_then (Inr x, s) f = f x s"
  by (simp_all add: and_then_def)

lemma and_then_ok:
  "and_then r f = (Inr y, s') \<longleftrightarrow> (\<exists>x s. r = (Inr x, s) \<and> f x s = (Inr y, s'))"
  by (cases r; cases "fst r") (auto simp: and_then_def)

subsection \<open>Flag columns\<close>

definition has_flag :: "char \<Rightarrow> string \<Rightarrow> bool" where
  "has_flag c s = (c \<in> set s)"

definition has_any_flag :: "string \<Rightarrow> string \<Rightarrow> bool" where
  "has_any_flag cs s = list_ex (\<lambda>c. c \<in> set s) cs"

definition remove_flag :: "char \<Rightarrow> string \<Rightarrow> string" where
  "remove_flag c s = filter (\<lambda>x. x \<noteq> c) s"

lemma has_flag_Nil [simp]: "\<not> has_flag c []"
  by (simp add: has_flag_def)

lemma has_flag_Cons [simp]: "has_flag c (x # xs) \<longleftrightarrow> c = x \<or> has_flag c xs"
  by (simp add: has_flag_def)

lemma has_flag_append [simp]: "has_flag c (xs @ ys) \<longleftrightarrow> has_flag c xs \<or> has_flag c ys"
  by (simp add: has_flag_def)

lemma has_flag_remove [simp]: "has_flag c (remove_flag d s) \<longleftrightarrow> has_flag c s \<and> c \<noteq> d"
  by (auto simp: has_flag_def remove_flag_def)

lemma remove_flag_idle: "\<not> has_flag c s \<Longrightarrow> remove_flag c s = s"
  by (auto simp: has_flag_def remove_flag_def filter_id_conv)

lemma has_any_flag_Nil [simp]: "\<not> has_any_flag [] s"
  by (simp add: has_any_flag_def)

lemma has_any_flag_Cons [simp]: "has_any_flag (c # cs) s \<longleftrightarrow> has_flag c s \<or> has_any_flag cs s"
  by (simp add: has_any_flag_def has_flag_def)

subsection \<open>Statements on tables\<close>

definition delete_where :: "('r \<Rightarrow> bool) \<Rightarrow> 'r list \<Rightarrow> 'r list" where
  "delete_where P rows = filter (\<lambda>r. \<not> P r) rows"

definition update_where :: "('r \<Rightarrow> bool) \<Rightarrow> ('r \<Rightarrow> 'r) \<Rightarrow> 'r list \<Rightarrow> 'r list" where
  "update_where P f rows = map (\<lambda>r. if P r then f r else r) rows"

definition exists_where :: "('r \<Rightarrow> bool) \<Rightarrow> 'r list \<Rightarrow> bool" where
  "exists_where P rows = list_ex P rows"

definition count_where :: "('r \<Rightarrow> bool) \<Rightarrow> 'r list \<Rightarrow> int" where
  "count_where P rows = int (length (filter P rows))"

definition insert_or_nothing :: "('r \<Rightarrow> 'k) \<Rightarrow> 'r \<Rightarrow> 'r list \<Rightarrow> 'r list" where
  "insert_or_nothing key r rows =
     (if exists_where (\<lambda>x. key x = key r) rows then rows else rows @ [r])"

lemma set_delete_where [table_simps]: "set (delete_where P rows) = {r \<in> set rows. \<not> P r}"
  by (auto simp: delete_where_def)

lemma set_update_where [table_simps]:
  "set (update_where P f rows) = {r \<in> set rows. \<not> P r} \<union> f ` {r \<in> set rows. P r}"
  by (auto simp: update_where_def)

lemma exists_where_iff [table_simps]: "exists_where P rows \<longleftrightarrow> (\<exists>r \<in> set rows. P r)"
  by (auto simp: exists_where_def list_ex_iff)

lemma set_insert_or_nothing:
  "set (insert_or_nothing key r rows) =
     (if \<exists>x \<in> set rows. key x = key r then set rows else insert r (set rows))"
  by (auto simp: insert_or_nothing_def exists_where_iff)

lemma keys_insert_or_nothing [table_simps]:
  "key ` set (insert_or_nothing key r rows) = insert (key r) (key ` set rows)"
proof (cases "\<exists>x \<in> set rows. key x = key r")
  case True
  then have "key r \<in> key ` set rows" by (metis imageI)
  with True show ?thesis
    by (simp add: insert_or_nothing_def exists_where_iff insert_absorb)
qed (auto simp: insert_or_nothing_def exists_where_iff)

lemma delete_where_Nil [simp]: "delete_where P [] = []"
  by (simp add: delete_where_def)

lemma delete_where_append [table_simps]:
  "delete_where P (xs @ ys) = delete_where P xs @ delete_where P ys"
  by (simp add: delete_where_def)

lemma delete_where_idle: "(\<And>r. r \<in> set rows \<Longrightarrow> \<not> P r) \<Longrightarrow> delete_where P rows = rows"
  by (auto simp: delete_where_def filter_id_conv)

lemma delete_where_twice [table_simps]: "delete_where P (delete_where P rows) = delete_where P rows"
  by (simp add: delete_where_def)

lemma count_where_append [table_simps]:
  "count_where P (xs @ ys) = count_where P xs + count_where P ys"
  by (simp add: count_where_def)

lemma count_where_Nil [simp]: "count_where P [] = 0"
  by (simp add: count_where_def)

lemma count_where_single [simp]: "count_where P [x] = (if P x then 1 else 0)"
  by (simp add: count_where_def)

lemma count_where_nonneg [simp]: "0 \<le> count_where P rows"
  by (simp add: count_where_def)

lemma count_where_delete_where [table_simps]:
  "count_where P (delete_where Q rows) = count_where (\<lambda>r. P r \<and> \<not> Q r) rows"
  by (simp add: count_where_def delete_where_def conj_commute)

lemma count_where_0_iff: "count_where P rows = 0 \<longleftrightarrow> (\<forall>r \<in> set rows. \<not> P r)"
  by (auto simp: count_where_def filter_empty_conv)

lemma find_SomeD: "find P xs = Some x \<Longrightarrow> x \<in> set xs \<and> P x"
  by (auto simp: find_Some_iff)

lemma map_key_update_where:
  assumes "\<And>r. P r \<Longrightarrow> key (f r) = key r"
  shows "map key (update_where P f rows) = map key rows"
  using assms by (auto simp: update_where_def)

lemma filter_update_where:
  "(\<And>r. P r \<Longrightarrow> \<not> Q r \<and> \<not> Q (f r)) \<Longrightarrow> filter Q (update_where P f rows) = filter Q rows"
  by (induction rows) (auto simp: update_where_def)

lemma distinct_map_inj:
  "distinct (map key rows) \<Longrightarrow> x \<in> set rows \<Longrightarrow> y \<in> set rows \<Longrightarrow> key x = key y \<Longrightarrow> x = y"
  by (auto simp: distinct_map dest: inj_onD)

lemma distinct_map_delete_where:
  "distinct (map key rows) \<Longrightarrow> distinct (map key (delete_where P rows))"
  by (simp add: delete_where_def distinct_map_filter)

lemma distinct_map_insert_or_nothing:
  "distinct (map key rows) \<Longrightarrow> distinct (map key (insert_or_nothing key r rows))"
  by (auto simp: insert_or_nothing_def exists_where_iff)

lemma find_unique:
  assumes "distinct (map key rows)" "r \<in> set rows"
  shows "find (\<lambda>x. key x = key r) rows = Some r"
proof -
  from assms(2) have "find (\<lambda>x. key x = key r) rows \<noteq> None"
    by (auto simp: find_None_iff)
  then obtain x where x: "find (\<lambda>x. key x = key r) rows = Some x"
    by blast
  with assms have "x = r"
    by (auto dest!: find_SomeD intro: distinct_map_inj)
  with x show ?thesis by simp
qed

subsection \<open>Looking up by key after a statement\<close>

lemma find_append: "find P (xs @ ys) = (case find P xs of None \<Rightarrow> find P ys | Some x \<Rightarrow> Some x)"
  by (induction xs) auto

lemma lookup_delete_where:
  assumes "distinct (map key rows)"
  shows "find (\<lambda>x. key x = k) (delete_where P rows) = Option.bind (find (\<lambda>x. key x = k) rows) (\<lambda>r. if P r then None else Some r)"
  using assms
proof (induction rows)
  case (Cons r rows)
  have "find (\<lambda>x. key x = k) (delete_where P rows) = None" if "key r = k"
    using that Cons.prems by (auto simp: find_None_iff table_simps) (metis imageI)
  with Cons show ?case by (auto simp: delete_where_def)
qed simp

lemma lookup_update_where:
  assumes "\<And>r. P r \<Longrightarrow> key (f r) = key r"
  shows "find (\<lambda>x. key x = k) (update_where P f rows) = map_option (\<lambda>r. if P r then f r else r) (find (\<lambda>x. key x = k) rows)"
  using assms by (induction rows) (auto simp: update_where_def)

lemma lookup_insert_or_nothing:
  "find (\<lambda>x. key x = k) (insert_or_nothing key r rows)
     = (case find (\<lambda>x. key x = k) rows of None \<Rightarrow> if key r = k then Some r else None | Some x \<Rightarrow> Some x)"
proof (cases "\<exists>x \<in> set rows. key x = key r")
  case True
  then have "find (\<lambda>x. key x = k) rows \<noteq> None" if "key r = k"
    using that by (auto simp: find_None_iff)
  with True show ?thesis
    by (auto simp: insert_or_nothing_def exists_where_iff split: option.split)
qed (auto simp: insert_or_nothing_def exists_where_iff find_append split: option.split)

subsection \<open>The interface of a table with a unique key\<close>

text \<open>
  \<open>rows\<close> reads a table of a database record, \<open>put\<close> writes it, \<open>key\<close> is the column list of a
  unique index. The assumptions are the laws of a record field; what the components use are the
  lemmas: statements keep the key unique, a lookup finds the row, an upsert adds at most one.
\<close>

locale unique_table =
  fixes key :: "'r \<Rightarrow> 'k"
    and rows :: "'s \<Rightarrow> 'r list"
    and put :: "'r list \<Rightarrow> 's \<Rightarrow> 's"
  assumes rows_put: "rows (put xs s) = xs"
    and put_rows: "put (rows s) s = s"
    and put_put: "put xs (put ys s) = put xs s"
begin

lemma unique_delete:
  "distinct (map key (rows s)) \<Longrightarrow> distinct (map key (rows (put (delete_where P (rows s)) s)))"
  by (simp add: rows_put distinct_map_delete_where)

lemma unique_insert:
  "distinct (map key (rows s)) \<Longrightarrow>
   distinct (map key (rows (put (insert_or_nothing key r (rows s)) s)))"
  by (simp add: rows_put distinct_map_insert_or_nothing)

lemma unique_update:
  assumes "\<And>r. P r \<Longrightarrow> key (f r) = key r"
    and "distinct (map key (rows s))"
  shows "distinct (map key (rows (put (update_where P f (rows s)) s)))"
  using assms by (simp add: rows_put map_key_update_where)

lemma lookup_row:
  "distinct (map key (rows s)) \<Longrightarrow> r \<in> set (rows s) \<Longrightarrow>
   find (\<lambda>x. key x = key r) (rows s) = Some r"
  by (rule find_unique)

lemma row_of_key:
  "distinct (map key (rows s)) \<Longrightarrow> x \<in> set (rows s) \<Longrightarrow> y \<in> set (rows s) \<Longrightarrow> key x = key y \<Longrightarrow> x = y"
  by (rule distinct_map_inj)

lemma insert_present:
  "x \<in> set (rows s) \<Longrightarrow> key x = key r \<Longrightarrow> put (insert_or_nothing key r (rows s)) s = s"
  by (auto simp: insert_or_nothing_def exists_where_iff put_rows)

lemma insert_twice:
  "put (insert_or_nothing key r (rows (put (insert_or_nothing key r (rows s)) s)))
       (put (insert_or_nothing key r (rows s)) s) = put (insert_or_nothing key r (rows s)) s"
  by (auto simp: rows_put put_put insert_or_nothing_def exists_where_iff)

lemma delete_after_insert:
  assumes "\<forall>x \<in> set (rows s). key x \<noteq> key r"
  shows "put (delete_where (\<lambda>x. key x = key r) (rows (put (insert_or_nothing key r (rows s)) s)))
           (put (insert_or_nothing key r (rows s)) s) = s"
proof -
  have "delete_where (\<lambda>x. key x = key r) (rows s @ [r]) = rows s"
    using assms by (auto simp: delete_where_def filter_id_conv)
  then show ?thesis
    using assms by (auto simp: rows_put put_put insert_or_nothing_def exists_where_iff put_rows)
qed

end

end
