(* ===== verification/Schema.thy ===== *)
theory Schema
  imports Prelude
begin

text \<open>
  The database of \<^verbatim>\<open>libweasyl/models/tables.py\<close>: one record per table with the table's columns (the
  prefix is the alias the queries use), and the state of the site as a chain of records, each
  extending the one before: the caches, the accounts, the social graph, the content, the tags. An
  operation is typed over the smallest part of the chain that holds the tables it touches.

  Columns: \<open>Integer\<close> is \<open>int\<close>, \<open>String\<close>/\<open>Text\<close>/\<open>BYTEA\<close> is \<open>string\<close>, a nullable column is an \<open>option\<close>, a
  timestamp is its number of seconds. \<open>staff_sets\<close> are the sets of \<^verbatim>\<open>libweasyl/staff.py\<close>. A
  \<open>.._seq\<close> field is the sequence a generated key is drawn from.
\<close>

subsection \<open>Staff\<close>

record staff_config =
  directors :: "int list"
  admins :: "int list"
  mods :: "int list"
  developers :: "int list"
  wesley :: "int option"

record staff_sets =
  DIRECTORS :: "int set"
  ADMINS :: "int set"
  MODS :: "int set"
  DEVELOPERS :: "int set"
  WESLEY :: "int option"

definition init_staff :: "staff_config \<Rightarrow> staff_sets" where
  "init_staff config =
     (let ds = set (directors config);
          as = ds \<union> set (admins config);
          ms = as \<union> set (mods config)
      in \<lparr>DIRECTORS = ds, ADMINS = as, MODS = ms,
          DEVELOPERS = set (developers config), WESLEY = wesley config\<rparr>)"

definition user_type :: "staff_sets \<Rightarrow> int \<Rightarrow> string option" where
  "user_type st userid =
     (if userid \<in> DIRECTORS st then Some ''director''
      else if userid \<in> ADMINS st then Some ''admin''
      else if userid \<in> MODS st then Some ''mod''
      else if userid \<in> DEVELOPERS st then Some ''dev''
      else None)"

subsection \<open>Account tables\<close>

datatype permissions = Perm_nobody | Perm_friends | Perm_everyone
datatype profile_status = PS_exclude | PS_closed | PS_filled | PS_sometimes | PS_open
datatype rating_enum = Rating_general | Rating_mature | Rating_explicit
datatype thumbnail_bar = TB_submissions | TB_collections | TB_characters

record authbcrypt_row =
  ab_userid :: int
  ab_hashsum :: string

record emailverify_row =
  ev_userid :: int
  ev_email :: string
  ev_createtimestamp :: int
  ev_token :: string

record forgotpassword_row =
  fp_token_sha256 :: string
  fp_email :: string
  fp_created_at :: int

record login_row =
  lo_userid :: int
  lo_login_name :: string
  lo_last_login :: int
  lo_email :: string
  lo_twofa_secret :: "string option"
  lo_ip_address_at_signup :: "string option"
  lo_voucher :: "int option"
  lo_last_read_updateid :: "int option"

record recovery_code_row =
  rc_userid :: int
  rc_recovery_code_hash :: string

record logincreate_row =
  lc_token :: string
  lc_username :: string
  lc_login_name :: string
  lc_hashpass :: string
  lc_email :: string
  lc_created_at :: int
  lc_invalid :: bool
  lc_invalid_email_addr :: "string option"
  lc_ip_address_signup_request :: "string option"

record permaban_row =
  pb_userid :: int
  pb_reason :: string

record suspension_row =
  sp_userid :: int
  sp_reason :: string
  sp_release :: int

type_synonym jsonb = "(string \<times> bool) list"

record profile_row =
  pr_userid :: int
  pr_username :: string
  pr_full_name :: string
  pr_catchphrase :: string
  pr_artist_type :: string
  pr_created_at :: int
  pr_latest_submission_time :: int
  pr_profile_text :: string
  pr_settings :: string
  pr_commissions_status :: "profile_status option"
  pr_trades_status :: "profile_status option"
  pr_requests_status :: "profile_status option"
  pr_streaming_later :: "bool option"
  pr_stream_url :: string
  pr_page_views :: int
  pr_config :: string
  pr_show_age :: "bool option"
  pr_can_suggest_tags :: bool
  pr_premium :: bool
  pr_favorites_visibility :: "permissions option"
  pr_favorites_bar :: "bool option"
  pr_shouts_from :: "permissions option"
  pr_messages_from :: "permissions option"
  pr_profile_guests :: "bool option"
  pr_profile_stats :: "bool option"
  pr_max_rating :: "rating_enum option"
  pr_watch_defaults :: "string option"
  pr_thumbnail_bar :: "thumbnail_bar option"
  pr_jsonb_settings :: "jsonb option"
  pr_allow_collection_requests :: "bool option"
  pr_collection_notifs :: "bool option"
  pr_custom_thumbs :: "bool option"
  pr_stream_text :: "string option"

text \<open>The values of a \<open>JSONValuesColumn\<close>.\<close>

datatype json = J_null | J_bool bool | J_int int | J_string string

record session_row =
  ss_sessionid :: string
  ss_created_at :: int
  ss_last_active :: "int option"
  ss_userid :: "int option"
  ss_additional_data :: "(string \<times> json) list"
  ss_ip_address :: "string option"
  ss_user_agent_id :: "int option"

record user_agent_row =
  ua_user_agent_id :: int
  ua_user_agent :: string

record user_event_row =
  ue_eventid :: int
  ue_userid :: int
  ue_event :: string
  ue_data :: "(string \<times> json) list"
  ue_occurred :: int

record useralias_row =
  al_userid :: int
  al_alias_name :: string
  al_settings :: string

record userinfo_row =
  ui_userid :: int
  ui_birthday :: "(int \<times> int \<times> int) option"
  ui_asserted_adult :: bool
  ui_gender :: string
  ui_country :: string

record user_link_row =
  ul_linkid :: int
  ul_userid :: int
  ul_link_type :: string
  ul_link_value :: string

record user_stream_row =
  us_userid :: int
  us_start_time :: int
  us_end_time :: int

record username_history_row =
  uh_historyid :: int
  uh_userid :: int
  uh_username :: string
  uh_login_name :: string
  uh_replaced_at :: int
  uh_replaced_by :: int
  uh_active :: bool
  uh_deactivated_at :: "int option"
  uh_deactivated_by :: "int option"
  uh_cosmetic :: bool

subsection \<open>Social tables\<close>

record frienduser_row =
  fu_userid :: int
  fu_otherid :: int
  fu_settings :: string
  fu_created_at :: int
  fu_accepted_at :: "int option"

record ignoreuser_row =
  iu_userid :: int
  iu_otherid :: int

record watchuser_row =
  wu_userid :: int
  wu_otherid :: int
  wu_settings :: string
  wu_created_at :: int

record welcome_row =
  we_welcomeid :: int
  we_userid :: int
  we_otherid :: int
  we_referid :: int
  we_targetid :: int
  we_unixtime :: int
  we_type :: int
  we_deleted :: "int option"

record message_row =
  ms_noteid :: int
  ms_userid :: int
  ms_otherid :: int
  ms_user_folder :: int
  ms_other_folder :: int
  ms_title :: string
  ms_content :: string
  ms_unixtime :: int
  ms_settings :: string

record permitted_sender_row =
  ps_userid :: int
  ps_sender :: int

subsection \<open>Content tables\<close>

record submission_row =
  su_submitid :: int
  su_folderid :: "int option"
  su_userid :: int
  su_unixtime :: int
  su_title :: string
  su_content :: string
  su_subtype :: int
  su_rating :: int
  su_page_views :: int
  su_hidden :: bool
  su_friends_only :: bool
  su_critique :: bool
  su_embed_type :: "string option"
  su_favorites :: int
  su_submitter_ip_address :: "string option"
  su_submitter_user_agent_id :: "int option"
  su_browse_excluded :: "bool option"

record character_row =
  ch_charid :: int
  ch_userid :: int
  ch_unixtime :: int
  ch_char_name :: string
  ch_age :: string
  ch_gender :: string
  ch_height :: string
  ch_weight :: string
  ch_species :: string
  ch_content :: string
  ch_rating :: int
  ch_settings :: string
  ch_hidden :: bool
  ch_friends_only :: bool
  ch_page_views :: int

record journal_row =
  jo_journalid :: int
  jo_userid :: int
  jo_title :: string
  jo_content :: string
  jo_rating :: int
  jo_unixtime :: int
  jo_hidden :: bool
  jo_friends_only :: bool
  jo_page_views :: int
  jo_submitter_ip_address :: "string option"
  jo_submitter_user_agent_id :: "int option"

record folder_row =
  fd_folderid :: int
  fd_parentid :: int
  fd_userid :: int
  fd_title :: string
  fd_settings :: string

record collection_row =
  co_userid :: int
  co_submitid :: int
  co_unixtime :: int
  co_settings :: string

record favorite_row =
  fa_userid :: int
  fa_targetid :: int
  fa_type :: string
  fa_unixtime :: int

record comments_row =
  cm_commentid :: int
  cm_userid :: int
  cm_target_user :: "int option"
  cm_target_sub :: "int option"
  cm_parentid :: "int option"
  cm_content :: string
  cm_unixtime :: int
  cm_settings :: string
  cm_hidden_by :: "int option"

record charcomment_row =
  cc_commentid :: int
  cc_userid :: int
  cc_targetid :: int
  cc_parentid :: int
  cc_content :: string
  cc_unixtime :: int
  cc_settings :: string
  cc_hidden_by :: "int option"

record journalcomment_row =
  jc_commentid :: int
  jc_userid :: int
  jc_targetid :: int
  jc_parentid :: int
  jc_content :: string
  jc_unixtime :: int
  jc_settings :: string
  jc_hidden_by :: "int option"

record siteupdate_row =
  sit_updateid :: int
  sit_userid :: int
  sit_wesley :: bool
  sit_title :: string
  sit_content :: string
  sit_unixtime :: int

record siteupdatecomment_row =
  sc_commentid :: int
  sc_userid :: int
  sc_targetid :: int
  sc_parentid :: "int option"
  sc_content :: string
  sc_created_at :: int
  sc_hidden_at :: "int option"
  sc_hidden_by :: "int option"

record view_row =
  vw_viewer :: string
  vw_targetid :: int
  vw_type :: int
  vw_viewed_at :: int

subsection \<open>Tag tables\<close>

record searchtag_row =
  st_tagid :: int
  st_title :: string

record searchmap_row =
  sm_tagid :: int
  sm_targetid :: int
  sm_settings :: string
  sm_added_by :: "int option"

record blocktag_row =
  bt_userid :: int
  bt_tagid :: int
  bt_rating :: int

record artist_tag_row =
  at_tagid :: int
  at_targetid :: int

record globally_restricted_row =
  gr_tagid :: int
  gr_userid :: int

record user_restricted_row =
  ur_tagid :: int
  ur_userid :: int

record submission_tags_row =
  tg_submitid :: int
  tg_tags :: "int list"

record tag_feedback_row =
  tf_targetid :: int
  tf_tagid :: int
  tf_userid :: int
  tf_last_modified :: int
  tf_incorrect :: bool
  tf_unwanted :: bool
  tf_abusive :: bool

record tag_update_row =
  tu_updateid :: int
  tu_submitid :: int
  tu_userid :: int
  tu_added :: "string list"
  tu_removed :: "string list"
  tu_updated_at :: int

end
