(* ===== verification/Ratings.thy ===== *)
theory Ratings
  imports Prelude
begin

text \<open>
  Content ratings, \<^verbatim>\<open>libweasyl/ratings.py\<close>: the three \<open>Rating\<close> objects of the module with their
  attributes, the total order on their codes (\<open>functools.total_ordering\<close>), the lookup tables by
  code and by character, and the ratings open to an age. The database holds a rating as its code.
\<close>

datatype rating = GENERAL | MATURE | EXPLICIT

fun rating_code :: "rating \<Rightarrow> int" where
  "rating_code GENERAL = 10"
| "rating_code MATURE = 30"
| "rating_code EXPLICIT = 40"

fun rating_character :: "rating \<Rightarrow> char" where
  "rating_character GENERAL = CHR ''g''"
| "rating_character MATURE = CHR ''a''"
| "rating_character EXPLICIT = CHR ''p''"

fun rating_name :: "rating \<Rightarrow> string" where
  "rating_name GENERAL = ''general''"
| "rating_name MATURE = ''mature''"
| "rating_name EXPLICIT = ''explicit''"

fun minimum_age :: "rating \<Rightarrow> int" where
  "minimum_age GENERAL = 0"
| "minimum_age MATURE = 18"
| "minimum_age EXPLICIT = 18"

definition ALL_RATINGS :: "rating list" where
  "ALL_RATINGS = [GENERAL, MATURE, EXPLICIT]"

definition CODE_MAP :: "int \<Rightarrow> rating option" where
  "CODE_MAP = map_of (map (\<lambda>r. (rating_code r, r)) ALL_RATINGS)"

definition CHARACTER_MAP :: "char \<Rightarrow> rating option" where
  "CHARACTER_MAP = map_of (map (\<lambda>r. (rating_character r, r)) ALL_RATINGS)"

definition CODE_TO_NAME :: "int \<Rightarrow> string option" where
  "CODE_TO_NAME = map_of (map (\<lambda>r. (rating_code r, rating_name r)) ALL_RATINGS)"

text \<open>\<open>__eq__\<close> and \<open>__lt__\<close> compare codes, which are different for different ratings.\<close>

lemma rating_code_inject [simp]: "rating_code a = rating_code b \<longleftrightarrow> a = b"
  by (cases a; cases b) auto

instantiation rating :: linorder
begin

definition less_rating :: "rating \<Rightarrow> rating \<Rightarrow> bool" where
  "less_rating a b = (rating_code a < rating_code b)"

definition less_eq_rating :: "rating \<Rightarrow> rating \<Rightarrow> bool" where
  "less_eq_rating a b = (rating_code a < rating_code b \<or> rating_code a = rating_code b)"

instance
proof
  fix x y z :: rating
  show "(x < y) = (x \<le> y \<and> \<not> y \<le> x)" "x \<le> x" "x \<le> y \<or> y \<le> x"
    by (cases x; cases y; simp add: less_rating_def less_eq_rating_def)+
  show "x \<le> y \<Longrightarrow> y \<le> z \<Longrightarrow> x \<le> z" "x \<le> y \<Longrightarrow> y \<le> x \<Longrightarrow> x = y"
    by (auto simp: less_eq_rating_def)
qed

end

definition is_adult :: "rating \<Rightarrow> bool" where
  "is_adult r = (r > GENERAL)"

definition get_ratings_for_age :: "int option \<Rightarrow> rating list" where
  "get_ratings_for_age age =
     (case age of
        None \<Rightarrow> ALL_RATINGS
      | Some a \<Rightarrow> (let a' = max 0 a in filter (\<lambda>r. minimum_age r \<le> a') ALL_RATINGS))"

lemma less_eq_rating_code: "a \<le> b \<longleftrightarrow> rating_code a \<le> rating_code b"
  by (cases a; cases b) (simp_all add: less_eq_rating_def)

lemma minimum_age_mono: "a \<le> b \<Longrightarrow> minimum_age a \<le> minimum_age b"
  by (cases a; cases b) (auto simp: less_eq_rating_def)

lemma set_ALL_RATINGS [simp]: "set ALL_RATINGS = UNIV"
  by (auto simp: ALL_RATINGS_def intro: rating.exhaust)

lemma CODE_MAP_iff: "CODE_MAP c = Some r \<longleftrightarrow> c = rating_code r"
  by (cases r) (auto simp: CODE_MAP_def ALL_RATINGS_def)

lemma CODE_MAP_code [simp]: "CODE_MAP (rating_code r) = Some r"
  by (simp add: CODE_MAP_iff)

lemma CHARACTER_MAP_character [simp]: "CHARACTER_MAP (rating_character r) = Some r"
  by (cases r) (auto simp: CHARACTER_MAP_def ALL_RATINGS_def)

lemma CODE_TO_NAME_code [simp]: "CODE_TO_NAME (rating_code r) = Some (rating_name r)"
  by (cases r) (auto simp: CODE_TO_NAME_def ALL_RATINGS_def)

lemma ratings_for_age_iff:
  "r \<in> set (get_ratings_for_age age) \<longleftrightarrow> (\<forall>a. age = Some a \<longrightarrow> minimum_age r \<le> max 0 a)"
  by (auto simp: get_ratings_for_age_def Let_def split: option.splits)

lemma minor_sees_general_only:
  "a < 18 \<Longrightarrow> get_ratings_for_age (Some a) = [GENERAL]"
  by (auto simp: get_ratings_for_age_def ALL_RATINGS_def Let_def)

lemma is_adult_iff: "is_adult r \<longleftrightarrow> minimum_age r = 18"
  by (cases r) (auto simp: is_adult_def less_rating_def)

end
