(* ===== verification/Prefix_Trie.thy ===== *)
theory Prefix_Trie
  imports Prelude "HOL-Library.Sublist"
begin

text \<open>
  \<^verbatim>\<open>weasyl/util/trie.py\<close>: a set of sequences with an efficient \<open>contains_prefix_of\<close>, used for the list
  of disposable e-mail domains. \<open>Full\<close> is the value \<open>True\<close> of the code's nested dictionaries, the
  end of an item below which nothing is kept; \<open>Inner\<close> is a dictionary.
\<close>

datatype 'a trie = Full | Inner "'a \<Rightarrow> 'a trie option"

fun trie_add :: "'a list \<Rightarrow> 'a trie \<Rightarrow> 'a trie" where
  "trie_add [] node = Full"
| "trie_add (component # item) Full = Full"
| "trie_add (component # item) (Inner d) =
     (let child = (case d component of None \<Rightarrow> Inner (\<lambda>_. None) | Some t \<Rightarrow> t)
      in Inner (d(component := Some (trie_add item child))))"

definition trie_of :: "'a list list \<Rightarrow> 'a trie" where
  "trie_of items = fold trie_add items (Inner (\<lambda>_. None))"

fun contains_prefix_of :: "'a trie \<Rightarrow> 'a list \<Rightarrow> bool" where
  "contains_prefix_of Full path = True"
| "contains_prefix_of (Inner d) [] = False"
| "contains_prefix_of (Inner d) (component # path) =
     (case d component of None \<Rightarrow> False | Some t \<Rightarrow> contains_prefix_of t path)"

lemma contains_empty [simp]: "\<not> contains_prefix_of (Inner (\<lambda>_. None)) path"
  by (cases path) auto

lemma contains_add:
  "contains_prefix_of (trie_add item t) path \<longleftrightarrow> contains_prefix_of t path \<or> prefix item path"
proof (induction item t arbitrary: path rule: trie_add.induct)
  case (3 component item d)
  then show ?case
    by (cases path) (auto split: option.splits)
qed auto

lemma contains_fold_add:
  "contains_prefix_of (fold trie_add items t) path \<longleftrightarrow>
     contains_prefix_of t path \<or> (\<exists>item \<in> set items. prefix item path)"
  by (induction items arbitrary: t) (auto simp: contains_add)

text \<open>
  The trie represents exactly the set it is built from: it reports a prefix of a path if and
  only if one of the inserted sequences is a prefix of it, whatever the order of insertion and
  however the items overlap (adding a shorter item drops the longer ones it covers).
\<close>

theorem trie_contains_prefix:
  "contains_prefix_of (trie_of items) path \<longleftrightarrow> (\<exists>item \<in> set items. prefix item path)"
  by (simp add: trie_of_def contains_fold_add)

text \<open>The set of sequences a trie stands for, and the operations as set operations on it.\<close>

definition trie_paths :: "'a trie \<Rightarrow> 'a list set" where
  "trie_paths t = {p. contains_prefix_of t p}"

lemma trie_paths_add: "trie_paths (trie_add item t) = trie_paths t \<union> {p. prefix item p}"
  by (auto simp: trie_paths_def contains_add)

lemma trie_paths_closed: "p \<in> trie_paths t \<Longrightarrow> prefix p q \<Longrightarrow> q \<in> trie_paths t"
proof (induction t p arbitrary: q rule: contains_prefix_of.induct)
  case (3 d component path)
  then show ?case
    by (cases q) (auto simp: trie_paths_def split: option.splits)
qed (auto simp: trie_paths_def)

locale prefix_set =
  fixes add :: "'a list \<Rightarrow> 't \<Rightarrow> 't"
    and contains :: "'t \<Rightarrow> 'a list \<Rightarrow> bool"
    and paths :: "'t \<Rightarrow> 'a list set"
  assumes contains_paths: "contains t p \<longleftrightarrow> p \<in> paths t"
    and paths_add: "paths (add item t) = paths t \<union> {p. prefix item p}"
    and paths_closed: "p \<in> paths t \<Longrightarrow> prefix p q \<Longrightarrow> q \<in> paths t"
begin

lemma contains_added: "prefix item p \<Longrightarrow> contains (add item t) p"
  by (simp add: contains_paths paths_add)

lemma contains_mono: "contains t p \<Longrightarrow> contains (add item t) p"
  by (simp add: contains_paths paths_add)

lemma add_commute: "paths (add x (add y t)) = paths (add y (add x t))"
  by (auto simp: paths_add)

lemma add_covered: "contains t item \<Longrightarrow> paths (add item t) = paths t"
  by (auto simp: contains_paths paths_add dest: paths_closed)

end

interpretation trie: prefix_set trie_add contains_prefix_of trie_paths
  by unfold_locales (auto simp: trie_paths_def contains_add intro: trie_paths_closed [unfolded trie_paths_def mem_Collect_eq])

end
