(* ===== verification/Cache_Proxy.thy ===== *)
theory Cache_Proxy
  imports Prelude
begin

text \<open>
  \<^verbatim>\<open>libweasyl/cache.py\<close>: \<open>ThreadCacheProxy\<close>, the thread-local dictionary in front of memcached. The
  proxied backend (pylibmc, not part of the repository) is a parameter: its state has type \<open>'b\<close> and
  its calls are arguments of the definitions; \<open>None\<close> is dogpile's \<open>NO_VALUE\<close>. Nothing is assumed of
  what the backend keeps: it may lose values, give others than those that were set (\<open>JsonClient\<close>
  gives decoded ones) and be written by others at any time. The only law is that its \<open>get_multi\<close>
  answers as its \<open>get\<close> would, the locale \<open>cache_reads\<close>; a proxy in front of such a backend has
  the same law.
\<close>

record ('k, 'v, 'b) proxy =
  local_dict :: "'k \<Rightarrow> 'v option"
  proxied :: 'b

definition zap_cache :: "('k, 'v, 'b) proxy \<Rightarrow> ('k, 'v, 'b) proxy" where
  "zap_cache p = p\<lparr>local_dict := (\<lambda>_. None)\<rparr>"

definition proxy_get ::
  "('k \<Rightarrow> 'b \<Rightarrow> 'v option) \<Rightarrow> 'k \<Rightarrow> ('k, 'v, 'b) proxy \<Rightarrow> 'v option \<times> ('k, 'v, 'b) proxy" where
  "proxy_get bget key p =
     (case local_dict p key of
        Some v \<Rightarrow> (Some v, p)
      | None \<Rightarrow>
          (case bget key (proxied p) of
             None \<Rightarrow> (None, p)
           | Some ret \<Rightarrow> (Some ret, p\<lparr>local_dict := (local_dict p)(key \<mapsto> ret)\<rparr>)))"

text \<open>The loop of \<open>get_multi\<close> over the fetched keys, their indices and the fetched values.\<close>

fun fill_fetched ::
  "('k \<times> nat \<times> 'v option) list \<Rightarrow> ('k \<Rightarrow> 'v option) \<Rightarrow> 'v option list
     \<Rightarrow> ('k \<Rightarrow> 'v option) \<times> 'v option list" where
  "fill_fetched [] d ret = (d, ret)"
| "fill_fetched ((key, index, None) # rest) d ret = fill_fetched rest d ret"
| "fill_fetched ((key, index, Some value) # rest) d ret =
     fill_fetched rest (d(key \<mapsto> value)) (ret[index := Some value])"

definition missing_keys :: "'k list \<Rightarrow> ('k \<Rightarrow> 'v option) \<Rightarrow> ('k \<times> nat) list" where
  "missing_keys keys d = filter (\<lambda>(key, i). d key = None) (zip keys [0..<length keys])"

definition proxy_get_multi ::
  "('k list \<Rightarrow> 'b \<Rightarrow> 'v option list) \<Rightarrow> 'k list \<Rightarrow> ('k, 'v, 'b) proxy
     \<Rightarrow> 'v option list \<times> ('k, 'v, 'b) proxy" where
  "proxy_get_multi bget_multi keys p =
     (let d = local_dict p;
          to_fetch = missing_keys keys d;
          ret = map d keys
      in if to_fetch = [] then (ret, p)
         else (let keys_to_fetch = map fst to_fetch;
                   indices = map snd to_fetch;
                   (d', ret') = fill_fetched
                     (zip keys_to_fetch (zip indices (bget_multi keys_to_fetch (proxied p)))) d ret
               in (ret', p\<lparr>local_dict := d'\<rparr>)))"

definition proxy_set ::
  "('k \<Rightarrow> 'v \<Rightarrow> 'b \<Rightarrow> 'b) \<Rightarrow> 'k \<Rightarrow> 'v \<Rightarrow> ('k, 'v, 'b) proxy \<Rightarrow> ('k, 'v, 'b) proxy" where
  "proxy_set bset key value p =
     p\<lparr>local_dict := (local_dict p)(key \<mapsto> value), proxied := bset key value (proxied p)\<rparr>"

definition proxy_set_multi ::
  "(('k \<times> 'v) list \<Rightarrow> 'b \<Rightarrow> 'b) \<Rightarrow> ('k \<times> 'v) list \<Rightarrow> ('k, 'v, 'b) proxy \<Rightarrow> ('k, 'v, 'b) proxy" where
  "proxy_set_multi bset_multi pairs p =
     p\<lparr>local_dict := fold (\<lambda>(k, v) d. d(k \<mapsto> v)) pairs (local_dict p),
       proxied := bset_multi pairs (proxied p)\<rparr>"

definition proxy_delete :: "('k \<Rightarrow> 'b \<Rightarrow> 'b) \<Rightarrow> 'k \<Rightarrow> ('k, 'v, 'b) proxy \<Rightarrow> ('k, 'v, 'b) proxy" where
  "proxy_delete bdelete key p =
     p\<lparr>local_dict := (local_dict p)(key := None), proxied := bdelete key (proxied p)\<rparr>"

definition proxy_delete_multi ::
  "('k list \<Rightarrow> 'b \<Rightarrow> 'b) \<Rightarrow> 'k list \<Rightarrow> ('k, 'v, 'b) proxy \<Rightarrow> ('k, 'v, 'b) proxy" where
  "proxy_delete_multi bdelete_multi keys p =
     p\<lparr>local_dict := fold (\<lambda>k d. d(k := None)) keys (local_dict p),
       proxied := bdelete_multi keys (proxied p)\<rparr>"

subsection \<open>The loop of \<open>get_multi\<close>\<close>

text \<open>
  Every position of the result either holds its key's value already, or is still empty and has its
  entry among the fetched ones left.
\<close>

lemma fill_fetched_result:
  assumes "\<forall>(k, i, v) \<in> set xs. i < length keys \<and> keys ! i = k \<and> v = f k"
    and "length ret = length keys"
    and "\<forall>j < length keys. ret ! j = f (keys ! j) \<or> ret ! j = None \<and> (\<exists>v. (keys ! j, j, v) \<in> set xs)"
  shows "snd (fill_fetched xs d ret) = map f keys"
  using assms
proof (induction xs d ret rule: fill_fetched.induct)
  case (1 d ret)
  then show ?case by (intro nth_equalityI) auto
next
  case (2 key index rest d ret)
  then have "f key = None" "index < length keys" "keys ! index = key" by auto
  with 2(4) have "\<forall>j < length keys. ret ! j = f (keys ! j) \<or>
      ret ! j = None \<and> (\<exists>v. (keys ! j, j, v) \<in> set rest)"
    by force
  with 2 show ?case by simp
next
  case (3 key index val rest d ret)
  have "\<forall>j < length keys. ret[index := Some val] ! j = f (keys ! j) \<or>
      ret[index := Some val] ! j = None \<and> (\<exists>v. (keys ! j, j, v) \<in> set rest)"
  proof (intro allI impI)
    fix j
    assume "j < length keys"
    with 3 show "ret[index := Some val] ! j = f (keys ! j) \<or>
      ret[index := Some val] ! j = None \<and> (\<exists>v. (keys ! j, j, v) \<in> set rest)"
      by (cases "j = index") auto
  qed
  moreover have "\<forall>(k, i, v) \<in> set rest. i < length keys \<and> keys ! i = k \<and> v = f k"
    using "3.prems"(1) by simp
  moreover have "length (ret[index := Some val]) = length keys"
    using "3.prems"(2) by simp
  ultimately have "snd (fill_fetched rest (d(key \<mapsto> val)) (ret[index := Some val])) = map f keys"
    by (intro "3.IH")
  then show ?case by simp
qed

lemma fill_fetched_dict:
  assumes "\<forall>(k, i, v) \<in> set xs. v = f k"
  shows "fst (fill_fetched xs d ret) k = (if f k \<noteq> None \<and> k \<in> fst ` set xs then f k else d k)"
  using assms
proof (induction xs d ret rule: fill_fetched.induct)
  case (2 key index rest d ret)
  then have "f key = None" by auto
  with 2 show ?case by auto
next
  case (3 key index val rest d ret)
  then have here: "f key = Some val" and later: "\<forall>(k, i, v) \<in> set rest. v = f k" by auto
  show ?case
    unfolding fill_fetched.simps "3.IH" [OF later] using here by (cases "k = key") auto
qed simp

lemma missing_keys_entry:
  "(k, i) \<in> set (missing_keys keys d) \<longleftrightarrow> i < length keys \<and> keys ! i = k \<and> d k = None"
  by (auto simp: missing_keys_def set_zip)

lemma missing_keys_keys: "fst ` set (missing_keys keys d) = {k \<in> set keys. d k = None}"
proof (rule set_eqI)
  fix k
  have "k \<in> fst ` set (missing_keys keys d) \<longleftrightarrow> (\<exists>i. (k, i) \<in> set (missing_keys keys d))" by force
  also have "\<dots> \<longleftrightarrow> d k = None \<and> (\<exists>i < length keys. keys ! i = k)" by (auto simp: missing_keys_entry)
  finally show "k \<in> fst ` set (missing_keys keys d) \<longleftrightarrow> k \<in> {k \<in> set keys. d k = None}"
    by (auto simp: in_set_conv_nth)
qed

lemma zip_fetched:
  "set (zip (map fst xs) (zip (map snd xs) (map f (map fst xs)))) = (\<lambda>(k, i). (k, i, f k)) ` set xs"
  by (induction xs) auto

subsection \<open>What a request is answered\<close>

locale cache_reads =
  fixes bget :: "'k \<Rightarrow> 'b \<Rightarrow> 'v option"
    and bget_multi :: "'k list \<Rightarrow> 'b \<Rightarrow> 'v option list"
  assumes get_multi: "bget_multi ks b = map (\<lambda>k. bget k b) ks"

text \<open>What is answered for a key: what the dictionary holds, else what the backend holds.\<close>

definition proxy_answer :: "('k \<Rightarrow> 'b \<Rightarrow> 'v option) \<Rightarrow> ('k, 'v, 'b) proxy \<Rightarrow> 'k \<Rightarrow> 'v option" where
  "proxy_answer bget p k = (case local_dict p k of Some v \<Rightarrow> Some v | None \<Rightarrow> bget k (proxied p))"

lemma proxy_get_answer:
  "proxy_get bget k p = (proxy_answer bget p k, p\<lparr>local_dict := (local_dict p)(k := proxy_answer bget p k)\<rparr>)"
  by (auto simp: proxy_get_def proxy_answer_def fun_upd_idem split: option.split)

context cache_reads
begin

lemma get_multi_answer:
  "proxy_get_multi bget_multi keys p = (map (proxy_answer bget p) keys,
     p\<lparr>local_dict := (\<lambda>k. if k \<in> set keys then proxy_answer bget p k else local_dict p k)\<rparr>)"
proof -
  let ?f = "proxy_answer bget p"
  let ?mk = "missing_keys keys (local_dict p)"
  let ?xs = "zip (map fst ?mk) (zip (map snd ?mk) (bget_multi (map fst ?mk) (proxied p)))"
  have held: "?f k = (if local_dict p k = None then bget k (proxied p) else local_dict p k)" for k
    by (simp add: proxy_answer_def split: option.split)
  have entries: "set ?xs = (\<lambda>(k, i). (k, i, ?f k)) ` set ?mk"
    unfolding get_multi zip_fetched by (intro image_cong) (auto simp: missing_keys_entry held)
  have keys: "fst ` set ?xs = {k \<in> set keys. local_dict p k = None}"
    unfolding entries missing_keys_keys [symmetric] by force
  have ret: "snd (fill_fetched ?xs (local_dict p) (map (local_dict p) keys)) = map ?f keys"
  proof (rule fill_fetched_result)
    show "\<forall>(k, i, v) \<in> set ?xs. i < length keys \<and> keys ! i = k \<and> v = ?f k"
      unfolding entries by (auto simp: missing_keys_entry)
    show "\<forall>j < length keys. map (local_dict p) keys ! j = ?f (keys ! j) \<or>
        map (local_dict p) keys ! j = None \<and> (\<exists>v. (keys ! j, j, v) \<in> set ?xs)"
      unfolding entries using held by (force simp: missing_keys_entry)
  qed simp
  have dict: "fst (fill_fetched ?xs (local_dict p) ret) = (\<lambda>k. if k \<in> set keys then ?f k else local_dict p k)" for ret
  proof
    fix k
    have "\<forall>(k, i, v) \<in> set ?xs. v = ?f k" unfolding entries by auto
    from fill_fetched_dict [OF this, of "local_dict p" ret k]
    show "fst (fill_fetched ?xs (local_dict p) ret) k = (if k \<in> set keys then ?f k else local_dict p k)"
      unfolding keys by (auto simp: held)
  qed
  show ?thesis
  proof (cases "?mk = []")
    case True
    then have "local_dict p k \<noteq> None" if "k \<in> set keys" for k
      using that missing_keys_keys [of keys "local_dict p"] by auto
    then have "?f k = local_dict p k" if "k \<in> set keys" for k
      using held [of k] that by (simp del: not_None_eq)
    then have "map (local_dict p) keys = map ?f keys"
      and "(\<lambda>k. if k \<in> set keys then ?f k else local_dict p k) = local_dict p"
      by auto
    with True show ?thesis by (simp add: proxy_get_multi_def Let_def)
  next
    case False
    with ret dict show ?thesis by (simp add: proxy_get_multi_def Let_def split_def)
  qed
qed

end

text \<open>A proxy in front of a backend with the law has the law, so proxies can be stacked.\<close>

locale thread_cache = cache_reads bget bget_multi
  for bget :: "'k \<Rightarrow> 'b \<Rightarrow> 'v option" and bget_multi

sublocale thread_cache \<subseteq> stacked: cache_reads
  "\<lambda>k p. fst (proxy_get bget k p)" "\<lambda>ks p. fst (proxy_get_multi bget_multi ks p)"
  by unfold_locales (simp add: proxy_get_answer get_multi_answer)

subsection \<open>Traces of requests\<close>

text \<open>
  \<open>CacheOther f\<close> stands for whatever happens to the backend between two calls of the thread: entries
  expire or are thrown out, other processes set and delete them.
\<close>

datatype ('k, 'v, 'b) cache_op =
    CacheGet 'k
  | CacheGetMulti "'k list"
  | CacheSet 'k 'v
  | CacheSetMulti "('k \<times> 'v) list"
  | CacheDelete 'k
  | CacheDeleteMulti "'k list"
  | CacheZap
  | CacheOther "'b \<Rightarrow> 'b"

record ('k, 'v, 'b) backend_calls =
  b_get :: "'k \<Rightarrow> 'b \<Rightarrow> 'v option"
  b_get_multi :: "'k list \<Rightarrow> 'b \<Rightarrow> 'v option list"
  b_set :: "'k \<Rightarrow> 'v \<Rightarrow> 'b \<Rightarrow> 'b"
  b_set_multi :: "('k \<times> 'v) list \<Rightarrow> 'b \<Rightarrow> 'b"
  b_delete :: "'k \<Rightarrow> 'b \<Rightarrow> 'b"
  b_delete_multi :: "'k list \<Rightarrow> 'b \<Rightarrow> 'b"

fun proxy_step ::
  "('k, 'v, 'b) backend_calls \<Rightarrow> ('k, 'v, 'b) cache_op \<Rightarrow> ('k, 'v, 'b) proxy \<Rightarrow> 'v option list \<times> ('k, 'v, 'b) proxy" where
  "proxy_step B (CacheGet k) p = (let (v, p) = proxy_get (b_get B) k p in ([v], p))"
| "proxy_step B (CacheGetMulti ks) p = proxy_get_multi (b_get_multi B) ks p"
| "proxy_step B (CacheSet k v) p = ([], proxy_set (b_set B) k v p)"
| "proxy_step B (CacheSetMulti kvs) p = ([], proxy_set_multi (b_set_multi B) kvs p)"
| "proxy_step B (CacheDelete k) p = ([], proxy_delete (b_delete B) k p)"
| "proxy_step B (CacheDeleteMulti ks) p = ([], proxy_delete_multi (b_delete_multi B) ks p)"
| "proxy_step B CacheZap p = ([], zap_cache p)"
| "proxy_step B (CacheOther f) p = ([], p\<lparr>proxied := f (proxied p)\<rparr>)"

text \<open>A trace pairs every operation with its answers.\<close>

fun proxy_trace ::
  "('k, 'v, 'b) backend_calls \<Rightarrow> ('k, 'v, 'b) cache_op list \<Rightarrow> ('k, 'v, 'b) proxy
     \<Rightarrow> (('k, 'v, 'b) cache_op \<times> 'v option list) list \<times> ('k, 'v, 'b) proxy" where
  "proxy_trace B [] p = ([], p)"
| "proxy_trace B (op # ops) p =
     (let (answers, p) = proxy_step B op p; (trace, p) = proxy_trace B ops p in ((op, answers) # trace, p))"

text \<open>What the operations do to the backend, and the keys they ask for.\<close>

fun backend_step :: "('k, 'v, 'b) backend_calls \<Rightarrow> ('k, 'v, 'b) cache_op \<Rightarrow> 'b \<Rightarrow> 'b" where
  "backend_step B (CacheSet k v) b = b_set B k v b"
| "backend_step B (CacheSetMulti kvs) b = b_set_multi B kvs b"
| "backend_step B (CacheDelete k) b = b_delete B k b"
| "backend_step B (CacheDeleteMulti ks) b = b_delete_multi B ks b"
| "backend_step B (CacheOther f) b = f b"
| "backend_step B _ b = b"

fun keys_read :: "('k, 'v, 'b) cache_op \<Rightarrow> 'k list" where
  "keys_read (CacheGet k) = [k]"
| "keys_read (CacheGetMulti ks) = ks"
| "keys_read _ = []"

text \<open>
  What a trace lets a thread recall of a key: the value it last set or was answered for it since it
  last deleted the key or was zapped.
\<close>

fun recall :: "'k \<Rightarrow> ('k, 'v, 'b) cache_op \<times> 'v option list \<Rightarrow> 'v option \<Rightarrow> 'v option" where
  "recall k (CacheGet k', answers) r = (if k = k' then hd answers else r)"
| "recall k (CacheGetMulti ks, answers) r = (case map_of (zip ks answers) k of Some v \<Rightarrow> v | None \<Rightarrow> r)"
| "recall k (CacheSet k' v, answers) r = (if k = k' then Some v else r)"
| "recall k (CacheSetMulti kvs, answers) r = (case map_of (rev kvs) k of Some v \<Rightarrow> Some v | None \<Rightarrow> r)"
| "recall k (CacheDelete k', answers) r = (if k = k' then None else r)"
| "recall k (CacheDeleteMulti ks, answers) r = (if k \<in> set ks then None else r)"
| "recall k (CacheZap, answers) r = None"
| "recall k (CacheOther f, answers) r = r"

definition recalled :: "'k \<Rightarrow> (('k, 'v, 'b) cache_op \<times> 'v option list) list \<Rightarrow> 'v option" where
  "recalled k trace = fold (recall k) trace None"

lemma recalled_append: "recalled k (trace @ [entry]) = recall k entry (recalled k trace)"
  by (simp add: recalled_def)

lemma fold_set: "fold (\<lambda>(k, v) d. d(k \<mapsto> v)) kvs d = (\<lambda>k. case map_of (rev kvs) k of Some v \<Rightarrow> Some v | None \<Rightarrow> d k)"
  by (induction kvs arbitrary: d) (auto simp: fun_eq_iff map_add_def split: option.split)

lemma fold_delete: "fold (\<lambda>k d. d(k := None)) ks d = (\<lambda>k. if k \<in> set ks then None else d k)"
  by (induction ks arbitrary: d) (auto simp: fun_eq_iff)

lemma map_of_answers: "map_of (zip ks (map f ks)) k = (if k \<in> set ks then Some (f k) else None)"
  by (induction ks) auto

lemma proxy_step_result:
  assumes "cache_reads (b_get B) (b_get_multi B)" "proxy_step B op p = (answers, p')"
  shows "answers = map (proxy_answer (b_get B) p) (keys_read op)"
    and "proxied p' = backend_step B op (proxied p)"
    and "local_dict p' = (\<lambda>k. recall k (op, answers) (local_dict p k))"
proof -
  note multi = cache_reads.get_multi_answer [OF assms(1)]
  show "answers = map (proxy_answer (b_get B) p) (keys_read op)"
    using assms(2) by (cases op) (auto simp: proxy_get_answer multi)
  show "proxied p' = backend_step B op (proxied p)"
    using assms(2)
    by (cases op) (auto simp: proxy_get_answer multi proxy_set_def proxy_set_multi_def proxy_delete_def
        proxy_delete_multi_def zap_cache_def)
  show "local_dict p' = (\<lambda>k. recall k (op, answers) (local_dict p k))"
    using assms(2)
    by (cases op) (auto simp: proxy_get_answer multi proxy_set_def proxy_set_multi_def proxy_delete_def
        proxy_delete_multi_def zap_cache_def fold_set fold_delete map_of_answers fun_eq_iff)
qed

lemma proxy_trace_result:
  assumes "cache_reads (b_get B) (b_get_multi B)"
    and "local_dict p = (\<lambda>k. recalled k past)" "proxy_trace B ops p = (trace, p')"
  shows "map fst trace = ops \<and> proxied p' = fold (backend_step B) ops (proxied p)
    \<and> (\<forall>i < length ops. snd (trace ! i) = map (\<lambda>k. case recalled k (past @ take i trace) of Some v \<Rightarrow> Some v
         | None \<Rightarrow> b_get B k (fold (backend_step B) (take i ops) (proxied p))) (keys_read (ops ! i)))"
  using assms(2,3)
proof (induction ops arbitrary: p past trace)
  case (Cons op ops)
  obtain answers p1 rest where step: "proxy_step B op p = (answers, p1)" "proxy_trace B ops p1 = (rest, p')"
    and trace: "trace = (op, answers) # rest"
    using Cons.prems(2) by (auto split: prod.splits)
  note result = proxy_step_result [OF assms(1) step(1)]
  have "local_dict p1 = (\<lambda>k. recalled k (past @ [(op, answers)]))"
    unfolding result(3) Cons.prems(1) recalled_append ..
  note rest = Cons.IH [OF this step(2)]
  show ?case
  proof (intro conjI allI impI)
    show "map fst trace = op # ops" "proxied p' = fold (backend_step B) (op # ops) (proxied p)"
      using rest result(2) trace by simp_all
    fix i
    assume "i < length (op # ops)"
    then show "snd (trace ! i) = map (\<lambda>k. case recalled k (past @ take i trace) of Some v \<Rightarrow> Some v
         | None \<Rightarrow> b_get B k (fold (backend_step B) (take i (op # ops)) (proxied p))) (keys_read ((op # ops) ! i))"
      using rest result(1,2) trace Cons.prems(1) by (cases i) (simp_all add: proxy_answer_def cong: option.case_cong)
  qed
qed simp

text \<open>
  C37: What the per-thread cache answers, in front of any backend: one that loses values, gives others
  than were set and is written by others between the calls. From a zapped proxy, along every sequence
  of operations, a \<open>get\<close> or \<open>get_multi\<close> answers for every key the value this thread last set or was
  answered for it since it last deleted it or was zapped, and where there is none what the backend
  holds at that moment. So a request sees its own writes and deletions, is answered the same value
  twice, and nothing survives \<open>zap_cache\<close>. The backend gets exactly the thread's sets and deletions, in
  order. Of the backend it is only needed that \<open>get_multi\<close> gives the values of \<open>get\<close>, in order.
\<close>

theorem proxy_request_view:
  assumes "\<And>ks b. b_get_multi B ks b = map (\<lambda>k. b_get B k b) ks"
    and "proxy_trace B ops (zap_cache p) = (trace, p')"
  shows "map fst trace = ops \<and> proxied p' = fold (backend_step B) ops (proxied p)
    \<and> (\<forall>i < length ops. snd (trace ! i) = map (\<lambda>k. case recalled k (take i trace) of Some v \<Rightarrow> Some v
         | None \<Rightarrow> b_get B k (fold (backend_step B) (take i ops) (proxied p))) (keys_read (ops ! i)))"
proof -
  have "cache_reads (b_get B) (b_get_multi B)" by unfold_locales (rule assms(1))
  moreover have zapped: "proxied (zap_cache p) = proxied p" by (simp add: zap_cache_def)
  ultimately show ?thesis
    using proxy_trace_result [OF _ _ assms(2), of "[]"] unfolding zapped
    by (simp add: zap_cache_def recalled_def)
qed

text \<open>A dictionary, which other processes change and which may lose what is set.\<close>

definition dict_calls :: "('k, 'v, 'k \<Rightarrow> 'v option) backend_calls" where
  "dict_calls =
     \<lparr>b_get = (\<lambda>k d. d k), b_get_multi = (\<lambda>ks d. map d ks), b_set = (\<lambda>k v d. d(k \<mapsto> v)),
      b_set_multi = (\<lambda>kvs d. d ++ map_of (rev kvs)), b_delete = (\<lambda>k d. d(k := None)),
      b_delete_multi = (\<lambda>ks d k. if k \<in> set ks then None else d k)\<rparr>"

interpretation dict: thread_cache "b_get dict_calls" "b_get_multi dict_calls"
  by unfold_locales (simp add: dict_calls_def)

theorem proxy_request_view_witness:
  "let run = proxy_trace dict_calls
       [CacheSet 1 ''a'', CacheOther (\<lambda>_. [1 \<mapsto> ''x'', 2 \<mapsto> ''y'']), CacheGet (1 :: int), CacheGetMulti [2, 3, 1],
        CacheOther (\<lambda>_. Map.empty), CacheGet 2, CacheDelete 2, CacheGet 2, CacheZap, CacheGet 1, CacheSet 3 ''z'']
       (zap_cache \<lparr>local_dict = (\<lambda>_. None), proxied = Map.empty\<rparr>)
   in map snd (fst run) = [[], [], [Some ''a''], [Some ''y'', None, Some ''a''], [], [Some ''y''], [], [None], [], [None], []]
      \<and> proxied (snd run) = [3 \<mapsto> ''z'']"
  (is "let run = proxy_trace _ ?ops (zap_cache ?p) in _ run")
proof -
  have answers: "map snd (fst (proxy_trace dict_calls ?ops (zap_cache ?p)))
      = [[], [], [Some ''a''], [Some ''y'', None, Some ''a''], [], [Some ''y''], [], [None], [], [None], []]"
    by (simp add: dict_calls_def zap_cache_def proxy_get_def proxy_get_multi_def missing_keys_def proxy_set_def proxy_delete_def)
  obtain trace p' where trace: "proxy_trace dict_calls ?ops (zap_cache ?p) = (trace, p')" by fastforce
  from proxy_request_view [OF dict.get_multi trace]
  have "proxied p' = fold (backend_step dict_calls) ?ops (proxied ?p)" by simp
  then have "proxied p' = [3 \<mapsto> ''z'']" by (simp add: dict_calls_def fun_upd_def)
  with answers show ?thesis unfolding Let_def trace fst_conv snd_conv by blast
qed

end
