(* ===== verification/Pagination.thy ===== *)
theory Pagination
  imports Prelude
begin

text \<open>
  \<^verbatim>\<open>weasyl/pagination.py\<close>: the page filters and \<open>paginate\<close>, which trims and rearranges the
  \<open>limit + 1\<close> rows a browse query selects and computes the surrounding pages. \<open>select_page\<close> is the
  part of such a query \<open>paginate\<close> expects (bounds, order and limit on the id column); the locale
  \<open>page_source\<close> is the contract between them, under which following the pages shows every row once.
\<close>

datatype page_filter = FIRST_PAGE | PrevFilter int | NextFilter int

fun is_back :: "page_filter \<Rightarrow> bool" where
  "is_back FIRST_PAGE = False"
| "is_back (PrevFilter backid) = True"
| "is_back (NextFilter nextid) = False"

fun page_compat :: "page_filter \<Rightarrow> int \<times> int" where
  "page_compat FIRST_PAGE = (0, 0)"
| "page_compat (PrevFilter backid) = (backid, 0)"
| "page_compat (NextFilter nextid) = (0, nextid)"

definition page_from_compat :: "int \<Rightarrow> int \<Rightarrow> page_filter" where
  "page_from_compat backid nextid =
     (if backid \<noteq> 0 then PrevFilter backid
      else if nextid \<noteq> 0 then NextFilter nextid
      else FIRST_PAGE)"

definition paginate ::
  "('a \<Rightarrow> int) \<Rightarrow> nat \<Rightarrow> page_filter \<Rightarrow> 'a list
     \<Rightarrow> 'a list \<times> page_filter option \<times> page_filter option" where
  "paginate key limit page items =
     (let has_more = (length items = limit + 1);
          items = (if has_more then butlast items else items);
          items = (if is_back page then rev items else items);
          prev_page =
            (if page = FIRST_PAGE \<or> (\<not> has_more \<and> is_back page) \<or> items = [] then None
             else Some (PrevFilter (key (hd items))));
          next_page =
            (if (\<not> has_more \<and> \<not> is_back page) \<or> items = [] then None
             else Some (NextFilter (key (last items))))
      in (items, prev_page, next_page))"

lemma page_compat_roundtrip:
  "(case p of FIRST_PAGE \<Rightarrow> True | PrevFilter b \<Rightarrow> b \<noteq> 0 | NextFilter n \<Rightarrow> n \<noteq> 0) \<Longrightarrow>
   page_from_compat (fst (page_compat p)) (snd (page_compat p)) = p"
  by (cases p) (auto simp: page_from_compat_def)

text \<open>The bounds, the order and the limit of a browse query by descending id.\<close>

fun page_bounds :: "('a \<Rightarrow> int) \<Rightarrow> page_filter \<Rightarrow> 'a \<Rightarrow> bool" where
  "page_bounds key FIRST_PAGE r = True"
| "page_bounds key (PrevFilter backid) r = (key r > backid)"
| "page_bounds key (NextFilter nextid) r = (key r < nextid)"

definition newest_first :: "('a \<Rightarrow> int) \<Rightarrow> 'a list \<Rightarrow> 'a list" where
  "newest_first key rows = rev (sort_key key rows)"

definition select_page :: "('a \<Rightarrow> int) \<Rightarrow> nat \<Rightarrow> page_filter \<Rightarrow> 'a list \<Rightarrow> 'a list" where
  "select_page key limit page rows =
     (let bounded = filter (page_bounds key page) rows
      in take (limit + 1)
           (if is_back page then sort_key key bounded else newest_first key bounded))"

definition browse ::
  "('a \<Rightarrow> int) \<Rightarrow> nat \<Rightarrow> page_filter \<Rightarrow> 'a list
     \<Rightarrow> 'a list \<times> page_filter option \<times> page_filter option" where
  "browse key limit page rows = paginate key limit page (select_page key limit page rows)"

subsection \<open>Sorting facts\<close>

lemma filter_newest_first: "filter P (newest_first key rows) = newest_first key (filter P rows)"
  by (simp add: newest_first_def filter_sort rev_filter [symmetric])

lemma set_newest_first [simp]: "set (newest_first key rows) = set rows"
  by (simp add: newest_first_def)

lemma length_newest_first [simp]: "length (newest_first key rows) = length rows"
  by (simp add: newest_first_def)

lemma strictly_descending:
  assumes "distinct (map key rows)"
  shows "sorted_wrt (\<lambda>a b. key a > key b) (newest_first key rows)"
proof -
  have "distinct (map key (sort_key key rows))"
    using assms by (metis distinct_map distinct_sort inj_on_def set_sort)
  then have "sorted_wrt (<) (map key (sort_key key rows))"
    by (simp add: strict_sorted_iff)
  then show ?thesis
    by (simp add: newest_first_def sorted_wrt_rev sorted_wrt_map)
qed

lemma descending_below:
  assumes "sorted_wrt (\<lambda>a b. key a > (key b :: int)) (ys @ x # zs)"
  shows "filter (\<lambda>y. key y < key x) (ys @ x # zs) = zs"
    and "filter (\<lambda>y. key y > key x) (ys @ x # zs) = ys"
  using assms by (fastforce simp: sorted_wrt_append filter_empty_conv filter_id_conv)+

subsection \<open>Following the pages\<close>

text \<open>
  A reader who follows the next-page links from \<open>page\<close> on: the rows seen, or \<open>None\<close> when
  \<open>fuel\<close> pages were not enough.
\<close>

fun walk_pages ::
  "(page_filter \<Rightarrow> 'a list \<times> page_filter option \<times> page_filter option) \<Rightarrow> nat \<Rightarrow> page_filter \<Rightarrow> 'a list option"
where
  "walk_pages browse_page 0 page = None"
| "walk_pages browse_page (Suc fuel) page =
     (case browse_page page of
        (items, _, None) \<Rightarrow> Some items
      | (items, _, Some next_page) \<Rightarrow> map_option ((@) items) (walk_pages browse_page fuel next_page))"

fun forward_rest :: "('a \<Rightarrow> int) \<Rightarrow> page_filter \<Rightarrow> 'a list \<Rightarrow> 'a list" where
  "forward_rest key FIRST_PAGE whole = whole"
| "forward_rest key (NextFilter n) whole = filter (\<lambda>r. key r < n) whole"
| "forward_rest key (PrevFilter b) whole = filter (\<lambda>r. key r > b) whole"

lemma paginate_forward:
  assumes "\<not> is_back page" and "0 < limit"
  shows "fst (paginate key limit page (take (limit + 1) rest)) = take limit rest"
    and "snd (snd (paginate key limit page (take (limit + 1) rest))) =
           (if limit < length rest then Some (NextFilter (key (rest ! (limit - 1)))) else None)"
proof -
  have butlast: "butlast (take (Suc limit) rest) = take limit rest" if "limit < length rest"
    using that by (metis butlast_take diff_Suc_1 Suc_leI)
  have last: "last (take limit rest) = rest ! (limit - 1)" if "limit < length rest"
    using that assms(2) by (cases "take limit rest = []") (auto simp: last_conv_nth)
  show "fst (paginate key limit page (take (limit + 1) rest)) = take limit rest"
    using assms butlast by (auto simp: paginate_def Let_def)
  show "snd (snd (paginate key limit page (take (limit + 1) rest))) =
      (if limit < length rest then Some (NextFilter (key (rest ! (limit - 1)))) else None)"
    using assms butlast last by (auto simp: paginate_def Let_def)
qed

lemma paginate_back:
  assumes "is_back page"
  shows "fst (paginate key limit page (take (limit + 1) (rev before))) = rev (take limit (rev before))"
proof -
  have "butlast (take (Suc limit) (rev before)) = take limit (rev before)" if "limit < length before"
    using that by (metis butlast_take diff_Suc_1 Suc_leI length_rev)
  then show ?thesis
    using assms by (auto simp: paginate_def Let_def)
qed

locale page_source =
  fixes key :: "'a \<Rightarrow> int"
    and whole :: "'s \<Rightarrow> 'a list"
    and fetch :: "'s \<Rightarrow> nat \<Rightarrow> page_filter \<Rightarrow> 'a list"
    and ok :: "'s \<Rightarrow> bool"
  assumes descending: "ok s \<Longrightarrow> sorted_wrt (\<lambda>a b. key a > key b) (whole s)"
    and fetch_forward: "ok s \<Longrightarrow> \<not> is_back page \<Longrightarrow>
      fetch s limit page = take (limit + 1) (forward_rest key page (whole s))"
    and fetch_back: "ok s \<Longrightarrow>
      fetch s limit (PrevFilter b) = take (limit + 1) (rev (filter (\<lambda>r. key r > b) (whole s)))"
begin

abbreviation page_of :: "'s \<Rightarrow> nat \<Rightarrow> page_filter \<Rightarrow> 'a list \<times> page_filter option \<times> page_filter option" where
  "page_of s limit page \<equiv> paginate key limit page (fetch s limit page)"

lemma rest_after:
  assumes "ok s" "whole s = before @ rest" "0 < limit" "limit < length rest"
  shows "forward_rest key (NextFilter (key (rest ! (limit - 1)))) (whole s) = drop limit rest"
proof -
  have "rest = take (limit - 1) rest @ rest ! (limit - 1) # drop limit rest"
    using assms(3,4) id_take_nth_drop [of "limit - 1" rest] by simp
  then have "whole s = (before @ take (limit - 1) rest) @ rest ! (limit - 1) # drop limit rest"
    using assms(2) by (metis append.assoc)
  with descending [OF assms(1)] show ?thesis
    by (metis descending_below(1) forward_rest.simps(2))
qed

lemma walk_rest:
  assumes "ok s" "0 < limit" "length rest < fuel"
    and "whole s = before @ rest" "\<not> is_back page" "forward_rest key page (whole s) = rest"
  shows "walk_pages (page_of s limit) fuel page = Some rest"
  using assms(3-)
proof (induction fuel arbitrary: page before rest)
  case (Suc fuel)
  let ?next = "NextFilter (key (rest ! (limit - 1)))"
  have page: "fst (page_of s limit page) = take limit rest"
    "snd (snd (page_of s limit page)) = (if limit < length rest then Some ?next else None)"
    using paginate_forward [OF Suc.prems(3) assms(2), of key rest] fetch_forward [OF assms(1) Suc.prems(3)]
      Suc.prems(4) by simp_all
  show ?case
  proof (cases "limit < length rest")
    case True
    have "walk_pages (page_of s limit) fuel ?next = Some (drop limit rest)"
    proof (rule Suc.IH)
      show "length (drop limit rest) < fuel"
        using Suc.prems(1) assms(2) True by simp
      show "whole s = (before @ take limit rest) @ drop limit rest"
        using Suc.prems(2) by simp
      show "forward_rest key ?next (whole s) = drop limit rest"
        by (rule rest_after) (use assms(1,2) Suc.prems(2) True in auto)
    qed simp
    with True page show ?thesis
      by (auto split: prod.splits option.splits)
  next
    case False
    with page show ?thesis
      by (auto split: prod.splits option.splits)
  qed
qed simp

lemma walk_all:
  "ok s \<Longrightarrow> 0 < limit \<Longrightarrow> walk_pages (page_of s limit) (Suc (length (whole s))) FIRST_PAGE = Some (whole s)"
  by (rule walk_rest [where before = "[]"]) auto

lemma back_from_next:
  assumes "ok s" "whole s = before @ shown @ x # after" "length shown = limit"
  shows "fst (page_of s limit (PrevFilter (key x))) = shown"
proof -
  have "filter (\<lambda>r. key r > key x) (whole s) = before @ shown"
    using descending_below(2) [of key "before @ shown" x after] descending [OF assms(1)] assms(2) by simp
  then have "fetch s limit (PrevFilter (key x)) = take (limit + 1) (rev (before @ shown))"
    using fetch_back [OF assms(1)] by simp
  then have "fst (page_of s limit (PrevFilter (key x))) = rev (take limit (rev (before @ shown)))"
    by (metis is_back.simps(2) paginate_back)
  also have "\<dots> = shown"
    using assms(3) by simp
  finally show ?thesis .
qed

end

lemma page_bounds_fun:
  "page_bounds key FIRST_PAGE = (\<lambda>r. True)"
  "page_bounds key (PrevFilter b) = (\<lambda>r. key r > b)"
  "page_bounds key (NextFilter n) = (\<lambda>r. key r < n)"
  by auto

lemma select_page_forward:
  assumes "\<not> is_back page"
  shows "select_page key limit page rows = take (limit + 1) (forward_rest key page (newest_first key rows))"
  using assms by (cases page) (simp_all add: select_page_def page_bounds_fun filter_newest_first Let_def)

lemma select_page_back:
  "select_page key limit (PrevFilter b) rows =
     take (limit + 1) (rev (filter (\<lambda>r. key r > b) (newest_first key rows)))"
  by (simp add: select_page_def page_bounds_fun filter_newest_first) (simp add: newest_first_def)

interpretation rows: page_source key "newest_first key" "\<lambda>rows limit page. select_page key limit page rows"
  "\<lambda>rows. distinct (map key rows)" for key :: "'a \<Rightarrow> int"
  by unfold_locales (auto simp: strictly_descending select_page_forward select_page_back)


text \<open>
  Following the pages shows everything once. For rows with different keys and a positive page size, a
  reader who starts at the first page and follows the next-page links comes to a last page and has then
  seen every row exactly once, newest first; one page per row (and one more) is enough.
\<close>

theorem pages_walk_everything:
  assumes "distinct (map key rows)" "0 < limit"
  shows "walk_pages (\<lambda>page. browse key limit page rows) (Suc (length rows)) FIRST_PAGE = Some (newest_first key rows)"
  using rows.walk_all [of key rows limit] assms by (simp add: browse_def)

theorem pages_walk_everything_witness:
  "walk_pages (\<lambda>page. browse id 2 page [3, 1, 9, 5, 7]) 6 FIRST_PAGE = Some [9, 7, 5, 3, 1 :: int]"
  using pages_walk_everything [of id "[3, 1, 9, 5, 7 :: int]" 2] by (simp add: newest_first_def numeral_eq_Suc)

text \<open>
  The previous-page link goes back to the page before: if a full page was shown before the row \<open>x\<close>, the
  page asked for with \<open>PrevFilter (key x)\<close> is that page, in the same order, whatever comes before it.
\<close>

theorem page_back_from_next:
  assumes "distinct (map key rows)" "newest_first key rows = before @ shown @ x # after" "length shown = limit"
  shows "fst (browse key limit (PrevFilter (key x)) rows) = shown"
  unfolding browse_def using rows.back_from_next [of key rows before shown x after limit] assms by simp

theorem page_back_from_next_witness:
  "fst (browse id 2 (PrevFilter (1 :: int)) [3, 1, 9, 5, 7]) = [5, 3]"
  using page_back_from_next [of id "[3, 1, 9, 5, 7 :: int]" "[9, 7]" "[5, 3]" 1 "[]" 2] by (simp add: newest_first_def)

end
