(* ===== verification/Config_Codes.thy ===== *)
theory Config_Codes
  imports Ratings "HOL-Library.AList" "HOL-Library.Char_ord" "HOL-Library.List_Lexorder"
begin

text \<open>
  \<^verbatim>\<open>weasyl/configuration_builder.py\<close>: settings kept as strings of one-letter codes. An option has a
  dictionary from its values to codes (the empty code means "nothing is stored"); a configuration
  class is a list of options with different codes; an instance is a dictionary from option names to
  values, read from and rendered to a code string. \<open>WatchSettings\<close> of \<^verbatim>\<open>weasyl/followuser.py\<close> and
  \<open>Config\<close> of \<^verbatim>\<open>weasyl/profile.py\<close> are its two users.
\<close>

datatype config_value = BoolV bool | TextV string | RatingV rating

record config_option =
  opt_name :: string
  value_to_code_map :: "(config_value \<times> string) list"

definition opt_codes :: "config_option \<Rightarrow> string list" where
  "opt_codes opt = map snd (value_to_code_map opt)"

definition opt_values :: "config_option \<Rightarrow> config_value list" where
  "opt_values opt = map fst (value_to_code_map opt)"

definition get_code :: "config_option \<Rightarrow> config_value \<Rightarrow> string" where
  "get_code opt v = (case map_of (value_to_code_map opt) v of None \<Rightarrow> [] | Some code \<Rightarrow> code)"

definition code_to_value_map :: "config_option \<Rightarrow> string \<Rightarrow> config_value option" where
  "code_to_value_map opt = map_of (rev (map (\<lambda>(k, v). (v, k)) (value_to_code_map opt)))"

definition get_value :: "config_option \<Rightarrow> string \<Rightarrow> config_value option" where
  "get_value opt code = code_to_value_map opt code"

definition BoolOption :: "string \<Rightarrow> string \<Rightarrow> config_option" where
  "BoolOption n code = \<lparr>opt_name = n, value_to_code_map = [(BoolV True, code), (BoolV False, [])]\<rparr>"

fun find_duplicate_from :: "'a list \<Rightarrow> 'a list \<Rightarrow> 'a option" where
  "find_duplicate_from seen [] = None"
| "find_duplicate_from seen (v # vs) =
     (if v \<in> set seen then Some v else find_duplicate_from (v # seen) vs)"

definition find_duplicate :: "'a list \<Rightarrow> 'a option" where
  "find_duplicate vs = find_duplicate_from [] vs"

definition all_codes :: "config_option list \<Rightarrow> string list" where
  "all_codes options = filter (\<lambda>code. code \<noteq> []) (concat (map opt_codes options))"

definition create_configuration :: "config_option list \<Rightarrow> config_option list result" where
  "create_configuration options =
     (case find_duplicate (all_codes options) of
        Some code \<Rightarrow> Inl (DuplicateCode code)
      | None \<Rightarrow> Inr options)"

definition options_by_name :: "config_option list \<Rightarrow> string \<Rightarrow> config_option option" where
  "options_by_name options = map_of (rev (map (\<lambda>opt. (opt_name opt, opt)) options))"

definition options_by_code :: "config_option list \<Rightarrow> string \<Rightarrow> config_option option" where
  "options_by_code options =
     map_of (rev (concat (map (\<lambda>opt. map (\<lambda>code. (code, opt)) (filter (\<lambda>code. code \<noteq> []) (opt_codes opt)))
       options)))"

type_synonym config_values = "(string \<times> config_value option) list"

definition config_get :: "config_values \<Rightarrow> config_option \<Rightarrow> config_value option" where
  "config_get vals opt = Option.bind (map_of vals (opt_name opt)) id"

definition config_set :: "config_values \<Rightarrow> config_option \<Rightarrow> config_value \<Rightarrow> config_values result" where
  "config_set vals opt v =
     (if v \<notin> set (opt_values opt) then Inl InvalidValue
      else Inr (AList.update (opt_name opt) (Some v) vals))"

definition from_code_step :: "config_option list \<Rightarrow> char \<Rightarrow> config_values \<Rightarrow> config_values" where
  "from_code_step options c vals =
     (case options_by_code options [c] of
        None \<Rightarrow> vals
      | Some opt \<Rightarrow> AList.update (opt_name opt) (get_value opt [c]) vals)"

definition from_code :: "config_option list \<Rightarrow> string \<Rightarrow> config_values" where
  "from_code options code = fold (from_code_step options) code []"

definition code_of_entry :: "config_option list \<Rightarrow> string \<times> config_value option \<Rightarrow> string" where
  "code_of_entry options e =
     (case options_by_name options (fst e) of
        None \<Rightarrow> []
      | Some opt \<Rightarrow> (case snd e of None \<Rightarrow> [] | Some v \<Rightarrow> get_code opt v))"

definition to_code :: "config_option list \<Rightarrow> config_values \<Rightarrow> string" where
  "to_code options vals = concat (sort (map (code_of_entry options) vals))"

definition WatchSettings :: "config_option list" where
  "WatchSettings =
     [BoolOption ''submit'' ''s'', BoolOption ''collect'' ''c'', BoolOption ''char'' ''f'',
      BoolOption ''stream'' ''t'', BoolOption ''journal'' ''j'']"

definition profile_Config :: "config_option list" where
  "profile_Config =
     [\<lparr>opt_name = ''rating'',
       value_to_code_map = zip (map RatingV ALL_RATINGS) ['''', ''a'', ''p'']\<rparr>,
      BoolOption ''tagging'' ''k'', BoolOption ''hideprofile'' ''h'', BoolOption ''hidestats'' ''i'',
      BoolOption ''hidefavorites'' ''v'', BoolOption ''hidefavbar'' ''u'',
      \<lparr>opt_name = ''shouts'',
       value_to_code_map = [(TextV ''anyone'', ''''), (TextV ''friends_only'', ''x''), (TextV ''staff_only'', ''w'')]\<rparr>,
      \<lparr>opt_name = ''notes'',
       value_to_code_map = [(TextV ''anyone'', ''''), (TextV ''friends_only'', ''z''), (TextV ''staff_only'', ''y'')]\<rparr>,
      BoolOption ''follow_s'' ''s'', BoolOption ''follow_c'' ''c'', BoolOption ''follow_f'' ''f'',
      BoolOption ''follow_t'' ''t'', BoolOption ''follow_j'' ''j'']"

subsection \<open>Well-formed classes\<close>

text \<open>
  What \<open>create_configuration\<close> checks (no code twice) and what its callers give it (names and values
  not repeated, one-letter codes).
\<close>

definition config_ok :: "config_option list \<Rightarrow> bool" where
  "config_ok options \<longleftrightarrow>
     distinct (map opt_name options) \<and>
     (\<forall>opt \<in> set options. distinct (opt_values opt)) \<and>
     (\<forall>code \<in> set (all_codes options). length code = 1) \<and>
     create_configuration options = Inr options"

lemma find_duplicate_from_None:
  "find_duplicate_from seen vs = None \<longleftrightarrow> distinct vs \<and> set vs \<inter> set seen = {}"
  by (induction vs arbitrary: seen) auto

lemma create_configuration_ok:
  "create_configuration options = Inr options' \<longleftrightarrow> options' = options \<and> distinct (all_codes options)"
  using find_duplicate_from_None [of "[]" "all_codes options"]
  by (auto simp: create_configuration_def find_duplicate_def split: option.splits)

lemma WatchSettings_ok: "config_ok WatchSettings"
  by (simp add: config_ok_def create_configuration_ok)
    (simp add: WatchSettings_def BoolOption_def all_codes_def opt_codes_def opt_values_def)

lemma profile_Config_ok: "config_ok profile_Config"
  by (simp add: config_ok_def create_configuration_ok)
    (simp add: profile_Config_def BoolOption_def all_codes_def opt_codes_def opt_values_def ALL_RATINGS_def)

subsection \<open>Decoding a code\<close>

definition config_valid :: "config_option list \<Rightarrow> config_values \<Rightarrow> bool" where
  "config_valid options vals \<longleftrightarrow>
     distinct (map fst vals) \<and>
     (\<forall>(n, v) \<in> set vals. \<exists>opt \<in> set options. opt_name opt = n \<and> (\<exists>x \<in> set (opt_values opt). v = Some x))"

definition stored_value :: "config_option \<Rightarrow> config_value option \<Rightarrow> config_value option" where
  "stored_value opt v =
     (case v of None \<Rightarrow> None | Some x \<Rightarrow> if get_code opt x = [] then None else Some x)"

lemma options_by_name_iff:
  assumes "config_ok options"
  shows "options_by_name options n = Some opt \<longleftrightarrow> opt \<in> set options \<and> opt_name opt = n"
proof -
  have "distinct (map fst (rev (map (\<lambda>opt. (opt_name opt, opt)) options)))"
    using assms by (simp add: config_ok_def rev_map [symmetric] comp_def)
  then show ?thesis
    unfolding options_by_name_def by (subst map_of_eq_Some_iff) auto
qed

lemma map_fst_by_code:
  "map fst (concat (map (\<lambda>opt. map (\<lambda>code. (code, opt)) (filter (\<lambda>code. code \<noteq> []) (opt_codes opt))) options))
     = all_codes options"
  by (induction options) (auto simp: all_codes_def comp_def)

lemma options_by_code_iff:
  assumes "config_ok options"
  shows "options_by_code options code = Some opt \<longleftrightarrow>
    code \<noteq> [] \<and> opt \<in> set options \<and> code \<in> set (opt_codes opt)"
proof -
  let ?xs = "concat (map (\<lambda>opt. map (\<lambda>code. (code, opt)) (filter (\<lambda>code. code \<noteq> []) (opt_codes opt))) options)"
  have "distinct (map fst (rev ?xs))"
    using assms map_fst_by_code [of options]
    by (simp add: rev_map [symmetric] config_ok_def create_configuration_ok del: map_map)
  then show ?thesis
    unfolding options_by_code_def by (subst map_of_eq_Some_iff) auto
qed

lemma codes_of_option_distinct:
  assumes "config_ok options" "opt \<in> set options"
  shows "distinct (filter (\<lambda>code. code \<noteq> []) (opt_codes opt))"
proof -
  obtain as bs where "options = as @ opt # bs"
    using assms(2) by (meson split_list)
  then show ?thesis
    using assms(1) by (simp add: config_ok_def create_configuration_ok all_codes_def)
qed

lemma get_code_iff:
  assumes "config_ok options" "opt \<in> set options" "code \<noteq> []"
  shows "get_code opt v = code \<longleftrightarrow> (v, code) \<in> set (value_to_code_map opt)"
proof -
  have "distinct (map fst (value_to_code_map opt))"
    using assms(1,2) by (simp add: config_ok_def opt_values_def)
  then show ?thesis
    using assms(3) map_of_eq_Some_iff [of "value_to_code_map opt" v code]
    by (auto simp: get_code_def simp del: map_of_eq_Some_iff split: option.splits)
qed

lemma find_code_unique:
  "distinct (filter (\<lambda>c. c \<noteq> []) (map snd xs)) \<Longrightarrow> (v, code) \<in> set xs \<Longrightarrow> (w, code) \<in> set xs \<Longrightarrow>
   code \<noteq> [] \<Longrightarrow> v = w"
  by (induction xs) (force split: if_splits)+

lemma get_value_iff:
  assumes "config_ok options" "opt \<in> set options" "code \<noteq> []"
  shows "get_value opt code = Some v \<longleftrightarrow> (v, code) \<in> set (value_to_code_map opt)"
proof -
  let ?m = "value_to_code_map opt"
  have uniq: "v = w" if "(v, code) \<in> set ?m" "(w, code) \<in> set ?m" for v w
    using find_code_unique [OF _ that assms(3)] codes_of_option_distinct [OF assms(1,2)]
    by (simp add: opt_codes_def)
  have "map_of (rev (map (\<lambda>(k, v). (v, k)) ?m)) code = Some v" if "(v, code) \<in> set ?m" for v
  proof -
    have "map_of (rev (map (\<lambda>(k, v). (v, k)) ?m)) code \<noteq> None"
      using that by (auto simp: map_of_eq_None_iff image_iff intro!: bexI [of _ "(v, code)"])
    then obtain w where w: "map_of (rev (map (\<lambda>(k, v). (v, k)) ?m)) code = Some w" by blast
    then have "(w, code) \<in> set ?m" by (auto dest!: map_of_SomeD)
    with that w show ?thesis using uniq by blast
  qed
  then show ?thesis
    by (auto simp: get_value_def code_to_value_map_def dest: map_of_SomeD)
qed

text \<open>What one character of a code stands for, and what a string of them does.\<close>

definition decode_char :: "config_option list \<Rightarrow> char \<Rightarrow> (string \<times> config_value option) option" where
  "decode_char options c =
     map_option (\<lambda>opt. (opt_name opt, get_value opt [c])) (options_by_code options [c])"

lemma from_code_step_decode:
  "map_of (from_code_step options c vals) =
     (case decode_char options c of None \<Rightarrow> map_of vals | Some (n, v) \<Rightarrow> (map_of vals)(n \<mapsto> v))"
  by (simp add: from_code_step_def decode_char_def update_conv' split: option.splits)

lemma decode_char_iff:
  assumes "config_ok options"
  shows "decode_char options c = Some (n, v) \<longleftrightarrow>
    (\<exists>opt \<in> set options. opt_name opt = n \<and> (\<exists>x. v = Some x \<and> get_code opt x = [c]))"
proof -
  have "get_value opt [c] = v \<longleftrightarrow> (\<exists>x. v = Some x \<and> get_code opt x = [c])"
    if opt: "opt \<in> set options" "[c] \<in> set (opt_codes opt)" for opt v
  proof -
    obtain x where "(x, [c]) \<in> set (value_to_code_map opt)"
      using opt(2) by (auto simp: opt_codes_def)
    then have "get_value opt [c] = Some x"
      using get_value_iff [OF assms opt(1)] by blast
    then show ?thesis
      using get_value_iff [OF assms opt(1)] get_code_iff [OF assms opt(1)]
      by (metis list.simps(3) option.inject)
  qed
  moreover have "[c] \<in> set (opt_codes opt)" if opt: "opt \<in> set options" "get_code opt x = [c]" for opt x
    using get_code_iff [OF assms opt(1), of "[c]" x] opt(2) by (force simp: opt_codes_def)
  ultimately show ?thesis
    unfolding decode_char_def map_option_eq_Some options_by_code_iff [OF assms]
    by (metis list.simps(3) prod.inject)
qed

lemma from_code_lookup:
  assumes "\<And>c d n v w. c \<in> set s \<Longrightarrow> d \<in> set s \<Longrightarrow> decode_char options c = Some (n, v) \<Longrightarrow>
    decode_char options d = Some (n, w) \<Longrightarrow> v = w"
  shows "map_of (from_code options s) n = Some v \<longleftrightarrow> (\<exists>c \<in> set s. decode_char options c = Some (n, v))"
  using assms
proof (induction s arbitrary: n v rule: rev_induct)
  case (snoc c s)
  have "map_of (from_code options s) n = Some v \<longleftrightarrow> (\<exists>c \<in> set s. decode_char options c = Some (n, v))" for n v
    by (rule snoc.IH) (rule snoc.prems, auto)
  moreover have "map_of (from_code options (s @ [c])) =
      (case decode_char options c of None \<Rightarrow> map_of (from_code options s)
       | Some (n, v) \<Rightarrow> (map_of (from_code options s))(n \<mapsto> v))"
    by (simp add: from_code_def from_code_step_decode split: option.splits)
  moreover have "v = w" if "decode_char options c = Some (n, w)" "c' \<in> set s"
    "decode_char options c' = Some (n, v)" for c' n v w
    using snoc.prems [OF _ _ that(3,1)] that(2) by simp
  ultimately show ?case
    by (cases "decode_char options c") (auto split: if_splits)
qed (simp add: from_code_def)

lemma get_code_length:
  assumes "config_ok options" "opt \<in> set options" "c \<in> set (get_code opt x)"
  shows "get_code opt x = [c]"
proof -
  have "get_code opt x \<noteq> []" using assms(3) by auto
  then have "(x, get_code opt x) \<in> set (value_to_code_map opt)"
    using get_code_iff [OF assms(1,2)] by blast
  with \<open>get_code opt x \<noteq> []\<close> have "get_code opt x \<in> set (all_codes options)"
    using assms(2) by (force simp: all_codes_def opt_codes_def)
  then have "length (get_code opt x) = 1" using assms(1) by (simp add: config_ok_def)
  then show ?thesis using assms(3) by (auto simp: length_Suc_conv)
qed

lemma to_code_chars:
  assumes "config_ok options"
  shows "c \<in> set (to_code options vals) \<longleftrightarrow>
    (\<exists>opt \<in> set options. \<exists>x. (opt_name opt, Some x) \<in> set vals \<and> get_code opt x = [c])"
proof -
  have entry: "c \<in> set (code_of_entry options (n, v)) \<longleftrightarrow>
      (\<exists>opt \<in> set options. opt_name opt = n \<and> (\<exists>x. v = Some x \<and> get_code opt x = [c]))" for n v
  proof (cases "options_by_name options n")
    case None
    then show ?thesis
      using options_by_name_iff [OF assms, of n] by (auto simp: code_of_entry_def)
  next
    case (Some opt)
    then have opt: "opt \<in> set options" "opt_name opt = n"
      "\<And>o'. o' \<in> set options \<Longrightarrow> opt_name o' = n \<Longrightarrow> o' = opt"
      using options_by_name_iff [OF assms, of n] by (metis option.inject)+
    have "c \<in> set (code_of_entry options (n, v)) \<longleftrightarrow> (\<exists>x. v = Some x \<and> get_code opt x = [c])"
      using get_code_length [OF assms opt(1), of c] by (cases v) (auto simp: code_of_entry_def Some)
    then show ?thesis
      by (metis opt)
  qed
  have "c \<in> set (to_code options vals) \<longleftrightarrow> (\<exists>n v. (n, v) \<in> set vals \<and> c \<in> set (code_of_entry options (n, v)))"
    by (auto simp: to_code_def)
  then show ?thesis
    unfolding entry by metis
qed

lemma config_valid_decoded:
  assumes "config_ok options" "config_valid options vals"
    "c \<in> set (to_code options vals)" "decode_char options c = Some (n, v)"
  shows "map_of vals n = Some v \<and> (\<exists>opt \<in> set options. opt_name opt = n \<and> (\<exists>x. v = Some x \<and> get_code opt x = [c]))"
proof -
  obtain opt x where opt: "opt \<in> set options" "(opt_name opt, Some x) \<in> set vals" "get_code opt x = [c]"
    using assms(3) to_code_chars [OF assms(1)] by blast
  then have "decode_char options c = Some (opt_name opt, Some x)"
    using decode_char_iff [OF assms(1)] by blast
  with opt assms(2,4) show ?thesis
    by (auto simp: config_valid_def)
qed

lemma from_to_code_lookup:
  assumes "config_ok options" "config_valid options vals"
  shows "map_of (from_code options (to_code options vals)) n = Some v \<longleftrightarrow>
    map_of vals n = Some v \<and> (\<exists>opt \<in> set options. opt_name opt = n \<and> (\<exists>x. v = Some x \<and> get_code opt x \<noteq> []))"
    (is "?lhs \<longleftrightarrow> ?rhs")
proof -
  have iff: "?lhs \<longleftrightarrow> (\<exists>c \<in> set (to_code options vals). decode_char options c = Some (n, v))"
    by (rule from_code_lookup) (metis config_valid_decoded [OF assms] option.inject)
  show ?thesis
  proof
    assume ?lhs
    then show ?rhs using iff config_valid_decoded [OF assms] by (metis list.simps(3))
  next
    assume ?rhs
    then obtain opt x where opt: "opt \<in> set options" "opt_name opt = n" "v = Some x" "get_code opt x \<noteq> []"
      and "map_of vals n = Some v" by blast
    then have "(n, Some x) \<in> set vals" by (simp add: map_of_SomeD)
    obtain c where c: "get_code opt x = [c]"
      using get_code_length [OF assms(1) opt(1)] opt(4) by (metis last_in_set)
    then have "c \<in> set (to_code options vals)" "decode_char options c = Some (n, v)"
      using opt \<open>(n, Some x) \<in> set vals\<close> to_code_chars [OF assms(1)] decode_char_iff [OF assms(1)] by blast+
    then show ?lhs using iff by blast
  qed
qed

lemma option_of_name:
  "config_ok options \<Longrightarrow> opt \<in> set options \<Longrightarrow> o' \<in> set options \<Longrightarrow> opt_name o' = opt_name opt \<Longrightarrow> o' = opt"
  by (auto simp: config_ok_def intro: distinct_map_inj)

lemma set_alist_update: "set (AList.update k v xs) \<subseteq> insert (k, v) (set xs)"
  by (induction xs) auto

lemma from_code_entry:
  assumes "config_ok options" "(n, v) \<in> set (from_code options s)"
  shows "\<exists>opt \<in> set options. opt_name opt = n \<and> (\<exists>x \<in> set (opt_values opt). v = Some x \<and> get_code opt x \<noteq> [])"
  using assms(2)
proof (induction s rule: rev_induct)
  case (snoc c s)
  have dec: "from_code options (s @ [c]) =
      (case decode_char options c of None \<Rightarrow> from_code options s
       | Some (n, v) \<Rightarrow> AList.update n v (from_code options s))"
    by (simp add: from_code_def from_code_step_def decode_char_def split: option.splits)
  have "(n, v) \<in> set (from_code options s) \<or> decode_char options c = Some (n, v)"
    using snoc.prems set_alist_update [where xs = "from_code options s"]
    unfolding dec by (auto split: option.splits)
  then show ?case
  proof
    assume "decode_char options c = Some (n, v)"
    then obtain opt x where opt: "opt \<in> set options" "opt_name opt = n" "v = Some x" "get_code opt x = [c]"
      using decode_char_iff [OF assms(1)] by blast
    then have "(x, [c]) \<in> set (value_to_code_map opt)"
      using get_code_iff [OF assms(1) opt(1)] by blast
    then have "x \<in> set (opt_values opt)" by (force simp: opt_values_def)
    with opt show ?thesis by auto
  qed (rule snoc.IH)
qed (simp add: from_code_def)

lemma from_code_valid:
  assumes "config_ok options"
  shows "config_valid options (from_code options s)"
proof -
  have "distinct (map fst (fold (from_code_step options) s vals))" if "distinct (map fst vals)" for vals
    using that
    by (induction s arbitrary: vals) (auto simp: from_code_step_def distinct_update split: option.splits)
  then have "distinct (map fst (from_code options s))"
    by (simp add: from_code_def)
  then show ?thesis
    using from_code_entry [OF assms] unfolding config_valid_def by fast
qed

lemma config_set_valid:
  assumes "config_valid options vals" "opt \<in> set options" "config_set vals opt x = Inr vals'"
  shows "config_valid options vals'"
proof -
  have "vals' = AList.update (opt_name opt) (Some x) vals" "x \<in> set (opt_values opt)"
    using assms(3) by (auto simp: config_set_def split: if_splits)
  then show ?thesis
    using assms(1,2) set_alist_update [of "opt_name opt" "Some x" vals]
    by (fastforce simp: config_valid_def distinct_update)
qed

lemma get_after_roundtrip:
  assumes "config_ok options" "config_valid options vals" "opt \<in> set options"
  shows "config_get (from_code options (to_code options vals)) opt = stored_value opt (config_get vals opt)"
proof -
  have look: "map_of (from_code options (to_code options vals)) (opt_name opt) = Some v \<longleftrightarrow>
      map_of vals (opt_name opt) = Some v \<and> (\<exists>x. v = Some x \<and> get_code opt x \<noteq> [])" for v
    using from_to_code_lookup [OF assms(1,2)] option_of_name [OF assms(1,3)] assms(3) by metis
  show ?thesis
  proof (cases "map_of (from_code options (to_code options vals)) (opt_name opt)")
    case None
    then show ?thesis
      using look by (cases "map_of vals (opt_name opt)") (auto simp: config_get_def stored_value_def split: option.splits)
  next
    case (Some v)
    then show ?thesis
      using look [of v] by (auto simp: config_get_def stored_value_def)
  qed
qed

text \<open>
  C38: Settings survive being stored. For a class of options \<open>create_configuration\<close> accepts and an
  instance whose values were decoded or assigned (\<open>config_valid\<close>, which \<open>from_code\<close> and \<open>config_set\<close>
  keep), rendering to a code string and decoding it gives back every value that has a code; a value
  with the empty code comes back unset.
\<close>

theorem config_roundtrip:
  assumes "config_ok options" "config_valid options vals" "opt \<in> set options"
  shows "config_get (from_code options (to_code options vals)) opt = stored_value opt (config_get vals opt)"
  by (rule get_after_roundtrip [OF assms])

theorem config_roundtrip_witness:
  "let vals = from_code WatchSettings ''jsx'' in
   \<forall>opt \<in> set WatchSettings.
     config_get (from_code WatchSettings (to_code WatchSettings vals)) opt = stored_value opt (config_get vals opt)"
  using config_roundtrip [OF WatchSettings_ok from_code_valid [OF WatchSettings_ok]] by (simp add: Let_def)

text \<open>
  Decoding is insensitive to the spelling of the code: for every string whatsoever (unknown
  characters, repetitions and conflicting characters included), decoding, rendering and decoding
  again reads the same value for every option.
\<close>

theorem config_canonical:
  assumes "config_ok options" "opt \<in> set options"
  shows "config_get (from_code options (to_code options (from_code options s))) opt
           = config_get (from_code options s) opt"
proof -
  have "stored_value opt (config_get (from_code options s) opt) = config_get (from_code options s) opt"
  proof (cases "map_of (from_code options s) (opt_name opt)")
    case (Some v)
    then obtain o' x where "o' \<in> set options" "opt_name o' = opt_name opt" "v = Some x" "get_code o' x \<noteq> []"
      using from_code_entry [OF assms(1)] by (metis map_of_SomeD)
    then show ?thesis
      using Some option_of_name [OF assms] by (auto simp: config_get_def stored_value_def)
  qed (simp add: config_get_def stored_value_def)
  with get_after_roundtrip [OF assms(1) from_code_valid [OF assms(1)] assms(2)] show ?thesis by simp
qed

theorem config_canonical_witness:
  "let opt = BoolOption ''journal'' ''j'' in
   config_get (from_code WatchSettings (to_code WatchSettings (from_code WatchSettings ''j!sj''))) opt
     = config_get (from_code WatchSettings ''j!sj'') opt"
proof -
  have "BoolOption ''journal'' ''j'' \<in> set WatchSettings"
    by (simp add: WatchSettings_def)
  from config_canonical [OF WatchSettings_ok this] show ?thesis by (simp add: Let_def)
qed

end
