(* ===== verification/Forms.thy ===== *)
theory Forms
  imports Prelude
begin

text \<open>
  Reading the strings of a form: \<^verbatim>\<open>weasyl/forms.py\<close> and the \<open>Username\<close> class of
  \<^verbatim>\<open>weasyl/users.py\<close>. A Python string is here the list of its code points, because both files depend
  on what lies outside ASCII. \<open>str.lower\<close> and \<open>unicodedata.normalize("NFKD", _)\<close> are tables of Unicode:
  they are the parameters \<open>lower\<close> and \<open>nfkd\<close>, of which the theorems use that they act on ASCII text as
  the ASCII rules do (\<open>ascii_rules\<close>).
\<close>

type_synonym ustr = "int list"

definition ustr :: "string \<Rightarrow> ustr" where
  "ustr s = map (\<lambda>c. of_char c) s"

definition to_string :: "ustr \<Rightarrow> string" where
  "to_string s = map (\<lambda>c. char_of (nat c)) s"

subsection \<open>Characters\<close>

definition is_digit :: "int \<Rightarrow> bool" where
  "is_digit c = (48 \<le> c \<and> c \<le> 57)"

definition is_lower :: "int \<Rightarrow> bool" where
  "is_lower c = (97 \<le> c \<and> c \<le> 122)"

definition is_upper :: "int \<Rightarrow> bool" where
  "is_upper c = (65 \<le> c \<and> c \<le> 90)"

definition is_ascii :: "int \<Rightarrow> bool" where
  "is_ascii c = (0 \<le> c \<and> c < 128)"

definition lower_char :: "int \<Rightarrow> int" where
  "lower_char c = (if is_upper c then c + 32 else c)"

definition ascii_lower :: "ustr \<Rightarrow> ustr" where
  "ascii_lower s = map lower_char s"

text \<open>\<open>str.split()\<close> and \<open>str.isspace\<close>: the white space of Python.\<close>

definition is_space :: "int \<Rightarrow> bool" where
  "is_space c =
     (9 \<le> c \<and> c \<le> 13 \<or> 28 \<le> c \<and> c \<le> 32 \<or> c = 0x85 \<or> c = 0xA0 \<or> c = 0x1680
      \<or> 0x2000 \<le> c \<and> c \<le> 0x200A \<or> c = 0x2028 \<or> c = 0x2029 \<or> c = 0x202F \<or> c = 0x205F \<or> c = 0x3000)"

text \<open>The character classes of the regular expressions: \<open>[^0-9a-z]\<close>, \<open>[^!-~]|;\<close> and \<open>\W\<close> (ASCII).\<close>

definition sysname_char :: "int \<Rightarrow> bool" where
  "sysname_char c = (is_digit c \<or> is_lower c)"

definition username_char :: "int \<Rightarrow> bool" where
  "username_char c = (33 \<le> c \<and> c \<le> 126 \<and> c \<noteq> 59)"

definition word_char :: "int \<Rightarrow> bool" where
  "word_char c = (is_digit c \<or> is_lower c \<or> is_upper c \<or> c = 95)"

lemmas char_defs = is_digit_def is_lower_def is_upper_def is_ascii_def lower_char_def is_space_def
  sysname_char_def username_char_def word_char_def

subsection \<open>Splitting and joining\<close>

fun split_on :: "'a \<Rightarrow> 'a list \<Rightarrow> 'a list list" where
  "split_on sep [] = [[]]"
| "split_on sep (c # s) =
     (if c = sep then [] # split_on sep s
      else (c # hd (split_on sep s)) # tl (split_on sep s))"

fun join :: "'a list \<Rightarrow> 'a list list \<Rightarrow> 'a list" where
  "join sep [] = []"
| "join sep [w] = w"
| "join sep (w # v # ws) = w @ sep @ join sep (v # ws)"

fun split_white_from :: "ustr \<Rightarrow> ustr \<Rightarrow> ustr list" where
  "split_white_from word [] = (if word = [] then [] else [word])"
| "split_white_from word (c # s) =
     (if is_space c then (if word = [] then [] else [word]) @ split_white_from [] s
      else split_white_from (word @ [c]) s)"

definition split_white :: "ustr \<Rightarrow> ustr list" where
  "split_white s = split_white_from [] s"

subsection \<open>\<open>forms.py\<close>\<close>

fun int_of_digits_from :: "int \<Rightarrow> ustr \<Rightarrow> int" where
  "int_of_digits_from n [] = n"
| "int_of_digits_from n (c # s) = int_of_digits_from (10 * n + (c - 48)) s"

definition int_of_digits :: "ustr \<Rightarrow> int" where
  "int_of_digits s = int_of_digits_from 0 s"

definition expect_id :: "ustr \<Rightarrow> int result" where
  "expect_id s =
     (if 1 \<le> length s \<and> length s \<le> 10 \<and> list_all is_digit s \<and> hd s \<noteq> 48
         \<and> int_of_digits s \<le> 2 ^ 31 - 1
      then Inr (int_of_digits s)
      else Inl (WeasylError ''Unexpected''))"

fun expect_ids :: "ustr list \<Rightarrow> int list result" where
  "expect_ids [] = Inr []"
| "expect_ids (s # ss) =
     (case expect_id s of
        Inl e \<Rightarrow> Inl e
      | Inr n \<Rightarrow> (case expect_ids ss of Inl e \<Rightarrow> Inl e | Inr ns \<Rightarrow> Inr (n # ns)))"

fun only :: "'a list \<Rightarrow> 'a result" where
  "only [x] = Inr x"
| "only _ = Inl (WeasylError ''Unexpected'')"

definition USERNAME_MAX_LENGTH :: nat where
  "USERNAME_MAX_LENGTH = 25"

definition parse_sysname :: "(ustr \<Rightarrow> ustr) \<Rightarrow> (ustr \<Rightarrow> ustr) \<Rightarrow> ustr \<Rightarrow> ustr option" where
  "parse_sysname lower nfkd s =
     (let normalized = nfkd (lower s);
          sysname = filter sysname_char normalized
      in if 0 < length sysname \<and> length sysname \<le> USERNAME_MAX_LENGTH then Some sysname else None)"

definition parse_sysname_list :: "(ustr \<Rightarrow> ustr) \<Rightarrow> (ustr \<Rightarrow> ustr) \<Rightarrow> ustr \<Rightarrow> ustr list" where
  "parse_sysname_list lower nfkd s = List.map_filter (parse_sysname lower nfkd) (split_on 59 s)"

definition TAG_MAX_LENGTH :: nat where
  "TAG_MAX_LENGTH = 162"

definition parse_tag :: "ustr \<Rightarrow> ustr option result" where
  "parse_tag s =
     (if 32 \<in> set s then Inl AssertionError
      else
        (let s = filter word_char s;
             s = join [95] (filter (\<lambda>w. w \<noteq> []) (split_on 95 s))
         in if length s > TAG_MAX_LENGTH then Inl (WeasylError ''tagTooLong'')
            else Inr (if s \<noteq> [] then Some (ascii_lower s) else None)))"

text \<open>\<open>[0-9a-z]+(?:_[0-9a-z]+)*\<close> against the whole string: words of sysname characters between underscores.\<close>

definition normalized_tag :: "ustr \<Rightarrow> bool" where
  "normalized_tag s = list_all (\<lambda>w. w \<noteq> [] \<and> list_all sysname_char w) (split_on 95 s)"

definition expect_tag :: "ustr \<Rightarrow> ustr result" where
  "expect_tag s =
     (if \<not> (0 < length s \<and> length s \<le> TAG_MAX_LENGTH \<and> normalized_tag s)
      then Inl (WeasylError ''Unexpected'') else Inr s)"

subsection \<open>\<open>users.py\<close>\<close>

record Username =
  un_display :: ustr
  un_sysname :: ustr

definition BANNED_SYSNAMES :: "ustr list" where
  "BANNED_SYSNAMES = map ustr
     [''admin'', ''administrator'', ''mod'', ''moderator'', ''weasyl'', ''weasyladmin'', ''weasylmod'',
      ''staff'', ''security'']"

definition get_sysname_unchecked :: "(ustr \<Rightarrow> ustr) \<Rightarrow> ustr \<Rightarrow> ustr" where
  "get_sysname_unchecked lower s = filter sysname_char (lower s)"

definition from_stored :: "(ustr \<Rightarrow> ustr) \<Rightarrow> ustr \<Rightarrow> Username result" where
  "from_stored lower stored =
     (let name = get_sysname_unchecked lower stored
      in if name = [] \<or> length stored > USERNAME_MAX_LENGTH
            \<or> \<not> list_all (\<lambda>c. 32 \<le> c \<and> c \<le> 126) stored \<or> 59 \<in> set stored
         then Inl ValueError
         else Inr \<lparr>un_display = stored, un_sysname = name\<rparr>)"

definition username_create :: "(ustr \<Rightarrow> ustr) \<Rightarrow> (ustr \<Rightarrow> ustr) \<Rightarrow> ustr \<Rightarrow> Username result" where
  "username_create lower nfkd text =
     (let words = split_white (nfkd text);
          cleaned_words = map (filter username_char) words;
          cleaned = join [32] (filter (\<lambda>w. w \<noteq> []) cleaned_words)
      in if length cleaned > USERNAME_MAX_LENGTH then Inl UsernameTooLong
         else
           (let name = get_sysname_unchecked lower cleaned
            in if name = [] then Inl (WeasylError ''usernameInvalid'')
               else if name \<in> set BANNED_SYSNAMES then Inl (WeasylError ''usernameBanned'')
               else Inr \<lparr>un_display = cleaned, un_sysname = name\<rparr>))"

text \<open>What Python documents of the two Unicode tables on ASCII text.\<close>

definition ascii_rules :: "(ustr \<Rightarrow> ustr) \<Rightarrow> (ustr \<Rightarrow> ustr) \<Rightarrow> bool" where
  "ascii_rules lower nfkd \<longleftrightarrow>
     (\<forall>s. list_all is_ascii s \<longrightarrow> lower s = ascii_lower s \<and> nfkd s = s)"

subsection \<open>Identifiers\<close>

text \<open>The \<open>%d\<close> representation of a number.\<close>

fun decimal :: "nat \<Rightarrow> ustr" where
  "decimal n = (if n < 10 then [48 + int n] else decimal (n div 10) @ [48 + int (n mod 10)])"

declare decimal.simps [simp del]

lemma int_of_digits_from_append:
  "int_of_digits_from n (s @ [c]) = 10 * int_of_digits_from n s + (c - 48)"
  by (induction n s rule: int_of_digits_from.induct) auto

lemma int_of_digits_snoc [simp]: "int_of_digits (s @ [c]) = 10 * int_of_digits s + (c - 48)"
  by (simp add: int_of_digits_def int_of_digits_from_append)

lemma int_of_digits_Nil [simp]: "int_of_digits [] = 0"
  by (simp add: int_of_digits_def)

lemma int_of_digits_single [simp]: "int_of_digits [c] = c - 48"
  by (simp add: int_of_digits_def)

lemma int_of_decimal: "int_of_digits (decimal n) = int n"
proof (induction n rule: decimal.induct)
  case (1 n)
  then show ?case
    using int_of_digits_snoc [of "[]" "48 + int n"]
    by (subst decimal.simps) (auto simp: zdiv_int zmod_int)
qed

lemma decimal_digits: "list_all is_digit (decimal n)"
proof (induction n rule: decimal.induct)
  case (1 n)
  have "n < 10 \<Longrightarrow> is_digit (48 + int n)" "is_digit (48 + int (n mod 10))"
    by (auto simp: is_digit_def)
  with 1 show ?case by (subst decimal.simps) auto
qed

lemma decimal_not_Nil [simp]: "decimal n \<noteq> []"
  by (subst decimal.simps) auto

lemma hd_decimal: "0 < n \<Longrightarrow> hd (decimal n) \<noteq> 48"
proof (induction n rule: decimal.induct)
  case (1 n)
  then show ?case by (subst decimal.simps) (auto simp: hd_append)
qed

lemma length_decimal: "n < 10 ^ Suc k \<Longrightarrow> length (decimal n) \<le> Suc k"
proof (induction k arbitrary: n)
  case 0
  then show ?case by (subst decimal.simps) simp
next
  case (Suc k)
  then have "n div 10 < 10 ^ Suc k" by (simp add: div_less_iff_less_mult mult.commute)
  with Suc.IH have "length (decimal (n div 10)) \<le> Suc k" by blast
  then show ?case by (subst decimal.simps) simp
qed

lemma int_of_digits_pos:
  "s \<noteq> [] \<Longrightarrow> list_all is_digit s \<Longrightarrow> hd s \<noteq> 48 \<Longrightarrow> 1 \<le> int_of_digits s"
proof (induction s rule: rev_induct)
  case (snoc c s)
  then show ?case by (cases "s = []") (auto simp: is_digit_def)
qed simp

lemma decimal_of_digits:
  "s \<noteq> [] \<Longrightarrow> list_all is_digit s \<Longrightarrow> hd s \<noteq> 48 \<Longrightarrow> decimal (nat (int_of_digits s)) = s"
proof (induction s rule: rev_induct)
  case (snoc c s)
  then have c: "0 \<le> c - 48" "c - 48 < 10" by (auto simp: is_digit_def)
  show ?case
  proof (cases "s = []")
    case True
    with c show ?thesis by (subst decimal.simps) simp
  next
    case False
    with snoc have s: "1 \<le> int_of_digits s" "decimal (nat (int_of_digits s)) = s"
      by (auto intro: int_of_digits_pos)
    have "nat (10 * int_of_digits s + (c - 48)) = 10 * nat (int_of_digits s) + nat (c - 48)"
      using s(1) c by linarith
    moreover have "10 \<le> 10 * nat (int_of_digits s) + nat (c - 48)" using s(1) by linarith
    ultimately show ?thesis
      using s c by (subst decimal.simps) simp
  qed
qed simp

text \<open>
  \<open>expect_id\<close> accepts exactly the decimal representations of the positive 32-bit identifiers, each
  as its own number. So equal results come from equal strings, as its documentation promises, and
  every identifier the site prints is read back.
\<close>

theorem expect_id_iff:
  "expect_id s = Inr n \<longleftrightarrow> 1 \<le> n \<and> n \<le> 2 ^ 31 - 1 \<and> s = decimal (nat n)"
proof
  assume "expect_id s = Inr n"
  then have "s \<noteq> []" "list_all is_digit s" "hd s \<noteq> 48" "n = int_of_digits s" "n \<le> 2 ^ 31 - 1"
    by (auto simp: expect_id_def split: if_splits)
  then show "1 \<le> n \<and> n \<le> 2 ^ 31 - 1 \<and> s = decimal (nat n)"
    using int_of_digits_pos decimal_of_digits by metis
next
  assume n: "1 \<le> n \<and> n \<le> 2 ^ 31 - 1 \<and> s = decimal (nat n)"
  then have "nat n < 10 ^ Suc 9" by (simp add: nat_less_iff)
  with n have "length s \<le> 10" using length_decimal [of "nat n" 9] by simp
  moreover have "1 \<le> length s" using n by (simp add: Suc_leI)
  ultimately show "expect_id s = Inr n"
    using n decimal_digits [of "nat n"] hd_decimal [of "nat n"] int_of_decimal [of "nat n"]
    by (simp add: expect_id_def)
qed

lemma expect_ids_ok: "expect_ids ss = Inr ns \<longleftrightarrow> list_all2 (\<lambda>s n. expect_id s = Inr n) ss ns"
proof (induction ss arbitrary: ns)
  case (Cons s ss)
  show ?case
  proof (cases "expect_id s")
    case (Inr m)
    then show ?thesis
      by (cases "expect_ids ss") (auto simp: list_all2_Cons1 Cons.IH [symmetric])
  qed (auto simp: list_all2_Cons1)
qed auto

subsection \<open>Tags\<close>

lemma split_on_not_Nil [simp]: "split_on sep s \<noteq> []"
  by (cases s) auto

lemma split_on_no_sep: "w \<in> set (split_on sep s) \<Longrightarrow> sep \<notin> set w \<and> set w \<subseteq> set s"
proof (induction s arbitrary: w)
  case (Cons c s)
  obtain v vs where vs: "split_on sep s = v # vs"
    by (cases "split_on sep s") auto
  then have "sep \<notin> set v \<and> set v \<subseteq> set s" "u \<in> set vs \<Longrightarrow> sep \<notin> set u \<and> set u \<subseteq> set s" for u
    using Cons.IH by auto
  with vs Cons.prems show ?case
    by (auto split: if_splits)
qed simp

lemma split_on_word: "sep \<notin> set w \<Longrightarrow> split_on sep w = [w]"
  by (induction w) auto

lemma split_on_append: "sep \<notin> set w \<Longrightarrow> split_on sep (w @ sep # s) = w # split_on sep s"
  by (induction w) auto

lemma split_join:
  "ws \<noteq> [] \<Longrightarrow> \<forall>w \<in> set ws. sep \<notin> set w \<Longrightarrow> split_on sep (join [sep] ws) = ws"
  by (induction "[sep]" ws rule: join.induct) (auto simp: split_on_word split_on_append)

lemma join_split: "join [sep] (split_on sep s) = s"
proof (induction s)
  case (Cons c s)
  obtain v vs where "split_on sep s = v # vs"
    by (cases "split_on sep s") auto
  with Cons.IH show ?case
    by (cases vs) auto
qed simp

lemma join_Nil_iff: "\<forall>w \<in> set ws. w \<noteq> [] \<Longrightarrow> join sep ws = [] \<longleftrightarrow> ws = []"
  by (induction sep ws rule: join.induct) auto

lemma ascii_lower_join: "ascii_lower (join [95] ws) = join [95] (map ascii_lower ws)"
  by (induction "[95 :: int]" ws rule: join.induct) (auto simp: ascii_lower_def lower_char_def is_upper_def)

lemma lower_sysname_char: "word_char c \<Longrightarrow> c \<noteq> 95 \<Longrightarrow> sysname_char (lower_char c)"
  by (auto simp: char_defs)

lemma sysname_char_facts:
  "sysname_char c \<Longrightarrow> word_char c \<and> lower_char c = c \<and> c \<noteq> 95 \<and> c \<noteq> 32 \<and> is_ascii c"
  by (auto simp: char_defs)

lemma set_join: "set (join [sep] ws) \<subseteq> insert sep (\<Union> (set ` set ws))"
  by (induction "[sep]" ws rule: join.induct) auto

lemma length_ascii_lower [simp]: "length (ascii_lower s) = length s"
  by (simp add: ascii_lower_def)

lemma normalized_join:
  assumes "vs \<noteq> []" "\<And>w. w \<in> set vs \<Longrightarrow> w \<noteq> [] \<and> (\<forall>c \<in> set w. sysname_char c)"
  shows "normalized_tag (join [95] vs)"
proof -
  have "\<forall>w \<in> set vs. 95 \<notin> set w"
    using assms(2) sysname_char_facts by blast
  with assms show ?thesis
    by (simp add: normalized_tag_def split_join list_all_iff)
qed

lemma parse_tag_normalizes:
  assumes "parse_tag s = Inr (Some t)"
  shows "expect_tag t = Inr t"
proof -
  let ?ws = "filter (\<lambda>w. w \<noteq> []) (split_on 95 (filter word_char s))"
  have t: "t = ascii_lower (join [95] ?ws)" "length t \<le> TAG_MAX_LENGTH" "t \<noteq> []"
    using assms by (auto simp: parse_tag_def Let_def ascii_lower_def split: if_splits)
  have char: "word_char c \<and> c \<noteq> 95" if "w \<in> set ?ws" "c \<in> set w" for w c
    using that split_on_no_sep [of w 95 "filter word_char s"] by auto
  have word: "sysname_char c" if w: "w \<in> set (map ascii_lower ?ws)" "c \<in> set w" for w c
  proof -
    obtain v d where v: "v \<in> set ?ws" "d \<in> set v" "c = lower_char d"
      using w by (auto simp: ascii_lower_def)
    then show ?thesis
      using char [OF v(1,2)] lower_sysname_char by blast
  qed
  have "normalized_tag (join [95] (map ascii_lower ?ws))"
  proof (rule normalized_join)
    show "map ascii_lower ?ws \<noteq> []"
      using t(1,3) by (auto simp: ascii_lower_def)
    show "w \<noteq> [] \<and> (\<forall>c \<in> set w. sysname_char c)" if "w \<in> set (map ascii_lower ?ws)" for w
      using that word [OF that] by (auto simp: ascii_lower_def)
  qed
  then have "normalized_tag t"
    by (simp only: t(1) ascii_lower_join)
  with t(2,3) show ?thesis by (simp add: expect_tag_def)
qed

lemma parse_tag_fixed:
  assumes "expect_tag t = Inr t"
  shows "parse_tag t = Inr (Some t)"
proof -
  have t: "t \<noteq> []" "length t \<le> TAG_MAX_LENGTH" "\<forall>w \<in> set (split_on 95 t). w \<noteq> [] \<and> (\<forall>c \<in> set w. sysname_char c)"
    using assms by (auto simp: expect_tag_def normalized_tag_def list_all_iff split: if_splits)
  have chars: "c = 95 \<or> sysname_char c" if "c \<in> set t" for c
    using set_join [of 95 "split_on 95 t"] t(3) that by (auto simp: join_split)
  then have "filter word_char t = t"
    using sysname_char_facts by (auto simp: filter_id_conv word_char_def)
  moreover have "filter (\<lambda>w. w \<noteq> []) (split_on 95 t) = split_on 95 t"
    using t(3) by (auto simp: filter_id_conv)
  moreover have "ascii_lower t = t"
  proof -
    have "lower_char c = c" if "c \<in> set t" for c
      using chars [OF that] sysname_char_facts [of c] by (auto simp: lower_char_def is_upper_def)
    then show ?thesis by (simp add: ascii_lower_def map_idI)
  qed
  moreover have "32 \<notin> set t"
    using chars sysname_char_facts by fastforce
  ultimately show ?thesis
    using t by (simp add: parse_tag_def Let_def join_split)
qed

text \<open>
  \<open>parse_tag\<close> and \<open>expect_tag\<close> agree on what a normalized tag is: the strings \<open>parse_tag\<close> can
  return are exactly those \<open>expect_tag\<close> accepts, and these are the fixed points of \<open>parse_tag\<close>.
\<close>

theorem parse_tag_range:
  "((\<exists>s. parse_tag s = Inr (Some t)) \<longleftrightarrow> expect_tag t = Inr t)
     \<and> (expect_tag t = Inr t \<longleftrightarrow> parse_tag t = Inr (Some t))"
  using parse_tag_normalizes parse_tag_fixed by blast

subsection \<open>User names\<close>

lemma filter_join:
  "\<not> P 32 \<Longrightarrow> filter P (join [32 :: int] ws) = concat (map (filter P) ws)"
  by (induction "[32 :: int]" ws rule: join.induct) auto

lemma concat_drop_Nil: "concat (map (filter P) (filter (\<lambda>w. w \<noteq> []) ws)) = concat (map (filter P) ws)"
  by (induction ws) auto

lemma concat_split_white_from:
  assumes "\<And>c. is_space c \<Longrightarrow> \<not> P c"
  shows "filter P (concat (split_white_from word s)) = filter P (word @ s)"
  using assms by (induction word s rule: split_white_from.induct) auto

lemma concat_split_white:
  assumes "\<And>c. is_space c \<Longrightarrow> \<not> P c"
  shows "filter P (concat (split_white s)) = filter P s"
  using concat_split_white_from [where P = P and word = "[]" and s = s] assms by (simp add: split_white_def)

lemma lower_sysname_of: "filter sysname_char (ascii_lower s) = ascii_lower (filter (\<lambda>c. sysname_char (lower_char c)) s)"
  by (induction s) (auto simp: ascii_lower_def)

definition alnum :: "int \<Rightarrow> bool" where
  "alnum c = sysname_char (lower_char c)"

lemma alnum_facts: "alnum c \<Longrightarrow> username_char c \<and> is_ascii c \<and> \<not> is_space c \<and> c \<noteq> 32"
  by (auto simp: alnum_def char_defs split: if_splits)

lemma cleaned_alnum:
  "filter alnum (join [32] (filter (\<lambda>w. w \<noteq> []) (map (filter username_char) (split_white s)))) = filter alnum s"
proof -
  have sep: "\<not> alnum 32" and space: "\<And>c. is_space c \<Longrightarrow> \<not> alnum c"
    using alnum_facts by blast+
  have "(\<lambda>c. username_char c \<and> alnum c) = alnum"
    using alnum_facts by blast
  then have "filter alnum (filter username_char w) = filter alnum w" for w
    by simp
  then have "filter alnum (join [32] (filter (\<lambda>w. w \<noteq> []) (map (filter username_char) (split_white s))))
      = filter alnum (concat (split_white s))"
    by (simp only: filter_join [of alnum, OF sep] concat_drop_Nil map_map comp_def filter_concat)
  also have "\<dots> = filter alnum s"
    by (rule concat_split_white [OF space])
  finally show ?thesis .
qed

lemma cleaned_ascii:
  "list_all is_ascii (join [32] (filter (\<lambda>w. w \<noteq> []) (map (filter username_char) ws)))"
proof -
  have "is_ascii c" if "c = 32 \<or> username_char c" for c
    using that by (auto simp: char_defs)
  moreover have "set (join [32] (filter (\<lambda>w. w \<noteq> []) (map (filter username_char) ws)))
      \<subseteq> {c. c = 32 \<or> username_char c}"
    by (rule order.trans [OF set_join]) auto
  ultimately show ?thesis
    by (auto simp: list_all_iff)
qed

lemma create_sysname:
  assumes "ascii_rules lower nfkd" "username_create lower nfkd text = Inr u"
  shows "un_sysname u = ascii_lower (filter alnum (nfkd text))" "un_sysname u \<noteq> []"
    "length (un_sysname u) \<le> USERNAME_MAX_LENGTH"
proof -
  let ?c = "join [32] (filter (\<lambda>w. w \<noteq> []) (map (filter username_char) (split_white (nfkd text))))"
  have u: "length ?c \<le> USERNAME_MAX_LENGTH" "un_sysname u = get_sysname_unchecked lower ?c" "un_sysname u \<noteq> []"
    using assms(2) by (auto simp: username_create_def Let_def split: if_splits)
  have "lower ?c = ascii_lower ?c"
    using assms(1) cleaned_ascii by (simp add: ascii_rules_def)
  then have name: "un_sysname u = ascii_lower (filter alnum ?c)"
    using u(2) by (simp add: get_sysname_unchecked_def lower_sysname_of alnum_def [abs_def])
  then show "un_sysname u = ascii_lower (filter alnum (nfkd text))"
    by (simp add: cleaned_alnum)
  show "length (un_sysname u) \<le> USERNAME_MAX_LENGTH"
    using u(1) le_trans [OF length_filter_le [of alnum ?c]] by (simp add: name)
qed (use assms(2) in \<open>auto simp: username_create_def Let_def split: if_splits\<close>)

text \<open>
  A user finds an account by the name it was created with: when \<open>Username.create\<close> accepts an ASCII
  name, \<open>parse_sysname\<close> of the same text is the sysname the account got.
\<close>

theorem create_then_lookup:
  assumes "ascii_rules lower nfkd" "list_all is_ascii text" "username_create lower nfkd text = Inr u"
  shows "parse_sysname lower nfkd text = Some (un_sysname u)"
proof -
  have rules: "nfkd text = text" "lower text = ascii_lower text"
    using assms(1,2) by (auto simp: ascii_rules_def)
  have "list_all is_ascii (ascii_lower text)"
    using assms(2) by (auto simp: ascii_lower_def list_all_iff char_defs)
  then have "nfkd (ascii_lower text) = ascii_lower text"
    using assms(1) by (simp add: ascii_rules_def)
  with create_sysname [OF assms(1,3)] rules show ?thesis
    by (auto simp: parse_sysname_def lower_sysname_of alnum_def [abs_def] Let_def)
qed

lemma ascii_rules_instance: "ascii_rules ascii_lower id"
  by (simp add: ascii_rules_def)

theorem create_then_lookup_witness:
  "parse_sysname ascii_lower id (ustr ''Some; Fox 7'') = Some (ustr ''somefox7'')"
proof -
  have "username_create ascii_lower id (ustr ''Some; Fox 7'')
      = Inr \<lparr>un_display = ustr ''Some Fox 7'', un_sysname = ustr ''somefox7''\<rparr>"
    by code_simp
  moreover have "list_all is_ascii (ustr ''Some; Fox 7'')" by code_simp
  ultimately show ?thesis
    using create_then_lookup [OF ascii_rules_instance] by fastforce
qed

text \<open>
  Outside ASCII the two can differ, although the documentation of \<open>parse_sysname\<close> says they agree
  whenever \<open>create\<close> does not throw: \<open>create\<close> decomposes before it lowers the case, \<open>parse_sysname\<close>
  after. For a character that has no lower case but decomposes into capitals (U+2122 into \<open>TM\<close>), the
  account's own name does not find it.
\<close>

theorem create_lookup_differ:
  assumes "nfkd [97, 0x2122] = [97, 84, 77]" "lower [97, 0x2122] = [97, 0x2122]" "lower [97, 84, 77] = [97, 116, 109]"
  shows "map_sum id un_sysname (username_create lower nfkd [97, 0x2122]) = Inr (ustr ''atm'')
    \<and> parse_sysname lower nfkd [97, 0x2122] = Some (ustr ''a'')"
proof -
  have c: "join [32] (filter (\<lambda>w. w \<noteq> []) (map (filter username_char) (split_white [97, 84, 77]))) = [97, 84, 77]"
    by code_simp
  have n: "filter sysname_char [97, 116, 109] = [97, 116, 109]" "filter sysname_char [97, 84, 77] = [97]"
    "[97, 116, 109] \<notin> set BANNED_SYSNAMES" "ustr ''atm'' = [97, 116, 109]" "ustr ''a'' = [97]"
    by code_simp+
  show ?thesis
    using n by (simp add: username_create_def parse_sysname_def assms c get_sysname_unchecked_def
        USERNAME_MAX_LENGTH_def Let_def del: filter.simps)
qed

theorem create_lookup_differ_witness:
  "let nfkd = (\<lambda>s. concat (map (\<lambda>c. if c = 0x2122 then [84, 77] else [c]) s)) in
   map_sum id un_sysname (username_create ascii_lower nfkd [97, 0x2122]) = Inr (ustr ''atm'')
     \<and> parse_sysname ascii_lower nfkd [97, 0x2122] = Some (ustr ''a'')"
  unfolding Let_def
  by (rule create_lookup_differ) (simp_all add: ascii_lower_def char_defs)

end
