(* ===== verification/Rate_Limits.thy ===== *)
theory Rate_Limits
  imports Prelude
begin

text \<open>
  \<^verbatim>\<open>weasyl/rate_limits.py\<close>: the token bucket kept in the table \<open>global_rate_limits\<close>. \<open>take_one\<close> is
  one \<open>UPDATE\<close> and a look at its row count. Division of two positive \<open>bigint\<close>s is \<open>div\<close>; the clock
  is read in whole seconds and may go back.
\<close>

record rate_limit_row =
  gl_id :: string
  gl_available :: int
  gl_last_update :: int

record GlobalRateLimit =
  rl_id :: string
  capacity :: int
  period :: int

definition rate_limit_post_init :: "GlobalRateLimit \<Rightarrow> GlobalRateLimit result" where
  "rate_limit_post_init rl =
     (if \<not> (0 \<le> capacity rl \<and> capacity rl \<le> 0x3fffffff) then Inl ValueError
      else if \<not> (0 < period rl \<and> period rl \<le> 0x3fffffff) then Inl ValueError
      else Inr rl)"

definition TICKS :: "int \<Rightarrow> rate_limit_row \<Rightarrow> int" where
  "TICKS now r = max 0 (now - gl_last_update r)"

definition NEWLY_AVAILABLE :: "GlobalRateLimit \<Rightarrow> int \<Rightarrow> rate_limit_row \<Rightarrow> int" where
  "NEWLY_AVAILABLE rl now r = TICKS now r * capacity rl div period rl"

definition bucket_open :: "GlobalRateLimit \<Rightarrow> int \<Rightarrow> rate_limit_row \<Rightarrow> bool" where
  "bucket_open rl now r =
     (gl_id r = rl_id rl \<and> (gl_available r > 0 \<or> NEWLY_AVAILABLE rl now r > 0))"

definition bucket_take :: "GlobalRateLimit \<Rightarrow> int \<Rightarrow> rate_limit_row \<Rightarrow> rate_limit_row" where
  "bucket_take rl now r =
     r\<lparr>gl_available := min (capacity rl) (gl_available r + NEWLY_AVAILABLE rl now r) - 1,
       gl_last_update := gl_last_update r + TICKS now r\<rparr>"

definition take_one ::
  "GlobalRateLimit \<Rightarrow> int \<Rightarrow> rate_limit_row list \<Rightarrow> unit result \<times> rate_limit_row list" where
  "take_one rl now rows =
     (let rowcount = count_where (bucket_open rl now) rows;
          rows' = update_where (bucket_open rl now) (bucket_take rl now) rows
      in if rowcount = 0 then (Inl (WeasylError ''globalLimit''), rows')
         else if rowcount \<noteq> 1 then (Inl AssertionError, rows')
         else (Inr (), rows'))"

text \<open>A sequence of attempts at the given clock readings: how many succeed, and the table left.\<close>

fun take_all :: "GlobalRateLimit \<Rightarrow> int list \<Rightarrow> rate_limit_row list \<Rightarrow> int \<times> rate_limit_row list" where
  "take_all rl [] rows = (0, rows)"
| "take_all rl (now # nows) rows =
     (let (res, rows') = take_one rl now rows;
          (n, rows'') = take_all rl nows rows'
      in ((if is_ok res then 1 else 0) + n, rows''))"

subsection \<open>One bucket\<close>

definition the_bucket :: "GlobalRateLimit \<Rightarrow> rate_limit_row list \<Rightarrow> rate_limit_row option" where
  "the_bucket rl rows = find (\<lambda>r. gl_id r = rl_id rl) rows"

lemma gl_id_take [simp]: "gl_id (bucket_take rl now r) = gl_id r"
  by (simp add: bucket_take_def)

lemma distinct_take_one:
  "distinct (map gl_id rows) \<Longrightarrow> distinct (map gl_id (snd (take_one rl now rows)))"
  by (simp add: take_one_def Let_def map_key_update_where)

lemma the_bucket_update:
  "the_bucket rl (update_where P (bucket_take rl now) rows) =
     map_option (\<lambda>r. if P r then bucket_take rl now r else r) (the_bucket rl rows)"
  by (induction rows) (auto simp: the_bucket_def update_where_def)

lemma count_open:
  assumes "distinct (map gl_id rows)"
  shows "count_where (bucket_open rl now) rows =
    (case the_bucket rl rows of None \<Rightarrow> 0 | Some r \<Rightarrow> if bucket_open rl now r then 1 else 0)"
  using assms
proof (induction rows)
  case (Cons r rows)
  have cons: "count_where (bucket_open rl now) (r # rows) =
      (if bucket_open rl now r then 1 else 0) + count_where (bucket_open rl now) rows"
    by (simp add: count_where_def)
  show ?case
  proof (cases "gl_id r = rl_id rl")
    case True
    then have "count_where (bucket_open rl now) rows = 0"
      using Cons.prems by (force simp: count_where_0_iff bucket_open_def)
    with True cons show ?thesis by (simp add: the_bucket_def)
  next
    case False
    then have "\<not> bucket_open rl now r" by (simp add: bucket_open_def)
    with False cons Cons show ?thesis by (simp add: the_bucket_def)
  qed
qed (simp add: count_where_def the_bucket_def)

lemma take_one_bucket:
  assumes "distinct (map gl_id rows)" "the_bucket rl rows = Some r"
  shows "fst (take_one rl now rows) =
      (if bucket_open rl now r then Inr () else Inl (WeasylError ''globalLimit''))"
    and "the_bucket rl (snd (take_one rl now rows)) =
      Some (if bucket_open rl now r then bucket_take rl now r else r)"
  using count_open [OF assms(1), of rl now] assms(2)
  by (auto simp: take_one_def Let_def the_bucket_update)

text \<open>
  The potential of a bucket up to the time \<open>stop\<close>: what it holds and what it can still gain, scaled
  by \<open>period\<close>. An event costs \<open>period\<close> of it. A bucket may hold fewer than no tokens (a limit
  configured as \<open>0\<close> leaves \<open>-1\<close>); the debt does not delay the next event, so it does not count.
\<close>

definition potential :: "GlobalRateLimit \<Rightarrow> int \<Rightarrow> rate_limit_row \<Rightarrow> int" where
  "potential rl stop r =
     period rl * max 0 (gl_available r) + capacity rl * max 0 (stop - gl_last_update r)"

lemma newly_bound:
  "0 < period rl \<Longrightarrow> period rl * NEWLY_AVAILABLE rl now r \<le> TICKS now r * capacity rl"
  by (simp add: NEWLY_AVAILABLE_def) (metis minus_mod_eq_mult_div le_add_same_cancel1 diff_le_eq pos_mod_sign)

lemma newly_nonneg: "0 < period rl \<Longrightarrow> 0 \<le> capacity rl \<Longrightarrow> 0 \<le> NEWLY_AVAILABLE rl now r"
  by (simp add: NEWLY_AVAILABLE_def TICKS_def pos_imp_zdiv_nonneg_iff)

lemma available_after_take: "gl_available (bucket_take rl now r) \<le> capacity rl - 1"
  by (simp add: bucket_take_def)

lemma potential_after_take:
  assumes "0 \<le> capacity rl" "0 < period rl" "now \<le> stop" "bucket_open rl now r"
  shows "potential rl stop (bucket_take rl now r) \<le> potential rl stop r - period rl"
proof -
  let ?n = "NEWLY_AVAILABLE rl now r" and ?t = "TICKS now r"
  have "max 0 (gl_available (bucket_take rl now r)) \<le> max 0 (gl_available r) + ?n - 1"
    using assms(4) newly_nonneg [OF assms(2,1), of now r]
    by (auto simp: bucket_take_def bucket_open_def)
  then have "period rl * max 0 (gl_available (bucket_take rl now r))
      \<le> period rl * (max 0 (gl_available r) + ?n - 1)"
    using assms(2) by (intro mult_left_mono) auto
  also have "\<dots> = period rl * max 0 (gl_available r) + period rl * ?n - period rl"
    by (simp add: algebra_simps)
  also have "\<dots> \<le> period rl * max 0 (gl_available r) + capacity rl * ?t - period rl"
    using newly_bound [OF assms(2), of now r] by (simp add: mult.commute)
  finally have gain: "period rl * max 0 (gl_available (bucket_take rl now r)) \<le>
      period rl * max 0 (gl_available r) + capacity rl * ?t - period rl" .
  have "max 0 (stop - (gl_last_update r + ?t)) = max 0 (stop - gl_last_update r) - ?t"
    using assms(3) by (auto simp: TICKS_def)
  then have "capacity rl * max 0 (stop - (gl_last_update r + ?t)) =
      capacity rl * max 0 (stop - gl_last_update r) - capacity rl * ?t"
    by (simp add: right_diff_distrib)
  with gain show ?thesis
    by (simp add: potential_def) (simp add: bucket_take_def)
qed

lemma potential_nonneg: "0 \<le> capacity rl \<Longrightarrow> 0 < period rl \<Longrightarrow> 0 \<le> potential rl stop r"
  by (simp add: potential_def)

lemma events_below_potential:
  assumes "0 \<le> capacity rl" "0 < period rl" "\<forall>t \<in> set nows. t \<le> stop"
    and "distinct (map gl_id rows)" "the_bucket rl rows = Some r"
  shows "period rl * fst (take_all rl nows rows) \<le> potential rl stop r"
  using assms(3-)
proof (induction nows arbitrary: rows r)
  case Nil
  then show ?case using potential_nonneg [OF assms(1,2)] by simp
next
  case (Cons now nows)
  let ?r = "if bucket_open rl now r then bucket_take rl now r else r"
  have "period rl * fst (take_all rl nows (snd (take_one rl now rows))) \<le> potential rl stop ?r"
    using Cons.prems by (intro Cons.IH) (auto simp: distinct_take_one take_one_bucket)
  moreover have "potential rl stop (bucket_take rl now r) \<le> potential rl stop r - period rl"
    if "bucket_open rl now r"
    using Cons.prems(1) that by (intro potential_after_take assms) simp_all
  ultimately show ?case
    using Cons.prems by (auto simp: take_one_bucket split_def Let_def distrib_left split: if_splits)
qed

lemma events_in_window:
  assumes "0 \<le> capacity rl" "0 < period rl" "\<forall>t \<in> set nows. start \<le> t \<and> t \<le> start + width" "0 \<le> width"
    and "distinct (map gl_id rows)" "the_bucket rl rows = Some r"
  shows "period rl * fst (take_all rl nows rows) \<le> period rl * max 1 (capacity rl) + capacity rl * width"
  using assms(3,5-)
proof (induction nows arbitrary: rows r)
  case Nil
  then show ?case using assms(1,2,4) by simp
next
  case (Cons now nows)
  show ?case
  proof (cases "bucket_open rl now r")
    case False
    then have "period rl * fst (take_all rl nows (snd (take_one rl now rows)))
        \<le> period rl * max 1 (capacity rl) + capacity rl * width"
      using Cons.prems by (intro Cons.IH) (auto simp: distinct_take_one take_one_bucket)
    with False Cons.prems show ?thesis
      by (simp add: take_one_bucket split_def Let_def)
  next
    case True
    let ?r = "bucket_take rl now r" and ?stop = "start + width"
    have "period rl * fst (take_all rl nows (snd (take_one rl now rows))) \<le> potential rl ?stop ?r"
      using Cons.prems True
      by (intro events_below_potential assms) (auto simp: distinct_take_one take_one_bucket)
    also have "\<dots> \<le> period rl * (max 1 (capacity rl) - 1) + capacity rl * width"
    proof -
      have "start \<le> gl_last_update ?r"
        using Cons.prems(1) by (auto simp: bucket_take_def TICKS_def)
      then have "capacity rl * max 0 (?stop - gl_last_update ?r) \<le> capacity rl * width"
        using assms(1,4) by (intro mult_left_mono) auto
      moreover have "period rl * max 0 (gl_available ?r) \<le> period rl * (max 1 (capacity rl) - 1)"
        using available_after_take [of rl now r] assms(2) by (intro mult_left_mono) auto
      ultimately show ?thesis by (simp add: potential_def)
    qed
    finally show ?thesis
      using True Cons.prems
      by (simp add: take_one_bucket split_def Let_def distrib_left right_diff_distrib)
  qed
qed

lemma events_of_nothing:
  assumes "capacity rl = 0" "0 < period rl" "distinct (map gl_id rows)" "the_bucket rl rows = Some r"
    and "gl_available r \<le> 0"
  shows "fst (take_all rl nows rows) = 0"
  using assms(3-)
proof (induction nows arbitrary: rows r)
  case (Cons now nows)
  have closed: "\<not> bucket_open rl now r"
    using Cons.prems(3) assms(1) by (simp add: bucket_open_def NEWLY_AVAILABLE_def)
  then have "fst (take_all rl nows (snd (take_one rl now rows))) = 0"
    using Cons.prems by (intro Cons.IH [where r = r]) (simp_all add: distinct_take_one take_one_bucket)
  with closed Cons.prems show ?case by (simp add: take_one_bucket split_def Let_def)
qed simp

text \<open>
  C16: The promise of \<open>GlobalRateLimit\<close>. For every limit \<open>__post_init__\<close> accepts, whatever its row in
  the table holds, and for every sequence of attempts whose clock readings lie in a window of \<open>width\<close>
  seconds, in whatever order the readings come: if \<open>capacity\<close> is not 0, the number of events let
  through, times \<open>period\<close>, is at most \<open>capacity * (period + width)\<close>; so a span of \<open>period\<close> never holds
  more than \<open>2 * capacity\<close> events, and over long spans the average rate is at most
  \<open>capacity / period\<close>. If \<open>capacity\<close> is 0, no event is let through by a row that holds no token, and
  at most one, once and for all, by a row that still holds tokens (from the time the configured
  capacity was larger).
\<close>

theorem rate_limit_window:
  assumes "rate_limit_post_init rl = Inr rl"
    and "distinct (map gl_id rows)" "the_bucket rl rows = Some r"
    and "\<forall>t \<in> set nows. start \<le> t \<and> t \<le> start + width" "0 \<le> width"
  shows "if capacity rl = 0
    then fst (take_all rl nows rows) \<le> (if 0 < gl_available r then 1 else 0)
    else period rl * fst (take_all rl nows rows) \<le> capacity rl * (period rl + width)
      \<and> (width = period rl \<longrightarrow> fst (take_all rl nows rows) \<le> 2 * capacity rl)"
proof -
  let ?n = "fst (take_all rl nows rows)"
  have pos: "0 < period rl" "0 \<le> capacity rl"
    using assms(1) by (auto simp: rate_limit_post_init_def split: if_splits)
  have bound: "period rl * ?n \<le> period rl * max 1 (capacity rl) + capacity rl * width"
    by (rule events_in_window [OF pos(2,1) assms(4,5,2,3)])
  show ?thesis
  proof (cases "capacity rl = 0")
    case True
    with bound pos(1) events_of_nothing [OF True pos(1) assms(2,3)] show ?thesis by auto
  next
    case False
    with bound pos(2) have all: "period rl * ?n \<le> capacity rl * (period rl + width)"
      by (simp add: max_def algebra_simps split: if_splits)
    moreover have "?n \<le> 2 * capacity rl" if "width = period rl"
    proof -
      have "period rl * ?n \<le> period rl * (2 * capacity rl)"
        using all that by (simp add: algebra_simps)
      then show ?thesis using pos(1) by simp
    qed
    ultimately show ?thesis using False by simp
  qed
qed

theorem rate_limit_window_witness:
  "let rl = \<lparr>rl_id = ''mail-out'', capacity = 2, period = 60\<rparr>;
       zero = \<lparr>rl_id = ''mail-out'', capacity = 0, period = 1\<rparr>;
       n = fst (take_all rl [1000, 1001, 1002, 1030, 1060]
             [\<lparr>gl_id = ''mail-out'', gl_available = 0, gl_last_update = 0\<rparr>]);
       m = fst (take_all zero [1000, 1001, 1060]
             [\<lparr>gl_id = ''mail-out'', gl_available = 5, gl_last_update = 0\<rparr>])
   in n = 3 \<and> 60 * n \<le> 2 * (60 + 60) \<and> n \<le> 2 * 2 \<and> m = 1"
proof -
  define rl :: GlobalRateLimit where "rl = \<lparr>rl_id = ''mail-out'', capacity = 2, period = 60\<rparr>"
  define zero :: GlobalRateLimit where "zero = \<lparr>rl_id = ''mail-out'', capacity = 0, period = 1\<rparr>"
  define rows :: "rate_limit_row list" where
    "rows = [\<lparr>gl_id = ''mail-out'', gl_available = 0, gl_last_update = 0\<rparr>]"
  define full :: "rate_limit_row list" where
    "full = [\<lparr>gl_id = ''mail-out'', gl_available = 5, gl_last_update = 0\<rparr>]"
  have "fst (take_all rl [1000, 1001, 1002, 1030, 1060] rows) = 3"
    unfolding rl_def rows_def by code_simp
  moreover have "0 < fst (take_all zero [1000, 1001, 1060] full)"
    unfolding zero_def full_def by code_simp
  moreover have "fst (take_all zero [1000, 1001, 1060] full) \<le> 1"
    using rate_limit_window [of zero full "hd full" "[1000, 1001, 1060]" 1000 60]
    by (simp add: zero_def full_def rate_limit_post_init_def the_bucket_def)
  moreover have "60 * fst (take_all rl [1000, 1001, 1002, 1030, 1060] rows) \<le> 2 * (60 + 60)
      \<and> fst (take_all rl [1000, 1001, 1002, 1030, 1060] rows) \<le> 2 * 2"
    using rate_limit_window [of rl rows "hd rows" "[1000, 1001, 1002, 1030, 1060]" 1000 60]
    by (simp add: rl_def rows_def rate_limit_post_init_def the_bucket_def)
  ultimately show ?thesis
    by (simp add: rl_def zero_def rows_def full_def Let_def)
qed

text \<open>
  The docstring's promise, \<open>2 * capacity\<close> events in a span of \<open>period\<close>, does not hold for a limit set
  to \<open>0\<close> while its row still holds tokens: one more event is let through.
\<close>

lemma zero_capacity_event:
  "fst (take_all \<lparr>rl_id = ''mail-out'', capacity = 0, period = 1\<rparr> [1000]
     [\<lparr>gl_id = ''mail-out'', gl_available = 5, gl_last_update = 0\<rparr>]) = 1"
  by code_simp

text \<open>
  No overflow. For a limit that passed \<open>__post_init__\<close>, clock readings and stored times below
  \<open>2^33\<close> and a stored \<open>available\<close> between 0 and \<open>2^31\<close>, the intermediate product and sum fit PostgreSQL's
  \<open>bigint\<close>, and what is stored fits \<open>integer\<close> and \<open>bigint\<close>.
\<close>

theorem rate_limit_fits:
  assumes "rate_limit_post_init rl = Inr rl" "0 \<le> now" "now < 2 ^ 33"
    and "0 \<le> gl_last_update r" "gl_last_update r < 2 ^ 33" "0 \<le> gl_available r" "gl_available r < 2 ^ 31"
  shows "TICKS now r * capacity rl < 2 ^ 63
    \<and> gl_available r + NEWLY_AVAILABLE rl now r < 2 ^ 63
    \<and> - (2 ^ 31) \<le> gl_available (bucket_take rl now r) \<and> gl_available (bucket_take rl now r) < 2 ^ 31
    \<and> 0 \<le> gl_last_update (bucket_take rl now r) \<and> gl_last_update (bucket_take rl now r) < 2 ^ 33"
proof -
  have rl: "0 \<le> capacity rl" "capacity rl \<le> 0x3fffffff" "0 < period rl"
    using assms(1) by (auto simp: rate_limit_post_init_def split: if_splits)
  have t: "0 \<le> TICKS now r" "TICKS now r \<le> 2 ^ 33"
    using assms by (auto simp: TICKS_def)
  then have p: "TICKS now r * capacity rl \<le> 2 ^ 33 * 0x3fffffff"
    using rl by (intro mult_mono) auto
  have "NEWLY_AVAILABLE rl now r \<le> TICKS now r * capacity rl"
    unfolding NEWLY_AVAILABLE_def using t rl
    by (metis div_by_1 int_one_le_iff_zero_less mult_nonneg_nonneg zdiv_mono2 zero_less_one)
  moreover have "0 \<le> NEWLY_AVAILABLE rl now r"
    using newly_nonneg rl by blast
  ultimately show ?thesis
    using p rl assms by (auto simp: bucket_take_def TICKS_def min_def)
qed

theorem rate_limit_fits_witness:
  "gl_available (bucket_take \<lparr>rl_id = ''mail-out'', capacity = 0x3fffffff, period = 1\<rparr> (2 ^ 33 - 1)
     \<lparr>gl_id = ''mail-out'', gl_available = 0, gl_last_update = 0\<rparr>) < 2 ^ 31"
  using rate_limit_fits [of "\<lparr>rl_id = ''mail-out'', capacity = 0x3fffffff, period = 1\<rparr>" "2 ^ 33 - 1"
      "\<lparr>gl_id = ''mail-out'', gl_available = 0, gl_last_update = 0\<rparr>"]
  by (simp add: rate_limit_post_init_def)

end
