(* ===== verification/Database.thy ===== *)
theory Database
  imports Schema Ratings
begin

text \<open>
  The state of the site: the values memcached holds for the queries that are cached
  (\<^verbatim>\<open>region.cache_on_arguments\<close>) and the tables, as a chain of records. Reading through a cache is one
  function, \<open>read_through\<close>; that a cached value is what its query would return is \<open>coherent\<close>; the
  locale \<open>cached_query\<close> is the contract of a cache, interpreted on each of them where its query is
  defined.
\<close>

record all_config =
  is_banned :: bool
  is_suspended :: bool
  is_vouched_for :: bool
  profile_configuration :: string
  jsonb_settings :: "jsonb option"
  premium :: bool

datatype post_type = PT_submission | PT_journal | PT_character | PT_collection

record posts_count_row =
  pc_post_type :: post_type
  pc_rating :: int
  pc_friends_only :: bool
  pc_count :: int

record siteupdate_view =
  sv_updateid :: int
  sv_userid :: "int option"
  sv_title :: string
  sv_content :: string
  sv_unixtime :: int
  sv_username :: "string option"
  sv_wesley :: bool

record caches =
  c_all_config :: "int \<Rightarrow> all_config option"
  c_display_name :: "int \<Rightarrow> string option"
  c_userids :: "string \<Rightarrow> int option"
  c_posts_count :: "int \<Rightarrow> posts_count_row list option"
  c_last_read :: "int \<Rightarrow> int option option"
  c_updateids :: "int list option"
  c_page_header :: "int \<Rightarrow> int list option"
  c_ignoring :: "int \<Rightarrow> int list option"
  c_blocktags :: "int \<Rightarrow> blocktag_row list option"
  c_user_restricted :: "int \<Rightarrow> string list option"
  c_global_restricted :: "string list option"
  c_tag_ids :: "string \<Rightarrow> int option"
  c_tag_names :: "int \<Rightarrow> string option"
  c_is_adult :: "int \<Rightarrow> bool option"
  c_select_view :: "int \<Rightarrow> siteupdate_view option"
  c_select_last :: "(siteupdate_view \<times> int) option option"

record accounts_db = caches +
  t_login :: "login_row list"
  t_authbcrypt :: "authbcrypt_row list"
  t_profile :: "profile_row list"
  t_useralias :: "useralias_row list"
  t_username_history :: "username_history_row list"
  t_userinfo :: "userinfo_row list"
  t_user_links :: "user_link_row list"
  t_user_streams :: "user_stream_row list"
  t_permaban :: "permaban_row list"
  t_suspension :: "suspension_row list"
  t_sessions :: "session_row list"
  t_user_agents :: "user_agent_row list"
  t_user_events :: "user_event_row list"
  t_emailverify :: "emailverify_row list"
  t_forgotpassword :: "forgotpassword_row list"
  t_logincreate :: "logincreate_row list"
  t_twofa_recovery_codes :: "recovery_code_row list"
  login_seq :: int
  history_seq :: int
  event_seq :: int
  user_agent_seq :: int
  link_seq :: int

record social_db = accounts_db +
  t_frienduser :: "frienduser_row list"
  t_ignoreuser :: "ignoreuser_row list"
  t_watchuser :: "watchuser_row list"
  t_welcome :: "welcome_row list"
  welcome_seq :: int
  t_message :: "message_row list"
  message_seq :: int
  t_permitted_senders :: "permitted_sender_row list"

record content_db = social_db +
  t_submission :: "submission_row list"
  t_character :: "character_row list"
  t_journal :: "journal_row list"
  t_folder :: "folder_row list"
  t_collection :: "collection_row list"
  t_favorite :: "favorite_row list"
  t_comments :: "comments_row list"
  t_charcomment :: "charcomment_row list"
  t_journalcomment :: "journalcomment_row list"
  t_siteupdate :: "siteupdate_row list"
  t_siteupdatecomment :: "siteupdatecomment_row list"
  t_views :: "view_row list"
  submission_seq :: int
  character_seq :: int
  journal_seq :: int
  folder_seq :: int
  comments_seq :: int
  charcomment_seq :: int
  journalcomment_seq :: int
  siteupdate_seq :: int
  siteupdatecomment_seq :: int

record tags_db = content_db +
  t_searchtag :: "searchtag_row list"
  t_searchmapsubmit :: "searchmap_row list"
  t_searchmapchar :: "searchmap_row list"
  t_searchmapjournal :: "searchmap_row list"
  t_artist_preferred_tags :: "artist_tag_row list"
  t_artist_optout_tags :: "artist_tag_row list"
  t_blocktag :: "blocktag_row list"
  t_globally_restricted_tags :: "globally_restricted_row list"
  t_user_restricted_tags :: "user_restricted_row list"
  t_submission_tags :: "submission_tags_row list"
  t_tag_updates :: "tag_update_row list"
  t_tag_feedback_submission :: "tag_feedback_row list"
  t_tag_feedback_character :: "tag_feedback_row list"
  t_tag_feedback_journal :: "tag_feedback_row list"
  searchtag_seq :: int
  tag_update_seq :: int

text \<open>The site as it is set up: empty tables, empty caches.\<close>

definition blank_db :: tags_db where
  "blank_db =
    \<lparr>c_all_config = (\<lambda>_. None),
     c_display_name = (\<lambda>_. None),
     c_userids = (\<lambda>_. None),
     c_posts_count = (\<lambda>_. None),
     c_last_read = (\<lambda>_. None),
     c_updateids = None,
     c_page_header = (\<lambda>_. None),
     c_ignoring = (\<lambda>_. None),
     c_blocktags = (\<lambda>_. None),
     c_user_restricted = (\<lambda>_. None),
     c_global_restricted = None,
     c_tag_ids = (\<lambda>_. None),
     c_tag_names = (\<lambda>_. None),
     c_is_adult = (\<lambda>_. None),
     c_select_view = (\<lambda>_. None),
     c_select_last = None,
     t_login = [],
     t_authbcrypt = [],
     t_profile = [],
     t_useralias = [],
     t_username_history = [],
     t_userinfo = [],
     t_user_links = [],
     t_user_streams = [],
     t_permaban = [],
     t_suspension = [],
     t_sessions = [],
     t_user_agents = [],
     t_user_events = [],
     t_emailverify = [],
     t_forgotpassword = [],
     t_logincreate = [],
     t_twofa_recovery_codes = [],
     login_seq = 1,
     history_seq = 1,
     event_seq = 1,
     user_agent_seq = 1,
     link_seq = 1,
     t_frienduser = [],
     t_ignoreuser = [],
     t_watchuser = [],
     t_welcome = [],
     welcome_seq = 1,
     t_message = [],
     message_seq = 1,
     t_permitted_senders = [],
     t_submission = [],
     t_character = [],
     t_journal = [],
     t_folder = [],
     t_collection = [],
     t_favorite = [],
     t_comments = [],
     t_charcomment = [],
     t_journalcomment = [],
     t_siteupdate = [],
     t_siteupdatecomment = [],
     t_views = [],
     submission_seq = 1,
     character_seq = 1,
     journal_seq = 1,
     folder_seq = 1,
     comments_seq = 1,
     charcomment_seq = 1,
     journalcomment_seq = 1,
     siteupdate_seq = 1,
     siteupdatecomment_seq = 1,
     t_searchtag = [],
     t_searchmapsubmit = [],
     t_searchmapchar = [],
     t_searchmapjournal = [],
     t_artist_preferred_tags = [],
     t_artist_optout_tags = [],
     t_blocktag = [],
     t_globally_restricted_tags = [],
     t_user_restricted_tags = [],
     t_submission_tags = [],
     t_tag_updates = [],
     t_tag_feedback_submission = [],
     t_tag_feedback_character = [],
     t_tag_feedback_journal = [],
     searchtag_seq = 1,
     tag_update_seq = 1\<rparr>"

lemmas blank_simps = blank_db_def

subsection \<open>Cached queries\<close>

definition read_through ::
  "('v \<Rightarrow> bool) \<Rightarrow> ('s \<Rightarrow> 'v option) \<Rightarrow> ('s \<Rightarrow> 'v) \<Rightarrow> ('v option \<Rightarrow> 's \<Rightarrow> 's) \<Rightarrow> 's \<Rightarrow> 'v \<times> 's" where
  "read_through should_cache peek load store s =
     (case peek s of
        Some v \<Rightarrow> (v, s)
      | None \<Rightarrow> (let v = load s in (v, if should_cache v then store (Some v) s else s)))"

definition coherent :: "('s \<Rightarrow> 'v option) \<Rightarrow> ('s \<Rightarrow> 'v) \<Rightarrow> 's \<Rightarrow> bool" where
  "coherent peek load s \<longleftrightarrow> (\<forall>v. peek s = Some v \<longrightarrow> v = load s)"

text \<open>
  The contract: \<open>load k\<close> is the query for the key \<open>k\<close>, \<open>peek k\<close> and \<open>store k\<close> access the cache,
  \<open>should_cache\<close> is the function of that name (a query that raises is not cached either); storing
  changes the entry of its key only and no query's answer.
\<close>

locale cached_query =
  fixes should_cache :: "'v \<Rightarrow> bool"
    and load :: "'k \<Rightarrow> 's \<Rightarrow> 'v"
    and peek :: "'k \<Rightarrow> 's \<Rightarrow> 'v option"
    and store :: "'k \<Rightarrow> 'v option \<Rightarrow> 's \<Rightarrow> 's"
  assumes peek_store: "(\<And>x. v = Some x \<Longrightarrow> should_cache x) \<Longrightarrow>
      peek k (store k' v s) = (if k = k' then v else peek k s)"
    and load_store: "load k (store k' v s) = load k s"
begin

abbreviation read :: "'k \<Rightarrow> 's \<Rightarrow> 'v \<times> 's" where
  "read k \<equiv> read_through should_cache (peek k) (load k) (store k)"

abbreviation all_coherent :: "'s \<Rightarrow> bool" where
  "all_coherent s \<equiv> \<forall>k. coherent (peek k) (load k) s"

lemma peek_clear: "peek k (store k' None s) = (if k = k' then None else peek k s)"
  by (rule peek_store) simp

lemma peek_fill: "should_cache x \<Longrightarrow> peek k (store k' (Some x) s) = (if k = k' then Some x else peek k s)"
  by (rule peek_store) simp

lemma read_coherent: "all_coherent s \<Longrightarrow> all_coherent (snd (read k s))"
  by (auto simp: read_through_def coherent_def peek_fill load_store Let_def split: option.splits if_splits)

lemma read_value: "all_coherent s \<Longrightarrow> fst (read k s) = load k s"
  by (auto simp: read_through_def coherent_def Let_def split: option.splits)

lemma load_after_read: "load k' (snd (read k s)) = load k' s"
  by (auto simp: read_through_def load_store Let_def split: option.splits)

lemma invalidate_keeps:
  assumes "all_coherent s"
    and "\<And>k. peek k s' = peek k s"
    and "\<And>k'. k' \<noteq> k \<Longrightarrow> load k' s' = load k' s"
  shows "all_coherent (store k None s')"
  using assms by (auto simp: coherent_def peek_clear load_store split: if_splits)

lemma read_after_invalidate: "fst (read k (store k None s)) = load k s"
  by (simp add: read_through_def peek_clear load_store Let_def)

lemma untouched_keeps:
  "all_coherent s \<Longrightarrow> (\<And>k. peek k s' = peek k s) \<Longrightarrow> (\<And>k. load k s' = load k s) \<Longrightarrow> all_coherent s'"
  by (simp add: coherent_def)

end

end
