(* ===== verification/Define.thy ===== *)
theory Define
  imports Database Forms "HOL-Library.AList"
begin

text \<open>
  \<^verbatim>\<open>weasyl/define.py\<close>: what every other module calls. The cached reads of a user's configuration, name,
  identifiers, counts of posts and notifications; the views of a page; retrying a serializable
  transaction. A function that reads through a cache returns the state with the cache it left.
\<close>

subsection \<open>Retrying a transaction\<close>

text \<open>
  One attempt of a transaction ends with a result, with a serialization failure (and then has changed
  nothing) or with another error. \<open>attempt i\<close> is what the \<open>i\<close>-th attempt does. For \<open>limit = 0\<close> the
  loop of the code does not stop by itself.
\<close>

datatype 'a attempt = Committed 'a | SerializationFailure | OtherError error

partial_function (option) retry_from :: "(int \<Rightarrow> 'a attempt) \<Rightarrow> int \<Rightarrow> int \<Rightarrow> 'a attempt option" where
  "retry_from action limit i =
     (case action i of
        Committed x \<Rightarrow> Some (Committed x)
      | OtherError e \<Rightarrow> Some (OtherError e)
      | SerializationFailure \<Rightarrow>
          if i = limit then Some SerializationFailure else retry_from action limit (i + 1))"

definition serializable_retry :: "(int \<Rightarrow> 'a attempt) \<Rightarrow> int \<Rightarrow> 'a attempt option" where
  "serializable_retry action limit = retry_from action limit 1"

subsection \<open>Configuration of a user\<close>

definition query_all_config :: "int \<Rightarrow> 'a accounts_db_scheme \<Rightarrow> all_config option" where
  "query_all_config userid db =
     (case find (\<lambda>lo. lo_userid lo = userid) (t_login db) of
        None \<Rightarrow> None
      | Some lo \<Rightarrow>
          (case find (\<lambda>pr. pr_userid pr = userid) (t_profile db) of
             None \<Rightarrow> None
           | Some pr \<Rightarrow> Some
               \<lparr>is_banned = exists_where (\<lambda>p. pb_userid p = userid) (t_permaban db),
                is_suspended = exists_where (\<lambda>p. sp_userid p = userid) (t_suspension db),
                is_vouched_for = (lo_voucher lo \<noteq> None),
                profile_configuration = pr_config pr,
                jsonb_settings = pr_jsonb_settings pr,
                premium = pr_premium pr\<rparr>))"

definition peek_all_config :: "int \<Rightarrow> 'a accounts_db_scheme \<Rightarrow> all_config option option" where
  "peek_all_config userid db = map_option Some (c_all_config db userid)"

definition store_all_config ::
  "int \<Rightarrow> all_config option option \<Rightarrow> 'a accounts_db_scheme \<Rightarrow> 'a accounts_db_scheme" where
  "store_all_config userid v db = db\<lparr>c_all_config := (c_all_config db)(userid := Option.bind v id)\<rparr>"

definition get_all_config :: "int \<Rightarrow> 'a accounts_db_scheme \<Rightarrow> all_config result \<times> 'a accounts_db_scheme" where
  "get_all_config userid db =
     (case read_through (\<lambda>v. v \<noteq> None) (peek_all_config userid) (query_all_config userid)
             (store_all_config userid) db of
        (None, db) \<Rightarrow> (Inl TypeError, db)
      | (Some r, db) \<Rightarrow> (Inr r, db))"

definition all_config_invalidate :: "int \<Rightarrow> 'a accounts_db_scheme \<Rightarrow> 'a accounts_db_scheme" where
  "all_config_invalidate userid db = store_all_config userid None db"

definition get_config :: "int \<Rightarrow> 'a accounts_db_scheme \<Rightarrow> string result \<times> 'a accounts_db_scheme" where
  "get_config userid db =
     (if userid = 0 then (Inr [], db)
      else and_then (get_all_config userid db) (\<lambda>r db. (Inr (profile_configuration r), db)))"

definition get_login_settings ::
  "int \<Rightarrow> 'a accounts_db_scheme \<Rightarrow> (bool \<times> bool) result \<times> 'a accounts_db_scheme" where
  "get_login_settings userid db =
     and_then (get_all_config userid db) (\<lambda>r db. (Inr (is_banned r, is_suspended r), db))"

definition get_is_vouched_for :: "int \<Rightarrow> 'a accounts_db_scheme \<Rightarrow> bool result \<times> 'a accounts_db_scheme" where
  "get_is_vouched_for userid db =
     and_then (get_all_config userid db) (\<lambda>r db. (Inr (is_vouched_for r), db))"

definition get_profile_settings :: "int \<Rightarrow> 'a accounts_db_scheme \<Rightarrow> jsonb result \<times> 'a accounts_db_scheme" where
  "get_profile_settings userid db =
     (if userid = 0 then (Inr [], db)
      else and_then (get_all_config userid db) (\<lambda>r db.
        (Inr (case jsonb_settings r of None \<Rightarrow> [] | Some jsonb \<Rightarrow> jsonb), db)))"

definition rating_of_config :: "string \<Rightarrow> rating" where
  "rating_of_config config =
     (if has_flag (CHR ''p'') config then EXPLICIT
      else if has_flag (CHR ''a'') config then MATURE
      else GENERAL)"

definition get_config_rating :: "int \<Rightarrow> 'a accounts_db_scheme \<Rightarrow> rating result \<times> 'a accounts_db_scheme" where
  "get_config_rating userid db =
     and_then (get_config userid db) (\<lambda>config db. (Inr (rating_of_config config), db))"

definition get_rating_obj ::
  "bool \<Rightarrow> int \<Rightarrow> 'a accounts_db_scheme \<Rightarrow> rating result \<times> 'a accounts_db_scheme" where
  "get_rating_obj sfw_mode userid db =
     (if userid = 0 then (Inr GENERAL, db)
      else if sfw_mode then (Inr GENERAL, db)
      else get_config_rating userid db)"

definition get_rating :: "bool \<Rightarrow> int \<Rightarrow> 'a accounts_db_scheme \<Rightarrow> int result \<times> 'a accounts_db_scheme" where
  "get_rating sfw_mode userid db =
     and_then (get_rating_obj sfw_mode userid db) (\<lambda>r db. (Inr (rating_code r), db))"

definition is_sfw_mode :: "string option \<Rightarrow> bool" where
  "is_sfw_mode cookie = ((case cookie of None \<Rightarrow> ''nsfw'' | Some c \<Rightarrow> c) = ''sfw'')"

definition get_premium :: "int \<Rightarrow> 'a accounts_db_scheme \<Rightarrow> bool result \<times> 'a accounts_db_scheme" where
  "get_premium userid db =
     (if userid = 0 then (Inr False, db)
      else and_then (get_all_config userid db) (\<lambda>r db. (Inr (premium r), db)))"

definition common_status_check ::
  "int \<Rightarrow> 'a accounts_db_scheme \<Rightarrow> string option result \<times> 'a accounts_db_scheme" where
  "common_status_check userid db =
     (if userid = 0 then (Inr None, db)
      else and_then (get_login_settings userid db) (\<lambda>(banned, suspended) db.
        (Inr (if banned then Some ''banned'' else if suspended then Some ''suspended'' else None), db)))"

definition shows_statistics ::
  "staff_sets \<Rightarrow> int \<Rightarrow> int \<Rightarrow> 'a accounts_db_scheme \<Rightarrow> bool result \<times> 'a accounts_db_scheme" where
  "shows_statistics st viewer target db =
     and_then (get_config target db) (\<lambda>config db.
       (Inr (\<not> has_flag (CHR ''i'') config \<or> viewer \<in> MODS st), db))"

subsection \<open>Names\<close>

definition query_display_name :: "int \<Rightarrow> 'a accounts_db_scheme \<Rightarrow> string option" where
  "query_display_name userid db =
     map_option pr_username (find (\<lambda>pr. pr_userid pr = userid) (t_profile db))"

definition peek_display_name :: "int \<Rightarrow> 'a accounts_db_scheme \<Rightarrow> string option option" where
  "peek_display_name userid db = map_option Some (c_display_name db userid)"

definition store_display_name ::
  "int \<Rightarrow> string option option \<Rightarrow> 'a accounts_db_scheme \<Rightarrow> 'a accounts_db_scheme" where
  "store_display_name userid v db = db\<lparr>c_display_name := (c_display_name db)(userid := Option.bind v id)\<rparr>"

definition read_display_name :: "int \<Rightarrow> 'a accounts_db_scheme \<Rightarrow> string option \<times> 'a accounts_db_scheme" where
  "read_display_name userid db =
     read_through (\<lambda>v. v \<noteq> None \<and> v \<noteq> Some []) (peek_display_name userid) (query_display_name userid)
       (store_display_name userid) db"

definition get_display_name :: "int \<Rightarrow> 'a accounts_db_scheme \<Rightarrow> string result \<times> 'a accounts_db_scheme" where
  "get_display_name userid db =
     (case read_display_name userid db of
        (None, db) \<Rightarrow> (Inl (WeasylError ''Unexpected''), db)
      | (Some username, db) \<Rightarrow> (Inr username, db))"

definition username_invalidate :: "int \<Rightarrow> 'a accounts_db_scheme \<Rightarrow> 'a accounts_db_scheme" where
  "username_invalidate userid db = store_display_name userid None db"

text \<open>\<open>dict(..)\<close> of the rows of the three queries: a later row replaces an earlier one.\<close>

definition sysname_rows :: "'a accounts_db_scheme \<Rightarrow> (string \<times> int) list" where
  "sysname_rows db =
     map (\<lambda>lo. (lo_login_name lo, lo_userid lo)) (t_login db)
     @ map (\<lambda>al. (al_alias_name al, al_userid al)) (t_useralias db)
     @ map (\<lambda>uh. (uh_login_name uh, uh_userid uh)) (filter uh_active (t_username_history db))"

definition query_userid :: "string \<Rightarrow> 'a accounts_db_scheme \<Rightarrow> int" where
  "query_userid sysname db = (case map_of (rev (sysname_rows db)) sysname of None \<Rightarrow> 0 | Some u \<Rightarrow> u)"

definition peek_userid :: "string \<Rightarrow> 'a accounts_db_scheme \<Rightarrow> int option" where
  "peek_userid sysname db = c_userids db sysname"

definition store_userid :: "string \<Rightarrow> int option \<Rightarrow> 'a accounts_db_scheme \<Rightarrow> 'a accounts_db_scheme" where
  "store_userid sysname v db = db\<lparr>c_userids := (c_userids db)(sysname := v)\<rparr>"

fun read_userids :: "string list \<Rightarrow> 'a accounts_db_scheme \<Rightarrow> int list \<times> 'a accounts_db_scheme" where
  "read_userids [] db = ([], db)"
| "read_userids (sysname # sysnames) db =
     (let (u, db) = read_through (\<lambda>u. u \<noteq> 0) (peek_userid sysname) (query_userid sysname)
                      (store_userid sysname) db;
          (us, db) = read_userids sysnames db
      in (u # us, db))"

definition userids_invalidate :: "string \<Rightarrow> 'a accounts_db_scheme \<Rightarrow> 'a accounts_db_scheme" where
  "userids_invalidate sysname db = store_userid sysname None db"

text \<open>The dictionary \<open>get_userids\<close> returns, from the usernames as they were given.\<close>

definition get_userids ::
  "(ustr \<Rightarrow> string option) \<Rightarrow> ustr list \<Rightarrow> 'a accounts_db_scheme \<Rightarrow> (ustr \<times> int) list \<times> 'a accounts_db_scheme" where
  "get_userids sysname_of usernames db =
     (let unparsed = filter (\<lambda>u. sysname_of u = None) usernames;
          lookup_usernames = filter (\<lambda>u. sysname_of u \<noteq> None) usernames;
          sysnames = map (\<lambda>u. the (sysname_of u)) lookup_usernames;
          (userids, db) = read_userids sysnames db;
          ret = fold (\<lambda>u. AList.update u 0) unparsed []
      in (fold (\<lambda>(u, i). AList.update u i) (zip lookup_usernames userids) ret, db))"

definition get_userid_list ::
  "(ustr \<Rightarrow> ustr) \<Rightarrow> (ustr \<Rightarrow> ustr) \<Rightarrow> ustr \<Rightarrow> 'a accounts_db_scheme \<Rightarrow> int list \<times> 'a accounts_db_scheme" where
  "get_userid_list lower nfkd target db =
     (let (ret, db) = get_userids (\<lambda>u. map_option to_string (parse_sysname lower nfkd u))
                        (parse_sysname_list lower nfkd target) db
      in (filter (\<lambda>u. u \<noteq> 0) (map snd ret), db))"

subsection \<open>Small functions\<close>

fun get_targetid :: "int list \<Rightarrow> int" where
  "get_targetid [] = 0"
| "get_targetid (i # argv) = (if i \<noteq> 0 then i else get_targetid argv)"

text \<open>
  \<open>get_int\<close> of a form field. \<open>str.isdigit\<close> also holds for the superscripts two, three and one of Latin-1,
  on which \<open>int\<close> raises \<open>ValueError\<close>; the fields are strings of the first 256 code points.
\<close>

definition isdigit :: "char \<Rightarrow> bool" where
  "isdigit c = (let n = (of_char c :: int) in 48 \<le> n \<and> n \<le> 57 \<or> n = 0xB2 \<or> n = 0xB3 \<or> n = 0xB9)"

definition get_int :: "string \<Rightarrow> int" where
  "get_int target =
     (let digits = ustr (filter isdigit target)
      in if digits \<noteq> [] \<and> list_all is_digit digits then int_of_digits digits else 0)"

definition strip :: "string \<Rightarrow> string" where
  "strip s = rev (dropWhile (\<lambda>c. is_space (of_char c)) (rev (dropWhile (\<lambda>c. is_space (of_char c)) s)))"

text \<open>\<open>get_time\<close> is the clock moved by this offset.\<close>

definition UNIXTIME_OFFSET :: int where
  "UNIXTIME_OFFSET = -18000"

definition clamp :: "int \<Rightarrow> int \<Rightarrow> int \<Rightarrow> int" where
  "clamp val lower_bound upper_bound = min (max val lower_bound) upper_bound"

definition submission_owner :: "int \<Rightarrow> 'a content_db_scheme \<Rightarrow> int option" where
  "submission_owner submitid db = map_option su_userid (find (\<lambda>su. su_submitid su = submitid) (t_submission db))"

definition character_owner :: "int \<Rightarrow> 'a content_db_scheme \<Rightarrow> int option" where
  "character_owner charid db = map_option ch_userid (find (\<lambda>ch. ch_charid ch = charid) (t_character db))"

definition journal_owner :: "int \<Rightarrow> 'a content_db_scheme \<Rightarrow> int option" where
  "journal_owner journalid db = map_option jo_userid (find (\<lambda>jo. jo_journalid jo = journalid) (t_journal db))"

definition get_ownerid :: "int \<Rightarrow> int \<Rightarrow> int \<Rightarrow> 'a content_db_scheme \<Rightarrow> int option" where
  "get_ownerid submitid charid journalid db =
     (if submitid \<noteq> 0 then submission_owner submitid db
      else if charid \<noteq> 0 then character_owner charid db
      else if journalid \<noteq> 0 then journal_owner journalid db
      else None)"

subsection \<open>Counts of posts\<close>

definition group_counts :: "post_type \<Rightarrow> (int \<times> bool) list \<Rightarrow> posts_count_row list" where
  "group_counts pt keys =
     map (\<lambda>(r, f). \<lparr>pc_post_type = pt, pc_rating = r, pc_friends_only = f,
                     pc_count = count_where (\<lambda>k. k = (r, f)) keys\<rparr>) (remdups keys)"

definition collection_keys :: "int \<Rightarrow> 'a content_db_scheme \<Rightarrow> (int \<times> bool) list" where
  "collection_keys userid db =
     concat (map (\<lambda>co. map (\<lambda>su. (su_rating su, su_friends_only su))
         (filter (\<lambda>su. su_submitid su = co_submitid co \<and> \<not> su_hidden su) (t_submission db)))
       (filter (\<lambda>co. co_userid co = userid \<and> \<not> has_any_flag ''pr'' (co_settings co)) (t_collection db)))"

fun post_keys :: "post_type \<Rightarrow> int \<Rightarrow> 'a content_db_scheme \<Rightarrow> (int \<times> bool) list" where
  "post_keys PT_submission userid db =
     map (\<lambda>su. (su_rating su, su_friends_only su))
       (filter (\<lambda>su. su_userid su = userid \<and> \<not> su_hidden su) (t_submission db))"
| "post_keys PT_journal userid db =
     map (\<lambda>jo. (jo_rating jo, jo_friends_only jo))
       (filter (\<lambda>jo. jo_userid jo = userid \<and> \<not> jo_hidden jo) (t_journal db))"
| "post_keys PT_character userid db =
     map (\<lambda>ch. (ch_rating ch, ch_friends_only ch))
       (filter (\<lambda>ch. ch_userid ch = userid \<and> \<not> ch_hidden ch) (t_character db))"
| "post_keys PT_collection userid db = collection_keys userid db"

definition query_posts_count :: "int \<Rightarrow> 'a content_db_scheme \<Rightarrow> posts_count_row list" where
  "query_posts_count userid db =
     concat (map (\<lambda>pt. group_counts pt (post_keys pt userid db))
       [PT_submission, PT_journal, PT_character, PT_collection])"

definition peek_posts_count :: "int \<Rightarrow> 'a content_db_scheme \<Rightarrow> posts_count_row list option" where
  "peek_posts_count userid db = c_posts_count db userid"

definition store_posts_count ::
  "int \<Rightarrow> posts_count_row list option \<Rightarrow> 'a content_db_scheme \<Rightarrow> 'a content_db_scheme" where
  "store_posts_count userid v db = db\<lparr>c_posts_count := (c_posts_count db)(userid := v)\<rparr>"

definition cached_posts_count ::
  "int \<Rightarrow> 'a content_db_scheme \<Rightarrow> posts_count_row list \<times> 'a content_db_scheme" where
  "cached_posts_count userid db =
     read_through (\<lambda>_. True) (peek_posts_count userid) (query_posts_count userid) (store_posts_count userid) db"

definition posts_count_invalidate :: "int \<Rightarrow> 'a content_db_scheme \<Rightarrow> 'a content_db_scheme" where
  "posts_count_invalidate userid db = store_posts_count userid None db"

definition cached_posts_count_invalidate_multi ::
  "int list \<Rightarrow> 'a content_db_scheme \<Rightarrow> 'a content_db_scheme" where
  "cached_posts_count_invalidate_multi userids db = fold posts_count_invalidate userids db"

type_synonym posts_count_key = "post_type \<times> int"

fun add_count ::
  "bool \<Rightarrow> posts_count_row \<Rightarrow> (posts_count_key \<times> int) list \<Rightarrow> (posts_count_key \<times> int) list" where
  "add_count friends row result =
     (if friends \<or> \<not> pc_friends_only row then
        (let key = (pc_post_type row, pc_rating row)
         in AList.update key ((case map_of result key of None \<Rightarrow> 0 | Some n \<Rightarrow> n) + pc_count row) result)
      else result)"

definition posts_count ::
  "int \<Rightarrow> bool \<Rightarrow> 'a content_db_scheme \<Rightarrow> (posts_count_key \<times> int) list \<times> 'a content_db_scheme" where
  "posts_count userid friends db =
     (let (rows, db) = cached_posts_count userid db in (fold (add_count friends) rows [], db))"

definition get_max_post_rating :: "int \<Rightarrow> 'a content_db_scheme \<Rightarrow> int \<times> 'a content_db_scheme" where
  "get_max_post_rating userid db =
     (let (result, db) = posts_count userid True db;
          ratings = map (\<lambda>(key, count). snd key) (filter (\<lambda>(key, count). count \<noteq> 0) result)
      in (if ratings = [] then rating_code GENERAL else Max (set ratings), db))"

definition is_sfw_locked :: "int \<Rightarrow> 'a content_db_scheme \<Rightarrow> bool result \<times> 'a content_db_scheme" where
  "is_sfw_locked userid db =
     and_then (get_config_rating userid db) (\<lambda>config_rating db.
       if config_rating > GENERAL then (Inr False, db)
       else (let (max_post_rating, db) = get_max_post_rating userid db
             in (Inr (max_post_rating \<le> rating_code config_rating), db)))"

subsection \<open>The page header\<close>

definition private_messages_unread_count :: "int \<Rightarrow> 'a social_db_scheme \<Rightarrow> int" where
  "private_messages_unread_count userid db =
     count_where (\<lambda>ms. ms_otherid ms = userid \<and> has_flag (CHR ''u'') (ms_settings ms)) (t_message db)"

text \<open>The notifications counted, with the rating of the submission a 2xxx notification is about.\<close>

definition counted_notification :: "int \<Rightarrow> int \<Rightarrow> 'a content_db_scheme \<Rightarrow> welcome_row \<Rightarrow> bool" where
  "counted_notification userid rating db we =
     (we_userid we = userid
      \<and> (if 2000 \<le> we_type we \<and> we_type we \<le> 2999 then
           (case find (\<lambda>su. su_submitid su = we_targetid we) (t_submission db) of
              None \<Rightarrow> True
            | Some su \<Rightarrow> su_rating su \<le> rating)
         else True))"

definition set_index :: "'v list \<Rightarrow> int \<Rightarrow> 'v \<Rightarrow> 'v list result" where
  "set_index xs i v =
     (if 0 \<le> i \<and> i < int (length xs) then Inr (xs[nat i := v])
      else if - int (length xs) \<le> i \<and> i < 0 then Inr (xs[nat (int (length xs) + i) := v])
      else Inl IndexError)"

fun fill_groups :: "(int \<times> int) list \<Rightarrow> int list \<Rightarrow> int list result" where
  "fill_groups [] xs = Inr xs"
| "fill_groups ((grp, count) # counts) xs =
     (case set_index xs (5 - grp) count of Inl e \<Rightarrow> Inl e | Inr xs \<Rightarrow> fill_groups counts xs)"

definition query_page_header :: "int \<Rightarrow> int \<Rightarrow> 'a content_db_scheme \<Rightarrow> int list result" where
  "query_page_header rating userid db =
     (let messages = private_messages_unread_count userid db;
          groups = map (\<lambda>we. we_type we div 1000) (filter (counted_notification userid rating db) (t_welcome db));
          counts = map (\<lambda>g. (g, count_where (\<lambda>x. x = g) groups)) (remdups groups)
      in fill_groups counts [messages, 0, 0, 0, 0])"

definition cached_page_header ::
  "bool \<Rightarrow> int \<Rightarrow> 'a content_db_scheme \<Rightarrow> int list result \<times> 'a content_db_scheme" where
  "cached_page_header sfw_mode userid db =
     (case c_page_header db userid of
        Some v \<Rightarrow> (Inr v, db)
      | None \<Rightarrow>
          and_then (get_rating sfw_mode userid db) (\<lambda>rating db.
            case query_page_header rating userid db of
              Inl e \<Rightarrow> (Inl e, db)
            | Inr v \<Rightarrow> (Inr v, db\<lparr>c_page_header := (c_page_header db)(userid \<mapsto> v)\<rparr>)))"

definition page_header_invalidate :: "int \<Rightarrow> 'a caches_scheme \<Rightarrow> 'a caches_scheme" where
  "page_header_invalidate userid db = db\<lparr>c_page_header := (c_page_header db)(userid := None)\<rparr>"

definition page_header_info_invalidate_multi :: "int list \<Rightarrow> 'a caches_scheme \<Rightarrow> 'a caches_scheme" where
  "page_header_info_invalidate_multi userids db = fold page_header_invalidate userids db"

definition query_last_read :: "int \<Rightarrow> 'a accounts_db_scheme \<Rightarrow> int option" where
  "query_last_read userid db =
     Option.bind (find (\<lambda>lo. lo_userid lo = userid) (t_login db)) lo_last_read_updateid"

definition get_last_read_updateid :: "int \<Rightarrow> 'a accounts_db_scheme \<Rightarrow> int option \<times> 'a accounts_db_scheme" where
  "get_last_read_updateid userid db =
     read_through (\<lambda>_. True) (\<lambda>db. c_last_read db userid) (query_last_read userid)
       (\<lambda>v db. db\<lparr>c_last_read := (c_last_read db)(userid := v)\<rparr>) db"

definition query_updateids :: "'a content_db_scheme \<Rightarrow> int list" where
  "query_updateids db = rev (sort (map sit_updateid (t_siteupdate db)))"

definition get_updateids :: "'a content_db_scheme \<Rightarrow> int list \<times> 'a content_db_scheme" where
  "get_updateids db =
     read_through (\<lambda>_. True) c_updateids query_updateids (\<lambda>v db. db\<lparr>c_updateids := v\<rparr>) db"

fun list_index :: "'v list \<Rightarrow> 'v \<Rightarrow> int result" where
  "list_index [] v = Inl ValueError"
| "list_index (x # xs) v = (if x = v then Inr 0 else map_sum id (\<lambda>i. i + 1) (list_index xs v))"

definition site_update_unread_count :: "int \<Rightarrow> 'a content_db_scheme \<Rightarrow> int result \<times> 'a content_db_scheme" where
  "site_update_unread_count userid db =
     (let (updateids, db) = get_updateids db;
          (last_read, db) = get_last_read_updateid userid db
      in (list_index (map Some updateids @ [None]) last_read, db))"

subsection \<open>Page views\<close>

datatype viewable = V_submissions | V_characters | V_journals | V_users

fun view_typeid :: "viewable \<Rightarrow> int" where
  "view_typeid V_submissions = 110"
| "view_typeid V_characters = 120"
| "view_typeid V_journals = 130"
| "view_typeid V_users = 210"

definition show_int :: "int \<Rightarrow> string" where
  "show_int n = (if n < 0 then ''-'' else []) @ to_string (decimal (nat \<bar>n\<bar>))"

definition own_content :: "int \<Rightarrow> int \<Rightarrow> viewable \<Rightarrow> 'a content_db_scheme \<Rightarrow> bool" where
  "own_content userid targetid feature db =
     (case feature of
        V_users \<Rightarrow> targetid = userid
      | V_submissions \<Rightarrow> userid \<noteq> 0 \<and> get_ownerid targetid 0 0 db = Some userid
      | V_characters \<Rightarrow> userid \<noteq> 0 \<and> get_ownerid 0 targetid 0 db = Some userid
      | V_journals \<Rightarrow> userid \<noteq> 0 \<and> get_ownerid 0 0 targetid db = Some userid)"

definition bump_page_views :: "viewable \<Rightarrow> int \<Rightarrow> 'a content_db_scheme \<Rightarrow> 'a content_db_scheme" where
  "bump_page_views feature targetid db =
     (case feature of
        V_submissions \<Rightarrow> db\<lparr>t_submission := update_where (\<lambda>su. su_submitid su = targetid)
          (\<lambda>su. su\<lparr>su_page_views := su_page_views su + 1\<rparr>) (t_submission db)\<rparr>
      | V_characters \<Rightarrow> db\<lparr>t_character := update_where (\<lambda>ch. ch_charid ch = targetid)
          (\<lambda>ch. ch\<lparr>ch_page_views := ch_page_views ch + 1\<rparr>) (t_character db)\<rparr>
      | V_journals \<Rightarrow> db\<lparr>t_journal := update_where (\<lambda>jo. jo_journalid jo = targetid)
          (\<lambda>jo. jo\<lparr>jo_page_views := jo_page_views jo + 1\<rparr>) (t_journal db)\<rparr>
      | V_users \<Rightarrow> db\<lparr>t_profile := update_where (\<lambda>pr. pr_userid pr = targetid)
          (\<lambda>pr. pr\<lparr>pr_page_views := pr_page_views pr + 1\<rparr>) (t_profile db)\<rparr>)"

definition page_views_of :: "viewable \<Rightarrow> int \<Rightarrow> 'a content_db_scheme \<Rightarrow> int option" where
  "page_views_of feature targetid db =
     (case feature of
        V_submissions \<Rightarrow> map_option su_page_views (find (\<lambda>su. su_submitid su = targetid) (t_submission db))
      | V_characters \<Rightarrow> map_option ch_page_views (find (\<lambda>ch. ch_charid ch = targetid) (t_character db))
      | V_journals \<Rightarrow> map_option jo_page_views (find (\<lambda>jo. jo_journalid jo = targetid) (t_journal db))
      | V_users \<Rightarrow> map_option pr_page_views (find (\<lambda>pr. pr_userid pr = targetid) (t_profile db)))"

definition common_view_content ::
  "int \<Rightarrow> string \<Rightarrow> int \<Rightarrow> int \<Rightarrow> viewable \<Rightarrow> 'a content_db_scheme \<Rightarrow> int option \<times> 'a content_db_scheme" where
  "common_view_content now address userid targetid feature db =
     (if own_content userid targetid feature db then (None, db)
      else
        (let viewer = (if userid \<noteq> 0 then ''user:'' @ show_int userid else address);
             row = \<lparr>vw_viewer = viewer, vw_targetid = targetid, vw_type = view_typeid feature, vw_viewed_at = now\<rparr>;
             views = delete_where (\<lambda>vw. vw_viewed_at vw < now - 15 * 60) (t_views db);
             inserted = \<not> exists_where (\<lambda>vw. (vw_viewer vw, vw_targetid vw, vw_type vw)
                                            = (viewer, targetid, view_typeid feature)) views;
             db = db\<lparr>t_views := insert_or_nothing (\<lambda>vw. (vw_viewer vw, vw_targetid vw, vw_type vw)) row views\<rparr>
         in if \<not> inserted then (None, db)
            else (let db = bump_page_views feature targetid db
                  in (page_views_of feature targetid db, db))))"

section \<open>Facts\<close>

subsection \<open>Retries\<close>

lemma retry_from_result:
  "i \<le> limit \<Longrightarrow>
   \<exists>n. i \<le> n \<and> n \<le> limit \<and> retry_from action limit i = Some (action n)
     \<and> (\<forall>j. i \<le> j \<and> j < n \<longrightarrow> action j = SerializationFailure)
     \<and> (action n = SerializationFailure \<longrightarrow> n = limit)"
proof (induction "nat (limit - i)" arbitrary: i)
  case 0
  then have "i = limit" by simp
  moreover have "retry_from action i i = Some (action i)"
    by (subst retry_from.simps) (simp split: attempt.split)
  ultimately show ?case
    by (intro exI [of _ i]) auto
next
  case (Suc k)
  show ?case
  proof (cases "action i = SerializationFailure \<and> i \<noteq> limit")
    case True
    moreover have "k = nat (limit - (i + 1))" "i + 1 \<le> limit"
      using Suc.hyps(2) True Suc.prems by auto
    ultimately obtain n where n: "i + 1 \<le> n" "n \<le> limit" "retry_from action limit (i + 1) = Some (action n)"
      "\<forall>j. i + 1 \<le> j \<and> j < n \<longrightarrow> action j = SerializationFailure"
      "action n = SerializationFailure \<longrightarrow> n = limit"
      using Suc.hyps(1) [of "i + 1"] by blast
    have res: "retry_from action limit i = Some (action n)"
      using True n(3) by (simp add: retry_from.simps [of action limit i])
    have before: "\<forall>j. i \<le> j \<and> j < n \<longrightarrow> action j = SerializationFailure"
      using n(4) True by (metis order_le_less zless_imp_add1_zle)
    have "i \<le> n" using n(1) by simp
    then show ?thesis
      by (intro exI [of _ n] conjI n(2) res before n(5))
  next
    case False
    have "retry_from action limit i = Some (action i)"
      using False by (cases "action i"; subst retry_from.simps) simp_all
    with False Suc.prems show ?thesis
      by (intro exI [of _ i]) auto
  qed
qed

text \<open>
  C39: \<open>serializable_retry\<close> returns: for a positive limit it runs the transaction at most \<open>limit\<close> times, and
  its outcome is that of the first attempt that was no serialization failure, or the failure of
  the last attempt allowed.
\<close>

theorem serializable_retry_returns:
  assumes "1 \<le> limit"
  shows "\<exists>n. 1 \<le> n \<and> n \<le> limit \<and> serializable_retry action limit = Some (action n)
     \<and> (\<forall>j. 1 \<le> j \<and> j < n \<longrightarrow> action j = SerializationFailure)
     \<and> (action n = SerializationFailure \<longrightarrow> n = limit)"
  unfolding serializable_retry_def by (rule retry_from_result [OF assms])

theorem serializable_retry_returns_witness:
  "\<exists>n. 1 \<le> n \<and> n \<le> 16 \<and> serializable_retry (\<lambda>i. if i < 3 then SerializationFailure else Committed i) 16
          = Some ((\<lambda>i. if i < 3 then SerializationFailure else Committed i) n)"
  using serializable_retry_returns [of 16 "\<lambda>i. if i < 3 then SerializationFailure else Committed i"]
  by auto

subsection \<open>The caches meet the contract\<close>

interpretation all_config: cached_query "\<lambda>v. v \<noteq> None" query_all_config peek_all_config store_all_config
proof
  fix v :: "all_config option option" and k k' and s :: "'a accounts_db_scheme"
  assume "\<And>x. v = Some x \<Longrightarrow> x \<noteq> None"
  then show "peek_all_config k (store_all_config k' v s) = (if k = k' then v else peek_all_config k s)"
    by (cases v) (auto simp: peek_all_config_def store_all_config_def)
qed (simp add: query_all_config_def store_all_config_def split: option.split)

interpretation display_name: cached_query "\<lambda>v. v \<noteq> None \<and> v \<noteq> Some []"
  query_display_name peek_display_name store_display_name
proof
  fix v :: "string option option" and k k' and s :: "'a accounts_db_scheme"
  assume "\<And>x. v = Some x \<Longrightarrow> x \<noteq> None \<and> x \<noteq> Some []"
  then show "peek_display_name k (store_display_name k' v s) = (if k = k' then v else peek_display_name k s)"
    by (cases v) (auto simp: peek_display_name_def store_display_name_def)
qed (simp add: query_display_name_def store_display_name_def)

interpretation userids: cached_query "\<lambda>u. u \<noteq> 0" query_userid peek_userid store_userid
  by unfold_locales (simp_all add: query_userid_def peek_userid_def store_userid_def sysname_rows_def)

interpretation posts_count: cached_query "\<lambda>_. True" query_posts_count peek_posts_count store_posts_count
proof
  fix k k' v and s :: "'a content_db_scheme"
  have "post_keys pt k (store_posts_count k' v s) = post_keys pt k s" for pt
    by (cases pt) (simp_all add: store_posts_count_def collection_keys_def)
  then show "query_posts_count k (store_posts_count k' v s) = query_posts_count k s"
    by (simp add: query_posts_count_def)
qed (simp add: peek_posts_count_def store_posts_count_def)

abbreviation config_cache_ok :: "'a accounts_db_scheme \<Rightarrow> bool" where
  "config_cache_ok db \<equiv> \<forall>u. coherent (peek_all_config u) (query_all_config u) db"

abbreviation posts_cache_ok :: "'a content_db_scheme \<Rightarrow> bool" where
  "posts_cache_ok db \<equiv> \<forall>u. coherent (peek_posts_count u) (query_posts_count u) db"

lemma get_all_config_value:
  "config_cache_ok db \<Longrightarrow>
   fst (get_all_config userid db) = (case query_all_config userid db of None \<Rightarrow> Inl TypeError | Some r \<Rightarrow> Inr r)"
  using all_config.read_value [of db userid]
  by (auto simp: get_all_config_def split: prod.splits option.splits)

lemma get_all_config_state:
  "snd (get_all_config userid db) =
     snd (read_through (\<lambda>v. v \<noteq> None) (peek_all_config userid) (query_all_config userid) (store_all_config userid) db)"
  by (auto simp: get_all_config_def split: prod.splits option.splits)

lemma same_config: "\<exists>c. db = db\<lparr>c_all_config := c\<rparr>"
  by (rule exI [of _ "c_all_config db"]) simp

lemma get_all_config_only_caches:
  "\<exists>c. snd (get_all_config userid db) = db\<lparr>c_all_config := c\<rparr>"
  unfolding get_all_config_state using same_config [of db]
  by (auto simp: read_through_def store_all_config_def Let_def split: option.splits)

lemma config_cache_ok_after_read: "config_cache_ok db \<Longrightarrow> config_cache_ok (snd (get_all_config userid db))"
  unfolding get_all_config_state by (rule all_config.read_coherent)

lemma and_then_fst: "fst (and_then r (\<lambda>x s. (f x, s))) = (case fst r of Inl e \<Rightarrow> Inl e | Inr x \<Rightarrow> f x)"
  and and_then_snd: "snd (and_then r (\<lambda>x s. (f x, s))) = snd r"
  by (cases r; cases "fst r"; auto simp: and_then_def)+

lemma get_config_rating_value:
  assumes "config_cache_ok db" "userid \<noteq> 0" "query_all_config userid db = Some c"
  shows "fst (get_config_rating userid db) = Inr (rating_of_config (profile_configuration c))"
  using get_all_config_value [OF assms(1), of userid] assms(2,3)
  by (simp add: get_config_rating_def get_config_def and_then_fst)

lemma get_rating_cases:
  assumes "config_cache_ok db"
  shows "fst (get_rating sfw userid db) =
    (if userid = 0 \<or> sfw then Inr 10
     else case query_all_config userid db of
            None \<Rightarrow> Inl TypeError
          | Some c \<Rightarrow> Inr (rating_code (rating_of_config (profile_configuration c))))"
  using get_all_config_value [OF assms, of userid]
  by (auto simp: get_rating_def get_rating_obj_def get_config_rating_def get_config_def and_then_fst
      split: option.splits)

lemma get_rating_only_caches: "\<exists>c. snd (get_rating sfw userid db) = db\<lparr>c_all_config := c\<rparr>"
  using get_all_config_only_caches [of userid db] same_config [of db]
  by (simp add: get_rating_def get_rating_obj_def get_config_rating_def get_config_def and_then_snd)

text \<open>An operation that reads settings through the cache changes nothing else, and keeps the cache right.\<close>

definition config_read :: "'a accounts_db_scheme \<Rightarrow> 'a accounts_db_scheme \<Rightarrow> bool" where
  "config_read db db' \<longleftrightarrow> (\<exists>c. db' = db\<lparr>c_all_config := c\<rparr>) \<and> (config_cache_ok db \<longrightarrow> config_cache_ok db')"

lemma config_read_refl [intro, simp]: "config_read db db"
  by (simp add: config_read_def same_config)

lemma config_read_trans [trans]: "config_read a b \<Longrightarrow> config_read b c \<Longrightarrow> config_read a c"
  by (auto simp: config_read_def)

lemma config_read_get_all_config: "config_read db (snd (get_all_config userid db))"
  by (simp add: config_read_def get_all_config_only_caches config_cache_ok_after_read)

lemma config_read_and_then:
  "config_read db (snd r) \<Longrightarrow> (\<And>x s. r = (Inr x, s) \<Longrightarrow> config_read s (snd (f x s))) \<Longrightarrow> config_read db (snd (and_then r f))"
  by (cases r; cases "fst r") (auto simp: and_then_def intro: config_read_trans)

lemma config_read_get_config: "config_read db (snd (get_config userid db))"
  by (simp add: get_config_def config_read_get_all_config and_then_snd)

lemma config_read_get_rating: "config_read db (snd (get_rating sfw userid db))"
  by (simp add: get_rating_def get_rating_obj_def get_config_rating_def and_then_snd config_read_get_config)

lemma config_read_get_profile_settings: "config_read db (snd (get_profile_settings userid db))"
  by (simp add: get_profile_settings_def config_read_get_all_config and_then_snd)

definition profile_jsonb :: "int \<Rightarrow> 'a accounts_db_scheme \<Rightarrow> jsonb" where
  "profile_jsonb userid db =
     (if userid = 0 then []
      else case query_all_config userid db of
        None \<Rightarrow> [] | Some r \<Rightarrow> (case jsonb_settings r of None \<Rightarrow> [] | Some jsonb \<Rightarrow> jsonb))"

lemma get_profile_settings_value:
  assumes "config_cache_ok db" "fst (get_profile_settings userid db) = Inr raw"
  shows "raw = profile_jsonb userid db"
  using assms get_all_config_value [OF assms(1), of userid]
  by (auto simp: get_profile_settings_def profile_jsonb_def and_then_fst split: if_splits sum.splits option.splits)

lemma query_all_config_frame [simp]: "query_all_config u (db\<lparr>c_all_config := c\<rparr>) = query_all_config u db"
  by (simp add: query_all_config_def cong: option.case_cong)

lemma profile_jsonb_config_read: "config_read db db' \<Longrightarrow> profile_jsonb userid db' = profile_jsonb userid db"
  by (auto simp: config_read_def profile_jsonb_def)

subsection \<open>Counting posts\<close>

lemma count_where_add: "count_where P xs + count_where (\<lambda>x. Q x \<and> \<not> P x) xs = count_where (\<lambda>x. P x \<or> Q x) xs"
  by (induction xs) (auto simp: count_where_def)

lemma count_where_sum:
  "distinct ks \<Longrightarrow>
   sum_list (map (\<lambda>k. count_where (\<lambda>x. x = k) xs) ks) = count_where (\<lambda>x. x \<in> set ks) xs"
proof (induction ks)
  case (Cons k ks)
  have "count_where (\<lambda>x. x \<in> set ks) xs = count_where (\<lambda>x. x \<in> set ks \<and> x \<noteq> k) xs"
    by (rule arg_cong [where f = "\<lambda>P. count_where P xs"]) (use Cons.prems in auto)
  then show ?case
    using Cons count_where_add [of "\<lambda>x. x = k" xs "\<lambda>x. x \<in> set ks"] by simp
qed (simp add: count_where_def)

lemma count_where_cong: "(\<And>x. x \<in> set xs \<Longrightarrow> P x = Q x) \<Longrightarrow> count_where P xs = count_where Q xs"
  by (auto simp: count_where_def intro: arg_cong [where f = length] filter_cong)

definition count_of :: "posts_count_key \<Rightarrow> (posts_count_key \<times> int) list \<Rightarrow> int" where
  "count_of key result = (case map_of result key of None \<Rightarrow> 0 | Some n \<Rightarrow> n)"

definition row_matches :: "bool \<Rightarrow> posts_count_key \<Rightarrow> posts_count_row \<Rightarrow> bool" where
  "row_matches friends key row =
     ((friends \<or> \<not> pc_friends_only row) \<and> (pc_post_type row, pc_rating row) = key)"

lemma count_of_add:
  "count_of key (add_count friends row result) =
     count_of key result + (if row_matches friends key row then pc_count row else 0)"
  by (auto simp: count_of_def row_matches_def update_conv' Let_def)

lemma count_of_fold:
  "count_of key (fold (add_count friends) rows result) =
     count_of key result + sum_list (map pc_count (filter (row_matches friends key) rows))"
  by (induction rows arbitrary: result) (auto simp: count_of_add simp del: add_count.simps)

lemma matching_group_counts:
  "sum_list (map pc_count (filter (row_matches friends (pt, r)) (group_counts pt' keys))) =
     (if pt' = pt then count_where (\<lambda>(r', f). r' = r \<and> (friends \<or> \<not> f)) keys else 0)"
proof (cases "pt' = pt")
  case True
  let ?P = "\<lambda>(r', f). r' = r \<and> (friends \<or> \<not> f)"
  have "map pc_count (filter (row_matches friends (pt, r)) (group_counts pt keys)) =
      map (\<lambda>k. count_where (\<lambda>x. x = k) keys) (filter ?P (remdups keys))"
    by (simp add: group_counts_def filter_map comp_def row_matches_def split_def conj_commute)
  also have "sum_list \<dots> = count_where (\<lambda>x. x \<in> set (filter ?P (remdups keys))) keys"
    by (rule count_where_sum) simp
  also have "\<dots> = count_where ?P keys"
    by (rule count_where_cong) auto
  finally show ?thesis using True by simp
next
  case False
  then have "filter (row_matches friends (pt, r)) (group_counts pt' keys) = []"
    by (auto simp: filter_empty_conv group_counts_def row_matches_def)
  with False show ?thesis by simp
qed

lemma posts_count_of_query:
  "count_of (pt, r) (fold (add_count friends) (query_posts_count userid db) []) =
     count_where (\<lambda>(r', f). r' = r \<and> (friends \<or> \<not> f)) (post_keys pt userid db)"
  unfolding count_of_fold query_posts_count_def
  by (cases pt) (simp_all add: count_of_def matching_group_counts)

text \<open>
  The counts of posts shown on a profile. When the cached rows of the user are current,
  \<open>posts_count\<close> gives for every type of post and rating the number of the user's posts that are not
  hidden and are not for friends only, unless the viewer is a friend; for collections, of the
  submissions collected without a pending offer or request. The cached rows stay current.
\<close>

theorem posts_count_correct:
  assumes "\<forall>u. coherent (peek_posts_count u) (query_posts_count u) db"
  shows "count_of (pt, r) (fst (posts_count userid friends db)) =
      count_where (\<lambda>(r', f). r' = r \<and> (friends \<or> \<not> f)) (post_keys pt userid db)
    \<and> (\<forall>u. coherent (peek_posts_count u) (query_posts_count u) (snd (posts_count userid friends db)))"
proof -
  have "fst (cached_posts_count userid db) = query_posts_count userid db"
    unfolding cached_posts_count_def by (rule posts_count.read_value [OF assms])
  then have "fst (posts_count userid friends db) = fold (add_count friends) (query_posts_count userid db) []"
    by (simp add: posts_count_def split_def Let_def)
  moreover have "snd (posts_count userid friends db) = snd (cached_posts_count userid db)"
    by (simp add: posts_count_def split_def Let_def)
  moreover have "\<forall>u. coherent (peek_posts_count u) (query_posts_count u) (snd (cached_posts_count userid db))"
    unfolding cached_posts_count_def by (rule posts_count.read_coherent [OF assms])
  ultimately show ?thesis
    using posts_count_of_query by metis
qed

text \<open>The sums over ratings and audiences of a type are all its posts; no rating is counted twice.\<close>

lemma count_of_friends_mono:
  "count_where (\<lambda>(r', f). r' = r \<and> \<not> f) keys \<le> count_where (\<lambda>(r', f). r' = r) keys"
  by (induction keys) (auto simp: count_where_def)

subsection \<open>Counting notifications\<close>

lemma fill_groups_result:
  assumes "length xs = 5" "distinct (map fst counts)" "\<forall>g \<in> fst ` set counts. 1 \<le> g \<and> g \<le> 4"
  shows "fill_groups counts xs = Inr (map (\<lambda>i. case map_of counts (5 - int i) of Some c \<Rightarrow> c | None \<Rightarrow> xs ! i) [0..<5])"
  using assms
proof (induction counts xs rule: fill_groups.induct)
  case (1 xs)
  then show ?case by (auto intro: nth_equalityI)
next
  case (2 g c counts xs)
  let ?xs = "xs[nat (5 - g) := c]"
  have set: "set_index xs (5 - g) c = Inr ?xs"
    using "2.prems" by (simp add: set_index_def)
  have "map_of counts (5 - int i) = None" if "5 - int i = g" for i
    using "2.prems"(2) that by (auto simp: map_of_eq_None_iff)
  then have "(case map_of counts (5 - int i) of Some c \<Rightarrow> c | None \<Rightarrow> ?xs ! i) =
      (case map_of ((g, c) # counts) (5 - int i) of Some c \<Rightarrow> c | None \<Rightarrow> xs ! i)" if "i < 5" for i
    using that "2.prems"(1,3) by (auto simp: nth_list_update split: option.splits)
  moreover have "fill_groups counts ?xs =
      Inr (map (\<lambda>i. case map_of counts (5 - int i) of Some c \<Rightarrow> c | None \<Rightarrow> ?xs ! i) [0..<5])"
    using "2.IH" [OF set] "2.prems" by simp
  ultimately show ?case
    using set by simp
qed

definition header_count :: "int \<Rightarrow> int \<Rightarrow> int \<Rightarrow> 'a content_db_scheme \<Rightarrow> int" where
  "header_count grp rating userid db =
     count_where (\<lambda>we. counted_notification userid rating db we \<and> we_type we div 1000 = grp) (t_welcome db)"

lemma map_of_counts:
  "map_of (map (\<lambda>g. (g, count_where (\<lambda>x. x = g) groups)) (remdups groups)) g =
     (if (g :: int) \<in> set groups then Some (count_where (\<lambda>x. x = g) groups) else None)"
proof -
  have "map_of (map (\<lambda>k. (k, f k)) ks) g = (if g \<in> set ks then Some (f g) else None)" for f :: "int \<Rightarrow> int" and ks
    by (induction ks) auto
  then show ?thesis by simp
qed

text \<open>
  The five numbers of the page header. As long as all notifications are of the four known
  thousands, \<open>_page_header_info\<close> computes the unread private messages and then, from the highest
  thousand to the lowest, the user's notifications of each, leaving out those about submissions
  above the rating; it raises nothing.
\<close>

theorem page_header_counts:
  assumes "\<forall>we \<in> set (t_welcome db). 1000 \<le> we_type we \<and> we_type we < 5000"
  shows "query_page_header rating userid db =
    Inr [private_messages_unread_count userid db, header_count 4 rating userid db,
         header_count 3 rating userid db, header_count 2 rating userid db, header_count 1 rating userid db]"
proof -
  let ?groups = "map (\<lambda>we. we_type we div 1000) (filter (counted_notification userid rating db) (t_welcome db))"
  let ?counts = "map (\<lambda>g. (g, count_where (\<lambda>x. x = g) ?groups)) (remdups ?groups)"
  have lookup: "(case map_of ?counts g of Some c \<Rightarrow> c | None \<Rightarrow> 0) = header_count g rating userid db" for g
  proof -
    have "count_where (\<lambda>x. x = g) ?groups = header_count g rating userid db"
      by (simp add: count_where_def header_count_def filter_map comp_def conj_commute)
    moreover have "count_where (\<lambda>x. x = g) ?groups = 0" if "g \<notin> set ?groups"
      using that by (auto simp: count_where_0_iff)
    ultimately show ?thesis
      unfolding map_of_counts by auto
  qed
  have five: "map_of ?counts 5 = None"
    unfolding map_of_counts using assms by auto
  have "\<forall>g \<in> fst ` set ?counts. 1 \<le> g \<and> g \<le> 4"
    using assms by (auto simp: image_image)
  then have "fill_groups ?counts [private_messages_unread_count userid db, 0, 0, 0, 0] =
      Inr (map (\<lambda>i. case map_of ?counts (5 - int i) of Some c \<Rightarrow> c
                  | None \<Rightarrow> [private_messages_unread_count userid db, 0, 0, 0, 0] ! i) [0..<5])"
    by (intro fill_groups_result) (simp_all add: comp_def)
  also have "\<dots> = Inr [private_messages_unread_count userid db, header_count 4 rating userid db,
         header_count 3 rating userid db, header_count 2 rating userid db, header_count 1 rating userid db]"
  proof -
    have "[0..<5] = [0, 1, 2, 3, 4 :: nat]" by code_simp
    then show ?thesis using five lookup by (simp cong: option.case_cong)
  qed
  finally show ?thesis
    by (simp add: query_page_header_def Let_def)
qed

theorem page_header_counts_witness:
  "query_page_header 10 7 (blank_db\<lparr>t_welcome :=
      [\<lparr>we_welcomeid = 1, we_userid = 7, we_otherid = 5, we_referid = 0, we_targetid = 3, we_unixtime = 100,
        we_type = 1010, we_deleted = None\<rparr>]\<rparr>) = Inr [0, 0, 0, 0, 1]"
  by (subst page_header_counts)
    (simp_all add: header_count_def counted_notification_def private_messages_unread_count_def blank_db_def
      count_where_def)

theorem posts_count_correct_witness:
  "count_of (PT_journal, 10) (fst (posts_count 7 False (blank_db\<lparr>t_journal :=
      [\<lparr>jo_journalid = 1, jo_userid = 7, jo_title = ''t'', jo_content = ''c'', jo_rating = 10, jo_unixtime = 100,
        jo_hidden = False, jo_friends_only = False, jo_page_views = 0, jo_submitter_ip_address = None,
        jo_submitter_user_agent_id = None\<rparr>]\<rparr>))) = 1"
  by (subst conjunct1 [OF posts_count_correct])
    (simp_all add: coherent_def peek_posts_count_def blank_db_def count_where_def)

subsection \<open>Site updates\<close>

lemma list_index_split:
  "v \<notin> set xs \<Longrightarrow> list_index (xs @ v # ys) v = Inr (int (length xs))"
  by (induction xs) auto

lemma index_descending:
  assumes "sorted_wrt (>) (xs :: int list)" "x \<in> set xs"
  shows "list_index (map Some xs @ [None]) (Some x) = Inr (count_where (\<lambda>y. y > x) xs)"
proof -
  obtain as bs where xs: "xs = as @ x # bs"
    using assms(2) by (meson split_list)
  then have "x \<notin> set as" and "count_where (\<lambda>y. y > x) xs = int (length as)"
    using assms(1) by (auto simp: sorted_wrt_append count_where_def filter_empty_conv filter_id_conv)
  moreover have "list_index (map Some as @ Some x # (map Some bs @ [None])) (Some x) = Inr (int (length (map Some as)))"
    by (rule list_index_split) (use \<open>x \<notin> set as\<close> in auto)
  ultimately show ?thesis
    by (simp add: xs)
qed

lemma index_unread_all: "list_index (map Some xs @ [None]) None = Inr (int (length xs))"
  by (induction xs) auto

lemma count_where_rev_sort: "count_where P (rev (sort xs)) = count_where P xs"
  by (simp add: count_where_def rev_filter [symmetric] filter_sort)

lemma descending_updateids:
  "distinct (map sit_updateid (t_siteupdate db)) \<Longrightarrow> sorted_wrt (>) (query_updateids db)"
  by (simp add: query_updateids_def sorted_wrt_rev strict_sorted_iff)

text \<open>
  The number of unread site updates. When the two caches are current and the update last read
  exists, it is the number of updates after that one, and the number of all updates for a user
  who has read none.
\<close>

theorem site_update_unread_correct:
  assumes "distinct (map sit_updateid (t_siteupdate db))"
    and "coherent c_updateids query_updateids db"
    and "coherent (\<lambda>db. c_last_read db userid) (query_last_read userid) db"
    and "\<forall>x. query_last_read userid db = Some x \<longrightarrow> x \<in> sit_updateid ` set (t_siteupdate db)"
  shows "fst (site_update_unread_count userid db) =
    Inr (count_where (\<lambda>sit. case query_last_read userid db of None \<Rightarrow> True | Some x \<Rightarrow> sit_updateid sit > x) (t_siteupdate db))"
proof -
  have ids: "fst (get_updateids db) = query_updateids db"
    using assms(2) by (auto simp: get_updateids_def read_through_def coherent_def Let_def split: option.splits)
  have "query_last_read userid (snd (get_updateids db)) = query_last_read userid db"
    "c_last_read (snd (get_updateids db)) = c_last_read db"
    by (auto simp: get_updateids_def read_through_def query_last_read_def Let_def split: option.splits)
  then have last: "fst (get_last_read_updateid userid (snd (get_updateids db))) = query_last_read userid db"
    using assms(3) by (auto simp: get_last_read_updateid_def read_through_def coherent_def Let_def split: option.splits)
  have all: "count_where P (query_updateids db) = count_where (\<lambda>sit. P (sit_updateid sit)) (t_siteupdate db)" for P
    unfolding query_updateids_def count_where_rev_sort by (simp add: count_where_def filter_map comp_def)
  have "list_index (map Some (query_updateids db) @ [None]) (query_last_read userid db) =
    Inr (count_where (\<lambda>sit. case query_last_read userid db of None \<Rightarrow> True | Some x \<Rightarrow> sit_updateid sit > x) (t_siteupdate db))"
  proof (cases "query_last_read userid db")
    case None
    have "length (query_updateids db) = length (t_siteupdate db)"
      by (simp add: query_updateids_def)
    with None show ?thesis
      by (simp add: index_unread_all count_where_def)
  next
    case (Some x)
    then have "x \<in> set (query_updateids db)"
      using assms(4) by (auto simp: query_updateids_def)
    with Some show ?thesis
      using index_descending [OF descending_updateids [OF assms(1)]] all [of "\<lambda>y. y > x"] by simp
  qed
  then show ?thesis
    using ids last by (simp add: site_update_unread_count_def split_def Let_def)
qed

theorem site_update_unread_correct_witness:
  "fst (site_update_unread_count 7 (blank_db\<lparr>t_siteupdate :=
      [\<lparr>sit_updateid = 1, sit_userid = 5, sit_wesley = True, sit_title = ''a'', sit_content = ''b'', sit_unixtime = 9\<rparr>,
       \<lparr>sit_updateid = 2, sit_userid = 5, sit_wesley = True, sit_title = ''a'', sit_content = ''b'', sit_unixtime = 10\<rparr>]\<rparr>))
   = Inr 2"
  by (subst site_update_unread_correct)
    (simp_all add: coherent_def blank_db_def count_where_def query_last_read_def)

subsection \<open>Views\<close>

lemma find_update_where:
  assumes "\<And>r. key (f r) = key r"
  shows "find (\<lambda>r. key r = k) (update_where (\<lambda>r. key r = k) f rows) = map_option f (find (\<lambda>r. key r = k) rows)"
  using assms by (induction rows) (auto simp: update_where_def)

lemma page_views_bump:
  "page_views_of feature targetid (bump_page_views feature targetid db) =
     map_option (\<lambda>n. n + 1) (page_views_of feature targetid db)"
  by (cases feature)
    (simp_all add: page_views_of_def bump_page_views_def find_update_where option.map_comp comp_def)

lemma views_bump [simp]: "t_views (bump_page_views feature targetid db) = t_views db"
  by (cases feature) (simp_all add: bump_page_views_def)

lemma page_views_frame [simp]: "page_views_of feature targetid (db\<lparr>t_views := vs\<rparr>) = page_views_of feature targetid db"
  by (cases feature) (simp_all add: page_views_of_def)

abbreviation vw_key :: "view_row \<Rightarrow> string \<times> int \<times> int" where
  "vw_key vw \<equiv> (vw_viewer vw, vw_targetid vw, vw_type vw)"

interpretation views: unique_table vw_key t_views "\<lambda>vs db. db\<lparr>t_views := vs\<rparr>"
  by unfold_locales simp_all

lemma view_counted:
  assumes "common_view_content now address userid targetid feature db = (Some n, db')"
  shows "page_views_of feature targetid db = Some (n - 1)" "page_views_of feature targetid db' = Some n"
    "\<exists>vw \<in> set (t_views db'). vw_key vw = (if userid \<noteq> 0 then ''user:'' @ show_int userid else address,
        targetid, view_typeid feature) \<and> vw_viewed_at vw = now"
  using assms
  by (auto simp: common_view_content_def Let_def page_views_bump insert_or_nothing_def split: if_splits)

lemma view_again:
  assumes "\<exists>vw \<in> set (t_views db). vw_key vw = (if userid \<noteq> 0 then ''user:'' @ show_int userid else address,
        targetid, view_typeid feature) \<and> now - 15 * 60 \<le> vw_viewed_at vw"
  shows "fst (common_view_content now address userid targetid feature db) = None"
    "page_views_of feature' targetid' (snd (common_view_content now address userid targetid feature db))
       = page_views_of feature' targetid' db"
  using assms
  by (auto simp: common_view_content_def Let_def exists_where_iff set_delete_where split: if_splits)

text \<open>
  Page views. When a view is counted, the page's counter is one higher than before and is what
  is returned; in the next 15 minutes a view of the same page by the same viewer (the same user from
  any address, or a guest from the same address) changes no counter.
\<close>

theorem view_counted_once:
  assumes "common_view_content now address userid targetid feature db = (Some n, db')"
    and "now' \<le> now + 15 * 60" "userid \<noteq> 0 \<or> address' = address"
  shows "page_views_of feature targetid db = Some (n - 1)
    \<and> fst (common_view_content now' address' userid targetid feature db') = None
    \<and> page_views_of feature targetid (snd (common_view_content now' address' userid targetid feature db')) = Some n"
proof -
  have "\<exists>vw \<in> set (t_views db'). vw_key vw = (if userid \<noteq> 0 then ''user:'' @ show_int userid else address',
        targetid, view_typeid feature) \<and> now' - 15 * 60 \<le> vw_viewed_at vw"
    using view_counted(3) [OF assms(1)] assms(2,3) by force
  then show ?thesis
    using view_counted(1,2) [OF assms(1)] view_again by metis
qed

theorem view_counted_once_witness:
  "let db = blank_db\<lparr>t_journal :=
      [\<lparr>jo_journalid = 1, jo_userid = 7, jo_title = ''t'', jo_content = ''c'', jo_rating = 10, jo_unixtime = 100,
        jo_hidden = False, jo_friends_only = False, jo_page_views = 4, jo_submitter_ip_address = None,
        jo_submitter_user_agent_id = None\<rparr>]\<rparr>;
       db' = snd (common_view_content 1000 ''::1'' 0 1 V_journals db)
   in fst (common_view_content 1900 ''::1'' 0 1 V_journals db') = None"
proof -
  define db where "db = blank_db\<lparr>t_journal :=
      [\<lparr>jo_journalid = 1, jo_userid = 7, jo_title = ''t'', jo_content = ''c'', jo_rating = 10, jo_unixtime = 100,
        jo_hidden = False, jo_friends_only = False, jo_page_views = 4, jo_submitter_ip_address = None,
        jo_submitter_user_agent_id = None\<rparr>]\<rparr>"
  have "fst (common_view_content 1000 ''::1'' 0 1 V_journals db) = Some 5"
    by (simp add: db_def blank_db_def common_view_content_def own_content_def page_views_of_def bump_page_views_def
        exists_where_def update_where_def Let_def)
  then have "common_view_content 1000 ''::1'' 0 1 V_journals db
      = (Some 5, snd (common_view_content 1000 ''::1'' 0 1 V_journals db))"
    by (metis prod.collapse)
  from view_counted_once [OF this, of 1900 "''::1''"] show ?thesis
    by (simp add: Let_def db_def)
qed

end
