(* ===== verification/Relations.thy ===== *)
theory Relations
  imports Define
begin

text \<open>
  The queries by which the modules ask about the relation of two users, and about the flags and tags
  that decide who sees a post: \<open>check\<close> and \<open>has_friends\<close> of \<^verbatim>\<open>weasyl/frienduser.py\<close>, \<open>check\<close> and
  \<open>cached_list_ignoring\<close> of \<^verbatim>\<open>weasyl/ignoreuser.py\<close>, \<open>list_followed\<close> and \<open>select_settings\<close> of
  \<^verbatim>\<open>weasyl/followuser.py\<close>, \<open>submission_has_folder_flag\<close> of \<^verbatim>\<open>weasyl/folder.py\<close>, and the conditions of
  \<^verbatim>\<open>weasyl/macro.py\<close> that the browse queries add. A pair \<open>(userid, otherid)\<close> of \<open>frienduser\<close> is a request
  while its settings have \<open>p\<close>, and a friendship after.
\<close>

subsection \<open>Friends\<close>

definition fu_pending :: "frienduser_row \<Rightarrow> bool" where
  "fu_pending fu = has_flag (CHR ''p'') (fu_settings fu)"

definition fu_between :: "int \<Rightarrow> int \<Rightarrow> frienduser_row \<Rightarrow> bool" where
  "fu_between userid otherid fu =
     ((fu_userid fu, fu_otherid fu) = (userid, otherid) \<or> (fu_userid fu, fu_otherid fu) = (otherid, userid))"

definition frienduser_check :: "int \<Rightarrow> int \<Rightarrow> 'a social_db_scheme \<Rightarrow> bool" where
  "frienduser_check userid otherid db =
     (if userid = 0 \<or> otherid = 0 then False
      else if userid = otherid then True
      else exists_where (\<lambda>fu. fu_between userid otherid fu \<and> \<not> fu_pending fu) (t_frienduser db))"

definition has_friends :: "int \<Rightarrow> 'a social_db_scheme \<Rightarrow> bool" where
  "has_friends otherid db =
     exists_where (\<lambda>fu. (fu_userid fu = otherid \<or> fu_otherid fu = otherid) \<and> \<not> fu_pending fu) (t_frienduser db)"

lemma fu_between_sym: "fu_between userid otherid fu = fu_between otherid userid fu"
  by (auto simp: fu_between_def)

lemma frienduser_check_sym: "frienduser_check userid otherid db = frienduser_check otherid userid db"
  by (simp add: frienduser_check_def fu_between_sym [of userid otherid])

subsection \<open>Ignored users\<close>

definition ignoreuser_check :: "int \<Rightarrow> int \<Rightarrow> 'a social_db_scheme \<Rightarrow> bool" where
  "ignoreuser_check userid otherid db =
     (if userid = 0 \<or> otherid = 0 then False
      else exists_where (\<lambda>iu. (iu_userid iu, iu_otherid iu) = (userid, otherid)) (t_ignoreuser db))"

definition query_list_ignoring :: "int \<Rightarrow> 'a social_db_scheme \<Rightarrow> int list" where
  "query_list_ignoring userid db = map iu_otherid (filter (\<lambda>iu. iu_userid iu = userid) (t_ignoreuser db))"

definition peek_ignoring :: "int \<Rightarrow> 'a social_db_scheme \<Rightarrow> int list option" where
  "peek_ignoring userid db = c_ignoring db userid"

definition store_ignoring :: "int \<Rightarrow> int list option \<Rightarrow> 'a social_db_scheme \<Rightarrow> 'a social_db_scheme" where
  "store_ignoring userid v db = db\<lparr>c_ignoring := (c_ignoring db)(userid := v)\<rparr>"

definition cached_list_ignoring :: "int \<Rightarrow> 'a social_db_scheme \<Rightarrow> int list \<times> 'a social_db_scheme" where
  "cached_list_ignoring userid db =
     read_through (\<lambda>_. True) (peek_ignoring userid) (query_list_ignoring userid) (store_ignoring userid) db"

interpretation ignoring: cached_query "\<lambda>_. True" query_list_ignoring peek_ignoring store_ignoring
  by unfold_locales (simp_all add: query_list_ignoring_def peek_ignoring_def store_ignoring_def)

subsection \<open>Followers\<close>

text \<open>The notified ratings: \<open>config ~ 'p'\<close> for explicit posts, \<open>config ~ '[ap]'\<close> for mature ones.\<close>

definition config_allows_rating :: "string \<Rightarrow> int \<Rightarrow> bool" where
  "config_allows_rating config rating =
     (if rating = rating_code EXPLICIT then has_flag (CHR ''p'') config
      else if rating = rating_code MATURE then has_any_flag ''ap'' config
      else True)"

definition profile_of :: "int \<Rightarrow> 'a accounts_db_scheme \<Rightarrow> profile_row option" where
  "profile_of userid db = find (\<lambda>pr. pr_userid pr = userid) (t_profile db)"

text \<open>\<open>watchuser JOIN profile\<close>: the watches whose watcher has a profile, with its config.\<close>

definition watchers :: "int \<Rightarrow> char \<Rightarrow> 'a social_db_scheme \<Rightarrow> (watchuser_row \<times> string) list" where
  "watchers otherid setting db =
     List.map_filter (\<lambda>wu. map_option (\<lambda>pr. (wu, pr_config pr)) (profile_of (wu_userid wu) db))
       (filter (\<lambda>wu. wu_otherid wu = otherid \<and> has_flag setting (wu_settings wu)) (t_watchuser db))"

definition accepted_between :: "int \<Rightarrow> int \<Rightarrow> 'a social_db_scheme \<Rightarrow> bool" where
  "accepted_between userid otherid db =
     exists_where (\<lambda>fu. fu_between userid otherid fu \<and> \<not> fu_pending fu) (t_frienduser db)"

definition list_followed :: "int \<Rightarrow> char \<Rightarrow> int \<Rightarrow> bool \<Rightarrow> 'a social_db_scheme \<Rightarrow> int list" where
  "list_followed userid settings rating friends db =
     map (\<lambda>(wu, config). wu_userid wu)
       (filter (\<lambda>(wu, config). (friends \<longrightarrow> accepted_between (wu_userid wu) (wu_otherid wu) db)
                               \<and> config_allows_rating config rating)
         (watchers userid settings db))"

definition select_settings :: "int \<Rightarrow> int \<Rightarrow> 'a social_db_scheme \<Rightarrow> string result" where
  "select_settings userid otherid db =
     (case find (\<lambda>wu. (wu_userid wu, wu_otherid wu) = (userid, otherid)) (t_watchuser db) of
        None \<Rightarrow> Inl (WeasylError ''watchuserRecordMissing'')
      | Some wu \<Rightarrow> Inr (wu_settings wu))"

lemma frienduser_check_accepted:
  "userid \<noteq> 0 \<Longrightarrow> otherid \<noteq> 0 \<Longrightarrow> userid \<noteq> otherid \<Longrightarrow>
   frienduser_check userid otherid db = accepted_between userid otherid db"
  by (simp add: frienduser_check_def accepted_between_def)

lemma in_map_filter: "y \<in> set (List.map_filter f xs) \<longleftrightarrow> (\<exists>x \<in> set xs. f x = Some y)"
  by (force simp: List.map_filter_def)

lemma in_watchers:
  "(wu, config) \<in> set (watchers otherid setting db) \<longleftrightarrow>
     wu \<in> set (t_watchuser db) \<and> wu_otherid wu = otherid \<and> has_flag setting (wu_settings wu)
     \<and> (\<exists>pr. profile_of (wu_userid wu) db = Some pr \<and> pr_config pr = config)"
  by (auto simp: watchers_def in_map_filter)

lemma in_list_followed:
  "u \<in> set (list_followed userid settings rating friends db) \<longleftrightarrow>
     (\<exists>wu \<in> set (t_watchuser db). wu_userid wu = u \<and> wu_otherid wu = userid \<and> has_flag settings (wu_settings wu)
       \<and> (\<exists>pr. profile_of u db = Some pr \<and> config_allows_rating (pr_config pr) rating)
       \<and> (friends \<longrightarrow> accepted_between u userid db))"
  by (fastforce simp: list_followed_def in_watchers)

subsection \<open>Folder flags\<close>

definition submission_has_folder_flag :: "int \<Rightarrow> char \<Rightarrow> 'a content_db_scheme \<Rightarrow> bool" where
  "submission_has_folder_flag submitid flag db =
     (let results = concat (map (\<lambda>fd. map (\<lambda>su. has_flag flag (fd_settings fd))
                      (filter (\<lambda>su. su_folderid su = Some (fd_folderid fd) \<and> su_submitid su = submitid) (t_submission db)))
                    (t_folder db))
      in results \<noteq> [] \<and> hd results)"

subsection \<open>Conditions of the browse queries\<close>

definition not_ignored :: "int \<Rightarrow> int \<Rightarrow> 'a social_db_scheme \<Rightarrow> bool" where
  "not_ignored userid otherid db =
     (\<not> exists_where (\<lambda>iu. (iu_userid iu, iu_otherid iu) = (userid, otherid)) (t_ignoreuser db))"

definition blocked_tag :: "int \<Rightarrow> int \<Rightarrow> int \<Rightarrow> 'a tags_db_scheme \<Rightarrow> bool" where
  "blocked_tag userid tagid rating db =
     exists_where (\<lambda>bt. bt_userid bt = userid \<and> bt_tagid bt = tagid \<and> bt_rating bt \<le> rating) (t_blocktag db)"

definition no_blocked_tag ::
  "(searchmap_row list) \<Rightarrow> int \<Rightarrow> int \<Rightarrow> int \<Rightarrow> 'a tags_db_scheme \<Rightarrow> bool" where
  "no_blocked_tag searchmap userid targetid rating db =
     (\<not> exists_where (\<lambda>sm. sm_targetid sm = targetid \<and> blocked_tag userid (sm_tagid sm) rating db) searchmap)"

definition macro_blocktag_submit :: "int \<Rightarrow> submission_row \<Rightarrow> 'a tags_db_scheme \<Rightarrow> bool" where
  "macro_blocktag_submit userid su db =
     (su_userid su = userid \<or> no_blocked_tag (t_searchmapsubmit db) userid (su_submitid su) (su_rating su) db)"

definition macro_blocktag_char :: "int \<Rightarrow> character_row \<Rightarrow> 'a tags_db_scheme \<Rightarrow> bool" where
  "macro_blocktag_char userid ch db =
     (ch_userid ch = userid \<or> no_blocked_tag (t_searchmapchar db) userid (ch_charid ch) (ch_rating ch) db)"

definition macro_blocktag_journal :: "int \<Rightarrow> journal_row \<Rightarrow> 'a tags_db_scheme \<Rightarrow> bool" where
  "macro_blocktag_journal userid jo db =
     (jo_userid jo = userid \<or> no_blocked_tag (t_searchmapjournal db) userid (jo_journalid jo) (jo_rating jo) db)"

definition macro_frienduser :: "int \<Rightarrow> bool \<Rightarrow> int \<Rightarrow> 'a social_db_scheme \<Rightarrow> bool" where
  "macro_frienduser userid friends_only ownerid db =
     (\<not> friends_only \<or> ownerid = userid \<or> accepted_between userid ownerid db)"

lemma not_ignored_check:
  "userid \<noteq> 0 \<Longrightarrow> otherid \<noteq> 0 \<Longrightarrow> not_ignored userid otherid db = (\<not> ignoreuser_check userid otherid db)"
  by (simp add: not_ignored_def ignoreuser_check_def)

lemma macro_frienduser_check:
  "userid \<noteq> 0 \<Longrightarrow> ownerid \<noteq> 0 \<Longrightarrow>
   macro_frienduser userid friends_only ownerid db = (\<not> friends_only \<or> frienduser_check userid ownerid db)"
  by (auto simp: macro_frienduser_def frienduser_check_def accepted_between_def)

end
