(* ===== verification/Welcome.thy ===== *)
theory Welcome
  imports Relations
begin

text \<open>
  Notifications, \<^verbatim>\<open>weasyl/welcome.py\<close>: the rows of the table \<open>welcome\<close>. A row tells \<open>userid\<close> about an
  action of \<open>otherid\<close>; \<open>type\<close> says which, \<open>targetid\<close> and \<open>referid\<close> what it is about. Every function
  of the file inserts or deletes such rows; the lemmas of the last section say which.
\<close>

subsection \<open>Inserting and deleting rows\<close>

definition add_welcome :: "int \<Rightarrow> int \<Rightarrow> int \<Rightarrow> int \<Rightarrow> int \<Rightarrow> int \<Rightarrow> 'a social_db_scheme \<Rightarrow> 'a social_db_scheme" where
  "add_welcome now userid otherid referid targetid type db =
     db\<lparr>t_welcome := t_welcome db @
          [\<lparr>we_welcomeid = welcome_seq db, we_userid = userid, we_otherid = otherid, we_referid = referid,
            we_targetid = targetid, we_unixtime = now, we_type = type, we_deleted = None\<rparr>],
        welcome_seq := welcome_seq db + 1\<rparr>"

definition delete_welcome :: "(welcome_row \<Rightarrow> bool) \<Rightarrow> 'a social_db_scheme \<Rightarrow> 'a social_db_scheme" where
  "delete_welcome P db = db\<lparr>t_welcome := delete_where P (t_welcome db)\<rparr>"

definition welcome_insert ::
  "int \<Rightarrow> int \<Rightarrow> int \<Rightarrow> int \<Rightarrow> int \<Rightarrow> int list \<Rightarrow> 'a social_db_scheme \<Rightarrow> 'a social_db_scheme" where
  "welcome_insert now sender referid targetid type notify_users db =
     (if notify_users = [] then db
      else fold (\<lambda>notify. add_welcome now notify sender referid targetid type) notify_users db)"

subsection \<open>Submissions\<close>

definition welcome_submission_insert ::
  "int \<Rightarrow> int \<Rightarrow> int \<Rightarrow> int \<Rightarrow> bool \<Rightarrow> 'a tags_db_scheme \<Rightarrow> 'a tags_db_scheme" where
  "welcome_submission_insert now userid submitid rating friends_only db =
     (if submission_has_folder_flag submitid (CHR ''n'') db then db
      else
        (let notify = map (\<lambda>(wu, config). wu_userid wu)
               (filter (\<lambda>(wu, config). (friends_only \<longrightarrow> accepted_between (wu_userid wu) (wu_otherid wu) db)
                          \<and> config_allows_rating config rating
                          \<and> no_blocked_tag (t_searchmapsubmit db) (wu_userid wu) submitid rating db)
                 (watchers userid (CHR ''s'') db))
         in welcome_insert now userid 0 submitid 2010 notify db))"

definition submission_notification :: "int \<Rightarrow> 'a content_db_scheme \<Rightarrow> welcome_row \<Rightarrow> bool" where
  "submission_notification submitid db we =
     (we_targetid we = submitid \<and> we_type we \<in> {2010, 2030}
      \<or> we_otherid we = submitid \<and> we_type we = 3140
      \<or> we_targetid we = submitid \<and> we_type we = 3030
      \<or> we_referid we = submitid \<and> we_type we \<in> {3020, 3050, 4050}
      \<or> exists_where (\<lambda>cm. cm_target_sub cm = Some submitid \<and> cm_commentid cm = we_targetid we) (t_comments db)
        \<and> we_type we \<in> {4020, 4025})"

definition welcome_submission_remove :: "int \<Rightarrow> 'a content_db_scheme \<Rightarrow> 'a content_db_scheme" where
  "welcome_submission_remove submitid db = delete_welcome (submission_notification submitid db) db"

definition submission_became_friends_only :: "int \<Rightarrow> int \<Rightarrow> 'a content_db_scheme \<Rightarrow> 'a content_db_scheme" where
  "submission_became_friends_only submitid ownerid db =
     delete_welcome (\<lambda>we. \<not> accepted_between (we_userid we) ownerid db \<and> submission_notification submitid db we) db"

subsection \<open>Characters, journals, collections\<close>

definition welcome_character_insert ::
  "int \<Rightarrow> int \<Rightarrow> int \<Rightarrow> int \<Rightarrow> bool \<Rightarrow> 'a social_db_scheme \<Rightarrow> 'a social_db_scheme" where
  "welcome_character_insert now userid charid rating friends_only db =
     welcome_insert now userid 0 charid 2050 (list_followed userid (CHR ''f'') rating friends_only db) db"

definition welcome_character_remove :: "int \<Rightarrow> 'a content_db_scheme \<Rightarrow> 'a content_db_scheme" where
  "welcome_character_remove charid db =
     delete_welcome (\<lambda>we. we_targetid we = charid \<and> we_type we = 2050
       \<or> we_referid we = charid \<and> we_type we = 3100
       \<or> exists_where (\<lambda>cc. cc_targetid cc = charid \<and> cc_commentid cc = we_targetid we) (t_charcomment db)
         \<and> we_type we \<in> {4040, 4045}) db"

definition welcome_collection_insert :: "int \<Rightarrow> int \<Rightarrow> int \<Rightarrow> 'a tags_db_scheme \<Rightarrow> 'a tags_db_scheme" where
  "welcome_collection_insert now userid submitid db =
     (if submission_has_folder_flag submitid (CHR ''n'') db then db
      else
        (let rating = map_option su_rating (find (\<lambda>su. su_submitid su = submitid) (t_submission db));
             notify = map (\<lambda>(wu, config). wu_userid wu)
               (filter (\<lambda>(wu, config).
                    (case rating of None \<Rightarrow> True | Some r \<Rightarrow> config_allows_rating config r)
                    \<and> (case rating of None \<Rightarrow> True
                       | Some r \<Rightarrow> no_blocked_tag (t_searchmapsubmit db) (wu_userid wu) submitid r db))
                 (watchers userid (CHR ''c'') db))
         in fold (\<lambda>n. add_welcome now n userid 0 submitid 2030) notify db))"

definition welcome_collection_remove :: "int \<Rightarrow> int list \<Rightarrow> 'a social_db_scheme \<Rightarrow> 'a social_db_scheme" where
  "welcome_collection_remove userid remove db =
     delete_welcome (\<lambda>we. we_otherid we = userid \<and> we_type we = 2030 \<and> we_targetid we \<in> set remove) db"

definition welcome_journal_insert ::
  "int \<Rightarrow> int \<Rightarrow> int \<Rightarrow> int \<Rightarrow> bool \<Rightarrow> 'a social_db_scheme \<Rightarrow> 'a social_db_scheme" where
  "welcome_journal_insert now userid journalid rating friends_only db =
     welcome_insert now userid 0 journalid 1010 (list_followed userid (CHR ''j'') rating friends_only db) db"

definition welcome_journal_remove :: "int \<Rightarrow> 'a content_db_scheme \<Rightarrow> 'a content_db_scheme" where
  "welcome_journal_remove journalid db =
     delete_welcome (\<lambda>we. we_targetid we = journalid \<and> we_type we = 1010
       \<or> we_referid we = journalid \<and> we_type we = 3110
       \<or> exists_where (\<lambda>jc. jc_targetid jc = journalid \<and> jc_commentid jc = we_targetid we) (t_journalcomment db)
         \<and> we_type we \<in> {4030, 4035}) db"

definition collectoffer_insert :: "int \<Rightarrow> int \<Rightarrow> int \<Rightarrow> int \<Rightarrow> 'a social_db_scheme \<Rightarrow> 'a social_db_scheme" where
  "collectoffer_insert now userid otherid submitid db = add_welcome now otherid userid 0 submitid 3030 db"

definition collectrequest_insert :: "int \<Rightarrow> int \<Rightarrow> int \<Rightarrow> int \<Rightarrow> 'a social_db_scheme \<Rightarrow> 'a social_db_scheme" where
  "collectrequest_insert now userid otherid submitid db = add_welcome now otherid userid 0 submitid 3035 db"

definition collectrequest_remove :: "int \<Rightarrow> int \<Rightarrow> int \<Rightarrow> 'a social_db_scheme \<Rightarrow> 'a social_db_scheme" where
  "collectrequest_remove userid otherid submitid db =
     (if otherid = userid then
        delete_welcome (\<lambda>we. (we_userid we, we_type we, we_targetid we) = (userid, 3030, submitid)) db
      else
        delete_welcome (\<lambda>we. (we_userid we, we_otherid we, we_type we, we_targetid we)
                              = (userid, otherid, 3035, submitid)) db)"

subsection \<open>Favorites and comments\<close>

definition welcome_favorite_insert ::
  "int \<Rightarrow> int \<Rightarrow> int \<Rightarrow> int \<Rightarrow> int \<Rightarrow> int \<Rightarrow> 'a content_db_scheme \<Rightarrow> 'a content_db_scheme result" where
  "welcome_favorite_insert now userid submitid charid journalid otherid db =
     (let notiftype =
            (if submitid \<noteq> 0 then
               (if get_ownerid submitid 0 0 db = Some otherid then Some 3020 else Some 3050)
             else if charid \<noteq> 0 then Some 3100
             else if journalid \<noteq> 0 then Some 3110
             else None)
      in case notiftype of
           None \<Rightarrow> Inl (WeasylError ''Unexpected'')
         | Some notiftype \<Rightarrow>
             Inr (add_welcome now otherid userid (get_targetid [submitid, charid, journalid]) 0 notiftype db))"

definition welcome_favorite_remove :: "int \<Rightarrow> int \<Rightarrow> int \<Rightarrow> int \<Rightarrow> 'a social_db_scheme \<Rightarrow> 'a social_db_scheme" where
  "welcome_favorite_remove userid submitid charid journalid db =
     delete_welcome (\<lambda>we. (we_otherid we, we_referid we, we_type we)
        = (userid, get_targetid [submitid, charid, journalid],
           if submitid \<noteq> 0 then 3020 else if charid \<noteq> 0 then 3100 else 3110)) db"

definition welcome_shout_insert :: "int \<Rightarrow> int \<Rightarrow> int \<Rightarrow> int \<Rightarrow> 'a social_db_scheme \<Rightarrow> 'a social_db_scheme" where
  "welcome_shout_insert now userid commentid otherid db = add_welcome now otherid userid 0 commentid 4010 db"

definition welcome_shoutreply_insert ::
  "int \<Rightarrow> int \<Rightarrow> int \<Rightarrow> int \<Rightarrow> int \<Rightarrow> bool \<Rightarrow> 'a social_db_scheme \<Rightarrow> 'a social_db_scheme" where
  "welcome_shoutreply_insert now userid commentid otherid parentid staffnote db =
     add_welcome now otherid userid parentid commentid (if staffnote then 4016 else 4015) db"

definition welcome_comment_insert ::
  "int \<Rightarrow> int \<Rightarrow> int \<Rightarrow> int \<Rightarrow> int \<Rightarrow> int \<Rightarrow> int \<Rightarrow> int \<Rightarrow> 'a content_db_scheme \<Rightarrow> 'a content_db_scheme result" where
  "welcome_comment_insert now userid commentid otherid submitid charid journalid updateid db =
     (if otherid = 0 then Inl AssertionError
      else
        (let notiftype =
               (if submitid \<noteq> 0 then
                  (if get_ownerid submitid 0 0 db = Some otherid then Some 4020 else Some 4050)
                else if charid \<noteq> 0 then Some 4040
                else if journalid \<noteq> 0 then Some 4030
                else if updateid \<noteq> 0 then Some 4060
                else None)
         in case notiftype of
              None \<Rightarrow> Inl (WeasylError ''Unexpected'')
            | Some notiftype \<Rightarrow>
                Inr (add_welcome now otherid userid (get_targetid [submitid, charid, journalid, updateid])
                       commentid notiftype db)))"

definition welcome_commentreply_insert ::
  "int \<Rightarrow> int \<Rightarrow> int \<Rightarrow> int \<Rightarrow> int \<Rightarrow> int \<Rightarrow> int \<Rightarrow> int \<Rightarrow> int
     \<Rightarrow> 'a social_db_scheme \<Rightarrow> 'a social_db_scheme result" where
  "welcome_commentreply_insert now userid commentid otherid parentid submitid charid journalid updateid db =
     (let notiftype =
            (if submitid \<noteq> 0 then Some 4025
             else if charid \<noteq> 0 then Some 4045
             else if journalid \<noteq> 0 then Some 4035
             else if updateid \<noteq> 0 then Some 4065
             else None)
      in case notiftype of
           None \<Rightarrow> Inl (WeasylError ''Unexpected'')
         | Some notiftype \<Rightarrow> Inr (add_welcome now otherid userid parentid commentid notiftype db))"

text \<open>
  \<open>WITH RECURSIVE rc AS (comment UNION ALL children of rc)\<close>: level after level. A level below the
  number of rows is empty when the parents are acyclic, so that number of levels is enough.
\<close>

datatype comment_feature = CF_shout | CF_submit | CF_char | CF_journal | CF_siteupdate

type_synonym comment_links = "(int \<times> int option) list"

fun comment_links :: "comment_feature \<Rightarrow> 'a content_db_scheme \<Rightarrow> comment_links" where
  "comment_links CF_shout db = map (\<lambda>cm. (cm_commentid cm, cm_parentid cm)) (t_comments db)"
| "comment_links CF_submit db = map (\<lambda>cm. (cm_commentid cm, cm_parentid cm)) (t_comments db)"
| "comment_links CF_char db = map (\<lambda>cc. (cc_commentid cc, Some (cc_parentid cc))) (t_charcomment db)"
| "comment_links CF_journal db = map (\<lambda>jc. (jc_commentid jc, Some (jc_parentid jc))) (t_journalcomment db)"
| "comment_links CF_siteupdate db = map (\<lambda>sc. (sc_commentid sc, sc_parentid sc)) (t_siteupdatecomment db)"

definition children_of :: "comment_links \<Rightarrow> int list \<Rightarrow> int list" where
  "children_of links ids = concat (map (\<lambda>i. map fst (filter (\<lambda>(c, p). p = Some i) links)) ids)"

fun recursive_levels :: "nat \<Rightarrow> comment_links \<Rightarrow> int list \<Rightarrow> int list" where
  "recursive_levels 0 links ids = ids"
| "recursive_levels (Suc n) links ids =
     (if ids = [] then [] else ids @ recursive_levels n links (children_of links ids))"

definition recursive_ids :: "int \<Rightarrow> comment_links \<Rightarrow> int list" where
  "recursive_ids commentid links =
     recursive_levels (length links) links (map fst (filter (\<lambda>(c, p). c = commentid) links))"

fun comment_code :: "comment_feature \<Rightarrow> int" where
  "comment_code CF_shout = 4010"
| "comment_code CF_submit = 4020"
| "comment_code CF_char = 4040"
| "comment_code CF_journal = 4030"
| "comment_code CF_siteupdate = 4060"

definition comment_notification :: "int \<Rightarrow> comment_feature \<Rightarrow> 'a content_db_scheme \<Rightarrow> welcome_row \<Rightarrow> bool" where
  "comment_notification commentid feature db we =
     (we_type we \<in> {comment_code feature, comment_code feature + 5}
      \<and> we_targetid we \<in> set (recursive_ids commentid (comment_links feature db)))"

definition welcome_comment_remove :: "int \<Rightarrow> comment_feature \<Rightarrow> 'a content_db_scheme \<Rightarrow> 'a content_db_scheme" where
  "welcome_comment_remove commentid feature db =
     (let result = map we_userid (filter (comment_notification commentid feature db) (t_welcome db))
      in page_header_info_invalidate_multi (remdups result)
           (delete_welcome (comment_notification commentid feature db) db))"

subsection \<open>Streams, followers, friends\<close>

definition stream_insert :: "int \<Rightarrow> int \<Rightarrow> char \<Rightarrow> 'a social_db_scheme \<Rightarrow> 'a social_db_scheme" where
  "stream_insert now userid status db =
     (let db = delete_welcome (\<lambda>we. we_otherid we = userid \<and> we_type we \<in> {3070, 3075}) db;
          followed = list_followed userid (CHR ''t'') (rating_code GENERAL) False db
      in if status = CHR ''n'' then welcome_insert now userid 0 0 3075 followed db
         else if status = CHR ''l'' then welcome_insert now userid 0 0 3070 followed db
         else db)"

definition welcome_followuser_insert :: "int \<Rightarrow> int \<Rightarrow> int \<Rightarrow> 'a social_db_scheme \<Rightarrow> 'a social_db_scheme" where
  "welcome_followuser_insert now userid otherid db = add_welcome now otherid userid 0 0 3010 db"

definition welcome_followuser_remove :: "int \<Rightarrow> int \<Rightarrow> 'a social_db_scheme \<Rightarrow> 'a social_db_scheme" where
  "welcome_followuser_remove userid otherid db =
     delete_welcome (\<lambda>we. (we_userid we, we_otherid we, we_type we) = (otherid, userid, 3010)) db"

definition frienduserrequest_insert :: "int \<Rightarrow> int \<Rightarrow> int \<Rightarrow> 'a social_db_scheme \<Rightarrow> 'a social_db_scheme" where
  "frienduserrequest_insert now sender recipient db = add_welcome now recipient sender 0 0 3080 db"

definition frienduserrequest_remove :: "int \<Rightarrow> int \<Rightarrow> 'a social_db_scheme \<Rightarrow> 'a social_db_scheme" where
  "frienduserrequest_remove sender recipient db =
     delete_welcome (\<lambda>we. (we_userid we, we_otherid we) = (recipient, sender) \<and> we_type we = 3080) db"

definition frienduseraccept_insert :: "int \<Rightarrow> int \<Rightarrow> int \<Rightarrow> 'a social_db_scheme \<Rightarrow> 'a social_db_scheme" where
  "frienduseraccept_insert now requester acceptor db = add_welcome now requester acceptor 0 0 3085 db"

definition frienduseraccept_remove :: "int \<Rightarrow> int \<Rightarrow> 'a social_db_scheme \<Rightarrow> 'a social_db_scheme" where
  "frienduseraccept_remove requester acceptor db =
     delete_welcome (\<lambda>we. (we_userid we, we_otherid we) = (requester, acceptor) \<and> we_type we = 3085) db"

section \<open>Facts\<close>

subsection \<open>What the statements change\<close>

text \<open>Every operation above changes the table and its sequence only (and, for comments, the header cache).\<close>

definition welcome_only :: "'a social_db_scheme \<Rightarrow> 'a social_db_scheme \<Rightarrow> bool" where
  "welcome_only db db' \<longleftrightarrow> (\<exists>ws n. db' = db\<lparr>t_welcome := ws, welcome_seq := n\<rparr>)"

lemma welcome_only_refl [intro]: "welcome_only db db"
  unfolding welcome_only_def by (intro exI [of _ "t_welcome db"] exI [of _ "welcome_seq db"]) simp

lemma welcome_only_trans [trans]: "welcome_only a b \<Longrightarrow> welcome_only b c \<Longrightarrow> welcome_only a c"
  unfolding welcome_only_def by fastforce

lemma welcome_only_add [intro]: "welcome_only db (add_welcome now u o' r t ty db)"
  unfolding welcome_only_def add_welcome_def by blast

lemma welcome_only_delete [intro]: "welcome_only db (delete_welcome P db)"
proof -
  have "delete_welcome P db = db\<lparr>t_welcome := delete_where P (t_welcome db), welcome_seq := welcome_seq db\<rparr>"
    by (simp add: delete_welcome_def)
  then show ?thesis unfolding welcome_only_def by blast
qed

lemma welcome_only_fold [intro]: "(\<And>x db. welcome_only db (f x db)) \<Longrightarrow> welcome_only db (fold f xs db)"
  by (induction xs arbitrary: db) (auto intro: welcome_only_trans)

lemma welcome_only_insert [intro]: "welcome_only db (welcome_insert now s r t ty ns db)"
  by (auto simp: welcome_insert_def)

lemma welcome_only_frame:
  assumes "welcome_only db db'"
  shows "t_frienduser db' = t_frienduser db" "t_ignoreuser db' = t_ignoreuser db" "t_watchuser db' = t_watchuser db"
    "t_profile db' = t_profile db" "t_login db' = t_login db" "t_permaban db' = t_permaban db"
    "t_suspension db' = t_suspension db" "t_message db' = t_message db" "c_ignoring db' = c_ignoring db"
    "c_all_config db' = c_all_config db" "c_posts_count db' = c_posts_count db" "c_page_header db' = c_page_header db"
  using assms by (auto simp: welcome_only_def)

lemma welcome_only_content:
  assumes "welcome_only (db :: 'a content_db_scheme) db'"
  shows "t_submission db' = t_submission db" "t_character db' = t_character db" "t_journal db' = t_journal db"
    "t_folder db' = t_folder db" "t_collection db' = t_collection db" "t_favorite db' = t_favorite db"
    "t_comments db' = t_comments db" "t_charcomment db' = t_charcomment db" "t_journalcomment db' = t_journalcomment db"
    "t_siteupdatecomment db' = t_siteupdatecomment db"
  using assms by (auto simp: welcome_only_def)

lemma set_delete_welcome: "set (t_welcome (delete_welcome P db)) = {we \<in> set (t_welcome db). \<not> P we}"
  by (simp add: delete_welcome_def set_delete_where)

lemma add_welcome_rows:
  "\<exists>we. t_welcome (add_welcome now u o' r t ty db) = t_welcome db @ [we] \<and> we_userid we = u \<and> we_otherid we = o'
      \<and> we_referid we = r \<and> we_targetid we = t \<and> we_type we = ty \<and> we_unixtime we = now"
  by (simp add: add_welcome_def)

lemma fold_add_welcome_rows:
  "\<exists>new. t_welcome (fold (\<lambda>n. add_welcome now n s r t ty) ns db) = t_welcome db @ new \<and> map we_userid new = ns
      \<and> (\<forall>we \<in> set new. we_otherid we = s \<and> we_referid we = r \<and> we_targetid we = t \<and> we_type we = ty
                          \<and> we_unixtime we = now)"
proof (induction ns arbitrary: db)
  case (Cons n ns)
  obtain we where we: "t_welcome (add_welcome now n s r t ty db) = t_welcome db @ [we]" "we_userid we = n"
    "we_otherid we = s \<and> we_referid we = r \<and> we_targetid we = t \<and> we_type we = ty \<and> we_unixtime we = now"
    using add_welcome_rows by blast
  obtain new where new: "t_welcome (fold (\<lambda>n. add_welcome now n s r t ty) ns (add_welcome now n s r t ty db))
      = t_welcome (add_welcome now n s r t ty db) @ new" "map we_userid new = ns"
    "\<forall>we \<in> set new. we_otherid we = s \<and> we_referid we = r \<and> we_targetid we = t \<and> we_type we = ty \<and> we_unixtime we = now"
    using Cons.IH by blast
  then show ?case
    using we by (intro exI [of _ "we # new"]) auto
qed simp

lemma welcome_insert_rows:
  "\<exists>new. t_welcome (welcome_insert now s r t ty ns db) = t_welcome db @ new \<and> map we_userid new = ns
      \<and> (\<forall>we \<in> set new. we_otherid we = s \<and> we_referid we = r \<and> we_targetid we = t \<and> we_type we = ty
                          \<and> we_unixtime we = now)"
  using fold_add_welcome_rows [of now s r t ty ns db] by (auto simp: welcome_insert_def)

subsection \<open>The thread of a comment\<close>

definition reply_edges :: "comment_links \<Rightarrow> (int \<times> int) set" where
  "reply_edges links = {(p, c). (c, Some p) \<in> set links}"

lemma set_children_of: "c \<in> set (children_of links ids) \<longleftrightarrow> (\<exists>p \<in> set ids. (p, c) \<in> reply_edges links)"
  by (force simp: children_of_def reply_edges_def)

lemma recursive_levels_iff:
  "x \<in> set (recursive_levels n links ids) \<longleftrightarrow> (\<exists>k \<le> n. \<exists>i \<in> set ids. (i, x) \<in> reply_edges links ^^ k)"
proof (induction n arbitrary: ids)
  case 0
  then show ?case by auto
next
  case (Suc n)
  have "(\<exists>k \<le> Suc n. \<exists>i \<in> set ids. (i, x) \<in> reply_edges links ^^ k) \<longleftrightarrow>
      x \<in> set ids \<or> (\<exists>k \<le> n. \<exists>i \<in> set ids. (i, x) \<in> reply_edges links ^^ Suc k)"
    by (metis Suc_le_mono bot_nat_0.extremum old.nat.exhaust relpow_0_E relpow_0_I)
  also have "\<dots> \<longleftrightarrow> x \<in> set ids \<or> (\<exists>k \<le> n. \<exists>c \<in> set (children_of links ids). (c, x) \<in> reply_edges links ^^ k)"
  proof -
    have "(\<exists>i \<in> set ids. (i, x) \<in> reply_edges links ^^ Suc k) \<longleftrightarrow>
        (\<exists>c \<in> set (children_of links ids). (c, x) \<in> reply_edges links ^^ k)" for k
    proof -
      have "(i, x) \<in> reply_edges links ^^ Suc k \<longleftrightarrow> (\<exists>c. (i, c) \<in> reply_edges links \<and> (c, x) \<in> reply_edges links ^^ k)" for i
        by (metis relpow_Suc_D2 relpow_Suc_I2)
      then show ?thesis
        unfolding Bex_def set_children_of by blast
    qed
    then show ?thesis by simp
  qed
  finally show ?case
    using Suc.IH by (cases "ids = []") auto
qed

lemma reply_path_bound:
  assumes "\<forall>(c, p) \<in> set links. \<forall>q. p = Some q \<longrightarrow> q < c" "(a, b) \<in> reply_edges links ^^ k"
  shows "k \<le> card {y \<in> fst ` set links. a < y \<and> y \<le> b} \<and> a \<le> b"
  using assms(2)
proof (induction k arbitrary: b)
  case (Suc k)
  then obtain m where m: "(a, m) \<in> reply_edges links ^^ k" "(m, b) \<in> reply_edges links" by auto
  then have "m < b" "b \<in> fst ` set links"
    using assms(1) by (force simp: reply_edges_def)+
  moreover have IH: "k \<le> card {y \<in> fst ` set links. a < y \<and> y \<le> m}" "a \<le> m"
    using Suc.IH [OF m(1)] by auto
  moreover have "insert b {y \<in> fst ` set links. a < y \<and> y \<le> m} \<subseteq> {y \<in> fst ` set links. a < y \<and> y \<le> b}"
    using calculation by auto
  then have "card (insert b {y \<in> fst ` set links. a < y \<and> y \<le> m}) \<le> card {y \<in> fst ` set links. a < y \<and> y \<le> b}"
    by (intro card_mono) auto
  ultimately show ?case by auto
qed simp

lemma recursive_ids_iff:
  assumes "\<forall>(c, p) \<in> set links. \<forall>q. p = Some q \<longrightarrow> q < c"
  shows "x \<in> set (recursive_ids commentid links) \<longleftrightarrow>
    commentid \<in> fst ` set links \<and> (commentid, x) \<in> (reply_edges links)\<^sup>*"
proof -
  have start: "i \<in> set (map fst (filter (\<lambda>(c, p). c = commentid) links)) \<longleftrightarrow>
      i = commentid \<and> commentid \<in> fst ` set links" for i
    by force
  have "k \<le> length links" if "(commentid, x) \<in> reply_edges links ^^ k" for k
  proof -
    have "k \<le> card {y \<in> fst ` set links. commentid < y \<and> y \<le> x}"
      using reply_path_bound [OF assms that] by blast
    also have "\<dots> \<le> card (fst ` set links)"
      by (intro card_mono) auto
    also have "\<dots> \<le> length links"
      by (metis card_length length_map set_map)
    finally show ?thesis .
  qed
  then show ?thesis
    unfolding recursive_ids_def recursive_levels_iff Bex_def start rtrancl_power by blast
qed

lemma fold_page_header_invalidate:
  "c_page_header (page_header_info_invalidate_multi us db) u = (if u \<in> set us then None else c_page_header db u)"
  by (induction us arbitrary: db) (auto simp: page_header_info_invalidate_multi_def page_header_invalidate_def)

lemma page_header_invalidate_frame:
  "\<exists>h. page_header_info_invalidate_multi us db = db\<lparr>c_page_header := h\<rparr>"
proof (induction us arbitrary: db)
  case Nil
  show ?case by (rule exI [of _ "c_page_header db"]) (simp add: page_header_info_invalidate_multi_def)
next
  case (Cons u us)
  obtain h where "page_header_info_invalidate_multi us (page_header_invalidate u db)
      = (page_header_invalidate u db)\<lparr>c_page_header := h\<rparr>"
    using Cons.IH by blast
  then have "page_header_info_invalidate_multi (u # us) db = db\<lparr>c_page_header := h\<rparr>"
    by (simp add: page_header_info_invalidate_multi_def page_header_invalidate_def)
  then show ?case by blast
qed

text \<open>
  Removing a comment removes the notifications of its whole thread. As replies come after what
  they reply to, the rows deleted are exactly those of the comment's own two types about the comment
  or a reply to it, at any depth; the cached header of exactly the users who lose one is dropped.
\<close>

theorem comment_remove_thread:
  assumes "\<forall>(c, p) \<in> set (comment_links feature db). \<forall>q. p = Some q \<longrightarrow> q < c"
  shows "set (t_welcome (welcome_comment_remove commentid feature db)) =
      {we \<in> set (t_welcome db). \<not> (we_type we \<in> {comment_code feature, comment_code feature + 5}
         \<and> commentid \<in> fst ` set (comment_links feature db)
         \<and> (commentid, we_targetid we) \<in> (reply_edges (comment_links feature db))\<^sup>*)}
    \<and> (\<forall>u. c_page_header (welcome_comment_remove commentid feature db) u =
         (if u \<in> we_userid ` (set (t_welcome db) - set (t_welcome (welcome_comment_remove commentid feature db)))
          then None else c_page_header db u))"
proof -
  have sel: "comment_notification commentid feature db we \<longleftrightarrow>
      we_type we \<in> {comment_code feature, comment_code feature + 5}
         \<and> commentid \<in> fst ` set (comment_links feature db)
         \<and> (commentid, we_targetid we) \<in> (reply_edges (comment_links feature db))\<^sup>*" for we
    using recursive_ids_iff [OF assms] by (simp add: comment_notification_def)
  have rows: "set (t_welcome (welcome_comment_remove commentid feature db)) =
      {we \<in> set (t_welcome db). \<not> comment_notification commentid feature db we}"
  proof -
    have "t_welcome (page_header_info_invalidate_multi us db') = t_welcome db'" for us and db' :: "'a content_db_scheme"
      using page_header_invalidate_frame [of us db'] by auto
    then show ?thesis
      by (simp add: welcome_comment_remove_def Let_def set_delete_welcome)
  qed
  have "c_page_header (welcome_comment_remove commentid feature db) u =
      (if u \<in> we_userid ` {we \<in> set (t_welcome db). comment_notification commentid feature db we}
       then None else c_page_header db u)" for u
    by (simp add: welcome_comment_remove_def Let_def fold_page_header_invalidate delete_welcome_def)
  moreover have "set (t_welcome db) - set (t_welcome (welcome_comment_remove commentid feature db)) =
      {we \<in> set (t_welcome db). comment_notification commentid feature db we}"
    unfolding rows by blast
  ultimately show ?thesis
    unfolding rows sel by simp
qed

theorem comment_remove_thread_witness:
  "let we = (\<lambda>i ty t. \<lparr>we_welcomeid = i, we_userid = 7, we_otherid = 5, we_referid = 1, we_targetid = t,
                       we_unixtime = 100, we_type = ty, we_deleted = None\<rparr>);
       jc = (\<lambda>i p. \<lparr>jc_commentid = i, jc_userid = 5, jc_targetid = 1, jc_parentid = p, jc_content = ''c'',
                     jc_unixtime = 100, jc_settings = [], jc_hidden_by = None\<rparr>);
       db = blank_db\<lparr>t_journalcomment := [jc 1 0, jc 2 1],
                     t_welcome := [we 1 4030 1, we 2 4035 2, we 3 4030 9]\<rparr>
   in we 2 4035 2 \<notin> set (t_welcome (welcome_comment_remove 1 CF_journal db))
     \<and> we 3 4030 9 \<in> set (t_welcome (welcome_comment_remove 1 CF_journal db))"
proof -
  define we where "we i ty t = \<lparr>we_welcomeid = i, we_userid = 7, we_otherid = 5, we_referid = 1, we_targetid = t,
    we_unixtime = 100, we_type = ty, we_deleted = None\<rparr>" for i ty t :: int
  define jc where "jc i p = \<lparr>jc_commentid = i, jc_userid = 5, jc_targetid = 1, jc_parentid = p, jc_content = ''c'',
    jc_unixtime = 100, jc_settings = [], jc_hidden_by = None\<rparr>" for i p :: int
  define db where "db = blank_db\<lparr>t_journalcomment := [jc 1 0, jc 2 1],
    t_welcome := [we 1 4030 1, we 2 4035 2, we 3 4030 9]\<rparr>"
  have links: "comment_links CF_journal db = [(1, Some 0), (2, Some 1)]"
    by (simp add: db_def jc_def)
  have edges: "reply_edges [(1, Some 0), (2, Some 1)] = {(0, 1), (1, 2)}"
    by (auto simp: reply_edges_def)
  have rows: "set (t_welcome (welcome_comment_remove 1 CF_journal db)) =
      {w \<in> set (t_welcome db). \<not> (we_type w \<in> {4030, 4035} \<and> (1, we_targetid w) \<in> {(0, 1), (1, 2)}\<^sup>*)}"
    using comment_remove_thread [of CF_journal db 1] unfolding links edges by simp
  have "(1, 9) \<notin> {(0, 1), (1, 2 :: int)}\<^sup>*"
    by (auto elim: rtranclE)
  moreover have "(1, 2) \<in> {(0, 1), (1, 2 :: int)}\<^sup>*"
    by auto
  ultimately show ?thesis
    unfolding Let_def we_def [symmetric] jc_def [symmetric] db_def [symmetric] rows
    by (auto simp: db_def we_def)
qed

subsection \<open>Who is told of a submission\<close>

lemma submission_insert_notifies:
  assumes "\<not> submission_has_folder_flag submitid (CHR ''n'') db"
  shows "\<exists>new. t_welcome (welcome_submission_insert now userid submitid rating friends_only db) = t_welcome db @ new
    \<and> (\<forall>we \<in> set new. we_otherid we = userid \<and> we_targetid we = submitid \<and> we_type we = 2010)
    \<and> (\<forall>u. u \<in> we_userid ` set new \<longleftrightarrow>
         u \<in> set (list_followed userid (CHR ''s'') rating friends_only db)
         \<and> no_blocked_tag (t_searchmapsubmit db) u submitid rating db)"
proof -
  let ?notify = "map (\<lambda>(wu, config). wu_userid wu)
       (filter (\<lambda>(wu, config). (friends_only \<longrightarrow> accepted_between (wu_userid wu) (wu_otherid wu) db)
                  \<and> config_allows_rating config rating
                  \<and> no_blocked_tag (t_searchmapsubmit db) (wu_userid wu) submitid rating db)
         (watchers userid (CHR ''s'') db))"
  obtain new where new: "t_welcome (welcome_insert now userid 0 submitid 2010 ?notify db) = t_welcome db @ new"
    "map we_userid new = ?notify"
    "\<forall>we \<in> set new. we_otherid we = userid \<and> we_referid we = 0 \<and> we_targetid we = submitid \<and> we_type we = 2010
                      \<and> we_unixtime we = now"
    using welcome_insert_rows by blast
  have "u \<in> set ?notify \<longleftrightarrow> u \<in> set (list_followed userid (CHR ''s'') rating friends_only db)
      \<and> no_blocked_tag (t_searchmapsubmit db) u submitid rating db" for u
    by (auto simp: list_followed_def)
  moreover have "we_userid ` set new = set ?notify"
    using new(2) by (metis set_map)
  ultimately show ?thesis
    using new(1,3) assms
    by (intro exI [of _ new]) (auto simp: welcome_submission_insert_def Let_def)
qed

text \<open>
  Who is told of a new submission. Unless its folder is set not to notify, one notification each
  is added, and none taken away, for exactly the users who watch the author's submissions, whose
  profile allows the rating, who are friends of the author if it is for friends, and who have
  blocked none of its tags at that rating.
\<close>

theorem submission_insert_recipients:
  assumes "\<not> submission_has_folder_flag submitid (CHR ''n'') db"
  shows "\<exists>new. t_welcome (welcome_submission_insert now userid submitid rating friends_only db) = t_welcome db @ new
    \<and> (\<forall>we \<in> set new. we_otherid we = userid \<and> we_targetid we = submitid \<and> we_type we = 2010)
    \<and> (\<forall>u. u \<in> we_userid ` set new \<longleftrightarrow>
         (\<exists>wu \<in> set (t_watchuser db). wu_userid wu = u \<and> wu_otherid wu = userid \<and> has_flag (CHR ''s'') (wu_settings wu)
            \<and> (\<exists>pr. profile_of u db = Some pr \<and> config_allows_rating (pr_config pr) rating))
         \<and> (friends_only \<longrightarrow> accepted_between u userid db)
         \<and> no_blocked_tag (t_searchmapsubmit db) u submitid rating db)"
proof -
  have "u \<in> set (list_followed userid (CHR ''s'') rating friends_only db) \<longleftrightarrow>
      (\<exists>wu \<in> set (t_watchuser db). wu_userid wu = u \<and> wu_otherid wu = userid \<and> has_flag (CHR ''s'') (wu_settings wu)
         \<and> (\<exists>pr. profile_of u db = Some pr \<and> config_allows_rating (pr_config pr) rating))
      \<and> (friends_only \<longrightarrow> accepted_between u userid db)" for u
    unfolding in_list_followed by blast
  then show ?thesis
    using submission_insert_notifies [OF assms, of now userid rating friends_only] by (simp only: conj_assoc)
qed

definition sample_profile :: "int \<Rightarrow> string \<Rightarrow> string \<Rightarrow> profile_row" where
  "sample_profile userid username config =
     \<lparr>pr_userid = userid, pr_username = username, pr_full_name = [], pr_catchphrase = [], pr_artist_type = [],
      pr_created_at = 0, pr_latest_submission_time = 0, pr_profile_text = [], pr_settings = ''ccci'',
      pr_commissions_status = None, pr_trades_status = None, pr_requests_status = None, pr_streaming_later = None,
      pr_stream_url = [], pr_page_views = 0, pr_config = config, pr_show_age = None, pr_can_suggest_tags = True,
      pr_premium = False, pr_favorites_visibility = None, pr_favorites_bar = None, pr_shouts_from = None,
      pr_messages_from = None, pr_profile_guests = None, pr_profile_stats = None, pr_max_rating = None,
      pr_watch_defaults = None, pr_thumbnail_bar = None, pr_jsonb_settings = None,
      pr_allow_collection_requests = None, pr_collection_notifs = None, pr_custom_thumbs = None,
      pr_stream_text = None\<rparr>"

theorem submission_insert_recipients_witness:
  "let db = blank_db\<lparr>t_profile := [sample_profile 7 ''fox'' ''p'', sample_profile 8 ''cat'' []],
       t_watchuser := [\<lparr>wu_userid = 7, wu_otherid = 5, wu_settings = ''s'', wu_created_at = 0\<rparr>,
                       \<lparr>wu_userid = 8, wu_otherid = 5, wu_settings = ''s'', wu_created_at = 0\<rparr>]\<rparr>
   in \<exists>new. t_welcome (welcome_submission_insert 100 5 3 40 False db) = new \<and> we_userid ` set new = {7}"
proof -
  define db where "db = blank_db\<lparr>t_profile := [sample_profile 7 ''fox'' ''p'', sample_profile 8 ''cat'' []],
       t_watchuser := [\<lparr>wu_userid = 7, wu_otherid = 5, wu_settings = ''s'', wu_created_at = 0\<rparr>,
                       \<lparr>wu_userid = 8, wu_otherid = 5, wu_settings = ''s'', wu_created_at = 0\<rparr>]\<rparr>"
  have "\<not> submission_has_folder_flag 3 (CHR ''n'') db"
    by (simp add: db_def blank_db_def submission_has_folder_flag_def)
  from submission_insert_recipients [OF this, of 100 5 40 False]
  obtain new where new: "t_welcome (welcome_submission_insert 100 5 3 40 False db) = t_welcome db @ new"
    and iff: "\<And>u. u \<in> we_userid ` set new \<longleftrightarrow>
         (\<exists>wu \<in> set (t_watchuser db). wu_userid wu = u \<and> wu_otherid wu = 5 \<and> has_flag (CHR ''s'') (wu_settings wu)
            \<and> (\<exists>pr. profile_of u db = Some pr \<and> config_allows_rating (pr_config pr) 40))
         \<and> no_blocked_tag (t_searchmapsubmit db) u 3 40 db"
    by auto
  have "u \<in> we_userid ` set new \<longleftrightarrow> u = 7" for u
    unfolding iff
    by (auto simp: db_def blank_db_def profile_of_def sample_profile_def config_allows_rating_def no_blocked_tag_def
        exists_where_def)
  moreover have "t_welcome db = []"
    by (simp add: db_def blank_db_def)
  ultimately show ?thesis
    using new by (auto simp: Let_def db_def)
qed

subsection \<open>Notifications left behind\<close>

text \<open>
  Commenting on a submission tells its collectors with type 4050, favoriting it with type 3050;
  removing the comment or the favorite deletes neither.
\<close>

lemma collector_comment_notification_stays:
  "we \<in> set (t_welcome db) \<Longrightarrow> we_type we = 4050 \<Longrightarrow>
   we \<in> set (t_welcome (welcome_comment_remove commentid CF_submit db))"
  using page_header_invalidate_frame
    [of "remdups (map we_userid (filter (comment_notification commentid CF_submit db) (t_welcome db)))"
        "delete_welcome (comment_notification commentid CF_submit db) db"]
  by (auto simp: welcome_comment_remove_def Let_def set_delete_welcome comment_notification_def)

lemma collector_favorite_notification_stays:
  "we \<in> set (t_welcome db) \<Longrightarrow> we_type we = 3050 \<Longrightarrow>
   we \<in> set (t_welcome (welcome_favorite_remove userid submitid charid journalid db))"
  by (auto simp: welcome_favorite_remove_def set_delete_welcome)

lemma collection_request_notification_stays:
  "we \<in> set (t_welcome db) \<Longrightarrow> we_type we = 3035 \<Longrightarrow>
   we \<in> set (t_welcome (welcome_submission_remove submitid db))"
  by (auto simp: welcome_submission_remove_def set_delete_welcome submission_notification_def)

end
