(* ===== verification/Social.thy ===== *)
theory Social
  imports Welcome Config_Codes
begin

text \<open>
  Friends, followers and ignored users: \<^verbatim>\<open>weasyl/frienduser.py\<close>, \<^verbatim>\<open>weasyl/followuser.py\<close> and
  \<^verbatim>\<open>weasyl/ignoreuser.py\<close>. A transaction is modelled by its committed attempt (\<open>serializable_retry\<close> is
  in \<open>Define\<close>). The friendship of two users is a small state machine, \<open>relation\<close>, that the rows of
  \<open>frienduser\<close> implement; the unique index on \<open>(least(a, b), a # b)\<close> is what makes it one state per
  unordered pair. User names are compared by code points.
\<close>

subsection \<open>Lists of users by name\<close>

definition username_of :: "int \<Rightarrow> 'a accounts_db_scheme \<Rightarrow> string option" where
  "username_of userid db = map_option pr_username (profile_of userid db)"

definition page_by_name ::
  "nat option \<Rightarrow> int \<Rightarrow> int \<Rightarrow> (int \<times> string) list \<Rightarrow> 'a accounts_db_scheme \<Rightarrow> (int \<times> string) list" where
  "page_by_name limit backid nextid rows db =
     (let bounded = filter (\<lambda>(_, username).
            if backid \<noteq> 0 then (case username_of backid db of None \<Rightarrow> False | Some n \<Rightarrow> username < n)
            else if nextid \<noteq> 0 then (case username_of nextid db of None \<Rightarrow> False | Some n \<Rightarrow> username > n)
            else True) rows;
          ordered = (if backid \<noteq> 0 then rev (sort_key snd bounded) else sort_key snd bounded);
          query = (case limit of None \<Rightarrow> ordered | Some n \<Rightarrow> take n ordered)
      in if backid \<noteq> 0 then rev query else query)"

definition with_usernames :: "int list \<Rightarrow> 'a accounts_db_scheme \<Rightarrow> (int \<times> string) list" where
  "with_usernames userids db = List.map_filter (\<lambda>u. map_option (\<lambda>n. (u, n)) (username_of u db)) userids"

definition select_friends ::
  "int \<Rightarrow> int \<Rightarrow> nat option \<Rightarrow> int \<Rightarrow> int \<Rightarrow> 'a social_db_scheme \<Rightarrow> (int \<times> string) list" where
  "select_friends userid otherid limit backid nextid db =
     (let friends = remdups
            (with_usernames (map fu_otherid (filter (\<lambda>fu. fu_userid fu = otherid \<and> \<not> fu_pending fu) (t_frienduser db))) db
             @ with_usernames (map fu_userid (filter (\<lambda>fu. fu_otherid fu = otherid \<and> \<not> fu_pending fu) (t_frienduser db))) db);
          query = (if userid \<noteq> 0 \<and> userid \<noteq> otherid then filter (\<lambda>(u, _). not_ignored userid u db) friends else friends)
      in page_by_name limit backid nextid query db)"

definition select_requests :: "int \<Rightarrow> 'a social_db_scheme \<Rightarrow> (int \<times> string) list" where
  "select_requests userid db =
     with_usernames (map fu_userid (filter (\<lambda>fu. fu_otherid fu = userid \<and> fu_pending fu) (t_frienduser db))) db"

definition select_followed ::
  "int \<Rightarrow> int \<Rightarrow> nat \<Rightarrow> int \<Rightarrow> int \<Rightarrow> bool \<Rightarrow> 'a social_db_scheme \<Rightarrow> (int \<times> string) list" where
  "select_followed userid otherid limit backid nextid following db =
     (let users = (if following then map wu_otherid (filter (\<lambda>wu. wu_userid wu = otherid) (t_watchuser db))
                   else map wu_userid (filter (\<lambda>wu. wu_otherid wu = otherid) (t_watchuser db)));
          rows = with_usernames users db;
          rows = (if userid \<noteq> 0 then filter (\<lambda>(u, _). not_ignored userid u db) rows else rows)
      in page_by_name (Some limit) backid nextid rows db)"

definition select_following ::
  "int \<Rightarrow> int \<Rightarrow> nat \<Rightarrow> int \<Rightarrow> int \<Rightarrow> 'a social_db_scheme \<Rightarrow> (int \<times> string) list" where
  "select_following userid otherid limit backid nextid db =
     select_followed userid otherid limit backid nextid True db"

definition manage_following :: "int \<Rightarrow> nat \<Rightarrow> int \<Rightarrow> int \<Rightarrow> 'a social_db_scheme \<Rightarrow> (int \<times> string) list" where
  "manage_following userid limit backid nextid db =
     page_by_name (Some limit) backid nextid
       (with_usernames (map wu_otherid (filter (\<lambda>wu. wu_userid wu = userid) (t_watchuser db))) db) db"

definition ignoreuser_select :: "(string \<Rightarrow> string) \<Rightarrow> int \<Rightarrow> 'a social_db_scheme \<Rightarrow> (int \<times> string) list" where
  "ignoreuser_select lower userid db =
     sort_key (\<lambda>(_, username). lower username) (with_usernames (query_list_ignoring userid db) db)"

subsection \<open>Friendship\<close>

definition fu_pair :: "frienduser_row \<Rightarrow> int \<times> int" where
  "fu_pair fu = (min (fu_userid fu) (fu_otherid fu), xor (fu_userid fu) (fu_otherid fu))"

text \<open>
  \<open>INSERT .. ON CONFLICT (least, xor) DO UPDATE .. WHERE .. RETURNING settings\<close>: the row inserted, the
  row updated, or nothing.
\<close>

definition upsert_friend ::
  "int \<Rightarrow> int \<Rightarrow> int \<Rightarrow> 'a social_db_scheme \<Rightarrow> string option \<times> 'a social_db_scheme" where
  "upsert_friend now userid otherid db =
     (let key = (min userid otherid, xor userid otherid) in
      case find (\<lambda>fu. fu_pair fu = key) (t_frienduser db) of
        None \<Rightarrow>
          (Some ''p'', db\<lparr>t_frienduser := t_frienduser db @
             [\<lparr>fu_userid = userid, fu_otherid = otherid, fu_settings = ''p'', fu_created_at = now, fu_accepted_at = None\<rparr>]\<rparr>)
      | Some fu \<Rightarrow>
          (if (fu_userid fu, fu_otherid fu) = (otherid, userid) \<and> fu_settings fu = ''p'' then
             (Some [], db\<lparr>t_frienduser := update_where (\<lambda>fu. fu_pair fu = key)
                (\<lambda>fu. fu\<lparr>fu_settings := [], fu_accepted_at := Some now\<rparr>) (t_frienduser db)\<rparr>)
           else (None, db)))"

definition frienduser_request :: "int \<Rightarrow> int \<Rightarrow> int \<Rightarrow> 'a social_db_scheme \<Rightarrow> unit result \<times> 'a social_db_scheme" where
  "frienduser_request now userid otherid db =
     (if ignoreuser_check otherid userid db then (Inl (WeasylError ''IgnoredYou''), db)
      else if ignoreuser_check userid otherid db then (Inl (WeasylError ''YouIgnored''), db)
      else
        (case upsert_friend now userid otherid db of
           (None, db) \<Rightarrow> (Inr (), db)
         | (Some settings, db) \<Rightarrow>
             if settings = [] then
               (Inr (), frienduseraccept_insert now otherid userid (frienduserrequest_remove otherid userid db))
             else if settings = ''p'' then
               (Inr (), frienduserrequest_insert now userid otherid (frienduserrequest_remove userid otherid db))
             else (Inl AssertionError, db)))"

definition frienduser_remove :: "int \<Rightarrow> int \<Rightarrow> 'a social_db_scheme \<Rightarrow> unit result \<times> 'a social_db_scheme" where
  "frienduser_remove userid otherid db =
     (let removed = filter (fu_between userid otherid) (t_frienduser db);
          db' = db\<lparr>t_frienduser := delete_where (fu_between userid otherid) (t_frienduser db)\<rparr>
      in case removed of
           [] \<Rightarrow> (Inr (), db')
         | [fu] \<Rightarrow>
             (if fu_pending fu then (Inr (), frienduserrequest_remove (fu_userid fu) (fu_otherid fu) db')
              else (Inr (), frienduseraccept_remove (fu_userid fu) (fu_otherid fu) db'))
         | _ \<Rightarrow> (Inl MultipleResultsFound, db))"

definition frienduser_remove_request :: "int \<Rightarrow> int \<Rightarrow> 'a social_db_scheme \<Rightarrow> 'a social_db_scheme" where
  "frienduser_remove_request sender recipient db =
     frienduserrequest_remove sender recipient
       (db\<lparr>t_frienduser := delete_where (\<lambda>fu. (fu_userid fu, fu_otherid fu) = (sender, recipient) \<and> fu_pending fu)
             (t_frienduser db)\<rparr>)"

subsection \<open>Ignoring\<close>

abbreviation iu_key :: "ignoreuser_row \<Rightarrow> int \<times> int" where
  "iu_key iu \<equiv> (iu_userid iu, iu_otherid iu)"

definition ignoreuser_insert ::
  "staff_sets \<Rightarrow> int \<Rightarrow> int list \<Rightarrow> 'a social_db_scheme \<Rightarrow> unit result \<times> 'a social_db_scheme" where
  "ignoreuser_insert st userid ignore db =
     (if ignore = [] then (Inr (), db)
      else if userid \<in> set ignore then (Inl (WeasylError ''cannotIgnoreSelf''), db)
      else if \<exists>i \<in> set ignore. i \<in> MODS st then (Inl (WeasylError ''cannotIgnoreStaff''), db)
      else
        (let db = db\<lparr>t_ignoreuser := fold (\<lambda>i. insert_or_nothing iu_key \<lparr>iu_userid = userid, iu_otherid = i\<rparr>)
                       ignore (t_ignoreuser db)\<rparr>;
             db = db\<lparr>t_frienduser := delete_where (\<lambda>fu. fu_userid fu = userid \<and> fu_otherid fu \<in> set ignore
                       \<or> fu_otherid fu = userid \<and> fu_userid fu \<in> set ignore) (t_frienduser db)\<rparr>;
             db = db\<lparr>t_watchuser := delete_where (\<lambda>wu. wu_userid wu = userid \<and> wu_otherid wu \<in> set ignore)
                       (t_watchuser db)\<rparr>
         in (Inr (), store_ignoring userid None db)))"

definition ignoreuser_remove :: "int \<Rightarrow> int list \<Rightarrow> 'a social_db_scheme \<Rightarrow> 'a social_db_scheme" where
  "ignoreuser_remove userid ignore db =
     (if ignore = [] then db
      else
        (let P = (\<lambda>iu. iu_userid iu = userid \<and> iu_otherid iu \<in> set ignore);
             rowcount = count_where P (t_ignoreuser db);
             db = db\<lparr>t_ignoreuser := delete_where P (t_ignoreuser db)\<rparr>
         in if rowcount \<noteq> 0 then store_ignoring userid None db else db))"

subsection \<open>Following\<close>

abbreviation wu_key :: "watchuser_row \<Rightarrow> int \<times> int" where
  "wu_key wu \<equiv> (wu_userid wu, wu_otherid wu)"

definition followuser_insert :: "int \<Rightarrow> int \<Rightarrow> int \<Rightarrow> 'a social_db_scheme \<Rightarrow> unit result \<times> 'a social_db_scheme" where
  "followuser_insert now userid otherid db =
     (if ignoreuser_check otherid userid db then (Inl (WeasylError ''IgnoredYou''), db)
      else if ignoreuser_check userid otherid db then (Inl (WeasylError ''YouIgnored''), db)
      else
        and_then (get_config userid db) (\<lambda>config db.
          let row = \<lparr>wu_userid = userid, wu_otherid = otherid,
                     wu_settings = to_code WatchSettings (from_code WatchSettings config), wu_created_at = now\<rparr>;
              db = db\<lparr>t_watchuser := insert_or_nothing wu_key row (t_watchuser db)\<rparr>;
              db = welcome_followuser_remove userid otherid db
          in (Inr (), welcome_followuser_insert now userid otherid db)))"

definition followuser_update :: "int \<Rightarrow> int \<Rightarrow> config_values \<Rightarrow> 'a social_db_scheme \<Rightarrow> 'a social_db_scheme" where
  "followuser_update userid otherid watch_settings db =
     db\<lparr>t_watchuser := update_where (\<lambda>wu. wu_key wu = (userid, otherid))
          (\<lambda>wu. wu\<lparr>wu_settings := to_code WatchSettings watch_settings\<rparr>) (t_watchuser db)\<rparr>"

definition followuser_remove :: "int \<Rightarrow> int \<Rightarrow> 'a social_db_scheme \<Rightarrow> 'a social_db_scheme" where
  "followuser_remove userid otherid db =
     welcome_followuser_remove userid otherid
       (db\<lparr>t_watchuser := delete_where (\<lambda>wu. wu_key wu = (userid, otherid)) (t_watchuser db)\<rparr>)"

section \<open>Facts\<close>

interpretation frienduser: unique_table fu_pair t_frienduser "\<lambda>rows db. db\<lparr>t_frienduser := rows\<rparr>"
  by unfold_locales simp_all

interpretation ignoreuser: unique_table iu_key t_ignoreuser "\<lambda>rows db. db\<lparr>t_ignoreuser := rows\<rparr>"
  by unfold_locales simp_all

interpretation watchuser: unique_table wu_key t_watchuser "\<lambda>rows db. db\<lparr>t_watchuser := rows\<rparr>"
  by unfold_locales simp_all

subsection \<open>One row per unordered pair\<close>

lemma xor_other: "max a b = xor (min a b) (xor a (b :: int))"
proof (cases "a \<le> b")
  case True
  have "xor a (xor a b) = b" by (simp flip: xor.assoc)
  with True show ?thesis by (simp add: max_def min_def)
next
  case False
  have "xor b (xor a b) = a" by (metis xor.commute xor.left_commute xor_self_eq xor.right_neutral)
  with False show ?thesis by (simp add: max_def min_def)
qed

definition same_pair :: "int \<Rightarrow> int \<Rightarrow> int \<Rightarrow> int \<Rightarrow> bool" where
  "same_pair a b u v = ((a, b) = (u, v) \<or> (a, b) = (v, u))"

lemma pair_key_iff: "(min a b, xor a b) = (min u v, xor u v) \<longleftrightarrow> same_pair a b u v"
proof
  assume eq: "(min a b, xor a b) = (min u v, xor u v)"
  then have "max a b = max u v" by (metis prod.inject xor_other)
  with eq show "same_pair a b u v"
    by (auto simp: same_pair_def min_def max_def split: if_splits)
next
  assume "same_pair a b u v"
  then show "(min a b, xor a b) = (min u v, xor u v)"
    by (auto simp: same_pair_def min.commute xor.commute)
qed

text \<open>
  The unique index of \<open>frienduser\<close>. Two rows have the same values of \<open>least(userid, otherid)\<close> and
  \<open>userid # otherid\<close> exactly when they join the same two users, in either direction; so the index
  allows one row per pair of users.
\<close>

theorem friend_index_unordered:
  "fu_pair fu = fu_pair fu' \<longleftrightarrow> {fu_userid fu, fu_otherid fu} = {fu_userid fu', fu_otherid fu'}"
  unfolding fu_pair_def pair_key_iff by (auto simp: same_pair_def doubleton_eq_iff)

lemma fu_between_key: "fu_between u v fu \<longleftrightarrow> fu_pair fu = (min u v, xor u v)"
  unfolding fu_pair_def pair_key_iff by (auto simp: same_pair_def fu_between_def)

lemma fu_between_same: "same_pair a b u v \<Longrightarrow> fu_between a b = fu_between u v"
  by (auto simp: same_pair_def fu_between_def)

lemma fu_between_other: "fu_between u v fu \<Longrightarrow> fu_between a b fu \<longleftrightarrow> same_pair a b u v"
  by (auto simp: same_pair_def fu_between_def)

subsection \<open>The relation of two users\<close>

datatype relation = Strangers | Requested int | Friends int

definition pair_relation :: "int \<Rightarrow> int \<Rightarrow> 'a social_db_scheme \<Rightarrow> relation" where
  "pair_relation u v db =
     (case find (fu_between u v) (t_frienduser db) of
        None \<Rightarrow> Strangers
      | Some fu \<Rightarrow> if fu_pending fu then Requested (fu_userid fu) else Friends (fu_userid fu))"

definition friends_ok :: "'a social_db_scheme \<Rightarrow> bool" where
  "friends_ok db \<longleftrightarrow>
     distinct (map fu_pair (t_frienduser db)) \<and> (\<forall>fu \<in> set (t_frienduser db). fu_settings fu \<in> {[], ''p''})"

fun request_spec :: "int \<Rightarrow> int \<Rightarrow> relation \<Rightarrow> relation" where
  "request_spec u v Strangers = Requested u"
| "request_spec u v (Requested s) = (if s = v then Friends v else Requested s)"
| "request_spec u v (Friends s) = Friends s"

lemma pair_relation_same: "same_pair a b u v \<Longrightarrow> pair_relation a b db = pair_relation u v db"
  by (simp add: pair_relation_def fu_between_same)

lemma pair_relation_cong: "t_frienduser db' = t_frienduser db \<Longrightarrow> pair_relation a b db' = pair_relation a b db"
  by (simp add: pair_relation_def)

lemma friends_ok_cong: "t_frienduser db' = t_frienduser db \<Longrightarrow> friends_ok db' = friends_ok db"
  by (simp add: friends_ok_def)

lemma find_append_single:
  "find P (xs @ [x]) = (case find P xs of Some y \<Rightarrow> Some y | None \<Rightarrow> if P x then Some x else None)"
  by (induction xs) auto

lemma find_delete_where_other:
  "(\<And>x. P x \<Longrightarrow> \<not> Q x) \<Longrightarrow> find P (delete_where Q xs) = find P xs"
  by (induction xs) (auto simp: delete_where_def)

lemma find_delete_where_all:
  "(\<And>x. x \<in> set xs \<Longrightarrow> P x \<Longrightarrow> Q x) \<Longrightarrow> find P (delete_where Q xs) = None"
  by (auto simp: find_None_iff set_delete_where)

lemma find_update_where_other:
  "(\<And>x. P x \<Longrightarrow> \<not> Q x) \<Longrightarrow> (\<And>x. Q x \<Longrightarrow> \<not> P (f x)) \<Longrightarrow> find P (update_where Q f xs) = find P xs"
  by (induction xs) (auto simp: update_where_def)

lemma pending_settings: "fu_settings fu \<in> {[], ''p''} \<Longrightarrow> fu_pending fu \<longleftrightarrow> fu_settings fu = ''p''"
  by (auto simp: fu_pending_def)

lemma upsert_friend_key: "(\<lambda>fu. fu_pair fu = (min u v, xor u v)) = fu_between u v"
  by (simp add: fun_eq_iff fu_between_key)

definition upsert_result :: "int \<Rightarrow> relation \<Rightarrow> string option" where
  "upsert_result v r =
     (case r of Strangers \<Rightarrow> Some ''p'' | Requested s \<Rightarrow> if s = v then Some [] else None | Friends _ \<Rightarrow> None)"

lemma upsert_friend_relation:
  assumes "friends_ok db" "upsert_friend now u v db = (r, db')"
  shows "friends_ok db'" "r = upsert_result v (pair_relation u v db)"
    "pair_relation a b db' = (if same_pair a b u v then request_spec u v (pair_relation u v db) else pair_relation a b db)"
    "t_welcome db' = t_welcome db"
proof -
  let ?f = "\<lambda>fu. fu\<lparr>fu_settings := [], fu_accepted_at := Some now\<rparr>"
  let ?new = "\<lparr>fu_userid = u, fu_otherid = v, fu_settings = ''p'', fu_created_at = now, fu_accepted_at = None\<rparr>"
  have same: "pair_relation a b db'' = pair_relation u v db''" if "same_pair a b u v" for db'' :: "'a social_db_scheme"
    by (rule pair_relation_same [OF that])
  have "friends_ok db' \<and> r = upsert_result v (pair_relation u v db) \<and> t_welcome db' = t_welcome db \<and>
    pair_relation u v db' = request_spec u v (pair_relation u v db) \<and>
    (\<not> same_pair a b u v \<longrightarrow> pair_relation a b db' = pair_relation a b db)"
  proof (cases "find (fu_between u v) (t_frienduser db)")
    case None
    then have r: "r = Some ''p''" "db' = db\<lparr>t_frienduser := t_frienduser db @ [?new]\<rparr>"
      using assms(2) by (auto simp: upsert_friend_def upsert_friend_key Let_def)
    have "fu_pair x \<noteq> fu_pair ?new" if "x \<in> set (t_frienduser db)" for x
    proof -
      have "\<not> fu_between u v x" using None that by (auto simp: find_None_iff)
      then show ?thesis by (simp add: fu_between_key fu_pair_def)
    qed
    then have "fu_pair ?new \<notin> fu_pair ` set (t_frienduser db)"
      by (metis imageE)
    then have "friends_ok db'"
      using assms(1) r(2) by (simp add: friends_ok_def)
    moreover have "find (fu_between a b) (t_frienduser db @ [?new]) = find (fu_between a b) (t_frienduser db)"
      if "\<not> same_pair a b u v"
      using that by (auto simp: find_append_single fu_between_def same_pair_def split: option.splits)
    ultimately show ?thesis
      using None r by (auto simp: pair_relation_def find_append_single upsert_result_def fu_between_def fu_pending_def)
  next
    case (Some fu)
    then have fu: "fu \<in> set (t_frienduser db)" "fu_between u v fu" "fu_settings fu \<in> {[], ''p''}"
      using assms(1) by (auto dest: find_SomeD simp: friends_ok_def)
    show ?thesis
    proof (cases "(fu_userid fu, fu_otherid fu) = (v, u) \<and> fu_settings fu = ''p''")
      case True
      then have r: "r = Some []" "db' = db\<lparr>t_frienduser := update_where (fu_between u v) ?f (t_frienduser db)\<rparr>"
        using assms(2) Some by (auto simp: upsert_friend_def upsert_friend_key Let_def)
      have "friends_ok db'"
        using assms(1) r(2) by (auto simp: friends_ok_def map_key_update_where fu_pair_def set_update_where)
      moreover have "find (fu_between u v) (update_where (fu_between u v) ?f (t_frienduser db)) = Some (?f fu)"
      proof -
        have "fu_pair (?f x) = fu_pair x" for x by (simp add: fu_pair_def)
        from find_update_where [of fu_pair ?f "(min u v, xor u v)", OF this] show ?thesis
          unfolding upsert_friend_key by (simp add: Some)
      qed
      moreover have "find (fu_between a b) (update_where (fu_between u v) ?f (t_frienduser db)) =
          find (fu_between a b) (t_frienduser db)" if "\<not> same_pair a b u v"
      proof (rule find_update_where_other)
        show "\<not> fu_between u v x" if "fu_between a b x" for x
          using that fu_between_other [of u v x a b] \<open>\<not> same_pair a b u v\<close> by auto
        show "\<not> fu_between a b (?f x)" if "fu_between u v x" for x
          using that fu_between_other [of u v "?f x" a b] \<open>\<not> same_pair a b u v\<close> by (auto simp: fu_between_def)
      qed
      ultimately show ?thesis
        using True Some r by (auto simp: pair_relation_def upsert_result_def fu_pending_def)
    next
      case False
      then have r: "r = None" "db' = db"
        using assms(2) Some by (auto simp: upsert_friend_def upsert_friend_key Let_def split: if_splits)
      have "fu_userid fu = v \<longrightarrow> fu_otherid fu = u"
        using fu(2) by (auto simp: fu_between_def)
      with False Some r fu(3) assms(1) show ?thesis
        by (auto simp: pair_relation_def upsert_result_def pending_settings [OF fu(3)])
    qed
  qed
  then show "friends_ok db'" "r = upsert_result v (pair_relation u v db)" "t_welcome db' = t_welcome db"
    "pair_relation a b db' = (if same_pair a b u v then request_spec u v (pair_relation u v db) else pair_relation a b db)"
    using same [of db'] by auto
qed

definition ignored_either :: "int \<Rightarrow> int \<Rightarrow> 'a social_db_scheme \<Rightarrow> bool" where
  "ignored_either u v db = (ignoreuser_check v u db \<or> ignoreuser_check u v db)"

definition request_notifications :: "int \<Rightarrow> int \<Rightarrow> relation \<Rightarrow> welcome_row \<Rightarrow> bool" where
  "request_notifications u v r we =
     (case upsert_result v r of
        None \<Rightarrow> False
      | Some [] \<Rightarrow> (we_userid we, we_otherid we, we_type we) = (u, v, 3080)
      | Some _ \<Rightarrow> (we_userid we, we_otherid we, we_type we) = (v, u, 3080))"

lemma request_ok:
  assumes "friends_ok db" "\<not> ignored_either u v db" "frienduser_request now u v db = (res, db')"
  shows "res = Inr ()" "friends_ok db'"
    "pair_relation a b db' = (if same_pair a b u v then request_spec u v (pair_relation u v db) else pair_relation a b db)"
    "case pair_relation u v db of
       Strangers \<Rightarrow> \<exists>we. t_welcome db' = delete_where (request_notifications u v Strangers) (t_welcome db) @ [we]
           \<and> (we_userid we, we_otherid we, we_type we) = (v, u, 3080)
     | Requested s \<Rightarrow> if s = v
         then \<exists>we. t_welcome db' = delete_where (request_notifications u v (Requested v)) (t_welcome db) @ [we]
           \<and> (we_userid we, we_otherid we, we_type we) = (v, u, 3085)
         else t_welcome db' = t_welcome db
     | Friends s \<Rightarrow> t_welcome db' = t_welcome db"
proof -
  obtain r db1 where up: "upsert_friend now u v db = (r, db1)" by fastforce
  note rel = upsert_friend_relation [OF assms(1) up]
  have db': "res = Inr () \<and> t_frienduser db' = t_frienduser db1"
    using assms(2,3) up rel(2)
    by (auto simp: frienduser_request_def ignored_either_def upsert_result_def frienduseraccept_insert_def
        frienduserrequest_insert_def frienduserrequest_remove_def add_welcome_def delete_welcome_def
        split: relation.splits if_splits)
  then show "res = Inr ()" by blast
  show "friends_ok db'"
    using rel(1) db' friends_ok_cong by metis
  show "pair_relation a b db' = (if same_pair a b u v then request_spec u v (pair_relation u v db) else pair_relation a b db)"
    using rel(3) db' pair_relation_cong by metis
  show "case pair_relation u v db of
       Strangers \<Rightarrow> \<exists>we. t_welcome db' = delete_where (request_notifications u v Strangers) (t_welcome db) @ [we]
           \<and> (we_userid we, we_otherid we, we_type we) = (v, u, 3080)
     | Requested s \<Rightarrow> if s = v
         then \<exists>we. t_welcome db' = delete_where (request_notifications u v (Requested v)) (t_welcome db) @ [we]
           \<and> (we_userid we, we_otherid we, we_type we) = (v, u, 3085)
         else t_welcome db' = t_welcome db
     | Friends s \<Rightarrow> t_welcome db' = t_welcome db"
    using assms(2,3) up rel(2,4)
    by (auto simp: frienduser_request_def ignored_either_def upsert_result_def frienduseraccept_insert_def
        frienduserrequest_insert_def frienduserrequest_remove_def add_welcome_def delete_welcome_def
        request_notifications_def [abs_def] conj_assoc
        split: relation.splits if_splits)
qed

text \<open>
  C10: \<open>request\<close> implements the friendship state machine. It is refused, and changes nothing, when one
  of the two ignores the other. Otherwise a first request is recorded, a request in the other
  direction is accepted, a repeated request and a request between friends change nothing; the
  relation of every other pair stays, and so does the uniqueness of rows.
\<close>

theorem frienduser_request_refines:
  assumes "friends_ok db"
  shows "let (res, db') = frienduser_request now u v db in
    friends_ok db'
    \<and> (if ignored_either u v db then \<not> is_ok res \<and> db' = db
       else res = Inr () \<and> pair_relation u v db' = request_spec u v (pair_relation u v db)
         \<and> (\<forall>a b. {a, b} \<noteq> {u, v} \<longrightarrow> pair_relation a b db' = pair_relation a b db))"
proof (cases "ignored_either u v db")
  case True
  then show ?thesis
    using assms by (auto simp: frienduser_request_def ignored_either_def)
next
  case False
  obtain res db' where req: "frienduser_request now u v db = (res, db')" by fastforce
  have "same_pair u v u v" "\<And>a b. {a, b} \<noteq> {u, v} \<Longrightarrow> \<not> same_pair a b u v"
    by (auto simp: same_pair_def)
  with False req show ?thesis
    using request_ok [OF assms False req] by simp
qed

theorem frienduser_request_refines_witness:
  "pair_relation 1 2 (snd (frienduser_request 200 1 2 (snd (frienduser_request 100 2 1 blank_db)))) = Friends 2"
proof -
  have blank: "friends_ok blank_db" "pair_relation 2 1 blank_db = Strangers" "\<And>u v. \<not> ignored_either u v blank_db"
    by (simp_all add: friends_ok_def blank_db_def pair_relation_def ignored_either_def ignoreuser_check_def exists_where_def)
  define db where "db = snd (frienduser_request 100 2 1 blank_db)"
  have one: "friends_ok db" "pair_relation 2 1 db = Requested 2"
    using frienduser_request_refines [OF blank(1), of 100 2 1] blank(2,3)
    by (auto simp: db_def split_def Let_def)
  moreover have "same_pair 1 2 2 1" by (simp add: same_pair_def)
  ultimately have "pair_relation 1 2 db = Requested 2"
    using pair_relation_same by metis
  moreover have "\<not> ignored_either 1 2 db"
    by (simp add: db_def ignored_either_def ignoreuser_check_def frienduser_request_def blank_db_def exists_where_def
        upsert_friend_def frienduserrequest_insert_def frienduserrequest_remove_def add_welcome_def
        delete_welcome_def Let_def)
  ultimately show ?thesis
    using frienduser_request_refines [OF one(1), of 200 1 2]
    by (auto simp: db_def split_def Let_def)
qed

subsection \<open>The state machine\<close>

datatype friend_action = A_request int int | A_remove int int | A_withdraw int int

inductive friend_step :: "friend_action \<Rightarrow> 'a social_db_scheme \<Rightarrow> 'a social_db_scheme \<Rightarrow> bool" where
  step_request: "frienduser_request now u v db = (res, db') \<Longrightarrow> friend_step (A_request u v) db db'"
| step_remove: "frienduser_remove u v db = (res, db') \<Longrightarrow> friend_step (A_remove u v) db db'"
| step_withdraw: "frienduser_remove_request u v db = db' \<Longrightarrow> friend_step (A_withdraw u v) db db'"

inductive_cases friend_stepE: "friend_step act db db'"

inductive friend_trace :: "friend_action list \<Rightarrow> 'a social_db_scheme \<Rightarrow> 'a social_db_scheme \<Rightarrow> bool" where
  trace_Nil: "friend_trace [] db db"
| trace_Cons: "friend_step act db db1 \<Longrightarrow> friend_trace acts db1 db' \<Longrightarrow> friend_trace (act # acts) db db'"

text \<open>The notifications of requests and acceptances agree with the relation they tell of.\<close>

definition friend_notes_ok :: "'a social_db_scheme \<Rightarrow> bool" where
  "friend_notes_ok db \<longleftrightarrow> (\<forall>we \<in> set (t_welcome db).
     (we_type we = 3080 \<longrightarrow> pair_relation (we_userid we) (we_otherid we) db = Requested (we_otherid we)) \<and>
     (we_type we = 3085 \<longrightarrow> pair_relation (we_userid we) (we_otherid we) db = Friends (we_userid we)))"

lemma friend_notes_okI:
  assumes "friend_notes_ok db"
    and "\<And>a b. \<not> same_pair a b u v \<Longrightarrow> pair_relation a b db' = pair_relation a b db"
    and "\<And>we. we \<in> set (t_welcome db') \<Longrightarrow> we_type we \<in> {3080, 3085} \<Longrightarrow> \<not> same_pair (we_userid we) (we_otherid we) u v
      \<Longrightarrow> we \<in> set (t_welcome db)"
    and "\<And>we. we \<in> set (t_welcome db') \<Longrightarrow> same_pair (we_userid we) (we_otherid we) u v \<Longrightarrow>
      (we_type we = 3080 \<longrightarrow> pair_relation u v db' = Requested (we_otherid we)) \<and>
      (we_type we = 3085 \<longrightarrow> pair_relation u v db' = Friends (we_userid we))"
  shows "friend_notes_ok db'"
  unfolding friend_notes_ok_def
proof
  fix we
  assume we: "we \<in> set (t_welcome db')"
  show "(we_type we = 3080 \<longrightarrow> pair_relation (we_userid we) (we_otherid we) db' = Requested (we_otherid we)) \<and>
     (we_type we = 3085 \<longrightarrow> pair_relation (we_userid we) (we_otherid we) db' = Friends (we_userid we))"
  proof (cases "same_pair (we_userid we) (we_otherid we) u v")
    case True
    then show ?thesis using assms(4) [OF we True] pair_relation_same [OF True] by metis
  next
    case False
    show ?thesis
    proof (cases "we_type we \<in> {3080, 3085}")
      case True
      then show ?thesis
        using assms(1) assms(2) [OF False] assms(3) [OF we True False] by (auto simp: friend_notes_ok_def)
    qed auto
  qed
qed

lemma note_relation:
  assumes "friend_notes_ok db" "we \<in> set (t_welcome db)" "same_pair (we_userid we) (we_otherid we) u v"
  shows "we_type we = 3080 \<Longrightarrow> pair_relation u v db = Requested (we_otherid we)"
    "we_type we = 3085 \<Longrightarrow> pair_relation u v db = Friends (we_userid we)"
  using assms(1,2) pair_relation_same [OF assms(3), of db] unfolding friend_notes_ok_def by metis+

lemma request_notes:
  assumes "friends_ok db" "friend_notes_ok db" "frienduser_request now u v db = (res, db')"
  shows "friends_ok db' \<and> friend_notes_ok db'"
proof (cases "ignored_either u v db")
  case True
  then have "db' = db" using assms(3) by (auto simp: frienduser_request_def ignored_either_def split: if_splits)
  with assms(1,2) show ?thesis by simp
next
  case False
  note req = request_ok [OF assms(1) False assms(3)]
  have self: "same_pair u v u v" by (simp add: same_pair_def)
  have rel: "pair_relation u v db' = request_spec u v (pair_relation u v db)"
    using req(3) [of u v] self by simp
  have "friend_notes_ok db'"
  proof (rule friend_notes_okI [OF assms(2), where u = u and v = v])
    show "pair_relation a b db' = pair_relation a b db" if "\<not> same_pair a b u v" for a b
      using req(3) that by simp
  next
    fix we
    assume we: "we \<in> set (t_welcome db')" "\<not> same_pair (we_userid we) (we_otherid we) u v"
    then show "we \<in> set (t_welcome db)"
      using req(4) by (auto simp: set_delete_where same_pair_def split: relation.splits if_splits)
  next
    fix we
    assume we: "we \<in> set (t_welcome db')" "same_pair (we_userid we) (we_otherid we) u v"
    note old = note_relation [OF assms(2) _ we(2)]
    show "(we_type we = 3080 \<longrightarrow> pair_relation u v db' = Requested (we_otherid we)) \<and>
      (we_type we = 3085 \<longrightarrow> pair_relation u v db' = Friends (we_userid we))"
    proof (cases "pair_relation u v db")
      case Strangers
      then obtain x where x: "t_welcome db' = delete_where (request_notifications u v Strangers) (t_welcome db) @ [x]"
        "(we_userid x, we_otherid x, we_type x) = (v, u, 3080)"
        using req(4) by auto
      with Strangers rel old we(1) show ?thesis by (auto simp: set_delete_where)
    next
      case (Requested s)
      show ?thesis
      proof (cases "s = v")
        case True
        with Requested obtain x where
          x: "t_welcome db' = delete_where (request_notifications u v (Requested v)) (t_welcome db) @ [x]"
            "(we_userid x, we_otherid x, we_type x) = (v, u, 3085)"
          using req(4) by auto
        have "we_type we \<noteq> 3080" if "we \<in> set (t_welcome db)" "\<not> request_notifications u v (Requested v) we"
        proof
          assume "we_type we = 3080"
          then have "we_otherid we = v" using old(1) that(1) Requested True by simp
          then have "we_userid we = u" using we(2) by (auto simp: same_pair_def)
          with that(2) \<open>we_type we = 3080\<close> \<open>we_otherid we = v\<close> show False
            by (simp add: request_notifications_def upsert_result_def)
        qed
        with x Requested True rel old we(1) show ?thesis by (auto simp: set_delete_where)
      next
        case False
        with Requested rel req(4) old we(1) show ?thesis by auto
      qed
    next
      case (Friends s)
      with rel req(4) old we(1) show ?thesis by auto
    qed
  qed
  with req(2) show ?thesis by blast
qed

lemma pair_rows:
  assumes "friends_ok db"
  shows "filter (fu_between u v) (t_frienduser db) =
    (case find (fu_between u v) (t_frienduser db) of None \<Rightarrow> [] | Some fu \<Rightarrow> [fu])"
proof -
  have "filter (\<lambda>x. key x = k) xs = (case find (\<lambda>x. key x = k) xs of None \<Rightarrow> [] | Some x \<Rightarrow> [x])"
    if "distinct (map key xs)" for key :: "'b \<Rightarrow> int \<times> int" and k and xs :: "'b list"
    using that
  proof (induction xs)
    case (Cons x xs)
    have "filter (\<lambda>x. key x = k) xs = []" if "key x = k"
    proof -
      have "k \<notin> key ` set xs" using Cons.prems that by simp
      then show ?thesis by (metis (mono_tags, lifting) filter_False image_eqI)
    qed
    with Cons show ?case by auto
  qed simp
  then show ?thesis
    using assms unfolding upsert_friend_key [symmetric] friends_ok_def by blast
qed

lemma friends_ok_delete:
  "friends_ok db \<Longrightarrow> t_frienduser db' = delete_where P (t_frienduser db) \<Longrightarrow> friends_ok db'"
  by (auto simp: friends_ok_def distinct_map_delete_where set_delete_where)

lemma remove_ok:
  assumes "friends_ok db" "frienduser_remove u v db = (res, db')"
  shows "res = Inr ()" "t_frienduser db' = delete_where (fu_between u v) (t_frienduser db)"
    "t_welcome db' = (case pair_relation u v db of
       Strangers \<Rightarrow> t_welcome db
     | Requested s \<Rightarrow> delete_where (\<lambda>we. (we_userid we, we_otherid we) = (if s = u then v else u, s) \<and> we_type we = 3080) (t_welcome db)
     | Friends s \<Rightarrow> delete_where (\<lambda>we. (we_userid we, we_otherid we) = (s, if s = u then v else u) \<and> we_type we = 3085) (t_welcome db))"
proof -
  have "fu_between u v fu" if "find (fu_between u v) (t_frienduser db) = Some fu" for fu
    using that by (auto dest: find_SomeD)
  then show "res = Inr ()" "t_frienduser db' = delete_where (fu_between u v) (t_frienduser db)"
    "t_welcome db' = (case pair_relation u v db of
       Strangers \<Rightarrow> t_welcome db
     | Requested s \<Rightarrow> delete_where (\<lambda>we. (we_userid we, we_otherid we) = (if s = u then v else u, s) \<and> we_type we = 3080) (t_welcome db)
     | Friends s \<Rightarrow> delete_where (\<lambda>we. (we_userid we, we_otherid we) = (s, if s = u then v else u) \<and> we_type we = 3085) (t_welcome db))"
    using assms(2)
    by (auto simp: frienduser_remove_def pair_rows [OF assms(1)] pair_relation_def frienduserrequest_remove_def
        frienduseraccept_remove_def delete_welcome_def Let_def fu_between_def split: option.splits if_splits)
qed

lemma relation_after_delete:
  assumes "t_frienduser db' = delete_where (fu_between u v) (t_frienduser db)"
  shows "pair_relation a b db' = (if same_pair a b u v then Strangers else pair_relation a b db)"
proof -
  have "find (fu_between u v) (delete_where (fu_between u v) (t_frienduser db)) = None"
    by (rule find_delete_where_all)
  moreover have "find (fu_between a b) (delete_where (fu_between u v) (t_frienduser db)) = find (fu_between a b) (t_frienduser db)"
    if "\<not> same_pair a b u v"
    using fu_between_other that by (intro find_delete_where_other) metis
  ultimately show ?thesis
    using assms pair_relation_same [of a b u v db'] by (auto simp: pair_relation_def)
qed

lemma remove_notes:
  assumes "friends_ok db" "friend_notes_ok db" "frienduser_remove u v db = (res, db')"
  shows "friends_ok db' \<and> friend_notes_ok db'"
proof
  note rem = remove_ok [OF assms(1,3)]
  show "friends_ok db'"
    using friends_ok_delete [OF assms(1) rem(2)] .
  show "friend_notes_ok db'"
  proof (rule friend_notes_okI [OF assms(2), where u = u and v = v])
    show "pair_relation a b db' = pair_relation a b db" if "\<not> same_pair a b u v" for a b
      using relation_after_delete [OF rem(2)] that by simp
    show "we \<in> set (t_welcome db)" if "we \<in> set (t_welcome db')" for we
      using that rem(3) by (auto simp: set_delete_where split: relation.splits)
    fix we
    assume we: "we \<in> set (t_welcome db')" "same_pair (we_userid we) (we_otherid we) u v"
    then have "we \<in> set (t_welcome db)"
      using rem(3) by (auto simp: set_delete_where split: relation.splits)
    note old = note_relation [OF assms(2) this we(2)]
    have "we_type we \<noteq> 3080 \<and> we_type we \<noteq> 3085"
    proof (cases "pair_relation u v db")
      case (Requested s)
      have kept: "\<not> ((we_userid we, we_otherid we) = (if s = u then v else u, s) \<and> we_type we = 3080)"
        using we(1) rem(3) Requested by (simp add: set_delete_where)
      have "we_type we \<noteq> 3080"
      proof
        assume "we_type we = 3080"
        then have "we_otherid we = s" using old(1) Requested by simp
        with kept we(2) \<open>we_type we = 3080\<close> show False by (auto simp: same_pair_def split: if_splits)
      qed
      then show ?thesis using old(2) Requested by auto
    next
      case (Friends s)
      have kept: "\<not> ((we_userid we, we_otherid we) = (s, if s = u then v else u) \<and> we_type we = 3085)"
        using we(1) rem(3) Friends by (simp add: set_delete_where)
      have "we_type we \<noteq> 3085"
      proof
        assume "we_type we = 3085"
        then have "we_userid we = s" using old(2) Friends by simp
        with kept we(2) \<open>we_type we = 3085\<close> show False by (auto simp: same_pair_def split: if_splits)
      qed
      then show ?thesis using old(1) Friends by auto
    qed (use old in auto)
    then show "(we_type we = 3080 \<longrightarrow> pair_relation u v db' = Requested (we_otherid we)) \<and>
      (we_type we = 3085 \<longrightarrow> pair_relation u v db' = Friends (we_userid we))"
      by simp
  qed
qed

lemma withdraw_relation:
  assumes "friends_ok db"
  shows "friends_ok (frienduser_remove_request u v db)"
    "pair_relation a b (frienduser_remove_request u v db) =
       (if same_pair a b u v \<and> pair_relation u v db = Requested u then Strangers else pair_relation a b db)"
    "t_welcome (frienduser_remove_request u v db) =
       delete_where (\<lambda>we. (we_userid we, we_otherid we) = (v, u) \<and> we_type we = 3080) (t_welcome db)"
proof -
  let ?P = "\<lambda>fu. (fu_userid fu, fu_otherid fu) = (u, v) \<and> fu_pending fu"
  have rows: "t_frienduser (frienduser_remove_request u v db) = delete_where ?P (t_frienduser db)"
    by (simp add: frienduser_remove_request_def frienduserrequest_remove_def delete_welcome_def)
  then show "friends_ok (frienduser_remove_request u v db)"
    using friends_ok_delete [OF assms] by blast
  show "t_welcome (frienduser_remove_request u v db) =
       delete_where (\<lambda>we. (we_userid we, we_otherid we) = (v, u) \<and> we_type we = 3080) (t_welcome db)"
    by (simp add: frienduser_remove_request_def frienduserrequest_remove_def delete_welcome_def)
  have "pair_relation u v (frienduser_remove_request u v db) =
      (if pair_relation u v db = Requested u then Strangers else pair_relation u v db)"
  proof -
    have filt: "filter (fu_between u v) (delete_where ?P (t_frienduser db)) =
        delete_where ?P (filter (fu_between u v) (t_frienduser db))"
      by (simp add: delete_where_def conj_commute)
    have hd: "find Q xs = (case filter Q xs of [] \<Rightarrow> None | x # _ \<Rightarrow> Some x)" for Q :: "frienduser_row \<Rightarrow> bool" and xs
      by (induction xs) auto
    have "fu_userid fu = u \<longrightarrow> fu_otherid fu = v" if "find (fu_between u v) (t_frienduser db) = Some fu" for fu
      using that by (auto dest!: find_SomeD simp: fu_between_def)
    then show ?thesis
      unfolding pair_relation_def rows hd [of _ "delete_where ?P (t_frienduser db)"] filt pair_rows [OF assms]
      by (auto simp: delete_where_def split: option.splits if_splits)
  qed
  moreover have "pair_relation a b (frienduser_remove_request u v db) = pair_relation a b db" if "\<not> same_pair a b u v"
    unfolding pair_relation_def rows
    by (subst find_delete_where_other) (use that in \<open>auto simp: fu_between_def same_pair_def\<close>)
  ultimately show "pair_relation a b (frienduser_remove_request u v db) =
       (if same_pair a b u v \<and> pair_relation u v db = Requested u then Strangers else pair_relation a b db)"
    using pair_relation_same [of a b u v db] pair_relation_same [of a b u v "frienduser_remove_request u v db"]
    by (cases "same_pair a b u v") simp_all
qed

lemma withdraw_notes:
  assumes "friends_ok db" "friend_notes_ok db"
  shows "friends_ok (frienduser_remove_request u v db) \<and> friend_notes_ok (frienduser_remove_request u v db)"
proof
  let ?db' = "frienduser_remove_request u v db"
  note w = withdraw_relation [OF assms(1), where u = u and v = v]
  show "friends_ok ?db'" by (rule w(1))
  show "friend_notes_ok ?db'"
  proof (rule friend_notes_okI [OF assms(2), where u = u and v = v])
    show "pair_relation a b ?db' = pair_relation a b db" if "\<not> same_pair a b u v" for a b
      using w(2) that by simp
    show "we \<in> set (t_welcome db)" if "we \<in> set (t_welcome ?db')" for we
      using that w(3) by (simp add: set_delete_where)
    fix we
    assume we: "we \<in> set (t_welcome ?db')" "same_pair (we_userid we) (we_otherid we) u v"
    then have "we \<in> set (t_welcome db)" "\<not> ((we_userid we, we_otherid we) = (v, u) \<and> we_type we = 3080)"
      using w(3) by (simp_all add: set_delete_where)
    moreover note old = note_relation [OF assms(2) this(1) we(2)]
    moreover have "same_pair u v u v" by (simp add: same_pair_def)
    moreover have "(we_userid we, we_otherid we) = (v, u)" if "we_otherid we = u"
      using we(2) that by (auto simp: same_pair_def)
    ultimately show "(we_type we = 3080 \<longrightarrow> pair_relation u v ?db' = Requested (we_otherid we)) \<and>
      (we_type we = 3085 \<longrightarrow> pair_relation u v ?db' = Friends (we_userid we))"
      using w(2) [where a = u and b = v] by auto
  qed
qed

lemma friend_step_invariant:
  assumes "friend_step act db db'" "friends_ok db" "friend_notes_ok db"
  shows "friends_ok db' \<and> friend_notes_ok db'"
  using assms(1)
proof (cases rule: friend_step.cases)
  case step_request
  then show ?thesis using request_notes assms(2,3) by blast
next
  case step_remove
  then show ?thesis using remove_notes assms(2,3) by blast
next
  case step_withdraw
  then show ?thesis using withdraw_notes assms(2,3) by blast
qed

text \<open>
  C1: The friendship state machine and its notifications, over all traces of requests, removals and
  withdrawals by any users: there stays at most one row per pair of users with settings \<open>''\<close> or \<open>p\<close>;
  a notification of a request (3080) stands for a request that is still pending, sent by the user
  it names, and a notification of acceptance (3085) for a friendship that its recipient asked for.
\<close>

theorem friend_trace_invariant:
  assumes "friend_trace acts db db'" "friends_ok db \<and> friend_notes_ok db"
  shows "friends_ok db' \<and> friend_notes_ok db'"
  using assms
proof (induction rule: friend_trace.induct)
  case (trace_Cons act db db1 acts db')
  then show ?case using friend_step_invariant [OF trace_Cons.hyps(1)] by blast
qed

theorem friend_trace_invariant_witness:
  "let db' = snd (frienduser_remove 1 2 (snd (frienduser_request 100 2 1 blank_db))) in
   friends_ok db' \<and> friend_notes_ok db'"
proof -
  define db1 where "db1 = snd (frienduser_request 100 2 1 blank_db)"
  have "friend_step (A_request 2 1) blank_db db1"
    unfolding db1_def by (rule step_request [where now = 100]) (rule prod.collapse [symmetric])
  moreover have "friend_step (A_remove 1 2) db1 (snd (frienduser_remove 1 2 db1))"
    by (rule step_remove) (rule prod.collapse [symmetric])
  ultimately have "friend_trace [A_request 2 1, A_remove 1 2] blank_db (snd (frienduser_remove 1 2 db1))"
    by (blast intro: friend_trace.intros)
  moreover have "friends_ok blank_db \<and> friend_notes_ok blank_db"
    by (simp add: friends_ok_def friend_notes_ok_def blank_db_def)
  ultimately show ?thesis
    using friend_trace_invariant by (auto simp: db1_def Let_def)
qed

lemma one_sided_step:
  assumes "friend_step act db db'" "friends_ok db" "u \<noteq> v" "act \<noteq> A_request v u"
    and "pair_relation u v db \<in> {Strangers, Requested u}"
  shows "pair_relation u v db' \<in> {Strangers, Requested u}"
  using assms(1)
proof (cases rule: friend_step.cases)
  case (step_request now a b res)
  show ?thesis
  proof (cases "ignored_either a b db")
    case True
    with step_request assms(5) show ?thesis
      by (auto simp: frienduser_request_def ignored_either_def split: if_splits)
  next
    case False
    note eq = request_ok(3) [OF assms(2) False step_request(2), of u v]
    show ?thesis
    proof (cases "same_pair u v a b")
      case True
      then have "a = u" "b = v"
        using assms(4) step_request(1) by (auto simp: same_pair_def)
      with eq True assms(3,5) show ?thesis by auto
    next
      case False
      with eq assms(5) show ?thesis by simp
    qed
  qed
next
  case (step_remove a b res)
  with assms(5) relation_after_delete [OF remove_ok(2) [OF assms(2) step_remove(2)], of u v] show ?thesis
    by auto
next
  case (step_withdraw a b)
  have "pair_relation u v db' = Strangers \<or> pair_relation u v db' = pair_relation u v db"
    unfolding step_withdraw(2) [symmetric] withdraw_relation(2) [OF assms(2)] by simp
  with assms(5) show ?thesis
    by auto
qed

lemma no_friends_row:
  assumes "friends_ok db" "pair_relation u v db \<in> {Strangers, Requested u}"
  shows "\<forall>fu \<in> set (t_frienduser db). fu_between u v fu \<longrightarrow> fu_pending fu"
proof (intro ballI impI)
  fix fu
  assume "fu \<in> set (t_frienduser db)" "fu_between u v fu"
  then have "fu \<in> set (filter (fu_between u v) (t_frienduser db))" by simp
  then have "find (fu_between u v) (t_frienduser db) = Some fu"
    unfolding pair_rows [OF assms(1)] by (auto split: option.splits)
  then show "fu_pending fu"
    using assms(2) by (auto simp: pair_relation_def split: if_splits)
qed

text \<open>
  C11: Friendship needs both users. However long the trace and whoever else acts, two users who start
  as strangers do not become friends as long as one of them makes no request to the other.
\<close>

theorem friendship_needs_both:
  assumes "friend_trace acts db db'" "friends_ok db" "friend_notes_ok db" "u \<noteq> v"
    and "pair_relation u v db = Strangers" "A_request v u \<notin> set acts"
  shows "\<not> frienduser_check u v db'"
proof -
  have "pair_relation u v db' \<in> {Strangers, Requested u} \<and> friends_ok db'"
    if "friend_trace acts db db'" "friends_ok db \<and> friend_notes_ok db" "A_request v u \<notin> set acts"
      "pair_relation u v db \<in> {Strangers, Requested u}" for acts and db db' :: "'a social_db_scheme"
    using that
  proof (induction rule: friend_trace.induct)
    case (trace_Cons act db db1 acts db')
    have "pair_relation u v db1 \<in> {Strangers, Requested u}"
      by (rule one_sided_step [OF trace_Cons.hyps(1) _ assms(4)]) (use trace_Cons.prems in auto)
    moreover have "friends_ok db1 \<and> friend_notes_ok db1"
      using friend_step_invariant [OF trace_Cons.hyps(1)] trace_Cons.prems(1) by blast
    ultimately show ?case
      using trace_Cons.IH trace_Cons.prems(2) by simp
  qed blast
  then have rel: "pair_relation u v db' \<in> {Strangers, Requested u}" and ok: "friends_ok db'"
    using assms by blast+
  show ?thesis
    using no_friends_row [OF ok rel] assms(4) by (simp add: frienduser_check_def exists_where_iff)
qed

theorem friendship_needs_both_witness:
  "\<not> frienduser_check 1 2 (snd (frienduser_request 101 1 2 (snd (frienduser_request 100 1 2 blank_db))))"
proof -
  define db1 where "db1 = snd (frienduser_request 100 1 2 blank_db)"
  define db2 where "db2 = snd (frienduser_request 101 1 2 db1)"
  have "friend_step (A_request 1 2) blank_db db1"
    unfolding db1_def by (rule step_request [where now = 100]) (rule prod.collapse [symmetric])
  moreover have "friend_step (A_request 1 2) db1 db2"
    unfolding db2_def by (rule step_request [where now = 101]) (rule prod.collapse [symmetric])
  ultimately have "friend_trace [A_request 1 2, A_request 1 2] blank_db db2"
    by (blast intro: friend_trace.intros)
  then have "\<not> frienduser_check 1 2 db2"
    by (rule friendship_needs_both)
      (simp_all add: friends_ok_def friend_notes_ok_def blank_db_def pair_relation_def)
  then show ?thesis by (simp add: db1_def db2_def)
qed

subsection \<open>Ignoring a user\<close>

lemma keys_insert_ignored:
  "iu_key ` set (fold (\<lambda>i. insert_or_nothing iu_key \<lparr>iu_userid = u, iu_otherid = i\<rparr>) ignore rows) =
     iu_key ` set rows \<union> (\<lambda>i. (u, i)) ` set ignore"
  by (induction ignore arbitrary: rows) (auto simp: keys_insert_or_nothing)

lemma other_rows_insert_ignored:
  "u' \<noteq> u \<Longrightarrow>
   filter (\<lambda>iu. iu_userid iu = u') (fold (\<lambda>i. insert_or_nothing iu_key \<lparr>iu_userid = u, iu_otherid = i\<rparr>) ignore rows) =
     filter (\<lambda>iu. iu_userid iu = u') rows"
  by (induction ignore arbitrary: rows) (auto simp: insert_or_nothing_def)

lemma ignoreuser_check_keys:
  "ignoreuser_check u i db \<longleftrightarrow> u \<noteq> 0 \<and> i \<noteq> 0 \<and> (u, i) \<in> iu_key ` set (t_ignoreuser db)"
  by (force simp: ignoreuser_check_def exists_where_iff)

abbreviation ignoring_cache_ok :: "'a social_db_scheme \<Rightarrow> bool" where
  "ignoring_cache_ok db \<equiv> \<forall>u. coherent (peek_ignoring u) (query_list_ignoring u) db"

lemma ignoreuser_insert_coherent:
  assumes "ignoring_cache_ok db"
  shows "ignoring_cache_ok (snd (ignoreuser_insert st u ignore db))"
proof -
  define db' where "db' = db\<lparr>t_ignoreuser := fold (\<lambda>i. insert_or_nothing iu_key \<lparr>iu_userid = u, iu_otherid = i\<rparr>)
                       ignore (t_ignoreuser db),
     t_frienduser := delete_where (\<lambda>fu. fu_userid fu = u \<and> fu_otherid fu \<in> set ignore
                       \<or> fu_otherid fu = u \<and> fu_userid fu \<in> set ignore) (t_frienduser db),
     t_watchuser := delete_where (\<lambda>wu. wu_userid wu = u \<and> wu_otherid wu \<in> set ignore) (t_watchuser db)\<rparr>"
  have "ignoring_cache_ok (store_ignoring u None db')"
    by (rule ignoring.invalidate_keeps [OF assms])
      (simp_all add: db'_def peek_ignoring_def query_list_ignoring_def other_rows_insert_ignored)
  then show ?thesis
    using assms by (auto simp: ignoreuser_insert_def db'_def Let_def)
qed

lemma ignoreuser_remove_coherent:
  assumes "ignoring_cache_ok db"
  shows "ignoring_cache_ok (ignoreuser_remove u ignore db)"
proof -
  let ?P = "\<lambda>iu. iu_userid iu = u \<and> iu_otherid iu \<in> set ignore"
  define db' where "db' = db\<lparr>t_ignoreuser := delete_where ?P (t_ignoreuser db)\<rparr>"
  have "filter (\<lambda>iu. iu_userid iu = u') (delete_where ?P (t_ignoreuser db)) =
      filter (\<lambda>iu. iu_userid iu = u') (t_ignoreuser db)" if "u' \<noteq> u" for u'
    using that by (auto simp: delete_where_def intro!: filter_cong)
  then have "ignoring_cache_ok (store_ignoring u None db')"
    by (intro ignoring.invalidate_keeps [OF assms])
      (simp_all add: db'_def peek_ignoring_def query_list_ignoring_def)
  moreover have "delete_where ?P (t_ignoreuser db) = t_ignoreuser db" if "count_where ?P (t_ignoreuser db) = 0"
    using that by (intro delete_where_idle) (auto simp: count_where_0_iff)
  ultimately show ?thesis
    using assms by (auto simp: ignoreuser_remove_def db'_def Let_def)
qed

text \<open>
  Ignoring. \<open>insert\<close> fails, changing nothing, exactly when the user or a moderator is among the
  users to ignore. Otherwise each of them is ignored, is neither friend nor watched any more, and
  what others ignore stays as it was; the cached list of ignored users stays current throughout,
  also over \<open>remove\<close>.
\<close>

theorem ignoreuser_insert_effect:
  assumes "\<forall>u. coherent (peek_ignoring u) (query_list_ignoring u) db" "ignore \<noteq> []" "userid \<noteq> 0"
  shows "let (res, db') = ignoreuser_insert st userid ignore db in
    (is_ok res \<longleftrightarrow> userid \<notin> set ignore \<and> MODS st \<inter> set ignore = {})
    \<and> (\<not> is_ok res \<longrightarrow> db' = db)
    \<and> (is_ok res \<longrightarrow> (\<forall>i \<in> set ignore. i \<noteq> 0 \<longrightarrow>
          ignoreuser_check userid i db' \<and> \<not> frienduser_check userid i db'
          \<and> (\<forall>wu \<in> set (t_watchuser db'). wu_key wu \<noteq> (userid, i))))
    \<and> (\<forall>u i. u \<noteq> userid \<longrightarrow> ignoreuser_check u i db' = ignoreuser_check u i db)
    \<and> (\<forall>u. fst (cached_list_ignoring u db') = query_list_ignoring u db')
    \<and> (\<forall>u us. fst (cached_list_ignoring u (ignoreuser_remove userid us db')) = query_list_ignoring u (ignoreuser_remove userid us db'))"
proof -
  obtain res db' where ins: "ignoreuser_insert st userid ignore db = (res, db')" by fastforce
  have coh: "ignoring_cache_ok db'"
    using ignoreuser_insert_coherent [OF assms(1), of st userid ignore] ins by simp
  have ok: "is_ok res \<longleftrightarrow> userid \<notin> set ignore \<and> MODS st \<inter> set ignore = {}" "\<not> is_ok res \<longrightarrow> db' = db"
    using ins assms(2) by (auto simp: ignoreuser_insert_def Let_def split: if_splits)
  have keys: "iu_key ` set (t_ignoreuser db') = iu_key ` set (t_ignoreuser db) \<union> (if is_ok res then (\<lambda>i. (userid, i)) ` set ignore else {})"
  proof (cases "is_ok res")
    case True
    then have "t_ignoreuser db' = fold (\<lambda>i. insert_or_nothing iu_key \<lparr>iu_userid = userid, iu_otherid = i\<rparr>)
        ignore (t_ignoreuser db)"
      using ins assms(2) by (auto simp: ignoreuser_insert_def Let_def store_ignoring_def split: if_splits)
    with True show ?thesis by (simp only: keys_insert_ignored if_True)
  next
    case False
    with ok(2) show ?thesis by simp
  qed
  have "\<not> frienduser_check userid i db' \<and> (\<forall>wu \<in> set (t_watchuser db'). wu_key wu \<noteq> (userid, i))"
    if "is_ok res" "i \<in> set ignore" for i
    using that ins assms(2)
    by (auto simp: ignoreuser_insert_def Let_def store_ignoring_def frienduser_check_def fu_between_def
        exists_where_iff set_delete_where split: if_splits)
  moreover have "ignoreuser_check u i db' = ignoreuser_check u i db" if "u \<noteq> userid" for u i
    using that keys by (auto simp: ignoreuser_check_keys)
  moreover have "ignoreuser_check userid i db'" if "is_ok res" "i \<in> set ignore" "i \<noteq> 0" for i
    unfolding ignoreuser_check_keys keys using that assms(3) by simp
  moreover have "fst (cached_list_ignoring u db') = query_list_ignoring u db'" for u
    unfolding cached_list_ignoring_def by (rule ignoring.read_value [OF coh])
  moreover have "fst (cached_list_ignoring u (ignoreuser_remove userid us db')) = query_list_ignoring u (ignoreuser_remove userid us db')" for u us
    unfolding cached_list_ignoring_def by (rule ignoring.read_value [OF ignoreuser_remove_coherent [OF coh]])
  ultimately show ?thesis
    using ok ins by simp
qed

theorem ignoreuser_insert_effect_witness:
  "ignoreuser_check 1 2 (snd (ignoreuser_insert
      \<lparr>DIRECTORS = {}, ADMINS = {}, MODS = {9}, DEVELOPERS = {}, WESLEY = None\<rparr> 1 [2, 3] blank_db))"
  using ignoreuser_insert_effect [of blank_db "[2, 3]" 1 "\<lparr>DIRECTORS = {}, ADMINS = {}, MODS = {9}, DEVELOPERS = {}, WESLEY = None\<rparr>"]
  by (auto simp: coherent_def peek_ignoring_def blank_db_def split_def Let_def)

text \<open>
  What ignoring leaves behind: the row of a pending request goes, its notification stays.
\<close>

lemma ignoring_keeps_request_notification:
  "\<not> friend_notes_ok (snd (ignoreuser_insert \<lparr>DIRECTORS = {}, ADMINS = {}, MODS = {}, DEVELOPERS = {}, WESLEY = None\<rparr>
      1 [2] (snd (frienduser_request 100 2 1 blank_db))))"
  by (simp add: friend_notes_ok_def ignoreuser_insert_def frienduser_request_def blank_db_def ignoreuser_check_def
      exists_where_def upsert_friend_def frienduserrequest_insert_def frienduserrequest_remove_def add_welcome_def
      delete_welcome_def delete_where_def pair_relation_def store_ignoring_def insert_or_nothing_def Let_def)

subsection \<open>Following\<close>

lemma followuser_insert_blocked:
  "ignored_either u v db \<Longrightarrow> \<not> is_ok (fst (followuser_insert now u v db)) \<and> snd (followuser_insert now u v db) = db"
  by (auto simp: followuser_insert_def ignored_either_def)

end
