(* ===== verification/Folders.thy ===== *)
theory Folders
  imports Welcome "HOL-Library.Product_Lexorder" "HOL-Library.Char_ord" "HOL-Library.List_Lexorder"
begin

text \<open>
  Folders of submissions, \<^verbatim>\<open>weasyl/folder.py\<close>. A folder is at the root (\<open>parentid = 0\<close>) or in a folder at
  the root, and is hidden (\<open>h\<close> in its settings) rather than deleted. Titles are compared by code points.
\<close>

definition fd_hidden :: "folder_row \<Rightarrow> bool" where
  "fd_hidden fd = has_flag (CHR ''h'') (fd_settings fd)"

definition folder_TITLE :: nat where
  "folder_TITLE = 100"

definition PREVIEW_COUNT :: nat where
  "PREVIEW_COUNT = 3"

definition folder_check :: "int \<Rightarrow> int \<Rightarrow> string \<Rightarrow> int option \<Rightarrow> bool \<Rightarrow> 'a content_db_scheme \<Rightarrow> bool" where
  "folder_check userid folderid title parentid root db =
     (if folderid = 0 \<and> title = [] then root
      else if folderid \<noteq> 0 then
        (case parentid of
           None \<Rightarrow> exists_where (\<lambda>fd. (fd_folderid fd, fd_userid fd) = (folderid, userid) \<and> \<not> fd_hidden fd) (t_folder db)
         | Some p \<Rightarrow> exists_where (\<lambda>fd. (fd_folderid fd, fd_userid fd, fd_parentid fd) = (folderid, userid, p)
                                        \<and> \<not> fd_hidden fd) (t_folder db))
      else
        (case parentid of
           None \<Rightarrow> exists_where (\<lambda>fd. (fd_userid fd, fd_title fd) = (userid, title) \<and> \<not> fd_hidden fd) (t_folder db)
         | Some p \<Rightarrow> exists_where (\<lambda>fd. (fd_userid fd, fd_parentid fd, fd_title fd) = (userid, p, title)
                                        \<and> \<not> fd_hidden fd) (t_folder db)))"

definition folder_create :: "int \<Rightarrow> string \<Rightarrow> string \<Rightarrow> 'a content_db_scheme \<Rightarrow> 'a content_db_scheme result" where
  "folder_create userid form_title form_parentid db =
     (let title = take folder_TITLE (strip form_title);
          parentid = get_int form_parentid
      in if \<not> folder_check userid parentid [] (Some 0) True db then Inl (WeasylError ''folderRecordMissing'')
         else if strip title = [] then Inl (WeasylError ''titleInvalid'')
         else if folder_check userid 0 title (Some parentid) True db then Inl (WeasylError ''folderRecordExists'')
         else Inr (db\<lparr>t_folder := t_folder db @
                [\<lparr>fd_folderid = folder_seq db, fd_parentid = parentid, fd_userid = userid, fd_title = title, fd_settings = []\<rparr>],
              folder_seq := folder_seq db + 1\<rparr>))"

definition folder_select_info :: "int \<Rightarrow> 'a content_db_scheme \<Rightarrow> (string \<times> string) result" where
  "folder_select_info folderid db =
     (case find (\<lambda>fd. fd_folderid fd = folderid) (t_folder db) of
        None \<Rightarrow> Inl IndexError
      | Some fd \<Rightarrow> Inr (fd_title fd, fd_settings fd))"

text \<open>\<open>''.join({'f', 'm', 'u', 'n'} & set(settings))\<close>: the order of a set of Python is open; the model's is \<open>fmun\<close>.\<close>

definition folder_update_settings :: "int \<Rightarrow> string list \<Rightarrow> 'a content_db_scheme \<Rightarrow> 'a content_db_scheme" where
  "folder_update_settings folderid settings db =
     db\<lparr>t_folder := update_where (\<lambda>fd. fd_folderid fd = folderid)
          (\<lambda>fd. fd\<lparr>fd_settings := filter (\<lambda>c. [c] \<in> set settings) ''fmun''\<rparr>) (t_folder db)\<rparr>"

subsection \<open>Previews\<close>

record folder_preview =
  fp_folderid :: int
  fp_title :: string
  fp_count :: int
  fp_submitid :: int
  fp_subtype :: int

definition preview_visible ::
  "int \<Rightarrow> int \<Rightarrow> bool \<Rightarrow> submission_row \<Rightarrow> 'a tags_db_scheme \<Rightarrow> bool" where
  "preview_visible userid rating sfwmode su db =
     (\<not> su_hidden su
      \<and> (su_rating su \<le> rating \<or> su_userid su = userid \<and> \<not> sfwmode)
      \<and> macro_frienduser userid (su_friends_only su) (su_userid su) db
      \<and> (su_userid su = userid
         \<or> exists_where (\<lambda>tg. tg_submitid tg = su_submitid su
             \<and> \<not> list_ex (\<lambda>tagid. exists_where (\<lambda>bt. bt_userid bt = userid \<and> bt_tagid bt = tagid) (t_blocktag db))
                  (tg_tags tg)) (t_submission_tags db))
      \<and> exists_where (\<lambda>tg. tg_submitid tg = su_submitid su) (t_submission_tags db))"

text \<open>\<open>max(ARRAY[submitid, subtype])\<close> compares arrays lexicographically.\<close>

fun max_pair :: "(int \<times> int) \<Rightarrow> (int \<times> int) list \<Rightarrow> int \<times> int" where
  "max_pair p [] = p"
| "max_pair p (q # qs) = max_pair (max p q) qs"

definition folder_select_preview ::
  "int \<Rightarrow> int \<Rightarrow> int \<Rightarrow> bool \<Rightarrow> 'a tags_db_scheme \<Rightarrow> folder_preview list" where
  "folder_select_preview userid otherid rating sfwmode db =
     (let of_folder = (\<lambda>fd. filter (\<lambda>su. su_folderid su = Some (fd_folderid fd) \<and> preview_visible userid rating sfwmode su db)
                              (t_submission db));
          groups = filter (\<lambda>(_, sus). sus \<noteq> [])
             (map (\<lambda>fd. (fd, map (\<lambda>su. (su_submitid su, su_subtype su)) (of_folder fd)))
               (filter (\<lambda>fd. fd_userid fd = otherid \<and> \<not> has_any_flag ''hu'' (fd_settings fd)) (t_folder db)));
          previews = map (\<lambda>(fd, sus). let most_recent = max_pair (hd sus) (tl sus) in
             \<lparr>fp_folderid = fd_folderid fd, fp_title = fd_title fd, fp_count = int (length sus),
              fp_submitid = fst most_recent, fp_subtype = snd most_recent\<rparr>) groups
      in take PREVIEW_COUNT (rev (sort_key fp_submitid previews)))"

subsection \<open>Listing\<close>

record folder_item =
  fi_folder_id :: int
  fi_title :: string
  fi_subfolders :: "(int \<times> string) list"

definition folder_rows :: "int \<Rightarrow> 'a content_db_scheme \<Rightarrow> folder_row list" where
  "folder_rows userid db =
     sort_key (\<lambda>fd. (fd_parentid fd, fd_title fd))
       (filter (\<lambda>fd. fd_userid fd = userid \<and> \<not> fd_hidden fd) (t_folder db))"

definition folders_by_parentid :: "folder_row list \<Rightarrow> int \<Rightarrow> folder_row list" where
  "folders_by_parentid query parentid = filter (\<lambda>fd. fd_parentid fd = parentid) query"

definition folder_select_list :: "int \<Rightarrow> 'a content_db_scheme \<Rightarrow> folder_item list" where
  "folder_select_list userid db =
     (let query = folder_rows userid db
      in map (\<lambda>fd. \<lparr>fi_folder_id = fd_folderid fd, fi_title = fd_title fd,
                    fi_subfolders = map (\<lambda>c. (fd_folderid c, fd_title c)) (folders_by_parentid query (fd_folderid fd))\<rparr>)
           (folders_by_parentid query 0))"

record flat_item =
  ff_folderid :: int
  ff_title :: string
  ff_subfolder :: bool
  ff_haschildren :: bool

definition folder_select_flat :: "int \<Rightarrow> 'a content_db_scheme \<Rightarrow> flat_item list" where
  "folder_select_flat userid db =
     concat (map (\<lambda>f.
       \<lparr>ff_folderid = fi_folder_id f, ff_title = fi_title f, ff_subfolder = False, ff_haschildren = fi_subfolders f \<noteq> []\<rparr>
       # map (\<lambda>(i, t). \<lparr>ff_folderid = i, ff_title = fi_title f @ '' / '' @ t, ff_subfolder = True, ff_haschildren = False\<rparr>)
           (fi_subfolders f)) (folder_select_list userid db))"

subsection \<open>Changing\<close>

definition folder_rename :: "int \<Rightarrow> string \<Rightarrow> string \<Rightarrow> 'a content_db_scheme \<Rightarrow> 'a content_db_scheme result" where
  "folder_rename userid form_title form_folderid db =
     (let title = take folder_TITLE (strip form_title);
          folderid = get_int form_folderid;
          query = map_option fd_userid (find (\<lambda>fd. fd_folderid fd = folderid) (t_folder db))
      in case query of
           None \<Rightarrow> Inl (WeasylError ''folderRecordMissing'')
         | Some owner \<Rightarrow>
             if owner = 0 then Inl (WeasylError ''folderRecordMissing'')
             else if title = [] then Inl (WeasylError ''titleInvalid'')
             else if userid \<noteq> owner then Inl (WeasylError ''InsufficientPermissions'')
             else Inr (db\<lparr>t_folder := update_where (\<lambda>fd. fd_folderid fd = folderid)
                    (\<lambda>fd. fd\<lparr>fd_title := title\<rparr>) (t_folder db)\<rparr>))"

definition folder_move_parent :: "int \<Rightarrow> folder_row \<Rightarrow> int \<Rightarrow> 'a content_db_scheme \<Rightarrow> unit result" where
  "folder_move_parent userid fd parentid db =
     (if parentid > 0 then
        (case find (\<lambda>p. fd_folderid p = parentid) (t_folder db) of
           None \<Rightarrow> Inl (WeasylError ''folderRecordMissing'')
         | Some p \<Rightarrow>
             if fd_parentid p > 0 then Inl (WeasylError ''parentidInvalid'')
             else if userid \<noteq> fd_userid p then Inl (WeasylError ''InsufficientPermissions'')
             else if fd_title fd = fd_title p then Inl (WeasylError ''folderRecordExists'')
             else Inr ())
      else Inr ())"

definition folder_move :: "int \<Rightarrow> string \<Rightarrow> string \<Rightarrow> 'a content_db_scheme \<Rightarrow> 'a content_db_scheme result" where
  "folder_move userid form_folderid form_parentid db =
     (let folderid = get_int form_folderid;
          parentid = get_int form_parentid
      in case find (\<lambda>fd. fd_folderid fd = folderid) (t_folder db) of
           None \<Rightarrow> Inl (WeasylError ''folderRecordMissing'')
         | Some fd \<Rightarrow>
             if folderid = parentid then Inl (WeasylError ''parentidInvalid'')
             else if userid \<noteq> fd_userid fd then Inl (WeasylError ''InsufficientPermissions'')
             else if folderid \<noteq> 0 \<and> exists_where (\<lambda>c. fd_parentid c = folderid \<and> \<not> fd_hidden c) (t_folder db)
             then Inl (WeasylError ''parentidInvalid'')
             else
               (case folder_move_parent userid fd parentid db of
                  Inl e \<Rightarrow> Inl e
                | Inr _ \<Rightarrow>
                    if exists_where (\<lambda>c. fd_parentid c = parentid \<and> fd_userid c = userid \<and> fd_title c = fd_title fd) (t_folder db)
                    then Inl (WeasylError ''folderRecordExists'')
                    else Inr (db\<lparr>t_folder := update_where (\<lambda>fd. fd_folderid fd = folderid)
                           (\<lambda>fd. fd\<lparr>fd_parentid := parentid\<rparr>) (t_folder db)\<rparr>)))"

definition folder_remove :: "int \<Rightarrow> int \<Rightarrow> 'a content_db_scheme \<Rightarrow> 'a content_db_scheme result" where
  "folder_remove userid folderid db =
     (case map_option fd_userid (find (\<lambda>fd. fd_folderid fd = folderid) (t_folder db)) of
        None \<Rightarrow> Inl (WeasylError ''folderRecordMissing'')
      | Some owner \<Rightarrow>
          if owner = 0 then Inl (WeasylError ''folderRecordMissing'')
          else if userid \<noteq> owner then Inl (WeasylError ''InsufficientPermissions'')
          else
            (let db = db\<lparr>t_folder := update_where
                        (\<lambda>fd. (fd_folderid fd = folderid \<or> fd_parentid fd = folderid) \<and> \<not> fd_hidden fd)
                        (\<lambda>fd. fd\<lparr>fd_settings := fd_settings fd @ ''h''\<rparr>) (t_folder db)\<rparr>
             in Inr (db\<lparr>t_submission := update_where
                   (\<lambda>su. exists_where (\<lambda>fd. su_folderid su = Some (fd_folderid fd)
                            \<and> (fd_folderid fd = folderid \<or> fd_parentid fd = folderid)) (t_folder db))
                   (\<lambda>su. su\<lparr>su_folderid := None\<rparr>) (t_submission db)\<rparr>)))"

section \<open>Facts\<close>

subsection \<open>Nesting\<close>

text \<open>The steps as the handlers of \<^verbatim>\<open>weasyl/controllers/settings.py\<close> take them: settings only of a folder that \<open>check\<close> finds.\<close>

inductive folder_step :: "'a content_db_scheme \<Rightarrow> 'a content_db_scheme \<Rightarrow> bool" where
  fs_create: "folder_create u title parentid db = Inr db' \<Longrightarrow> folder_step db db'"
| fs_rename: "folder_rename u title folderid db = Inr db' \<Longrightarrow> folder_step db db'"
| fs_move: "folder_move u folderid parentid db = Inr db' \<Longrightarrow> folder_step db db'"
| fs_remove: "folder_remove u i db = Inr db' \<Longrightarrow> folder_step db db'"
| fs_settings: "folder_check u i [] None True db \<Longrightarrow> i \<noteq> 0 \<Longrightarrow> folder_step db (folder_update_settings i settings db)"

definition folder_ids_ok :: "'a content_db_scheme \<Rightarrow> bool" where
  "folder_ids_ok db \<longleftrightarrow>
     distinct (map fd_folderid (t_folder db)) \<and>
     (\<forall>fd \<in> set (t_folder db). 0 < fd_folderid fd \<and> fd_folderid fd < folder_seq db \<and> 0 \<le> fd_parentid fd) \<and>
     0 < folder_seq db"

definition folder_parent :: "folder_row \<Rightarrow> folder_row \<Rightarrow> bool" where
  "folder_parent fd p = (fd_folderid p = fd_parentid fd \<and> fd_parentid p = 0 \<and> fd_userid p = fd_userid fd)"

definition folders_nested :: "'a content_db_scheme \<Rightarrow> bool" where
  "folders_nested db \<longleftrightarrow> folder_ids_ok db \<and>
     (\<forall>fd \<in> set (t_folder db). \<not> fd_hidden fd \<longrightarrow> fd_parentid fd \<noteq> 0 \<longrightarrow> (\<exists>p \<in> set (t_folder db). folder_parent fd p))"

interpretation folder: unique_table fd_folderid t_folder "\<lambda>rows db. db\<lparr>t_folder := rows\<rparr>"
  by unfold_locales simp_all

lemma int_of_digits_nonneg: "list_all is_digit s \<Longrightarrow> 0 \<le> int_of_digits s"
  by (induction s rule: rev_induct) (auto simp: is_digit_def)

lemma get_int_nonneg [simp]: "0 \<le> get_int s"
  by (simp add: get_int_def Let_def int_of_digits_nonneg)

lemma fd_hidden_update [simp]:
  "fd_hidden (fd\<lparr>fd_title := t\<rparr>) = fd_hidden fd" "fd_hidden (fd\<lparr>fd_parentid := p\<rparr>) = fd_hidden fd"
  "fd_hidden (fd\<lparr>fd_settings := s\<rparr>) = has_flag (CHR ''h'') s"
  by (simp_all add: fd_hidden_def)

text \<open>An update that keeps ids, parents and owners, and shows no hidden folder, keeps the nesting.\<close>

lemma nested_update:
  assumes "folders_nested db"
    and "\<And>fd. fd_folderid (f fd) = fd_folderid fd \<and> fd_parentid (f fd) = fd_parentid fd \<and> fd_userid (f fd) = fd_userid fd"
    and "\<And>fd. fd \<in> set (t_folder db) \<Longrightarrow> P fd \<Longrightarrow> fd_hidden fd \<Longrightarrow> fd_hidden (f fd)"
    and "t_folder db' = update_where P f (t_folder db)" "folder_seq db' = folder_seq db"
  shows "folders_nested db'"
proof -
  have rows: "fd' \<in> set (t_folder db') \<longleftrightarrow> (\<exists>fd \<in> set (t_folder db). fd' = (if P fd then f fd else fd))" for fd'
    unfolding assms(4) by (auto simp: set_update_where)
  have ids: "folder_ids_ok db'"
    using assms(1,2) unfolding folders_nested_def folder_ids_ok_def assms(5) assms(4)
    by (auto simp: map_key_update_where set_update_where)
  moreover have "\<exists>p \<in> set (t_folder db'). folder_parent fd' p"
    if fd': "fd' \<in> set (t_folder db')" "\<not> fd_hidden fd'" "fd_parentid fd' \<noteq> 0" for fd'
  proof -
    obtain fd where fd: "fd \<in> set (t_folder db)" "fd' = (if P fd then f fd else fd)"
      using fd'(1) rows by blast
    then have "\<not> fd_hidden fd" "fd_parentid fd \<noteq> 0"
      using fd' assms(2,3) by (auto split: if_splits)
    then obtain p where p: "p \<in> set (t_folder db)" "folder_parent fd p"
      using assms(1) fd(1) unfolding folders_nested_def by blast
    then have "folder_parent fd' (if P p then f p else p)"
      using fd(2) assms(2) by (auto simp: folder_parent_def)
    with p(1) rows show ?thesis by blast
  qed
  ultimately show ?thesis
    unfolding folders_nested_def by blast
qed

lemma nested_create:
  assumes "folders_nested db" "folder_create u title parentid db = Inr db'"
  shows "folders_nested db'"
proof -
  let ?p = "get_int parentid"
  obtain t where db': "db' = db\<lparr>t_folder := t_folder db @
        [\<lparr>fd_folderid = folder_seq db, fd_parentid = ?p, fd_userid = u, fd_title = t, fd_settings = []\<rparr>],
      folder_seq := folder_seq db + 1\<rparr>" and check: "folder_check u ?p [] (Some 0) True db"
    using assms(2) by (auto simp: folder_create_def Let_def split: if_splits)
  have ids: "folder_ids_ok db'"
    using assms(1) unfolding db' folders_nested_def folder_ids_ok_def by force
  moreover have "?p \<noteq> 0 \<Longrightarrow> \<exists>p \<in> set (t_folder db). fd_folderid p = ?p \<and> fd_parentid p = 0 \<and> fd_userid p = u"
    using check by (auto simp: folder_check_def exists_where_iff)
  ultimately show ?thesis
    using assms(1) unfolding folders_nested_def db' by (auto simp: folder_parent_def)
qed

lemma nested_move:
  assumes "folders_nested db" "folder_move u folderid parentid db = Inr db'"
  shows "folders_nested db'"
proof -
  let ?i = "get_int folderid" and ?p = "get_int parentid"
  let ?f = "\<lambda>fd. fd\<lparr>fd_parentid := ?p\<rparr>"
  obtain fd where fd: "find (\<lambda>fd. fd_folderid fd = ?i) (t_folder db) = Some fd" "?i \<noteq> ?p" "fd_userid fd = u"
    "?i \<noteq> 0 \<Longrightarrow> \<forall>c \<in> set (t_folder db). fd_parentid c = ?i \<longrightarrow> fd_hidden c"
    "folder_move_parent u fd ?p db = Inr ()"
    and db': "db' = db\<lparr>t_folder := update_where (\<lambda>fd. fd_folderid fd = ?i) ?f (t_folder db)\<rparr>"
    using assms(2) by (auto simp: folder_move_def Let_def exists_where_iff split: option.splits sum.splits if_splits)
  have in_db: "fd \<in> set (t_folder db)" "fd_folderid fd = ?i"
    using fd(1) by (auto dest: find_SomeD)
  have ids: "folder_ids_ok db" using assms(1) by (simp add: folders_nested_def)
  then have i: "0 < ?i" using in_db by (auto simp: folder_ids_ok_def)
  have uniq: "x = fd" if "x \<in> set (t_folder db)" "fd_folderid x = ?i" for x
    using that in_db ids by (auto simp: folder_ids_ok_def intro: folder.row_of_key)
  have rows: "x' \<in> set (t_folder db') \<longleftrightarrow> (\<exists>x \<in> set (t_folder db). x' = (if fd_folderid x = ?i then ?f x else x))" for x'
    by (auto simp: db' set_update_where)
  have "folder_ids_ok db'"
    using ids unfolding folder_ids_ok_def db' by (auto simp: map_key_update_where set_update_where)
  moreover have "\<exists>p \<in> set (t_folder db'). folder_parent x' p"
    if x': "x' \<in> set (t_folder db')" "\<not> fd_hidden x'" "fd_parentid x' \<noteq> 0" for x'
  proof -
    obtain x where x: "x \<in> set (t_folder db)" "x' = (if fd_folderid x = ?i then ?f x else x)"
      using x'(1) rows by blast
    show ?thesis
    proof (cases "fd_folderid x = ?i")
      case True
      then have "x' = ?f fd" using x uniq by auto
      moreover from this have "?p > 0" using x'(3) by (simp add: less_le)
      ultimately obtain p where p: "find (\<lambda>p. fd_folderid p = ?p) (t_folder db) = Some p" "\<not> fd_parentid p > 0" "fd_userid p = u"
        using fd(5) by (auto simp: folder_move_parent_def split: option.splits if_splits)
      then have "p \<in> set (t_folder db)" "fd_folderid p = ?p"
        by (auto dest: find_SomeD)
      moreover from this have "fd_parentid p = 0"
        using p(2) ids by (force simp: folder_ids_ok_def)
      ultimately have "folder_parent x' p" "p = (if fd_folderid p = ?i then ?f p else p)" "p \<in> set (t_folder db)"
        using fd(2,3) p(3) \<open>x' = ?f fd\<close> by (auto simp: folder_parent_def)
      then show ?thesis using rows by blast
    next
      case False
      then have "x' = x" "\<not> fd_hidden x" "fd_parentid x \<noteq> 0" using x x'(2,3) by auto
      then obtain p where p: "p \<in> set (t_folder db)" "folder_parent x p"
        using assms(1) x(1) unfolding folders_nested_def by blast
      moreover have "fd_folderid p \<noteq> ?i"
        using fd(4) i p(2) x(1) \<open>\<not> fd_hidden x\<close> by (auto simp: folder_parent_def)
      ultimately show ?thesis
        using rows \<open>x' = x\<close> by force
    qed
  qed
  ultimately show ?thesis
    unfolding folders_nested_def by blast
qed

lemma nested_step:
  assumes "folder_step db db'" "folders_nested db"
  shows "folders_nested db'"
  using assms(1)
proof (cases rule: folder_step.cases)
  case (fs_create u title parentid)
  with assms(2) show ?thesis by (rule_tac nested_create)
next
  case (fs_rename u title folderid)
  then obtain t i where "db' = db\<lparr>t_folder := update_where (\<lambda>fd. fd_folderid fd = i) (\<lambda>fd. fd\<lparr>fd_title := t\<rparr>) (t_folder db)\<rparr>"
    by (auto simp: folder_rename_def Let_def split: option.splits if_splits)
  then show ?thesis
    by (intro nested_update [OF assms(2)]) auto
next
  case (fs_move u folderid parentid)
  with assms(2) show ?thesis by (rule_tac nested_move)
next
  case (fs_remove u i)
  then have "t_folder db' = update_where (\<lambda>fd. (fd_folderid fd = i \<or> fd_parentid fd = i) \<and> \<not> fd_hidden fd)
      (\<lambda>fd. fd\<lparr>fd_settings := fd_settings fd @ ''h''\<rparr>) (t_folder db)" "folder_seq db' = folder_seq db"
    by (auto simp: folder_remove_def Let_def split: option.splits if_splits)
  then show ?thesis
    by (intro nested_update [OF assms(2)]) auto
next
  case (fs_settings u i settings)
  have "\<not> fd_hidden fd" if "fd \<in> set (t_folder db)" "fd_folderid fd = i" for fd
  proof -
    obtain x where "x \<in> set (t_folder db)" "fd_folderid x = i" "\<not> fd_hidden x"
      using fs_settings(2,3) by (auto simp: folder_check_def exists_where_iff)
    then show ?thesis
      using that assms(2) folder.row_of_key [of db x fd] by (auto simp: folders_nested_def folder_ids_ok_def)
  qed
  then show ?thesis
    unfolding fs_settings(1) by (intro nested_update [OF assms(2)]) (auto simp: folder_update_settings_def)
qed

text \<open>
  C15: Folders nest one level. Starting from no folders, whatever creations, renames, moves, removals
  and changes of settings by any users succeed, every folder that is not hidden is at the root or
  in a folder at the root of the same user, and folder ids stay unique.
\<close>

theorem folders_stay_nested:
  assumes "folder_step\<^sup>*\<^sup>* db db'" "folders_nested db"
  shows "folders_nested db'"
  using assms by (induction rule: rtranclp_induct) (blast intro: nested_step)+

theorem folders_stay_nested_witness:
  "case folder_create 7 ''sketches'' ''0'' blank_db of
     Inl e \<Rightarrow> False
   | Inr db1 \<Rightarrow> (case folder_create 7 ''old'' ''1'' db1 of Inl e \<Rightarrow> False | Inr db2 \<Rightarrow> folders_nested db2)"
proof -
  define db1 where "db1 = blank_db\<lparr>t_folder := [\<lparr>fd_folderid = 1, fd_parentid = 0, fd_userid = 7,
      fd_title = ''sketches'', fd_settings = []\<rparr>], folder_seq := 2\<rparr>"
  define db2 where "db2 = db1\<lparr>t_folder := t_folder db1 @ [\<lparr>fd_folderid = 2, fd_parentid = 1, fd_userid = 7,
      fd_title = ''old'', fd_settings = []\<rparr>], folder_seq := 3\<rparr>"
  have ints: "get_int ''0'' = 0" "get_int ''1'' = 1"
    by code_simp+
  have titles: "take folder_TITLE ''sketches'' = ''sketches''" "strip ''sketches'' = ''sketches''"
    "take folder_TITLE ''old'' = ''old''" "strip ''old'' = ''old''"
    by code_simp+
  have c1: "folder_create 7 ''sketches'' ''0'' blank_db = Inr db1"
    unfolding folder_create_def Let_def ints titles
    by (simp add: folder_check_def exists_where_def blank_db_def db1_def)
  have c2: "folder_create 7 ''old'' ''1'' db1 = Inr db2"
    unfolding folder_create_def Let_def ints titles
    by (simp add: folder_check_def exists_where_def blank_db_def db1_def db2_def fd_hidden_def)
  have "folder_step\<^sup>*\<^sup>* blank_db db2"
    using fs_create [OF c1] fs_create [OF c2] by (meson converse_rtranclp_into_rtranclp rtranclp.rtrancl_refl)
  moreover have "folders_nested (blank_db :: tags_db)"
    by (simp add: folders_nested_def folder_ids_ok_def blank_db_def)
  ultimately have "folders_nested db2" by (rule folders_stay_nested)
  with c1 c2 show ?thesis by simp
qed

subsection \<open>Listing\<close>

definition visible_folders :: "int \<Rightarrow> 'a content_db_scheme \<Rightarrow> folder_row list" where
  "visible_folders userid db = filter (\<lambda>fd. fd_userid fd = userid \<and> \<not> fd_hidden fd) (t_folder db)"

lemma set_folder_rows: "set (folder_rows userid db) = set (visible_folders userid db)"
  by (simp add: folder_rows_def visible_folders_def)

lemma distinct_folder_rows:
  "distinct (map fd_folderid (t_folder db)) \<Longrightarrow> distinct (map fd_folderid (folder_rows userid db))"
  by (simp add: folder_rows_def distinct_map inj_on_def)

lemma flat_ids:
  "map ff_folderid (folder_select_flat userid db) =
     concat (map (\<lambda>fd. fd_folderid fd # map fd_folderid (folders_by_parentid (folder_rows userid db) (fd_folderid fd)))
       (folders_by_parentid (folder_rows userid db) 0))"
  by (simp add: folder_select_flat_def folder_select_list_def Let_def map_concat comp_def split_def)

lemma in_by_parentid: "fd \<in> set (folders_by_parentid query p) \<longleftrightarrow> fd \<in> set query \<and> fd_parentid fd = p"
  by (auto simp: folders_by_parentid_def)

lemma distinct_flat:
  assumes "distinct (map fd_folderid query)" "\<forall>fd \<in> set query. 0 < fd_folderid fd" "distinct ps" "set ps \<subseteq> set query"
    "\<forall>p \<in> set ps. fd_parentid p = 0"
  shows "distinct (concat (map (\<lambda>fd. fd_folderid fd # map fd_folderid (folders_by_parentid query (fd_folderid fd))) ps))"
  using assms(3-)
proof (induction ps)
  case (Cons p ps)
  have inj: "x = y" if "x \<in> set query" "y \<in> set query" "fd_folderid x = fd_folderid y" for x y
    using assms(1) that by (rule distinct_map_inj)
  have p: "p \<in> set query" "fd_parentid p = 0" "p \<notin> set ps" using Cons.prems by auto
  have children: "distinct (map fd_folderid (folders_by_parentid query (fd_folderid p)))"
    using assms(1) by (simp add: folders_by_parentid_def distinct_map_filter)
  have own: "fd_folderid p \<notin> fd_folderid ` set (folders_by_parentid query (fd_folderid p))"
    using inj p assms(2) by (force simp: in_by_parentid)
  have other: "x \<notin> set (concat (map (\<lambda>fd. fd_folderid fd # map fd_folderid (folders_by_parentid query (fd_folderid fd))) ps))"
    if x: "x = fd_folderid p \<or> x \<in> fd_folderid ` set (folders_by_parentid query (fd_folderid p))" for x
  proof
    assume "x \<in> set (concat (map (\<lambda>fd. fd_folderid fd # map fd_folderid (folders_by_parentid query (fd_folderid fd))) ps))"
    then obtain q where q: "q \<in> set ps" "x = fd_folderid q \<or> x \<in> fd_folderid ` set (folders_by_parentid query (fd_folderid q))"
      by auto
    then have "q \<in> set query" "fd_parentid q = 0" "q \<noteq> p" using Cons.prems p by auto
    obtain y where y: "y \<in> set query" "x = fd_folderid y" "y = p \<or> fd_parentid y = fd_folderid p"
      using x p by (auto simp: in_by_parentid)
    obtain z where z: "z \<in> set query" "x = fd_folderid z" "z = q \<or> fd_parentid z = fd_folderid q"
      using q \<open>q \<in> set query\<close> by (auto simp: in_by_parentid)
    have "y = z" using inj y z by auto
    have "fd_folderid p \<noteq> fd_folderid q"
      using inj [OF p(1) \<open>q \<in> set query\<close>] \<open>q \<noteq> p\<close> by blast
    moreover have "fd_folderid p \<noteq> 0" "fd_folderid q \<noteq> 0"
      using assms(2) p(1) \<open>q \<in> set query\<close> by force+
    ultimately show False
      using y(3) z(3) p(2) \<open>fd_parentid q = 0\<close> \<open>q \<noteq> p\<close> unfolding \<open>y = z\<close> by (elim disjE) simp_all
  qed
  let ?rest = "concat (map (\<lambda>fd. fd_folderid fd # map fd_folderid (folders_by_parentid query (fd_folderid fd))) ps)"
  let ?mine = "fd_folderid p # map fd_folderid (folders_by_parentid query (fd_folderid p))"
  have "distinct ?rest" "distinct ?mine"
    using Cons children own by simp_all
  moreover have "set ?mine \<inter> set ?rest = {}"
  proof -
    have "x \<notin> set ?rest" if "x \<in> set ?mine" for x
      by (rule other) (use that in simp)
    then show ?thesis by blast
  qed
  ultimately show ?case
    unfolding list.map(2) concat.simps distinct_append by blast
qed simp

lemma flat_lists_visible:
  assumes "folders_nested db"
    and "\<forall>fd \<in> set (t_folder db). \<forall>p \<in> set (t_folder db). \<not> fd_hidden fd \<longrightarrow> fd_folderid p = fd_parentid fd \<longrightarrow> \<not> fd_hidden p"
  shows "distinct (map ff_folderid (folder_select_flat userid db))"
    and "set (map ff_folderid (folder_select_flat userid db)) = fd_folderid ` set (visible_folders userid db)"
proof -
  let ?q = "folder_rows userid db"
  have ids: "folder_ids_ok db" using assms(1) by (simp add: folders_nested_def)
  then have q: "distinct (map fd_folderid ?q)" "\<forall>fd \<in> set ?q. 0 < fd_folderid fd"
    by (auto simp: folder_ids_ok_def distinct_folder_rows set_folder_rows visible_folders_def)
  then have "distinct (folders_by_parentid ?q 0)"
    by (simp add: folders_by_parentid_def distinct_map)
  with q show "distinct (map ff_folderid (folder_select_flat userid db))"
    unfolding flat_ids by (intro distinct_flat) (auto simp: in_by_parentid)
  have "fd_folderid fd \<in> set (map ff_folderid (folder_select_flat userid db))" if "fd \<in> set (visible_folders userid db)" for fd
  proof (cases "fd_parentid fd = 0")
    case True
    then show ?thesis
      using that unfolding flat_ids by (auto simp: in_by_parentid set_folder_rows)
  next
    case False
    moreover have "fd \<in> set (t_folder db)" "\<not> fd_hidden fd"
      using that by (auto simp: visible_folders_def)
    ultimately obtain p where p: "p \<in> set (t_folder db)" "folder_parent fd p"
      using assms(1) unfolding folders_nested_def by blast
    have "\<not> fd_hidden p"
      using assms(2) p \<open>fd \<in> set (t_folder db)\<close> \<open>\<not> fd_hidden fd\<close> unfolding folder_parent_def by blast
    moreover have "fd_userid p = userid"
      using that p(2) by (simp add: visible_folders_def folder_parent_def)
    ultimately have "p \<in> set (visible_folders userid db)"
      using p(1) by (simp add: visible_folders_def)
    then have "p \<in> set (folders_by_parentid ?q 0)" "fd \<in> set (folders_by_parentid ?q (fd_folderid p))"
      using p(2) that by (auto simp: in_by_parentid set_folder_rows folder_parent_def)
    then show ?thesis
      unfolding flat_ids by auto
  qed
  moreover have "set (map ff_folderid (folder_select_flat userid db)) \<subseteq> fd_folderid ` set (visible_folders userid db)"
    unfolding flat_ids by (auto simp: in_by_parentid set_folder_rows)
  ultimately show "set (map ff_folderid (folder_select_flat userid db)) = fd_folderid ` set (visible_folders userid db)"
    by blast
qed

text \<open>
  The flat list is complete. When folders are nested and no folder that is shown lies in a hidden
  one, \<open>select_flat\<close> lists every folder of the user that is not hidden exactly once and no other.
\<close>

theorem folder_flat_complete:
  assumes "folders_nested db"
    and "\<forall>fd \<in> set (t_folder db). \<forall>p \<in> set (t_folder db). \<not> fd_hidden fd \<longrightarrow> fd_folderid p = fd_parentid fd \<longrightarrow> \<not> fd_hidden p"
  shows "distinct (map ff_folderid (folder_select_flat userid db))
    \<and> ff_folderid ` set (folder_select_flat userid db) =
       fd_folderid ` {fd \<in> set (t_folder db). fd_userid fd = userid \<and> \<not> fd_hidden fd}"
  using flat_lists_visible [OF assms, of userid] by (simp add: visible_folders_def)

definition sample_folder :: "int \<Rightarrow> int \<Rightarrow> string \<Rightarrow> string \<Rightarrow> folder_row" where
  "sample_folder i p title settings =
     \<lparr>fd_folderid = i, fd_parentid = p, fd_userid = 7, fd_title = title, fd_settings = settings\<rparr>"

theorem folder_flat_complete_witness:
  "let db = blank_db\<lparr>t_folder := [sample_folder 1 0 ''a'' [], sample_folder 2 1 ''b'' ''f''], folder_seq := 3\<rparr>
   in ff_folderid ` set (folder_select_flat 7 db) = {1, 2}"
proof -
  define db where "db = blank_db\<lparr>t_folder := [sample_folder 1 0 ''a'' [], sample_folder 2 1 ''b'' ''f''], folder_seq := 3\<rparr>"
  have "folders_nested db"
    by (simp add: folders_nested_def folder_ids_ok_def db_def sample_folder_def folder_parent_def)
  from folder_flat_complete [OF this] have
    "ff_folderid ` set (folder_select_flat 7 db) = fd_folderid ` {fd \<in> set (t_folder db). fd_userid fd = 7 \<and> \<not> fd_hidden fd}"
    by (auto simp: db_def sample_folder_def fd_hidden_def)
  also have "{fd \<in> set (t_folder db). fd_userid fd = 7 \<and> \<not> fd_hidden fd} =
      {sample_folder 1 0 ''a'' [], sample_folder 2 1 ''b'' ''f''}"
    by (auto simp: db_def sample_folder_def fd_hidden_def)
  finally show ?thesis by (auto simp: db_def sample_folder_def)
qed

text \<open>
  \<open>move\<close> does not look at whether the new parent is hidden, as \<open>create\<close> does: a folder moved into one that
  has been removed is still the user's, and no list shows it any more.
\<close>

lemma move_into_removed_folder:
  "let db = blank_db\<lparr>t_folder := [sample_folder 1 0 ''a'' ''h'', sample_folder 2 0 ''b'' []], folder_seq := 3\<rparr>
   in \<exists>db'. folder_move 7 ''2'' ''1'' db = Inr db' \<and> folder_select_flat 7 db' = []
      \<and> \<not> is_ok (folder_create 7 ''b'' ''1'' db)"
proof -
  have ints: "get_int ''1'' = 1" "get_int ''2'' = 2" by code_simp+
  show ?thesis
    by (simp add: folder_move_def folder_move_parent_def ints Let_def sample_folder_def exists_where_def
        folder_select_flat_def folder_select_list_def folder_rows_def folders_by_parentid_def update_where_def fd_hidden_def
        folder_create_def folder_check_def)
qed

text \<open>
  Removing a folder. \<open>remove\<close> succeeds exactly for an existing folder of the user. Afterwards the
  folder and its subfolders are hidden and hold no submission; every other folder is as before,
  and every submission that was elsewhere is where it was.
\<close>

theorem folder_remove_effect:
  assumes "folder_ids_ok db" "\<forall>fd \<in> set (t_folder db). fd_userid fd \<noteq> 0"
  shows "case folder_remove userid folderid db of
      Inl e \<Rightarrow> \<not> (\<exists>fd \<in> set (t_folder db). fd_folderid fd = folderid \<and> fd_userid fd = userid)
    | Inr db' \<Rightarrow> (\<exists>fd \<in> set (t_folder db). fd_folderid fd = folderid \<and> fd_userid fd = userid)
        \<and> (\<forall>fd \<in> set (t_folder db'). fd_folderid fd = folderid \<or> fd_parentid fd = folderid \<longrightarrow> fd_hidden fd
             \<and> (\<forall>su \<in> set (t_submission db'). su_folderid su \<noteq> Some (fd_folderid fd)))
        \<and> filter (\<lambda>fd. fd_folderid fd \<noteq> folderid \<and> fd_parentid fd \<noteq> folderid) (t_folder db') =
            filter (\<lambda>fd. fd_folderid fd \<noteq> folderid \<and> fd_parentid fd \<noteq> folderid) (t_folder db)
        \<and> map su_submitid (t_submission db') = map su_submitid (t_submission db)
        \<and> (\<forall>su \<in> set (t_submission db). (\<forall>fd \<in> set (t_folder db). su_folderid su = Some (fd_folderid fd) \<longrightarrow>
             fd_folderid fd \<noteq> folderid \<and> fd_parentid fd \<noteq> folderid) \<longrightarrow> su \<in> set (t_submission db'))"
proof (cases "folder_remove userid folderid db")
  case (Inl e)
  have "fd_userid fd \<noteq> userid" if "fd \<in> set (t_folder db)" "fd_folderid fd = folderid" for fd
    using Inl that assms folder.lookup_row [of db fd]
    by (auto simp: folder_remove_def folder_ids_ok_def Let_def split: if_splits)
  with Inl show ?thesis by auto
next
  case (Inr db')
  let ?P = "\<lambda>fd. fd_folderid fd = folderid \<or> fd_parentid fd = folderid"
  let ?hide = "update_where (\<lambda>fd. ?P fd \<and> \<not> fd_hidden fd) (\<lambda>fd. fd\<lparr>fd_settings := fd_settings fd @ ''h''\<rparr>) (t_folder db)"
  obtain fd where fd: "find (\<lambda>fd. fd_folderid fd = folderid) (t_folder db) = Some fd" "fd_userid fd = userid"
    and folders: "t_folder db' = ?hide"
    and subs: "t_submission db' = update_where (\<lambda>su. exists_where (\<lambda>fd. su_folderid su = Some (fd_folderid fd) \<and> ?P fd) ?hide)
                 (\<lambda>su. su\<lparr>su_folderid := None\<rparr>) (t_submission db)"
    using Inr by (auto simp: folder_remove_def Let_def split: option.splits if_splits)
  have rows: "fd' \<in> set ?hide \<longleftrightarrow> (\<exists>x \<in> set (t_folder db).
      fd' = (if ?P x \<and> \<not> fd_hidden x then x\<lparr>fd_settings := fd_settings x @ ''h''\<rparr> else x))" for fd'
    by (auto simp: set_update_where)
  have "\<exists>fd \<in> set (t_folder db). fd_folderid fd = folderid \<and> fd_userid fd = userid"
    using fd by (auto dest: find_SomeD)
  moreover have "fd_hidden fd \<and> (\<forall>su \<in> set (t_submission db'). su_folderid su \<noteq> Some (fd_folderid fd))"
    if shown: "fd \<in> set (t_folder db')" "?P fd" for fd
  proof
    obtain x where x: "fd = (if ?P x \<and> \<not> fd_hidden x then x\<lparr>fd_settings := fd_settings x @ ''h''\<rparr> else x)"
      using shown(1) rows unfolding folders by blast
    show "fd_hidden fd"
    proof (cases "?P x \<and> \<not> fd_hidden x")
      case True
      with x have "fd = x\<lparr>fd_settings := fd_settings x @ ''h''\<rparr>" by simp
      then show ?thesis by simp
    next
      case False
      with x have "fd = x" by (simp only: if_False)
      with False shown(2) show ?thesis by blast
    qed
    show "\<forall>su \<in> set (t_submission db'). su_folderid su \<noteq> Some (fd_folderid fd)"
    proof
      fix su
      assume "su \<in> set (t_submission db')"
      then have "su_folderid su = None
          \<or> \<not> exists_where (\<lambda>fd. su_folderid su = Some (fd_folderid fd) \<and> ?P fd) (t_folder db')"
        unfolding subs folders set_update_where by auto
      then show "su_folderid su \<noteq> Some (fd_folderid fd)"
        using shown unfolding exists_where_iff by auto
    qed
  qed
  moreover have "filter (\<lambda>fd. \<not> ?P fd) (t_folder db') = filter (\<lambda>fd. \<not> ?P fd) (t_folder db)"
    unfolding folders by (rule filter_update_where) auto
  moreover have "map su_submitid (t_submission db') = map su_submitid (t_submission db)"
    unfolding subs by (rule map_key_update_where) simp
  moreover have "su \<in> set (t_submission db')"
    if "su \<in> set (t_submission db)" "\<forall>fd \<in> set (t_folder db). su_folderid su = Some (fd_folderid fd) \<longrightarrow> \<not> ?P fd" for su
    using that unfolding subs by (auto simp: set_update_where exists_where_iff split: if_splits)
  ultimately show ?thesis
    unfolding Inr sum.case de_Morgan_disj by blast
qed

theorem folder_remove_effect_witness:
  "\<exists>db'. folder_remove 7 1 (blank_db\<lparr>t_folder := [sample_folder 1 0 ''a'' [], sample_folder 2 1 ''b'' ''f''], folder_seq := 3\<rparr>) = Inr db'
     \<and> (\<forall>fd \<in> set (t_folder db'). fd_hidden fd)"
proof -
  define db where "db = blank_db\<lparr>t_folder := [sample_folder 1 0 ''a'' [], sample_folder 2 1 ''b'' ''f''], folder_seq := 3\<rparr>"
  have ok: "folder_ids_ok db" "\<forall>fd \<in> set (t_folder db). fd_userid fd \<noteq> 0"
    by (simp_all add: db_def folder_ids_ok_def sample_folder_def)
  obtain db' where db': "folder_remove 7 1 db = Inr db'" "map fd_folderid (t_folder db') = [1, 2]"
      "map fd_parentid (t_folder db') = [0, 1]"
    by (simp add: db_def sample_folder_def folder_remove_def Let_def update_where_def fd_hidden_def)
  have "\<forall>fd \<in> set (t_folder db'). fd_folderid fd = 1 \<or> fd_parentid fd = 1"
    using db'(2,3) by (auto simp: map_eq_Cons_conv)
  with db'(1) folder_remove_effect [OF ok, where userid = 7 and folderid = 1] show ?thesis
    by (auto simp: db_def)
qed

end
