(* ===== verification/Collections.thy ===== *)
theory Collections
  imports Social
begin

text \<open>
  Collections, \<^verbatim>\<open>weasyl/collection.py\<close>: a row says that \<open>userid\<close> has collected the submission \<open>submitid\<close>
  of another user; while its settings have \<open>p\<close> it is an offer by the author, while they have \<open>r\<close> a
  request by the collector. Accepting takes the flag away, rejecting deletes the row.
\<close>

subsection \<open>Profile settings\<close>

text \<open>\<open>ProfileSettings\<close> of \<^verbatim>\<open>weasyl/profile.py\<close>: the settings it knows with their defaults.\<close>

definition profile_setting_defaults :: "(string \<times> bool) list" where
  "profile_setting_defaults =
     [(''allow_collection_requests'', True), (''allow_collection_notifs'', True), (''disable_custom_thumbs'', False)]"

definition profile_setting :: "jsonb \<Rightarrow> string \<Rightarrow> bool result" where
  "profile_setting raw_settings setting =
     (case map_of profile_setting_defaults setting of
        None \<Rightarrow> Inl KeyError
      | Some dflt \<Rightarrow> Inr (case map_of raw_settings setting of None \<Rightarrow> dflt | Some b \<Rightarrow> b))"

subsection \<open>Listing\<close>

abbreviation co_key :: "collection_row \<Rightarrow> int \<times> int" where
  "co_key co \<equiv> (co_userid co, co_submitid co)"

definition co_pending :: "collection_row \<Rightarrow> bool" where
  "co_pending co = has_any_flag ''pr'' (co_settings co)"

record collection_item =
  ci_submitid :: int
  ci_title :: string
  ci_subtype :: int
  ci_rating :: int
  ci_unixtime :: int
  ci_userid :: int
  ci_username :: string
  ci_collector :: string
  ci_collectorid :: int

definition collection_condition ::
  "bool \<Rightarrow> int \<Rightarrow> int \<Rightarrow> int \<Rightarrow> bool \<Rightarrow> int \<Rightarrow> int \<Rightarrow> 'a tags_db_scheme \<Rightarrow> collection_row \<Rightarrow> submission_row \<Rightarrow> bool" where
  "collection_condition sfw_mode userid rating otherid pending backid nextid db co su =
     (\<not> su_hidden su
      \<and> (if sfw_mode then su_rating su \<le> rating
         else su_rating su \<le> rating \<or> co_userid co = userid \<or> su_userid su = userid)
      \<and> (if pending then
           has_flag (CHR ''p'') (co_settings co) \<and> co_userid co = otherid
           \<or> has_flag (CHR ''r'') (co_settings co) \<and> su_userid su = userid
         else \<not> co_pending co \<and> co_userid co = otherid)
      \<and> (let time_of = (\<lambda>i. map_option co_unixtime (find (\<lambda>c. co_key c = (otherid, i)) (t_collection db)))
         in if backid \<noteq> 0 then (case time_of backid of None \<Rightarrow> False | Some t \<Rightarrow> co_unixtime co > t)
            else if nextid \<noteq> 0 then (case time_of nextid of None \<Rightarrow> False | Some t \<Rightarrow> co_unixtime co < t)
            else True)
      \<and> (if userid \<noteq> 0 then
           macro_frienduser userid (su_friends_only su) (su_userid su) db
           \<and> (otherid = 0 \<longrightarrow> not_ignored userid (su_userid su) db)
           \<and> macro_blocktag_submit userid su db
         else \<not> su_friends_only su))"

definition collection_select_query ::
  "bool \<Rightarrow> int \<Rightarrow> int \<Rightarrow> int \<Rightarrow> bool \<Rightarrow> int \<Rightarrow> int \<Rightarrow> 'a tags_db_scheme \<Rightarrow> collection_item list" where
  "collection_select_query sfw_mode userid rating otherid pending backid nextid db =
     concat (map (\<lambda>co. List.map_filter (\<lambda>su.
         if su_submitid su = co_submitid co
            \<and> collection_condition sfw_mode userid rating otherid pending backid nextid db co su
         then (case (username_of (su_userid su) db, username_of (co_userid co) db) of
                 (Some author, Some collector) \<Rightarrow> Some
                   \<lparr>ci_submitid = su_submitid su, ci_title = su_title su, ci_subtype = su_subtype su,
                    ci_rating = su_rating su, ci_unixtime = co_unixtime co, ci_userid = su_userid su,
                    ci_username = author, ci_collector = collector, ci_collectorid = co_userid co\<rparr>
               | _ \<Rightarrow> None)
         else None) (t_submission db)) (t_collection db))"

definition collection_select_count ::
  "bool \<Rightarrow> int \<Rightarrow> int \<Rightarrow> int \<Rightarrow> bool \<Rightarrow> int \<Rightarrow> int \<Rightarrow> 'a tags_db_scheme \<Rightarrow> int" where
  "collection_select_count sfw_mode userid rating otherid pending backid nextid db =
     int (length (collection_select_query sfw_mode userid rating otherid pending backid nextid db))"

definition collection_select_list ::
  "bool \<Rightarrow> int \<Rightarrow> int \<Rightarrow> nat \<Rightarrow> int \<Rightarrow> bool \<Rightarrow> int \<Rightarrow> int \<Rightarrow> 'a tags_db_scheme \<Rightarrow> collection_item list" where
  "collection_select_list sfw_mode userid rating limit otherid pending backid nextid db =
     (let items = sort_key ci_unixtime (collection_select_query sfw_mode userid rating otherid pending backid nextid db);
          query = take limit (if backid \<noteq> 0 then items else rev items)
      in if backid \<noteq> 0 then rev query else query)"

definition collection_find_owners :: "int \<Rightarrow> 'a content_db_scheme \<Rightarrow> int list" where
  "collection_find_owners submitid db =
     map co_userid (filter (\<lambda>co. co_submitid co = submitid \<and> \<not> co_pending co) (t_collection db))"

definition collection_owns :: "int \<Rightarrow> int \<Rightarrow> 'a content_db_scheme \<Rightarrow> bool" where
  "collection_owns userid submitid db =
     (if userid = 0 then False else exists_where (\<lambda>co. co_key co = (userid, submitid)) (t_collection db))"

subsection \<open>Offers and requests\<close>

definition find_submission :: "int \<Rightarrow> 'a content_db_scheme \<Rightarrow> submission_row option" where
  "find_submission submitid db = find (\<lambda>su. su_submitid su = submitid) (t_submission db)"

definition collection_insert_row ::
  "int \<Rightarrow> int \<Rightarrow> int \<Rightarrow> string \<Rightarrow> 'a content_db_scheme \<Rightarrow> 'a content_db_scheme result" where
  "collection_insert_row now userid submitid settings db =
     (if exists_where (\<lambda>co. co_key co = (userid, submitid)) (t_collection db) then Inl (WeasylError ''collectionExists'')
      else Inr (db\<lparr>t_collection := t_collection db @
             [\<lparr>co_userid = userid, co_submitid = submitid, co_unixtime = now, co_settings = settings\<rparr>]\<rparr>))"

definition collection_offer :: "int \<Rightarrow> int \<Rightarrow> int \<Rightarrow> int \<Rightarrow> 'a content_db_scheme \<Rightarrow> 'a content_db_scheme result" where
  "collection_offer now userid submitid otherid db =
     (case find_submission submitid db of
        None \<Rightarrow> Inl (WeasylError ''Unexpected'')
      | Some su \<Rightarrow>
          if su_hidden su then Inl (WeasylError ''Unexpected'')
          else if userid \<noteq> su_userid su then Inl (WeasylError ''Unexpected'')
          else if su_friends_only su then Inl (WeasylError ''collectionUnacceptable'')
          else if ignoreuser_check otherid userid db then Inl (WeasylError ''IgnoredYou'')
          else if ignoreuser_check userid otherid db then Inl (WeasylError ''YouIgnored'')
          else
            (case collection_insert_row now otherid submitid ''p'' db of
               Inl e \<Rightarrow> Inl e
             | Inr db \<Rightarrow> Inr (collectoffer_insert now userid otherid submitid db)))"

definition collection_check_throttle :: "int \<Rightarrow> int \<Rightarrow> 'a content_db_scheme \<Rightarrow> bool" where
  "collection_check_throttle userid otherid db =
     (sum_list (map (\<lambda>co. count_where (\<lambda>su. su_submitid su = co_submitid co \<and> su_userid su = otherid) (t_submission db))
        (filter (\<lambda>co. co_userid co = userid \<and> has_flag (CHR ''r'') (co_settings co)) (t_collection db))) > 10)"

definition collection_request ::
  "bool \<Rightarrow> int \<Rightarrow> int \<Rightarrow> int \<Rightarrow> int \<Rightarrow> 'a content_db_scheme \<Rightarrow> unit result \<times> 'a content_db_scheme" where
  "collection_request sfw_mode now userid submitid otherid db =
     and_then (get_rating sfw_mode userid db) (\<lambda>rating db.
       case find_submission submitid db of
         None \<Rightarrow> (Inl (WeasylError ''Unexpected''), db)
       | Some su \<Rightarrow>
           if su_hidden su then (Inl (WeasylError ''Unexpected''), db)
           else if otherid \<noteq> su_userid su then (Inl (WeasylError ''Unexpected''), db)
           else if rating < su_rating su then (Inl (WeasylError ''RatingExceeded''), db)
           else if su_friends_only su then (Inl (WeasylError ''collectionUnacceptable''), db)
           else if ignoreuser_check otherid userid db then (Inl (WeasylError ''IgnoredYou''), db)
           else if ignoreuser_check userid otherid db then (Inl (WeasylError ''YouIgnored''), db)
           else if collection_check_throttle userid otherid db then (Inl (WeasylError ''collectionThrottle''), db)
           else
             and_then (get_profile_settings otherid db) (\<lambda>settings db.
               case profile_setting settings ''allow_collection_requests'' of
                 Inl e \<Rightarrow> (Inl e, db)
               | Inr allowed \<Rightarrow>
                   if \<not> allowed then (Inl (WeasylError ''Unexpected''), db)
                   else
                     (case collection_insert_row now userid submitid ''r'' db of
                        Inl e \<Rightarrow> (Inl e, db)
                      | Inr db \<Rightarrow> (Inr (), collectrequest_insert now userid otherid submitid db))))"

subsection \<open>Answers\<close>

text \<open>The rows an answer of \<open>userid\<close> is about: offers made to them, requests made of them.\<close>

definition answerable :: "int \<Rightarrow> (int \<times> int) list \<Rightarrow> 'a content_db_scheme \<Rightarrow> collection_row \<Rightarrow> bool" where
  "answerable userid submissions db co =
     (exists_where (\<lambda>su. su_submitid su = co_submitid co \<and> (userid = co_userid co \<or> userid = su_userid su)) (t_submission db)
      \<and> (co_submitid co, co_userid co) \<in> set submissions
      \<and> has_flag (if userid = co_userid co then CHR ''p'' else CHR ''r'') (co_settings co))"

fun remove_first_flag :: "string \<Rightarrow> string \<Rightarrow> string" where
  "remove_first_flag cs [] = []"
| "remove_first_flag cs (c # s) = (if c \<in> set cs then s else c # remove_first_flag cs s)"

definition pending_accept :: "int \<Rightarrow> int \<Rightarrow> (int \<times> int) list \<Rightarrow> 'a tags_db_scheme \<Rightarrow> 'a tags_db_scheme" where
  "pending_accept now userid submissions db =
     (if submissions = [] then db
      else
        (let updated = map (\<lambda>co. (co_userid co, co_submitid co)) (filter (answerable userid submissions db) (t_collection db));
             db = db\<lparr>t_collection := update_where (answerable userid submissions db)
                       (\<lambda>co. co\<lparr>co_unixtime := now, co_settings := remove_first_flag ''pr'' (co_settings co)\<rparr>)
                       (t_collection db)\<rparr>;
             db = fold (\<lambda>s db. collectrequest_remove userid (snd s) (fst s)
                                 (welcome_collection_insert now (snd s) (fst s) db)) updated db
         in posts_count_invalidate userid (page_header_invalidate userid db)))"

definition pending_reject :: "int \<Rightarrow> (int \<times> int) list \<Rightarrow> 'a content_db_scheme \<Rightarrow> 'a content_db_scheme" where
  "pending_reject userid submissions db =
     (if submissions = [] then db
      else
        (let db = db\<lparr>t_collection := delete_where (answerable userid submissions db) (t_collection db)\<rparr>;
             db = fold (\<lambda>(submitid, collectorid). collectrequest_remove userid collectorid submitid) submissions db
         in page_header_invalidate userid db))"

definition collection_remove :: "int \<Rightarrow> int list \<Rightarrow> 'a content_db_scheme \<Rightarrow> 'a content_db_scheme" where
  "collection_remove userid submissions db =
     (if submissions = [] then db
      else
        (let db = db\<lparr>t_collection := delete_where (\<lambda>co. co_userid co = userid \<and> co_submitid co \<in> set submissions
                       \<and> \<not> co_pending co) (t_collection db)\<rparr>;
             db = welcome_collection_remove userid submissions db
         in posts_count_invalidate userid db))"

section \<open>Facts\<close>

interpretation collection: unique_table co_key t_collection "\<lambda>rows db. db\<lparr>t_collection := rows\<rparr>"
  by unfold_locales simp_all

interpretation submission: unique_table su_submitid t_submission "\<lambda>rows db. db\<lparr>t_submission := rows\<rparr>"
  by unfold_locales simp_all

subsection \<open>What the answers change\<close>

lemma has_flag_remove_first:
  "has_flag c (remove_first_flag cs s) \<Longrightarrow> has_flag c s"
  by (induction s) (auto split: if_splits)

lemma welcome_only_collectrequest_remove: "welcome_only db (collectrequest_remove u o' s db)"
  by (auto simp: collectrequest_remove_def)

lemma welcome_only_collection_insert: "welcome_only db (welcome_collection_insert now u s db)"
  by (auto simp: welcome_collection_insert_def Let_def)

definition accept_one :: "int \<Rightarrow> int \<Rightarrow> int \<times> int \<Rightarrow> 'a tags_db_scheme \<Rightarrow> 'a tags_db_scheme" where
  "accept_one now userid s db =
     collectrequest_remove userid (snd s) (fst s) (welcome_collection_insert now (snd s) (fst s) db)"

lemma welcome_only_accept_one: "welcome_only db (accept_one now userid s db)"
  unfolding accept_one_def
  by (rule welcome_only_trans [OF welcome_only_collection_insert welcome_only_collectrequest_remove])

lemma accept_collections:
  fixes db :: "'a tags_db_scheme"
  assumes "submissions \<noteq> []"
  shows "t_collection (pending_accept now userid submissions db) =
     update_where (answerable userid submissions db)
       (\<lambda>co. co\<lparr>co_unixtime := now, co_settings := remove_first_flag ''pr'' (co_settings co)\<rparr>) (t_collection db)"
proof -
  define f :: "int \<times> int \<Rightarrow> 'a tags_db_scheme \<Rightarrow> 'a tags_db_scheme" where "f = accept_one now userid"
  have f: "f = (\<lambda>s db. collectrequest_remove userid (snd s) (fst s) (welcome_collection_insert now (snd s) (fst s) db))"
    by (simp add: f_def accept_one_def fun_eq_iff)
  have "t_collection (fold f xs db) = t_collection db" for xs and db :: "'a tags_db_scheme"
    by (rule welcome_only_content(5)) (simp add: f_def welcome_only_fold welcome_only_accept_one)
  then show ?thesis
    using assms by (simp add: pending_accept_def Let_def page_header_invalidate_def posts_count_invalidate_def
        store_posts_count_def f [symmetric])
qed

lemma reject_collections:
  fixes db :: "'a content_db_scheme"
  assumes "submissions \<noteq> []"
  shows "t_collection (pending_reject userid submissions db) = delete_where (answerable userid submissions db) (t_collection db)"
proof -
  define f where "f = (\<lambda>(submitid, collectorid) (db :: 'a content_db_scheme). collectrequest_remove userid collectorid submitid db)"
  have "welcome_only db (f s db)" for s db
    by (cases s) (simp add: f_def welcome_only_collectrequest_remove)
  then have "t_collection (fold f xs db) = t_collection db" for xs and db :: "'a content_db_scheme"
    by (intro welcome_only_content(5) welcome_only_fold)
  then show ?thesis
    using assms by (simp add: pending_reject_def Let_def page_header_invalidate_def f_def)
qed

text \<open>A row is an offer, a request, or accepted: its settings hold at most one of the two flags.\<close>

definition collections_ok :: "'a content_db_scheme \<Rightarrow> bool" where
  "collections_ok db \<longleftrightarrow>
     distinct (map co_key (t_collection db)) \<and> distinct (map su_submitid (t_submission db)) \<and>
     (\<forall>co \<in> set (t_collection db). co_settings co \<in> {[], ''p'', ''r''})"

lemma answerable_iff:
  assumes "distinct (map su_submitid (t_submission db))" "su \<in> set (t_submission db)" "su_submitid su = co_submitid co"
    "co_userid co \<noteq> su_userid su" "co_settings co \<in> {[], ''p'', ''r''}"
  shows "answerable userid submissions db co \<longleftrightarrow>
    (co_submitid co, co_userid co) \<in> set submissions
    \<and> (co_settings co = ''p'' \<and> userid = co_userid co \<or> co_settings co = ''r'' \<and> userid = su_userid su)"
proof -
  have "su' = su" if "su' \<in> set (t_submission db)" "su_submitid su' = co_submitid co" for su'
    using that assms(1-3) submission.row_of_key [of db su' su] by simp
  then have "exists_where (\<lambda>su. su_submitid su = co_submitid co \<and> (userid = co_userid co \<or> userid = su_userid su))
      (t_submission db) \<longleftrightarrow> userid = co_userid co \<or> userid = su_userid su"
    using assms(2,3) unfolding exists_where_iff by metis
  then show ?thesis
    unfolding answerable_def using assms(4,5) by auto
qed

text \<open>
  C12: Only the one asked can answer. For a row of the collection of someone else's submission,
  \<open>pending_accept\<close> makes it an accepted one exactly when it was listed and either was offered and the
  answering user is its collector, or was requested and the answering user is the author;
  \<open>pending_reject\<close> deletes it exactly then. All other rows stay as they are, and no row is added.
\<close>

theorem collection_answers:
  assumes "collections_ok db" "submissions \<noteq> []"
    and "co \<in> set (t_collection db)" "su \<in> set (t_submission db)" "su_submitid su = co_submitid co"
    and "co_userid co \<noteq> su_userid su"
  shows "let asked = (co_submitid co, co_userid co) \<in> set submissions
             \<and> (co_settings co = ''p'' \<and> userid = co_userid co \<or> co_settings co = ''r'' \<and> userid = su_userid su)
    in (if asked then co\<lparr>co_unixtime := now, co_settings := []\<rparr> \<in> set (t_collection (pending_accept now userid submissions db))
        else co \<in> set (t_collection (pending_accept now userid submissions db)))
      \<and> (co \<in> set (t_collection (pending_reject userid submissions db)) \<longleftrightarrow> \<not> asked)
      \<and> map co_key (t_collection (pending_accept now userid submissions db)) = map co_key (t_collection db)
      \<and> set (t_collection (pending_reject userid submissions db)) \<subseteq> set (t_collection db)"
proof -
  have settings: "co_settings co \<in> {[], ''p'', ''r''}"
    using assms(1,3) by (simp add: collections_ok_def)
  have ans: "answerable userid submissions db co \<longleftrightarrow> (co_submitid co, co_userid co) \<in> set submissions
    \<and> (co_settings co = ''p'' \<and> userid = co_userid co \<or> co_settings co = ''r'' \<and> userid = su_userid su)"
    using assms(1,4-6) settings by (intro answerable_iff) (auto simp: collections_ok_def)
  have "remove_first_flag ''pr'' (co_settings co) = []"
    using settings by auto
  then have "(if answerable userid submissions db co
       then co\<lparr>co_unixtime := now, co_settings := []\<rparr> \<in> set (t_collection (pending_accept now userid submissions db))
       else co \<in> set (t_collection (pending_accept now userid submissions db)))"
    unfolding accept_collections [OF assms(2)] set_update_where using assms(3) by force
  moreover have "map co_key (t_collection (pending_accept now userid submissions db)) = map co_key (t_collection db)"
    unfolding accept_collections [OF assms(2)] by (rule map_key_update_where) simp
  ultimately show ?thesis
    unfolding reject_collections [OF assms(2)] set_delete_where using assms(3) ans by (auto simp: Let_def)
qed

definition sample_submission :: "int \<Rightarrow> int \<Rightarrow> submission_row" where
  "sample_submission i u =
     \<lparr>su_submitid = i, su_folderid = None, su_userid = u, su_unixtime = 50, su_title = ''t'', su_content = ''c'',
      su_subtype = 1010, su_rating = 10, su_page_views = 0, su_hidden = False, su_friends_only = False,
      su_critique = False, su_embed_type = None, su_favorites = 0, su_submitter_ip_address = None,
      su_submitter_user_agent_id = None, su_browse_excluded = None\<rparr>"

definition sample_collection :: "int \<Rightarrow> int \<Rightarrow> string \<Rightarrow> collection_row" where
  "sample_collection u i s = \<lparr>co_userid = u, co_submitid = i, co_unixtime = 60, co_settings = s\<rparr>"

theorem collection_answers_witness:
  "let db = blank_db\<lparr>t_submission := [sample_submission 3 5], t_collection := [sample_collection 7 3 ''p'']\<rparr>
   in sample_collection 7 3 [] \<lparr>co_unixtime := 99\<rparr> \<in> set (t_collection (pending_accept 99 7 [(3, 7)] db))
      \<and> sample_collection 7 3 ''p'' \<in> set (t_collection (pending_accept 99 5 [(3, 7)] db))"
proof -
  define db where "db = blank_db\<lparr>t_submission := [sample_submission 3 5], t_collection := [sample_collection 7 3 ''p'']\<rparr>"
  have ok: "collections_ok db" "sample_collection 7 3 ''p'' \<in> set (t_collection db)"
    "sample_submission 3 5 \<in> set (t_submission db)" "su_submitid (sample_submission 3 5) = co_submitid (sample_collection 7 3 ''p'')"
    "co_userid (sample_collection 7 3 ''p'') \<noteq> su_userid (sample_submission 3 5)"
    by (simp_all add: db_def collections_ok_def sample_collection_def sample_submission_def)
  have l: "[(3, 7)] \<noteq> ([] :: (int \<times> int) list)" by simp
  from collection_answers [OF ok(1) l ok(2-5), of 7 99] collection_answers [OF ok(1) l ok(2-5), of 5 99]
  show ?thesis
    by (simp add: db_def [symmetric] Let_def) (simp add: sample_collection_def)
qed


subsection \<open>What an answer leaves behind\<close>

text \<open>
  \<open>pending_accept\<close> calls \<open>welcome.collection_insert(s[1], s[0])\<close> and
  \<open>welcome.collectrequest_remove(userid, s[1], s[0])\<close> on rows \<open>(userid, submitid)\<close>, so the submission's id is
  passed as the user's and the user's as the submission's: an offer that was accepted keeps its
  notification (3030), which \<open>pending_reject\<close>, with the arguments in their places, deletes.
\<close>

lemma welcome_collection_insert_keeps:
  "we \<in> set (t_welcome db) \<Longrightarrow> we \<in> set (t_welcome (welcome_collection_insert now u s db))"
proof -
  assume we: "we \<in> set (t_welcome db)"
  have "we \<in> set (t_welcome (fold (\<lambda>n. add_welcome now n u 0 s 2030) ns db))" for ns
    using fold_add_welcome_rows [of now u 0 s 2030 ns db] we by auto
  then show ?thesis
    using we by (simp add: welcome_collection_insert_def Let_def)
qed

lemma accept_one_keeps:
  assumes "we \<in> set (t_welcome db)" "we_type we = 3030" "fst s \<noteq> we_targetid we \<or> snd s \<noteq> userid"
  shows "we \<in> set (t_welcome (accept_one now userid s db))"
  using welcome_collection_insert_keeps [OF assms(1)] assms(2,3)
  by (auto simp: accept_one_def collectrequest_remove_def set_delete_welcome)

theorem accept_keeps_offer_notification:
  fixes db :: "'a tags_db_scheme"
  assumes "we \<in> set (t_welcome db)" "we_type we = 3030"
    and "\<forall>(submitid, collectorid) \<in> set submissions. submitid \<noteq> userid"
  shows "we \<in> set (t_welcome (pending_accept now userid submissions db))"
proof -
  define f :: "int \<times> int \<Rightarrow> 'a tags_db_scheme \<Rightarrow> 'a tags_db_scheme" where "f = accept_one now userid"
  have f: "f = (\<lambda>s db. collectrequest_remove userid (snd s) (fst s) (welcome_collection_insert now (snd s) (fst s) db))"
    by (simp add: f_def accept_one_def fun_eq_iff)
  have fold: "we \<in> set (t_welcome (fold f xs db))"
    if "\<forall>s \<in> set xs. snd s \<noteq> userid" "we \<in> set (t_welcome db)" for xs and db :: "'a tags_db_scheme"
    using that by (induction xs arbitrary: db) (auto simp: f_def assms(2) accept_one_keeps)
  have "snd s \<noteq> userid" if "s \<in> set (map (\<lambda>co. (co_userid co, co_submitid co)) (filter (answerable userid submissions db') rows))"
    for s rows db'
    using that assms(3) by (auto simp: answerable_def)
  then have keys: "\<forall>s \<in> set (map (\<lambda>co. (co_userid co, co_submitid co)) (filter (answerable userid submissions db) rows)). snd s \<noteq> userid"
    for rows by blast
  show ?thesis
    using assms(1) fold [OF keys]
    by (simp add: pending_accept_def Let_def page_header_invalidate_def posts_count_invalidate_def
        store_posts_count_def f [symmetric])
qed

lemma reject_drops_offer_notification:
  assumes "(submitid, userid) \<in> set submissions" "we_userid we = userid" "we_type we = 3030" "we_targetid we = submitid"
  shows "we \<notin> set (t_welcome (pending_reject userid submissions db))"
proof -
  define f where "f = (\<lambda>(submitid, collectorid) (db :: 'a content_db_scheme). collectrequest_remove userid collectorid submitid db)"
  have stays: "we \<notin> set (t_welcome (fold f xs db))" if "we \<notin> set (t_welcome db)" for xs and db :: "'a content_db_scheme"
    using that
  proof (induction xs arbitrary: db)
    case (Cons x xs)
    then have "we \<notin> set (t_welcome (f x db))"
      by (cases x) (auto simp: f_def collectrequest_remove_def set_delete_welcome)
    then show ?case using Cons.IH by simp
  qed simp
  have "we \<notin> set (t_welcome (fold f xs db))" if "(submitid, userid) \<in> set xs" for xs and db :: "'a content_db_scheme"
    using that
  proof (induction xs arbitrary: db)
    case (Cons x xs)
    show ?case
    proof (cases "x = (submitid, userid)")
      case True
      have "we \<notin> set (t_welcome (f x db))"
        using assms(2-4) True by (auto simp: f_def collectrequest_remove_def set_delete_welcome)
      then show ?thesis using stays by simp
    qed (use Cons in auto)
  qed simp
  moreover have "submissions \<noteq> []" using assms(1) by auto
  ultimately show ?thesis
    using assms(1) by (simp add: pending_reject_def Let_def page_header_invalidate_def f_def)
qed

text \<open>
  The cached number of posts is invalidated for the user who answers only: when the author accepts a
  request it is the collector's number that changes, and it stays stale.
\<close>

theorem accept_request_leaves_stale_count:
  "let db = blank_db\<lparr>t_submission := [sample_submission 3 5], t_collection := [sample_collection 7 3 ''r'']\<rparr>;
       db = snd (cached_posts_count 7 db);
       db' = pending_accept 99 5 [(3, 7)] db
   in posts_cache_ok db \<and> fst (cached_posts_count 7 db') = [] \<and> query_posts_count 7 db' \<noteq> []"
proof -
  define db0 where "db0 = blank_db\<lparr>t_submission := [sample_submission 3 5], t_collection := [sample_collection 7 3 ''r'']\<rparr>"
  define db where "db = snd (cached_posts_count 7 db0)"
  have "posts_cache_ok db0"
    by (simp add: db0_def coherent_def peek_posts_count_def blank_db_def)
  then have "posts_cache_ok db"
    unfolding db_def cached_posts_count_def by (rule posts_count.read_coherent)
  moreover have "fst (cached_posts_count 7 (pending_accept 99 5 [(3, 7)] db)) = []"
    unfolding db_def db0_def by code_simp
  moreover have "query_posts_count 7 (pending_accept 99 5 [(3, 7)] db) \<noteq> []"
    unfolding db_def db0_def by code_simp
  ultimately show ?thesis
    by (simp add: Let_def db_def db0_def)
qed

lemma length_filter_eq_one: "distinct xs \<Longrightarrow> x \<in> set xs \<Longrightarrow> length (filter (\<lambda>y. y = x) xs) = 1"
  by (induction xs) (auto simp: filter_empty_conv)

text \<open>A request is refused once eleven are pending, not ten as the comment of \<open>_check_throttle\<close> says.\<close>

lemma throttle_allows_eleven:
  assumes "distinct (map su_submitid (t_submission db))"
    and "\<forall>co \<in> set (filter (\<lambda>co. co_userid co = userid \<and> has_flag (CHR ''r'') (co_settings co)) (t_collection db)).
       \<exists>su \<in> set (t_submission db). su_submitid su = co_submitid co \<and> su_userid su = otherid"
  shows "collection_check_throttle userid otherid db \<longleftrightarrow>
    count_where (\<lambda>co. co_userid co = userid \<and> has_flag (CHR ''r'') (co_settings co)) (t_collection db) \<ge> 11"
proof -
  define rows where "rows = filter (\<lambda>co. co_userid co = userid \<and> has_flag (CHR ''r'') (co_settings co)) (t_collection db)"
  have one: "count_where (\<lambda>su. su_submitid su = co_submitid co \<and> su_userid su = otherid) (t_submission db) = 1"
    if "co \<in> set rows" for co
  proof -
    from assms(2) that obtain su where su: "su \<in> set (t_submission db)" "su_submitid su = co_submitid co" "su_userid su = otherid"
      by (auto simp: rows_def)
    have "filter (\<lambda>su. su_submitid su = co_submitid co \<and> su_userid su = otherid) (t_submission db)
        = filter (\<lambda>x. x = su) (t_submission db)"
    proof (intro filter_cong refl)
      fix x
      assume x: "x \<in> set (t_submission db)"
      show "(su_submitid x = co_submitid co \<and> su_userid x = otherid) = (x = su)"
        using su(2,3) submission.row_of_key [OF assms(1) x su(1)] by metis
    qed
    moreover have "length (filter (\<lambda>x. x = su) (t_submission db)) = 1"
      using su(1) assms(1) by (intro length_filter_eq_one) (simp_all add: distinct_map)
    ultimately show ?thesis by (simp add: count_where_def)
  qed
  have "sum_list (map (\<lambda>co. count_where (\<lambda>su. su_submitid su = co_submitid co \<and> su_userid su = otherid) (t_submission db)) rows)
      = sum_list (map (\<lambda>_. 1) rows)"
    using one by (intro arg_cong [of _ _ sum_list] map_cong) auto
  then show ?thesis
    by (simp add: collection_check_throttle_def rows_def [symmetric] count_where_def sum_list_triv) linarith
qed

end
