(* ===== verification/Favorites.thy ===== *)
theory Favorites
  imports Collections
begin

text \<open>
  Favorites, \<^verbatim>\<open>weasyl/favorite.py\<close>: a row \<open>(userid, targetid, type)\<close> with type \<open>s\<close>, \<open>f\<close> or \<open>j\<close> for a
  submission, a character or a journal; the submission also keeps the number of its favorites. As
  everywhere, of the three optional ids the first that is not 0 counts. The media of the listed posts
  are left out.
\<close>

subsection \<open>Listing\<close>

abbreviation fa_key :: "favorite_row \<Rightarrow> int \<times> int \<times> string" where
  "fa_key fa \<equiv> (fa_userid fa, fa_targetid fa, fa_type fa)"

record favorite_item =
  fi_contype :: int
  fi_id :: int
  fi_title :: string
  fi_rating :: int
  fi_unixtime :: int
  fi_userid :: int
  fi_username :: string
  fi_subtype :: "int option"
  fi_content :: "string option"

definition favorite_visible :: "bool \<Rightarrow> int \<Rightarrow> int \<Rightarrow> int \<Rightarrow> int \<Rightarrow> bool \<Rightarrow> bool \<Rightarrow> 'a tags_db_scheme \<Rightarrow> bool" where
  "favorite_visible sfw_mode userid rating ownerid item_rating friends_only unblocked db =
     (if userid \<noteq> 0 then
        (if sfw_mode then item_rating \<le> rating else ownerid = userid \<or> item_rating \<le> rating)
        \<and> not_ignored userid ownerid db \<and> unblocked \<and> macro_frienduser userid friends_only ownerid db
      else item_rating \<le> rating \<and> \<not> friends_only)"

definition favorite_page :: "string \<Rightarrow> int \<Rightarrow> int \<Rightarrow> int \<Rightarrow> favorite_row \<Rightarrow> 'a tags_db_scheme \<Rightarrow> bool" where
  "favorite_page type otherid backid nextid fa db =
     (let time_of = (\<lambda>i. map_option fa_unixtime (find (\<lambda>f. fa_key f = (otherid, i, type)) (t_favorite db)))
      in if backid \<noteq> 0 then (case time_of backid of None \<Rightarrow> False | Some t \<Rightarrow> fa_unixtime fa > t)
         else if nextid \<noteq> 0 then (case time_of nextid of None \<Rightarrow> False | Some t \<Rightarrow> fa_unixtime fa < t)
         else True)"

definition favorites_of :: "string \<Rightarrow> int \<Rightarrow> int \<Rightarrow> int \<Rightarrow> 'a tags_db_scheme \<Rightarrow> favorite_row list" where
  "favorites_of type otherid backid nextid db =
     filter (\<lambda>fa. fa_type fa = type \<and> fa_userid fa = otherid \<and> favorite_page type otherid backid nextid fa db)
       (t_favorite db)"

definition select_submit_query ::
  "bool \<Rightarrow> int \<Rightarrow> int \<Rightarrow> int \<Rightarrow> int \<Rightarrow> int \<Rightarrow> 'a tags_db_scheme \<Rightarrow> favorite_item list" where
  "select_submit_query sfw_mode userid rating otherid backid nextid db =
     concat (map (\<lambda>fa. List.map_filter (\<lambda>su.
         if su_submitid su = fa_targetid fa \<and> \<not> su_hidden su
            \<and> favorite_visible sfw_mode userid rating (su_userid su) (su_rating su) (su_friends_only su)
                (macro_blocktag_submit userid su db) db
         then map_option (\<lambda>name.
           \<lparr>fi_contype = 10, fi_id = su_submitid su, fi_title = su_title su, fi_rating = su_rating su,
            fi_unixtime = fa_unixtime fa, fi_userid = su_userid su, fi_username = name,
            fi_subtype = Some (su_subtype su), fi_content = None\<rparr>) (username_of (su_userid su) db)
         else None) (t_submission db)) (favorites_of ''s'' otherid backid nextid db))"

definition select_submit_count ::
  "bool \<Rightarrow> int \<Rightarrow> int \<Rightarrow> int \<Rightarrow> int \<Rightarrow> int \<Rightarrow> 'a tags_db_scheme \<Rightarrow> int" where
  "select_submit_count sfw_mode userid rating otherid backid nextid db =
     int (length (select_submit_query sfw_mode userid rating otherid backid nextid db))"

text \<open>\<open>ORDER BY fa.unixtime [DESC] LIMIT\<close>, and the reversal of a page that was read backwards.\<close>

definition page_of :: "nat \<Rightarrow> int \<Rightarrow> favorite_item list \<Rightarrow> favorite_item list" where
  "page_of limit backid items =
     (let items = sort_key fi_unixtime items;
          query = take limit (if backid \<noteq> 0 then items else rev items)
      in if backid \<noteq> 0 then rev query else query)"

definition select_submit ::
  "bool \<Rightarrow> int \<Rightarrow> int \<Rightarrow> nat \<Rightarrow> int \<Rightarrow> int \<Rightarrow> int \<Rightarrow> 'a tags_db_scheme \<Rightarrow> favorite_item list" where
  "select_submit sfw_mode userid rating limit otherid backid nextid db =
     page_of limit backid (select_submit_query sfw_mode userid rating otherid backid nextid db)"

definition select_char ::
  "bool \<Rightarrow> int \<Rightarrow> int \<Rightarrow> nat \<Rightarrow> int \<Rightarrow> int \<Rightarrow> int \<Rightarrow> 'a tags_db_scheme \<Rightarrow> favorite_item list" where
  "select_char sfw_mode userid rating limit otherid backid nextid db =
     page_of limit backid
       (concat (map (\<lambda>fa. List.map_filter (\<lambda>ch.
         if ch_charid ch = fa_targetid fa \<and> \<not> ch_hidden ch
            \<and> favorite_visible sfw_mode userid rating (ch_userid ch) (ch_rating ch) (ch_friends_only ch)
                (macro_blocktag_char userid ch db) db
         then map_option (\<lambda>name.
           \<lparr>fi_contype = 20, fi_id = ch_charid ch, fi_title = ch_char_name ch, fi_rating = ch_rating ch,
            fi_unixtime = fa_unixtime fa, fi_userid = ch_userid ch, fi_username = name,
            fi_subtype = None, fi_content = None\<rparr>) (username_of (ch_userid ch) db)
         else None) (t_character db)) (favorites_of ''f'' otherid backid nextid db)))"

definition select_journal ::
  "bool \<Rightarrow> int \<Rightarrow> int \<Rightarrow> nat \<Rightarrow> int \<Rightarrow> int \<Rightarrow> int \<Rightarrow> 'a tags_db_scheme \<Rightarrow> favorite_item list" where
  "select_journal sfw_mode userid rating limit otherid backid nextid db =
     page_of limit backid
       (concat (map (\<lambda>fa. List.map_filter (\<lambda>jo.
         if jo_journalid jo = fa_targetid fa \<and> \<not> jo_hidden jo
            \<and> favorite_visible sfw_mode userid rating (jo_userid jo) (jo_rating jo) (jo_friends_only jo)
                (macro_blocktag_journal userid jo db) db
         then map_option (\<lambda>name.
           \<lparr>fi_contype = 30, fi_id = jo_journalid jo, fi_title = jo_title jo, fi_rating = jo_rating jo,
            fi_unixtime = fa_unixtime fa, fi_userid = jo_userid jo, fi_username = name,
            fi_subtype = None, fi_content = Some (jo_content jo)\<rparr>) (username_of (jo_userid jo) db)
         else None) (t_journal db)) (favorites_of ''j'' otherid backid nextid db)))"

subsection \<open>Adding and removing\<close>

definition favorite_type :: "int \<Rightarrow> int \<Rightarrow> string" where
  "favorite_type submitid charid = (if submitid \<noteq> 0 then ''s'' else if charid \<noteq> 0 then ''f'' else ''j'')"

text \<open>\<open>can_notify\<close> for each collector; a setting that cannot be read raises.\<close>

fun can_notify :: "int \<Rightarrow> int list \<Rightarrow> 'a content_db_scheme \<Rightarrow> int list result \<times> 'a content_db_scheme" where
  "can_notify userid [] db = (Inr [], db)"
| "can_notify userid (other # others) db =
     and_then (get_profile_settings other db) (\<lambda>other_jsonb db.
       case profile_setting other_jsonb ''allow_collection_notifs'' of
         Inl e \<Rightarrow> (Inl e, db)
       | Inr allow_notify \<Rightarrow>
           and_then (can_notify userid others db) (\<lambda>notified db.
             (Inr (if allow_notify \<and> \<not> ignoreuser_check other userid db then other # notified else notified), db)))"

fun favorite_notifications ::
  "int \<Rightarrow> int \<Rightarrow> int \<Rightarrow> int \<Rightarrow> int \<Rightarrow> int list \<Rightarrow> 'a content_db_scheme \<Rightarrow> 'a content_db_scheme result" where
  "favorite_notifications now userid submitid charid journalid [] db = Inr db"
| "favorite_notifications now userid submitid charid journalid (other # notified) db =
     (case welcome_favorite_insert now userid submitid charid journalid other db of
        Inl e \<Rightarrow> Inl e
      | Inr db \<Rightarrow> favorite_notifications now userid submitid charid journalid notified db)"

definition change_favorites :: "int \<Rightarrow> int \<Rightarrow> 'a content_db_scheme \<Rightarrow> 'a content_db_scheme" where
  "change_favorites delta submitid db =
     (if submitid \<noteq> 0 then
        db\<lparr>t_submission := update_where (\<lambda>su. su_submitid su = submitid)
              (\<lambda>su. su\<lparr>su_favorites := su_favorites su + delta\<rparr>) (t_submission db)\<rparr>
      else db)"

text \<open>
  \<open>insert_transaction\<close>: \<open>notified\<close> is the variable of the enclosing function that a second attempt
  finds filled.
\<close>

definition insert_transaction ::
  "int \<Rightarrow> int \<Rightarrow> int \<Rightarrow> int \<Rightarrow> int \<Rightarrow> int \<Rightarrow> int list \<Rightarrow> 'a content_db_scheme \<Rightarrow> int list result \<times> 'a content_db_scheme" where
  "insert_transaction now userid submitid charid journalid ownerid notified db =
     (let fa = \<lparr>fa_userid = userid, fa_targetid = get_targetid [submitid, charid, journalid],
                fa_type = favorite_type submitid charid, fa_unixtime = now\<rparr>
      in if exists_where (\<lambda>f. fa_key f = fa_key fa) (t_favorite db) then (Inr notified, db)
         else
           (let db = db\<lparr>t_favorite := t_favorite db @ [fa]\<rparr>;
                db = change_favorites 1 submitid db
            in and_then
                 (if notified = [] then
                    and_then (can_notify userid (if submitid \<noteq> 0 then collection_find_owners submitid db else []) db)
                      (\<lambda>notified db. (Inr (notified @ [ownerid]), db))
                  else (Inr notified, db))
                 (\<lambda>notified db.
                    case favorite_notifications now userid submitid charid journalid notified db of
                      Inl e \<Rightarrow> (Inl e, db)
                    | Inr db \<Rightarrow> (Inr notified, db))))"

definition favorite_target :: "int \<Rightarrow> int \<Rightarrow> int \<Rightarrow> 'a content_db_scheme \<Rightarrow> (int \<times> bool) option" where
  "favorite_target submitid charid journalid db =
     (if submitid \<noteq> 0 then
        map_option (\<lambda>su. (su_userid su, su_friends_only su)) (find (\<lambda>su. su_submitid su = submitid) (t_submission db))
      else if charid \<noteq> 0 then
        map_option (\<lambda>ch. (ch_userid ch, ch_friends_only ch)) (find (\<lambda>ch. ch_charid ch = charid) (t_character db))
      else
        map_option (\<lambda>jo. (jo_userid jo, jo_friends_only jo)) (find (\<lambda>jo. jo_journalid jo = journalid) (t_journal db)))"

text \<open>An exception in the transaction rolls the tables back; what was read into the cache stays there.\<close>

definition favorite_insert ::
  "int \<Rightarrow> int \<Rightarrow> int \<Rightarrow> int \<Rightarrow> int \<Rightarrow> 'a content_db_scheme \<Rightarrow> unit result \<times> 'a content_db_scheme" where
  "favorite_insert now userid submitid charid journalid db =
     (case favorite_target submitid charid journalid db of
        None \<Rightarrow> (Inl (WeasylError ''TargetRecordMissing''), db)
      | Some (ownerid, friends_only) \<Rightarrow>
          if userid = ownerid then (Inl (WeasylError ''CannotSelfFavorite''), db)
          else if friends_only \<and> \<not> frienduser_check userid ownerid db then (Inl (WeasylError ''FriendsOnly''), db)
          else if ignoreuser_check userid ownerid db then (Inl (WeasylError ''YouIgnored''), db)
          else if ignoreuser_check ownerid userid db then (Inl (WeasylError ''contentOwnerIgnoredYou''), db)
          else
            (case insert_transaction now userid submitid charid journalid ownerid [] db of
               (Inl e, db') \<Rightarrow> (Inl e, db\<lparr>c_all_config := c_all_config db'\<rparr>)
             | (Inr notified, db') \<Rightarrow> (Inr (), db')))"

definition favorite_remove :: "int \<Rightarrow> int \<Rightarrow> int \<Rightarrow> int \<Rightarrow> 'a content_db_scheme \<Rightarrow> 'a content_db_scheme" where
  "favorite_remove userid submitid charid journalid db =
     (let key = (userid, get_targetid [submitid, charid, journalid], favorite_type submitid charid)
      in if \<not> exists_where (\<lambda>fa. fa_key fa = key) (t_favorite db) then db
         else
           (let db = db\<lparr>t_favorite := delete_where (\<lambda>fa. fa_key fa = key) (t_favorite db)\<rparr>;
                db = change_favorites (- 1) submitid db
            in welcome_favorite_remove userid submitid charid journalid db))"

definition favorite_check :: "int \<Rightarrow> int \<Rightarrow> int \<Rightarrow> int \<Rightarrow> 'a content_db_scheme \<Rightarrow> bool" where
  "favorite_check userid submitid charid journalid db =
     (if userid = 0 then False
      else exists_where (\<lambda>fa. fa_key fa = (userid, get_targetid [submitid, charid, journalid],
                                favorite_type submitid charid)) (t_favorite db))"

definition favorite_count :: "int \<Rightarrow> string \<Rightarrow> 'a content_db_scheme \<Rightarrow> int result" where
  "favorite_count i content_type db =
     (if content_type = ''journal'' then Inr (count_where (\<lambda>fa. fa_targetid fa = i \<and> fa_type fa = ''j'') (t_favorite db))
      else if content_type = ''character'' then Inr (count_where (\<lambda>fa. fa_targetid fa = i \<and> fa_type fa = ''f'') (t_favorite db))
      else Inl ValueError)"

section \<open>Facts\<close>

interpretation favorite: unique_table fa_key t_favorite "\<lambda>rows db. db\<lparr>t_favorite := rows\<rparr>"
  by unfold_locales simp_all


subsection \<open>What adding a favorite changes\<close>

lemma config_read_can_notify: "config_read db (snd (can_notify userid others db))"
proof (induction others arbitrary: db)
  case (Cons other others)
  have "config_read s (snd (and_then (can_notify userid others s) (\<lambda>notified db. (Inr (f notified db), db))))"
    for s :: "'a content_db_scheme" and f :: "int list \<Rightarrow> 'a content_db_scheme \<Rightarrow> int list"
    by (rule config_read_and_then) (simp_all add: Cons.IH)
  then show ?case
    by (auto intro!: config_read_and_then config_read_get_profile_settings split: sum.split)
qed simp

definition wants_notification :: "int \<Rightarrow> int \<Rightarrow> 'a content_db_scheme \<Rightarrow> bool" where
  "wants_notification userid other db =
     (profile_setting (profile_jsonb other db) ''allow_collection_notifs'' = Inr True \<and> \<not> ignoreuser_check other userid db)"

lemma wants_notification_config_read:
  assumes "config_read db db'"
  shows "wants_notification userid other db' = wants_notification userid other db"
proof -
  obtain c where "db' = db\<lparr>c_all_config := c\<rparr>"
    using assms by (auto simp: config_read_def)
  then show ?thesis
    using profile_jsonb_config_read [OF assms] by (simp add: wants_notification_def ignoreuser_check_def)
qed

lemma can_notify_value:
  "config_cache_ok db \<Longrightarrow> can_notify userid others db = (Inr notified, db') \<Longrightarrow>
   notified = filter (\<lambda>other. wants_notification userid other db) others"
proof (induction others arbitrary: db notified db')
  case (Cons other others)
  from Cons.prems(2) obtain raw s where g: "get_profile_settings other db = (Inr raw, s)"
    and h: "(case profile_setting raw ''allow_collection_notifs'' of Inl e \<Rightarrow> (Inl e, s)
      | Inr allow \<Rightarrow> and_then (can_notify userid others s) (\<lambda>notified db.
          (Inr (if allow \<and> \<not> ignoreuser_check other userid db then other # notified else notified), db)))
      = (Inr notified, db')"
    by (auto simp: and_then_ok)
  then obtain allow where p: "profile_setting raw ''allow_collection_notifs'' = Inr allow"
    by (cases "profile_setting raw ''allow_collection_notifs''") auto
  with h obtain rest where n: "can_notify userid others s = (Inr rest, db')"
    and r: "notified = (if allow \<and> \<not> ignoreuser_check other userid db' then other # rest else rest)"
    by (auto simp: and_then_ok)
  have s: "config_read db s"
    using config_read_get_profile_settings [of db other] g by simp
  then have ok: "config_cache_ok s"
    using Cons.prems(1) by (simp add: config_read_def)
  have "config_read s db'"
    using config_read_can_notify [of s userid others] n by simp
  with s have all: "config_read db db'" by (rule config_read_trans)
  have "raw = profile_jsonb other db"
    by (rule get_profile_settings_value [OF Cons.prems(1)]) (simp add: g)
  moreover have "ignoreuser_check other userid db' = ignoreuser_check other userid db"
    using all by (auto simp: config_read_def ignoreuser_check_def)
  ultimately have "wants_notification userid other db = (allow \<and> \<not> ignoreuser_check other userid db')"
    using p by (auto simp: wants_notification_def)
  moreover have "rest = filter (\<lambda>other. wants_notification userid other s) others"
    by (rule Cons.IH [OF ok n])
  ultimately show ?case
    using r wants_notification_config_read [OF s] by simp
qed simp

lemma favorite_notifications_rows:
  "favorite_notifications now userid submitid charid journalid notified db = Inr db' \<Longrightarrow>
   welcome_only db db' \<and> (\<exists>new. t_welcome db' = t_welcome db @ new \<and> map we_userid new = notified
     \<and> (\<forall>we \<in> set new. we_otherid we = userid \<and> we_referid we = get_targetid [submitid, charid, journalid]
          \<and> (submitid \<noteq> 0 \<longrightarrow> we_type we = (if get_ownerid submitid 0 0 db = Some (we_userid we) then 3020 else 3050))))"
proof (induction notified arbitrary: db)
  case Nil
  then show ?case by auto
next
  case (Cons other notified)
  let ?t = "if submitid \<noteq> 0 then (if get_ownerid submitid 0 0 db = Some other then 3020 else 3050)
    else if charid \<noteq> 0 then 3100 else (3110 :: int)"
  let ?db = "add_welcome now other userid (get_targetid [submitid, charid, journalid]) 0 ?t db"
  from Cons.prems have "welcome_favorite_insert now userid submitid charid journalid other db = Inr ?db"
    by (auto simp: welcome_favorite_insert_def Let_def split: sum.splits option.splits if_splits)
  with Cons.prems have rest: "favorite_notifications now userid submitid charid journalid notified ?db = Inr db'"
    by simp
  have owner: "get_ownerid submitid 0 0 ?db = get_ownerid submitid 0 0 db"
    by (simp add: add_welcome_def get_ownerid_def submission_owner_def character_owner_def journal_owner_def)
  obtain new where new: "t_welcome db' = t_welcome ?db @ new" "map we_userid new = notified"
    "\<forall>we \<in> set new. we_otherid we = userid \<and> we_referid we = get_targetid [submitid, charid, journalid]
       \<and> (submitid \<noteq> 0 \<longrightarrow> we_type we = (if get_ownerid submitid 0 0 db = Some (we_userid we) then 3020 else 3050))"
    and only: "welcome_only ?db db'"
    using Cons.IH [OF rest] unfolding owner by blast
  obtain we where we: "t_welcome ?db = t_welcome db @ [we]" "we_userid we = other" "we_otherid we = userid"
    "we_referid we = get_targetid [submitid, charid, journalid]" "we_type we = ?t"
    using add_welcome_rows by blast
  have "welcome_only db db'"
    using only by (rule welcome_only_trans [OF welcome_only_add])
  moreover have "t_welcome db' = t_welcome db @ (we # new)" "map we_userid (we # new) = other # notified"
    using we new by simp_all
  moreover have "\<forall>we \<in> set (we # new). we_otherid we = userid \<and> we_referid we = get_targetid [submitid, charid, journalid]
       \<and> (submitid \<noteq> 0 \<longrightarrow> we_type we = (if get_ownerid submitid 0 0 db = Some (we_userid we) then 3020 else 3050))"
    using we new(3) by simp
  ultimately show ?case
    by (intro conjI exI [of _ "we # new"])
qed

definition new_favorite :: "int \<Rightarrow> int \<Rightarrow> int \<Rightarrow> int \<Rightarrow> int \<Rightarrow> favorite_row" where
  "new_favorite now userid submitid charid journalid =
     \<lparr>fa_userid = userid, fa_targetid = get_targetid [submitid, charid, journalid],
      fa_type = favorite_type submitid charid, fa_unixtime = now\<rparr>"

definition is_favorite :: "int \<Rightarrow> int \<Rightarrow> int \<Rightarrow> int \<Rightarrow> 'a content_db_scheme \<Rightarrow> bool" where
  "is_favorite userid submitid charid journalid db \<longleftrightarrow>
     exists_where (\<lambda>fa. fa_key fa = (userid, get_targetid [submitid, charid, journalid], favorite_type submitid charid))
       (t_favorite db)"

lemma change_favorites_frame:
  "t_favorite (change_favorites d i db) = t_favorite db" "t_welcome (change_favorites d i db) = t_welcome db"
  "t_collection (change_favorites d i db) = t_collection db" "c_all_config (change_favorites d i db) = c_all_config db"
  by (simp_all add: change_favorites_def)

lemma insert_transaction_new:
  assumes "\<not> is_favorite userid submitid charid journalid db"
    and "insert_transaction now userid submitid charid journalid ownerid [] db = (Inr notified, db')"
  obtains s others where
    "config_read (change_favorites 1 submitid (db\<lparr>t_favorite := t_favorite db @ [new_favorite now userid submitid charid journalid]\<rparr>)) s"
    "can_notify userid (if submitid \<noteq> 0 then collection_find_owners submitid db else [])
       (change_favorites 1 submitid (db\<lparr>t_favorite := t_favorite db @ [new_favorite now userid submitid charid journalid]\<rparr>))
       = (Inr others, s)"
    "notified = others @ [ownerid]"
    "favorite_notifications now userid submitid charid journalid notified s = Inr db'"
proof -
  let ?db = "change_favorites 1 submitid (db\<lparr>t_favorite := t_favorite db @ [new_favorite now userid submitid charid journalid]\<rparr>)"
  have owners: "collection_find_owners submitid ?db = collection_find_owners submitid db"
    by (simp add: collection_find_owners_def change_favorites_frame)
  from assms obtain s others where
    "can_notify userid (if submitid \<noteq> 0 then collection_find_owners submitid db else []) ?db = (Inr others, s)"
    "notified = others @ [ownerid]"
    "favorite_notifications now userid submitid charid journalid notified s = Inr db'"
    using owners
    by (auto simp: insert_transaction_def is_favorite_def new_favorite_def Let_def and_then_ok split: if_splits sum.splits)
  with that show thesis
    using config_read_can_notify by (metis snd_conv)
qed


lemma insert_transaction_tables:
  assumes "\<not> is_favorite userid submitid charid journalid db"
    and "insert_transaction now userid submitid charid journalid ownerid [] db = (Inr notified, db')"
  shows "t_favorite db' = t_favorite db @ [new_favorite now userid submitid charid journalid]"
    "t_submission db' = t_submission (change_favorites 1 submitid db)"
    "\<exists>new. t_welcome db' = t_welcome db @ new \<and> map we_userid new = notified
       \<and> (\<forall>we \<in> set new. we_otherid we = userid \<and> we_referid we = get_targetid [submitid, charid, journalid]
          \<and> (submitid \<noteq> 0 \<longrightarrow> we_type we = (if get_ownerid submitid 0 0 db = Some (we_userid we) then 3020 else 3050)))"
proof -
  let ?new = "new_favorite now userid submitid charid journalid"
  let ?db = "change_favorites 1 submitid (db\<lparr>t_favorite := t_favorite db @ [?new]\<rparr>)"
  obtain s where s: "config_read ?db s" "favorite_notifications now userid submitid charid journalid notified s = Inr db'"
    using insert_transaction_new [OF assms] by metis
  then obtain c where c: "s = ?db\<lparr>c_all_config := c\<rparr>"
    by (auto simp: config_read_def)
  note rows = favorite_notifications_rows [OF s(2)]
  have frame: "t_favorite db' = t_favorite s" "t_submission db' = t_submission s"
    using rows welcome_only_content(1,6) by blast+
  show "t_favorite db' = t_favorite db @ [?new]" "t_submission db' = t_submission (change_favorites 1 submitid db)"
    by (simp_all add: frame c change_favorites_def)
  have "find (\<lambda>su. su_submitid su = submitid) (update_where (\<lambda>su. su_submitid su = submitid)
         (\<lambda>su. su\<lparr>su_favorites := su_favorites su + 1\<rparr>) xs) =
      map_option (\<lambda>su. su\<lparr>su_favorites := su_favorites su + 1\<rparr>) (find (\<lambda>su. su_submitid su = submitid) xs)"
    for xs :: "submission_row list"
    by (induction xs) (auto simp: update_where_def)
  moreover have "t_welcome s = t_welcome db"
    by (simp add: c change_favorites_def)
  ultimately have same: "get_ownerid submitid 0 0 s = get_ownerid submitid 0 0 db" "t_welcome s = t_welcome db"
    by (simp_all add: c change_favorites_def get_ownerid_def submission_owner_def character_owner_def
        journal_owner_def option.map_comp comp_def)
  then show "\<exists>new. t_welcome db' = t_welcome db @ new \<and> map we_userid new = notified
       \<and> (\<forall>we \<in> set new. we_otherid we = userid \<and> we_referid we = get_targetid [submitid, charid, journalid]
          \<and> (submitid \<noteq> 0 \<longrightarrow> we_type we = (if get_ownerid submitid 0 0 db = Some (we_userid we) then 3020 else 3050)))"
    using conjunct2 [OF rows] by (simp only: same)
qed

lemma insert_transaction_old:
  "is_favorite userid submitid charid journalid db \<Longrightarrow>
   insert_transaction now userid submitid charid journalid ownerid notified db = (Inr notified, db)"
  by (simp add: insert_transaction_def is_favorite_def)

lemma favorite_insert_ok:
  assumes "favorite_insert now userid submitid charid journalid db = (Inr (), db')"
  obtains ownerid friends_only notified where
    "favorite_target submitid charid journalid db = Some (ownerid, friends_only)" "userid \<noteq> ownerid"
    "friends_only \<longrightarrow> frienduser_check userid ownerid db"
    "\<not> ignoreuser_check userid ownerid db" "\<not> ignoreuser_check ownerid userid db"
    "insert_transaction now userid submitid charid journalid ownerid [] db = (Inr notified, db')"
  using assms by (auto simp: favorite_insert_def split: option.splits prod.splits if_splits sum.splits)

lemma favorite_insert_error:
  assumes "favorite_insert now userid submitid charid journalid db = (Inl e, db')"
  shows "\<exists>c. db' = db\<lparr>c_all_config := c\<rparr>"
  using assms same_config [of db]
  by (auto simp: favorite_insert_def split: option.splits prod.splits if_splits sum.splits)

subsection \<open>The number of favorites\<close>

definition favorites_ok :: "'a content_db_scheme \<Rightarrow> bool" where
  "favorites_ok db \<longleftrightarrow>
     distinct (map fa_key (t_favorite db)) \<and>
     (\<forall>su \<in> set (t_submission db). su_submitid su \<noteq> 0 \<and>
        su_favorites su = count_where (\<lambda>fa. fa_type fa = ''s'' \<and> fa_targetid fa = su_submitid su) (t_favorite db))"

lemma favorites_ok_insert:
  assumes "favorites_ok db" "\<not> is_favorite userid submitid charid journalid db"
    and "t_favorite db' = t_favorite db @ [new_favorite now userid submitid charid journalid]"
    and "t_submission db' = t_submission (change_favorites 1 submitid db)"
  shows "favorites_ok db'"
proof -
  have "distinct (map fa_key (t_favorite db'))"
    using assms by (auto simp: favorites_ok_def is_favorite_def exists_where_iff new_favorite_def)
  moreover have "su_submitid su \<noteq> 0 \<and>
      su_favorites su = count_where (\<lambda>fa. fa_type fa = ''s'' \<and> fa_targetid fa = su_submitid su) (t_favorite db')"
    if "su \<in> set (t_submission db')" for su
  proof (cases "submitid = 0")
    case True
    then show ?thesis
      using that assms(1,3,4) by (auto simp: favorites_ok_def change_favorites_def table_simps new_favorite_def favorite_type_def)
  next
    case False
    then show ?thesis
      using that assms(1,3,4)
      by (auto simp: favorites_ok_def change_favorites_def table_simps new_favorite_def favorite_type_def)
  qed
  ultimately show ?thesis by (simp add: favorites_ok_def)
qed

lemma count_delete_key:
  assumes "distinct (map fa_key rows)" "exists_where (\<lambda>fa. fa_key fa = k) rows"
  shows "count_where P (delete_where (\<lambda>fa. fa_key fa = k) rows) =
    count_where P rows - (if P (the (find (\<lambda>fa. fa_key fa = k) rows)) then 1 else 0)"
  using assms
proof (induction rows)
  case (Cons fa rows)
  show ?case
  proof (cases "fa_key fa = k")
    case True
    have "delete_where (\<lambda>fa. fa_key fa = k) rows = rows"
    proof -
      have "k \<notin> fa_key ` set rows"
        using Cons.prems(1) unfolding list.map distinct.simps set_map True by blast
      then have "fa_key r \<noteq> k" if "r \<in> set rows" for r
        using that by blast
      then show ?thesis by (rule delete_where_idle)
    qed
    then show ?thesis
      using True by (simp add: delete_where_def count_where_def)
  next
    case False
    then have "exists_where (\<lambda>fa. fa_key fa = k) rows"
      using Cons.prems(2) by (simp add: exists_where_def)
    with False Cons show ?thesis
      by (auto simp: delete_where_def count_where_def)
  qed
qed (simp add: exists_where_def)

lemma favorites_ok_remove:
  assumes "favorites_ok db"
  shows "favorites_ok (favorite_remove userid submitid charid journalid db)"
proof (cases "is_favorite userid submitid charid journalid db")
  case False
  then show ?thesis
    using assms by (simp add: favorite_remove_def is_favorite_def Let_def)
next
  case True
  let ?k = "(userid, get_targetid [submitid, charid, journalid], favorite_type submitid charid)"
  let ?db = "favorite_remove userid submitid charid journalid db"
  have tables: "t_favorite ?db = delete_where (\<lambda>fa. fa_key fa = ?k) (t_favorite db)"
    "t_submission ?db = t_submission (change_favorites (- 1) submitid db)"
    using True by (simp_all add: favorite_remove_def is_favorite_def Let_def welcome_favorite_remove_def
        delete_welcome_def change_favorites_def)
  have keys: "distinct (map fa_key (t_favorite db))"
    using assms by (simp add: favorites_ok_def)
  obtain old where old: "find (\<lambda>fa. fa_key fa = ?k) (t_favorite db) = Some old" "fa_key old = ?k"
  proof (cases "find (\<lambda>fa. fa_key fa = ?k) (t_favorite db)")
    case None
    then show ?thesis using True by (auto simp: is_favorite_def exists_where_iff find_None_iff)
  next
    case (Some fa)
    then have "fa_key fa = ?k" using find_SomeD [OF Some] by blast
    then show ?thesis using Some by (rule that [rotated])
  qed
  note count = count_delete_key [OF keys True [unfolded is_favorite_def]]
  have kind: "fa_type old = favorite_type submitid charid" "fa_targetid old = get_targetid [submitid, charid, journalid]"
    using old(2) by simp_all
  have cnt: "count_where (\<lambda>fa. fa_type fa = ''s'' \<and> fa_targetid fa = i) (t_favorite ?db) =
      count_where (\<lambda>fa. fa_type fa = ''s'' \<and> fa_targetid fa = i) (t_favorite db) - (if submitid \<noteq> 0 \<and> i = submitid then 1 else 0)"
    if "i \<noteq> 0" for i
    by (simp only: tables count old(1) option.sel kind) (simp add: favorite_type_def that)
  have "su_submitid su \<noteq> 0 \<and>
      su_favorites su = count_where (\<lambda>fa. fa_type fa = ''s'' \<and> fa_targetid fa = su_submitid su) (t_favorite ?db)"
    if "su \<in> set (t_submission ?db)" for su
  proof -
    have "\<exists>su' \<in> set (t_submission db). su =
        (if submitid \<noteq> 0 \<and> su_submitid su' = submitid then su'\<lparr>su_favorites := su_favorites su' - 1\<rparr> else su')"
      using that unfolding tables(2) by (cases "submitid = 0") (auto simp: change_favorites_def update_where_def)
    then obtain su' where su': "su' \<in> set (t_submission db)"
      and su: "su = (if submitid \<noteq> 0 \<and> su_submitid su' = submitid then su'\<lparr>su_favorites := su_favorites su' - 1\<rparr> else su')"
      by blast
    then have i: "su_submitid su = su_submitid su'" "su_submitid su' \<noteq> 0"
      "su_favorites su' = count_where (\<lambda>fa. fa_type fa = ''s'' \<and> fa_targetid fa = su_submitid su') (t_favorite db)"
      using assms by (auto simp: favorites_ok_def)
    show ?thesis
      unfolding i(1) cnt [OF i(2)] using i(2,3) by (simp add: su)
  qed
  moreover have "distinct (map fa_key (t_favorite ?db))"
    unfolding tables by (rule distinct_map_delete_where [OF keys])
  ultimately show ?thesis by (simp add: favorites_ok_def)
qed

text \<open>
  C13: The number of favorites a submission shows is the number of favorites it has: adding a favorite,
  whether it succeeds, is a repetition or is refused, and removing one keep, for every submission,
  the column \<open>favorites\<close> equal to the number of rows of type \<open>s\<close> about it, and rows stay unique.
\<close>

theorem favorite_counts_kept:
  assumes "favorites_ok db"
  shows "favorites_ok (snd (favorite_insert now userid submitid charid journalid db))
    \<and> favorites_ok (favorite_remove userid submitid charid journalid db)"
proof -
  obtain r db' where r: "favorite_insert now userid submitid charid journalid db = (r, db')"
    by fastforce
  have "favorites_ok db'"
  proof (cases r)
    case (Inl e)
    then obtain c where "db' = db\<lparr>c_all_config := c\<rparr>"
      using favorite_insert_error r by blast
    then show ?thesis using assms by (simp add: favorites_ok_def)
  next
    case (Inr u)
    obtain ownerid notified where t: "insert_transaction now userid submitid charid journalid ownerid [] db = (Inr notified, db')"
      using favorite_insert_ok r Inr by (metis old.unit.exhaust)
    show ?thesis
    proof (cases "is_favorite userid submitid charid journalid db")
      case True
      then show ?thesis using t assms by (simp add: insert_transaction_old)
    next
      case False
      show ?thesis
        by (rule favorites_ok_insert [OF assms False insert_transaction_tables(1,2) [OF False t]])
    qed
  qed
  then show ?thesis
    using r favorites_ok_remove [OF assms] by simp
qed


definition sample_favorite :: "int \<Rightarrow> int \<Rightarrow> favorite_row" where
  "sample_favorite u i = \<lparr>fa_userid = u, fa_targetid = i, fa_type = ''s'', fa_unixtime = 70\<rparr>"

theorem favorite_counts_kept_witness:
  "let db = blank_db\<lparr>t_submission := [(sample_submission 3 5)\<lparr>su_favorites := 1\<rparr>], t_favorite := [sample_favorite 7 3]\<rparr>
   in favorites_ok (snd (favorite_insert 99 8 3 0 0 db)) \<and> t_favorite (snd (favorite_insert 99 8 3 0 0 db)) \<noteq> t_favorite db
      \<and> favorites_ok (favorite_remove 7 3 0 0 db) \<and> t_favorite (favorite_remove 7 3 0 0 db) = []"
proof -
  define db where "db = blank_db\<lparr>t_submission := [(sample_submission 3 5)\<lparr>su_favorites := 1\<rparr>], t_favorite := [sample_favorite 7 3]\<rparr>"
  have "favorites_ok db"
    by (simp add: db_def favorites_ok_def sample_submission_def sample_favorite_def)
  from favorite_counts_kept [OF this, of 99 8 3 0 0] favorite_counts_kept [OF this, of 99 7 3 0 0]
  have "favorites_ok (snd (favorite_insert 99 8 3 0 0 db))" "favorites_ok (favorite_remove 7 3 0 0 db)"
    by simp_all
  moreover have "t_favorite (snd (favorite_insert 99 8 3 0 0 db)) \<noteq> t_favorite db" "t_favorite (favorite_remove 7 3 0 0 db) = []"
    unfolding db_def by code_simp+
  ultimately show ?thesis by (simp add: db_def Let_def)
qed

text \<open>
  Favoriting a submission. When it succeeds for a submission that was not yet a favorite, the user is
  not its owner, neither ignores the other and a friends-only submission is a friend's; afterwards it is
  a favorite, and the new notifications are exactly: one for each user who has collected the
  submission, wants such notifications and does not ignore the favoriter, and one for the owner, who is
  told that it is their own (3020) while the collectors are told otherwise (3050).
\<close>

theorem favorite_insert_effect:
  assumes "config_cache_ok db" "submitid \<noteq> 0" "\<not> is_favorite userid submitid 0 0 db"
    and "favorite_insert now userid submitid 0 0 db = (Inr (), db')"
  shows "\<exists>su new. find_submission submitid db = Some su \<and> userid \<noteq> su_userid su
    \<and> \<not> ignoreuser_check userid (su_userid su) db \<and> \<not> ignoreuser_check (su_userid su) userid db
    \<and> (su_friends_only su \<longrightarrow> frienduser_check userid (su_userid su) db)
    \<and> is_favorite userid submitid 0 0 db'
    \<and> t_welcome db' = t_welcome db @ new
    \<and> map we_userid new = filter (\<lambda>other. wants_notification userid other db) (collection_find_owners submitid db) @ [su_userid su]
    \<and> (\<forall>we \<in> set new. we_otherid we = userid \<and> we_referid we = submitid
         \<and> we_type we = (if we_userid we = su_userid su then 3020 else 3050))"
proof -
  obtain ownerid friends_only notified where target: "favorite_target submitid 0 0 db = Some (ownerid, friends_only)"
    and guards: "userid \<noteq> ownerid" "friends_only \<longrightarrow> frienduser_check userid ownerid db"
      "\<not> ignoreuser_check userid ownerid db" "\<not> ignoreuser_check ownerid userid db"
    and t: "insert_transaction now userid submitid 0 0 ownerid [] db = (Inr notified, db')"
    using favorite_insert_ok [OF assms(4)] by metis
  obtain su where su: "find_submission submitid db = Some su" "ownerid = su_userid su" "friends_only = su_friends_only su"
    using target assms(2) by (auto simp: favorite_target_def find_submission_def)
  let ?db = "change_favorites 1 submitid (db\<lparr>t_favorite := t_favorite db @ [new_favorite now userid submitid 0 0]\<rparr>)"
  obtain s others where others: "can_notify userid (collection_find_owners submitid db) ?db = (Inr others, s)"
    "notified = others @ [ownerid]"
    by (rule insert_transaction_new [OF assms(3) t]) (use assms(2) that in simp)
  have frame: "wants_notification userid u ?db = wants_notification userid u db" for u
    by (simp add: change_favorites_def wants_notification_def profile_jsonb_def query_all_config_def ignoreuser_check_def
        cong: option.case_cong)
  have "config_cache_ok ?db"
    using assms(1) by (simp add: change_favorites_def coherent_def peek_all_config_def query_all_config_def
        cong: option.case_cong)
  then have others': "others = filter (\<lambda>other. wants_notification userid other db) (collection_find_owners submitid db)"
    using can_notify_value [OF _ others(1)] frame by simp
  have owner: "get_ownerid submitid 0 0 db = Some (su_userid su)"
    using su assms(2) by (simp add: get_ownerid_def submission_owner_def find_submission_def)
  have fav: "is_favorite userid submitid 0 0 db'"
    using insert_transaction_tables(1) [OF assms(3) t] by (simp add: is_favorite_def exists_where_def new_favorite_def)
  have target_id: "get_targetid [submitid, 0, 0] = submitid"
    using assms(2) by simp
  obtain new where new: "t_welcome db' = t_welcome db @ new" "map we_userid new = notified"
    "\<forall>we \<in> set new. we_otherid we = userid \<and> we_referid we = get_targetid [submitid, 0, 0]
       \<and> (submitid \<noteq> 0 \<longrightarrow> we_type we = (if get_ownerid submitid 0 0 db = Some (we_userid we) then 3020 else 3050))"
    using insert_transaction_tables(3) [OF assms(3) t] by blast
  have types: "\<forall>we \<in> set new. we_otherid we = userid \<and> we_referid we = submitid
         \<and> we_type we = (if we_userid we = su_userid su then 3020 else 3050)"
    using new(3) assms(2) unfolding owner target_id by (metis option.inject)
  show ?thesis
    using guards su(1) fav new(1,2) types unfolding others(2) others' su(2,3) by blast
qed


definition favorites_witness_db :: "unit tags_db_scheme" where
  "favorites_witness_db = blank_db\<lparr>t_submission := [sample_submission 3 5], t_collection := [sample_collection 0 3 '''']\<rparr>"

lemma favorites_witness_db_simps:
  "t_welcome favorites_witness_db = []" "config_cache_ok favorites_witness_db"
  "find_submission 3 favorites_witness_db = Some (sample_submission 3 5)" "su_userid (sample_submission 3 5) = 5"
  by (simp_all add: favorites_witness_db_def coherent_def peek_all_config_def blank_db_def find_submission_def
      sample_submission_def)

lemma favorites_witness_insert:
  "\<not> is_favorite 7 3 0 0 favorites_witness_db"
  "favorite_insert 99 7 3 0 0 favorites_witness_db = (Inr (), snd (favorite_insert 99 7 3 0 0 favorites_witness_db))"
  "filter (\<lambda>other. wants_notification 7 other favorites_witness_db) (collection_find_owners 3 favorites_witness_db) = [0]"
proof -
  have "fst (favorite_insert 99 7 3 0 0 favorites_witness_db) = Inr ()" by code_simp
  then show "favorite_insert 99 7 3 0 0 favorites_witness_db = (Inr (), snd (favorite_insert 99 7 3 0 0 favorites_witness_db))"
    by (metis prod.collapse)
qed code_simp+

theorem favorite_insert_effect_witness:
  "map (\<lambda>we. (we_userid we, we_type we)) (t_welcome (snd (favorite_insert 99 7 3 0 0 favorites_witness_db)))
     = [(0, 3050), (5, 3020)]"
proof -
  have "(3 :: int) \<noteq> 0" by simp
  from favorite_insert_effect [OF favorites_witness_db_simps(2) this favorites_witness_insert(1,2)]
  obtain su new where e: "find_submission 3 favorites_witness_db = Some su"
    "t_welcome (snd (favorite_insert 99 7 3 0 0 favorites_witness_db)) = t_welcome favorites_witness_db @ new"
    "map we_userid new = filter (\<lambda>other. wants_notification 7 other favorites_witness_db)
       (collection_find_owners 3 favorites_witness_db) @ [su_userid su]"
    "\<forall>we \<in> set new. we_otherid we = 7 \<and> we_referid we = 3 \<and> we_type we = (if we_userid we = su_userid su then 3020 else 3050)"
    by blast
  have su: "su = sample_submission 3 5"
    using e(1) by (simp add: favorites_witness_db_simps)
  have "t_welcome (snd (favorite_insert 99 7 3 0 0 favorites_witness_db)) = new"
    unfolding e(2) by (simp add: favorites_witness_db_simps)
  moreover have "map we_userid new = [0, 5]"
    unfolding e(3) favorites_witness_insert(3) su by (simp add: favorites_witness_db_simps)
  moreover have "\<forall>we \<in> set new. we_type we = (if we_userid we = 5 then 3020 else 3050)"
    using e(4) unfolding su by (simp add: favorites_witness_db_simps)
  ultimately show ?thesis by (auto simp: map_eq_Cons_conv)
qed

subsection \<open>Adding and removing, and asking again\<close>

lemma update_where_undo:
  assumes "\<And>r. P r \<Longrightarrow> P (f r) \<and> g (f r) = r"
  shows "update_where P g (update_where P f rows) = rows"
  using assms by (induction rows) (auto simp: update_where_def)

text \<open>
  A favorite that is removed again leaves no trace in the favorites and in the submissions: for every
  kind of target, after a successful first \<open>insert\<close> the pair is a favorite, inserting it again changes
  nothing at all, and \<open>remove\<close> gives back both tables as they were, with the counts of favorites.
\<close>

theorem favorite_roundtrip:
  assumes "\<not> is_favorite userid submitid charid journalid db"
    and "favorite_insert now userid submitid charid journalid db = (Inr (), db')"
  shows "is_favorite userid submitid charid journalid db'
    \<and> insert_transaction later userid submitid charid journalid ownerid [] db' = (Inr [], db')
    \<and> t_favorite (favorite_remove userid submitid charid journalid db') = t_favorite db
    \<and> t_submission (favorite_remove userid submitid charid journalid db') = t_submission db
    \<and> \<not> is_favorite userid submitid charid journalid (favorite_remove userid submitid charid journalid db')"
proof -
  obtain owner notified where t: "insert_transaction now userid submitid charid journalid owner [] db = (Inr notified, db')"
    using favorite_insert_ok [OF assms(2)] by metis
  note tables = insert_transaction_tables(1,2) [OF assms(1) t]
  have fav: "is_favorite userid submitid charid journalid db'"
    by (simp add: is_favorite_def tables(1) exists_where_def new_favorite_def)
  let ?k = "(userid, get_targetid [submitid, charid, journalid], favorite_type submitid charid)"
  have "delete_where (\<lambda>fa. fa_key fa = ?k) (t_favorite db) = t_favorite db"
    using assms(1) by (intro delete_where_idle) (auto simp: is_favorite_def exists_where_iff)
  then have old: "delete_where (\<lambda>fa. fa_key fa = ?k) (t_favorite db') = t_favorite db"
    by (simp add: tables(1) delete_where_append) (simp add: delete_where_def new_favorite_def)
  have removed: "t_favorite (favorite_remove userid submitid charid journalid db') = t_favorite db"
    "t_submission (favorite_remove userid submitid charid journalid db') = t_submission (change_favorites (- 1) submitid db')"
    using fav old by (simp_all add: favorite_remove_def is_favorite_def Let_def welcome_favorite_remove_def
        delete_welcome_def change_favorites_def)
  have "t_submission (change_favorites (- 1) submitid db') = t_submission db"
    by (simp add: change_favorites_def tables(2) update_where_undo)
  then show ?thesis
    using fav removed assms(1) by (simp add: insert_transaction_old) (simp add: is_favorite_def)
qed

theorem favorite_roundtrip_witness:
  "t_favorite (favorite_remove 7 3 0 0 (snd (favorite_insert 99 7 3 0 0 favorites_witness_db))) = t_favorite favorites_witness_db
   \<and> t_submission (favorite_remove 7 3 0 0 (snd (favorite_insert 99 7 3 0 0 favorites_witness_db))) = t_submission favorites_witness_db"
  using favorite_roundtrip [OF favorites_witness_insert(1,2)] by blast

subsection \<open>Who sees a favorite\<close>

lemma set_page_of: "set (page_of limit backid items) \<subseteq> set items"
  using set_take_subset [of limit "sort_key fi_unixtime items"] set_take_subset [of limit "rev (sort_key fi_unixtime items)"]
  by (auto simp: page_of_def Let_def)

lemma length_page_of: "length (page_of limit backid items) \<le> limit"
  by (simp add: page_of_def Let_def)

lemma page_of_descending: "sorted_wrt (\<lambda>a b. fi_unixtime a \<ge> fi_unixtime b) (page_of limit backid items)"
proof -
  have sorted: "sorted_wrt (\<lambda>a b. fi_unixtime a \<le> fi_unixtime b) (sort_key fi_unixtime items)"
    using sorted_sort_key [of fi_unixtime items] by (simp add: sorted_wrt_map)
  show ?thesis
  proof (cases "backid = 0")
    case True
    then show ?thesis
      using sorted by (simp add: page_of_def Let_def sorted_wrt_take sorted_wrt_rev)
  next
    case False
    then show ?thesis
      using sorted by (simp add: page_of_def Let_def sorted_wrt_take sorted_wrt_rev)
  qed
qed

definition item_shown ::
  "bool \<Rightarrow> int \<Rightarrow> int \<Rightarrow> int \<Rightarrow> int \<Rightarrow> bool \<Rightarrow> bool \<Rightarrow> 'a tags_db_scheme \<Rightarrow> bool" where
  "item_shown sfw_mode userid rating ownerid item_rating friends_only tags_ok db \<longleftrightarrow>
     (item_rating \<le> rating \<or> \<not> sfw_mode \<and> userid \<noteq> 0 \<and> ownerid = userid)
     \<and> (friends_only \<longrightarrow> userid \<noteq> 0 \<and> (ownerid = userid \<or> accepted_between userid ownerid db))
     \<and> (userid \<noteq> 0 \<longrightarrow> not_ignored userid ownerid db \<and> (ownerid \<noteq> userid \<longrightarrow> tags_ok))"

lemma item_shown_if_visible:
  "favorite_visible sfw_mode userid rating ownerid item_rating friends_only (ownerid = userid \<or> tags_ok) db \<Longrightarrow>
   item_shown sfw_mode userid rating ownerid item_rating friends_only tags_ok db"
  by (auto simp: favorite_visible_def item_shown_def macro_frienduser_def split: if_splits)

lemma in_joined:
  "i \<in> set (concat (map (\<lambda>fa. List.map_filter (f fa) xs) fas)) \<longleftrightarrow> (\<exists>fa \<in> set fas. \<exists>x \<in> set xs. f fa x = Some i)"
  by (auto simp: in_map_filter)

lemma page_of_joined:
  assumes "i \<in> set (page_of limit backid (concat (map (\<lambda>fa. List.map_filter
      (\<lambda>x. if C fa x then map_option (g fa x) (name_of x) else None) xs) (favorites_of type otherid backid nextid db))))"
  obtains x fa name where "x \<in> set xs" "fa \<in> set (t_favorite db)" "C fa x" "fa_userid fa = otherid" "fa_type fa = type"
    "i = g fa x name"
proof -
  from subsetD [OF set_page_of assms] obtain fa x where "fa \<in> set (favorites_of type otherid backid nextid db)" "x \<in> set xs"
    "(if C fa x then map_option (g fa x) (name_of x) else None) = Some i"
    unfolding in_joined by blast
  then show thesis
    using that by (auto simp: favorites_of_def split: if_splits)
qed

text \<open>
  C14: What a page of favorites may show, for all three kinds. A page has at most \<open>limit\<close> entries, newest
  favorite first, each of a post that is not hidden and that the listed user has as a favorite; an
  anonymous viewer sees posts within the rating that are not friends-only; a user who is logged in sees
  no post of a user they ignore, friends-only posts only of friends and their own, no post with a tag
  they block (unless it is their own), and above the rating only their own, in SFW mode not even those.
\<close>

theorem favorite_page_shows:
  "(\<forall>i \<in> set (select_submit sfw_mode userid rating limit otherid backid nextid db).
      \<exists>su \<in> set (t_submission db). \<exists>fa \<in> set (t_favorite db). fi_id i = su_submitid su \<and> \<not> su_hidden su
        \<and> fa_key fa = (otherid, su_submitid su, ''s'')
        \<and> item_shown sfw_mode userid rating (su_userid su) (su_rating su) (su_friends_only su)
            (no_blocked_tag (t_searchmapsubmit db) userid (su_submitid su) (su_rating su) db) db)
   \<and> (\<forall>i \<in> set (select_char sfw_mode userid rating limit otherid backid nextid db).
      \<exists>ch \<in> set (t_character db). \<exists>fa \<in> set (t_favorite db). fi_id i = ch_charid ch \<and> \<not> ch_hidden ch
        \<and> fa_key fa = (otherid, ch_charid ch, ''f'')
        \<and> item_shown sfw_mode userid rating (ch_userid ch) (ch_rating ch) (ch_friends_only ch)
            (no_blocked_tag (t_searchmapchar db) userid (ch_charid ch) (ch_rating ch) db) db)
   \<and> (\<forall>i \<in> set (select_journal sfw_mode userid rating limit otherid backid nextid db).
      \<exists>jo \<in> set (t_journal db). \<exists>fa \<in> set (t_favorite db). fi_id i = jo_journalid jo \<and> \<not> jo_hidden jo
        \<and> fa_key fa = (otherid, jo_journalid jo, ''j'')
        \<and> item_shown sfw_mode userid rating (jo_userid jo) (jo_rating jo) (jo_friends_only jo)
            (no_blocked_tag (t_searchmapjournal db) userid (jo_journalid jo) (jo_rating jo) db) db)
   \<and> (\<forall>page \<in> {select_submit sfw_mode userid rating limit otherid backid nextid db,
               select_char sfw_mode userid rating limit otherid backid nextid db,
               select_journal sfw_mode userid rating limit otherid backid nextid db}.
        length page \<le> limit \<and> sorted_wrt (\<lambda>a b. fi_unixtime a \<ge> fi_unixtime b) page)"
proof (intro conjI ballI)
  fix i
  assume "i \<in> set (select_submit sfw_mode userid rating limit otherid backid nextid db)"
  then show "\<exists>su \<in> set (t_submission db). \<exists>fa \<in> set (t_favorite db). fi_id i = su_submitid su \<and> \<not> su_hidden su
        \<and> fa_key fa = (otherid, su_submitid su, ''s'')
        \<and> item_shown sfw_mode userid rating (su_userid su) (su_rating su) (su_friends_only su)
            (no_blocked_tag (t_searchmapsubmit db) userid (su_submitid su) (su_rating su) db) db"
    unfolding select_submit_def select_submit_query_def
    by (elim page_of_joined) (auto simp: macro_blocktag_submit_def intro!: item_shown_if_visible bexI)
next
  fix i
  assume "i \<in> set (select_char sfw_mode userid rating limit otherid backid nextid db)"
  then show "\<exists>ch \<in> set (t_character db). \<exists>fa \<in> set (t_favorite db). fi_id i = ch_charid ch \<and> \<not> ch_hidden ch
        \<and> fa_key fa = (otherid, ch_charid ch, ''f'')
        \<and> item_shown sfw_mode userid rating (ch_userid ch) (ch_rating ch) (ch_friends_only ch)
            (no_blocked_tag (t_searchmapchar db) userid (ch_charid ch) (ch_rating ch) db) db"
    unfolding select_char_def
    by (elim page_of_joined) (auto simp: macro_blocktag_char_def intro!: item_shown_if_visible bexI)
next
  fix i
  assume "i \<in> set (select_journal sfw_mode userid rating limit otherid backid nextid db)"
  then show "\<exists>jo \<in> set (t_journal db). \<exists>fa \<in> set (t_favorite db). fi_id i = jo_journalid jo \<and> \<not> jo_hidden jo
        \<and> fa_key fa = (otherid, jo_journalid jo, ''j'')
        \<and> item_shown sfw_mode userid rating (jo_userid jo) (jo_rating jo) (jo_friends_only jo)
            (no_blocked_tag (t_searchmapjournal db) userid (jo_journalid jo) (jo_rating jo) db) db"
    unfolding select_journal_def
    by (elim page_of_joined) (auto simp: macro_blocktag_journal_def intro!: item_shown_if_visible bexI)
next
  fix page
  assume "page \<in> {select_submit sfw_mode userid rating limit otherid backid nextid db,
      select_char sfw_mode userid rating limit otherid backid nextid db,
      select_journal sfw_mode userid rating limit otherid backid nextid db}"
  then obtain items where "page = page_of limit backid items"
    by (auto simp: select_submit_def select_char_def select_journal_def)
  then show "length page \<le> limit" "sorted_wrt (\<lambda>a b. fi_unixtime a \<ge> fi_unixtime b) page"
    by (simp_all add: length_page_of page_of_descending)
qed


theorem favorite_page_shows_witness:
  "let db = favorites_witness_db\<lparr>t_favorite := [sample_favorite 7 3], t_profile := [sample_profile 5 ''ann'' []]\<rparr>
   in map fi_id (select_submit False 0 10 5 7 0 0 db) = [3] \<and> select_submit False 0 5 5 7 0 0 db = []
      \<and> (\<forall>i \<in> set (select_submit False 0 10 5 7 0 0 db). \<exists>su \<in> set (t_submission db). fi_id i = su_submitid su \<and> \<not> su_hidden su)"
proof -
  define db where "db = favorites_witness_db\<lparr>t_favorite := [sample_favorite 7 3], t_profile := [sample_profile 5 ''ann'' []]\<rparr>"
  have "\<forall>i \<in> set (select_submit False 0 10 5 7 0 0 db). \<exists>su \<in> set (t_submission db). fi_id i = su_submitid su \<and> \<not> su_hidden su"
    using conjunct1 [OF favorite_page_shows [of False 0 10 5 7 0 0 db]] by blast
  moreover have "map fi_id (select_submit False 0 10 5 7 0 0 db) = [3]" "select_submit False 0 5 5 7 0 0 db = []"
    unfolding db_def by code_simp+
  ultimately show ?thesis by (simp add: db_def Let_def)
qed

end
