(* ===== verification/Comments.thy ===== *)
theory Comments
  imports Favorites "HOL-Library.Multiset"
begin

text \<open>
  Comments and shouts, \<^verbatim>\<open>weasyl/comment.py\<close> and \<^verbatim>\<open>weasyl/shout.py\<close>: the order a thread is displayed in,
  which comments a user sees, writing a comment with its permissions and notifications, and hiding it.
  Comments lie in four tables: \<open>comments\<close> (of submissions, and the shouts of a user's page),
  \<open>charcomment\<close>, \<open>journalcomment\<close> (whose missing parent is 0) and \<open>siteupdatecomment\<close>;
  \<open>comment_infos\<close> reads all of them alike. \<open>now\<close> is the clock with the offset the site stores times
  with; the media of the authors are left out.
\<close>

subsection \<open>The display order of a thread\<close>

record thread_row =
  tr_commentid :: int
  tr_parentid :: "int option"
  tr_userid :: int
  tr_username :: string
  tr_content :: string
  tr_unixtime :: int
  tr_hidden :: bool
  tr_hidden_by :: "int option"

record thread_comment =
  tc_commentid :: int
  tc_userid :: int
  tc_username :: string
  tc_content :: string
  tc_unixtime :: int
  tc_indent :: int
  tc_hidden :: bool
  tc_hidden_by :: "int option"

text \<open>The dictionary \<open>by_parent\<close>: the indent of a comment (or of the page) and the replies to it so far.\<close>

type_synonym by_parent = "int option \<Rightarrow> (int \<times> thread_comment list) option"

definition row_parent :: "thread_row \<Rightarrow> int option" where
  "row_parent row = (case tr_parentid row of None \<Rightarrow> None | Some p \<Rightarrow> if p = 0 then None else Some p)"

definition row_comment :: "int \<Rightarrow> thread_row \<Rightarrow> thread_comment" where
  "row_comment indent row =
     \<lparr>tc_commentid = tr_commentid row, tc_userid = tr_userid row, tc_username = tr_username row,
      tc_content = tr_content row, tc_unixtime = tr_unixtime row, tc_indent = indent,
      tc_hidden = tr_hidden row, tc_hidden_by = tr_hidden_by row\<rparr>"

definition thread_step :: "thread_row \<Rightarrow> by_parent \<Rightarrow> by_parent" where
  "thread_step row by_parent =
     (case by_parent (row_parent row) of
        None \<Rightarrow> by_parent
      | Some (parent_indent, siblings) \<Rightarrow>
          by_parent(row_parent row \<mapsto> (parent_indent, siblings @ [row_comment (parent_indent + 1) row]),
                    Some (tr_commentid row) \<mapsto> (parent_indent + 1, [])))"

text \<open>
  \<open>_add_with_descendants\<close>; \<open>depth\<close> bounds the nesting, \<open>None\<close> is a bound too small or a \<open>KeyError\<close>. The number of rows
  is bound enough; CPython's limit on the depth of recursion, about a thousand levels of replies, is left out.
\<close>

fun add_with_descendants ::
  "nat \<Rightarrow> by_parent \<Rightarrow> thread_comment list \<Rightarrow> bool \<Rightarrow> thread_comment list option" where
  "add_with_descendants depth by_parent [] hidden = Some []"
| "add_with_descendants 0 by_parent (c # comments) hidden = None"
| "add_with_descendants (Suc depth) by_parent (c # comments) hidden =
     (let c = (if hidden then c\<lparr>tc_hidden := True\<rparr> else c)
      in case by_parent (Some (tc_commentid c)) of
           None \<Rightarrow> None
         | Some (_, replies) \<Rightarrow>
             (case add_with_descendants depth by_parent replies (tc_hidden c) of
                None \<Rightarrow> None
              | Some below \<Rightarrow>
                  (case add_with_descendants (Suc depth) by_parent comments hidden of
                     None \<Rightarrow> None
                   | Some rest \<Rightarrow> Some (c # below @ rest))))"

definition thread_index :: "thread_row list \<Rightarrow> by_parent" where
  "thread_index query = fold thread_step query [None \<mapsto> (-1, [])]"

definition thread :: "thread_row list \<Rightarrow> bool \<Rightarrow> thread_comment list option" where
  "thread query reverse_top_level =
     (let by_parent = thread_index query;
          top_level = (case by_parent None of None \<Rightarrow> [] | Some (_, comments) \<Rightarrow> comments)
      in add_with_descendants (length query) by_parent
           (if reverse_top_level then rev top_level else top_level) False)"

subsection \<open>The four tables\<close>

record comment_info =
  kc_target :: int
  kc_row :: thread_row

definition has_author :: "'a accounts_db_scheme \<Rightarrow> int \<Rightarrow> (string \<Rightarrow> 'r) \<Rightarrow> 'r option" where
  "has_author db userid f = map_option (\<lambda>pr. f (pr_username pr)) (profile_of userid db)"

definition comment_row_info :: "'a accounts_db_scheme \<Rightarrow> int option \<Rightarrow> comments_row \<Rightarrow> comment_info option" where
  "comment_row_info db target cm =
     Option.bind target (\<lambda>t. has_author db (cm_userid cm) (\<lambda>name.
       \<lparr>kc_target = t, kc_row =
         \<lparr>tr_commentid = cm_commentid cm, tr_parentid = cm_parentid cm, tr_userid = cm_userid cm, tr_username = name,
          tr_content = cm_content cm, tr_unixtime = cm_unixtime cm, tr_hidden = has_flag (CHR ''h'') (cm_settings cm),
          tr_hidden_by = cm_hidden_by cm\<rparr>\<rparr>))"

fun comment_infos :: "comment_feature \<Rightarrow> 'a content_db_scheme \<Rightarrow> comment_info list" where
  "comment_infos CF_shout db = List.map_filter (\<lambda>cm. comment_row_info db (cm_target_user cm) cm) (t_comments db)"
| "comment_infos CF_submit db = List.map_filter (\<lambda>cm. comment_row_info db (cm_target_sub cm) cm) (t_comments db)"
| "comment_infos CF_char db = List.map_filter (\<lambda>cc. has_author db (cc_userid cc) (\<lambda>name.
       \<lparr>kc_target = cc_targetid cc, kc_row =
         \<lparr>tr_commentid = cc_commentid cc, tr_parentid = Some (cc_parentid cc), tr_userid = cc_userid cc, tr_username = name,
          tr_content = cc_content cc, tr_unixtime = cc_unixtime cc, tr_hidden = has_flag (CHR ''h'') (cc_settings cc),
          tr_hidden_by = cc_hidden_by cc\<rparr>\<rparr>)) (t_charcomment db)"
| "comment_infos CF_journal db = List.map_filter (\<lambda>jc. has_author db (jc_userid jc) (\<lambda>name.
       \<lparr>kc_target = jc_targetid jc, kc_row =
         \<lparr>tr_commentid = jc_commentid jc, tr_parentid = Some (jc_parentid jc), tr_userid = jc_userid jc, tr_username = name,
          tr_content = jc_content jc, tr_unixtime = jc_unixtime jc, tr_hidden = has_flag (CHR ''h'') (jc_settings jc),
          tr_hidden_by = jc_hidden_by jc\<rparr>\<rparr>)) (t_journalcomment db)"
| "comment_infos CF_siteupdate db = List.map_filter (\<lambda>sc. has_author db (sc_userid sc) (\<lambda>name.
       \<lparr>kc_target = sc_targetid sc, kc_row =
         \<lparr>tr_commentid = sc_commentid sc, tr_parentid = sc_parentid sc, tr_userid = sc_userid sc, tr_username = name,
          tr_content = sc_content sc, tr_unixtime = sc_created_at sc + UNIXTIME_OFFSET, tr_hidden = (sc_hidden_at sc \<noteq> None),
          tr_hidden_by = sc_hidden_by sc\<rparr>\<rparr>)) (t_siteupdatecomment db)"

definition comment_target :: "int \<Rightarrow> int \<Rightarrow> int \<Rightarrow> int \<Rightarrow> (comment_feature \<times> int) result" where
  "comment_target submitid charid journalid updateid =
     (if submitid \<noteq> 0 then Inr (CF_submit, submitid)
      else if charid \<noteq> 0 then Inr (CF_char, charid)
      else if journalid \<noteq> 0 then Inr (CF_journal, journalid)
      else if updateid \<noteq> 0 then Inr (CF_siteupdate, updateid)
      else Inl (WeasylError ''Unexpected''))"

definition visible_rows ::
  "staff_sets \<Rightarrow> int \<Rightarrow> comment_info list \<Rightarrow> int \<Rightarrow> 'a social_db_scheme \<Rightarrow> thread_row list" where
  "visible_rows st userid infos targetid db =
     sort_key tr_commentid (map kc_row (filter (\<lambda>k. kc_target k = targetid
        \<and> (userid \<notin> MODS st \<longrightarrow> \<not> tr_hidden (kc_row k))
        \<and> (userid \<noteq> 0 \<longrightarrow> not_ignored userid (tr_userid (kc_row k)) db)) infos))"

definition comment_select ::
  "staff_sets \<Rightarrow> int \<Rightarrow> int \<Rightarrow> int \<Rightarrow> int \<Rightarrow> int \<Rightarrow> 'a content_db_scheme \<Rightarrow> thread_comment list option result" where
  "comment_select st userid submitid charid journalid updateid db =
     (case comment_target submitid charid journalid updateid of
        Inl e \<Rightarrow> Inl e
      | Inr (feature, targetid) \<Rightarrow> Inr (thread (visible_rows st userid (comment_infos feature db) targetid db) False))"


subsection \<open>Writing a comment\<close>

text \<open>The author of the comment that is replied to, 0 when there is none.\<close>

definition comment_authors :: "comment_feature \<Rightarrow> int \<Rightarrow> 'a content_db_scheme \<Rightarrow> (int \<times> int) list" where
  "comment_authors feature targetid db =
     (case feature of
        CF_shout \<Rightarrow> map (\<lambda>cm. (cm_commentid cm, cm_userid cm)) (filter (\<lambda>cm. cm_target_user cm = Some targetid) (t_comments db))
      | CF_submit \<Rightarrow> map (\<lambda>cm. (cm_commentid cm, cm_userid cm)) (filter (\<lambda>cm. cm_target_sub cm = Some targetid) (t_comments db))
      | CF_char \<Rightarrow> map (\<lambda>cc. (cc_commentid cc, cc_userid cc)) (filter (\<lambda>cc. cc_targetid cc = targetid) (t_charcomment db))
      | CF_journal \<Rightarrow> map (\<lambda>jc. (jc_commentid jc, jc_userid jc)) (filter (\<lambda>jc. jc_targetid jc = targetid) (t_journalcomment db))
      | CF_siteupdate \<Rightarrow> map (\<lambda>sc. (sc_commentid sc, sc_userid sc)) (filter (\<lambda>sc. sc_targetid sc = targetid) (t_siteupdatecomment db)))"

definition parent_author :: "(int \<times> int) list \<Rightarrow> int \<Rightarrow> int result" where
  "parent_author authors parentid =
     (if parentid \<noteq> 0 then
        (case map_of authors parentid of None \<Rightarrow> Inl (WeasylError ''Unexpected'') | Some u \<Rightarrow> Inr u)
      else Inr 0)"

text \<open>The owner of the page, after the checks on it.\<close>

definition page_owner :: "int \<Rightarrow> comment_feature \<Rightarrow> int \<Rightarrow> 'a content_db_scheme \<Rightarrow> int result" where
  "page_owner userid feature targetid db =
     (if feature = CF_siteupdate then
        (case find (\<lambda>s. sit_updateid s = targetid) (t_siteupdate db) of
           None \<Rightarrow> Inl (WeasylError ''submissionRecordMissing'')
         | Some s \<Rightarrow> if sit_userid s = 0 then Inl (WeasylError ''submissionRecordMissing'') else Inr (sit_userid s))
      else
        (let target =
           (if feature = CF_submit then
              map_option (\<lambda>su. (su_userid su, su_friends_only su))
                (find (\<lambda>su. su_submitid su = targetid \<and> \<not> su_hidden su) (t_submission db))
            else if feature = CF_char then
              map_option (\<lambda>ch. (ch_userid ch, ch_friends_only ch))
                (find (\<lambda>ch. ch_charid ch = targetid \<and> \<not> ch_hidden ch) (t_character db))
            else
              map_option (\<lambda>jo. (jo_userid jo, jo_friends_only jo))
                (find (\<lambda>jo. jo_journalid jo = targetid \<and> \<not> jo_hidden jo) (t_journal db)))
         in case target of
              None \<Rightarrow> Inl (WeasylError ''submissionRecordMissing'')
            | Some (ownerid, friends_only) \<Rightarrow>
                if friends_only \<and> \<not> frienduser_check userid ownerid db then Inl (WeasylError ''submissionRecordMissing'')
                else if ignoreuser_check ownerid userid db then Inl (WeasylError ''pageOwnerIgnoredYou'')
                else if ignoreuser_check userid ownerid db then Inl (WeasylError ''youIgnoredPageOwner'')
                else Inr ownerid))"

definition nullable :: "int \<Rightarrow> int option" where
  "nullable i = (if i = 0 then None else Some i)"

definition add_comments_row ::
  "int \<Rightarrow> int \<Rightarrow> int option \<Rightarrow> int option \<Rightarrow> int \<Rightarrow> string \<Rightarrow> string \<Rightarrow> 'a content_db_scheme \<Rightarrow> int \<times> 'a content_db_scheme" where
  "add_comments_row now userid target_user target_sub parentid content settings db =
     (comments_seq db,
      db\<lparr>t_comments := t_comments db @
           [\<lparr>cm_commentid = comments_seq db, cm_userid = userid, cm_target_user = target_user, cm_target_sub = target_sub,
             cm_parentid = nullable parentid, cm_content = content, cm_unixtime = now, cm_settings = settings,
             cm_hidden_by = None\<rparr>],
         comments_seq := comments_seq db + 1\<rparr>)"

definition add_comment ::
  "int \<Rightarrow> comment_feature \<Rightarrow> int \<Rightarrow> int \<Rightarrow> int \<Rightarrow> string \<Rightarrow> 'a content_db_scheme \<Rightarrow> int \<times> 'a content_db_scheme" where
  "add_comment now feature userid targetid parentid content db =
     (case feature of
        CF_shout \<Rightarrow> add_comments_row now userid (Some targetid) None parentid content [] db
      | CF_submit \<Rightarrow> add_comments_row now userid None (Some targetid) parentid content [] db
      | CF_char \<Rightarrow>
          (charcomment_seq db,
           db\<lparr>t_charcomment := t_charcomment db @
                [\<lparr>cc_commentid = charcomment_seq db, cc_userid = userid, cc_targetid = targetid, cc_parentid = parentid,
                  cc_content = content, cc_unixtime = now, cc_settings = [], cc_hidden_by = None\<rparr>],
              charcomment_seq := charcomment_seq db + 1\<rparr>)
      | CF_journal \<Rightarrow>
          (journalcomment_seq db,
           db\<lparr>t_journalcomment := t_journalcomment db @
                [\<lparr>jc_commentid = journalcomment_seq db, jc_userid = userid, jc_targetid = targetid, jc_parentid = parentid,
                  jc_content = content, jc_unixtime = now, jc_settings = [], jc_hidden_by = None\<rparr>],
              journalcomment_seq := journalcomment_seq db + 1\<rparr>)
      | CF_siteupdate \<Rightarrow>
          (siteupdatecomment_seq db,
           db\<lparr>t_siteupdatecomment := t_siteupdatecomment db @
                [\<lparr>sc_commentid = siteupdatecomment_seq db, sc_userid = userid, sc_targetid = targetid,
                  sc_parentid = nullable parentid, sc_content = content, sc_created_at = now - UNIXTIME_OFFSET,
                  sc_hidden_at = None, sc_hidden_by = None\<rparr>],
              siteupdatecomment_seq := siteupdatecomment_seq db + 1,
              c_select_last := None\<rparr>))"

fun comment_notifications ::
  "int \<Rightarrow> int \<Rightarrow> int \<Rightarrow> int list \<Rightarrow> int \<Rightarrow> int \<Rightarrow> int \<Rightarrow> int \<Rightarrow> 'a content_db_scheme \<Rightarrow> 'a content_db_scheme result" where
  "comment_notifications now userid commentid [] submitid charid journalid updateid db = Inr db"
| "comment_notifications now userid commentid (other # notified) submitid charid journalid updateid db =
     (case welcome_comment_insert now userid commentid other submitid charid journalid updateid db of
        Inl e \<Rightarrow> Inl e
      | Inr db \<Rightarrow> comment_notifications now userid commentid notified submitid charid journalid updateid db)"

definition notify_comment ::
  "int \<Rightarrow> int \<Rightarrow> int \<Rightarrow> int \<Rightarrow> int \<Rightarrow> int \<Rightarrow> int \<Rightarrow> int \<Rightarrow> int \<Rightarrow> int \<Rightarrow> 'a content_db_scheme
     \<Rightarrow> int result \<times> 'a content_db_scheme" where
  "notify_comment now userid commentid parentid parentuserid otherid submitid charid journalid updateid db =
     (if parentid \<noteq> 0 \<and> userid \<noteq> parentuserid then
        (case welcome_commentreply_insert now userid commentid parentuserid parentid submitid charid journalid updateid db of
           Inl e \<Rightarrow> (Inl e, db)
         | Inr db \<Rightarrow> (Inr commentid, db))
      else if parentid = 0 then
        and_then (if submitid \<noteq> 0 then can_notify userid (collection_find_owners submitid db) db else (Inr [], db))
          (\<lambda>notified db.
             case comment_notifications now userid commentid
                    (filter (\<lambda>other. other \<noteq> userid) (remdups (notified @ [otherid])))
                    submitid charid journalid updateid db of
               Inl e \<Rightarrow> (Inl e, db)
             | Inr db \<Rightarrow> (Inr commentid, db))
      else (Inr commentid, db))"

definition comment_insert ::
  "int \<Rightarrow> int \<Rightarrow> int \<Rightarrow> int \<Rightarrow> int \<Rightarrow> int \<Rightarrow> int \<Rightarrow> string \<Rightarrow> 'a content_db_scheme \<Rightarrow> int result \<times> 'a content_db_scheme" where
  "comment_insert now userid submitid charid journalid updateid parentid content db =
     (case comment_target submitid charid journalid updateid of
        Inl e \<Rightarrow> (Inl e, db)
      | Inr (feature, targetid) \<Rightarrow>
          if length (filter (\<lambda>i. i \<noteq> 0) [submitid, charid, journalid, updateid]) > 1 then (Inl (WeasylError ''Unexpected''), db)
          else if content = [] then (Inl (WeasylError ''commentInvalid''), db)
          else
            (case parent_author (comment_authors feature targetid db) parentid of
               Inl e \<Rightarrow> (Inl e, db)
             | Inr parentuserid \<Rightarrow>
                 (case page_owner userid feature targetid db of
                    Inl e \<Rightarrow> (Inl e, db)
                  | Inr otherid \<Rightarrow>
                      if parentuserid \<noteq> 0 \<and> ignoreuser_check parentuserid userid db
                      then (Inl (WeasylError ''replyRecipientIgnoredYou''), db)
                      else if parentuserid \<noteq> 0 \<and> ignoreuser_check userid parentuserid db
                      then (Inl (WeasylError ''youIgnoredReplyRecipient''), db)
                      else
                        (let (commentid, db) = add_comment now feature userid targetid parentid content db
                         in notify_comment now userid commentid parentid parentuserid otherid
                              submitid charid journalid updateid db))))"


subsection \<open>Hiding a comment\<close>

text \<open>The comments of a feature that are not hidden, as id, author, target and parent.\<close>

definition visible_comments :: "comment_feature \<Rightarrow> 'a content_db_scheme \<Rightarrow> (int \<times> int \<times> int \<times> int option) list" where
  "visible_comments feature db =
     (case feature of
        CF_shout \<Rightarrow> []
      | CF_submit \<Rightarrow> List.map_filter (\<lambda>cm. map_option (\<lambda>t. (cm_commentid cm, cm_userid cm, t, cm_parentid cm)) (cm_target_sub cm))
          (filter (\<lambda>cm. \<not> has_flag (CHR ''h'') (cm_settings cm)) (t_comments db))
      | CF_char \<Rightarrow> map (\<lambda>cc. (cc_commentid cc, cc_userid cc, cc_targetid cc, Some (cc_parentid cc)))
          (filter (\<lambda>cc. \<not> has_flag (CHR ''h'') (cc_settings cc)) (t_charcomment db))
      | CF_journal \<Rightarrow> map (\<lambda>jc. (jc_commentid jc, jc_userid jc, jc_targetid jc, Some (jc_parentid jc)))
          (filter (\<lambda>jc. \<not> has_flag (CHR ''h'') (jc_settings jc)) (t_journalcomment db))
      | CF_siteupdate \<Rightarrow> map (\<lambda>sc. (sc_commentid sc, sc_userid sc, sc_targetid sc, sc_parentid sc))
          (filter (\<lambda>sc. sc_hidden_at sc = None) (t_siteupdatecomment db)))"

text \<open>\<open>has_replies\<close> looks at all rows of the table of the feature that are not hidden.\<close>

definition has_visible_reply :: "comment_feature \<Rightarrow> int \<Rightarrow> 'a content_db_scheme \<Rightarrow> bool" where
  "has_visible_reply feature commentid db =
     (if feature = CF_submit then
        exists_where (\<lambda>cm. cm_parentid cm = Some commentid \<and> \<not> has_flag (CHR ''h'') (cm_settings cm)) (t_comments db)
      else exists_where (\<lambda>(_, _, _, p). p = Some commentid) (visible_comments feature db))"

definition hide_comments_row :: "int \<Rightarrow> int \<Rightarrow> 'a content_db_scheme \<Rightarrow> 'a content_db_scheme" where
  "hide_comments_row userid commentid db =
     db\<lparr>t_comments := update_where (\<lambda>cm. cm_commentid cm = commentid \<and> \<not> has_flag (CHR ''h'') (cm_settings cm))
          (\<lambda>cm. cm\<lparr>cm_settings := cm_settings cm @ ''h'', cm_hidden_by := Some userid\<rparr>) (t_comments db)\<rparr>"

definition hide_comment :: "int \<Rightarrow> int \<Rightarrow> comment_feature \<Rightarrow> int \<Rightarrow> 'a content_db_scheme \<Rightarrow> 'a content_db_scheme" where
  "hide_comment now userid feature commentid db =
     (case feature of
        CF_shout \<Rightarrow> hide_comments_row userid commentid db
      | CF_submit \<Rightarrow> hide_comments_row userid commentid db
      | CF_char \<Rightarrow>
          db\<lparr>t_charcomment := update_where (\<lambda>cc. cc_commentid cc = commentid \<and> \<not> has_flag (CHR ''h'') (cc_settings cc))
               (\<lambda>cc. cc\<lparr>cc_settings := cc_settings cc @ ''h'', cc_hidden_by := Some userid\<rparr>) (t_charcomment db)\<rparr>
      | CF_journal \<Rightarrow>
          db\<lparr>t_journalcomment := update_where (\<lambda>jc. jc_commentid jc = commentid \<and> \<not> has_flag (CHR ''h'') (jc_settings jc))
               (\<lambda>jc. jc\<lparr>jc_settings := jc_settings jc @ ''h'', jc_hidden_by := Some userid\<rparr>) (t_journalcomment db)\<rparr>
      | CF_siteupdate \<Rightarrow>
          db\<lparr>t_siteupdatecomment := update_where (\<lambda>sc. sc_commentid sc = commentid \<and> sc_hidden_at sc = None)
               (\<lambda>sc. sc\<lparr>sc_hidden_at := Some (now - UNIXTIME_OFFSET), sc_hidden_by := Some userid\<rparr>) (t_siteupdatecomment db),
             c_select_last := None\<rparr>)"

definition target_owner :: "comment_feature \<Rightarrow> int \<Rightarrow> 'a content_db_scheme \<Rightarrow> int option" where
  "target_owner feature targetid db =
     (case feature of
        CF_submit \<Rightarrow> submission_owner targetid db
      | CF_char \<Rightarrow> character_owner targetid db
      | CF_journal \<Rightarrow> journal_owner targetid db
      | _ \<Rightarrow> None)"

definition comment_remove ::
  "staff_sets \<Rightarrow> int \<Rightarrow> int \<Rightarrow> comment_feature \<Rightarrow> int \<Rightarrow> 'a content_db_scheme \<Rightarrow> int result \<times> 'a content_db_scheme" where
  "comment_remove st now userid feature commentid db =
     (if feature = CF_shout then (Inl (WeasylError ''Unexpected''), db)
      else
        (case map_of (visible_comments feature db) commentid of
           None \<Rightarrow> (Inl (WeasylError ''RecordMissing''), db)
         | Some (author, target, _) \<Rightarrow>
             if target_owner feature target db \<noteq> Some userid \<and> userid \<notin> MODS st
                \<and> (userid \<noteq> author \<or> has_visible_reply feature commentid db)
             then (Inl (WeasylError ''InsufficientPermissions''), db)
             else (Inr target, hide_comment now userid feature commentid (welcome_comment_remove commentid feature db))))"

definition comment_count :: "int \<Rightarrow> string \<Rightarrow> 'a content_db_scheme \<Rightarrow> int result" where
  "comment_count i contenttype db =
     (if contenttype = ''submission'' then Inr (count_where (\<lambda>cm. cm_target_sub cm = Some i) (t_comments db))
      else if contenttype = ''journal'' then Inr (count_where (\<lambda>jc. jc_targetid jc = i) (t_journalcomment db))
      else if contenttype = ''character'' then Inr (count_where (\<lambda>cc. cc_targetid cc = i) (t_charcomment db))
      else Inl ValueError)"

subsection \<open>Shouts\<close>

definition shout_infos :: "bool \<Rightarrow> 'a content_db_scheme \<Rightarrow> comment_info list" where
  "shout_infos staffnotes db =
     List.map_filter (\<lambda>cm. comment_row_info db (cm_target_user cm) cm)
       (filter (\<lambda>cm. has_flag (CHR ''s'') (cm_settings cm) = staffnotes) (t_comments db))"

definition shout_select ::
  "staff_sets \<Rightarrow> int \<Rightarrow> int \<Rightarrow> nat \<Rightarrow> bool \<Rightarrow> 'a content_db_scheme \<Rightarrow> thread_comment list option" where
  "shout_select st userid ownerid limit staffnotes db =
     map_option (\<lambda>result. if limit \<noteq> 0 then take limit result else result)
       (thread (visible_rows st userid (shout_infos staffnotes db) ownerid db) True)"

definition count_staff_notes :: "int \<Rightarrow> 'a content_db_scheme \<Rightarrow> int" where
  "count_staff_notes ownerid db =
     count_where (\<lambda>cm. has_flag (CHR ''s'') (cm_settings cm) \<and> cm_target_user cm = Some ownerid) (t_comments db)"

definition shout_authors :: "bool \<Rightarrow> int \<Rightarrow> 'a content_db_scheme \<Rightarrow> (int \<times> int) list" where
  "shout_authors staffnotes target_user db =
     map (\<lambda>cm. (cm_commentid cm, cm_userid cm))
       (filter (\<lambda>cm. cm_target_user cm = Some target_user \<and> has_flag (CHR ''s'') (cm_settings cm) = staffnotes) (t_comments db))"

text \<open>The permission checks of users who are not moderators.\<close>

definition shout_permission ::
  "int \<Rightarrow> int \<Rightarrow> int \<Rightarrow> 'a content_db_scheme \<Rightarrow> unit result \<times> 'a content_db_scheme" where
  "shout_permission userid target_user parentuserid db =
     (if ignoreuser_check target_user userid db then (Inl (WeasylError ''pageOwnerIgnoredYou''), db)
      else if ignoreuser_check userid target_user db then (Inl (WeasylError ''youIgnoredPageOwner''), db)
      else if ignoreuser_check parentuserid userid db then (Inl (WeasylError ''replyRecipientIgnoredYou''), db)
      else if ignoreuser_check userid parentuserid db then (Inl (WeasylError ''youIgnoredReplyRecipient''), db)
      else
        and_then (get_login_settings target_user db) (\<lambda>(banned, _) db.
          and_then (get_config target_user db) (\<lambda>profile_config db.
            if banned \<or> has_flag (CHR ''w'') profile_config
               \<or> has_flag (CHR ''x'') profile_config \<and> \<not> frienduser_check userid target_user db
            then (Inl (WeasylError ''insufficientActionPermissions''), db)
            else (Inr (), db))))"

definition notify_shout ::
  "staff_sets \<Rightarrow> int \<Rightarrow> int \<Rightarrow> int \<Rightarrow> int \<Rightarrow> int \<Rightarrow> int \<Rightarrow> bool \<Rightarrow> 'a content_db_scheme \<Rightarrow> 'a content_db_scheme" where
  "notify_shout st now userid commentid target_user parentid parentuserid staffnotes db =
     (if parentid \<noteq> 0 \<and> userid \<noteq> parentuserid then
        (if \<not> staffnotes \<or> parentuserid \<in> MODS st
         then welcome_shoutreply_insert now userid commentid parentuserid parentid staffnotes db else db)
      else if \<not> staffnotes \<and> userid \<noteq> target_user then welcome_shout_insert now userid commentid target_user db
      else db)"

definition shout_insert ::
  "staff_sets \<Rightarrow> int \<Rightarrow> int \<Rightarrow> int \<Rightarrow> int \<Rightarrow> string \<Rightarrow> bool \<Rightarrow> 'a content_db_scheme \<Rightarrow> int result \<times> 'a content_db_scheme" where
  "shout_insert st now userid target_user parentid content staffnotes db =
     (if content = [] then (Inl (WeasylError ''commentInvalid''), db)
      else if target_user = 0 then (Inl (WeasylError ''Unexpected''), db)
      else
        and_then (get_is_vouched_for target_user db) (\<lambda>vouched db.
          if \<not> vouched \<and> \<not> staffnotes then (Inl (WeasylError ''Unexpected''), db)
          else
            (case parent_author (shout_authors staffnotes target_user db) parentid of
               Inl e \<Rightarrow> (Inl e, db)
             | Inr parentuserid \<Rightarrow>
                 and_then (if userid \<in> MODS st then (Inr (), db) else shout_permission userid target_user parentuserid db)
                   (\<lambda>_ db.
                     let (commentid, db) = add_comments_row now userid (Some target_user) None parentid content
                           (if staffnotes then ''s'' else []) db
                     in (Inr commentid,
                         notify_shout st now userid commentid target_user parentid parentuserid staffnotes db)))))"

definition shout_remove :: "staff_sets \<Rightarrow> int \<Rightarrow> int \<Rightarrow> 'a content_db_scheme \<Rightarrow> int result \<times> 'a content_db_scheme" where
  "shout_remove st userid commentid db =
     (case find (\<lambda>cm. cm_commentid cm = commentid \<and> cm_target_user cm \<noteq> None \<and> \<not> has_flag (CHR ''h'') (cm_settings cm))
             (t_comments db) of
        None \<Rightarrow> (Inl (WeasylError ''shoutRecordMissing''), db)
      | Some cm \<Rightarrow>
          let is_staff_note = has_flag (CHR ''s'') (cm_settings cm)
          in if is_staff_note \<and> userid \<notin> MODS st then (Inl (WeasylError ''shoutRecordMissing''), db)
             else if Some userid \<noteq> cm_target_user cm \<and> userid \<notin> MODS st
                     \<and> (userid \<noteq> cm_userid cm \<or> exists_where (\<lambda>r. cm_parentid r = Some commentid) (t_comments db))
             then (Inl (WeasylError ''InsufficientPermissions''), db)
             else
               (Inr (the (cm_target_user cm)),
                hide_comments_row userid commentid
                  (if is_staff_note then db else welcome_comment_remove commentid CF_shout db)))"


section \<open>Facts\<close>

subsection \<open>A thread shows every comment that can be reached, once\<close>

text \<open>The ids of the rows whose parent is the page or was itself accepted before.\<close>

fun accepted_ids :: "int set \<Rightarrow> thread_row list \<Rightarrow> int list" where
  "accepted_ids seen [] = []"
| "accepted_ids seen (row # rows) =
     (if (case row_parent row of None \<Rightarrow> True | Some p \<Rightarrow> p \<in> seen)
      then tr_commentid row # accepted_ids (insert (tr_commentid row) seen) rows
      else accepted_ids seen rows)"

lemma accepted_append:
  "accepted_ids seen (xs @ ys) = accepted_ids seen xs @ accepted_ids (seen \<union> set (accepted_ids seen xs)) ys"
  by (induction xs arbitrary: seen) auto

lemma accepted_subset: "set (accepted_ids seen rows) \<subseteq> tr_commentid ` set rows"
  by (induction rows arbitrary: seen) (auto split: if_splits)

lemma accepted_distinct: "distinct (map tr_commentid rows) \<Longrightarrow> distinct (accepted_ids seen rows)"
  using accepted_subset by (induction rows arbitrary: seen) fastforce+

definition tids :: "thread_comment list \<Rightarrow> int list" where
  "tids cs = map tc_commentid cs"

lemma tids_simps [simp]: "tids [] = []" "tids (c # cs) = tc_commentid c # tids cs" "tids (xs @ ys) = tids xs @ tids ys"
  by (simp_all add: tids_def)

definition inherit :: "bool \<Rightarrow> thread_comment \<Rightarrow> thread_comment" where
  "inherit hidden c = (if hidden then c\<lparr>tc_hidden := True\<rparr> else c)"

lemma inherit_simps [simp]:
  "tc_commentid (inherit h c) = tc_commentid c" "tc_indent (inherit h c) = tc_indent c"
  "tc_hidden (inherit h c) \<longleftrightarrow> h \<or> tc_hidden c"
  by (simp_all add: inherit_def)

lemma add_Cons:
  "add_with_descendants (Suc depth) bp (c # cs) hidden = Some shown \<longleftrightarrow>
     (\<exists>i replies below rest. bp (Some (tc_commentid c)) = Some (i, replies)
        \<and> add_with_descendants depth bp replies (tc_hidden (inherit hidden c)) = Some below
        \<and> add_with_descendants (Suc depth) bp cs hidden = Some rest
        \<and> shown = inherit hidden c # below @ rest)"
  by (auto simp: inherit_def [symmetric] Let_def split: option.splits prod.splits)

lemma add_append:
  "add_with_descendants depth bp (xs @ ys) hidden = Some shown \<longleftrightarrow>
     (\<exists>s t. add_with_descendants depth bp xs hidden = Some s \<and> add_with_descendants depth bp ys hidden = Some t
        \<and> shown = s @ t)"
proof (cases depth)
  case 0
  then show ?thesis by (cases xs; cases ys) auto
next
  case (Suc d)
  show ?thesis
  proof (induction xs arbitrary: shown)
    case (Cons x xs)
    show ?case
      unfolding append_Cons Suc add_Cons using Cons.IH [unfolded Suc] by (auto simp: append_assoc)
  qed simp
qed

lemma add_deeper:
  "add_with_descendants depth bp cs hidden = Some shown \<Longrightarrow> add_with_descendants (Suc depth) bp cs hidden = Some shown"
proof (induction depth arbitrary: cs hidden shown)
  case 0
  then show ?case by (cases cs) auto
next
  case (Suc depth)
  show ?case
    using Suc.prems
  proof (induction cs arbitrary: shown)
    case (Cons c cs)
    then show ?case
      unfolding add_Cons using Suc.IH by blast
  qed simp
qed

lemma add_same:
  assumes "add_with_descendants depth bp cs hidden = Some shown"
    and "\<And>x. x \<noteq> rid \<Longrightarrow> bp' (Some x) = bp (Some x)"
    and "\<And>p i cs. bp p = Some (i, cs) \<Longrightarrow> rid \<notin> set (tids cs)" "rid \<notin> set (tids cs)"
  shows "add_with_descendants depth bp' cs hidden = Some shown"
  using assms(1,4)
proof (induction depth arbitrary: cs hidden shown)
  case 0
  then show ?case by (cases cs) auto
next
  case (Suc depth)
  show ?case
    using Suc.prems
  proof (induction cs arbitrary: shown)
    case (Cons c cs)
    then have "bp' (Some (tc_commentid c)) = bp (Some (tc_commentid c))" "rid \<notin> set (tids cs)"
      using assms(2) by auto
    moreover have "rid \<notin> set (tids replies)" if "bp (Some (tc_commentid c)) = Some (i, replies)" for i replies
      using assms(3) that by blast
    ultimately show ?case
      using Cons.prems(1) Cons.IH Suc.IH unfolding add_Cons by metis
  qed simp
qed

text \<open>
  A new reply \<open>r\<close> to \<open>q\<close> is shown once for every time \<open>q\<close> is; one more level of nesting is enough.
\<close>

lemma add_reply:
  assumes "bp (Some q) = Some (i, replies)" "tc_commentid r = rid" "rid \<noteq> q"
    and lists: "\<And>p i cs. bp p = Some (i, cs) \<Longrightarrow> rid \<notin> set (tids cs)"
    and "add_with_descendants depth bp cs hidden = Some shown" "rid \<notin> set (tids cs)"
  shows "\<exists>shown'. add_with_descendants (Suc depth) (bp(Some q \<mapsto> (i, replies @ [r]), Some rid \<mapsto> (j, []))) cs hidden = Some shown'
    \<and> mset (tids shown') = mset (tids shown) + replicate_mset (count (mset (tids shown)) q) rid"
proof -
  let ?bp = "bp(Some q \<mapsto> (i, replies @ [r]), Some rid \<mapsto> (j, []))"
  have single: "add_with_descendants (Suc d) ?bp [r] h = Some [inherit h r]" for d h
    using assms(2) by (subst add_Cons) simp
  show ?thesis
    using assms(5,6)
  proof (induction depth arbitrary: cs hidden shown)
    case 0
    then show ?case by (cases cs) auto
  next
    case (Suc depth)
    show ?case
      using Suc.prems
    proof (induction cs arbitrary: shown)
      case (Cons c cs)
      from Cons.prems(1) obtain k kids below rest where
        c: "bp (Some (tc_commentid c)) = Some (k, kids)"
          "add_with_descendants depth bp kids (tc_hidden (inherit hidden c)) = Some below"
          "add_with_descendants (Suc depth) bp cs hidden = Some rest" "shown = inherit hidden c # below @ rest"
        unfolding add_Cons by blast
      from Suc.IH [OF c(2) lists [OF c(1)]] obtain below' where
        below': "add_with_descendants (Suc depth) ?bp kids (tc_hidden (inherit hidden c)) = Some below'"
          "mset (tids below') = mset (tids below) + replicate_mset (count (mset (tids below)) q) rid" by blast
      have "rid \<notin> set (tids cs)" using Cons.prems(2) by simp
      from Cons.IH [OF c(3) this] obtain rest' where
        rest': "add_with_descendants (Suc (Suc depth)) ?bp cs hidden = Some rest'"
          "mset (tids rest') = mset (tids rest) + replicate_mset (count (mset (tids rest)) q) rid" by blast
      show ?case
      proof (cases "tc_commentid c = q")
        case True
        have "?bp (Some (tc_commentid c)) = Some (i, kids @ [r])"
          using assms(1,3) c(1) True by simp
        moreover have "add_with_descendants (Suc depth) ?bp (kids @ [r]) (tc_hidden (inherit hidden c))
            = Some (below' @ [inherit (tc_hidden (inherit hidden c)) r])"
          unfolding add_append using below'(1) single by blast
        ultimately have "add_with_descendants (Suc (Suc depth)) ?bp (c # cs) hidden
            = Some (inherit hidden c # (below' @ [inherit (tc_hidden (inherit hidden c)) r]) @ rest')"
          unfolding add_Cons using rest'(1) by blast
        then show ?thesis
          by (intro exI conjI, assumption) (use below'(2) rest'(2) c(4) True assms(2) in \<open>auto simp: multiset_eq_iff\<close>)
      next
        case False
        then have "?bp (Some (tc_commentid c)) = Some (k, kids)"
          using c(1) Cons.prems(2) by simp
        then have "add_with_descendants (Suc (Suc depth)) ?bp (c # cs) hidden = Some (inherit hidden c # below' @ rest')"
          unfolding add_Cons using below'(1) rest'(1) by blast
        then show ?thesis
          by (intro exI conjI, assumption) (use below'(2) rest'(2) c(4) False in \<open>auto simp: multiset_eq_iff\<close>)
      qed
    qed simp
  qed
qed


text \<open>What the dictionary holds after the rows \<open>rows\<close>.\<close>

definition index_ok :: "thread_row list \<Rightarrow> by_parent \<Rightarrow> bool" where
  "index_ok rows bp \<longleftrightarrow>
     (\<exists>tops. bp None = Some (-1, tops))
     \<and> (\<forall>x. bp (Some x) \<noteq> None \<longleftrightarrow> x \<in> set (accepted_ids {} rows))
     \<and> (\<forall>p i cs c. bp p = Some (i, cs) \<longrightarrow> c \<in> set cs \<longrightarrow>
          (\<exists>row \<in> set rows. row_parent row = p \<and> c = row_comment (i + 1) row)
          \<and> (\<exists>kids. bp (Some (tc_commentid c)) = Some (i + 1, kids)))"

lemma index_ok_listed: "index_ok rows bp \<Longrightarrow> bp p = Some (i, cs) \<Longrightarrow> set (tids cs) \<subseteq> set (accepted_ids {} rows)"
  by (fastforce simp: index_ok_def tids_def)

lemma accepted_snoc:
  "accepted_ids {} (rows @ [row]) = accepted_ids {} rows @
     (if (case row_parent row of None \<Rightarrow> True | Some p \<Rightarrow> p \<in> set (accepted_ids {} rows)) then [tr_commentid row] else [])"
  by (simp add: accepted_append)

lemma index_ok_step:
  assumes ok: "index_ok rows bp" and new: "tr_commentid row \<notin> tr_commentid ` set rows"
  shows "index_ok (rows @ [row]) (thread_step row bp)"
proof (cases "bp (row_parent row)")
  case None
  then obtain p where p: "row_parent row = Some p"
    using ok by (cases "row_parent row") (auto simp: index_ok_def)
  then have "p \<notin> set (accepted_ids {} rows)"
    using ok None unfolding index_ok_def by metis
  with p have "accepted_ids {} (rows @ [row]) = accepted_ids {} rows"
    by (simp add: accepted_snoc)
  moreover have "thread_step row bp = bp" using None by (simp add: thread_step_def)
  ultimately show ?thesis
    using ok by (auto simp: index_ok_def)
next
  case (Some v)
  obtain i cs where v: "v = (i, cs)" by fastforce
  let ?id = "tr_commentid row"
  have fresh: "?id \<notin> set (accepted_ids {} rows)"
    using new accepted_subset by blast
  then have none: "bp (Some ?id) = None"
    using ok unfolding index_ok_def by metis
  have acc: "accepted_ids {} (rows @ [row]) = accepted_ids {} rows @ [?id]"
    using Some ok by (cases "row_parent row") (auto simp: accepted_snoc index_ok_def)
  have other: "row_parent row \<noteq> Some ?id"
    using Some none by auto
  have step: "thread_step row bp =
      bp(row_parent row \<mapsto> (i, cs @ [row_comment (i + 1) row]), Some ?id \<mapsto> (i + 1, []))"
    using Some v by (simp add: thread_step_def)
  let ?bp = "thread_step row bp"
  have keys: "?bp p \<noteq> None \<longleftrightarrow> bp p \<noteq> None \<or> p = Some ?id" for p
    using Some by (auto simp: step)
  have same_indent: "\<exists>kids'. ?bp p = Some (k, kids')" if "bp p = Some (k, kids)" for p k kids
    using that Some v none by (auto simp: step)
  show ?thesis
    unfolding index_ok_def
  proof (intro conjI allI impI)
    obtain tops where "bp None = Some (-1, tops)" using ok by (auto simp: index_ok_def)
    then show "\<exists>tops. ?bp None = Some (-1, tops)" by (rule same_indent)
    fix x
    show "?bp (Some x) \<noteq> None \<longleftrightarrow> x \<in> set (accepted_ids {} (rows @ [row]))"
      unfolding keys acc using ok by (auto simp: index_ok_def)
  next
    fix p k ds c
    assume p: "?bp p = Some (k, ds)" and c: "c \<in> set ds"
    have old: "(\<exists>r \<in> set rows. row_parent r = p \<and> c = row_comment (k + 1) r)
        \<and> (\<exists>kids. bp (Some (tc_commentid c)) = Some (k + 1, kids))" if "bp p = Some (k, ds')" "c \<in> set ds'" for ds'
      using ok that by (simp add: index_ok_def)
    have "c = row_comment (i + 1) row \<and> p = row_parent row \<and> k = i \<or> (\<exists>ds'. bp p = Some (k, ds') \<and> c \<in> set ds')"
      using p c Some v none other by (auto simp: step split: if_splits)
    then show "\<exists>r \<in> set (rows @ [row]). row_parent r = p \<and> c = row_comment (k + 1) r"
      "\<exists>kids. ?bp (Some (tc_commentid c)) = Some (k + 1, kids)"
    proof -
      assume d: "c = row_comment (i + 1) row \<and> p = row_parent row \<and> k = i \<or> (\<exists>ds'. bp p = Some (k, ds') \<and> c \<in> set ds')"
      show "\<exists>r \<in> set (rows @ [row]). row_parent r = p \<and> c = row_comment (k + 1) r"
        using d old by auto
      show "\<exists>kids. ?bp (Some (tc_commentid c)) = Some (k + 1, kids)"
        using d
      proof
        assume "c = row_comment (i + 1) row \<and> p = row_parent row \<and> k = i"
        then show ?thesis by (simp add: step row_comment_def)
      next
        assume "\<exists>ds'. bp p = Some (k, ds') \<and> c \<in> set ds'"
        then show ?thesis using old same_indent by blast
      qed
    qed
  qed
qed

lemma index_ok_thread: "distinct (map tr_commentid rows) \<Longrightarrow> index_ok rows (thread_index rows)"
proof (induction rows rule: rev_induct)
  case Nil
  show ?case by (simp add: index_ok_def thread_index_def)
next
  case (snoc row rows)
  then show ?case
    using index_ok_step [of rows "thread_index rows" row] by (simp add: thread_index_def)
qed

lemma thread_shows:
  assumes "distinct (map tr_commentid rows)"
  shows "\<exists>tops shown. thread_index rows None = Some (-1, tops)
    \<and> add_with_descendants (length rows) (thread_index rows) (if rv then rev tops else tops) False = Some shown
    \<and> mset (tids shown) = mset (accepted_ids {} rows)"
  using assms
proof (induction rows rule: rev_induct)
  case Nil
  show ?case by (simp add: thread_index_def)
next
  case (snoc row rows)
  let ?id = "tr_commentid row" and ?bp = "thread_index rows"
  have rows: "distinct (map tr_commentid rows)" and new: "?id \<notin> tr_commentid ` set rows"
    using snoc.prems by simp_all
  have ok: "index_ok rows ?bp" by (rule index_ok_thread [OF rows])
  have index: "thread_index (rows @ [row]) = thread_step row ?bp" by (simp add: thread_index_def)
  obtain tops shown where t: "?bp None = Some (-1, tops)"
    "add_with_descendants (length rows) ?bp (if rv then rev tops else tops) False = Some shown"
    "mset (tids shown) = mset (accepted_ids {} rows)"
    using snoc.IH [OF rows] by blast
  have fresh: "?id \<notin> set (accepted_ids {} rows)"
    using new accepted_subset by blast
  have lists: "\<And>p i cs. ?bp p = Some (i, cs) \<Longrightarrow> ?id \<notin> set (tids cs)"
    using index_ok_listed [OF ok] fresh by blast
  then have tops: "?id \<notin> set (tids (if rv then rev tops else tops))"
    using t(1) by (auto simp: tids_def)
  show ?case
  proof (cases "row_parent row")
    case None
    let ?r = "row_comment 0 row"
    let ?bp' = "?bp(None \<mapsto> (-1, tops @ [?r]), Some ?id \<mapsto> (0, []))"
    have step: "thread_step row ?bp = ?bp'"
      using None t(1) by (simp add: thread_step_def)
    have "add_with_descendants (length rows) ?bp' (if rv then rev tops else tops) False = Some shown"
      by (rule add_same [OF t(2) _ lists tops]) auto
    then have old: "add_with_descendants (Suc (length rows)) ?bp' (if rv then rev tops else tops) False = Some shown"
      by (rule add_deeper)
    have single: "add_with_descendants (Suc (length rows)) ?bp' [?r] False = Some [inherit False ?r]"
      by (subst add_Cons) (simp add: row_comment_def)
    have "add_with_descendants (Suc (length rows)) ?bp' (if rv then rev (tops @ [?r]) else tops @ [?r]) False
        = Some (if rv then inherit False ?r # shown else shown @ [inherit False ?r])"
    proof (cases rv)
      case True
      have "add_with_descendants (Suc (length rows)) ?bp' ([?r] @ rev tops) False = Some ([inherit False ?r] @ shown)"
        unfolding add_append using old single True by auto
      then show ?thesis using True by simp
    next
      case False
      have "add_with_descendants (Suc (length rows)) ?bp' (tops @ [?r]) False = Some (shown @ [inherit False ?r])"
        unfolding add_append using old single False by auto
      then show ?thesis using False by simp
    qed
    moreover have "mset (tids (if rv then inherit False ?r # shown else shown @ [inherit False ?r])) = mset (accepted_ids {} (rows @ [row]))"
      using t(3) None by (simp add: accepted_snoc row_comment_def)
    moreover have "?bp' None = Some (-1, tops @ [?r])" by simp
    moreover have "length (rows @ [row]) = Suc (length rows)" by simp
    ultimately show ?thesis
      unfolding index step by metis
  next
    case (Some q)
    show ?thesis
    proof (cases "?bp (Some q)")
      case None
      then have "thread_step row ?bp = ?bp" using Some by (simp add: thread_step_def)
      moreover have "q \<notin> set (accepted_ids {} rows)" using None ok unfolding index_ok_def by metis
      ultimately show ?thesis
        unfolding index using t Some add_deeper by (auto simp: accepted_snoc)
    next
      case entry: (Some v)
      obtain i replies where v: "v = (i, replies)" by fastforce
      let ?r = "row_comment (i + 1) row"
      let ?bp' = "?bp(Some q \<mapsto> (i, replies @ [?r]), Some ?id \<mapsto> (i + 1, []))"
      have step: "thread_step row ?bp = ?bp'"
        using Some entry v by (simp add: thread_step_def)
      have q: "q \<in> set (accepted_ids {} rows)"
        using ok entry by (auto simp: index_ok_def)
      then have "?id \<noteq> q" using fresh by blast
      have e: "?bp (Some q) = Some (i, replies)" using entry v by simp
      have r: "tc_commentid ?r = ?id" by (simp add: row_comment_def)
      have "\<exists>shown'. add_with_descendants (Suc (length rows)) ?bp' (if rv then rev tops else tops) False = Some shown'
        \<and> mset (tids shown') = mset (tids shown) + replicate_mset (count (mset (tids shown)) q) ?id"
        by (rule add_reply [OF e r \<open>?id \<noteq> q\<close> _ t(2) tops]) (erule lists)
      then obtain shown' where shown': "add_with_descendants (Suc (length rows)) ?bp' (if rv then rev tops else tops) False = Some shown'"
        "mset (tids shown') = mset (tids shown) + replicate_mset (count (mset (tids shown)) q) ?id"
        by blast
      have "count (mset (accepted_ids {} rows)) q = 1"
        using q accepted_distinct [OF rows] distinct_count_atmost_1 by metis
      then have "mset (tids shown') = mset (accepted_ids {} (rows @ [row]))"
        using shown'(2) t(3) Some q by (simp add: accepted_snoc)
      moreover have "?bp' None = Some (-1, tops)" using t(1) by simp
      ultimately show ?thesis
        using shown'(1) unfolding index step length_append list.size by (auto simp del: fun_upd_apply)
    qed
  qed
qed


lemma shown_from:
  assumes "add_with_descendants depth bp cs hidden = Some (pre @ x # post)"
  shows "(\<exists>c \<in> set cs. x = inherit hidden c)
    \<or> (\<exists>y \<in> set pre. \<exists>i kids. bp (Some (tc_commentid y)) = Some (i, kids) \<and> (\<exists>c \<in> set kids. x = inherit (tc_hidden y) c))"
  using assms
proof (induction depth arbitrary: cs hidden pre x post)
  case 0
  then show ?case by (cases cs) auto
next
  case (Suc depth)
  show ?case
    using Suc.prems
  proof (induction cs arbitrary: pre)
    case (Cons c cs)
    from Cons.prems obtain i replies below rest where
      c: "bp (Some (tc_commentid c)) = Some (i, replies)"
        "add_with_descendants depth bp replies (tc_hidden (inherit hidden c)) = Some below"
        "add_with_descendants (Suc depth) bp cs hidden = Some rest" "pre @ x # post = inherit hidden c # below @ rest"
      unfolding add_Cons by blast
    show ?case
    proof (cases pre)
      case Nil
      then show ?thesis using c(4) by auto
    next
      case (Cons y pre')
      then have y: "y = inherit hidden c" and split: "pre' @ x # post = below @ rest"
        using c(4) by auto
      then obtain us where "pre' = below @ us \<and> us @ x # post = rest \<or> pre' @ us = below \<and> x # post = us @ rest"
        unfolding append_eq_append_conv2 by blast
      then consider (below) b where "below = pre' @ x # b" | (rest) r where "pre' = below @ r" "rest = r @ x # post"
        by (cases us) auto
      then show ?thesis
      proof cases
        case below
        from Suc.IH [OF c(2) [unfolded below]] show ?thesis
          using c(1) Cons y by (metis inherit_simps(1) list.set_intros)
      next
        case rest
        from Cons.IH [OF c(3) [unfolded rest(2)]] show ?thesis
          using Cons rest(1) by (metis (no_types, lifting) Un_iff list.set_intros set_append)
      qed
    qed
  qed simp
qed

text \<open>Where the comments in the index and on the page come from.\<close>

lemma listed_row:
  assumes "distinct (map tr_commentid rows)" "thread_index rows p = Some (i, cs)" "c \<in> set cs"
  shows "(\<exists>row \<in> set rows. row_parent row = p \<and> c = row_comment (i + 1) row)
    \<and> (\<exists>kids. thread_index rows (Some (tc_commentid c)) = Some (i + 1, kids))"
  using index_ok_thread [OF assms(1)] assms(2,3) unfolding index_ok_def by blast

lemma shown_indexed:
  assumes "distinct (map tr_commentid rows)" "thread_index rows None = Some (-1, tops)"
    and "add_with_descendants n (thread_index rows) (if rv then rev tops else tops) False = Some shown" "x \<in> set shown"
  shows "\<exists>kids. thread_index rows (Some (tc_commentid x)) = Some (tc_indent x, kids)"
proof -
  have from_list: "\<exists>kids. thread_index rows (Some (tc_commentid x)) = Some (tc_indent x, kids)"
    if "thread_index rows p = Some (i, cs)" "c \<in> set cs" "x = inherit h c" for p i cs c h
    using listed_row [OF assms(1) that(1,2)] that(3) by (auto simp: row_comment_def)
  obtain pre post where "shown = pre @ x # post" using assms(4) by (auto simp: in_set_conv_decomp)
  from shown_from [OF assms(3) [unfolded this]] show ?thesis
  proof
    assume "\<exists>c \<in> set (if rv then rev tops else tops). x = inherit False c"
    then show ?thesis using from_list [OF assms(2)] by (auto split: if_splits)
  next
    assume "\<exists>y \<in> set pre. \<exists>i kids. thread_index rows (Some (tc_commentid y)) = Some (i, kids)
      \<and> (\<exists>c \<in> set kids. x = inherit (tc_hidden y) c)"
    then show ?thesis using from_list by blast
  qed
qed

text \<open>
  C17: The display of a thread. For rows with different ids, \<open>thread\<close> returns (the recursion ends and no
  lookup fails), and shows every row exactly once whose parents all come before it in the list (as in the queries,
  which order by id), each after what it answers; a row with a parent elsewhere or nowhere in the
  list is left out. Every comment shown is one of the rows as
  it was, except that a reply is indented one level below the comment it answers, which stands before
  it, and that it is hidden if that one is; a top-level comment is not indented.
\<close>

theorem thread_display:
  assumes "distinct (map tr_commentid rows)"
  shows "\<exists>shown. thread rows rv = Some shown \<and> mset (map tc_commentid shown) = mset (accepted_ids {} rows)
    \<and> (\<forall>pre x post. shown = pre @ x # post \<longrightarrow>
         (\<exists>row \<in> set rows.
            (row_parent row = None \<and> x = row_comment 0 row)
            \<or> (\<exists>y \<in> set pre. row_parent row = Some (tc_commentid y)
                 \<and> x = inherit (tc_hidden y) (row_comment (tc_indent y + 1) row))))"
proof -
  let ?bp = "thread_index rows"
  obtain tops shown where t: "?bp None = Some (-1, tops)"
    "add_with_descendants (length rows) ?bp (if rv then rev tops else tops) False = Some shown"
    "mset (tids shown) = mset (accepted_ids {} rows)"
    using thread_shows [OF assms] by blast
  note listed = listed_row [OF assms] and indexed = shown_indexed [OF assms t(1,2)]
  have "\<exists>row \<in> set rows. (row_parent row = None \<and> x = row_comment 0 row)
      \<or> (\<exists>y \<in> set pre. row_parent row = Some (tc_commentid y) \<and> x = inherit (tc_hidden y) (row_comment (tc_indent y + 1) row))"
    if s: "shown = pre @ x # post" for pre x post
    using shown_from [OF t(2) [unfolded s]]
  proof
    assume "\<exists>c \<in> set (if rv then rev tops else tops). x = inherit False c"
    then obtain c where c: "c \<in> set tops" "x = c" by (auto simp: inherit_def split: if_splits)
    with listed [OF t(1) c(1)] show ?thesis by force
  next
    assume "\<exists>y \<in> set pre. \<exists>i kids. ?bp (Some (tc_commentid y)) = Some (i, kids) \<and> (\<exists>c \<in> set kids. x = inherit (tc_hidden y) c)"
    then obtain y i kids c where y: "y \<in> set pre" "?bp (Some (tc_commentid y)) = Some (i, kids)" "c \<in> set kids"
      "x = inherit (tc_hidden y) c" by blast
    have "i = tc_indent y"
      using indexed [of y] y(1,2) s by auto
    then show ?thesis
      using listed [OF y(2,3)] y(1,4) by blast
  qed
  moreover have "thread rows rv = Some shown"
    unfolding thread_def Let_def t(1) option.case prod.case by (rule t(2))
  ultimately show ?thesis
    using t(3) unfolding tids_def by blast
qed

definition sample_row :: "int \<Rightarrow> int option \<Rightarrow> bool \<Rightarrow> thread_row" where
  "sample_row i p h = \<lparr>tr_commentid = i, tr_parentid = p, tr_userid = 1, tr_username = ''u'', tr_content = ''c'',
     tr_unixtime = 0, tr_hidden = h, tr_hidden_by = None\<rparr>"

theorem thread_display_witness:
  "let rows = [sample_row 1 None False, sample_row 2 (Some 0) True, sample_row 3 (Some 1) False, sample_row 4 (Some 2) False,
        sample_row 5 (Some 9) False]
   in (\<exists>shown. thread rows True = Some shown \<and> mset (map tc_commentid shown) = {#1, 2, 3, 4#})
      \<and> map_option (map (\<lambda>c. (tc_commentid c, tc_indent c, tc_hidden c))) (thread rows True)
        = Some [(2, 0, True), (4, 1, True), (1, 0, False), (3, 1, False)]"
proof -
  define rows where "rows = [sample_row 1 None False, sample_row 2 (Some 0) True, sample_row 3 (Some 1) False,
    sample_row 4 (Some 2) False, sample_row 5 (Some 9) False]"
  have "distinct (map tr_commentid rows)" by (simp add: rows_def sample_row_def)
  then obtain shown where "thread rows True = Some shown" "mset (map tc_commentid shown) = mset (accepted_ids {} rows)"
    using thread_display [of rows True] by blast
  moreover have "accepted_ids {} rows = [1, 2, 3, 4]" by (simp add: rows_def sample_row_def row_parent_def)
  moreover have "map_option (map (\<lambda>c. (tc_commentid c, tc_indent c, tc_hidden c))) (thread rows True)
        = Some [(2, 0, True), (4, 1, True), (1, 0, False), (3, 1, False)]"
    unfolding rows_def by code_simp
  ultimately show ?thesis unfolding rows_def [symmetric] Let_def by simp
qed


subsection \<open>Replies stay on their page\<close>

text \<open>
  A table of comments in order: ids are unique and below the sequence, and a reply comes after a comment
  of the table that \<open>same\<close> puts on the same page.
\<close>

definition replies_ok :: "int \<Rightarrow> ('r \<Rightarrow> int) \<Rightarrow> ('r \<Rightarrow> int option) \<Rightarrow> ('r \<Rightarrow> 'p) \<Rightarrow> 'r list \<Rightarrow> bool" where
  "replies_ok seq id_of parent_of about rows \<longleftrightarrow>
     distinct (map id_of rows)
     \<and> (\<forall>r \<in> set rows. 0 < id_of r \<and> id_of r < seq
          \<and> (\<forall>p. parent_of r = Some p \<longrightarrow> (\<exists>q \<in> set rows. id_of q = p \<and> p < id_of r \<and> about q = about r)))
     \<and> 0 < seq"

lemma replies_ok_add:
  assumes "replies_ok seq id_of parent_of about rows" "id_of r = seq"
    and "\<And>p. parent_of r = Some p \<Longrightarrow> \<exists>q \<in> set rows. id_of q = p \<and> about q = about r"
  shows "replies_ok (seq + 1) id_of parent_of about (rows @ [r])"
proof -
  have "seq \<notin> id_of ` set rows"
    using assms(1) by (auto simp: replies_ok_def)
  moreover have "0 < id_of x \<and> id_of x < seq + 1 \<and>
      (\<forall>p. parent_of x = Some p \<longrightarrow> (\<exists>q \<in> set (rows @ [r]). id_of q = p \<and> p < id_of x \<and> about q = about x))"
    if "x \<in> set rows \<or> x = r" for x
    using that
  proof
    assume "x \<in> set rows"
    then show ?thesis using assms(1) by (fastforce simp: replies_ok_def)
  next
    assume x: "x = r"
    have "\<exists>q \<in> set rows. id_of q = p \<and> p < id_of r \<and> about q = about r" if "parent_of r = Some p" for p
      using assms(3) [OF that] assms(1,2) by (fastforce simp: replies_ok_def)
    then show ?thesis using assms(1,2) x by (auto simp: replies_ok_def)
  qed
  ultimately show ?thesis
    using assms(1,2) by (auto simp: replies_ok_def)
qed

lemma replies_ok_update:
  assumes "replies_ok seq id_of parent_of about rows"
    and "\<And>r. id_of (f r) = id_of r" "\<And>r. parent_of (f r) = parent_of r" "\<And>r. about (f r) = about r"
  shows "replies_ok seq id_of parent_of about (update_where P f rows)"
proof -
  define g where "g = (\<lambda>r. if P r then f r else r)"
  have g: "id_of (g r) = id_of r" "parent_of (g r) = parent_of r" "about (g r) = about r" for r
    using assms(2-4) by (simp_all add: g_def)
  have rows: "update_where P f rows = map g rows" by (simp add: update_where_def g_def)
  have "distinct (map id_of (map g rows))"
    using assms(1) g by (simp add: replies_ok_def comp_def)
  moreover have "\<exists>q \<in> set (map g rows). id_of q = p \<and> p < id_of (g r) \<and> about q = about (g r)"
    if r: "r \<in> set rows" "parent_of (g r) = Some p" for r p
  proof -
    obtain q where "q \<in> set rows" "id_of q = p" "p < id_of r" "about q = about r"
      using assms(1) r(1) r(2) [unfolded g(2)] unfolding replies_ok_def by blast
    then show ?thesis using g by (intro bexI [of _ "g q"]) auto
  qed
  ultimately show ?thesis
    using assms(1) g unfolding rows by (auto simp: replies_ok_def)
qed

lemma replies_ok_links:
  assumes "replies_ok seq id_of parent_of about rows"
  shows "\<forall>(c, p) \<in> set (map (\<lambda>r. (id_of r, parent_of r)) rows). \<forall>q. p = Some q \<longrightarrow> q < c"
  using assms by (auto simp: replies_ok_def)

definition cm_page :: "comments_row \<Rightarrow> int option \<times> int option \<times> bool" where
  "cm_page cm = (cm_target_user cm, cm_target_sub cm, has_flag (CHR ''s'') (cm_settings cm))"

definition threads_ok :: "'a content_db_scheme \<Rightarrow> bool" where
  "threads_ok db \<longleftrightarrow>
     replies_ok (comments_seq db) cm_commentid cm_parentid cm_page (t_comments db)
     \<and> (\<forall>cm \<in> set (t_comments db). cm_target_sub cm \<noteq> None \<longrightarrow> cm_target_user cm = None \<and> \<not> has_flag (CHR ''s'') (cm_settings cm))
     \<and> replies_ok (charcomment_seq db) cc_commentid (\<lambda>cc. nullable (cc_parentid cc)) cc_targetid (t_charcomment db)
     \<and> replies_ok (journalcomment_seq db) jc_commentid (\<lambda>jc. nullable (jc_parentid jc)) jc_targetid (t_journalcomment db)
     \<and> replies_ok (siteupdatecomment_seq db) sc_commentid sc_parentid sc_targetid (t_siteupdatecomment db)"

definition same_comments :: "'a content_db_scheme \<Rightarrow> 'a content_db_scheme \<Rightarrow> bool" where
  "same_comments db db' \<longleftrightarrow>
     t_comments db' = t_comments db \<and> comments_seq db' = comments_seq db
     \<and> t_charcomment db' = t_charcomment db \<and> charcomment_seq db' = charcomment_seq db
     \<and> t_journalcomment db' = t_journalcomment db \<and> journalcomment_seq db' = journalcomment_seq db
     \<and> t_siteupdatecomment db' = t_siteupdatecomment db \<and> siteupdatecomment_seq db' = siteupdatecomment_seq db"

lemma same_comments_threads: "same_comments db db' \<Longrightarrow> threads_ok db \<Longrightarrow> threads_ok db'"
  by (simp add: same_comments_def threads_ok_def)

lemma same_comments_refl [simp]: "same_comments db db"
  by (simp add: same_comments_def)

lemma same_comments_trans: "same_comments a b \<Longrightarrow> same_comments b c \<Longrightarrow> same_comments a c"
  by (simp add: same_comments_def)

lemma same_comments_and_then:
  assumes "same_comments db (snd r)" "\<And>x s. same_comments s (snd (f x s))"
  shows "same_comments db (snd (and_then r f))"
proof (cases "fst r")
  case (Inl e)
  then show ?thesis using assms(1) by (cases r) (simp add: and_then_def)
next
  case (Inr x)
  then have "snd (and_then r f) = snd (f x (snd r))" by (cases r) (simp add: and_then_def)
  then show ?thesis using same_comments_trans [OF assms(1) assms(2)] by simp
qed

lemma same_comments_config: "config_read db db' \<Longrightarrow> same_comments db db'"
  by (auto simp: config_read_def same_comments_def)

lemma same_comments_welcome: "welcome_only db db' \<Longrightarrow> same_comments db db'"
  by (auto simp: welcome_only_def same_comments_def)

lemma comment_notifications_rows:
  "comment_notifications now userid commentid notified submitid charid journalid updateid db = Inr db' \<Longrightarrow>
   welcome_only db db' \<and> (\<exists>new. t_welcome db' = t_welcome db @ new \<and> map we_userid new = notified
     \<and> (\<forall>we \<in> set new. we_otherid we = userid \<and> we_targetid we = commentid))"
proof (induction notified arbitrary: db)
  case Nil
  then show ?case by auto
next
  case (Cons other notified)
  from Cons.prems obtain t where t: "welcome_comment_insert now userid commentid other submitid charid journalid updateid db
      = Inr (add_welcome now other userid (get_targetid [submitid, charid, journalid, updateid]) commentid t db)"
    and rest: "comment_notifications now userid commentid notified submitid charid journalid updateid
      (add_welcome now other userid (get_targetid [submitid, charid, journalid, updateid]) commentid t db) = Inr db'"
    by (auto simp: welcome_comment_insert_def Let_def split: sum.splits option.splits if_splits)
  let ?db = "add_welcome now other userid (get_targetid [submitid, charid, journalid, updateid]) commentid t db"
  obtain we where we: "t_welcome ?db = t_welcome db @ [we]" "we_userid we = other" "we_otherid we = userid" "we_targetid we = commentid"
    using add_welcome_rows by blast
  from Cons.IH [OF rest] obtain new where new: "t_welcome db' = t_welcome ?db @ new" "map we_userid new = notified"
    "\<forall>we \<in> set new. we_otherid we = userid \<and> we_targetid we = commentid" and only: "welcome_only ?db db'"
    by blast
  have "welcome_only db db'"
    using only by (rule welcome_only_trans [OF welcome_only_add])
  moreover have "t_welcome db' = t_welcome db @ (we # new)" "map we_userid (we # new) = other # notified"
    "\<forall>w \<in> set (we # new). we_otherid w = userid \<and> we_targetid w = commentid"
    using we new by simp_all
  ultimately show ?case by (intro conjI exI [of _ "we # new"])
qed

lemma notify_comment_same: "same_comments db (snd (notify_comment now userid commentid parentid parentuserid otherid s c j u db))"
proof -
  have reply: "same_comments db db'" if "welcome_commentreply_insert now userid commentid parentuserid parentid s c j u db = Inr db'" for db'
    using that by (auto simp: welcome_commentreply_insert_def Let_def intro!: same_comments_welcome split: option.splits if_splits)
  have others: "same_comments db db'" if "comment_notifications now userid commentid ns s c j u db = Inr db'"
    for db' ns and db :: "'a content_db_scheme"
    using comment_notifications_rows [OF that] by (blast intro: same_comments_welcome)
  have can: "same_comments db (snd (if s \<noteq> 0 then can_notify userid (collection_find_owners s db) db else (Inr [], db)))"
    by (simp add: same_comments_config config_read_can_notify)
  show ?thesis
  proof (cases "parentid \<noteq> 0 \<and> userid \<noteq> parentuserid")
    case True
    then show ?thesis
      using reply by (simp add: notify_comment_def split: sum.split)
  next
    case False
    have "same_comments db' (snd (case comment_notifications now userid commentid ns s c j u db' of
        Inl e \<Rightarrow> (Inl e, db') | Inr db \<Rightarrow> (Inr commentid, db)))" for ns and db' :: "'a content_db_scheme"
      using others by (simp split: sum.split)
    then have "same_comments db (snd (and_then (if s \<noteq> 0 then can_notify userid (collection_find_owners s db) db else (Inr [], db))
        (\<lambda>notified db. case comment_notifications now userid commentid
            (filter (\<lambda>other. other \<noteq> userid) (remdups (notified @ [otherid]))) s c j u db of
          Inl e \<Rightarrow> (Inl e, db) | Inr db \<Rightarrow> (Inr commentid, db))))"
      by (intro same_comments_and_then can)
    then show ?thesis
      using False by (auto simp: notify_comment_def)
  qed
qed


lemma parent_author_row:
  assumes "parent_author authors parentid = Inr u" "parentid \<noteq> 0"
  shows "(parentid, u) \<in> set authors"
  using assms by (auto simp: parent_author_def dest: map_of_SomeD split: option.splits)

lemma nullable_simps [simp]: "nullable 0 = None" "nullable i = Some p \<longleftrightarrow> i = p \<and> p \<noteq> 0"
  by (auto simp: nullable_def)

lemma add_comments_row_threads:
  assumes "threads_ok db" "target_sub \<noteq> None \<Longrightarrow> target_user = None \<and> \<not> has_flag (CHR ''s'') settings"
    and "parentid \<noteq> 0 \<Longrightarrow> \<exists>q \<in> set (t_comments db). cm_commentid q = parentid
      \<and> cm_page q = (target_user, target_sub, has_flag (CHR ''s'') settings)"
  shows "threads_ok (snd (add_comments_row now userid target_user target_sub parentid content settings db))"
proof -
  let ?r = "\<lparr>cm_commentid = comments_seq db, cm_userid = userid, cm_target_user = target_user, cm_target_sub = target_sub,
    cm_parentid = nullable parentid, cm_content = content, cm_unixtime = now, cm_settings = settings, cm_hidden_by = None\<rparr>"
  have "replies_ok (comments_seq db + 1) cm_commentid cm_parentid cm_page (t_comments db @ [?r])"
    using assms(1,3) by (intro replies_ok_add) (auto simp: threads_ok_def cm_page_def)
  then show ?thesis
    using assms(1,2) by (auto simp: threads_ok_def add_comments_row_def)
qed

lemma add_comment_threads:
  assumes "threads_ok db" "parent_author (comment_authors feature targetid db) parentid = Inr u" "feature \<noteq> CF_shout"
  shows "threads_ok (snd (add_comment now feature userid targetid parentid content db))"
proof -
  have parent: "parentid \<noteq> 0 \<Longrightarrow> (parentid, u) \<in> set (comment_authors feature targetid db)"
    by (rule parent_author_row [OF assms(2)])
  show ?thesis
  proof (cases feature)
    case CF_shout
    with assms(3) show ?thesis by blast
  next
    case CF_submit
    have "\<exists>q \<in> set (t_comments db). cm_commentid q = parentid \<and> cm_page q = (None, Some targetid, False)" if "parentid \<noteq> 0"
      using parent [OF that] CF_submit assms(1) by (fastforce simp: comment_authors_def threads_ok_def cm_page_def)
    then show ?thesis
      using CF_submit assms(1) by (auto simp: add_comment_def intro!: add_comments_row_threads)
  next
    case CF_char
    have "replies_ok (charcomment_seq db + 1) cc_commentid (\<lambda>cc. nullable (cc_parentid cc)) cc_targetid
        (t_charcomment db @ [\<lparr>cc_commentid = charcomment_seq db, cc_userid = userid, cc_targetid = targetid,
          cc_parentid = parentid, cc_content = content, cc_unixtime = now, cc_settings = [], cc_hidden_by = None\<rparr>])"
      using assms(1) parent CF_char
      by (intro replies_ok_add) (force simp: threads_ok_def comment_authors_def)+
    then show ?thesis
      using CF_char assms(1) by (simp add: add_comment_def threads_ok_def)
  next
    case CF_journal
    have "replies_ok (journalcomment_seq db + 1) jc_commentid (\<lambda>jc. nullable (jc_parentid jc)) jc_targetid
        (t_journalcomment db @ [\<lparr>jc_commentid = journalcomment_seq db, jc_userid = userid, jc_targetid = targetid,
          jc_parentid = parentid, jc_content = content, jc_unixtime = now, jc_settings = [], jc_hidden_by = None\<rparr>])"
      using assms(1) parent CF_journal
      by (intro replies_ok_add) (force simp: threads_ok_def comment_authors_def)+
    then show ?thesis
      using CF_journal assms(1) by (simp add: add_comment_def threads_ok_def)
  next
    case CF_siteupdate
    have "replies_ok (siteupdatecomment_seq db + 1) sc_commentid sc_parentid sc_targetid
        (t_siteupdatecomment db @ [\<lparr>sc_commentid = siteupdatecomment_seq db, sc_userid = userid, sc_targetid = targetid,
          sc_parentid = nullable parentid, sc_content = content, sc_created_at = now - UNIXTIME_OFFSET,
          sc_hidden_at = None, sc_hidden_by = None\<rparr>])"
      using assms(1) parent CF_siteupdate
      by (intro replies_ok_add) (force simp: threads_ok_def comment_authors_def)+
    then show ?thesis
      using CF_siteupdate assms(1) by (simp add: add_comment_def threads_ok_def)
  qed
qed

lemma comment_target_feature: "comment_target s c j u = Inr (feature, t) \<Longrightarrow> feature \<noteq> CF_shout"
  by (auto simp: comment_target_def split: if_splits)

lemma comment_insert_threads:
  assumes "threads_ok db"
  shows "threads_ok (snd (comment_insert now userid s c j u parentid content db))"
proof -
  have add: "threads_ok (snd (notify_comment now userid commentid parentid pu oid s c j u db'))"
    if "add_comment now feature userid t parentid content db = (commentid, db')"
      "parent_author (comment_authors feature t db) parentid = Inr pu" "feature \<noteq> CF_shout" for commentid db' pu oid feature t
    using same_comments_threads [OF notify_comment_same] add_comment_threads [OF assms that(2,3), of now userid content] that(1)
    by (metis snd_conv)
  then show ?thesis
    using assms comment_target_feature [of s c j u]
    by (auto simp: comment_insert_def Let_def split: sum.splits prod.splits)
qed

lemma hide_comments_row_threads: "threads_ok db \<Longrightarrow> threads_ok (hide_comments_row userid commentid db)"
  unfolding threads_ok_def hide_comments_row_def
  by (auto simp: set_update_where intro!: replies_ok_update) (auto simp: cm_page_def)

lemma hide_comment_threads: "threads_ok db \<Longrightarrow> threads_ok (hide_comment now userid feature commentid db)"
proof (cases "feature = CF_shout \<or> feature = CF_submit")
  case True
  then show "threads_ok db \<Longrightarrow> ?thesis" by (auto simp: hide_comment_def hide_comments_row_threads)
next
  case False
  then show "threads_ok db \<Longrightarrow> ?thesis"
    by (cases feature) (auto simp: hide_comment_def threads_ok_def intro!: replies_ok_update)
qed

lemma same_comments_header: "same_comments db (page_header_info_invalidate_multi us db)"
proof -
  obtain h where "page_header_info_invalidate_multi us db = db\<lparr>c_page_header := h\<rparr>"
    using page_header_invalidate_frame by blast
  then show ?thesis by (simp add: same_comments_def)
qed

lemma same_comments_remove: "same_comments db (welcome_comment_remove commentid feature db)"
  unfolding welcome_comment_remove_def Let_def
  by (rule same_comments_trans [OF same_comments_welcome [OF welcome_only_delete] same_comments_header])

lemma comment_remove_threads: "threads_ok db \<Longrightarrow> threads_ok (snd (comment_remove st now userid feature commentid db))"
  by (auto simp: comment_remove_def split: option.split intro!: hide_comment_threads
      same_comments_threads [OF same_comments_remove])

lemma shout_remove_threads: "threads_ok db \<Longrightarrow> threads_ok (snd (shout_remove st userid commentid db))"
  by (auto simp: shout_remove_def Let_def split: option.split intro!: hide_comments_row_threads
      same_comments_threads [OF same_comments_remove])

lemma config_read_shout_permission: "config_read db (snd (shout_permission userid target pu db))"
  unfolding shout_permission_def get_login_settings_def
  by (auto intro!: config_read_and_then config_read_get_config config_read_get_all_config split: prod.split)

lemma notify_shout_same: "same_comments db (notify_shout st now userid commentid t p pu sn db)"
  by (auto simp: notify_shout_def welcome_shoutreply_insert_def welcome_shout_insert_def intro!: same_comments_welcome)

lemma threads_ok_and_then:
  assumes "threads_ok (snd r)" "\<And>x s. r = (Inr x, s) \<Longrightarrow> threads_ok (snd (f x s))"
  shows "threads_ok (snd (and_then r f))"
  using assms by (cases r; cases "fst r") (auto simp: and_then_def)

lemma add_shout_threads:
  assumes "threads_ok db" "parent_author (shout_authors staffnotes target db) parentid = Inr u" "same_comments db db'"
  shows "threads_ok (snd (add_comments_row now userid (Some target) None parentid content (if staffnotes then ''s'' else []) db'))"
proof (rule add_comments_row_threads)
  show "threads_ok db'" by (rule same_comments_threads [OF assms(3,1)])
  assume "parentid \<noteq> 0"
  from parent_author_row [OF assms(2) this]
  show "\<exists>q \<in> set (t_comments db'). cm_commentid q = parentid
      \<and> cm_page q = (Some target, None, has_flag (CHR ''s'') (if staffnotes then ''s'' else []))"
    using assms(1,3) by (fastforce simp: shout_authors_def same_comments_def threads_ok_def cm_page_def)
qed simp

lemma shout_insert_threads:
  assumes "threads_ok db"
  shows "threads_ok (snd (shout_insert st now userid target parentid content staffnotes db))"
proof -
  have one: "threads_ok (snd (let (commentid, db) = add_comments_row now userid (Some target) None parentid content
        (if staffnotes then ''s'' else []) db' in (Inr commentid, notify_shout st now userid commentid target parentid pu staffnotes db)))"
    if "threads_ok s" "parent_author (shout_authors staffnotes target s) parentid = Inr pu" "same_comments s db'"
    for s db' :: "'a content_db_scheme" and pu
    using same_comments_threads [OF notify_shout_same add_shout_threads [OF that]] by (simp add: split_def Let_def)
  have two: "threads_ok (snd (and_then (if userid \<in> MODS st then (Inr (), s) else shout_permission userid target pu s)
      (\<lambda>_ db. let (commentid, db) = add_comments_row now userid (Some target) None parentid content
           (if staffnotes then ''s'' else []) db in (Inr commentid, notify_shout st now userid commentid target parentid pu staffnotes db))))"
    if s: "threads_ok s" "parent_author (shout_authors staffnotes target s) parentid = Inr pu"
    for s :: "'a content_db_scheme" and pu
  proof -
    have same: "same_comments s (snd (if userid \<in> MODS st then (Inr (), s) else shout_permission userid target pu s))"
      by (simp add: same_comments_config config_read_shout_permission)
    show ?thesis
    proof (rule threads_ok_and_then)
      show "threads_ok (snd (if userid \<in> MODS st then (Inr (), s) else shout_permission userid target pu s))"
        by (rule same_comments_threads [OF same s(1)])
      fix x s'
      assume "(if userid \<in> MODS st then (Inr (), s) else shout_permission userid target pu s) = (Inr x, s')"
      with same have "same_comments s s'" by simp
      then show "threads_ok (snd (let (commentid, db) = add_comments_row now userid (Some target) None parentid content
           (if staffnotes then ''s'' else []) s' in (Inr commentid, notify_shout st now userid commentid target parentid pu staffnotes db)))"
        by (rule one [OF s])
    qed
  qed
  have vouched: "config_read db (snd (get_is_vouched_for target db))"
    by (simp add: get_is_vouched_for_def and_then_snd config_read_get_all_config)
  have "threads_ok (snd (get_is_vouched_for target db))"
    by (rule same_comments_threads [OF same_comments_config [OF vouched] assms])
  moreover have "threads_ok s" if "get_is_vouched_for target db = (Inr x, s)" for x s
    using calculation that by simp
  ultimately show ?thesis
    using assms two by (auto simp: shout_insert_def split: sum.split intro!: threads_ok_and_then)
qed

text \<open>Everything any user can do with comments and shouts.\<close>

inductive comment_step :: "staff_sets \<Rightarrow> 'a content_db_scheme \<Rightarrow> 'a content_db_scheme \<Rightarrow> bool" for st where
  commented: "comment_step st db (snd (comment_insert now userid s c j u parentid content db))"
| comment_removed: "comment_step st db (snd (comment_remove st now userid feature commentid db))"
| shouted: "comment_step st db (snd (shout_insert st now userid target parentid content staffnotes db))"
| shout_removed: "comment_step st db (snd (shout_remove st userid commentid db))"

lemma comment_step_threads: "comment_step st db db' \<Longrightarrow> threads_ok db \<Longrightarrow> threads_ok db'"
  by (induction rule: comment_step.induct)
    (rule comment_insert_threads comment_remove_threads shout_insert_threads shout_remove_threads; assumption)+

text \<open>
  C18: Replies stay on their page. Whatever comments and shouts are written and hidden by whatever users, in
  any order, ids stay unique and a reply always answers an earlier comment of the same submission,
  character, journal, update or user page, and a staff note answers staff notes only. In
  particular the links that \<open>welcome.comment_remove\<close> follows always lead from older to newer
  comments, so its recursion ends.
\<close>

theorem threads_stay_ok:
  assumes "(comment_step st)\<^sup>*\<^sup>* db db'" "threads_ok db"
  shows "threads_ok db' \<and> (\<forall>(c, p) \<in> set (comment_links feature db'). \<forall>q. p = Some q \<longrightarrow> q < c)"
proof -
  have ok: "threads_ok db'"
    using assms by (induction rule: rtranclp_induct) (auto intro: comment_step_threads)
  have zero: "\<forall>(c, p) \<in> set (map (\<lambda>r. (id_of r, Some (parent_of r))) rows). \<forall>q. p = Some q \<longrightarrow> q < c"
    if "replies_ok seq id_of (\<lambda>r. nullable (parent_of r)) about rows"
    for seq id_of about and parent_of :: "'r \<Rightarrow> int" and rows
  proof -
    have "parent_of r < id_of r" if "r \<in> set rows" for r
      using \<open>replies_ok seq id_of (\<lambda>r. nullable (parent_of r)) about rows\<close> that
      by (cases "parent_of r = 0") (auto simp: replies_ok_def)
    then show ?thesis by auto
  qed
  from ok have r: "replies_ok (comments_seq db') cm_commentid cm_parentid cm_page (t_comments db')"
    "replies_ok (siteupdatecomment_seq db') sc_commentid sc_parentid sc_targetid (t_siteupdatecomment db')"
    "replies_ok (charcomment_seq db') cc_commentid (\<lambda>cc. nullable (cc_parentid cc)) cc_targetid (t_charcomment db')"
    "replies_ok (journalcomment_seq db') jc_commentid (\<lambda>jc. nullable (jc_parentid jc)) jc_targetid (t_journalcomment db')"
    by (simp_all add: threads_ok_def)
  have "\<forall>(c, p) \<in> set (comment_links feature db'). \<forall>q. p = Some q \<longrightarrow> q < c"
    by (cases feature; simp only: comment_links.simps)
      (rule replies_ok_links [OF r(1)] replies_ok_links [OF r(2)] zero [OF r(3)] zero [OF r(4)])+
  with ok show ?thesis by blast
qed

theorem threads_stay_ok_witness:
  "let db = blank_db\<lparr>t_journal := [\<lparr>jo_journalid = 4, jo_userid = 5, jo_title = ''t'', jo_content = ''c'', jo_rating = 10,
         jo_unixtime = 0, jo_hidden = False, jo_friends_only = False, jo_page_views = 0,
         jo_submitter_ip_address = None, jo_submitter_user_agent_id = None\<rparr>]\<rparr>;
       db1 = snd (comment_insert 9 7 0 0 4 0 0 ''hi'' db);
       db2 = snd (comment_insert 9 5 0 0 4 0 1 ''hello'' db1)
   in threads_ok db2 \<and> comment_links CF_journal db2 = [(1, Some 0), (2, Some 1)]"
proof -
  define db where "db = blank_db\<lparr>t_journal := [\<lparr>jo_journalid = 4, jo_userid = 5, jo_title = ''t'', jo_content = ''c'', jo_rating = 10,
         jo_unixtime = 0, jo_hidden = False, jo_friends_only = False, jo_page_views = 0,
         jo_submitter_ip_address = None, jo_submitter_user_agent_id = None\<rparr>]\<rparr>"
  have start: "threads_ok db"
    by (simp add: db_def threads_ok_def blank_db_def replies_ok_def)
  have "(comment_step \<lparr>DIRECTORS = {}, ADMINS = {}, MODS = {}, DEVELOPERS = {}, WESLEY = None\<rparr>)\<^sup>*\<^sup>* db
      (snd (comment_insert 9 5 0 0 4 0 1 ''hello'' (snd (comment_insert 9 7 0 0 4 0 0 ''hi'' db))))"
    by (rule rtranclp.rtrancl_into_rtrancl, rule r_into_rtranclp, rule commented, rule commented)
  from threads_stay_ok [OF this start]
  have "threads_ok (snd (comment_insert 9 5 0 0 4 0 1 ''hello'' (snd (comment_insert 9 7 0 0 4 0 0 ''hi'' db))))" by blast
  moreover have "comment_links CF_journal (snd (comment_insert 9 5 0 0 4 0 1 ''hello'' (snd (comment_insert 9 7 0 0 4 0 0 ''hi'' db))))
      = [(1, Some 0), (2, Some 1)]"
    unfolding db_def by code_simp
  ultimately show ?thesis by (simp add: db_def Let_def)
qed


subsection \<open>Who is told of a comment\<close>

lemma case_sum_ok:
  "(case r of Inl e \<Rightarrow> (Inl e, s) | Inr x \<Rightarrow> f x) = (Inr y, s') \<longleftrightarrow> (\<exists>x. r = Inr x \<and> f x = (Inr y, s'))"
  by (cases r) auto

lemma comment_insert_ok:
  assumes "comment_insert now userid s c j u parentid content db = (Inr commentid, db')"
  obtains feature t parentuserid otherid mid where
    "comment_target s c j u = Inr (feature, t)" "content \<noteq> []"
    "parent_author (comment_authors feature t db) parentid = Inr parentuserid"
    "page_owner userid feature t db = Inr otherid"
    "parentuserid \<noteq> 0 \<Longrightarrow> \<not> ignoreuser_check parentuserid userid db \<and> \<not> ignoreuser_check userid parentuserid db"
    "add_comment now feature userid t parentid content db = (commentid, mid)"
    "notify_comment now userid commentid parentid parentuserid otherid s c j u mid = (Inr commentid, db')"
proof -
  have id: "cid = commentid" if "notify_comment now userid cid parentid pu oid s c j u mid = (Inr commentid, db')" for cid pu oid mid
    using that by (auto simp: notify_comment_def and_then_ok case_sum_ok split: if_splits)
  obtain feature t where target: "comment_target s c j u = Inr (feature, t)"
    using assms by (cases "comment_target s c j u") (auto simp: comment_insert_def)
  obtain cid mid where add: "add_comment now feature userid t parentid content db = (cid, mid)"
    by fastforce
  define many where "many = (length (filter (\<lambda>i. i \<noteq> 0) [s, c, j, u]) > 1)"
  have h: "(if many then (Inl (WeasylError ''Unexpected''), db)
      else if content = [] then (Inl (WeasylError ''commentInvalid''), db)
      else case parent_author (comment_authors feature t db) parentid of Inl e \<Rightarrow> (Inl e, db)
        | Inr pu \<Rightarrow> (case page_owner userid feature t db of Inl e \<Rightarrow> (Inl e, db)
          | Inr oid \<Rightarrow>
              if pu \<noteq> 0 \<and> ignoreuser_check pu userid db then (Inl (WeasylError ''replyRecipientIgnoredYou''), db)
              else if pu \<noteq> 0 \<and> ignoreuser_check userid pu db then (Inl (WeasylError ''youIgnoredReplyRecipient''), db)
              else notify_comment now userid cid parentid pu oid s c j u mid)) = (Inr commentid, db')"
    using assms unfolding comment_insert_def target sum.case prod.case many_def [symmetric] add Let_def .
  then obtain pu oid where "parent_author (comment_authors feature t db) parentid = Inr pu"
    "page_owner userid feature t db = Inr oid" "content \<noteq> []"
    "pu \<noteq> 0 \<Longrightarrow> \<not> ignoreuser_check pu userid db \<and> \<not> ignoreuser_check userid pu db"
    "notify_comment now userid cid parentid pu oid s c j u mid = (Inr commentid, db')"
    by (auto simp: case_sum_ok split: if_splits)
  with target add that id show thesis by blast
qed

lemma can_notify_rows:
  assumes "can_notify userid others db = (Inr ns, s)"
  shows "t_welcome s = t_welcome db"
  using config_read_can_notify [of db userid others] assms by (auto simp: config_read_def)

definition told_of_comment :: "int \<Rightarrow> int \<Rightarrow> int \<Rightarrow> int \<Rightarrow> int \<Rightarrow> 'a content_db_scheme \<Rightarrow> int list" where
  "told_of_comment userid parentid parentuserid ownerid submitid db =
     (if parentid \<noteq> 0 then (if parentuserid = userid then [] else [parentuserid])
      else filter (\<lambda>other. other \<noteq> userid)
        (remdups (filter (\<lambda>other. wants_notification userid other db)
            (if submitid \<noteq> 0 then collection_find_owners submitid db else []) @ [ownerid])))"

lemma notify_comment_rows:
  assumes "config_cache_ok db" "notify_comment now userid commentid parentid pu oid s c j u db = (Inr commentid, db')"
  shows "\<exists>new. t_welcome db' = t_welcome db @ new \<and> map we_userid new = told_of_comment userid parentid pu oid s db
    \<and> (\<forall>we \<in> set new. we_otherid we = userid \<and> we_targetid we = commentid)"
proof -
  consider (reply) "parentid \<noteq> 0" "userid \<noteq> pu" | (own) "parentid \<noteq> 0" "userid = pu" | (top) "parentid = 0" by blast
  then show ?thesis
  proof cases
    case reply
    then obtain t where "db' = add_welcome now pu userid parentid commentid t db"
      using assms(2) by (auto simp: notify_comment_def welcome_commentreply_insert_def Let_def
          split: sum.splits option.splits if_splits)
    then show ?thesis
      using reply add_welcome_rows [of now pu userid parentid commentid t db]
      by (fastforce simp: told_of_comment_def)
  next
    case own
    then show ?thesis using assms(2) by (simp add: notify_comment_def told_of_comment_def)
  next
    case top
    let ?r = "if s \<noteq> 0 then can_notify userid (collection_find_owners s db) db else (Inr [], db)"
    obtain ns mid where r: "?r = (Inr ns, mid)"
      and n: "comment_notifications now userid commentid (filter (\<lambda>other. other \<noteq> userid) (remdups (ns @ [oid]))) s c j u mid = Inr db'"
      using assms(2) top by (auto simp: notify_comment_def and_then_ok case_sum_ok)
    have "t_welcome mid = t_welcome db"
      using r can_notify_rows by (auto split: if_splits)
    moreover have "ns = filter (\<lambda>other. wants_notification userid other db) (if s \<noteq> 0 then collection_find_owners s db else [])"
      using r can_notify_value [OF assms(1)] by (auto split: if_splits)
    ultimately show ?thesis
      using comment_notifications_rows [OF n] top by (simp add: told_of_comment_def)
  qed
qed

lemma add_comment_frame:
  assumes "add_comment now feature userid t parentid content db = (commentid, mid)"
  shows "t_welcome mid = t_welcome db" "config_cache_ok mid = config_cache_ok db"
    "wants_notification u other mid = wants_notification u other db"
    "collection_find_owners i mid = collection_find_owners i db"
proof -
  have [simp]: "query_all_config v mid = query_all_config v db" for v
    using assms by (cases feature; auto simp: add_comment_def add_comments_row_def query_all_config_def cong: option.case_cong)
  show "t_welcome mid = t_welcome db" "collection_find_owners i mid = collection_find_owners i db"
    using assms by (cases feature; auto simp: add_comment_def add_comments_row_def collection_find_owners_def)+
  have "c_all_config mid = c_all_config db" "t_ignoreuser mid = t_ignoreuser db"
    using assms by (cases feature; auto simp: add_comment_def add_comments_row_def)+
  then show "config_cache_ok mid = config_cache_ok db" "wants_notification u other mid = wants_notification u other db"
    by (simp_all add: coherent_def peek_all_config_def wants_notification_def profile_jsonb_def ignoreuser_check_def)
qed

lemma comment_authors_add:
  assumes "add_comment now feature userid t parentid content db = (commentid, mid)"
  shows "comment_authors feature t mid = comment_authors feature t db @ [(commentid, userid)]"
  using assms by (cases feature; auto simp: add_comment_def add_comments_row_def comment_authors_def)

lemma comment_authors_same: "same_comments db db' \<Longrightarrow> comment_authors feature t db' = comment_authors feature t db"
  by (cases feature) (simp_all add: same_comments_def comment_authors_def)

text \<open>
  C19: Writing a comment. When \<open>insert\<close> succeeds, the page is one the author may comment on
  (\<open>page_owner\<close>), a comment that is answered is on that page, and its author and the writer do not
  ignore each other. The comment is added to the page, and the new notifications are exactly these: for
  a reply one to the author of the answered comment, unless that is the writer; for a top-level comment
  one to the owner of the page and, on a submission, one to each collector who wants such
  notifications and does not ignore the writer, each user at most once and never the writer.
\<close>

theorem comment_insert_effect:
  assumes "config_cache_ok db" "comment_insert now userid s c j u parentid content db = (Inr commentid, db')"
  shows "\<exists>feature t parentuserid ownerid new. comment_target s c j u = Inr (feature, t) \<and> content \<noteq> []
    \<and> page_owner userid feature t db = Inr ownerid
    \<and> (if parentid = 0 then parentuserid = 0 else (parentid, parentuserid) \<in> set (comment_authors feature t db))
    \<and> (parentuserid \<noteq> 0 \<longrightarrow> \<not> ignoreuser_check parentuserid userid db \<and> \<not> ignoreuser_check userid parentuserid db)
    \<and> comment_authors feature t db' = comment_authors feature t db @ [(commentid, userid)]
    \<and> t_welcome db' = t_welcome db @ new
    \<and> map we_userid new = told_of_comment userid parentid parentuserid ownerid s db
    \<and> userid \<notin> set (map we_userid new) \<and> distinct (map we_userid new)
    \<and> (\<forall>we \<in> set new. we_otherid we = userid \<and> we_targetid we = commentid)"
proof -
  obtain feature t parentuserid otherid mid where
    target: "comment_target s c j u = Inr (feature, t)" "content \<noteq> []"
    and parent: "parent_author (comment_authors feature t db) parentid = Inr parentuserid"
    and owner: "page_owner userid feature t db = Inr otherid"
    and ignored: "parentuserid \<noteq> 0 \<Longrightarrow> \<not> ignoreuser_check parentuserid userid db \<and> \<not> ignoreuser_check userid parentuserid db"
    and add: "add_comment now feature userid t parentid content db = (commentid, mid)"
    and notify: "notify_comment now userid commentid parentid parentuserid otherid s c j u mid = (Inr commentid, db')"
    using comment_insert_ok [OF assms(2)] by blast
  note frame = add_comment_frame [OF add]
  have "config_cache_ok mid" using assms(1) frame(2) by simp
  from notify_comment_rows [OF this notify] obtain new where new: "t_welcome db' = t_welcome db @ new"
    "map we_userid new = told_of_comment userid parentid parentuserid otherid s mid"
    "\<forall>we \<in> set new. we_otherid we = userid \<and> we_targetid we = commentid"
    unfolding frame(1) by blast
  have told: "told_of_comment userid parentid parentuserid otherid s mid = told_of_comment userid parentid parentuserid otherid s db"
    by (simp add: told_of_comment_def frame(3,4))
  have once: "userid \<notin> set (told_of_comment userid parentid parentuserid otherid s db)
      \<and> distinct (told_of_comment userid parentid parentuserid otherid s db)"
    by (auto simp: told_of_comment_def)
  have who: "if parentid = 0 then parentuserid = 0 else (parentid, parentuserid) \<in> set (comment_authors feature t db)"
    using parent parent_author_row [OF parent] by (auto simp: parent_author_def)
  have "same_comments mid db'"
    using notify_comment_same [of mid now userid commentid parentid parentuserid otherid s c j u] notify by simp
  then have "comment_authors feature t db' = comment_authors feature t db @ [(commentid, userid)]"
    by (simp add: comment_authors_same comment_authors_add [OF add])
  then show ?thesis
    using target owner ignored who new once unfolding told by metis
qed

definition comment_db :: "unit tags_db_scheme" where
  "comment_db = blank_db\<lparr>t_submission := [sample_submission 3 5], t_collection := [sample_collection 6 3 ''''],
     t_login := [\<lparr>lo_userid = 6, lo_login_name = ''cat'', lo_last_login = 0, lo_email = [], lo_twofa_secret = None,
       lo_ip_address_at_signup = None, lo_voucher = Some 6, lo_last_read_updateid = None\<rparr>],
     t_profile := [sample_profile 6 ''cat'' []],
     t_comments := [\<lparr>cm_commentid = 1, cm_userid = 8, cm_target_user = None, cm_target_sub = Some 3, cm_parentid = None,
       cm_content = ''first'', cm_unixtime = 0, cm_settings = [], cm_hidden_by = None\<rparr>], comments_seq := 2\<rparr>"

theorem comment_insert_effect_witness:
  "map we_userid (t_welcome (snd (comment_insert 9 7 3 0 0 0 1 ''re'' comment_db))) = [8]
   \<and> map we_userid (t_welcome (snd (comment_insert 9 7 3 0 0 0 0 ''new'' comment_db))) = [6, 5]"
proof -
  have ok: "config_cache_ok comment_db"
    by (simp add: comment_db_def coherent_def peek_all_config_def blank_db_def)
  have start: "t_welcome comment_db = []" by code_simp
  have feature: "comment_target 3 0 0 0 = Inr (CF_submit, 3)" by (simp add: comment_target_def)
  have owner: "page_owner 7 CF_submit 3 comment_db = Inr 5" by code_simp
  have authors: "comment_authors CF_submit 3 comment_db = [(1, 8)]" by code_simp
  have told: "told_of_comment 7 1 8 5 3 comment_db = [8]" "told_of_comment 7 0 0 5 3 comment_db = [6, 5]" by code_simp+
  have "fst (comment_insert 9 7 3 0 0 0 1 ''re'' comment_db) = Inr 2" "fst (comment_insert 9 7 3 0 0 0 0 ''new'' comment_db) = Inr 2"
    by code_simp+
  then have r: "comment_insert 9 7 3 0 0 0 1 ''re'' comment_db = (Inr 2, snd (comment_insert 9 7 3 0 0 0 1 ''re'' comment_db))"
    "comment_insert 9 7 3 0 0 0 0 ''new'' comment_db = (Inr 2, snd (comment_insert 9 7 3 0 0 0 0 ''new'' comment_db))"
    by (metis prod.collapse)+
  from comment_insert_effect [OF ok r(1)] have "map we_userid (t_welcome (snd (comment_insert 9 7 3 0 0 0 1 ''re'' comment_db))) = [8]"
  proof (elim exE conjE)
    fix feature t pu oid new
    assume e: "comment_target 3 0 0 0 = Inr (feature, t)" "page_owner 7 feature t comment_db = Inr oid"
      "if (1 :: int) = 0 then pu = 0 else (1, pu) \<in> set (comment_authors feature t comment_db)"
      "t_welcome (snd (comment_insert 9 7 3 0 0 0 1 ''re'' comment_db)) = t_welcome comment_db @ new"
      "map we_userid new = told_of_comment 7 1 pu oid 3 comment_db"
    have f: "feature = CF_submit" "t = 3" using e(1) feature by simp_all
    have "oid = 5" "pu = 8" using e(2,3) unfolding f by (simp_all add: owner authors)
    then show ?thesis using e(4,5) by (simp add: told start)
  qed
  moreover from comment_insert_effect [OF ok r(2)]
  have "map we_userid (t_welcome (snd (comment_insert 9 7 3 0 0 0 0 ''new'' comment_db))) = [6, 5]"
  proof (elim exE conjE)
    fix feature t pu oid new
    assume e: "comment_target 3 0 0 0 = Inr (feature, t)" "page_owner 7 feature t comment_db = Inr oid"
      "if (0 :: int) = 0 then pu = 0 else (0, pu) \<in> set (comment_authors feature t comment_db)"
      "t_welcome (snd (comment_insert 9 7 3 0 0 0 0 ''new'' comment_db)) = t_welcome comment_db @ new"
      "map we_userid new = told_of_comment 7 0 pu oid 3 comment_db"
    have f: "feature = CF_submit" "t = 3" using e(1) feature by simp_all
    have "oid = 5" "pu = 0" using e(2,3) unfolding f by (simp_all add: owner)
    then show ?thesis using e(4,5) by (simp add: told start)
  qed
  ultimately show ?thesis by simp
qed

subsection \<open>Hiding a comment\<close>

lemma visible_comments_same: "same_comments db db' \<Longrightarrow> visible_comments feature db' = visible_comments feature db"
  by (cases feature) (simp_all add: same_comments_def visible_comments_def)

lemma hide_filter:
  assumes "\<And>r. \<not> shown (f r)" "\<And>r. fst (g r) = id_of r"
  shows "map g (filter shown (update_where (\<lambda>r. id_of r = i \<and> shown r) f rows)) =
    filter (\<lambda>(k, _). k \<noteq> i) (map g (filter shown rows))"
  using assms by (induction rows) (auto simp: update_where_def split_def)

lemma hide_filter_partial:
  assumes "\<And>r. \<not> shown (f r)" "\<And>r x. g r = Some x \<Longrightarrow> fst x = id_of r"
  shows "List.map_filter g (filter shown (update_where (\<lambda>r. id_of r = i \<and> shown r) f rows)) =
    filter (\<lambda>(k, _). k \<noteq> i) (List.map_filter g (filter shown rows))"
proof (induction rows)
  case (Cons r rows)
  then show ?case
    using assms by (cases "g r") (auto simp: update_where_def split_def List.map_filter_simps)
qed (simp add: update_where_def List.map_filter_simps)

lemma visible_comments_hide:
  assumes "feature \<noteq> CF_shout"
  shows "visible_comments feature (hide_comment now userid feature commentid db) =
    filter (\<lambda>(i, _). i \<noteq> commentid) (visible_comments feature db)"
proof (cases feature)
  case CF_submit
  show ?thesis
    unfolding CF_submit visible_comments_def hide_comment_def hide_comments_row_def comment_feature.case
    by (simp, rule hide_filter_partial) auto
next
  case CF_char
  show ?thesis
    unfolding CF_char visible_comments_def hide_comment_def comment_feature.case by (simp, rule hide_filter) auto
next
  case CF_journal
  show ?thesis
    unfolding CF_journal visible_comments_def hide_comment_def comment_feature.case by (simp, rule hide_filter) auto
next
  case CF_siteupdate
  show ?thesis
    unfolding CF_siteupdate visible_comments_def hide_comment_def comment_feature.case by (simp, rule hide_filter) auto
qed (use assms in blast)

text \<open>
  C20: Hiding a comment. \<open>remove\<close> succeeds exactly for a comment that is visible, by the owner of the page
  (not of a site update), by a moderator, or by its author as long as nobody has visibly replied; its
  result is the page. Afterwards the comment is not visible, all other comments of its kind are as
  visible as before, hiding it again is refused, and no row is lost.
\<close>

theorem comment_remove_effect:
  assumes "feature \<noteq> CF_shout"
  shows "(case comment_remove st now userid feature commentid db of
      (Inl e, db') \<Rightarrow> db' = db \<and>
        (case map_of (visible_comments feature db) commentid of
           None \<Rightarrow> e = WeasylError ''RecordMissing''
         | Some (author, target, _) \<Rightarrow> e = WeasylError ''InsufficientPermissions'' \<and> userid \<notin> MODS st
             \<and> target_owner feature target db \<noteq> Some userid \<and> (userid = author \<longrightarrow> has_visible_reply feature commentid db))
    | (Inr target, db') \<Rightarrow>
        (\<exists>author p. map_of (visible_comments feature db) commentid = Some (author, target, p)
           \<and> (target_owner feature target db = Some userid \<or> userid \<in> MODS st
              \<or> userid = author \<and> \<not> has_visible_reply feature commentid db))
        \<and> visible_comments feature db' = filter (\<lambda>(i, _). i \<noteq> commentid) (visible_comments feature db)
        \<and> fst (comment_remove st now userid feature commentid db') = Inl (WeasylError ''RecordMissing'')
        \<and> map fst (comment_links feature db') = map fst (comment_links feature db))"
proof (cases "\<exists>target db'. comment_remove st now userid feature commentid db = (Inr target, db')")
  case False
  then show ?thesis
    using assms by (auto simp: comment_remove_def split: option.splits)
next
  case True
  then obtain target db' where r: "comment_remove st now userid feature commentid db = (Inr target, db')" by blast
  then obtain author p where found: "map_of (visible_comments feature db) commentid = Some (author, target, p)"
    and allowed: "target_owner feature target db = Some userid \<or> userid \<in> MODS st
              \<or> userid = author \<and> \<not> has_visible_reply feature commentid db"
    and db': "db' = hide_comment now userid feature commentid (welcome_comment_remove commentid feature db)"
    using assms by (auto simp: comment_remove_def split: option.splits if_splits)
  have same: "same_comments db (welcome_comment_remove commentid feature db)" by (rule same_comments_remove)
  have visible: "visible_comments feature db' = filter (\<lambda>(i, _). i \<noteq> commentid) (visible_comments feature db)"
    unfolding db' visible_comments_hide [OF assms] by (simp add: visible_comments_same [OF same])
  have links: "map fst (comment_links feature db') = map fst (comment_links feature db)"
    using same assms unfolding db'
    by (cases feature) (simp_all add: hide_comment_def hide_comments_row_def same_comments_def update_where_def comp_def if_distrib)
  have "map_of (visible_comments feature db') commentid = None"
    unfolding visible by (auto simp: map_of_eq_None_iff)
  then have "fst (comment_remove st now userid feature commentid db') = Inl (WeasylError ''RecordMissing'')"
    using assms by (simp add: comment_remove_def)
  then show ?thesis
    using r found allowed visible links by simp
qed


theorem comment_remove_effect_witness:
  "let st = \<lparr>DIRECTORS = {}, ADMINS = {}, MODS = {}, DEVELOPERS = {}, WESLEY = None\<rparr>
   in fst (comment_remove st 9 8 CF_submit 1 comment_db) = Inr 3
      \<and> visible_comments CF_submit (snd (comment_remove st 9 8 CF_submit 1 comment_db)) = []
      \<and> fst (comment_remove st 9 7 CF_submit 1 comment_db) = Inl (WeasylError ''InsufficientPermissions'')"
proof -
  define st where "st = \<lparr>DIRECTORS = {}, ADMINS = {}, MODS = {}, DEVELOPERS = {}, WESLEY = None\<rparr>"
  have not_shout: "CF_submit \<noteq> CF_shout" by simp
  have ok: "fst (comment_remove st 9 8 CF_submit 1 comment_db) = Inr 3" unfolding st_def by code_simp
  have "visible_comments CF_submit (snd (comment_remove st 9 8 CF_submit 1 comment_db))
      = filter (\<lambda>(i, _). i \<noteq> 1) (visible_comments CF_submit comment_db)"
    using comment_remove_effect [OF not_shout, where st = st and now = 9 and userid = 8 and commentid = 1 and db = comment_db] ok by (auto split: prod.splits)
  moreover have "filter (\<lambda>(i, _). i \<noteq> 1) (visible_comments CF_submit comment_db) = []" by code_simp
  moreover have "fst (comment_remove st 9 7 CF_submit 1 comment_db) = Inl (WeasylError ''InsufficientPermissions'')"
    unfolding st_def by code_simp
  ultimately show ?thesis using ok by (simp add: st_def Let_def)
qed

end
