(* ===== verification/Notes.thy ===== *)
theory Notes
  imports Comments Pagination
begin

text \<open>
  Private messages, \<^verbatim>\<open>weasyl/note.py\<close>: the two mailboxes with their pages, reading a note, sending one
  with the checks on its recipient, and throwing notes away. A note is a row of \<open>message\<close>; the flag \<open>u\<close>
  of its settings is "unread", \<open>s\<close> and \<open>r\<close> are "thrown away" by its sender and by its recipient.
  \<open>lower\<close> and \<open>nfkd\<close> are Python's Unicode functions, as in \<open>Forms\<close>; \<open>now\<close> is the clock.
\<close>

definition NOTES_PAGE_SIZE :: nat where
  "NOTES_PAGE_SIZE = 50"

definition NOTES_COUNT_LIMIT :: nat where
  "NOTES_COUNT_LIMIT = 1000"

record note_item =
  ni_noteid :: int
  ni_otherid :: int
  ni_othername :: string
  ni_unread :: bool
  ni_title :: string
  ni_unixtime :: int

subsection \<open>The mailboxes\<close>

definition note_in_bounds :: "int option \<Rightarrow> int option \<Rightarrow> int \<Rightarrow> bool" where
  "note_in_bounds backid nextid noteid =
     (case backid of Some b \<Rightarrow> noteid > b | None \<Rightarrow> (case nextid of Some n \<Rightarrow> noteid < n | None \<Rightarrow> True))"

definition inbox_item :: "'a accounts_db_scheme \<Rightarrow> message_row \<Rightarrow> note_item option" where
  "inbox_item db ms = has_author db (ms_userid ms) (\<lambda>name.
     \<lparr>ni_noteid = ms_noteid ms, ni_otherid = ms_userid ms, ni_othername = name,
      ni_unread = has_flag (CHR ''u'') (ms_settings ms), ni_title = ms_title ms, ni_unixtime = ms_unixtime ms\<rparr>)"

definition outbox_item :: "'a accounts_db_scheme \<Rightarrow> message_row \<Rightarrow> note_item option" where
  "outbox_item db ms = has_author db (ms_otherid ms) (\<lambda>name.
     \<lparr>ni_noteid = ms_noteid ms, ni_otherid = ms_otherid ms, ni_othername = name,
      ni_unread = False, ni_title = ms_title ms, ni_unixtime = ms_unixtime ms\<rparr>)"

definition select_inbox_query ::
  "int \<Rightarrow> int option \<Rightarrow> int option \<Rightarrow> int list \<Rightarrow> 'a social_db_scheme \<Rightarrow> note_item list" where
  "select_inbox_query userid backid nextid flt db =
     List.map_filter (inbox_item db)
       (filter (\<lambda>ms. ms_otherid ms = userid \<and> \<not> has_flag (CHR ''r'') (ms_settings ms)
          \<and> (flt \<noteq> [] \<longrightarrow> ms_userid ms \<in> set flt) \<and> note_in_bounds backid nextid (ms_noteid ms)) (t_message db))"

definition select_outbox_query ::
  "int \<Rightarrow> int option \<Rightarrow> int option \<Rightarrow> int list \<Rightarrow> 'a social_db_scheme \<Rightarrow> note_item list" where
  "select_outbox_query userid backid nextid flt db =
     List.map_filter (outbox_item db)
       (filter (\<lambda>ms. ms_userid ms = userid \<and> \<not> has_flag (CHR ''s'') (ms_settings ms)
          \<and> (flt \<noteq> [] \<longrightarrow> ms_otherid ms \<in> set flt) \<and> note_in_bounds backid nextid (ms_noteid ms)) (t_message db))"

definition note_page :: "int option \<Rightarrow> note_item list \<Rightarrow> note_item list" where
  "note_page backid items =
     (let items = sort_key ni_noteid items;
          query = take NOTES_PAGE_SIZE (if backid = None then rev items else items)
      in if backid = None then query else rev query)"

definition select_inbox ::
  "int \<Rightarrow> int option \<Rightarrow> int option \<Rightarrow> int list \<Rightarrow> 'a social_db_scheme \<Rightarrow> note_item list" where
  "select_inbox userid backid nextid flt db = note_page backid (select_inbox_query userid backid nextid flt db)"

definition select_outbox ::
  "int \<Rightarrow> int option \<Rightarrow> int option \<Rightarrow> int list \<Rightarrow> 'a social_db_scheme \<Rightarrow> note_item list" where
  "select_outbox userid backid nextid flt db = note_page backid (select_outbox_query userid backid nextid flt db)"

definition select_inbox_count ::
  "int \<Rightarrow> int option \<Rightarrow> int option \<Rightarrow> int list \<Rightarrow> 'a social_db_scheme \<Rightarrow> nat" where
  "select_inbox_count userid backid nextid flt db =
     length (take NOTES_COUNT_LIMIT (select_inbox_query userid backid nextid flt db))"

definition select_outbox_count ::
  "int \<Rightarrow> int option \<Rightarrow> int option \<Rightarrow> int list \<Rightarrow> 'a social_db_scheme \<Rightarrow> nat" where
  "select_outbox_count userid backid nextid flt db =
     length (take NOTES_COUNT_LIMIT (select_outbox_query userid backid nextid flt db))"

subsection \<open>Reading a note\<close>

record note_view =
  nv_noteid :: int
  nv_senderid :: int
  nv_mine :: bool
  nv_sendername :: string
  nv_recipientid :: int
  nv_recipientname :: string
  nv_title :: string
  nv_content :: string
  nv_unixtime :: int

definition find_note :: "int \<Rightarrow> 'a social_db_scheme \<Rightarrow> (message_row \<times> string \<times> string) option" where
  "find_note noteid db =
     Option.bind (find (\<lambda>ms. ms_noteid ms = noteid) (t_message db)) (\<lambda>ms.
       Option.bind (profile_of (ms_userid ms) db) (\<lambda>ps.
         map_option (\<lambda>pr. (ms, pr_username ps, pr_username pr)) (profile_of (ms_otherid ms) db)))"

definition mark_read :: "int \<Rightarrow> 'a social_db_scheme \<Rightarrow> 'a social_db_scheme" where
  "mark_read noteid db =
     db\<lparr>t_message := update_where (\<lambda>ms. ms_noteid ms = noteid)
          (\<lambda>ms. ms\<lparr>ms_settings := remove_flag (CHR ''u'') (ms_settings ms)\<rparr>) (t_message db)\<rparr>"

definition select_view :: "int \<Rightarrow> int \<Rightarrow> 'a social_db_scheme \<Rightarrow> note_view result \<times> 'a social_db_scheme" where
  "select_view userid noteid db =
     (case find_note noteid db of
        None \<Rightarrow> (Inl (WeasylError ''noteRecordMissing''), db)
      | Some (ms, sendername, recipientname) \<Rightarrow>
          if userid = ms_userid ms \<and> has_flag (CHR ''s'') (ms_settings ms)
          then (Inl (WeasylError ''noteRecordMissing''), db)
          else if userid = ms_otherid ms \<and> has_flag (CHR ''r'') (ms_settings ms)
          then (Inl (WeasylError ''noteRecordMissing''), db)
          else if userid \<notin> {ms_userid ms, ms_otherid ms}
          then (Inl (WeasylError ''InsufficientPermissions''), db)
          else
            (Inr \<lparr>nv_noteid = noteid, nv_senderid = ms_userid ms, nv_mine = (userid = ms_userid ms),
                  nv_sendername = sendername, nv_recipientid = ms_otherid ms, nv_recipientname = recipientname,
                  nv_title = ms_title ms, nv_content = ms_content ms, nv_unixtime = ms_unixtime ms\<rparr>,
             if ms_otherid ms = userid \<and> has_flag (CHR ''u'') (ms_settings ms)
             then page_header_invalidate userid (mark_read noteid db) else db))"

subsection \<open>Sending a note\<close>

record note_form =
  nf_title :: string
  nf_content :: string
  nf_recipient :: ustr
  nf_mod_copy :: bool
  nf_staff_note :: string

text \<open>The recipient named by the form.\<close>

definition note_recipient ::
  "(ustr \<Rightarrow> ustr) \<Rightarrow> (ustr \<Rightarrow> ustr) \<Rightarrow> ustr \<Rightarrow> 'a accounts_db_scheme \<Rightarrow> int result \<times> 'a accounts_db_scheme" where
  "note_recipient lower nfkd recipient db =
     (let recipient_sysnames = parse_sysname_list lower nfkd recipient
      in if length recipient_sysnames > 1 then (Inl (WeasylError ''recipientExcessive''), db)
         else
           (let (recipientids, db) = get_userids (\<lambda>u. map_option to_string (parse_sysname lower nfkd u)) recipient_sysnames db
            in case map snd recipientids of
                 [] \<Rightarrow> (Inl (WeasylError ''recipientInvalid''), db)
               | [recipientid] \<Rightarrow> (Inr recipientid, db)
               | _ \<Rightarrow> (Inl ValueError, db)))"

definition is_permitted_sender :: "int \<Rightarrow> int \<Rightarrow> 'a social_db_scheme \<Rightarrow> bool" where
  "is_permitted_sender recipientid userid db =
     exists_where (\<lambda>ps. (ps_userid ps, ps_sender ps) = (recipientid, userid)) (t_permitted_senders db)"

text \<open>The checks on the recipient.\<close>

definition recipient_accepts ::
  "staff_sets \<Rightarrow> int \<Rightarrow> int \<Rightarrow> 'a social_db_scheme \<Rightarrow> unit result \<times> 'a social_db_scheme" where
  "recipient_accepts st userid recipientid db =
     (if recipientid = userid then (Inl (WeasylError ''recipientInvalid''), db)
      else if ignoreuser_check recipientid userid db then (Inl (WeasylError ''recipientInvalid''), db)
      else
        and_then (get_is_vouched_for recipientid db) (\<lambda>vouched db.
          if \<not> vouched then (Inl (WeasylError ''recipientInvalid''), db)
          else if ignoreuser_check userid recipientid db then (Inl (WeasylError ''recipientInvalid''), db)
          else if userid \<notin> MODS st then
            and_then (get_config recipientid db) (\<lambda>recipient_config db.
              if has_flag (CHR ''y'') recipient_config \<and> \<not> is_permitted_sender recipientid userid db
              then (Inl (WeasylError ''recipientInvalid''), db)
              else if has_flag (CHR ''z'') recipient_config \<and> \<not> frienduser_check userid recipientid db
                      \<and> \<not> is_permitted_sender recipientid userid db
              then (Inl (WeasylError ''recipientInvalid''), db)
              else (Inr (), db))
          else (Inr (), db)))"

definition add_message ::
  "int \<Rightarrow> int \<Rightarrow> int \<Rightarrow> string \<Rightarrow> string \<Rightarrow> 'a social_db_scheme \<Rightarrow> 'a social_db_scheme" where
  "add_message now userid recipientid title content db =
     db\<lparr>t_message := t_message db @
          [\<lparr>ms_noteid = message_seq db, ms_userid = userid, ms_otherid = recipientid, ms_user_folder = 0,
            ms_other_folder = 0, ms_title = title, ms_content = content, ms_unixtime = now, ms_settings = ''u''\<rparr>],
        message_seq := message_seq db + 1\<rparr>"

definition permit_sender :: "int \<Rightarrow> int \<Rightarrow> 'a social_db_scheme \<Rightarrow> 'a social_db_scheme" where
  "permit_sender userid sender db =
     db\<lparr>t_permitted_senders :=
          insert_or_nothing (\<lambda>ps. (ps_userid ps, ps_sender ps)) \<lparr>ps_userid = userid, ps_sender = sender\<rparr>
            (t_permitted_senders db)\<rparr>"

definition blank_line :: string where
  "blank_line = [CHR 0x0A, CHR 0x0A]"

definition mod_content :: "string \<Rightarrow> string \<Rightarrow> string \<Rightarrow> string" where
  "mod_content title content staff_note =
     (let text = ''## The following message was sent as a note to the user.'' @ blank_line
                 @ ''### '' @ title @ blank_line @ content
      in if staff_note \<noteq> [] then staff_note @ blank_line @ text else text)"

definition note_send ::
  "(ustr \<Rightarrow> ustr) \<Rightarrow> (ustr \<Rightarrow> ustr) \<Rightarrow> staff_sets \<Rightarrow> int \<Rightarrow> int \<Rightarrow> note_form \<Rightarrow> 'a content_db_scheme
     \<Rightarrow> unit result \<times> 'a content_db_scheme" where
  "note_send lower nfkd st now userid form db =
     (let title = strip (nf_title form);
          content = strip (nf_content form)
      in if content = [] then (Inl (WeasylError ''contentInvalid''), db)
         else if title = [] then (Inl (WeasylError ''titleInvalid''), db)
         else if length title > 100 then (Inl (WeasylError ''titleTooLong''), db)
         else
           and_then (note_recipient lower nfkd (nf_recipient form) db) (\<lambda>recipientid db.
             and_then (recipient_accepts st userid recipientid db) (\<lambda>_ db.
               let db = permit_sender userid recipientid
                          (page_header_invalidate recipientid (add_message now userid recipientid title content db))
               in (Inr (),
                   if nf_mod_copy form \<and> userid \<in> MODS st
                   then snd (add_comments_row now userid (Some recipientid) None 0
                               (mod_content title content (nf_staff_note form)) ''s'' db)
                   else db))))"

subsection \<open>Throwing notes away\<close>

definition trash_sent :: "int \<Rightarrow> int list \<Rightarrow> 'a social_db_scheme \<Rightarrow> 'a social_db_scheme" where
  "trash_sent userid noteids db =
     db\<lparr>t_message := update_where (\<lambda>ms. ms_noteid ms \<in> set noteids \<and> ms_userid ms = userid
                            \<and> \<not> has_flag (CHR ''s'') (ms_settings ms))
          (\<lambda>ms. ms\<lparr>ms_settings := ms_settings ms @ ''s''\<rparr>) (t_message db)\<rparr>"

definition trash_received :: "int \<Rightarrow> int list \<Rightarrow> 'a social_db_scheme \<Rightarrow> 'a social_db_scheme" where
  "trash_received userid noteids db =
     db\<lparr>t_message := update_where (\<lambda>ms. ms_noteid ms \<in> set noteids \<and> ms_otherid ms = userid
                            \<and> \<not> has_flag (CHR ''r'') (ms_settings ms))
          (\<lambda>ms. ms\<lparr>ms_settings := remove_flag (CHR ''u'') (ms_settings ms) @ ''r''\<rparr>) (t_message db)\<rparr>"

definition note_remove_list :: "int \<Rightarrow> int list \<Rightarrow> 'a social_db_scheme \<Rightarrow> 'a social_db_scheme" where
  "note_remove_list userid noteids db =
     (if noteids = [] then db else trash_received userid noteids (trash_sent userid noteids db))"


section \<open>Facts\<close>

subsection \<open>Looking up users and settings\<close>

definition lookups :: "'a accounts_db_scheme \<Rightarrow> 'a accounts_db_scheme \<Rightarrow> bool" where
  "lookups db db' \<longleftrightarrow> (\<exists>u c. db' = db\<lparr>c_userids := u, c_all_config := c\<rparr>) \<and> (config_cache_ok db \<longrightarrow> config_cache_ok db')"

lemma lookups_refl [intro, simp]: "lookups db db"
  by (simp add: lookups_def) (rule exI [of _ "c_userids db"], rule exI [of _ "c_all_config db"], simp)

lemma lookups_trans [trans]:
  assumes ab: "lookups a b" and bc: "lookups b c"
  shows "lookups a c"
proof -
  obtain u m where b: "b = a\<lparr>c_userids := u, c_all_config := m\<rparr>" using ab by (auto simp: lookups_def)
  obtain u' m' where "c = b\<lparr>c_userids := u', c_all_config := m'\<rparr>" using bc by (auto simp: lookups_def)
  with b have "c = a\<lparr>c_userids := u', c_all_config := m'\<rparr>" by simp
  with ab bc show ?thesis unfolding lookups_def by blast
qed

lemma query_all_config_userids [simp]: "query_all_config u (db\<lparr>c_userids := m\<rparr>) = query_all_config u db"
  by (simp add: query_all_config_def cong: option.case_cong)

lemma lookups_config: "config_read db db' \<Longrightarrow> lookups db db'"
proof -
  assume read: "config_read db db'"
  then obtain c where "db' = db\<lparr>c_all_config := c\<rparr>" by (auto simp: config_read_def)
  then have "db' = db\<lparr>c_userids := c_userids db, c_all_config := c\<rparr>" by simp
  with read show ?thesis unfolding lookups_def config_read_def by blast
qed

lemma lookups_store_userid: "lookups db (store_userid s v db)"
proof -
  have "store_userid s v db = db\<lparr>c_userids := (c_userids db)(s := v), c_all_config := c_all_config db\<rparr>"
    by (simp add: store_userid_def)
  moreover have "config_cache_ok db \<longrightarrow> config_cache_ok (store_userid s v db)"
    by (simp add: coherent_def peek_all_config_def store_userid_def)
  ultimately show ?thesis unfolding lookups_def by blast
qed

lemma lookups_read_userids: "lookups db (snd (read_userids sysnames db))"
proof (induction sysnames arbitrary: db)
  case (Cons s ss)
  have "lookups db (snd (read_through (\<lambda>u. u \<noteq> 0) (peek_userid s) (query_userid s) (store_userid s) db))"
    by (auto simp: read_through_def Let_def lookups_store_userid split: option.split)
  then show ?case
    using lookups_trans [OF _ Cons.IH] by (simp add: Let_def split: prod.split) (metis snd_conv)
qed simp

lemma lookups_and_then:
  "lookups db (snd r) \<Longrightarrow> (\<And>x s. r = (Inr x, s) \<Longrightarrow> lookups s (snd (f x s))) \<Longrightarrow> lookups db (snd (and_then r f))"
  by (cases r; cases "fst r") (auto simp: and_then_def intro: lookups_trans)

lemma lookups_get_userids: "lookups db (snd (get_userids f names db))"
  by (simp add: get_userids_def Let_def split: prod.split) (metis lookups_read_userids snd_conv)

lemma lookups_note_recipient: "lookups db (snd (note_recipient lower nfkd recipient db))"
proof -
  define names where "names = parse_sysname_list lower nfkd recipient"
  obtain ids d where g: "get_userids (\<lambda>u. map_option to_string (parse_sysname lower nfkd u)) names db = (ids, d)"
    by fastforce
  then have "lookups db d" using lookups_get_userids [of db] by (metis snd_conv)
  with g show ?thesis
    by (auto simp: note_recipient_def names_def [symmetric] Let_def split: list.split)
qed

lemma config_read_vouched: "config_read db (snd (get_is_vouched_for userid db))"
  by (simp add: get_is_vouched_for_def config_read_get_all_config and_then_snd)

lemma config_read_recipient_accepts: "config_read db (snd (recipient_accepts st userid recipientid db))"
proof -
  have "config_read db (snd (and_then (get_is_vouched_for recipientid db) f))"
    if "\<And>v s. config_read s (snd (f v s))" for f :: "bool \<Rightarrow> 'a social_db_scheme \<Rightarrow> unit result \<times> 'a social_db_scheme"
    using that by (intro config_read_and_then config_read_vouched)
  moreover have "config_read db (snd (and_then (get_config recipientid db) f))"
    if "\<And>v s. config_read s (snd (f v s))" for f :: "string \<Rightarrow> 'a social_db_scheme \<Rightarrow> unit result \<times> 'a social_db_scheme" and db
    using that by (intro config_read_and_then config_read_get_config)
  ultimately show ?thesis by (simp add: recipient_accepts_def)
qed


text \<open>What a call of \<open>send\<close> did, when it raised and when it sent the note.\<close>

definition sent_note ::
  "staff_sets \<Rightarrow> int \<Rightarrow> int \<Rightarrow> int \<Rightarrow> note_form \<Rightarrow> 'a content_db_scheme \<Rightarrow> 'a content_db_scheme" where
  "sent_note st now userid recipientid form db =
     (let db = permit_sender userid recipientid (page_header_invalidate recipientid
                 (add_message now userid recipientid (strip (nf_title form)) (strip (nf_content form)) db))
      in if nf_mod_copy form \<and> userid \<in> MODS st
         then snd (add_comments_row now userid (Some recipientid) None 0
                     (mod_content (strip (nf_title form)) (strip (nf_content form)) (nf_staff_note form)) ''s'' db)
         else db)"

lemma note_send_cases:
  obtains (raised) e db' where "note_send lower nfkd st now userid form db = (Inl e, db')" "lookups db db'"
  | (sent) recipientid d1 d2 where
      "strip (nf_content form) \<noteq> []" "strip (nf_title form) \<noteq> []" "length (strip (nf_title form)) \<le> 100"
      "note_recipient lower nfkd (nf_recipient form) db = (Inr recipientid, d1)" "lookups db d1"
      "recipient_accepts st userid recipientid d1 = (Inr (), d2)" "config_read d1 d2" "lookups db d2"
      "note_send lower nfkd st now userid form db = (Inr (), sent_note st now userid recipientid form d2)"
proof (cases "strip (nf_content form) = [] \<or> strip (nf_title form) = [] \<or> length (strip (nf_title form)) > 100")
  case True
  then obtain e where "note_send lower nfkd st now userid form db = (Inl e, db)"
    by (cases "strip (nf_content form) = []"; cases "strip (nf_title form) = []") (auto simp: note_send_def Let_def)
  then show thesis using raised by blast
next
  case form: False
  obtain r d1 where r: "note_recipient lower nfkd (nf_recipient form) db = (r, d1)" by fastforce
  have look1: "lookups db d1" using lookups_note_recipient [of db] r by (metis snd_conv)
  show thesis
  proof (cases r)
    case (Inl e)
    with form r have "note_send lower nfkd st now userid form db = (Inl e, d1)" by (simp add: note_send_def Let_def)
    with look1 show thesis using raised by blast
  next
    case (Inr recipientid)
    obtain a d2 where a: "recipient_accepts st userid recipientid d1 = (a, d2)" by fastforce
    have read2: "config_read d1 d2" using config_read_recipient_accepts [of d1] a by (metis snd_conv)
    then have look2: "lookups db d2" using look1 lookups_config lookups_trans by blast
    show thesis
    proof (cases a)
      case (Inl e)
      with form r Inr a have "note_send lower nfkd st now userid form db = (Inl e, d2)" by (simp add: note_send_def Let_def)
      with look2 show thesis using raised by blast
    next
      case accepted: (Inr x)
      from form r Inr a accepted have "note_send lower nfkd st now userid form db
          = (Inr (), sent_note st now userid recipientid form d2)"
        by (simp add: note_send_def sent_note_def Let_def)
      with form r Inr a accepted look1 look2 read2 show thesis by (intro sent) auto
    qed
  qed
qed

lemma sent_note_tables:
  "t_message (sent_note st now userid recipientid form db) = t_message db @
     [\<lparr>ms_noteid = message_seq db, ms_userid = userid, ms_otherid = recipientid, ms_user_folder = 0, ms_other_folder = 0,
       ms_title = strip (nf_title form), ms_content = strip (nf_content form), ms_unixtime = now, ms_settings = ''u''\<rparr>]"
  "message_seq (sent_note st now userid recipientid form db) = message_seq db + 1"
  "t_profile (sent_note st now userid recipientid form db) = t_profile db"
  "t_permitted_senders (sent_note st now userid recipientid form db) =
     insert_or_nothing (\<lambda>ps. (ps_userid ps, ps_sender ps)) \<lparr>ps_userid = userid, ps_sender = recipientid\<rparr> (t_permitted_senders db)"
  by (simp_all add: sent_note_def permit_sender_def page_header_invalidate_def add_message_def add_comments_row_def Let_def)

subsection \<open>Mailboxes under statements\<close>

abbreviation all_inbox :: "int \<Rightarrow> 'a social_db_scheme \<Rightarrow> note_item list" where
  "all_inbox userid db \<equiv> select_inbox_query userid None None [] db"

abbreviation all_outbox :: "int \<Rightarrow> 'a social_db_scheme \<Rightarrow> note_item list" where
  "all_outbox userid db \<equiv> select_outbox_query userid None None [] db"

lemma map_filter_of_filter: "List.map_filter g (filter Q rows) = List.map_filter (\<lambda>r. if Q r then g r else None) rows"
  by (induction rows) (auto simp: List.map_filter_def)

lemma map_filter_update:
  "(\<And>r. r \<in> set rows \<Longrightarrow> P r \<Longrightarrow> h (f r) = h r) \<Longrightarrow> List.map_filter h (update_where P f rows) = List.map_filter h rows"
  by (induction rows) (auto simp: update_where_def List.map_filter_def)

lemma map_filter_append: "List.map_filter h (xs @ ys) = List.map_filter h xs @ List.map_filter h ys"
  by (simp add: List.map_filter_def)

lemma items_frame:
  "t_profile db' = t_profile db \<Longrightarrow> inbox_item db' = inbox_item db \<and> outbox_item db' = outbox_item db"
  by (simp add: fun_eq_iff inbox_item_def outbox_item_def has_author_def profile_of_def)

lemma all_inbox_update:
  assumes same: "\<And>ms. ms \<in> set (t_message db) \<Longrightarrow> P ms \<Longrightarrow> ms_otherid ms \<noteq> u" "\<And>ms. ms_otherid (f ms) = ms_otherid ms"
    and db': "t_profile db' = t_profile db" "t_message db' = update_where P f (t_message db)"
  shows "all_inbox u db' = all_inbox u db"
proof -
  define h where "h = (\<lambda>ms. if ms_otherid ms = u \<and> \<not> has_flag (CHR ''r'') (ms_settings ms) then inbox_item db ms else None)"
  have boxes: "all_inbox u db' = List.map_filter h (t_message db')" "all_inbox u db = List.map_filter h (t_message db)"
    by (simp_all add: select_inbox_query_def map_filter_of_filter note_in_bounds_def h_def items_frame [OF db'(1)])
  have "List.map_filter h (update_where P f (t_message db)) = List.map_filter h (t_message db)"
    using same by (intro map_filter_update) (auto simp: h_def)
  with boxes db'(2) show ?thesis by simp
qed

lemma all_outbox_update:
  assumes same: "\<And>ms. ms \<in> set (t_message db) \<Longrightarrow> P ms \<Longrightarrow> ms_userid ms = u \<Longrightarrow>
      has_flag (CHR ''s'') (ms_settings (f ms)) = has_flag (CHR ''s'') (ms_settings ms)"
    and f: "\<And>ms. f ms = ms\<lparr>ms_settings := g (ms_settings ms)\<rparr>"
    and db': "t_profile db' = t_profile db" "t_message db' = update_where P f (t_message db)"
  shows "all_outbox u db' = all_outbox u db"
proof -
  define h where "h = (\<lambda>ms. if ms_userid ms = u \<and> \<not> has_flag (CHR ''s'') (ms_settings ms) then outbox_item db ms else None)"
  have boxes: "all_outbox u db' = List.map_filter h (t_message db')" "all_outbox u db = List.map_filter h (t_message db)"
    by (simp_all add: select_outbox_query_def map_filter_of_filter note_in_bounds_def h_def items_frame [OF db'(1)])
  have "ms_userid (f ms) = ms_userid ms" "outbox_item db (f ms) = outbox_item db ms" for ms
    by (simp_all add: f outbox_item_def)
  then have "List.map_filter h (update_where P f (t_message db)) = List.map_filter h (t_message db)"
    using same by (intro map_filter_update) (auto simp: h_def)
  with boxes db'(2) show ?thesis by simp
qed

definition notes_ok :: "'a social_db_scheme \<Rightarrow> bool" where
  "notes_ok db \<longleftrightarrow>
     distinct (map ms_noteid (t_message db)) \<and> (\<forall>ms \<in> set (t_message db). ms_noteid ms < message_seq db)
     \<and> (\<forall>ms \<in> set (t_message db). has_flag (CHR ''r'') (ms_settings ms) \<longrightarrow> \<not> has_flag (CHR ''u'') (ms_settings ms))"

inductive note_step :: "(ustr \<Rightarrow> ustr) \<Rightarrow> (ustr \<Rightarrow> ustr) \<Rightarrow> staff_sets \<Rightarrow> int \<Rightarrow> 'a content_db_scheme \<Rightarrow> 'a content_db_scheme \<Rightarrow> bool"
  for lower nfkd st userid db where
  send: "note_step lower nfkd st userid db (snd (note_send lower nfkd st now userid form db))"
| read: "note_step lower nfkd st userid db (snd (select_view userid noteid db))"
| remove: "note_step lower nfkd st userid db (note_remove_list userid noteids db)"


lemma mark_read_tables:
  "t_message (mark_read noteid db) = update_where (\<lambda>ms. ms_noteid ms = noteid)
     (\<lambda>ms. ms\<lparr>ms_settings := remove_flag (CHR ''u'') (ms_settings ms)\<rparr>) (t_message db)"
  "message_seq (mark_read noteid db) = message_seq db" "t_profile (mark_read noteid db) = t_profile db"
  by (simp_all add: mark_read_def)

lemma select_view_state:
  "snd (select_view userid noteid db) = db
   \<or> (\<exists>ms \<in> set (t_message db). ms_noteid ms = noteid \<and> ms_otherid ms = userid \<and> has_flag (CHR ''u'') (ms_settings ms)
        \<and> snd (select_view userid noteid db) = page_header_invalidate userid (mark_read noteid db))"
proof (cases "find_note noteid db")
  case (Some x)
  obtain ms sn rn where x: "x = (ms, sn, rn)" by (cases x) auto
  then have "find (\<lambda>ms. ms_noteid ms = noteid) (t_message db) = Some ms"
    using Some by (auto simp: find_note_def bind_eq_Some_conv)
  then have "ms \<in> set (t_message db)" "ms_noteid ms = noteid" using find_SomeD by fastforce+
  with Some x show ?thesis by (auto simp: select_view_def)
qed (simp add: select_view_def)

text \<open>A step keeps every row with its key and contents, in order; \<open>send\<close> adds one at the end.\<close>

lemma notes_ok_update:
  assumes "notes_ok db" "\<And>ms. f ms = ms\<lparr>ms_settings := g (ms_settings ms)\<rparr>"
    and "\<And>s. has_flag (CHR ''r'') (g s) \<Longrightarrow> has_flag (CHR ''u'') (g s) \<Longrightarrow> has_flag (CHR ''r'') s \<and> has_flag (CHR ''u'') s"
    and "message_seq db' = message_seq db" "t_message db' = update_where P f (t_message db)"
  shows "notes_ok db'"
proof -
  have "map ms_noteid (update_where P f (t_message db)) = map ms_noteid (t_message db)"
    using assms(2) by (intro map_key_update_where) simp
  with assms show ?thesis by (fastforce simp: notes_ok_def table_simps)
qed

lemma note_step_ok:
  assumes "note_step lower nfkd st userid db db'" "notes_ok db"
  shows "notes_ok db'"
  using assms
proof cases
  case (send now form)
  show ?thesis
  proof (cases rule: note_send_cases [of lower nfkd st now userid form db])
    case (raised e d)
    then show ?thesis using send assms(2) by (auto simp: lookups_def notes_ok_def)
  next
    case (sent recipientid d1 d2)
    then have d2: "t_message d2 = t_message db" "message_seq d2 = message_seq db" by (auto simp: lookups_def)
    have "notes_ok (sent_note st now userid recipientid form d2)"
      using assms(2) by (fastforce simp: notes_ok_def sent_note_tables d2)
    then show ?thesis using send sent by simp
  qed
next
  case (read noteid)
  have "notes_ok (mark_read noteid db)"
    by (rule notes_ok_update [OF assms(2) _ _ mark_read_tables(2,1), where g = "remove_flag (CHR ''u'')"]) auto
  then have "notes_ok (page_header_invalidate userid (mark_read noteid db))"
    by (simp add: notes_ok_def page_header_invalidate_def)
  then show ?thesis using read select_view_state [of userid noteid db] assms(2) by auto
next
  case (remove noteids)
  have "notes_ok (trash_sent userid noteids db)"
    by (rule notes_ok_update [OF assms(2), where g = "\<lambda>s. s @ ''s''"]) (auto simp: trash_sent_def)
  then have "notes_ok (trash_received userid noteids (trash_sent userid noteids db))"
    by (rule notes_ok_update [where g = "\<lambda>s. remove_flag (CHR ''u'') s @ ''r''"]) (auto simp: trash_received_def)
  then show ?thesis using remove assms(2) by (simp add: note_remove_list_def)
qed


lemma note_step_mailboxes:
  assumes "note_step lower nfkd st userid db db'" "notes_ok db" "userid \<noteq> u"
  shows "all_outbox u db' = all_outbox u db
    \<and> (\<exists>new. all_inbox u db' = all_inbox u db @ new \<and> (\<forall>i \<in> set new. message_seq db \<le> ni_noteid i \<and> ni_otherid i \<noteq> u))
    \<and> message_seq db \<le> message_seq db'"
  using assms(1)
proof cases
  case (send now form)
  show ?thesis
  proof (cases rule: note_send_cases [of lower nfkd st now userid form db])
    case (raised e d)
    then have "t_message d = t_message db" "t_profile d = t_profile db" "message_seq d = message_seq db"
      by (auto simp: lookups_def)
    then show ?thesis
      using send raised items_frame [of d db] by (simp add: select_inbox_query_def select_outbox_query_def)
  next
    case (sent recipientid d1 d2)
    define d where "d = sent_note st now userid recipientid form d2"
    have d2: "t_message d2 = t_message db" "message_seq d2 = message_seq db" "t_profile d2 = t_profile db"
      using sent by (auto simp: lookups_def)
    define h where "h = (\<lambda>ms. if ms_otherid ms = u \<and> \<not> has_flag (CHR ''r'') (ms_settings ms) then inbox_item db ms else None)"
    define row where "row = \<lparr>ms_noteid = message_seq db, ms_userid = userid, ms_otherid = recipientid, ms_user_folder = 0,
      ms_other_folder = 0, ms_title = strip (nf_title form), ms_content = strip (nf_content form), ms_unixtime = now, ms_settings = ''u''\<rparr>"
    have d: "t_message d = t_message db @ [row]" "t_profile d = t_profile db" "message_seq d = message_seq db + 1"
      by (simp_all add: d_def row_def sent_note_tables d2)
    have "all_outbox u d = all_outbox u db"
      using d assms(3) by (simp add: select_outbox_query_def items_frame [OF d(2)] row_def)
    moreover have "all_inbox u d = all_inbox u db @ List.map_filter h [row]"
      unfolding select_inbox_query_def d(1)
      by (simp add: map_filter_of_filter map_filter_append items_frame [OF d(2)] note_in_bounds_def h_def map_filter_simps
          split: option.split)
    moreover have "message_seq db \<le> ni_noteid i \<and> ni_otherid i \<noteq> u" if "i \<in> set (List.map_filter h [row])" for i
    proof -
      have "h row = Some i" using that unfolding in_map_filter by auto
      then show ?thesis using assms(3) by (auto simp: h_def row_def inbox_item_def has_author_def split: if_splits)
    qed
    ultimately show ?thesis using send sent d(3) by (auto simp: d_def [symmetric])
  qed
next
  case (read noteid)
  have "all_outbox u d = all_outbox u db \<and> all_inbox u d = all_inbox u db \<and> message_seq d = message_seq db"
    if row: "ms \<in> set (t_message db)" "ms_noteid ms = noteid" "ms_otherid ms = userid"
      and d: "d = page_header_invalidate userid (mark_read noteid db)" for ms d
  proof -
    have tables: "t_profile d = t_profile db" "message_seq d = message_seq db" "t_message d = update_where (\<lambda>ms. ms_noteid ms = noteid)
        (\<lambda>ms. ms\<lparr>ms_settings := remove_flag (CHR ''u'') (ms_settings ms)\<rparr>) (t_message db)"
      by (simp_all add: d page_header_invalidate_def mark_read_tables)
    have "distinct (map ms_noteid (t_message db))" using assms(2) by (simp add: notes_ok_def)
    then have only: "x = ms" if "x \<in> set (t_message db)" "ms_noteid x = noteid" for x
      using distinct_map_inj row that by metis
    have "ms_otherid x \<noteq> u" if "x \<in> set (t_message db)" "ms_noteid x = noteid" for x
      using only [OF that] row(3) assms(3) by simp
    then have "all_inbox u d = all_inbox u db" by (rule all_inbox_update [OF _ _ tables(1,3)]) simp_all
    moreover have "all_outbox u d = all_outbox u db"
      by (rule all_outbox_update [OF _ _ tables(1,3), where g = "remove_flag (CHR ''u'')"]) auto
    ultimately show ?thesis using tables(2) by simp
  qed
  note kept = this
  show ?thesis
  proof (cases "snd (select_view userid noteid db) = db")
    case True
    then show ?thesis using read by simp
  next
    case False
    then obtain ms where ms: "ms \<in> set (t_message db)" "ms_noteid ms = noteid" "ms_otherid ms = userid"
      "db' = page_header_invalidate userid (mark_read noteid db)"
      using select_view_state [of userid noteid db] read by blast
    from kept [OF ms] show ?thesis by auto
  qed
next
  case (remove noteids)
  define mid where "mid = trash_sent userid noteids db"
  define d where "d = trash_received userid noteids mid"
  have "all_inbox u mid = all_inbox u db"
  proof -
    define h where "h = (\<lambda>ms. if ms_otherid ms = u \<and> \<not> has_flag (CHR ''r'') (ms_settings ms) then inbox_item db ms else None)"
    have profiles: "t_profile mid = t_profile db" by (simp add: mid_def trash_sent_def)
    have "List.map_filter h (t_message mid) = List.map_filter h (t_message db)"
      unfolding mid_def trash_sent_def by (simp, rule map_filter_update) (simp add: h_def inbox_item_def)
    then show ?thesis
      by (simp add: select_inbox_query_def map_filter_of_filter note_in_bounds_def h_def items_frame [OF profiles])
  qed
  moreover have "all_outbox u mid = all_outbox u db"
    by (rule all_outbox_update [where g = "\<lambda>s. s @ ''s''"]) (use assms(3) in \<open>auto simp: mid_def trash_sent_def\<close>)
  moreover have "all_inbox u d = all_inbox u mid"
    by (rule all_inbox_update) (use assms(3) in \<open>auto simp: d_def trash_received_def\<close>)
  moreover have "all_outbox u d = all_outbox u mid"
    by (rule all_outbox_update [where g = "\<lambda>s. remove_flag (CHR ''u'') s @ ''r''"]) (auto simp: d_def trash_received_def)
  moreover have "message_seq d = message_seq db" by (simp add: d_def mid_def trash_received_def trash_sent_def)
  moreover have "db' = db \<or> db' = d" using remove by (auto simp: note_remove_list_def d_def mid_def)
  ultimately show ?thesis by auto
qed


lemma notes_kept_along:
  assumes "(\<lambda>a b. \<exists>userid. userid \<noteq> u \<and> note_step lower nfkd st userid a b)\<^sup>*\<^sup>* db db'" "notes_ok db"
  shows "notes_ok db' \<and> message_seq db \<le> message_seq db' \<and> all_outbox u db' = all_outbox u db
    \<and> (\<exists>new. all_inbox u db' = all_inbox u db @ new \<and> (\<forall>i \<in> set new. message_seq db \<le> ni_noteid i \<and> ni_otherid i \<noteq> u))"
  using assms
proof (induction rule: rtranclp_induct)
  case (step a b)
  then obtain userid new where s: "note_step lower nfkd st userid a b" "userid \<noteq> u"
    and a: "notes_ok a" "message_seq db \<le> message_seq a" "all_outbox u a = all_outbox u db"
      "all_inbox u a = all_inbox u db @ new" "\<forall>i \<in> set new. message_seq db \<le> ni_noteid i \<and> ni_otherid i \<noteq> u"
    by auto
  obtain more where b: "all_outbox u b = all_outbox u a" "all_inbox u b = all_inbox u a @ more"
      "\<forall>i \<in> set more. message_seq a \<le> ni_noteid i \<and> ni_otherid i \<noteq> u" "message_seq a \<le> message_seq b"
    using note_step_mailboxes [OF s(1) a(1) s(2)] by auto
  have "all_inbox u b = all_inbox u db @ new @ more" using a b by simp
  moreover have "\<forall>i \<in> set (new @ more). message_seq db \<le> ni_noteid i \<and> ni_otherid i \<noteq> u" using a b by fastforce
  ultimately show ?case using note_step_ok [OF s(1) a(1)] a b by (metis order_trans)
qed simp

text \<open>
  C21: Nobody else touches a user's notes. Whatever notes other users send, read and throw away, in any
  order, everything in the inbox and the outbox of a user stays as it is, unread marks included; only
  notes with new numbers by those other users come in after it. Numbers stay unique, and a note that its recipient has
  thrown away is never unread.
\<close>

theorem notes_kept:
  assumes "(\<lambda>a b. \<exists>userid. userid \<noteq> u \<and> note_step lower nfkd st userid a b)\<^sup>*\<^sup>* db db'" "notes_ok db"
  shows "notes_ok db' \<and> select_outbox_query u None None [] db' = select_outbox_query u None None [] db
    \<and> (\<exists>new. select_inbox_query u None None [] db' = select_inbox_query u None None [] db @ new
         \<and> (\<forall>i \<in> set new. message_seq db \<le> ni_noteid i \<and> ni_otherid i \<noteq> u))"
  using notes_kept_along [OF assms] by blast

definition sample_login :: "int \<Rightarrow> string \<Rightarrow> login_row" where
  "sample_login userid name =
     \<lparr>lo_userid = userid, lo_login_name = name, lo_last_login = 0, lo_email = [], lo_twofa_secret = None,
      lo_ip_address_at_signup = None, lo_voucher = Some userid, lo_last_read_updateid = None\<rparr>"

definition no_staff :: staff_sets where
  "no_staff = \<lparr>DIRECTORS = {}, ADMINS = {}, MODS = {}, DEVELOPERS = {}, WESLEY = None\<rparr>"

definition sample_note :: "int \<Rightarrow> int \<Rightarrow> int \<Rightarrow> message_row" where
  "sample_note noteid userid otherid =
     \<lparr>ms_noteid = noteid, ms_userid = userid, ms_otherid = otherid, ms_user_folder = 0, ms_other_folder = 0,
      ms_title = ''hi'', ms_content = ''text'', ms_unixtime = 0, ms_settings = ''u''\<rparr>"

definition notes_db :: "unit tags_db_scheme" where
  "notes_db = blank_db\<lparr>t_login := [sample_login 6 ''cat'', sample_login 7 ''fox''],
     t_profile := [sample_profile 6 ''cat'' ''z'', sample_profile 7 ''fox'' ''y''],
     t_message := [sample_note 1 6 7, sample_note 2 7 6], message_seq := 3\<rparr>"

definition sample_form :: "string \<Rightarrow> note_form" where
  "sample_form name = \<lparr>nf_title = '' re'', nf_content = ''text '', nf_recipient = ustr name, nf_mod_copy = False, nf_staff_note = []\<rparr>"

theorem notes_kept_witness:
  "select_inbox_query 7 None None [] (note_remove_list 6 [1, 2] notes_db) = select_inbox_query 7 None None [] notes_db
   \<and> select_inbox_query 6 None None [] (note_remove_list 6 [1, 2] notes_db) = []"
proof -
  have step: "note_step ascii_lower id no_staff 6 notes_db (note_remove_list 6 [1, 2] notes_db)" by (rule note_step.remove)
  then have trace: "(\<lambda>a b. \<exists>userid. userid \<noteq> 7 \<and> note_step ascii_lower id no_staff userid a b)\<^sup>*\<^sup>* notes_db
      (note_remove_list 6 [1, 2] notes_db)"
    by (intro r_into_rtranclp) (rule exI [of _ 6], simp)
  have ok: "notes_ok notes_db" by (simp add: notes_ok_def notes_db_def sample_note_def)
  from notes_kept [OF trace ok] obtain new where
    new: "select_inbox_query 7 None None [] (note_remove_list 6 [1, 2] notes_db) = select_inbox_query 7 None None [] notes_db @ new"
    by blast
  have "length (select_inbox_query 7 None None [] (note_remove_list 6 [1, 2] notes_db)) = length (select_inbox_query 7 None None [] notes_db)"
    by code_simp
  with new have "new = []" by simp
  with new show ?thesis by (simp, code_simp)
qed


subsection \<open>Who may write to whom\<close>

text \<open>The rules of \<open>send\<close> for the recipient, without the caches.\<close>

definition may_note :: "staff_sets \<Rightarrow> int \<Rightarrow> int \<Rightarrow> 'a social_db_scheme \<Rightarrow> bool" where
  "may_note st userid recipientid db \<longleftrightarrow>
     recipientid \<noteq> userid \<and> \<not> ignoreuser_check recipientid userid db \<and> \<not> ignoreuser_check userid recipientid db
     \<and> (case query_all_config recipientid db of
          None \<Rightarrow> False
        | Some c \<Rightarrow>
            is_vouched_for c
            \<and> (userid \<in> MODS st \<or> is_permitted_sender recipientid userid db
               \<or> \<not> has_flag (CHR ''y'') (profile_configuration c)
                  \<and> (has_flag (CHR ''z'') (profile_configuration c) \<longrightarrow> frienduser_check userid recipientid db)))"

lemma recipient_accepts_iff:
  assumes cache: "config_cache_ok db" and zero: "query_all_config 0 db = None"
  shows "fst (recipient_accepts st userid recipientid db) = Inr () \<longleftrightarrow> may_note st userid recipientid db"
proof (cases "query_all_config recipientid db")
  case None
  have "fst (get_is_vouched_for recipientid db) = Inl TypeError"
    using get_all_config_value [OF cache, of recipientid] None by (simp add: get_is_vouched_for_def and_then_fst)
  then obtain d where "get_is_vouched_for recipientid db = (Inl TypeError, d)" by (metis prod.collapse)
  with None show ?thesis by (simp add: recipient_accepts_def may_note_def)
next
  case (Some c)
  with zero have nonzero: "recipientid \<noteq> 0" by auto
  have "fst (get_is_vouched_for recipientid db) = Inr (is_vouched_for c)"
    using get_all_config_value [OF cache, of recipientid] Some by (simp add: get_is_vouched_for_def and_then_fst)
  then obtain d where vouched: "get_is_vouched_for recipientid db = (Inr (is_vouched_for c), d)" by (metis prod.collapse)
  have read: "config_read db d" using config_read_vouched [of db recipientid] vouched by simp
  then obtain m where d: "d = db\<lparr>c_all_config := m\<rparr>" and cache': "config_cache_ok d" using cache by (auto simp: config_read_def)
  have "query_all_config recipientid d = Some c" using Some d by simp
  then have config: "fst (get_config recipientid d) = Inr (profile_configuration c)"
    using get_all_config_value [OF cache', of recipientid] nonzero by (simp add: get_config_def and_then_fst)
  have "config_read d (snd (get_config recipientid d))" by (rule config_read_get_config)
  then obtain m' where d': "snd (get_config recipientid d) = d\<lparr>c_all_config := m'\<rparr>" by (auto simp: config_read_def)
  have config: "get_config recipientid d = (Inr (profile_configuration c), d\<lparr>c_all_config := m'\<rparr>)"
    using config d' by (metis prod.collapse)
  have same: "ignoreuser_check userid recipientid d = ignoreuser_check userid recipientid db"
    "is_permitted_sender recipientid userid (d\<lparr>c_all_config := m'\<rparr>) = is_permitted_sender recipientid userid db"
    "frienduser_check userid recipientid (d\<lparr>c_all_config := m'\<rparr>) = frienduser_check userid recipientid db"
    by (simp_all add: d ignoreuser_check_def is_permitted_sender_def frienduser_check_def)
  show ?thesis by (auto simp: recipient_accepts_def may_note_def vouched config same Some)
qed

lemma lookups_frame:
  assumes "lookups db d"
  shows "query_all_config u d = query_all_config u db" "ignoreuser_check u v d = ignoreuser_check u v db"
    "frienduser_check u v d = frienduser_check u v db" "is_permitted_sender u v d = is_permitted_sender u v db"
    "may_note st u v d = may_note st u v db"
proof -
  obtain a b where d: "d = db\<lparr>c_userids := a, c_all_config := b\<rparr>" using assms by (auto simp: lookups_def)
  show one: "query_all_config u d = query_all_config u db" for u by (simp add: d)
  show two: "ignoreuser_check u v d = ignoreuser_check u v db" for u v by (simp add: d ignoreuser_check_def)
  show three: "frienduser_check u v d = frienduser_check u v db" for u v by (simp add: d frienduser_check_def)
  show four: "is_permitted_sender u v d = is_permitted_sender u v db" for u v by (simp add: d is_permitted_sender_def)
  show "may_note st u v d = may_note st u v db" by (simp add: may_note_def one two three four cong: option.case_cong)
qed

definition note_form_ok :: "note_form \<Rightarrow> bool" where
  "note_form_ok form \<longleftrightarrow> strip (nf_content form) \<noteq> [] \<and> strip (nf_title form) \<noteq> [] \<and> length (strip (nf_title form)) \<le> 100"

lemma note_send_iff:
  assumes cache: "config_cache_ok db" and zero: "query_all_config 0 db = None"
  shows "fst (note_send lower nfkd st now userid form db) = Inr ()
    \<longleftrightarrow> note_form_ok form \<and> (\<exists>b. fst (note_recipient lower nfkd (nf_recipient form) db) = Inr b \<and> may_note st userid b db)"
proof (cases "note_form_ok form")
  case True
  obtain r d where r: "note_recipient lower nfkd (nf_recipient form) db = (r, d)" by fastforce
  have look: "lookups db d" using lookups_note_recipient [of db] r by (metis snd_conv)
  have cache': "config_cache_ok d" and zero': "query_all_config 0 d = None"
    using look cache zero lookups_frame(1) [OF look] by (auto simp: lookups_def)
  have "fst (and_then (recipient_accepts st userid b d) (\<lambda>_ s. (Inr (), F s))) = Inr ()
      \<longleftrightarrow> fst (recipient_accepts st userid b d) = Inr ()" for b and F :: "'a content_db_scheme \<Rightarrow> 'a content_db_scheme"
    by (cases "recipient_accepts st userid b d"; cases "fst (recipient_accepts st userid b d)") auto
  then show ?thesis
    using True r recipient_accepts_iff [OF cache' zero'] lookups_frame(5) [OF look]
    by (cases r) (auto simp: note_send_def note_form_ok_def Let_def)
qed (auto simp: note_send_def note_form_ok_def Let_def)


text \<open>
  C22: Sending a note. The form is accepted exactly when title and content are not blank, the title has at
  most 100 characters, the form names one recipient, and that user is vouched for, is not the sender,
  ignores and is ignored by nobody of the two, and takes notes from the sender: from staff always, from
  users written to before always, otherwise according to the settings \<open>y\<close> (staff only) and \<open>z\<close>
  (friends only). Then one unread note is added and the recipient may answer from now on; otherwise no
  note, permission or comment is added.
\<close>

theorem note_send_effect:
  assumes "config_cache_ok db" "query_all_config 0 db = None" "note_send lower nfkd st now userid form db = (r, db')"
  shows "(r = Inr () \<longleftrightarrow> note_form_ok form
           \<and> (\<exists>b. fst (note_recipient lower nfkd (nf_recipient form) db) = Inr b \<and> may_note st userid b db))
    \<and> (r = Inr () \<longrightarrow> (\<exists>b. fst (note_recipient lower nfkd (nf_recipient form) db) = Inr b
         \<and> t_message db' = t_message db
              @ [\<lparr>ms_noteid = message_seq db, ms_userid = userid, ms_otherid = b, ms_user_folder = 0, ms_other_folder = 0,
                  ms_title = strip (nf_title form), ms_content = strip (nf_content form), ms_unixtime = now, ms_settings = ''u''\<rparr>]
         \<and> is_permitted_sender userid b db'
         \<and> (\<forall>u v. is_permitted_sender u v db' \<longrightarrow> (u, v) = (userid, b) \<or> is_permitted_sender u v db)
         \<and> c_page_header db' b = None))
    \<and> (r \<noteq> Inr () \<longrightarrow> t_message db' = t_message db \<and> t_permitted_senders db' = t_permitted_senders db \<and> t_comments db' = t_comments db)"
proof -
  have iff: "r = Inr () \<longleftrightarrow> note_form_ok form
      \<and> (\<exists>b. fst (note_recipient lower nfkd (nf_recipient form) db) = Inr b \<and> may_note st userid b db)"
    using note_send_iff [OF assms(1,2), of lower nfkd st now userid form] assms(3) by simp
  show ?thesis
  proof (cases rule: note_send_cases [of lower nfkd st now userid form db])
    case (raised e d)
    then have "r = Inl e" "db' = d" using assms(3) by simp_all
    moreover have "t_message d = t_message db" "t_permitted_senders d = t_permitted_senders db" "t_comments d = t_comments db"
      using raised(2) by (auto simp: lookups_def)
    ultimately show ?thesis using iff by simp
  next
    case (sent b d1 d2)
    then have r: "r = Inr ()" "db' = sent_note st now userid b form d2" using assms(3) by simp_all
    have d2: "t_message d2 = t_message db" "message_seq d2 = message_seq db" "t_permitted_senders d2 = t_permitted_senders db"
      using sent(8) by (auto simp: lookups_def)
    have "c_page_header db' b = None"
      by (simp add: r(2) sent_note_def permit_sender_def page_header_invalidate_def add_comments_row_def Let_def)
    moreover have "is_permitted_sender u v db' \<longleftrightarrow> (u, v) = (userid, b) \<or> is_permitted_sender u v db" for u v
      by (auto simp: is_permitted_sender_def r(2) sent_note_tables d2 exists_where_iff set_insert_or_nothing)
    ultimately show ?thesis
      using iff r sent(4) by (auto simp: sent_note_tables d2)
  qed
qed

text \<open>
  Whom a user wrote to may answer. After a note of \<open>a\<close> to \<open>b\<close> was sent, a well-formed answer of \<open>b\<close>
  to \<open>a\<close> is accepted as long as \<open>a\<close> is vouched for, whatever \<open>a\<close> set about notes from strangers.
\<close>

theorem note_reply_accepted:
  assumes "config_cache_ok db" "query_all_config 0 db = None"
    and "note_send lower nfkd st now a form db = (Inr (), db')"
    and "fst (note_recipient lower nfkd (nf_recipient form) db) = Inr b"
    and "note_form_ok reply" "fst (note_recipient lower nfkd (nf_recipient reply) db') = Inr a"
    and "query_all_config a db = Some c" "is_vouched_for c"
  shows "fst (note_send lower nfkd st now' b reply db') = Inr ()"
proof (cases rule: note_send_cases [of lower nfkd st now a form db])
  case (raised e d)
  then show ?thesis using assms(3) by simp
next
  case (sent b' d1 d2)
  then have b': "b' = b" and db': "db' = sent_note st now a b form d2" using assms(3,4) by simp_all
  have config: "query_all_config u db' = query_all_config u db" for u
  proof -
    have "query_all_config u db' = query_all_config u d2"
      by (simp add: db' sent_note_def permit_sender_def page_header_invalidate_def add_message_def add_comments_row_def
          query_all_config_def Let_def cong: option.case_cong)
    then show ?thesis using lookups_frame(1) [OF sent(8)] by simp
  qed
  have "c_all_config db' = c_all_config d2"
    by (simp add: db' sent_note_def permit_sender_def page_header_invalidate_def add_message_def add_comments_row_def Let_def)
  moreover have "query_all_config u d2 = query_all_config u db" for u using lookups_frame(1) [OF sent(8)] by simp
  moreover have "config_cache_ok d2" using sent(8) assms(1) by (simp add: lookups_def)
  ultimately have cache: "config_cache_ok db'" by (simp add: coherent_def peek_all_config_def config)
  have "ignoreuser_check u v db' = ignoreuser_check u v d2" for u v
    by (simp add: db' sent_note_def permit_sender_def page_header_invalidate_def add_message_def add_comments_row_def
        ignoreuser_check_def Let_def)
  then have ignore: "ignoreuser_check u v db' = ignoreuser_check u v db" for u v
    using lookups_frame(2) [OF sent(8)] by simp
  have "may_note st a b db"
    using note_send_iff [OF assms(1,2), of lower nfkd st now a form] assms(3,4) by simp
  then have "a \<noteq> b" "\<not> ignoreuser_check a b db" "\<not> ignoreuser_check b a db" by (auto simp: may_note_def)
  moreover have "is_permitted_sender a b db'"
    by (auto simp: is_permitted_sender_def db' sent_note_tables exists_where_iff set_insert_or_nothing)
  ultimately have "may_note st b a db'"
    using assms(7,8) by (simp add: may_note_def config ignore)
  then show ?thesis
    using note_send_iff [OF cache, of lower nfkd st now' b reply] assms(2,5,6) by (auto simp: config)
qed


subsection \<open>The pages of a mailbox\<close>

lemma filter_map_filter:
  "(\<And>r y. h r = Some y \<Longrightarrow> P y = Q r) \<Longrightarrow> filter P (List.map_filter h rows) = List.map_filter h (filter Q rows)"
proof (induction rows)
  case (Cons r rows)
  then show ?case by (cases "h r") (simp_all add: map_filter_simps)
qed (simp add: map_filter_simps)

lemma distinct_map_filter_key:
  "(\<And>r y. h r = Some y \<Longrightarrow> key y = k r) \<Longrightarrow> distinct (map k rows) \<Longrightarrow> distinct (map key (List.map_filter h rows))"
proof (induction rows)
  case (Cons r rows)
  have "key y \<notin> set (map key (List.map_filter h rows))" if "h r = Some y" for y
  proof
    assume "key y \<in> set (map key (List.map_filter h rows))"
    then obtain y' where "y' \<in> set (List.map_filter h rows)" "key y' = key y" by auto
    then obtain r' where "r' \<in> set rows" "h r' = Some y'" "key y' = key y" unfolding in_map_filter by blast
    with Cons.prems that show False by (auto simp: rev_image_eqI)
  qed
  with Cons show ?case by (cases "h r") (auto simp: map_filter_simps)
qed (simp add: map_filter_simps)

lemma inbox_bounds:
  "select_inbox_query u b n flt db = filter (\<lambda>i. note_in_bounds b n (ni_noteid i)) (select_inbox_query u None None flt db)"
proof -
  have key: "inbox_item db r = Some y \<Longrightarrow> note_in_bounds b n (ni_noteid y) = note_in_bounds b n (ms_noteid r)" for r y
    by (auto simp: inbox_item_def has_author_def)
  define rows where "rows = filter (\<lambda>ms. ms_otherid ms = u \<and> \<not> has_flag (CHR ''r'') (ms_settings ms)
    \<and> (flt \<noteq> [] \<longrightarrow> ms_userid ms \<in> set flt)) (t_message db)"
  have "select_inbox_query u b n flt db = List.map_filter (inbox_item db) (filter (\<lambda>ms. note_in_bounds b n (ms_noteid ms)) rows)"
    "select_inbox_query u None None flt db = List.map_filter (inbox_item db) rows"
    by (simp_all add: select_inbox_query_def rows_def conj_ac note_in_bounds_def [of None None])
  then show ?thesis using filter_map_filter [of "inbox_item db", OF key] by simp
qed

lemma outbox_bounds:
  "select_outbox_query u b n flt db = filter (\<lambda>i. note_in_bounds b n (ni_noteid i)) (select_outbox_query u None None flt db)"
proof -
  have key: "outbox_item db r = Some y \<Longrightarrow> note_in_bounds b n (ni_noteid y) = note_in_bounds b n (ms_noteid r)" for r y
    by (auto simp: outbox_item_def has_author_def)
  define rows where "rows = filter (\<lambda>ms. ms_userid ms = u \<and> \<not> has_flag (CHR ''s'') (ms_settings ms)
    \<and> (flt \<noteq> [] \<longrightarrow> ms_otherid ms \<in> set flt)) (t_message db)"
  have "select_outbox_query u b n flt db = List.map_filter (outbox_item db) (filter (\<lambda>ms. note_in_bounds b n (ms_noteid ms)) rows)"
    "select_outbox_query u None None flt db = List.map_filter (outbox_item db) rows"
    by (simp_all add: select_outbox_query_def rows_def conj_ac note_in_bounds_def [of None None])
  then show ?thesis using filter_map_filter [of "outbox_item db", OF key] by simp
qed

lemma boxes_distinct:
  assumes "notes_ok db"
  shows "distinct (map ni_noteid (select_inbox_query u b n flt db))" "distinct (map ni_noteid (select_outbox_query u b n flt db))"
proof -
  have rows: "distinct (map ms_noteid (filter P (t_message db)))" for P
    using assms by (simp add: notes_ok_def distinct_map_filter)
  show "distinct (map ni_noteid (select_inbox_query u b n flt db))"
    unfolding select_inbox_query_def by (rule distinct_map_filter_key [OF _ rows]) (auto simp: inbox_item_def has_author_def)
  show "distinct (map ni_noteid (select_outbox_query u b n flt db))"
    unfolding select_outbox_query_def by (rule distinct_map_filter_key [OF _ rows]) (auto simp: outbox_item_def has_author_def)
qed

lemma note_page_between:
  assumes "distinct (map ni_noteid items)" "newest_first ni_noteid items = before @ x # after"
  shows "note_page None items = take NOTES_PAGE_SIZE (newest_first ni_noteid items)"
    and "note_page None (filter (\<lambda>i. note_in_bounds None (Some (ni_noteid x)) (ni_noteid i)) items) = take NOTES_PAGE_SIZE after"
    and "note_page (Some (ni_noteid x)) (filter (\<lambda>i. note_in_bounds (Some (ni_noteid x)) n (ni_noteid i)) items)
           = rev (take NOTES_PAGE_SIZE (rev before))"
    and "length (filter (\<lambda>i. note_in_bounds None (Some (ni_noteid x)) (ni_noteid i)) items) = length after"
    and "length (filter (\<lambda>i. note_in_bounds (Some (ni_noteid x)) n (ni_noteid i)) items) = length before"
proof -
  have sorted: "sorted_wrt (\<lambda>a b. ni_noteid a > ni_noteid b) (before @ x # after)"
    using strictly_descending [OF assms(1)] assms(2) by simp
  have parts: "newest_first ni_noteid (filter (\<lambda>i. ni_noteid i < ni_noteid x) items) = after"
    "newest_first ni_noteid (filter (\<lambda>i. ni_noteid i > ni_noteid x) items) = before"
    by (simp_all only: filter_newest_first [symmetric] assms(2) descending_below [OF sorted])
  show "note_page None items = take NOTES_PAGE_SIZE (newest_first ni_noteid items)"
    by (simp add: note_page_def newest_first_def)
  show "note_page None (filter (\<lambda>i. note_in_bounds None (Some (ni_noteid x)) (ni_noteid i)) items) = take NOTES_PAGE_SIZE after"
    using parts(1) by (simp add: note_page_def note_in_bounds_def newest_first_def)
  show "note_page (Some (ni_noteid x)) (filter (\<lambda>i. note_in_bounds (Some (ni_noteid x)) n (ni_noteid i)) items)
      = rev (take NOTES_PAGE_SIZE (rev before))"
    using parts(2) by (simp add: note_page_def note_in_bounds_def newest_first_def flip: parts(2))
  show "length (filter (\<lambda>i. note_in_bounds None (Some (ni_noteid x)) (ni_noteid i)) items) = length after"
    using arg_cong [OF parts(1), of length] by (simp add: note_in_bounds_def)
  show "length (filter (\<lambda>i. note_in_bounds (Some (ni_noteid x)) n (ni_noteid i)) items) = length before"
    using arg_cong [OF parts(2), of length] by (simp add: note_in_bounds_def)
qed

text \<open>
  The pages of a mailbox adjoin. The first page holds the newest 50 notes; from any note \<open>x\<close> of the
  mailbox, the page with \<open>nextid\<close> holds the 50 notes following it, and the page with \<open>backid\<close> the 50
  notes before it, newest first, with no gap and no repetition; the counts are those of the notes after and before
  it, up to the limit of 1000.
\<close>

theorem note_pages_adjoin:
  assumes "notes_ok db" "newest_first ni_noteid (select_inbox_query u None None flt db) = before @ x # after"
    and "newest_first ni_noteid (select_outbox_query u None None flt db) = before' @ y # after'"
  shows "select_inbox u None None flt db = take 50 (before @ x # after)
    \<and> select_inbox u None (Some (ni_noteid x)) flt db = take 50 after
    \<and> select_inbox u (Some (ni_noteid x)) n flt db = rev (take 50 (rev before))
    \<and> select_inbox_count u None (Some (ni_noteid x)) flt db = min 1000 (length after)
    \<and> select_inbox_count u (Some (ni_noteid x)) n flt db = min 1000 (length before)
    \<and> select_outbox u None None flt db = take 50 (before' @ y # after')
    \<and> select_outbox u None (Some (ni_noteid y)) flt db = take 50 after'
    \<and> select_outbox u (Some (ni_noteid y)) n flt db = rev (take 50 (rev before'))
    \<and> select_outbox_count u None (Some (ni_noteid y)) flt db = min 1000 (length after')
    \<and> select_outbox_count u (Some (ni_noteid y)) n flt db = min 1000 (length before')"
proof -
  note inbox = note_page_between [OF boxes_distinct(1) [OF assms(1), of u None None flt] assms(2)]
  note outbox = note_page_between [OF boxes_distinct(2) [OF assms(1), of u None None flt] assms(3)]
  note sizes = NOTES_PAGE_SIZE_def [symmetric] NOTES_COUNT_LIMIT_def [symmetric]
  show ?thesis
    unfolding sizes select_inbox_def select_outbox_def select_inbox_count_def select_outbox_count_def
      inbox_bounds [of u "Some (ni_noteid x)"] inbox_bounds [of u None "Some (ni_noteid x)"]
      outbox_bounds [of u "Some (ni_noteid y)"] outbox_bounds [of u None "Some (ni_noteid y)"]
    by (simp only: inbox outbox assms(2,3) length_take min.commute conj_ac simp_thms)
qed


theorem note_pages_adjoin_witness:
  "map ni_noteid (select_inbox 7 None (Some 2) []
     (notes_db\<lparr>t_message := [sample_note 1 6 7, sample_note 2 6 7, sample_note 3 7 6, sample_note 5 6 7, sample_note 9 7 6], message_seq := 10\<rparr>)) = [1]"
proof -
  define db where "db = notes_db\<lparr>t_message := [sample_note 1 6 7, sample_note 2 6 7, sample_note 3 7 6, sample_note 5 6 7, sample_note 9 7 6],
    message_seq := 10\<rparr>"
  define item where "item = (\<lambda>i name. \<lparr>ni_noteid = i, ni_otherid = 6, ni_othername = name, ni_unread = True, ni_title = ''hi'', ni_unixtime = 0\<rparr>)"
  define sent where "sent = (\<lambda>i. \<lparr>ni_noteid = i, ni_otherid = 6, ni_othername = ''cat'', ni_unread = False, ni_title = ''hi'', ni_unixtime = 0\<rparr>)"
  have ok: "notes_ok db" by (simp add: notes_ok_def db_def notes_db_def sample_note_def)
  have inbox: "newest_first ni_noteid (select_inbox_query 7 None None [] db) = [item 5 ''cat''] @ item 2 ''cat'' # [item 1 ''cat'']"
    unfolding db_def item_def by code_simp
  have outbox: "newest_first ni_noteid (select_outbox_query 7 None None [] db) = [] @ sent 9 # [sent 3]"
    unfolding db_def sent_def by code_simp
  have "select_inbox 7 None (Some 2) [] db = take 50 [item 1 ''cat'']"
    using note_pages_adjoin [OF ok inbox outbox, of None] by (simp add: item_def)
  then show ?thesis by (simp add: db_def item_def)
qed

lemma notes_db_cache: "config_cache_ok notes_db" "query_all_config 0 notes_db = None"
  by (simp_all add: notes_db_def blank_db_def coherent_def peek_all_config_def query_all_config_def sample_login_def)

lemma notes_db_strangers: "fst (note_send ascii_lower id no_staff 9 6 (sample_form ''Fox'') notes_db) = Inl (WeasylError ''recipientInvalid'')"
  by code_simp

text \<open>Here 6 wrote to 7, who takes notes from staff only, so the first note of 6 is refused; staff may write.\<close>

theorem note_send_effect_witness:
  "fst (note_send ascii_lower id no_staff 9 6 (sample_form ''Fox'') notes_db) \<noteq> Inr ()
   \<and> t_message (snd (note_send ascii_lower id no_staff 9 6 (sample_form ''Fox'') notes_db)) = t_message notes_db
   \<and> length (t_message (snd (note_send ascii_lower id (no_staff\<lparr>MODS := {6}\<rparr>) 9 6 (sample_form ''Fox'') notes_db))) = 3"
proof -
  have refused: "fst (note_send ascii_lower id no_staff 9 6 (sample_form ''Fox'') notes_db) \<noteq> Inr ()"
    by (simp add: notes_db_strangers)
  obtain r d where r: "note_send ascii_lower id no_staff 9 6 (sample_form ''Fox'') notes_db = (r, d)" by fastforce
  have one: "t_message d = t_message notes_db"
    using note_send_effect [OF notes_db_cache r] refused r by simp
  have "fst (note_send ascii_lower id (no_staff\<lparr>MODS := {6}\<rparr>) 9 6 (sample_form ''Fox'') notes_db) = Inr ()" by code_simp
  then obtain d' where r': "note_send ascii_lower id (no_staff\<lparr>MODS := {6}\<rparr>) 9 6 (sample_form ''Fox'') notes_db = (Inr (), d')"
    by (metis prod.collapse)
  have "length (t_message notes_db) = 2" by code_simp
  then have "length (t_message d') = 3" using note_send_effect [OF notes_db_cache r'] by auto
  with one refused r r' show ?thesis by simp
qed

text \<open>And 7 may answer a note of 6, who otherwise takes notes from friends only.\<close>

theorem note_reply_accepted_witness:
  "let db' = snd (note_send ascii_lower id (no_staff\<lparr>MODS := {6}\<rparr>) 9 6 (sample_form ''Fox'') notes_db)
   in fst (note_send ascii_lower id (no_staff\<lparr>MODS := {6}\<rparr>) 10 7 (sample_form ''cat'') db') = Inr ()
      \<and> fst (note_send ascii_lower id (no_staff\<lparr>MODS := {6}\<rparr>) 10 7 (sample_form ''cat'') notes_db) \<noteq> Inr ()"
proof -
  define st where "st = no_staff\<lparr>MODS := {6}\<rparr>"
  have "fst (note_send ascii_lower id st 9 6 (sample_form ''Fox'') notes_db) = Inr ()" unfolding st_def by code_simp
  then obtain db' where sent: "note_send ascii_lower id st 9 6 (sample_form ''Fox'') notes_db = (Inr (), db')" by (metis prod.collapse)
  have to: "fst (note_recipient ascii_lower id (nf_recipient (sample_form ''Fox'')) notes_db) = Inr 7" by code_simp
  have "fst (note_recipient ascii_lower id (nf_recipient (sample_form ''cat'')) (snd (note_send ascii_lower id st 9 6 (sample_form ''Fox'') notes_db))) = Inr 6"
    unfolding st_def by code_simp
  with sent have answer: "fst (note_recipient ascii_lower id (nf_recipient (sample_form ''cat'')) db') = Inr 6" by simp
  have form: "note_form_ok (sample_form ''cat'')" by code_simp
  have "\<exists>c. query_all_config 6 notes_db = Some c \<and> is_vouched_for c"
    by (simp add: query_all_config_def notes_db_def sample_login_def sample_profile_def)
  then obtain c where c: "query_all_config 6 notes_db = Some c" "is_vouched_for c" by blast
  have "fst (note_send ascii_lower id st 10 7 (sample_form ''cat'') db') = Inr ()"
    by (rule note_reply_accepted [OF notes_db_cache sent to form answer c])
  moreover have "fst (note_send ascii_lower id st 10 7 (sample_form ''cat'') notes_db) \<noteq> Inr ()" unfolding st_def by code_simp
  ultimately show ?thesis using sent by (simp add: st_def Let_def)
qed

subsection \<open>Two flaws\<close>

text \<open>A name that belongs to nobody is not refused as \<open>recipientInvalid\<close>: the id 0 reaches \<open>is_vouched_for\<close>.\<close>

lemma note_to_nobody: "fst (note_send ascii_lower id no_staff 9 6 (sample_form ''nobody'') notes_db) = Inl TypeError"
  by code_simp

text \<open>Throwing an unread note away does not drop the cached header, which goes on counting it.\<close>

lemma remove_list_keeps_header:
  "c_page_header (note_remove_list userid noteids db) = c_page_header db"
  by (simp add: note_remove_list_def trash_sent_def trash_received_def)

lemma remove_list_header_stale:
  "private_messages_unread_count 7 (note_remove_list 7 [1] notes_db) = private_messages_unread_count 7 notes_db - 1"
  by code_simp

end
