(* ===== verification/Two_Factor.thy ===== *)
theory Two_Factor
  imports Define
begin

text \<open>
  Two-factor authentication, \<^verbatim>\<open>weasyl/two_factor_auth.py\<close>, with \<open>generate_key\<close> of
  \<^verbatim>\<open>libweasyl/security.py\<close>. An account has two-factor authentication while \<open>twofa_secret\<close> of its login
  row is not NULL; its recovery codes are kept as hashes in \<open>twofa_recovery_codes\<close>. The libraries are
  the fields of \<open>tfa_env\<close>: bcrypt's \<open>hashpw\<close> and \<open>checkpw\<close>, \<open>TOTP(secret).verify(response,
  valid_window)\<close> of pyotp at the present time, Fernet under the configured key, the
  provisioning URI and QR code as an image, and Python's \<open>str.upper\<close>. Each may raise. Random draws are
  arguments: \<open>rand k\<close> is the k-th draw of \<open>randbelow\<close>, \<open>salts k\<close> the k-th salt.
\<close>

record tfa_env =
  hashpw :: "string \<Rightarrow> string \<Rightarrow> string result"
  checkpw :: "string \<Rightarrow> string \<Rightarrow> bool result"
  totp_verify :: "string \<Rightarrow> string \<Rightarrow> nat \<Rightarrow> bool result"
  fernet_encrypt :: "string \<Rightarrow> string"
  fernet_decrypt :: "string \<Rightarrow> string result"
  provisioning_svg :: "string \<Rightarrow> string \<Rightarrow> string result"
  str_upper :: "string \<Rightarrow> string"

definition TFA_RECOVERY_CODES :: nat where
  "TFA_RECOVERY_CODES = 10"

definition LENGTH_RECOVERY_CODE :: nat where
  "LENGTH_RECOVERY_CODE = 20"

definition LENGTH_TOTP_CODE :: nat where
  "LENGTH_TOTP_CODE = 6"

subsection \<open>Keys\<close>

definition ascii_uppercase :: string where
  "ascii_uppercase = ''ABCDEFGHIJKLMNOPQRSTUVWXYZ''"

definition generate_key :: "(nat \<Rightarrow> nat) \<Rightarrow> nat \<Rightarrow> string \<Rightarrow> string" where
  "generate_key rand n key_characters = map (\<lambda>i. key_characters ! (rand i mod length key_characters)) [0..<n]"

definition generate_recovery_codes :: "(nat \<Rightarrow> nat) \<Rightarrow> string list" where
  "generate_recovery_codes rand =
     (let charset = ascii_uppercase @ ''123456789''
      in map (\<lambda>i. generate_key (\<lambda>k. rand (i * LENGTH_RECOVERY_CODE + k)) LENGTH_RECOVERY_CODE charset)
           [0..<TFA_RECOVERY_CODES])"

definition encode_ascii :: "string \<Rightarrow> string result" where
  "encode_ascii s = (if list_all (\<lambda>c. (of_char c :: int) < 128) s then Inr s else Inl ValueError)"

definition encrypt_totp_secret :: "tfa_env \<Rightarrow> string \<Rightarrow> string result" where
  "encrypt_totp_secret env totp_secret =
     (case encode_ascii totp_secret of Inl e \<Rightarrow> Inl e | Inr s \<Rightarrow> Inr (fernet_encrypt env s))"

text \<open>A NULL secret is \<open>None\<close>, which has no method \<open>encode\<close>.\<close>

definition decrypt_totp_secret :: "tfa_env \<Rightarrow> string option \<Rightarrow> string result" where
  "decrypt_totp_secret env totp_secret =
     (case totp_secret of
        None \<Rightarrow> Inl AttributeError
      | Some s \<Rightarrow> (case encode_ascii s of Inl e \<Rightarrow> Inl e | Inr s \<Rightarrow> fernet_decrypt env s))"

subsection \<open>Setting it up\<close>

text \<open>The match of \<^verbatim>\<open><svg.*</svg>\<close>: from the first place it opens to the last place it closes.\<close>

definition starts_with :: "string \<Rightarrow> string \<Rightarrow> bool" where
  "starts_with p s = (take (length p) s = p)"

fun search_from :: "string \<Rightarrow> string \<Rightarrow> string option" where
  "search_from p [] = (if p = [] then Some [] else None)"
| "search_from p (c # s) = (if starts_with p (c # s) then Some (c # s) else search_from p s)"

definition search_svg :: "string \<Rightarrow> string option" where
  "search_svg xml =
     Option.bind (search_from ''<svg'' xml) (\<lambda>opened.
       map_option (\<lambda>r. ''<svg'' @ rev r) (search_from (rev ''</svg>'') (rev (drop 4 opened))))"

text \<open>\<open>urllib.parse.quote\<close>: letters, digits and \<^verbatim>\<open>_.-~/\<close> stay, other bytes of UTF-8 become \<^verbatim>\<open>%XX\<close>.\<close>

definition quote_safe :: "char \<Rightarrow> bool" where
  "quote_safe c = (let n = (of_char c :: int) in is_digit n \<or> is_lower n \<or> is_upper n \<or> c \<in> set ''_.-~/'')"

definition hex_digit :: "int \<Rightarrow> char" where
  "hex_digit n = ''0123456789ABCDEF'' ! nat n"

definition utf8 :: "char \<Rightarrow> int list" where
  "utf8 c = (let n = of_char c in if n < 128 then [n] else [192 + n div 64, 128 + n mod 64])"

definition urlquote :: "string \<Rightarrow> string" where
  "urlquote s = concat (map (\<lambda>c. if quote_safe c then [c]
     else concat (map (\<lambda>b. [CHR ''%'', hex_digit (b div 16), hex_digit (b mod 16)]) (utf8 c))) s)"

definition generate_tfa_qrcode :: "tfa_env \<Rightarrow> int \<Rightarrow> string \<Rightarrow> 'a accounts_db_scheme \<Rightarrow> string result \<times> 'a accounts_db_scheme" where
  "generate_tfa_qrcode env userid tfa_secret db =
     and_then (get_display_name userid db) (\<lambda>name db.
       (case provisioning_svg env tfa_secret name of
          Inl e \<Rightarrow> Inl e
        | Inr qr_xml \<Rightarrow>
            (case search_svg (filter (\<lambda>c. c \<noteq> CHR 0x0A) qr_xml) of
               None \<Rightarrow> Inl AttributeError
             | Some qr_svg_only \<Rightarrow> Inr (urlquote qr_svg_only)), db))"

text \<open>\<open>random_base32()\<close> is the argument \<open>tfa_secret\<close>.\<close>

definition tfa_init :: "tfa_env \<Rightarrow> string \<Rightarrow> int \<Rightarrow> 'a accounts_db_scheme \<Rightarrow> (string \<times> string) result \<times> 'a accounts_db_scheme" where
  "tfa_init env tfa_secret userid db =
     and_then (generate_tfa_qrcode env userid tfa_secret db) (\<lambda>tfa_qrcode db. (Inr (tfa_secret, tfa_qrcode), db))"

definition init_verify_tfa :: "tfa_env \<Rightarrow> (nat \<Rightarrow> nat) \<Rightarrow> string \<Rightarrow> string \<Rightarrow> (string \<times> string list) option result" where
  "init_verify_tfa env rand tfa_secret tfa_response =
     (case totp_verify env tfa_secret tfa_response 0 of
        Inl e \<Rightarrow> Inl e
      | Inr ok \<Rightarrow> Inr (if ok then Some (tfa_secret, generate_recovery_codes rand) else None))"

definition set_twofa_secret :: "int \<Rightarrow> string option \<Rightarrow> 'a accounts_db_scheme \<Rightarrow> 'a accounts_db_scheme" where
  "set_twofa_secret userid secret db =
     db\<lparr>t_login := update_where (\<lambda>lo. lo_userid lo = userid) (\<lambda>lo. lo\<lparr>lo_twofa_secret := secret\<rparr>) (t_login db)\<rparr>"

definition tfa_activate :: "tfa_env \<Rightarrow> int \<Rightarrow> string \<Rightarrow> string \<Rightarrow> 'a accounts_db_scheme \<Rightarrow> bool result \<times> 'a accounts_db_scheme" where
  "tfa_activate env userid tfa_secret tfa_response db =
     (case totp_verify env tfa_secret tfa_response 1 of
        Inl e \<Rightarrow> (Inl e, db)
      | Inr ok \<Rightarrow>
          if ok then
            (case encrypt_totp_secret env tfa_secret of
               Inl e \<Rightarrow> (Inl e, db)
             | Inr encrypted \<Rightarrow> (Inr True, set_twofa_secret userid (Some encrypted) db))
          else (Inr False, db))"

subsection \<open>Recovery codes\<close>

definition recovery_hashes :: "int \<Rightarrow> 'a accounts_db_scheme \<Rightarrow> string list" where
  "recovery_hashes userid db = map rc_recovery_code_hash (filter (\<lambda>rc. rc_userid rc = userid) (t_twofa_recovery_codes db))"

definition get_number_of_recovery_codes :: "int \<Rightarrow> 'a accounts_db_scheme \<Rightarrow> int" where
  "get_number_of_recovery_codes userid db = count_where (\<lambda>rc. rc_userid rc = userid) (t_twofa_recovery_codes db)"

fun hash_codes :: "tfa_env \<Rightarrow> (nat \<Rightarrow> string) \<Rightarrow> nat \<Rightarrow> string list \<Rightarrow> string list result" where
  "hash_codes env salts k [] = Inr []"
| "hash_codes env salts k (code # codes) =
     (case hashpw env code (salts k) of
        Inl e \<Rightarrow> Inl e
      | Inr h \<Rightarrow> (case hash_codes env salts (Suc k) codes of Inl e \<Rightarrow> Inl e | Inr hs \<Rightarrow> Inr (h # hs)))"

definition store_recovery_codes ::
  "tfa_env \<Rightarrow> (nat \<Rightarrow> string) \<Rightarrow> int \<Rightarrow> string \<Rightarrow> 'a accounts_db_scheme \<Rightarrow> bool result \<times> 'a accounts_db_scheme" where
  "store_recovery_codes env salts userid recovery_codes db =
     (let codes = split_on (CHR '','') (str_upper env recovery_codes)
      in if length codes \<noteq> TFA_RECOVERY_CODES then (Inr False, db)
         else if \<not> list_all (\<lambda>code. length code = LENGTH_RECOVERY_CODE) codes then (Inr False, db)
         else
           (case hash_codes env salts 0 codes of
              Inl e \<Rightarrow> (Inl e, db)
            | Inr hashed_codes \<Rightarrow>
                (Inr True,
                 db\<lparr>t_twofa_recovery_codes := delete_where (\<lambda>rc. rc_userid rc = userid) (t_twofa_recovery_codes db)
                      @ map (\<lambda>h. \<lparr>rc_userid = userid, rc_recovery_code_hash = h\<rparr>) hashed_codes\<rparr>)))"

fun find_code :: "tfa_env \<Rightarrow> string \<Rightarrow> string list \<Rightarrow> string option result" where
  "find_code env code [] = Inr None"
| "find_code env code (h # hs) =
     (case checkpw env code h of
        Inl e \<Rightarrow> Inl e
      | Inr ok \<Rightarrow> if ok then Inr (Some h) else find_code env code hs)"

definition is_recovery_code_valid ::
  "tfa_env \<Rightarrow> int \<Rightarrow> string \<Rightarrow> bool \<Rightarrow> 'a accounts_db_scheme \<Rightarrow> bool result \<times> 'a accounts_db_scheme" where
  "is_recovery_code_valid env userid tfa_code consume_recovery_code db =
     (if length tfa_code \<noteq> LENGTH_RECOVERY_CODE then (Inr False, db)
      else
        (case find_code env (str_upper env tfa_code) (recovery_hashes userid db) of
           Inl e \<Rightarrow> (Inl e, db)
         | Inr None \<Rightarrow> (Inr False, db)
         | Inr (Some h) \<Rightarrow>
             (Inr True,
              if consume_recovery_code
              then db\<lparr>t_twofa_recovery_codes :=
                        delete_where (\<lambda>rc. rc_userid rc = userid \<and> rc_recovery_code_hash rc = h) (t_twofa_recovery_codes db)\<rparr>
              else db)))"

subsection \<open>Verification\<close>

text \<open>The column of a user without a login row is \<open>None\<close> as well.\<close>

definition twofa_secret_of :: "int \<Rightarrow> 'a accounts_db_scheme \<Rightarrow> string option" where
  "twofa_secret_of userid db = Option.bind (find (\<lambda>lo. lo_userid lo = userid) (t_login db)) lo_twofa_secret"

definition tfa_verify ::
  "tfa_env \<Rightarrow> int \<Rightarrow> string \<Rightarrow> bool \<Rightarrow> 'a accounts_db_scheme \<Rightarrow> bool result \<times> 'a accounts_db_scheme" where
  "tfa_verify env userid tfa_response consume_recovery_code db =
     (let tfa_response = filter (\<lambda>c. c \<noteq> CHR '' '') tfa_response
      in if length tfa_response = LENGTH_TOTP_CODE then
           (case decrypt_totp_secret env (twofa_secret_of userid db) of
              Inl e \<Rightarrow> (Inl e, db)
            | Inr tfa_secret \<Rightarrow> (totp_verify env tfa_secret tfa_response 0, db))
         else if length tfa_response = LENGTH_RECOVERY_CODE
         then is_recovery_code_valid env userid tfa_response consume_recovery_code db
         else (Inr False, db))"

text \<open>NULL for a user without a login row.\<close>

definition is_2fa_enabled :: "int \<Rightarrow> 'a accounts_db_scheme \<Rightarrow> bool option" where
  "is_2fa_enabled userid db =
     map_option (\<lambda>lo. lo_twofa_secret lo \<noteq> None) (find (\<lambda>lo. lo_userid lo = userid) (t_login db))"

definition force_deactivate :: "int \<Rightarrow> 'a accounts_db_scheme \<Rightarrow> 'a accounts_db_scheme" where
  "force_deactivate userid db =
     (let db = set_twofa_secret userid None db
      in db\<lparr>t_twofa_recovery_codes := delete_where (\<lambda>rc. rc_userid rc = userid) (t_twofa_recovery_codes db)\<rparr>)"

definition tfa_deactivate :: "tfa_env \<Rightarrow> int \<Rightarrow> string \<Rightarrow> 'a accounts_db_scheme \<Rightarrow> bool result \<times> 'a accounts_db_scheme" where
  "tfa_deactivate env userid tfa_response db =
     and_then (tfa_verify env userid tfa_response True db) (\<lambda>ok db.
       if ok then (Inr True, force_deactivate userid db) else (Inr False, db))"



section \<open>Facts\<close>

subsection \<open>Recovery codes are used once\<close>

text \<open>
  What bcrypt documents of its two functions, for the texts the site gives it (at most 72 bytes): a
  password matches the hashes made from it, and no others.
\<close>

definition bcrypt_law :: "tfa_env \<Rightarrow> bool" where
  "bcrypt_law env \<longleftrightarrow> (\<forall>p q salt h. length p = LENGTH_RECOVERY_CODE \<longrightarrow> length q = LENGTH_RECOVERY_CODE \<longrightarrow>
     hashpw env p salt = Inr h \<longrightarrow> checkpw env q h = Inr (q = p))"

text \<open>The rows of the user stand for the codes of a set that are still good.\<close>

definition codes_stand_for :: "tfa_env \<Rightarrow> int \<Rightarrow> string set \<Rightarrow> 'a accounts_db_scheme \<Rightarrow> bool" where
  "codes_stand_for env userid good db \<longleftrightarrow>
     (\<exists>codes. set codes = good \<and> distinct codes \<and> list_all (\<lambda>c. length c = LENGTH_RECOVERY_CODE) codes
        \<and> list_all2 (\<lambda>c h. \<exists>salt. hashpw env c salt = Inr h) codes (recovery_hashes userid db))"

lemma hash_codes_ok:
  "hash_codes env salts k codes = Inr hs \<Longrightarrow> list_all2 (\<lambda>c h. \<exists>salt. hashpw env c salt = Inr h) codes hs"
  by (induction env salts k codes arbitrary: hs rule: hash_codes.induct) (auto split: sum.splits)

lemma find_code_result:
  assumes law: "bcrypt_law env"
    and "list_all2 (\<lambda>c h. \<exists>salt. hashpw env c salt = Inr h) codes hs"
    and "list_all (\<lambda>c. length c = LENGTH_RECOVERY_CODE) codes" "length code = LENGTH_RECOVERY_CODE"
  shows "find_code env code hs = Inr (if code \<in> set codes then Some (the (map_of (zip codes hs) code)) else None)"
  using assms(2,3)
proof (induction rule: list_all2_induct)
  case (Cons c codes h hs)
  then have "checkpw env code h = Inr (code = c)"
    using law assms(4) by (auto simp: bcrypt_law_def)
  with Cons show ?case by auto
qed simp

lemma recovery_hashes_delete:
  "recovery_hashes userid (db\<lparr>t_twofa_recovery_codes :=
      delete_where (\<lambda>rc. rc_userid rc = userid \<and> rc_recovery_code_hash rc = h) (t_twofa_recovery_codes db)\<rparr>)
   = filter (\<lambda>h'. h' \<noteq> h) (recovery_hashes userid db)"
  by (simp add: recovery_hashes_def delete_where_def filter_map comp_def conj_commute cong: conj_cong)

lemma list_all2_filter_pairs:
  "list_all2 R xs ys \<Longrightarrow> (\<And>x y. (x, y) \<in> set (zip xs ys) \<Longrightarrow> P x = Q y) \<Longrightarrow> list_all2 R (filter P xs) (filter Q ys)"
proof (induction rule: list_all2_induct)
  case (Cons x xs y ys)
  then have "list_all2 R (filter P xs) (filter Q ys)" "P x = Q y" by auto
  with Cons.hyps(1) show ?case by simp
qed simp

lemma drop_code:
  assumes law: "bcrypt_law env"
    and codes: "list_all2 (\<lambda>c h. \<exists>salt. hashpw env c salt = Inr h) codes hs"
      "list_all (\<lambda>c. length c = LENGTH_RECOVERY_CODE) codes" "distinct codes"
    and code: "code \<in> set codes" and h: "h = the (map_of (zip codes hs) code)"
  shows "list_all2 (\<lambda>c h. \<exists>salt. hashpw env c salt = Inr h) (filter (\<lambda>c. c \<noteq> code) codes) (filter (\<lambda>h'. h' \<noteq> h) hs)"
proof (rule list_all2_filter_pairs [OF codes(1)])
  fix c h' assume pair: "(c, h') \<in> set (zip codes hs)"
  have len: "length codes = length hs" using codes(1) by (rule list_all2_lengthD)
  have map: "map_of (zip codes hs) c' = Some y \<longleftrightarrow> (c', y) \<in> set (zip codes hs)" for c' y
    using codes(3) len by (simp add: map_of_eq_Some_iff)
  obtain y where y: "(code, y) \<in> set (zip codes hs)" using code len by (metis in_set_impl_in_set_zip1)
  then have yh: "y = h" using map h by (metis option.sel)
  have hashed: "\<exists>salt. hashpw env c' salt = Inr y'" "length c' = LENGTH_RECOVERY_CODE" if "(c', y') \<in> set (zip codes hs)" for c' y'
    using that codes(1,2) by (auto simp: list_all2_iff list_all_iff dest: set_zip_leftD)
  have "c = code" if "h' = h"
  proof -
    have "checkpw env code h = Inr (code = c)" using law hashed [OF pair] hashed [OF y] that by (auto simp: bcrypt_law_def)
    moreover have "checkpw env code h = Inr (code = code)" using law hashed [OF y] yh by (auto simp: bcrypt_law_def)
    ultimately show ?thesis by simp
  qed
  moreover have "h' = h" if "c = code" using that pair map y yh by (metis option.inject)
  ultimately show "(c \<noteq> code) = (h' \<noteq> h)" by blast
qed

lemma code_attempt:
  assumes law: "bcrypt_law env" and "codes_stand_for env userid good db"
    and code: "length code = LENGTH_RECOVERY_CODE" "length (str_upper env code) = LENGTH_RECOVERY_CODE"
  shows "fst (is_recovery_code_valid env userid code consume db) = Inr (str_upper env code \<in> good)"
    and "codes_stand_for env userid (if consume then good - {str_upper env code} else good)
           (snd (is_recovery_code_valid env userid code consume db))"
proof -
  define up where "up = str_upper env code"
  obtain codes where codes: "set codes = good" "distinct codes" "list_all (\<lambda>c. length c = LENGTH_RECOVERY_CODE) codes"
    "list_all2 (\<lambda>c h. \<exists>salt. hashpw env c salt = Inr h) codes (recovery_hashes userid db)"
    using assms(2) by (auto simp: codes_stand_for_def)
  have found: "find_code env up (recovery_hashes userid db)
      = Inr (if up \<in> set codes then Some (the (map_of (zip codes (recovery_hashes userid db)) up)) else None)"
    using find_code_result [OF law codes(4,3)] code(2) by (simp add: up_def)
  show "fst (is_recovery_code_valid env userid code consume db) = Inr (str_upper env code \<in> good)"
    using found code(1) by (simp add: is_recovery_code_valid_def up_def [symmetric] codes(1))
  show "codes_stand_for env userid (if consume then good - {str_upper env code} else good)
      (snd (is_recovery_code_valid env userid code consume db))"
  proof (cases "up \<in> good \<and> consume")
    case True
    define h where "h = the (map_of (zip codes (recovery_hashes userid db)) up)"
    have "set (filter (\<lambda>c. c \<noteq> up) codes) = good - {up}" "distinct (filter (\<lambda>c. c \<noteq> up) codes)"
      "list_all (\<lambda>c. length c = LENGTH_RECOVERY_CODE) (filter (\<lambda>c. c \<noteq> up) codes)"
      using codes by (auto simp: list_all_iff)
    moreover have "list_all2 (\<lambda>c h. \<exists>salt. hashpw env c salt = Inr h) (filter (\<lambda>c. c \<noteq> up) codes)
        (filter (\<lambda>h'. h' \<noteq> h) (recovery_hashes userid db))"
      using drop_code [OF law codes(4,3,2), of up h] True codes(1) h_def by simp
    ultimately have "codes_stand_for env userid (good - {up}) (db\<lparr>t_twofa_recovery_codes :=
        delete_where (\<lambda>rc. rc_userid rc = userid \<and> rc_recovery_code_hash rc = h) (t_twofa_recovery_codes db)\<rparr>)"
      unfolding codes_stand_for_def recovery_hashes_delete by blast
    with True found code(1) show ?thesis
      by (simp add: is_recovery_code_valid_def up_def [symmetric] codes(1) h_def)
  next
    case False
    then have "snd (is_recovery_code_valid env userid code consume db) = db"
      using found code(1) codes(1) by (auto simp: is_recovery_code_valid_def up_def [symmetric])
    with False assms(2) show ?thesis by (auto simp: up_def [symmetric])
  qed
qed


definition given_code :: "tfa_env \<Rightarrow> string \<Rightarrow> string" where
  "given_code env response = str_upper env (filter (\<lambda>c. c \<noteq> CHR '' '') response)"

definition code_sized :: "tfa_env \<Rightarrow> string \<Rightarrow> bool" where
  "code_sized env response \<longleftrightarrow> length (filter (\<lambda>c. c \<noteq> CHR '' '') response) = LENGTH_RECOVERY_CODE
     \<and> length (given_code env response) = LENGTH_RECOVERY_CODE"

fun try_codes :: "tfa_env \<Rightarrow> int \<Rightarrow> string list \<Rightarrow> 'a accounts_db_scheme \<Rightarrow> bool result list \<times> 'a accounts_db_scheme" where
  "try_codes env userid [] db = ([], db)"
| "try_codes env userid (response # responses) db =
     (let (r, db) = tfa_verify env userid response True db;
          (rs, db) = try_codes env userid responses db
      in (r # rs, db))"

lemma verify_code:
  "code_sized env response \<Longrightarrow> tfa_verify env userid response consume db
     = is_recovery_code_valid env userid (filter (\<lambda>c. c \<noteq> CHR '' '') response) consume db"
  by (simp add: tfa_verify_def code_sized_def LENGTH_RECOVERY_CODE_def LENGTH_TOTP_CODE_def)

lemma try_codes_result:
  assumes "bcrypt_law env" "codes_stand_for env userid good db" "list_all (code_sized env) responses"
  shows "fst (try_codes env userid responses db)
      = map (\<lambda>i. Inr (given_code env (responses ! i) \<in> good \<and> given_code env (responses ! i) \<notin> given_code env ` set (take i responses)))
          [0..<length responses]
    \<and> codes_stand_for env userid (good - given_code env ` set responses) (snd (try_codes env userid responses db))"
  using assms(2,3)
proof (induction responses arbitrary: db good)
  case (Cons r rs)
  define c where "c = given_code env r"
  define plain where "plain = filter (\<lambda>c. c \<noteq> CHR '' '') r"
  have sized: "code_sized env r" "length plain = LENGTH_RECOVERY_CODE" "length (str_upper env plain) = LENGTH_RECOVERY_CODE"
    "str_upper env plain = c"
    using Cons.prems(2) by (auto simp: code_sized_def c_def given_code_def plain_def)
  have rest: "list_all (code_sized env) rs" using Cons.prems(2) by simp
  obtain b d where step: "is_recovery_code_valid env userid plain True db = (b, d)" by fastforce
  with code_attempt [OF assms(1) Cons.prems(1) sized(2,3), of True]
  have d: "tfa_verify env userid r True db = (Inr (c \<in> good), d)" "codes_stand_for env userid (good - {c}) d"
    using verify_code [OF sized(1), of userid True db] by (simp_all add: plain_def [symmetric] sized(4))
  have IH: "fst (try_codes env userid rs d)
      = map (\<lambda>i. Inr (given_code env (rs ! i) \<in> good - {c} \<and> given_code env (rs ! i) \<notin> given_code env ` set (take i rs))) [0..<length rs]"
    "codes_stand_for env userid (good - {c} - given_code env ` set rs) (snd (try_codes env userid rs d))"
    using Cons.IH [OF d(2) rest] by auto
  have "[0..<length (r # rs)] = 0 # map Suc [0..<length rs]"
    by (simp only: list.size map_Suc_upt add_Suc_right add_0_right upt_conv_Cons zero_less_Suc)
  then have "map (\<lambda>i. Inr (given_code env ((r # rs) ! i) \<in> good
        \<and> given_code env ((r # rs) ! i) \<notin> given_code env ` set (take i (r # rs)))) [0..<length (r # rs)]
      = Inr (c \<in> good) # fst (try_codes env userid rs d)"
    by (auto simp: IH(1) c_def comp_def)
  moreover have "good - given_code env ` set (r # rs) = good - {c} - given_code env ` set rs" by (auto simp: c_def)
  ultimately show ?case using d(1) IH by (simp add: split_beta Let_def)
qed simp

lemma codes_number:
  "codes_stand_for env userid good db \<Longrightarrow> get_number_of_recovery_codes userid db = int (card good)"
  by (auto simp: codes_stand_for_def get_number_of_recovery_codes_def count_where_def recovery_hashes_def
      list_all2_iff distinct_card)

lemma store_codes:
  assumes "store_recovery_codes env salts userid text db = (Inr True, db')" "distinct (split_on (CHR '','') (str_upper env text))"
  shows "codes_stand_for env userid (set (split_on (CHR '','') (str_upper env text))) db'
    \<and> length (split_on (CHR '','') (str_upper env text)) = TFA_RECOVERY_CODES"
proof -
  define codes where "codes = split_on (CHR '','') (str_upper env text)"
  obtain hs where hs: "length codes = TFA_RECOVERY_CODES" "list_all (\<lambda>c. length c = LENGTH_RECOVERY_CODE) codes"
    "hash_codes env salts 0 codes = Inr hs"
    "db' = db\<lparr>t_twofa_recovery_codes := delete_where (\<lambda>rc. rc_userid rc = userid) (t_twofa_recovery_codes db)
       @ map (\<lambda>h. \<lparr>rc_userid = userid, rc_recovery_code_hash = h\<rparr>) hs\<rparr>"
    using assms(1) unfolding store_recovery_codes_def codes_def Let_def by (auto split: if_splits sum.splits)
  have "recovery_hashes userid db' = hs"
    by (simp add: hs(4) recovery_hashes_def delete_where_def filter_map comp_def)
  then show ?thesis
    using hash_codes_ok [OF hs(3)] hs(1,2) assms(2) by (auto simp: codes_stand_for_def codes_def [symmetric])
qed

text \<open>
  C23: Each recovery code works once. After ten different codes were stored for a user, a response of the
  size of a code is accepted exactly when it is one of them, in whatever case and with whatever spaces,
  and was not used before; and the number of codes left is ten less the number of codes used.
\<close>

theorem recovery_codes_once:
  assumes "bcrypt_law env" "store_recovery_codes env salts userid text db = (Inr True, db')"
    and "distinct (split_on (CHR '','') (str_upper env text))" "list_all (code_sized env) responses"
  shows "fst (try_codes env userid responses db')
      = map (\<lambda>i. Inr (given_code env (responses ! i) \<in> set (split_on (CHR '','') (str_upper env text))
                      \<and> given_code env (responses ! i) \<notin> given_code env ` set (take i responses))) [0..<length responses]
    \<and> get_number_of_recovery_codes userid (snd (try_codes env userid responses db'))
      = 10 - int (card (set (split_on (CHR '','') (str_upper env text)) \<inter> given_code env ` set responses))"
proof -
  define good where "good = set (split_on (CHR '','') (str_upper env text))"
  have stored: "codes_stand_for env userid good db'" "card good = 10"
    using store_codes [OF assms(2,3)] assms(3) by (simp_all add: good_def distinct_card TFA_RECOVERY_CODES_def)
  note tried = try_codes_result [OF assms(1) stored(1) assms(4)]
  have "finite good" by (simp add: good_def)
  then have "int (card (good - given_code env ` set responses)) = 10 - int (card (good \<inter> given_code env ` set responses))"
    using stored(2) card_mono [of good "good \<inter> given_code env ` set responses"]
    by (simp add: card_Diff_subset_Int of_nat_diff)
  then show ?thesis
    using tried codes_number [OF conjunct2 [OF tried]] by (simp add: good_def)
qed


definition sample_codes :: "string list" where
  "sample_codes = map (\<lambda>c. replicate 20 c) ''ABCDEFGHIJ''"

definition plain_env :: tfa_env where
  "plain_env = \<lparr>hashpw = (\<lambda>p salt. Inr (''..'' @ p)), checkpw = (\<lambda>q h. Inr (q = drop 2 h)),
     totp_verify = (\<lambda>secret response w. Inr (response = take 6 secret)), fernet_encrypt = rev,
     fernet_decrypt = (\<lambda>s. Inr (rev s)), provisioning_svg = (\<lambda>secret name. Inr (''<svg>'' @ secret @ ''</svg>'')),
     str_upper = (\<lambda>s. s)\<rparr>"

theorem recovery_codes_once_witness:
  "let a = replicate 20 CHR ''A''; spaced = CHR '' '' # replicate 20 CHR ''B''; z = replicate 20 CHR ''Z'';
       db = snd (store_recovery_codes plain_env (\<lambda>k. ''..'') 7 (join '','' sample_codes) blank_db)
   in fst (try_codes plain_env 7 [a, spaced, z, a] db)
      = [Inr True, Inr True, Inr False, Inr False]"
proof -
  define env where "env = plain_env"
  define db where "db = snd (store_recovery_codes env (\<lambda>k. ''..'') 7 (join '','' sample_codes) blank_db)"
  define rs where "rs = [replicate 20 CHR ''A'', CHR '' '' # replicate 20 CHR ''B'', replicate 20 CHR ''Z'', replicate 20 CHR ''A'']"
  have law: "bcrypt_law env" by (auto simp: bcrypt_law_def env_def plain_env_def)
  have "sample_codes \<noteq> []" "\<forall>w \<in> set sample_codes. CHR '','' \<notin> set w" by code_simp+
  then have codes: "split_on (CHR '','') (str_upper env (join '','' sample_codes)) = sample_codes"
    using split_join [of sample_codes "CHR '',''"] by (simp add: env_def plain_env_def)
  have "length sample_codes = TFA_RECOVERY_CODES" "list_all (\<lambda>code. length code = LENGTH_RECOVERY_CODE) sample_codes"
    by code_simp+
  moreover have "hash_codes env salts k cs = Inr (map (\<lambda>p. ''..'' @ p) cs)" for salts k cs
    by (induction cs arbitrary: k) (simp_all add: env_def plain_env_def)
  ultimately have "fst (store_recovery_codes env (\<lambda>k. ''..'') 7 (join '','' sample_codes) blank_db) = Inr True"
    unfolding store_recovery_codes_def Let_def codes by simp
  then have stored: "store_recovery_codes env (\<lambda>k. ''..'') 7 (join '','' sample_codes) blank_db = (Inr True, db)"
    unfolding db_def by (metis prod.collapse)
  have distinct: "distinct (split_on (CHR '','') (str_upper env (join '','' sample_codes)))"
    unfolding codes by code_simp
  have sized: "list_all (code_sized env) rs" unfolding env_def rs_def by code_simp
  have "fst (try_codes env 7 rs db) = map (\<lambda>i. Inr (given_code env (rs ! i) \<in> set sample_codes
      \<and> given_code env (rs ! i) \<notin> given_code env ` set (take i rs))) [0..<length rs]"
    using recovery_codes_once [OF law stored distinct sized] unfolding codes by blast
  also have "\<dots> = [Inr True, Inr True, Inr False, Inr False]" unfolding env_def rs_def by code_simp
  finally show ?thesis by (simp add: Let_def env_def db_def rs_def)
qed

subsection \<open>Turning it on and off\<close>

definition tfa_state :: "int \<Rightarrow> 'a accounts_db_scheme \<Rightarrow> string option \<times> string list" where
  "tfa_state userid db = (twofa_secret_of userid db, recovery_hashes userid db)"

lemma twofa_secret_set:
  "twofa_secret_of v (set_twofa_secret userid secret db)
     = (if v = userid \<and> find (\<lambda>lo. lo_userid lo = v) (t_login db) \<noteq> None then secret else twofa_secret_of v db)"
proof -
  have update: "find (\<lambda>lo. lo_userid lo = v) (update_where (\<lambda>lo. lo_userid lo = userid) (\<lambda>lo. lo\<lparr>lo_twofa_secret := secret\<rparr>) rows)
      = map_option (\<lambda>lo. if lo_userid lo = userid then lo\<lparr>lo_twofa_secret := secret\<rparr> else lo) (find (\<lambda>lo. lo_userid lo = v) rows)" for rows
    by (induction rows) (auto simp: update_where_def)
  show ?thesis
  proof (cases "find (\<lambda>lo. lo_userid lo = v) (t_login db)")
    case None
    then show ?thesis by (simp add: twofa_secret_of_def set_twofa_secret_def update)
  next
    case (Some lo)
    then have "lo_userid lo = v" using find_SomeD by fastforce
    with Some show ?thesis by (simp add: twofa_secret_of_def set_twofa_secret_def update)
  qed
qed

lemma enabled_secret: "is_2fa_enabled userid db = Some True \<longleftrightarrow> twofa_secret_of userid db \<noteq> None"
  by (cases "find (\<lambda>lo. lo_userid lo = userid) (t_login db)") (auto simp: is_2fa_enabled_def twofa_secret_of_def)

lemma recovery_hashes_set [simp]: "recovery_hashes v (set_twofa_secret userid secret db) = recovery_hashes v db"
  by (simp add: recovery_hashes_def set_twofa_secret_def)

lemma force_deactivate_state:
  "tfa_state v (force_deactivate userid db) = (if v = userid then (None, []) else tfa_state v db)"
proof -
  have hashes: "recovery_hashes v (force_deactivate userid db) = (if v = userid then [] else recovery_hashes v db)"
    by (auto simp: recovery_hashes_def force_deactivate_def set_twofa_secret_def Let_def delete_where_def filter_empty_conv
        intro: arg_cong [of _ _ "map rc_recovery_code_hash"] filter_cong)
  have "twofa_secret_of v (force_deactivate userid db) = twofa_secret_of v (set_twofa_secret userid None db)"
    by (simp add: force_deactivate_def twofa_secret_of_def Let_def)
  moreover have "twofa_secret_of userid db = None" if "find (\<lambda>lo. lo_userid lo = userid) (t_login db) = None"
    using that by (simp add: twofa_secret_of_def)
  ultimately show ?thesis
    using hashes by (auto simp: tfa_state_def twofa_secret_set)
qed


lemma valid_code_state:
  "twofa_secret_of v (snd (is_recovery_code_valid env userid code consume db)) = twofa_secret_of v db"
  "v \<noteq> userid \<Longrightarrow> recovery_hashes v (snd (is_recovery_code_valid env userid code consume db)) = recovery_hashes v db"
  by (auto simp: is_recovery_code_valid_def twofa_secret_of_def recovery_hashes_def delete_where_def
      intro: arg_cong [of _ _ "map rc_recovery_code_hash"] filter_cong split: sum.split option.split)

lemma verify_state:
  "twofa_secret_of v (snd (tfa_verify env userid response consume db)) = twofa_secret_of v db"
  "v \<noteq> userid \<Longrightarrow> recovery_hashes v (snd (tfa_verify env userid response consume db)) = recovery_hashes v db"
  by (auto simp: tfa_verify_def Let_def valid_code_state split: sum.split)

lemma deactivate_state:
  assumes "tfa_deactivate env userid response db = (r, db')"
  shows "v \<noteq> userid \<Longrightarrow> tfa_state v db' = tfa_state v db"
    and "r = Inr True \<Longrightarrow> tfa_state userid db' = (None, [])"
    and "r \<noteq> Inr True \<Longrightarrow> twofa_secret_of userid db' = twofa_secret_of userid db"
proof -
  obtain ok d where d: "tfa_verify env userid response True db = (ok, d)" by fastforce
  have state: "twofa_secret_of v d = twofa_secret_of v db" "v \<noteq> userid \<Longrightarrow> recovery_hashes v d = recovery_hashes v db" for v
    using verify_state [where env = env and userid = userid and response = response and consume = True and db = db and v = v] d
    by simp_all
  have r: "(r, db') = (case ok of Inl e \<Rightarrow> (Inl e, d) | Inr b \<Rightarrow> if b then (Inr True, force_deactivate userid d) else (Inr False, d))"
    using assms d by (auto simp: tfa_deactivate_def split: sum.split)
  show "v \<noteq> userid \<Longrightarrow> tfa_state v db' = tfa_state v db"
    using r state force_deactivate_state [of v userid d] by (auto simp: tfa_state_def split: sum.splits if_splits)
  show "r = Inr True \<Longrightarrow> tfa_state userid db' = (None, [])"
    using r by (auto simp: force_deactivate_state split: sum.splits if_splits)
  show "r \<noteq> Inr True \<Longrightarrow> twofa_secret_of userid db' = twofa_secret_of userid db"
    using r state by (auto split: sum.splits if_splits)
qed

lemma code_refused:
  assumes "fst (is_recovery_code_valid env userid code consume db) \<noteq> Inr True"
  shows "snd (is_recovery_code_valid env userid code consume db) = db"
proof -
  have "length code \<noteq> LENGTH_RECOVERY_CODE
      \<or> (\<forall>h. find_code env (str_upper env code) (recovery_hashes userid db) \<noteq> Inr (Some h))"
    using assms by (auto simp: is_recovery_code_valid_def)
  then show ?thesis
    by (auto simp: is_recovery_code_valid_def split: sum.split option.split)
qed

lemma verify_refused:
  "fst (tfa_verify env userid response consume db) \<noteq> Inr True \<Longrightarrow> snd (tfa_verify env userid response consume db) = db"
  by (cases "length (filter (\<lambda>c. c \<noteq> CHR '' '') response) = LENGTH_TOTP_CODE")
    (simp_all add: tfa_verify_def Let_def code_refused split: sum.split if_splits)

lemma deactivate_refused:
  assumes "tfa_deactivate env userid response db = (r, db')" "r \<noteq> Inr True"
  shows "db' = db"
proof -
  obtain ok d where d: "tfa_verify env userid response True db = (ok, d)" by fastforce
  with assms have "ok \<noteq> Inr True \<and> db' = d"
    by (cases ok) (auto simp: tfa_deactivate_def split: if_splits)
  with d verify_refused [of env userid response True db] show ?thesis by simp
qed

text \<open>
  C24: Turning two-factor authentication on and off. \<open>activate\<close> succeeds only with a code for the secret,
  and then the account has it, and from then on a six-character response is accepted exactly when it is
  a code for that secret; without success nothing changes, and recovery codes are never touched by it.
  \<open>deactivate\<close> takes the secret and all recovery codes away exactly when the response is verified; a
  response that is refused, or fails, changes nothing, so no recovery code is lost to it. Both leave the
  secrets and codes of all other accounts alone.
\<close>

theorem tfa_lifecycle:
  assumes fernet: "fernet_decrypt env (fernet_encrypt env secret) = Inr secret"
      "encode_ascii (fernet_encrypt env secret) = Inr (fernet_encrypt env secret)"
    and account: "find (\<lambda>lo. lo_userid lo = userid) (t_login db) \<noteq> None"
    and on: "tfa_activate env userid secret response db = (r, db')"
    and off: "tfa_deactivate env userid answer db' = (r', db'')"
  shows "(r = Inr True \<longrightarrow> totp_verify env secret response 1 = Inr True \<and> is_2fa_enabled userid db' = Some True
      \<and> (\<forall>code consume. length (filter (\<lambda>c. c \<noteq> CHR '' '') code) = 6 \<longrightarrow>
           fst (tfa_verify env userid code consume db') = totp_verify env secret (filter (\<lambda>c. c \<noteq> CHR '' '') code) 0))
    \<and> (r \<noteq> Inr True \<longrightarrow> db' = db)
    \<and> recovery_hashes userid db' = recovery_hashes userid db
    \<and> (r' = Inr True \<longleftrightarrow> fst (tfa_verify env userid answer True db') = Inr True)
    \<and> (r' = Inr True \<longrightarrow> is_2fa_enabled userid db'' \<noteq> Some True \<and> recovery_hashes userid db'' = []
      \<and> get_number_of_recovery_codes userid db'' = 0)
    \<and> (r' \<noteq> Inr True \<longrightarrow> db'' = db')
    \<and> (\<forall>v. v \<noteq> userid \<longrightarrow> twofa_secret_of v db'' = twofa_secret_of v db \<and> recovery_hashes v db'' = recovery_hashes v db)"
proof -
  have activated: "r = Inr True \<Longrightarrow> totp_verify env secret response 1 = Inr True
      \<and> db' = set_twofa_secret userid (Some (fernet_encrypt env secret)) db"
    and failed: "r \<noteq> Inr True \<Longrightarrow> db' = db"
    using on by (auto simp: tfa_activate_def encrypt_totp_secret_def encode_ascii_def split: sum.splits if_splits)
  have secret: "r = Inr True \<Longrightarrow> twofa_secret_of userid db' = Some (fernet_encrypt env secret)"
    using activated account by (simp add: twofa_secret_set)
  have codes: "fst (tfa_verify env userid code consume db') = totp_verify env secret (filter (\<lambda>c. c \<noteq> CHR '' '') code) 0"
    if "r = Inr True" "length (filter (\<lambda>c. c \<noteq> CHR '' '') code) = 6" for code consume
    using secret [OF that(1)] that(2) fernet
    by (simp add: tfa_verify_def Let_def LENGTH_TOTP_CODE_def decrypt_totp_secret_def)
  have "r' = Inr True \<longleftrightarrow> fst (tfa_verify env userid answer True db') = Inr True"
    using off by (cases "tfa_verify env userid answer True db'"; cases "fst (tfa_verify env userid answer True db')")
      (auto simp: tfa_deactivate_def split: if_splits)
  moreover have "is_2fa_enabled userid db'' \<noteq> Some True \<and> recovery_hashes userid db'' = []
      \<and> get_number_of_recovery_codes userid db'' = 0" if "r' = Inr True"
    using deactivate_state(2) [OF off that]
    by (auto simp: tfa_state_def enabled_secret get_number_of_recovery_codes_def count_where_def recovery_hashes_def)
  moreover have "db'' = db'" if "r' \<noteq> Inr True"
    using deactivate_refused [OF off that] .
  moreover have "recovery_hashes userid db' = recovery_hashes userid db"
    using activated failed by (cases "r = Inr True") simp_all
  moreover have "twofa_secret_of v db'' = twofa_secret_of v db \<and> recovery_hashes v db'' = recovery_hashes v db" if "v \<noteq> userid" for v
  proof -
    have "twofa_secret_of v db' = twofa_secret_of v db \<and> recovery_hashes v db' = recovery_hashes v db"
      using activated failed that by (cases "r = Inr True") (simp_all add: twofa_secret_set)
    then show ?thesis using deactivate_state(1) [OF off that] by (simp add: tfa_state_def)
  qed
  ultimately show ?thesis using activated failed codes secret by (auto simp: enabled_secret)
qed


theorem tfa_lifecycle_witness:
  "let db = blank_db\<lparr>t_login := [\<lparr>lo_userid = 7, lo_login_name = ''fox'', lo_last_login = 0, lo_email = [], lo_twofa_secret = None,
         lo_ip_address_at_signup = None, lo_voucher = None, lo_last_read_updateid = None\<rparr>]\<rparr>;
       db' = snd (tfa_activate plain_env 7 ''SECRET99'' ''SECRET'' db)
   in is_2fa_enabled 7 db' = Some True \<and> fst (tfa_verify plain_env 7 ''SEC RET'' True db') = Inr True
      \<and> fst (tfa_verify plain_env 7 ''SECRE9'' True db') = Inr False
      \<and> snd (tfa_deactivate plain_env 7 ''SECRE9'' db') = db'"
proof -
  define db where "db = blank_db\<lparr>t_login := [\<lparr>lo_userid = 7, lo_login_name = ''fox'', lo_last_login = 0, lo_email = [],
    lo_twofa_secret = None, lo_ip_address_at_signup = None, lo_voucher = None, lo_last_read_updateid = None\<rparr>]\<rparr>"
  have fernet: "fernet_decrypt plain_env (fernet_encrypt plain_env ''SECRET99'') = Inr ''SECRET99''"
    "encode_ascii (fernet_encrypt plain_env ''SECRET99'') = Inr (fernet_encrypt plain_env ''SECRET99'')"
    by code_simp+
  have account: "find (\<lambda>lo. lo_userid lo = 7) (t_login db) \<noteq> None" by (simp add: db_def)
  have ok: "fst (tfa_activate plain_env 7 ''SECRET99'' ''SECRET'' db) = Inr True" unfolding db_def by code_simp
  obtain r db' where on: "tfa_activate plain_env 7 ''SECRET99'' ''SECRET'' db = (r, db')" by fastforce
  obtain r' db'' where off: "tfa_deactivate plain_env 7 ''SECRE9'' db' = (r', db'')" by fastforce
  have r: "r = Inr True" using on ok by simp
  have six: "length (filter (\<lambda>c. c \<noteq> CHR '' '') ''SEC RET'') = 6" "length (filter (\<lambda>c. c \<noteq> CHR '' '') ''SECRE9'') = 6" by code_simp+
  note life = tfa_lifecycle [OF fernet account on off]
  have verify: "is_2fa_enabled 7 db' = Some True \<and> (\<forall>code consume. length (filter (\<lambda>c. c \<noteq> CHR '' '') code) = 6 \<longrightarrow>
      fst (tfa_verify plain_env 7 code consume db') = totp_verify plain_env ''SECRET99'' (filter (\<lambda>c. c \<noteq> CHR '' '') code) 0)"
    using life r by blast
  have "totp_verify plain_env ''SECRET99'' (filter (\<lambda>c. c \<noteq> CHR '' '') ''SEC RET'') 0 = Inr True"
    "totp_verify plain_env ''SECRET99'' (filter (\<lambda>c. c \<noteq> CHR '' '') ''SECRE9'') 0 = Inr False"
    by code_simp+
  with verify six have "is_2fa_enabled 7 db' = Some True \<and> fst (tfa_verify plain_env 7 ''SEC RET'' True db') = Inr True
      \<and> fst (tfa_verify plain_env 7 ''SECRE9'' True db') = Inr False" by metis
  moreover have "db'' = db'"
  proof -
    have "length ''SECRE9'' = 6" "filter (\<lambda>c. c \<noteq> CHR '' '') ''SECRE9'' = ''SECRE9''" by code_simp+
    then have "fst (tfa_verify plain_env 7 ''SECRE9'' True db') = Inr False" using calculation by simp
    with life show ?thesis by simp
  qed
  ultimately show ?thesis unfolding Let_def db_def [symmetric] on off snd_conv by blast
qed

end
