(* ===== verification/Accounts.thy ===== *)
theory Accounts
  imports Two_Factor Prefix_Trie
begin

text \<open>
  Accounts and their names: \<open>create\<close>, \<open>verify\<close>, \<open>change_username\<close>, \<open>release_username\<close> and the changes of
  e-mail address of \<^verbatim>\<open>weasyl/login.py\<close>, with \<^verbatim>\<open>weasyl/useralias.py\<close> and \<open>normalize_address\<close> of
  \<^verbatim>\<open>weasyl/emailer.py\<close>. A name may belong to an account (\<open>login\<close>), to an alias (\<open>useralias\<close>), to an
  account waiting for verification (\<open>logincreate\<close>) or to the former name of an account
  (\<open>username_history\<close>, while \<open>active\<close>). \<open>now\<close> is the database's \<open>now()\<close>; \<open>token\<close> and \<open>salt\<close> are random
  texts; \<open>mail\<close> is the outcome of \<open>emailer.send\<close>, which may raise after the database was changed; bcrypt
  is the one of \<open>tfa_env\<close>. A transaction that raises leaves the tables as they were; the caches it has
  dropped stay dropped.
\<close>

subsection \<open>E-mail addresses\<close>

definition email_local_char :: "char \<Rightarrow> bool" where
  "email_local_char c = (let n = (of_char c :: int) in is_digit n \<or> is_lower n \<or> is_upper n \<or> c \<in> set ''_.+-'')"

definition email_host_char :: "char \<Rightarrow> bool" where
  "email_host_char c = (let n = (of_char c :: int) in is_digit n \<or> is_lower n \<or> is_upper n \<or> c = CHR ''-'')"

definition email_valid :: "string \<Rightarrow> bool" where
  "email_valid address =
     (case split_on (CHR ''@'') address of
        [local_part, domain] \<Rightarrow>
          local_part \<noteq> [] \<and> list_all email_local_char local_part
          \<and> (let host = takeWhile (\<lambda>c. c \<noteq> CHR ''.'') domain; rest = dropWhile (\<lambda>c. c \<noteq> CHR ''.'') domain
             in host \<noteq> [] \<and> list_all email_host_char host
                \<and> length rest \<ge> 2 \<and> list_all (\<lambda>c. email_host_char c \<or> c = CHR ''.'') rest)
      | _ \<Rightarrow> False)"

definition lower_ascii :: "string \<Rightarrow> string" where
  "lower_ascii s = to_string (ascii_lower (ustr s))"

definition normalize_address :: "string \<Rightarrow> string option" where
  "normalize_address address =
     (let address = strip address
      in if \<not> email_valid address then None
         else (case split_on (CHR ''@'') address of
                 local_part # domain # _ \<Rightarrow> Some (local_part @ ''@'' @ lower_ascii domain)
               | _ \<Rightarrow> None))"

definition is_email_blacklisted :: "string trie \<Rightarrow> string \<Rightarrow> bool" where
  "is_email_blacklisted disposable_domains address =
     contains_prefix_of disposable_domains (rev (split_on (CHR ''.'') (last (split_on (CHR ''@'') address))))"

subsection \<open>Creating an account\<close>

definition password_secure :: "string \<Rightarrow> bool" where
  "password_secure password = (length password \<ge> 10)"

definition delete_expired :: "int \<Rightarrow> 'a accounts_db_scheme \<Rightarrow> 'a accounts_db_scheme" where
  "delete_expired now db = db\<lparr>t_logincreate := delete_where (\<lambda>lc. lc_created_at lc < now - 2 * 86400) (t_logincreate db)\<rparr>"

definition email_exists :: "string \<Rightarrow> 'a accounts_db_scheme \<Rightarrow> bool" where
  "email_exists email db =
     (exists_where (\<lambda>lo. lo_email lo = email) (t_login db) \<or> exists_where (\<lambda>lc. lc_email lc = email) (t_logincreate db))"

definition username_exists :: "string \<Rightarrow> 'a accounts_db_scheme \<Rightarrow> bool" where
  "username_exists login_name db =
     (exists_where (\<lambda>lo. lo_login_name lo = login_name) (t_login db)
      \<or> exists_where (\<lambda>al. al_alias_name al = login_name) (t_useralias db)
      \<or> exists_where (\<lambda>lc. lc_login_name lc = login_name) (t_logincreate db)
      \<or> exists_where (\<lambda>uh. uh_active uh \<and> uh_login_name uh = login_name) (t_username_history db))"

definition insert_logincreate :: "logincreate_row \<Rightarrow> 'a accounts_db_scheme \<Rightarrow> unit result \<times> 'a accounts_db_scheme" where
  "insert_logincreate row db =
     (if exists_where (\<lambda>lc. lc_token lc = lc_token row \<or> lc_login_name lc = lc_login_name row \<or> lc_email lc = lc_email row)
           (t_logincreate db)
      then (Inl IntegrityError, db)
      else (Inr (), db\<lparr>t_logincreate := t_logincreate db @ [row]\<rparr>))"

record signup_form =
  sf_username :: ustr
  sf_email :: string
  sf_password :: string
  sf_age :: "string option"

definition account_create ::
  "(ustr \<Rightarrow> ustr) \<Rightarrow> (ustr \<Rightarrow> ustr) \<Rightarrow> tfa_env \<Rightarrow> string trie \<Rightarrow> int \<Rightarrow> string \<Rightarrow> string \<Rightarrow> unit result \<Rightarrow> signup_form
     \<Rightarrow> 'a accounts_db_scheme \<Rightarrow> unit result \<times> 'a accounts_db_scheme" where
  "account_create lower nfkd env disposable_domains now token salt mail form db =
     (case username_create lower nfkd (sf_username form) of
        Inl e \<Rightarrow> (Inl e, db)
      | Inr username \<Rightarrow>
          if sf_age form \<noteq> Some ''13+'' then (Inl (WeasylError ''birthdayInvalid''), db)
          else if \<not> password_secure (sf_password form) then (Inl (WeasylError ''passwordInsecure''), db)
          else
            (case normalize_address (sf_email form) of
               None \<Rightarrow> (Inl (WeasylError ''emailInvalid''), db)
             | Some email \<Rightarrow>
                 if is_email_blacklisted disposable_domains email then (Inl (WeasylError ''emailBlacklisted''), db)
                 else
                   (let db = delete_expired now db;
                        sysname = to_string (un_sysname username)
                    in if username_exists sysname db then (Inl (WeasylError ''usernameExists''), db)
                       else
                         (case hashpw env (sf_password form) salt of
                            Inl e \<Rightarrow> (Inl e, db)
                          | Inr hashpass \<Rightarrow>
                              let taken = email_exists email db
                              in and_then (insert_logincreate
                                   \<lparr>lc_token = token, lc_username = to_string (un_display username), lc_login_name = sysname,
                                    lc_hashpass = hashpass, lc_email = (if taken then token else email),
                                    lc_created_at = now, lc_invalid = taken,
                                    lc_invalid_email_addr = (if taken then Some email else None),
                                    lc_ip_address_signup_request = None\<rparr> db)
                                   (\<lambda>_ db. (mail, db))))))"

definition initial_profile :: "int \<Rightarrow> int \<Rightarrow> string \<Rightarrow> profile_row" where
  "initial_profile now userid username =
     \<lparr>pr_userid = userid, pr_username = username, pr_full_name = username, pr_catchphrase = [], pr_artist_type = [],
      pr_created_at = now, pr_latest_submission_time = 0, pr_profile_text = [], pr_settings = ''ccci'',
      pr_commissions_status = Some PS_closed, pr_trades_status = Some PS_closed, pr_requests_status = Some PS_closed,
      pr_streaming_later = Some False, pr_stream_url = [], pr_page_views = 0, pr_config = ''kscftj'',
      pr_show_age = Some False, pr_can_suggest_tags = True, pr_premium = False,
      pr_favorites_visibility = Some Perm_everyone, pr_favorites_bar = Some True, pr_shouts_from = Some Perm_everyone,
      pr_messages_from = Some Perm_everyone, pr_profile_guests = Some True, pr_profile_stats = Some True,
      pr_max_rating = Some Rating_general, pr_watch_defaults = Some ''scftj'', pr_thumbnail_bar = Some TB_submissions,
      pr_jsonb_settings = None, pr_allow_collection_requests = Some True, pr_collection_notifs = Some True,
      pr_custom_thumbs = Some True, pr_stream_text = None\<rparr>"

text \<open>The transaction of \<open>verify\<close>: the unique keys are \<open>login_name\<close> and \<open>profile.username\<close>.\<close>

definition verify_transaction ::
  "int \<Rightarrow> string option \<Rightarrow> int option \<Rightarrow> string \<Rightarrow> string \<Rightarrow> logincreate_row \<Rightarrow> 'a accounts_db_scheme
     \<Rightarrow> unit result \<times> 'a accounts_db_scheme" where
  "verify_transaction now ip_address latest_updateid sysname display query db =
     (let userid = login_seq db
      in if exists_where (\<lambda>lo. lo_login_name lo = sysname) (t_login db)
            \<or> exists_where (\<lambda>pr. pr_username pr = display) (t_profile db)
         then (Inl IntegrityError, db)
         else
           (Inr (),
            db\<lparr>t_login := t_login db @
                 [\<lparr>lo_userid = userid, lo_login_name = sysname, lo_last_login = now, lo_email = lc_email query,
                   lo_twofa_secret = None, lo_ip_address_at_signup = ip_address, lo_voucher = None,
                   lo_last_read_updateid = latest_updateid\<rparr>],
               login_seq := userid + 1,
               t_authbcrypt := t_authbcrypt db @ [\<lparr>ab_userid = userid, ab_hashsum = lc_hashpass query\<rparr>],
               t_profile := t_profile db @ [initial_profile now userid display],
               t_userinfo := t_userinfo db @
                 [\<lparr>ui_userid = userid, ui_birthday = None, ui_asserted_adult = False, ui_gender = [], ui_country = []\<rparr>],
               t_logincreate := delete_where (\<lambda>lc. lc_token lc = lc_token query) (t_logincreate db)\<rparr>))"

definition account_verify ::
  "(ustr \<Rightarrow> ustr) \<Rightarrow> int \<Rightarrow> string \<Rightarrow> string option \<Rightarrow> 'a content_db_scheme \<Rightarrow> unit result \<times> 'a content_db_scheme" where
  "account_verify lower now token ip_address db =
     (let db = delete_expired now db
      in case find (\<lambda>lc. lc_token lc = token) (t_logincreate db) of
           None \<Rightarrow> (Inl (WeasylError ''logincreateRecordMissing''), db)
         | Some query \<Rightarrow>
             if lc_invalid query then (Inl (WeasylError ''logincreateRecordMissing''), db)
             else
               (case from_stored lower (ustr (lc_username query)) of
                  Inl e \<Rightarrow> (Inl e, db)
                | Inr username \<Rightarrow>
                    let (updateids, db) = get_updateids db;
                        latest_updateid = (case updateids of [] \<Rightarrow> None | u # _ \<Rightarrow> Some u)
                    in verify_transaction now ip_address latest_updateid (to_string (un_sysname username))
                         (to_string (un_display username)) query db))"

subsection \<open>Changing a name\<close>

definition get_username :: "(ustr \<Rightarrow> ustr) \<Rightarrow> int \<Rightarrow> 'a accounts_db_scheme \<Rightarrow> Username result \<times> 'a accounts_db_scheme" where
  "get_username lower userid db =
     and_then (get_display_name userid db) (\<lambda>username db. (from_stored lower (ustr username), db))"

definition release_rows :: "int \<Rightarrow> int \<Rightarrow> int \<Rightarrow> username_history_row list \<Rightarrow> username_history_row list" where
  "release_rows now acting_user target_user rows =
     update_where (\<lambda>uh. uh_userid uh = target_user \<and> uh_active uh)
       (\<lambda>uh. uh\<lparr>uh_active := False, uh_deactivated_at := Some now, uh_deactivated_by := Some acting_user\<rparr>) rows"

definition release_username :: "int \<Rightarrow> int \<Rightarrow> int \<Rightarrow> 'a accounts_db_scheme \<Rightarrow> 'a accounts_db_scheme" where
  "release_username now acting_user target_user db =
     (let old_sysname = map_option uh_login_name (find (\<lambda>uh. uh_userid uh = target_user \<and> uh_active uh) (t_username_history db));
          db = db\<lparr>t_username_history := release_rows now acting_user target_user (t_username_history db)\<rparr>
      in case old_sysname of None \<Rightarrow> db | Some name \<Rightarrow> userids_invalidate name db)"

text \<open>Seconds since the last change of the name that was not only cosmetic.\<close>

definition since_last_change :: "int \<Rightarrow> int \<Rightarrow> 'a accounts_db_scheme \<Rightarrow> int option" where
  "since_last_change now target_user db =
     (case rev (sort_key uh_historyid (filter (\<lambda>uh. uh_userid uh = target_user \<and> \<not> uh_cosmetic uh) (t_username_history db))) of
        [] \<Rightarrow> None
      | uh # _ \<Rightarrow> Some (now - uh_replaced_at uh))"

definition name_conflict :: "int \<Rightarrow> string \<Rightarrow> 'a accounts_db_scheme \<Rightarrow> bool" where
  "name_conflict target_user new_sysname db =
     (exists_where (\<lambda>lo. lo_login_name lo = new_sysname \<and> lo_userid lo \<noteq> target_user) (t_login db)
      \<or> exists_where (\<lambda>al. al_alias_name al = new_sysname) (t_useralias db)
      \<or> exists_where (\<lambda>lc. lc_login_name lc = new_sysname) (t_logincreate db)
      \<or> exists_where (\<lambda>uh. uh_active uh \<and> uh_login_name uh = new_sysname) (t_username_history db))"

definition add_history ::
  "int \<Rightarrow> int \<Rightarrow> string \<Rightarrow> string \<Rightarrow> bool \<Rightarrow> 'a accounts_db_scheme \<Rightarrow> unit result \<times> 'a accounts_db_scheme" where
  "add_history now target_user old_username old_sysname cosmetic db =
     (if \<not> cosmetic \<and> exists_where (\<lambda>uh. uh_active uh \<and> (uh_userid uh = target_user \<or> uh_login_name uh = old_sysname))
                        (t_username_history db)
      then (Inl IntegrityError, db)
      else
        (Inr (),
         db\<lparr>t_username_history := t_username_history db @
              [\<lparr>uh_historyid = history_seq db, uh_userid = target_user, uh_username = old_username,
                uh_login_name = old_sysname, uh_replaced_at = now, uh_replaced_by = target_user,
                uh_active = (\<not> cosmetic), uh_deactivated_at = None, uh_deactivated_by = None, uh_cosmetic = cosmetic\<rparr>],
            history_seq := history_seq db + 1\<rparr>))"

definition rename_login :: "int \<Rightarrow> string \<Rightarrow> string \<Rightarrow> 'a accounts_db_scheme \<Rightarrow> unit result \<times> 'a accounts_db_scheme" where
  "rename_login target_user old_sysname new_sysname db =
     (let hit = (\<lambda>lo. lo_userid lo = target_user \<and> lo_login_name lo = old_sysname)
      in if exists_where hit (t_login db) \<and> exists_where (\<lambda>lo. \<not> hit lo \<and> lo_login_name lo = new_sysname) (t_login db)
         then (Inl IntegrityError, db)
         else if count_where hit (t_login db) \<noteq> 1 then (Inl (WeasylError ''Unexpected''), db)
         else (Inr (), db\<lparr>t_login := update_where hit (\<lambda>lo. lo\<lparr>lo_login_name := new_sysname\<rparr>) (t_login db)\<rparr>))"

definition rename_profile :: "int \<Rightarrow> string \<Rightarrow> 'a accounts_db_scheme \<Rightarrow> unit result \<times> 'a accounts_db_scheme" where
  "rename_profile target_user new_username db =
     (if exists_where (\<lambda>pr. pr_userid pr = target_user) (t_profile db)
         \<and> exists_where (\<lambda>pr. pr_userid pr \<noteq> target_user \<and> pr_username pr = new_username) (t_profile db)
      then (Inl IntegrityError, db)
      else (Inr (), db\<lparr>t_profile := update_where (\<lambda>pr. pr_userid pr = target_user)
                           (\<lambda>pr. pr\<lparr>pr_username := new_username\<rparr>) (t_profile db)\<rparr>))"

definition change_username_transaction ::
  "int \<Rightarrow> int \<Rightarrow> int \<Rightarrow> bool \<Rightarrow> bool \<Rightarrow> Username \<Rightarrow> Username \<Rightarrow> 'a accounts_db_scheme
     \<Rightarrow> unit result \<times> 'a accounts_db_scheme" where
  "change_username_transaction now acting_user target_user bypass_limit cosmetic old_username new_username db =
     (let old_sysname = to_string (un_sysname old_username);
          new_sysname = to_string (un_sysname new_username)
      in if \<not> cosmetic \<and> \<not> bypass_limit
            \<and> (case since_last_change now target_user db of None \<Rightarrow> False | Some seconds \<Rightarrow> seconds div (3600 * 24) < 30)
         then (Inl (WeasylError ''usernameChangedTooRecently''), db)
         else
           (let db = (if cosmetic then db else release_username now acting_user target_user db)
            in if \<not> cosmetic \<and> name_conflict target_user new_sysname db then (Inl (WeasylError ''usernameExists''), db)
               else
                 and_then (add_history now target_user (to_string (un_display old_username)) old_sysname cosmetic db) (\<lambda>_ db.
                   and_then (if cosmetic then (Inr (), db) else rename_login target_user old_sysname new_sysname db) (\<lambda>_ db.
                     rename_profile target_user (to_string (un_display new_username)) db))))"

text \<open>The tables after a rolled back transaction, with the caches as they are now.\<close>

definition rollback :: "'a accounts_db_scheme \<Rightarrow> 'a accounts_db_scheme \<Rightarrow> 'a accounts_db_scheme" where
  "rollback before after = before\<lparr>c_userids := c_userids after\<rparr>"

definition change_username ::
  "(ustr \<Rightarrow> ustr) \<Rightarrow> (ustr \<Rightarrow> ustr) \<Rightarrow> int \<Rightarrow> int \<Rightarrow> int \<Rightarrow> bool \<Rightarrow> ustr \<Rightarrow> 'a accounts_db_scheme
     \<Rightarrow> unit result \<times> 'a accounts_db_scheme" where
  "change_username lower nfkd now acting_user target_user bypass_limit new_username db =
     (case username_create lower nfkd new_username of
        Inl e \<Rightarrow> (Inl e, db)
      | Inr new_username \<Rightarrow>
          and_then (get_username lower target_user db) (\<lambda>old_username db.
            if un_display new_username = un_display old_username then (Inr (), db)
            else
              (let cosmetic = (un_sysname new_username = un_sysname old_username)
               in case change_username_transaction now acting_user target_user bypass_limit cosmetic
                         old_username new_username db of
                    (Inl e, after) \<Rightarrow> (Inl e, rollback db after)
                  | (Inr _, db) \<Rightarrow>
                      (let db = username_invalidate target_user db
                       in (Inr (), if cosmetic then db
                                   else userids_invalidate (to_string (un_sysname old_username)) db)))))"

subsection \<open>Aliases\<close>

definition alias_select :: "int \<Rightarrow> 'a accounts_db_scheme \<Rightarrow> string option" where
  "alias_select userid db =
     map_option al_alias_name (find (\<lambda>al. al_userid al = userid \<and> has_flag (CHR ''p'') (al_settings al)) (t_useralias db))"

definition alias_set :: "int \<Rightarrow> string \<Rightarrow> 'a accounts_db_scheme \<Rightarrow> unit result \<times> 'a accounts_db_scheme" where
  "alias_set userid username db =
     (if username \<noteq> [] \<and> username_exists username db then (Inl (WeasylError ''usernameExists''), db)
      else
        and_then (get_premium userid db) (\<lambda>premium db.
          if \<not> premium then (Inl (WeasylError ''InsufficientPermissions''), db)
          else
            (let db = db\<lparr>t_useralias := delete_where (\<lambda>al. al_userid al = userid \<and> has_flag (CHR ''p'') (al_settings al))
                           (t_useralias db)\<rparr>
             in if username = [] then (Inr (), db)
                else if exists_where (\<lambda>al. al_alias_name al = username) (t_useralias db) then (Inl IntegrityError, db)
                else (Inr (), db\<lparr>t_useralias := t_useralias db @
                                  [\<lparr>al_userid = userid, al_alias_name = username, al_settings = ''p''\<rparr>]\<rparr>))))"

subsection \<open>Changing the e-mail address\<close>

definition authenticate_account_change :: "tfa_env \<Rightarrow> int \<Rightarrow> string \<Rightarrow> 'a accounts_db_scheme \<Rightarrow> string result" where
  "authenticate_account_change env userid password db =
     (case (find (\<lambda>lo. lo_userid lo = userid) (t_login db), find (\<lambda>ab. ab_userid ab = userid) (t_authbcrypt db)) of
        (Some lo, Some ab) \<Rightarrow>
          (case checkpw env password (ab_hashsum ab) of
             Inl e \<Rightarrow> Inl e
           | Inr ok \<Rightarrow> if ok then Inr (lo_email lo) else Inl (WeasylError ''passwordIncorrect''))
      | _ \<Rightarrow> Inl AttributeError)"

definition verify_email_change :: "int \<Rightarrow> int \<Rightarrow> string \<Rightarrow> 'a accounts_db_scheme \<Rightarrow> string result \<times> 'a accounts_db_scheme" where
  "verify_email_change now userid token db =
     (if userid = 0 \<or> token = [] then (Inl (WeasylError ''Unexpected''), db)
      else
        (let db = db\<lparr>t_emailverify := delete_where (\<lambda>ev. ev_createtimestamp ev < now - 2 * 86400) (t_emailverify db)\<rparr>;
             hit = (\<lambda>ev. ev_userid ev = userid \<and> ev_token ev = token);
             query_result = map_option ev_email (find hit (t_emailverify db));
             db = db\<lparr>t_emailverify := delete_where hit (t_emailverify db)\<rparr>
         in case query_result of
              None \<Rightarrow> (Inl (WeasylError ''ChangeEmailVerificationTokenIncorrect''), db)
            | Some email \<Rightarrow>
                if email = [] then (Inl (WeasylError ''ChangeEmailVerificationTokenIncorrect''), db)
                else (Inr email, db\<lparr>t_login := update_where (\<lambda>lo. lo_userid lo = userid)
                                     (\<lambda>lo. lo\<lparr>lo_email := email\<rparr>) (t_login db)\<rparr>)))"



section \<open>Facts\<close>

subsection \<open>Every name belongs to one account\<close>

definition active_history :: "'a accounts_db_scheme \<Rightarrow> username_history_row list" where
  "active_history db = filter uh_active (t_username_history db)"

definition taken_names :: "'a accounts_db_scheme \<Rightarrow> string list" where
  "taken_names db =
     map lo_login_name (t_login db) @ map al_alias_name (t_useralias db) @ map lc_login_name (t_logincreate db)
     @ map uh_login_name (active_history db)"

definition names_ok :: "(ustr \<Rightarrow> ustr) \<Rightarrow> 'a accounts_db_scheme \<Rightarrow> bool" where
  "names_ok lower db \<longleftrightarrow>
     distinct (taken_names db) \<and> distinct (map lo_userid (t_login db)) \<and> (\<forall>lo \<in> set (t_login db). lo_userid lo < login_seq db)
     \<and> distinct (map uh_userid (active_history db))
     \<and> (\<forall>lc \<in> set (t_logincreate db). to_string (get_sysname_unchecked lower (ustr (lc_username lc))) = lc_login_name lc)"

lemma names_okI:
  assumes "distinct (map lo_login_name (t_login db))" "distinct (map al_alias_name (t_useralias db))"
    "distinct (map lc_login_name (t_logincreate db))" "distinct (map uh_login_name (active_history db))"
    "lo_login_name ` set (t_login db) \<inter> al_alias_name ` set (t_useralias db) = {}"
    "lo_login_name ` set (t_login db) \<inter> lc_login_name ` set (t_logincreate db) = {}"
    "lo_login_name ` set (t_login db) \<inter> uh_login_name ` set (active_history db) = {}"
    "al_alias_name ` set (t_useralias db) \<inter> lc_login_name ` set (t_logincreate db) = {}"
    "al_alias_name ` set (t_useralias db) \<inter> uh_login_name ` set (active_history db) = {}"
    "lc_login_name ` set (t_logincreate db) \<inter> uh_login_name ` set (active_history db) = {}"
    "distinct (map lo_userid (t_login db))" "\<forall>lo \<in> set (t_login db). lo_userid lo < login_seq db"
    "distinct (map uh_userid (active_history db))"
    "\<forall>lc \<in> set (t_logincreate db). to_string (get_sysname_unchecked lower (ustr (lc_username lc))) = lc_login_name lc"
  shows "names_ok lower db"
  using assms unfolding names_ok_def taken_names_def by (simp add: Int_Un_distrib)

lemma names_okD:
  assumes "names_ok lower db"
  shows "distinct (map lo_login_name (t_login db))" "distinct (map al_alias_name (t_useralias db))"
    "distinct (map lc_login_name (t_logincreate db))" "distinct (map uh_login_name (active_history db))"
    "lo_login_name ` set (t_login db) \<inter> al_alias_name ` set (t_useralias db) = {}"
    "lo_login_name ` set (t_login db) \<inter> lc_login_name ` set (t_logincreate db) = {}"
    "lo_login_name ` set (t_login db) \<inter> uh_login_name ` set (active_history db) = {}"
    "al_alias_name ` set (t_useralias db) \<inter> lc_login_name ` set (t_logincreate db) = {}"
    "al_alias_name ` set (t_useralias db) \<inter> uh_login_name ` set (active_history db) = {}"
    "lc_login_name ` set (t_logincreate db) \<inter> uh_login_name ` set (active_history db) = {}"
    "distinct (map lo_userid (t_login db))" "\<forall>lo \<in> set (t_login db). lo_userid lo < login_seq db"
    "distinct (map uh_userid (active_history db))"
    "\<forall>lc \<in> set (t_logincreate db). to_string (get_sysname_unchecked lower (ustr (lc_username lc))) = lc_login_name lc"
  using assms unfolding names_ok_def taken_names_def by (auto simp: Int_Un_distrib)

text \<open>Statements that change no names, and statements that only give names up.\<close>

definition same_names :: "'a accounts_db_scheme \<Rightarrow> 'a accounts_db_scheme \<Rightarrow> bool" where
  "same_names db db' \<longleftrightarrow> t_login db' = t_login db \<and> t_useralias db' = t_useralias db \<and> t_logincreate db' = t_logincreate db
     \<and> t_username_history db' = t_username_history db \<and> login_seq db' = login_seq db"

lemma same_names_ok: "same_names db db' \<Longrightarrow> names_ok lower db' = names_ok lower db"
  by (simp add: same_names_def names_ok_def taken_names_def active_history_def)

lemma disjoint_within: "A \<inter> B = {} \<Longrightarrow> A' \<subseteq> A \<Longrightarrow> B' \<subseteq> B \<Longrightarrow> A' \<inter> B' = {}"
  by blast

lemma names_given_up:
  assumes "names_ok lower db" "set (t_useralias db') \<subseteq> set (t_useralias db)" "set (t_logincreate db') \<subseteq> set (t_logincreate db)"
    and "set (active_history db') \<subseteq> set (active_history db)"
    and "distinct (map al_alias_name (t_useralias db'))" "distinct (map lc_login_name (t_logincreate db'))"
      "distinct (map uh_login_name (active_history db'))" "distinct (map uh_userid (active_history db'))"
    and "t_login db' = t_login db" "login_seq db' = login_seq db"
  shows "names_ok lower db'"
proof -
  note ok = names_okD [OF assms(1)]
  have sub: "al_alias_name ` set (t_useralias db') \<subseteq> al_alias_name ` set (t_useralias db)"
    "lc_login_name ` set (t_logincreate db') \<subseteq> lc_login_name ` set (t_logincreate db)"
    "uh_login_name ` set (active_history db') \<subseteq> uh_login_name ` set (active_history db)"
    using assms(2-4) by blast+
  have logins: "lo_login_name ` set (t_login db') \<subseteq> lo_login_name ` set (t_login db)" using assms(9) by simp
  show ?thesis
    by (rule names_okI [OF _ assms(5-7) disjoint_within [OF ok(5) logins sub(1)] disjoint_within [OF ok(6) logins sub(2)]
          disjoint_within [OF ok(7) logins sub(3)] disjoint_within [OF ok(8) sub(1,2)] disjoint_within [OF ok(9) sub(1,3)]
          disjoint_within [OF ok(10) sub(2,3)] _ _ assms(8)])
       (use assms(3,9,10) ok(1,11,12,14) in auto)
qed

lemma names_ok_expired:
  assumes "names_ok lower db"
  shows "names_ok lower (delete_expired now db)"
  by (rule names_given_up [OF assms])
     (use names_okD [OF assms] in \<open>simp_all add: delete_expired_def active_history_def distinct_map_delete_where table_simps\<close>)

lemma active_release:
  "filter uh_active (release_rows now acting target rows) = filter (\<lambda>uh. uh_active uh \<and> uh_userid uh \<noteq> target) rows"
  by (induction rows) (auto simp: release_rows_def update_where_def)

lemma active_after_release:
  "active_history (release_username now acting target db) = filter (\<lambda>uh. uh_userid uh \<noteq> target) (active_history db)"
  by (simp add: release_username_def active_history_def Let_def active_release userids_invalidate_def store_userid_def conj_commute
      split: option.split)

lemma release_frame:
  "t_login (release_username now acting target db) = t_login db" "t_useralias (release_username now acting target db) = t_useralias db"
  "t_logincreate (release_username now acting target db) = t_logincreate db" "login_seq (release_username now acting target db) = login_seq db"
  "t_profile (release_username now acting target db) = t_profile db" "history_seq (release_username now acting target db) = history_seq db"
  by (simp_all add: release_username_def Let_def userids_invalidate_def store_userid_def split: option.split)

lemma names_ok_release:
  assumes "names_ok lower db"
  shows "names_ok lower (release_username now acting target db)"
  by (rule names_given_up [OF assms])
     (use names_okD [OF assms] in \<open>simp_all add: release_frame active_after_release distinct_map_filter\<close>)


lemma username_exists_iff: "username_exists name db \<longleftrightarrow> name \<in> set (taken_names db)"
  by (auto simp: username_exists_def taken_names_def active_history_def exists_where_iff)

lemma names_ok_pending:
  assumes "names_ok lower db" "\<not> username_exists (lc_login_name row) db"
    and "to_string (get_sysname_unchecked lower (ustr (lc_username row))) = lc_login_name row"
  shows "names_ok lower (snd (insert_logincreate row db))"
proof -
  have free: "lc_login_name row \<notin> set (taken_names db)" using assms(2) by (simp add: username_exists_iff)
  have "names_ok lower (db\<lparr>t_logincreate := t_logincreate db @ [row]\<rparr>)"
    using assms(1,3) free unfolding names_ok_def taken_names_def active_history_def by simp
  then show ?thesis using assms(1) by (simp add: insert_logincreate_def)
qed

lemma names_ok_alias:
  assumes "names_ok lower db" "\<not> username_exists (al_alias_name row) db"
  shows "names_ok lower (db\<lparr>t_useralias := t_useralias db @ [row]\<rparr>)"
proof -
  have "al_alias_name row \<notin> set (taken_names db)" using assms(2) by (simp add: username_exists_iff)
  with assms(1) show ?thesis unfolding names_ok_def taken_names_def active_history_def by simp
qed

lemma char_roundtrip: "list_all (\<lambda>c. 0 \<le> c \<and> c < 256) s \<Longrightarrow> ustr (to_string s) = s"
proof (induction s)
  case (Cons c s)
  then have "nat c < 256" "0 \<le> c" by auto
  then have "int (of_char (char_of (nat c)) :: nat) = c" by simp
  then have "of_char (char_of (nat c) :: char) = c" by (simp only: of_nat_of_char)
  with Cons show ?case by (simp add: ustr_def to_string_def)
qed (simp add: ustr_def to_string_def)

lemma username_create_facts:
  assumes "username_create lower nfkd text = Inr u"
  shows "ustr (to_string (un_display u)) = un_display u" "un_sysname u = get_sysname_unchecked lower (un_display u)"
proof -
  define cleaned where "cleaned = join [32] (filter (\<lambda>w. w \<noteq> []) (map (filter username_char) (split_white (nfkd text))))"
  have u: "un_display u = cleaned" "un_sysname u = get_sysname_unchecked lower cleaned"
    using assms unfolding cleaned_def by (auto simp: username_create_def Let_def split: if_splits)
  have "list_all is_ascii cleaned" unfolding cleaned_def by (rule cleaned_ascii)
  moreover have "is_ascii c \<Longrightarrow> 0 \<le> c \<and> c < 256" for c by (auto simp: is_ascii_def)
  ultimately show "ustr (to_string (un_display u)) = un_display u"
    unfolding u by (intro char_roundtrip) (auto simp: list_all_iff)
  show "un_sysname u = get_sysname_unchecked lower (un_display u)" using u by simp
qed

lemma names_ok_create:
  assumes "names_ok lower db"
  shows "names_ok lower (snd (account_create lower nfkd env dis now token salt mail form db))"
proof (cases "username_create lower nfkd (sf_username form)")
  case (Inr u)
  define d where "d = delete_expired now db"
  have d: "names_ok lower d" unfolding d_def by (rule names_ok_expired [OF assms])
  have "names_ok lower (snd (and_then (insert_logincreate row d) (\<lambda>_ db. (mail, db))))"
    if "lc_login_name row = to_string (un_sysname u)" "lc_username row = to_string (un_display u)"
      "\<not> username_exists (to_string (un_sysname u)) d" for row
    using names_ok_pending [OF d, of row] that username_create_facts [OF Inr]
    by (cases "insert_logincreate row d"; cases "fst (insert_logincreate row d)") auto
  with Inr d assms show ?thesis
    by (auto simp: account_create_def Let_def d_def [symmetric] split: option.split sum.split)
qed (use assms in \<open>simp add: account_create_def\<close>)

lemma verified_names:
  assumes "names_ok lower db" "query \<in> set (t_logincreate db)" "sysname = lc_login_name query"
  shows "names_ok lower (snd (verify_transaction now ip upd sysname display query db))"
proof -
  note ok = names_okD [OF assms(1)]
  define lo where "lo = \<lparr>lo_userid = login_seq db, lo_login_name = sysname, lo_last_login = now, lo_email = lc_email query,
    lo_twofa_secret = None, lo_ip_address_at_signup = ip, lo_voucher = None, lo_last_read_updateid = upd\<rparr>"
  define rest where "rest = delete_where (\<lambda>lc. lc_token lc = lc_token query) (t_logincreate db)"
  define db' where "db' = db\<lparr>t_login := t_login db @ [lo], login_seq := login_seq db + 1, t_logincreate := rest\<rparr>"
  have rest: "set rest \<subseteq> set (t_logincreate db) - {query}" "distinct (map lc_login_name rest)"
    using ok(3) by (auto simp: rest_def table_simps intro: distinct_map_delete_where)
  have sub: "lc_login_name ` set rest \<subseteq> lc_login_name ` set (t_logincreate db)" using rest(1) by blast
  have gone: "sysname \<notin> lc_login_name ` set rest"
  proof
    assume "sysname \<in> lc_login_name ` set rest"
    then obtain x where "x \<in> set rest" "lc_login_name x = lc_login_name query" using assms(3) by auto
    then show False using rest(1) distinct_map_inj [OF ok(3), of x query] assms(2) by auto
  qed
  have name: "sysname \<in> lc_login_name ` set (t_logincreate db)" using assms(2,3) by blast
  have "names_ok lower db'"
  proof (rule names_okI)
    show "distinct (map lo_login_name (t_login db'))"
      using ok(1,6) name by (auto simp: db'_def lo_def)
    show "lo_login_name ` set (t_login db') \<inter> al_alias_name ` set (t_useralias db') = {}"
      using ok(5,8) name by (auto simp: db'_def lo_def)
    show "lo_login_name ` set (t_login db') \<inter> lc_login_name ` set (t_logincreate db') = {}"
      using disjoint_within [OF ok(6) order_refl sub] gone by (simp add: db'_def lo_def)
    show "lo_login_name ` set (t_login db') \<inter> uh_login_name ` set (active_history db') = {}"
      using ok(7,10) name by (auto simp: db'_def lo_def active_history_def)
    show "al_alias_name ` set (t_useralias db') \<inter> lc_login_name ` set (t_logincreate db') = {}"
      using disjoint_within [OF ok(8) order_refl sub] by (simp add: db'_def)
    show "lc_login_name ` set (t_logincreate db') \<inter> uh_login_name ` set (active_history db') = {}"
      using disjoint_within [OF ok(10) sub order_refl] by (simp add: db'_def active_history_def)
  qed (use ok rest in \<open>auto simp: db'_def lo_def active_history_def\<close>)
  then show ?thesis
    using assms(1) by (auto simp: verify_transaction_def Let_def names_ok_def taken_names_def active_history_def db'_def lo_def rest_def)
qed


lemma get_updateids_same: "same_names db (snd (get_updateids db))"
  by (auto simp: get_updateids_def read_through_def same_names_def Let_def split: option.split)

lemma names_ok_verify:
  assumes "names_ok lower db"
  shows "names_ok lower (snd (account_verify lower now token ip db))"
proof -
  define d where "d = delete_expired now db"
  have d: "names_ok lower d" unfolding d_def by (rule names_ok_expired [OF assms])
  show ?thesis
  proof (cases "\<exists>query username. find (\<lambda>lc. lc_token lc = token) (t_logincreate d) = Some query \<and> \<not> lc_invalid query
      \<and> from_stored lower (ustr (lc_username query)) = Inr username")
    case False
    then show ?thesis
      using d by (auto simp: account_verify_def d_def [symmetric] Let_def split: option.split sum.split)
  next
    case True
    then obtain query username where q: "find (\<lambda>lc. lc_token lc = token) (t_logincreate d) = Some query" "\<not> lc_invalid query"
      "from_stored lower (ustr (lc_username query)) = Inr username" by blast
    obtain ids e where e: "get_updateids d = (ids, e)" by fastforce
    then have same: "same_names d e" using get_updateids_same [of d] by simp
    have query: "query \<in> set (t_logincreate e)" using find_SomeD [OF q(1)] same by (simp add: same_names_def)
    have "un_sysname username = get_sysname_unchecked lower (ustr (lc_username query))"
      using q(3) by (auto simp: from_stored_def Let_def split: if_splits)
    then have "to_string (un_sysname username) = lc_login_name query"
      using names_okD(14) [OF d] find_SomeD [OF q(1)] by simp
    with verified_names [OF _ query] same_names_ok [OF same] d
    have "names_ok lower (snd (verify_transaction now ip upd (to_string (un_sysname username)) display query e))" for upd display
      by metis
    then show ?thesis using q e by (simp add: account_verify_def d_def [symmetric] Let_def)
  qed
qed

lemma rename_names:
  assumes "distinct (map lo_login_name rows)" "x \<in> set rows" "lo_userid x = target" "lo_login_name x = old" "distinct (map lo_userid rows)"
  shows "map lo_login_name (update_where (\<lambda>lo. lo_userid lo = target \<and> lo_login_name lo = old) (\<lambda>lo. lo\<lparr>lo_login_name := new\<rparr>) rows)
    = map (\<lambda>n. if n = old then new else n) (map lo_login_name rows)"
proof -
  have "lo_userid r = target" if "r \<in> set rows" "lo_login_name r = old" for r
    using distinct_map_inj [OF assms(1), of r x] that assms(2-4) by metis
  then show ?thesis by (auto simp: update_where_def)
qed

lemma distinct_replaced:
  "distinct xs \<Longrightarrow> new \<notin> set xs - {old} \<Longrightarrow> distinct (map (\<lambda>n. if n = old then new else n) xs)"
  by (induction xs) (auto split: if_splits)

text \<open>What a successful transaction did to a name that changed in more than its looks.\<close>

lemma transaction_ok:
  assumes "change_username_transaction now acting target bypass False old_username new_username db = (Inr (), db')"
    and ok: "names_ok lower db"
  obtains x where "x \<in> set (t_login db)" "lo_userid x = target" "lo_login_name x = to_string (un_sysname old_username)"
    "map lo_login_name (t_login db')
       = map (\<lambda>n. if n = to_string (un_sysname old_username) then to_string (un_sysname new_username) else n) (map lo_login_name (t_login db))"
    "map lo_userid (t_login db') = map lo_userid (t_login db)" "login_seq db' = login_seq db"
    "t_useralias db' = t_useralias db" "t_logincreate db' = t_logincreate db"
    "\<exists>uh. active_history db' = filter (\<lambda>uh. uh_userid uh \<noteq> target) (active_history db) @ [uh]
       \<and> uh_userid uh = target \<and> uh_login_name uh = to_string (un_sysname old_username)"
    "c_userids db' = c_userids (release_username now acting target db)"
    "t_profile db' = update_where (\<lambda>pr. pr_userid pr = target) (\<lambda>pr. pr\<lparr>pr_username := to_string (un_display new_username)\<rparr>) (t_profile db)"
    "\<not> name_conflict target (to_string (un_sysname new_username)) (release_username now acting target db)"
proof -
  define old where "old = to_string (un_sysname old_username)"
  define new where "new = to_string (un_sysname new_username)"
  define hit where "hit = (\<lambda>lo :: login_row. lo_userid lo = target \<and> lo_login_name lo = old)"
  define r where "r = release_username now acting target db"
  obtain a b where a: "\<not> name_conflict target new r" "add_history now target (to_string (un_display old_username)) old False r = (Inr (), a)"
    "rename_login target old new a = (Inr (), b)" "rename_profile target (to_string (un_display new_username)) b = (Inr (), db')"
    using assms(1) unfolding change_username_transaction_def Let_def old_def new_def r_def
    by (auto simp: and_then_ok split: if_splits)
  note okd = names_okD [OF ok]
  obtain uh where uh: "a = r\<lparr>t_username_history := t_username_history r @ [uh], history_seq := history_seq r + 1\<rparr>"
    "uh_active uh" "uh_userid uh = target" "uh_login_name uh = old"
    using a(2) by (auto simp: add_history_def split: if_splits)
  have logins: "t_login a = t_login db" by (simp add: uh(1) r_def release_frame)
  have b: "b = a\<lparr>t_login := update_where hit (\<lambda>lo. lo\<lparr>lo_login_name := new\<rparr>) (t_login a)\<rparr>" "count_where hit (t_login a) = 1"
    using a(3) by (auto simp: rename_login_def Let_def hit_def split: if_splits)
  have db': "db' = b\<lparr>t_profile := update_where (\<lambda>pr. pr_userid pr = target) (\<lambda>pr. pr\<lparr>pr_username := to_string (un_display new_username)\<rparr>) (t_profile b)\<rparr>"
    using a(4) by (auto simp: rename_profile_def split: if_splits)
  have "\<exists>x \<in> set (t_login a). hit x" using b(2) by (metis count_where_0_iff zero_neq_one)
  then obtain x where x: "x \<in> set (t_login db)" "lo_userid x = target" "lo_login_name x = old" by (auto simp: logins hit_def)
  show thesis
  proof (rule that [OF x(1,2)])
    show "lo_login_name x = to_string (un_sysname old_username)" using x(3) by (simp add: old_def)
    show "map lo_login_name (t_login db') = map (\<lambda>n. if n = to_string (un_sysname old_username) then to_string (un_sysname new_username) else n)
        (map lo_login_name (t_login db))"
      using rename_names [OF okd(1) x okd(11), of new] by (simp add: db' b(1) logins hit_def old_def new_def)
    show "map lo_userid (t_login db') = map lo_userid (t_login db)"
      by (simp add: db' b(1) logins map_key_update_where)
    show "\<exists>uh. active_history db' = filter (\<lambda>uh. uh_userid uh \<noteq> target) (active_history db) @ [uh]
        \<and> uh_userid uh = target \<and> uh_login_name uh = to_string (un_sysname old_username)"
    proof (rule exI [of _ uh], intro conjI)
      have "active_history db' = active_history r @ [uh]" using uh(2) by (simp add: db' b(1) uh(1) active_history_def)
      then show "active_history db' = filter (\<lambda>uh. uh_userid uh \<noteq> target) (active_history db) @ [uh]"
        by (simp add: r_def active_after_release)
    qed (use uh in \<open>simp_all add: old_def\<close>)
  qed (use a(1) in \<open>simp_all add: db' b(1) uh(1) r_def release_frame new_def\<close>)
qed


lemma cosmetic_same_names:
  assumes "change_username_transaction now acting target bypass True old_username new_username db = (Inr (), db')"
  shows "t_login db' = t_login db \<and> t_useralias db' = t_useralias db \<and> t_logincreate db' = t_logincreate db
    \<and> active_history db' = active_history db \<and> login_seq db' = login_seq db \<and> c_userids db' = c_userids db
    \<and> t_profile db' = update_where (\<lambda>pr. pr_userid pr = target) (\<lambda>pr. pr\<lparr>pr_username := to_string (un_display new_username)\<rparr>) (t_profile db)"
  using assms by (auto simp: change_username_transaction_def Let_def add_history_def rename_profile_def active_history_def split: if_splits)

lemma to_string_inj:
  assumes "list_all (\<lambda>c. 0 \<le> c \<and> c < 256) s" "list_all (\<lambda>c. 0 \<le> c \<and> c < 256) t" "to_string s = to_string t"
  shows "s = t"
  using char_roundtrip [OF assms(1)] char_roundtrip [OF assms(2)] assms(3) by metis

lemma sysname_differs:
  assumes "un_sysname a = get_sysname_unchecked lower s" "un_sysname b = get_sysname_unchecked lower t" "un_sysname a \<noteq> un_sysname b"
  shows "to_string (un_sysname a) \<noteq> to_string (un_sysname b)"
proof -
  have "list_all (\<lambda>c. 0 \<le> c \<and> c < 256) (get_sysname_unchecked lower s)" for s
    by (auto simp: get_sysname_unchecked_def list_all_iff char_defs)
  with assms to_string_inj show ?thesis by metis
qed

lemma names_ok_change:
  assumes ok: "names_ok lower db"
    and tr: "change_username_transaction now acting target bypass False old_username new_username db = (Inr (), db')"
    and differ: "to_string (un_sysname old_username) \<noteq> to_string (un_sysname new_username)"
  shows "names_ok lower db'"
proof -
  define old where "old = to_string (un_sysname old_username)"
  define new where "new = to_string (un_sysname new_username)"
  define r where "r = release_username now acting target db"
  note okd = names_okD [OF ok]
  obtain x where x: "x \<in> set (t_login db)" "lo_userid x = target" "lo_login_name x = old"
    and logins: "map lo_login_name (t_login db') = map (\<lambda>n. if n = old then new else n) (map lo_login_name (t_login db))"
      "map lo_userid (t_login db') = map lo_userid (t_login db)" "login_seq db' = login_seq db"
    and others: "t_useralias db' = t_useralias db" "t_logincreate db' = t_logincreate db"
    and row: "\<exists>uh. active_history db' = filter (\<lambda>uh. uh_userid uh \<noteq> target) (active_history db) @ [uh]
      \<and> uh_userid uh = target \<and> uh_login_name uh = old"
    and free: "\<not> name_conflict target new r"
    unfolding old_def new_def r_def by (rule transaction_ok [OF tr ok])
  then obtain uh where history: "active_history db' = filter (\<lambda>uh. uh_userid uh \<noteq> target) (active_history db) @ [uh]"
    "uh_userid uh = target" "uh_login_name uh = old" by blast
  define kept where "kept = filter (\<lambda>uh. uh_userid uh \<noteq> target) (active_history db)"
  have old_login: "old \<in> lo_login_name ` set (t_login db)" using x by blast
  have kept: "uh_login_name ` set kept \<subseteq> uh_login_name ` set (active_history db)" by (auto simp: kept_def)
  have new_free: "new \<notin> al_alias_name ` set (t_useralias db)" "new \<notin> lc_login_name ` set (t_logincreate db)"
    using free by (auto simp: name_conflict_def exists_where_iff r_def release_frame)
  have "new \<notin> uh_login_name ` set (active_history r)"
    using free by (auto simp: name_conflict_def exists_where_iff active_history_def)
  then have new_kept: "new \<notin> uh_login_name ` set kept" by (simp add: r_def active_after_release kept_def)
  have new_login: "new \<notin> lo_login_name ` set (t_login db) - {old}"
  proof
    assume new: "new \<in> lo_login_name ` set (t_login db) - {old}"
    then obtain y where y: "y \<in> set (t_login db)" "lo_login_name y = new" by blast
    then have "lo_userid y = target" using free by (auto simp: name_conflict_def exists_where_iff r_def release_frame)
    then have "y = x" using distinct_map_inj [OF okd(11) y(1) x(1)] x(2) by simp
    with y x new show False by simp
  qed
  have set_logins: "lo_login_name ` set (t_login db') = insert new (lo_login_name ` set (t_login db) - {old})"
  proof -
    have "lo_login_name ` set (t_login db') = (\<lambda>n. if n = old then new else n) ` lo_login_name ` set (t_login db)"
      using arg_cong [OF logins(1), of set] by (simp only: set_map)
    also have "\<dots> = insert new (lo_login_name ` set (t_login db) - {old})" using old_login by auto
    finally show ?thesis .
  qed
  have login_sub: "lo_login_name ` set (t_login db) - {old} \<subseteq> lo_login_name ` set (t_login db)" by blast
  show ?thesis
  proof (rule names_okI)
    show "distinct (map lo_login_name (t_login db'))"
      unfolding logins(1) using okd(1) new_login by (intro distinct_replaced) auto
    show "lo_login_name ` set (t_login db') \<inter> al_alias_name ` set (t_useralias db') = {}"
      unfolding set_logins others using new_free(1) disjoint_within [OF okd(5) login_sub order_refl] by simp
    show "lo_login_name ` set (t_login db') \<inter> lc_login_name ` set (t_logincreate db') = {}"
      unfolding set_logins others using new_free(2) disjoint_within [OF okd(6) login_sub order_refl] by simp
    have "old \<noteq> new" using differ by (simp add: old_def new_def)
    then show "lo_login_name ` set (t_login db') \<inter> uh_login_name ` set (active_history db') = {}"
      unfolding set_logins history(1) using new_kept disjoint_within [OF okd(7) login_sub kept] history(3)
      by (simp add: kept_def [symmetric])
    show "al_alias_name ` set (t_useralias db') \<inter> uh_login_name ` set (active_history db') = {}"
      unfolding others history(1) using disjoint_within [OF okd(9) order_refl kept] old_login okd(5) history(3)
      by (auto simp: kept_def [symmetric])
    show "lc_login_name ` set (t_logincreate db') \<inter> uh_login_name ` set (active_history db') = {}"
      unfolding others history(1) using disjoint_within [OF okd(10) order_refl kept] old_login okd(6) history(3)
      by (auto simp: kept_def [symmetric])
    show "distinct (map uh_login_name (active_history db'))"
      unfolding history(1) using okd(4,7) old_login history(3) by (auto simp: distinct_map_filter)
    show "distinct (map uh_userid (active_history db'))"
      unfolding history(1) using okd(13) history(2) by (auto simp: distinct_map_filter)
    show "\<forall>lo \<in> set (t_login db'). lo_userid lo < login_seq db'"
    proof
      fix lo assume "lo \<in> set (t_login db')"
      then have "lo_userid lo \<in> set (map lo_userid (t_login db'))" by simp
      then have "lo_userid lo \<in> lo_userid ` set (t_login db)" unfolding logins(2) by simp
      then show "lo_userid lo < login_seq db'" using okd(12) logins(3) by auto
    qed
  qed (use okd others logins(2) in simp_all)
qed


inductive account_step :: "(ustr \<Rightarrow> ustr) \<Rightarrow> (ustr \<Rightarrow> ustr) \<Rightarrow> 'a content_db_scheme \<Rightarrow> 'a content_db_scheme \<Rightarrow> bool"
  for lower nfkd db where
  create: "account_step lower nfkd db (snd (account_create lower nfkd env disposable now token salt mail form db))"
| verify: "account_step lower nfkd db (snd (account_verify lower now token ip_address db))"
| rename: "account_step lower nfkd db (snd (change_username lower nfkd now acting_user target_user bypass_limit new_username db))"
| release: "account_step lower nfkd db (release_username now acting_user target_user db)"
| set_alias: "account_step lower nfkd db (snd (alias_set userid username db))"

lemma same_names_read: "same_names db (snd (get_username lower userid db))"
proof -
  have "same_names db (snd (get_display_name userid db))"
    by (auto simp: get_display_name_def read_display_name_def read_through_def store_display_name_def same_names_def Let_def
        split: option.split)
  then show ?thesis
    by (cases "get_display_name userid db"; cases "fst (get_display_name userid db)") (auto simp: get_username_def)
qed

lemma same_names_trans: "same_names a b \<Longrightarrow> same_names b c \<Longrightarrow> same_names a c"
  by (simp add: same_names_def)

lemma get_username_stored:
  "get_username lower userid db = (Inr u, d) \<Longrightarrow> \<exists>s. un_display u = s \<and> un_sysname u = get_sysname_unchecked lower s"
  by (auto simp: get_username_def and_then_ok from_stored_def Let_def split: if_splits)

lemma change_username_cases:
  obtains (unchanged) "same_names db (snd (change_username lower nfkd now acting target bypass text db))"
  | (changed) new_username old_username d after where
      "username_create lower nfkd text = Inr new_username" "get_username lower target db = (Inr old_username, d)" "same_names db d"
      "change_username_transaction now acting target bypass (un_sysname new_username = un_sysname old_username) old_username new_username d = (Inr (), after)"
      "change_username lower nfkd now acting target bypass text db
        = (Inr (), (if un_sysname new_username = un_sysname old_username then username_invalidate target after
                    else userids_invalidate (to_string (un_sysname old_username)) (username_invalidate target after)))"
proof (cases "username_create lower nfkd text")
  case (Inl e)
  then show thesis using unchanged by (simp add: change_username_def same_names_def)
next
  case new: (Inr new_username)
  obtain r d where r: "get_username lower target db = (r, d)" by fastforce
  then have d: "same_names db d" using same_names_read [of db lower target] by simp
  show thesis
  proof (cases r)
    case (Inl e)
    then show thesis using unchanged new r d by (simp add: change_username_def)
  next
    case old: (Inr old_username)
    define cosmetic where "cosmetic = (un_sysname new_username = un_sysname old_username)"
    show thesis
    proof (cases "un_display new_username = un_display old_username")
      case True
      then show thesis using unchanged new r old d by (simp add: change_username_def)
    next
      case False
      obtain t after where t: "change_username_transaction now acting target bypass cosmetic old_username new_username d = (t, after)"
        by fastforce
      show thesis
      proof (cases t)
        case (Inl e)
        then have "snd (change_username lower nfkd now acting target bypass text db) = rollback d after"
          using new r old False t by (simp add: change_username_def cosmetic_def Let_def)
        moreover have "same_names d (rollback d after)" by (simp add: rollback_def same_names_def)
        ultimately show thesis using unchanged same_names_trans [OF d] by metis
      next
        case (Inr x)
        with t have t': "change_username_transaction now acting target bypass (un_sysname new_username = un_sysname old_username)
            old_username new_username d = (Inr (), after)" by (simp add: cosmetic_def)
        from new r old False t' show thesis
          by (intro changed [OF new _ d t']) (simp_all add: change_username_def Let_def)
      qed
    qed
  qed
qed

lemma names_ok_frame:
  "t_login db' = t_login db \<Longrightarrow> t_useralias db' = t_useralias db \<Longrightarrow> t_logincreate db' = t_logincreate db \<Longrightarrow>
   active_history db' = active_history db \<Longrightarrow> login_seq db' = login_seq db \<Longrightarrow> names_ok lower db' = names_ok lower db"
  by (simp add: names_ok_def taken_names_def)

lemma invalidated_names:
  "same_names db (username_invalidate u db)" "same_names db (userids_invalidate s db)"
  by (simp_all add: same_names_def username_invalidate_def store_display_name_def userids_invalidate_def store_userid_def)

lemma account_step_names:
  assumes "account_step lower nfkd db db'" "names_ok lower db"
  shows "names_ok lower db'"
  using assms(1)
proof cases
  case (create env disposable now token salt mail form)
  then show ?thesis using names_ok_create [OF assms(2)] by simp
next
  case (verify now token ip)
  then show ?thesis using names_ok_verify [OF assms(2)] by simp
next
  case (release now acting target)
  then show ?thesis using names_ok_release [OF assms(2)] by simp
next
  case (rename now acting target bypass wish)
  show ?thesis
  proof (cases rule: change_username_cases [of db lower nfkd now acting target bypass wish])
    case unchanged
    then show ?thesis using rename assms(2) same_names_ok by metis
  next
    case (changed new_username old_username d after)
    have d: "names_ok lower d" using same_names_ok [OF changed(3)] assms(2) by simp
    have "names_ok lower after"
    proof (cases "un_sysname new_username = un_sysname old_username")
      case True
      then show ?thesis
        using cosmetic_same_names [of now acting target bypass old_username new_username d after] changed(4) d
          names_ok_frame [of after d lower] by simp
    next
      case False
      obtain s where "un_sysname old_username = get_sysname_unchecked lower s" using get_username_stored [OF changed(2)] by blast
      then have "to_string (un_sysname old_username) \<noteq> to_string (un_sysname new_username)"
        using sysname_differs username_create_facts(2) [OF changed(1)] False by metis
      then show ?thesis using names_ok_change [OF d] changed(4) False by simp
    qed
    then have shown: "names_ok lower (username_invalidate target after)"
      by (simp add: same_names_ok [OF invalidated_names(1)])
    then have "names_ok lower (userids_invalidate s (username_invalidate target after))" for s
      by (simp add: same_names_ok [OF invalidated_names(2)])
    with shown show ?thesis using changed(5) rename by simp
  qed
next
  case (set_alias userid username)
  obtain p d where p: "get_premium userid db = (p, d)" by fastforce
  have "config_read db (snd (get_premium userid db))"
    by (simp add: get_premium_def config_read_get_all_config and_then_snd)
  then have same: "same_names db d" and free: "username_exists username d = username_exists username db"
    using p by (auto simp: config_read_def same_names_def username_exists_def)
  define e where "e = d\<lparr>t_useralias := delete_where (\<lambda>al. al_userid al = userid \<and> has_flag (CHR ''p'') (al_settings al)) (t_useralias d)\<rparr>"
  have d: "names_ok lower d" using same_names_ok [OF same] assms(2) by simp
  have e: "names_ok lower e"
    by (rule names_given_up [OF d])
       (use names_okD [OF d] in \<open>simp_all add: e_def active_history_def distinct_map_delete_where table_simps\<close>)
  have sub: "username_exists username e \<Longrightarrow> username_exists username d"
    by (auto simp: username_exists_def e_def exists_where_iff table_simps)
  show ?thesis
  proof (cases "username \<noteq> [] \<and> username_exists username db")
    case True
    then show ?thesis using set_alias assms(2) by (simp add: alias_set_def)
  next
    case False
    have "names_ok lower (e\<lparr>t_useralias := t_useralias e @ [row]\<rparr>)" if "al_alias_name row = username" "username \<noteq> []" for row
      using names_ok_alias [OF e, of row] that False sub free by auto
    then show ?thesis
      using set_alias p False d e by (cases p) (simp_all add: alias_set_def Let_def e_def [symmetric])
  qed
qed


lemma distinct_sysnames:
  assumes "names_ok lower db"
  shows "distinct (map fst (sysname_rows db))"
  using assms by (simp add: names_ok_def taken_names_def sysname_rows_def active_history_def comp_def) (auto simp: comp_def)

lemma query_userid_rows:
  assumes "names_ok lower db" "(name, userid) \<in> set (sysname_rows db)"
  shows "query_userid name db = userid"
proof -
  have "distinct (map fst (rev (sysname_rows db)))" using distinct_sysnames [OF assms(1)] by (simp add: rev_map [symmetric])
  then have "map_of (rev (sysname_rows db)) name = Some userid" using assms(2) by simp
  then show ?thesis by (simp add: query_userid_def)
qed

lemma query_userid_none: "name \<notin> fst ` set (sysname_rows db) \<Longrightarrow> query_userid name db = 0"
  by (simp add: query_userid_def map_of_eq_None_iff [THEN iffD2])

text \<open>
  C35: Names stay unique. Whatever accounts are created, verified and renamed, former names released and
  aliases set, in any order, no two of the account names, the aliases, the reserved names and the active
  former names are equal. So every account name, alias and active former name resolves to its own
  account.
\<close>

theorem names_stay_unique:
  assumes "(account_step lower nfkd)\<^sup>*\<^sup>* db db'" "names_ok lower db"
  shows "distinct (map lo_login_name (t_login db') @ map al_alias_name (t_useralias db') @ map lc_login_name (t_logincreate db')
      @ map uh_login_name (filter uh_active (t_username_history db')))
    \<and> (\<forall>lo \<in> set (t_login db'). query_userid (lo_login_name lo) db' = lo_userid lo)
    \<and> (\<forall>al \<in> set (t_useralias db'). query_userid (al_alias_name al) db' = al_userid al)
    \<and> (\<forall>uh \<in> set (t_username_history db'). uh_active uh \<longrightarrow> query_userid (uh_login_name uh) db' = uh_userid uh)"
proof -
  have ok: "names_ok lower db'"
    using assms by (induction rule: rtranclp_induct) (auto intro: account_step_names)
  then have "distinct (map lo_login_name (t_login db') @ map al_alias_name (t_useralias db') @ map lc_login_name (t_logincreate db')
      @ map uh_login_name (filter uh_active (t_username_history db')))"
    by (simp add: names_ok_def taken_names_def active_history_def)
  moreover have "query_userid (lo_login_name lo) db' = lo_userid lo" if "lo \<in> set (t_login db')" for lo
    using that by (intro query_userid_rows [OF ok]) (auto simp: sysname_rows_def)
  moreover have "query_userid (al_alias_name al) db' = al_userid al" if "al \<in> set (t_useralias db')" for al
    using that by (intro query_userid_rows [OF ok]) (auto simp: sysname_rows_def)
  moreover have "query_userid (uh_login_name uh) db' = uh_userid uh" if "uh \<in> set (t_username_history db')" "uh_active uh" for uh
    using that by (intro query_userid_rows [OF ok]) (auto simp: sysname_rows_def)
  ultimately show ?thesis by blast
qed

definition account_db :: "unit tags_db_scheme" where
  "account_db = blank_db\<lparr>t_login := [\<lparr>lo_userid = 7, lo_login_name = ''fox'', lo_last_login = 0, lo_email = ''fox@weasyl.com'',
       lo_twofa_secret = None, lo_ip_address_at_signup = None, lo_voucher = None, lo_last_read_updateid = None\<rparr>],
     t_profile := [initial_profile 0 7 ''Fox''], login_seq := 8\<rparr>"

theorem names_stay_unique_witness:
  "let db' = snd (change_username ascii_lower id 9 7 7 False (ustr ''Red Cat'') account_db)
   in query_userid ''redcat'' db' = 7 \<and> query_userid ''fox'' db' = 7"
proof -
  define db' where "db' = snd (change_username ascii_lower id 9 7 7 False (ustr ''Red Cat'') account_db)"
  have "account_step ascii_lower id account_db db'" unfolding db'_def by (rule account_step.rename)
  then have trace: "(account_step ascii_lower id)\<^sup>*\<^sup>* account_db db'" by blast
  have ok: "names_ok ascii_lower account_db"
    by (simp add: names_ok_def taken_names_def active_history_def account_db_def blank_db_def)
  have "map lo_login_name (t_login db') = [''redcat'']" "map lo_userid (t_login db') = [7]"
    "map (\<lambda>uh. (uh_login_name uh, uh_userid uh, uh_active uh)) (t_username_history db') = [(''fox'', 7, True)]"
    unfolding db'_def by code_simp+
  then obtain lo uh where "lo \<in> set (t_login db')" "lo_login_name lo = ''redcat''" "lo_userid lo = 7"
    "uh \<in> set (t_username_history db')" "uh_login_name uh = ''fox''" "uh_userid uh = 7" "uh_active uh"
    by (auto simp: map_eq_Cons_conv)
  with names_stay_unique [OF trace ok] show ?thesis unfolding Let_def db'_def [symmetric] by metis
qed

lemma names_cong: "(\<And>n u. n = name \<Longrightarrow> (n, u) \<in> set (sysname_rows db) \<longleftrightarrow> (n, u) \<in> set (sysname_rows db')) \<Longrightarrow>
  names_ok lower db \<Longrightarrow> names_ok lower db' \<Longrightarrow> query_userid name db' = query_userid name db"
proof -
  assume same: "\<And>n u. n = name \<Longrightarrow> (n, u) \<in> set (sysname_rows db) \<longleftrightarrow> (n, u) \<in> set (sysname_rows db')"
    and ok: "names_ok lower db" "names_ok lower db'"
  show ?thesis
  proof (cases "\<exists>u. (name, u) \<in> set (sysname_rows db)")
    case True
    then obtain u where "(name, u) \<in> set (sysname_rows db)" by blast
    with same show ?thesis using query_userid_rows [OF ok(1)] query_userid_rows [OF ok(2)] by metis
  next
    case False
    with same have "name \<notin> fst ` set (sysname_rows db)" "name \<notin> fst ` set (sysname_rows db')" by auto
    then show ?thesis by (simp add: query_userid_none)
  qed
qed

definition login_pairs :: "'a accounts_db_scheme \<Rightarrow> (string \<times> int) list" where
  "login_pairs db = map (\<lambda>lo. (lo_login_name lo, lo_userid lo)) (t_login db)"

definition released_names :: "int \<Rightarrow> 'a accounts_db_scheme \<Rightarrow> string set" where
  "released_names target db = uh_login_name ` {uh \<in> set (active_history db). uh_userid uh = target}"

lemma map_pairs: "map (\<lambda>x. (f x, g x)) xs = zip (map f xs) (map g xs)"
  by (induction xs) auto

text \<open>The names after a change of name that is not only cosmetic.\<close>

lemma renamed_rows:
  assumes tr: "change_username_transaction now acting target bypass False old_username new_username db = (Inr (), db')"
    and ok: "names_ok lower db"
    and old: "old = to_string (un_sysname old_username)" and new: "new = to_string (un_sysname new_username)"
  shows "set (sysname_rows db') = (\<lambda>(n, u). (if n = old then new else n, u)) ` set (login_pairs db)
      \<union> (\<lambda>al. (al_alias_name al, al_userid al)) ` set (t_useralias db)
      \<union> (\<lambda>uh. (uh_login_name uh, uh_userid uh)) ` {uh \<in> set (active_history db). uh_userid uh \<noteq> target} \<union> {(old, target)}"
    and "(old, target) \<in> set (login_pairs db)"
proof -
  obtain x where x: "x \<in> set (t_login db)" "lo_userid x = target" "lo_login_name x = old"
    and logins: "map lo_login_name (t_login db') = map (\<lambda>n. if n = old then new else n) (map lo_login_name (t_login db))"
      "map lo_userid (t_login db') = map lo_userid (t_login db)"
    and others: "t_useralias db' = t_useralias db"
    and row: "\<exists>uh. active_history db' = filter (\<lambda>uh. uh_userid uh \<noteq> target) (active_history db) @ [uh]
      \<and> uh_userid uh = target \<and> uh_login_name uh = old"
    unfolding old new by (rule transaction_ok [OF tr ok])
  show "(old, target) \<in> set (login_pairs db)" using x by (auto simp: login_pairs_def)
  have "login_pairs db' = zip (map (\<lambda>n. if n = old then new else n) (map lo_login_name (t_login db))) (map lo_userid (t_login db))"
    unfolding login_pairs_def map_pairs logins ..
  also have "\<dots> = map (\<lambda>(n, u). (if n = old then new else n, u)) (login_pairs db)"
    unfolding login_pairs_def map_pairs zip_map1 ..
  finally have pairs: "set (login_pairs db') = (\<lambda>(n, u). (if n = old then new else n, u)) ` set (login_pairs db)" by simp
  have "set (sysname_rows db') = set (login_pairs db') \<union> (\<lambda>al. (al_alias_name al, al_userid al)) ` set (t_useralias db')
      \<union> (\<lambda>uh. (uh_login_name uh, uh_userid uh)) ` set (active_history db')"
    by (simp add: sysname_rows_def login_pairs_def active_history_def Un_assoc)
  with pairs others row show "set (sysname_rows db') = (\<lambda>(n, u). (if n = old then new else n, u)) ` set (login_pairs db)
      \<union> (\<lambda>al. (al_alias_name al, al_userid al)) ` set (t_useralias db)
      \<union> (\<lambda>uh. (uh_login_name uh, uh_userid uh)) ` {uh \<in> set (active_history db). uh_userid uh \<noteq> target} \<union> {(old, target)}"
    by auto
qed

lemma renamed_queries:
  assumes tr: "change_username_transaction now acting target bypass False old_username new_username db = (Inr (), db')"
    and ok: "names_ok lower db" "names_ok lower db'"
    and old: "old = to_string (un_sysname old_username)" and new: "new = to_string (un_sysname new_username)"
  shows "query_userid new db' = target" "query_userid old db' = target"
    and "n \<in> released_names target db \<Longrightarrow> n \<noteq> new \<Longrightarrow> query_userid n db' = 0"
    and "n \<notin> released_names target db \<Longrightarrow> n \<notin> {old, new} \<Longrightarrow> query_userid n db' = query_userid n db"
proof -
  note rows = renamed_rows [OF tr ok(1) old new]
  note okd = names_okD [OF ok(1)]
  have "(new, target) \<in> set (sysname_rows db')" unfolding rows(1) using rows(2) by force
  then show "query_userid new db' = target" by (rule query_userid_rows [OF ok(2)])
  have "(old, target) \<in> set (sysname_rows db')" unfolding rows(1) by blast
  then show "query_userid old db' = target" by (rule query_userid_rows [OF ok(2)])
  have logins: "fst ` set (login_pairs db) = lo_login_name ` set (t_login db)" by (force simp: login_pairs_def)
  show "query_userid n db' = 0" if n: "n \<in> released_names target db" "n \<noteq> new"
  proof (rule query_userid_none)
    obtain uh where uh: "uh \<in> set (active_history db)" "uh_userid uh = target" "uh_login_name uh = n"
      using n(1) by (auto simp: released_names_def)
    then have name: "n \<in> uh_login_name ` set (active_history db)" by blast
    then have "n \<notin> fst ` set (login_pairs db)" "n \<notin> al_alias_name ` set (t_useralias db)"
      using okd(7,9) unfolding logins by blast+
    moreover have "uh_login_name r \<noteq> n" if "r \<in> set (active_history db)" "uh_userid r \<noteq> target" for r
      using distinct_map_inj [OF okd(4) that(1) uh(1)] uh that by auto
    moreover have "n \<noteq> old" using rows(2) \<open>n \<notin> fst ` set (login_pairs db)\<close> by force
    ultimately show "n \<notin> fst ` set (sysname_rows db')"
      unfolding rows(1) using n(2) by (force split: if_splits)
  qed
  show "query_userid n db' = query_userid n db" if n: "n \<notin> released_names target db" "n \<notin> {old, new}"
  proof (rule names_cong [OF _ ok])
    fix m u assume m: "m = n"
    have "(m, u) \<in> set (sysname_rows db) \<longleftrightarrow> (m, u) \<in> set (login_pairs db) \<union> (\<lambda>al. (al_alias_name al, al_userid al)) ` set (t_useralias db)
        \<union> (\<lambda>uh. (uh_login_name uh, uh_userid uh)) ` set (active_history db)"
      by (simp add: sysname_rows_def login_pairs_def active_history_def Un_assoc)
    moreover have "(n, u) \<in> (\<lambda>(n, u). (if n = old then new else n, u)) ` set (login_pairs db) \<longleftrightarrow> (n, u) \<in> set (login_pairs db)"
      using n(2) by (force split: if_splits)
    ultimately show "(m, u) \<in> set (sysname_rows db) \<longleftrightarrow> (m, u) \<in> set (sysname_rows db')"
      unfolding rows(1) m using n by (auto simp: released_names_def image_iff split: if_splits)
  qed
qed

text \<open>What a renaming does to the caches.\<close>

lemma release_cache:
  assumes "names_ok lower db"
  shows "c_userids (release_username now acting target db) s
    = (if s \<in> released_names target db then None else c_userids db s)"
proof (cases "find (\<lambda>uh. uh_userid uh = target \<and> uh_active uh) (t_username_history db)")
  case None
  then have "released_names target db = {}" by (auto simp: released_names_def active_history_def find_None_iff)
  then show ?thesis using None by (simp add: release_username_def Let_def)
next
  case (Some uh)
  then have uh: "uh \<in> set (active_history db)" "uh_userid uh = target"
    using find_SomeD [OF Some] by (auto simp: active_history_def)
  have "x = uh" if "x \<in> set (active_history db)" "uh_userid x = target" for x
    using distinct_map_inj [OF names_okD(13) [OF assms] that(1) uh(1)] uh(2) that(2) by simp
  then have "{x \<in> set (active_history db). uh_userid x = target} = {uh}" using uh by blast
  then have "released_names target db = {uh_login_name uh}" by (simp add: released_names_def)
  then show ?thesis
    using Some by (simp add: userids_invalidate_def store_userid_def release_username_def Let_def)
qed

lemma free_name_target:
  assumes "\<not> name_conflict target n (release_username now acting target db)" "(n, u) \<in> set (sysname_rows db)"
  shows "u = target"
proof -
  have "uh_userid x = target" if "x \<in> set (active_history db)" "uh_login_name x = n" for x
  proof (rule ccontr)
    assume "uh_userid x \<noteq> target"
    then have "x \<in> set (active_history (release_username now acting target db))" using that by (simp add: active_after_release)
    then show False using assms(1) that(2) by (auto simp: name_conflict_def exists_where_iff active_history_def)
  qed
  then show ?thesis
    using assms by (auto simp: sysname_rows_def name_conflict_def exists_where_iff release_frame active_history_def)
qed

lemma find_update_profile:
  "find (\<lambda>pr. pr_userid pr = target) (update_where (\<lambda>pr. pr_userid pr = target) (\<lambda>pr. pr\<lparr>pr_username := w\<rparr>) rows)
    = map_option (\<lambda>pr. pr\<lparr>pr_username := w\<rparr>) (find (\<lambda>pr. pr_userid pr = target) rows)"
  by (induction rows) (auto simp: update_where_def)

text \<open>A cache that was right stays right when exactly the entries of the names are dropped whose users changed.\<close>

lemma renamed_cache_coherent:
  assumes "names_ok lower db" "\<forall>s. coherent (peek_userid s) (query_userid s) db \<and> peek_userid s db \<noteq> Some 0"
    and "\<not> name_conflict target n' (release_username now acting target db)"
    and "\<And>s. c_userids db' s = (if s = o' \<or> s \<in> released_names target db then None else c_userids db s)"
    and "query_userid n' db' = target"
    and "\<And>n. n \<notin> released_names target db \<Longrightarrow> n \<notin> {o', n'} \<Longrightarrow> query_userid n db' = query_userid n db"
  shows "coherent (peek_userid s) (query_userid s) db' \<and> peek_userid s db' \<noteq> Some 0"
proof -
  have "v = query_userid s db'" if v: "c_userids db' s = Some v" for v
  proof -
    have s: "s \<noteq> o'" "s \<notin> released_names target db" "c_userids db s = Some v"
      using v assms(4) by (auto split: if_splits)
    then have v': "v = query_userid s db" "v \<noteq> 0" using assms(2) by (auto simp: coherent_def peek_userid_def)
    have "v = target" if "s = n'"
    proof -
      have "s \<in> fst ` set (sysname_rows db)" using v' query_userid_none [of s db] by metis
      then obtain u where u: "(n', u) \<in> set (sysname_rows db)" using \<open>s = n'\<close> by auto
      then show ?thesis
        using query_userid_rows [OF assms(1) u] free_name_target [OF assms(3) u] v'(1) that by simp
    qed
    then show ?thesis using assms(5,6) s v' by (cases "s = n'") auto
  qed
  then show ?thesis
    using assms(2,4) by (simp add: coherent_def peek_userid_def)
qed

text \<open>What reading the name of an account leaves.\<close>

lemma get_username_frame:
  assumes "get_username lower target db = (Inr old, d)"
  shows "same_names db d" "c_userids d = c_userids db" "t_profile d = t_profile db"
    and "query_userid n d = query_userid n db"
proof -
  show same: "same_names db d" using same_names_read [of db lower target] assms by simp
  show "c_userids d = c_userids db" "t_profile d = t_profile db"
    using assms by (auto simp: get_username_def get_display_name_def read_display_name_def read_through_def store_display_name_def
        and_then_def Let_def split: option.splits prod.splits sum.splits if_splits)
  show "query_userid n d = query_userid n db" using same by (simp add: query_userid_def sysname_rows_def same_names_def)
qed

lemma changed_transaction:
  assumes "username_create lower nfkd wish = Inr new" "get_username lower target db = (Inr old, d)"
    and "un_display new \<noteq> un_display old" "change_username lower nfkd now acting target bypass wish db = (Inr (), db')"
  obtains after where
    "change_username_transaction now acting target bypass (un_sysname new = un_sysname old) old new d = (Inr (), after)"
    "db' = (if un_sysname new = un_sysname old then username_invalidate target after
            else userids_invalidate (to_string (un_sysname old)) (username_invalidate target after))"
proof -
  obtain t after where t: "change_username_transaction now acting target bypass (un_sysname new = un_sysname old) old new d = (t, after)"
    by fastforce
  then have "t = Inr ()" using assms by (cases t) (auto simp: change_username_def Let_def)
  with t assms that show thesis by (auto simp: change_username_def Let_def)
qed

lemma query_invalidated:
  "query_userid n (userids_invalidate o' (username_invalidate u db)) = query_userid n db"
  "query_userid n (username_invalidate u db) = query_userid n db"
  by (simp_all add: query_userid_def sysname_rows_def userids_invalidate_def store_userid_def
      username_invalidate_def store_display_name_def)

lemma display_invalidated:
  "t_profile (userids_invalidate o' (username_invalidate u db)) = t_profile db"
  "t_profile (username_invalidate u db) = t_profile db"
  "peek_display_name u (userids_invalidate o' (username_invalidate u db)) = None"
  "peek_display_name u (username_invalidate u db) = None"
  "c_userids (userids_invalidate o' (username_invalidate u db)) = (c_userids db)(o' := None)"
  "c_userids (username_invalidate u db) = c_userids db"
  by (simp_all add: userids_invalidate_def store_userid_def username_invalidate_def store_display_name_def peek_display_name_def
      fun_eq_iff)

lemma renamed_names:
  assumes "names_ok lower db" and "username_create lower nfkd wish = Inr new" "get_username lower target db = (Inr old, d)"
    and "un_sysname new \<noteq> un_sysname old"
    and tr: "change_username_transaction now acting target bypass False old new d = (Inr (), after)"
    and db': "db' = userids_invalidate (to_string (un_sysname old)) (username_invalidate target after)"
  shows "query_userid (to_string (un_sysname new)) db' = target" "query_userid (to_string (un_sysname old)) db' = target"
    and "\<And>n. n \<in> released_names target db \<Longrightarrow> n \<noteq> to_string (un_sysname new) \<Longrightarrow> query_userid n db' = 0"
    and "\<And>n. n \<notin> released_names target db \<Longrightarrow> n \<notin> {to_string (un_sysname old), to_string (un_sysname new)} \<Longrightarrow>
         query_userid n db' = query_userid n db"
    and "\<forall>s. coherent (peek_userid s) (query_userid s) db \<and> peek_userid s db \<noteq> Some 0 \<Longrightarrow>
         coherent (peek_userid s) (query_userid s) db' \<and> peek_userid s db' \<noteq> Some 0"
    and "t_profile after = update_where (\<lambda>pr. pr_userid pr = target) (\<lambda>pr. pr\<lparr>pr_username := to_string (un_display new)\<rparr>) (t_profile d)"
proof -
  define o' where "o' = to_string (un_sysname old)"
  define n' where "n' = to_string (un_sysname new)"
  note d = get_username_frame [OF assms(3)]
  have dok: "names_ok lower d" using assms(1) by (simp add: same_names_ok [OF d(1)])
  obtain w where "un_sysname old = get_sysname_unchecked lower w" using get_username_stored [OF assms(3)] by blast
  then have "o' \<noteq> n'" using sysname_differs username_create_facts(2) [OF assms(2)] assms(4) unfolding o'_def n'_def by metis
  then have aok: "names_ok lower after" using names_ok_change [OF dok tr] by (simp add: o'_def n'_def)
  have query: "query_userid n db' = query_userid n after" for n by (simp add: db' query_invalidated)
  have released: "released_names target d = released_names target db"
    using d(1) by (simp add: released_names_def active_history_def same_names_def)
  note q = renamed_queries [OF tr dok aok refl refl, folded o'_def n'_def, unfolded released, folded query, unfolded d(4)]
  have r: "c_userids after = c_userids (release_username now acting target d)"
    and profile: "t_profile after = update_where (\<lambda>pr. pr_userid pr = target) (\<lambda>pr. pr\<lparr>pr_username := to_string (un_display new)\<rparr>) (t_profile d)"
    and free: "\<not> name_conflict target n' (release_username now acting target d)"
    unfolding n'_def by (rule transaction_ok [OF tr dok]; assumption)+
  show "query_userid (to_string (un_sysname new)) db' = target" "query_userid (to_string (un_sysname old)) db' = target"
    using q(1,2) by (simp_all add: o'_def n'_def)
  show "query_userid n db' = 0" if "n \<in> released_names target db" "n \<noteq> to_string (un_sysname new)" for n
    using q(3) that by (simp add: n'_def)
  show "query_userid n db' = query_userid n db"
    if "n \<notin> released_names target db" "n \<notin> {to_string (un_sysname old), to_string (un_sysname new)}" for n
    using q(4) that by (simp add: o'_def n'_def)
  have cache: "c_userids db' s = (if s = o' \<or> s \<in> released_names target d then None else c_userids d s)" for s
    using release_cache [OF dok, of now acting target s] by (simp add: db' r display_invalidated flip: o'_def)
  show "coherent (peek_userid s) (query_userid s) db' \<and> peek_userid s db' \<noteq> Some 0"
    if "\<forall>s. coherent (peek_userid s) (query_userid s) db \<and> peek_userid s db \<noteq> Some 0"
  proof (rule renamed_cache_coherent [OF dok _ free cache])
    show "\<forall>s. coherent (peek_userid s) (query_userid s) d \<and> peek_userid s d \<noteq> Some 0"
      using that by (simp add: coherent_def peek_userid_def d)
  qed (use q(1,4) d(4) in \<open>simp_all add: released\<close>)
  show "t_profile after = update_where (\<lambda>pr. pr_userid pr = target) (\<lambda>pr. pr\<lparr>pr_username := to_string (un_display new)\<rparr>) (t_profile d)"
    by (rule profile)
qed

text \<open>
  C36: A change of name. When an account got another name than it had: if the new name is the old one in
  other letters, every name leads where it led before; otherwise both the new and the old name lead to
  it, the name it had before that is given up (unless it is the new one), and every other name leads where
  it led before. If the cache of names was right before, it is right afterwards. The cached display name
  is dropped, and the new one is stored.
\<close>

theorem rename_effect:
  assumes "names_ok lower db"
    and "username_create lower nfkd wish = Inr new" "get_username lower target db = (Inr old, d)"
    and "un_display new \<noteq> un_display old"
    and "change_username lower nfkd now acting target bypass wish db = (Inr (), db')"
  shows "(if un_sysname new = un_sysname old then \<forall>n. query_userid n db' = query_userid n db
     else query_userid (to_string (un_sysname new)) db' = target \<and> query_userid (to_string (un_sysname old)) db' = target
       \<and> (\<forall>n. n \<in> released_names target db \<and> n \<noteq> to_string (un_sysname new) \<longrightarrow> query_userid n db' = 0)
       \<and> (\<forall>n. n \<notin> released_names target db \<and> n \<notin> {to_string (un_sysname old), to_string (un_sysname new)} \<longrightarrow>
            query_userid n db' = query_userid n db))
    \<and> ((\<forall>s. coherent (peek_userid s) (query_userid s) db \<and> peek_userid s db \<noteq> Some 0)
        \<longrightarrow> (\<forall>s. coherent (peek_userid s) (query_userid s) db' \<and> peek_userid s db' \<noteq> Some 0))
    \<and> peek_display_name target db' = None
    \<and> query_display_name target db' = map_option (\<lambda>_. to_string (un_display new)) (query_display_name target db)"
proof -
  obtain after where tr: "change_username_transaction now acting target bypass (un_sysname new = un_sysname old) old new d = (Inr (), after)"
    and db': "db' = (if un_sysname new = un_sysname old then username_invalidate target after
            else userids_invalidate (to_string (un_sysname old)) (username_invalidate target after))"
    by (rule changed_transaction [OF assms(2-5)])
  note d = get_username_frame [OF assms(3)]
  have display: "peek_display_name target db' = None" by (simp add: db' display_invalidated)
  have shown: "query_display_name target db' = map_option (\<lambda>_. to_string (un_display new)) (query_display_name target db)"
    if "t_profile after = update_where (\<lambda>pr. pr_userid pr = target) (\<lambda>pr. pr\<lparr>pr_username := to_string (un_display new)\<rparr>) (t_profile d)"
    using that by (simp add: query_display_name_def db' display_invalidated find_update_profile d option.map_comp comp_def)
  show ?thesis
  proof (cases "un_sysname new = un_sysname old")
    case True
    note after = cosmetic_same_names [OF tr [unfolded True simp_thms]]
    have "query_userid n db' = query_userid n db" for n
      unfolding d(4) [symmetric] using True after
      by (simp add: db' query_invalidated) (simp add: query_userid_def sysname_rows_def active_history_def)
    moreover have "c_userids db' = c_userids db" using True after by (simp add: db' display_invalidated d)
    ultimately show ?thesis using display shown after True by (simp add: coherent_def peek_userid_def)
  next
    case False
    from tr False have tr': "change_username_transaction now acting target bypass False old new d = (Inr (), after)" by simp
    from db' False have db'': "db' = userids_invalidate (to_string (un_sysname old)) (username_invalidate target after)" by simp
    note names = renamed_names [OF assms(1-3) False tr' db'']
    show ?thesis using False names display shown by auto
  qed
qed

theorem rename_effect_witness:
  "let db' = snd (change_username ascii_lower id 9 7 7 False (ustr ''Red Cat'') account_db);
       db'' = snd (change_username ascii_lower id 9 7 7 False (ustr ''FOX'') account_db)
   in query_userid ''redcat'' db' = 7 \<and> query_userid ''fox'' db' = 7 \<and> peek_display_name 7 db' = None
      \<and> query_userid ''fox'' db'' = 7 \<and> peek_display_name 7 db'' = None"
proof -
  define db' where "db' = snd (change_username ascii_lower id 9 7 7 False (ustr ''Red Cat'') account_db)"
  define db'' where "db'' = snd (change_username ascii_lower id 9 7 7 False (ustr ''FOX'') account_db)"
  have ok: "names_ok ascii_lower account_db"
    by (simp add: names_ok_def taken_names_def active_history_def account_db_def blank_db_def)
  define new where "new = \<lparr>un_display = ustr ''Red Cat'', un_sysname = ustr ''redcat''\<rparr>"
  define big where "big = \<lparr>un_display = ustr ''FOX'', un_sysname = ustr ''fox''\<rparr>"
  define old where "old = \<lparr>un_display = ustr ''Fox'', un_sysname = ustr ''fox''\<rparr>"
  have u: "username_create ascii_lower id (ustr ''Red Cat'') = Inr new" "username_create ascii_lower id (ustr ''FOX'') = Inr big"
    unfolding new_def big_def by code_simp+
  have "fst (get_username ascii_lower 7 account_db) = Inr old" unfolding old_def by code_simp
  then obtain d where g: "get_username ascii_lower 7 account_db = (Inr old, d)" by (metis prod.collapse)
  have ne: "un_sysname new \<noteq> un_sysname old" "un_sysname big = un_sysname old" "un_display new \<noteq> un_display old"
    "un_display big \<noteq> un_display old" unfolding new_def big_def old_def by code_simp+
  have "fst (change_username ascii_lower id 9 7 7 False (ustr ''Red Cat'') account_db) = Inr ()"
    "fst (change_username ascii_lower id 9 7 7 False (ustr ''FOX'') account_db) = Inr ()" by code_simp+
  then have c: "change_username ascii_lower id 9 7 7 False (ustr ''Red Cat'') account_db = (Inr (), db')"
    "change_username ascii_lower id 9 7 7 False (ustr ''FOX'') account_db = (Inr (), db'')"
    unfolding db'_def db''_def by (metis prod.collapse)+
  have "to_string (un_sysname new) = ''redcat''" "to_string (un_sysname old) = ''fox''" unfolding new_def old_def by code_simp+
  with rename_effect [OF ok u(1) g ne(3) c(1)] ne(1)
  have "query_userid ''redcat'' db' = 7 \<and> query_userid ''fox'' db' = 7 \<and> peek_display_name 7 db' = None" by simp
  moreover have "query_userid ''fox'' account_db = 7" by code_simp
  with rename_effect [OF ok u(2) g ne(4) c(2)] ne(2)
  have "query_userid ''fox'' db'' = 7 \<and> peek_display_name 7 db'' = None" by simp
  ultimately show ?thesis unfolding Let_def db'_def [symmetric] db''_def [symmetric] by simp
qed

text \<open>
  Setting another alias leaves the old one in the cache of names, so it goes on leading to the account although
  nobody has it any more.
\<close>

lemma alias_stays_cached:
  "let db = account_db\<lparr>t_profile := [(initial_profile 0 7 ''Fox'')\<lparr>pr_premium := True\<rparr>],
              t_useralias := [\<lparr>al_userid = 7, al_alias_name = ''reynard'', al_settings = ''p''\<rparr>]\<rparr>;
       read = snd (read_userids [''reynard''] db);
       db' = snd (alias_set 7 ''red'' read)
   in query_userid ''reynard'' db' = 0 \<and> fst (read_userids [''reynard''] db') = [7]"
  by code_simp

subsection \<open>From the form to the account\<close>

lemma stored_username:
  assumes "username_create lower nfkd wish = Inr u"
  shows "from_stored lower (un_display u) = Inr u"
proof -
  define cleaned where "cleaned = join [32] (filter (\<lambda>w. w \<noteq> []) (map (filter username_char) (split_white (nfkd wish))))"
  have u: "un_display u = cleaned" "un_sysname u = get_sysname_unchecked lower cleaned" "un_sysname u \<noteq> []"
    "length cleaned \<le> USERNAME_MAX_LENGTH"
    using assms unfolding cleaned_def by (auto simp: username_create_def Let_def split: if_splits)
  have chars: "set cleaned \<subseteq> {c. c = 32 \<or> username_char c}"
    unfolding cleaned_def by (rule order.trans [OF set_join]) auto
  then have "list_all (\<lambda>c. 32 \<le> c \<and> c \<le> 126) cleaned" "59 \<notin> set cleaned"
    by (auto simp: list_all_iff username_char_def)
  with u show ?thesis by (cases u) (simp add: from_stored_def Let_def)
qed

lemma create_ok:
  assumes "account_create lower nfkd env disposable now token salt mail form db = (Inr (), db')"
  obtains u email hashpass row where
    "username_create lower nfkd (sf_username form) = Inr u" "normalize_address (sf_email form) = Some email"
    "hashpw env (sf_password form) salt = Inr hashpass" "password_secure (sf_password form)"
    "\<not> username_exists (to_string (un_sysname u)) (delete_expired now db)"
    "\<forall>lc \<in> set (t_logincreate (delete_expired now db)). lc_token lc \<noteq> token"
    "lc_token row = token" "lc_username row = to_string (un_display u)" "lc_login_name row = to_string (un_sysname u)"
    "lc_hashpass row = hashpass" "lc_created_at row = now" "lc_invalid row = email_exists email (delete_expired now db)"
    "\<not> lc_invalid row \<longrightarrow> lc_email row = email"
    "db' = (delete_expired now db)\<lparr>t_logincreate := t_logincreate (delete_expired now db) @ [row]\<rparr>"
proof -
  define d where "d = delete_expired now db"
  obtain u email where ue: "username_create lower nfkd (sf_username form) = Inr u" "normalize_address (sf_email form) = Some email"
    "password_secure (sf_password form)" "\<not> username_exists (to_string (un_sysname u)) d"
    using assms unfolding account_create_def Let_def d_def by (auto split: sum.splits option.splits if_splits)
  obtain hashpass where h: "hashpw env (sf_password form) salt = Inr hashpass"
    using assms ue unfolding account_create_def Let_def d_def by (auto split: sum.splits if_splits)
  define row where "row = \<lparr>lc_token = token, lc_username = to_string (un_display u), lc_login_name = to_string (un_sysname u),
    lc_hashpass = hashpass, lc_email = (if email_exists email d then token else email), lc_created_at = now,
    lc_invalid = email_exists email d, lc_invalid_email_addr = (if email_exists email d then Some email else None),
    lc_ip_address_signup_request = None\<rparr>"
  have "and_then (insert_logincreate row d) (\<lambda>_ db. (mail, db)) = (Inr (), db')"
    using assms ue h unfolding account_create_def Let_def d_def row_def by (auto split: if_splits)
  then have "\<forall>lc \<in> set (t_logincreate d). lc_token lc \<noteq> token" "db' = d\<lparr>t_logincreate := t_logincreate d @ [row]\<rparr>"
    by (auto simp: and_then_ok insert_logincreate_def exists_where_iff row_def split: if_splits)
  with ue h show thesis by (intro that [of u email hashpass row]) (simp_all add: row_def d_def)
qed

text \<open>
  From the form to the account. After \<open>create\<close> succeeded with an address nobody uses, following
  the link in the mail within two days makes an account with the name, the address and the password
  given, to which the name leads, and a second time the link is refused. When the address was in use,
  the link is refused at once and no account is made, though \<open>create\<close> gave the same answer.
\<close>

theorem account_created:
  assumes "names_ok lower db" "account_create lower nfkd env disposable now token salt mail form db = (Inr (), db')"
    and "username_create lower nfkd (sf_username form) = Inr u" "normalize_address (sf_email form) = Some email"
    and "now \<le> now'" "now' \<le> now + 2 * 86400" "\<forall>pr \<in> set (t_profile db). pr_username pr \<noteq> to_string (un_display u)"
    and "account_verify lower now' token ip db' = (r, db'')"
  shows "password_secure (sf_password form)
    \<and> (if email_exists email (delete_expired now db)
       then r = Inl (WeasylError ''logincreateRecordMissing'') \<and> t_login db'' = t_login db
       else r = Inr ()
         \<and> (\<exists>lo ab. t_login db'' = t_login db @ [lo] \<and> t_authbcrypt db'' = t_authbcrypt db @ [ab]
              \<and> lo_userid lo = login_seq db \<and> lo_login_name lo = to_string (un_sysname u) \<and> lo_email lo = email
              \<and> ab_userid ab = login_seq db \<and> hashpw env (sf_password form) salt = Inr (ab_hashsum ab))
         \<and> t_profile db'' = t_profile db @ [initial_profile now' (login_seq db) (to_string (un_display u))]
         \<and> query_userid (to_string (un_sysname u)) db'' = login_seq db
         \<and> (\<forall>later ip. fst (account_verify lower later token ip db'') = Inl (WeasylError ''logincreateRecordMissing'')))"
proof -
  define d where "d = delete_expired now db"
  obtain u' email' hashpass row where same: "username_create lower nfkd (sf_username form) = Inr u'"
      "normalize_address (sf_email form) = Some email'"
    and c: "hashpw env (sf_password form) salt = Inr hashpass" "password_secure (sf_password form)"
      "\<not> username_exists (to_string (un_sysname u')) d" "\<forall>lc \<in> set (t_logincreate d). lc_token lc \<noteq> token"
    and row: "lc_token row = token" "lc_username row = to_string (un_display u')" "lc_login_name row = to_string (un_sysname u')"
      "lc_hashpass row = hashpass" "lc_created_at row = now" "lc_invalid row = email_exists email' d"
      "\<not> lc_invalid row \<longrightarrow> lc_email row = email'" and db': "db' = d\<lparr>t_logincreate := t_logincreate d @ [row]\<rparr>"
    unfolding d_def by (rule create_ok [OF assms(2)])
  have uu: "u' = u" "email' = email" using same assms(3,4) by simp_all
  note c = c [unfolded uu] and row = row [unfolded uu]
  define e where "e = delete_expired now' db'"
  have "find Q (xs @ [x]) = (case find Q xs of None \<Rightarrow> if Q x then Some x else None | Some y \<Rightarrow> Some y)" for Q x and xs :: "logincreate_row list"
    by (induction xs) auto
  moreover have "find (\<lambda>lc. lc_token lc = token) (filter P (t_logincreate d)) = None" for P
    using c(4) by (auto simp: find_None_iff)
  moreover have "\<not> lc_created_at row < now' - 2 * 86400" using assms(6) row(5) by simp
  moreover have "t_logincreate e = filter (\<lambda>lc. \<not> lc_created_at lc < now' - 2 * 86400) (t_logincreate d @ [row])"
    by (simp add: e_def db' delete_expired_def delete_where_def)
  ultimately have found: "find (\<lambda>lc. lc_token lc = token) (t_logincreate e) = Some row"
    using row(1) by simp
  have tables: "t_login e = t_login db" "t_authbcrypt e = t_authbcrypt db" "t_profile e = t_profile db" "login_seq e = login_seq db"
    by (simp_all add: e_def db' d_def delete_expired_def)
  show ?thesis
  proof (cases "email_exists email d")
    case True
    then have "r = Inl (WeasylError ''logincreateRecordMissing'')" "db'' = e"
      using assms(8) found row(6) by (simp_all add: account_verify_def e_def [symmetric] Let_def)
    then show ?thesis using True c(2) tables by (simp add: d_def [symmetric])
  next
    case False
    have stored: "from_stored lower (ustr (lc_username row)) = Inr u"
      using stored_username [OF assms(3)] username_create_facts(1) [OF assms(3)] row(2) by simp
    obtain ids f where f: "get_updateids e = (ids, f)" by fastforce
    then obtain m where m: "f = e\<lparr>c_updateids := m\<rparr>"
      by (auto simp: get_updateids_def read_through_def Let_def split: option.splits intro: that [of "c_updateids e"])
    define upd where "upd = (case ids of [] \<Rightarrow> None | u # _ \<Rightarrow> Some u)"
    have verified: "(r, db'') = verify_transaction now' ip upd (to_string (un_sysname u)) (to_string (un_display u)) row f"
      using assms(8) found row(6) False stored f by (simp add: account_verify_def e_def [symmetric] Let_def upd_def)
    have free: "\<not> exists_where (\<lambda>lo. lo_login_name lo = to_string (un_sysname u)) (t_login f)"
      "\<not> exists_where (\<lambda>pr. pr_username pr = to_string (un_display u)) (t_profile f)"
      using c(3) assms(7) by (auto simp: username_exists_def exists_where_iff m tables d_def delete_expired_def)
    define lo where "lo = \<lparr>lo_userid = login_seq db, lo_login_name = to_string (un_sysname u), lo_last_login = now', lo_email = email,
      lo_twofa_secret = None, lo_ip_address_at_signup = ip, lo_voucher = None, lo_last_read_updateid = upd\<rparr>"
    define ab where "ab = \<lparr>ab_userid = login_seq db, ab_hashsum = hashpass\<rparr>"
    have r: "r = Inr ()" "t_login db'' = t_login db @ [lo]" "t_authbcrypt db'' = t_authbcrypt db @ [ab]"
      "t_profile db'' = t_profile db @ [initial_profile now' (login_seq db) (to_string (un_display u))]"
      "t_logincreate db'' = delete_where (\<lambda>lc. lc_token lc = token) (t_logincreate e)"
      using verified free row False by (simp_all add: verify_transaction_def Let_def m tables lo_def ab_def)
    have "names_ok lower db''"
      using names_ok_verify [of lower db' now' token ip] names_ok_create [OF assms(1), of nfkd env disposable now token salt mail form]
        assms(2,8) by simp
    moreover have "(to_string (un_sysname u), login_seq db) \<in> set (sysname_rows db'')"
      by (auto simp: sysname_rows_def r lo_def)
    ultimately have leads: "query_userid (to_string (un_sysname u)) db'' = login_seq db" by (rule query_userid_rows)
    have "find (\<lambda>lc. lc_token lc = token) (t_logincreate (delete_expired later db'')) = None" for later
      by (auto simp: find_None_iff delete_expired_def r(5) table_simps)
    then have "fst (account_verify lower later token ip db'') = Inl (WeasylError ''logincreateRecordMissing'')" for later ip
      by (simp add: account_verify_def Let_def)
    with False r leads c show ?thesis by (auto simp: d_def [symmetric] lo_def ab_def)
  qed
qed

theorem account_created_witness:
  "let form = \<lparr>sf_username = ustr ''Red Cat'', sf_email = '' cat@Example.COM'', sf_password = ''0123456789'', sf_age = Some ''13+''\<rparr>;
       db' = snd (account_create ascii_lower id plain_env (Inner (\<lambda>_. None)) 100 ''tok'' ''..'' (Inr ()) form account_db);
       db'' = snd (account_verify ascii_lower 200 ''tok'' None db')
   in map lo_email (t_login db'') = [''fox@weasyl.com'', ''cat@example.com''] \<and> query_userid ''redcat'' db'' = 8
      \<and> fst (account_verify ascii_lower 300 ''tok'' None db'') = Inl (WeasylError ''logincreateRecordMissing'')"
proof -
  define form where "form = \<lparr>sf_username = ustr ''Red Cat'', sf_email = '' cat@Example.COM'', sf_password = ''0123456789'', sf_age = Some ''13+''\<rparr>"
  define db' where "db' = snd (account_create ascii_lower id plain_env (Inner (\<lambda>_. None)) 100 ''tok'' ''..'' (Inr ()) form account_db)"
  define db'' where "db'' = snd (account_verify ascii_lower 200 ''tok'' None db')"
  define u where "u = \<lparr>un_display = ustr ''Red Cat'', un_sysname = ustr ''redcat''\<rparr>"
  have ok: "names_ok ascii_lower account_db"
    by (simp add: names_ok_def taken_names_def active_history_def account_db_def blank_db_def)
  have "fst (account_create ascii_lower id plain_env (Inner (\<lambda>_. None)) 100 ''tok'' ''..'' (Inr ()) form account_db) = Inr ()"
    unfolding form_def by code_simp
  then have created: "account_create ascii_lower id plain_env (Inner (\<lambda>_. None)) 100 ''tok'' ''..'' (Inr ()) form account_db = (Inr (), db')"
    unfolding db'_def by (metis prod.collapse)
  have uc: "username_create ascii_lower id (sf_username form) = Inr u" unfolding form_def u_def by code_simp
  have email: "normalize_address (sf_email form) = Some ''cat@example.com''" unfolding form_def by code_simp
  have free: "\<not> email_exists ''cat@example.com'' (delete_expired 100 account_db)" by code_simp
  have profiles: "\<forall>pr \<in> set (t_profile account_db). pr_username pr \<noteq> to_string (un_display u)"
    unfolding u_def by code_simp
  obtain r where v: "account_verify ascii_lower 200 ''tok'' None db' = (r, db'')"
    unfolding db''_def by (metis prod.collapse)
  note result = account_created [OF ok created uc email _ _ profiles v]
  have names: "to_string (un_sysname u) = ''redcat''" "login_seq account_db = 8" "map lo_email (t_login account_db) = [''fox@weasyl.com'']"
    unfolding u_def by code_simp+
  from result free names show ?thesis
    unfolding Let_def form_def [symmetric] db'_def [symmetric] db''_def [symmetric] by (auto simp: v)
qed

end
