(* ===== verification/Login_Sessions.thy ===== *)
theory Login_Sessions
  imports Accounts Relations
begin

text \<open>
  Logging in: \<open>authenticate_bcrypt\<close>, \<open>signin\<close> and \<open>signout\<close> of \<^verbatim>\<open>weasyl/login.py\<close>, the session of a request
  (\<open>session_tween\<close> and \<open>userid\<close> of \<^verbatim>\<open>weasyl/middleware.py\<close>), the pages that log a user in with one or two
  factors (\<^verbatim>\<open>weasyl/controllers/user.py\<close>), resetting a password (\<^verbatim>\<open>weasyl/resetpassword.py\<close>) and changing
  password or address (\<open>edit_email_password\<close>, \<open>invalidate_other_sessions\<close> of \<^verbatim>\<open>weasyl/profile.py\<close>). \<open>now\<close> is
  the database's clock in seconds since 1970; \<open>token\<close> a fresh session id; \<open>cookie\<close> the value of the
  cookie \<^verbatim>\<open>WZL\<close>, empty when there is none. Logging and metrics are left out; the requests are those of a
  browser, not of an API client.
\<close>

subsection \<open>Sessions\<close>

definition session_userid :: "session_row option \<Rightarrow> int" where
  "session_userid sess = (case sess of None \<Rightarrow> 0 | Some s \<Rightarrow> (case ss_userid s of None \<Rightarrow> 0 | Some u \<Rightarrow> u))"

definition find_session :: "string \<Rightarrow> 'a accounts_db_scheme \<Rightarrow> session_row option" where
  "find_session cookie db =
     (if cookie = [] then None else find (\<lambda>s. ss_sessionid s = cookie) (t_sessions db))"

definition SESSION_LAST_ACTIVE_UPDATE_THRESHOLD :: int where
  "SESSION_LAST_ACTIVE_UPDATE_THRESHOLD = 600"

definition session_tween :: "int \<Rightarrow> string \<Rightarrow> 'a accounts_db_scheme \<Rightarrow> session_row option \<times> 'a accounts_db_scheme" where
  "session_tween now cookie db =
     (case find_session cookie db of
        None \<Rightarrow> (None, db)
      | Some s \<Rightarrow>
          (Some s,
           if (case ss_last_active s of None \<Rightarrow> True | Some t \<Rightarrow> now - t > SESSION_LAST_ACTIVE_UPDATE_THRESHOLD)
           then db\<lparr>t_sessions := update_where (\<lambda>r. ss_sessionid r = ss_sessionid s)
                      (\<lambda>r. r\<lparr>ss_last_active := Some now\<rparr>) (t_sessions db)\<rparr>
           else db))"

definition create_session :: "int \<Rightarrow> string \<Rightarrow> int option \<Rightarrow> session_row" where
  "create_session now token userid =
     \<lparr>ss_sessionid = token, ss_created_at = now, ss_last_active = Some now, ss_userid = userid,
      ss_additional_data = [], ss_ip_address = None, ss_user_agent_id = None\<rparr>"

text \<open>\<open>tx.add\<close> of a new session: its id is the primary key.\<close>

definition add_session :: "session_row \<Rightarrow> 'a accounts_db_scheme \<Rightarrow> session_row result \<times> 'a accounts_db_scheme" where
  "add_session sess db =
     (if exists_where (\<lambda>s. ss_sessionid s = ss_sessionid sess) (t_sessions db) then (Inl IntegrityError, db)
      else (Inr sess, db\<lparr>t_sessions := t_sessions db @ [sess]\<rparr>))"

text \<open>The upsert takes an id from the sequence in either case.\<close>

definition get_user_agent_id :: "string \<Rightarrow> 'a accounts_db_scheme \<Rightarrow> int option \<times> 'a accounts_db_scheme" where
  "get_user_agent_id ua_string db =
     (if ua_string = [] then (None, db)
      else
        (let ua = take 1024 ua_string
         in case find (\<lambda>r. ua_user_agent r = ua) (t_user_agents db) of
              Some r \<Rightarrow> (Some (ua_user_agent_id r), db\<lparr>user_agent_seq := user_agent_seq db + 1\<rparr>)
            | None \<Rightarrow>
                (Some (user_agent_seq db),
                 db\<lparr>t_user_agents := t_user_agents db @ [\<lparr>ua_user_agent_id = user_agent_seq db, ua_user_agent = ua\<rparr>],
                    user_agent_seq := user_agent_seq db + 1\<rparr>)))"

text \<open>\<open>request_userid\<close> is \<open>request.userid\<close>. The session and \<open>last_login\<close> are one transaction, the user agent is not.\<close>

definition signin ::
  "int \<Rightarrow> string \<Rightarrow> int \<Rightarrow> int \<Rightarrow> string option \<Rightarrow> string \<Rightarrow> 'a accounts_db_scheme \<Rightarrow> session_row result \<times> 'a accounts_db_scheme" where
  "signin now token request_userid userid ip_address user_agent db =
     (if request_userid \<noteq> 0 then (Inl (WeasylError ''Unexpected''), db)
      else
        (let (agent, db) = get_user_agent_id user_agent db;
             sess = (create_session now token (Some userid))\<lparr>ss_ip_address := ip_address, ss_user_agent_id := agent\<rparr>
         in and_then (add_session sess db) (\<lambda>sess db.
              (Inr sess,
               db\<lparr>t_login := update_where (\<lambda>lo. lo_userid lo = userid) (\<lambda>lo. lo\<lparr>lo_last_login := now\<rparr>) (t_login db)\<rparr>))))"

definition signout :: "session_row \<Rightarrow> 'a accounts_db_scheme \<Rightarrow> 'a accounts_db_scheme" where
  "signout sess db = db\<lparr>t_sessions := delete_where (\<lambda>s. ss_sessionid s = ss_sessionid sess) (t_sessions db)\<rparr>"

subsection \<open>Checking a password\<close>

datatype auth_result =
    Success int
  | SecondFactorRequired int
  | InvalidCredentials bool bool
  | Banned int
  | Suspended int

definition former_username_exists :: "string \<Rightarrow> int option \<Rightarrow> 'a accounts_db_scheme \<Rightarrow> bool" where
  "former_username_exists sysname found_user db =
     exists_where (\<lambda>uh. uh_login_name uh = sysname \<and> Some (uh_userid uh) \<noteq> found_user) (t_username_history db)"

definition get_suspension :: "int \<Rightarrow> 'a accounts_db_scheme \<Rightarrow> suspension_row option" where
  "get_suspension userid db = find (\<lambda>sp. sp_userid sp = userid) (t_suspension db)"

text \<open>
  The decision on an account whose password matched. \<open>session\<close> is \<open>None\<close> when the caller passes no request;
  otherwise it logs the user in.
\<close>

definition admit_user ::
  "int \<Rightarrow> int \<Rightarrow> bool \<Rightarrow> bool \<Rightarrow> string option
     \<Rightarrow> ('a accounts_db_scheme \<Rightarrow> session_row result \<times> 'a accounts_db_scheme) option
     \<Rightarrow> 'a accounts_db_scheme \<Rightarrow> (auth_result \<times> session_row option) result \<times> 'a accounts_db_scheme" where
  "admit_user now userid banned suspended twofa session db =
     (if banned then (Inr (Banned userid, None), db)
      else
        and_then
          (if suspended then
             (case get_suspension userid db of
                None \<Rightarrow> (Inl AttributeError, db)
              | Some suspension \<Rightarrow>
                  if now + UNIXTIME_OFFSET > sp_release suspension then
                    (Inr True,
                     all_config_invalidate userid
                       (db\<lparr>t_suspension := delete_where (\<lambda>sp. sp_userid sp = userid) (t_suspension db)\<rparr>))
                  else (Inr False, db))
           else (Inr True, db))
          (\<lambda>released db.
            if \<not> released then (Inr (Suspended userid, None), db)
            else
              (case session of
                 None \<Rightarrow> (Inr (Success userid, None), db)
               | Some log_in \<Rightarrow>
                   if twofa \<noteq> None \<and> twofa \<noteq> Some [] then (Inr (SecondFactorRequired userid, None), db)
                   else and_then (log_in db) (\<lambda>sess db. (Inr (Success userid, Some sess), db)))))"

definition authenticate_bcrypt ::
  "tfa_env \<Rightarrow> (ustr \<Rightarrow> ustr) \<Rightarrow> (ustr \<Rightarrow> ustr) \<Rightarrow> int \<Rightarrow> ustr \<Rightarrow> string
     \<Rightarrow> (int \<Rightarrow> 'a accounts_db_scheme \<Rightarrow> session_row result \<times> 'a accounts_db_scheme) option
     \<Rightarrow> 'a accounts_db_scheme \<Rightarrow> (auth_result \<times> session_row option) result \<times> 'a accounts_db_scheme" where
  "authenticate_bcrypt env lower nfkd now username password session db =
     (case parse_sysname lower nfkd username of
        None \<Rightarrow> (Inr (InvalidCredentials False False, None), db)
      | Some parsed \<Rightarrow>
          if password = [] then (Inr (InvalidCredentials False False, None), db)
          else
            (let sysname = to_string parsed
             in case find (\<lambda>lo. lo_login_name lo = sysname) (t_login db) of
                  None \<Rightarrow> (Inr (InvalidCredentials False (former_username_exists sysname None db), None), db)
                | Some lo \<Rightarrow>
                    (case find (\<lambda>ab. ab_userid ab = lo_userid lo) (t_authbcrypt db) of
                       None \<Rightarrow> (Inl AttributeError, db)
                     | Some ab \<Rightarrow>
                         and_then (get_login_settings (lo_userid lo) db) (\<lambda>(banned, suspended) db.
                           (case checkpw env password (ab_hashsum ab) of
                              Inl e \<Rightarrow> (Inl e, db)
                            | Inr False \<Rightarrow>
                                (Inr (InvalidCredentials True (former_username_exists sysname (Some (lo_userid lo)) db), None), db)
                            | Inr True \<Rightarrow>
                                admit_user now (lo_userid lo) banned suspended (lo_twofa_secret lo)
                                  (map_option (\<lambda>log_in. log_in (lo_userid lo)) session) db)))))"

subsection \<open>The login pages\<close>

datatype login_page =
    LoggedIn session_row
  | LeakedCredentials
  | AskSecondFactor session_row
  | BadCredentials bool bool
  | BanMessage int
  | SuspensionMessage int

text \<open>\<open>RuntimeError\<close> is represented by \<open>AssertionError\<close>: the account has a second factor but no recovery code.\<close>

definition second_factor_session :: "int \<Rightarrow> string \<Rightarrow> int \<Rightarrow> session_row" where
  "second_factor_session now token userid =
     (create_session now token None)\<lparr>ss_additional_data :=
        [(''2fa_pwd_auth_timestamp'', J_int now), (''2fa_pwd_auth_userid'', J_int userid),
         (''2fa_pwd_auth_attempts'', J_int 0)]\<rparr>"

definition signin_post ::
  "tfa_env \<Rightarrow> (ustr \<Rightarrow> ustr) \<Rightarrow> (ustr \<Rightarrow> ustr) \<Rightarrow> int \<Rightarrow> string \<Rightarrow> string \<Rightarrow> bool \<Rightarrow> string option \<Rightarrow> string
     \<Rightarrow> ustr \<Rightarrow> string \<Rightarrow> 'a accounts_db_scheme \<Rightarrow> login_page result \<times> 'a accounts_db_scheme" where
  "signin_post env lower nfkd now cookie token credentials_leaked ip_address user_agent username password db =
     (let (sess, db) = session_tween now cookie db
      in if session_userid sess \<noteq> 0 then (Inl (WeasylError ''signed''), db)
         else
           and_then (authenticate_bcrypt env lower nfkd now username password
                       (if credentials_leaked then None
                        else Some (\<lambda>userid. signin now token 0 userid ip_address user_agent)) db)
             (\<lambda>(auth, sess) db.
               case auth of
                 Success logid \<Rightarrow> (Inr (case sess of None \<Rightarrow> LeakedCredentials | Some s \<Rightarrow> LoggedIn s), db)
               | SecondFactorRequired logid \<Rightarrow>
                   if get_number_of_recovery_codes logid db = 0 then (Inl AssertionError, db)
                   else and_then (add_session (second_factor_session now token logid) db) (\<lambda>s db. (Inr (AskSecondFactor s), db))
               | InvalidCredentials exists_now exists_before \<Rightarrow> (Inr (BadCredentials exists_now exists_before), db)
               | Banned logid \<Rightarrow> (Inr (BanMessage logid), db)
               | Suspended logid \<Rightarrow> (Inr (SuspensionMessage logid), db)))"

text \<open>The integer under a key of \<open>additional_data\<close>; a value of another type cannot occur.\<close>

definition data_int :: "string \<Rightarrow> session_row \<Rightarrow> int option" where
  "data_int key sess = (case map_of (ss_additional_data sess) key of Some (J_int n) \<Rightarrow> Some n | _ \<Rightarrow> None)"

definition count_attempt :: "session_row \<Rightarrow> 'a accounts_db_scheme \<Rightarrow> 'a accounts_db_scheme" where
  "count_attempt sess db =
     db\<lparr>t_sessions := update_where (\<lambda>s. ss_sessionid s = ss_sessionid sess)
          (\<lambda>s. s\<lparr>ss_additional_data := AList.update ''2fa_pwd_auth_attempts''
             (J_int ((case data_int ''2fa_pwd_auth_attempts'' sess of None \<Rightarrow> 0 | Some n \<Rightarrow> n) + 1)) (ss_additional_data sess)\<rparr>)
          (t_sessions db)\<rparr>"

text \<open>
  The pages of the second factor. A page loads the session of the request first and works on this copy:
  \<open>second_factor_get\<close> and \<open>second_factor_post\<close> are what it does with the loaded session.
\<close>

definition second_factor_get :: "int \<Rightarrow> session_row option \<Rightarrow> 'a accounts_db_scheme \<Rightarrow> login_page result \<times> 'a accounts_db_scheme" where
  "second_factor_get now found db =
     (case found of
        None \<Rightarrow> (Inl (WeasylError ''InsufficientPermissions''), db)
      | Some sess \<Rightarrow>
          (case data_int ''2fa_pwd_auth_userid'' sess of
             None \<Rightarrow> (Inl (WeasylError ''InsufficientPermissions''), db)
           | Some tfa_userid \<Rightarrow>
               (case data_int ''2fa_pwd_auth_timestamp'' sess of
                  None \<Rightarrow> (Inl KeyError, db)
                | Some since \<Rightarrow>
                    if now - since > 300 then
                      (Inl (WeasylError ''TwoFactorAuthenticationAuthenticationTimeout''), signout sess db)
                    else and_then (get_display_name tfa_userid db) (\<lambda>_ db. (Inr (AskSecondFactor sess), db)))))"

text \<open>What follows a response that is not right.\<close>

definition wrong_response :: "session_row \<Rightarrow> 'a accounts_db_scheme \<Rightarrow> login_page result \<times> 'a accounts_db_scheme" where
  "wrong_response sess db =
     (case data_int ''2fa_pwd_auth_attempts'' sess of
        None \<Rightarrow> (Inl KeyError, db)
      | Some attempts \<Rightarrow>
          if attempts \<ge> 5 then
            (Inl (WeasylError ''TwoFactorAuthenticationAuthenticationAttemptsExceeded''), signout sess db)
          else (Inr (AskSecondFactor sess), count_attempt sess db))"

definition right_response ::
  "int \<Rightarrow> string \<Rightarrow> string option \<Rightarrow> string \<Rightarrow> session_row \<Rightarrow> int \<Rightarrow> 'a accounts_db_scheme \<Rightarrow> login_page result \<times> 'a accounts_db_scheme" where
  "right_response now token ip_address user_agent sess tfa_userid db =
     and_then (signin now token 0 tfa_userid ip_address user_agent (signout sess db)) (\<lambda>new_sess db.
       if get_number_of_recovery_codes tfa_userid db = 0 then
         (Inl (WeasylError ''TwoFactorAuthenticationZeroRecoveryCodesRemaining''), force_deactivate tfa_userid db)
       else (Inr (LoggedIn new_sess), db))"

definition second_factor_post ::
  "tfa_env \<Rightarrow> int \<Rightarrow> string \<Rightarrow> string option \<Rightarrow> string \<Rightarrow> string \<Rightarrow> session_row option \<Rightarrow> 'a accounts_db_scheme
     \<Rightarrow> login_page result \<times> 'a accounts_db_scheme" where
  "second_factor_post env now token ip_address user_agent response found db =
     (case found of
        None \<Rightarrow> (Inl (WeasylError ''InsufficientPermissions''), db)
      | Some sess \<Rightarrow>
          (case data_int ''2fa_pwd_auth_userid'' sess of
             None \<Rightarrow> (Inl (WeasylError ''InsufficientPermissions''), db)
           | Some tfa_userid \<Rightarrow>
               (case data_int ''2fa_pwd_auth_timestamp'' sess of
                  None \<Rightarrow> (Inl KeyError, db)
                | Some since \<Rightarrow>
                    if now - since > 300 then
                      (Inl (WeasylError ''TwoFactorAuthenticationAuthenticationTimeout''), signout sess db)
                    else
                      and_then (tfa_verify env tfa_userid response True db) (\<lambda>ok db.
                        if ok then right_response now token ip_address user_agent sess tfa_userid db
                        else wrong_response sess db))))"

definition signin_2fa_auth_get :: "int \<Rightarrow> string \<Rightarrow> 'a accounts_db_scheme \<Rightarrow> login_page result \<times> 'a accounts_db_scheme" where
  "signin_2fa_auth_get now cookie db =
     (let (found, db) = session_tween now cookie db
      in if session_userid found \<noteq> 0 then (Inl (WeasylError ''signed''), db) else second_factor_get now found db)"

definition signin_2fa_auth_post ::
  "tfa_env \<Rightarrow> int \<Rightarrow> string \<Rightarrow> string \<Rightarrow> string option \<Rightarrow> string \<Rightarrow> string \<Rightarrow> 'a accounts_db_scheme
     \<Rightarrow> login_page result \<times> 'a accounts_db_scheme" where
  "signin_2fa_auth_post env now cookie token ip_address user_agent response db =
     (let (found, db) = session_tween now cookie db
      in if session_userid found \<noteq> 0 then (Inl (WeasylError ''signed''), db)
         else second_factor_post env now token ip_address user_agent response found db)"

definition signout_page :: "int \<Rightarrow> string \<Rightarrow> 'a accounts_db_scheme \<Rightarrow> 'a accounts_db_scheme" where
  "signout_page now cookie db =
     (let (found, db) = session_tween now cookie db
      in case found of
           None \<Rightarrow> db
         | Some sess \<Rightarrow> if session_userid found \<noteq> 0 then signout sess db else db)"

subsection \<open>Ending sessions\<close>

definition invalidate_other_sessions :: "session_row option \<Rightarrow> int \<Rightarrow> 'a accounts_db_scheme \<Rightarrow> 'a accounts_db_scheme" where
  "invalidate_other_sessions sess userid db =
     db\<lparr>t_sessions := delete_where (\<lambda>s. ss_userid s = Some userid
          \<and> ss_sessionid s \<noteq> (case sess of None \<Rightarrow> [] | Some s \<Rightarrow> ss_sessionid s)) (t_sessions db)\<rparr>"

subsection \<open>Resetting a password\<close>

text \<open>\<open>sha256\<close> of hashlib, applied to the bytes of an ASCII text.\<close>

definition hash_token :: "(string \<Rightarrow> string) \<Rightarrow> string \<Rightarrow> string result" where
  "hash_token sha256 token = (case encode_ascii token of Inl e \<Rightarrow> Inl e | Inr s \<Rightarrow> Inr (sha256 s))"

definition resetpassword_request ::
  "(string \<Rightarrow> string) \<Rightarrow> int \<Rightarrow> string \<Rightarrow> unit result \<Rightarrow> string \<Rightarrow> 'a accounts_db_scheme \<Rightarrow> unit result \<times> 'a accounts_db_scheme" where
  "resetpassword_request sha256 now token mail email db =
     (case hash_token sha256 token of
        Inl e \<Rightarrow> (Inl e, db)
      | Inr token_sha256 \<Rightarrow>
          (case normalize_address email of
             None \<Rightarrow> (Inl (WeasylError ''emailInvalid''), db)
           | Some email \<Rightarrow>
               if exists_where (\<lambda>fp. fp_token_sha256 fp = token_sha256) (t_forgotpassword db) then (Inl IntegrityError, db)
               else
                 (mail, db\<lparr>t_forgotpassword := t_forgotpassword db @
                    [\<lparr>fp_token_sha256 = token_sha256, fp_email = email, fp_created_at = now\<rparr>]\<rparr>)))"

record reset_target =
  rt_userid :: int
  rt_email :: string
  rt_username :: string

definition find_reset_target :: "string \<Rightarrow> 'a accounts_db_scheme \<Rightarrow> reset_target option" where
  "find_reset_target email db =
     (let matches = List.map_filter (\<lambda>lo. map_option
            (\<lambda>pr. \<lparr>rt_userid = lo_userid lo, rt_email = lo_email lo, rt_username = pr_username pr\<rparr>)
            (profile_of (lo_userid lo) db))
          (filter (\<lambda>lo. lower_ascii (lo_email lo) = lower_ascii email) (t_login db))
      in case find (\<lambda>m. rt_email m = email) matches of
           Some m \<Rightarrow> Some m
         | None \<Rightarrow> (case matches of [] \<Rightarrow> None | m # _ \<Rightarrow> Some m))"

datatype prepared = Invalid_token | Unregistered string | Registered reset_target

definition resetpassword_prepare ::
  "(string \<Rightarrow> string) \<Rightarrow> int \<Rightarrow> string \<Rightarrow> 'a accounts_db_scheme \<Rightarrow> prepared result \<times> 'a accounts_db_scheme" where
  "resetpassword_prepare sha256 now token db =
     (case hash_token sha256 token of
        Inl e \<Rightarrow> (Inl e, db)
      | Inr token_sha256 \<Rightarrow>
          let db = db\<lparr>t_forgotpassword := delete_where (\<lambda>fp. fp_created_at fp < now - 3600) (t_forgotpassword db)\<rparr>
          in (Inr (case find (\<lambda>fp. fp_token_sha256 fp = token_sha256) (t_forgotpassword db) of
                     None \<Rightarrow> Invalid_token
                   | Some fp \<Rightarrow>
                       (case find_reset_target (fp_email fp) db of
                          None \<Rightarrow> Unregistered (fp_email fp)
                        | Some target \<Rightarrow> Registered target)),
              db))"

definition set_password :: "int \<Rightarrow> string \<Rightarrow> 'a accounts_db_scheme \<Rightarrow> 'a accounts_db_scheme" where
  "set_password userid hashsum db =
     db\<lparr>t_authbcrypt := update_where (\<lambda>ab. ab_userid ab = userid) (\<lambda>ab. ab\<lparr>ab_hashsum := hashsum\<rparr>) (t_authbcrypt db)\<rparr>"

text \<open>One transaction, rolled back when it raises.\<close>

definition reset_transaction ::
  "tfa_env \<Rightarrow> int \<Rightarrow> string \<Rightarrow> string \<Rightarrow> string \<Rightarrow> int \<Rightarrow> string \<Rightarrow> 'a accounts_db_scheme \<Rightarrow> unit result \<times> 'a accounts_db_scheme" where
  "reset_transaction env now salt token_sha256 password expect_userid address db =
     (let hit = (\<lambda>fp. fp_token_sha256 fp = token_sha256 \<and> fp_created_at fp \<ge> now - 3600)
      in case find hit (t_forgotpassword db) of
           None \<Rightarrow> (Inl (WeasylError ''forgotpasswordRecordMissing''), db)
         | Some fp \<Rightarrow>
             (case find_reset_target (fp_email fp) db of
                None \<Rightarrow> (Inl (WeasylError ''forgotpasswordRecordMissing''), db)
              | Some match \<Rightarrow>
                  if rt_userid match \<noteq> expect_userid then (Inl (WeasylError ''forgotpasswordRecordMissing''), db)
                  else
                    (case hashpw env password salt of
                       Inl e \<Rightarrow> (Inl e, db)
                     | Inr hashsum \<Rightarrow>
                         if count_where (\<lambda>ab. ab_userid ab = rt_userid match) (t_authbcrypt db) \<noteq> 1
                         then (Inl (WeasylError ''Unexpected''), db)
                         else
                           (let db = set_password (rt_userid match) hashsum
                                       (db\<lparr>t_forgotpassword := delete_where hit (t_forgotpassword db)\<rparr>)
                            in (Inr (),
                                db\<lparr>t_user_events := t_user_events db @
                                     [\<lparr>ue_eventid = event_seq db, ue_userid = rt_userid match, ue_event = ''password-reset'',
                                       ue_data = [(''address'', J_string address)], ue_occurred = now\<rparr>],
                                   event_seq := event_seq db + 1\<rparr>)))))"

definition resetpassword_reset ::
  "tfa_env \<Rightarrow> (string \<Rightarrow> string) \<Rightarrow> int \<Rightarrow> string \<Rightarrow> string \<Rightarrow> string \<Rightarrow> int \<Rightarrow> string \<Rightarrow> 'a accounts_db_scheme
     \<Rightarrow> unit result \<times> 'a accounts_db_scheme" where
  "resetpassword_reset env sha256 now salt token password expect_userid address db =
     (case hash_token sha256 token of
        Inl e \<Rightarrow> (Inl e, db)
      | Inr token_sha256 \<Rightarrow>
          if \<not> password_secure password then (Inl (WeasylError ''passwordInsecure''), db)
          else reset_transaction env now salt token_sha256 password expect_userid address db)"

text \<open>The page; \<open>sess\<close> is the session of the guest, if any.\<close>

definition resetpassword_post ::
  "tfa_env \<Rightarrow> (string \<Rightarrow> string) \<Rightarrow> int \<Rightarrow> string \<Rightarrow> session_row option \<Rightarrow> string \<Rightarrow> string \<Rightarrow> int \<Rightarrow> string
     \<Rightarrow> 'a accounts_db_scheme \<Rightarrow> unit result \<times> 'a accounts_db_scheme" where
  "resetpassword_post env sha256 now salt sess token password expect_userid address db =
     and_then (resetpassword_reset env sha256 now salt token password expect_userid address db) (\<lambda>_ db.
       (Inr (), invalidate_other_sessions sess expect_userid db))"

text \<open>What the page of the mailed link shows.\<close>

datatype reset_page = LinkNotValid | NotAssociated string | ResetForm reset_target

definition resetpassword_get ::
  "(string \<Rightarrow> string) \<Rightarrow> int \<Rightarrow> string \<Rightarrow> 'a accounts_db_scheme \<Rightarrow> reset_page result \<times> 'a accounts_db_scheme" where
  "resetpassword_get sha256 now token db =
     and_then (resetpassword_prepare sha256 now token db) (\<lambda>reset_target db.
       (Inr (case reset_target of
               Invalid_token \<Rightarrow> LinkNotValid
             | Unregistered email \<Rightarrow> NotAssociated email
             | Registered target \<Rightarrow> ResetForm target), db))"

text \<open>
  The three pages with the session of the request: each loads it and turns away an account that is signed in.
  \<open>turnstile\<close> is the outcome of \<open>turnstile.require\<close>.
\<close>

definition forgetpassword_page ::
  "(string \<Rightarrow> string) \<Rightarrow> int \<Rightarrow> string \<Rightarrow> unit result \<Rightarrow> string \<Rightarrow> unit result \<Rightarrow> string \<Rightarrow> 'a accounts_db_scheme
     \<Rightarrow> unit result \<times> 'a accounts_db_scheme" where
  "forgetpassword_page sha256 now cookie turnstile token mail email db =
     (let (found, db) = session_tween now cookie db
      in if session_userid found \<noteq> 0 then (Inl (WeasylError ''signed''), db)
         else and_then (turnstile, db) (\<lambda>_ db. resetpassword_request sha256 now token mail email db))"

definition resetpassword_link_page ::
  "(string \<Rightarrow> string) \<Rightarrow> int \<Rightarrow> string \<Rightarrow> string \<Rightarrow> 'a accounts_db_scheme \<Rightarrow> reset_page result \<times> 'a accounts_db_scheme" where
  "resetpassword_link_page sha256 now cookie token db =
     (let (found, db) = session_tween now cookie db
      in if session_userid found \<noteq> 0 then (Inl (WeasylError ''signed''), db)
         else resetpassword_get sha256 now token db)"

definition resetpassword_form_page ::
  "tfa_env \<Rightarrow> (string \<Rightarrow> string) \<Rightarrow> int \<Rightarrow> string \<Rightarrow> string \<Rightarrow> string \<Rightarrow> string \<Rightarrow> int \<Rightarrow> string \<Rightarrow> 'a accounts_db_scheme
     \<Rightarrow> unit result \<times> 'a accounts_db_scheme" where
  "resetpassword_form_page env sha256 now cookie salt token password expect_userid address db =
     (let (found, db) = session_tween now cookie db
      in if session_userid found \<noteq> 0 then (Inl (WeasylError ''signed''), db)
         else resetpassword_post env sha256 now salt found token password expect_userid address db)"

subsection \<open>Changing address and password\<close>

text \<open>
  The messages of the page are left out: the result tells whether an address change is pending and whether
  the password was changed. \<open>str.lower\<close> is the argument \<open>lower\<close>.
\<close>

definition request_email_change ::
  "int \<Rightarrow> string \<Rightarrow> int \<Rightarrow> string \<Rightarrow> 'a accounts_db_scheme \<Rightarrow> unit result \<times> 'a accounts_db_scheme" where
  "request_email_change now token userid newemail db =
     (let row = \<lparr>ev_userid = userid, ev_email = newemail, ev_createtimestamp = now, ev_token = token\<rparr>
      in if exists_where (\<lambda>ev. ev_userid ev \<noteq> userid \<and> ev_email ev = newemail) (t_emailverify db) then (Inl IntegrityError, db)
         else if exists_where (\<lambda>ev. ev_userid ev = userid) (t_emailverify db) then
           (Inr (), db\<lparr>t_emailverify := update_where (\<lambda>ev. ev_userid ev = userid) (\<lambda>_. row) (t_emailverify db)\<rparr>)
         else (Inr (), db\<lparr>t_emailverify := t_emailverify db @ [row]\<rparr>))"

definition edit_email_password ::
  "tfa_env \<Rightarrow> (string \<Rightarrow> string) \<Rightarrow> int \<Rightarrow> string \<Rightarrow> string \<Rightarrow> unit result \<Rightarrow> session_row option \<Rightarrow> int \<Rightarrow> string
     \<Rightarrow> string \<Rightarrow> string \<Rightarrow> 'a accounts_db_scheme \<Rightarrow> (bool \<times> bool) result \<times> 'a accounts_db_scheme" where
  "edit_email_password env lower now token salt mail sess userid password newemail newpassword db =
     (case authenticate_account_change env userid password db of
        Inl e \<Rightarrow> (Inl e, db)
      | Inr current_email \<Rightarrow>
          if newpassword \<noteq> [] \<and> \<not> password_secure newpassword then (Inl (WeasylError ''passwordInsecure''), db)
          else
            (let pending = (newemail \<noteq> [] \<and> lower newemail \<noteq> lower current_email)
             in and_then
                  (if \<not> pending then (Inr (), db)
                   else if \<not> email_exists newemail db then
                     and_then (request_email_change now token userid newemail db) (\<lambda>_ db.
                       and_then (get_display_name userid db) (\<lambda>_ db. (mail, db)))
                   else (mail, db))
                  (\<lambda>_ db.
                    if newpassword \<noteq> [] then
                      (case hashpw env newpassword salt of
                         Inl e \<Rightarrow> (Inl e, db)
                       | Inr new_hash \<Rightarrow>
                           (Inr (pending, True), invalidate_other_sessions sess userid (set_password userid new_hash db)))
                    else (Inr (pending, False), db))))"

subsection \<open>Vouching\<close>

text \<open>\<open>lower\<close> is \<open>str.lower\<close>; the result is the name of the profile the page leads to.\<close>

definition vouch_update :: "int \<Rightarrow> int \<Rightarrow> 'a accounts_db_scheme \<Rightarrow> bool \<times> 'a accounts_db_scheme" where
  "vouch_update voucher target db =
     (let hit = (\<lambda>lo. lo_userid lo = target \<and> lo_voucher lo = None)
      in (exists_where hit (t_login db),
          db\<lparr>t_login := update_where hit (\<lambda>lo. lo\<lparr>lo_voucher := Some voucher\<rparr>) (t_login db)\<rparr>))"

definition try_get_username :: "(ustr \<Rightarrow> ustr) \<Rightarrow> int \<Rightarrow> 'a accounts_db_scheme \<Rightarrow> Username option result \<times> 'a accounts_db_scheme" where
  "try_get_username lower userid db =
     (let (username, db) = read_display_name userid db
      in case username of
           None \<Rightarrow> (Inr None, db)
         | Some username \<Rightarrow> (map_sum id Some (from_stored lower (ustr username)), db))"

definition vouch_page ::
  "(ustr \<Rightarrow> ustr) \<Rightarrow> unit result \<Rightarrow> int \<Rightarrow> int \<Rightarrow> 'a accounts_db_scheme \<Rightarrow> ustr result \<times> 'a accounts_db_scheme" where
  "vouch_page lower mail userid targetid db =
     and_then (if userid = 0 then (Inl (WeasylError ''unsigned''), db) else get_is_vouched_for userid db) (\<lambda>vouched db.
       if \<not> vouched then (Inl (WeasylError ''vouchRequired''), db)
       else
         (let (updated, db) = vouch_update userid targetid db
          in and_then (try_get_username lower targetid db) (\<lambda>target_username db.
               and_then
                 (if \<not> updated then (Inr (), db)
                  else
                    (let db = all_config_invalidate targetid db
                     in (case target_username of None \<Rightarrow> Inl AttributeError | Some _ \<Rightarrow> mail, db)))
                 (\<lambda>_ db.
                   case target_username of
                     None \<Rightarrow> (if updated then Inl AssertionError else Inl (WeasylError ''Unexpected''), db)
                   | Some username \<Rightarrow> (Inr (un_sysname username), db)))))"

section \<open>Facts\<close>

subsection \<open>What an operation leaves of the settings and the sessions\<close>

text \<open>Everything \<open>query_all_config\<close> and its cache read.\<close>

definition config_inputs :: "'a accounts_db_scheme \<Rightarrow> (int \<times> int option) list \<times> profile_row list \<times> permaban_row list
    \<times> suspension_row list \<times> (int \<Rightarrow> all_config option)" where
  "config_inputs db = (map (\<lambda>lo. (lo_userid lo, lo_voucher lo)) (t_login db), t_profile db, t_permaban db,
     t_suspension db, c_all_config db)"

lemma find_map_pair:
  "find (\<lambda>r. key r = k) rows = None \<longleftrightarrow> map_of (map (\<lambda>r. (key r, val r)) rows) k = None"
  "find (\<lambda>r. key r = k) rows = Some r \<Longrightarrow> map_of (map (\<lambda>r. (key r, val r)) rows) k = Some (val r)"
  by (induction rows) (auto split: if_splits)

lemma query_all_config_inputs:
  assumes "config_inputs db' = config_inputs db"
  shows "query_all_config userid db' = query_all_config userid db"
proof -
  have pairs: "map_of (map (\<lambda>lo. (lo_userid lo, lo_voucher lo)) (t_login db')) userid
      = map_of (map (\<lambda>lo. (lo_userid lo, lo_voucher lo)) (t_login db)) userid"
    and rest: "t_profile db' = t_profile db" "t_permaban db' = t_permaban db" "t_suspension db' = t_suspension db"
    using assms by (simp_all add: config_inputs_def)
  show ?thesis
  proof (cases "find (\<lambda>lo. lo_userid lo = userid) (t_login db)")
    case None
    then have "find (\<lambda>lo. lo_userid lo = userid) (t_login db') = None"
      using pairs by (simp add: find_map_pair(1) [where val = lo_voucher])
    with None show ?thesis by (simp add: query_all_config_def)
  next
    case (Some lo)
    have "find (\<lambda>lo. lo_userid lo = userid) (t_login db') \<noteq> None"
      using Some pairs by (simp add: find_map_pair(1) [where val = lo_voucher] find_map_pair(2))
    then obtain lo' where lo': "find (\<lambda>lo. lo_userid lo = userid) (t_login db') = Some lo'" by blast
    have "lo_voucher lo' = lo_voucher lo"
      using find_map_pair(2) [OF Some, of lo_voucher] find_map_pair(2) [OF lo', of lo_voucher] pairs by simp
    with Some lo' rest show ?thesis by (simp add: query_all_config_def split: option.splits)
  qed
qed

lemma config_inputs_ok: "config_inputs db' = config_inputs db \<Longrightarrow> config_cache_ok db \<Longrightarrow> config_cache_ok db'"
proof -
  assume same: "config_inputs db' = config_inputs db" and "config_cache_ok db"
  moreover from same have "c_all_config db' = c_all_config db" by (simp add: config_inputs_def)
  ultimately show ?thesis
    using query_all_config_inputs [OF same] by (simp add: coherent_def peek_all_config_def)
qed

lemma login_pairs_update:
  "(\<And>lo. lo_userid (f lo) = lo_userid lo \<and> lo_voucher (f lo) = lo_voucher lo)
   \<Longrightarrow> map (\<lambda>lo. (lo_userid lo, lo_voucher lo)) (update_where P f rows) = map (\<lambda>lo. (lo_userid lo, lo_voucher lo)) rows"
  by (simp add: update_where_def)

text \<open>The part of a session row that decides who may enter.\<close>

definition session_claim :: "session_row \<Rightarrow> string \<times> int option \<times> (string \<times> json) list" where
  "session_claim s = (ss_sessionid s, ss_userid s, ss_additional_data s)"

definition session_claims :: "'a accounts_db_scheme \<Rightarrow> (string \<times> int option \<times> (string \<times> json) list) set" where
  "session_claims db = session_claim ` set (t_sessions db)"

lemma tween_facts:
  assumes "session_tween now cookie db = (found, db')"
  shows "session_claims db' = session_claims db" "config_inputs db' = config_inputs db"
    and "found = find_session cookie db" "\<exists>rows. db' = db\<lparr>t_sessions := rows\<rparr>"
proof -
  have claims: "session_claim ` set (update_where P (\<lambda>r. r\<lparr>ss_last_active := t\<rparr>) rows) = session_claim ` set rows" for P t rows
  proof -
    have "map session_claim (update_where P (\<lambda>r. r\<lparr>ss_last_active := t\<rparr>) rows) = map session_claim rows"
      by (rule map_key_update_where) (simp add: session_claim_def)
    then show ?thesis by (metis set_map)
  qed
  have found: "found = find_session cookie db"
    and cases: "db' = db \<or> (\<exists>P. db' = db\<lparr>t_sessions := update_where P (\<lambda>r. r\<lparr>ss_last_active := Some now\<rparr>) (t_sessions db)\<rparr>)"
    using assms by (auto simp: session_tween_def split: option.splits if_splits)
  show "found = find_session cookie db" by (rule found)
  from cases show "session_claims db' = session_claims db"
    by (elim disjE exE) (simp_all add: session_claims_def claims)
  from cases show "config_inputs db' = config_inputs db"
    by (elim disjE exE) (simp_all add: config_inputs_def)
  from cases show "\<exists>rows. db' = db\<lparr>t_sessions := rows\<rparr>"
  proof
    assume "db' = db"
    then have "db' = db\<lparr>t_sessions := t_sessions db\<rparr>" by simp
    then show ?thesis by blast
  qed blast
qed

lemma find_session_claim: "find_session cookie db = Some s \<Longrightarrow> session_claim s \<in> session_claims db \<and> ss_sessionid s = cookie"
  by (auto simp: find_session_def session_claims_def split: if_splits dest!: find_SomeD)

subsection \<open>Who may enter\<close>

text \<open>The account whose name and password are given, and whether it is neither banned nor suspended any more.\<close>

definition checked_login ::
  "tfa_env \<Rightarrow> (ustr \<Rightarrow> ustr) \<Rightarrow> (ustr \<Rightarrow> ustr) \<Rightarrow> ustr \<Rightarrow> string \<Rightarrow> 'a accounts_db_scheme \<Rightarrow> login_row option" where
  "checked_login env lower nfkd username password db =
     (case parse_sysname lower nfkd username of
        None \<Rightarrow> None
      | Some parsed \<Rightarrow>
          (case find (\<lambda>lo. lo_login_name lo = to_string parsed) (t_login db) of
             None \<Rightarrow> None
           | Some lo \<Rightarrow>
               (case find (\<lambda>ab. ab_userid ab = lo_userid lo) (t_authbcrypt db) of
                  None \<Rightarrow> None
                | Some ab \<Rightarrow> if password \<noteq> [] \<and> checkpw env password (ab_hashsum ab) = Inr True then Some lo else None)))"

definition admitted :: "int \<Rightarrow> int \<Rightarrow> 'a accounts_db_scheme \<Rightarrow> bool" where
  "admitted now userid db \<longleftrightarrow> \<not> exists_where (\<lambda>pb. pb_userid pb = userid) (t_permaban db)
     \<and> (case get_suspension userid db of None \<Rightarrow> True | Some sp \<Rightarrow> now + UNIXTIME_OFFSET > sp_release sp)"

definition second_factor :: "login_row \<Rightarrow> bool" where
  "second_factor lo \<longleftrightarrow> lo_twofa_secret lo \<noteq> None \<and> lo_twofa_secret lo \<noteq> Some []"

definition new_session_claim :: "string \<Rightarrow> int \<Rightarrow> string \<times> int option \<times> (string \<times> json) list" where
  "new_session_claim token userid = (token, Some userid, [])"

lemma user_agent_frame:
  assumes "get_user_agent_id ua db = (agent, db1)"
  shows "t_sessions db1 = t_sessions db" "t_login db1 = t_login db" "config_inputs db1 = config_inputs db"
  using assms by (auto simp: get_user_agent_id_def config_inputs_def Let_def split: if_splits option.splits)

lemma signin_cases:
  assumes "signin now token 0 userid ip user_agent db = (res, db')"
  obtains "res = Inl IntegrityError" "t_sessions db' = t_sessions db" "config_inputs db' = config_inputs db"
  | s where "res = Inr s" "session_claim s = new_session_claim token userid"
      "t_sessions db' = t_sessions db @ [s]" "config_inputs db' = config_inputs db"
proof -
  obtain agent db1 where ua: "get_user_agent_id user_agent db = (agent, db1)" by (meson surj_pair)
  note frame = user_agent_frame [OF ua]
  define s where "s = (create_session now token (Some userid))\<lparr>ss_ip_address := ip, ss_user_agent_id := agent\<rparr>"
  have sid: "ss_sessionid (create_session now token (Some userid)) = ss_sessionid s" by (simp add: s_def)
  have "signin now token 0 userid ip user_agent db =
      (if exists_where (\<lambda>r. ss_sessionid r = ss_sessionid s) (t_sessions db) then (Inl IntegrityError, db1)
       else (Inr s, db1\<lparr>t_sessions := t_sessions db @ [s],
               t_login := update_where (\<lambda>lo. lo_userid lo = userid) (\<lambda>lo. lo\<lparr>lo_last_login := now\<rparr>) (t_login db)\<rparr>))"
    by (simp add: signin_def ua add_session_def frame s_def [symmetric] sid)
  moreover have "config_inputs (db1\<lparr>t_sessions := ss, t_login := update_where (\<lambda>lo. lo_userid lo = userid)
      (\<lambda>lo. lo\<lparr>lo_last_login := now\<rparr>) (t_login db)\<rparr>) = config_inputs db" for ss
    using frame(3) by (simp add: config_inputs_def login_pairs_update)
  moreover have "session_claim s = new_session_claim token userid"
    by (simp add: s_def session_claim_def new_session_claim_def create_session_def)
  ultimately show thesis
    using assms that frame by (cases "exists_where (\<lambda>r. ss_sessionid r = ss_sessionid s) (t_sessions db)") auto
qed

lemma login_settings_facts:
  assumes "config_cache_ok db" "get_login_settings userid db = (Inr (banned, suspended), db')"
  shows "config_read db db'"
    and "banned = exists_where (\<lambda>pb. pb_userid pb = userid) (t_permaban db)"
    and "suspended = exists_where (\<lambda>sp. sp_userid sp = userid) (t_suspension db)"
proof -
  from assms(2) obtain r where r: "get_all_config userid db = (Inr r, db')" "banned = is_banned r" "suspended = is_suspended r"
    unfolding get_login_settings_def and_then_ok by blast
  then show "config_read db db'" using config_read_get_all_config [of db userid] by simp
  have "query_all_config userid db = Some r"
    using get_all_config_value [OF assms(1), of userid] r(1) by (simp split: option.splits)
  then have "is_banned r = exists_where (\<lambda>pb. pb_userid pb = userid) (t_permaban db)
      \<and> is_suspended r = exists_where (\<lambda>sp. sp_userid sp = userid) (t_suspension db)"
    by (auto simp: query_all_config_def split: option.splits)
  with r(2,3) show "banned = exists_where (\<lambda>pb. pb_userid pb = userid) (t_permaban db)"
    "suspended = exists_where (\<lambda>sp. sp_userid sp = userid) (t_suspension db)" by simp_all
qed

lemma get_suspension_none: "get_suspension userid db = None \<longleftrightarrow> \<not> exists_where (\<lambda>sp. sp_userid sp = userid) (t_suspension db)"
  by (auto simp: get_suspension_def exists_where_iff find_None_iff)

lemma lift_suspension:
  assumes "config_cache_ok db"
  shows "config_cache_ok (all_config_invalidate userid
           (db\<lparr>t_suspension := delete_where (\<lambda>sp. sp_userid sp = userid) (t_suspension db)\<rparr>))"
  unfolding all_config_invalidate_def
proof (rule all_config.invalidate_keeps [OF assms])
  fix k assume "k \<noteq> userid"
  then have "exists_where (\<lambda>sp. sp_userid sp = k) (delete_where (\<lambda>sp. sp_userid sp = userid) (t_suspension db))
      = exists_where (\<lambda>sp. sp_userid sp = k) (t_suspension db)"
    by (auto simp: table_simps)
  then show "query_all_config k (db\<lparr>t_suspension := delete_where (\<lambda>sp. sp_userid sp = userid) (t_suspension db)\<rparr>)
      = query_all_config k db"
    by (simp add: query_all_config_def cong: option.case_cong)
qed (simp add: peek_all_config_def)

text \<open>What follows once the account may enter.\<close>

definition enter ::
  "int \<Rightarrow> string option \<Rightarrow> ('a accounts_db_scheme \<Rightarrow> session_row result \<times> 'a accounts_db_scheme) option
     \<Rightarrow> 'a accounts_db_scheme \<Rightarrow> (auth_result \<times> session_row option) result \<times> 'a accounts_db_scheme" where
  "enter userid twofa session db =
     (case session of
        None \<Rightarrow> (Inr (Success userid, None), db)
      | Some log_in \<Rightarrow>
          if twofa \<noteq> None \<and> twofa \<noteq> Some [] then (Inr (SecondFactorRequired userid, None), db)
          else and_then (log_in db) (\<lambda>sess db. (Inr (Success userid, Some sess), db)))"

definition not_entered :: "(auth_result \<times> session_row option) result \<Rightarrow> bool" where
  "not_entered res \<longleftrightarrow> (\<forall>userid sess. res \<noteq> Inr (Success userid, sess) \<and> res \<noteq> Inr (SecondFactorRequired userid, sess))"

lemma admit_cases:
  assumes ok: "config_cache_ok db" and admit: "admit_user now userid banned suspended twofa session db = (res, db')"
    and banned: "banned = exists_where (\<lambda>pb. pb_userid pb = userid) (t_permaban db)"
    and suspended: "suspended = exists_where (\<lambda>sp. sp_userid sp = userid) (t_suspension db)"
  obtains (refused) "not_entered res" "config_cache_ok db'" "t_sessions db' = t_sessions db"
  | (entered) db1 where "admitted now userid db" "config_cache_ok db1" "t_sessions db1 = t_sessions db"
      "(res, db') = enter userid twofa session db1"
proof (cases "banned \<or> (suspended \<and> (\<exists>sp. get_suspension userid db = Some sp \<and> \<not> now + UNIXTIME_OFFSET > sp_release sp))")
  case True
  then consider banned | sp where "\<not> banned" suspended "get_suspension userid db = Some sp" "\<not> now + UNIXTIME_OFFSET > sp_release sp"
    by blast
  then have "(res, db') = (Inr (Banned userid, None), db) \<or> (res, db') = (Inr (Suspended userid, None), db)"
    using admit by cases (simp_all add: admit_user_def)
  then have "not_entered res \<and> db' = db" by (auto simp: not_entered_def)
  with ok show ?thesis by (intro refused) auto
next
  case no: False
  show ?thesis
  proof (cases suspended)
    case False
    with no admit banned suspended have "admitted now userid db" "(res, db') = enter userid twofa session db"
      by (auto simp: admitted_def get_suspension_none [THEN iffD2] admit_user_def enter_def)
    with ok show ?thesis by (intro entered [of db]) auto
  next
    case True
    then obtain sp where sp: "get_suspension userid db = Some sp"
      using suspended get_suspension_none [of userid db] by (metis option.exhaust)
    define db1 where "db1 = all_config_invalidate userid
        (db\<lparr>t_suspension := delete_where (\<lambda>sp. sp_userid sp = userid) (t_suspension db)\<rparr>)"
    have "admitted now userid db" "(res, db') = enter userid twofa session db1"
      using no True admit banned sp by (auto simp: admitted_def admit_user_def enter_def db1_def)
    moreover have "config_cache_ok db1" "t_sessions db1 = t_sessions db"
      using lift_suspension [OF ok] by (auto simp: db1_def all_config_invalidate_def store_all_config_def)
    ultimately show ?thesis by (intro entered)
  qed
qed

lemma admitted_read: "config_read db db' \<Longrightarrow> admitted now userid db' = admitted now userid db"
  by (auto simp: config_read_def admitted_def get_suspension_def)

lemma authenticate_cases:
  assumes ok: "config_cache_ok db"
    and auth: "authenticate_bcrypt env lower nfkd now username password session db = (res, db')"
  obtains (refused) "not_entered res" "config_cache_ok db'" "t_sessions db' = t_sessions db"
  | (entered) lo db1 where "checked_login env lower nfkd username password db = Some lo" "admitted now (lo_userid lo) db"
      "config_cache_ok db1" "t_sessions db1 = t_sessions db"
      "(res, db') = enter (lo_userid lo) (lo_twofa_secret lo) (map_option (\<lambda>log_in. log_in (lo_userid lo)) session) db1"
proof (cases "checked_login env lower nfkd username password db")
  case None
  have "not_entered res \<and> config_read db db'"
    using auth None config_read_get_all_config [of db]
    by (auto simp: authenticate_bcrypt_def checked_login_def not_entered_def get_login_settings_def and_then_def Let_def
        split: option.splits if_splits sum.splits prod.splits bool.splits) (metis snd_conv)+
  then show ?thesis using ok by (intro refused) (auto simp: config_read_def)
next
  case (Some lo)
  then obtain parsed ab where parts: "parse_sysname lower nfkd username = Some parsed" "password \<noteq> []"
      "find (\<lambda>lo. lo_login_name lo = to_string parsed) (t_login db) = Some lo"
      "find (\<lambda>ab. ab_userid ab = lo_userid lo) (t_authbcrypt db) = Some ab" "checkpw env password (ab_hashsum ab) = Inr True"
    by (auto simp: checked_login_def split: option.splits if_splits)
  obtain settings db1 where got: "get_login_settings (lo_userid lo) db = (settings, db1)" by (meson surj_pair)
  have read: "config_read db db1"
    using got config_read_get_all_config [of db "lo_userid lo"] by (metis and_then_snd get_login_settings_def snd_conv)
  show ?thesis
  proof (cases settings)
    case (Inl e)
    with got parts auth have "not_entered res \<and> db' = db1"
      by (auto simp: authenticate_bcrypt_def not_entered_def)
    with read ok show ?thesis by (intro refused) (auto simp: config_read_def)
  next
    case (Inr s)
    obtain banned suspended where s: "s = (banned, suspended)" by (meson surj_pair)
    note facts = login_settings_facts [OF ok got [unfolded Inr s]]
    from facts(1) ok have ok1: "config_cache_ok db1" and same: "t_sessions db1 = t_sessions db"
      "t_permaban db1 = t_permaban db" "t_suspension db1 = t_suspension db" by (auto simp: config_read_def)
    have "admit_user now (lo_userid lo) banned suspended (lo_twofa_secret lo)
        (map_option (\<lambda>log_in. log_in (lo_userid lo)) session) db1 = (res, db')"
      using auth parts got by (simp add: authenticate_bcrypt_def Inr s)
    then show ?thesis
    proof (rule admit_cases [OF ok1])
      assume "not_entered res" "config_cache_ok db'" "t_sessions db' = t_sessions db1"
      with same show thesis by (intro refused) simp_all
    next
      fix db2
      assume "admitted now (lo_userid lo) db1" "config_cache_ok db2" "t_sessions db2 = t_sessions db1"
        "(res, db') = enter (lo_userid lo) (lo_twofa_secret lo) (map_option (\<lambda>log_in. log_in (lo_userid lo)) session) db2"
      with same(1) Some admitted_read [OF facts(1)] show thesis by (intro entered [of lo db2]) simp_all
    qed (simp_all add: facts(2,3) same)
  qed
qed

subsection \<open>What the login pages do to the sessions\<close>

definition pending_claim :: "int \<Rightarrow> string \<Rightarrow> int \<Rightarrow> string \<times> int option \<times> (string \<times> json) list" where
  "pending_claim now token userid = session_claim (second_factor_session now token userid)"

lemma checked_login_sessions [simp]:
  "checked_login env lower nfkd username password (db\<lparr>t_sessions := rows\<rparr>) = checked_login env lower nfkd username password db"
  "admitted now userid (db\<lparr>t_sessions := rows\<rparr>) = admitted now userid db"
  by (simp_all add: checked_login_def admitted_def get_suspension_def cong: option.case_cong)

lemma recovery_code_sessions:
  "is_recovery_code_valid env userid code consume (db\<lparr>t_sessions := rows\<rparr>)
     = map_prod id (\<lambda>db. db\<lparr>t_sessions := rows\<rparr>) (is_recovery_code_valid env userid code consume db)"
  by (simp add: is_recovery_code_valid_def recovery_hashes_def split: sum.split option.split)

lemma tfa_verify_sessions:
  "tfa_verify env userid response consume (db\<lparr>t_sessions := rows\<rparr>)
     = map_prod id (\<lambda>db. db\<lparr>t_sessions := rows\<rparr>) (tfa_verify env userid response consume db)"
  by (simp add: tfa_verify_def recovery_code_sessions twofa_secret_of_def Let_def split: sum.split)

lemma tfa_verify_frame:
  assumes "tfa_verify env userid response consume db = (res, db')"
  shows "t_sessions db' = t_sessions db" "config_inputs db' = config_inputs db"
  using assms
  by (auto simp: tfa_verify_def is_recovery_code_valid_def config_inputs_def Let_def split: if_splits sum.splits option.splits)

lemma add_session_claims:
  "add_session sess db = (Inr s, db') \<Longrightarrow> s = sess \<and> session_claims db' = insert (session_claim sess) (session_claims db)
     \<and> (\<forall>c \<in> session_claims db. fst c \<noteq> ss_sessionid sess)"
  "add_session sess db = (Inl e, db') \<Longrightarrow> db' = db"
  "add_session sess db = (res, db') \<Longrightarrow> config_inputs db' = config_inputs db"
  by (auto simp: add_session_def session_claims_def session_claim_def exists_where_iff config_inputs_def split: if_splits)

lemma claims_cong: "t_sessions db' = t_sessions db \<Longrightarrow> session_claims db' = session_claims db"
  by (simp add: session_claims_def)

lemma password_step:
  assumes ok: "config_cache_ok db"
    and post: "signin_post env lower nfkd now cookie token leaked ip ua username password db = (res, db')"
  obtains (refused) "config_cache_ok db'" "session_claims db' = session_claims db" "\<And>s. res \<noteq> Inr (LoggedIn s) \<and> res \<noteq> Inr (AskSecondFactor s)"
  | (signed_in) lo s where "checked_login env lower nfkd username password db = Some lo" "admitted now (lo_userid lo) db"
      "\<not> leaked" "\<not> second_factor lo" "res = Inr (LoggedIn s)" "config_cache_ok db'"
      "session_claim s = new_session_claim token (lo_userid lo)" "session_claims db' = insert (session_claim s) (session_claims db)"
  | (pending) lo s where "checked_login env lower nfkd username password db = Some lo" "admitted now (lo_userid lo) db"
      "\<not> leaked" "second_factor lo" "res = Inr (AskSecondFactor s)" "config_cache_ok db'"
      "session_claim s = pending_claim now token (lo_userid lo)" "session_claims db' = insert (session_claim s) (session_claims db)"
      "\<And>c. c \<in> session_claims db \<Longrightarrow> fst c \<noteq> token"
proof -
  obtain found db1 where tween: "session_tween now cookie db = (found, db1)" by (meson surj_pair)
  note tw = tween_facts [OF tween]
  from tw(4) obtain rows where rows: "db1 = db\<lparr>t_sessions := rows\<rparr>" by blast
  have ok1: "config_cache_ok db1" using config_inputs_ok [OF tw(2) ok] .
  show thesis
  proof (cases "session_userid found = 0")
    case False
    with post tween have "res = Inl (WeasylError ''signed'') \<and> db' = db1" by (simp add: signin_post_def)
    with tw ok1 show ?thesis by (intro refused) auto
  next
    case guest: True
    define session where "session = (if leaked then None else Some (\<lambda>userid. signin now token 0 userid ip ua :: 'a accounts_db_scheme \<Rightarrow> _))"
    obtain auth db2 where auth: "authenticate_bcrypt env lower nfkd now username password session db1 = (auth, db2)" by (meson surj_pair)
    have res: "(res, db') = and_then (auth, db2) (\<lambda>(auth, sess) db.
               case auth of
                 Success logid \<Rightarrow> (Inr (case sess of None \<Rightarrow> LeakedCredentials | Some s \<Rightarrow> LoggedIn s), db)
               | SecondFactorRequired logid \<Rightarrow>
                   if get_number_of_recovery_codes logid db = 0 then (Inl AssertionError, db)
                   else and_then (add_session (second_factor_session now token logid) db) (\<lambda>s db. (Inr (AskSecondFactor s), db))
               | InvalidCredentials exists_now exists_before \<Rightarrow> (Inr (BadCredentials exists_now exists_before), db)
               | Banned logid \<Rightarrow> (Inr (BanMessage logid), db)
               | Suspended logid \<Rightarrow> (Inr (SuspensionMessage logid), db))"
      using post tween guest auth by (simp add: signin_post_def session_def)
    from authenticate_cases [OF ok1 auth] show ?thesis
    proof cases
      case 1
      then have "db' = db2 \<and> (\<forall>s. res \<noteq> Inr (LoggedIn s) \<and> res \<noteq> Inr (AskSecondFactor s))"
        using res by (cases auth) (auto simp: not_entered_def split: auth_result.splits)
      with 1 tw(1) show ?thesis by (intro refused) (auto simp: session_claims_def)
    next
      case (2 lo db3)
      note entered = this
      have lo: "checked_login env lower nfkd username password db = Some lo" "admitted now (lo_userid lo) db"
        using entered(1,2) by (simp_all add: rows)
      have claims3: "session_claims db3 = session_claims db" using claims_cong [OF entered(4)] tw(1) by simp
      show ?thesis
      proof (cases leaked)
        case True
        with entered(5) have "auth = Inr (Success (lo_userid lo), None)" "db2 = db3" by (simp_all add: session_def enter_def)
        with res entered(3) claims3 show ?thesis by (intro refused) auto
      next
        case safe: False
        show ?thesis
        proof (cases "second_factor lo")
          case True
          with safe entered(5) have step: "auth = Inr (SecondFactorRequired (lo_userid lo), None)" "db2 = db3"
            by (simp_all add: session_def enter_def second_factor_def)
          obtain added db4 where added: "add_session (second_factor_session now token (lo_userid lo)) db3 = (added, db4)" by (meson surj_pair)
          have ok4: "config_cache_ok db4" using config_inputs_ok [OF add_session_claims(3) [OF added] entered(3)] .
          show ?thesis
          proof (cases "get_number_of_recovery_codes (lo_userid lo) db3 = 0")
            case True
            with res step entered(3) claims3 show ?thesis by (intro refused) auto
          next
            case codes: False
            show ?thesis
            proof (cases added)
              case (Inl e)
              with add_session_claims(2) [of _ _ e] added have "db4 = db3" by blast
              with Inl codes res step added entered(3) claims3 show ?thesis by (intro refused) auto
            next
              case (Inr s)
              have sid: "ss_sessionid (second_factor_session now token (lo_userid lo)) = token"
                by (simp add: second_factor_session_def create_session_def)
              note row = add_session_claims(1) [OF added [unfolded Inr], unfolded claims3 sid]
              from Inr codes res step added have "res = Inr (AskSecondFactor s)" "db' = db4" by simp_all
              with row lo safe True ok4 show ?thesis by (intro pending [of lo s]) (simp_all add: pending_claim_def)
            qed
          qed
        next
          case no_second: False
          with safe entered(5) have step: "(auth, db2) = and_then (signin now token 0 (lo_userid lo) ip ua db3)
              (\<lambda>sess db. (Inr (Success (lo_userid lo), Some sess), db))"
            by (auto simp: session_def enter_def second_factor_def)
          obtain signed db4 where signed: "signin now token 0 (lo_userid lo) ip ua db3 = (signed, db4)" by (meson surj_pair)
          from signin_cases [OF signed] show ?thesis
          proof cases
            case 1
            with step signed res claims3 config_inputs_ok [OF 1(3) entered(3)] show ?thesis
              by (intro refused) (auto simp: session_claims_def)
          next
            case (2 s)
            with step signed res claims3 config_inputs_ok [OF 2(4) entered(3)] lo safe no_second show ?thesis
              by (intro signed_in [of lo s]) (auto simp: session_claims_def)
          qed
        qed
      qed
    qed
  qed
qed


lemma claim_parts [simp]:
  "fst (session_claim s) = ss_sessionid s" "fst (snd (session_claim s)) = ss_userid s"
  "snd (snd (session_claim s)) = ss_additional_data s"
  by (simp_all add: session_claim_def)

lemma signout_claims:
  "session_claims (signout sess db) = {c \<in> session_claims db. fst c \<noteq> ss_sessionid sess}"
  "config_inputs (signout sess db) = config_inputs db"
  by (auto simp: signout_def session_claims_def table_simps config_inputs_def)

lemma force_deactivate_claims:
  "session_claims (force_deactivate userid db) = session_claims db"
  "config_inputs (force_deactivate userid db) = config_inputs db"
  by (simp_all add: force_deactivate_def set_twofa_secret_def session_claims_def config_inputs_def login_pairs_update Let_def)

text \<open>A wrong response counts in the session's row.\<close>

definition counted_claim ::
  "session_row \<Rightarrow> int \<Rightarrow> string \<times> int option \<times> (string \<times> json) list \<Rightarrow> string \<times> int option \<times> (string \<times> json) list" where
  "counted_claim sess n c =
     (if fst c = ss_sessionid sess
      then (fst c, fst (snd c), AList.update ''2fa_pwd_auth_attempts'' (J_int n) (ss_additional_data sess)) else c)"

lemma count_attempt_claims:
  assumes "data_int ''2fa_pwd_auth_attempts'' sess = Some n"
  shows "session_claims (count_attempt sess db) = counted_claim sess (n + 1) ` session_claims db"
    and "config_inputs (count_attempt sess db) = config_inputs db"
proof -
  define f where "f = (\<lambda>s :: session_row. if ss_sessionid s = ss_sessionid sess then s\<lparr>ss_additional_data :=
    AList.update ''2fa_pwd_auth_attempts'' (J_int (n + 1)) (ss_additional_data sess)\<rparr> else s)"
  have "t_sessions (count_attempt sess db) = map f (t_sessions db)"
    by (simp add: count_attempt_def assms update_where_def f_def)
  moreover have "session_claim (f s) = counted_claim sess (n + 1) (session_claim s)" for s
    by (simp add: f_def session_claim_def counted_claim_def)
  ultimately show "session_claims (count_attempt sess db) = counted_claim sess (n + 1) ` session_claims db"
    by (simp add: session_claims_def image_image)
qed (simp add: count_attempt_def config_inputs_def)

text \<open>A response to the pending session of the cookie that is given in time and is wrong.\<close>

definition rejected_guess :: "tfa_env \<Rightarrow> int \<Rightarrow> string \<Rightarrow> string \<Rightarrow> 'a accounts_db_scheme \<Rightarrow> bool" where
  "rejected_guess env now cookie response db =
     (case find_session cookie db of
        None \<Rightarrow> False
      | Some sess \<Rightarrow>
          (case (data_int ''2fa_pwd_auth_userid'' sess, data_int ''2fa_pwd_auth_timestamp'' sess) of
             (Some userid, Some since) \<Rightarrow>
               session_userid (Some sess) = 0 \<and> now - since \<le> 300 \<and> fst (tfa_verify env userid response True db) = Inr False
           | _ \<Rightarrow> False))"

lemma right_response_claims:
  assumes ok: "config_cache_ok db" and post: "right_response now token ip ua sess userid db = (res, db')"
  shows "config_cache_ok db'"
    and "session_claims db' = {c \<in> session_claims db. fst c \<noteq> ss_sessionid sess} \<or>
         session_claims db' = insert (new_session_claim token userid) {c \<in> session_claims db. fst c \<noteq> ss_sessionid sess}"
proof -
  obtain signed db1 where signed: "signin now token 0 userid ip ua (signout sess db) = (signed, db1)" by (meson surj_pair)
  have ok0: "config_cache_ok (signout sess db)" using config_inputs_ok [OF signout_claims(2) ok] .
  from signin_cases [OF signed]
  have "config_cache_ok db' \<and> (session_claims db' = session_claims (signout sess db) \<or>
      session_claims db' = insert (new_session_claim token userid) (session_claims (signout sess db)))"
  proof cases
    case 1
    from post have "db' = db1" by (simp add: right_response_def signed 1(1))
    with config_inputs_ok [OF 1(3) ok0] claims_cong [OF 1(2)] show ?thesis by metis
  next
    case (2 s)
    have "session_claims db1 = insert (new_session_claim token userid) (session_claims (signout sess db))"
      using 2(2,3) by (simp add: session_claims_def)
    moreover have "config_cache_ok db1" using config_inputs_ok [OF 2(4) ok0] .
    moreover have "db' = db1 \<or> db' = force_deactivate userid db1"
      using post signed 2(1) by (simp add: right_response_def split: if_splits)
    ultimately show ?thesis
      using force_deactivate_claims [of userid db1] config_inputs_ok [OF force_deactivate_claims(2)] by metis
  qed
  then show "config_cache_ok db'" and "session_claims db' = {c \<in> session_claims db. fst c \<noteq> ss_sessionid sess} \<or>
         session_claims db' = insert (new_session_claim token userid) {c \<in> session_claims db. fst c \<noteq> ss_sessionid sess}"
    by (simp_all add: signout_claims)
qed

lemma rejected_guess_rows [simp]:
  "find_session cookie (db\<lparr>t_sessions := rows\<rparr>) = find_session cookie db \<Longrightarrow>
   rejected_guess env now cookie response (db\<lparr>t_sessions := rows\<rparr>) = rejected_guess env now cookie response db"
  by (simp add: rejected_guess_def tfa_verify_sessions cong: option.case_cong)

lemma response_step:
  assumes ok: "config_cache_ok db"
    and post: "signin_2fa_auth_post env now cookie token ip ua response db = (res, db')"
  obtains (unchanged) "config_cache_ok db'" "session_claims db' = session_claims db"
      "\<And>s. find_session cookie db = Some s \<Longrightarrow> data_int ''2fa_pwd_auth_attempts'' s \<noteq> None
        \<Longrightarrow> \<not> rejected_guess env now cookie response db"
  | (dropped) s where "find_session cookie db = Some s" "config_cache_ok db'"
      "session_claims db' = {c \<in> session_claims db. fst c \<noteq> cookie}"
  | (signed_in) s userid since where "find_session cookie db = Some s" "config_cache_ok db'"
      "data_int ''2fa_pwd_auth_userid'' s = Some userid" "data_int ''2fa_pwd_auth_timestamp'' s = Some since"
      "now - since \<le> 300" "fst (tfa_verify env userid response True db) = Inr True"
      "session_claims db' = insert (new_session_claim token userid) {c \<in> session_claims db. fst c \<noteq> cookie}"
  | (counted) s attempts where "find_session cookie db = Some s" "config_cache_ok db'"
      "data_int ''2fa_pwd_auth_attempts'' s = Some attempts" "attempts < 5"
      "session_claims db' = counted_claim s (attempts + 1) ` session_claims db"
proof -
  obtain found db1 where tween: "session_tween now cookie db = (found, db1)" by (meson surj_pair)
  note tw = tween_facts [OF tween]
  from tw(4) obtain rows where rows: "db1 = db\<lparr>t_sessions := rows\<rparr>" by blast
  have ok1: "config_cache_ok db1" using config_inputs_ok [OF tw(2) ok] .
  show thesis
  proof (cases "found = None \<or> session_userid found \<noteq> 0 \<or> data_int ''2fa_pwd_auth_userid'' (the found) = None
      \<or> data_int ''2fa_pwd_auth_timestamp'' (the found) = None")
    case True
    then have "db' = db1" using post tween
      by (auto simp: signin_2fa_auth_post_def second_factor_post_def split: if_splits option.splits)
    moreover have "\<not> rejected_guess env now cookie response db"
      using True tw(3) by (auto simp: rejected_guess_def split: option.splits)
    ultimately show ?thesis using ok1 tw(1) by (intro unchanged) auto
  next
    case False
    then obtain s userid since where s: "found = Some s" "session_userid (Some s) = 0"
      "data_int ''2fa_pwd_auth_userid'' s = Some userid" "data_int ''2fa_pwd_auth_timestamp'' s = Some since"
      by auto
    have found: "find_session cookie db = Some s" using tw(3) s(1) by simp
    have sid: "ss_sessionid s = cookie" using find_session_claim [OF found] by simp
    show ?thesis
    proof (cases "now - since > 300")
      case True
      with post tween s have "db' = signout s db1"
        by (simp add: signin_2fa_auth_post_def second_factor_post_def)
      with found show ?thesis
        using signout_claims [of s db1] config_inputs_ok [OF signout_claims(2) ok1] sid tw(1) by (intro dropped) auto
    next
      case False
      obtain verified db2 where verify: "tfa_verify env userid response True db1 = (verified, db2)" by (meson surj_pair)
      note frame = tfa_verify_frame [OF verify]
      have ok2: "config_cache_ok db2" using config_inputs_ok [OF frame(2) ok1] .
      have claims2: "session_claims db2 = session_claims db" using claims_cong [OF frame(1)] tw(1) by simp
      have answer: "fst (tfa_verify env userid response True db) = verified"
        using verify by (simp add: rows tfa_verify_sessions split: prod.splits) (metis fst_conv fst_map_prod id_apply)
      have step: "(res, db') = and_then (verified, db2) (\<lambda>ok db.
          if ok then right_response now token ip ua s userid db else wrong_response s db)"
        using post tween s False verify by (simp add: signin_2fa_auth_post_def second_factor_post_def)
      show ?thesis
      proof (cases verified)
        case (Inl e)
        with step ok2 claims2 answer found s show ?thesis
          by (intro unchanged) (auto simp: rejected_guess_def)
      next
        case (Inr ok)
        show ?thesis
        proof (cases ok)
          case True
          with Inr step have right: "right_response now token ip ua s userid db2 = (res, db')" by simp
          have ok': "config_cache_ok db'" using right_response_claims(1) [OF ok2 right] .
          from right_response_claims(2) [OF ok2 right, unfolded claims2 sid] show ?thesis
          proof
            assume "session_claims db' = {c \<in> session_claims db. fst c \<noteq> cookie}"
            with found ok' show ?thesis by (intro dropped)
          next
            assume "session_claims db' = insert (new_session_claim token userid) {c \<in> session_claims db. fst c \<noteq> cookie}"
            with found ok' s(3,4) False answer Inr True show ?thesis by (intro signed_in) auto
          qed
        next
          case wrong: False
          show ?thesis
          proof (cases "data_int ''2fa_pwd_auth_attempts'' s")
            case None
            with Inr wrong step answer found s ok2 claims2 show ?thesis
              by (intro unchanged) (auto simp: wrong_response_def)
          next
            case (Some attempts)
            show ?thesis
            proof (cases "attempts \<ge> 5")
              case True
              with Inr wrong step Some have "db' = signout s db2" by (simp add: wrong_response_def)
              with found show ?thesis
                using signout_claims [of s db2] config_inputs_ok [OF signout_claims(2) ok2] sid claims2 by (intro dropped) auto
            next
              case False
              with Inr wrong step Some have "db' = count_attempt s db2" by (simp add: wrong_response_def)
              with found False Some show ?thesis
                using count_attempt_claims [OF Some, of db2] config_inputs_ok [OF count_attempt_claims(2) [OF Some] ok2] claims2
                by (intro counted) auto
            qed
          qed
        qed
      qed
    qed
  qed
qed

subsection \<open>Traces of logins\<close>

datatype login_event =
    Password int string string bool "string option" string ustr string
  | Response int string string "string option" string string
  | Sign_out int string
  | Ask_reset int string "unit result" string "unit result" string
  | Open_link int string string
  | Reset int string string string string int string

text \<open>
  \<open>Password now cookie token leaked ip agent username password\<close> and \<open>Response now cookie token ip agent response\<close> are
  the posted login pages; \<open>Ask_reset now cookie turnstile token mail email\<close>, \<open>Open_link now cookie token\<close> and
  \<open>Reset now cookie salt token password userid ip\<close> are the three pages of a password reset. A database between
  two requests is the state.
\<close>

fun login_step ::
  "tfa_env \<Rightarrow> (string \<Rightarrow> string) \<Rightarrow> (ustr \<Rightarrow> ustr) \<Rightarrow> (ustr \<Rightarrow> ustr) \<Rightarrow> login_event \<Rightarrow> 'a accounts_db_scheme \<Rightarrow> 'a accounts_db_scheme" where
  "login_step env sha256 lower nfkd (Password now cookie token leaked ip agent username password) db =
     snd (signin_post env lower nfkd now cookie token leaked ip agent username password db)"
| "login_step env sha256 lower nfkd (Response now cookie token ip agent response) db =
     snd (signin_2fa_auth_post env now cookie token ip agent response db)"
| "login_step env sha256 lower nfkd (Sign_out now cookie) db = signout_page now cookie db"
| "login_step env sha256 lower nfkd (Ask_reset now cookie turnstile token mail email) db =
     snd (forgetpassword_page sha256 now cookie turnstile token mail email db)"
| "login_step env sha256 lower nfkd (Open_link now cookie token) db =
     snd (resetpassword_link_page sha256 now cookie token db)"
| "login_step env sha256 lower nfkd (Reset now cookie salt token password userid ip) db =
     snd (resetpassword_form_page env sha256 now cookie salt token password userid ip db)"

definition login_run ::
  "tfa_env \<Rightarrow> (string \<Rightarrow> string) \<Rightarrow> (ustr \<Rightarrow> ustr) \<Rightarrow> (ustr \<Rightarrow> ustr) \<Rightarrow> login_event list \<Rightarrow> 'a accounts_db_scheme \<Rightarrow> 'a accounts_db_scheme" where
  "login_run env sha256 lower nfkd events db = foldl (\<lambda>db ev. login_step env sha256 lower nfkd ev db) db events"

text \<open>The account that gives its password at event \<open>j\<close> of a trace, and the time.\<close>

definition password_given ::
  "tfa_env \<Rightarrow> (ustr \<Rightarrow> ustr) \<Rightarrow> (ustr \<Rightarrow> ustr) \<Rightarrow> login_event \<Rightarrow> 'a accounts_db_scheme \<Rightarrow> (login_row \<times> int) option" where
  "password_given env lower nfkd ev db =
     (case ev of
        Password now cookie token leaked ip agent username password \<Rightarrow>
          (case checked_login env lower nfkd username password db of
             None \<Rightarrow> None
           | Some lo \<Rightarrow> if admitted now (lo_userid lo) db \<and> \<not> leaked then Some (lo, now) else None)
      | _ \<Rightarrow> None)"

text \<open>Whether an event is a right second factor of the account within 300 seconds of a time.\<close>

definition response_given :: "tfa_env \<Rightarrow> int \<Rightarrow> int \<Rightarrow> login_event \<Rightarrow> 'a accounts_db_scheme \<Rightarrow> bool" where
  "response_given env userid since ev db =
     (case ev of
        Response now cookie token ip agent response \<Rightarrow>
          now - since \<le> 300 \<and> fst (tfa_verify env userid response True db) = Inr True
      | _ \<Rightarrow> False)"

definition password_at ::
  "tfa_env \<Rightarrow> (string \<Rightarrow> string) \<Rightarrow> (ustr \<Rightarrow> ustr) \<Rightarrow> (ustr \<Rightarrow> ustr) \<Rightarrow> login_event list \<Rightarrow> 'a accounts_db_scheme \<Rightarrow> nat \<Rightarrow> login_row \<Rightarrow> int \<Rightarrow> bool" where
  "password_at env sha256 lower nfkd events db j lo t \<longleftrightarrow> j < length events \<and>
     password_given env lower nfkd (events ! j) (login_run env sha256 lower nfkd (take j events) db) = Some (lo, t)"

definition response_at ::
  "tfa_env \<Rightarrow> (string \<Rightarrow> string) \<Rightarrow> (ustr \<Rightarrow> ustr) \<Rightarrow> (ustr \<Rightarrow> ustr) \<Rightarrow> login_event list \<Rightarrow> 'a accounts_db_scheme \<Rightarrow> nat \<Rightarrow> int \<Rightarrow> int \<Rightarrow> bool" where
  "response_at env sha256 lower nfkd events db k userid t \<longleftrightarrow> k < length events \<and>
     response_given env userid t (events ! k) (login_run env sha256 lower nfkd (take k events) db)"

definition claim_int :: "string \<Rightarrow> string \<times> int option \<times> (string \<times> json) list \<Rightarrow> int option" where
  "claim_int key c = (case map_of (snd (snd c)) key of Some (J_int n) \<Rightarrow> Some n | _ \<Rightarrow> None)"

lemma data_int_claim: "data_int key s = claim_int key (session_claim s)"
  by (simp add: data_int_def claim_int_def)

text \<open>What a session row proves of the past.\<close>

definition claim_earned ::
  "tfa_env \<Rightarrow> (string \<Rightarrow> string) \<Rightarrow> (ustr \<Rightarrow> ustr) \<Rightarrow> (ustr \<Rightarrow> ustr) \<Rightarrow> login_event list \<Rightarrow> 'a accounts_db_scheme
     \<Rightarrow> string \<times> int option \<times> (string \<times> json) list \<Rightarrow> bool" where
  "claim_earned env sha256 lower nfkd events db c \<longleftrightarrow>
     (\<forall>u. fst (snd c) = Some u \<longrightarrow> (\<exists>j lo t. password_at env sha256 lower nfkd events db j lo t \<and> lo_userid lo = u
        \<and> (second_factor lo \<longrightarrow> (\<exists>k > j. response_at env sha256 lower nfkd events db k u t))))
     \<and> (\<forall>u t. claim_int ''2fa_pwd_auth_userid'' c = Some u \<longrightarrow> claim_int ''2fa_pwd_auth_timestamp'' c = Some t \<longrightarrow>
          (\<exists>j lo. password_at env sha256 lower nfkd events db j lo t \<and> lo_userid lo = u))"

lemma login_run_simps [simp]:
  "login_run env sha256 lower nfkd [] db = db"
  "login_run env sha256 lower nfkd (events @ [ev]) db = login_step env sha256 lower nfkd ev (login_run env sha256 lower nfkd events db)"
  by (simp_all add: login_run_def)

lemma password_at_more: "password_at env sha256 lower nfkd events db j lo t \<Longrightarrow> password_at env sha256 lower nfkd (events @ [ev]) db j lo t"
  and response_at_more: "response_at env sha256 lower nfkd events db k u t \<Longrightarrow> response_at env sha256 lower nfkd (events @ [ev]) db k u t"
  by (simp_all add: password_at_def response_at_def nth_append)

lemma claim_earned_more: "claim_earned env sha256 lower nfkd events db c \<Longrightarrow> claim_earned env sha256 lower nfkd (events @ [ev]) db c"
  unfolding claim_earned_def using password_at_more response_at_more by meson

lemma claim_earned_new:
  assumes "password_at env sha256 lower nfkd events db j lo t"
    and "second_factor lo \<longrightarrow> (\<exists>k > j. response_at env sha256 lower nfkd events db k (lo_userid lo) t)"
  shows "claim_earned env sha256 lower nfkd events db (new_session_claim token (lo_userid lo))"
  using assms by (auto simp: claim_earned_def new_session_claim_def claim_int_def)

lemma claim_earned_pending:
  "password_at env sha256 lower nfkd events db j lo t \<Longrightarrow> claim_earned env sha256 lower nfkd events db (pending_claim t token (lo_userid lo))"
  by (auto simp: claim_earned_def pending_claim_def claim_int_def second_factor_session_def create_session_def)

lemma claim_earned_counted:
  assumes "claim_earned env sha256 lower nfkd events db c" "claim_earned env sha256 lower nfkd events db (session_claim s)"
  shows "claim_earned env sha256 lower nfkd events db (counted_claim s n c)"
proof -
  have "claim_int key (counted_claim s n c) = (if fst c = ss_sessionid s then claim_int key (session_claim s) else claim_int key c)"
    if "key \<noteq> ''2fa_pwd_auth_attempts''" for key
    using that by (simp add: claim_int_def counted_claim_def update_conv')
  moreover have "fst (snd (counted_claim s n c)) = fst (snd c)" by (simp add: counted_claim_def)
  ultimately show ?thesis using assms unfolding claim_earned_def by simp
qed

lemma signout_page_claims:
  assumes "config_cache_ok db"
  shows "config_cache_ok (signout_page now cookie db)" "session_claims (signout_page now cookie db) \<subseteq> session_claims db"
proof -
  obtain found db1 where tween: "session_tween now cookie db = (found, db1)" by (meson surj_pair)
  note tw = tween_facts [OF tween]
  have "signout_page now cookie db = db1 \<or> (\<exists>s. signout_page now cookie db = signout s db1)"
    by (auto simp: signout_page_def tween split: option.split)
  then show "config_cache_ok (signout_page now cookie db)" "session_claims (signout_page now cookie db) \<subseteq> session_claims db"
    using config_inputs_ok [OF tw(2) assms] config_inputs_ok [OF signout_claims(2), of db1] tw(1) signout_claims(1) [of _ db1]
    by (elim disjE exE; simp)+
qed

text \<open>The pages of a reset give nobody a session.\<close>

lemma resetpassword_sessions:
  "session_claims (snd (resetpassword_request sha256 now token mail email db)) = session_claims db"
  "config_inputs (snd (resetpassword_request sha256 now token mail email db)) = config_inputs db"
  "session_claims (snd (resetpassword_get sha256 now token db)) = session_claims db"
  "config_inputs (snd (resetpassword_get sha256 now token db)) = config_inputs db"
  by (auto simp: resetpassword_request_def resetpassword_get_def resetpassword_prepare_def Let_def session_claims_def
      config_inputs_def split: sum.split option.split)

lemma reset_transaction_sessions:
  "session_claims (snd (reset_transaction env now salt h password userid ip db)) = session_claims db"
  "config_inputs (snd (reset_transaction env now salt h password userid ip db)) = config_inputs db"
  by (auto simp: reset_transaction_def set_password_def Let_def session_claims_def config_inputs_def
      split: sum.split option.split)

lemma resetpassword_post_sessions:
  "session_claims (snd (resetpassword_post env sha256 now salt sess token password userid ip db)) \<subseteq> session_claims db"
  "config_inputs (snd (resetpassword_post env sha256 now salt sess token password userid ip db)) = config_inputs db"
proof -
  obtain res db1 where reset: "resetpassword_reset env sha256 now salt token password userid ip db = (res, db1)"
    by (meson surj_pair)
  then have "db1 = db \<or> (\<exists>h. db1 = snd (reset_transaction env now salt h password userid ip db))"
    by (auto simp: resetpassword_reset_def split: sum.splits if_splits) (metis snd_conv)
  then have "session_claims db1 = session_claims db" "config_inputs db1 = config_inputs db"
    using reset_transaction_sessions [of env now salt _ password userid ip db] by auto
  then show "session_claims (snd (resetpassword_post env sha256 now salt sess token password userid ip db)) \<subseteq> session_claims db"
    and "config_inputs (snd (resetpassword_post env sha256 now salt sess token password userid ip db)) = config_inputs db"
    by (cases res; auto simp: resetpassword_post_def reset invalidate_other_sessions_def delete_where_def session_claims_def
        config_inputs_def)+
qed

definition reset_event :: "login_event \<Rightarrow> bool" where
  "reset_event ev = (case ev of Ask_reset _ _ _ _ _ _ \<Rightarrow> True | Open_link _ _ _ \<Rightarrow> True | Reset _ _ _ _ _ _ _ \<Rightarrow> True | _ \<Rightarrow> False)"

lemma reset_event_frame:
  assumes "reset_event ev"
  shows "config_inputs (login_step env sha256 lower nfkd ev db) = config_inputs db
    \<and> session_claims (login_step env sha256 lower nfkd ev db) \<subseteq> session_claims db"
proof (cases ev)
  case (Ask_reset now cookie turnstile token mail email)
  obtain found db1 where tween: "session_tween now cookie db = (found, db1)" by (meson surj_pair)
  show ?thesis
    using tween_facts(1,2) [OF tween] resetpassword_sessions(1,2) [of sha256 now token mail email db1]
    by (cases turnstile) (simp_all add: Ask_reset forgetpassword_page_def tween)
next
  case (Open_link now cookie token)
  obtain found db1 where tween: "session_tween now cookie db = (found, db1)" by (meson surj_pair)
  show ?thesis
    using tween_facts(1,2) [OF tween] resetpassword_sessions(3,4) [of sha256 now token db1]
    by (simp add: Open_link resetpassword_link_page_def tween)
next
  case (Reset now cookie salt token password userid ip)
  obtain found db1 where tween: "session_tween now cookie db = (found, db1)" by (meson surj_pair)
  show ?thesis
    using tween_facts(1,2) [OF tween] resetpassword_post_sessions [of env sha256 now salt found token password userid ip db1]
    by (simp add: Reset resetpassword_form_page_def tween)
qed (use assms in \<open>simp_all add: reset_event_def\<close>)

lemma reset_event_claims:
  assumes "reset_event ev" "config_cache_ok db"
  shows "config_cache_ok (login_step env sha256 lower nfkd ev db)"
    and "session_claims (login_step env sha256 lower nfkd ev db) \<subseteq> session_claims db"
  using config_inputs_ok [OF conjunct1 [OF reset_event_frame [OF assms(1)]] assms(2)]
    conjunct2 [OF reset_event_frame [OF assms(1)]] by blast+

lemma event_kinds:
  obtains (Password) now cookie token leaked ip agent username password
    where "ev = Password now cookie token leaked ip agent username password"
  | (Response) now cookie token ip agent response where "ev = Response now cookie token ip agent response"
  | (Sign_out) now cookie where "ev = Sign_out now cookie"
  | (reset) "reset_event ev"
  by (cases ev) (auto simp: reset_event_def)

lemma login_claims:
  assumes "t_sessions db = []" "config_cache_ok db"
  shows "config_cache_ok (login_run env sha256 lower nfkd events db)
    \<and> (\<forall>c \<in> session_claims (login_run env sha256 lower nfkd events db). claim_earned env sha256 lower nfkd events db c)"
proof (induction events rule: rev_induct)
  case Nil
  with assms show ?case by (simp add: session_claims_def)
next
  case (snoc ev events)
  define db1 where "db1 = login_run env sha256 lower nfkd events db"
  from snoc have ok: "config_cache_ok db1"
    and old: "\<And>c. c \<in> session_claims db1 \<Longrightarrow> claim_earned env sha256 lower nfkd (events @ [ev]) db c"
    by (simp_all add: db1_def claim_earned_more)
  have at: "password_at env sha256 lower nfkd (events @ [ev]) db (length events) lo t"
    if "password_given env lower nfkd ev db1 = Some (lo, t)" for lo t
    using that by (simp add: password_at_def db1_def)
  have "config_cache_ok (login_step env sha256 lower nfkd ev db1)
      \<and> (\<forall>c \<in> session_claims (login_step env sha256 lower nfkd ev db1). claim_earned env sha256 lower nfkd (events @ [ev]) db c)"
  proof (cases ev rule: event_kinds)
    case (Password now cookie token leaked ip agent username password)
    obtain res db2 where post: "signin_post env lower nfkd now cookie token leaked ip agent username password db1 = (res, db2)"
      by (meson surj_pair)
    then have step [simp]: "login_step env sha256 lower nfkd ev db1 = db2" by (simp add: Password)
    have given: "password_given env lower nfkd ev db1 = Some (lo, now)"
      if "checked_login env lower nfkd username password db1 = Some lo" "admitted now (lo_userid lo) db1" "\<not> leaked" for lo
      using that by (simp add: password_given_def Password)
    from password_step [OF ok post] show ?thesis
    proof cases
      case 1
      with old show ?thesis by auto
    next
      case (2 lo s)
      have "claim_earned env sha256 lower nfkd (events @ [ev]) db (new_session_claim token (lo_userid lo))"
        by (rule claim_earned_new [OF at [OF given [OF 2(1-3)]]]) (simp add: 2(4))
      with 2 old show ?thesis by auto
    next
      case (3 lo s)
      with claim_earned_pending [OF at [OF given [OF 3(1-3)]]] old show ?thesis by auto
    qed
  next
    case (Response now cookie token ip agent response)
    obtain res db2 where post: "signin_2fa_auth_post env now cookie token ip agent response db1 = (res, db2)"
      by (meson surj_pair)
    then have step [simp]: "login_step env sha256 lower nfkd ev db1 = db2" by (simp add: Response)
    from response_step [OF ok post] show ?thesis
    proof cases
      case 1
      with old show ?thesis by auto
    next
      case (2 s)
      with old show ?thesis by auto
    next
      case (3 s userid since)
      have s: "session_claim s \<in> session_claims db1" using find_session_claim [OF 3(1)] by simp
      with snoc have "claim_earned env sha256 lower nfkd events db (session_claim s)" by (simp add: db1_def)
      with 3(3,4) obtain j lo where j: "password_at env sha256 lower nfkd events db j lo since" "lo_userid lo = userid"
        unfolding claim_earned_def data_int_claim by blast
      have "response_at env sha256 lower nfkd (events @ [ev]) db (length events) userid since"
        using 3(5,6) by (simp add: response_at_def response_given_def Response db1_def)
      moreover have "j < length events" using j(1) by (simp add: password_at_def)
      ultimately have "claim_earned env sha256 lower nfkd (events @ [ev]) db (new_session_claim token userid)"
        using claim_earned_new [OF password_at_more [OF j(1)]] j(2) by blast
      with 3 old show ?thesis by auto
    next
      case (4 s attempts)
      have s: "session_claim s \<in> session_claims db1" using find_session_claim [OF 4(1)] by simp
      have "claim_earned env sha256 lower nfkd (events @ [ev]) db (counted_claim s (attempts + 1) c)" if "c \<in> session_claims db1" for c
        by (rule claim_earned_counted [OF old [OF that] old [OF s]])
      with 4(2,5) show ?thesis by auto
    qed
  next
    case (Sign_out now cookie)
    with signout_page_claims [OF ok, of now cookie] old show ?thesis by auto
  next
    case reset
    from reset_event_claims(1) [OF reset ok, of env sha256 lower nfkd]
      reset_event_claims(2) [OF reset ok, of env sha256 lower nfkd] old show ?thesis by blast
  qed
  then show ?case by (simp add: db1_def)
qed

text \<open>
  C25: Whoever has a session has shown who he is. Along every trace of passwords and second factors posted,
  sign-outs and pages of password resets (asked for, opened and posted), by any browsers and in any order, a session of an account exists only if at some event before the account's name and
  right password were given while it was neither banned nor suspended, and, where the account had a second factor,
  a right response to it came later and within 300 seconds of the password.
\<close>

theorem session_needs_credentials:
  assumes "t_sessions db = []" "config_cache_ok db"
    and "s \<in> set (t_sessions (login_run env sha256 lower nfkd events db))" "ss_userid s = Some userid"
  shows "\<exists>j lo t. password_at env sha256 lower nfkd events db j lo t \<and> lo_userid lo = userid
    \<and> (second_factor lo \<longrightarrow> (\<exists>k > j. response_at env sha256 lower nfkd events db k userid t))"
proof -
  have "session_claim s \<in> session_claims (login_run env sha256 lower nfkd events db)"
    using assms(3) by (simp add: session_claims_def)
  with login_claims [OF assms(1,2), of env sha256 lower nfkd events] assms(4) show ?thesis
    by (auto simp: claim_earned_def)
qed

text \<open>An account \<^verbatim>\<open>fox\<close> with the password \<^verbatim>\<open>0123456789\<close>, a second factor and one recovery code.\<close>

definition login_db :: "unit tags_db_scheme" where
  "login_db = account_db\<lparr>
     t_login := map (\<lambda>lo. lo\<lparr>lo_twofa_secret := Some ''99TERCES''\<rparr>) (t_login account_db),
     t_authbcrypt := [\<lparr>ab_userid = 7, ab_hashsum = ''..0123456789''\<rparr>],
     t_twofa_recovery_codes := [\<lparr>rc_userid = 7, rc_recovery_code_hash = ''..AAAAAAAAAAAAAAAAAAAA''\<rparr>]\<rparr>"

lemma login_db_simps: "t_sessions login_db = []" "config_cache_ok login_db"
  by (simp_all add: login_db_def account_db_def blank_db_def coherent_def peek_all_config_def)

theorem session_needs_credentials_witness:
  "let events = [Ask_reset 900 [] (Inr ()) ''tok'' (Inr ()) ''fox@Weasyl.com'', Open_link 910 [] ''tok'',
         Reset 920 [] ''..'' ''tok'' ''new password'' 7 ''ip'',
         Password 1000 [] ''one'' False None [] (ustr ''Fox'') ''new password'', Response 1100 ''one'' ''two'' None [] ''SECRET''];
       db = login_run plain_env id ascii_lower id events login_db
   in map (\<lambda>s. (ss_sessionid s, ss_userid s)) (t_sessions db) = [(''two'', Some 7)]
      \<and> (\<exists>j lo t. password_at plain_env id ascii_lower id events login_db j lo t \<and> lo_userid lo = 7
           \<and> (second_factor lo \<longrightarrow> (\<exists>k > j. response_at plain_env id ascii_lower id events login_db k 7 t)))"
proof -
  define events where "events = [Ask_reset 900 [] (Inr ()) ''tok'' (Inr ()) ''fox@Weasyl.com'', Open_link 910 [] ''tok'',
    Reset 920 [] ''..'' ''tok'' ''new password'' 7 ''ip'',
    Password 1000 [] ''one'' False None [] (ustr ''Fox'') ''new password'', Response 1100 ''one'' ''two'' None [] ''SECRET'']"
  define db where "db = login_run plain_env id ascii_lower id events login_db"
  have rows: "map (\<lambda>s. (ss_sessionid s, ss_userid s)) (t_sessions db) = [(''two'', Some 7)]"
    unfolding db_def events_def by code_simp
  then obtain s where "s \<in> set (t_sessions db)" "ss_userid s = Some 7" by auto
  from session_needs_credentials [OF login_db_simps this [unfolded db_def]] rows show ?thesis
    unfolding Let_def events_def [symmetric] db_def [symmetric] by blast
qed

subsection \<open>How often a second factor can be guessed\<close>

fun event_tokens :: "login_event \<Rightarrow> string list" where
  "event_tokens (Password now cookie token leaked ip agent username password) = [token]"
| "event_tokens (Response now cookie token ip agent response) = [token]"
| "event_tokens _ = []"

text \<open>Wrong responses to the pending session with the id \<open>cookie\<close> along a trace.\<close>

fun guess_rejected :: "tfa_env \<Rightarrow> string \<Rightarrow> login_event \<Rightarrow> 'a accounts_db_scheme \<Rightarrow> bool" where
  "guess_rejected env c (Response now cookie token ip agent response) db \<longleftrightarrow> cookie = c \<and> rejected_guess env now cookie response db"
| "guess_rejected env c _ db \<longleftrightarrow> False"

fun rejected_guesses ::
  "tfa_env \<Rightarrow> (string \<Rightarrow> string) \<Rightarrow> (ustr \<Rightarrow> ustr) \<Rightarrow> (ustr \<Rightarrow> ustr) \<Rightarrow> string \<Rightarrow> login_event list \<Rightarrow> 'a accounts_db_scheme \<Rightarrow> int" where
  "rejected_guesses env sha256 lower nfkd c [] db = 0"
| "rejected_guesses env sha256 lower nfkd c (ev # events) db =
     (if guess_rejected env c ev db then 1 else 0) + rejected_guesses env sha256 lower nfkd c events (login_step env sha256 lower nfkd ev db)"

text \<open>\<open>k\<close> of the six guesses are used up; with six the session is gone.\<close>

definition guesses_used :: "string \<Rightarrow> int \<Rightarrow> 'a accounts_db_scheme \<Rightarrow> bool" where
  "guesses_used cookie k db \<longleftrightarrow> (\<forall>c \<in> session_claims db. fst c = cookie \<longrightarrow>
     k \<le> 5 \<and> (\<exists>n \<ge> k. claim_int ''2fa_pwd_auth_attempts'' c = Some n))"

lemma guesses_used_fewer: "guesses_used cookie k db \<Longrightarrow> session_claims db' \<subseteq> session_claims db \<Longrightarrow> guesses_used cookie k db'"
  by (auto simp: guesses_used_def)

lemma guesses_used_more:
  "guesses_used cookie k db \<Longrightarrow> session_claims db' \<subseteq> insert c (session_claims db) \<Longrightarrow> fst c \<noteq> cookie \<Longrightarrow> guesses_used cookie k db'"
  unfolding guesses_used_def by blast

lemma guesses_used_gone: "(\<And>c. c \<in> session_claims db \<Longrightarrow> fst c \<noteq> cookie) \<Longrightarrow> guesses_used cookie k db"
  by (auto simp: guesses_used_def)

lemma claim_int_counted:
  "fst c = ss_sessionid s \<Longrightarrow> claim_int ''2fa_pwd_auth_attempts'' (counted_claim s n c) = Some n"
  by (simp add: claim_int_def counted_claim_def update_conv')

lemma claim_sid [simp]: "fst (new_session_claim token u) = token" "fst (pending_claim now token u) = token"
  "fst (counted_claim s n c) = fst c"
  by (simp_all add: new_session_claim_def pending_claim_def second_factor_session_def create_session_def counted_claim_def)

lemma pending_attempts:
  assumes "guesses_used cookie k db" "find_session cookie db = Some s"
  shows "k \<le> 5" "\<exists>n \<ge> k. data_int ''2fa_pwd_auth_attempts'' s = Some n"
  using assms(1) find_session_claim [OF assms(2)] by (auto simp: guesses_used_def data_int_claim)

lemma guess_in_session: "rejected_guess env now cookie response db \<Longrightarrow> \<exists>s. find_session cookie db = Some s"
  by (auto simp: rejected_guess_def split: option.splits)

lemma response_guesses:
  assumes ok: "config_cache_ok db" and used: "guesses_used c k db" and fresh: "token \<noteq> c"
    and post: "signin_2fa_auth_post env now cookie token ip agent response db = (res, db')"
  shows "guesses_used c (if cookie = c \<and> rejected_guess env now cookie response db then k + 1 else k) db'"
  using response_step [OF ok post]
proof cases
  case 1
  have "\<not> rejected_guess env now cookie response db" if "cookie = c"
    using 1(3) pending_attempts(2) [OF used] guess_in_session [of env now cookie response db] that by fastforce
  with 1 guesses_used_fewer [OF used, of db'] show ?thesis by auto
next
  case (2 s)
  show ?thesis
  proof (cases "cookie = c")
    case True
    with 2(3) show ?thesis by (intro guesses_used_gone) auto
  next
    case False
    with 2(3) guesses_used_fewer [OF used, of db'] show ?thesis by auto
  qed
next
  case (3 s userid since)
  show ?thesis
  proof (cases "cookie = c")
    case True
    with 3(7) fresh show ?thesis by (intro guesses_used_gone) auto
  next
    case False
    with guesses_used_more [OF used, of db' "new_session_claim token userid"] 3(7) fresh show ?thesis by auto
  qed
next
  case (4 s attempts)
  have sid: "ss_sessionid s = cookie" using find_session_claim [OF 4(1)] by simp
  show ?thesis
  proof (cases "cookie = c")
    case True
    with pending_attempts(2) [OF used, of s] 4(1,3) have "k \<le> attempts" by auto
    with True 4(4,5) sid show ?thesis by (auto simp: guesses_used_def claim_int_counted)
  next
    case False
    have "counted_claim s n x = x" if "fst x = c" for n x using that False sid by (simp add: counted_claim_def)
    with False 4(5) used show ?thesis by (auto simp: guesses_used_def)
  qed
qed

lemma guess_step:
  assumes ok: "config_cache_ok db" and used: "guesses_used c k db" and fresh: "c \<notin> set (event_tokens ev)"
  shows "config_cache_ok (login_step env sha256 lower nfkd ev db)
    \<and> guesses_used c (if guess_rejected env c ev db then k + 1 else k) (login_step env sha256 lower nfkd ev db)"
proof (cases ev rule: event_kinds)
  case (Password now cookie token leaked ip agent username password)
  obtain res db2 where post: "signin_post env lower nfkd now cookie token leaked ip agent username password db = (res, db2)"
    by (meson surj_pair)
  from fresh have token: "token \<noteq> c" by (auto simp: Password)
  from password_step [OF ok post] have "config_cache_ok db2 \<and> guesses_used c k db2"
  proof cases
    case 1
    with guesses_used_fewer [OF used, of db2] show ?thesis by simp
  next
    case (2 lo s)
    with guesses_used_more [OF used, of db2 "session_claim s"] token show ?thesis by simp
  next
    case (3 lo s)
    with guesses_used_more [OF used, of db2 "session_claim s"] token show ?thesis by simp
  qed
  with post show ?thesis by (simp add: Password)
next
  case (Response now cookie token ip agent response)
  obtain res db2 where post: "signin_2fa_auth_post env now cookie token ip agent response db = (res, db2)" by (meson surj_pair)
  from response_step [OF ok post] have "config_cache_ok db2" by cases
  moreover have "token \<noteq> c" using fresh by (simp add: Response)
  ultimately show ?thesis using response_guesses [OF ok used _ post] post by (simp add: Response)
next
  case (Sign_out now cookie)
  with signout_page_claims [OF ok, of now cookie] guesses_used_fewer [OF used] show ?thesis by simp
next
  case reset
  then have "\<not> guess_rejected env c ev db" by (cases ev) (simp_all add: reset_event_def)
  with reset_event_claims(1) [OF reset ok, of env sha256 lower nfkd]
    guesses_used_fewer [OF used reset_event_claims(2) [OF reset ok, of env sha256 lower nfkd]]
  show ?thesis by simp
qed

lemma guess_needs_session: "guesses_used c k db \<Longrightarrow> guess_rejected env c ev db \<Longrightarrow> k \<le> 5"
  using pending_attempts(1) guess_in_session by (cases ev) fastforce+

lemma guesses_left:
  "config_cache_ok db \<Longrightarrow> guesses_used c k db \<Longrightarrow> k \<le> 6 \<Longrightarrow> (\<forall>ev \<in> set events. c \<notin> set (event_tokens ev)) \<Longrightarrow>
   rejected_guesses env sha256 lower nfkd c events db \<le> 6 - k"
proof (induction events arbitrary: db k)
  case (Cons ev events)
  note next_state = guess_step [OF Cons.prems(1,2), of ev env sha256 lower nfkd]
  show ?case
  proof (cases "guess_rejected env c ev db")
    case True
    with guess_needs_session [OF Cons.prems(2)] have "k + 1 \<le> 6" by fastforce
    with True Cons next_state show ?thesis by fastforce
  next
    case False
    with Cons next_state show ?thesis by fastforce
  qed
qed simp

text \<open>
  C26: A second factor cannot be guessed at length. After the right password was given, whatever pages are posted by
  anyone in any order afterwards, at most six wrong responses are checked against the account in the session
  that the password opened; then only the password opens another.
\<close>

theorem second_factor_guesses:
  assumes "config_cache_ok db"
    and "signin_post env lower nfkd now cookie token leaked ip agent username password db = (Inr (AskSecondFactor s), db')"
    and "\<forall>ev \<in> set events. token \<notin> set (event_tokens ev)"
  shows "rejected_guesses env sha256 lower nfkd token events db' \<le> 6"
proof -
  from password_step [OF assms(1,2)] have "config_cache_ok db' \<and> guesses_used token 0 db'"
  proof cases
    case (3 lo s)
    have "claim_int ''2fa_pwd_auth_attempts'' (pending_claim now token (lo_userid lo)) = Some 0"
      by (simp add: claim_int_def pending_claim_def second_factor_session_def)
    moreover have "c = pending_claim now token (lo_userid lo)" if "c \<in> session_claims db'" "fst c = token" for c
      using that 3(7,8) 3(9) [of c] by auto
    ultimately show ?thesis using 3(6) by (auto simp: guesses_used_def)
  qed auto
  with guesses_left [of db' token 0 events] assms(3) show ?thesis by simp
qed

theorem second_factor_guesses_witness:
  "let guess = Response 1100 ''one'' ''two'' None [] ''123456'';
       (page, db) = signin_post plain_env ascii_lower id 1000 [] ''one'' False None [] (ustr ''Fox'') ''0123456789'' login_db
   in (\<exists>s. page = Inr (AskSecondFactor s)) \<and> rejected_guesses plain_env id ascii_lower id ''one'' (replicate 7 guess) db \<le> 6
      \<and> rejected_guesses plain_env id ascii_lower id ''one'' (replicate 5 guess) db = 5"
proof -
  define guess where "guess = Response 1100 ''one'' ''two'' None [] ''123456''"
  define db where "db = snd (signin_post plain_env ascii_lower id 1000 [] ''one'' False None [] (ustr ''Fox'') ''0123456789'' login_db)"
  define page where "page = fst (signin_post plain_env ascii_lower id 1000 [] ''one'' False None [] (ustr ''Fox'') ''0123456789'' login_db)"
  have "page = Inr (AskSecondFactor (second_factor_session 1000 ''one'' 7))" unfolding page_def by code_simp
  then have post: "signin_post plain_env ascii_lower id 1000 [] ''one'' False None [] (ustr ''Fox'') ''0123456789'' login_db
      = (Inr (AskSecondFactor (second_factor_session 1000 ''one'' 7)), db)"
    unfolding page_def db_def by (metis prod.collapse)
  have "\<forall>ev \<in> set (replicate 7 guess). ''one'' \<notin> set (event_tokens ev)" by (simp add: guess_def)
  from second_factor_guesses [OF login_db_simps(2) post this]
  have "rejected_guesses plain_env id ascii_lower id ''one'' (replicate 7 guess) db \<le> 6" .
  moreover have "rejected_guesses plain_env id ascii_lower id ''one'' (replicate 5 guess) db = 5"
    unfolding db_def guess_def by code_simp
  ultimately show ?thesis using post unfolding Let_def guess_def by simp
qed

text \<open>
  The bound needs the requests to come one after the other. Two requests that load the session before either has
  counted store the same number of attempts, so together they count once.
\<close>

lemma count_attempt_lost: "count_attempt s (count_attempt s db) = count_attempt s db"
  by (simp add: count_attempt_def update_where_def comp_def Let_def cong: if_cong)

lemma concurrent_guesses_count_once:
  assumes "data_int ''2fa_pwd_auth_userid'' s = Some userid" "data_int ''2fa_pwd_auth_timestamp'' s = Some since"
    and "data_int ''2fa_pwd_auth_attempts'' s = Some attempts" "attempts < 5" "now - since \<le> 300"
    and wrong: "tfa_verify env userid response True db = (Inr False, db)"
  shows "let (page, db1) = second_factor_post env now token ip agent response (Some s) db
         in page = Inr (AskSecondFactor s) \<and> second_factor_post env now token ip agent response (Some s) db1 = (page, db1)"
proof -
  have one: "second_factor_post env now token ip agent response (Some s) db = (Inr (AskSecondFactor s), count_attempt s db)"
    using assms by (simp add: second_factor_post_def wrong_response_def)
  have "tfa_verify env userid response True (count_attempt s db) = (Inr False, count_attempt s db)"
    unfolding count_attempt_def tfa_verify_sessions wrong by simp
  then have "second_factor_post env now token ip agent response (Some s) (count_attempt s db)
      = (Inr (AskSecondFactor s), count_attempt s db)"
    using assms(1-5) by (simp add: second_factor_post_def wrong_response_def count_attempt_lost)
  with one show ?thesis by simp
qed

text \<open>
  A caller that passes no request is never told that a second factor is required: the dashboard's comparison
  with \<open>SecondFactorRequired\<close> holds only because two named tuples with equal fields are equal.
\<close>

lemma no_request_no_second_factor:
  assumes "config_cache_ok db" "authenticate_bcrypt env lower nfkd now username password None db = (Inr (auth, sess), db')"
  shows "auth \<noteq> SecondFactorRequired userid"
  using authenticate_cases [OF assms] by cases (auto simp: not_entered_def enter_def)

subsection \<open>Resetting a password\<close>

definition hashes_of :: "int \<Rightarrow> 'a accounts_db_scheme \<Rightarrow> string list" where
  "hashes_of userid db = map ab_hashsum (filter (\<lambda>ab. ab_userid ab = userid) (t_authbcrypt db))"

lemma hashes_set_password:
  "hashes_of u (set_password userid h db) = (if u = userid then map (\<lambda>_. h) (hashes_of u db) else hashes_of u db)"
proof -
  have eq: "map ab_hashsum (filter (\<lambda>ab. ab_userid ab = u) (update_where (\<lambda>ab. ab_userid ab = userid) (\<lambda>ab. ab\<lparr>ab_hashsum := h\<rparr>) rows))
      = (if u = userid then map (\<lambda>_. h) (map ab_hashsum (filter (\<lambda>ab. ab_userid ab = u) rows))
         else map ab_hashsum (filter (\<lambda>ab. ab_userid ab = u) rows))" for rows
    by (induction rows) (auto simp: update_where_def)
  show ?thesis unfolding hashes_of_def set_password_def by (simp del: map_map add: eq)
qed

lemma count_hashes: "count_where (\<lambda>ab. ab_userid ab = u) (t_authbcrypt db) = int (length (hashes_of u db))"
  by (simp add: count_where_def hashes_of_def)

lemma reset_refused:
  assumes "hash_token sha256 token = Inr h"
    and "\<And>fp. fp \<in> set (t_forgotpassword db) \<Longrightarrow> fp_token_sha256 fp = h \<Longrightarrow> fp_created_at fp < now - 3600"
  shows "\<exists>e. resetpassword_post env sha256 now salt sess token password userid ip db = (Inl e, db)"
proof -
  have "find (\<lambda>fp. fp_token_sha256 fp = h \<and> fp_created_at fp \<ge> now - 3600) (t_forgotpassword db) = None"
    using assms(2) by (fastforce simp: find_None_iff)
  then show ?thesis
    by (simp add: resetpassword_post_def resetpassword_reset_def reset_transaction_def assms(1))
qed

lemma find_only:
  assumes "x \<in> set xs" "P x" "\<And>y. y \<in> set xs \<Longrightarrow> P y \<Longrightarrow> y = x"
  shows "find P xs = Some x"
proof (cases "find P xs")
  case None
  with assms(1,2) show ?thesis by (auto simp: find_None_iff)
next
  case (Some y)
  with assms(3) show ?thesis by (auto dest: find_SomeD)
qed

lemma password_reset_facts:
  assumes sent: "resetpassword_request sha256 t0 token (Inr ()) email db0 = (Inr (), db)"
    and address: "normalize_address email = Some address" "find_reset_target address db = Some target"
    and password: "password_secure password" "hashpw env password salt = Inr hashsum" "length (hashes_of (rt_userid target) db) = 1"
    and post: "resetpassword_post env sha256 now salt sess token password userid ip db = (res, db')"
  shows "is_ok res \<longleftrightarrow> now \<le> t0 + 3600 \<and> userid = rt_userid target"
    and "\<not> is_ok res \<Longrightarrow> db' = db"
    and "is_ok res \<Longrightarrow> hashes_of u db' = (if u = userid then [hashsum] else hashes_of u db)"
    and "is_ok res \<Longrightarrow> s \<in> set (t_sessions db') \<longleftrightarrow> s \<in> set (t_sessions db)
           \<and> (ss_userid s = Some userid \<longrightarrow> (\<exists>mine. sess = Some mine \<and> ss_sessionid s = ss_sessionid mine) \<or> (sess = None \<and> ss_sessionid s = []))"
    and "is_ok res \<Longrightarrow> \<exists>e. resetpassword_post env sha256 now' salt' sess' token password' userid' ip' db' = (Inl e, db')"
proof -
  from sent address(1) obtain h where h: "hash_token sha256 token = Inr h"
    and new: "\<And>fp. fp \<in> set (t_forgotpassword db0) \<Longrightarrow> fp_token_sha256 fp \<noteq> h"
    and db: "db = db0\<lparr>t_forgotpassword := t_forgotpassword db0 @ [\<lparr>fp_token_sha256 = h, fp_email = address, fp_created_at = t0\<rparr>]\<rparr>"
    by (auto simp: resetpassword_request_def exists_where_iff split: sum.splits if_splits)
  define row where "row = \<lparr>fp_token_sha256 = h, fp_email = address, fp_created_at = t0\<rparr>"
  define hit where "hit = (\<lambda>fp :: forgotpassword_row. fp_token_sha256 fp = h \<and> fp_created_at fp \<ge> now - 3600)"
  have rows: "set (t_forgotpassword db) = insert row (set (t_forgotpassword db0))" by (simp add: db row_def)
  have only: "fp = row" if "fp \<in> set (t_forgotpassword db)" "fp_token_sha256 fp = h" for fp
    using that new rows by auto
  define db1 where "db1 = set_password (rt_userid target) hashsum (db\<lparr>t_forgotpassword := delete_where hit (t_forgotpassword db)\<rparr>)"
  define db2 where "db2 = db1\<lparr>t_user_events := t_user_events db1 @ [\<lparr>ue_eventid = event_seq db1, ue_userid = rt_userid target,
      ue_event = ''password-reset'', ue_data = [(''address'', J_string ip)], ue_occurred = now\<rparr>], event_seq := event_seq db1 + 1\<rparr>"
  have result: "(res, db') = (if now \<le> t0 + 3600 \<and> userid = rt_userid target then (Inr (), invalidate_other_sessions sess userid db2)
      else (Inl (WeasylError ''forgotpasswordRecordMissing''), db))"
  proof (cases "now \<le> t0 + 3600")
    case True
    then have "find hit (t_forgotpassword db) = Some row"
      using only rows by (intro find_only) (auto simp: hit_def row_def)
    moreover have "fp_email row = address" by (simp add: row_def)
    moreover have "count_where (\<lambda>ab. ab_userid ab = rt_userid target) (t_authbcrypt db) = 1"
      using password(3) by (simp add: count_hashes)
    ultimately have "reset_transaction env now salt h password userid ip db =
        (if userid = rt_userid target then (Inr (), db2) else (Inl (WeasylError ''forgotpasswordRecordMissing''), db))"
      unfolding reset_transaction_def hit_def [symmetric] db2_def db1_def using password(2) address(2) by (simp add: Let_def)
    then show ?thesis
      using post True h password(1) by (simp add: resetpassword_post_def resetpassword_reset_def split: if_splits)
  next
    case False
    have "\<not> hit fp" if "fp \<in> set (t_forgotpassword db)" for fp
    proof
      assume fp: "hit fp"
      then have "fp = row" using only [OF that] by (simp add: hit_def)
      with fp False show False by (simp add: hit_def row_def)
    qed
    then have "find hit (t_forgotpassword db) = None"
      by (auto simp: find_None_iff)
    then show ?thesis
      using post False h password(1)
      by (simp add: resetpassword_post_def resetpassword_reset_def reset_transaction_def hit_def [symmetric])
  qed
  then show accepted: "is_ok res \<longleftrightarrow> now \<le> t0 + 3600 \<and> userid = rt_userid target" and "\<not> is_ok res \<Longrightarrow> db' = db"
    by (auto split: if_splits)
  assume "is_ok res"
  with accepted result have db': "db' = invalidate_other_sessions sess userid db2" and userid: "userid = rt_userid target"
    and in_time: "now \<le> t0 + 3600" by simp_all
  obtain old where one: "hashes_of (rt_userid target) db = [old]"
    using password(3) by (cases "hashes_of (rt_userid target) db") auto
  have frame: "hashes_of v (db\<lparr>t_forgotpassword := rows\<rparr>) = hashes_of v db" for v rows by (simp add: hashes_of_def)
  have "hashes_of u db' = hashes_of u db1"
    by (simp add: db' db2_def invalidate_other_sessions_def hashes_of_def)
  also have "\<dots> = (if u = userid then [hashsum] else hashes_of u db)"
    unfolding db1_def hashes_set_password using one userid by (simp add: frame)
  finally show "hashes_of u db' = (if u = userid then [hashsum] else hashes_of u db)" .
  have sessions: "t_sessions db' = delete_where (\<lambda>s. ss_userid s = Some userid
      \<and> ss_sessionid s \<noteq> (case sess of None \<Rightarrow> [] | Some s \<Rightarrow> ss_sessionid s)) (t_sessions db)"
    and tokens: "t_forgotpassword db' = delete_where hit (t_forgotpassword db)"
    by (simp_all add: db' db2_def db1_def set_password_def invalidate_other_sessions_def)
  show "s \<in> set (t_sessions db') \<longleftrightarrow> s \<in> set (t_sessions db)
      \<and> (ss_userid s = Some userid \<longrightarrow> (\<exists>mine. sess = Some mine \<and> ss_sessionid s = ss_sessionid mine) \<or> (sess = None \<and> ss_sessionid s = []))"
    by (cases sess) (auto simp: sessions table_simps)
  have "fp_token_sha256 fp \<noteq> h" if "fp \<in> set (t_forgotpassword db')" for fp
  proof
    assume fp: "fp_token_sha256 fp = h"
    have "fp \<in> set (t_forgotpassword db)" "\<not> hit fp" using that by (auto simp: tokens table_simps)
    moreover from this have "fp = row" using only fp by blast
    ultimately show False using in_time by (simp add: hit_def row_def)
  qed
  then show "\<exists>e. resetpassword_post env sha256 now' salt' sess' token password' userid' ip' db' = (Inl e, db')"
    using reset_refused [OF h] by blast
qed

text \<open>
  C27: A mailed token resets one password, once, within the hour. Within 3600 seconds of \<open>request\<close> the page accepts it
  with a new password of ten characters or more for the account the address leads to; then this account's hash is
  the one of the new password, all its sessions but the one of the request are gone, every other account keeps its
  hash and sessions, and the token is refused from then on. Later than that, or for another account, the page
  refuses it and changes nothing.
\<close>

theorem password_reset_effect:
  assumes sent: "resetpassword_request sha256 t0 token (Inr ()) email db0 = (Inr (), db)"
    and address: "normalize_address email = Some address" "find_reset_target address db = Some target"
    and password: "password_secure password" "hashpw env password salt = Inr hashsum" "length (hashes_of (rt_userid target) db) = 1"
    and post: "resetpassword_post env sha256 now salt sess token password userid ip db = (res, db')"
  shows "(is_ok res \<longleftrightarrow> now \<le> t0 + 3600 \<and> userid = rt_userid target)
    \<and> (\<not> is_ok res \<longrightarrow> db' = db)
    \<and> (is_ok res \<longrightarrow>
        (\<forall>u. hashes_of u db' = (if u = userid then [hashsum] else hashes_of u db))
        \<and> (\<forall>s. s \<in> set (t_sessions db') \<longleftrightarrow> s \<in> set (t_sessions db)
             \<and> (ss_userid s = Some userid \<longrightarrow>
                  (\<exists>mine. sess = Some mine \<and> ss_sessionid s = ss_sessionid mine) \<or> (sess = None \<and> ss_sessionid s = [])))
        \<and> (\<forall>now' salt' sess' password' userid' ip'.
             \<exists>e. resetpassword_post env sha256 now' salt' sess' token password' userid' ip' db' = (Inl e, db')))"
  by (intro conjI impI allI) (rule password_reset_facts [OF assms]; assumption?)+

theorem password_reset_effect_witness:
  "let db = snd (resetpassword_request id 1000 ''tok'' (Inr ()) ''fox@Weasyl.com'' login_db);
       (res, db') = resetpassword_post plain_env id 4600 ''..'' None ''tok'' ''new password'' 7 ''ip'' db
   in is_ok res \<and> hashes_of 7 db' = [''..new password'']
      \<and> (\<exists>e. resetpassword_post plain_env id 4600 ''..'' None ''tok'' ''other password'' 7 ''ip'' db' = (Inl e, db'))"
proof -
  define db where "db = snd (resetpassword_request id 1000 ''tok'' (Inr ()) ''fox@Weasyl.com'' login_db)"
  have "fst (resetpassword_request id 1000 ''tok'' (Inr ()) ''fox@Weasyl.com'' login_db) = Inr ()" by code_simp
  then have sent: "resetpassword_request id 1000 ''tok'' (Inr ()) ''fox@Weasyl.com'' login_db = (Inr (), db)"
    unfolding db_def by (metis prod.collapse)
  define target where "target = \<lparr>rt_userid = 7, rt_email = ''fox@weasyl.com'', rt_username = ''Fox''\<rparr>"
  have target: "normalize_address ''fox@Weasyl.com'' = Some ''fox@weasyl.com''" "find_reset_target ''fox@weasyl.com'' db = Some target"
    unfolding db_def target_def by code_simp+
  have password: "password_secure ''new password''" "hashpw plain_env ''new password'' ''..'' = Inr ''..new password''"
    "length (hashes_of (rt_userid target) db) = 1"
    unfolding db_def target_def by code_simp+
  obtain res db' where post: "resetpassword_post plain_env id 4600 ''..'' None ''tok'' ''new password'' 7 ''ip'' db = (res, db')"
    by (meson surj_pair)
  note effect = password_reset_effect [OF sent target password post]
  have "is_ok res" using effect by (simp add: target_def)
  with effect post show ?thesis unfolding Let_def db_def [symmetric] by auto
qed

end
