(* ===== verification/Ages.thy ===== *)
theory Ages
  imports Relations
begin

text \<open>
  The age of a user and what it allows: \<open>age_in_years\<close> of \<^verbatim>\<open>weasyl/define.py\<close>, and of \<^verbatim>\<open>weasyl/profile.py\<close> the
  functions that compare the age with a rating and that note that a user has asserted to be an adult. A date is
  the triple of year, month and day; \<open>today\<close> is the current date in UTC. \<open>RuntimeError\<close> is represented by
  \<open>AssertionError\<close>.
\<close>

type_synonym date = "int \<times> int \<times> int"

definition age_in_years :: "date \<Rightarrow> date \<Rightarrow> int" where
  "age_in_years today birthdate =
     (let (year, month, day) = today;
          (birth_year, birth_month, birth_day) = birthdate;
          is_upcoming = (month < birth_month \<or> month = birth_month \<and> day < birth_day)
      in year - birth_year - (if is_upcoming then 1 else 0))"

definition birthday_of :: "int \<Rightarrow> 'a accounts_db_scheme \<Rightarrow> date option" where
  "birthday_of userid db = Option.bind (find (\<lambda>ui. ui_userid ui = userid) (t_userinfo db)) ui_birthday"

definition get_user_age :: "date \<Rightarrow> int \<Rightarrow> 'a accounts_db_scheme \<Rightarrow> int option result" where
  "get_user_age today userid db =
     (if userid = 0 then Inl AssertionError else Inr (map_option (age_in_years today) (birthday_of userid db)))"

definition get_user_ratings :: "date \<Rightarrow> int \<Rightarrow> 'a accounts_db_scheme \<Rightarrow> rating list result" where
  "get_user_ratings today userid db = map_sum id get_ratings_for_age (get_user_age today userid db)"

definition is_user_rating_allowed :: "date \<Rightarrow> int \<Rightarrow> rating \<Rightarrow> 'a accounts_db_scheme \<Rightarrow> bool result" where
  "is_user_rating_allowed today userid rating db =
     map_sum id (\<lambda>user_age. case user_age of None \<Rightarrow> True | Some a \<Rightarrow> a \<ge> minimum_age rating) (get_user_age today userid db)"

definition check_user_rating_allowed :: "date \<Rightarrow> int \<Rightarrow> rating \<Rightarrow> 'a accounts_db_scheme \<Rightarrow> unit result" where
  "check_user_rating_allowed today userid rating db =
     (case is_user_rating_allowed today userid rating db of
        Inl e \<Rightarrow> Inl e
      | Inr allowed \<Rightarrow> if allowed then Inr () else Inl (WeasylError ''ratingInvalid''))"

subsection \<open>Asserting to be an adult\<close>

definition query_is_adult :: "int \<Rightarrow> 'a accounts_db_scheme \<Rightarrow> bool option" where
  "query_is_adult userid db = map_option ui_asserted_adult (find (\<lambda>ui. ui_userid ui = userid) (t_userinfo db))"

definition peek_is_adult :: "int \<Rightarrow> 'a accounts_db_scheme \<Rightarrow> bool option option" where
  "peek_is_adult userid db = map_option Some (c_is_adult db userid)"

definition store_is_adult :: "int \<Rightarrow> bool option option \<Rightarrow> 'a accounts_db_scheme \<Rightarrow> 'a accounts_db_scheme" where
  "store_is_adult userid v db = db\<lparr>c_is_adult := (c_is_adult db)(userid := Option.bind v id)\<rparr>"

text \<open>A user without a row raises; that outcome is not cached.\<close>

definition profile_is_adult :: "int \<Rightarrow> 'a accounts_db_scheme \<Rightarrow> bool result \<times> 'a accounts_db_scheme" where
  "profile_is_adult userid db =
     (case read_through (\<lambda>v. v \<noteq> None) (peek_is_adult userid) (query_is_adult userid) (store_is_adult userid) db of
        (None, db) \<Rightarrow> (Inl AssertionError, db)
      | (Some adult, db) \<Rightarrow> (Inr adult, db))"

definition assert_adult :: "int \<Rightarrow> 'a accounts_db_scheme \<Rightarrow> unit result \<times> 'a accounts_db_scheme" where
  "assert_adult userid db =
     (let rowcount = count_where (\<lambda>ui. ui_userid ui = userid) (t_userinfo db);
          db = db\<lparr>t_userinfo := update_where (\<lambda>ui. ui_userid ui = userid) (\<lambda>ui. ui\<lparr>ui_asserted_adult := True\<rparr>) (t_userinfo db)\<rparr>
      in if rowcount \<noteq> 1 then (Inl AssertionError, db) else (Inr (), store_is_adult userid (Some (Some True)) db))"

text \<open>The checks every form for a post makes of its rating.\<close>

definition allow_rating :: "date \<Rightarrow> int \<Rightarrow> rating \<Rightarrow> 'a accounts_db_scheme \<Rightarrow> unit result \<times> 'a accounts_db_scheme" where
  "allow_rating today userid rating db =
     (case check_user_rating_allowed today userid rating db of
        Inl e \<Rightarrow> (Inl e, db)
      | Inr _ \<Rightarrow> if minimum_age rating \<noteq> 0 then assert_adult userid db else (Inr (), db))"

subsection \<open>The cache meets its contract\<close>

interpretation is_adult: cached_query "\<lambda>v. v \<noteq> None" query_is_adult peek_is_adult store_is_adult
proof
  fix v :: "bool option option" and k k' and s :: "'a accounts_db_scheme"
  assume "\<And>x. v = Some x \<Longrightarrow> x \<noteq> None"
  then show "peek_is_adult k (store_is_adult k' v s) = (if k = k' then v else peek_is_adult k s)"
    by (cases v) (auto simp: peek_is_adult_def store_is_adult_def)
qed (simp add: query_is_adult_def store_is_adult_def)

end
