(* ===== verification/Tags.thy ===== *)
theory Tags
  imports Ages "HOL-Library.Char_ord" "HOL-Library.List_Lexorder"
begin

text \<open>
  Tags: \<^verbatim>\<open>weasyl/searchtag.py\<close> and \<^verbatim>\<open>weasyl/blocktag.py\<close>. A Python set of names is a list without
  repetitions. \<open>now\<close> is \<open>get_time()\<close> where a row keeps it and the clock in seconds since 1970 for the undo
  tokens; each function that retries a transaction is one run of it (\<open>serializable_retry\<close> is in theory
  \<open>Define\<close>). The text logs are left out.
\<close>

subsection \<open>Taggable targets\<close>

datatype taggable_target = SubmissionTarget int | CharacterTarget int | JournalTarget int

fun target_id :: "taggable_target \<Rightarrow> int" where
  "target_id (SubmissionTarget i) = i"
| "target_id (CharacterTarget i) = i"
| "target_id (JournalTarget i) = i"

fun type_code :: "taggable_target \<Rightarrow> int" where
  "type_code (SubmissionTarget _) = of_char (CHR ''s'')"
| "type_code (CharacterTarget _) = of_char (CHR ''c'')"
| "type_code (JournalTarget _) = of_char (CHR ''j'')"

definition get_target :: "string \<Rightarrow> int \<Rightarrow> taggable_target result" where
  "get_target feature targetid =
     (if feature = ''submit'' then Inr (SubmissionTarget targetid)
      else if feature = ''char'' then Inr (CharacterTarget targetid)
      else if feature = ''journal'' then Inr (JournalTarget targetid)
      else Inl (WeasylError ''Unexpected''))"

text \<open>The table of a target, \<open>f"... {target.table} ..."\<close>.\<close>

fun searchmap :: "taggable_target \<Rightarrow> 'a tags_db_scheme \<Rightarrow> searchmap_row list" where
  "searchmap (SubmissionTarget _) db = t_searchmapsubmit db"
| "searchmap (CharacterTarget _) db = t_searchmapchar db"
| "searchmap (JournalTarget _) db = t_searchmapjournal db"

fun put_searchmap :: "taggable_target \<Rightarrow> searchmap_row list \<Rightarrow> 'a tags_db_scheme \<Rightarrow> 'a tags_db_scheme" where
  "put_searchmap (SubmissionTarget _) rows db = db\<lparr>t_searchmapsubmit := rows\<rparr>"
| "put_searchmap (CharacterTarget _) rows db = db\<lparr>t_searchmapchar := rows\<rparr>"
| "put_searchmap (JournalTarget _) rows db = db\<lparr>t_searchmapjournal := rows\<rparr>"

fun feedback_rows :: "taggable_target \<Rightarrow> 'a tags_db_scheme \<Rightarrow> tag_feedback_row list" where
  "feedback_rows (SubmissionTarget _) db = t_tag_feedback_submission db"
| "feedback_rows (CharacterTarget _) db = t_tag_feedback_character db"
| "feedback_rows (JournalTarget _) db = t_tag_feedback_journal db"

fun put_feedback :: "taggable_target \<Rightarrow> tag_feedback_row list \<Rightarrow> 'a tags_db_scheme \<Rightarrow> 'a tags_db_scheme" where
  "put_feedback (SubmissionTarget _) rows db = db\<lparr>t_tag_feedback_submission := rows\<rparr>"
| "put_feedback (CharacterTarget _) rows db = db\<lparr>t_tag_feedback_character := rows\<rparr>"
| "put_feedback (JournalTarget _) rows db = db\<lparr>t_tag_feedback_journal := rows\<rparr>"

fun target_ownerid :: "taggable_target \<Rightarrow> 'a tags_db_scheme \<Rightarrow> int option" where
  "target_ownerid (SubmissionTarget i) db = get_ownerid i 0 0 db"
| "target_ownerid (CharacterTarget i) db = get_ownerid 0 i 0 db"
| "target_ownerid (JournalTarget i) db = get_ownerid 0 0 i db"

subsection \<open>Names and ids\<close>

definition query_tag_id :: "string \<Rightarrow> 'a tags_db_scheme \<Rightarrow> int option" where
  "query_tag_id name db = map_option st_tagid (find (\<lambda>st. st_title st = name) (t_searchtag db))"

definition peek_tag_id :: "string \<Rightarrow> 'a tags_db_scheme \<Rightarrow> int option option" where
  "peek_tag_id name db = map_option Some (c_tag_ids db name)"

definition store_tag_id :: "string \<Rightarrow> int option option \<Rightarrow> 'a tags_db_scheme \<Rightarrow> 'a tags_db_scheme" where
  "store_tag_id name v db = db\<lparr>c_tag_ids := (c_tag_ids db)(name := Option.bind v id)\<rparr>"

definition query_tag_name :: "int \<Rightarrow> 'a tags_db_scheme \<Rightarrow> string option" where
  "query_tag_name tagid db = map_option st_title (find (\<lambda>st. st_tagid st = tagid) (t_searchtag db))"

definition peek_tag_name :: "int \<Rightarrow> 'a tags_db_scheme \<Rightarrow> string option option" where
  "peek_tag_name tagid db = map_option Some (c_tag_names db tagid)"

definition store_tag_name :: "int \<Rightarrow> string option option \<Rightarrow> 'a tags_db_scheme \<Rightarrow> 'a tags_db_scheme" where
  "store_tag_name tagid v db = db\<lparr>c_tag_names := (c_tag_names db)(tagid := Option.bind v id)\<rparr>"

text \<open>The dictionaries of the two cached queries, with \<open>None\<close> for what they leave out.\<close>

fun get_ids :: "string list \<Rightarrow> 'a tags_db_scheme \<Rightarrow> (string \<times> int option) list \<times> 'a tags_db_scheme" where
  "get_ids [] db = ([], db)"
| "get_ids (name # names) db =
     (let (i, db) = read_through (\<lambda>v. v \<noteq> None) (peek_tag_id name) (query_tag_id name) (store_tag_id name) db;
          (rest, db) = get_ids names db
      in ((name, i) # rest, db))"

fun get_names :: "int list \<Rightarrow> 'a tags_db_scheme \<Rightarrow> (int \<times> string option) list \<times> 'a tags_db_scheme" where
  "get_names [] db = ([], db)"
| "get_names (i # ids) db =
     (let (name, db) = read_through (\<lambda>v. v \<noteq> None) (peek_tag_name i) (query_tag_name i) (store_tag_name i) db;
          (rest, db) = get_names ids db
      in ((i, name) # rest, db))"

definition get_id :: "string \<Rightarrow> 'a tags_db_scheme \<Rightarrow> int option \<times> 'a tags_db_scheme" where
  "get_id name db = (let (ids, db) = get_ids [name] db in (case ids of [] \<Rightarrow> None | p # _ \<Rightarrow> snd p, db))"

text \<open>\<open>INSERT .. ON CONFLICT (title) DO NOTHING\<close>; a skipped row uses up an id, too.\<close>

definition insert_title :: "string \<Rightarrow> 'a tags_db_scheme \<Rightarrow> 'a tags_db_scheme" where
  "insert_title title db =
     (let row = \<lparr>st_tagid = searchtag_seq db, st_title = title\<rparr>
      in db\<lparr>t_searchtag := insert_or_nothing st_title row (t_searchtag db), searchtag_seq := searchtag_seq db + 1\<rparr>)"

text \<open>The ids in the order of the names; no name is left without an id.\<close>

definition get_or_create_many :: "string list \<Rightarrow> 'a tags_db_scheme \<Rightarrow> int list \<times> 'a tags_db_scheme" where
  "get_or_create_many names db =
     (let (ids, db) = get_ids names db;
          missing_names = map fst (filter (\<lambda>(name, i). i = None) ids)
      in if missing_names = [] then (map (\<lambda>(name, i). case i of Some n \<Rightarrow> n | None \<Rightarrow> 0) ids, db)
         else
           (let (created, db) = get_ids missing_names (fold insert_title missing_names db)
            in (map (\<lambda>(name, i). case i of Some n \<Rightarrow> n
                                  | None \<Rightarrow> (case map_of created name of Some (Some n) \<Rightarrow> n | _ \<Rightarrow> 0)) ids, db)))"

definition get_or_create :: "string \<Rightarrow> 'a tags_db_scheme \<Rightarrow> int \<times> 'a tags_db_scheme" where
  "get_or_create name db = (let (ids, db) = get_or_create_many [name] db in (hd ids, db))"

subsection \<open>Reading tags\<close>

text \<open>The words between white space and commas; the empty words that \<open>re.split\<close> adds give no tag.\<close>

definition tag_words :: "ustr \<Rightarrow> ustr list" where
  "tag_words s = split_white (map (\<lambda>c. if c = 44 then 32 else c) s)"

fun collect_tags :: "(ustr \<Rightarrow> ustr option result) \<Rightarrow> ustr list \<Rightarrow> string list result" where
  "collect_tags parse [] = Inr []"
| "collect_tags parse (w # ws) =
     (case parse w of
        Inl e \<Rightarrow> Inl e
      | Inr tag \<Rightarrow>
          (case collect_tags parse ws of
             Inl e \<Rightarrow> Inl e
           | Inr tags \<Rightarrow> Inr (case tag of None \<Rightarrow> tags | Some t \<Rightarrow> List.insert (to_string t) tags)))"

definition parse_tags :: "ustr \<Rightarrow> string list result" where
  "parse_tags s = collect_tags parse_tag (tag_words s)"

definition pattern_char :: "int \<Rightarrow> bool" where
  "pattern_char c = (word_char c \<or> c = 42)"

definition parse_pattern :: "ustr \<Rightarrow> ustr option result" where
  "parse_pattern s =
     (let s = filter pattern_char s;
          s = join [95] (filter (\<lambda>w. w \<noteq> []) (split_on 95 s))
      in if s = [] then Inr None
         else if length s > TAG_MAX_LENGTH then Inl (WeasylError ''tagTooLong'')
         else
           (let s = ascii_lower s
            in if 42 \<notin> set s then Inr (Some s)
               else
                 (let prefix = takeWhile (\<lambda>c. c \<noteq> 42) s;
                      suffix = filter (\<lambda>c. c \<noteq> 42) (tl (dropWhile (\<lambda>c. c \<noteq> 42) s))
                  in Inr (if length prefix + length suffix \<ge> 2 then Some (prefix @ [42] @ suffix) else None))))"

definition parse_restricted_tags :: "ustr \<Rightarrow> string list result" where
  "parse_restricted_tags s = collect_tags parse_pattern (tag_words s)"

text \<open>
  \<open>re.compile("|".join(..)).fullmatch\<close> of patterns of word characters and asterisks, where an asterisk stands for
  \<^verbatim>\<open>.*\<close>; no patterns match the empty string only.
\<close>

fun glob_match :: "string \<Rightarrow> string \<Rightarrow> bool" where
  "glob_match [] s = (s = [])"
| "glob_match (c # p) [] = (c = CHR ''*'' \<and> glob_match p [])"
| "glob_match (c # p) (x # s) =
     (if c = CHR ''*'' then glob_match p (x # s) \<or> (x \<noteq> CHR 0x0A \<and> glob_match (c # p) s)
      else c = x \<and> glob_match p s)"

definition restricted_tag_matcher :: "string list \<Rightarrow> string \<Rightarrow> bool" where
  "restricted_tag_matcher patterns tag =
     (if patterns = [] then tag = [] else list_ex (\<lambda>p. glob_match p tag) patterns)"

subsection \<open>Restricted tags\<close>

text \<open>\<open>JOIN searchtag USING (tagid)\<close>: the titles of the tag ids.\<close>

definition titles_of :: "int list \<Rightarrow> 'a tags_db_scheme \<Rightarrow> string list" where
  "titles_of tagids db = List.map_filter (\<lambda>i. query_tag_name i db) tagids"

definition query_user_restricted :: "int \<Rightarrow> 'a tags_db_scheme \<Rightarrow> string list" where
  "query_user_restricted ownerid db =
     titles_of (map ur_tagid (filter (\<lambda>ur. ur_userid ur = ownerid) (t_user_restricted_tags db))) db"

definition peek_user_restricted :: "int \<Rightarrow> 'a tags_db_scheme \<Rightarrow> string list option" where
  "peek_user_restricted ownerid db = c_user_restricted db ownerid"

definition store_user_restricted :: "int \<Rightarrow> string list option \<Rightarrow> 'a tags_db_scheme \<Rightarrow> 'a tags_db_scheme" where
  "store_user_restricted ownerid v db = db\<lparr>c_user_restricted := (c_user_restricted db)(ownerid := v)\<rparr>"

definition query_user_restricted_tags :: "int \<Rightarrow> 'a tags_db_scheme \<Rightarrow> string list \<times> 'a tags_db_scheme" where
  "query_user_restricted_tags ownerid db =
     read_through (\<lambda>_. True) (peek_user_restricted ownerid) (query_user_restricted ownerid) (store_user_restricted ownerid) db"

definition query_global_restricted :: "unit \<Rightarrow> 'a tags_db_scheme \<Rightarrow> string list" where
  "query_global_restricted _ db = titles_of (map gr_tagid (t_globally_restricted_tags db)) db"

definition peek_global_restricted :: "unit \<Rightarrow> 'a tags_db_scheme \<Rightarrow> string list option" where
  "peek_global_restricted _ db = c_global_restricted db"

definition store_global_restricted :: "unit \<Rightarrow> string list option \<Rightarrow> 'a tags_db_scheme \<Rightarrow> 'a tags_db_scheme" where
  "store_global_restricted _ v db = db\<lparr>c_global_restricted := v\<rparr>"

definition query_global_restricted_tags :: "'a tags_db_scheme \<Rightarrow> string list \<times> 'a tags_db_scheme" where
  "query_global_restricted_tags db =
     read_through (\<lambda>_. True) (peek_global_restricted ()) (query_global_restricted ()) (store_global_restricted ()) db"

definition edit_user_tag_restrictions :: "int \<Rightarrow> string list \<Rightarrow> 'a tags_db_scheme \<Rightarrow> 'a tags_db_scheme" where
  "edit_user_tag_restrictions userid tags db =
     (let (pattern_tagids, db) = get_or_create_many tags db;
          kept = delete_where (\<lambda>ur. ur_userid ur = userid \<and> ur_tagid ur \<notin> set pattern_tagids) (t_user_restricted_tags db);
          rows = fold (\<lambda>i. insert_or_nothing (\<lambda>ur. (ur_userid ur, ur_tagid ur)) \<lparr>ur_tagid = i, ur_userid = userid\<rparr>) pattern_tagids kept
      in store_user_restricted userid None (db\<lparr>t_user_restricted_tags := rows\<rparr>))"

definition edit_global_tag_restrictions :: "int \<Rightarrow> string list \<Rightarrow> 'a tags_db_scheme \<Rightarrow> 'a tags_db_scheme" where
  "edit_global_tag_restrictions userid tags db =
     (let (pattern_tagids, db) = get_or_create_many tags db;
          kept = delete_where (\<lambda>gr. gr_tagid gr \<notin> set pattern_tagids) (t_globally_restricted_tags db);
          rows = fold (\<lambda>i. insert_or_nothing gr_tagid \<lparr>gr_tagid = i, gr_userid = userid\<rparr>) pattern_tagids kept
      in store_global_restricted () None (db\<lparr>t_globally_restricted_tags := rows\<rparr>))"

definition get_global_tag_restrictions :: "'a tags_db_scheme \<Rightarrow> (string \<times> string) list" where
  "get_global_tag_restrictions db =
     fold (\<lambda>(title, name). AList.update title name)
       (List.map_filter (\<lambda>gr. case (query_tag_name (gr_tagid gr) db, find (\<lambda>lo. lo_userid lo = gr_userid gr) (t_login db)) of
            (Some title, Some lo) \<Rightarrow> Some (title, lo_login_name lo)
          | _ \<Rightarrow> None) (t_globally_restricted_tags db)) []"

subsection \<open>The tags of a target\<close>

definition is_artist_tag :: "searchmap_row \<Rightarrow> bool" where
  "is_artist_tag sm = has_flag (CHR ''a'') (sm_settings sm)"

record grouped_tags =
  gt_artist :: "string list"
  gt_suggested :: "string list"
  gt_own_suggested :: "string list"

definition target_tags :: "taggable_target \<Rightarrow> 'a tags_db_scheme \<Rightarrow> (string \<times> searchmap_row) list" where
  "target_tags target db =
     List.map_filter (\<lambda>sm. map_option (\<lambda>title. (title, sm)) (query_tag_name (sm_tagid sm) db))
       (filter (\<lambda>sm. sm_targetid sm = target_id target) (searchmap target db))"

definition select_grouped :: "int \<Rightarrow> taggable_target \<Rightarrow> 'a tags_db_scheme \<Rightarrow> grouped_tags" where
  "select_grouped userid target db =
     (let tags = target_tags target db;
          suggested = filter (\<lambda>(title, sm). \<not> is_artist_tag sm) tags
      in \<lparr>gt_artist = sort (map fst (filter (\<lambda>(title, sm). is_artist_tag sm) tags)),
          gt_suggested = sort (map fst suggested),
          gt_own_suggested = sort (map fst (filter (\<lambda>(title, sm). sm_added_by sm = Some userid) suggested))\<rparr>)"

definition select_tags :: "int \<Rightarrow> int \<Rightarrow> int \<Rightarrow> 'a tags_db_scheme \<Rightarrow> string list" where
  "select_tags submitid charid journalid db =
     gt_artist (select_grouped 0 (if submitid \<noteq> 0 then SubmissionTarget submitid
                                  else if charid \<noteq> 0 then CharacterTarget charid else JournalTarget journalid) db)"

text \<open>The dictionary of targets to their tag ids; a target without tags is not in it.\<close>

definition select_tag_list :: "searchmap_row list \<Rightarrow> int list \<Rightarrow> (int \<times> int list) list" where
  "select_tag_list map_table targetids =
     (let rows = filter (\<lambda>sm. sm_targetid sm \<in> set targetids) map_table
      in map (\<lambda>t. (t, map sm_tagid (filter (\<lambda>sm. sm_targetid sm = t) rows))) (remdups (map sm_targetid rows)))"

definition update_submission_tags :: "int \<Rightarrow> 'a tags_db_scheme \<Rightarrow> 'a tags_db_scheme" where
  "update_submission_tags submitid db =
     (let tags = map sm_tagid (filter (\<lambda>sm. sm_targetid sm = submitid) (t_searchmapsubmit db));
          row = \<lparr>tg_submitid = submitid, tg_tags = tags\<rparr>
      in db\<lparr>t_submission_tags :=
           (if exists_where (\<lambda>tg. tg_submitid tg = submitid) (t_submission_tags db)
            then update_where (\<lambda>tg. tg_submitid tg = submitid) (\<lambda>_. row) (t_submission_tags db)
            else t_submission_tags db @ [row])\<rparr>)"

text \<open>The end of both transactions: the history of a submission's tags and its array of tags.\<close>

definition record_tag_change :: "int \<Rightarrow> int \<Rightarrow> taggable_target \<Rightarrow> int list \<Rightarrow> int list \<Rightarrow> 'a tags_db_scheme \<Rightarrow> 'a tags_db_scheme" where
  "record_tag_change now userid target added removed db =
     (case target of
        SubmissionTarget submitid \<Rightarrow>
          update_submission_tags submitid
            (db\<lparr>t_tag_updates := t_tag_updates db @
                  [\<lparr>tu_updateid = tag_update_seq db, tu_submitid = submitid, tu_userid = userid,
                    tu_added = titles_of added db, tu_removed = titles_of removed db, tu_updated_at = now\<rparr>],
                tag_update_seq := tag_update_seq db + 1\<rparr>)
      | _ \<Rightarrow> db)"

text \<open>The rows the statements of both transactions insert, update and delete, on the table as it was before.\<close>

definition suggest_rows :: "int \<Rightarrow> int \<Rightarrow> int list \<Rightarrow> searchmap_row list \<Rightarrow> searchmap_row list" where
  "suggest_rows userid targetid tagids rows =
     fold (\<lambda>i. insert_or_nothing (\<lambda>sm. (sm_tagid sm, sm_targetid sm))
            \<lparr>sm_tagid = i, sm_targetid = targetid, sm_settings = [], sm_added_by = Some userid\<rparr>) tagids
       (delete_where (\<lambda>sm. sm_targetid sm = targetid \<and> \<not> is_artist_tag sm \<and> sm_added_by sm = Some userid
                           \<and> sm_tagid sm \<notin> set tagids) rows)"

definition has_tag :: "int \<Rightarrow> int \<Rightarrow> searchmap_row list \<Rightarrow> bool" where
  "has_tag targetid tagid rows = exists_where (\<lambda>sm. sm_targetid sm = targetid \<and> sm_tagid sm = tagid) rows"

definition suggest_transaction :: "int \<Rightarrow> int \<Rightarrow> taggable_target \<Rightarrow> int list \<Rightarrow> 'a tags_db_scheme \<Rightarrow> 'a tags_db_scheme" where
  "suggest_transaction now userid target tagids db =
     (let rows = searchmap target db;
          removed = map sm_tagid (filter (\<lambda>sm. sm_targetid sm = target_id target \<and> \<not> is_artist_tag sm
                      \<and> sm_added_by sm = Some userid \<and> sm_tagid sm \<notin> set tagids) rows);
          added = filter (\<lambda>i. \<not> has_tag (target_id target) i rows) tagids
      in record_tag_change now userid target added removed
           (put_searchmap target (suggest_rows userid (target_id target) tagids rows) db))"

definition can_suggest_tags :: "int \<Rightarrow> 'a accounts_db_scheme \<Rightarrow> bool" where
  "can_suggest_tags userid db = (case profile_of userid db of None \<Rightarrow> False | Some pr \<Rightarrow> pr_can_suggest_tags pr)"

definition set_suggested_tags ::
  "int \<Rightarrow> int \<Rightarrow> taggable_target \<Rightarrow> int \<Rightarrow> string list \<Rightarrow> 'a tags_db_scheme \<Rightarrow> string list result \<times> 'a tags_db_scheme" where
  "set_suggested_tags now userid target ownerid tag_names db =
     (if \<not> can_suggest_tags userid db then (Inl (WeasylError ''InsufficientPermissions''), db)
      else if ignoreuser_check ownerid userid db then (Inl (WeasylError ''contentOwnerIgnoredYou''), db)
      else
        (let (user_patterns, db) = query_user_restricted_tags ownerid db;
             (global_patterns, db) = query_global_restricted_tags db;
             is_restricted_tag = restricted_tag_matcher (user_patterns @ global_patterns);
             tags_not_added = filter is_restricted_tag tag_names;
             (apply_tagids, db) = get_or_create_many (filter (\<lambda>t. t \<notin> set tags_not_added) tag_names) db
         in (Inr (sort tags_not_added), suggest_transaction now userid target apply_tagids db)))"

definition set_artist_tag :: "int \<Rightarrow> int \<Rightarrow> int \<Rightarrow> searchmap_row list \<Rightarrow> searchmap_row list" where
  "set_artist_tag userid targetid tagid rows =
     (if has_tag targetid tagid rows then
        update_where (\<lambda>sm. sm_targetid sm = targetid \<and> sm_tagid sm = tagid \<and> \<not> is_artist_tag sm)
          (\<lambda>sm. sm\<lparr>sm_settings := sm_settings sm @ ''a'', sm_added_by := Some userid\<rparr>) rows
      else rows @ [\<lparr>sm_tagid = tagid, sm_targetid = targetid, sm_settings = ''a'', sm_added_by = Some userid\<rparr>])"

definition artist_rows :: "int \<Rightarrow> int \<Rightarrow> int list \<Rightarrow> searchmap_row list \<Rightarrow> searchmap_row list" where
  "artist_rows userid targetid tagids rows =
     fold (set_artist_tag userid targetid) tagids
       (delete_where (\<lambda>sm. sm_targetid sm = targetid \<and> is_artist_tag sm \<and> sm_tagid sm \<notin> set tagids) rows)"

definition associate_transaction :: "int \<Rightarrow> int \<Rightarrow> taggable_target \<Rightarrow> int list \<Rightarrow> 'a tags_db_scheme \<Rightarrow> 'a tags_db_scheme" where
  "associate_transaction now userid target tagids db =
     (let rows = searchmap target db;
          removed = map sm_tagid (filter (\<lambda>sm. sm_targetid sm = target_id target \<and> is_artist_tag sm
                      \<and> sm_tagid sm \<notin> set tagids) rows);
          added = filter (\<lambda>i. \<not> exists_where (\<lambda>sm. sm_targetid sm = target_id target \<and> sm_tagid sm = i
                      \<and> is_artist_tag sm) rows) tagids
      in record_tag_change now userid target added removed
           (put_searchmap target (artist_rows userid (target_id target) tagids rows) db))"

definition associate ::
  "staff_sets \<Rightarrow> int \<Rightarrow> int \<Rightarrow> taggable_target \<Rightarrow> string list \<Rightarrow> 'a tags_db_scheme \<Rightarrow> string list result \<times> 'a tags_db_scheme" where
  "associate st now userid target tag_names db =
     (case target_ownerid target db of
        None \<Rightarrow> (Inl (WeasylError ''TargetRecordMissing''), db)
      | Some ownerid \<Rightarrow>
          if userid \<noteq> ownerid \<and> userid \<notin> MODS st then set_suggested_tags now userid target ownerid tag_names db
          else
            (let (entered_tagids, db) = get_or_create_many tag_names db
             in (Inr [], associate_transaction now userid target entered_tagids db)))"

subsection \<open>Tags for commissions\<close>

definition MAX_PREFERRED_TAGS :: nat where
  "MAX_PREFERRED_TAGS = 50"

definition commission_rows :: "int \<Rightarrow> int list \<Rightarrow> artist_tag_row list \<Rightarrow> artist_tag_row list" where
  "commission_rows userid tagids rows =
     fold (\<lambda>i. insert_or_nothing (\<lambda>at. (at_tagid at, at_targetid at)) \<lparr>at_tagid = i, at_targetid = userid\<rparr>) tagids
       (delete_where (\<lambda>at. at_targetid at = userid \<and> at_tagid at \<notin> set tagids) rows)"

definition set_commission_preferred_tags :: "int \<Rightarrow> string list \<Rightarrow> 'a tags_db_scheme \<Rightarrow> unit result \<times> 'a tags_db_scheme" where
  "set_commission_preferred_tags userid tag_names db =
     (if length tag_names > MAX_PREFERRED_TAGS then (Inl (WeasylError ''tooManyPreferenceTags''), db)
      else
        (let (tagids, db) = get_or_create_many tag_names db
         in (Inr (), db\<lparr>t_artist_preferred_tags := commission_rows userid tagids (t_artist_preferred_tags db)\<rparr>)))"

definition set_commission_optout_tags :: "int \<Rightarrow> string list \<Rightarrow> 'a tags_db_scheme \<Rightarrow> unit result \<times> 'a tags_db_scheme" where
  "set_commission_optout_tags userid tag_names db =
     (let (tagids, db) = get_or_create_many tag_names db
      in (Inr (), db\<lparr>t_artist_optout_tags := commission_rows userid tagids (t_artist_optout_tags db)\<rparr>))"

subsection \<open>Undo tokens\<close>

text \<open>
  Bytes are numbers below 256. \<open>seal\<close> and \<open>unseal\<close> are \<open>encrypt\<close> and \<open>decrypt\<close> of ChaCha20Poly1305 under the
  site's key (nonce, text, associated data); \<open>StructError\<close> of \<open>struct.pack\<close> is represented by \<open>ValueError\<close>.
\<close>

record undo_env =
  seal :: "int list \<Rightarrow> int list \<Rightarrow> int list \<Rightarrow> int list"
  unseal :: "int list \<Rightarrow> int list \<Rightarrow> int list \<Rightarrow> int list result"

definition UNDO_TOKEN_MAX_CLOCK_SKEW :: int where
  "UNDO_TOKEN_MAX_CLOCK_SKEW = 2"

definition UNDO_TOKEN_VALIDITY :: int where
  "UNDO_TOKEN_VALIDITY = 60"

definition POLY1305_TAG_SIZE :: nat where
  "POLY1305_TAG_SIZE = 16"

definition UNDO_TOKEN_NONCE_SIZE :: nat where
  "UNDO_TOKEN_NONCE_SIZE = 12"

text \<open>\<open>Struct("<I")\<close>.\<close>

definition pack_u32 :: "int \<Rightarrow> int list result" where
  "pack_u32 n =
     (if 0 \<le> n \<and> n < 2 ^ 32 then Inr [n mod 256, n div 256 mod 256, n div 65536 mod 256, n div 16777216]
      else Inl ValueError)"

fun unpack_u32 :: "int list \<Rightarrow> int" where
  "unpack_u32 [a, b, c, d] = a + 256 * b + 65536 * c + 16777216 * d"
| "unpack_u32 _ = 0"

definition undo_aad :: "int \<Rightarrow> int \<Rightarrow> taggable_target \<Rightarrow> int list result" where
  "undo_aad timestamp tagid target =
     (case (pack_u32 timestamp, pack_u32 (target_id target), pack_u32 tagid) of
        (Inr a, Inr b, Inr c) \<Rightarrow> Inr (a @ b @ c @ [type_code target])
      | _ \<Rightarrow> Inl ValueError)"

definition undo_token_create ::
  "undo_env \<Rightarrow> int list \<Rightarrow> int \<Rightarrow> taggable_target \<Rightarrow> int \<Rightarrow> int \<Rightarrow> int list result" where
  "undo_token_create env nonce now target tagid added_by =
     (case (undo_aad now tagid target, pack_u32 now, pack_u32 added_by) of
        (Inr aad, Inr stamp, Inr secret) \<Rightarrow> Inr (nonce @ stamp @ seal env nonce secret aad)
      | _ \<Rightarrow> Inl ValueError)"

definition undo_token_validate :: "undo_env \<Rightarrow> int \<Rightarrow> taggable_target \<Rightarrow> int \<Rightarrow> int list \<Rightarrow> int result" where
  "undo_token_validate env now target tagid undo_token =
     (if length undo_token \<noteq> UNDO_TOKEN_NONCE_SIZE + 4 + 4 + POLY1305_TAG_SIZE then Inl (WeasylError ''Unexpected'')
      else
        (let nonce = take UNDO_TOKEN_NONCE_SIZE undo_token;
             timestamp = unpack_u32 (take 4 (drop UNDO_TOKEN_NONCE_SIZE undo_token))
         in if timestamp < now - UNDO_TOKEN_VALIDITY then Inl UndoExpired
            else if timestamp > now + UNDO_TOKEN_MAX_CLOCK_SKEW then Inl (WeasylError ''Unexpected'')
            else
              (case undo_aad timestamp tagid target of
                 Inl e \<Rightarrow> Inl e
               | Inr aad \<Rightarrow>
                   (case unseal env nonce (drop (UNDO_TOKEN_NONCE_SIZE + 4) undo_token) aad of
                      Inl e \<Rightarrow> Inl e
                    | Inr decrypted \<Rightarrow> Inr (unpack_u32 decrypted)))))"

subsection \<open>Approving and rejecting suggestions\<close>

datatype suggestion_action = REJECT | APPROVE

datatype suggestion_result = SuggestionActionFailure | SuggestionActionSuccess "int list option"

definition feedback_key :: "tag_feedback_row \<Rightarrow> int \<times> int \<times> int" where
  "feedback_key tf = (tf_targetid tf, tf_tagid tf, tf_userid tf)"

definition find_suggestion :: "taggable_target \<Rightarrow> int option \<Rightarrow> 'a tags_db_scheme \<Rightarrow> searchmap_row option" where
  "find_suggestion target tagid db =
     (case tagid of
        None \<Rightarrow> None
      | Some i \<Rightarrow> find (\<lambda>sm. sm_targetid sm = target_id target \<and> sm_tagid sm = i) (searchmap target db))"

definition approve_suggestion :: "int \<Rightarrow> taggable_target \<Rightarrow> int \<Rightarrow> 'a tags_db_scheme \<Rightarrow> 'a tags_db_scheme" where
  "approve_suggestion userid target tagid db =
     put_searchmap target
       (update_where (\<lambda>sm. sm_targetid sm = target_id target \<and> sm_tagid sm = tagid \<and> \<not> is_artist_tag sm)
          (\<lambda>sm. sm\<lparr>sm_settings := sm_settings sm @ ''a'', sm_added_by := Some userid\<rparr>) (searchmap target db)) db"

definition reject_suggestion :: "int \<Rightarrow> int \<Rightarrow> taggable_target \<Rightarrow> int \<Rightarrow> 'a tags_db_scheme \<Rightarrow> 'a tags_db_scheme" where
  "reject_suggestion now userid target tagid db =
     (let db = put_searchmap target
            (delete_where (\<lambda>sm. sm_targetid sm = target_id target \<and> sm_tagid sm = tagid) (searchmap target db)) db
      in put_feedback target
           (insert_or_nothing feedback_key
              \<lparr>tf_targetid = target_id target, tf_tagid = tagid, tf_userid = userid, tf_last_modified = now,
               tf_incorrect = False, tf_unwanted = False, tf_abusive = False\<rparr> (feedback_rows target db)) db)"

definition suggestion_arbitrate ::
  "staff_sets \<Rightarrow> undo_env \<Rightarrow> int list \<Rightarrow> int \<Rightarrow> int \<Rightarrow> taggable_target \<Rightarrow> string \<Rightarrow> suggestion_action
     \<Rightarrow> 'a tags_db_scheme \<Rightarrow> suggestion_result result \<times> 'a tags_db_scheme" where
  "suggestion_arbitrate st env nonce now userid target tag_name action db =
     (case target_ownerid target db of
        None \<Rightarrow> (Inl (WeasylError ''TargetRecordMissing''), db)
      | Some ownerid \<Rightarrow>
          if userid \<noteq> ownerid \<and> userid \<notin> MODS st then (Inl (WeasylError ''InsufficientPermissions''), db)
          else
            (let (tagid, db) = get_id tag_name db
             in case find_suggestion target tagid db of
                  None \<Rightarrow> (Inr (case action of APPROVE \<Rightarrow> SuggestionActionFailure | REJECT \<Rightarrow> SuggestionActionSuccess None), db)
                | Some check \<Rightarrow>
                    if is_artist_tag check then
                      (Inr (case action of APPROVE \<Rightarrow> SuggestionActionSuccess None | REJECT \<Rightarrow> SuggestionActionFailure), db)
                    else
                      (case (case sm_added_by check of
                               None \<Rightarrow> Inr None
                             | Some added_by \<Rightarrow> map_sum id Some (undo_token_create env nonce now target (sm_tagid check) added_by)) of
                         Inl e \<Rightarrow> (Inl e, db)
                       | Inr undo_token \<Rightarrow>
                           (Inr (SuggestionActionSuccess undo_token),
                            case action of
                              APPROVE \<Rightarrow> approve_suggestion userid target (sm_tagid check) db
                            | REJECT \<Rightarrow> reject_suggestion now userid target (sm_tagid check) db))))"

definition restore_suggestion :: "taggable_target \<Rightarrow> int \<Rightarrow> int \<Rightarrow> 'a tags_db_scheme \<Rightarrow> 'a tags_db_scheme" where
  "restore_suggestion target tagid added_by db =
     put_searchmap target
       (if has_tag (target_id target) tagid (searchmap target db) then
          update_where (\<lambda>sm. sm_targetid sm = target_id target \<and> sm_tagid sm = tagid)
            (\<lambda>sm. sm\<lparr>sm_settings := remove_flag (CHR ''a'') (sm_settings sm), sm_added_by := Some added_by\<rparr>) (searchmap target db)
        else searchmap target db @
               [\<lparr>sm_tagid = tagid, sm_targetid = target_id target, sm_settings = [], sm_added_by = Some added_by\<rparr>]) db"

definition suggestion_action_undo ::
  "staff_sets \<Rightarrow> undo_env \<Rightarrow> int \<Rightarrow> int \<Rightarrow> taggable_target \<Rightarrow> string \<Rightarrow> int list \<Rightarrow> 'a tags_db_scheme
     \<Rightarrow> unit result \<times> 'a tags_db_scheme" where
  "suggestion_action_undo st env now userid target tag_name undo_token db =
     (let (tagid, db) = get_id tag_name db
      in case tagid of
           None \<Rightarrow> (Inl (WeasylError ''Unexpected''), db)
         | Some tagid \<Rightarrow>
             (case undo_token_validate env now target tagid undo_token of
                Inl e \<Rightarrow> (Inl e, db)
              | Inr restore_added_by \<Rightarrow>
                  if (case target_ownerid target db of None \<Rightarrow> True | Some ownerid \<Rightarrow> userid \<noteq> ownerid \<and> userid \<notin> MODS st)
                  then (Inl (WeasylError ''Unexpected''), db)
                  else
                    (let db = restore_suggestion target tagid restore_added_by db
                     in (Inr (), put_feedback target
                           (delete_where (\<lambda>tf. feedback_key tf = (target_id target, tagid, userid)) (feedback_rows target db)) db))))"

record suggestion_feedback =
  sf_incorrect :: bool
  sf_unwanted :: bool
  sf_abusive :: bool

text \<open>The row of a target that does not exist would violate its foreign key.\<close>

definition set_tag_feedback ::
  "staff_sets \<Rightarrow> int \<Rightarrow> int \<Rightarrow> taggable_target \<Rightarrow> string \<Rightarrow> suggestion_feedback \<Rightarrow> 'a tags_db_scheme
     \<Rightarrow> unit result \<times> 'a tags_db_scheme" where
  "set_tag_feedback st now userid target tag_name feedback db =
     (let ownerid = target_ownerid target db
      in if Some userid \<noteq> ownerid \<and> userid \<notin> MODS st then (Inl (WeasylError ''Unexpected''), db)
         else
           (let (tagid, db) = get_or_create tag_name db;
                row = \<lparr>tf_targetid = target_id target, tf_tagid = tagid, tf_userid = userid, tf_last_modified = now,
                       tf_incorrect = sf_incorrect feedback, tf_unwanted = sf_unwanted feedback, tf_abusive = sf_abusive feedback\<rparr>
            in if ownerid = None then (Inl IntegrityError, db)
               else (Inr (), put_feedback target
                      (if exists_where (\<lambda>tf. feedback_key tf = feedback_key row) (feedback_rows target db)
                       then update_where (\<lambda>tf. feedback_key tf = feedback_key row) (\<lambda>_. row) (feedback_rows target db)
                       else feedback_rows target db @ [row]) db)))"

text \<open>The history with the names of those who changed the tags, latest first.\<close>

definition tag_history :: "int \<Rightarrow> 'a tags_db_scheme \<Rightarrow> (string \<times> tag_update_row) list" where
  "tag_history submitid db =
     List.map_filter (\<lambda>tu. map_option (\<lambda>pr. (pr_username pr, tu)) (profile_of (tu_userid tu) db))
       (rev (sort_key tu_updated_at (filter (\<lambda>tu. tu_submitid tu = submitid) (t_tag_updates db))))"

subsection \<open>Blocked tags\<close>

definition post_rating :: "taggable_target \<Rightarrow> 'a content_db_scheme \<Rightarrow> (int \<times> int) option" where
  "post_rating target db =
     (case target of
        SubmissionTarget i \<Rightarrow> map_option (\<lambda>su. (su_userid su, su_rating su)) (find (\<lambda>su. su_submitid su = i) (t_submission db))
      | CharacterTarget i \<Rightarrow> map_option (\<lambda>ch. (ch_userid ch, ch_rating ch)) (find (\<lambda>ch. ch_charid ch = i) (t_character db))
      | JournalTarget i \<Rightarrow> map_option (\<lambda>jo. (jo_userid jo, jo_rating jo)) (find (\<lambda>jo. jo_journalid jo = i) (t_journal db)))"

definition blocktag_check :: "int \<Rightarrow> int \<Rightarrow> int \<Rightarrow> int \<Rightarrow> 'a tags_db_scheme \<Rightarrow> bool" where
  "blocktag_check userid submitid charid journalid db =
     (if userid = 0 then False
      else
        (let target = (if submitid \<noteq> 0 then SubmissionTarget submitid
                       else if charid \<noteq> 0 then CharacterTarget charid else JournalTarget journalid)
         in case post_rating target db of
              None \<Rightarrow> False
            | Some (ownerid, rating) \<Rightarrow>
                ownerid \<noteq> userid
                \<and> exists_where (\<lambda>sm. sm_targetid sm = target_id target \<and> blocked_tag userid (sm_tagid sm) rating db)
                    (searchmap target db)))"

definition blocktag_check_list :: "int \<Rightarrow> int list \<Rightarrow> blocktag_row list \<Rightarrow> bool" where
  "blocktag_check_list rating tags blocked_tags =
     list_ex (\<lambda>b. rating \<ge> bt_rating b \<and> bt_tagid b \<in> set tags) blocked_tags"

definition blocktag_select :: "int \<Rightarrow> 'a tags_db_scheme \<Rightarrow> (string \<times> int) list" where
  "blocktag_select userid db =
     sort_key fst (List.map_filter (\<lambda>bt. map_option (\<lambda>title. (title, bt_rating bt)) (query_tag_name (bt_tagid bt) db))
       (filter (\<lambda>bt. bt_userid bt = userid) (t_blocktag db)))"

definition query_select_ids :: "int \<Rightarrow> 'a tags_db_scheme \<Rightarrow> blocktag_row list" where
  "query_select_ids userid db = filter (\<lambda>bt. bt_userid bt = userid) (t_blocktag db)"

definition peek_select_ids :: "int \<Rightarrow> 'a tags_db_scheme \<Rightarrow> blocktag_row list option" where
  "peek_select_ids userid db = c_blocktags db userid"

definition store_select_ids :: "int \<Rightarrow> blocktag_row list option \<Rightarrow> 'a tags_db_scheme \<Rightarrow> 'a tags_db_scheme" where
  "store_select_ids userid v db = db\<lparr>c_blocktags := (c_blocktags db)(userid := v)\<rparr>"

definition blocktag_select_ids :: "int \<Rightarrow> 'a tags_db_scheme \<Rightarrow> blocktag_row list \<times> 'a tags_db_scheme" where
  "blocktag_select_ids userid db =
     read_through (\<lambda>_. True) (peek_select_ids userid) (query_select_ids userid) (store_select_ids userid) db"

definition block_tag :: "int \<Rightarrow> int \<Rightarrow> int \<Rightarrow> blocktag_row list \<Rightarrow> blocktag_row list" where
  "block_tag userid rating tagid rows =
     (let hit = (\<lambda>bt. bt_userid bt = userid \<and> bt_tagid bt = tagid)
      in if exists_where hit rows then update_where hit (\<lambda>bt. bt\<lparr>bt_rating := rating\<rparr>) rows
         else rows @ [\<lparr>bt_userid = userid, bt_tagid = tagid, bt_rating = rating\<rparr>])"

definition blocktag_insert :: "date \<Rightarrow> int \<Rightarrow> ustr \<Rightarrow> int \<Rightarrow> 'a tags_db_scheme \<Rightarrow> unit result \<times> 'a tags_db_scheme" where
  "blocktag_insert today userid tags rating db =
     (let level = (case CODE_MAP rating of None \<Rightarrow> GENERAL | Some r \<Rightarrow> r)
      in case check_user_rating_allowed today userid level db of
           Inl e \<Rightarrow> (Inl e, db)
         | Inr _ \<Rightarrow>
             (case parse_tags tags of
                Inl e \<Rightarrow> (Inl e, db)
              | Inr parsed_tags \<Rightarrow>
                  (let (tagids, db) = get_or_create_many parsed_tags db
                   in (Inr (), store_select_ids userid None
                         (db\<lparr>t_blocktag := fold (block_tag userid (rating_code level)) tagids (t_blocktag db)\<rparr>)))))"

definition blocktag_remove_list :: "int \<Rightarrow> string list \<Rightarrow> 'a tags_db_scheme \<Rightarrow> 'a tags_db_scheme" where
  "blocktag_remove_list userid tags db =
     (if tags = [] then db
      else store_select_ids userid None
             (db\<lparr>t_blocktag := delete_where (\<lambda>bt. bt_userid bt = userid
                  \<and> exists_where (\<lambda>st. st_tagid st = bt_tagid bt \<and> st_title st \<in> set tags) (t_searchtag db)) (t_blocktag db)\<rparr>))"

section \<open>Facts\<close>

subsection \<open>The caches meet their contract\<close>

lemma option_cache:
  "(\<And>x. v = Some x \<Longrightarrow> x \<noteq> None) \<Longrightarrow> map_option Some (Option.bind v id) = v"
  by (cases v) auto

interpretation tag_ids: cached_query "\<lambda>v. v \<noteq> None" query_tag_id peek_tag_id store_tag_id
  by unfold_locales (auto simp: query_tag_id_def peek_tag_id_def store_tag_id_def option_cache)

interpretation tag_names: cached_query "\<lambda>v. v \<noteq> None" query_tag_name peek_tag_name store_tag_name
  by unfold_locales (auto simp: query_tag_name_def peek_tag_name_def store_tag_name_def option_cache)

interpretation user_restricted: cached_query "\<lambda>_. True" query_user_restricted peek_user_restricted store_user_restricted
  by unfold_locales (simp_all add: query_user_restricted_def peek_user_restricted_def store_user_restricted_def
      titles_of_def query_tag_name_def)

interpretation global_restricted: cached_query "\<lambda>_. True" query_global_restricted peek_global_restricted store_global_restricted
  by unfold_locales (simp_all add: query_global_restricted_def peek_global_restricted_def store_global_restricted_def
      titles_of_def query_tag_name_def)

interpretation select_ids: cached_query "\<lambda>_. True" query_select_ids peek_select_ids store_select_ids
  by unfold_locales (simp_all add: query_select_ids_def peek_select_ids_def store_select_ids_def)

subsection \<open>The table of tags\<close>

text \<open>Ids and titles are unique, new ids are free, and the cache of ids is right.\<close>

definition tag_table_ok :: "'a tags_db_scheme \<Rightarrow> bool" where
  "tag_table_ok db \<longleftrightarrow> distinct (map st_tagid (t_searchtag db)) \<and> distinct (map st_title (t_searchtag db))
     \<and> (\<forall>st \<in> set (t_searchtag db). st_tagid st < searchtag_seq db) \<and> tag_ids.all_coherent db"

text \<open>What creating tags may change: the table with its sequence and the cache of ids; ids keep their names.\<close>

definition more_tags :: "'a tags_db_scheme \<Rightarrow> 'a tags_db_scheme \<Rightarrow> bool" where
  "more_tags db db' \<longleftrightarrow> (\<exists>rows n c. db' = db\<lparr>c_tag_ids := c, t_searchtag := rows, searchtag_seq := n\<rparr>)
     \<and> (\<forall>i title. query_tag_name i db = Some title \<longrightarrow> query_tag_name i db' = Some title)"

lemma query_tag_name_iff:
  "tag_table_ok db \<Longrightarrow> query_tag_name i db = Some title \<longleftrightarrow> \<lparr>st_tagid = i, st_title = title\<rparr> \<in> set (t_searchtag db)"
proof -
  assume ok: "tag_table_ok db"
  show ?thesis
  proof
    assume "query_tag_name i db = Some title"
    then obtain st where st: "st \<in> set (t_searchtag db)" "st_tagid st = i" "st_title st = title"
      by (auto simp: query_tag_name_def dest: find_SomeD)
    have same: "\<lparr>st_tagid = i, st_title = title\<rparr> = st" using st(2,3) by (intro searchtag_row.equality) simp_all
    show "\<lparr>st_tagid = i, st_title = title\<rparr> \<in> set (t_searchtag db)" unfolding same by (rule st(1))
  next
    assume "\<lparr>st_tagid = i, st_title = title\<rparr> \<in> set (t_searchtag db)"
    from find_unique [OF _ this, of st_tagid] ok show "query_tag_name i db = Some title"
      by (simp add: query_tag_name_def tag_table_ok_def)
  qed
qed

lemma query_tag_id_iff:
  "tag_table_ok db \<Longrightarrow> query_tag_id title db = Some i \<longleftrightarrow> \<lparr>st_tagid = i, st_title = title\<rparr> \<in> set (t_searchtag db)"
proof -
  assume ok: "tag_table_ok db"
  show ?thesis
  proof
    assume "query_tag_id title db = Some i"
    then obtain st where st: "st \<in> set (t_searchtag db)" "st_tagid st = i" "st_title st = title"
      by (auto simp: query_tag_id_def dest: find_SomeD)
    have same: "\<lparr>st_tagid = i, st_title = title\<rparr> = st" using st(2,3) by (intro searchtag_row.equality) simp_all
    show "\<lparr>st_tagid = i, st_title = title\<rparr> \<in> set (t_searchtag db)" unfolding same by (rule st(1))
  next
    assume "\<lparr>st_tagid = i, st_title = title\<rparr> \<in> set (t_searchtag db)"
    from find_unique [OF _ this, of st_title] ok show "query_tag_id title db = Some i"
      by (simp add: query_tag_id_def tag_table_ok_def)
  qed
qed

lemma tag_name_inj:
  "tag_table_ok db \<Longrightarrow> query_tag_name i db = Some title \<Longrightarrow> query_tag_name j db = Some title \<Longrightarrow> i = j"
  by (metis query_tag_id_iff query_tag_name_iff option.inject)

lemma more_tags_refl [simp, intro]: "more_tags db db"
proof -
  have "db = db\<lparr>c_tag_ids := c_tag_ids db, t_searchtag := t_searchtag db, searchtag_seq := searchtag_seq db\<rparr>" by simp
  then show ?thesis unfolding more_tags_def by blast
qed

lemma more_tags_trans: "more_tags a b \<Longrightarrow> more_tags b c \<Longrightarrow> more_tags a c"
proof -
  assume ab: "more_tags a b" and bc: "more_tags b c"
  obtain rows n ch where b: "b = a\<lparr>c_tag_ids := ch, t_searchtag := rows, searchtag_seq := n\<rparr>" using ab unfolding more_tags_def by blast
  obtain rows' n' ch' where c: "c = b\<lparr>c_tag_ids := ch', t_searchtag := rows', searchtag_seq := n'\<rparr>" using bc unfolding more_tags_def by blast
  have "c = a\<lparr>c_tag_ids := ch', t_searchtag := rows', searchtag_seq := n'\<rparr>" unfolding c b by simp
  with ab bc show "more_tags a c" unfolding more_tags_def by blast
qed

lemma read_tag_id_state: "\<exists>c. snd (tag_ids.read name db) = db\<lparr>c_tag_ids := c\<rparr>"
proof -
  have same: "\<exists>c. db = db\<lparr>c_tag_ids := c\<rparr>" by (rule exI [of _ "c_tag_ids db"]) simp
  show ?thesis
    unfolding read_through_def store_tag_id_def Let_def using same by (auto split: option.split)
qed

lemma more_tags_cache: "more_tags db (db\<lparr>c_tag_ids := c\<rparr>)"
proof -
  have "db\<lparr>c_tag_ids := c\<rparr> = db\<lparr>c_tag_ids := c, t_searchtag := t_searchtag db, searchtag_seq := searchtag_seq db\<rparr>" by simp
  moreover have "query_tag_name i (db\<lparr>c_tag_ids := c\<rparr>) = query_tag_name i db" for i by (simp add: query_tag_name_def)
  ultimately show ?thesis unfolding more_tags_def by metis
qed

lemma get_ids_state:
  "tag_table_ok db \<Longrightarrow> get_ids names db = (ids, db') \<Longrightarrow>
     ids = map (\<lambda>n. (n, query_tag_id n db)) names \<and> tag_table_ok db' \<and> (\<exists>c. db' = db\<lparr>c_tag_ids := c\<rparr>)"
proof (induction names arbitrary: db ids db')
  case Nil
  then have "ids = []" "db' = db\<lparr>c_tag_ids := c_tag_ids db\<rparr>" by simp_all
  with Nil.prems show ?case by (intro conjI exI [of _ "c_tag_ids db"]) simp_all
next
  case (Cons name names)
  have coherent: "tag_ids.all_coherent db" using Cons.prems(1) by (simp add: tag_table_ok_def)
  obtain i db1 where r: "tag_ids.read name db = (i, db1)" by (meson surj_pair)
  have i: "i = query_tag_id name db" using tag_ids.read_value [OF coherent, of name] unfolding r by simp
  obtain c where c: "db1 = db\<lparr>c_tag_ids := c\<rparr>" using read_tag_id_state [of name db] unfolding r by auto
  have "tag_ids.all_coherent db1" using tag_ids.read_coherent [OF coherent, of name] unfolding r by simp
  with Cons.prems(1) c have ok: "tag_table_ok db1" by (simp add: tag_table_ok_def)
  obtain rest db2 where rest: "get_ids names db1 = (rest, db2)" by (meson surj_pair)
  have same: "query_tag_id n db1 = query_tag_id n db" for n by (simp add: c query_tag_id_def)
  obtain c' where "rest = map (\<lambda>n. (n, query_tag_id n db)) names" "tag_table_ok db2" "db2 = db1\<lparr>c_tag_ids := c'\<rparr>"
    using Cons.IH [OF ok rest] unfolding same by blast
  moreover have "ids = (name, query_tag_id name db) # rest" "db' = db2"
    using Cons.prems(2) rest r i by simp_all
  ultimately show ?case by (intro conjI exI [of _ c']) (simp_all add: c)
qed

lemma get_ids_result:
  assumes "tag_table_ok db" "get_ids names db = (ids, db')"
  shows "ids = map (\<lambda>n. (n, query_tag_id n db)) names" "tag_table_ok db'" "more_tags db db'"
    "t_searchtag db' = t_searchtag db" "searchtag_seq db' = searchtag_seq db"
  using get_ids_state [OF assms] by (auto intro: more_tags_cache)

lemma insert_title_ok:
  assumes ok: "tag_table_ok db" and new: "query_tag_id title db = None"
  shows "tag_table_ok (insert_title title db)" "more_tags db (insert_title title db)"
    and "query_tag_id t (insert_title title db) = (if t = title then Some (searchtag_seq db) else query_tag_id t db)"
proof -
  have free: "\<forall>st \<in> set (t_searchtag db). st_title st \<noteq> title"
    using new by (auto simp: query_tag_id_def find_None_iff)
  then have step: "insert_title title db = db\<lparr>t_searchtag := t_searchtag db @ [\<lparr>st_tagid = searchtag_seq db, st_title = title\<rparr>],
      searchtag_seq := searchtag_seq db + 1\<rparr>"
    by (auto simp: insert_title_def insert_or_nothing_def exists_where_iff Let_def)
  have fresh: "\<forall>st \<in> set (t_searchtag db). st_tagid st < searchtag_seq db" using ok by (simp add: tag_table_ok_def)
  have find: "find P (xs @ [x]) = (case find P xs of None \<Rightarrow> if P x then Some x else None | Some y \<Rightarrow> Some y)"
    for P and xs :: "searchtag_row list" and x by (induction xs) auto
  show id: "query_tag_id t (insert_title title db) = (if t = title then Some (searchtag_seq db) else query_tag_id t db)" for t
    using new unfolding step by (auto simp: query_tag_id_def find split: option.splits)
  have peek: "peek_tag_id t (insert_title title db) = peek_tag_id t db" for t by (simp add: step peek_tag_id_def)
  have "coherent (peek_tag_id t) (query_tag_id t) (insert_title title db)" for t
  proof -
    have old: "coherent (peek_tag_id t) (query_tag_id t) db" using ok by (simp add: tag_table_ok_def)
    show ?thesis
    proof (cases "t = title")
      case True
      have "peek_tag_id t db \<noteq> Some None" by (simp add: peek_tag_id_def)
      with old new True have "peek_tag_id t db = None" unfolding coherent_def by (metis option.exhaust)
      then show ?thesis by (simp add: coherent_def peek)
    next
      case False
      with old show ?thesis by (simp add: coherent_def peek id)
    qed
  qed
  with ok free fresh show "tag_table_ok (insert_title title db)"
    by (auto simp: tag_table_ok_def step)
  have "query_tag_name i (insert_title title db) = Some x" if "query_tag_name i db = Some x" for i x
    using that by (auto simp: step query_tag_name_def find)
  moreover have "insert_title title db = db\<lparr>c_tag_ids := c_tag_ids db, t_searchtag := t_searchtag db @ [\<lparr>st_tagid = searchtag_seq db, st_title = title\<rparr>],
      searchtag_seq := searchtag_seq db + 1\<rparr>" by (simp add: step)
  ultimately show "more_tags db (insert_title title db)" unfolding more_tags_def by blast
qed

lemma insert_titles_ok:
  "tag_table_ok db \<Longrightarrow> distinct titles \<Longrightarrow> (\<And>t. t \<in> set titles \<Longrightarrow> query_tag_id t db = None) \<Longrightarrow>
   tag_table_ok (fold insert_title titles db) \<and> more_tags db (fold insert_title titles db)
   \<and> (\<forall>t \<in> set titles. query_tag_id t (fold insert_title titles db) \<noteq> None)
   \<and> (\<forall>t. t \<notin> set titles \<longrightarrow> query_tag_id t (fold insert_title titles db) = query_tag_id t db)"
proof (induction titles arbitrary: db)
  case (Cons title titles)
  note step = insert_title_ok [OF Cons.prems(1), of title]
  have new: "query_tag_id title db = None" using Cons.prems(3) by simp
  have "tag_table_ok (fold insert_title titles (insert_title title db)) \<and> more_tags (insert_title title db) (fold insert_title titles (insert_title title db))
   \<and> (\<forall>t \<in> set titles. query_tag_id t (fold insert_title titles (insert_title title db)) \<noteq> None)
   \<and> (\<forall>t. t \<notin> set titles \<longrightarrow> query_tag_id t (fold insert_title titles (insert_title title db)) = query_tag_id t (insert_title title db))"
    using Cons.prems step [OF new] by (intro Cons.IH) auto
  then show ?case
    using step [OF new] Cons.prems(2) by (auto intro: more_tags_trans)
qed simp

text \<open>\<open>get_or_create_many\<close> gives every name an id that stands for it.\<close>

lemma get_or_create_result:
  assumes ok: "tag_table_ok db" and names: "distinct names" and call: "get_or_create_many names db = (ids, db')"
  shows "tag_table_ok db'" "more_tags db db'" "map (\<lambda>i. query_tag_name i db') ids = map Some names" "distinct ids"
proof -
  obtain found db1 where found: "get_ids names db = (found, db1)" by (meson surj_pair)
  note f = get_ids_result [OF ok found]
  define missing where "missing = filter (\<lambda>n. query_tag_id n db = None) names"
  have m: "map fst (filter (\<lambda>(name, i). i = None) found) = missing"
    unfolding f(1) missing_def by (simp add: filter_map comp_def)
  have id1: "query_tag_id n db1 = query_tag_id n db" for n using f(4) by (simp add: query_tag_id_def)
  define db2 where "db2 = fold insert_title missing db1"
  have ins: "tag_table_ok db2" "more_tags db1 db2" "\<forall>t \<in> set missing. query_tag_id t db2 \<noteq> None"
    "\<forall>t. t \<notin> set missing \<longrightarrow> query_tag_id t db2 = query_tag_id t db"
    using insert_titles_ok [OF f(2), of missing] names by (auto simp: db2_def missing_def id1)
  obtain created db3 where created: "get_ids missing db2 = (created, db3)" by (meson surj_pair)
  note c = get_ids_result [OF ins(1) created]
  have id3: "query_tag_id n db3 = query_tag_id n db2" for n using c(4) by (simp add: query_tag_id_def)
  have all: "\<forall>n \<in> set names. query_tag_id n db3 \<noteq> None"
  proof
    fix n assume n: "n \<in> set names"
    show "query_tag_id n db3 \<noteq> None"
    proof (cases "n \<in> set missing")
      case True
      with ins(3) show ?thesis by (simp add: id3)
    next
      case False
      moreover have "query_tag_id n db \<noteq> None" using False n by (simp add: missing_def)
      ultimately show ?thesis using ins(4) by (simp add: id3)
    qed
  qed
  have result: "ids = map (\<lambda>n. the (query_tag_id n db3)) names \<and> tag_table_ok db' \<and> more_tags db db' \<and> (\<forall>n. query_tag_id n db' = query_tag_id n db3)"
  proof (cases "missing = []")
    case True
    then have "(ids, db') = (map (\<lambda>(name, i). case i of Some n \<Rightarrow> n | None \<Rightarrow> 0) found, db1)"
      using call found m by (simp add: get_or_create_many_def)
    moreover have "query_tag_id n db3 = query_tag_id n db" for n using True ins(4) by (simp add: id3)
    moreover have "query_tag_id n db \<noteq> None" if "n \<in> set names" for n
      using True that by (auto simp: missing_def filter_empty_conv)
    then have "map (\<lambda>n. case query_tag_id n db of Some i \<Rightarrow> i | None \<Rightarrow> 0) names = map (\<lambda>n. the (query_tag_id n db)) names"
      by (intro map_cong refl) (fastforce split: option.splits)
    ultimately show ?thesis using f id1 by (simp add: comp_def)
  next
    case False
    then have "filter (\<lambda>(name, i). i = None) found \<noteq> []" using m by auto
    then have "ids = map (\<lambda>(name, i). case i of Some n \<Rightarrow> n
          | None \<Rightarrow> (case map_of created name of Some (Some n) \<Rightarrow> n | _ \<Rightarrow> 0)) found" "db' = db3"
      using call found m created by (simp_all add: get_or_create_many_def db2_def split: prod.splits)
    moreover have "(case query_tag_id n db of Some n \<Rightarrow> n
        | None \<Rightarrow> (case map_of created n of Some (Some n) \<Rightarrow> n | _ \<Rightarrow> 0)) = the (query_tag_id n db3)" if "n \<in> set names" for n
    proof (cases "query_tag_id n db")
      case None
      with that have "map_of created n = Some (query_tag_id n db3)"
        unfolding c(1) id3 by (simp add: map_of_map_restrict restrict_map_def missing_def)
      with None bspec [OF all that] show ?thesis by auto
    next
      case (Some i)
      then have "n \<notin> set missing" by (simp add: missing_def)
      with Some ins(4) show ?thesis by (simp add: id3)
    qed
    moreover have "more_tags db db3" using f(3) ins(2) c(3) more_tags_trans by blast
    ultimately show ?thesis
      using c(2) by (simp add: f(1) comp_def)
  qed
  then show "tag_table_ok db'" "more_tags db db'" by simp_all
  have named: "query_tag_name (the (query_tag_id n db3)) db' = Some n" if "n \<in> set names" for n
  proof -
    have "query_tag_id n db3 \<noteq> None" using bspec [OF all that] .
    then obtain i where i: "query_tag_id n db3 = Some i" by blast
    have ok': "tag_table_ok db'" and "query_tag_id n db' = Some i" using result i by simp_all
    then have "\<lparr>st_tagid = i, st_title = n\<rparr> \<in> set (t_searchtag db')" by (simp only: query_tag_id_iff)
    with i show ?thesis by (simp add: query_tag_name_iff [OF ok'])
  qed
  then show "map (\<lambda>i. query_tag_name i db') ids = map Some names" using result by (simp add: comp_def)
  have "inj_on (\<lambda>n. the (query_tag_id n db3)) (set names)"
  proof (rule inj_onI)
    fix a b assume a: "a \<in> set names" and b: "b \<in> set names" and same: "the (query_tag_id a db3) = the (query_tag_id b db3)"
    from named [OF a] have "Some b = Some a" unfolding same named [OF b] .
    then show "a = b" by simp
  qed
  then show "distinct ids" using result names by (simp add: distinct_map)
qed

end
