(* ===== verification/Tagging.thy ===== *)
theory Tagging
  imports Tags Collections Notes
begin

text \<open>
  What tagging does, over the functions of theory \<open>Tags\<close>: the tags of a post as an abstract map, the refinement of
  its operations, and the round trip of the undo tokens.
\<close>

subsection \<open>What tags a target has\<close>

text \<open>
  The abstract state of a target maps each name it is tagged with to whether this is one of the artist's own tags
  and to the user who added it. \<open>owner_tags\<close> and \<open>suggest_tags\<close> specify the two ways of tagging.
\<close>

type_synonym tag_entry = "bool \<times> int option"

definition tag_entry :: "searchmap_row \<Rightarrow> tag_entry" where
  "tag_entry sm = (is_artist_tag sm, sm_added_by sm)"

definition tag_key :: "searchmap_row \<Rightarrow> int \<times> int" where
  "tag_key sm = (sm_tagid sm, sm_targetid sm)"

definition row_entry :: "int \<Rightarrow> int \<Rightarrow> searchmap_row list \<Rightarrow> tag_entry option" where
  "row_entry targetid i rows = map_option tag_entry (find (\<lambda>sm. tag_key sm = (i, targetid)) rows)"

definition tagging :: "taggable_target \<Rightarrow> 'a tags_db_scheme \<Rightarrow> string \<Rightarrow> tag_entry option" where
  "tagging target db title = Option.bind (query_tag_id title db) (\<lambda>i. row_entry (target_id target) i (searchmap target db))"

definition owner_tag :: "int \<Rightarrow> bool \<Rightarrow> tag_entry option \<Rightarrow> tag_entry option" where
  "owner_tag userid entered e =
     (if entered then (case e of Some (True, by) \<Rightarrow> Some (True, by) | _ \<Rightarrow> Some (True, Some userid))
      else (case e of Some (True, by) \<Rightarrow> None | _ \<Rightarrow> e))"

definition suggest_tag :: "int \<Rightarrow> bool \<Rightarrow> tag_entry option \<Rightarrow> tag_entry option" where
  "suggest_tag userid entered e =
     (case e of None \<Rightarrow> if entered then Some (False, Some userid) else None
      | Some e \<Rightarrow> if e = (False, Some userid) \<and> \<not> entered then None else Some e)"

text \<open>
  The state of the tables: keys are unique, each tag id in use has a name, and the caches of ids and of restricted
  tags are current.
\<close>

definition known_tag :: "'a tags_db_scheme \<Rightarrow> int \<Rightarrow> bool" where
  "known_tag db i \<longleftrightarrow> query_tag_name i db \<noteq> None"

definition tags_ok :: "'a tags_db_scheme \<Rightarrow> bool" where
  "tags_ok db \<longleftrightarrow> tag_table_ok db
     \<and> (\<forall>target. distinct (map tag_key (searchmap target db)) \<and> (\<forall>sm \<in> set (searchmap target db). known_tag db (sm_tagid sm)))
     \<and> (\<forall>ur \<in> set (t_user_restricted_tags db). known_tag db (ur_tagid ur))
     \<and> (\<forall>gr \<in> set (t_globally_restricted_tags db). known_tag db (gr_tagid gr))
     \<and> user_restricted.all_coherent db \<and> global_restricted.all_coherent db"

lemma tags_ok_rows:
  assumes "tags_ok db"
  shows "distinct (map tag_key (searchmap target db))" "sm \<in> set (searchmap target db) \<Longrightarrow> known_tag db (sm_tagid sm)"
    "tag_table_ok db"
  using assms by (auto simp only: tags_ok_def)

subsubsection \<open>The rows\<close>

lemma find_tag_target: "find (\<lambda>sm. sm_targetid sm = t \<and> sm_tagid sm = i) rows = find (\<lambda>sm. tag_key sm = (i, t)) rows"
  by (rule arg_cong [where f = "\<lambda>P. find P rows"]) (auto simp: tag_key_def)

lemma has_tag_iff: "has_tag t i rows \<longleftrightarrow> row_entry t i rows \<noteq> None"
  by (auto simp: has_tag_def row_entry_def exists_where_iff find_None_iff tag_key_def)

lemma set_artist_tag_entry:
  "row_entry t' i (set_artist_tag userid t j rows) = (if (i, t') = (j, t) then owner_tag userid True (row_entry t' i rows) else row_entry t' i rows)"
proof (cases "find (\<lambda>sm. tag_key sm = (j, t)) rows")
  case None
  then have "set_artist_tag userid t j rows = rows @ [\<lparr>sm_tagid = j, sm_targetid = t, sm_settings = ''a'', sm_added_by = Some userid\<rparr>]"
    by (simp add: set_artist_tag_def has_tag_iff row_entry_def)
  with None show ?thesis
    by (auto simp: row_entry_def find_append owner_tag_def tag_entry_def tag_key_def is_artist_tag_def split: option.splits)
next
  case (Some sm)
  let ?f = "\<lambda>sm. sm\<lparr>sm_settings := sm_settings sm @ ''a'', sm_added_by := Some userid\<rparr>"
  let ?P = "\<lambda>sm. sm_targetid sm = t \<and> sm_tagid sm = j \<and> \<not> is_artist_tag sm"
  from Some have "set_artist_tag userid t j rows = update_where ?P ?f rows"
    by (simp add: set_artist_tag_def has_tag_iff row_entry_def)
  then have "row_entry t' i (set_artist_tag userid t j rows)
      = map_option (\<lambda>sm. tag_entry (if ?P sm then ?f sm else sm)) (find (\<lambda>sm. tag_key sm = (i, t')) rows)"
    using lookup_update_where [of ?P tag_key ?f "(i, t')" rows]
    by (simp add: row_entry_def tag_key_def option.map_comp comp_def)
  also have "\<dots> = (if (i, t') = (j, t) then owner_tag userid True (row_entry t' i rows) else row_entry t' i rows)"
  proof (cases "find (\<lambda>sm. tag_key sm = (i, t')) rows")
    case None
    with Some show ?thesis by (auto simp: row_entry_def)
  next
    case (Some x)
    then have "tag_key x = (i, t')" by (auto dest: find_SomeD)
    with Some show ?thesis
      by (cases "is_artist_tag x") (auto simp: row_entry_def tag_entry_def tag_key_def owner_tag_def is_artist_tag_def)
  qed
  finally show ?thesis .
qed

lemma owner_tag_twice [simp]: "owner_tag u True (owner_tag u True e) = owner_tag u True e"
  by (auto simp: owner_tag_def split: option.splits bool.splits)

lemma fold_artist_entry:
  "row_entry t' i (fold (set_artist_tag userid t) ids rows)
     = (if t' = t \<and> i \<in> set ids then owner_tag userid True (row_entry t' i rows) else row_entry t' i rows)"
  by (induction ids arbitrary: rows) (auto simp: set_artist_tag_entry)

lemma artist_rows_entry:
  assumes "distinct (map tag_key rows)"
  shows "row_entry t' i (artist_rows userid t ids rows)
     = (if t' = t then owner_tag userid (i \<in> set ids) (row_entry t' i rows) else row_entry t' i rows)"
proof -
  have "row_entry t' i (delete_where (\<lambda>sm. sm_targetid sm = t \<and> is_artist_tag sm \<and> sm_tagid sm \<notin> set ids) rows)
      = (if t' = t \<and> i \<notin> set ids then owner_tag userid False (row_entry t' i rows) else row_entry t' i rows)"
  proof (cases "find (\<lambda>sm. tag_key sm = (i, t')) rows")
    case (Some x)
    then have "tag_key x = (i, t')" by (auto dest: find_SomeD)
    with Some show ?thesis
      unfolding row_entry_def lookup_delete_where [OF assms] by (auto simp: owner_tag_def tag_entry_def tag_key_def split: bool.splits)
  next
    case None
    then have "row_entry t' i rows = None" by (simp add: row_entry_def)
    with None show ?thesis by (auto simp: row_entry_def lookup_delete_where [OF assms] owner_tag_def)
  qed
  then show ?thesis by (auto simp: artist_rows_def fold_artist_entry)
qed

lemma fold_suggest_entry:
  "row_entry t' i (fold (\<lambda>i. insert_or_nothing (\<lambda>sm. (sm_tagid sm, sm_targetid sm))
        \<lparr>sm_tagid = i, sm_targetid = t, sm_settings = [], sm_added_by = Some userid\<rparr>) ids rows)
     = (case row_entry t' i rows of None \<Rightarrow> if t' = t \<and> i \<in> set ids then Some (False, Some userid) else None | Some e \<Rightarrow> Some e)"
proof (induction ids arbitrary: rows)
  case (Cons j ids)
  have "row_entry t' i (insert_or_nothing (\<lambda>sm. (sm_tagid sm, sm_targetid sm))
        \<lparr>sm_tagid = j, sm_targetid = t, sm_settings = [], sm_added_by = Some userid\<rparr> rows)
      = (case row_entry t' i rows of None \<Rightarrow> if t' = t \<and> i = j then Some (False, Some userid) else None | Some e \<Rightarrow> Some e)"
    using lookup_insert_or_nothing [of tag_key "(i, t')" "\<lparr>sm_tagid = j, sm_targetid = t, sm_settings = [], sm_added_by = Some userid\<rparr>" rows]
    by (auto simp: row_entry_def tag_key_def [abs_def] tag_entry_def is_artist_tag_def split: option.splits)
  with Cons show ?case by (auto split: option.splits)
qed (simp split: option.split)

lemma suggest_rows_entry:
  assumes "distinct (map tag_key rows)"
  shows "row_entry t' i (suggest_rows userid t ids rows)
     = (if t' = t then suggest_tag userid (i \<in> set ids) (row_entry t' i rows) else row_entry t' i rows)"
proof -
  have "row_entry t' i (delete_where (\<lambda>sm. sm_targetid sm = t \<and> \<not> is_artist_tag sm \<and> sm_added_by sm = Some userid
          \<and> sm_tagid sm \<notin> set ids) rows)
      = (if t' = t \<and> i \<notin> set ids \<and> row_entry t' i rows = Some (False, Some userid) then None else row_entry t' i rows)"
  proof (cases "find (\<lambda>sm. tag_key sm = (i, t')) rows")
    case (Some x)
    then have "tag_key x = (i, t')" by (auto dest: find_SomeD)
    with Some show ?thesis
      unfolding row_entry_def lookup_delete_where [OF assms] by (auto simp: tag_entry_def tag_key_def)
  qed (simp add: row_entry_def lookup_delete_where [OF assms])
  then show ?thesis
    by (auto simp: suggest_rows_def fold_suggest_entry suggest_tag_def split: option.splits)
qed

lemma tag_key_parts: "(\<lambda>sm. (sm_tagid sm, sm_targetid sm)) = tag_key"
  by (simp add: tag_key_def [abs_def])

lemma artist_rows_keys:
  assumes "distinct (map tag_key rows)"
  shows "distinct (map tag_key (artist_rows userid t ids rows))"
    and "sm_tagid ` set (artist_rows userid t ids rows) \<subseteq> sm_tagid ` set rows \<union> set ids"
proof -
  have step: "distinct (map tag_key (set_artist_tag userid t j rows)) \<and> sm_tagid ` set (set_artist_tag userid t j rows) \<subseteq> insert j (sm_tagid ` set rows)"
    if "distinct (map tag_key rows)" for j rows
  proof (cases "has_tag t j rows")
    case True
    have "map tag_key (update_where P (\<lambda>sm. sm\<lparr>sm_settings := f sm, sm_added_by := a\<rparr>) rows) = map tag_key rows" for P f a
      by (rule map_key_update_where) (simp add: tag_key_def)
    with True that show ?thesis by (auto simp: set_artist_tag_def table_simps)
  next
    case False
    then have "(j, t) \<notin> tag_key ` set rows"
      by (auto simp: has_tag_def exists_where_iff tag_key_def)
    with False that show ?thesis by (auto simp: set_artist_tag_def tag_key_def)
  qed
  have "distinct (map tag_key rows) \<Longrightarrow> distinct (map tag_key (fold (set_artist_tag userid t) ids rows))
      \<and> sm_tagid ` set (fold (set_artist_tag userid t) ids rows) \<subseteq> sm_tagid ` set rows \<union> set ids" for rows
  proof (induction ids arbitrary: rows)
    case (Cons j ids)
    from Cons.IH [OF conjunct1 [OF step [OF Cons.prems, of j]]] step [OF Cons.prems, of j] show ?case by auto
  qed simp
  from this [OF distinct_map_delete_where [OF assms]]
  show "distinct (map tag_key (artist_rows userid t ids rows))"
    "sm_tagid ` set (artist_rows userid t ids rows) \<subseteq> sm_tagid ` set rows \<union> set ids"
    by (auto simp: artist_rows_def table_simps)
qed

lemma suggest_rows_keys:
  assumes "distinct (map tag_key rows)"
  shows "distinct (map tag_key (suggest_rows userid t ids rows))"
    and "sm_tagid ` set (suggest_rows userid t ids rows) \<subseteq> sm_tagid ` set rows \<union> set ids"
proof -
  let ?new = "\<lambda>j. \<lparr>sm_tagid = j, sm_targetid = t, sm_settings = [], sm_added_by = Some userid\<rparr>"
  have "distinct (map tag_key rows) \<Longrightarrow> distinct (map tag_key (fold (\<lambda>j. insert_or_nothing tag_key (?new j)) ids rows))
      \<and> sm_tagid ` set (fold (\<lambda>j. insert_or_nothing tag_key (?new j)) ids rows) \<subseteq> sm_tagid ` set rows \<union> set ids" for rows
  proof (induction ids arbitrary: rows)
    case (Cons j ids)
    from Cons.IH [OF distinct_map_insert_or_nothing [OF Cons.prems, of "?new j"]]
    show ?case by (auto simp: set_insert_or_nothing split: if_splits)
  qed simp
  from this [OF distinct_map_delete_where [OF assms]]
  show "distinct (map tag_key (suggest_rows userid t ids rows))"
    "sm_tagid ` set (suggest_rows userid t ids rows) \<subseteq> sm_tagid ` set rows \<union> set ids"
    by (auto simp: suggest_rows_def tag_key_parts table_simps)
qed

subsubsection \<open>The tables\<close>

lemma same_target_iff: "target' = target \<longleftrightarrow> type_code target' = type_code target \<and> target_id target' = target_id target"
  by (cases target; cases target') simp_all

lemma searchmap_put [simp]:
  "searchmap target' (put_searchmap target rows db) = (if type_code target' = type_code target then rows else searchmap target' db)"
  by (cases target; cases target') simp_all

lemma searchmap_same_table: "type_code target' = type_code target \<Longrightarrow> searchmap target' db = searchmap target db"
  by (cases target; cases target') simp_all

lemma put_searchmap_frame [simp]:
  "t_searchtag (put_searchmap target rows db) = t_searchtag db"
  "searchtag_seq (put_searchmap target rows db) = searchtag_seq db"
  "c_tag_ids (put_searchmap target rows db) = c_tag_ids db"
  "t_user_restricted_tags (put_searchmap target rows db) = t_user_restricted_tags db"
  "t_globally_restricted_tags (put_searchmap target rows db) = t_globally_restricted_tags db"
  "c_user_restricted (put_searchmap target rows db) = c_user_restricted db"
  "c_global_restricted (put_searchmap target rows db) = c_global_restricted db"
  by (cases target; simp)+

lemma put_feedback_frame [simp]:
  "t_searchtag (put_feedback target frows db) = t_searchtag db"
  "searchtag_seq (put_feedback target frows db) = searchtag_seq db"
  "c_tag_ids (put_feedback target frows db) = c_tag_ids db"
  "t_user_restricted_tags (put_feedback target frows db) = t_user_restricted_tags db"
  "t_globally_restricted_tags (put_feedback target frows db) = t_globally_restricted_tags db"
  "c_user_restricted (put_feedback target frows db) = c_user_restricted db"
  "c_global_restricted (put_feedback target frows db) = c_global_restricted db"
  "searchmap target' (put_feedback target frows db) = searchmap target' db"
  by (cases target; cases target'; simp)+

lemma record_tag_change_frame [simp]:
  "t_searchtag (record_tag_change now u target a r db) = t_searchtag db"
  "searchtag_seq (record_tag_change now u target a r db) = searchtag_seq db"
  "c_tag_ids (record_tag_change now u target a r db) = c_tag_ids db"
  "t_user_restricted_tags (record_tag_change now u target a r db) = t_user_restricted_tags db"
  "t_globally_restricted_tags (record_tag_change now u target a r db) = t_globally_restricted_tags db"
  "c_user_restricted (record_tag_change now u target a r db) = c_user_restricted db"
  "c_global_restricted (record_tag_change now u target a r db) = c_global_restricted db"
  "searchmap target' (record_tag_change now u target a r db) = searchmap target' db"
  by (cases target; cases target'; simp add: record_tag_change_def update_submission_tags_def Let_def)+

text \<open>Two states with the same tags, tables and caches of tags.\<close>

definition same_tag_state :: "'a tags_db_scheme \<Rightarrow> 'a tags_db_scheme \<Rightarrow> bool" where
  "same_tag_state db db' \<longleftrightarrow> t_searchtag db' = t_searchtag db \<and> searchtag_seq db' = searchtag_seq db \<and> c_tag_ids db' = c_tag_ids db
     \<and> t_user_restricted_tags db' = t_user_restricted_tags db \<and> t_globally_restricted_tags db' = t_globally_restricted_tags db
     \<and> c_user_restricted db' = c_user_restricted db \<and> c_global_restricted db' = c_global_restricted db"

lemmas tag_queries = query_tag_name_def query_tag_id_def peek_tag_id_def query_user_restricted_def query_global_restricted_def
  titles_of_def peek_user_restricted_def peek_global_restricted_def

lemma same_tag_state_queries:
  assumes "same_tag_state db db'"
  shows "query_tag_name i db' = query_tag_name i db" "query_tag_id title db' = query_tag_id title db" "known_tag db' i = known_tag db i"
    "tag_table_ok db' = tag_table_ok db"
    "user_restricted.all_coherent db' = user_restricted.all_coherent db" "global_restricted.all_coherent db' = global_restricted.all_coherent db"
  using assms by (simp_all add: same_tag_state_def known_tag_def tag_table_ok_def coherent_def tag_queries)

lemma tags_ok_same:
  assumes "same_tag_state db db'" "\<And>target. distinct (map tag_key (searchmap target db')) \<and> (\<forall>sm \<in> set (searchmap target db'). known_tag db (sm_tagid sm))"
    "tags_ok db"
  shows "tags_ok db'"
proof -
  have same: "t_user_restricted_tags db' = t_user_restricted_tags db" "t_globally_restricted_tags db' = t_globally_restricted_tags db"
    using assms(1) by (simp_all add: same_tag_state_def)
  show ?thesis
    unfolding tags_ok_def same_tag_state_queries [OF assms(1)] same using assms(2,3) by (simp add: tags_ok_def)
qed

lemma retag:
  assumes "tags_ok db" "distinct (map tag_key rows)" "sm_tagid ` set rows \<subseteq> sm_tagid ` set (searchmap target db) \<union> {i. known_tag db i}"
  shows "tags_ok (put_searchmap target rows db)"
proof (rule tags_ok_same)
  show "same_tag_state db (put_searchmap target rows db)" by (simp add: same_tag_state_def)
  fix target'
  have old: "distinct (map tag_key (searchmap t db)) \<and> (\<forall>sm \<in> set (searchmap t db). known_tag db (sm_tagid sm))" for t
    using assms(1) by (simp add: tags_ok_def)
  have "\<forall>sm \<in> set rows. known_tag db (sm_tagid sm)"
    using assms(3) old [of target] by (auto dest!: subsetD)
  with old [of target'] assms(2) show "distinct (map tag_key (searchmap target' (put_searchmap target rows db)))
      \<and> (\<forall>sm \<in> set (searchmap target' (put_searchmap target rows db)). known_tag db (sm_tagid sm))"
    by simp
qed (rule assms(1))

lemma tagging_same:
  "same_tag_state db db' \<Longrightarrow> (\<And>t. searchmap t db' = searchmap t db) \<Longrightarrow> tagging target db' = tagging target db"
  by (rule ext) (simp add: tagging_def same_tag_state_queries)

text \<open>Creating tags leaves the tags of every target as they are.\<close>

lemma more_tags_frame:
  assumes "more_tags db db'"
  shows "searchmap target db' = searchmap target db" "t_user_restricted_tags db' = t_user_restricted_tags db"
    "t_globally_restricted_tags db' = t_globally_restricted_tags db" "c_user_restricted db' = c_user_restricted db"
    "c_global_restricted db' = c_global_restricted db" "known_tag db i \<Longrightarrow> known_tag db' i"
  using assms by (cases target; auto simp: more_tags_def known_tag_def)+

lemma titles_more_tags:
  assumes "more_tags db db'" "\<forall>i \<in> set is. known_tag db i"
  shows "titles_of is db' = titles_of is db"
  using assms(2)
proof (induction "is")
  case (Cons i "is")
  then obtain title where "query_tag_name i db = Some title" by (auto simp: known_tag_def)
  moreover from this assms(1) have "query_tag_name i db' = Some title" by (simp add: more_tags_def)
  ultimately show ?case using Cons by (simp add: titles_of_def map_filter_simps)
qed (simp add: titles_of_def map_filter_simps)

lemma tags_ok_more_tags:
  assumes ok: "tags_ok db" and more: "more_tags db db'" and table: "tag_table_ok db'"
  shows "tags_ok db'" "tagging target db' = tagging target db"
proof -
  note frame = more_tags_frame [OF more]
  have rest: "query_user_restricted k db' = query_user_restricted k db" for k
    unfolding query_user_restricted_def frame by (rule titles_more_tags [OF more]) (use ok in \<open>auto simp: tags_ok_def\<close>)
  have glob: "query_global_restricted k db' = query_global_restricted k db" for k
    unfolding query_global_restricted_def frame by (rule titles_more_tags [OF more]) (use ok in \<open>auto simp: tags_ok_def\<close>)
  have "user_restricted.all_coherent db' = user_restricted.all_coherent db" "global_restricted.all_coherent db' = global_restricted.all_coherent db"
    by (simp_all add: coherent_def rest glob peek_user_restricted_def peek_global_restricted_def frame)
  then show "tags_ok db'"
    using ok table frame(6) unfolding tags_ok_def frame(1-5) by metis
  show "tagging target db' = tagging target db"
  proof
    fix title
    have ok1: "tag_table_ok db" using ok by (simp add: tags_ok_def)
    show "tagging target db' title = tagging target db title"
    proof (cases "query_tag_id title db")
      case (Some i)
      then have "query_tag_name i db = Some title" using ok1 by (simp add: query_tag_id_iff query_tag_name_iff)
      then have "query_tag_name i db' = Some title" using more by (simp add: more_tags_def)
      then have "query_tag_id title db' = Some i" using table by (simp add: query_tag_id_iff query_tag_name_iff)
      with Some show ?thesis by (simp add: tagging_def frame)
    next
      case None
      show ?thesis
      proof (cases "query_tag_id title db'")
        case (Some i)
        then have new: "query_tag_name i db' = Some title" using table by (simp add: query_tag_id_iff query_tag_name_iff)
        have "find (\<lambda>sm. tag_key sm = (i, target_id target)) (searchmap target db) = None"
        proof (rule ccontr)
          assume "find (\<lambda>sm. tag_key sm = (i, target_id target)) (searchmap target db) \<noteq> None"
          then obtain sm where sm: "sm \<in> set (searchmap target db)" "sm_tagid sm = i"
            by (auto simp: tag_key_def dest: find_SomeD)
          then obtain other where other: "query_tag_name i db = Some other" using tags_ok_rows(2) [OF ok sm(1)] by (auto simp: known_tag_def)
          then have "query_tag_name i db' = Some other" using more by (simp add: more_tags_def)
          with new other have "query_tag_name i db = Some title" by simp
          then have "query_tag_id title db = Some i" using ok1 by (simp add: query_tag_id_iff query_tag_name_iff)
          with None show False by simp
        qed
        with None Some show ?thesis by (simp add: tagging_def frame row_entry_def)
      qed (simp add: tagging_def None)
    qed
  qed
qed

subsubsection \<open>The transactions\<close>

text \<open>Given the ids of the names entered, a transaction treats the entry of every name as specified.\<close>

lemma entered_ids:
  assumes ok: "tag_table_ok db" and ids: "map (\<lambda>i. query_tag_name i db) ids = map Some names"
  shows "query_tag_id title db = Some i \<Longrightarrow> i \<in> set ids \<longleftrightarrow> title \<in> set names"
    and "query_tag_id title db = None \<Longrightarrow> title \<notin> set names"
    and "i \<in> set ids \<Longrightarrow> known_tag db i"
proof -
  have image: "(\<lambda>i. query_tag_name i db) ` set ids = Some ` set names"
    using arg_cong [OF ids, of set] by simp
  have some_id: "query_tag_id title db = Some i \<longleftrightarrow> query_tag_name i db = Some title" for i title
    using ok by (simp add: query_tag_id_iff query_tag_name_iff)
  show "i \<in> set ids \<longleftrightarrow> title \<in> set names" if "query_tag_id title db = Some i"
  proof
    assume "i \<in> set ids"
    then have "query_tag_name i db \<in> Some ` set names" unfolding image [symmetric] by (rule imageI)
    with that show "title \<in> set names" unfolding some_id by auto
  next
    assume "title \<in> set names"
    then have "Some title \<in> (\<lambda>i. query_tag_name i db) ` set ids" unfolding image by (rule imageI)
    then obtain j where "j \<in> set ids" "query_tag_name j db = Some title" by auto
    with that show "i \<in> set ids" unfolding some_id [symmetric] by simp
  qed
  show "title \<notin> set names" if "query_tag_id title db = None"
  proof
    assume "title \<in> set names"
    then have "Some title \<in> (\<lambda>i. query_tag_name i db) ` set ids" unfolding image by (rule imageI)
    then obtain j where "query_tag_name j db = Some title" by auto
    with that show False unfolding some_id [symmetric] by simp
  qed
  show "known_tag db i" if "i \<in> set ids"
  proof -
    have "query_tag_name i db \<in> Some ` set names" using that unfolding image [symmetric] by (rule imageI)
    then show ?thesis by (auto simp: known_tag_def)
  qed
qed

lemma transaction_effect:
  assumes ok: "tags_ok db" and ids: "map (\<lambda>i. query_tag_name i db) ids = map Some names"
    and keys: "distinct (map tag_key rows')" "sm_tagid ` set rows' \<subseteq> sm_tagid ` set (searchmap target db) \<union> set ids"
    and entry: "\<And>t i. row_entry t i rows' = (if t = target_id target then f (i \<in> set ids) (row_entry t i (searchmap target db))
                   else row_entry t i (searchmap target db))"
    and none: "f False None = None"
    and same': "same_tag_state db db'"
    and rows': "\<And>t. searchmap t db' = (if type_code t = type_code target then rows' else searchmap t db)"
  shows "tags_ok db'" "tagging target' db' = (\<lambda>title. if target' = target then f (title \<in> set names) (tagging target db title) else tagging target' db title)"
proof -
  note table = tags_ok_rows(3) [OF ok]
  have ok2: "tags_ok (put_searchmap target rows' db)"
    using keys entered_ids(3) [OF table ids] by (intro retag [OF ok]) auto
  have same: "same_tag_state (put_searchmap target rows' db) db'" using same' by (simp add: same_tag_state_def)
  show "tags_ok db'"
  proof (rule tags_ok_same [OF same _ ok2])
    fix t
    have "searchmap t db' = searchmap t (put_searchmap target rows' db)" by (simp only: rows' searchmap_put)
    with tags_ok_rows(1) [OF ok2, of t] tags_ok_rows(2) [OF ok2, of _ t]
    show "distinct (map tag_key (searchmap t db')) \<and> (\<forall>sm \<in> set (searchmap t db'). known_tag (put_searchmap target rows' db) (sm_tagid sm))"
      by simp
  qed
  show "tagging target' db' = (\<lambda>title. if target' = target then f (title \<in> set names) (tagging target db title) else tagging target' db title)"
  proof
    fix title
    show "tagging target' db' title = (if target' = target then f (title \<in> set names) (tagging target db title) else tagging target' db title)"
    proof (cases "query_tag_id title db")
      case None
      with entered_ids(2) [OF table ids None] none show ?thesis
        by (simp add: tagging_def same_tag_state_queries [OF same'])
    next
      case (Some i)
      show ?thesis
        unfolding tagging_def same_tag_state_queries [OF same'] rows' Some
        using entered_ids(1) [OF table ids Some] searchmap_same_table [of target' target db]
        by (auto simp: entry same_target_iff [of target' target])
    qed
  qed
qed

lemma read_restricted:
  assumes ok: "tags_ok db"
  shows "fst (query_user_restricted_tags ownerid db) = query_user_restricted ownerid db"
    and "tags_ok (snd (query_user_restricted_tags ownerid db))"
    and "tagging target (snd (query_user_restricted_tags ownerid db)) = tagging target db"
    and "query_global_restricted () (snd (query_user_restricted_tags ownerid db)) = query_global_restricted () db"
proof -
  have all: "user_restricted.all_coherent db" "global_restricted.all_coherent db" using ok unfolding tags_ok_def by blast+
  show "fst (query_user_restricted_tags ownerid db) = query_user_restricted ownerid db"
    unfolding query_user_restricted_tags_def by (rule user_restricted.read_value [OF all(1)])
  obtain c where c: "snd (query_user_restricted_tags ownerid db) = db\<lparr>c_user_restricted := c\<rparr>"
  proof -
    have "\<exists>c. db = db\<lparr>c_user_restricted := c\<rparr>" by (rule exI [of _ "c_user_restricted db"]) simp
    with that show ?thesis
      by (cases "peek_user_restricted ownerid db") (auto simp: query_user_restricted_tags_def read_through_def store_user_restricted_def Let_def)
  qed
  have user: "user_restricted.all_coherent (db\<lparr>c_user_restricted := c\<rparr>)"
    using user_restricted.read_coherent [OF all(1), of ownerid] unfolding query_user_restricted_tags_def [symmetric] c .
  have rows: "searchmap t (db\<lparr>c_user_restricted := c\<rparr>) = searchmap t db" for t by (cases t) simp_all
  have same: "query_tag_name i (db\<lparr>c_user_restricted := c\<rparr>) = query_tag_name i db" "query_tag_id title (db\<lparr>c_user_restricted := c\<rparr>) = query_tag_id title db"
    "tag_table_ok (db\<lparr>c_user_restricted := c\<rparr>) = tag_table_ok db" "global_restricted.all_coherent (db\<lparr>c_user_restricted := c\<rparr>) = global_restricted.all_coherent db"
    for i title by (simp_all add: tag_queries tag_table_ok_def coherent_def)
  show "tags_ok (snd (query_user_restricted_tags ownerid db))"
    using ok user unfolding c tags_ok_def known_tag_def same rows by simp
  show "tagging target (snd (query_user_restricted_tags ownerid db)) = tagging target db"
    by (rule ext) (simp add: c tagging_def same rows)
  show "query_global_restricted () (snd (query_user_restricted_tags ownerid db)) = query_global_restricted () db"
    by (simp add: c tag_queries)
qed

lemma read_global_restricted:
  assumes ok: "tags_ok db"
  shows "fst (query_global_restricted_tags db) = query_global_restricted () db"
    and "tags_ok (snd (query_global_restricted_tags db))"
    and "tagging target (snd (query_global_restricted_tags db)) = tagging target db"
proof -
  have all: "user_restricted.all_coherent db" "global_restricted.all_coherent db" using ok unfolding tags_ok_def by blast+
  show "fst (query_global_restricted_tags db) = query_global_restricted () db"
    unfolding query_global_restricted_tags_def by (rule global_restricted.read_value [OF all(2)])
  obtain c where c: "snd (query_global_restricted_tags db) = db\<lparr>c_global_restricted := c\<rparr>"
  proof -
    have "\<exists>c. db = db\<lparr>c_global_restricted := c\<rparr>" by (rule exI [of _ "c_global_restricted db"]) simp
    with that show ?thesis
      by (cases "peek_global_restricted () db") (auto simp: query_global_restricted_tags_def read_through_def store_global_restricted_def Let_def)
  qed
  have glob: "global_restricted.all_coherent (db\<lparr>c_global_restricted := c\<rparr>)"
    using global_restricted.read_coherent [OF all(2), of "()"] unfolding query_global_restricted_tags_def [symmetric] c .
  have rows: "searchmap t (db\<lparr>c_global_restricted := c\<rparr>) = searchmap t db" for t by (cases t) simp_all
  have same: "query_tag_name i (db\<lparr>c_global_restricted := c\<rparr>) = query_tag_name i db" "query_tag_id title (db\<lparr>c_global_restricted := c\<rparr>) = query_tag_id title db"
    "tag_table_ok (db\<lparr>c_global_restricted := c\<rparr>) = tag_table_ok db" "user_restricted.all_coherent (db\<lparr>c_global_restricted := c\<rparr>) = user_restricted.all_coherent db"
    for i title by (simp_all add: tag_queries tag_table_ok_def coherent_def)
  show "tags_ok (snd (query_global_restricted_tags db))"
    using ok glob unfolding c tags_ok_def known_tag_def same rows by simp
  show "tagging target (snd (query_global_restricted_tags db)) = tagging target db"
    by (rule ext) (simp add: c tagging_def same rows)
qed

lemma suggest_none [simp]: "owner_tag u False None = None" "suggest_tag u False None = None"
  by (simp_all add: owner_tag_def suggest_tag_def)

lemma owner_tags_effect:
  assumes ok: "tags_ok db" and names: "distinct names"
    and own: "userid = ownerid \<or> userid \<in> MODS st" and owner: "target_ownerid target db = Some ownerid"
    and run: "associate st now userid target names db = (res, db')"
  shows "res = Inr []" "tags_ok db'"
    "tagging t db' = (\<lambda>title. if t = target then owner_tag userid (title \<in> set names) (tagging target db title) else tagging t db title)"
proof -
  obtain ids db1 where create: "get_or_create_many names db = (ids, db1)" by (meson surj_pair)
  note made = get_or_create_result [OF tags_ok_rows(3) [OF ok] names create]
  note ok1 = tags_ok_more_tags [OF ok made(2,1)]
  have result: "res = Inr []" "db' = associate_transaction now userid target ids db1"
    using run own owner create by (auto simp: associate_def split: if_splits)
  show "res = Inr []" by (rule result(1))
  note distinct = tags_ok_rows(1) [OF ok1(1), of target]
  have change: "same_tag_state db1 db'" "\<And>t. searchmap t db' = (if type_code t = type_code target
      then artist_rows userid (target_id target) ids (searchmap target db1) else searchmap t db1)"
    by (simp_all add: result(2) associate_transaction_def Let_def same_tag_state_def)
  note effect = transaction_effect [OF ok1(1) made(3) artist_rows_keys [OF distinct] artist_rows_entry [OF distinct] _ change, simplified]
  show "tags_ok db'" by (rule effect(1))
  show "tagging t db' = (\<lambda>title. if t = target then owner_tag userid (title \<in> set names) (tagging target db title) else tagging t db title)"
    using effect(2) [of t] by (simp only: ok1(2))
qed

lemma suggested_tags_effect:
  assumes ok: "tags_ok db" and names: "distinct names"
    and run: "set_suggested_tags now userid target ownerid names db = (res, db')"
    and may: "can_suggest_tags userid db" "\<not> ignoreuser_check ownerid userid db"
    and restricted: "restricted = restricted_tag_matcher (query_user_restricted ownerid db @ query_global_restricted () db)"
  shows "res = Inr (sort (filter restricted names))" "tags_ok db'"
    "tagging t db' = (\<lambda>title. if t = target then suggest_tag userid (title \<in> set names \<and> \<not> restricted title) (tagging target db title) else tagging t db title)"
proof -
  define r1 where "r1 = query_user_restricted_tags ownerid db"
  note user = read_restricted [OF ok, where ownerid = ownerid, folded r1_def]
  define r2 where "r2 = query_global_restricted_tags (snd r1)"
  note glob = read_global_restricted [OF user(2), folded r2_def]
  define allowed where "allowed = filter (\<lambda>t. \<not> restricted t) names"
  obtain ids db1 where create: "get_or_create_many allowed (snd r2) = (ids, db1)" by (meson surj_pair)
  have "distinct allowed" using names by (simp add: allowed_def)
  note made = get_or_create_result [OF tags_ok_rows(3) [OF glob(2)] this create]
  note ok1 = tags_ok_more_tags [OF glob(2) made(2,1)]
  have patterns: "restricted = restricted_tag_matcher (fst r1 @ fst r2)"
    by (simp add: restricted user(1,4) glob(1))
  have "filter (\<lambda>t. t \<notin> set (filter restricted names)) names = allowed"
    unfolding allowed_def by (rule filter_cong) auto
  with run may create patterns have result: "res = Inr (sort (filter restricted names))" "db' = suggest_transaction now userid target ids db1"
    by (auto simp: set_suggested_tags_def r1_def r2_def case_prod_unfold Let_def)
  show "res = Inr (sort (filter restricted names))" by (rule result(1))
  note distinct = tags_ok_rows(1) [OF ok1(1), of target]
  have change: "same_tag_state db1 db'" "\<And>t. searchmap t db' = (if type_code t = type_code target
      then suggest_rows userid (target_id target) ids (searchmap target db1) else searchmap t db1)"
    by (simp_all add: result(2) suggest_transaction_def Let_def same_tag_state_def)
  note effect = transaction_effect [OF ok1(1) made(3) suggest_rows_keys [OF distinct] suggest_rows_entry [OF distinct] _ change, simplified]
  show "tags_ok db'" by (rule effect(1))
  have "title \<in> set allowed \<longleftrightarrow> title \<in> set names \<and> \<not> restricted title" for title by (auto simp: allowed_def)
  with effect(2) [of t]
  show "tagging t db' = (\<lambda>title. if t = target then suggest_tag userid (title \<in> set names \<and> \<not> restricted title) (tagging target db title) else tagging t db title)"
    by (simp only: ok1(2) user(3) glob(3))
qed

text \<open>
  C28: Tagging refines the two abstract operations. The owner of a post and moderators replace the artist's tags by the
  names they enter, and what others suggested stays unless it is entered. Another user who may suggest tags and is
  not ignored replaces the own suggestions that nobody else has entered, without the restricted names, which are
  returned; the artist's tags and other users' suggestions stay. Anybody else is refused, without effect. No other
  post is touched.
\<close>

theorem associate_refines:
  assumes "tags_ok db" and "distinct tag_names" and "target_ownerid target db = Some ownerid"
    and "associate st now userid target tag_names db = (res, db')"
  shows "let own = (userid = ownerid \<or> userid \<in> MODS st);
             restricted = restricted_tag_matcher (query_user_restricted ownerid db @ query_global_restricted () db);
             only = (\<lambda>f t. if t = target then (\<lambda>title. f title (tagging target db title)) else tagging t db)
         in tags_ok db'
            \<and> (if own then res = Inr [] \<and> (\<forall>t. tagging t db' = only (\<lambda>title. owner_tag userid (title \<in> set tag_names)) t)
               else if \<not> can_suggest_tags userid db then res = Inl (WeasylError ''InsufficientPermissions'') \<and> db' = db
               else if ignoreuser_check ownerid userid db then res = Inl (WeasylError ''contentOwnerIgnoredYou'') \<and> db' = db
               else res = Inr (sort (filter restricted tag_names))
                    \<and> (\<forall>t. tagging t db' = only (\<lambda>title. suggest_tag userid (title \<in> set tag_names \<and> \<not> restricted title)) t))"
proof (cases "userid = ownerid \<or> userid \<in> MODS st")
  case True
  note owner_tags_effect [OF assms(1,2) True assms(3,4)]
  with True show ?thesis by (auto simp: Let_def)
next
  case False
  with assms(3,4) have run: "set_suggested_tags now userid target ownerid tag_names db = (res, db')"
    by (simp add: associate_def split: if_splits)
  show ?thesis
  proof (cases "can_suggest_tags userid db \<and> \<not> ignoreuser_check ownerid userid db")
    case True
    then show ?thesis
      using False suggested_tags_effect [OF assms(1,2) run _ _ refl] by (auto simp: Let_def)
  next
    case refused: False
    with run assms(1) False show ?thesis by (auto simp: set_suggested_tags_def Let_def split: if_splits)
  qed
qed

subsubsection \<open>What is shown\<close>

lemma tagging_iff:
  assumes ok: "tags_ok db"
  shows "tagging target db title = Some e \<longleftrightarrow> (\<exists>sm. (title, sm) \<in> set (target_tags target db) \<and> tag_entry sm = e)"
proof -
  note table = tags_ok_rows(3) [OF ok]
  have row: "find (\<lambda>sm. tag_key sm = (i, target_id target)) (searchmap target db) = Some sm
      \<longleftrightarrow> sm \<in> set (searchmap target db) \<and> sm_tagid sm = i \<and> sm_targetid sm = target_id target" for i sm
    using find_unique [OF tags_ok_rows(1) [OF ok, of target], of sm] by (auto simp: tag_key_def dest: find_SomeD)
  have "tagging target db title = Some e \<longleftrightarrow> (\<exists>i sm. query_tag_name i db = Some title \<and> tag_entry sm = e
      \<and> sm \<in> set (searchmap target db) \<and> sm_tagid sm = i \<and> sm_targetid sm = target_id target)"
    by (auto simp: tagging_def bind_eq_Some_conv row_entry_def row query_tag_id_iff [OF table] query_tag_name_iff [OF table])
  then show ?thesis by (auto simp: target_tags_def in_map_filter)
qed

lemma distinct_target_tags:
  assumes ok: "tags_ok db"
  shows "distinct (map fst (target_tags target db))"
proof -
  have inj: "x = y" if "query_tag_name (sm_tagid x) db = Some t" "query_tag_name (sm_tagid y) db = Some t"
    "x \<in> set (searchmap target db)" "y \<in> set (searchmap target db)" "sm_targetid x = target_id target" "sm_targetid y = target_id target" for x y t
  proof -
    have "sm_tagid x = sm_tagid y" using that(1,2) tag_name_inj [OF tags_ok_rows(3) [OF ok]] by blast
    with that(3-6) show ?thesis
      using distinct_map_inj [OF tags_ok_rows(1) [OF ok, of target], of x y] by (simp add: tag_key_def)
  qed
  have "distinct (map fst (List.map_filter (\<lambda>sm. map_option (\<lambda>title. (title, sm)) (query_tag_name (sm_tagid sm) db)) rows))"
    if "distinct rows" "\<And>x. x \<in> set rows \<Longrightarrow> x \<in> set (searchmap target db) \<and> sm_targetid x = target_id target" for rows
    using that
  proof (induction rows)
    case (Cons x rows)
    have "title \<notin> fst ` set (List.map_filter (\<lambda>sm. map_option (\<lambda>title. (title, sm)) (query_tag_name (sm_tagid sm) db)) rows)"
      if "query_tag_name (sm_tagid x) db = Some title" for title
    proof
      assume "title \<in> fst ` set (List.map_filter (\<lambda>sm. map_option (\<lambda>title. (title, sm)) (query_tag_name (sm_tagid sm) db)) rows)"
      then obtain y where y: "y \<in> set rows" "query_tag_name (sm_tagid y) db = Some title" by (auto simp: in_map_filter)
      from inj [OF that y(2)] Cons.prems(2) [of x] Cons.prems(2) [of y] y(1) have "x = y" by simp
      with y(1) Cons.prems(1) show False by simp
    qed
    with Cons show ?case by (auto simp: map_filter_simps split: option.split)
  qed (simp add: map_filter_simps)
  note step = this
  have "distinct (searchmap target db)" using tags_ok_rows(1) [OF ok, of target] by (simp add: distinct_map)
  then show ?thesis unfolding target_tags_def by (intro step) simp_all
qed

lemma grouped_tags_shown:
  assumes ok: "tags_ok db"
  shows "set (gt_artist (select_grouped userid target db)) = {title. \<exists>by. tagging target db title = Some (True, by)}"
    and "set (gt_suggested (select_grouped userid target db)) = {title. \<exists>by. tagging target db title = Some (False, by)}"
    and "set (gt_own_suggested (select_grouped userid target db)) = {title. tagging target db title = Some (False, Some userid)}"
    and "distinct (gt_artist (select_grouped userid target db))"
proof -
  have "title \<in> set (gt_artist (select_grouped userid target db)) \<longleftrightarrow> (\<exists>sm. (title, sm) \<in> set (target_tags target db) \<and> is_artist_tag sm)"
    "title \<in> set (gt_suggested (select_grouped userid target db)) \<longleftrightarrow> (\<exists>sm. (title, sm) \<in> set (target_tags target db) \<and> \<not> is_artist_tag sm)"
    "title \<in> set (gt_own_suggested (select_grouped userid target db))
       \<longleftrightarrow> (\<exists>sm. (title, sm) \<in> set (target_tags target db) \<and> \<not> is_artist_tag sm \<and> sm_added_by sm = Some userid)" for title
    by (force simp: select_grouped_def Let_def)+
  then show "set (gt_artist (select_grouped userid target db)) = {title. \<exists>by. tagging target db title = Some (True, by)}"
    "set (gt_suggested (select_grouped userid target db)) = {title. \<exists>by. tagging target db title = Some (False, by)}"
    "set (gt_own_suggested (select_grouped userid target db)) = {title. tagging target db title = Some (False, Some userid)}"
    unfolding tagging_iff [OF ok] tag_entry_def by auto
  show "distinct (gt_artist (select_grouped userid target db))"
    using distinct_target_tags [OF ok, of target] by (simp add: select_grouped_def Let_def distinct_map_filter)
qed

subsubsection \<open>One tag\<close>

definition retag_row :: "int \<Rightarrow> int \<Rightarrow> tag_entry option \<Rightarrow> searchmap_row list \<Rightarrow> searchmap_row list \<Rightarrow> bool" where
  "retag_row t i e rows rows' \<longleftrightarrow> distinct (map tag_key rows') \<and> sm_tagid ` set rows' \<subseteq> insert i (sm_tagid ` set rows)
     \<and> (\<forall>t' i'. row_entry t' i' rows' = (if t' = t \<and> i' = i then e else row_entry t' i' rows))"

lemma retag_effect:
  assumes ok: "tags_ok db" and i: "query_tag_id title db = Some i"
    and rows: "retag_row (target_id target) i e (searchmap target db) rows'"
    and same: "same_tag_state db db'" and rows': "\<And>t. searchmap t db' = (if type_code t = type_code target then rows' else searchmap t db)"
  shows "tags_ok db'" "tagging t db' = (if t = target then (tagging target db)(title := e) else tagging t db)"
proof -
  have name: "map (\<lambda>i. query_tag_name i db) [i] = map Some [title]"
    using i by (simp add: query_tag_id_iff [OF tags_ok_rows(3) [OF ok]] query_tag_name_iff [OF tags_ok_rows(3) [OF ok]])
  have keys: "distinct (map tag_key rows')" "sm_tagid ` set rows' \<subseteq> sm_tagid ` set (searchmap target db) \<union> set [i]"
    using rows by (auto simp: retag_row_def)
  have entry: "row_entry t i' rows' = (if t = target_id target then (if i' \<in> set [i] then e else row_entry t i' (searchmap target db))
      else row_entry t i' (searchmap target db))" for t i'
    using rows by (auto simp: retag_row_def)
  note effect = transaction_effect [where f = "\<lambda>b old. if b then e else old", OF ok name keys entry _ same rows', simplified]
  show "tags_ok db'" by (rule effect(1))
  show "tagging t db' = (if t = target then (tagging target db)(title := e) else tagging t db)"
    unfolding effect(2) by (rule ext) simp
qed

lemma retag_update:
  assumes "distinct (map tag_key rows)" and "\<And>sm. tag_key (f sm) = tag_key sm" and "row_entry t i rows \<noteq> None"
    and "\<And>sm. sm \<in> set rows \<Longrightarrow> tag_key sm = (i, t) \<Longrightarrow> P sm \<and> tag_entry (f sm) = e"
    and "\<And>sm. P sm \<Longrightarrow> tag_key sm = (i, t)"
  shows "retag_row t i (Some e) rows (update_where P f rows)"
proof -
  have keys: "map tag_key (update_where P f rows) = map tag_key rows" using assms(2) by (rule map_key_update_where)
  have "sm_tagid ` set (update_where P f rows) = fst ` tag_key ` set (update_where P f rows)" by (simp add: image_image tag_key_def)
  also have "\<dots> = sm_tagid ` set rows" using arg_cong [OF keys, of set] by (simp add: image_image tag_key_def)
  finally have tagids: "sm_tagid ` set (update_where P f rows) = sm_tagid ` set rows" .
  have "row_entry t' i' (update_where P f rows) = (if t' = t \<and> i' = i then Some e else row_entry t' i' rows)" for t' i'
  proof (cases "find (\<lambda>sm. tag_key sm = (i', t')) rows")
    case None
    with assms(3) have "\<not> (t' = t \<and> i' = i)" by (auto simp: row_entry_def)
    with None show ?thesis unfolding row_entry_def lookup_update_where [of P tag_key f, OF assms(2)] by auto
  next
    case (Some sm)
    then have sm: "sm \<in> set rows" "tag_key sm = (i', t')" by (auto dest: find_SomeD)
    have found: "row_entry t' i' (update_where P f rows) = Some (tag_entry (if P sm then f sm else sm))"
      unfolding row_entry_def lookup_update_where [of P tag_key f, OF assms(2)] Some by simp
    show ?thesis
    proof (cases "P sm")
      case True
      with assms(5) [of sm] sm have "t' = t \<and> i' = i" by simp
      with True found sm assms(4) [of sm] show ?thesis by simp
    next
      case False
      with assms(4) [of sm] sm have "\<not> (t' = t \<and> i' = i)" by auto
      moreover have "row_entry t' i' rows = Some (tag_entry sm)" using Some by (simp add: row_entry_def)
      ultimately show ?thesis using False found by auto
    qed
  qed
  with keys tagids assms(1) show ?thesis by (auto simp: retag_row_def)
qed

lemma retag_delete:
  assumes "distinct (map tag_key rows)" and "\<And>sm. P sm \<longleftrightarrow> tag_key sm = (i, t)"
  shows "retag_row t i None rows (delete_where P rows)"
proof -
  have "row_entry t' i' (delete_where P rows) = (if t' = t \<and> i' = i then None else row_entry t' i' rows)" for t' i'
  proof (cases "find (\<lambda>sm. tag_key sm = (i', t')) rows")
    case (Some sm)
    then have "tag_key sm = (i', t')" by (auto dest: find_SomeD)
    with Some show ?thesis unfolding row_entry_def lookup_delete_where [OF assms(1)] by (auto simp: assms(2))
  qed (simp add: row_entry_def lookup_delete_where [OF assms(1)])
  with distinct_map_delete_where [OF assms(1)] show ?thesis by (auto simp: retag_row_def table_simps)
qed

lemma retag_append:
  assumes "distinct (map tag_key rows)" and "row_entry t i rows = None" and "tag_key sm = (i, t)"
  shows "retag_row t i (Some (tag_entry sm)) rows (rows @ [sm])"
proof -
  have "(i, t) \<notin> tag_key ` set rows" using assms(2) by (auto simp: row_entry_def find_None_iff)
  with assms show ?thesis
    by (auto simp: retag_row_def row_entry_def find_append tag_key_def split: option.split)
qed

lemma target_ownerid_frame:
  "target_ownerid t (put_searchmap target rows db) = target_ownerid t db"
  "target_ownerid t (put_feedback target frows db) = target_ownerid t db"
  "more_tags db db' \<Longrightarrow> target_ownerid t db' = target_ownerid t db"
  by (cases t; cases target; auto simp: more_tags_def get_ownerid_def submission_owner_def character_owner_def journal_owner_def)+

lemma get_id_state:
  assumes ok: "tags_ok db" and run: "get_id title db = (tagid, db')"
  shows "tagid = query_tag_id title db" "tags_ok db'" "tagging t db' = tagging t db" "searchmap t db' = searchmap t db"
    "query_tag_id title' db' = query_tag_id title' db" "target_ownerid t db' = target_ownerid t db"
proof -
  obtain ids where ids: "get_ids [title] db = (ids, db')" "tagid = (case ids of [] \<Rightarrow> None | p # _ \<Rightarrow> snd p)"
    using run by (cases "get_ids [title] db") (simp add: get_id_def)
  note r = get_ids_result [OF tags_ok_rows(3) [OF ok] ids(1)]
  show "tagid = query_tag_id title db" using ids(2) r(1) by simp
  show "tags_ok db'" "tagging t db' = tagging t db" by (rule tags_ok_more_tags [OF ok r(3,2)])+
  show "searchmap t db' = searchmap t db" by (rule more_tags_frame [OF r(3)])
  show "query_tag_id title' db' = query_tag_id title' db" using r(4) by (simp add: query_tag_id_def)
  show "target_ownerid t db' = target_ownerid t db" by (rule target_ownerid_frame(3) [OF r(3)])
qed

lemma unpack_pack:
  assumes "pack_u32 n = Inr bytes"
  shows "length bytes = 4" "unpack_u32 bytes = n"
proof -
  have bytes: "bytes = [n mod 256, n div 256 mod 256, n div 65536 mod 256, n div 16777216]"
    using assms by (simp add: pack_u32_def split: if_splits)
  show "length bytes = 4" by (simp add: bytes)
  have "n div 65536 = n div 256 div 256" "n div 16777216 = n div 256 div 256 div 256"
    by (simp_all add: zdiv_zmult2_eq [symmetric])
  moreover have digits: "n = 256 * a + r0 \<Longrightarrow> a = 256 * b + r1 \<Longrightarrow> b = 256 * c + r2 \<Longrightarrow> r0 + 256 * r1 + 65536 * r2 + 16777216 * c = n"
    for a b c r0 r1 r2 :: int by simp
  ultimately show "unpack_u32 bytes = n"
    using digits [OF mult_div_mod_eq [of 256 n, symmetric] mult_div_mod_eq [of 256 "n div 256", symmetric]
        mult_div_mod_eq [of 256 "n div 256 div 256", symmetric]] unfolding bytes unpack_u32.simps by simp
qed

lemma token_roundtrip:
  assumes laws: "\<And>n d a. unseal env n (seal env n d a) a = Inr d" "\<And>n d a. length (seal env n d a) = length d + 16"
    and nonce: "length nonce = UNDO_TOKEN_NONCE_SIZE"
    and token: "undo_token_create env nonce now target tagid added_by = Inr token"
  shows "undo_token_validate env now' target tagid token
    = (if now < now' - UNDO_TOKEN_VALIDITY then Inl UndoExpired
       else if now > now' + UNDO_TOKEN_MAX_CLOCK_SKEW then Inl (WeasylError ''Unexpected'') else Inr added_by)"
proof -
  obtain aad stamp secret where parts: "undo_aad now tagid target = Inr aad" "pack_u32 now = Inr stamp" "pack_u32 added_by = Inr secret"
    "token = nonce @ stamp @ seal env nonce secret aad"
    using token by (auto simp: undo_token_create_def split: sum.splits)
  note stamp = unpack_pack [OF parts(2)] and secret = unpack_pack [OF parts(3)]
  have "take UNDO_TOKEN_NONCE_SIZE token = nonce" "drop UNDO_TOKEN_NONCE_SIZE token = stamp @ seal env nonce secret aad"
    using nonce by (simp_all add: parts(4))
  moreover have "drop (UNDO_TOKEN_NONCE_SIZE + 4) token = seal env nonce secret aad"
    using nonce stamp(1) by (simp add: parts(4))
  moreover have "length token = UNDO_TOKEN_NONCE_SIZE + 4 + 4 + POLY1305_TAG_SIZE"
    using nonce stamp(1) secret(1) laws(2) by (simp add: parts(4) POLY1305_TAG_SIZE_def)
  ultimately show ?thesis
    using stamp secret laws(1) parts(1) by (simp add: undo_token_validate_def)
qed

lemma approve_retag:
  assumes "distinct (map tag_key rows)" "find (\<lambda>sm. tag_key sm = (i, t)) rows = Some check" "\<not> is_artist_tag check"
  shows "retag_row t i (Some (True, Some userid)) rows
    (update_where (\<lambda>sm. sm_targetid sm = t \<and> sm_tagid sm = i \<and> \<not> is_artist_tag sm)
      (\<lambda>sm. sm\<lparr>sm_settings := sm_settings sm @ ''a'', sm_added_by := Some userid\<rparr>) rows)"
proof (rule retag_update)
  fix sm assume "sm \<in> set rows" "tag_key sm = (i, t)"
  then have "sm = check" using find_unique [OF assms(1), of sm] assms(2) by simp
  with assms(3) \<open>tag_key sm = (i, t)\<close>
  show "(sm_targetid sm = t \<and> sm_tagid sm = i \<and> \<not> is_artist_tag sm)
      \<and> tag_entry (sm\<lparr>sm_settings := sm_settings sm @ ''a'', sm_added_by := Some userid\<rparr>) = (True, Some userid)"
    by (simp add: tag_key_def tag_entry_def is_artist_tag_def)
qed (use assms(1,2) in \<open>simp_all add: tag_key_def row_entry_def\<close>)

lemma arbitrate_effect:
  assumes ok: "tags_ok db"
    and run: "suggestion_arbitrate st env nonce now userid target title action db = (Inr (SuggestionActionSuccess (Some token)), db')"
  shows "\<exists>i added_by ownerid. query_tag_id title db = Some i \<and> query_tag_id title db' = Some i
      \<and> tagging target db title = Some (False, Some added_by)
      \<and> undo_token_create env nonce now target i added_by = Inr token
      \<and> target_ownerid target db' = Some ownerid \<and> (userid = ownerid \<or> userid \<in> MODS st)
      \<and> tags_ok db' \<and> (\<forall>t. tagging t db' = (if t = target then (tagging target db)
            (title := (case action of APPROVE \<Rightarrow> Some (True, Some userid) | REJECT \<Rightarrow> None)) else tagging t db))"
proof -
  obtain ownerid where owner: "target_ownerid target db = Some ownerid" "userid = ownerid \<or> userid \<in> MODS st"
    using run by (auto simp: suggestion_arbitrate_def split: option.splits if_splits)
  obtain tagid db0 where get: "get_id title db = (tagid, db0)" by (meson surj_pair)
  note st0 = get_id_state [OF ok get]
  define decided where "decided = (case find_suggestion target tagid db0 of
        None \<Rightarrow> (Inr (case action of APPROVE \<Rightarrow> SuggestionActionFailure | REJECT \<Rightarrow> SuggestionActionSuccess None), db0)
      | Some check \<Rightarrow>
          if is_artist_tag check then
            (Inr (case action of APPROVE \<Rightarrow> SuggestionActionSuccess None | REJECT \<Rightarrow> SuggestionActionFailure), db0)
          else
            (case (case sm_added_by check of
                     None \<Rightarrow> Inr None
                   | Some added_by \<Rightarrow> map_sum id Some (undo_token_create env nonce now target (sm_tagid check) added_by)) of
               Inl e \<Rightarrow> (Inl e, db0)
             | Inr undo_token \<Rightarrow>
                 (Inr (SuggestionActionSuccess undo_token),
                  case action of
                    APPROVE \<Rightarrow> approve_suggestion userid target (sm_tagid check) db0
                  | REJECT \<Rightarrow> reject_suggestion now userid target (sm_tagid check) db0)))"
  have decision: "decided = (Inr (SuggestionActionSuccess (Some token)), db')"
    using run owner get unfolding suggestion_arbitrate_def decided_def by (simp split: if_splits)
  obtain check where check0: "find_suggestion target tagid db0 = Some check" and plain: "\<not> is_artist_tag check"
    using decision unfolding decided_def by (cases action) (auto split: option.splits if_splits)
  obtain added_by where adder: "sm_added_by check = Some added_by"
    using decision check0 plain unfolding decided_def by (cases "sm_added_by check") auto
  have sealed: "undo_token_create env nonce now target (sm_tagid check) added_by = Inr token"
    and db': "db' = (case action of APPROVE \<Rightarrow> approve_suggestion userid target (sm_tagid check) db0
                  | REJECT \<Rightarrow> reject_suggestion now userid target (sm_tagid check) db0)"
    using decision check0 plain adder unfolding decided_def
    by (cases "undo_token_create env nonce now target (sm_tagid check) added_by"; simp)+
  obtain i where i0: "tagid = Some i" using check0 by (cases tagid) (simp_all add: find_suggestion_def)
  note found = i0 check0 plain adder sealed
  have check: "find (\<lambda>sm. tag_key sm = (i, target_id target)) (searchmap target db0) = Some check"
    using found(1,2) by (simp add: find_suggestion_def find_tag_target)
  then have id: "sm_tagid check = i" by (auto simp: tag_key_def dest: find_SomeD)
  have i: "query_tag_id title db0 = Some i" using st0(1,5) found(1) by simp
  note distinct = tags_ok_rows(1) [OF st0(2), of target]
  define rows where "rows = (case action of
      APPROVE \<Rightarrow> update_where (\<lambda>sm. sm_targetid sm = target_id target \<and> sm_tagid sm = i \<and> \<not> is_artist_tag sm)
        (\<lambda>sm. sm\<lparr>sm_settings := sm_settings sm @ ''a'', sm_added_by := Some userid\<rparr>) (searchmap target db0)
    | REJECT \<Rightarrow> delete_where (\<lambda>sm. sm_targetid sm = target_id target \<and> sm_tagid sm = i) (searchmap target db0))"
  have change: "same_tag_state db0 db'" "\<And>t. searchmap t db' = (if type_code t = type_code target then rows else searchmap t db0)"
    by (cases action; simp add: db' id rows_def approve_suggestion_def reject_suggestion_def same_tag_state_def Let_def)+
  have retag: "retag_row (target_id target) i (case action of APPROVE \<Rightarrow> Some (True, Some userid) | REJECT \<Rightarrow> None) (searchmap target db0) rows"
  proof (cases action)
    case APPROVE
    with approve_retag [OF distinct check found(3)] show ?thesis by (simp add: rows_def)
  next
    case REJECT
    then show ?thesis by (auto simp: rows_def tag_key_def intro!: retag_delete [OF distinct])
  qed
  note effect = retag_effect [OF st0(2) i retag change]
  have "target_ownerid target db' = Some ownerid"
    using owner(1) by (cases action)
      (simp_all add: db' approve_suggestion_def reject_suggestion_def Let_def target_ownerid_frame st0(6))
  moreover have "tagging target db title = Some (False, Some added_by)"
    using check found(3,4) unfolding st0(3) [symmetric] by (simp add: tagging_def i row_entry_def tag_entry_def)
  moreover have "query_tag_id title db' = Some i" using i by (simp add: same_tag_state_queries [OF change(1)])
  moreover have "query_tag_id title db = Some i" using st0(1) found(1) by simp
  moreover note found(5) [unfolded id] owner(2) effect(1)
  moreover have "tagging t db' = (if t = target then (tagging target db)(title := (case action of APPROVE \<Rightarrow> Some (True, Some userid) | REJECT \<Rightarrow> None))
      else tagging t db)" for t
    unfolding effect(2) st0(3) ..
  ultimately show ?thesis by blast
qed

lemma restore_effect:
  assumes ok: "tags_ok db" and i: "query_tag_id title db = Some i"
  shows "tags_ok (restore_suggestion target i added_by db)"
    "tagging t (restore_suggestion target i added_by db)
       = (if t = target then (tagging target db)(title := Some (False, Some added_by)) else tagging t db)"
proof -
  note distinct = tags_ok_rows(1) [OF ok, of target]
  define rows where "rows = (if has_tag (target_id target) i (searchmap target db) then
      update_where (\<lambda>sm. sm_targetid sm = target_id target \<and> sm_tagid sm = i)
        (\<lambda>sm. sm\<lparr>sm_settings := remove_flag (CHR ''a'') (sm_settings sm), sm_added_by := Some added_by\<rparr>) (searchmap target db)
    else searchmap target db @ [\<lparr>sm_tagid = i, sm_targetid = target_id target, sm_settings = [], sm_added_by = Some added_by\<rparr>])"
  have retag: "retag_row (target_id target) i (Some (False, Some added_by)) (searchmap target db) rows"
  proof (cases "has_tag (target_id target) i (searchmap target db)")
    case True
    then show ?thesis unfolding rows_def
      by (auto intro!: retag_update [OF distinct] simp: has_tag_iff tag_key_def tag_entry_def is_artist_tag_def)
  next
    case False
    then have "row_entry (target_id target) i (searchmap target db) = None"
      by (cases "row_entry (target_id target) i (searchmap target db)") (auto simp: has_tag_iff)
    with False show ?thesis unfolding rows_def
      using retag_append [OF distinct, of "target_id target" i "\<lparr>sm_tagid = i, sm_targetid = target_id target, sm_settings = [], sm_added_by = Some added_by\<rparr>"]
      by (simp add: tag_key_def tag_entry_def is_artist_tag_def)
  qed
  have change: "same_tag_state db (restore_suggestion target i added_by db)"
    "\<And>t. searchmap t (restore_suggestion target i added_by db) = (if type_code t = type_code target then rows else searchmap t db)"
    by (simp_all add: restore_suggestion_def rows_def same_tag_state_def)
  note effect = retag_effect [OF ok i retag change]
  show "tags_ok (restore_suggestion target i added_by db)" by (rule effect(1))
  show "tagging t (restore_suggestion target i added_by db)
       = (if t = target then (tagging target db)(title := Some (False, Some added_by)) else tagging t db)" by (rule effect(2))
qed

text \<open>
  C29: Undoing a decision on a suggestion. The artist or a moderator approves or rejects a suggested tag and gets an undo
  token. Within sixty seconds the token makes the tag a suggestion of its author again, and then every post has the
  tags it had, with who added them; after that it is refused as expired, and nothing changes. Of the cipher it is
  used that decryption undoes encryption and that a ciphertext is 16 bytes longer than the text.
\<close>

theorem suggestion_undo_roundtrip:
  assumes "\<And>n d a. unseal env n (seal env n d a) a = Inr d" and "\<And>n d a. length (seal env n d a) = length d + 16"
    and "length nonce = UNDO_TOKEN_NONCE_SIZE" and "tags_ok db" and "now \<le> now'"
    and "suggestion_arbitrate st env nonce now userid target title action db = (Inr (SuggestionActionSuccess (Some token)), db')"
    and "suggestion_action_undo st env now' userid target title token db' = (res, db'')"
  shows "(\<forall>t. tagging t db'' = (if now' \<le> now + 60 then tagging t db else tagging t db'))
     \<and> tagging target db' title = (case action of APPROVE \<Rightarrow> Some (True, Some userid) | REJECT \<Rightarrow> None)
     \<and> res = (if now' \<le> now + 60 then Inr () else Inl UndoExpired) \<and> tags_ok db''"
proof -
  from arbitrate_effect [OF assms(4,6)] obtain i added_by ownerid where settled: "query_tag_id title db' = Some i"
    "tagging target db title = Some (False, Some added_by)" "undo_token_create env nonce now target i added_by = Inr token"
    "target_ownerid target db' = Some ownerid" "userid = ownerid \<or> userid \<in> MODS st" "tags_ok db'"
    "\<And>t. tagging t db' = (if t = target then (tagging target db)
        (title := (case action of APPROVE \<Rightarrow> Some (True, Some userid) | REJECT \<Rightarrow> None)) else tagging t db)" by blast
  obtain tagid db0 where get: "get_id title db' = (tagid, db0)" by (meson surj_pair)
  note st0 = get_id_state [OF settled(6) get]
  have i: "tagid = Some i" "query_tag_id title db0 = Some i" using st0(1,5) settled(1) by simp_all
  have valid: "undo_token_validate env now' target i token = (if now' \<le> now + 60 then Inr added_by else Inl UndoExpired)"
    using token_roundtrip [OF assms(1-3) settled(3), of now'] assms(5) by (auto simp: UNDO_TOKEN_VALIDITY_def UNDO_TOKEN_MAX_CLOCK_SKEW_def)
  define db1 where "db1 = put_feedback target (delete_where (\<lambda>tf. feedback_key tf = (target_id target, i, userid))
      (feedback_rows target (restore_suggestion target i added_by db0))) (restore_suggestion target i added_by db0)"
  have undo: "(res, db'') = (if now' \<le> now + 60 then (Inr (), db1) else (Inl UndoExpired, db0))"
    using assms(7) get i(1) valid settled(4,5) st0(6) [of target]
    by (auto simp: suggestion_action_undo_def db1_def Let_def split: if_splits)
  note restored = restore_effect [OF st0(2) i(2), where target = target and added_by = added_by]
  have same: "same_tag_state (restore_suggestion target i added_by db0) db1"
    "\<And>t. searchmap t db1 = searchmap t (restore_suggestion target i added_by db0)"
    by (simp_all add: db1_def same_tag_state_def)
  have "tags_ok db1"
    using tags_ok_rows(1,2) [OF restored(1)] by (intro tags_ok_same [OF same(1) _ restored(1)]) (simp add: same(2))
  moreover have "tagging t db1 = tagging t db" for t
    unfolding tagging_same [OF same] restored(2) st0(3) settled(7) using settled(2) by (auto simp: fun_eq_iff)
  moreover have "tagging target db' title = (case action of APPROVE \<Rightarrow> Some (True, Some userid) | REJECT \<Rightarrow> None)"
    by (simp add: settled(7))
  ultimately show ?thesis
    using undo st0(2,3) by (auto split: if_splits)
qed

subsubsection \<open>The theorems at work\<close>

definition tagged_db :: tags_db where
  "tagged_db = blank_db\<lparr>t_profile := [sample_profile 1 ''ann'' [], sample_profile 2 ''bob'' []],
     t_submission := [sample_submission 5 1],
     t_searchtag := [\<lparr>st_tagid = 1, st_title = ''red''\<rparr>, \<lparr>st_tagid = 2, st_title = ''fox''\<rparr>], searchtag_seq := 3,
     t_searchmapsubmit := [\<lparr>sm_tagid = 1, sm_targetid = 5, sm_settings = ''a'', sm_added_by = Some 1\<rparr>,
       \<lparr>sm_tagid = 2, sm_targetid = 5, sm_settings = [], sm_added_by = Some 2\<rparr>]\<rparr>"

lemma tagged_db_ok: "tags_ok tagged_db"
proof -
  have rows: "searchmap target tagged_db = (case target of SubmissionTarget _ \<Rightarrow>
      [\<lparr>sm_tagid = 1, sm_targetid = 5, sm_settings = ''a'', sm_added_by = Some 1\<rparr>,
       \<lparr>sm_tagid = 2, sm_targetid = 5, sm_settings = [], sm_added_by = Some 2\<rparr>] | _ \<Rightarrow> [])" for target
    by (cases target) (simp_all add: tagged_db_def blank_db_def)
  show ?thesis
    unfolding tags_ok_def rows
    by (auto simp: tagged_db_def blank_db_def tag_table_ok_def coherent_def tag_queries known_tag_def tag_key_def split: taggable_target.splits)
qed

theorem associate_refines_witness:
  "let (res, db') = associate no_staff 1000 2 (SubmissionTarget 5) [''blue'', ''red''] tagged_db
   in res = Inr [] \<and> map (tagging (SubmissionTarget 5) db') [''red'', ''fox'', ''blue'']
       = [Some (True, Some 1), None, Some (False, Some 2)]"
proof -
  obtain res db' where run: "associate no_staff 1000 2 (SubmissionTarget 5) [''blue'', ''red''] tagged_db = (res, db')"
    by (meson surj_pair)
  have owner: "target_ownerid (SubmissionTarget 5) tagged_db = Some 1" by code_simp
  have distinct: "distinct [''blue'', ''red'']" by simp
  have facts: "can_suggest_tags 2 tagged_db" "\<not> ignoreuser_check 1 2 tagged_db" "2 \<notin> MODS no_staff"
    "query_user_restricted 1 tagged_db @ query_global_restricted () tagged_db = []"
    "map (tagging (SubmissionTarget 5) tagged_db) [''red'', ''fox'', ''blue''] = [Some (True, Some 1), Some (False, Some 2), None]"
    by code_simp+
  from associate_refines [OF tagged_db_ok distinct owner run]
  have "res = Inr []" "tagging (SubmissionTarget 5) db' = (\<lambda>title. suggest_tag 2 (title \<in> {''blue'', ''red''} \<and> title \<noteq> []) (tagging (SubmissionTarget 5) tagged_db title))"
    using facts(1-3) by (simp_all add: Let_def facts(4) restricted_tag_matcher_def)
  with run facts(5) show ?thesis by (simp add: suggest_tag_def)
qed

definition open_seal :: undo_env where
  "open_seal = \<lparr>seal = (\<lambda>n d a. d @ replicate 16 0), unseal = (\<lambda>n c a. Inr (take (length c - 16) c))\<rparr>"

theorem suggestion_undo_roundtrip_witness:
  "let (decided, db') = suggestion_arbitrate no_staff open_seal (replicate 12 7) 1000 1 (SubmissionTarget 5) ''fox'' REJECT tagged_db;
       token = (case decided of Inr (SuggestionActionSuccess (Some t)) \<Rightarrow> t | _ \<Rightarrow> []);
       (res, db'') = suggestion_action_undo no_staff open_seal 1060 1 (SubmissionTarget 5) ''fox'' token db'
   in res = Inr () \<and> tagging (SubmissionTarget 5) db' ''fox'' = None \<and> tagging (SubmissionTarget 5) db'' ''fox'' = Some (False, Some 2)"
proof -
  have laws: "unseal open_seal n (seal open_seal n d a) a = Inr d" "length (seal open_seal n d a) = length d + 16" for n d a
    by (simp_all add: open_seal_def)
  obtain token db' where decided: "suggestion_arbitrate no_staff open_seal (replicate 12 7) 1000 1 (SubmissionTarget 5) ''fox'' REJECT tagged_db
      = (Inr (SuggestionActionSuccess (Some token)), db')"
  proof -
    have "case fst (suggestion_arbitrate no_staff open_seal (replicate 12 7) 1000 1 (SubmissionTarget 5) ''fox'' REJECT tagged_db) of
        Inr (SuggestionActionSuccess (Some t)) \<Rightarrow> True | _ \<Rightarrow> False" by code_simp
    with that show ?thesis
      by (cases "suggestion_arbitrate no_staff open_seal (replicate 12 7) 1000 1 (SubmissionTarget 5) ''fox'' REJECT tagged_db")
        (auto split: sum.splits suggestion_result.splits option.splits)
  qed
  obtain res db'' where undone: "suggestion_action_undo no_staff open_seal 1060 1 (SubmissionTarget 5) ''fox'' token db' = (res, db'')"
    by (meson surj_pair)
  have start: "tagging (SubmissionTarget 5) tagged_db ''fox'' = Some (False, Some 2)" by code_simp
  have "length (replicate 12 (7::int)) = UNDO_TOKEN_NONCE_SIZE" by (simp add: UNDO_TOKEN_NONCE_SIZE_def)
  from suggestion_undo_roundtrip [OF laws this tagged_db_ok _ decided undone] start
  show ?thesis by (simp add: decided undone)
qed

subsection \<open>What a restricted pattern matches\<close>

lemma glob_match_word: "CHR ''*'' \<notin> set p \<Longrightarrow> glob_match p s \<longleftrightarrow> s = p"
  by (induction p s rule: glob_match.induct) auto

lemma glob_match_star:
  "CHR ''*'' \<notin> set suf \<Longrightarrow> glob_match (CHR ''*'' # suf) s \<longleftrightarrow> (\<exists>mid. s = mid @ suf \<and> CHR 0x0A \<notin> set mid)"
proof (induction s)
  case Nil
  then show ?case by (simp add: glob_match_word) blast
next
  case (Cons x s)
  have "(\<exists>mid. x # s = mid @ suf \<and> CHR 0x0A \<notin> set mid) \<longleftrightarrow> x # s = suf \<or> (x \<noteq> CHR 0x0A \<and> (\<exists>mid. s = mid @ suf \<and> CHR 0x0A \<notin> set mid))"
    (is "?l \<longleftrightarrow> ?r")
  proof
    assume ?l
    then obtain mid where "x # s = mid @ suf" "CHR 0x0A \<notin> set mid" by blast
    then show ?r by (cases mid) auto
  next
    assume ?r
    then show ?l
    proof
      assume "x # s = suf"
      then show ?l by (intro exI [of _ "[]"]) simp
    next
      assume "x \<noteq> CHR 0x0A \<and> (\<exists>mid. s = mid @ suf \<and> CHR 0x0A \<notin> set mid)"
      then obtain mid where "x \<noteq> CHR 0x0A" "s = mid @ suf" "CHR 0x0A \<notin> set mid" by blast
      then show ?l by (intro exI [of _ "x # mid"]) simp
    qed
  qed
  with Cons show ?case by (simp add: glob_match_word)
qed

lemma glob_match_pattern:
  assumes "CHR ''*'' \<notin> set pre" "CHR ''*'' \<notin> set suf"
  shows "glob_match (pre @ CHR ''*'' # suf) s \<longleftrightarrow> (\<exists>mid. s = pre @ mid @ suf \<and> CHR 0x0A \<notin> set mid)"
  using assms
proof (induction pre arbitrary: s)
  case (Cons c pre)
  then show ?case by (cases s) auto
qed (simp add: glob_match_star)

lemma to_string_star:
  assumes "\<forall>c \<in> set p. 0 \<le> c \<and> c < 128"
  shows "CHR ''*'' \<in> set (to_string p) \<longleftrightarrow> 42 \<in> set p"
proof -
  have "CHR ''*'' = char_of (nat c) \<longleftrightarrow> c = 42" if "c \<in> set p" for c
  proof
    assume "CHR ''*'' = char_of (nat c)"
    then have "of_char (CHR ''*'') = (of_char (char_of (nat c)) :: nat)" by simp
    with assms that show "c = 42" by (auto simp: of_char_mod_256)
  next
    have "CHR ''*'' = char_of (nat 42)" by code_simp
    moreover assume "c = 42"
    ultimately show "CHR ''*'' = char_of (nat c)" by simp
  qed
  then show ?thesis by (force simp: to_string_def)
qed

lemma parse_pattern_form:
  assumes "parse_pattern s = Inr (Some p)"
  shows "\<forall>c \<in> set p. 0 \<le> c \<and> c < 128"
    and "42 \<in> set p \<Longrightarrow> \<exists>pre suf. p = pre @ [42] @ suf \<and> 42 \<notin> set pre \<and> 42 \<notin> set suf \<and> length pre + length suf \<ge> 2"
proof -
  define q where "q = ascii_lower (join [95] (filter (\<lambda>w. w \<noteq> []) (split_on 95 (filter pattern_char s))))"
  have p: "p = (if 42 \<notin> set q then q else takeWhile (\<lambda>c. c \<noteq> 42) q @ [42] @ filter (\<lambda>c. c \<noteq> 42) (tl (dropWhile (\<lambda>c. c \<noteq> 42) q)))"
    and long: "42 \<in> set q \<Longrightarrow> length (takeWhile (\<lambda>c. c \<noteq> 42) q) + length (filter (\<lambda>c. c \<noteq> 42) (tl (dropWhile (\<lambda>c. c \<noteq> 42) q))) \<ge> 2"
    using assms unfolding parse_pattern_def q_def by (simp_all add: Let_def split: if_splits)
  have chars: "\<forall>c \<in> set q. 0 \<le> c \<and> c < 128"
  proof
    fix c assume "c \<in> set q"
    then obtain d where d: "c = lower_char d" "d \<in> set (join [95] (filter (\<lambda>w. w \<noteq> []) (split_on 95 (filter pattern_char s))))"
      by (auto simp: q_def ascii_lower_def)
    from d(2) set_join have "d = 95 \<or> (\<exists>w \<in> set (split_on 95 (filter pattern_char s)). d \<in> set w)" by fastforce
    then have "d = 95 \<or> pattern_char d"
      using split_on_no_sep [of _ 95 "filter pattern_char s"] by auto
    then show "0 \<le> c \<and> c < 128" by (auto simp: d(1) pattern_char_def char_defs)
  qed
  have parts: "set (takeWhile (\<lambda>c. c \<noteq> 42) q) \<subseteq> set q" "set (tl (dropWhile (\<lambda>c. c \<noteq> 42) q)) \<subseteq> set q"
  proof -
    have tail: "set (tl xs) \<subseteq> set xs" for xs :: ustr by (cases xs) auto
    show "set (takeWhile (\<lambda>c. c \<noteq> 42) q) \<subseteq> set q" by (auto dest: set_takeWhileD)
    show "set (tl (dropWhile (\<lambda>c. c \<noteq> 42) q)) \<subseteq> set q" using tail by (blast dest: set_dropWhileD)
  qed
  show "\<forall>c \<in> set p. 0 \<le> c \<and> c < 128" unfolding p using chars parts by auto
  show "\<exists>pre suf. p = pre @ [42] @ suf \<and> 42 \<notin> set pre \<and> 42 \<notin> set suf \<and> length pre + length suf \<ge> 2" if "42 \<in> set p"
  proof (intro exI conjI)
    have star: "42 \<in> set q" using that p by (simp split: if_splits)
    then show "p = takeWhile (\<lambda>c. c \<noteq> 42) q @ [42] @ filter (\<lambda>c. c \<noteq> 42) (tl (dropWhile (\<lambda>c. c \<noteq> 42) q))"
      "length (takeWhile (\<lambda>c. c \<noteq> 42) q) + length (filter (\<lambda>c. c \<noteq> 42) (tl (dropWhile (\<lambda>c. c \<noteq> 42) q))) \<ge> 2"
      using p long by simp_all
    show "42 \<notin> set (takeWhile (\<lambda>c. c \<noteq> 42) q)" by (auto dest: set_takeWhileD)
  qed simp
qed

text \<open>
  A restricted tag is a word, which restricts this tag only, or a prefix and a suffix of at least two characters in
  all, and then it restricts exactly the tags that start with the one and end with the other without overlap.
\<close>

theorem restricted_pattern_matches:
  assumes "parse_pattern s = Inr (Some p)" and "CHR 0x0A \<notin> set tag"
  shows "if 42 \<in> set p
    then length p \<ge> 3 \<and> (restricted_tag_matcher [to_string p] tag \<longleftrightarrow>
           (\<exists>mid. tag = to_string (takeWhile (\<lambda>c. c \<noteq> 42) p) @ mid @ to_string (tl (dropWhile (\<lambda>c. c \<noteq> 42) p))))
    else restricted_tag_matcher [to_string p] tag \<longleftrightarrow> tag = to_string p"
proof (cases "42 \<in> set p")
  case True
  from parse_pattern_form(2) [OF assms(1) this] obtain pre suf where p: "p = pre @ [42] @ suf" "42 \<notin> set pre" "42 \<notin> set suf"
    "length pre + length suf \<ge> 2" by blast
  have pre: "takeWhile (\<lambda>c. c \<noteq> 42) p = pre" and suf: "tl (dropWhile (\<lambda>c. c \<noteq> 42) p) = suf"
    using p(2) by (auto simp: p(1) takeWhile_append dropWhile_append)
  have star: "to_string [42] = ''*''" by code_simp
  have "to_string p = to_string pre @ CHR ''*'' # to_string suf"
    using star by (simp add: p(1) to_string_def)
  moreover have "CHR ''*'' \<notin> set (to_string pre)" "CHR ''*'' \<notin> set (to_string suf)"
    using to_string_star [of pre] to_string_star [of suf] parse_pattern_form(1) [OF assms(1)] p by auto
  ultimately have "restricted_tag_matcher [to_string p] tag \<longleftrightarrow> (\<exists>mid. tag = to_string pre @ mid @ to_string suf)"
    using assms(2) by (auto simp: restricted_tag_matcher_def glob_match_pattern)
  with True p(4) show ?thesis by (simp add: pre suf) (simp add: p(1))
next
  case False
  with to_string_star [OF parse_pattern_form(1) [OF assms(1)]] show ?thesis
    by (simp add: restricted_tag_matcher_def glob_match_word)
qed

theorem restricted_pattern_matches_witness:
  "parse_pattern (ustr ''Fox_*!'') = Inr (Some (ustr ''fox_*''))
     \<and> restricted_tag_matcher [to_string (ustr ''fox_*'')] ''fox_tail'' \<and> \<not> restricted_tag_matcher [to_string (ustr ''fox_*'')] ''foxes''"
proof -
  have pattern: "parse_pattern (ustr ''Fox_*!'') = Inr (Some (ustr ''fox_*''))" by code_simp
  have parts: "42 \<in> set (ustr ''fox_*'')" "to_string (takeWhile (\<lambda>c. c \<noteq> 42) (ustr ''fox_*'')) = ''fox_''"
    "to_string (tl (dropWhile (\<lambda>c. c \<noteq> 42) (ustr ''fox_*''))) = []" by code_simp+
  have "restricted_tag_matcher [to_string (ustr ''fox_*'')] ''fox_tail''"
    using restricted_pattern_matches [OF pattern, of "''fox_tail''"] unfolding if_P [OF parts(1)] parts(2,3) by auto
  moreover have "\<not> restricted_tag_matcher [to_string (ustr ''fox_*'')] ''foxes''"
    using restricted_pattern_matches [OF pattern, of "''foxes''"] unfolding if_P [OF parts(1)] parts(2,3) by auto
  ultimately show ?thesis using pattern by blast
qed

end
