(* ===== verification/Posts.thy ===== *)
theory Posts
  imports Tags Comments Favorites Collections Pagination
begin

text \<open>
  What journals, characters and submissions share: the guards in front of a page, who a list shows a post to, and
  the notes staff leave about a change to somebody's post (\<open>note_about\<close> of \<^verbatim>\<open>weasyl/moderation.py\<close>,
  \<open>markdown_link\<close> of \<^verbatim>\<open>libweasyl/text.py\<close>). \<open>sfw_mode\<close> is the cookie of that name.
\<close>

subsection \<open>Staff notes\<close>

definition newline :: char where
  "newline = CHR 0x0A"

text \<open>\<open>title.replace('[', '\\[').replace(']', '\\]')\<close>.\<close>

definition escape_brackets :: "string \<Rightarrow> string" where
  "escape_brackets title = concat (map (\<lambda>c. if c = CHR ''['' \<or> c = CHR '']'' then [CHR 0x5C, c] else [c]) title)"

definition markdown_link :: "string \<Rightarrow> string \<Rightarrow> string" where
  "markdown_link title url = ''['' @ escape_brackets title @ '']('' @ url @ '')''"

definition note_text :: "string \<Rightarrow> string \<Rightarrow> string" where
  "note_text title message =
     (let staff_note = ''## '' @ title in if message = [] then staff_note else staff_note @ [newline, newline] @ message)"

definition note_about :: "int \<Rightarrow> int \<Rightarrow> int \<Rightarrow> string \<Rightarrow> string \<Rightarrow> 'a content_db_scheme \<Rightarrow> 'a content_db_scheme" where
  "note_about now userid target_user title message db =
     snd (add_comments_row now userid (Some target_user) None 0 (note_text title message) ''s'' db)"

subsection \<open>The guards of a page\<close>

text \<open>
  The chain of conditions of \<open>_select_journal_and_check\<close> and \<open>_select_character_and_check\<close>; \<open>missing\<close> is the
  error for a post that is not there, \<open>blocked\<close> the result of \<open>blocktag.check\<close>.
\<close>

definition check_view ::
  "staff_sets \<Rightarrow> bool \<Rightarrow> int \<Rightarrow> int \<Rightarrow> bool \<Rightarrow> bool \<Rightarrow> string \<Rightarrow> int \<Rightarrow> int \<Rightarrow> bool \<Rightarrow> bool \<Rightarrow> bool
     \<Rightarrow> 'a social_db_scheme \<Rightarrow> unit result" where
  "check_view st sfw_mode userid rating ignore anyway missing ownerid rated hidden friends_only blocked db =
     (if userid \<in> MODS st \<and> anyway then Inr ()
      else if hidden then Inl (WeasylError missing)
      else if rated > rating \<and> (userid \<noteq> ownerid \<and> userid \<notin> MODS st \<or> sfw_mode) then Inl (WeasylError ''RatingExceeded'')
      else if friends_only \<and> \<not> frienduser_check userid ownerid db then Inl (WeasylError ''FriendsOnly'')
      else if ignore \<and> ignoreuser_check userid ownerid db then Inl (WeasylError ''UserIgnored'')
      else if ignore \<and> blocked then Inl (WeasylError ''TagBlocked'')
      else Inr ())"

text \<open>The conditions on the rating in the lists, with the own posts outside SFW mode.\<close>

definition rating_shown :: "bool \<Rightarrow> int \<Rightarrow> int \<Rightarrow> int \<Rightarrow> int \<Rightarrow> bool" where
  "rating_shown sfw_mode userid rating ownerid rated =
     (if sfw_mode then rated \<le> rating else ownerid = userid \<or> rated \<le> rating)"

text \<open>The rating a form asks for, checked against the age; only the owner's age counts in an edit.\<close>

definition allow_own_rating :: "date \<Rightarrow> int \<Rightarrow> int \<Rightarrow> rating \<Rightarrow> 'a accounts_db_scheme \<Rightarrow> unit result \<times> 'a accounts_db_scheme" where
  "allow_own_rating today userid ownerid rating db =
     (if userid = ownerid then allow_rating today userid rating db else (Inr (), db))"

end
