(* ===== verification/Journals.thy ===== *)
theory Journals
  imports Posts
begin

text \<open>
  Journals: \<^verbatim>\<open>weasyl/journal.py\<close>. \<open>now\<close> is the time and \<open>today\<close> the day of the call. The media of the owner,
  the report count that moderators see, links and rendered texts are left out of the results.
\<close>

record journal_form =
  jf_journalid :: int
  jf_title :: string
  jf_content :: string
  jf_rating :: "rating option"
  jf_ip_address :: "string option"
  jf_user_agent_id :: "int option"

definition journal_form_check :: "journal_form \<Rightarrow> rating result" where
  "journal_form_check form =
     (if jf_title form = [] then Inl (WeasylError ''titleInvalid'')
      else if jf_content form = [] then Inl (WeasylError ''contentInvalid'')
      else (case jf_rating form of None \<Rightarrow> Inl (WeasylError ''ratingInvalid'') | Some rating \<Rightarrow> Inr rating))"

definition add_journal :: "int \<Rightarrow> int \<Rightarrow> journal_form \<Rightarrow> rating \<Rightarrow> bool \<Rightarrow> 'a content_db_scheme \<Rightarrow> 'a content_db_scheme" where
  "add_journal now userid form rating friends_only db =
     db\<lparr>t_journal := t_journal db @
          [\<lparr>jo_journalid = journal_seq db, jo_userid = userid, jo_title = jf_title form, jo_content = jf_content form,
            jo_rating = rating_code rating, jo_unixtime = now, jo_hidden = False, jo_friends_only = friends_only,
            jo_page_views = 0, jo_submitter_ip_address = jf_ip_address form,
            jo_submitter_user_agent_id = jf_user_agent_id form\<rparr>],
        journal_seq := journal_seq db + 1\<rparr>"

definition journal_create ::
  "staff_sets \<Rightarrow> int \<Rightarrow> date \<Rightarrow> int \<Rightarrow> journal_form \<Rightarrow> bool \<Rightarrow> string list \<Rightarrow> 'a tags_db_scheme
     \<Rightarrow> int result \<times> 'a tags_db_scheme" where
  "journal_create st now today userid form friends_only tags db =
     (case journal_form_check form of
        Inl e \<Rightarrow> (Inl e, db)
      | Inr rating \<Rightarrow>
          and_then (allow_rating today userid rating db) (\<lambda>_ db.
            let journalid = journal_seq db in
            and_then (associate st now userid (JournalTarget journalid) tags (add_journal now userid form rating friends_only db))
              (\<lambda>_ db. (Inr journalid, posts_count_invalidate userid
                 (welcome_journal_insert now userid journalid (rating_code rating) friends_only db)))))"

text \<open>The journal with the name of its owner; \<open>JOIN profile\<close>.\<close>

definition journal_row_of :: "int \<Rightarrow> 'a content_db_scheme \<Rightarrow> (journal_row \<times> string) option" where
  "journal_row_of journalid db =
     Option.bind (find (\<lambda>jo. jo_journalid jo = journalid) (t_journal db))
       (\<lambda>jo. map_option (\<lambda>name. (jo, name)) (username_of (jo_userid jo) db))"

definition select_journal_and_check ::
  "staff_sets \<Rightarrow> int \<Rightarrow> string \<Rightarrow> bool \<Rightarrow> int \<Rightarrow> int \<Rightarrow> int \<Rightarrow> bool \<Rightarrow> bool \<Rightarrow> bool \<Rightarrow> 'a tags_db_scheme
     \<Rightarrow> (journal_row \<times> string) result \<times> 'a tags_db_scheme" where
  "select_journal_and_check st now address sfw_mode userid journalid rating ignore anyway increment_views db =
     (case journal_row_of journalid db of
        None \<Rightarrow> (Inl (WeasylError ''journalRecordMissing''), db)
      | Some (jo, username) \<Rightarrow>
          (case check_view st sfw_mode userid rating ignore anyway ''journalRecordMissing'' (jo_userid jo) (jo_rating jo)
                  (jo_hidden jo) (jo_friends_only jo) (blocktag_check userid 0 0 journalid db) db of
             Inl e \<Rightarrow> (Inl e, db)
           | Inr _ \<Rightarrow>
               if increment_views then
                 (case common_view_content now address userid journalid V_journals db of
                    (None, db) \<Rightarrow> (Inr (jo, username), db)
                  | (Some new_views, db) \<Rightarrow> (Inr (jo\<lparr>jo_page_views := new_views\<rparr>, username), db))
               else (Inr (jo, username), db)))"

record journal_view =
  jv_journal :: journal_row
  jv_username :: string
  jv_mine :: bool
  jv_favorited :: bool
  jv_fave_count :: int
  jv_tags :: grouped_tags
  jv_comments :: "thread_comment list option"

definition journal_select_view ::
  "staff_sets \<Rightarrow> int \<Rightarrow> string \<Rightarrow> bool \<Rightarrow> int \<Rightarrow> int \<Rightarrow> int \<Rightarrow> bool \<Rightarrow> bool \<Rightarrow> 'a tags_db_scheme
     \<Rightarrow> journal_view result \<times> 'a tags_db_scheme" where
  "journal_select_view st now address sfw_mode userid journalid rating ignore anyway db =
     and_then (select_journal_and_check st now address sfw_mode userid journalid rating ignore anyway False db)
       (\<lambda>(jo, username) db.
          case (favorite_count journalid ''journal'' db, comment_select st userid 0 0 journalid 0 db) of
            (Inr faves, Inr comments) \<Rightarrow>
              (Inr \<lparr>jv_journal = jo, jv_username = username, jv_mine = (userid = jo_userid jo),
                    jv_favorited = favorite_check userid 0 0 journalid db, jv_fave_count = faves,
                    jv_tags = select_grouped userid (JournalTarget journalid) db, jv_comments = comments\<rparr>, db)
          | (Inl e, _) \<Rightarrow> (Inl e, db)
          | (_, Inl e) \<Rightarrow> (Inl e, db))"

record journal_api =
  ja_journal :: journal_row
  ja_username :: string
  ja_tags :: "string list"
  ja_rating :: "string option"
  ja_favorites :: int
  ja_comments :: int
  ja_favorited :: bool

definition journal_select_view_api ::
  "staff_sets \<Rightarrow> int \<Rightarrow> string \<Rightarrow> bool \<Rightarrow> int \<Rightarrow> int \<Rightarrow> bool \<Rightarrow> bool \<Rightarrow> 'a tags_db_scheme
     \<Rightarrow> journal_api result \<times> 'a tags_db_scheme" where
  "journal_select_view_api st now address sfw_mode userid journalid anyway increment_views db =
     and_then (get_rating sfw_mode userid db) (\<lambda>rating db.
       and_then (select_journal_and_check st now address sfw_mode userid journalid rating (\<not> anyway) False increment_views db)
         (\<lambda>(jo, username) db.
            case (favorite_count journalid ''journal'' db, comment_count journalid ''journal'' db) of
              (Inr faves, Inr comments) \<Rightarrow>
                (Inr \<lparr>ja_journal = jo, ja_username = username, ja_tags = select_tags 0 0 journalid db,
                      ja_rating = CODE_TO_NAME (jo_rating jo), ja_favorites = faves, ja_comments = comments,
                      ja_favorited = favorite_check userid 0 0 journalid db\<rparr>, db)
            | (Inl e, _) \<Rightarrow> (Inl e, db)
            | (_, Inl e) \<Rightarrow> (Inl e, db)))"

subsection \<open>Lists\<close>

definition journal_browsable :: "bool \<Rightarrow> int \<Rightarrow> int \<Rightarrow> journal_row \<Rightarrow> 'a tags_db_scheme \<Rightarrow> bool" where
  "journal_browsable sfw_mode userid rating jo db =
     (\<not> jo_hidden jo
      \<and> (if userid \<noteq> 0 then
           rating_shown sfw_mode userid rating (jo_userid jo) (jo_rating jo)
           \<and> macro_frienduser userid (jo_friends_only jo) (jo_userid jo) db
           \<and> not_ignored userid (jo_userid jo) db \<and> macro_blocktag_journal userid jo db
         else jo_rating jo \<le> rating \<and> \<not> jo_friends_only jo))"

definition browsable_journals :: "bool \<Rightarrow> int \<Rightarrow> int \<Rightarrow> 'a tags_db_scheme \<Rightarrow> (journal_row \<times> string) list" where
  "browsable_journals sfw_mode userid rating db =
     List.map_filter (\<lambda>jo. if journal_browsable sfw_mode userid rating jo db
                           then map_option (\<lambda>name. (jo, name)) (username_of (jo_userid jo) db) else None) (t_journal db)"

definition journal_select_browse_page ::
  "bool \<Rightarrow> int \<Rightarrow> int \<Rightarrow> nat \<Rightarrow> page_filter \<Rightarrow> 'a tags_db_scheme
     \<Rightarrow> (journal_row \<times> string) list \<times> page_filter option \<times> page_filter option" where
  "journal_select_browse_page sfw_mode userid rating limit page db =
     browse (\<lambda>(jo, _). jo_journalid jo) limit page (browsable_journals sfw_mode userid rating db)"

text \<open>The journals of one user on the own page, newest first.\<close>

definition journals_of :: "bool \<Rightarrow> int \<Rightarrow> int \<Rightarrow> int \<Rightarrow> 'a tags_db_scheme \<Rightarrow> journal_row list" where
  "journals_of sfw_mode userid rating otherid db =
     newest_first jo_journalid (filter (\<lambda>jo.
        (if userid \<noteq> 0 then rating_shown sfw_mode userid rating (jo_userid jo) (jo_rating jo) \<and> macro_blocktag_journal userid jo db
         else jo_rating jo \<le> rating)
        \<and> jo_userid jo = otherid \<and> \<not> jo_hidden jo
        \<and> (frienduser_check userid otherid db \<or> \<not> jo_friends_only jo)) (t_journal db))"

definition journal_select_list :: "bool \<Rightarrow> int \<Rightarrow> int \<Rightarrow> int \<Rightarrow> 'a tags_db_scheme \<Rightarrow> journal_row list" where
  "journal_select_list sfw_mode userid rating otherid db = journals_of sfw_mode userid rating otherid db"

definition journal_select_latest :: "bool \<Rightarrow> int \<Rightarrow> int \<Rightarrow> int \<Rightarrow> 'a tags_db_scheme \<Rightarrow> (journal_row \<times> int) option" where
  "journal_select_latest sfw_mode userid rating otherid db =
     (case journals_of sfw_mode userid rating otherid db of
        [] \<Rightarrow> None
      | jo # _ \<Rightarrow> Some (jo, count_where (\<lambda>jc. jc_targetid jc = jo_journalid jo \<and> \<not> has_flag (CHR ''h'') (jc_settings jc))
                             (t_journalcomment db)))"

subsection \<open>Changing and removing\<close>

definition change_journal :: "journal_form \<Rightarrow> rating \<Rightarrow> bool \<Rightarrow> 'a content_db_scheme \<Rightarrow> 'a content_db_scheme" where
  "change_journal form rating friends_only db =
     db\<lparr>t_journal := update_where (\<lambda>jo. jo_journalid jo = jf_journalid form)
          (\<lambda>jo. jo\<lparr>jo_title := jf_title form, jo_content := jf_content form, jo_rating := rating_code rating,
                   jo_friends_only := friends_only\<rparr>) (t_journal db)\<rparr>"

definition journal_edit ::
  "staff_sets \<Rightarrow> int \<Rightarrow> date \<Rightarrow> int \<Rightarrow> journal_form \<Rightarrow> bool \<Rightarrow> 'a content_db_scheme \<Rightarrow> unit result \<times> 'a content_db_scheme" where
  "journal_edit st now today userid form friends_only db =
     (case journal_form_check form of
        Inl e \<Rightarrow> (Inl e, db)
      | Inr rating \<Rightarrow>
          (case find (\<lambda>jo. jo_journalid jo = jf_journalid form) (t_journal db) of
             None \<Rightarrow> (Inl (WeasylError ''Unexpected''), db)
           | Some jo \<Rightarrow>
               if jo_hidden jo then (Inl (WeasylError ''Unexpected''), db)
               else if userid \<noteq> jo_userid jo \<and> userid \<notin> MODS st then (Inl (WeasylError ''InsufficientPermissions''), db)
               else
                 and_then (allow_own_rating today userid (jo_userid jo) rating db) (\<lambda>_ db.
                   let db = (if friends_only then welcome_journal_remove (jf_journalid form) db else db);
                       db = change_journal form rating friends_only db;
                       db = (if userid \<noteq> jo_userid jo then
                               note_about now userid (jo_userid jo) ''The following journal was edited:''
                                 (''- '' @ markdown_link (jf_title form) (''/journal/'' @ show_int (jf_journalid form) @ ''?anyway=true'')) db
                             else db)
                   in (Inr (), posts_count_invalidate (jo_userid jo) db))))"

text \<open>A journal that does not exist has no owner, and a moderator gets \<open>None\<close>.\<close>

definition journal_remove :: "staff_sets \<Rightarrow> int \<Rightarrow> int \<Rightarrow> 'a content_db_scheme \<Rightarrow> int option result \<times> 'a content_db_scheme" where
  "journal_remove st userid journalid db =
     (let ownerid = get_ownerid 0 0 journalid db
      in if userid \<notin> MODS st \<and> Some userid \<noteq> ownerid then (Inl (WeasylError ''InsufficientPermissions''), db)
         else
           (let hit = (\<lambda>jo. jo_journalid jo = journalid \<and> \<not> jo_hidden jo);
                rowcount = count_where hit (t_journal db);
                db = db\<lparr>t_journal := update_where hit (\<lambda>jo. jo\<lparr>jo_hidden := True\<rparr>) (t_journal db)\<rparr>
            in if rowcount \<noteq> 0 then
                 (let db = welcome_journal_remove journalid db
                  in (Inr ownerid, case ownerid of None \<Rightarrow> db | Some owner \<Rightarrow> posts_count_invalidate owner db))
               else (Inr ownerid, db)))"

end
