(* ===== verification/Media.thy ===== *)
theory Media
  imports Define
begin

text \<open>
  Files and media: \<^verbatim>\<open>libweasyl/models/media.py\<close>, \<^verbatim>\<open>libweasyl/media.py\<close>, \<^verbatim>\<open>libweasyl/files.py\<close>, the
  functions of \<^verbatim>\<open>weasyl/files.py\<close> that look at contents, and \<^verbatim>\<open>weasyl/avatar.py\<close>, \<^verbatim>\<open>weasyl/banner.py\<close>,
  \<^verbatim>\<open>weasyl/thumbnail.py\<close>. A file is a list of bytes. The image worker, SHA-256, UTF-8 and the files on disk are
  the record \<open>image_env\<close>; urls and the attributes of a media item are left out.
\<close>

subsection \<open>The image worker\<close>

record image_result =
  ir_original_type :: string
  ir_output_type :: string
  ir_output :: "int list"

text \<open>\<open>ProcessingError\<close> stands for every exception but \<open>UnsupportedFormat\<close>.\<close>

datatype image_outcome = UnsupportedFormat | ProcessingError | Processed image_result

type_synonym crop = "int \<times> int \<times> int \<times> int"

record image_env =
  sha256_hex :: "int list \<Rightarrow> string"
  utf8_valid :: "int list \<Rightarrow> bool"
  stored_file :: "int \<Rightarrow> int list"
  create_cover :: "int list \<Rightarrow> image_outcome"
  create_thumbnail :: "int list \<Rightarrow> image_outcome"
  create_thumbnail_crop :: "int list \<Rightarrow> crop \<Rightarrow> image_outcome"
  create_avatar_source :: "int list \<Rightarrow> image_outcome"
  create_avatar :: "int list \<Rightarrow> crop \<Rightarrow> image_outcome"
  create_banner :: "int list \<Rightarrow> image_outcome"

text \<open>The two \<open>except\<close> clauses around a call of the worker.\<close>

definition image_or_error :: "string \<Rightarrow> string \<Rightarrow> image_outcome \<Rightarrow> image_result result" where
  "image_or_error unsupported failed outcome =
     (case outcome of
        UnsupportedFormat \<Rightarrow> Inl (WeasylError unsupported)
      | ProcessingError \<Rightarrow> Inl (WeasylError failed)
      | Processed r \<Rightarrow> Inr r)"

text \<open>A call without them; any exception of the worker is represented by \<open>AssertionError\<close>.\<close>

definition image_or_raise :: "image_outcome \<Rightarrow> image_result result" where
  "image_or_raise outcome = (case outcome of Processed r \<Rightarrow> Inr r | _ \<Rightarrow> Inl AssertionError)"

subsection \<open>Kinds of files\<close>

definition MEGABYTE :: int where
  "MEGABYTE = 1048576"

fun fanout_from :: "string \<Rightarrow> nat list \<Rightarrow> string list" where
  "fanout_from name [] = []"
| "fanout_from name (l # ls) = take l name # fanout_from (drop l name) ls"

definition fanout :: "string \<Rightarrow> nat list \<Rightarrow> string list" where
  "fanout name ls = fanout_from name ls"

definition starts_with :: "int list \<Rightarrow> int list \<Rightarrow> bool" where
  "starts_with data prefix = (take (length prefix) data = prefix)"

definition ART_SUBMISSION_CATEGORY :: int where
  "ART_SUBMISSION_CATEGORY = 1000"

definition TEXT_SUBMISSION_CATEGORY :: int where
  "TEXT_SUBMISSION_CATEGORY = 2000"

definition MULTIMEDIA_SUBMISSION_CATEGORY :: int where
  "MULTIMEDIA_SUBMISSION_CATEGORY = 3000"

definition ALL_SUBMISSION_CATEGORIES :: "int list" where
  "ALL_SUBMISSION_CATEGORIES = [ART_SUBMISSION_CATEGORY, TEXT_SUBMISSION_CATEGORY, MULTIMEDIA_SUBMISSION_CATEGORY]"

text \<open>
  The exceptions for an invalid or an unknown format both become a \<open>FileType\<close> error with the message as suffix;
  the suffix is left out. Other categories raise \<open>KeyError\<close>.
\<close>

definition file_type_for_category :: "image_env \<Rightarrow> int list \<Rightarrow> int \<Rightarrow> string result" where
  "file_type_for_category env data category =
     (if category = TEXT_SUBMISSION_CATEGORY then
        (if starts_with data [0x25, 0x50, 0x44, 0x46] then Inr ''pdf''
         else if starts_with data [0x7B, 0x5C, 0x72, 0x74, 0x66, 0x31] then Inl (WeasylError ''FileType'')
         else if starts_with data [0xD0, 0xCF, 0x11, 0xE0, 0xA1, 0xB1, 0x1A, 0xE1] then Inl (WeasylError ''FileType'')
         else if utf8_valid env data then Inr ''txt'' else Inl (WeasylError ''FileType''))
      else if category = MULTIMEDIA_SUBMISSION_CATEGORY then
        (if list_ex (starts_with data) [[0x43, 0x57, 0x53], [0x46, 0x57, 0x53], [0x5A, 0x57, 0x53]] then Inr ''swf''
         else if list_ex (starts_with data) [[0x49, 0x44, 0x33], [0xFF, 0xFB]] then Inr ''mp3''
         else Inl (WeasylError ''FileType''))
      else Inl KeyError)"

definition get_extension_for_category :: "image_env \<Rightarrow> int list \<Rightarrow> int \<Rightarrow> string result" where
  "get_extension_for_category env data category =
     map_sum id (\<lambda>fmt. CHR ''.'' # fmt) (file_type_for_category env data category)"

definition FILE_TYPE_FLAGS :: "(string \<times> char) list" where
  "FILE_TYPE_FLAGS = [(''jpg'', CHR ''J''), (''png'', CHR ''P''), (''gif'', CHR ''G''), (''webp'', CHR ''W'')]"

definition feature_typeflags :: "(string \<times> char) list" where
  "feature_typeflags = [(''submit'', CHR ''=''), (''cover'', CHR ''~'')]"

definition typeflag :: "string \<Rightarrow> string \<Rightarrow> string result" where
  "typeflag feature file_type =
     (case (map_of feature_typeflags feature, map_of FILE_TYPE_FLAGS file_type) of
        (Some symbol, Some letter) \<Rightarrow> Inr [symbol, letter]
      | _ \<Rightarrow> Inl KeyError)"

subsection \<open>Media items and their links\<close>

record media_row =
  mi_mediaid :: int
  mi_file_type :: string
  mi_sha256 :: "string option"

record media_link_row =
  ml_linkid :: int
  ml_mediaid :: int
  ml_identity :: int
  ml_link_type :: string

record google_doc_row =
  ge_submitid :: int
  ge_embed_url :: string

type_synonym buckets = "(string \<times> media_row list) list"

record media_db = tags_db +
  t_media :: "media_row list"
  t_submission_media_links :: "media_link_row list"
  t_user_media_links :: "media_link_row list"
  t_google_doc_embeds :: "google_doc_row list"
  media_seq :: int
  submission_link_seq :: int
  user_link_seq :: int
  c_submission_media :: "int \<Rightarrow> buckets option"
  c_user_media :: "int \<Rightarrow> buckets option"

datatype link_kind = SubmissionMediaLink | UserMediaLink

fun media_links :: "link_kind \<Rightarrow> 'a media_db_scheme \<Rightarrow> media_link_row list" where
  "media_links SubmissionMediaLink db = t_submission_media_links db"
| "media_links UserMediaLink db = t_user_media_links db"

fun put_media_links :: "link_kind \<Rightarrow> media_link_row list \<Rightarrow> 'a media_db_scheme \<Rightarrow> 'a media_db_scheme" where
  "put_media_links SubmissionMediaLink rows db = db\<lparr>t_submission_media_links := rows\<rparr>"
| "put_media_links UserMediaLink rows db = db\<lparr>t_user_media_links := rows\<rparr>"

fun take_linkid :: "link_kind \<Rightarrow> 'a media_db_scheme \<Rightarrow> int \<times> 'a media_db_scheme" where
  "take_linkid SubmissionMediaLink db = (submission_link_seq db, db\<lparr>submission_link_seq := submission_link_seq db + 1\<rparr>)"
| "take_linkid UserMediaLink db = (user_link_seq db, db\<lparr>user_link_seq := user_link_seq db + 1\<rparr>)"

definition fetch_or_create :: "string \<Rightarrow> string \<Rightarrow> 'a media_db_scheme \<Rightarrow> media_row \<times> 'a media_db_scheme" where
  "fetch_or_create sha256 file_type db =
     (case find (\<lambda>mi. mi_sha256 mi = Some sha256) (t_media db) of
        Some mi \<Rightarrow> (mi, db)
      | None \<Rightarrow>
          (let mi = \<lparr>mi_mediaid = media_seq db, mi_file_type = file_type, mi_sha256 = Some sha256\<rparr>
           in (mi, db\<lparr>t_media := t_media db @ [mi], media_seq := media_seq db + 1\<rparr>)))"

definition ensure_output_media :: "image_env \<Rightarrow> image_result \<Rightarrow> 'a media_db_scheme \<Rightarrow> media_row \<times> 'a media_db_scheme" where
  "ensure_output_media env r db = fetch_or_create (sha256_hex env (ir_output r)) (ir_output_type r) db"

text \<open>The links of one submission or user, by type in the order of the links.\<close>

definition add_to_bucket :: "string \<Rightarrow> media_row \<Rightarrow> buckets \<Rightarrow> buckets" where
  "add_to_bucket link_type mi b =
     AList.update link_type ((case map_of b link_type of None \<Rightarrow> [] | Some ms \<Rightarrow> ms) @ [mi]) b"

definition bucket_links :: "link_kind \<Rightarrow> int \<Rightarrow> 'a media_db_scheme \<Rightarrow> buckets" where
  "bucket_links kind identity db =
     fold (\<lambda>ml b. case find (\<lambda>mi. mi_mediaid mi = ml_mediaid ml) (t_media db) of
             None \<Rightarrow> b | Some mi \<Rightarrow> add_to_bucket (ml_link_type ml) mi b)
       (filter (\<lambda>ml. ml_identity ml = identity) (media_links kind db)) []"

fun peek_media :: "link_kind \<Rightarrow> int \<Rightarrow> 'a media_db_scheme \<Rightarrow> buckets option" where
  "peek_media SubmissionMediaLink identity db = c_submission_media db identity"
| "peek_media UserMediaLink identity db = c_user_media db identity"

fun store_media :: "link_kind \<Rightarrow> int \<Rightarrow> buckets option \<Rightarrow> 'a media_db_scheme \<Rightarrow> 'a media_db_scheme" where
  "store_media SubmissionMediaLink identity v db = db\<lparr>c_submission_media := (c_submission_media db)(identity := v)\<rparr>"
| "store_media UserMediaLink identity v db = db\<lparr>c_user_media := (c_user_media db)(identity := v)\<rparr>"

definition refresh_cache :: "link_kind \<Rightarrow> int \<Rightarrow> 'a media_db_scheme \<Rightarrow> 'a media_db_scheme" where
  "refresh_cache kind identity db = store_media kind identity (Some (bucket_links kind identity db)) db"

definition clear_link :: "link_kind \<Rightarrow> int \<Rightarrow> string \<Rightarrow> 'a media_db_scheme \<Rightarrow> 'a media_db_scheme" where
  "clear_link kind identity link_type db =
     refresh_cache kind identity
       (put_media_links kind (delete_where (\<lambda>ml. ml_link_type ml = link_type \<and> ml_identity ml = identity) (media_links kind db)) db)"

definition make_or_replace_link :: "link_kind \<Rightarrow> int \<Rightarrow> string \<Rightarrow> media_row \<Rightarrow> 'a media_db_scheme \<Rightarrow> 'a media_db_scheme" where
  "make_or_replace_link kind identity link_type media_item db =
     (let rows = media_links kind db;
          db = (case find (\<lambda>ml. ml_link_type ml = link_type \<and> ml_identity ml = identity) rows of
                  Some obj \<Rightarrow> put_media_links kind (update_where (\<lambda>ml. ml_linkid ml = ml_linkid obj)
                     (\<lambda>ml. ml\<lparr>ml_mediaid := mi_mediaid media_item\<rparr>) rows) db
                | None \<Rightarrow>
                    (let (linkid, db) = take_linkid kind db
                     in put_media_links kind (rows @ [\<lparr>ml_linkid = linkid, ml_mediaid = mi_mediaid media_item,
                          ml_identity = identity, ml_link_type = link_type\<rparr>]) db))
      in refresh_cache kind identity db)"

definition get_media :: "link_kind \<Rightarrow> int \<Rightarrow> 'a media_db_scheme \<Rightarrow> buckets \<times> 'a media_db_scheme" where
  "get_media kind identity db =
     read_through (\<lambda>_. True) (peek_media kind identity) (bucket_links kind identity) (store_media kind identity) db"

text \<open>The media of a page, with the default thumbnail or avatar (\<open>None\<close>) where there is none.\<close>

definition with_default :: "string \<Rightarrow> buckets \<Rightarrow> (string \<times> media_row list option) list" where
  "with_default link_type b =
     map (map_prod id Some) b @ (if map_of b link_type = None then [(link_type, None)] else [])"

definition get_submission_media :: "int \<Rightarrow> 'a media_db_scheme \<Rightarrow> (string \<times> media_row list option) list \<times> 'a media_db_scheme" where
  "get_submission_media submitid db =
     (let (b, db) = get_media SubmissionMediaLink submitid db in (with_default ''thumbnail-generated'' b, db))"

definition get_user_media :: "int \<Rightarrow> 'a media_db_scheme \<Rightarrow> (string \<times> media_row list option) list \<times> 'a media_db_scheme" where
  "get_user_media userid db =
     (let (b, db) = get_media UserMediaLink userid db in (with_default ''avatar'' b, db))"

text \<open>\<open>media_items.get(link_type)\<close>, when it is not empty, and of it the first.\<close>

definition first_media :: "string \<Rightarrow> (string \<times> media_row list option) list \<Rightarrow> media_row option" where
  "first_media link_type b = (case map_of b link_type of Some (Some (mi # _)) \<Rightarrow> Some mi | _ \<Rightarrow> None)"

subsection \<open>Avatars and banners\<close>

definition avatar_source :: "int \<Rightarrow> 'a media_db_scheme \<Rightarrow> media_row result \<times> 'a media_db_scheme" where
  "avatar_source userid db =
     (let (items, db) = get_user_media userid db
      in case first_media ''avatar-source'' items of
           None \<Rightarrow> (Inl (WeasylError ''noImageSource''), db)
         | Some mi \<Rightarrow> (Inr mi, db))"

definition avatar_upload :: "image_env \<Rightarrow> int \<Rightarrow> int list \<Rightarrow> 'a media_db_scheme \<Rightarrow> bool result \<times> 'a media_db_scheme" where
  "avatar_upload env userid filedata db =
     (if filedata \<noteq> [] then
        (case image_or_error ''FileType'' ''imageProcessingFailed'' (create_avatar_source env filedata) of
           Inl e \<Rightarrow> (Inl e, db)
         | Inr r \<Rightarrow>
             (let (mi, db) = ensure_output_media env r db
              in (Inr True, make_or_replace_link UserMediaLink userid ''avatar-source'' mi db)))
      else (Inr False, clear_link UserMediaLink userid ''avatar'' db))"

definition avatar_create :: "image_env \<Rightarrow> int \<Rightarrow> crop \<Rightarrow> 'a media_db_scheme \<Rightarrow> unit result \<times> 'a media_db_scheme" where
  "avatar_create env userid area db =
     and_then (avatar_source userid db) (\<lambda>source db.
       case image_or_raise (create_avatar env (stored_file env (mi_mediaid source)) area) of
         Inl e \<Rightarrow> (Inl e, db)
       | Inr r \<Rightarrow>
           (let (mi, db) = ensure_output_media env r db
            in (Inr (), clear_link UserMediaLink userid ''avatar-source''
                          (make_or_replace_link UserMediaLink userid ''avatar'' mi db))))"

definition banner_upload :: "image_env \<Rightarrow> int \<Rightarrow> int list \<Rightarrow> 'a media_db_scheme \<Rightarrow> unit result \<times> 'a media_db_scheme" where
  "banner_upload env userid filedata db =
     (if filedata = [] then (Inr (), clear_link UserMediaLink userid ''banner'' db)
      else
        (case image_or_error ''FileType'' ''imageProcessingFailed'' (create_banner env filedata) of
           Inl e \<Rightarrow> (Inl e, db)
         | Inr r \<Rightarrow>
             (let (mi, db) = ensure_output_media env r db
              in (Inr (), make_or_replace_link UserMediaLink userid ''banner'' mi db))))"

subsection \<open>Thumbnails\<close>

definition thumbnail_source :: "int \<Rightarrow> 'a media_db_scheme \<Rightarrow> media_row result \<times> 'a media_db_scheme" where
  "thumbnail_source submitid db =
     (let (items, db) = get_submission_media submitid db
      in case first_media ''thumbnail-source'' items of
           Some mi \<Rightarrow> (Inr mi, db)
         | None \<Rightarrow>
             (case first_media ''cover'' items of
                Some mi \<Rightarrow> (Inr mi, db)
              | None \<Rightarrow> (Inl (WeasylError ''noImageSource''), db)))"

text \<open>For a character only a file on disk is written.\<close>

definition thumbnail_upload :: "image_env \<Rightarrow> int list \<Rightarrow> int \<Rightarrow> int \<Rightarrow> 'a media_db_scheme \<Rightarrow> unit result \<times> 'a media_db_scheme" where
  "thumbnail_upload env filedata submitid charid db =
     (case image_or_error ''FileType'' ''imageProcessingFailed'' (create_cover env filedata) of
        Inl e \<Rightarrow> (Inl e, db)
      | Inr r \<Rightarrow>
          if charid \<noteq> 0 then (Inr (), db)
          else
            (let (mi, db) = ensure_output_media env r db
             in (Inr (), make_or_replace_link SubmissionMediaLink submitid ''thumbnail-source'' mi db)))"

text \<open>\<open>REGEXP_REPLACE(settings, '-.', '')\<close>: the first of them; a dot matches any character.\<close>

fun drop_thumb_flag :: "string \<Rightarrow> string" where
  "drop_thumb_flag (c # d # s) = (if c = CHR ''-'' then s else c # drop_thumb_flag (d # s))"
| "drop_thumb_flag s = s"

text \<open>
  \<open>data\<close> is the character's thumbnail selection file, or its cover; \<open>None\<close> when neither is there.
\<close>

definition thumbnail_create_character ::
  "image_env \<Rightarrow> crop \<Rightarrow> int \<Rightarrow> int list option \<Rightarrow> 'a content_db_scheme \<Rightarrow> unit result \<times> 'a content_db_scheme" where
  "thumbnail_create_character env area charid data db =
     (case data of
        None \<Rightarrow> (Inr (), db)
      | Some image_bytes \<Rightarrow>
          (case image_or_error ''imageProcessingFailed'' ''imageProcessingFailed'' (create_thumbnail_crop env image_bytes area) of
             Inl e \<Rightarrow> (Inl e, db)
           | Inr r \<Rightarrow>
               (case map_of FILE_TYPE_FLAGS (ir_output_type r) of
                  None \<Rightarrow> (Inl KeyError, db)
                | Some flag \<Rightarrow>
                    (Inr (), db\<lparr>t_character := update_where (\<lambda>ch. ch_charid ch = charid)
                       (\<lambda>ch. ch\<lparr>ch_settings := drop_thumb_flag (ch_settings ch) @ [CHR ''-'', flag]\<rparr>) (t_character db)\<rparr>))))"

definition thumbnail_create_submission ::
  "image_env \<Rightarrow> crop \<Rightarrow> int \<Rightarrow> 'a media_db_scheme \<Rightarrow> unit result \<times> 'a media_db_scheme" where
  "thumbnail_create_submission env area submitid db =
     and_then (thumbnail_source submitid db) (\<lambda>source db.
       case image_or_error ''imageProcessingFailed'' ''imageProcessingFailed''
              (create_thumbnail_crop env (stored_file env (mi_mediaid source)) area) of
         Inl e \<Rightarrow> (Inl e, db)
       | Inr r \<Rightarrow>
           (let (mi, db) = ensure_output_media env r db
            in (Inr (), make_or_replace_link SubmissionMediaLink submitid ''thumbnail-custom'' mi db)))"

section \<open>Facts\<close>

interpretation media: cached_query "\<lambda>_. True" "bucket_links kind" "peek_media kind" "store_media kind" for kind
proof
  fix v :: "buckets option" and k k' and s :: "'a media_db_scheme"
  show "peek_media kind k (store_media kind k' v s) = (if k = k' then v else peek_media kind k s)"
    by (cases kind) simp_all
  show "bucket_links kind k (store_media kind k' v s) = bucket_links kind k s"
    by (cases kind) (simp_all add: bucket_links_def)
qed

end
