(* ===== verification/Characters.thy ===== *)
theory Characters
  imports Posts Media
begin

text \<open>
  Characters: \<^verbatim>\<open>weasyl/character.py\<close>. The files on disk, media, links, rendered texts and the report count that
  moderators see are left out.
\<close>

subsection \<open>Uploads\<close>

definition MAIN_IMAGE_SIZE_LIMIT :: int where
  "MAIN_IMAGE_SIZE_LIMIT = 50 * MEGABYTE"

definition cover_settings :: "image_result \<Rightarrow> string result" where
  "cover_settings cover =
     (case (typeflag ''submit'' (ir_original_type cover), typeflag ''cover'' (ir_output_type cover)) of
        (Inl e, _) \<Rightarrow> Inl e
      | (_, Inl e) \<Rightarrow> Inl e
      | (Inr a, Inr b) \<Rightarrow> Inr (a @ b))"

text \<open>
  The checks of the files of a new character, in their order; the result is the cover, and the source of the
  thumbnail if there is one.
\<close>

definition character_files :: "image_env \<Rightarrow> int list \<Rightarrow> int list \<Rightarrow> (image_result \<times> image_result option) result" where
  "character_files env thumbfile submitfile =
     (if submitfile = [] then Inl (WeasylError ''submitSizeZero'')
      else if int (length submitfile) > MAIN_IMAGE_SIZE_LIMIT then Inl (WeasylError ''submitSizeExceedsLimit'')
      else if int (length thumbfile) > 10 * MEGABYTE then Inl (WeasylError ''thumbSizeExceedsLimit'')
      else
        (case (if thumbfile \<noteq> []
               then map_sum id Some (image_or_error ''thumbType'' ''thumbnailImageProcessingFailed'' (create_cover env thumbfile))
               else Inr None) of
           Inl e \<Rightarrow> Inl e
         | Inr thumb \<Rightarrow>
             map_sum id (\<lambda>cover. (cover, thumb))
               (image_or_error ''submitType'' ''submissionImageProcessingFailed'' (create_cover env submitfile))))"

subsection \<open>Creating and replacing\<close>

record character_form =
  cf_charid :: int
  cf_char_name :: string
  cf_age :: string
  cf_gender :: string
  cf_height :: string
  cf_weight :: string
  cf_species :: string
  cf_content :: string
  cf_rating :: "rating option"

definition add_character ::
  "int \<Rightarrow> int \<Rightarrow> character_form \<Rightarrow> rating \<Rightarrow> string \<Rightarrow> bool \<Rightarrow> 'a content_db_scheme \<Rightarrow> 'a content_db_scheme" where
  "add_character now userid form rating settings friends_only db =
     db\<lparr>t_character := t_character db @
          [\<lparr>ch_charid = character_seq db, ch_userid = userid, ch_unixtime = now, ch_char_name = cf_char_name form,
            ch_age = cf_age form, ch_gender = cf_gender form, ch_height = cf_height form, ch_weight = cf_weight form,
            ch_species = cf_species form, ch_content = cf_content form, ch_rating = rating_code rating,
            ch_settings = settings, ch_hidden = False, ch_friends_only = friends_only, ch_page_views = 0\<rparr>],
        character_seq := character_seq db + 1\<rparr>"

text \<open>The thumbnail is made from the thumbnail selection file if one was sent, else from the cover.\<close>

definition character_create ::
  "staff_sets \<Rightarrow> image_env \<Rightarrow> int \<Rightarrow> date \<Rightarrow> int \<Rightarrow> character_form \<Rightarrow> bool \<Rightarrow> string list \<Rightarrow> int list \<Rightarrow> int list
     \<Rightarrow> 'a tags_db_scheme \<Rightarrow> int result \<times> 'a tags_db_scheme" where
  "character_create st env now today userid form friends_only tags thumbfile submitfile db =
     (if cf_char_name form = [] then (Inl (WeasylError ''characterNameInvalid''), db)
      else
        (case cf_rating form of
           None \<Rightarrow> (Inl (WeasylError ''ratingInvalid''), db)
         | Some rating \<Rightarrow>
             and_then (allow_rating today userid rating db) (\<lambda>_ db.
               and_then (character_files env thumbfile submitfile, db) (\<lambda>(cover, thumb) db.
                 and_then (cover_settings cover, db) (\<lambda>settings db.
                   let charid = character_seq db in
                   and_then (associate st now userid (CharacterTarget charid) tags
                               (add_character now userid form rating settings friends_only db)) (\<lambda>_ db.
                     and_then (thumbnail_create_character env (0, 0, 0, 0) charid
                                 (Some (ir_output (case thumb of None \<Rightarrow> cover | Some t \<Rightarrow> t))) db)
                       (\<lambda>_ db. (Inr charid, posts_count_invalidate userid
                          (welcome_character_insert now userid charid (rating_code rating) friends_only db)))))))))"

definition character_reupload ::
  "image_env \<Rightarrow> int \<Rightarrow> int \<Rightarrow> int list \<Rightarrow> 'a content_db_scheme \<Rightarrow> unit result \<times> 'a content_db_scheme" where
  "character_reupload env userid charid submitfile db =
     (if submitfile = [] then (Inl (WeasylError ''submitSizeZero''), db)
      else if int (length submitfile) > MAIN_IMAGE_SIZE_LIMIT then (Inl (WeasylError ''submitSizeExceedsLimit''), db)
      else
        (case find (\<lambda>ch. ch_charid ch = charid \<and> \<not> ch_hidden ch) (t_character db) of
           None \<Rightarrow> (Inl (WeasylError ''characterRecordMissing''), db)
         | Some ch \<Rightarrow>
             if userid \<noteq> ch_userid ch then (Inl (WeasylError ''InsufficientPermissions''), db)
             else
               (case image_or_error ''submitType'' ''submissionImageProcessingFailed'' (create_cover env submitfile) of
                  Inl e \<Rightarrow> (Inl e, db)
                | Inr cover \<Rightarrow>
                    (case cover_settings cover of
                       Inl e \<Rightarrow> (Inl e, db)
                     | Inr settings \<Rightarrow>
                         (Inr (), db\<lparr>t_character := update_where (\<lambda>ch. ch_charid ch = charid)
                            (\<lambda>ch. ch\<lparr>ch_settings := settings\<rparr>) (t_character db)\<rparr>)))))"

subsection \<open>Viewing\<close>

definition character_row_of :: "int \<Rightarrow> 'a content_db_scheme \<Rightarrow> (character_row \<times> string) option" where
  "character_row_of charid db =
     Option.bind (find (\<lambda>ch. ch_charid ch = charid) (t_character db))
       (\<lambda>ch. map_option (\<lambda>name. (ch, name)) (username_of (ch_userid ch) db))"

definition select_character_and_check ::
  "staff_sets \<Rightarrow> int \<Rightarrow> string \<Rightarrow> bool \<Rightarrow> int \<Rightarrow> int \<Rightarrow> int \<Rightarrow> bool \<Rightarrow> bool \<Rightarrow> bool \<Rightarrow> 'a tags_db_scheme
     \<Rightarrow> (character_row \<times> string) result \<times> 'a tags_db_scheme" where
  "select_character_and_check st now address sfw_mode userid charid rating ignore anyway increment_views db =
     (case character_row_of charid db of
        None \<Rightarrow> (Inl (WeasylError ''characterRecordMissing''), db)
      | Some (ch, username) \<Rightarrow>
          (case check_view st sfw_mode userid rating ignore anyway ''characterRecordMissing'' (ch_userid ch) (ch_rating ch)
                  (ch_hidden ch) (ch_friends_only ch) (blocktag_check userid 0 charid 0 db) db of
             Inl e \<Rightarrow> (Inl e, db)
           | Inr _ \<Rightarrow>
               if increment_views then
                 (case common_view_content now address userid charid V_characters db of
                    (None, db) \<Rightarrow> (Inr (ch, username), db)
                  | (Some new_views, db) \<Rightarrow> (Inr (ch\<lparr>ch_page_views := new_views\<rparr>, username), db))
               else (Inr (ch, username), db)))"

record character_view =
  cv_character :: character_row
  cv_username :: string
  cv_mine :: bool
  cv_favorited :: bool
  cv_fave_count :: int
  cv_comments :: "thread_comment list option"
  cv_tags :: grouped_tags

definition character_select_view ::
  "staff_sets \<Rightarrow> int \<Rightarrow> string \<Rightarrow> bool \<Rightarrow> int \<Rightarrow> int \<Rightarrow> int \<Rightarrow> bool \<Rightarrow> bool \<Rightarrow> 'a tags_db_scheme
     \<Rightarrow> character_view result \<times> 'a tags_db_scheme" where
  "character_select_view st now address sfw_mode userid charid rating ignore anyway db =
     and_then (select_character_and_check st now address sfw_mode userid charid rating ignore anyway False db)
       (\<lambda>(ch, username) db.
          case (favorite_count charid ''character'' db, comment_select st userid 0 charid 0 0 db) of
            (Inr faves, Inr comments) \<Rightarrow>
              (Inr \<lparr>cv_character = ch, cv_username = username, cv_mine = (userid = ch_userid ch),
                    cv_favorited = favorite_check userid 0 charid 0 db, cv_fave_count = faves, cv_comments = comments,
                    cv_tags = select_grouped userid (CharacterTarget charid) db\<rparr>, db)
          | (Inl e, _) \<Rightarrow> (Inl e, db)
          | (_, Inl e) \<Rightarrow> (Inl e, db))"

record character_api =
  ca_character :: character_row
  ca_username :: string
  ca_rating :: "string option"
  ca_favorited :: bool
  ca_favorites :: int
  ca_comments :: int
  ca_tags :: "string list"

definition character_select_view_api ::
  "staff_sets \<Rightarrow> int \<Rightarrow> string \<Rightarrow> bool \<Rightarrow> int \<Rightarrow> int \<Rightarrow> bool \<Rightarrow> bool \<Rightarrow> 'a tags_db_scheme
     \<Rightarrow> character_api result \<times> 'a tags_db_scheme" where
  "character_select_view_api st now address sfw_mode userid charid anyway increment_views db =
     and_then (get_rating sfw_mode userid db) (\<lambda>rating db.
       and_then (select_character_and_check st now address sfw_mode userid charid rating (\<not> anyway) False increment_views db)
         (\<lambda>(ch, username) db.
            case (favorite_count charid ''character'' db, comment_count charid ''character'' db) of
              (Inr faves, Inr comments) \<Rightarrow>
                (Inr \<lparr>ca_character = ch, ca_username = username, ca_rating = CODE_TO_NAME (ch_rating ch),
                      ca_favorited = favorite_check userid 0 charid 0 db, ca_favorites = faves, ca_comments = comments,
                      ca_tags = select_tags 0 charid 0 db\<rparr>, db)
            | (Inl e, _) \<Rightarrow> (Inl e, db)
            | (_, Inl e) \<Rightarrow> (Inl e, db)))"

subsection \<open>Lists\<close>

definition character_listed :: "bool \<Rightarrow> int \<Rightarrow> int \<Rightarrow> int \<Rightarrow> character_row \<Rightarrow> 'a tags_db_scheme \<Rightarrow> bool" where
  "character_listed sfw_mode userid rating otherid ch db =
     (\<not> ch_hidden ch
      \<and> (if userid \<noteq> 0 then
           rating_shown sfw_mode userid rating (ch_userid ch) (ch_rating ch)
           \<and> (otherid = 0 \<longrightarrow> not_ignored userid (ch_userid ch) db)
           \<and> macro_blocktag_char userid ch db \<and> macro_frienduser userid (ch_friends_only ch) (ch_userid ch) db
         else ch_rating ch \<le> rating \<and> \<not> ch_friends_only ch)
      \<and> (otherid \<noteq> 0 \<longrightarrow> ch_userid ch = otherid))"

definition character_select_query ::
  "bool \<Rightarrow> int \<Rightarrow> int \<Rightarrow> int \<Rightarrow> int \<Rightarrow> int \<Rightarrow> 'a tags_db_scheme \<Rightarrow> (character_row \<times> string) list" where
  "character_select_query sfw_mode userid rating otherid backid nextid db =
     List.map_filter (\<lambda>ch.
         if character_listed sfw_mode userid rating otherid ch db
            \<and> (if backid \<noteq> 0 then ch_charid ch > backid else nextid \<noteq> 0 \<longrightarrow> ch_charid ch < nextid)
         then map_option (\<lambda>name. (ch, name)) (username_of (ch_userid ch) db) else None) (t_character db)"

definition character_select_count :: "bool \<Rightarrow> int \<Rightarrow> int \<Rightarrow> int \<Rightarrow> int \<Rightarrow> int \<Rightarrow> 'a tags_db_scheme \<Rightarrow> int" where
  "character_select_count sfw_mode userid rating otherid backid nextid db =
     int (length (character_select_query sfw_mode userid rating otherid backid nextid db))"

definition character_select_list_raw ::
  "bool \<Rightarrow> int \<Rightarrow> int \<Rightarrow> nat \<Rightarrow> int \<Rightarrow> int \<Rightarrow> int \<Rightarrow> 'a tags_db_scheme \<Rightarrow> (character_row \<times> string) list" where
  "character_select_list_raw sfw_mode userid rating limit otherid backid nextid db =
     (let key = (\<lambda>(ch, _). ch_charid ch);
          rows = character_select_query sfw_mode userid rating otherid backid nextid db
      in take limit (if backid \<noteq> 0 then sort_key key rows else newest_first key rows))"

definition character_select_list ::
  "bool \<Rightarrow> int \<Rightarrow> int \<Rightarrow> nat \<Rightarrow> int \<Rightarrow> int \<Rightarrow> int \<Rightarrow> 'a tags_db_scheme \<Rightarrow> (character_row \<times> string) list" where
  "character_select_list sfw_mode userid rating limit otherid backid nextid db =
     (let query = character_select_list_raw sfw_mode userid rating limit otherid backid nextid db
      in if backid \<noteq> 0 then rev query else query)"

definition character_select_page ::
  "bool \<Rightarrow> int \<Rightarrow> int \<Rightarrow> nat \<Rightarrow> page_filter \<Rightarrow> 'a tags_db_scheme
     \<Rightarrow> (character_row \<times> string) list \<times> page_filter option \<times> page_filter option" where
  "character_select_page sfw_mode userid rating limit page db =
     (let (backid, nextid) = page_compat page
      in paginate (\<lambda>(ch, _). ch_charid ch) limit page
           (character_select_list_raw sfw_mode userid rating (limit + 1) 0 backid nextid db))"

subsection \<open>Changing and removing\<close>

definition change_character :: "character_form \<Rightarrow> rating \<Rightarrow> bool \<Rightarrow> 'a content_db_scheme \<Rightarrow> 'a content_db_scheme" where
  "change_character form rating friends_only db =
     db\<lparr>t_character := update_where (\<lambda>ch. ch_charid ch = cf_charid form)
          (\<lambda>ch. ch\<lparr>ch_char_name := cf_char_name form, ch_age := cf_age form, ch_gender := cf_gender form,
                   ch_height := cf_height form, ch_weight := cf_weight form, ch_species := cf_species form,
                   ch_content := cf_content form, ch_rating := rating_code rating, ch_friends_only := friends_only\<rparr>)
          (t_character db)\<rparr>"

definition character_edit ::
  "staff_sets \<Rightarrow> int \<Rightarrow> date \<Rightarrow> int \<Rightarrow> character_form \<Rightarrow> bool \<Rightarrow> 'a content_db_scheme \<Rightarrow> unit result \<times> 'a content_db_scheme" where
  "character_edit st now today userid form friends_only db =
     (case find (\<lambda>ch. ch_charid ch = cf_charid form) (t_character db) of
        None \<Rightarrow> (Inl (WeasylError ''Unexpected''), db)
      | Some ch \<Rightarrow>
          if ch_hidden ch then (Inl (WeasylError ''Unexpected''), db)
          else if userid \<noteq> ch_userid ch \<and> userid \<notin> MODS st then (Inl (WeasylError ''InsufficientPermissions''), db)
          else if cf_char_name form = [] then (Inl (WeasylError ''characterNameInvalid''), db)
          else
            (case cf_rating form of
               None \<Rightarrow> (Inl (WeasylError ''Unexpected''), db)
             | Some rating \<Rightarrow>
                 and_then (allow_own_rating today userid (ch_userid ch) rating db) (\<lambda>_ db.
                   let db = (if friends_only then welcome_character_remove (cf_charid form) db else db);
                       db = change_character form rating friends_only db;
                       db = (if userid \<noteq> ch_userid ch then
                               note_about now userid (ch_userid ch) ''The following character was edited:''
                                 (''- '' @ markdown_link (cf_char_name form) (''/character/'' @ show_int (cf_charid form) @ ''?anyway=true'')) db
                             else db)
                   in (Inr (), posts_count_invalidate (ch_userid ch) db))))"

definition character_remove :: "staff_sets \<Rightarrow> int \<Rightarrow> int \<Rightarrow> 'a content_db_scheme \<Rightarrow> int option result \<times> 'a content_db_scheme" where
  "character_remove st userid charid db =
     (let ownerid = get_ownerid 0 charid 0 db
      in if userid \<notin> MODS st \<and> Some userid \<noteq> ownerid then (Inl (WeasylError ''InsufficientPermissions''), db)
         else
           (let hit = (\<lambda>ch. ch_charid ch = charid \<and> \<not> ch_hidden ch);
                rowcount = count_where hit (t_character db);
                db = db\<lparr>t_character := update_where hit (\<lambda>ch. ch\<lparr>ch_hidden := True\<rparr>) (t_character db)\<rparr>
            in if rowcount \<noteq> 0 then
                 (let db = welcome_character_remove charid db
                  in (Inr ownerid, case ownerid of None \<Rightarrow> db | Some owner \<Rightarrow> posts_count_invalidate owner db))
               else (Inr ownerid, db)))"

end
