(* ===== verification/Submissions.thy ===== *)
theory Submissions
  imports Complex_Main Posts Media Folders
begin

text \<open>
  Submissions: \<^verbatim>\<open>weasyl/submission.py\<close>. Links to embedded videos are recognised and loaded by the functions of
  \<open>embed_env\<close>. What a page shows is given as rows; the text of a literary submission, rendered texts, the embedded
  player and the report count that moderators see are left out, and so are metrics and the caches with an expiry.
  Statements run with autocommit, so the effects before an exception stay.
\<close>

subsection \<open>Forms and limits\<close>

record submission_form =
  sb_submitid :: int
  sb_title :: string
  sb_content :: string
  sb_subtype :: int
  sb_folderid :: "int option"
  sb_rating :: "rating option"
  sb_ip_address :: "string option"
  sb_user_agent_id :: "int option"

datatype embed_outcome = UnrecognizedLink | UpstreamFailure | Loaded string "string option"

text \<open>
  \<open>fix_url\<close> is \<open>text_fix_url\<close>, \<open>load_embed\<close> is \<open>embed.load\<close> with the link and the thumbnail's address, and
  \<open>fetch_url\<close> gets a file, or nothing.
\<close>

record embed_env =
  fix_url :: "string \<Rightarrow> string option"
  load_embed :: "string \<Rightarrow> embed_outcome"
  fetch_url :: "string \<Rightarrow> int list option"

definition COUNT_LIMIT :: nat where
  "COUNT_LIMIT = 250"

definition VISUAL_LIMIT :: int where
  "VISUAL_LIMIT = 50 * MEGABYTE"

definition LIMITS :: "(string \<times> int) list" where
  "LIMITS = [(''.txt'', 2 * MEGABYTE), (''.pdf'', 10 * MEGABYTE), (''.htm'', 10 * MEGABYTE),
             (''.mp3'', 15 * MEGABYTE), (''.swf'', 50 * MEGABYTE)]"

definition over_limit :: "int \<Rightarrow> string \<Rightarrow> bool result" where
  "over_limit filesize extension = (case map_of LIMITS extension of None \<Rightarrow> Inl KeyError | Some limit \<Rightarrow> Inr (filesize > limit))"

definition SUBCAT_LIST :: "int list" where
  "SUBCAT_LIST = [1010, 1020, 1030, 1040, 1050, 1060, 1070, 1075, 1078, 1080, 1999,
                  2010, 2020, 2030, 2999, 3010, 3020, 3030, 3040, 3500, 3999]"

subsection \<open>Google Docs\<close>

definition ascii_char_lower :: "char \<Rightarrow> char" where
  "ascii_char_lower c = (if CHR ''A'' \<le> c \<and> c \<le> CHR ''Z'' then char_of (of_char c + 32 :: nat) else c)"

definition docs_char :: "char \<Rightarrow> bool" where
  "docs_char c = (let l = ascii_char_lower c in CHR ''a'' \<le> l \<and> l \<le> CHR ''z'' \<or> CHR ''0'' \<le> l \<and> l \<le> CHR ''9'' \<or> l = CHR ''_'' \<or> l = CHR ''-'')"

definition word_boundary_char :: "char \<Rightarrow> bool" where
  "word_boundary_char c = (docs_char c \<and> c \<noteq> CHR ''-'')"

definition has_prefix_nocase :: "string \<Rightarrow> string \<Rightarrow> bool" where
  "has_prefix_nocase p s = (length p \<le> length s \<and> map ascii_char_lower (take (length p) s) = p)"

text \<open>The id, a run of letters, digits, \<^verbatim>\<open>_\<close> and \<^verbatim>\<open>-\<close>, when \<^verbatim>\<open>/pub\<close> and the end of a word follow it.\<close>

definition docs_id_at :: "string \<Rightarrow> string option" where
  "docs_id_at s =
     (let i = takeWhile docs_char s; rest = dropWhile docs_char s
      in if i \<noteq> [] \<and> has_prefix_nocase ''/pub'' rest
            \<and> (case drop 4 rest of [] \<Rightarrow> True | c # _ \<Rightarrow> \<not> word_boundary_char c)
         then Some i else None)"

definition docs_link_at :: "string \<Rightarrow> string option" where
  "docs_link_at s =
     (let host = ''docs.google.com/document/d/''
      in if \<not> has_prefix_nocase host s then None
         else
           (let s = drop (length host) s
            in case (if has_prefix_nocase ''e/'' s then docs_id_at (drop 2 s) else None) of
                 Some i \<Rightarrow> Some (take 2 s @ i)
               | None \<Rightarrow> docs_id_at s))"

text \<open>\<open>re.search\<close>: the first place where it matches, at the start of a word.\<close>

fun docs_search :: "bool \<Rightarrow> string \<Rightarrow> string option" where
  "docs_search in_word [] = None"
| "docs_search in_word (c # s) =
     (case (if in_word then None else docs_link_at (c # s)) of
        Some i \<Rightarrow> Some i
      | None \<Rightarrow> docs_search (word_boundary_char c) s)"

definition normalize_google_docs_embed :: "string \<Rightarrow> string result" where
  "normalize_google_docs_embed embedlink =
     (case docs_search False (strip embedlink) of
        None \<Rightarrow> Inl (WeasylError ''googleDocsEmbedLinkInvalid'')
      | Some i \<Rightarrow> Inr (''https://docs.google.com/document/d/'' @ i @ ''/pub?embedded=true''))"

subsection \<open>Uploads\<close>

definition check_for_duplicate_media :: "int \<Rightarrow> int \<Rightarrow> 'a media_db_scheme \<Rightarrow> unit result" where
  "check_for_duplicate_media userid mediaid db =
     (if exists_where (\<lambda>su. su_userid su = userid \<and> \<not> su_hidden su
            \<and> exists_where (\<lambda>ml. ml_identity ml = su_submitid su \<and> ml_mediaid ml = mediaid \<and> ml_link_type ml = ''submission'')
                (t_submission_media_links db)) (t_submission db)
      then Inl (WeasylError ''duplicateSubmission'') else Inr ())"

record visual_media =
  vm_submission :: media_row
  vm_cover :: media_row
  vm_thumbnail_generated :: media_row

record other_media =
  om_cover :: "media_row option"
  om_thumbnail_source :: "media_row option"

definition upload_visual :: "image_env \<Rightarrow> int \<Rightarrow> int list \<Rightarrow> 'a media_db_scheme \<Rightarrow> visual_media result \<times> 'a media_db_scheme" where
  "upload_visual env userid submitfile db =
     (if int (length submitfile) > VISUAL_LIMIT then (Inl (WeasylError ''submitSizeExceedsLimit''), db)
      else
        (let sha256 = sha256_hex env submitfile;
             known = find (\<lambda>mi. mi_sha256 mi = Some sha256) (t_media db)
         in case (case known of
                    None \<Rightarrow> Inr ()
                  | Some mi \<Rightarrow> if mi_file_type mi \<notin> {''jpg'', ''png'', ''gif'', ''webp''} then Inl (WeasylError ''submitType'')
                               else check_for_duplicate_media userid (mi_mediaid mi) db) of
              Inl e \<Rightarrow> (Inl e, db)
            | Inr _ \<Rightarrow>
                (case image_or_error ''submitType'' ''submissionImageProcessingFailed'' (create_cover env submitfile) of
                   Inl e \<Rightarrow> (Inl e, db)
                 | Inr cover_result \<Rightarrow>
                     (let (submission, db) = fetch_or_create sha256 (ir_original_type cover_result) db;
                          (cover, db) = (if int (length submitfile) < 3 * int (length (ir_output cover_result)) div 2
                                         then (submission, db) else ensure_output_media env cover_result db)
                      in case image_or_raise (create_thumbnail env submitfile) of
                           Inl e \<Rightarrow> (Inl e, db)
                         | Inr thumb \<Rightarrow>
                             (let (generated, db) = ensure_output_media env thumb db
                              in (Inr \<lparr>vm_submission = submission, vm_cover = cover, vm_thumbnail_generated = generated\<rparr>, db))))))"

definition upload_image ::
  "image_env \<Rightarrow> string \<Rightarrow> string \<Rightarrow> int list \<Rightarrow> 'a media_db_scheme \<Rightarrow> media_row option result \<times> 'a media_db_scheme" where
  "upload_image env unsupported failed data db =
     (if data = [] then (Inr None, db)
      else
        (case image_or_error unsupported failed (create_cover env data) of
           Inl e \<Rightarrow> (Inl e, db)
         | Inr r \<Rightarrow> (let (mi, db) = ensure_output_media env r db in (Inr (Some mi), db))))"

definition upload_other :: "image_env \<Rightarrow> int list \<Rightarrow> int list \<Rightarrow> 'a media_db_scheme \<Rightarrow> other_media result \<times> 'a media_db_scheme" where
  "upload_other env coverfile thumbfile db =
     (if int (length coverfile) > 10 * MEGABYTE then (Inl (WeasylError ''coverSizeExceedsLimit''), db)
      else if int (length thumbfile) > 10 * MEGABYTE then (Inl (WeasylError ''thumbSizeExceedsLimit''), db)
      else
        and_then (upload_image env ''coverType'' ''coverImageProcessingFailed'' coverfile db) (\<lambda>cover db.
          and_then (upload_image env ''thumbType'' ''thumbnailImageProcessingFailed'' thumbfile db) (\<lambda>thumb db.
            (Inr \<lparr>om_cover = cover, om_thumbnail_source = (case thumb of None \<Rightarrow> cover | Some t \<Rightarrow> Some t)\<rparr>, db))))"

text \<open>A text, a sound or a Flash file: its type and size are checked, then whether the user has posted it.\<close>

definition upload_file :: "image_env \<Rightarrow> int \<Rightarrow> int \<Rightarrow> int list \<Rightarrow> 'a media_db_scheme \<Rightarrow> media_row option result \<times> 'a media_db_scheme" where
  "upload_file env userid category submitfile db =
     (if submitfile = [] then (Inr None, db)
      else
        (case get_extension_for_category env submitfile category of
           Inl e \<Rightarrow> (Inl e, db)
         | Inr extension \<Rightarrow>
             (case over_limit (int (length submitfile)) extension of
                Inl e \<Rightarrow> (Inl e, db)
              | Inr over \<Rightarrow>
                  if over then (Inl (WeasylError ''submitSizeExceedsLimit''), db)
                  else
                    (let (mi, db) = fetch_or_create (sha256_hex env submitfile) (tl extension) db
                     in case check_for_duplicate_media userid (mi_mediaid mi) db of
                          Inl e \<Rightarrow> (Inl e, db)
                        | Inr _ \<Rightarrow> (Inr (Some mi), db)))))"

definition link_if :: "int \<Rightarrow> string \<Rightarrow> media_row option \<Rightarrow> 'a media_db_scheme \<Rightarrow> 'a media_db_scheme" where
  "link_if submitid link_type mi db =
     (case mi of None \<Rightarrow> db | Some m \<Rightarrow> make_or_replace_link SubmissionMediaLink submitid link_type m db)"

subsection \<open>Creating\<close>

definition add_submission ::
  "int \<Rightarrow> int \<Rightarrow> submission_form \<Rightarrow> rating \<Rightarrow> string \<Rightarrow> string option \<Rightarrow> bool \<Rightarrow> bool \<Rightarrow> 'a content_db_scheme \<Rightarrow> 'a content_db_scheme" where
  "add_submission now userid form rating content embed_type friends_only critique db =
     db\<lparr>t_submission := t_submission db @
          [\<lparr>su_submitid = submission_seq db, su_folderid = sb_folderid form, su_userid = userid, su_unixtime = now,
            su_title = sb_title form, su_content = content, su_subtype = sb_subtype form, su_rating = rating_code rating,
            su_page_views = 0, su_hidden = False, su_friends_only = friends_only, su_critique = critique,
            su_embed_type = embed_type, su_favorites = 0, su_submitter_ip_address = sb_ip_address form,
            su_submitter_user_agent_id = sb_user_agent_id form, su_browse_excluded = None\<rparr>],
        submission_seq := submission_seq db + 1\<rparr>"

text \<open>The checks and the end that \<open>_create_submission\<close> puts around each of the three functions.\<close>

definition with_valid_subtype :: "int \<Rightarrow> submission_form \<Rightarrow> submission_form" where
  "with_valid_subtype expected_type form =
     (if sb_subtype form \<in> set (filter (\<lambda>i. i div 1000 = expected_type) SUBCAT_LIST) then form
      else form\<lparr>sb_subtype := expected_type * 1000 + 999\<rparr>)"

definition create_generic ::
  "int \<Rightarrow> int \<Rightarrow> date \<Rightarrow> int \<Rightarrow> submission_form \<Rightarrow> string list
     \<Rightarrow> (submission_form \<Rightarrow> rating \<Rightarrow> 'a media_db_scheme \<Rightarrow> 'r result \<times> 'a media_db_scheme)
     \<Rightarrow> 'a media_db_scheme \<Rightarrow> 'r result \<times> 'a media_db_scheme" where
  "create_generic expected_type now today userid form tags create_specific db =
     (let form = with_valid_subtype expected_type form
      in if sb_title form = [] then (Inl (WeasylError ''titleInvalid''), db)
         else
           (case sb_rating form of
              None \<Rightarrow> (Inl (WeasylError ''ratingInvalid''), db)
            | Some rating \<Rightarrow>
                if length tags < 2 then (Inl (WeasylError ''notEnoughTags''), db)
                else if \<not> folder_check userid (case sb_folderid form of None \<Rightarrow> 0 | Some i \<Rightarrow> i) [] None True db
                then (Inl (WeasylError ''Unexpected''), db)
                else
                  and_then (allow_rating today userid rating db) (\<lambda>_ db.
                    and_then (create_specific form rating db) (\<lambda>ret db.
                      (Inr ret, posts_count_invalidate userid
                         (db\<lparr>t_profile := update_where (\<lambda>pr. pr_userid pr = userid)
                              (\<lambda>pr. pr\<lparr>pr_latest_submission_time := now\<rparr>) (t_profile db)\<rparr>))))))"

definition create_visual ::
  "staff_sets \<Rightarrow> image_env \<Rightarrow> int \<Rightarrow> date \<Rightarrow> int \<Rightarrow> submission_form \<Rightarrow> bool \<Rightarrow> string list \<Rightarrow> int list \<Rightarrow> int list \<Rightarrow> bool \<Rightarrow> bool
     \<Rightarrow> 'a media_db_scheme \<Rightarrow> int result \<times> 'a media_db_scheme" where
  "create_visual st env now today userid form friends_only tags thumbfile submitfile critique create_notifications db =
     create_generic 1 now today userid form tags (\<lambda>form rating db.
       if submitfile = [] then (Inl (WeasylError ''submitSizeZero''), db)
       else if int (length thumbfile) > 10 * MEGABYTE then (Inl (WeasylError ''thumbSizeExceedsLimit''), db)
       else
         and_then (upload_visual env userid submitfile db) (\<lambda>vm db.
           and_then (upload_image env ''thumbType'' ''thumbnailImageProcessingFailed'' thumbfile db) (\<lambda>thumb db.
             and_then (case thumb of
                         None \<Rightarrow> (Inr None, db)
                       | Some _ \<Rightarrow>
                           (case image_or_raise (create_thumbnail env thumbfile) of
                              Inl e \<Rightarrow> (Inl e, db)
                            | Inr r \<Rightarrow> (let (mi, db) = ensure_output_media env r db in (Inr (Some mi), db)))) (\<lambda>custom db.
               let submitid = submission_seq db;
                   db = add_submission now userid form rating (sb_content form) None friends_only critique db;
                   db = make_or_replace_link SubmissionMediaLink submitid ''submission'' (vm_submission vm) db;
                   db = make_or_replace_link SubmissionMediaLink submitid ''cover'' (vm_cover vm) db;
                   db = make_or_replace_link SubmissionMediaLink submitid ''thumbnail-generated'' (vm_thumbnail_generated vm) db;
                   db = link_if submitid ''thumbnail-source'' thumb db;
                   db = link_if submitid ''thumbnail-custom'' custom db
               in and_then (associate st now userid (SubmissionTarget submitid) tags db) (\<lambda>_ db.
                    (Inr submitid, if create_notifications
                       then welcome_submission_insert now userid submitid (rating_code rating) friends_only db else db)))))) db"

definition create_literary ::
  "staff_sets \<Rightarrow> image_env \<Rightarrow> int \<Rightarrow> date \<Rightarrow> int \<Rightarrow> submission_form \<Rightarrow> string \<Rightarrow> bool \<Rightarrow> string list \<Rightarrow> int list \<Rightarrow> int list \<Rightarrow> int list
     \<Rightarrow> bool \<Rightarrow> bool \<Rightarrow> 'a media_db_scheme \<Rightarrow> (int \<times> bool) result \<times> 'a media_db_scheme" where
  "create_literary st env now today userid form embedlink friends_only tags coverfile thumbfile submitfile critique
       create_notifications db =
     create_generic 2 now today userid form tags (\<lambda>form rating db.
       case (if embedlink \<noteq> [] then normalize_google_docs_embed embedlink else Inr []) of
         Inl e \<Rightarrow> (Inl e, db)
       | Inr embedlink \<Rightarrow>
           if submitfile = [] \<and> embedlink = [] then (Inl (WeasylError ''submitSizeZero''), db)
           else
             and_then (upload_file env userid TEXT_SUBMISSION_CATEGORY submitfile db) (\<lambda>submit_media db.
               and_then (upload_other env coverfile thumbfile db) (\<lambda>om db.
                 let submitid = submission_seq db;
                     db = add_submission now userid form rating (sb_content form)
                            (if embedlink \<noteq> [] then Some ''google-drive'' else None) friends_only critique db;
                     db = (if embedlink \<noteq> [] then db\<lparr>t_google_doc_embeds := t_google_doc_embeds db @
                             [\<lparr>ge_submitid = submitid, ge_embed_url = embedlink\<rparr>]\<rparr> else db)
                 in and_then (associate st now userid (SubmissionTarget submitid) tags db) (\<lambda>_ db.
                      let db = link_if submitid ''submission'' submit_media db;
                          db = link_if submitid ''cover'' (om_cover om) db;
                          db = link_if submitid ''thumbnail-source'' (om_thumbnail_source om) db;
                          db = (if create_notifications
                                then welcome_submission_insert now userid submitid (rating_code rating) friends_only db else db)
                      in (Inr (submitid, om_thumbnail_source om \<noteq> None), db))))) db"

text \<open>The link of an embedded video and its thumbnail's address; nothing when a file was sent.\<close>

definition multimedia_embed :: "embed_env \<Rightarrow> int list \<Rightarrow> string \<Rightarrow> (string \<times> string option) option result" where
  "multimedia_embed env submitfile embedlink =
     (if submitfile \<noteq> [] then Inr None
      else if strip embedlink = [] then Inl (WeasylError ''submitSizeZero'')
      else
        (case fix_url env (strip embedlink) of
           None \<Rightarrow> Inl (WeasylError ''embedlinkInvalid'')
         | Some url \<Rightarrow>
             (case load_embed env url of
                UnrecognizedLink \<Rightarrow> Inl (WeasylError ''embedlinkInvalid'')
              | UpstreamFailure \<Rightarrow> Inl (WeasylError ''embedlinkFailed'')
              | Loaded href thumbnail_url \<Rightarrow> Inr (Some (href, thumbnail_url)))))"

text \<open>
  The thumbnail: of the image sent, which was processed before, or of the embedded video if that is asked for and
  works out.
\<close>

definition multimedia_thumbnail ::
  "image_env \<Rightarrow> embed_env \<Rightarrow> bool \<Rightarrow> other_media \<Rightarrow> int list \<Rightarrow> int list \<Rightarrow> (string \<times> string option) option \<Rightarrow> image_result option result" where
  "multimedia_thumbnail env embeds auto_thumb om coverfile thumbfile embedded =
     (if om_thumbnail_source om \<noteq> None then
        map_sum id Some (image_or_raise (create_thumbnail env (if thumbfile \<noteq> [] then thumbfile else coverfile)))
      else
        Inr (case embedded of
               Some (_, Some url) \<Rightarrow>
                 if auto_thumb then
                   (case fetch_url embeds url of
                      None \<Rightarrow> None
                    | Some content \<Rightarrow> (case create_thumbnail env content of Processed r \<Rightarrow> Some r | _ \<Rightarrow> None))
                 else None
             | _ \<Rightarrow> None))"

definition create_multimedia ::
  "staff_sets \<Rightarrow> image_env \<Rightarrow> embed_env \<Rightarrow> int \<Rightarrow> date \<Rightarrow> int \<Rightarrow> submission_form \<Rightarrow> string \<Rightarrow> bool \<Rightarrow> string list \<Rightarrow> int list \<Rightarrow> int list
     \<Rightarrow> int list \<Rightarrow> bool \<Rightarrow> bool \<Rightarrow> bool \<Rightarrow> 'a media_db_scheme \<Rightarrow> (int \<times> bool) result \<times> 'a media_db_scheme" where
  "create_multimedia st env embeds now today userid form embedlink friends_only tags coverfile thumbfile submitfile critique
       create_notifications auto_thumb db =
     create_generic 3 now today userid form tags (\<lambda>form rating db.
       and_then (multimedia_embed embeds submitfile embedlink, db) (\<lambda>embedded db.
         and_then (upload_file env userid MULTIMEDIA_SUBMISSION_CATEGORY submitfile db) (\<lambda>submit_media db.
           and_then (upload_other env coverfile thumbfile db) (\<lambda>om db.
             and_then (multimedia_thumbnail env embeds auto_thumb om coverfile thumbfile embedded, db) (\<lambda>thumbnail_result db.
               let (tempthumb, db) = (case thumbnail_result of
                       None \<Rightarrow> (None, db) | Some r \<Rightarrow> (let (mi, db) = ensure_output_media env r db in (Some mi, db)));
                   submitid = submission_seq db;
                   db = add_submission now userid form rating
                          (case embedded of None \<Rightarrow> sb_content form | Some (href, _) \<Rightarrow> href @ [newline] @ sb_content form)
                          (if embedded \<noteq> None then Some ''other'' else None) friends_only critique db
               in and_then (associate st now userid (SubmissionTarget submitid) tags db) (\<lambda>_ db.
                    let db = link_if submitid ''submission'' submit_media db;
                        db = link_if submitid ''cover'' (om_cover om) db;
                        db = link_if submitid ''thumbnail-source'' (om_thumbnail_source om) db;
                        db = link_if submitid ''thumbnail-custom'' tempthumb db;
                        db = (if create_notifications
                              then welcome_submission_insert now userid submitid (rating_code rating) friends_only db else db)
                    in (Inr (submitid, om_thumbnail_source om \<noteq> None), db))))))) db"


text \<open>
  Replacing the file. A picture gets a new cover and thumbnail; of the other kinds of file a PDF is no replacement for
  a multimedia submission.
\<close>

definition reupload :: "image_env \<Rightarrow> int \<Rightarrow> int \<Rightarrow> int list \<Rightarrow> 'a media_db_scheme \<Rightarrow> unit result \<times> 'a media_db_scheme" where
  "reupload env userid submitid submitfile db =
     (case find (\<lambda>su. su_submitid su = submitid \<and> \<not> su_hidden su) (t_submission db) of
        None \<Rightarrow> (Inl (WeasylError ''submissionRecordMissing''), db)
      | Some su \<Rightarrow>
          if userid \<noteq> su_userid su then (Inl (WeasylError ''InsufficientPermissions''), db)
          else if su_embed_type su \<noteq> None then (Inl (WeasylError ''Unexpected''), db)
          else
            (let subcat = su_subtype su div 1000 * 1000
             in if subcat \<notin> set ALL_SUBMISSION_CATEGORIES then (Inl (WeasylError ''Unexpected''), db)
                else if submitfile = [] then (Inl (WeasylError ''submitSizeZero''), db)
                else if subcat = ART_SUBMISSION_CATEGORY then
                  and_then (upload_visual env userid submitfile db) (\<lambda>vm db.
                    let db = make_or_replace_link SubmissionMediaLink submitid ''submission'' (vm_submission vm) db;
                        db = make_or_replace_link SubmissionMediaLink submitid ''cover'' (vm_cover vm) db;
                        db = make_or_replace_link SubmissionMediaLink submitid ''thumbnail-generated'' (vm_thumbnail_generated vm) db
                    in (Inr (), clear_link SubmissionMediaLink submitid ''thumbnail-generated-webp'' db))
                else
                  (case get_extension_for_category env submitfile subcat of
                     Inl e \<Rightarrow> (Inl e, db)
                   | Inr extension \<Rightarrow>
                       if subcat = MULTIMEDIA_SUBMISSION_CATEGORY \<and> extension \<notin> {''.mp3'', ''.swf''}
                       then (Inl (WeasylError ''submitType''), db)
                       else
                         and_then (upload_file env userid subcat submitfile db) (\<lambda>submit_media db.
                           (Inr (), link_if submitid ''submission'' submit_media db)))))"

definition reupload_cover ::
  "staff_sets \<Rightarrow> image_env \<Rightarrow> int \<Rightarrow> int \<Rightarrow> int list \<Rightarrow> 'a media_db_scheme \<Rightarrow> unit result \<times> 'a media_db_scheme" where
  "reupload_cover st env userid submitid coverfile db =
     (case find_submission submitid db of
        None \<Rightarrow> (Inl (WeasylError ''submissionRecordMissing''), db)
      | Some su \<Rightarrow>
          if userid \<noteq> su_userid su \<and> \<not> (coverfile = [] \<and> userid \<in> MODS st)
          then (Inl (WeasylError ''InsufficientPermissions''), db)
          else if su_subtype su < 2000 then (Inl (WeasylError ''Unexpected''), db)
          else if coverfile = [] then (Inr (), clear_link SubmissionMediaLink submitid ''cover'' db)
          else
            (case image_or_error ''FileType'' ''imageProcessingFailed'' (create_cover env coverfile) of
               Inl e \<Rightarrow> (Inl e, db)
             | Inr r \<Rightarrow>
                 (let (mi, db) = ensure_output_media env r db
                  in (Inr (), make_or_replace_link SubmissionMediaLink submitid ''cover'' mi db))))"

subsection \<open>Lists\<close>

text \<open>The keyword arguments of the list functions; 0 for \<open>None\<close>.\<close>

record submission_query =
  sq_otherid :: int
  sq_folderid :: int
  sq_subcat :: int
  sq_profile_page_filter :: bool
  sq_index_page_filter :: bool
  sq_featured_filter :: bool
  sq_critique_only :: bool

text \<open>\<open>LEFT JOIN folder\<close>.\<close>

definition folder_of :: "submission_row \<Rightarrow> 'a content_db_scheme \<Rightarrow> folder_row option" where
  "folder_of su db = Option.bind (su_folderid su) (\<lambda>folderid. find (\<lambda>fd. fd_folderid fd = folderid) (t_folder db))"

definition folder_setting :: "char \<Rightarrow> submission_row \<Rightarrow> 'a content_db_scheme \<Rightarrow> bool" where
  "folder_setting flag su db = (case folder_of su db of None \<Rightarrow> False | Some fd \<Rightarrow> has_flag flag (fd_settings fd))"

definition submission_listed ::
  "bool \<Rightarrow> int \<Rightarrow> int \<Rightarrow> submission_query \<Rightarrow> submission_row \<Rightarrow> 'a tags_db_scheme \<Rightarrow> bool" where
  "submission_listed sfw_mode userid rating q su db =
     (\<not> su_hidden su
      \<and> (sq_profile_page_filter q \<longrightarrow> \<not> folder_setting (CHR ''u'') su db)
      \<and> (sq_index_page_filter q \<longrightarrow> \<not> folder_setting (CHR ''m'') su db)
      \<and> (sq_featured_filter q \<longrightarrow> folder_setting (CHR ''f'') su db)
      \<and> (if userid \<noteq> 0 \<and> \<not> sfw_mode then su_rating su \<le> rating \<or> su_userid su = userid else su_rating su \<le> rating)
      \<and> (if sq_otherid q \<noteq> 0 then su_userid su = sq_otherid q else su_browse_excluded su \<noteq> Some True)
      \<and> (sq_folderid q \<noteq> 0 \<longrightarrow> su_folderid su = Some (sq_folderid q))
      \<and> (sq_subcat q \<noteq> 0 \<longrightarrow> sq_subcat q \<le> su_subtype su \<and> su_subtype su < sq_subcat q + 1000)
      \<and> (sq_critique_only q \<longrightarrow> su_critique su)
      \<and> (if userid \<noteq> 0 then
           macro_frienduser userid (su_friends_only su) (su_userid su) db
           \<and> (sq_otherid q = 0 \<longrightarrow> not_ignored userid (su_userid su) db)
           \<and> macro_blocktag_submit userid su db
         else \<not> su_friends_only su))"

definition submission_select_query ::
  "bool \<Rightarrow> int \<Rightarrow> int \<Rightarrow> submission_query \<Rightarrow> int \<Rightarrow> int \<Rightarrow> 'a tags_db_scheme \<Rightarrow> (submission_row \<times> string) list" where
  "submission_select_query sfw_mode userid rating q backid nextid db =
     List.map_filter (\<lambda>su.
         if submission_listed sfw_mode userid rating q su db
            \<and> (if backid \<noteq> 0 then su_submitid su > backid else nextid \<noteq> 0 \<longrightarrow> su_submitid su < nextid)
         then map_option (\<lambda>name. (su, name)) (username_of (su_userid su) db) else None) (t_submission db)"

definition submission_select_count ::
  "bool \<Rightarrow> int \<Rightarrow> int \<Rightarrow> submission_query \<Rightarrow> int \<Rightarrow> int \<Rightarrow> 'a tags_db_scheme \<Rightarrow> nat" where
  "submission_select_count sfw_mode userid rating q backid nextid db =
     length (take COUNT_LIMIT (submission_select_query sfw_mode userid rating q backid nextid db))"

text \<open>
  \<open>shuffle\<close> is the order of \<open>RANDOM()\<close>. The media of the rows, which come from a cache, are read by
  \<open>populate_with_submission_media\<close>.
\<close>

fun populate_with_submission_media ::
  "(submission_row \<times> 'n) list \<Rightarrow> 'a media_db_scheme
     \<Rightarrow> ((submission_row \<times> 'n) \<times> (string \<times> media_row list option) list) list \<times> 'a media_db_scheme" where
  "populate_with_submission_media [] db = ([], db)"
| "populate_with_submission_media (row # rows) db =
     (let (m, db) = get_submission_media (su_submitid (fst row)) db;
          (populated, db) = populate_with_submission_media rows db
      in ((row, m) # populated, db))"

definition submission_page_rows ::
  "((submission_row \<times> string) list \<Rightarrow> (submission_row \<times> string) list) \<Rightarrow> bool \<Rightarrow> int \<Rightarrow> int \<Rightarrow> nat \<Rightarrow> submission_query
     \<Rightarrow> page_filter \<Rightarrow> 'a tags_db_scheme \<Rightarrow> (submission_row \<times> string) list \<times> page_filter option \<times> page_filter option" where
  "submission_page_rows shuffle sfw_mode userid rating limit q page db =
     (let key = (\<lambda>(su, _). su_submitid su);
          (backid, nextid) = page_compat page;
          rows = submission_select_query sfw_mode userid rating q backid nextid db
      in paginate key limit page
           (take (limit + 1)
              (if sq_featured_filter q then shuffle rows
               else if is_back page then sort_key key rows else newest_first key rows)))"

definition submission_select_page ::
  "((submission_row \<times> string) list \<Rightarrow> (submission_row \<times> string) list) \<Rightarrow> bool \<Rightarrow> int \<Rightarrow> int \<Rightarrow> nat \<Rightarrow> submission_query
     \<Rightarrow> page_filter \<Rightarrow> 'a media_db_scheme
     \<Rightarrow> (((submission_row \<times> string) \<times> (string \<times> media_row list option) list) list
          \<times> page_filter option \<times> page_filter option) \<times> 'a media_db_scheme" where
  "submission_select_page shuffle sfw_mode userid rating limit q page db =
     (let (rows, prev_page, next_page) = submission_page_rows shuffle sfw_mode userid rating limit q page db;
          (submissions, db) = populate_with_submission_media rows db
      in ((submissions, prev_page, next_page), db))"

definition submission_select_list ::
  "((submission_row \<times> string) list \<Rightarrow> (submission_row \<times> string) list) \<Rightarrow> bool \<Rightarrow> int \<Rightarrow> int \<Rightarrow> nat \<Rightarrow> submission_query
     \<Rightarrow> int \<Rightarrow> int \<Rightarrow> 'a media_db_scheme
     \<Rightarrow> ((submission_row \<times> string) \<times> (string \<times> media_row list option) list) list \<times> 'a media_db_scheme" where
  "submission_select_list shuffle sfw_mode userid rating limit q backid nextid db =
     (let ((submissions, _, _), db) =
            submission_select_page shuffle sfw_mode userid rating limit q (page_from_compat backid nextid) db
      in (submissions, db))"

definition select_featured ::
  "((submission_row \<times> string) list \<Rightarrow> (submission_row \<times> string) list) \<Rightarrow> bool \<Rightarrow> int \<Rightarrow> int \<Rightarrow> int \<Rightarrow> 'a media_db_scheme
     \<Rightarrow> ((submission_row \<times> string) \<times> (string \<times> media_row list option) list) option \<times> 'a media_db_scheme" where
  "select_featured shuffle sfw_mode userid otherid rating db =
     (let (submissions, db) = submission_select_list shuffle sfw_mode userid rating 1
            \<lparr>sq_otherid = otherid, sq_folderid = 0, sq_subcat = 0, sq_profile_page_filter = False,
             sq_index_page_filter = False, sq_featured_filter = True, sq_critique_only = False\<rparr> 0 0 db
      in (case submissions of [] \<Rightarrow> None | s # _ \<Rightarrow> Some s, db))"


text \<open>The closest submission before and after one, on the own page or in a folder.\<close>

definition near_listed :: "bool \<Rightarrow> int \<Rightarrow> int \<Rightarrow> int \<Rightarrow> int \<Rightarrow> submission_row \<Rightarrow> 'a tags_db_scheme \<Rightarrow> bool" where
  "near_listed sfw_mode userid rating otherid folderid su db =
     (su_userid su = otherid \<and> \<not> su_hidden su
      \<and> (if userid \<noteq> 0 then
           (if sfw_mode then su_rating su \<le> rating else su_rating su \<le> rating \<or> su_userid su = userid)
           \<and> not_ignored userid (su_userid su) db
           \<and> macro_frienduser userid (su_friends_only su) (su_userid su) db
           \<and> macro_blocktag_submit userid su db
         else su_rating su \<le> rating \<and> \<not> su_friends_only su)
      \<and> (folderid \<noteq> 0 \<longrightarrow> su_folderid su = Some folderid))"

record near_submissions =
  near_older :: "((submission_row \<times> string) \<times> (string \<times> media_row list option) list) list"
  near_newer :: "((submission_row \<times> string) \<times> (string \<times> media_row list option) list) list"

definition select_near ::
  "bool \<Rightarrow> int \<Rightarrow> int \<Rightarrow> int \<Rightarrow> int \<Rightarrow> int \<Rightarrow> 'a media_db_scheme \<Rightarrow> near_submissions result \<times> 'a media_db_scheme" where
  "select_near sfw_mode userid rating otherid folderid submitid db =
     (let listed = filter (\<lambda>su. near_listed sfw_mode userid rating otherid folderid su db) (t_submission db);
          older = take 1 (newest_first su_submitid (filter (\<lambda>su. su_submitid su < submitid) listed));
          newer = take 1 (sort_key su_submitid (filter (\<lambda>su. su_submitid su > submitid) listed))
      in and_then (get_display_name otherid db) (\<lambda>username db.
           let (query, db) = populate_with_submission_media (map (\<lambda>su. (su, username)) (older @ newer)) db;
               query = sort_key (\<lambda>((su, _), _). su_submitid su) query
           in (Inr \<lparr>near_older = filter (\<lambda>((su, _), _). su_submitid su < submitid) query,
                    near_newer = filter (\<lambda>((su, _), _). su_submitid su > submitid) query\<rparr>, db)))"

subsection \<open>Viewing\<close>

definition get_google_docs_embed_url :: "int \<Rightarrow> 'a media_db_scheme \<Rightarrow> string result" where
  "get_google_docs_embed_url submitid db =
     (case find (\<lambda>ge. ge_submitid ge = submitid) (t_google_doc_embeds db) of
        None \<Rightarrow> Inl (WeasylError ''Unexpected'')
      | Some ge \<Rightarrow> Inr (ge_embed_url ge))"

text \<open>\<open>s.partition('\<^bold>\n')\<close>: what is before the first newline and what is after it.\<close>

definition partition_line :: "string \<Rightarrow> string \<times> string" where
  "partition_line s = (takeWhile (\<lambda>c. c \<noteq> newline) s, drop 1 (dropWhile (\<lambda>c. c \<noteq> newline) s))"

definition submission_row_of :: "int \<Rightarrow> 'a content_db_scheme \<Rightarrow> (submission_row \<times> string) option" where
  "submission_row_of submitid db =
     Option.bind (find_submission submitid db) (\<lambda>su. map_option (\<lambda>name. (su, name)) (username_of (su_userid su) db))"

text \<open>Who may see the page; the rating is not a reason to refuse it, but is in the result.\<close>

definition check_submission_view ::
  "staff_sets \<Rightarrow> int \<Rightarrow> int \<Rightarrow> bool \<Rightarrow> bool \<Rightarrow> 'a tags_db_scheme \<Rightarrow> (submission_row \<times> string) result" where
  "check_submission_view st userid submitid ignore anyway db =
     (case submission_row_of submitid db of
        None \<Rightarrow> Inl (WeasylError ''submissionRecordMissing'')
      | Some (su, username) \<Rightarrow>
          if userid \<in> MODS st \<and> anyway then Inr (su, username)
          else if su_hidden su then Inl (WeasylError ''submissionRecordMissing'')
          else if su_friends_only su \<and> \<not> frienduser_check userid (su_userid su) db then Inl (WeasylError ''FriendsOnly'')
          else if ignore \<and> ignoreuser_check userid (su_userid su) db then Inl (WeasylError ''UserIgnored'')
          else if ignore \<and> blocktag_check userid submitid 0 0 db then Inl (WeasylError ''TagBlocked'')
          else Inr (su, username))"

text \<open>
  The content without an embedded link, the embedded video, and the embedded document. A stored link that is invalid or
  unknown raises an exception (\<open>AssertionError\<close> here); an upstream failure shows the link.
\<close>

definition embedded_content ::
  "embed_env \<Rightarrow> submission_row \<Rightarrow> 'a media_db_scheme \<Rightarrow> (string \<times> embed_outcome option \<times> string option) result" where
  "embedded_content embeds su db =
     (if su_embed_type su = Some ''other'' then
        (let (embedlink, content) = partition_line (su_content su)
         in case fix_url embeds embedlink of
              None \<Rightarrow> Inl AssertionError
            | Some url \<Rightarrow>
                (case load_embed embeds url of
                   UnrecognizedLink \<Rightarrow> Inl AssertionError
                 | outcome \<Rightarrow> Inr (content, Some outcome, None)))
      else if su_embed_type su = Some ''google-drive'' then
        map_sum id (\<lambda>url. (su_content su, None, Some url)) (get_google_docs_embed_url (su_submitid su) db)
      else Inr (su_content su, None, None))"

record submission_view =
  sw_submission :: submission_row
  sw_username :: string
  sw_content :: string
  sw_rating_exceeded :: bool
  sw_mine :: bool
  sw_favorited :: bool
  sw_collected :: bool
  sw_no_request :: bool
  sw_sub_media :: "(string \<times> media_row list option) list"
  sw_user_media :: "(string \<times> media_row list option) list"
  sw_submit :: "media_row option"
  sw_embed :: "embed_outcome option"
  sw_google_doc_embed :: "string option"
  sw_tags :: grouped_tags
  sw_folder_more :: near_submissions
  sw_folder_title :: string
  sw_comments :: "thread_comment list option"

definition folder_title :: "submission_row \<Rightarrow> 'a content_db_scheme \<Rightarrow> string" where
  "folder_title su db =
     (case folder_of su db of None \<Rightarrow> ''Root'' | Some fd \<Rightarrow> if fd_title fd \<noteq> [] then fd_title fd else ''Root'')"

definition rating_exceeded :: "staff_sets \<Rightarrow> bool \<Rightarrow> int \<Rightarrow> int \<Rightarrow> submission_row \<Rightarrow> bool" where
  "rating_exceeded st sfw_mode userid rating su =
     (su_rating su > rating \<and> (userid \<noteq> su_userid su \<and> userid \<notin> MODS st \<or> sfw_mode))"

definition submission_select_view ::
  "staff_sets \<Rightarrow> embed_env \<Rightarrow> bool \<Rightarrow> int \<Rightarrow> int \<Rightarrow> int \<Rightarrow> bool \<Rightarrow> bool \<Rightarrow> 'a media_db_scheme
     \<Rightarrow> submission_view result \<times> 'a media_db_scheme" where
  "submission_select_view st embeds sfw_mode userid submitid rating ignore anyway db =
     and_then (check_submission_view st userid submitid ignore anyway db, db) (\<lambda>(su, username) db.
       let (sub_media, db) = get_submission_media submitid db
       in and_then (embedded_content embeds su db, db) (\<lambda>(content, embedded, google_doc_embed) db.
            let tags = select_grouped userid (SubmissionTarget submitid) db
            in and_then (get_profile_settings (su_userid su) db) (\<lambda>settings db.
                 and_then (profile_setting settings ''allow_collection_requests'', db) (\<lambda>allow_requests db.
                   let (user_media, db) = get_user_media (su_userid su) db
                   in and_then (select_near sfw_mode userid rating (su_userid su)
                                  (case su_folderid su of None \<Rightarrow> 0 | Some i \<Rightarrow> i) submitid db) (\<lambda>folder_more db.
                        and_then (comment_select st userid submitid 0 0 0 db, db) (\<lambda>comments db.
                          (Inr \<lparr>sw_submission = su, sw_username = username, sw_content = content,
                                sw_rating_exceeded = rating_exceeded st sfw_mode userid rating su,
                                sw_mine = (userid = su_userid su),
                                sw_favorited = favorite_check userid submitid 0 0 db,
                                sw_collected = collection_owns userid submitid db, sw_no_request = (\<not> allow_requests),
                                sw_sub_media = sub_media, sw_user_media = user_media,
                                sw_submit = first_media ''submission'' sub_media,
                                sw_embed = embedded, sw_google_doc_embed = google_doc_embed, sw_tags = tags,
                                sw_folder_more = folder_more, sw_folder_title = folder_title su db,
                                sw_comments = comments\<rparr>, db)))))))"


definition CATEGORY_PARSABLE_MAP :: "(int \<times> string) list" where
  "CATEGORY_PARSABLE_MAP =
     [(ART_SUBMISSION_CATEGORY, ''visual''), (TEXT_SUBMISSION_CATEGORY, ''literary''),
      (MULTIMEDIA_SUBMISSION_CATEGORY, ''multimedia'')]"

text \<open>The guards of the API, which knows no moderators and hides a friends-only submission altogether.\<close>

definition check_submission_api :: "int \<Rightarrow> int \<Rightarrow> bool \<Rightarrow> int \<Rightarrow> 'a tags_db_scheme \<Rightarrow> submission_row result" where
  "check_submission_api userid submitid anyway rating db =
     (case find_submission submitid db of
        None \<Rightarrow> Inl (WeasylError ''submissionRecordMissing'')
      | Some su \<Rightarrow>
          if su_hidden su then Inl (WeasylError ''submissionRecordMissing'')
          else if su_friends_only su \<and> \<not> frienduser_check userid (su_userid su) db
          then Inl (WeasylError ''submissionRecordMissing'')
          else if su_rating su > rating \<and> userid \<noteq> su_userid su then Inl (WeasylError ''RatingExceeded'')
          else if \<not> anyway \<and> ignoreuser_check userid (su_userid su) db then Inl (WeasylError ''UserIgnored'')
          else if \<not> anyway \<and> blocktag_check userid submitid 0 0 db then Inl (WeasylError ''TagBlocked'')
          else Inr su)"

record submission_api =
  sx_submission :: submission_row
  sx_owner :: string
  sx_owner_media :: "(string \<times> media_row list option) list"
  sx_media :: "(string \<times> media_row list option) list"
  sx_description :: string
  sx_embedlink :: "string option"
  sx_folder_name :: "string option"
  sx_tags :: "string list"
  sx_subtype :: string
  sx_rating :: "string option"
  sx_views :: int
  sx_comments :: int
  sx_favorited :: bool

text \<open>An owner without a profile makes an attribute of \<open>None\<close>, a \<open>TypeError\<close> here.\<close>

definition submission_select_view_api ::
  "int \<Rightarrow> string \<Rightarrow> bool \<Rightarrow> int \<Rightarrow> int \<Rightarrow> bool \<Rightarrow> bool \<Rightarrow> 'a media_db_scheme \<Rightarrow> submission_api result \<times> 'a media_db_scheme" where
  "submission_select_view_api now address sfw_mode userid submitid anyway increment_views db =
     and_then (get_rating sfw_mode userid db) (\<lambda>rating db.
       and_then (check_submission_api userid submitid anyway rating db, db) (\<lambda>su db.
         let (first_line, rest) = partition_line (su_content su)
         in and_then (if su_embed_type su = Some ''other'' then Inr (Some first_line, rest)
                      else if su_embed_type su = Some ''google-drive''
                      then map_sum id (\<lambda>url. (Some url, su_content su)) (get_google_docs_embed_url submitid db)
                      else Inr (None, su_content su), db) (\<lambda>(embedlink, description) db.
              let (new_views, db) = (if increment_views then common_view_content now address userid submitid V_submissions db
                                     else (None, db))
              in case username_of (su_userid su) db of
                   None \<Rightarrow> (Inl TypeError, db)
                 | Some owner \<Rightarrow>
                     (let (owner_media, db) = get_user_media (su_userid su) db;
                          (sub_media, db) = get_submission_media submitid db
                      in case map_of CATEGORY_PARSABLE_MAP (su_subtype su div 1000 * 1000) of
                           None \<Rightarrow> (Inl KeyError, db)
                         | Some subtype \<Rightarrow>
                             and_then (comment_count submitid ''submission'' db, db) (\<lambda>comments db.
                               (Inr \<lparr>sx_submission = su, sx_owner = owner, sx_owner_media = owner_media, sx_media = sub_media,
                                     sx_description = description, sx_embedlink = embedlink,
                                     sx_folder_name = map_option fd_title (folder_of su db),
                                     sx_tags = select_tags submitid 0 0 db, sx_subtype = subtype,
                                     sx_rating = CODE_TO_NAME (su_rating su),
                                     sx_views = (case new_views of None \<Rightarrow> su_page_views su | Some v \<Rightarrow> v),
                                     sx_comments = comments, sx_favorited = favorite_check userid submitid 0 0 db\<rparr>, db))))))"

subsection \<open>Changing and removing\<close>

text \<open>Whoever has a submission in a collection has it in the counts of posts.\<close>

definition invalidate_collectors_posts_count :: "int \<Rightarrow> 'a content_db_scheme \<Rightarrow> 'a content_db_scheme" where
  "invalidate_collectors_posts_count submitid db =
     cached_posts_count_invalidate_multi (collection_find_owners submitid db) db"

definition edited_embedlink :: "embed_env \<Rightarrow> string option \<Rightarrow> string \<Rightarrow> string result" where
  "edited_embedlink embeds embed_type embedlink =
     (if embed_type = Some ''other'' then
        (case fix_url embeds embedlink of
           None \<Rightarrow> Inl (WeasylError ''embedlinkInvalid'')
         | Some url \<Rightarrow>
             (case load_embed embeds url of
                UnrecognizedLink \<Rightarrow> Inl (WeasylError ''embedlinkInvalid'')
              | UpstreamFailure \<Rightarrow> Inl (WeasylError ''embedlinkFailed'')
              | Loaded href thumbnail_url \<Rightarrow> Inr href))
      else if embed_type = Some ''google-drive'' then normalize_google_docs_embed embedlink
      else Inr embedlink)"

definition change_submission ::
  "submission_form \<Rightarrow> rating \<Rightarrow> string \<Rightarrow> bool \<Rightarrow> bool \<Rightarrow> 'a content_db_scheme \<Rightarrow> 'a content_db_scheme" where
  "change_submission form rating content friends_only critique db =
     db\<lparr>t_submission := update_where (\<lambda>su. su_submitid su = sb_submitid form)
          (\<lambda>su. su\<lparr>su_folderid := sb_folderid form, su_title := sb_title form, su_content := content,
                   su_subtype := sb_subtype form, su_rating := rating_code rating, su_friends_only := friends_only,
                   su_critique := critique\<rparr>) (t_submission db)\<rparr>"

definition submission_edit ::
  "staff_sets \<Rightarrow> embed_env \<Rightarrow> int \<Rightarrow> date \<Rightarrow> int \<Rightarrow> submission_form \<Rightarrow> string \<Rightarrow> bool \<Rightarrow> bool \<Rightarrow> 'a media_db_scheme
     \<Rightarrow> unit result \<times> 'a media_db_scheme" where
  "submission_edit st embeds now today userid form embedlink friends_only critique db =
     (case find_submission (sb_submitid form) db of
        None \<Rightarrow> (Inl (WeasylError ''Unexpected''), db)
      | Some su \<Rightarrow>
          if su_hidden su then (Inl (WeasylError ''Unexpected''), db)
          else if userid \<noteq> su_userid su \<and> userid \<notin> MODS st then (Inl (WeasylError ''InsufficientPermissions''), db)
          else if sb_title form = [] then (Inl (WeasylError ''titleInvalid''), db)
          else
            (case sb_rating form of
               None \<Rightarrow> (Inl (WeasylError ''Unexpected''), db)
             | Some rating \<Rightarrow>
                 if \<not> folder_check (su_userid su) (case sb_folderid form of None \<Rightarrow> 0 | Some i \<Rightarrow> i) [] None True db
                 then (Inl (WeasylError ''Unexpected''), db)
                 else if sb_subtype form div 1000 \<noteq> su_subtype su div 1000 then (Inl (WeasylError ''Unexpected''), db)
                 else
                   and_then (edited_embedlink embeds (su_embed_type su) embedlink, db) (\<lambda>embedlink db.
                     and_then (allow_own_rating today userid (su_userid su) rating db) (\<lambda>_ db.
                       let content = (if su_embed_type su = Some ''other'' then embedlink @ [newline] @ sb_content form
                                      else sb_content form);
                           db = (if friends_only then submission_became_friends_only (sb_submitid form) (su_userid su) db else db);
                           db = change_submission form rating content friends_only critique db;
                           db = (if su_embed_type su = Some ''google-drive'' then
                                   db\<lparr>t_google_doc_embeds := update_where (\<lambda>ge. ge_submitid ge = sb_submitid form)
                                        (\<lambda>ge. ge\<lparr>ge_embed_url := embedlink\<rparr>) (t_google_doc_embeds db)\<rparr>
                                 else db);
                           db = (if userid \<noteq> su_userid su then
                                   note_about now userid (su_userid su) ''The following submission was edited:''
                                     (''- '' @ markdown_link (sb_title form)
                                        (''/submission/'' @ show_int (sb_submitid form) @ ''?anyway=true'')) db
                                 else db);
                           db = posts_count_invalidate (su_userid su) db
                       in (Inr (), invalidate_collectors_posts_count (sb_submitid form) db)))))"

definition submission_remove :: "staff_sets \<Rightarrow> int \<Rightarrow> int \<Rightarrow> 'a content_db_scheme \<Rightarrow> int option result \<times> 'a content_db_scheme" where
  "submission_remove st userid submitid db =
     (let ownerid = get_ownerid submitid 0 0 db
      in if userid \<notin> MODS st \<and> Some userid \<noteq> ownerid then (Inl (WeasylError ''InsufficientPermissions''), db)
         else
           (let hit = (\<lambda>su. su_submitid su = submitid \<and> \<not> su_hidden su);
                rowcount = count_where hit (t_submission db);
                db = db\<lparr>t_submission := update_where hit (\<lambda>su. su\<lparr>su_hidden := True\<rparr>) (t_submission db)\<rparr>
            in if rowcount \<noteq> 0 then
                 (let db = welcome_submission_remove submitid db;
                      db = (case ownerid of None \<Rightarrow> db | Some owner \<Rightarrow> posts_count_invalidate owner db)
                  in (Inr ownerid, invalidate_collectors_posts_count submitid db))
               else (Inr ownerid, db)))"

subsection \<open>The front page lists\<close>

text \<open>\<open>INNER JOIN submission_tags INNER JOIN profile\<close>: the row, its tag ids and the name.\<close>

definition tagged_submissions :: "(submission_row \<Rightarrow> bool) \<Rightarrow> 'a tags_db_scheme \<Rightarrow> (submission_row \<times> int list \<times> string) list" where
  "tagged_submissions P db =
     List.map_filter (\<lambda>su.
         if \<not> su_hidden su \<and> \<not> su_friends_only su \<and> P su then
           Option.bind (find (\<lambda>tg. tg_submitid tg = su_submitid su) (t_submission_tags db))
             (\<lambda>tg. map_option (\<lambda>name. (su, tg_tags tg, name)) (username_of (su_userid su) db))
         else None) (t_submission db)"

definition strip_non_thumbnail_media :: "(string \<times> 'm) list \<Rightarrow> (string \<times> 'm) list" where
  "strip_non_thumbnail_media sub_media =
     filter (\<lambda>(link_type, _). link_type \<notin> {''thumbnail-source'', ''cover'', ''submission''}) sub_media"

definition with_thumbnails ::
  "(submission_row \<times> 'n) list \<Rightarrow> 'a media_db_scheme
     \<Rightarrow> ((submission_row \<times> 'n) \<times> (string \<times> media_row list option) list) list \<times> 'a media_db_scheme" where
  "with_thumbnails rows db =
     (let (populated, db) = populate_with_submission_media rows db
      in (map (map_prod id strip_non_thumbnail_media) populated, db))"

definition popularity :: "submission_row \<Rightarrow> real" where
  "popularity su = log 10 (real_of_int (su_favorites su)) + real_of_int (su_unixtime su) / 180000"

definition select_recently_popular ::
  "'a media_db_scheme
     \<Rightarrow> ((submission_row \<times> int list \<times> string) \<times> (string \<times> media_row list option) list) list \<times> 'a media_db_scheme" where
  "select_recently_popular db =
     with_thumbnails (take 128 (sort_key (\<lambda>(su, _). - popularity su)
       (tagged_submissions (\<lambda>su. su_favorites su > 0 \<and> su_browse_excluded su \<noteq> Some True) db))) db"

definition select_critique ::
  "'a media_db_scheme
     \<Rightarrow> ((submission_row \<times> int list \<times> string) \<times> (string \<times> media_row list option) list) list \<times> 'a media_db_scheme" where
  "select_critique db =
     with_thumbnails (take 128 (newest_first (\<lambda>(su, _). su_submitid su) (tagged_submissions su_critique db))) db"

end
