(* ===== verification/Messages.thy ===== *)
theory Messages
  imports Accounts Submissions Journals Characters
begin

text \<open>
  The notification pages: \<^verbatim>\<open>weasyl/message.py\<close> and its controller. A notification is a dictionary; the fields
  every query gives are those of the record, the others are \<open>nf_fields\<close>. \<open>ORDER BY unixtime DESC\<close> leaves the order
  of equal times open; here it is the newest row first. Media of the submissions are those of
  \<open>populate_with_submission_media\<close> and left out, and so are the paths of a character's images.
\<close>

subsection \<open>Clusters\<close>

record notification =
  nf_type :: int
  nf_id :: int
  nf_unixtime :: int
  nf_fields :: "(string \<times> json) list"

record cluster =
  cl_heading :: string
  cl_id :: string
  cl_items :: "notification list"

definition NOTIFICATION_CLUSTERS :: "(int list \<times> string \<times> string) list" where
  "NOTIFICATION_CLUSTERS =
     [([1010], ''Journals'', ''journals''),
      ([3010], ''Followers'', ''followers''),
      ([3020, 3100, 3110, 3050], ''User Favorites'', ''user_favorites''),
      ([3030, 3035], ''Collection Offers'', ''collection_offers''),
      ([3070, 3075], ''Streaming'', ''streaming''),
      ([3080], ''Friend Requests'', ''friend_requests''),
      ([3085], ''Friend Confirmations'', ''friend_confirmations''),
      ([3140], ''Submission Tag Changes'', ''submission_tag_changes''),
      ([4010, 4015], ''Shouts'', ''shouts''),
      ([4016], ''Staff Notes'', ''staff_notes''),
      ([4020, 4025, 4050], ''Submission Comments'', ''submission_comments''),
      ([4030, 4035, 4060, 4065], ''Journal Comments'', ''journal_comments''),
      ([4040, 4045], ''Character Comments'', ''character_comments'')]"

definition CLUSTER_INDEXES :: "(int \<times> nat) list" where
  "CLUSTER_INDEXES =
     concat (map (\<lambda>(i, types, _). map (\<lambda>t. (t, i)) types) (enumerate 0 NOTIFICATION_CLUSTERS))"

definition NOTIFICATIONS_PAGE_TYPES :: "int list" where
  "NOTIFICATIONS_PAGE_TYPES = concat (map fst NOTIFICATION_CLUSTERS)"

definition get_cluster_index :: "notification \<Rightarrow> nat result" where
  "get_cluster_index n = (case map_of CLUSTER_INDEXES (nf_type n) of None \<Rightarrow> Inl KeyError | Some i \<Rightarrow> Inr i)"

text \<open>\<open>itertools.groupby\<close>: runs of equal keys.\<close>

fun groupby :: "('a \<Rightarrow> 'k) \<Rightarrow> 'a list \<Rightarrow> ('k \<times> 'a list) list" where
  "groupby key [] = []"
| "groupby key (x # xs) =
     (case groupby key xs of
        (k, ys) # gs \<Rightarrow> if k = key x then (k, x # ys) # gs else (key x, [x]) # (k, ys) # gs
      | [] \<Rightarrow> [(key x, [x])])"

fun make_clusters :: "(nat result \<times> notification list) list \<Rightarrow> cluster list result" where
  "make_clusters [] = Inr []"
| "make_clusters ((Inl e, ns) # gs) = Inl e"
| "make_clusters ((Inr i, ns) # gs) =
     (let (types, heading, ident) = NOTIFICATION_CLUSTERS ! i
      in map_sum id (\<lambda>cs. \<lparr>cl_heading = heading, cl_id = ident, cl_items = sort_key (\<lambda>n. - nf_unixtime n) ns\<rparr> # cs)
           (make_clusters gs))"

definition clusters :: "notification list \<Rightarrow> cluster list result" where
  "clusters notifications = make_clusters (groupby get_cluster_index notifications)"

subsection \<open>Removing\<close>

definition messages_remove :: "int \<Rightarrow> int list \<Rightarrow> 'a social_db_scheme \<Rightarrow> 'a social_db_scheme" where
  "messages_remove userid messages db =
     (if messages = [] then db
      else page_header_invalidate userid
             (delete_welcome (\<lambda>we. we_userid we = userid \<and> we_welcomeid we \<in> set messages) db))"

definition remove_all_before :: "int \<Rightarrow> int \<Rightarrow> 'a social_db_scheme \<Rightarrow> 'a social_db_scheme" where
  "remove_all_before userid before db =
     page_header_invalidate userid
       (delete_welcome (\<lambda>we. we_userid we = userid \<and> we_type we \<in> set NOTIFICATIONS_PAGE_TYPES \<and> we_unixtime we < before) db)"

definition remove_all_submissions :: "int \<Rightarrow> int \<Rightarrow> 'a social_db_scheme \<Rightarrow> 'a social_db_scheme" where
  "remove_all_submissions userid only_before db =
     page_header_invalidate userid
       (delete_welcome (\<lambda>we. we_userid we = userid \<and> we_type we \<in> {2010, 2030, 2050} \<and> we_unixtime we < only_before) db)"

subsection \<open>The queries\<close>

text \<open>
  One query: the rows of the user with these types, joined with other tables by \<open>joined\<close>, which gives the fields, or
  nothing when a joined row is missing.
\<close>

definition notices ::
  "int \<Rightarrow> int list \<Rightarrow> (welcome_row \<Rightarrow> (string \<times> json) list option) \<Rightarrow> 'a content_db_scheme \<Rightarrow> notification list" where
  "notices userid types joined db =
     newest_first nf_unixtime (List.map_filter (\<lambda>we.
         if we_userid we = userid \<and> we_type we \<in> set types then
           map_option (\<lambda>fs. \<lparr>nf_type = we_type we, nf_id = we_welcomeid we, nf_unixtime = we_unixtime we, nf_fields = fs\<rparr>)
             (joined we)
         else None) (t_welcome db))"

text \<open>\<open>JOIN profile pr ON we.otherid = pr.userid\<close>, with the fields \<open>userid\<close> and \<open>username\<close>.\<close>

definition with_user ::
  "'a content_db_scheme \<Rightarrow> (welcome_row \<Rightarrow> (string \<times> json) list option) \<Rightarrow> welcome_row \<Rightarrow> (string \<times> json) list option" where
  "with_user db joined we =
     Option.bind (username_of (we_otherid we) db) (\<lambda>name.
       map_option (\<lambda>fs. (''userid'', J_int (we_otherid we)) # (''username'', J_string name) # fs) (joined we))"

definition submission_fields :: "'a content_db_scheme \<Rightarrow> int \<Rightarrow> (string \<times> json) list option" where
  "submission_fields db i =
     map_option (\<lambda>su. [(''submitid'', J_int i), (''title'', J_string (su_title su))]) (find_submission i db)"

definition character_fields :: "'a content_db_scheme \<Rightarrow> int \<Rightarrow> (string \<times> json) list option" where
  "character_fields db i =
     map_option (\<lambda>ch. [(''charid'', J_int i), (''title'', J_string (ch_char_name ch))])
       (find (\<lambda>ch. ch_charid ch = i) (t_character db))"

definition journal_fields :: "'a content_db_scheme \<Rightarrow> int \<Rightarrow> (string \<times> json) list option" where
  "journal_fields db i =
     map_option (\<lambda>jo. [(''journalid'', J_int i), (''title'', J_string (jo_title jo))])
       (find (\<lambda>jo. jo_journalid jo = i) (t_journal db))"

definition update_fields :: "'a content_db_scheme \<Rightarrow> int \<Rightarrow> (string \<times> json) list option" where
  "update_fields db i =
     map_option (\<lambda>up. [(''updateid'', J_int i), (''title'', J_string (sit_title up))])
       (find (\<lambda>up. sit_updateid up = i) (t_siteupdate db))"

definition select_journals :: "bool \<Rightarrow> int \<Rightarrow> 'a content_db_scheme \<Rightarrow> notification list result \<times> 'a content_db_scheme" where
  "select_journals sfw_mode userid db =
     and_then (get_rating sfw_mode userid db) (\<lambda>rating db.
       (Inr (notices userid [1010] (with_user db (\<lambda>we.
          if exists_where (\<lambda>jo. jo_journalid jo = we_targetid we \<and> jo_rating jo \<le> rating) (t_journal db)
          then journal_fields db (we_targetid we) else None)) db), db))"

definition stream_fields :: "'a content_db_scheme \<Rightarrow> welcome_row \<Rightarrow> (string \<times> json) list option" where
  "stream_fields db we = map_option (\<lambda>pr. [(''stream_url'', J_string (pr_stream_url pr))]) (profile_of (we_otherid we) db)"

definition select_notifications :: "int \<Rightarrow> 'a content_db_scheme \<Rightarrow> notification list" where
  "select_notifications userid db =
     notices userid [3070, 3075] (with_user db (stream_fields db)) db
     @ notices userid [3030, 3035] (with_user db (\<lambda>we. submission_fields db (we_targetid we))) db
     @ notices userid [3010] (with_user db (\<lambda>_. Some [])) db
     @ notices userid [3080] (with_user db (\<lambda>_. Some [])) db
     @ notices userid [3085] (with_user db (\<lambda>_. Some [])) db
     @ notices userid [3020] (with_user db (\<lambda>we. submission_fields db (we_referid we))) db
     @ notices userid [3050] (with_user db (\<lambda>we. submission_fields db (we_referid we))) db
     @ notices userid [3100] (with_user db (\<lambda>we. character_fields db (we_referid we))) db
     @ notices userid [3110] (with_user db (\<lambda>we. journal_fields db (we_referid we))) db
     @ notices userid [3140] (\<lambda>we. submission_fields db (we_otherid we)) db"


text \<open>A reply is shown with the comment it answers, and where that one stands.\<close>

definition reply_fields :: "welcome_row \<Rightarrow> (string \<times> json) list" where
  "reply_fields we = [(''replyid'', J_int (we_referid we)), (''commentid'', J_int (we_targetid we))]"

definition commented :: "(string \<times> json) list option \<Rightarrow> welcome_row \<Rightarrow> (string \<times> json) list option" where
  "commented fs we = map_option (\<lambda>fs. fs @ [(''commentid'', J_int (we_targetid we))]) fs"

definition shout_reply_fields :: "'a content_db_scheme \<Rightarrow> welcome_row \<Rightarrow> (string \<times> json) list option" where
  "shout_reply_fields db we =
     Option.bind (find (\<lambda>cm. cm_commentid cm = we_referid we) (t_comments db)) (\<lambda>sh.
       Option.bind (cm_target_user sh) (\<lambda>ownerid.
         map_option (\<lambda>ownername. [(''ownerid'', J_int ownerid), (''ownername'', J_string ownername)] @ reply_fields we)
           (username_of ownerid db)))"

definition submission_reply_fields :: "'a content_db_scheme \<Rightarrow> welcome_row \<Rightarrow> (string \<times> json) list option" where
  "submission_reply_fields db we =
     Option.bind (find (\<lambda>cm. cm_commentid cm = we_referid we) (t_comments db)) (\<lambda>sc.
       Option.bind (cm_target_sub sc) (\<lambda>i. map_option (\<lambda>fs. fs @ reply_fields we) (submission_fields db i)))"

definition character_reply_fields :: "'a content_db_scheme \<Rightarrow> welcome_row \<Rightarrow> (string \<times> json) list option" where
  "character_reply_fields db we =
     Option.bind (find (\<lambda>cc. cc_commentid cc = we_referid we) (t_charcomment db)) (\<lambda>cc.
       map_option (\<lambda>fs. fs @ reply_fields we) (character_fields db (cc_targetid cc)))"

definition journal_reply_fields :: "'a content_db_scheme \<Rightarrow> welcome_row \<Rightarrow> (string \<times> json) list option" where
  "journal_reply_fields db we =
     Option.bind (find (\<lambda>jc. jc_commentid jc = we_referid we) (t_journalcomment db)) (\<lambda>jc.
       map_option (\<lambda>fs. fs @ reply_fields we) (journal_fields db (jc_targetid jc)))"

definition update_reply_fields :: "'a content_db_scheme \<Rightarrow> welcome_row \<Rightarrow> (string \<times> json) list option" where
  "update_reply_fields db we =
     Option.bind (find (\<lambda>sc. sc_commentid sc = we_referid we) (t_siteupdatecomment db)) (\<lambda>uc.
       map_option (\<lambda>fs. fs @ reply_fields we) (update_fields db (sc_targetid uc)))"

text \<open>The queries of \<open>select_comments\<close>; \<open>current_username\<close> is the user's own login name.\<close>

definition comment_notices :: "int \<Rightarrow> string \<Rightarrow> 'a content_db_scheme \<Rightarrow> notification list" where
  "comment_notices userid current_username db =
     notices userid [4010] (with_user db (\<lambda>we. commented (Some [(''ownername'', J_string current_username)]) we)) db
     @ notices userid [4015] (with_user db (shout_reply_fields db)) db
     @ notices userid [4016] (with_user db (shout_reply_fields db)) db
     @ notices userid [4020] (with_user db (\<lambda>we. commented (submission_fields db (we_referid we)) we)) db
     @ notices userid [4025] (with_user db (submission_reply_fields db)) db
     @ notices userid [4050] (with_user db (\<lambda>we. commented (submission_fields db (we_referid we)) we)) db
     @ notices userid [4040] (with_user db (\<lambda>we. commented (character_fields db (we_referid we)) we)) db
     @ notices userid [4045] (with_user db (character_reply_fields db)) db
     @ notices userid [4030] (with_user db (\<lambda>we. commented (journal_fields db (we_referid we)) we)) db
     @ notices userid [4035] (with_user db (journal_reply_fields db)) db
     @ notices userid [4060] (with_user db (\<lambda>we. commented (update_fields db (we_referid we)) we)) db
     @ notices userid [4065] (with_user db (update_reply_fields db)) db"

definition select_comments ::
  "(ustr \<Rightarrow> ustr) \<Rightarrow> int \<Rightarrow> 'a content_db_scheme \<Rightarrow> notification list result \<times> 'a content_db_scheme" where
  "select_comments lower userid db =
     and_then (get_username lower userid db) (\<lambda>username db.
       (Inr (comment_notices userid (to_string (un_sysname username)) db), db))"

text \<open>
  The notifications page: the sections that are not empty, each in clusters. The counts of the page header are
  computed anew and put into the cache.
\<close>

definition page_section :: "string option \<Rightarrow> notification list \<Rightarrow> (cluster list result \<times> string option) list" where
  "page_section ident notifications = (if notifications \<noteq> [] then [(clusters notifications, ident)] else [])"

definition page_header_refresh :: "bool \<Rightarrow> int \<Rightarrow> 'a content_db_scheme \<Rightarrow> unit result \<times> 'a content_db_scheme" where
  "page_header_refresh sfw_mode userid db =
     and_then (cached_page_header sfw_mode userid (page_header_invalidate userid db)) (\<lambda>_ db. (Inr (), db))"

definition messages_notifications ::
  "(ustr \<Rightarrow> ustr) \<Rightarrow> bool \<Rightarrow> int \<Rightarrow> 'a content_db_scheme \<Rightarrow> (cluster list result \<times> string option) list result \<times> 'a content_db_scheme" where
  "messages_notifications lower sfw_mode userid db =
     and_then (select_comments lower userid db) (\<lambda>comments db.
       let notifications = select_notifications userid db
       in and_then (select_journals sfw_mode userid db) (\<lambda>journals db.
            and_then (page_header_refresh sfw_mode userid db) (\<lambda>_ db.
              (Inr (page_section (Some ''comments'') comments @ page_section (Some ''notifications'') notifications
                    @ page_section None journals), db))))"

subsection \<open>Submissions and characters\<close>

record message_item =
  in_contype :: int
  in_id :: int
  in_welcomeid :: int
  in_title :: string
  in_rating :: int
  in_unixtime :: int
  in_userid :: int
  in_username :: string
  in_subtype :: int
  in_tags :: "int list"

text \<open>\<open>INNER JOIN submission_tags\<close>; the ids of the tags, when they are asked for.\<close>

definition submission_message_item ::
  "bool \<Rightarrow> int \<Rightarrow> int \<Rightarrow> welcome_row \<Rightarrow> int \<Rightarrow> submission_row \<Rightarrow> 'a tags_db_scheme \<Rightarrow> message_item option" where
  "submission_message_item include_tags contype rating we userid su db =
     (if su_rating su \<le> rating then
        Option.bind (username_of userid db) (\<lambda>name.
          map_option (\<lambda>tags. \<lparr>in_contype = contype, in_id = su_submitid su, in_welcomeid = we_welcomeid we,
              in_title = su_title su, in_rating = su_rating su, in_unixtime = we_unixtime we, in_userid = userid,
              in_username = name, in_subtype = su_subtype su, in_tags = tags\<rparr>)
            (if include_tags then map_option tg_tags (find (\<lambda>tg. tg_submitid tg = su_submitid su) (t_submission_tags db))
             else Some []))
      else None)"

definition message_item_of :: "bool \<Rightarrow> int \<Rightarrow> 'a tags_db_scheme \<Rightarrow> welcome_row \<Rightarrow> message_item option" where
  "message_item_of include_tags rating db we =
     (if we_type we = 2050 then
        Option.bind (find (\<lambda>ch. ch_charid ch = we_targetid we) (t_character db)) (\<lambda>ch.
          if ch_rating ch \<le> rating then
            map_option (\<lambda>name. \<lparr>in_contype = 20, in_id = ch_charid ch, in_welcomeid = we_welcomeid we,
                in_title = ch_char_name ch, in_rating = ch_rating ch, in_unixtime = we_unixtime we, in_userid = ch_userid ch,
                in_username = name, in_subtype = 0,
                in_tags = (if include_tags then map sm_tagid (filter (\<lambda>sm. sm_targetid sm = ch_charid ch) (t_searchmapchar db)) else [])\<rparr>)
              (username_of (ch_userid ch) db)
          else None)
      else
        Option.bind (find_submission (we_targetid we) db) (\<lambda>su.
          if we_type we = 2030 then submission_message_item include_tags 40 rating we (we_otherid we) su db
          else submission_message_item include_tags 10 rating we (su_userid su) su db))"

text \<open>One of the three selects of the union, with its own limit.\<close>

definition inbox_select :: "bool \<Rightarrow> int \<Rightarrow> int \<Rightarrow> nat \<Rightarrow> int \<Rightarrow> int \<Rightarrow> int \<Rightarrow> 'a tags_db_scheme \<Rightarrow> message_item list" where
  "inbox_select include_tags type rating limit userid backtime nexttime db =
     take limit (newest_first in_welcomeid (List.map_filter (\<lambda>we.
         if we_type we = type \<and> we_userid we = userid
            \<and> (if backtime \<noteq> 0 then we_unixtime we > backtime else nexttime \<noteq> 0 \<longrightarrow> we_unixtime we < nexttime)
         then message_item_of include_tags rating db we else None) (t_welcome db)))"

text \<open>The tags of the result are names; an id without a name raises \<open>KeyError\<close>.\<close>

definition tag_names_of :: "(int \<times> string option) list \<Rightarrow> int list \<Rightarrow> string list result" where
  "tag_names_of names tags =
     (if list_all (\<lambda>i. case map_of names i of Some (Some _) \<Rightarrow> True | _ \<Rightarrow> False) tags
      then Inr (sort (map (\<lambda>i. case map_of names i of Some (Some name) \<Rightarrow> name | _ \<Rightarrow> []) tags)) else Inl KeyError)"

fun name_inbox_tags :: "(int \<times> string option) list \<Rightarrow> message_item list \<Rightarrow> (message_item \<times> string list) list result" where
  "name_inbox_tags names [] = Inr []"
| "name_inbox_tags names (i # items) =
     (case (tag_names_of names (in_tags i), name_inbox_tags names items) of
        (Inl e, _) \<Rightarrow> Inl e
      | (Inr tags, r) \<Rightarrow> map_sum id ((#) (i, tags)) r)"

definition select_submissions ::
  "bool \<Rightarrow> int \<Rightarrow> nat \<Rightarrow> bool \<Rightarrow> int \<Rightarrow> int \<Rightarrow> 'a tags_db_scheme \<Rightarrow> (message_item \<times> string list) list result \<times> 'a tags_db_scheme" where
  "select_submissions sfw_mode userid limit include_tags backtime nexttime db =
     and_then (get_rating sfw_mode userid db) (\<lambda>rating db.
       let query = take limit (newest_first in_welcomeid
             (inbox_select include_tags 2050 rating limit userid backtime nexttime db
              @ inbox_select include_tags 2030 rating limit userid backtime nexttime db
              @ inbox_select include_tags 2010 rating limit userid backtime nexttime db))
       in if include_tags then
            (let (names, db) = get_names (remdups (concat (map in_tags query))) db
             in (name_inbox_tags names query, db))
          else (Inr (map (\<lambda>i. (i, [])) query), db))"

end
