(* ===== verification/Profiles.thy ===== *)
theory Profiles
  imports Config_Codes Login_Sessions Submissions
begin

text \<open>
  Profiles: \<^verbatim>\<open>weasyl/profile.py\<close> (ages are in \<open>Ages\<close>, passwords and sessions in \<open>Login_Sessions\<close>,
  \<open>Config\<close> and \<open>ProfileSettings\<close> in \<open>Config_Codes\<close> and \<open>Collections\<close>). \<open>now\<close> is the time and \<open>today\<close> the day of
  the call. The flags of \<open>profile.config\<close> and \<open>profile.settings\<close> are kept next to columns that say the same.
\<close>

subsection \<open>Exchange settings\<close>

datatype exchange_type = EXCHANGE_TYPE_TRADE | EXCHANGE_TYPE_REQUEST | EXCHANGE_TYPE_COMMISSION

fun exchange_code :: "profile_status \<Rightarrow> string" where
  "exchange_code PS_open = ''o''"
| "exchange_code PS_sometimes = ''s''"
| "exchange_code PS_filled = ''f''"
| "exchange_code PS_closed = ''c''"
| "exchange_code PS_exclude = ''e''"

definition ALL_EXCHANGE_SETTINGS :: "profile_status list" where
  "ALL_EXCHANGE_SETTINGS = [PS_open, PS_sometimes, PS_filled, PS_closed, PS_exclude]"

fun ALLOWABLE_EXCHANGE_CODES :: "exchange_type \<Rightarrow> string" where
  "ALLOWABLE_EXCHANGE_CODES EXCHANGE_TYPE_TRADE = ''osce''"
| "ALLOWABLE_EXCHANGE_CODES EXCHANGE_TYPE_REQUEST = ''osce''"
| "ALLOWABLE_EXCHANGE_CODES EXCHANGE_TYPE_COMMISSION = ''osfce''"

text \<open>\<open>code not in\<close> a string: any substring is in it.\<close>

definition substring :: "string \<Rightarrow> string \<Rightarrow> bool" where
  "substring p s = list_ex (\<lambda>i. take (length p) (drop i s) = p) [0..<length s + 1]"

definition get_exchange_setting :: "exchange_type \<Rightarrow> string \<Rightarrow> profile_status result" where
  "get_exchange_setting exchange_type code =
     (if \<not> substring code (ALLOWABLE_EXCHANGE_CODES exchange_type) then Inr PS_closed
      else (case map_of (map (\<lambda>s. (exchange_code s, s)) ALL_EXCHANGE_SETTINGS) code of
              None \<Rightarrow> Inl KeyError | Some s \<Rightarrow> Inr s))"

subsection \<open>Showing a profile\<close>

definition resolve_by_username ::
  "(ustr \<Rightarrow> string option) \<Rightarrow> ustr \<Rightarrow> 'a accounts_db_scheme \<Rightarrow> int \<times> 'a accounts_db_scheme" where
  "resolve_by_username sysname_of username db =
     (let (ids, db) = get_userids sysname_of [username] db in (case map_of ids username of None \<Rightarrow> 0 | Some i \<Rightarrow> i, db))"

text \<open>\<open>otherid\<close> is the number \<open>get_int\<close> reads from it; no account has the id 0.\<close>

definition resolve ::
  "(ustr \<Rightarrow> string option) \<Rightarrow> int \<Rightarrow> int \<Rightarrow> ustr \<Rightarrow> 'a accounts_db_scheme \<Rightarrow> int \<times> 'a accounts_db_scheme" where
  "resolve sysname_of userid otherid othername db =
     (let result = (if otherid \<noteq> 0 then map_option lo_userid (find (\<lambda>lo. lo_userid lo = otherid) (t_login db)) else None)
      in if result \<noteq> None \<and> result \<noteq> Some 0 then (the result, db)
         else if othername \<noteq> [] then resolve_by_username sysname_of othername db
         else if userid \<noteq> 0 then (userid, db)
         else (0, db))"

datatype streaming_status = Stream_stopped | Stream_later | Stream_started

definition streaming_status_of :: "int \<Rightarrow> profile_row \<Rightarrow> 'a accounts_db_scheme \<Rightarrow> streaming_status" where
  "streaming_status_of now pr db =
     (if pr_stream_url pr = [] then Stream_stopped
      else if has_flag (CHR ''l'') (pr_settings pr) then Stream_later
      else
        (case find (\<lambda>us. us_userid us = pr_userid pr) (t_user_streams db) of
           None \<Rightarrow> Stream_stopped
         | Some us \<Rightarrow> if us_end_time us > now then Stream_started else Stream_stopped))"

record profile_view =
  pv_profile :: profile_row
  pv_user_media :: "(string \<times> media_row list option) list"
  pv_show_favorites_bar :: bool
  pv_show_favorites_tab :: bool
  pv_banned :: bool
  pv_suspended :: bool
  pv_streaming_status :: streaming_status

definition select_profile :: "int \<Rightarrow> int \<Rightarrow> int option \<Rightarrow> 'a media_db_scheme \<Rightarrow> profile_view result \<times> 'a media_db_scheme" where
  "select_profile now userid viewer db =
     (case profile_of userid db of
        None \<Rightarrow> (Inl (WeasylError ''userRecordMissing''), db)
      | Some pr \<Rightarrow>
          and_then (get_login_settings userid db) (\<lambda>(banned, suspended) db.
            let status = streaming_status_of now pr db;
                (user_media, db) = get_user_media userid db;
                hidden = has_flag (CHR ''v'') (pr_config pr)
            in (Inr \<lparr>pv_profile = pr, pv_user_media = user_media,
                     pv_show_favorites_bar = (\<not> has_flag (CHR ''u'') (pr_config pr) \<and> \<not> hidden),
                     pv_show_favorites_tab = (Some userid = viewer \<or> \<not> hidden), pv_banned = banned,
                     pv_suspended = suspended, pv_streaming_status = status\<rparr>, db)))"

record myself =
  me_userid :: int
  me_username :: string
  me_is_mod :: bool
  me_is_verified :: bool
  me_user_media :: "(string \<times> media_row list option) list"

definition select_myself :: "staff_sets \<Rightarrow> int \<Rightarrow> 'a media_db_scheme \<Rightarrow> myself option result \<times> 'a media_db_scheme" where
  "select_myself st userid db =
     (if userid = 0 then (Inr None, db)
      else
        and_then (get_display_name userid db) (\<lambda>username db.
          and_then (get_is_vouched_for userid db) (\<lambda>verified db.
            let (user_media, db) = get_user_media userid db
            in (Inr (Some \<lparr>me_userid = userid, me_username = username, me_is_mod = (userid \<in> MODS st),
                           me_is_verified = verified, me_user_media = user_media\<rparr>), db))))"

text \<open>The links of a user by type, the values of a type in order, and the types in the order of their lower case.\<close>

definition grouped_links :: "int \<Rightarrow> 'a accounts_db_scheme \<Rightarrow> (string \<times> string list) list" where
  "grouped_links userid db =
     (let rows = filter (\<lambda>ul. ul_userid ul = userid) (t_user_links db)
      in map (\<lambda>t. (t, sort (map ul_link_value (filter (\<lambda>ul. ul_link_type ul = t) rows)))) (remdups (map ul_link_type rows)))"

definition sort_user_links :: "(string \<times> string list) list \<Rightarrow> (string \<times> string list) list" where
  "sort_user_links links = sort_key (\<lambda>(t, _). lower_ascii t) links"

record userinfo_view =
  uv_birthday :: "date option"
  uv_age :: "int option"
  uv_show_age :: bool
  uv_gender :: string
  uv_country :: string
  uv_user_links :: "(string \<times> string list) list"
  uv_sorted_user_links :: "(string \<times> string list) list"

text \<open>A user without a row makes an attribute of \<open>None\<close>. \<open>viewer\<close> is the user of the request.\<close>

definition select_userinfo :: "staff_sets \<Rightarrow> date \<Rightarrow> int \<Rightarrow> int \<Rightarrow> string \<Rightarrow> 'a accounts_db_scheme \<Rightarrow> userinfo_view result" where
  "select_userinfo st today viewer userid config db =
     (case find (\<lambda>ui. ui_userid ui = userid) (t_userinfo db) of
        None \<Rightarrow> Inl AttributeError
      | Some ui \<Rightarrow>
          (let links = grouped_links userid db;
               show_age = (has_flag (CHR ''b'') config \<or> viewer \<in> MODS st)
           in Inr \<lparr>uv_birthday = ui_birthday ui,
                   uv_age = (if show_age then map_option (age_in_years today) (ui_birthday ui) else None),
                   uv_show_age = has_flag (CHR ''b'') config, uv_gender = ui_gender ui, uv_country = ui_country ui,
                   uv_user_links = links, uv_sorted_user_links = sort_user_links links\<rparr>))"

record user_relation =
  re_follow :: bool
  re_friend :: bool
  re_ignore :: bool
  re_friendreq :: bool
  re_follower :: bool
  re_is_self :: bool

definition select_relation :: "int \<Rightarrow> int \<Rightarrow> 'a social_db_scheme \<Rightarrow> user_relation" where
  "select_relation userid otherid db =
     (if userid = 0 \<or> userid = otherid then
        \<lparr>re_follow = False, re_friend = False, re_ignore = False, re_friendreq = False, re_follower = False,
         re_is_self = (userid = otherid)\<rparr>
      else
        \<lparr>re_follow = exists_where (\<lambda>wu. (wu_userid wu, wu_otherid wu) = (userid, otherid)) (t_watchuser db),
         re_friend = exists_where (\<lambda>fu. fu_userid fu \<in> {userid, otherid} \<and> fu_otherid fu \<in> {userid, otherid}
                        \<and> \<not> fu_pending fu) (t_frienduser db),
         re_ignore = exists_where (\<lambda>iu. (iu_userid iu, iu_otherid iu) = (userid, otherid)) (t_ignoreuser db),
         re_friendreq = exists_where (\<lambda>fu. (fu_userid fu, fu_otherid fu) = (userid, otherid) \<and> fu_pending fu) (t_frienduser db),
         re_follower = exists_where (\<lambda>wu. (wu_userid wu, wu_otherid wu) = (otherid, userid)) (t_watchuser db),
         re_is_self = False\<rparr>)"

record statistics =
  stt_page_views :: "int option"
  stt_faves_sent :: int
  stt_faves_received :: int
  stt_followed :: int
  stt_following :: int
  stt_submissions :: int
  stt_journals :: int
  stt_staff_notes :: int

text \<open>The favorites of a character or a journal: the join counts a favorite for each row of the table.\<close>

definition favorites_received :: "string \<Rightarrow> int list \<Rightarrow> 'a content_db_scheme \<Rightarrow> int" where
  "favorites_received type ids db =
     sum_list (map (\<lambda>fa. int (length (filter (\<lambda>i. i = fa_targetid fa) ids))) (filter (\<lambda>fa. fa_type fa = type) (t_favorite db)))"

definition query_statistics :: "int \<Rightarrow> 'a content_db_scheme \<Rightarrow> statistics" where
  "query_statistics userid db =
     \<lparr>stt_page_views = map_option pr_page_views (profile_of userid db),
      stt_faves_sent = count_where (\<lambda>fa. fa_userid fa = userid) (t_favorite db),
      stt_faves_received =
        sum_list (map su_favorites (filter (\<lambda>su. su_userid su = userid) (t_submission db)))
        + favorites_received ''f'' (map ch_charid (filter (\<lambda>ch. ch_userid ch = userid) (t_character db))) db
        + favorites_received ''j'' (map jo_journalid (filter (\<lambda>jo. jo_userid jo = userid) (t_journal db))) db,
      stt_followed = count_where (\<lambda>wu. wu_otherid wu = userid) (t_watchuser db),
      stt_following = count_where (\<lambda>wu. wu_userid wu = userid) (t_watchuser db),
      stt_submissions = count_where (\<lambda>su. su_userid su = userid \<and> \<not> su_hidden su) (t_submission db),
      stt_journals = count_where (\<lambda>jo. jo_userid jo = userid \<and> \<not> jo_hidden jo) (t_journal db),
      stt_staff_notes = count_where (\<lambda>cm. cm_target_user cm = Some userid \<and> \<not> has_flag (CHR ''h'') (cm_settings cm)
                                          \<and> has_flag (CHR ''s'') (cm_settings cm)) (t_comments db)\<rparr>"

definition select_statistics :: "staff_sets \<Rightarrow> int \<Rightarrow> int \<Rightarrow> 'a content_db_scheme \<Rightarrow> (statistics \<times> bool) result \<times> 'a content_db_scheme" where
  "select_statistics st viewer userid db =
     and_then (shows_statistics st viewer userid db) (\<lambda>shown db. (Inr (query_statistics userid db, shown), db))"

subsection \<open>Streams\<close>

definition streaming_base :: "int \<Rightarrow> int \<Rightarrow> 'a social_db_scheme \<Rightarrow> (profile_row \<times> user_stream_row) list" where
  "streaming_base now userid db =
     concat (map (\<lambda>pr. map (Pair pr) (filter (\<lambda>us. us_userid us = pr_userid pr \<and> us_end_time us > now) (t_user_streams db)))
       (filter (\<lambda>pr. pr_stream_url pr \<noteq> []
                     \<and> exists_where (\<lambda>lo. lo_userid lo = pr_userid pr \<and> lo_voucher lo \<noteq> None) (t_login db)
                     \<and> (userid \<noteq> 0 \<longrightarrow> not_ignored userid (pr_userid pr) db)) (t_profile db)))"

text \<open>\<open>shuffle\<close> is the order of \<open>random()\<close>.\<close>

definition select_streaming_sample ::
  "((profile_row \<times> user_stream_row) list \<Rightarrow> (profile_row \<times> user_stream_row) list) \<Rightarrow> int \<Rightarrow> int \<Rightarrow> 'a social_db_scheme
     \<Rightarrow> (profile_row \<times> user_stream_row) list \<times> int" where
  "select_streaming_sample shuffle now userid db =
     (let rows = streaming_base now userid db
      in (newest_first (\<lambda>(_, us). us_start_time us) (take 3 (shuffle rows)), int (length rows)))"

definition select_streaming :: "int \<Rightarrow> int \<Rightarrow> 'a social_db_scheme \<Rightarrow> (profile_row \<times> user_stream_row) list" where
  "select_streaming now userid db = newest_first (\<lambda>(_, us). us_start_time us) (streaming_base now userid db)"

definition select_avatars :: "int list \<Rightarrow> 'a accounts_db_scheme \<Rightarrow> (int \<times> string) list" where
  "select_avatars userids db =
     map (\<lambda>pr. (pr_userid pr, pr_username pr)) (filter (\<lambda>pr. pr_userid pr \<in> set userids) (t_profile db))"


subsection \<open>Settings\<close>

definition update_profile :: "int \<Rightarrow> (profile_row \<Rightarrow> profile_row) \<Rightarrow> 'a accounts_db_scheme \<Rightarrow> 'a accounts_db_scheme" where
  "update_profile userid f db = db\<lparr>t_profile := update_where (\<lambda>pr. pr_userid pr = userid) f (t_profile db)\<rparr>"

definition edit_profile_settings ::
  "int \<Rightarrow> profile_status \<Rightarrow> profile_status \<Rightarrow> profile_status \<Rightarrow> 'a accounts_db_scheme \<Rightarrow> 'a accounts_db_scheme" where
  "edit_profile_settings userid set_trade set_request set_commission db =
     all_config_invalidate userid (update_profile userid (\<lambda>pr.
       pr\<lparr>pr_settings := exchange_code set_commission @ exchange_code set_trade @ exchange_code set_request
            @ (if has_flag (CHR ''l'') (pr_settings pr) then ''l'' else []),
          pr_commissions_status := Some set_commission, pr_trades_status := Some set_trade,
          pr_requests_status := Some set_request\<rparr>) db)"

definition thumbnail_bar_of :: "string \<Rightarrow> thumbnail_bar" where
  "thumbnail_bar_of profile_display =
     (if profile_display = ''O'' then TB_collections else if profile_display = ''A'' then TB_characters else TB_submissions)"

definition edit_profile :: "int \<Rightarrow> string \<Rightarrow> string \<Rightarrow> string \<Rightarrow> string \<Rightarrow> 'a accounts_db_scheme \<Rightarrow> 'a accounts_db_scheme" where
  "edit_profile userid full_name catchphrase profile_text profile_display db =
     (let flag = (if profile_display \<in> {''O'', ''A''} then profile_display else [])
      in all_config_invalidate userid (update_profile userid (\<lambda>pr.
           pr\<lparr>pr_full_name := full_name, pr_catchphrase := catchphrase, pr_profile_text := profile_text,
              pr_config := remove_first_flag ''OA'' (pr_config pr) @ flag,
              pr_thumbnail_bar := Some (thumbnail_bar_of profile_display)\<rparr>) db))"

definition STREAMING_ACTION_MAP :: "(string \<times> string) list" where
  "STREAMING_ACTION_MAP =
     [('''', ''not streaming''), (''later'', ''streaming later''), (''start'', ''now streaming''), (''still'', ''still streaming'')]"

text \<open>\<open>link_of\<close> is \<open>text_fix_url\<close>, giving the \<open>href\<close> of the parsed address.\<close>

definition edit_streaming_settings ::
  "(string \<Rightarrow> string option) \<Rightarrow> int \<Rightarrow> int \<Rightarrow> int \<Rightarrow> string \<Rightarrow> string \<Rightarrow> string \<Rightarrow> int \<Rightarrow> 'a content_db_scheme
     \<Rightarrow> unit result \<times> 'a content_db_scheme" where
  "edit_streaming_settings link_of now my_userid userid stream_text stream_url set_stream stream_length db =
     (let url = strip stream_url; parsed = (if url \<noteq> [] then link_of url else None)
      in if url \<noteq> [] \<and> parsed = None then (Inl (WeasylError ''streamLocationInvalid''), db)
         else if set_stream = ''start'' \<and> (stream_length < 1 \<or> stream_length > 360)
         then (Inl (WeasylError ''streamDurationOutOfRange''), db)
         else if set_stream = ''start'' \<and> parsed = None then (Inl (WeasylError ''streamLocationNotSet''), db)
         else
           (let db = (if set_stream \<noteq> ''still'' then
                        db\<lparr>t_user_streams := delete_where (\<lambda>us. us_userid us = userid) (t_user_streams db)\<rparr> else db);
                db = (if set_stream = ''start'' then
                        db\<lparr>t_user_streams := t_user_streams db @
                             [\<lparr>us_userid = userid, us_start_time = now, us_end_time = now + stream_length * 60\<rparr>]\<rparr> else db);
                settings_flag = (if set_stream = ''later'' then ''l'' else []);
                stream_status = (if set_stream = ''start'' then CHR ''n'' else if set_stream = ''later'' then CHR ''l'' else CHR '' '');
                db = (if set_stream \<noteq> ''still'' then stream_insert now userid stream_status db else db);
                rowcount = count_where (\<lambda>pr. pr_userid pr = userid) (t_profile db);
                db = update_profile userid (\<lambda>pr.
                       pr\<lparr>pr_stream_text := Some stream_text, pr_stream_url := (case parsed of None \<Rightarrow> [] | Some href \<Rightarrow> href),
                          pr_settings := remove_first_flag ''nli'' (pr_settings pr) @ settings_flag,
                          pr_streaming_later := Some (settings_flag = ''l'')\<rparr>) db
            in if rowcount \<noteq> 1 then (Inl (WeasylError ''Unexpected''), db)
               else if my_userid \<noteq> userid then
                 (case map_of STREAMING_ACTION_MAP set_stream of
                    None \<Rightarrow> (Inl KeyError, db)
                  | Some action \<Rightarrow>
                      (Inr (), note_about now my_userid userid ''Streaming settings updated:''
                         (''- Stream url: '' @ url @ [newline] @ ''- Stream description: '' @ stream_text @ [newline]
                          @ ''- Stream status: '' @ action) db))
               else (Inr (), db)))"

subsection \<open>User information\<close>

text \<open>
  The form: \<open>birthdate_month\<close> and \<open>birthdate_year\<close> are \<open>None\<close> for a field that is missing or empty, and else what
  \<open>int(..)\<close> makes of it.
\<close>

record userinfo_form =
  uf_site_names :: "string list"
  uf_site_values :: "string list"
  uf_gender :: string
  uf_country :: string
  uf_show_age :: bool
  uf_birthdate_month :: "int result option"
  uf_birthdate_year :: "int result option"

definition leap_year :: "int \<Rightarrow> bool" where
  "leap_year y = (y mod 4 = 0 \<and> (y mod 100 \<noteq> 0 \<or> y mod 400 = 0))"

definition days_in_month :: "int \<Rightarrow> int \<Rightarrow> int" where
  "days_in_month y m = (if m = 2 then (if leap_year y then 29 else 28) else if m \<in> {4, 6, 9, 11} then 30 else 31)"

text \<open>
  Midnight of the first day of a month in the zone UTC+14 is ten o'clock of the day before in UTC.
\<close>

definition earliest_possible_utc_birthdate :: "int \<Rightarrow> int \<Rightarrow> date" where
  "earliest_possible_utc_birthdate year month =
     (if month = 1 then (year - 1, 12, 31) else (year, month - 1, days_in_month year (month - 1)))"

definition set_birthdate :: "date \<Rightarrow> int \<Rightarrow> int \<Rightarrow> int \<Rightarrow> 'a accounts_db_scheme \<Rightarrow> unit result \<times> 'a accounts_db_scheme" where
  "set_birthdate today userid year month db =
     (if \<not> (1 \<le> month \<and> month \<le> 12) \<or> \<not> (-125 \<le> year - fst today \<and> year - fst today \<le> 0)
      then (Inl (WeasylError ''birthdayInvalid''), db)
      else
        (let oldest_possible_age = age_in_years today (earliest_possible_utc_birthdate year month)
         in if oldest_possible_age < 13 then (Inl (WeasylError ''birthdayInconsistentWithTerms''), db)
            else
              (let is_age_restricted = (oldest_possible_age < 18);
                   hit = (\<lambda>ui. ui_userid ui = userid \<and> ui_birthday ui = None \<and> \<not> (is_age_restricted \<and> ui_asserted_adult ui));
                   rowcount = count_where hit (t_userinfo db);
                   asserted = (case find (\<lambda>ui. ui_userid ui = userid) (t_userinfo db) of
                                 None \<Rightarrow> False | Some ui \<Rightarrow> ui_asserted_adult ui);
                   db = db\<lparr>t_userinfo := update_where hit (\<lambda>ui. ui\<lparr>ui_birthday := Some (year, month, 1)\<rparr>) (t_userinfo db)\<rparr>
               in if rowcount = 1 then (Inr (), db)
                  else if rowcount \<noteq> 0 then (Inl AssertionError, db)
                  else if is_age_restricted \<and> asserted then (Inl (WeasylError ''birthdayInconsistentWithRating''), db)
                  else (Inr (), db))))"

definition set_show_age :: "int \<Rightarrow> bool \<Rightarrow> 'a accounts_db_scheme \<Rightarrow> 'a accounts_db_scheme" where
  "set_show_age userid show_age db =
     (if show_age then
        db\<lparr>t_profile := update_where (\<lambda>pr. pr_userid pr = userid \<and> \<not> has_flag (CHR ''b'') (pr_config pr))
             (\<lambda>pr. pr\<lparr>pr_config := pr_config pr @ ''b'', pr_show_age := Some True\<rparr>) (t_profile db)\<rparr>
      else
        update_profile userid (\<lambda>pr. pr\<lparr>pr_config := remove_flag (CHR ''b'') (pr_config pr), pr_show_age := Some False\<rparr>) db)"

definition replace_links :: "int \<Rightarrow> (string \<times> string) list \<Rightarrow> 'a accounts_db_scheme \<Rightarrow> 'a accounts_db_scheme" where
  "replace_links userid links db =
     (let first = link_seq db
      in db\<lparr>t_user_links := delete_where (\<lambda>ul. ul_userid ul = userid) (t_user_links db)
              @ map (\<lambda>(i, name, site_value). \<lparr>ul_linkid = first + int i, ul_userid = userid, ul_link_type = name, ul_link_value = site_value\<rparr>)
                  (enumerate 0 links),
            link_seq := first + int (length links)\<rparr>)"

definition edit_userinfo :: "date \<Rightarrow> int \<Rightarrow> userinfo_form \<Rightarrow> 'a accounts_db_scheme \<Rightarrow> unit result \<times> 'a accounts_db_scheme" where
  "edit_userinfo today userid form db =
     (let links = filter (\<lambda>(name, site_value). name \<noteq> [] \<and> site_value \<noteq> []) (zip (uf_site_names form) (uf_site_values form));
          db = db\<lparr>t_userinfo := update_where (\<lambda>ui. ui_userid ui = userid)
                 (\<lambda>ui. ui\<lparr>ui_gender := strip (uf_gender form), ui_country := strip (uf_country form)\<rparr>) (t_userinfo db)\<rparr>;
          db = replace_links userid links db
      in and_then (case (uf_birthdate_month form, uf_birthdate_year form) of
                     (Some month, Some year) \<Rightarrow>
                       if uf_show_age form then
                         and_then (month, db) (\<lambda>month db. and_then (year, db) (\<lambda>year db. set_birthdate today userid year month db))
                       else (Inr (), db)
                   | _ \<Rightarrow> (Inr (), db))
           (\<lambda>_ db. (Inr (), all_config_invalidate userid (set_show_age userid (uf_show_age form) db))))"


subsection \<open>Preferences\<close>

definition option_codes :: string where
  "option_codes = concat (all_codes profile_Config)"

definition preference :: "config_values \<Rightarrow> string \<Rightarrow> config_value option" where
  "preference vals name = Option.bind (map_of vals name) id"

definition flag_set :: "config_values \<Rightarrow> string \<Rightarrow> bool" where
  "flag_set vals name = (preference vals name = Some (BoolV True))"

definition PERMISSIONS :: "(config_value \<times> permissions) list" where
  "PERMISSIONS =
     [(TextV ''anyone'', Perm_everyone), (TextV ''friends_only'', Perm_friends), (TextV ''staff_only'', Perm_nobody)]"

definition permission_of :: "config_value option \<Rightarrow> permissions result" where
  "permission_of v = (case Option.bind v (map_of PERMISSIONS) of None \<Rightarrow> Inl KeyError | Some p \<Rightarrow> Inr p)"

fun rating_column :: "rating \<Rightarrow> rating_enum" where
  "rating_column GENERAL = Rating_general"
| "rating_column MATURE = Rating_mature"
| "rating_column EXPLICIT = Rating_explicit"

text \<open>\<open>jsonb || ..\<close>: the entries given replace those with the same keys.\<close>

definition jsonb_concat :: "jsonb option \<Rightarrow> jsonb \<Rightarrow> jsonb" where
  "jsonb_concat j entries = fold (\<lambda>(k, v). AList.update k v) entries (case j of None \<Rightarrow> [] | Some j \<Rightarrow> j)"

definition watch_defaults_of :: "config_values \<Rightarrow> string" where
  "watch_defaults_of vals =
     concat (map (\<lambda>(name, c). if flag_set vals name then c else [])
       [(''follow_s'', ''s''), (''follow_c'', ''c''), (''follow_f'', ''f''), (''follow_t'', ''t''), (''follow_j'', ''j'')])"

definition store_preferences ::
  "int \<Rightarrow> config_values \<Rightarrow> rating \<Rightarrow> permissions \<Rightarrow> permissions \<Rightarrow> bool \<Rightarrow> 'a accounts_db_scheme \<Rightarrow> 'a accounts_db_scheme" where
  "store_preferences userid vals rating shouts notes disable_custom_thumbs db =
     update_profile userid (\<lambda>pr.
       pr\<lparr>pr_config := filter (\<lambda>c. c \<notin> set option_codes) (pr_config pr) @ to_code profile_Config vals,
          pr_favorites_visibility := Some (if flag_set vals ''hidefavorites'' then Perm_nobody else Perm_everyone),
          pr_favorites_bar := Some (\<not> flag_set vals ''hidefavbar''),
          pr_shouts_from := Some shouts, pr_messages_from := Some notes,
          pr_profile_guests := Some (\<not> flag_set vals ''hideprofile''),
          pr_profile_stats := Some (\<not> flag_set vals ''hidestats''),
          pr_max_rating := Some (rating_column rating), pr_watch_defaults := Some (watch_defaults_of vals),
          pr_jsonb_settings := Some (jsonb_concat (pr_jsonb_settings pr) [(''disable_custom_thumbs'', disable_custom_thumbs)]),
          pr_custom_thumbs := Some (\<not> disable_custom_thumbs)\<rparr>) db"

text \<open>A rating above the user's age becomes general; an unset rating has no attributes.\<close>

definition edit_preferences ::
  "date \<Rightarrow> int \<Rightarrow> config_values \<Rightarrow> bool \<Rightarrow> 'a accounts_db_scheme \<Rightarrow> unit result \<times> 'a accounts_db_scheme" where
  "edit_preferences today userid vals disable_custom_thumbs db =
     and_then (get_user_age today userid db, db) (\<lambda>user_age db.
       case preference vals ''rating'' of
         Some (RatingV wanted) \<Rightarrow>
           (let rating = (case user_age of None \<Rightarrow> wanted | Some a \<Rightarrow> if a < minimum_age wanted then GENERAL else wanted);
                vals = (if rating \<noteq> wanted then AList.update ''rating'' (Some (RatingV rating)) vals else vals)
            in and_then (if minimum_age rating \<noteq> 0 then assert_adult userid db else (Inr (), db)) (\<lambda>_ db.
                 case (permission_of (preference vals ''shouts''), permission_of (preference vals ''notes'')) of
                   (Inr shouts, Inr notes) \<Rightarrow>
                     (Inr (), all_config_invalidate userid (store_preferences userid vals rating shouts notes disable_custom_thumbs db))
                 | (Inl e, _) \<Rightarrow> (Inl e, db)
                 | (_, Inl e) \<Rightarrow> (Inl e, db)))
       | _ \<Rightarrow> (Inl AttributeError, db))"

definition set_collection_preferences :: "int \<Rightarrow> bool \<Rightarrow> bool \<Rightarrow> 'a accounts_db_scheme \<Rightarrow> 'a accounts_db_scheme" where
  "set_collection_preferences userid allow_requests notify db =
     all_config_invalidate userid (update_profile userid (\<lambda>pr.
       pr\<lparr>pr_jsonb_settings := Some (jsonb_concat (pr_jsonb_settings pr)
            [(''allow_collection_requests'', allow_requests), (''allow_collection_notifs'', notify)]),
          pr_allow_collection_requests := Some allow_requests, pr_collection_notifs := Some notify\<rparr>) db)"


subsection \<open>Managing a user\<close>

record manage_view =
  mv_login :: login_row
  mv_profile :: profile_row
  mv_userinfo :: userinfo_row
  mv_staff_notes :: int
  mv_sorted_user_links :: "(string \<times> string list) list"
  mv_user_sessions :: "(int \<times> string option \<times> string) list"

text \<open>The sessions of a user with the browser's name, the latest first.\<close>

definition user_sessions :: "int \<Rightarrow> 'a accounts_db_scheme \<Rightarrow> (int \<times> string option \<times> string) list" where
  "user_sessions userid db =
     newest_first fst (List.map_filter (\<lambda>s.
         if ss_userid s = Some userid then
           map_option (\<lambda>ua. (ss_created_at s, ss_ip_address s, ua_user_agent ua))
             (find (\<lambda>ua. Some (ua_user_agent_id ua) = ss_user_agent_id s) (t_user_agents db))
         else None) (t_sessions db))"

definition select_manage :: "int \<Rightarrow> 'a content_db_scheme \<Rightarrow> manage_view result" where
  "select_manage userid db =
     (case (find (\<lambda>lo. lo_userid lo = userid) (t_login db), profile_of userid db,
            find (\<lambda>ui. ui_userid ui = userid) (t_userinfo db)) of
        (Some lo, Some pr, Some ui) \<Rightarrow>
          Inr \<lparr>mv_login = lo, mv_profile = pr, mv_userinfo = ui, mv_staff_notes = count_staff_notes userid db,
               mv_sorted_user_links = sort_user_links (grouped_links userid db), mv_user_sessions = user_sessions userid db\<rparr>
      | _ \<Rightarrow> Inl (WeasylError ''Unexpected''))"

datatype birthday_update = NO_UPDATE | REMOVAL | Birthday date

record manage_form =
  mg_username :: "ustr option"
  mg_full_name :: "string option"
  mg_catchphrase :: "string option"
  mg_birthday :: birthday_update
  mg_gender :: "string option"
  mg_country :: "string option"
  mg_remove_social :: "string list"
  mg_permission_tag :: "bool option"

text \<open>One step of \<open>do_manage\<close>: the database and the lines for the staff note.\<close>

definition manage_field ::
  "string \<Rightarrow> (string \<Rightarrow> 'a accounts_db_scheme \<Rightarrow> 'a accounts_db_scheme) \<Rightarrow> string option \<Rightarrow> string list \<times> 'a accounts_db_scheme
     \<Rightarrow> string list \<times> 'a accounts_db_scheme" where
  "manage_field label change field s =
     (case field of None \<Rightarrow> s | Some v \<Rightarrow> (fst s @ [''- '' @ label @ '': '' @ v], change v (snd s)))"

definition update_userinfo :: "int \<Rightarrow> (userinfo_row \<Rightarrow> userinfo_row) \<Rightarrow> 'a accounts_db_scheme \<Rightarrow> 'a accounts_db_scheme" where
  "update_userinfo userid f db = db\<lparr>t_userinfo := update_where (\<lambda>ui. ui_userid ui = userid) f (t_userinfo db)\<rparr>"

definition two_digits :: "int \<Rightarrow> string" where
  "two_digits n = (if n < 10 then ''0'' else []) @ show_int n"

definition show_date :: "date \<Rightarrow> string" where
  "show_date d = (case d of (year, month, day) \<Rightarrow>
     replicate (4 - length (show_int year)) (CHR ''0'') @ show_int year @ ''-'' @ two_digits month @ ''-'' @ two_digits day)"

definition manage_birthday ::
  "date \<Rightarrow> int \<Rightarrow> birthday_update \<Rightarrow> 'a accounts_db_scheme \<Rightarrow> string list result \<times> 'a accounts_db_scheme" where
  "manage_birthday today userid birthday db =
     (case birthday of
        NO_UPDATE \<Rightarrow> (Inr [], db)
      | _ \<Rightarrow>
          (let new = (case birthday of Birthday b \<Rightarrow> Some b | _ \<Rightarrow> None);
               rowcount = count_where (\<lambda>ui. ui_userid ui = userid) (t_userinfo db);
               db = update_userinfo userid (\<lambda>ui. ui\<lparr>ui_birthday := new\<rparr>) db;
               restricted = (case new of None \<Rightarrow> False | Some b \<Rightarrow> age_in_years today b < minimum_age EXPLICIT);
               profiles = count_where (\<lambda>pr. pr_userid pr = userid) (t_profile db);
               reset = (if restricted then
                          update_profile userid (\<lambda>pr. pr\<lparr>pr_config := filter (\<lambda>c. c \<notin> set ''ap'') (pr_config pr),
                            pr_max_rating := Some Rating_general\<rparr>) db
                        else db)
           in if rowcount \<noteq> 1 then (Inl AssertionError, db)
              else if restricted \<and> profiles \<noteq> 1 then (Inl AssertionError, reset)
              else (Inr [''- Birthday: '' @ (case new of None \<Rightarrow> ''removal'' | Some b \<Rightarrow> show_date b)],
                    if restricted then all_config_invalidate userid reset else reset)))"

definition manage_permission_tag ::
  "int \<Rightarrow> bool option \<Rightarrow> string list \<times> 'a accounts_db_scheme \<Rightarrow> string list \<times> 'a accounts_db_scheme" where
  "manage_permission_tag userid permission_tag s =
     (case permission_tag of
        None \<Rightarrow> s
      | Some perm \<Rightarrow>
          (let hit = (\<lambda>pr. pr_userid pr = userid \<and> pr_can_suggest_tags pr \<noteq> perm); db = snd s
           in if exists_where hit (t_profile db) then
                (fst s @ [''- Permission to tag: '' @ (if perm then ''yes'' else ''no'')],
                 all_config_invalidate userid
                   (db\<lparr>t_profile := update_where hit (\<lambda>pr. pr\<lparr>pr_can_suggest_tags := perm\<rparr>) (t_profile db)\<rparr>))
              else s))"

definition remove_social_links :: "int \<Rightarrow> string list \<Rightarrow> string list \<times> 'a accounts_db_scheme \<Rightarrow> string list \<times> 'a accounts_db_scheme" where
  "remove_social_links userid social s =
     fold (\<lambda>social_link (updates, db).
         (updates @ [''- Removed social link for '' @ social_link],
          db\<lparr>t_user_links := delete_where (\<lambda>ul. ul_userid ul = userid \<and> ul_link_type ul = social_link) (t_user_links db)\<rparr>))
       social s"

definition do_manage ::
  "(ustr \<Rightarrow> ustr) \<Rightarrow> (ustr \<Rightarrow> ustr) \<Rightarrow> int \<Rightarrow> date \<Rightarrow> int \<Rightarrow> int \<Rightarrow> manage_form \<Rightarrow> 'a content_db_scheme \<Rightarrow> unit result \<times> 'a content_db_scheme" where
  "do_manage lower nfkd now today my_userid userid form db =
     and_then (case mg_username form of
                 None \<Rightarrow> (Inr [], db)
               | Some username \<Rightarrow>
                   and_then (change_username lower nfkd now my_userid userid True username db)
                     (\<lambda>_ db. (Inr [''- Username: '' @ to_string username], db))) (\<lambda>updates db.
       let (updates, db) =
             manage_field ''Catchphrase'' (\<lambda>v. update_profile userid (\<lambda>pr. pr\<lparr>pr_catchphrase := v\<rparr>)) (mg_catchphrase form)
               (manage_field ''Full name'' (\<lambda>v. update_profile userid (\<lambda>pr. pr\<lparr>pr_full_name := v\<rparr>)) (mg_full_name form)
                 (updates, db))
       in and_then (manage_birthday today userid (mg_birthday form) db) (\<lambda>birthday_updates db.
            let (updates, db) =
                  manage_permission_tag userid (mg_permission_tag form)
                    (remove_social_links userid (mg_remove_social form)
                      (manage_field ''Country'' (\<lambda>v. update_userinfo userid (\<lambda>ui. ui\<lparr>ui_country := v\<rparr>)) (mg_country form)
                        (manage_field ''Gender'' (\<lambda>v. update_userinfo userid (\<lambda>ui. ui\<lparr>ui_gender := v\<rparr>)) (mg_gender form)
                          (updates @ birthday_updates, db))))
            in (Inr (), if updates = [] then db
                        else note_about now my_userid userid ''The following fields were changed:''
                               (concat (map (\<lambda>(i, u). (if i = (0::nat) then [] else [newline]) @ u) (enumerate 0 updates))) db)))"

end
