(* ===== verification/Moderation.thy ===== *)
theory Moderation
  imports Profiles Messages
begin

text \<open>
  Moderation: \<^verbatim>\<open>weasyl/moderation.py\<close>. Who may call the functions is mostly checked by their controllers;
  \<open>setusermode\<close>, \<open>manageuser\<close> and \<open>gallery_blacklisted_tags\<close> check it again. \<open>today\<close> is the date in UTC at
  \<open>now\<close>. The log of staff actions, the searching of users, and the urls of character images are left out.
\<close>

subsection \<open>Dates\<close>

text \<open>\<open>date.toordinal\<close> and \<open>date.fromordinal\<close>: days counted from the first of January of the year 1.\<close>

definition days_before_year :: "int \<Rightarrow> int" where
  "days_before_year y = (y - 1) * 365 + (y - 1) div 4 - (y - 1) div 100 + (y - 1) div 400"

definition days_before_month :: "int \<Rightarrow> int \<Rightarrow> int" where
  "days_before_month y m = sum_list (map (days_in_month y) [1..m - 1])"

definition toordinal :: "date \<Rightarrow> int" where
  "toordinal d = (case d of (y, m, day) \<Rightarrow> days_before_year y + days_before_month y m + day)"

text \<open>The month and day of a day of the year, from 0.\<close>

fun month_day :: "int \<Rightarrow> int list \<Rightarrow> int \<Rightarrow> int \<times> int" where
  "month_day y [] n = (12, n + 1)"
| "month_day y (m # ms) n = (if n < days_in_month y m \<or> ms = [] then (m, n + 1) else month_day y ms (n - days_in_month y m))"

definition fromordinal :: "int \<Rightarrow> date" where
  "fromordinal n =
     (let n400 = (n - 1) div 146097; r400 = (n - 1) mod 146097;
          n100 = r400 div 36524; r100 = r400 mod 36524;
          n4 = r100 div 1461; r4 = r100 mod 1461;
          n1 = r4 div 365; r1 = r4 mod 365;
          year = n400 * 400 + n100 * 100 + n4 * 4 + n1 + 1
      in if n1 = 4 \<or> n100 = 4 then (year - 1, 12, 31)
         else (year, month_day year [1..12] r1))"

text \<open>A \<open>date\<close> is in the years 1 to 9999, a \<open>timedelta\<close> of at most 999999999 days.\<close>

definition add_days :: "date \<Rightarrow> int \<Rightarrow> date result" where
  "add_days d days =
     (let n = toordinal d + days
      in if \<bar>days\<bar> > 999999999 \<or> n < 1 \<or> n > 3652059 then Inl OverflowError else Inr (fromordinal n))"

definition date_le :: "date \<Rightarrow> date \<Rightarrow> bool" where
  "date_le d e = (case (d, e) of ((y, m, day), (y', m', day')) \<Rightarrow> y < y' \<or> y = y' \<and> (m < m' \<or> m = m' \<and> day \<le> day'))"

text \<open>The midnight of a date in UTC as \<open>get_offset_unixtime\<close> has it, and the date of such a time.\<close>

definition offset_midnight :: "date \<Rightarrow> int" where
  "offset_midnight d = (toordinal d - 719163) * 86400 + UNIXTIME_OFFSET"

definition date_of_unixtime :: "int \<Rightarrow> date" where
  "date_of_unixtime unixtime = fromordinal ((unixtime - UNIXTIME_OFFSET) div 86400 + 719163)"

subsection \<open>Bans and suspensions\<close>

definition get_ban_reason :: "int \<Rightarrow> 'a accounts_db_scheme \<Rightarrow> string option" where
  "get_ban_reason userid db = map_option pb_reason (find (\<lambda>pb. pb_userid pb = userid) (t_permaban db))"

definition MACRO_SUPPORT_ADDRESS :: string where
  "MACRO_SUPPORT_ADDRESS = ''support@weasyl.com''"

definition blank_line :: string where
  "blank_line = [newline, newline]"

definition get_ban_message :: "int \<Rightarrow> 'a accounts_db_scheme \<Rightarrow> string" where
  "get_ban_message userid db =
     ''Your account has been permanently banned and you are no longer allowed to sign in.'' @ blank_line
     @ (case get_ban_reason userid db of None \<Rightarrow> ''None'' | Some reason \<Rightarrow> reason) @ blank_line
     @ ''If you believe this ban is in error, please contact '' @ MACRO_SUPPORT_ADDRESS @ '' for assistance.''"

definition get_suspension_message :: "int \<Rightarrow> 'a accounts_db_scheme \<Rightarrow> string result" where
  "get_suspension_message userid db =
     (case get_suspension userid db of
        None \<Rightarrow> Inl AttributeError
      | Some suspension \<Rightarrow>
          Inr (''Your account has been temporarily suspended and you are not allowed to be logged in at this time.'' @ blank_line
            @ sp_reason suspension @ blank_line @ ''This suspension will be lifted on ''
            @ show_date (date_of_unixtime (sp_release suspension)) @ ''.'' @ blank_line
            @ ''If you believe this suspension is in error, please contact '' @ MACRO_SUPPORT_ADDRESS @ '' for assistance.''))"

definition mode_to_action_map :: "(string \<times> string) list" where
  "mode_to_action_map = [(''b'', ''ban''), (''s'', ''suspend''), (''x'', ''release'')]"

text \<open>
  The form: \<open>md_userid\<close> is the number in the field, \<open>md_duration\<close> what \<open>int(..)\<close> makes of the field, and
  \<open>md_release_date\<close> what \<open>date.fromisoformat(..)\<close> makes of it (a missing field is a \<open>KeyError\<close>).
\<close>

record mode_form =
  md_userid :: int
  md_username :: ustr
  md_mode :: string
  md_reason :: string
  md_datetype :: string
  md_duration :: "int result"
  md_durationunit :: string
  md_release_date :: "date result"

definition duration_days :: "string \<Rightarrow> int \<Rightarrow> int" where
  "duration_days durationunit magnitude =
     (if durationunit = ''y'' then magnitude * 365 else if durationunit = ''m'' then magnitude * 30
      else if durationunit = ''w'' then magnitude * 7 else magnitude)"

definition release_date_of :: "date \<Rightarrow> mode_form \<Rightarrow> date option result" where
  "release_date_of today form =
     (if md_mode form \<noteq> ''s'' then Inr None
      else
        (case (if md_datetype form = ''r'' then
                 (case md_duration form of
                    Inl e \<Rightarrow> Inl e | Inr magnitude \<Rightarrow> add_days today (duration_days (md_durationunit form) magnitude))
               else (case md_release_date form of Inl ValueError \<Rightarrow> Inl (WeasylError ''releaseInvalid'') | r \<Rightarrow> r)) of
           Inl e \<Rightarrow> Inl e
         | Inr release_date \<Rightarrow>
             if date_le release_date today then Inl (WeasylError ''releaseInvalid'') else Inr (Some release_date)))"

definition lift_restrictions :: "int \<Rightarrow> 'a accounts_db_scheme \<Rightarrow> 'a accounts_db_scheme" where
  "lift_restrictions target db =
     db\<lparr>t_permaban := delete_where (\<lambda>pb. pb_userid pb = target) (t_permaban db),
        t_suspension := delete_where (\<lambda>sp. sp_userid sp = target) (t_suspension db)\<rparr>"

definition restrict_user :: "string \<Rightarrow> string \<Rightarrow> date option \<Rightarrow> int \<Rightarrow> 'a accounts_db_scheme \<Rightarrow> 'a accounts_db_scheme" where
  "restrict_user mode reason release target db =
     (let lifted = lift_restrictions target db
      in if mode = ''b'' then lifted\<lparr>t_permaban := t_permaban lifted @ [\<lparr>pb_userid = target, pb_reason = reason\<rparr>]\<rparr>
         else if mode = ''s'' then
           (case release of
              None \<Rightarrow> db
            | Some d \<Rightarrow> lifted\<lparr>t_suspension := t_suspension lifted
                          @ [\<lparr>sp_userid = target, sp_reason = reason, sp_release = offset_midnight d\<rparr>]\<rparr>)
         else if mode = ''x'' then lifted
         else db)"

definition setusermode ::
  "staff_sets \<Rightarrow> (ustr \<Rightarrow> string option) \<Rightarrow> int \<Rightarrow> date \<Rightarrow> int \<Rightarrow> mode_form \<Rightarrow> 'a content_db_scheme
     \<Rightarrow> unit result \<times> 'a content_db_scheme" where
  "setusermode st sysname_of now today userid form db =
     (let (target, db) = resolve sysname_of 0 (md_userid form) (md_username form) db; reason = strip (md_reason form)
      in if target = 0 then (Inl (WeasylError ''noUser''), db)
         else
           and_then (release_date_of today form, db) (\<lambda>release db.
             if userid \<notin> MODS st then (Inl (WeasylError ''Unexpected''), db)
             else if target \<in> MODS st then (Inl (WeasylError ''InsufficientPermissions''), db)
             else
               (let db = restrict_user (md_mode form) reason release target db
                in case map_of mode_to_action_map (md_mode form) of
                     None \<Rightarrow> (Inr (), db)
                   | Some action \<Rightarrow>
                       (Inr (), note_about now userid target (''User mode changed: action was '' @ [CHR 0x27] @ action @ [CHR 0x27])
                          (case release of
                             None \<Rightarrow> reason
                           | Some d \<Rightarrow> ''#### Release date: '' @ show_date d @ blank_line @ reason)
                          (all_config_invalidate target db)))))"

subsection \<open>A user's posts and profile\<close>

definition submissionsbyuser ::
  "int \<Rightarrow> 'a media_db_scheme \<Rightarrow> ((submission_row \<times> string) \<times> (string \<times> media_row list option) list) list \<times> 'a media_db_scheme" where
  "submissionsbyuser targetid db =
     populate_with_submission_media (map (\<lambda>su. (su, [])) (filter (\<lambda>su. su_userid su = targetid) (t_submission db))) db"

definition charactersbyuser :: "int \<Rightarrow> 'a content_db_scheme \<Rightarrow> character_row list" where
  "charactersbyuser targetid db = filter (\<lambda>ch. ch_userid ch = targetid) (t_character db)"

definition journalsbyuser :: "int \<Rightarrow> 'a content_db_scheme \<Rightarrow> journal_row list" where
  "journalsbyuser targetid db = filter (\<lambda>jo. jo_userid jo = targetid) (t_journal db)"

text \<open>The viewer's blocked tags that a gallery's posts have, at the rating they are blocked from.\<close>

definition gallery_blacklisted_tags :: "staff_sets \<Rightarrow> int \<Rightarrow> int \<Rightarrow> 'a tags_db_scheme \<Rightarrow> string list result" where
  "gallery_blacklisted_tags st userid otherid db =
     (if userid \<notin> MODS st then Inl (WeasylError ''Unexpected'')
      else
        (let blocked = filter (\<lambda>bt. bt_userid bt = userid) (t_blocktag db);
             of_submissions = concat (map (\<lambda>su. map sm_tagid (filter (\<lambda>sm. sm_targetid sm = su_submitid su
                   \<and> exists_where (\<lambda>bt. bt_tagid bt = sm_tagid sm \<and> su_rating su \<ge> bt_rating bt) blocked) (t_searchmapsubmit db)))
                 (filter (\<lambda>su. su_userid su = otherid) (t_submission db)));
             of_characters = concat (map (\<lambda>ch. map sm_tagid (filter (\<lambda>sm. sm_targetid sm = ch_charid ch
                   \<and> exists_where (\<lambda>bt. bt_tagid bt = sm_tagid sm \<and> ch_rating ch \<ge> bt_rating bt) blocked) (t_searchmapchar db)))
                 (filter (\<lambda>ch. ch_userid ch = otherid) (t_character db)))
         in Inr (sort (List.map_filter (\<lambda>tagid. query_tag_name tagid db) (remdups (of_submissions @ of_characters))))))"

record manageuser_view =
  mu_profile :: profile_row
  mu_user_media :: "(string \<times> media_row list option) list"
  mu_staff_notes :: int

definition manageuser ::
  "staff_sets \<Rightarrow> (ustr \<Rightarrow> string option) \<Rightarrow> int \<Rightarrow> ustr \<Rightarrow> 'a media_db_scheme \<Rightarrow> manageuser_view result \<times> 'a media_db_scheme" where
  "manageuser st sysname_of userid name db =
     (if userid \<notin> MODS st then (Inl (WeasylError ''Unexpected''), db)
      else
        (case Option.bind (sysname_of name) (\<lambda>sysname.
                Option.bind (find (\<lambda>lo. lo_login_name lo = sysname) (t_login db)) (\<lambda>lo. profile_of (lo_userid lo) db)) of
           None \<Rightarrow> (Inl (WeasylError ''noUser''), db)
         | Some pr \<Rightarrow>
             (let (user_media, db) = get_user_media (pr_userid pr) db
              in (Inr \<lparr>mu_profile = pr, mu_user_media = user_media, mu_staff_notes = count_staff_notes (pr_userid pr) db\<rparr>, db))))"

definition removeavatar :: "image_env \<Rightarrow> int \<Rightarrow> int \<Rightarrow> int \<Rightarrow> 'a media_db_scheme \<Rightarrow> unit result \<times> 'a media_db_scheme" where
  "removeavatar env now userid otherid db =
     and_then (avatar_upload env otherid [] db) (\<lambda>_ db.
       (Inr (), note_about now userid otherid ''Avatar was removed.'' [] db))"

definition removebanner :: "image_env \<Rightarrow> int \<Rightarrow> int \<Rightarrow> int \<Rightarrow> 'a media_db_scheme \<Rightarrow> unit result \<times> 'a media_db_scheme" where
  "removebanner env now userid otherid db =
     and_then (banner_upload env otherid [] db) (\<lambda>_ db.
       (Inr (), note_about now userid otherid ''Banner was removed.'' [] db))"

definition staff_link :: "string \<Rightarrow> string \<Rightarrow> int \<Rightarrow> string" where
  "staff_link title urlpart i = markdown_link title (''/'' @ urlpart @ ''/'' @ show_int i @ ''?anyway=true'')"

definition removecoverart ::
  "staff_sets \<Rightarrow> image_env \<Rightarrow> int \<Rightarrow> int \<Rightarrow> int \<Rightarrow> 'a media_db_scheme \<Rightarrow> unit result \<times> 'a media_db_scheme" where
  "removecoverart st env now userid submitid db =
     (case find_submission submitid db of
        None \<Rightarrow> (Inl AttributeError, db)
      | Some su \<Rightarrow>
          (let (items, db) = get_submission_media submitid db
           in if first_media ''cover'' items = None then (Inl (WeasylError ''noCover''), db)
              else and_then (reupload_cover st env userid submitid [] db) (\<lambda>_ db.
                (Inr (), note_about now userid (su_userid su)
                   (''Cover was removed for '' @ staff_link (su_title su) ''submission'' submitid) [] db))))"

definition has_media :: "string \<Rightarrow> (string \<times> media_row list option) list \<Rightarrow> bool" where
  "has_media link_type items = (map_of items link_type \<notin> {None, Some (Some [])})"

definition removethumbnail :: "int \<Rightarrow> int \<Rightarrow> int \<Rightarrow> 'a media_db_scheme \<Rightarrow> unit result \<times> 'a media_db_scheme" where
  "removethumbnail now userid submitid db =
     (case find_submission submitid db of
        None \<Rightarrow> (Inl (WeasylError ''submissionRecordMissing''), db)
      | Some su \<Rightarrow>
          (let (items, db) = get_submission_media submitid db
           in if \<not> has_media ''thumbnail-custom'' items
                 \<and> (su_subtype su < 2000 \<or> \<not> has_media ''thumbnail-generated'' items)
              then (Inl (WeasylError ''noThumbnail''), db)
              else
                (let db = clear_link SubmissionMediaLink submitid ''thumbnail-custom'' db;
                     db = (if su_subtype su \<ge> 2000 then clear_link SubmissionMediaLink submitid ''thumbnail-generated'' db else db)
                 in (Inr (), note_about now userid (su_userid su)
                       (''Thumbnail was removed for '' @ staff_link (su_title su) ''submission'' submitid) [] db))))"

definition editprofiletext :: "int \<Rightarrow> int \<Rightarrow> int \<Rightarrow> string \<Rightarrow> 'a content_db_scheme \<Rightarrow> 'a content_db_scheme" where
  "editprofiletext now userid otherid content db =
     (let previous = (case profile_of otherid db of None \<Rightarrow> ''None'' | Some pr \<Rightarrow> pr_profile_text pr)
      in note_about now userid otherid ''Profile text replaced with:''
           (content @ blank_line @ ''## Profile text was:'' @ blank_line @ previous)
           (update_profile otherid (\<lambda>pr. pr\<lparr>pr_profile_text := content\<rparr>) db))"

definition editcatchphrase :: "int \<Rightarrow> int \<Rightarrow> int \<Rightarrow> string \<Rightarrow> 'a content_db_scheme \<Rightarrow> 'a content_db_scheme" where
  "editcatchphrase now userid otherid content db =
     (let previous = (case profile_of otherid db of None \<Rightarrow> ''None'' | Some pr \<Rightarrow> pr_catchphrase pr)
      in note_about now userid otherid ''Catchphrase replaced with:''
           (content @ blank_line @ ''## Catchphrase was:'' @ blank_line @ previous)
           (update_profile otherid (\<lambda>pr. pr\<lparr>pr_catchphrase := content\<rparr>) db))"


subsection \<open>Changing many posts at once\<close>

text \<open>
  An edited row as \<open>RETURNING\<close> gives it: id, title, owner, and the rating it had. A table is given by its part in the
  urls.
\<close>

record edited_row =
  er_id :: int
  er_title :: string
  er_userid :: int
  er_rating :: int

datatype bulk_action = Set_hidden bool | Set_critique bool | Set_rating int

definition edited_submission :: "submission_row \<Rightarrow> edited_row" where
  "edited_submission su = \<lparr>er_id = su_submitid su, er_title = su_title su, er_userid = su_userid su, er_rating = su_rating su\<rparr>"

definition edited_character :: "character_row \<Rightarrow> edited_row" where
  "edited_character ch = \<lparr>er_id = ch_charid ch, er_title = ch_char_name ch, er_userid = ch_userid ch, er_rating = ch_rating ch\<rparr>"

definition edited_journal :: "journal_row \<Rightarrow> edited_row" where
  "edited_journal jo = \<lparr>er_id = jo_journalid jo, er_title = jo_title jo, er_userid = jo_userid jo, er_rating = jo_rating jo\<rparr>"

fun submission_hit :: "bulk_action \<Rightarrow> submission_row \<Rightarrow> bool" where
  "submission_hit (Set_hidden b) su = (su_hidden su \<noteq> b)"
| "submission_hit (Set_critique b) su = (su_critique su \<noteq> b)"
| "submission_hit (Set_rating r) su = (su_rating su \<noteq> r)"

fun submission_change :: "bulk_action \<Rightarrow> submission_row \<Rightarrow> submission_row" where
  "submission_change (Set_hidden b) su = su\<lparr>su_hidden := b\<rparr>"
| "submission_change (Set_critique b) su = su\<lparr>su_critique := b\<rparr>"
| "submission_change (Set_rating r) su = su\<lparr>su_rating := r\<rparr>"

definition edit_submissions ::
  "bulk_action \<Rightarrow> int list \<Rightarrow> 'a content_db_scheme \<Rightarrow> edited_row list result \<times> 'a content_db_scheme" where
  "edit_submissions action ids db =
     (let hit = (\<lambda>su. su_submitid su \<in> set ids \<and> submission_hit action su)
      in (Inr (map edited_submission (filter hit (t_submission db))),
          db\<lparr>t_submission := update_where hit (submission_change action) (t_submission db)\<rparr>))"

text \<open>Characters and journals have no column \<open>critique\<close>.\<close>

definition edit_characters ::
  "bulk_action \<Rightarrow> int list \<Rightarrow> 'a content_db_scheme \<Rightarrow> edited_row list result \<times> 'a content_db_scheme" where
  "edit_characters action ids db =
     (let edit = (\<lambda>hit change.
            (let hit = (\<lambda>ch. ch_charid ch \<in> set ids \<and> hit ch)
             in (Inr (map edited_character (filter hit (t_character db))),
                 db\<lparr>t_character := update_where hit change (t_character db)\<rparr>)))
      in case action of
           Set_hidden b \<Rightarrow> edit (\<lambda>ch. ch_hidden ch \<noteq> b) (\<lambda>ch. ch\<lparr>ch_hidden := b\<rparr>)
         | Set_rating r \<Rightarrow> edit (\<lambda>ch. ch_rating ch \<noteq> r) (\<lambda>ch. ch\<lparr>ch_rating := r\<rparr>)
         | Set_critique b \<Rightarrow> (Inl AttributeError, db))"

definition edit_journals ::
  "bulk_action \<Rightarrow> int list \<Rightarrow> 'a content_db_scheme \<Rightarrow> edited_row list result \<times> 'a content_db_scheme" where
  "edit_journals action ids db =
     (let edit = (\<lambda>hit change.
            (let hit = (\<lambda>jo. jo_journalid jo \<in> set ids \<and> hit jo)
             in (Inr (map edited_journal (filter hit (t_journal db))),
                 db\<lparr>t_journal := update_where hit change (t_journal db)\<rparr>)))
      in case action of
           Set_hidden b \<Rightarrow> edit (\<lambda>jo. jo_hidden jo \<noteq> b) (\<lambda>jo. jo\<lparr>jo_hidden := b\<rparr>)
         | Set_rating r \<Rightarrow> edit (\<lambda>jo. jo_rating jo \<noteq> r) (\<lambda>jo. jo\<lparr>jo_rating := r\<rparr>)
         | Set_critique b \<Rightarrow> (Inl AttributeError, db))"

text \<open>The loop over the three tables: the rows with the part of their urls. A table without ids is not touched.\<close>

definition edit_tables ::
  "bulk_action \<Rightarrow> int list \<Rightarrow> int list \<Rightarrow> int list \<Rightarrow> 'a content_db_scheme
     \<Rightarrow> (string \<times> edited_row) list result \<times> 'a content_db_scheme" where
  "edit_tables action submissions characters journals db =
     and_then (if submissions = [] then (Inr [], db) else edit_submissions action submissions db) (\<lambda>sus db.
       and_then (if characters = [] then (Inr [], db) else edit_characters action characters db) (\<lambda>chs db.
         and_then (if journals = [] then (Inr [], db) else edit_journals action journals db) (\<lambda>jos db.
           (Inr (map (Pair ''submission'') sus @ map (Pair ''character'') chs @ map (Pair ''journal'') jos), db))))"

fun join_lines :: "string list \<Rightarrow> string" where
  "join_lines [] = []"
| "join_lines [l] = l"
| "join_lines (l # ls) = l @ [newline] @ join_lines ls"

text \<open>One staff note for each owner, in the order in which their first posts come.\<close>

definition affected_owners :: "(string \<times> edited_row) list \<Rightarrow> int list" where
  "affected_owners rows = rev (remdups (rev (map (\<lambda>(urlpart, r). er_userid r) rows)))"

definition bulk_notes ::
  "int \<Rightarrow> int \<Rightarrow> string \<Rightarrow> (string \<times> edited_row \<Rightarrow> string) \<Rightarrow> (string \<times> edited_row) list \<Rightarrow> 'a content_db_scheme \<Rightarrow> 'a content_db_scheme" where
  "bulk_notes now userid action_string item rows db =
     fold (\<lambda>target db.
         snd (add_comments_row now userid (Some target) None 0
           (''## The following items were '' @ action_string @ '':'' @ blank_line
            @ join_lines (map item (filter (\<lambda>(urlpart, r). er_userid r = target) rows))) ''s'' db))
       (affected_owners rows) db"

definition affected_items :: "string \<Rightarrow> string list \<Rightarrow> string" where
  "affected_items action_string copyable =
     ''Affected items ('' @ action_string @ ''): '' @ blank_line @ join_lines copyable"

definition plain_link :: "string \<times> edited_row \<Rightarrow> string" where
  "plain_link row = (case row of (urlpart, r) \<Rightarrow> markdown_link (er_title r) (''/'' @ urlpart @ ''/'' @ show_int (er_id r)))"

definition anyway_link :: "string \<times> edited_row \<Rightarrow> string" where
  "anyway_link row = (case row of (urlpart, r) \<Rightarrow> staff_link (er_title r) urlpart (er_id r))"

definition from_rating :: "edited_row \<Rightarrow> string" where
  "from_rating r = ''- (from '' @ (case CODE_TO_NAME (er_rating r) of None \<Rightarrow> [] | Some name \<Rightarrow> name) @ '') ''"

definition bulk_edit_rating ::
  "int \<Rightarrow> int \<Rightarrow> int \<Rightarrow> int list \<Rightarrow> int list \<Rightarrow> int list \<Rightarrow> 'a content_db_scheme \<Rightarrow> string result \<times> 'a content_db_scheme" where
  "bulk_edit_rating now userid new_rating submissions characters journals db =
     (case CODE_TO_NAME new_rating of
        None \<Rightarrow> (Inl KeyError, db)
      | Some name \<Rightarrow>
          (let action_string = ''rerated to '' @ name
           in and_then (edit_tables (Set_rating new_rating) submissions characters journals db) (\<lambda>rows db.
                (Inr (affected_items action_string (map (\<lambda>row. from_rating (snd row) @ plain_link row) rows)),
                 bulk_notes now userid action_string (\<lambda>row. from_rating (snd row) @ anyway_link row) rows db))))"

text \<open>\<open>int(..)\<close> of an ASCII text.\<close>

definition python_int :: "string \<Rightarrow> int result" where
  "python_int s =
     (let t = strip s;
          digits = (if t \<noteq> [] \<and> hd t \<in> set ''+-'' then tl t else t);
          parts = split_on (CHR ''_'') digits
      in if list_all (\<lambda>p. p \<noteq> [] \<and> list_all is_digit (ustr p)) parts
         then Inr ((if t \<noteq> [] \<and> hd t = CHR ''-'' then -1 else 1) * int_of_digits (ustr (concat parts)))
         else Inl ValueError)"

text \<open>What to say for the actions but \<open>rate-\<close>; the last entry tells whether the moderator gets links.\<close>

definition BULK_ACTIONS :: "(string \<times> bulk_action \<times> string \<times> bool) list" where
  "BULK_ACTIONS =
     [(''show'', Set_hidden False, ''unhidden'', True),
      (''hide'', Set_hidden True, ''hidden'', False),
      (''clearcritique'', Set_critique False, ''unmarked as \"critique requested\"'', True),
      (''setcritique'', Set_critique True, ''marked as \"critique requested\"'', True)]"

definition bulk_collectors :: "int list \<Rightarrow> 'a content_db_scheme \<Rightarrow> int list" where
  "bulk_collectors submissions db =
     remdups (map co_userid (filter (\<lambda>co. co_submitid co \<in> set submissions \<and> \<not> co_pending co) (t_collection db)))"

definition bulk_change ::
  "int \<Rightarrow> int \<Rightarrow> bulk_action \<times> string \<times> bool \<Rightarrow> int list \<Rightarrow> int list \<Rightarrow> int list \<Rightarrow> 'a content_db_scheme
     \<Rightarrow> string result \<times> 'a content_db_scheme" where
  "bulk_change now userid how submissions characters journals db =
     (case how of (action, action_string, provide_link) \<Rightarrow>
        and_then (edit_tables action submissions characters journals db) (\<lambda>rows db.
          let db = cached_posts_count_invalidate_multi
                (affected_owners rows @ (if submissions = [] then [] else bulk_collectors submissions db)) db
          in (Inr (affected_items action_string
                (map (\<lambda>row. ''- '' @ (if provide_link then plain_link row else er_title (snd row))) rows)),
              bulk_notes now userid action_string (\<lambda>row. ''- '' @ anyway_link row) rows db)))"

definition bulk_edit ::
  "int \<Rightarrow> int \<Rightarrow> string \<Rightarrow> int list \<Rightarrow> int list \<Rightarrow> int list \<Rightarrow> 'a content_db_scheme \<Rightarrow> string result \<times> 'a content_db_scheme" where
  "bulk_edit now userid action submissions characters journals db =
     (if submissions = [] \<and> characters = [] \<and> journals = [] \<or> action = ''null'' then (Inr ''Nothing to do.'', db)
      else if take 5 action = ''rate-'' then
        and_then (python_int (drop 5 action), db) (\<lambda>rating db.
          bulk_edit_rating now userid rating submissions characters journals db)
      else
        (case map_of BULK_ACTIONS action of
           None \<Rightarrow> (Inl (WeasylError ''Unexpected''), db)
         | Some how \<Rightarrow> bulk_change now userid how submissions characters journals db))"

end
