(* ===== verification/Post_Laws.thy ===== *)
theory Post_Laws
  imports Journals Characters Submissions Tagging
begin

text \<open>
  Laws that tie the lists of posts to their pages: what a well-formed store of journals, characters and submissions
  is (\<open>posts_ok\<close>), and that the lists of \<^verbatim>\<open>select_query\<close> show exactly the posts whose pages the same viewer may
  open. It also says which part of the store tagging leaves alone (\<open>untagged\<close>).
\<close>

subsection \<open>What tagging leaves alone\<close>

definition untagged :: "'a tags_db_scheme \<Rightarrow> content_db" where
  "untagged db = content_db.truncate (db\<lparr>c_tag_ids := (\<lambda>_. None), c_user_restricted := (\<lambda>_. None), c_global_restricted := None\<rparr>)"

lemma untagged_updates [simp]:
  "untagged (db\<lparr>c_tag_ids := x1\<rparr>) = untagged db" "untagged (db\<lparr>c_user_restricted := x2\<rparr>) = untagged db"
  "untagged (db\<lparr>c_global_restricted := x3\<rparr>) = untagged db" "untagged (db\<lparr>t_searchtag := x4\<rparr>) = untagged db"
  "untagged (db\<lparr>searchtag_seq := x5\<rparr>) = untagged db" "untagged (db\<lparr>t_searchmapsubmit := x6\<rparr>) = untagged db"
  "untagged (db\<lparr>t_searchmapchar := x7\<rparr>) = untagged db" "untagged (db\<lparr>t_searchmapjournal := x8\<rparr>) = untagged db"
  "untagged (db\<lparr>t_submission_tags := x9\<rparr>) = untagged db" "untagged (db\<lparr>t_tag_updates := x10\<rparr>) = untagged db"
  "untagged (db\<lparr>tag_update_seq := x11\<rparr>) = untagged db"
  by (simp_all add: untagged_def content_db.defs)

lemma untagged_sel:
  "t_journal (untagged db) = t_journal db"
  "t_character (untagged db) = t_character db"
  "t_submission (untagged db) = t_submission db"
  "t_collection (untagged db) = t_collection db"
  "t_welcome (untagged db) = t_welcome db"
  "t_userinfo (untagged db) = t_userinfo db"
  "t_watchuser (untagged db) = t_watchuser db"
  "t_frienduser (untagged db) = t_frienduser db"
  "t_profile (untagged db) = t_profile db"
  "c_posts_count (untagged db) = c_posts_count db"
  "journal_seq (untagged db) = journal_seq db"
  "character_seq (untagged db) = character_seq db"
  "submission_seq (untagged db) = submission_seq db"
  "t_folder (untagged db) = t_folder db"
  "t_ignoreuser (untagged db) = t_ignoreuser db"
  "t_charcomment (untagged db) = t_charcomment db"
  "t_journalcomment (untagged db) = t_journalcomment db"
  "t_comments (untagged db) = t_comments db"
  "welcome_seq (untagged db) = welcome_seq db"
  by (simp_all add: untagged_def content_db.truncate_def)

lemma untagged_same:
  assumes "untagged db' = untagged db"
  shows "t_journal db' = t_journal db"
    "t_character db' = t_character db"
    "t_submission db' = t_submission db"
    "t_collection db' = t_collection db"
    "t_welcome db' = t_welcome db"
    "t_userinfo db' = t_userinfo db"
    "t_watchuser db' = t_watchuser db"
    "t_frienduser db' = t_frienduser db"
    "t_profile db' = t_profile db"
    "c_posts_count db' = c_posts_count db"
    "journal_seq db' = journal_seq db"
    "character_seq db' = character_seq db"
    "submission_seq db' = submission_seq db"
    "t_folder db' = t_folder db"
    "t_ignoreuser db' = t_ignoreuser db"
    "t_charcomment db' = t_charcomment db"
    "t_journalcomment db' = t_journalcomment db"
    "t_comments db' = t_comments db"
    "welcome_seq db' = welcome_seq db"
  by (simp_all only: untagged_sel [of db', symmetric] assms) (simp_all only: untagged_sel)

lemma untagged_get_ids [simp]: "untagged (snd (get_ids names db)) = untagged db"
proof (induction names arbitrary: db)
  case (Cons name names)
  have "untagged (snd (tag_ids.read name db)) = untagged db"
    by (simp add: read_through_def store_tag_id_def Let_def split: option.split)
  with Cons show ?case by (simp add: case_prod_unfold Let_def)
qed simp

lemma untagged_insert_title [simp]: "untagged (fold insert_title names db) = untagged db"
  by (induction names arbitrary: db) (simp_all add: insert_title_def Let_def)

lemma untagged_get_or_create [simp]: "untagged (snd (get_or_create_many names db)) = untagged db"
  by (simp add: get_or_create_many_def case_prod_unfold Let_def)

lemma untagged_put_searchmap [simp]: "untagged (put_searchmap target rows db) = untagged db"
  by (cases target) simp_all

lemma untagged_record_tag_change [simp]: "untagged (record_tag_change now userid target added removed db) = untagged db"
  by (cases target) (simp_all add: record_tag_change_def update_submission_tags_def Let_def)

lemma untagged_query_restricted [simp]:
  "untagged (snd (query_user_restricted_tags ownerid db)) = untagged db"
  "untagged (snd (query_global_restricted_tags db)) = untagged db"
  by (simp_all add: query_user_restricted_tags_def query_global_restricted_tags_def read_through_def Let_def
      store_user_restricted_def store_global_restricted_def split: option.split)

lemma untagged_set_suggested_tags: "untagged (snd (set_suggested_tags now userid target ownerid names db)) = untagged db"
proof -
  obtain p1 db1 where r1: "query_user_restricted_tags ownerid db = (p1, db1)" by (meson surj_pair)
  obtain p2 db2 where r2: "query_global_restricted_tags db1 = (p2, db2)" by (meson surj_pair)
  define allowed where "allowed = filter (\<lambda>t. t \<in> set names \<longrightarrow> \<not> restricted_tag_matcher (p1 @ p2) t) names"
  obtain ids db3 where r3: "get_or_create_many allowed db2 = (ids, db3)" by (meson surj_pair)
  have "untagged db3 = untagged db"
    using untagged_query_restricted(1) [of ownerid db] untagged_query_restricted(2) [of db1] untagged_get_or_create [of allowed db2]
    by (simp add: r1 r2 r3)
  then show ?thesis
    using r3 by (simp add: set_suggested_tags_def r1 r2 allowed_def [symmetric] suggest_transaction_def Let_def)
qed

lemma untagged_associate [simp]: "untagged (snd (associate st now userid target names db)) = untagged db"
proof (cases "target_ownerid target db")
  case (Some ownerid)
  obtain ids db1 where r: "get_or_create_many names db = (ids, db1)" by (meson surj_pair)
  with untagged_get_or_create [of names db] Some show ?thesis
    by (simp add: associate_def associate_transaction_def untagged_set_suggested_tags Let_def)
qed (simp add: associate_def)

lemma associate_own:
  "target_ownerid target db = Some userid \<Longrightarrow> fst (associate st now userid target names db) = Inr []"
  by (simp add: associate_def case_prod_unfold Let_def)

subsection \<open>Lists and pages agree\<close>

definition posts_ok :: "'a content_db_scheme \<Rightarrow> bool" where
  "posts_ok db \<longleftrightarrow>
     distinct (map jo_journalid (t_journal db)) \<and> distinct (map ch_charid (t_character db))
     \<and> distinct (map su_submitid (t_submission db))
     \<and> (\<forall>jo \<in> set (t_journal db). jo_journalid jo \<noteq> 0 \<and> jo_userid jo \<noteq> 0)
     \<and> (\<forall>ch \<in> set (t_character db). ch_charid ch \<noteq> 0 \<and> ch_userid ch \<noteq> 0)
     \<and> (\<forall>su \<in> set (t_submission db). su_submitid su \<noteq> 0 \<and> su_userid su \<noteq> 0)"

text \<open>The condition of the lists on relations and tags, for a post whose tags are \<open>rows\<close>.\<close>

definition listed_to :: "int \<Rightarrow> int \<Rightarrow> bool \<Rightarrow> bool \<Rightarrow> 'a tags_db_scheme \<Rightarrow> bool" where
  "listed_to userid ownerid friends_only clean db =
     (if userid \<noteq> 0 then macro_frienduser userid friends_only ownerid db \<and> not_ignored userid ownerid db
        \<and> (ownerid = userid \<or> clean) else \<not> friends_only)"

lemma listed_to_check:
  "ownerid \<noteq> 0 \<Longrightarrow>
   listed_to userid ownerid friends_only clean db
     = ((friends_only \<longrightarrow> frienduser_check userid ownerid db) \<and> \<not> ignoreuser_check userid ownerid db
        \<and> \<not> (userid \<noteq> 0 \<and> ownerid \<noteq> userid \<and> \<not> clean))"
  by (auto simp: listed_to_def macro_frienduser_check not_ignored_check frienduser_check_def ignoreuser_check_def)

lemma found_post:
  "posts_ok db \<Longrightarrow> jo \<in> set (t_journal db) \<Longrightarrow> find (\<lambda>j. jo_journalid j = jo_journalid jo) (t_journal db) = Some jo"
  "posts_ok db \<Longrightarrow> ch \<in> set (t_character db) \<Longrightarrow> find (\<lambda>c. ch_charid c = ch_charid ch) (t_character db) = Some ch"
  "posts_ok db \<Longrightarrow> su \<in> set (t_submission db) \<Longrightarrow> find (\<lambda>s. su_submitid s = su_submitid su) (t_submission db) = Some su"
  using find_unique [of jo_journalid "t_journal db" jo] find_unique [of ch_charid "t_character db" ch]
    find_unique [of su_submitid "t_submission db" su]
  by (simp_all add: posts_ok_def)

lemma posts_okD:
  "posts_ok db \<Longrightarrow> jo \<in> set (t_journal db) \<Longrightarrow> jo_journalid jo \<noteq> 0 \<and> jo_userid jo \<noteq> 0"
  "posts_ok db \<Longrightarrow> ch \<in> set (t_character db) \<Longrightarrow> ch_charid ch \<noteq> 0 \<and> ch_userid ch \<noteq> 0"
  "posts_ok db \<Longrightarrow> su \<in> set (t_submission db) \<Longrightarrow> su_submitid su \<noteq> 0 \<and> su_userid su \<noteq> 0"
  by (simp_all add: posts_ok_def)

lemma blocktag_check_macro:
  "posts_ok db \<Longrightarrow> jo \<in> set (t_journal db) \<Longrightarrow>
   blocktag_check userid 0 0 (jo_journalid jo) db = (userid \<noteq> 0 \<and> \<not> macro_blocktag_journal userid jo db)"
  "posts_ok db \<Longrightarrow> ch \<in> set (t_character db) \<Longrightarrow>
   blocktag_check userid 0 (ch_charid ch) 0 db = (userid \<noteq> 0 \<and> \<not> macro_blocktag_char userid ch db)"
  "posts_ok db \<Longrightarrow> su \<in> set (t_submission db) \<Longrightarrow>
   blocktag_check userid (su_submitid su) 0 0 db = (userid \<noteq> 0 \<and> \<not> macro_blocktag_submit userid su db)"
  by (auto simp: blocktag_check_def Let_def post_rating_def found_post no_blocked_tag_def posts_okD
      macro_blocktag_journal_def macro_blocktag_char_def macro_blocktag_submit_def)

lemma shown_by_check:
  assumes "ownerid \<noteq> 0" "userid \<notin> MODS st"
  shows "(check_view st sfw_mode userid rating True anyway missing ownerid rated hidden friends_only blocked db = Inr ())
    = (\<not> hidden \<and> (if userid \<noteq> 0 then rating_shown sfw_mode userid rating ownerid rated else rated \<le> rating)
       \<and> (friends_only \<longrightarrow> frienduser_check userid ownerid db) \<and> \<not> ignoreuser_check userid ownerid db \<and> \<not> blocked)"
  using assms by (auto simp: check_view_def rating_shown_def)

lemma relation_conditions:
  assumes "ownerid \<noteq> 0"
  shows "(if userid \<noteq> 0 then shown \<and> macro_frienduser userid friends_only ownerid db \<and> not_ignored userid ownerid db \<and> clean
          else low \<and> \<not> friends_only)
    = ((if userid \<noteq> 0 then shown else low) \<and> (friends_only \<longrightarrow> frienduser_check userid ownerid db)
       \<and> \<not> ignoreuser_check userid ownerid db \<and> \<not> (userid \<noteq> 0 \<and> \<not> clean))"
proof (cases "userid = 0")
  case True
  then show ?thesis by (simp add: frienduser_check_def ignoreuser_check_def)
next
  case False
  with assms show ?thesis by (auto simp: macro_frienduser_check not_ignored_check)
qed

lemma journal_listed_iff:
  assumes "posts_ok db" "userid \<notin> MODS st" "jo \<in> set (t_journal db)"
  shows "journal_browsable sfw_mode userid rating jo db
    = (check_view st sfw_mode userid rating True anyway missing (jo_userid jo) (jo_rating jo)
         (jo_hidden jo) (jo_friends_only jo) (blocktag_check userid 0 0 (jo_journalid jo) db) db = Inr ())"
  unfolding journal_browsable_def shown_by_check [OF conjunct2 [OF posts_okD(1) [OF assms(1,3)]] assms(2)]
    relation_conditions [OF conjunct2 [OF posts_okD(1) [OF assms(1,3)]]] blocktag_check_macro(1) [OF assms(1,3)] by blast

lemma character_listed_iff:
  assumes "posts_ok db" "userid \<notin> MODS st" "ch \<in> set (t_character db)"
  shows "character_listed sfw_mode userid rating 0 ch db
    = (check_view st sfw_mode userid rating True anyway missing (ch_userid ch) (ch_rating ch)
         (ch_hidden ch) (ch_friends_only ch) (blocktag_check userid 0 (ch_charid ch) 0 db) db = Inr ())"
proof -
  have "character_listed sfw_mode userid rating 0 ch db
    = (\<not> ch_hidden ch \<and> (if userid \<noteq> 0 then rating_shown sfw_mode userid rating (ch_userid ch) (ch_rating ch)
         \<and> macro_frienduser userid (ch_friends_only ch) (ch_userid ch) db \<and> not_ignored userid (ch_userid ch) db
         \<and> macro_blocktag_char userid ch db else ch_rating ch \<le> rating \<and> \<not> ch_friends_only ch))"
    by (auto simp: character_listed_def)
  then show ?thesis
    unfolding shown_by_check [OF conjunct2 [OF posts_okD(2) [OF assms(1,3)]] assms(2)]
      relation_conditions [OF conjunct2 [OF posts_okD(2) [OF assms(1,3)]]] blocktag_check_macro(2) [OF assms(1,3)] by blast
qed

lemma submission_listed_iff:
  assumes "posts_ok db" "userid \<notin> MODS st" "su \<in> set (t_submission db)" "username_of (su_userid su) db = Some name"
    and q: "sq_otherid q = 0" "sq_folderid q = 0" "sq_subcat q = 0" "\<not> sq_profile_page_filter q" "\<not> sq_index_page_filter q"
      "\<not> sq_featured_filter q" "\<not> sq_critique_only q"
  shows "submission_listed sfw_mode userid rating q su db
    = (check_submission_view st userid (su_submitid su) True anyway db = Inr (su, name)
       \<and> \<not> rating_exceeded st sfw_mode userid rating su \<and> su_browse_excluded su \<noteq> Some True)"
proof -
  have "submission_listed sfw_mode userid rating q su db
    = (\<not> su_hidden su \<and> su_browse_excluded su \<noteq> Some True
       \<and> (if userid \<noteq> 0 then (if userid \<noteq> 0 \<and> \<not> sfw_mode then su_rating su \<le> rating \<or> su_userid su = userid else su_rating su \<le> rating)
         \<and> macro_frienduser userid (su_friends_only su) (su_userid su) db \<and> not_ignored userid (su_userid su) db
         \<and> macro_blocktag_submit userid su db else su_rating su \<le> rating \<and> \<not> su_friends_only su))"
    using q by (auto simp: submission_listed_def)
  moreover have "check_submission_view st userid (su_submitid su) True anyway db = Inr (su, name)
    \<longleftrightarrow> \<not> su_hidden su \<and> (su_friends_only su \<longrightarrow> frienduser_check userid (su_userid su) db)
       \<and> \<not> ignoreuser_check userid (su_userid su) db \<and> \<not> blocktag_check userid (su_submitid su) 0 0 db"
    using assms found_post(3) [OF assms(1,3)]
    by (simp add: check_submission_view_def submission_row_of_def find_submission_def)
  moreover have "\<not> rating_exceeded st sfw_mode userid rating su
    \<longleftrightarrow> (if userid \<noteq> 0 then (if userid \<noteq> 0 \<and> \<not> sfw_mode then su_rating su \<le> rating \<or> su_userid su = userid else su_rating su \<le> rating)
         else su_rating su \<le> rating)"
    using assms(2) posts_okD(3) [OF assms(1,3)] by (auto simp: rating_exceeded_def)
  ultimately show ?thesis
    unfolding relation_conditions [OF conjunct2 [OF posts_okD(3) [OF assms(1,3)]]] blocktag_check_macro(3) [OF assms(1,3)]
    by blast
qed

lemma browsable_journal_iff:
  "(jo, name) \<in> set (browsable_journals sfw_mode userid rating db) \<longleftrightarrow>
     jo \<in> set (t_journal db) \<and> username_of (jo_userid jo) db = Some name \<and> journal_browsable sfw_mode userid rating jo db"
  by (auto simp: browsable_journals_def in_map_filter split: if_splits)

lemma listed_character_iff:
  "(ch, name) \<in> set (character_select_query sfw_mode userid rating otherid 0 0 db) \<longleftrightarrow>
     ch \<in> set (t_character db) \<and> username_of (ch_userid ch) db = Some name \<and> character_listed sfw_mode userid rating otherid ch db"
  by (auto simp: character_select_query_def in_map_filter split: if_splits)

lemma listed_submission_iff:
  "(su, name) \<in> set (submission_select_query sfw_mode userid rating q 0 0 db) \<longleftrightarrow>
     su \<in> set (t_submission db) \<and> username_of (su_userid su) db = Some name \<and> submission_listed sfw_mode userid rating q su db"
  by (auto simp: submission_select_query_def in_map_filter split: if_splits)

lemma post_row_iff:
  assumes "posts_ok db"
  shows "journal_row_of journalid db = Some (jo, name) \<longleftrightarrow>
      jo \<in> set (t_journal db) \<and> jo_journalid jo = journalid \<and> username_of (jo_userid jo) db = Some name"
    "character_row_of charid db = Some (ch, name) \<longleftrightarrow>
      ch \<in> set (t_character db) \<and> ch_charid ch = charid \<and> username_of (ch_userid ch) db = Some name"
    "submission_row_of submitid db = Some (su, name) \<longleftrightarrow>
      su \<in> set (t_submission db) \<and> su_submitid su = submitid \<and> username_of (su_userid su) db = Some name"
  using found_post [OF assms]
  by (auto simp: journal_row_of_def character_row_of_def submission_row_of_def find_submission_def bind_eq_Some_conv
      dest!: find_SomeD)

lemma viewed_journal_iff:
  "fst (select_journal_and_check st now address sfw_mode userid journalid rating ignore anyway False db) = Inr (jo, name)
   \<longleftrightarrow> journal_row_of journalid db = Some (jo, name)
      \<and> check_view st sfw_mode userid rating ignore anyway ''journalRecordMissing'' (jo_userid jo) (jo_rating jo)
         (jo_hidden jo) (jo_friends_only jo) (blocktag_check userid 0 0 journalid db) db = Inr ()"
  by (auto simp: select_journal_and_check_def split: option.splits sum.splits)

lemma viewed_character_iff:
  "fst (select_character_and_check st now address sfw_mode userid charid rating ignore anyway False db) = Inr (ch, name)
   \<longleftrightarrow> character_row_of charid db = Some (ch, name)
      \<and> check_view st sfw_mode userid rating ignore anyway ''characterRecordMissing'' (ch_userid ch) (ch_rating ch)
         (ch_hidden ch) (ch_friends_only ch) (blocktag_check userid 0 charid 0 db) db = Inr ()"
  by (auto simp: select_character_and_check_def split: option.splits sum.splits)

lemma viewed_submission_row:
  "check_submission_view st userid submitid ignore anyway db = Inr (su, name) \<Longrightarrow> submission_row_of submitid db = Some (su, name)"
  by (auto simp: check_submission_view_def split: option.splits if_splits)


definition every_submission :: submission_query where
  "every_submission =
     \<lparr>sq_otherid = 0, sq_folderid = 0, sq_subcat = 0, sq_profile_page_filter = False, sq_index_page_filter = False,
      sq_featured_filter = False, sq_critique_only = False\<rparr>"

lemma lists_match_pages_of_users:
  assumes "posts_ok db" and "userid \<notin> MODS st"
  shows "(\<forall>jo name. (jo, name) \<in> set (browsable_journals sfw_mode userid rating db)
        \<longleftrightarrow> fst (select_journal_and_check st now address sfw_mode userid (jo_journalid jo) rating True anyway False db) = Inr (jo, name))
    \<and> (\<forall>ch name. (ch, name) \<in> set (character_select_query sfw_mode userid rating 0 0 0 db)
        \<longleftrightarrow> fst (select_character_and_check st now address sfw_mode userid (ch_charid ch) rating True anyway False db) = Inr (ch, name))
    \<and> (\<forall>su name. (su, name) \<in> set (submission_select_query sfw_mode userid rating every_submission 0 0 db)
        \<longleftrightarrow> check_submission_view st userid (su_submitid su) True anyway db = Inr (su, name)
           \<and> \<not> rating_exceeded st sfw_mode userid rating su \<and> su_browse_excluded su \<noteq> Some True)"
proof (intro conjI allI)
  fix jo name
  show "(jo, name) \<in> set (browsable_journals sfw_mode userid rating db)
    \<longleftrightarrow> fst (select_journal_and_check st now address sfw_mode userid (jo_journalid jo) rating True anyway False db) = Inr (jo, name)"
    using journal_listed_iff [OF assms] by (auto simp: browsable_journal_iff viewed_journal_iff post_row_iff [OF assms(1)])
next
  fix ch name
  show "(ch, name) \<in> set (character_select_query sfw_mode userid rating 0 0 0 db)
    \<longleftrightarrow> fst (select_character_and_check st now address sfw_mode userid (ch_charid ch) rating True anyway False db) = Inr (ch, name)"
    using character_listed_iff [OF assms] by (auto simp: listed_character_iff viewed_character_iff post_row_iff [OF assms(1)])
next
  fix su name
  show "(su, name) \<in> set (submission_select_query sfw_mode userid rating every_submission 0 0 db)
    \<longleftrightarrow> check_submission_view st userid (su_submitid su) True anyway db = Inr (su, name)
      \<and> \<not> rating_exceeded st sfw_mode userid rating su \<and> su_browse_excluded su \<noteq> Some True"
  proof -
    have "submission_listed sfw_mode userid rating every_submission su db
      = (check_submission_view st userid (su_submitid su) True anyway db = Inr (su, name)
         \<and> \<not> rating_exceeded st sfw_mode userid rating su \<and> su_browse_excluded su \<noteq> Some True)"
      if "su \<in> set (t_submission db)" "username_of (su_userid su) db = Some name"
      by (rule submission_listed_iff [OF assms that]) (simp_all add: every_submission_def)
    then show ?thesis
      unfolding listed_submission_iff using post_row_iff(3) [OF assms(1)] viewed_submission_row by metis
  qed
qed

text \<open>What is open to a user of whom nothing is known is open to the staff.\<close>

lemma staff_sees_more:
  "check_view no_staff sfw_mode userid rating ignore anyway missing ownerid rated hidden friends_only blocked db = Inr () \<Longrightarrow>
   check_view st sfw_mode userid rating ignore anyway missing ownerid rated hidden friends_only blocked db = Inr ()"
  "check_submission_view no_staff userid submitid ignore anyway db = Inr row \<Longrightarrow>
   check_submission_view st userid submitid ignore anyway db = Inr row"
  "\<not> rating_exceeded no_staff sfw_mode userid rating su \<Longrightarrow> \<not> rating_exceeded st sfw_mode userid rating su"
  by (auto simp: check_view_def check_submission_view_def rating_exceeded_def no_staff_def split: if_splits option.splits)

text \<open>
  C2: The lists and the pages agree on who sees what. Whatever the browsing lists of journals, characters and
  submissions show to a viewer opens at the same rating, for staff too, whether they insist or not. To a viewer who is
  no moderator the lists show exactly the journals and characters whose page opens, and exactly the submissions whose
  page opens, whose rating is not above the viewer's and which are not excluded from browsing. (A moderator may open
  pages no list shows.) The page is taken with ignored users and blocked tags respected.
\<close>
theorem lists_match_pages:
  assumes "posts_ok db"
  shows "(\<forall>jo name. let listed = (jo, name) \<in> set (browsable_journals sfw_mode userid rating db);
          opens = (fst (select_journal_and_check st now address sfw_mode userid (jo_journalid jo) rating True anyway False db) = Inr (jo, name))
        in (listed \<longrightarrow> opens) \<and> (userid \<notin> MODS st \<longrightarrow> listed = opens))
    \<and> (\<forall>ch name. let listed = (ch, name) \<in> set (character_select_query sfw_mode userid rating 0 0 0 db);
          opens = (fst (select_character_and_check st now address sfw_mode userid (ch_charid ch) rating True anyway False db) = Inr (ch, name))
        in (listed \<longrightarrow> opens) \<and> (userid \<notin> MODS st \<longrightarrow> listed = opens))
    \<and> (\<forall>su name. let listed = (su, name) \<in> set (submission_select_query sfw_mode userid rating every_submission 0 0 db);
          opens = (check_submission_view st userid (su_submitid su) True anyway db = Inr (su, name)
             \<and> \<not> rating_exceeded st sfw_mode userid rating su \<and> su_browse_excluded su \<noteq> Some True)
        in (listed \<longrightarrow> opens) \<and> (userid \<notin> MODS st \<longrightarrow> listed = opens))"
proof -
  have "userid \<notin> MODS no_staff" by (simp add: no_staff_def)
  note nobody = lists_match_pages_of_users [OF assms this, of sfw_mode rating now address anyway]
  have user: "userid \<notin> MODS st \<Longrightarrow> ?thesis"
    using lists_match_pages_of_users [OF assms, of userid st sfw_mode rating now address anyway] unfolding Let_def by blast
  have "\<forall>jo name. (jo, name) \<in> set (browsable_journals sfw_mode userid rating db) \<longrightarrow>
      fst (select_journal_and_check st now address sfw_mode userid (jo_journalid jo) rating True anyway False db) = Inr (jo, name)"
    using nobody unfolding viewed_journal_iff using staff_sees_more(1) by blast
  moreover have "\<forall>ch name. (ch, name) \<in> set (character_select_query sfw_mode userid rating 0 0 0 db) \<longrightarrow>
      fst (select_character_and_check st now address sfw_mode userid (ch_charid ch) rating True anyway False db) = Inr (ch, name)"
    using nobody unfolding viewed_character_iff using staff_sees_more(1) by blast
  moreover have "\<forall>su name. (su, name) \<in> set (submission_select_query sfw_mode userid rating every_submission 0 0 db) \<longrightarrow>
      check_submission_view st userid (su_submitid su) True anyway db = Inr (su, name)
        \<and> \<not> rating_exceeded st sfw_mode userid rating su \<and> su_browse_excluded su \<noteq> Some True"
    using nobody staff_sees_more(2,3) by blast
  ultimately show ?thesis using user unfolding Let_def by blast
qed

text \<open>The site of the examples with a journal for friends, a character, and a tag that \<open>bob\<close> has blocked.\<close>

definition posts_db :: tags_db where
  "posts_db = tagged_db\<lparr>
     t_journal := [\<lparr>jo_journalid = 3, jo_userid = 1, jo_title = ''j'', jo_content = ''c'', jo_rating = 10, jo_unixtime = 40,
        jo_hidden = False, jo_friends_only = True, jo_page_views = 0, jo_submitter_ip_address = None,
        jo_submitter_user_agent_id = None\<rparr>],
     journal_seq := 4,
     t_character := [\<lparr>ch_charid = 4, ch_userid = 1, ch_unixtime = 41, ch_char_name = ''Rex'', ch_age = [], ch_gender = [],
        ch_height = [], ch_weight = [], ch_species = [], ch_content = [], ch_rating = 10, ch_settings = ''=P~P'',
        ch_hidden = False, ch_friends_only = False, ch_page_views = 0\<rparr>],
     character_seq := 5, submission_seq := 6,
     t_blocktag := [\<lparr>bt_userid = 2, bt_tagid = 2, bt_rating = 10\<rparr>]\<rparr>"

definition with_media :: "tags_db \<Rightarrow> media_db" where
  "with_media db = tags_db.extend db
     (media_db.fields [] [] [] [] 1 1 1 (\<lambda>_. None) (\<lambda>_. None))"

theorem lists_match_pages_witness:
  "map (\<lambda>(ch, name). (ch_charid ch, name)) (character_select_query False 2 10 0 0 0 posts_db) = [(4, ''ann'')]
   \<and> submission_select_query False 2 10 every_submission 0 0 posts_db = []
   \<and> (\<nexists>su name. check_submission_view no_staff 2 (su_submitid su) True False posts_db = Inr (su, name)
        \<and> \<not> rating_exceeded no_staff False 2 10 su \<and> su_browse_excluded su \<noteq> Some True)"
proof -
  have "posts_ok posts_db" by code_simp
  moreover have "2 \<notin> MODS no_staff" by (simp add: no_staff_def)
  ultimately have listed: "\<forall>su name. (su, name) \<in> set (submission_select_query False 2 10 every_submission 0 0 posts_db)
      \<longleftrightarrow> check_submission_view no_staff 2 (su_submitid su) True False posts_db = Inr (su, name)
         \<and> \<not> rating_exceeded no_staff False 2 10 su \<and> su_browse_excluded su \<noteq> Some True"
    using lists_match_pages [THEN conjunct2, THEN conjunct2, of posts_db False 2 10 no_staff False] unfolding Let_def by blast
  moreover have "submission_select_query False 2 10 every_submission 0 0 posts_db = []" by code_simp
  moreover have "map (\<lambda>(ch, name). (ch_charid ch, name)) (character_select_query False 2 10 0 0 0 posts_db) = [(4, ''ann'')]"
    by code_simp
  ultimately show ?thesis by (metis empty_iff list.set(1))
qed

end
