(* ===== verification/Post_Counts.thy ===== *)
theory Post_Counts
  imports Post_Laws
begin

text \<open>
  What the cached counts of a user's posts depend on (\<open>post_state\<close>), the invariant that the counts in the cache are the
  ones the database would give (\<open>posts_inv\<close>), and the operations that leave the posts alone.
\<close>

subsection \<open>What the counts of posts depend on\<close>

text \<open>A post as the counts see it: id, owner, rating, hidden, friends only.\<close>

type_synonym post = "int \<times> int \<times> int \<times> bool \<times> bool"

definition jo_post :: "journal_row \<Rightarrow> post" where
  "jo_post jo = (jo_journalid jo, jo_userid jo, jo_rating jo, jo_hidden jo, jo_friends_only jo)"

definition ch_post :: "character_row \<Rightarrow> post" where
  "ch_post ch = (ch_charid ch, ch_userid ch, ch_rating ch, ch_hidden ch, ch_friends_only ch)"

definition su_post :: "submission_row \<Rightarrow> post" where
  "su_post su = (su_submitid su, su_userid su, su_rating su, su_hidden su, su_friends_only su)"

record post_state =
  ps_cached :: "int \<Rightarrow> posts_count_row list option"
  ps_collection :: "collection_row list"
  ps_journals :: "post list"
  ps_characters :: "post list"
  ps_submissions :: "post list"
  ps_next :: "int \<times> int \<times> int"

definition post_state_of :: "'a content_db_scheme \<Rightarrow> post_state" where
  "post_state_of db =
     \<lparr>ps_cached = c_posts_count db, ps_collection = t_collection db, ps_journals = map jo_post (t_journal db),
      ps_characters = map ch_post (t_character db), ps_submissions = map su_post (t_submission db),
      ps_next = (journal_seq db, character_seq db, submission_seq db)\<rparr>"

definition counted :: "int \<Rightarrow> post list \<Rightarrow> (int \<times> bool) list" where
  "counted userid ps = map (\<lambda>(i, ownerid, rating, hidden, friends_only). (rating, friends_only))
     (filter (\<lambda>(i, ownerid, rating, hidden, friends_only). ownerid = userid \<and> \<not> hidden) ps)"

definition collected :: "int \<Rightarrow> collection_row list \<Rightarrow> post list \<Rightarrow> (int \<times> bool) list" where
  "collected userid cs ps =
     concat (map (\<lambda>co. map (\<lambda>(i, ownerid, rating, hidden, friends_only). (rating, friends_only))
         (filter (\<lambda>(i, ownerid, rating, hidden, friends_only). i = co_submitid co \<and> \<not> hidden) ps))
       (filter (\<lambda>co. co_userid co = userid \<and> \<not> co_pending co) cs))"

definition counts_of :: "int \<Rightarrow> post_state \<Rightarrow> posts_count_row list" where
  "counts_of userid s =
     group_counts PT_submission (counted userid (ps_submissions s)) @ group_counts PT_journal (counted userid (ps_journals s))
     @ group_counts PT_character (counted userid (ps_characters s))
     @ group_counts PT_collection (collected userid (ps_collection s) (ps_submissions s))"

lemma query_posts_count_state: "query_posts_count userid db = counts_of userid (post_state_of db)"
proof -
  have "post_keys PT_submission userid db = counted userid (map su_post (t_submission db))"
    "post_keys PT_journal userid db = counted userid (map jo_post (t_journal db))"
    "post_keys PT_character userid db = counted userid (map ch_post (t_character db))"
    by (simp_all add: counted_def filter_map comp_def su_post_def jo_post_def ch_post_def)
  moreover have "collection_keys userid db = collected userid (t_collection db) (map su_post (t_submission db))"
    by (simp add: collection_keys_def collected_def co_pending_def filter_map comp_def su_post_def)
  ultimately show ?thesis
    by (simp add: query_posts_count_def counts_of_def post_state_of_def)
qed

text \<open>The cached counts are right for everyone but the users of \<open>U\<close>.\<close>

definition counts_right :: "int set \<Rightarrow> post_state \<Rightarrow> bool" where
  "counts_right U s \<longleftrightarrow> (\<forall>u v. u \<notin> U \<longrightarrow> ps_cached s u = Some v \<longrightarrow> v = counts_of u s)"

lemma posts_cache_ok_state: "posts_cache_ok db \<longleftrightarrow> counts_right {} (post_state_of db)"
  by (simp add: coherent_def counts_right_def query_posts_count_state peek_posts_count_def) (simp add: post_state_of_def)

definition ids_below :: "int \<Rightarrow> post list \<Rightarrow> bool" where
  "ids_below n ps \<longleftrightarrow> 0 < n \<and> distinct (map fst ps) \<and> (\<forall>p \<in> set ps. 0 < fst p \<and> fst p < n \<and> fst (snd p) \<noteq> 0)"

definition post_state_ok :: "post_state \<Rightarrow> bool" where
  "post_state_ok s \<longleftrightarrow>
     (case ps_next s of (nj, nc, ns) \<Rightarrow>
        ids_below nj (ps_journals s) \<and> ids_below nc (ps_characters s) \<and> ids_below ns (ps_submissions s)
        \<and> (\<forall>co \<in> set (ps_collection s). co_submitid co < ns))"

lemma post_state_ok_posts: "post_state_ok (post_state_of db) \<Longrightarrow> posts_ok db"
  by (fastforce simp: post_state_ok_def post_state_of_def ids_below_def posts_ok_def jo_post_def ch_post_def su_post_def comp_def)

subsection \<open>New posts and changed posts\<close>

lemma counted_append: "counted userid (ps @ qs) = counted userid ps @ counted userid qs"
  by (simp add: counted_def)

lemma counted_other: "ownerid \<noteq> userid \<Longrightarrow> counted userid [(i, ownerid, rating, hidden, friends_only)] = []"
  by (simp add: counted_def)

lemma collected_new:
  assumes "\<forall>co \<in> set cs. co_submitid co < i"
  shows "collected userid cs (ps @ [(i, ownerid, rating, hidden, friends_only)]) = collected userid cs ps"
proof -
  have "i \<noteq> co_submitid co" if "co \<in> set cs" for co using assms that by auto
  then show ?thesis
    by (auto simp: collected_def intro!: arg_cong [of _ _ concat] map_cong)
qed

text \<open>The posts in \<open>C\<close> may change, but not their ids and owners.\<close>

definition changed :: "post set \<Rightarrow> post list \<Rightarrow> post list \<Rightarrow> bool" where
  "changed C ps qs \<longleftrightarrow> list_all2 (\<lambda>p q. fst q = fst p \<and> fst (snd q) = fst (snd p) \<and> (p \<notin> C \<longrightarrow> q = p)) ps qs"

lemma changed_update_where:
  assumes "\<And>r. r \<in> set rows \<Longrightarrow> P r \<Longrightarrow> key r \<in> C" and "\<And>r. fst (key (f r)) = fst (key r)"
    and "\<And>r. fst (snd (key (f r))) = fst (snd (key r))"
  shows "changed C (map key rows) (map key (update_where P f rows))"
  using assms by (auto simp: changed_def update_where_def list_all2_conv_all_nth)

lemma changed_keys:
  assumes "changed C ps qs"
  shows "map fst qs = map fst ps" "map (\<lambda>p. (fst p, fst (snd p))) qs = map (\<lambda>p. (fst p, fst (snd p))) ps"
  using assms unfolding changed_def by (induction rule: list_all2_induct) auto

lemma changed_ids_below: "changed C ps qs \<Longrightarrow> ids_below n ps \<Longrightarrow> ids_below n qs"
proof -
  assume c: "changed C ps qs" and ok: "ids_below n ps"
  have "set (map (\<lambda>p. (fst p, fst (snd p))) qs) = set (map (\<lambda>p. (fst p, fst (snd p))) ps)"
    using changed_keys(2) [OF c] by simp
  then have "\<forall>p \<in> set qs. \<exists>p' \<in> set ps. fst p = fst p' \<and> fst (snd p) = fst (snd p')"
    by (auto simp: image_iff set_eq_iff)
  with ok show ?thesis
    using changed_keys(1) [OF c] by (fastforce simp: ids_below_def)
qed

lemma changed_counted:
  assumes "changed C ps qs" "\<forall>p \<in> C. fst (snd p) \<noteq> userid"
  shows "counted userid qs = counted userid ps"
  using assms unfolding changed_def by (induction rule: list_all2_induct) (auto simp: counted_def)

lemma changed_collected:
  assumes "changed C ps qs" "\<forall>p \<in> C. \<forall>co \<in> set cs. co_submitid co = fst p \<longrightarrow> co_pending co \<or> co_userid co \<noteq> userid"
  shows "collected userid cs qs = collected userid cs ps"
proof -
  have other: "map (\<lambda>(i, ownerid, rating, hidden, friends_only). (rating, friends_only))
          (filter (\<lambda>(i, ownerid, rating, hidden, friends_only). i = k \<and> \<not> hidden) qs)
      = map (\<lambda>(i, ownerid, rating, hidden, friends_only). (rating, friends_only))
          (filter (\<lambda>(i, ownerid, rating, hidden, friends_only). i = k \<and> \<not> hidden) ps)" if "\<forall>p \<in> C. fst p \<noteq> k" for k
    using assms(1) that unfolding changed_def by (induction rule: list_all2_induct) auto
  show ?thesis
    unfolding collected_def
  proof (intro arg_cong [of _ _ concat] map_cong [OF refl] other)
    fix co
    assume "co \<in> set (filter (\<lambda>co. co_userid co = userid \<and> \<not> co_pending co) cs)"
    with assms(2) show "\<forall>p \<in> C. fst p \<noteq> co_submitid co" by fastforce
  qed
qed


subsection \<open>The invariant\<close>

definition posts_inv :: "int set \<Rightarrow> post_state \<Rightarrow> bool" where
  "posts_inv U s \<longleftrightarrow> post_state_ok s \<and> counts_right U s"

abbreviation posts_kept :: "int set \<Rightarrow> 'a content_db_scheme \<Rightarrow> bool" where
  "posts_kept U db \<equiv> posts_inv U (post_state_of db)"

lemma posts_inv_mono: "posts_kept U db \<Longrightarrow> U \<subseteq> V \<Longrightarrow> posts_kept V db"
  by (auto simp: posts_inv_def counts_right_def)

lemma posts_inv_invalidate: "posts_kept (insert u U) db \<Longrightarrow> posts_kept U (posts_count_invalidate u db)"
  by (auto simp: posts_inv_def post_state_ok_def counts_right_def post_state_of_def counts_of_def
      posts_count_invalidate_def store_posts_count_def)

lemma posts_inv_invalidate_multi:
  "posts_kept (U \<union> set us) db \<Longrightarrow> posts_kept U (cached_posts_count_invalidate_multi us db)"
proof (induction us arbitrary: db)
  case (Cons u us)
  then have "posts_kept (U \<union> set us) (posts_count_invalidate u db)"
    by (intro posts_inv_invalidate) (simp add: Un_insert_right)
  with Cons.IH show ?case by (simp add: cached_posts_count_invalidate_multi_def)
qed (simp add: cached_posts_count_invalidate_multi_def)

lemma new_post:
  assumes "post_state_ok s" "counts_right U s" "u \<noteq> 0" "ps_next s = (nj, nc, ns)"
  shows
    "post_state_ok (s\<lparr>ps_journals := ps_journals s @ [(nj, u, r, h, f)], ps_next := (nj + 1, nc, ns)\<rparr>)"
    "counts_right (insert u U) (s\<lparr>ps_journals := ps_journals s @ [(nj, u, r, h, f)], ps_next := (nj + 1, nc, ns)\<rparr>)"
    "post_state_ok (s\<lparr>ps_characters := ps_characters s @ [(nc, u, r, h, f)], ps_next := (nj, nc + 1, ns)\<rparr>)"
    "counts_right (insert u U) (s\<lparr>ps_characters := ps_characters s @ [(nc, u, r, h, f)], ps_next := (nj, nc + 1, ns)\<rparr>)"
    "post_state_ok (s\<lparr>ps_submissions := ps_submissions s @ [(ns, u, r, h, f)], ps_next := (nj, nc, ns + 1)\<rparr>)"
    "counts_right (insert u U) (s\<lparr>ps_submissions := ps_submissions s @ [(ns, u, r, h, f)], ps_next := (nj, nc, ns + 1)\<rparr>)"
  using assms
  by (auto simp: post_state_ok_def ids_below_def counts_right_def counts_of_def counted_append counted_other collected_new)

lemma changed_posts:
  assumes "post_state_ok s" "counts_right U s" and U: "\<forall>p \<in> C. fst (snd p) \<in> U"
  shows
    "changed C (ps_journals s) qs \<Longrightarrow> post_state_ok (s\<lparr>ps_journals := qs\<rparr>) \<and> counts_right U (s\<lparr>ps_journals := qs\<rparr>)"
    "changed C (ps_characters s) qs \<Longrightarrow> post_state_ok (s\<lparr>ps_characters := qs\<rparr>) \<and> counts_right U (s\<lparr>ps_characters := qs\<rparr>)"
    "changed C (ps_submissions s) qs \<Longrightarrow>
     \<forall>p \<in> C. \<forall>co \<in> set (ps_collection s). co_submitid co = fst p \<and> \<not> co_pending co \<longrightarrow> co_userid co \<in> U \<Longrightarrow>
     post_state_ok (s\<lparr>ps_submissions := qs\<rparr>) \<and> counts_right U (s\<lparr>ps_submissions := qs\<rparr>)"
proof -
  have same: "counted u qs = counted u ps" if "changed C ps qs" "u \<notin> U" for u ps
    using that U by (intro changed_counted) auto
  show "changed C (ps_journals s) qs \<Longrightarrow> post_state_ok (s\<lparr>ps_journals := qs\<rparr>) \<and> counts_right U (s\<lparr>ps_journals := qs\<rparr>)"
    "changed C (ps_characters s) qs \<Longrightarrow> post_state_ok (s\<lparr>ps_characters := qs\<rparr>) \<and> counts_right U (s\<lparr>ps_characters := qs\<rparr>)"
    using assms(1,2) same changed_ids_below by (auto simp: post_state_ok_def counts_right_def counts_of_def)
  assume c: "changed C (ps_submissions s) qs"
    and C: "\<forall>p \<in> C. \<forall>co \<in> set (ps_collection s). co_submitid co = fst p \<and> \<not> co_pending co \<longrightarrow> co_userid co \<in> U"
  have "collected u (ps_collection s) qs = collected u (ps_collection s) (ps_submissions s)" if "u \<notin> U" for u
    using that C by (intro changed_collected [OF c]) auto
  with assms(1,2) same [OF c] changed_ids_below [OF c]
  show "post_state_ok (s\<lparr>ps_submissions := qs\<rparr>) \<and> counts_right U (s\<lparr>ps_submissions := qs\<rparr>)"
    by (auto simp: post_state_ok_def counts_right_def counts_of_def)
qed

text \<open>The same on the database.\<close>

lemma post_state_rows:
  "post_state_of (db\<lparr>t_journal := js\<rparr>) = (post_state_of db)\<lparr>ps_journals := map jo_post js\<rparr>"
  "post_state_of (db\<lparr>t_character := cs\<rparr>) = (post_state_of db)\<lparr>ps_characters := map ch_post cs\<rparr>"
  "post_state_of (db\<lparr>t_submission := ss\<rparr>) = (post_state_of db)\<lparr>ps_submissions := map su_post ss\<rparr>"
  by (simp_all add: post_state_of_def)

lemma posts_inv_add:
  assumes "posts_kept U db" "u \<noteq> 0"
  shows "posts_kept (insert u U) (add_journal now u jf rating friends_only db)"
    "posts_kept (insert u U) (add_character now u cf rating settings friends_only db)"
    "posts_kept (insert u U) (add_submission now u sf rating content embed_type friends_only critique db)"
proof -
  have n: "ps_next (post_state_of db) = (journal_seq db, character_seq db, submission_seq db)"
    by (simp add: post_state_of_def)
  have st: "post_state_ok (post_state_of db)" "counts_right U (post_state_of db)"
    using assms(1) by (simp_all add: posts_inv_def)
  note new = new_post [OF st assms(2) n]
  show "posts_kept (insert u U) (add_journal now u jf rating friends_only db)"
    using assms new(1,2) [where r = "rating_code rating" and h = False and f = friends_only]
    by (simp add: posts_inv_def add_journal_def post_state_of_def jo_post_def)
  show "posts_kept (insert u U) (add_character now u cf rating settings friends_only db)"
    using assms new(3,4) [where r = "rating_code rating" and h = False and f = friends_only]
    by (simp add: posts_inv_def add_character_def post_state_of_def ch_post_def)
  show "posts_kept (insert u U) (add_submission now u sf rating content embed_type friends_only critique db)"
    using assms new(5,6) [where r = "rating_code rating" and h = False and f = friends_only]
    by (simp add: posts_inv_def add_submission_def post_state_of_def su_post_def)
qed

text \<open>An update that keeps ids and owners; the owners and collectors of the changed rows may have stale counts after it.\<close>

lemma posts_inv_update:
  assumes "posts_kept U db"
  shows
    "\<lbrakk>\<And>jo. jo \<in> set (t_journal db) \<Longrightarrow> P jo \<Longrightarrow> jo_userid jo \<in> U;
      \<And>jo. jo_journalid (f jo) = jo_journalid jo \<and> jo_userid (f jo) = jo_userid jo\<rbrakk>
     \<Longrightarrow> posts_kept U (db\<lparr>t_journal := update_where P f (t_journal db)\<rparr>)"
    "\<lbrakk>\<And>ch. ch \<in> set (t_character db) \<Longrightarrow> Q ch \<Longrightarrow> ch_userid ch \<in> U;
      \<And>ch. ch_charid (g ch) = ch_charid ch \<and> ch_userid (g ch) = ch_userid ch\<rbrakk>
     \<Longrightarrow> posts_kept U (db\<lparr>t_character := update_where Q g (t_character db)\<rparr>)"
    "\<lbrakk>\<And>su. su \<in> set (t_submission db) \<Longrightarrow> R su \<Longrightarrow> su_userid su \<in> U \<and> set (collection_find_owners (su_submitid su) db) \<subseteq> U;
      \<And>su. su_submitid (h su) = su_submitid su \<and> su_userid (h su) = su_userid su\<rbrakk>
     \<Longrightarrow> posts_kept U (db\<lparr>t_submission := update_where R h (t_submission db)\<rparr>)"
proof -
  let ?s = "post_state_of db"
  have s: "post_state_ok ?s" "counts_right U ?s" using assms by (simp_all add: posts_inv_def)
  have sel: "ps_journals ?s = map jo_post (t_journal db)" "ps_characters ?s = map ch_post (t_character db)"
    "ps_submissions ?s = map su_post (t_submission db)" "ps_collection ?s = t_collection db"
    by (simp_all add: post_state_of_def)
  let ?C = "{p :: post. fst (snd p) \<in> U}"
  let ?D = "{p :: post. fst (snd p) \<in> U \<and> set (collection_find_owners (fst p) db) \<subseteq> U}"
  note upd = changed_posts [OF s, of ?C, unfolded sel]
  note upd' = changed_posts [OF s, of ?D, unfolded sel]
  {
    assume a: "\<And>jo. jo \<in> set (t_journal db) \<Longrightarrow> P jo \<Longrightarrow> jo_userid jo \<in> U"
      "\<And>jo. jo_journalid (f jo) = jo_journalid jo \<and> jo_userid (f jo) = jo_userid jo"
    have "changed ?C (map jo_post (t_journal db)) (map jo_post (update_where P f (t_journal db)))"
      by (rule changed_update_where) (simp_all add: jo_post_def a)
    with upd(1) show "posts_kept U (db\<lparr>t_journal := update_where P f (t_journal db)\<rparr>)"
      by (simp add: posts_inv_def post_state_rows)
  next
    assume a: "\<And>ch. ch \<in> set (t_character db) \<Longrightarrow> Q ch \<Longrightarrow> ch_userid ch \<in> U"
      "\<And>ch. ch_charid (g ch) = ch_charid ch \<and> ch_userid (g ch) = ch_userid ch"
    have "changed ?C (map ch_post (t_character db)) (map ch_post (update_where Q g (t_character db)))"
      by (rule changed_update_where) (simp_all add: ch_post_def a)
    with upd(2) show "posts_kept U (db\<lparr>t_character := update_where Q g (t_character db)\<rparr>)"
      by (simp add: posts_inv_def post_state_rows)
  next
    assume a: "\<And>su. su \<in> set (t_submission db) \<Longrightarrow> R su \<Longrightarrow> su_userid su \<in> U \<and> set (collection_find_owners (su_submitid su) db) \<subseteq> U"
      "\<And>su. su_submitid (h su) = su_submitid su \<and> su_userid (h su) = su_userid su"
    have "changed ?D (map su_post (t_submission db)) (map su_post (update_where R h (t_submission db)))"
      by (rule changed_update_where) (simp_all add: su_post_def a)
    moreover have "\<forall>p \<in> ?D. \<forall>co \<in> set (t_collection db). co_submitid co = fst p \<and> \<not> co_pending co \<longrightarrow> co_userid co \<in> U"
      by (fastforce simp: collection_find_owners_def)
    ultimately show "posts_kept U (db\<lparr>t_submission := update_where R h (t_submission db)\<rparr>)"
      using upd'(3) by (simp add: posts_inv_def post_state_rows)
  }
qed


text \<open>The row with an id, and only this one, gives the owner.\<close>

lemma unique_owner:
  assumes "ids_below n ps" "p \<in> set ps" "q \<in> set ps" "fst q = fst p"
  shows "fst (snd q) = fst (snd p)"
  using assms by (metis ids_below_def distinct_map inj_onD)

lemma posts_inv_update_one:
  assumes "posts_kept U d" "post_state_of d = post_state_of db"
  shows
    "\<lbrakk>find (\<lambda>jo. jo_journalid jo = i) (t_journal db) = Some jo;
      \<And>jo. P jo \<Longrightarrow> jo_journalid jo = i; \<And>jo. jo_journalid (f jo) = jo_journalid jo \<and> jo_userid (f jo) = jo_userid jo\<rbrakk>
     \<Longrightarrow> posts_kept (insert (jo_userid jo) U) (d\<lparr>t_journal := update_where P f (t_journal d)\<rparr>)"
    "\<lbrakk>find (\<lambda>ch. ch_charid ch = i) (t_character db) = Some ch;
      \<And>ch. Q ch \<Longrightarrow> ch_charid ch = i; \<And>ch. ch_charid (g ch) = ch_charid ch \<and> ch_userid (g ch) = ch_userid ch\<rbrakk>
     \<Longrightarrow> posts_kept (insert (ch_userid ch) U) (d\<lparr>t_character := update_where Q g (t_character d)\<rparr>)"
    "\<lbrakk>find (\<lambda>su. su_submitid su = i) (t_submission db) = Some su;
      \<And>su. R su \<Longrightarrow> su_submitid su = i; \<And>su. su_submitid (h su) = su_submitid su \<and> su_userid (h su) = su_userid su\<rbrakk>
     \<Longrightarrow> posts_kept (insert (su_userid su) U \<union> set (collection_find_owners i db))
           (d\<lparr>t_submission := update_where R h (t_submission d)\<rparr>)"
proof -
  have ok: "post_state_ok (post_state_of db)" using assms by (simp add: posts_inv_def)
  have sel: "map jo_post (t_journal d) = map jo_post (t_journal db)" "map ch_post (t_character d) = map ch_post (t_character db)"
    "map su_post (t_submission d) = map su_post (t_submission db)" "t_collection d = t_collection db"
    using assms(2) by (simp_all add: post_state_of_def)
  {
    assume a: "find (\<lambda>jo. jo_journalid jo = i) (t_journal db) = Some jo"
      "\<And>jo. P jo \<Longrightarrow> jo_journalid jo = i" "\<And>jo. jo_journalid (f jo) = jo_journalid jo \<and> jo_userid (f jo) = jo_userid jo"
    have "jo_userid r = jo_userid jo" if "r \<in> set (t_journal d)" "jo_journalid r = i" for r
    proof -
      have "jo_post r \<in> set (map jo_post (t_journal db))" using that(1) sel(1) by (metis image_eqI list.set_map)
      moreover have "jo_post jo \<in> set (map jo_post (t_journal db))" "jo_journalid jo = i" using find_SomeD [OF a(1)] by auto
      ultimately show ?thesis
        using ok that(2) unique_owner [of "journal_seq db" "map jo_post (t_journal db)" "jo_post jo" "jo_post r"]
        by (simp add: post_state_ok_def post_state_of_def jo_post_def)
    qed
    then show "posts_kept (insert (jo_userid jo) U) (d\<lparr>t_journal := update_where P f (t_journal d)\<rparr>)"
      using a by (intro posts_inv_update(1) posts_inv_mono [OF assms(1)]) auto
  next
    assume a: "find (\<lambda>ch. ch_charid ch = i) (t_character db) = Some ch"
      "\<And>ch. Q ch \<Longrightarrow> ch_charid ch = i" "\<And>ch. ch_charid (g ch) = ch_charid ch \<and> ch_userid (g ch) = ch_userid ch"
    have "ch_userid r = ch_userid ch" if "r \<in> set (t_character d)" "ch_charid r = i" for r
    proof -
      have "ch_post r \<in> set (map ch_post (t_character db))" using that(1) sel(2) by (metis image_eqI list.set_map)
      moreover have "ch_post ch \<in> set (map ch_post (t_character db))" "ch_charid ch = i" using find_SomeD [OF a(1)] by auto
      ultimately show ?thesis
        using ok that(2) unique_owner [of "character_seq db" "map ch_post (t_character db)" "ch_post ch" "ch_post r"]
        by (simp add: post_state_ok_def post_state_of_def ch_post_def)
    qed
    then show "posts_kept (insert (ch_userid ch) U) (d\<lparr>t_character := update_where Q g (t_character d)\<rparr>)"
      using a by (intro posts_inv_update(2) posts_inv_mono [OF assms(1)]) auto
  next
    assume a: "find (\<lambda>su. su_submitid su = i) (t_submission db) = Some su"
      "\<And>su. R su \<Longrightarrow> su_submitid su = i" "\<And>su. su_submitid (h su) = su_submitid su \<and> su_userid (h su) = su_userid su"
    have "su_userid r = su_userid su" if "r \<in> set (t_submission d)" "su_submitid r = i" for r
    proof -
      have "su_post r \<in> set (map su_post (t_submission db))" using that(1) sel(3) by (metis image_eqI list.set_map)
      moreover have "su_post su \<in> set (map su_post (t_submission db))" "su_submitid su = i" using find_SomeD [OF a(1)] by auto
      ultimately show ?thesis
        using ok that(2) unique_owner [of "submission_seq db" "map su_post (t_submission db)" "su_post su" "su_post r"]
        by (simp add: post_state_ok_def post_state_of_def su_post_def)
    qed
    then show "posts_kept (insert (su_userid su) U \<union> set (collection_find_owners i db))
           (d\<lparr>t_submission := update_where R h (t_submission d)\<rparr>)"
      using a sel(4) by (intro posts_inv_update(3) posts_inv_mono [OF assms(1)]) (auto simp: collection_find_owners_def)
  }
qed

subsection \<open>What leaves the posts alone\<close>

lemma post_state_updates [simp]:
  "post_state_of (db\<lparr>t_welcome := x1\<rparr>) = post_state_of db" "post_state_of (db\<lparr>welcome_seq := x2\<rparr>) = post_state_of db"
  "post_state_of (db\<lparr>t_userinfo := x3\<rparr>) = post_state_of db" "post_state_of (db\<lparr>c_is_adult := x4\<rparr>) = post_state_of db"
  "post_state_of (db\<lparr>t_comments := x5\<rparr>) = post_state_of db" "post_state_of (db\<lparr>comments_seq := x6\<rparr>) = post_state_of db"
  "post_state_of (db\<lparr>t_profile := x7\<rparr>) = post_state_of db" "post_state_of (db\<lparr>t_views := x8\<rparr>) = post_state_of db"
  "post_state_of (db\<lparr>c_all_config := x9\<rparr>) = post_state_of db" "post_state_of (db\<lparr>c_display_name := x10\<rparr>) = post_state_of db"
  by (simp_all add: post_state_of_def)

lemma post_state_media [simp]:
  "post_state_of (m\<lparr>t_media := x1\<rparr>) = post_state_of m" "post_state_of (m\<lparr>media_seq := x2\<rparr>) = post_state_of m"
  "post_state_of (m\<lparr>t_submission_media_links := x3\<rparr>) = post_state_of m" "post_state_of (m\<lparr>t_user_media_links := x4\<rparr>) = post_state_of m"
  "post_state_of (m\<lparr>submission_link_seq := x5\<rparr>) = post_state_of m" "post_state_of (m\<lparr>user_link_seq := x6\<rparr>) = post_state_of m"
  "post_state_of (m\<lparr>c_submission_media := x7\<rparr>) = post_state_of m" "post_state_of (m\<lparr>c_user_media := x8\<rparr>) = post_state_of m"
  "post_state_of (m\<lparr>t_google_doc_embeds := x9\<rparr>) = post_state_of m"
  by (simp_all add: post_state_of_def)

lemma post_state_untagged: "untagged db' = untagged db \<Longrightarrow> post_state_of db' = post_state_of db"
  using untagged_same [of db' db] by (simp add: post_state_of_def)

lemma post_state_associate [simp]: "post_state_of (snd (associate st now userid target names db)) = post_state_of db"
  by (rule post_state_untagged) simp

lemma post_state_welcome: "welcome_only db db' \<Longrightarrow> post_state_of db' = post_state_of db"
  by (auto simp: welcome_only_def)

lemma post_state_welcomes [simp]:
  "post_state_of (delete_welcome P db) = post_state_of db"
  "post_state_of (welcome_journal_insert now userid i r f db) = post_state_of db"
  "post_state_of (welcome_journal_remove i db) = post_state_of db"
  "post_state_of (welcome_character_insert now userid i r f db) = post_state_of db"
  "post_state_of (welcome_character_remove i db) = post_state_of db"
  "post_state_of (welcome_submission_remove i db) = post_state_of db"
  "post_state_of (submission_became_friends_only i userid db) = post_state_of db"
  by (rule post_state_welcome, (simp only: welcome_journal_insert_def welcome_journal_remove_def welcome_character_insert_def
      welcome_character_remove_def welcome_submission_remove_def submission_became_friends_only_def)?, blast)+

lemma post_state_welcome_submission [simp]:
  "post_state_of (welcome_submission_insert now userid i r f db) = post_state_of db"
  by (rule post_state_welcome) (auto simp: welcome_submission_insert_def)

lemma post_state_accounts [simp]:
  "post_state_of (snd (assert_adult userid db)) = post_state_of db"
  "post_state_of (snd (allow_rating today userid rating db)) = post_state_of db"
  "post_state_of (snd (allow_own_rating today userid ownerid rating db)) = post_state_of db"
  "post_state_of (note_about now userid target_user title message db) = post_state_of db"
  by (auto simp: allow_own_rating_def allow_rating_def assert_adult_def Let_def store_is_adult_def note_about_def
      add_comments_row_def split: sum.split)

lemma config_read_post_state: "config_read db db' \<Longrightarrow> post_state_of db' = post_state_of db"
  by (auto simp: config_read_def)


lemma post_state_and_then:
  assumes "post_state_of (snd m) = s" "\<And>x db. post_state_of db = s \<Longrightarrow> post_state_of (snd (k x db)) = s"
  shows "post_state_of (snd (and_then m k)) = s"
  using assms by (cases m; cases "fst m") auto

lemma post_state_links [simp]:
  "post_state_of (put_media_links kind rows m) = post_state_of m"
  "post_state_of (snd (take_linkid kind m)) = post_state_of m"
  "post_state_of (store_media kind identity v m) = post_state_of m"
  "post_state_of (refresh_cache kind identity m) = post_state_of m"
  "post_state_of (clear_link kind identity link_type m) = post_state_of m"
  by (cases kind; simp add: refresh_cache_def clear_link_def)+

lemma post_state_make_link [simp]:
  "post_state_of (make_or_replace_link kind identity link_type mi m) = post_state_of m"
  by (simp add: make_or_replace_link_def Let_def case_prod_unfold split: option.split)

lemma post_state_link_if [simp]: "post_state_of (link_if submitid link_type mi m) = post_state_of m"
  by (simp add: link_if_def split: option.split)

lemma post_state_fetch [simp]:
  "post_state_of (snd (fetch_or_create sha256 file_type m)) = post_state_of m"
  "post_state_of (snd (ensure_output_media env r m)) = post_state_of m"
  by (simp_all add: fetch_or_create_def ensure_output_media_def Let_def split: option.split)

lemma post_state_get_media [simp]:
  "post_state_of (snd (get_media kind identity m)) = post_state_of m"
  "post_state_of (snd (get_submission_media submitid m)) = post_state_of m"
  "post_state_of (snd (get_user_media userid m)) = post_state_of m"
  by (simp_all add: get_media_def get_submission_media_def get_user_media_def read_through_def case_prod_unfold Let_def
      split: option.split)

lemma post_state_upload_image [simp]:
  "post_state_of (snd (upload_image env unsupported failed data m)) = post_state_of m"
  by (simp add: upload_image_def case_prod_unfold Let_def split: sum.split)

lemma post_state_upload_other [simp]: "post_state_of (snd (upload_other env coverfile thumbfile m)) = post_state_of m"
  unfolding upload_other_def by (auto intro!: post_state_and_then)

lemma post_state_upload_file [simp]: "post_state_of (snd (upload_file env userid category submitfile m)) = post_state_of m"
  by (simp add: upload_file_def case_prod_unfold Let_def split: sum.split)

lemma post_state_upload_visual [simp]: "post_state_of (snd (upload_visual env userid submitfile m)) = post_state_of m"
proof -
  have "post_state_of (snd (if c then (a, db) else ensure_output_media env r db)) = post_state_of db" for c a r and db :: "'a media_db_scheme"
    by simp
  then show ?thesis
    by (auto simp: upload_visual_def Let_def split: sum.split prod.split option.split)
      (metis post_state_fetch snd_conv)+
qed

text \<open>A view changes the number of views only, a character's thumbnail its settings only.\<close>

lemma post_state_bump:
  "post_state_of (bump_page_views feature targetid db) = post_state_of db"
proof -
  have "map key (update_where P f rows) = map key rows" if "\<And>r. key (f r) = key r" for key P f and rows :: "'r list"
    using that by (simp add: update_where_def)
  note same = this
  show ?thesis
    by (cases feature) (simp_all add: bump_page_views_def post_state_of_def same jo_post_def ch_post_def su_post_def)
qed

lemma post_state_view [simp]: "post_state_of (snd (common_view_content now address userid targetid feature db)) = post_state_of db"
  by (simp add: common_view_content_def Let_def post_state_bump)

lemma post_state_settings:
  "post_state_of (db\<lparr>t_character := update_where P (\<lambda>ch. ch\<lparr>ch_settings := f ch\<rparr>) (t_character db)\<rparr>) = post_state_of db"
  by (simp add: post_state_of_def update_where_def ch_post_def)

lemma post_state_character_thumbnail [simp]:
  "post_state_of (snd (thumbnail_create_character env area charid data db)) = post_state_of db"
  "post_state_of (snd (character_reupload env userid charid submitfile db)) = post_state_of db"
  by (simp_all add: thumbnail_create_character_def character_reupload_def post_state_settings split: option.split sum.split)

end
