(* ===== verification/Post_Steps.thy ===== *)
theory Post_Steps
  imports Post_Counts Moderation
begin

text \<open>
  The operations on posts as a step relation, with the invariant on the cached counts along every run, and the whole
  effect of removing a submission.
\<close>

subsection \<open>Every operation keeps the invariant\<close>

lemma posts_kept_then:
  assumes "posts_kept U (snd m)" "\<And>x db. posts_kept U db \<Longrightarrow> posts_kept U (snd (k x db))"
  shows "posts_kept U (snd (and_then m k))"
  using assms by (cases m; cases "fst m") auto

lemma posts_kept_after:
  assumes "post_state_of (snd m) = post_state_of db" "posts_kept U db"
    "\<And>x d. post_state_of d = post_state_of db \<Longrightarrow> posts_kept U (snd (k x d))"
  shows "posts_kept U (snd (and_then m k))"
  using assms by (cases m; cases "fst m") auto

lemma fresh_owner:
  assumes "posts_kept U db"
  shows "get_ownerid 0 0 (journal_seq db) (add_journal now u jf rating friends_only db) = Some u"
    "get_ownerid 0 (character_seq db) 0 (add_character now u cf rating settings friends_only db) = Some u"
    "get_ownerid (submission_seq db) 0 0 (add_submission now u sf rating content embed_type friends_only critique db) = Some u"
proof -
  have "0 < journal_seq db" "0 < character_seq db" "0 < submission_seq db"
    "find (\<lambda>jo. jo_journalid jo = journal_seq db) (t_journal db) = None"
    "find (\<lambda>ch. ch_charid ch = character_seq db) (t_character db) = None"
    "find (\<lambda>su. su_submitid su = submission_seq db) (t_submission db) = None"
    using assms by (auto simp: posts_inv_def post_state_ok_def post_state_of_def ids_below_def jo_post_def ch_post_def
        su_post_def find_None_iff)
  then show "get_ownerid 0 0 (journal_seq db) (add_journal now u jf rating friends_only db) = Some u"
    "get_ownerid 0 (character_seq db) 0 (add_character now u cf rating settings friends_only db) = Some u"
    "get_ownerid (submission_seq db) 0 0 (add_submission now u sf rating content embed_type friends_only critique db) = Some u"
    by (simp_all add: get_ownerid_def journal_owner_def character_owner_def submission_owner_def add_journal_def
        add_character_def add_submission_def find_append)
qed

lemma and_then_certain: "fst m = Inr x \<Longrightarrow> and_then m k = k x (snd m)"
  by (cases m) auto

lemma posts_kept_created:
  assumes "posts_kept U d" "userid \<noteq> 0"
  shows "posts_kept U (snd (and_then (associate st now userid (JournalTarget (journal_seq d)) tags
            (add_journal now userid jf rating friends_only d))
          (\<lambda>_ d'. (Inr r, posts_count_invalidate userid (welcome_journal_insert now userid i n f d')))))"
proof -
  have "fst (associate st now userid (JournalTarget (journal_seq d)) tags (add_journal now userid jf rating friends_only d)) = Inr []"
    by (rule associate_own) (simp add: fresh_owner [OF assms(1)])
  then show ?thesis
    using posts_inv_add(1) [OF assms] by (simp add: and_then_certain posts_inv_invalidate)
qed

lemma posts_kept_journal_create:
  assumes "posts_kept U db" "userid \<noteq> 0"
  shows "posts_kept U (snd (journal_create st now today userid form friends_only tags db))"
  using assms by (auto simp: journal_create_def Let_def intro!: posts_kept_then posts_kept_created split: sum.split)

lemma posts_kept_journal_edit:
  assumes "posts_kept U db"
  shows "posts_kept U (snd (journal_edit st now today userid form friends_only db))"
proof (cases "find (\<lambda>jo. jo_journalid jo = jf_journalid form) (t_journal db)")
  case None
  with assms show ?thesis by (simp add: journal_edit_def split: sum.split)
next
  case (Some jo)
  have keep: "posts_kept (insert (jo_userid jo) U) (change_journal form rating friends_only e)"
    if "post_state_of e = post_state_of db" for e :: "'a content_db_scheme" and rating
    unfolding change_journal_def
    by (intro posts_inv_update_one(1) [OF _ that Some]) (simp_all add: that assms)
  show ?thesis
    using assms Some keep
    by (auto simp: journal_edit_def Let_def intro!: posts_inv_invalidate posts_kept_after [where db = db] split: sum.split)
qed

lemma posts_kept_journal_remove:
  assumes "posts_kept U db"
  shows "posts_kept U (snd (journal_remove st userid journalid db))"
proof (cases "find (\<lambda>jo. jo_journalid jo = journalid) (t_journal db)")
  case None
  then have "count_where (\<lambda>jo. jo_journalid jo = journalid \<and> \<not> jo_hidden jo) (t_journal db) = 0"
    "update_where (\<lambda>jo. jo_journalid jo = journalid \<and> \<not> jo_hidden jo) (\<lambda>jo. jo\<lparr>jo_hidden := True\<rparr>) (t_journal db) = t_journal db"
    by (auto simp: find_None_iff count_where_0_iff update_where_def intro!: map_idI)
  with assms show ?thesis by (simp add: journal_remove_def Let_def)
next
  case (Some jo)
  have "journalid \<noteq> 0"
    using find_SomeD [OF Some] posts_okD(1) [OF post_state_ok_posts] assms by (auto simp: posts_inv_def)
  with Some have owner: "get_ownerid 0 0 journalid db = Some (jo_userid jo)"
    by (simp add: get_ownerid_def journal_owner_def)
  have keep: "posts_kept (insert (jo_userid jo) U) (db\<lparr>t_journal := update_where (\<lambda>jo. jo_journalid jo = journalid \<and> \<not> jo_hidden jo)
      (\<lambda>jo. jo\<lparr>jo_hidden := True\<rparr>) (t_journal db)\<rparr>)"
    by (intro posts_inv_update_one(1) [OF _ refl Some] assms) simp_all
  have idle: "update_where (\<lambda>jo. jo_journalid jo = journalid \<and> \<not> jo_hidden jo) (\<lambda>jo. jo\<lparr>jo_hidden := True\<rparr>) (t_journal db) = t_journal db"
    if "count_where (\<lambda>jo. jo_journalid jo = journalid \<and> \<not> jo_hidden jo) (t_journal db) = 0"
    using that by (auto simp: count_where_0_iff update_where_def intro!: map_idI)
  show ?thesis
    using assms keep by (auto simp: journal_remove_def Let_def owner idle intro!: posts_inv_invalidate)
qed


text \<open>
  Of a new character only a call that returns is right: when the thumbnail cannot be made the row is there already and
  the counts are not dropped.
\<close>

lemma posts_kept_character_create:
  assumes "posts_kept U db" "userid \<noteq> 0"
    and "is_ok (fst (character_create st env now today userid form friends_only tags thumbfile submitfile db))"
  shows "posts_kept U (snd (character_create st env now today userid form friends_only tags thumbfile submitfile db))"
proof -
  obtain i db' where r: "character_create st env now today userid form friends_only tags thumbfile submitfile db = (Inr i, db')"
    using assms(3) by (cases "character_create st env now today userid form friends_only tags thumbfile submitfile db";
        cases "fst (character_create st env now today userid form friends_only tags thumbfile submitfile db)") auto
  then obtain rating d cover thumb settings where form: "cf_rating form = Some rating"
    and d: "allow_rating today userid rating db = (Inr (), d)"
    and files: "character_files env thumbfile submitfile = Inr (cover, thumb)" "cover_settings cover = Inr settings"
    and rest: "and_then (associate st now userid (CharacterTarget (character_seq d)) tags
                  (add_character now userid form rating settings friends_only d)) (\<lambda>_ db.
        and_then (thumbnail_create_character env (0, 0, 0, 0) (character_seq d)
           (Some (ir_output (case thumb of None \<Rightarrow> cover | Some t \<Rightarrow> t))) db)
         (\<lambda>_ db. (Inr (character_seq d), posts_count_invalidate userid
            (welcome_character_insert now userid (character_seq d) (rating_code rating) friends_only db)))) = (Inr i, db')"
    by (auto simp: character_create_def and_then_ok Let_def split: if_splits option.splits)
  have "post_state_of d = post_state_of db" using post_state_accounts(2) [of today userid rating db] d by simp
  then have d_ok: "posts_kept U d" using assms(1) by simp
  let ?added = "add_character now userid form rating settings friends_only d"
  let ?data = "Some (ir_output (case thumb of None \<Rightarrow> cover | Some t \<Rightarrow> t))"
  obtain a b where b: "associate st now userid (CharacterTarget (character_seq d)) tags ?added = (Inr a, b)"
    using rest by (auto simp: and_then_ok)
  with rest obtain c where c: "thumbnail_create_character env (0, 0, 0, 0) (character_seq d) ?data b = (Inr (), c)"
    and db': "db' = posts_count_invalidate userid
            (welcome_character_insert now userid (character_seq d) (rating_code rating) friends_only c)"
    by (auto simp: and_then_ok)
  have "post_state_of c = post_state_of ?added"
    using b c post_state_associate [of st now userid "CharacterTarget (character_seq d)" tags ?added]
      post_state_character_thumbnail(1) [of env "(0, 0, 0, 0)" "character_seq d" ?data b] by simp
  then have "posts_kept (insert userid U) c" using posts_inv_add(2) [OF d_ok assms(2)] by simp
  with r db' show ?thesis by (simp add: posts_inv_invalidate)
qed

text \<open>A call that does not return may leave the counts of the author stale, and no others.\<close>

lemma posts_kept_character_raise:
  assumes "posts_kept U db" "userid \<noteq> 0"
  shows "posts_kept (insert userid U) (snd (character_create st env now today userid form friends_only tags thumbfile submitfile db))"
proof -
  have more: "posts_kept U d \<Longrightarrow> posts_kept (insert userid U) d" for d :: "'a tags_db_scheme"
    by (erule posts_inv_mono) blast
  have dropped: "posts_kept (insert userid U) (posts_count_invalidate userid d)"
    if "posts_kept (insert userid U) d" for d :: "'a tags_db_scheme"
    using that by (intro posts_inv_invalidate [where U = "insert userid U"]) simp
  have added: "posts_kept (insert userid U) e"
    if "post_state_of e = post_state_of (add_character now userid form rating settings friends_only d)"
      "post_state_of d = post_state_of db" for e d :: "'a tags_db_scheme" and rating settings
    using that assms posts_inv_add(2) [of U d userid now form rating settings friends_only] by simp
  have made: "posts_kept (insert userid U) (snd (and_then (associate st now userid (CharacterTarget (character_seq d)) tags
        (add_character now userid form rating settings friends_only d)) (\<lambda>_ e.
      and_then (thumbnail_create_character env (0, 0, 0, 0) (character_seq d) data e)
        (\<lambda>_ f. (Inr (character_seq d), posts_count_invalidate userid
           (welcome_character_insert now userid (character_seq d) (rating_code rating) friends_only f))))))"
    if "post_state_of d = post_state_of db" for d :: "'a tags_db_scheme" and rating settings data
    by (intro posts_kept_then) (simp_all add: that added dropped)
  show ?thesis
  proof (cases "cf_char_name form = [] \<or> cf_rating form = None")
    case True
    with more [OF assms(1)] show ?thesis by (auto simp: character_create_def)
  next
    case False
    then obtain rating where rating: "cf_rating form = Some rating" "cf_char_name form \<noteq> []" by auto
    show ?thesis
      unfolding character_create_def rating(1) option.case if_not_P [OF rating(2)] Let_def case_prod_unfold
      by (intro made posts_kept_after [where db = db]) (simp_all add: more assms(1))
  qed
qed

lemma posts_kept_character_edit:
  assumes "posts_kept U db"
  shows "posts_kept U (snd (character_edit st now today userid form friends_only db))"
proof (cases "find (\<lambda>ch. ch_charid ch = cf_charid form) (t_character db)")
  case None
  with assms show ?thesis by (simp add: character_edit_def)
next
  case (Some ch)
  have keep: "posts_kept (insert (ch_userid ch) U) (change_character form rating friends_only e)"
    if "post_state_of e = post_state_of db" for e :: "'a content_db_scheme" and rating
    unfolding change_character_def
    by (intro posts_inv_update_one(2) [OF _ that Some]) (simp_all add: that assms)
  show ?thesis
    using assms Some keep
    by (auto simp: character_edit_def Let_def intro!: posts_inv_invalidate posts_kept_after [where db = db] split: option.split)
qed

lemma posts_kept_character_remove:
  assumes "posts_kept U db"
  shows "posts_kept U (snd (character_remove st userid charid db))"
proof (cases "find (\<lambda>ch. ch_charid ch = charid) (t_character db)")
  case None
  then have "count_where (\<lambda>ch. ch_charid ch = charid \<and> \<not> ch_hidden ch) (t_character db) = 0"
    "update_where (\<lambda>ch. ch_charid ch = charid \<and> \<not> ch_hidden ch) (\<lambda>ch. ch\<lparr>ch_hidden := True\<rparr>) (t_character db) = t_character db"
    by (auto simp: find_None_iff count_where_0_iff update_where_def intro!: map_idI)
  with assms show ?thesis by (simp add: character_remove_def Let_def)
next
  case (Some ch)
  have "charid \<noteq> 0"
    using find_SomeD [OF Some] posts_okD(2) [OF post_state_ok_posts] assms by (auto simp: posts_inv_def)
  with Some have owner: "get_ownerid 0 charid 0 db = Some (ch_userid ch)"
    by (simp add: get_ownerid_def character_owner_def)
  have keep: "posts_kept (insert (ch_userid ch) U) (db\<lparr>t_character := update_where (\<lambda>ch. ch_charid ch = charid \<and> \<not> ch_hidden ch)
      (\<lambda>ch. ch\<lparr>ch_hidden := True\<rparr>) (t_character db)\<rparr>)"
    by (intro posts_inv_update_one(2) [OF _ refl Some] assms) simp_all
  have idle: "update_where (\<lambda>ch. ch_charid ch = charid \<and> \<not> ch_hidden ch) (\<lambda>ch. ch\<lparr>ch_hidden := True\<rparr>) (t_character db) = t_character db"
    if "count_where (\<lambda>ch. ch_charid ch = charid \<and> \<not> ch_hidden ch) (t_character db) = 0"
    using that by (auto simp: count_where_0_iff update_where_def intro!: map_idI)
  show ?thesis
    using assms keep by (auto simp: character_remove_def Let_def owner idle intro!: posts_inv_invalidate)
qed

lemma collectors_state: "collection_find_owners i db = map co_userid (filter (\<lambda>co. co_submitid co = i \<and> \<not> co_pending co) (ps_collection (post_state_of db)))"
  by (simp add: collection_find_owners_def post_state_of_def)

lemma posts_kept_collectors:
  assumes "posts_kept (insert u (U \<union> set (collection_find_owners i d))) d" "post_state_of e = post_state_of d"
  shows "posts_kept U (invalidate_collectors_posts_count i (posts_count_invalidate u e))"
proof -
  have "set (collection_find_owners i d) = set (collection_find_owners i (posts_count_invalidate u e))"
    using assms(2) by (simp add: collectors_state posts_count_invalidate_def store_posts_count_def)
      (simp add: post_state_of_def)
  moreover have "posts_kept (U \<union> set (collection_find_owners i d)) (posts_count_invalidate u e)"
    using assms by (intro posts_inv_invalidate) simp
  ultimately show ?thesis
    unfolding invalidate_collectors_posts_count_def by (intro posts_inv_invalidate_multi) simp
qed

lemma posts_kept_submission_edit:
  assumes "posts_kept U db"
  shows "posts_kept U (snd (submission_edit st embeds now today userid form embedlink friends_only critique db))"
proof (cases "find_submission (sb_submitid form) db")
  case None
  with assms show ?thesis by (simp add: submission_edit_def)
next
  case (Some su)
  have keep: "posts_kept (insert (su_userid su) (U \<union> set (collection_find_owners (sb_submitid form) (change_submission form rating content friends_only critique e))))
      (change_submission form rating content friends_only critique e)"
    if "post_state_of e = post_state_of db" for e :: "'a media_db_scheme" and rating content
  proof -
    have "posts_kept (insert (su_userid su) U \<union> set (collection_find_owners (sb_submitid form) db)) (change_submission form rating content friends_only critique e)"
      unfolding change_submission_def
      by (intro posts_inv_update_one(3) [OF _ that Some [unfolded find_submission_def]]) (simp_all add: that assms)
    moreover have "t_collection e = t_collection db" using arg_cong [OF that, of ps_collection] by (simp add: post_state_of_def)
    then have "collection_find_owners (sb_submitid form) (change_submission form rating content friends_only critique e)
        = collection_find_owners (sb_submitid form) db"
      by (simp add: collection_find_owners_def change_submission_def)
    ultimately show ?thesis by simp
  qed
  have tail: "posts_kept U (snd (let
        db = (if friends_only then submission_became_friends_only (sb_submitid form) (su_userid su) d else d);
        db = change_submission form rating content friends_only critique db;
        db = (if google then db\<lparr>t_google_doc_embeds := update_where P f (t_google_doc_embeds db)\<rparr> else db);
        db = (if noted then note_about now userid (su_userid su) title message db else db);
        db = posts_count_invalidate (su_userid su) db
      in (Inr (), invalidate_collectors_posts_count (sb_submitid form) db)))"
    if "post_state_of d = post_state_of db" for d :: "'a media_db_scheme" and rating content google P f noted title message
    unfolding Let_def snd_conv
    by (rule posts_kept_collectors [OF keep [where e = "if friends_only then submission_became_friends_only (sb_submitid form) (su_userid su) d else d"]])
      (simp_all add: that)
  show ?thesis
  proof (cases "sb_rating form")
    case None
    with assms Some show ?thesis by (simp add: submission_edit_def)
  next
    case (Some rating)
    note found = \<open>find_submission (sb_submitid form) db = Some su\<close>
    note steps = conjI impI posts_kept_after [where db = db] tail [unfolded Let_def]
    show ?thesis
      unfolding submission_edit_def found Some option.case Let_def
      by (simp only: split: if_split) (intro steps; simp add: assms)
  qed
qed


lemma posts_kept_submission_remove:
  assumes "posts_kept U db"
  shows "posts_kept U (snd (submission_remove st userid submitid db))"
proof (cases "find (\<lambda>su. su_submitid su = submitid) (t_submission db)")
  case None
  then have "count_where (\<lambda>su. su_submitid su = submitid \<and> \<not> su_hidden su) (t_submission db) = 0"
    "update_where (\<lambda>su. su_submitid su = submitid \<and> \<not> su_hidden su) (\<lambda>su. su\<lparr>su_hidden := True\<rparr>) (t_submission db) = t_submission db"
    by (auto simp: find_None_iff count_where_0_iff update_where_def intro!: map_idI)
  with assms show ?thesis by (simp add: submission_remove_def Let_def)
next
  case (Some su)
  have "submitid \<noteq> 0"
    using find_SomeD [OF Some] posts_okD(3) [OF post_state_ok_posts] assms by (auto simp: posts_inv_def)
  with Some have owner: "get_ownerid submitid 0 0 db = Some (su_userid su)"
    by (simp add: get_ownerid_def submission_owner_def)
  define d where "d = db\<lparr>t_submission := update_where (\<lambda>su. su_submitid su = submitid \<and> \<not> su_hidden su)
      (\<lambda>su. su\<lparr>su_hidden := True\<rparr>) (t_submission db)\<rparr>"
  have "posts_kept (insert (su_userid su) U \<union> set (collection_find_owners submitid db)) d"
    unfolding d_def by (intro posts_inv_update_one(3) [OF _ refl Some] assms) simp_all
  moreover have "collection_find_owners submitid d = collection_find_owners submitid db"
    by (simp add: collection_find_owners_def d_def)
  ultimately have keep: "posts_kept (insert (su_userid su) (U \<union> set (collection_find_owners submitid d))) d" by simp
  have idle: "d = db" if "count_where (\<lambda>su. su_submitid su = submitid \<and> \<not> su_hidden su) (t_submission db) = 0"
  proof -
    have "update_where (\<lambda>su. su_submitid su = submitid \<and> \<not> su_hidden su) (\<lambda>su. su\<lparr>su_hidden := True\<rparr>) (t_submission db) = t_submission db"
      using that by (auto simp: count_where_0_iff update_where_def intro!: map_idI)
    then show ?thesis by (simp add: d_def)
  qed
  show ?thesis
    using assms posts_kept_collectors [OF keep, where e = "welcome_submission_remove submitid d"] idle
    by (simp add: submission_remove_def Let_def owner d_def [symmetric])
qed

subsection \<open>New submissions\<close>

text \<open>The counts a call leaves stale: none when it raises, those of the author when it returns.\<close>

definition creates :: "int set \<Rightarrow> int \<Rightarrow> 'r result \<times> 'a content_db_scheme \<Rightarrow> bool" where
  "creates U userid r = (case fst r of Inl _ \<Rightarrow> posts_kept U (snd r) | Inr _ \<Rightarrow> posts_kept (insert userid U) (snd r))"

lemma creates_after:
  assumes "post_state_of (snd m) = post_state_of db" "posts_kept U db"
    "\<And>x d. post_state_of d = post_state_of db \<Longrightarrow> creates U userid (k x d)"
  shows "creates U userid (and_then m k)"
  using assms by (cases m; cases "fst m") (auto simp: creates_def)

lemma creates_error: "posts_kept U db \<Longrightarrow> creates U userid (Inl e, db)"
  by (simp add: creates_def)

lemma find_of_map: "find P (map f xs) = map_option f (find (\<lambda>x. P (f x)) xs)"
  by (induction xs) auto

lemma submission_owner_state:
  "get_ownerid i 0 0 db = (if i = 0 then None else map_option (\<lambda>p. fst (snd p)) (find (\<lambda>p. fst p = i) (ps_submissions (post_state_of db))))"
  by (simp add: get_ownerid_def submission_owner_def post_state_of_def find_of_map comp_def su_post_def option.map_comp)

lemma creates_added:
  assumes new: "post_state_of e = post_state_of (add_submission now userid form rating content embed_type friends_only critique d)
      \<and> posts_kept U d \<and> userid \<noteq> 0"
    and k: "\<And>x f. post_state_of (snd (k x f)) = post_state_of f \<and> is_ok (fst (k x f))"
  shows "creates U userid (and_then (associate st now userid (SubmissionTarget (submission_seq d)) tags e) k)"
proof -
  have "get_ownerid (submission_seq d) 0 0 e = Some userid"
    using fresh_owner(3) [of U d now userid form rating content embed_type friends_only critique] new
    by (simp only: submission_owner_state new)
  then have "fst (associate st now userid (SubmissionTarget (submission_seq d)) tags e) = Inr []"
    by (intro associate_own) simp
  moreover have "posts_kept (insert userid U) e"
    using new posts_inv_add(3) [of U d userid now form rating content embed_type friends_only critique] by simp
  ultimately show ?thesis
    using k [of "[]" "snd (associate st now userid (SubmissionTarget (submission_seq d)) tags e)"]
    by (auto simp: and_then_certain creates_def is_ok_iff)
qed

lemma posts_kept_create_generic:
  assumes "posts_kept U db" "\<And>form rating d. post_state_of d = post_state_of db \<Longrightarrow> creates U userid (create_specific form rating d)"
  shows "posts_kept U (snd (create_generic expected_type now today userid form tags create_specific db))"
proof -
  have "posts_kept U (snd (and_then (create_specific f rating d) (\<lambda>ret db. (Inr ret, posts_count_invalidate userid
      (db\<lparr>t_profile := update_where P g (t_profile db)\<rparr>)))))"
    if "post_state_of d = post_state_of db" for f rating d P g
    using assms(2) [OF that, of f rating] that
    by (cases "create_specific f rating d"; cases "fst (create_specific f rating d)") (auto simp: creates_def posts_inv_invalidate)
  note kept = this
  note checked = posts_kept_after [where m = "allow_rating today userid rating db" and db = db for rating]
  show ?thesis
    using assms(1) by (auto simp: create_generic_def Let_def intro!: checked kept split: option.split)
qed

lemma posts_kept_create_visual:
  assumes "posts_kept U db" "userid \<noteq> 0"
  shows "posts_kept U (snd (create_visual st env now today userid form friends_only tags thumbfile submitfile critique create_notifications db))"
  unfolding create_visual_def Let_def
  by (rule posts_kept_create_generic [OF assms(1)])
    (auto simp: assms case_prod_unfold Let_def intro!: creates_after [where db = db] creates_error creates_added split: option.split sum.split)


lemma posts_kept_create_literary:
  assumes "posts_kept U db" "userid \<noteq> 0"
  shows "posts_kept U (snd (create_literary st env now today userid form embedlink friends_only tags coverfile thumbfile
    submitfile critique create_notifications db))"
  unfolding create_literary_def Let_def
  by (rule posts_kept_create_generic [OF assms(1)])
    (auto simp: assms intro!: creates_after [where db = db] creates_error creates_added split: sum.split)

lemma posts_kept_create_multimedia:
  assumes "posts_kept U db" "userid \<noteq> 0"
  shows "posts_kept U (snd (create_multimedia st env embeds now today userid form embedlink friends_only tags coverfile thumbfile
    submitfile critique create_notifications auto_thumb db))"
proof -
  have thumb: "creates U userid (case (case r of None \<Rightarrow> (None, d) | Some r \<Rightarrow> (let (mi, d) = ensure_output_media env r d in (Some mi, d)))
      of (t, e) \<Rightarrow> k t e)"
    if "\<And>t e. post_state_of e = post_state_of d \<Longrightarrow> creates U userid (k t e)" for r k d
    using that by (auto simp: case_prod_unfold Let_def split: option.split)
  show ?thesis
    unfolding create_multimedia_def
    by (rule posts_kept_create_generic [OF assms(1)])
      (auto simp: assms simp del: split_paired_All intro!: creates_after [where db = db] creates_error creates_added thumb simp: Let_def)
qed

lemma posts_kept_media_operations:
  "post_state_of (snd (reupload env userid submitid submitfile m)) = post_state_of m"
  "post_state_of (snd (reupload_cover st env userid submitid coverfile m)) = post_state_of m"
  "post_state_of (snd (avatar_upload env userid data m)) = post_state_of m"
  "post_state_of (snd (avatar_create env userid area m)) = post_state_of m"
  "post_state_of (snd (banner_upload env userid data m)) = post_state_of m"
  "post_state_of (snd (thumbnail_upload env data submitid charid m)) = post_state_of m"
  "post_state_of (snd (thumbnail_create_submission env area submitid m)) = post_state_of m"
proof -
  show "post_state_of (snd (reupload env userid submitid submitfile m)) = post_state_of m"
    by (auto simp: reupload_def Let_def intro!: post_state_and_then split: option.split sum.split)
  show "post_state_of (snd (reupload_cover st env userid submitid coverfile m)) = post_state_of m"
    by (simp add: reupload_cover_def Let_def case_prod_unfold split: option.split sum.split)
  show "post_state_of (snd (avatar_upload env userid data m)) = post_state_of m"
    by (simp add: avatar_upload_def Let_def case_prod_unfold split: sum.split)
  have "post_state_of (snd (avatar_source userid m)) = post_state_of m"
    by (simp add: avatar_source_def Let_def case_prod_unfold split: option.split)
  then show "post_state_of (snd (avatar_create env userid area m)) = post_state_of m"
    by (auto simp: avatar_create_def Let_def case_prod_unfold intro!: post_state_and_then split: sum.split)
  show "post_state_of (snd (banner_upload env userid data m)) = post_state_of m"
    by (simp add: banner_upload_def Let_def case_prod_unfold split: sum.split)
  show "post_state_of (snd (thumbnail_upload env data submitid charid m)) = post_state_of m"
    by (simp add: thumbnail_upload_def Let_def case_prod_unfold split: sum.split)
  have "post_state_of (snd (thumbnail_source submitid m)) = post_state_of m"
    by (simp add: thumbnail_source_def Let_def case_prod_unfold split: option.split)
  then show "post_state_of (snd (thumbnail_create_submission env area submitid m)) = post_state_of m"
    by (auto simp: thumbnail_create_submission_def Let_def case_prod_unfold intro!: post_state_and_then split: sum.split)
qed


subsection \<open>Changing many posts at once\<close>

lemma edited_rows_kept:
  assumes "posts_kept U db"
  shows
    "(\<And>jo. jo_journalid (f jo) = jo_journalid jo \<and> jo_userid (f jo) = jo_userid jo) \<Longrightarrow>
     posts_kept (U \<union> er_userid ` set (map edited_journal (filter P (t_journal db)))) (db\<lparr>t_journal := update_where P f (t_journal db)\<rparr>)"
    "(\<And>ch. ch_charid (g ch) = ch_charid ch \<and> ch_userid (g ch) = ch_userid ch) \<Longrightarrow>
     posts_kept (U \<union> er_userid ` set (map edited_character (filter Q (t_character db))))
       (db\<lparr>t_character := update_where Q g (t_character db)\<rparr>)"
    "(\<And>su. su_submitid (h su) = su_submitid su \<and> su_userid (h su) = su_userid su) \<Longrightarrow> (\<And>su. R su \<Longrightarrow> su_submitid su \<in> set ids) \<Longrightarrow>
     posts_kept (U \<union> er_userid ` set (map edited_submission (filter R (t_submission db))) \<union> set (bulk_collectors ids db))
       (db\<lparr>t_submission := update_where R h (t_submission db)\<rparr>)"
proof -
  show "(\<And>jo. jo_journalid (f jo) = jo_journalid jo \<and> jo_userid (f jo) = jo_userid jo) \<Longrightarrow>
     posts_kept (U \<union> er_userid ` set (map edited_journal (filter P (t_journal db)))) (db\<lparr>t_journal := update_where P f (t_journal db)\<rparr>)"
    by (rule posts_inv_update(1) [OF posts_inv_mono [OF assms]]) (force simp: edited_journal_def)+
  show "(\<And>ch. ch_charid (g ch) = ch_charid ch \<and> ch_userid (g ch) = ch_userid ch) \<Longrightarrow>
     posts_kept (U \<union> er_userid ` set (map edited_character (filter Q (t_character db))))
       (db\<lparr>t_character := update_where Q g (t_character db)\<rparr>)"
    by (rule posts_inv_update(2) [OF posts_inv_mono [OF assms]]) (force simp: edited_character_def)+
  have owner: "er_userid (edited_submission su) = su_userid su" for su by (simp add: edited_submission_def)
  have collectors: "set (collection_find_owners (su_submitid su) db) \<subseteq> set (bulk_collectors ids db)" if "su_submitid su \<in> set ids" for su
    using that by (auto simp: bulk_collectors_def collection_find_owners_def)
  show "(\<And>su. su_submitid (h su) = su_submitid su \<and> su_userid (h su) = su_userid su) \<Longrightarrow> (\<And>su. R su \<Longrightarrow> su_submitid su \<in> set ids) \<Longrightarrow>
     posts_kept (U \<union> er_userid ` set (map edited_submission (filter R (t_submission db))) \<union> set (bulk_collectors ids db))
       (db\<lparr>t_submission := update_where R h (t_submission db)\<rparr>)"
    by (rule posts_inv_update(3) [OF posts_inv_mono [OF assms]])
      (use owner collectors in \<open>fastforce simp: image_iff\<close>)+
qed

lemma submission_change_key: "su_submitid (submission_change a su) = su_submitid su \<and> su_userid (submission_change a su) = su_userid su"
  by (cases a) simp_all

lemma edit_submissions_kept:
  assumes "posts_kept U db" "edit_submissions action ids db = (r, d)"
  shows "t_collection d = t_collection db
    \<and> (\<exists>rows. r = Inr rows \<and> posts_kept (U \<union> er_userid ` set rows \<union> set (bulk_collectors ids db)) d)"
  using assms(2) edited_rows_kept(3) [OF assms(1), of "submission_change action" "\<lambda>su. su_submitid su \<in> set ids \<and> submission_hit action su" ids]
  by (auto simp: edit_submissions_def Let_def submission_change_key)

lemma edit_characters_kept:
  assumes "posts_kept U db" "edit_characters action ids db = (r, d)"
  shows "t_collection d = t_collection db \<and> (\<forall>rows. r = Inr rows \<longrightarrow> posts_kept (U \<union> er_userid ` set rows) d)"
  using assms(2) edited_rows_kept(2) [OF assms(1)]
  by (cases action) (auto simp: edit_characters_def Let_def simp del: set_map image_Un)

lemma edit_journals_kept:
  assumes "posts_kept U db" "edit_journals action ids db = (r, d)"
  shows "t_collection d = t_collection db \<and> (\<forall>rows. r = Inr rows \<longrightarrow> posts_kept (U \<union> er_userid ` set rows) d)"
  using assms(2) edited_rows_kept(1) [OF assms(1)]
  by (cases action) (auto simp: edit_journals_def Let_def simp del: set_map image_Un)

text \<open>A change of critique flags leaves the counts alone; the other changes of all tables succeed.\<close>

lemma post_state_critique:
  "post_state_of (snd (edit_tables (Set_critique b) submissions characters journals db)) = post_state_of db"
proof -
  have "post_state_of (db\<lparr>t_submission := update_where P (submission_change (Set_critique b)) (t_submission db)\<rparr>) = post_state_of db" for P
    by (simp add: post_state_of_def update_where_def su_post_def)
  then show ?thesis
    by (simp add: edit_tables_def edit_submissions_def edit_characters_def edit_journals_def Let_def)
qed

lemma edit_tables_kept:
  assumes "posts_kept U db" and "edit_tables action submissions characters journals db = (Inr rows, d)"
  shows "posts_kept (U \<union> er_userid ` snd ` set rows \<union> (if submissions = [] then {} else set (bulk_collectors submissions d))) d"
proof -
  let ?C = "if submissions = [] then {} else set (bulk_collectors submissions db)"
  obtain sus chs jos d1 d2 where
    1: "(if submissions = [] then (Inr [], db) else edit_submissions action submissions db) = (Inr sus, d1)"
    and 2: "(if characters = [] then (Inr [], d1) else edit_characters action characters d1) = (Inr chs, d2)"
    and 3: "(if journals = [] then (Inr [], d2) else edit_journals action journals d2) = (Inr jos, d)"
    and rows: "rows = map (Pair ''submission'') sus @ map (Pair ''character'') chs @ map (Pair ''journal'') jos"
    using assms(2) by (fastforce simp: edit_tables_def and_then_ok)
  have k1: "posts_kept (U \<union> er_userid ` set sus \<union> ?C) d1 \<and> t_collection d1 = t_collection db"
    using 1 assms(1) edit_submissions_kept [of U db action submissions "Inr sus" d1] by (auto split: if_splits)
  have k2: "posts_kept (U \<union> er_userid ` set sus \<union> ?C \<union> er_userid ` set chs) d2 \<and> t_collection d2 = t_collection d1"
    using 2 k1 edit_characters_kept [of _ d1 action characters "Inr chs" d2] by (auto split: if_splits)
  have k3: "posts_kept (U \<union> er_userid ` set sus \<union> ?C \<union> er_userid ` set chs \<union> er_userid ` set jos) d \<and> t_collection d = t_collection d2"
    using 3 k2 edit_journals_kept [of _ d2 action journals "Inr jos" d] by (auto split: if_splits)
  have "bulk_collectors submissions d = bulk_collectors submissions db"
    using k1 k2 k3 by (simp add: bulk_collectors_def)
  with k3 show ?thesis by (elim conjE posts_inv_mono) (auto simp: rows image_Un image_image)
qed

lemma edit_tables_hidden: "is_ok (fst (edit_tables (Set_hidden b) submissions characters journals db))"
  by (simp add: edit_tables_def edit_submissions_def edit_characters_def edit_journals_def Let_def and_then_def
      split: prod.split sum.split)

lemma post_state_bulk_notes [simp]:
  "post_state_of (bulk_notes now userid action_string item rows db) = post_state_of db"
proof -
  have "post_state_of (fold (\<lambda>target db. snd (add_comments_row now userid (Some target) None 0 (g target) ''s'' db)) targets db)
      = post_state_of db" for g targets
    by (induction targets arbitrary: db) (simp_all add: add_comments_row_def)
  then show ?thesis by (simp add: bulk_notes_def)
qed

lemma set_affected_owners: "set (affected_owners rows) = er_userid ` snd ` set rows"
  by (simp add: affected_owners_def case_prod_unfold image_image)

lemma posts_kept_bulk_edit:
  assumes "posts_kept U db" and "take 5 action \<noteq> ''rate-''"
  shows "posts_kept U (snd (bulk_edit now userid action submissions characters journals db))"
proof -
  have "posts_kept U (snd (bulk_change now userid (change, what, linked) submissions characters journals db))"
    if "change \<in> {Set_hidden True, Set_hidden False, Set_critique True, Set_critique False}" for change what linked
  proof -
    obtain r d where r: "edit_tables change submissions characters journals db = (r, d)" by (meson surj_pair)
    show ?thesis
    proof (cases r)
      case (Inl e)
      then have "post_state_of d = post_state_of db"
        using that r edit_tables_hidden [of _ submissions characters journals db] post_state_critique [of _ submissions characters journals db]
        by (auto, metis fst_conv is_ok_simps(2), metis fst_conv is_ok_simps(2), (metis snd_conv)+)
      with assms(1) r Inl show ?thesis by (simp add: bulk_change_def)
    next
      case (Inr rows)
      from edit_tables_kept [OF assms(1) r [unfolded this]] show ?thesis
        unfolding bulk_change_def r Inr prod.case
        by (auto simp: Let_def set_affected_owners Un_assoc intro!: posts_inv_invalidate_multi)
    qed
  qed
  then show ?thesis
    using assms by (auto simp: bulk_edit_def BULK_ACTIONS_def)
qed

text \<open>Whose counts a change of many posts touches: the owners and, of submissions, the collectors.\<close>

definition bulk_touched :: "int list \<Rightarrow> int list \<Rightarrow> int list \<Rightarrow> 'a content_db_scheme \<Rightarrow> int set" where
  "bulk_touched submissions characters journals db =
     su_userid ` {su \<in> set (t_submission db). su_submitid su \<in> set submissions} \<union> set (bulk_collectors submissions db)
     \<union> ch_userid ` {ch \<in> set (t_character db). ch_charid ch \<in> set characters}
     \<union> jo_userid ` {jo \<in> set (t_journal db). jo_journalid jo \<in> set journals}"

lemma edited_owners:
  "edit_submissions action ids db = (Inr rows, d) \<Longrightarrow>
     er_userid ` set rows \<subseteq> su_userid ` {su \<in> set (t_submission db). su_submitid su \<in> set ids}
     \<and> t_character d = t_character db \<and> t_journal d = t_journal db \<and> t_collection d = t_collection db"
  "edit_characters action ids db = (Inr rows, d) \<Longrightarrow>
     er_userid ` set rows \<subseteq> ch_userid ` {ch \<in> set (t_character db). ch_charid ch \<in> set ids}
     \<and> t_journal d = t_journal db \<and> t_collection d = t_collection db"
  "edit_journals action ids db = (Inr rows, d) \<Longrightarrow>
     er_userid ` set rows \<subseteq> jo_userid ` {jo \<in> set (t_journal db). jo_journalid jo \<in> set ids} \<and> t_collection d = t_collection db"
  by (auto simp: edit_submissions_def edit_characters_def edit_journals_def Let_def edited_submission_def edited_character_def
      edited_journal_def split: bulk_action.splits)

lemma edit_tables_touched:
  assumes "edit_tables action submissions characters journals db = (Inr rows, d)"
  shows "er_userid ` snd ` set rows \<union> set (bulk_collectors submissions d) \<subseteq> bulk_touched submissions characters journals db"
proof -
  obtain sus chs jos d1 d2 where
    1: "(if submissions = [] then (Inr [], db) else edit_submissions action submissions db) = (Inr sus, d1)"
    and 2: "(if characters = [] then (Inr [], d1) else edit_characters action characters d1) = (Inr chs, d2)"
    and 3: "(if journals = [] then (Inr [], d2) else edit_journals action journals d2) = (Inr jos, d)"
    and rows: "rows = map (Pair ''submission'') sus @ map (Pair ''character'') chs @ map (Pair ''journal'') jos"
    using assms by (fastforce simp: edit_tables_def and_then_ok)
  have a: "er_userid ` set sus \<subseteq> su_userid ` {su \<in> set (t_submission db). su_submitid su \<in> set submissions}"
    "t_character d1 = t_character db" "t_journal d1 = t_journal db" "t_collection d1 = t_collection db"
    using 1 edited_owners(1) [of action submissions db sus d1] by (auto split: if_splits)
  have b: "er_userid ` set chs \<subseteq> ch_userid ` {ch \<in> set (t_character d1). ch_charid ch \<in> set characters}"
    "t_journal d2 = t_journal d1" "t_collection d2 = t_collection d1"
    using 2 edited_owners(2) [of action characters d1 chs d2] by (auto split: if_splits)
  have c: "er_userid ` set jos \<subseteq> jo_userid ` {jo \<in> set (t_journal d2). jo_journalid jo \<in> set journals}" "t_collection d = t_collection d2"
    using 3 edited_owners(3) [of action journals d2 jos d] by (auto split: if_splits)
  have "bulk_collectors submissions d = bulk_collectors submissions db"
    using a(4) b(3) c(2) by (simp add: bulk_collectors_def)
  moreover have "er_userid ` snd ` set rows = er_userid ` set sus \<union> er_userid ` set chs \<union> er_userid ` set jos"
    by (simp add: rows image_Un image_image Un_assoc)
  ultimately show ?thesis using a b c by (auto simp: bulk_touched_def)
qed

lemma edit_tables_rating: "is_ok (fst (edit_tables (Set_rating r) submissions characters journals db))"
  by (simp add: edit_tables_def edit_submissions_def edit_characters_def edit_journals_def Let_def and_then_def
      split: prod.split sum.split)

lemma posts_kept_bulk_rating:
  assumes "posts_kept U db"
  shows "posts_kept (U \<union> bulk_touched submissions characters journals db) (snd (bulk_edit_rating now userid r submissions characters journals db))"
proof -
  obtain res d where res: "edit_tables (Set_rating r) submissions characters journals db = (res, d)" by (meson surj_pair)
  with edit_tables_rating [of r submissions characters journals db] obtain rows where
    rows: "edit_tables (Set_rating r) submissions characters journals db = (Inr rows, d)" by (auto simp: is_ok_iff)
  have "posts_kept (U \<union> bulk_touched submissions characters journals db) d"
    by (rule posts_inv_mono [OF edit_tables_kept [OF assms rows]]) (use edit_tables_touched [OF rows] in auto)
  moreover have "posts_kept (U \<union> bulk_touched submissions characters journals db) db" by (rule posts_inv_mono [OF assms]) blast
  ultimately show ?thesis
    by (simp add: bulk_edit_rating_def rows Let_def split: option.split)
qed

lemma posts_kept_bulk:
  assumes "posts_kept F db" "take 5 action = ''rate-'' \<Longrightarrow> bulk_touched submissions characters journals db \<subseteq> F"
  shows "posts_kept F (snd (bulk_edit now userid action submissions characters journals db))"
proof (cases "take 5 action = ''rate-''")
  case True
  then have "F \<union> bulk_touched submissions characters journals db = F" using assms(2) by blast
  with True assms(1) posts_kept_bulk_rating [OF assms(1), of submissions characters journals]
  show ?thesis by (cases "python_int (drop 5 action)") (auto simp: bulk_edit_def)
qed (simp add: posts_kept_bulk_edit assms(1))

subsection \<open>Traces\<close>

text \<open>
  One call by anyone with any arguments; a call that raises is a step too. The users of \<open>F\<close> are those whose cached
  counts two operations may leave stale: the author of a character whose creation raises (the row may be there already
  when the thumbnail cannot be made), and whoever owns or collects a post that \<open>bulk_edit\<close> gives another rating.
\<close>

inductive post_step :: "int set \<Rightarrow> staff_sets \<Rightarrow> image_env \<Rightarrow> embed_env \<Rightarrow> 'a media_db_scheme \<Rightarrow> 'a media_db_scheme \<Rightarrow> bool"
  for F st env embeds where
  count: "post_step F st env embeds db (snd (cached_posts_count userid db))"
| view: "post_step F st env embeds db (snd (common_view_content now address userid targetid feature db))"
| tag: "post_step F st env embeds db (snd (associate st now userid target names db))"
| create_journal: "userid \<noteq> 0 \<Longrightarrow>
    post_step F st env embeds db (snd (journal_create st now today userid jform friends_only tags db))"
| edit_journal: "post_step F st env embeds db (snd (journal_edit st now today userid jform friends_only db))"
| remove_journal: "post_step F st env embeds db (snd (journal_remove st userid journalid db))"
| create_character: "userid \<noteq> 0 \<Longrightarrow>
    userid \<in> F \<or> is_ok (fst (character_create st env now today userid cform friends_only tags thumbfile submitfile db)) \<Longrightarrow>
    post_step F st env embeds db (snd (character_create st env now today userid cform friends_only tags thumbfile submitfile db))"
| reupload_character: "post_step F st env embeds db (snd (character_reupload env userid charid submitfile db))"
| edit_character: "post_step F st env embeds db (snd (character_edit st now today userid cform friends_only db))"
| remove_character: "post_step F st env embeds db (snd (character_remove st userid charid db))"
| visual: "userid \<noteq> 0 \<Longrightarrow> post_step F st env embeds db
    (snd (create_visual st env now today userid form friends_only tags thumbfile submitfile critique notify db))"
| literary: "userid \<noteq> 0 \<Longrightarrow> post_step F st env embeds db
    (snd (create_literary st env now today userid form embedlink friends_only tags coverfile thumbfile submitfile critique notify db))"
| multimedia: "userid \<noteq> 0 \<Longrightarrow> post_step F st env embeds db
    (snd (create_multimedia st env embeds now today userid form embedlink friends_only tags coverfile thumbfile submitfile critique
            notify auto_thumb db))"
| replace_file: "post_step F st env embeds db (snd (reupload env userid submitid submitfile db))"
| replace_cover: "post_step F st env embeds db (snd (reupload_cover st env userid submitid coverfile db))"
| new_thumbnail: "post_step F st env embeds db (snd (thumbnail_create_submission env area submitid db))"
| new_avatar: "post_step F st env embeds db (snd (avatar_create env userid area db))"
| edit_submission: "post_step F st env embeds db (snd (submission_edit st embeds now today userid form embedlink friends_only critique db))"
| remove_submission: "post_step F st env embeds db (snd (submission_remove st userid submitid db))"
| change_many: "(take 5 action = ''rate-'' \<Longrightarrow> bulk_touched submissions characters journals db \<subseteq> F) \<Longrightarrow>
    post_step F st env embeds db (snd (bulk_edit now userid action submissions characters journals db))"

lemma posts_kept_count:
  assumes "posts_kept U db"
  shows "posts_kept U (snd (cached_posts_count userid db))"
proof (cases "c_posts_count db userid")
  case None
  then have "snd (cached_posts_count userid db) = db\<lparr>c_posts_count := (c_posts_count db)(userid := Some (counts_of userid (post_state_of db)))\<rparr>"
    by (simp add: cached_posts_count_def read_through_def peek_posts_count_def store_posts_count_def query_posts_count_state Let_def)
  with assms show ?thesis
    by (auto simp: posts_inv_def post_state_ok_def counts_right_def counts_of_def post_state_of_def)
next
  case (Some v)
  with assms show ?thesis by (simp add: cached_posts_count_def read_through_def peek_posts_count_def)
qed

lemma posts_kept_character:
  assumes "posts_kept F db" "userid \<noteq> 0"
    "userid \<in> F \<or> is_ok (fst (character_create st env now today userid form friends_only tags thumbfile submitfile db))"
  shows "posts_kept F (snd (character_create st env now today userid form friends_only tags thumbfile submitfile db))"
  using assms(3) posts_kept_character_create [OF assms(1,2)] posts_kept_character_raise [OF assms(1,2)]
  by (metis insert_absorb)

lemma post_step_kept: "post_step F st env embeds db db' \<Longrightarrow> posts_kept F db \<Longrightarrow> posts_kept F db'"
  by (induction rule: post_step.induct)
    (simp_all add: posts_kept_count posts_kept_journal_create posts_kept_journal_edit posts_kept_journal_remove
      posts_kept_character posts_kept_character_edit posts_kept_character_remove posts_kept_create_visual
      posts_kept_create_literary posts_kept_create_multimedia posts_kept_submission_edit posts_kept_submission_remove
      posts_kept_media_operations posts_kept_bulk)

lemma posts_kept_value:
  assumes "posts_kept F db" "userid \<notin> F"
  shows "fst (cached_posts_count userid db) = query_posts_count userid db"
proof (cases "c_posts_count db userid")
  case (Some v)
  with assms show ?thesis
    by (auto simp: cached_posts_count_def read_through_def peek_posts_count_def query_posts_count_state posts_inv_def
        counts_right_def post_state_of_def)
qed (simp add: cached_posts_count_def read_through_def peek_posts_count_def Let_def)

text \<open>
  C3: Whatever posts are created, edited, removed, tagged, viewed and changed in bulk, by anyone and whether the calls
  return or raise, the counts of posts that memcached keeps of a user are those the query would give; but for users
  with a failed creation of a character, and owners and collectors of posts whose rating was changed in bulk (the set
  \<open>F\<close>), whose counts the code leaves stale. The start has unique ids below the sequences, posts with owners, and right
  counts of all users but those of \<open>F\<close>.
\<close>
theorem post_counts_current:
  assumes "(post_step F st env embeds)\<^sup>*\<^sup>* db db'" and "post_state_ok (post_state_of db)"
    and "\<forall>u. u \<notin> F \<longrightarrow> coherent (peek_posts_count u) (query_posts_count u) db" and "userid \<notin> F"
  shows "fst (cached_posts_count userid db') = query_posts_count userid db'"
proof -
  have "posts_kept F db"
    using assms(2,3) by (auto simp: posts_inv_def counts_right_def coherent_def peek_posts_count_def query_posts_count_state
        post_state_of_def)
  with assms(1) have "posts_kept F db'"
    by (induction rule: rtranclp_induct) (simp_all add: post_step_kept)
  then show ?thesis using assms(4) by (rule posts_kept_value)
qed


theorem post_counts_current_witness:
  "let db = snd (cached_posts_count 1 (with_media posts_db));
       db' = snd (journal_remove no_staff 1 3 db);
       rated = snd (bulk_edit 100 9 ''rate-30'' [] [4] [] db')
   in c_posts_count db 1 \<noteq> None
      \<and> map (\<lambda>pc. (pc_post_type pc, pc_count pc)) (fst (cached_posts_count 1 db')) = [(PT_submission, 1), (PT_character, 1)]
      \<and> fst (cached_posts_count 2 rated) = query_posts_count 2 rated"
proof -
  define db where "db = snd (cached_posts_count 1 (with_media posts_db))"
  define db' where "db' = snd (journal_remove no_staff 1 3 db)"
  define rated where "rated = snd (bulk_edit 100 9 ''rate-30'' [] [4] [] db')"
  fix env :: image_env and embeds :: embed_env
  have "post_step F no_staff env embeds (with_media posts_db) db" for F unfolding db_def by (rule post_step.count)
  moreover have "post_step F no_staff env embeds db db'" for F unfolding db'_def by (rule post_step.remove_journal)
  ultimately have run: "(post_step F no_staff env embeds)\<^sup>*\<^sup>* (with_media posts_db) db'" for F
    by (meson r_into_rtranclp rtranclp.rtrancl_into_rtrancl)
  have "bulk_touched [] [4] [] db' = {1}" unfolding db'_def db_def by code_simp
  then have "post_step {1} no_staff env embeds db' rated" unfolding rated_def by (intro post_step.change_many) simp
  with run have rated_run: "(post_step {1} no_staff env embeds)\<^sup>*\<^sup>* (with_media posts_db) rated"
    by (meson rtranclp.rtrancl_into_rtrancl)
  have start: "post_state_ok (post_state_of (with_media posts_db))" by code_simp
  have "c_posts_count (with_media posts_db) = (\<lambda>_. None)"
    by (simp add: with_media_def posts_db_def tagged_db_def blank_db_def tags_db.defs)
  then have right: "coherent (peek_posts_count u) (query_posts_count u) (with_media posts_db)" for u
    by (simp add: coherent_def peek_posts_count_def)
  have "fst (cached_posts_count 1 db') = query_posts_count 1 db'"
    by (rule post_counts_current [OF run [of "{}"] start]) (simp_all add: right)
  moreover have "fst (cached_posts_count 2 rated) = query_posts_count 2 rated"
    by (rule post_counts_current [OF rated_run start]) (simp_all add: right)
  moreover have "map (\<lambda>pc. (pc_post_type pc, pc_count pc)) (query_posts_count 1 db') = [(PT_submission, 1), (PT_character, 1)]"
    unfolding db'_def db_def by code_simp
  moreover have "c_posts_count db 1 \<noteq> None" unfolding db_def by code_simp
  ultimately show ?thesis by (simp add: Let_def db_def db'_def rated_def)
qed

text \<open>After a moderator changed the rating of a submission, its owner's cached counts have the rating before.\<close>

lemma bulk_edit_rating_leaves_stale_counts:
  "let db = snd (cached_posts_count 1 (with_media posts_db));
       db' = snd (bulk_edit 100 9 ''rate-40'' [5] [] [] db);
       ratings = (\<lambda>rows. map (\<lambda>pc. (pc_post_type pc, pc_rating pc)) rows)
   in (PT_submission, 40) \<in> set (ratings (query_posts_count 1 db'))
      \<and> (PT_submission, 40) \<notin> set (ratings (fst (cached_posts_count 1 db')))"
  by code_simp

subsection \<open>Removing\<close>

lemma invalidate_multi_frame:
  "t_submission (cached_posts_count_invalidate_multi us db) = t_submission db"
  "t_welcome (cached_posts_count_invalidate_multi us db) = t_welcome db"
  "t_profile (cached_posts_count_invalidate_multi us db) = t_profile db"
  by (induction us arbitrary: db)
    (simp_all add: cached_posts_count_invalidate_multi_def posts_count_invalidate_def store_posts_count_def)

lemma collectors_invalidated_frame [simp]:
  "t_submission (invalidate_collectors_posts_count i (posts_count_invalidate u db)) = t_submission db"
  "t_welcome (invalidate_collectors_posts_count i (posts_count_invalidate u db)) = t_welcome db"
  "t_profile (invalidate_collectors_posts_count i (posts_count_invalidate u db)) = t_profile db"
  by (simp_all add: invalidate_collectors_posts_count_def invalidate_multi_frame posts_count_invalidate_def store_posts_count_def)

lemma listed_shown:
  "(s, name) \<in> set (submission_select_query sfw_mode userid rating q backid nextid db) \<Longrightarrow>
   s \<in> set (t_submission db) \<and> \<not> su_hidden s"
proof -
  have "\<not> su_hidden s" if "submission_listed sfw_mode userid rating q s db"
    using that by (simp add: submission_listed_def)
  then show "(s, name) \<in> set (submission_select_query sfw_mode userid rating q backid nextid db) \<Longrightarrow> ?thesis"
    by (auto simp: submission_select_query_def in_map_filter split: if_splits)
qed

text \<open>A submission that is hidden, in a table that has the others as they were.\<close>

lemma hidden_row:
  assumes "t_submission db' = map (\<lambda>s. if su_submitid s = i then s\<lparr>su_hidden := True\<rparr> else s) rows"
    and "find (\<lambda>s. su_submitid s = i) rows = Some su"
  shows "find_submission i db' = Some (su\<lparr>su_hidden := True\<rparr>)"
proof -
  have "su_submitid (if su_submitid s = i then s\<lparr>su_hidden := True\<rparr> else s) = su_submitid s" for s by simp
  then show ?thesis
    using assms(2) find_SomeD [OF assms(2)] by (auto simp: find_submission_def assms(1) find_of_map intro!: exI [of _ su])
qed

lemma hidden_page:
  assumes "t_submission db' = map (\<lambda>s. if su_submitid s = i then s\<lparr>su_hidden := True\<rparr> else s) rows"
    and "find (\<lambda>s. su_submitid s = i) rows = Some su" "\<not> (viewer \<in> MODS st \<and> anyway)"
  shows "check_submission_view st viewer i ignore anyway db' = Inl (WeasylError ''submissionRecordMissing'')"
  using hidden_row [OF assms(1,2)] assms(3)
  by (auto simp: check_submission_view_def submission_row_of_def split: option.split)

lemma hidden_not_listed:
  assumes "t_submission db' = map (\<lambda>s. if su_submitid s = i then s\<lparr>su_hidden := True\<rparr> else s) rows"
  shows "\<forall>(s, name) \<in> set (submission_select_query sfw_mode viewer rating q backid nextid db'). su_submitid s \<noteq> i"
proof -
  have "su_submitid s \<noteq> i" if row: "s \<in> set (t_submission db')" "\<not> su_hidden s" for s
  proof -
    obtain x where "s = (if su_submitid x = i then x\<lparr>su_hidden := True\<rparr> else x)" using row(1) unfolding assms set_map by blast
    then show ?thesis using row(2) by (cases "su_submitid x = i") simp_all
  qed
  then show ?thesis using listed_shown by fast
qed

lemma removed_submission_frame:
  "(invalidate_collectors_posts_count i (posts_count_invalidate u (welcome_submission_remove i
       (db\<lparr>t_submission := rows\<rparr>))))\<lparr>t_submission := t_submission db, t_welcome := t_welcome db, c_posts_count := c_posts_count db\<rparr> = db"
proof -
  have multi: "\<exists>c. cached_posts_count_invalidate_multi us d = d\<lparr>c_posts_count := c\<rparr>" for us and d :: "'a content_db_scheme"
  proof (induction us arbitrary: d)
    case Nil
    show ?case by (rule exI [of _ "c_posts_count d"]) (simp add: cached_posts_count_invalidate_multi_def)
  next
    case (Cons v us)
    obtain c where "cached_posts_count_invalidate_multi us (posts_count_invalidate v d) = (posts_count_invalidate v d)\<lparr>c_posts_count := c\<rparr>"
      using Cons by blast
    then have "cached_posts_count_invalidate_multi (v # us) d = d\<lparr>c_posts_count := c\<rparr>"
      by (simp add: cached_posts_count_invalidate_multi_def posts_count_invalidate_def store_posts_count_def)
    then show ?case by blast
  qed
  have "\<exists>w c. invalidate_collectors_posts_count i (posts_count_invalidate u (welcome_submission_remove i (db\<lparr>t_submission := rows\<rparr>)))
      = db\<lparr>t_submission := rows, t_welcome := w, c_posts_count := c\<rparr>"
    unfolding invalidate_collectors_posts_count_def
    using multi [of "collection_find_owners i (posts_count_invalidate u (welcome_submission_remove i (db\<lparr>t_submission := rows\<rparr>)))"
        "posts_count_invalidate u (welcome_submission_remove i (db\<lparr>t_submission := rows\<rparr>))"]
    by (auto simp: posts_count_invalidate_def store_posts_count_def welcome_submission_remove_def delete_welcome_def)
  then show ?thesis by (elim exE) simp
qed

text \<open>
  C4: A submission is removed by its owner and by moderators only; for others the call is refused and nothing changes.
  From then on its page says that there is no such submission, but to a moderator who insists: he still gets the page,
  marked as hidden. No list of submissions has it. Exactly the notifications \<open>submission_notification\<close> names are
  gone: of the submission and its being collected (2010, 2030), of collections offered (3030), of favorites (3020, 3050),
  of changed tags (3140) and of comments on it (4020, 4025, 4050). Others stay, also that of a request to collect it
  (3035). In its row only the mark changes, all other submissions stay, and so do all other tables; but for the
  cached counts of posts, some of which are dropped.
\<close>
theorem submission_remove_effect:
  assumes "posts_ok db" and "su \<in> set (t_submission db)" and "\<not> su_hidden su" and "i = su_submitid su"
  shows "(let (res, db') = submission_remove st userid i db
    in if userid = su_userid su \<or> userid \<in> MODS st then
         res = Inr (Some (su_userid su))
         \<and> (\<forall>viewer ignore anyway. \<not> (viewer \<in> MODS st \<and> anyway)
              \<longrightarrow> check_submission_view st viewer i ignore anyway db' = Inl (WeasylError ''submissionRecordMissing''))
         \<and> (\<forall>sfw_mode viewer rating q backid nextid. \<forall>(s, name) \<in> set (submission_select_query sfw_mode viewer rating q backid nextid db').
              su_submitid s \<noteq> i)
         \<and> (\<forall>viewer ignore. viewer \<in> MODS st \<longrightarrow>
              check_submission_view st viewer i ignore True db' = (case username_of (su_userid su) db of
                None \<Rightarrow> Inl (WeasylError ''submissionRecordMissing'')
              | Some name \<Rightarrow> Inr (su\<lparr>su_hidden := True\<rparr>, name)))
         \<and> t_welcome db' = delete_where (submission_notification i db) (t_welcome db)
         \<and> t_submission db' = map (\<lambda>s. if su_submitid s = i then s\<lparr>su_hidden := True\<rparr> else s) (t_submission db)
         \<and> db'\<lparr>t_submission := t_submission db, t_welcome := t_welcome db, c_posts_count := c_posts_count db\<rparr> = db
       else res = Inl (WeasylError ''InsufficientPermissions'') \<and> db' = db)"
proof -
  have find: "find (\<lambda>s. su_submitid s = i) (t_submission db) = Some su" "i \<noteq> 0"
    using found_post(3) [OF assms(1,2)] posts_okD(3) [OF assms(1,2)] assms(4) by simp_all
  then have owner: "get_ownerid i 0 0 db = Some (su_userid su)" by (simp add: get_ownerid_def submission_owner_def)
  have only: "s = su" if "s \<in> set (t_submission db)" "su_submitid s = i" for s
    using assms that by (auto simp: posts_ok_def distinct_map dest: inj_onD)
  define d where "d = db\<lparr>t_submission := update_where (\<lambda>su. su_submitid su = i \<and> \<not> su_hidden su)
      (\<lambda>su. su\<lparr>su_hidden := True\<rparr>) (t_submission db)\<rparr>"
  have count: "count_where (\<lambda>s. su_submitid s = i \<and> \<not> su_hidden s) (t_submission db) \<noteq> 0"
    using assms by (auto simp: count_where_0_iff)
  define db' where "db' = invalidate_collectors_posts_count i (posts_count_invalidate (su_userid su) (welcome_submission_remove i d))"
  have rows: "t_submission db' = map (\<lambda>s. if su_submitid s = i then s\<lparr>su_hidden := True\<rparr> else s) (t_submission db)"
    using only assms(3) by (auto simp: db'_def d_def welcome_submission_remove_def delete_welcome_def update_where_def)
  have welcomes: "t_welcome db' = delete_where (submission_notification i db) (t_welcome db)"
  proof -
    have "submission_notification i d = submission_notification i db" by (rule ext) (simp add: submission_notification_def d_def)
    then show ?thesis by (simp add: db'_def welcome_submission_remove_def delete_welcome_def) (simp add: d_def)
  qed
  have frame: "db'\<lparr>t_submission := t_submission db, t_welcome := t_welcome db, c_posts_count := c_posts_count db\<rparr> = db"
    unfolding db'_def d_def by (rule removed_submission_frame)
  have insisted: "check_submission_view st viewer i ignore True db' = (case username_of (su_userid su) db of
      None \<Rightarrow> Inl (WeasylError ''submissionRecordMissing'') | Some name \<Rightarrow> Inr (su\<lparr>su_hidden := True\<rparr>, name))"
    if "viewer \<in> MODS st" for viewer ignore
  proof -
    have "username_of (su_userid su) db' = username_of (su_userid su) db"
      by (simp add: username_of_def profile_of_def db'_def d_def welcome_submission_remove_def delete_welcome_def)
    with that hidden_row [OF rows find(1)] show ?thesis
      by (simp add: check_submission_view_def submission_row_of_def split: option.split)
  qed
  note page = hidden_page [OF rows find(1)] and lists = hidden_not_listed [OF rows]
  show ?thesis
  proof (cases "userid = su_userid su \<or> userid \<in> MODS st")
    case True
    then have eq: "submission_remove st userid i db = (Inr (Some (su_userid su)), db')"
      using count by (auto simp: submission_remove_def Let_def owner d_def [symmetric] db'_def)
    show ?thesis
      unfolding eq prod.case Let_def if_P [OF True]
      using page lists insisted welcomes rows frame by (intro conjI) (rule refl, blast+)
  next
    case False
    then show ?thesis by (simp add: submission_remove_def Let_def owner)
  qed
qed


theorem submission_remove_effect_witness:
  "(let (res, db') = submission_remove no_staff 1 5 posts_db
    in res = Inr (Some 1)
       \<and> (\<forall>viewer. check_submission_view no_staff viewer 5 True False db' = Inl (WeasylError ''submissionRecordMissing'')))
   \<and> (\<exists>e. fst (submission_remove no_staff 2 5 posts_db) = Inl e)"
proof -
  define su where "su = hd (t_submission posts_db)"
  have ok: "posts_ok posts_db" by code_simp
  have su: "su \<in> set (t_submission posts_db)" "\<not> su_hidden su" "su_submitid su = 5" "su_userid su = 1"
    by (simp_all add: su_def posts_db_def tagged_db_def sample_submission_def)
  obtain r d where r: "submission_remove no_staff 1 5 posts_db = (r, d)" by (meson surj_pair)
  obtain r' d' where r': "submission_remove no_staff 2 5 posts_db = (r', d')" by (meson surj_pair)
  have mods: "MODS no_staff = {}" by (simp add: no_staff_def)
  note effect = submission_remove_effect [OF ok su(1,2) su(3) [symmetric], of no_staff]
  show ?thesis
    using effect [of 1] effect [of 2] su mods by (simp add: r r')
qed

end
