(* ===== verification/Message_Laws.thy ===== *)
theory Message_Laws
  imports Messages Notes
begin

text \<open>
  The notifications page shows every heading of a section once, with everything under it, newest first; and its
  button to remove everything takes away exactly what the page shows.
\<close>

subsection \<open>Clusters\<close>

lemma groupby_one_key:
  assumes "xs \<noteq> []" "\<forall>x \<in> set xs. key x = k" "\<forall>y ys. rest = y # ys \<longrightarrow> key y \<noteq> k"
  shows "groupby key (xs @ rest) = (k, xs) # groupby key rest"
  using assms(1,2)
proof (induction xs)
  case (Cons x xs)
  show ?case
  proof (cases "xs = []")
    case True
    moreover have "k' \<noteq> k" if "groupby key rest = (k', ys) # gs" for k' ys gs
    proof (cases rest)
      case Nil
      with that show ?thesis by simp
    next
      case (Cons y zs)
      with that have "k' = key y" by (auto split: list.splits prod.splits if_splits)
      with Cons assms(3) show ?thesis by simp
    qed
    ultimately show ?thesis using Cons.prems by (auto split: list.split)
  next
    case False
    with Cons show ?thesis by simp
  qed
qed simp

text \<open>Blocks of rows with the same key, each key in one block.\<close>

lemma groupby_blocks:
  assumes "distinct (map fst bs)" "\<forall>(k, xs) \<in> set bs. \<forall>x \<in> set xs. key x = k"
  shows "groupby key (concat (map snd bs)) = filter (\<lambda>(k, xs). xs \<noteq> []) bs"
  using assms
proof (induction bs)
  case (Cons b bs)
  obtain k xs where b: "b = (k, xs)" by (cases b)
  have later: "key y \<noteq> k" if "y \<in> set (concat (map snd bs))" for y
    using Cons.prems that b by (force simp: image_iff)
  show ?case
  proof (cases "xs = []")
    case True
    with Cons b show ?thesis by auto
  next
    case False
    have "groupby key (xs @ concat (map snd bs)) = (k, xs) # groupby key (concat (map snd bs))"
    proof (rule groupby_one_key)
      show "\<forall>x \<in> set xs. key x = k" using Cons.prems(2) b by auto
      show "\<forall>y ys. concat (map snd bs) = y # ys \<longrightarrow> key y \<noteq> k" by (metis later list.set_intros(1))
    qed (rule False)
    with False Cons b show ?thesis by auto
  qed
qed simp

definition cluster_of :: "nat \<times> notification list \<Rightarrow> cluster" where
  "cluster_of b = \<lparr>cl_heading = fst (snd (NOTIFICATION_CLUSTERS ! fst b)), cl_id = snd (snd (NOTIFICATION_CLUSTERS ! fst b)),
     cl_items = sort_key (\<lambda>n. - nf_unixtime n) (snd b)\<rparr>"

lemma make_clusters_blocks: "make_clusters (map (\<lambda>(i, ns). (Inr i, ns)) bs) = Inr (map cluster_of bs)"
  by (induction bs) (auto simp: cluster_of_def split: prod.split)

lemma cluster_index_iff:
  "get_cluster_index n = Inr i \<longleftrightarrow> i < length NOTIFICATION_CLUSTERS \<and> nf_type n \<in> set (fst (NOTIFICATION_CLUSTERS ! i))"
proof -
  have "map_of CLUSTER_INDEXES t = Some i \<longleftrightarrow> i < length NOTIFICATION_CLUSTERS \<and> t \<in> set (fst (NOTIFICATION_CLUSTERS ! i))" for t i
  proof -
    have indexes: "CLUSTER_INDEXES =
      [(1010, 0), (3010, 1), (3020, 2), (3100, 2), (3110, 2), (3050, 2), (3030, 3), (3035, 3), (3070, 4), (3075, 4), (3080, 5),
       (3085, 6), (3140, 7), (4010, 8), (4015, 8), (4016, 9), (4020, 10), (4025, 10), (4050, 10), (4030, 11), (4035, 11),
       (4060, 11), (4065, 11), (4040, 12), (4045, 12)]" by code_simp
    have "\<forall>(t, i) \<in> set CLUSTER_INDEXES. i < length NOTIFICATION_CLUSTERS \<and> t \<in> set (fst (NOTIFICATION_CLUSTERS ! i))"
      by code_simp
    moreover have "\<forall>i \<in> set [0..<length NOTIFICATION_CLUSTERS]. \<forall>t \<in> set (fst (NOTIFICATION_CLUSTERS ! i)). (t, i) \<in> set CLUSTER_INDEXES"
      by code_simp
    moreover have "distinct (map fst CLUSTER_INDEXES)" by code_simp
    ultimately show ?thesis
      by (force dest: map_of_SomeD simp: map_of_eq_Some_iff)
  qed
  from this [of "nf_type n" i] show ?thesis by (auto simp: get_cluster_index_def split: option.splits)
qed

lemma clusters_blocks:
  assumes "distinct (map fst bs)" "\<forall>(i, ns) \<in> set bs. \<forall>n \<in> set ns. get_cluster_index n = Inr i"
  shows "clusters (concat (map snd bs)) = Inr (map cluster_of (filter (\<lambda>(i, ns). ns \<noteq> []) bs))"
proof -
  let ?bs = "map (\<lambda>(i, ns). (Inr i, ns)) bs :: (nat result \<times> notification list) list"
  have "map fst ?bs = map Inr (map fst bs)" by (simp add: case_prod_unfold)
  then have keys: "distinct (map fst ?bs)" using assms(1) by (simp only: distinct_map) simp
  have rows: "map snd ?bs = map snd bs" by (simp add: case_prod_unfold)
  have "\<forall>(k, xs) \<in> set ?bs. \<forall>x \<in> set xs. get_cluster_index x = k" using assms(2) by auto
  from groupby_blocks [OF keys this, unfolded rows] have "groupby get_cluster_index (concat (map snd bs)) = filter (\<lambda>(k, xs). xs \<noteq> []) ?bs"
    .
  also have "\<dots> = map (\<lambda>(i, ns). (Inr i, ns)) (filter (\<lambda>(i, ns). ns \<noteq> []) bs)"
    by (simp add: filter_map comp_def case_prod_unfold)
  finally show ?thesis by (simp add: clusters_def make_clusters_blocks)
qed

lemma headings_distinct: "distinct (map (fst \<circ> snd) NOTIFICATION_CLUSTERS)"
  by code_simp

text \<open>What the page promises of a section.\<close>

definition well_clustered :: "notification list \<Rightarrow> cluster list \<Rightarrow> bool" where
  "well_clustered ns cs \<longleftrightarrow>
     distinct (map cl_heading cs) \<and> mset (concat (map cl_items cs)) = mset ns
     \<and> (\<forall>c \<in> set cs. cl_items c \<noteq> [] \<and> sorted (map nf_unixtime (rev (cl_items c)))
          \<and> (\<exists>types. (types, cl_heading c, cl_id c) \<in> set NOTIFICATION_CLUSTERS \<and> nf_type ` set (cl_items c) \<subseteq> set types))"

lemma rev_sorted_key: "sorted (map f (rev (sort_key (\<lambda>x. - f x) xs)))" for f :: "'a \<Rightarrow> int"
proof -
  have "sorted_wrt (\<lambda>x y. - f x \<le> - f y) (sort_key (\<lambda>x. - f x) xs)" using sorted_sort_key [of "\<lambda>x. - f x" xs] by (simp only: sorted_map)
  then show ?thesis unfolding sorted_map sorted_wrt_rev by simp
qed

lemma blocks_well_clustered:
  assumes "distinct (map fst bs)" "\<forall>(i, ns) \<in> set bs. \<forall>n \<in> set ns. get_cluster_index n = Inr i"
  shows "\<exists>cs. clusters (concat (map snd bs)) = Inr cs \<and> well_clustered (concat (map snd bs)) cs"
proof -
  let ?f = "filter (\<lambda>(i, ns). ns \<noteq> []) bs"
  have index: "i < length NOTIFICATION_CLUSTERS" "nf_type ` set ns \<subseteq> set (fst (NOTIFICATION_CLUSTERS ! i))" if "(i, ns) \<in> set ?f" for i ns
    using that assms(2) by (fastforce simp: cluster_index_iff neq_Nil_conv)+
  have "distinct (map cl_heading (map cluster_of ?f))"
  proof -
    have "distinct (map fst ?f)" using assms(1) by (simp add: distinct_map_filter)
    moreover have "inj_on (\<lambda>i. fst (snd (NOTIFICATION_CLUSTERS ! i))) (fst ` set ?f)"
    proof (rule inj_on_subset)
      show "inj_on (\<lambda>i. fst (snd (NOTIFICATION_CLUSTERS ! i))) {..<length NOTIFICATION_CLUSTERS}"
        using headings_distinct by (auto simp: distinct_conv_nth inj_on_def)
      show "fst ` set ?f \<subseteq> {..<length NOTIFICATION_CLUSTERS}" using index(1) by force
    qed
    ultimately have "distinct (map (\<lambda>i. fst (snd (NOTIFICATION_CLUSTERS ! i))) (map fst ?f))" by (simp only: distinct_map set_map)
    then show ?thesis by (simp add: comp_def cluster_of_def)
  qed
  moreover have "mset (concat (map cl_items (map cluster_of ?f))) = mset (concat (map snd bs))"
    by (induction bs) (auto simp: cluster_of_def)
  moreover have "cl_items (cluster_of b) \<noteq> [] \<and> sorted (map nf_unixtime (rev (cl_items (cluster_of b))))
      \<and> (\<exists>types. (types, cl_heading (cluster_of b), cl_id (cluster_of b)) \<in> set NOTIFICATION_CLUSTERS
           \<and> nf_type ` set (cl_items (cluster_of b)) \<subseteq> set types)" if b: "b \<in> set ?f" for b
  proof -
    obtain i ns where p: "b = (i, ns)" by (cases b)
    have "cl_items (cluster_of b) \<noteq> []" using b p by (simp add: cluster_of_def) (metis length_0_conv length_sort)
    moreover have "sorted (map nf_unixtime (rev (cl_items (cluster_of b))))" by (simp add: cluster_of_def rev_sorted_key)
    moreover have "NOTIFICATION_CLUSTERS ! i \<in> set NOTIFICATION_CLUSTERS" using index(1) b p by simp
    then have "(fst (NOTIFICATION_CLUSTERS ! i), cl_heading (cluster_of b), cl_id (cluster_of b)) \<in> set NOTIFICATION_CLUSTERS"
      by (simp add: cluster_of_def p)
    moreover have "nf_type ` set (cl_items (cluster_of b)) \<subseteq> set (fst (NOTIFICATION_CLUSTERS ! i))"
      using index(2) b p by (simp add: cluster_of_def)
    ultimately show ?thesis by blast
  qed
  ultimately show ?thesis
    using clusters_blocks [OF assms] by (auto simp: well_clustered_def)
qed

lemma notices_type: "n \<in> set (notices userid types joined db) \<Longrightarrow> nf_type n \<in> set types"
  by (auto simp: notices_def in_map_filter split: if_splits)

lemma notices_block: "\<lbrakk>list_all (\<lambda>t. t \<in> set (fst (NOTIFICATION_CLUSTERS ! i))) types; i < length NOTIFICATION_CLUSTERS\<rbrakk> \<Longrightarrow>
    \<forall>n \<in> set (notices userid types joined db). get_cluster_index n = Inr i"
  using notices_type by (fastforce simp: cluster_index_iff list_all_iff)

text \<open>A section's queries come in the order of its clusters.\<close>

definition comment_blocks :: "int \<Rightarrow> string \<Rightarrow> 'a content_db_scheme \<Rightarrow> (nat \<times> notification list) list" where
  "comment_blocks userid name db =
     [(8, notices userid [4010] (with_user db (\<lambda>we. commented (Some [(''ownername'', J_string name)]) we)) db
          @ notices userid [4015] (with_user db (shout_reply_fields db)) db),
      (9, notices userid [4016] (with_user db (shout_reply_fields db)) db),
      (10, notices userid [4020] (with_user db (\<lambda>we. commented (submission_fields db (we_referid we)) we)) db
           @ notices userid [4025] (with_user db (submission_reply_fields db)) db
           @ notices userid [4050] (with_user db (\<lambda>we. commented (submission_fields db (we_referid we)) we)) db),
      (12, notices userid [4040] (with_user db (\<lambda>we. commented (character_fields db (we_referid we)) we)) db
           @ notices userid [4045] (with_user db (character_reply_fields db)) db),
      (11, notices userid [4030] (with_user db (\<lambda>we. commented (journal_fields db (we_referid we)) we)) db
           @ notices userid [4035] (with_user db (journal_reply_fields db)) db
           @ notices userid [4060] (with_user db (\<lambda>we. commented (update_fields db (we_referid we)) we)) db
           @ notices userid [4065] (with_user db (update_reply_fields db)) db)]"

definition notification_blocks :: "int \<Rightarrow> 'a content_db_scheme \<Rightarrow> (nat \<times> notification list) list" where
  "notification_blocks userid db =
     [(4, notices userid [3070, 3075] (with_user db (stream_fields db)) db),
      (3, notices userid [3030, 3035] (with_user db (\<lambda>we. submission_fields db (we_targetid we))) db),
      (1, notices userid [3010] (with_user db (\<lambda>_. Some [])) db),
      (5, notices userid [3080] (with_user db (\<lambda>_. Some [])) db),
      (6, notices userid [3085] (with_user db (\<lambda>_. Some [])) db),
      (2, notices userid [3020] (with_user db (\<lambda>we. submission_fields db (we_referid we))) db
          @ notices userid [3050] (with_user db (\<lambda>we. submission_fields db (we_referid we))) db
          @ notices userid [3100] (with_user db (\<lambda>we. character_fields db (we_referid we))) db
          @ notices userid [3110] (with_user db (\<lambda>we. journal_fields db (we_referid we))) db),
      (7, notices userid [3140] (\<lambda>we. submission_fields db (we_otherid we)) db)]"

lemma blocks_of_sections:
  "comment_notices userid name db = concat (map snd (comment_blocks userid name db))"
  "select_notifications userid db = concat (map snd (notification_blocks userid db))"
  by (simp_all add: comment_notices_def comment_blocks_def select_notifications_def notification_blocks_def)

lemma cluster_types:
  "4010 \<in> set (fst (NOTIFICATION_CLUSTERS ! 8))" "4015 \<in> set (fst (NOTIFICATION_CLUSTERS ! 8))"
  "4016 \<in> set (fst (NOTIFICATION_CLUSTERS ! 9))" "4020 \<in> set (fst (NOTIFICATION_CLUSTERS ! 10))"
  "4025 \<in> set (fst (NOTIFICATION_CLUSTERS ! 10))" "4050 \<in> set (fst (NOTIFICATION_CLUSTERS ! 10))"
  "4040 \<in> set (fst (NOTIFICATION_CLUSTERS ! 12))" "4045 \<in> set (fst (NOTIFICATION_CLUSTERS ! 12))"
  "4030 \<in> set (fst (NOTIFICATION_CLUSTERS ! 11))" "4035 \<in> set (fst (NOTIFICATION_CLUSTERS ! 11))"
  "4060 \<in> set (fst (NOTIFICATION_CLUSTERS ! 11))" "4065 \<in> set (fst (NOTIFICATION_CLUSTERS ! 11))"
  "3070 \<in> set (fst (NOTIFICATION_CLUSTERS ! 4))" "3075 \<in> set (fst (NOTIFICATION_CLUSTERS ! 4))"
  "3030 \<in> set (fst (NOTIFICATION_CLUSTERS ! 3))" "3035 \<in> set (fst (NOTIFICATION_CLUSTERS ! 3))"
  "3010 \<in> set (fst (NOTIFICATION_CLUSTERS ! Suc 0))" "3080 \<in> set (fst (NOTIFICATION_CLUSTERS ! 5))"
  "3085 \<in> set (fst (NOTIFICATION_CLUSTERS ! 6))" "3020 \<in> set (fst (NOTIFICATION_CLUSTERS ! 2))"
  "3050 \<in> set (fst (NOTIFICATION_CLUSTERS ! 2))" "3100 \<in> set (fst (NOTIFICATION_CLUSTERS ! 2))"
  "3110 \<in> set (fst (NOTIFICATION_CLUSTERS ! 2))" "3140 \<in> set (fst (NOTIFICATION_CLUSTERS ! 7))"
  "length NOTIFICATION_CLUSTERS = 13"
  by (simp_all add: NOTIFICATION_CLUSTERS_def nth_Cons')

lemma section_blocks:
  "\<forall>(i, ns) \<in> set (comment_blocks userid name db). \<forall>n \<in> set ns. get_cluster_index n = Inr i"
  "\<forall>(i, ns) \<in> set (notification_blocks userid db). \<forall>n \<in> set ns. get_cluster_index n = Inr i"
  by (simp_all add: comment_blocks_def notification_blocks_def ball_Un)
    (intro conjI notices_block; simp add: cluster_types)+

text \<open>
  On the notifications page the section of comments and the one of other notifications can be put into clusters: no
  heading comes twice, each shows notifications of its own types, newest first, and together they show all of them.
\<close>
theorem headings_once:
  "\<exists>comments notifications.
     clusters (comment_notices userid name db) = Inr comments
     \<and> well_clustered (comment_notices userid name db) comments
     \<and> clusters (select_notifications userid db) = Inr notifications
     \<and> well_clustered (select_notifications userid db) notifications"
proof -
  have "distinct (map fst (comment_blocks userid name db))" "distinct (map fst (notification_blocks userid db))"
    by (simp_all add: comment_blocks_def notification_blocks_def)
  note sections = blocks_well_clustered [OF this(1) section_blocks(1)] blocks_well_clustered [OF this(2) section_blocks(2)]
  from sections show ?thesis unfolding blocks_of_sections by blast
qed

subsection \<open>Removing everything\<close>

lemma notices_after_removal:
  assumes "list_all (\<lambda>t. t \<in> set NOTIFICATIONS_PAGE_TYPES) types"
  shows "notices u types joined (remove_all_before userid before db)
    = filter (\<lambda>n. \<not> (u = userid \<and> nf_unixtime n < before)) (notices u types joined db)"
proof -
  have map_filter_delete: "List.map_filter g (delete_where P rows) = filter Q (List.map_filter g rows)"
    if "\<And>r n. g r = Some n \<Longrightarrow> P r \<longleftrightarrow> \<not> Q n" for g :: "welcome_row \<Rightarrow> notification option" and P Q rows
    using that by (induction rows) (auto simp: delete_where_def split: option.split)
  show ?thesis
    unfolding notices_def filter_newest_first
    by (rule arg_cong [of _ _ "newest_first nf_unixtime"])
      (use assms in \<open>auto simp: list_all_iff remove_all_before_def delete_welcome_def page_header_invalidate_def
         intro!: map_filter_delete split: if_splits\<close>)
qed

lemma fields_after_removal:
  fixes db :: "'a content_db_scheme"
  shows
  "with_user (remove_all_before userid before db) f = with_user db f"
  "submission_fields (remove_all_before userid before db) = submission_fields db"
  "character_fields (remove_all_before userid before db) = character_fields db"
  "journal_fields (remove_all_before userid before db) = journal_fields db"
  "update_fields (remove_all_before userid before db) = update_fields db"
  "stream_fields (remove_all_before userid before db) = stream_fields db"
  "shout_reply_fields (remove_all_before userid before db) = shout_reply_fields db"
  "submission_reply_fields (remove_all_before userid before db) = submission_reply_fields db"
  "character_reply_fields (remove_all_before userid before db) = character_reply_fields db"
  "journal_reply_fields (remove_all_before userid before db) = journal_reply_fields db"
  "update_reply_fields (remove_all_before userid before db) = update_reply_fields db"
proof -
  have frame: "t_profile (remove_all_before userid before db) = t_profile db"
    "t_submission (remove_all_before userid before db) = t_submission db"
    "t_character (remove_all_before userid before db) = t_character db"
    "t_journal (remove_all_before userid before db) = t_journal db"
    "t_siteupdate (remove_all_before userid before db) = t_siteupdate db"
    "t_comments (remove_all_before userid before db) = t_comments db"
    "t_charcomment (remove_all_before userid before db) = t_charcomment db"
    "t_journalcomment (remove_all_before userid before db) = t_journalcomment db"
    "t_siteupdatecomment (remove_all_before userid before db) = t_siteupdatecomment db"
    by (simp_all add: remove_all_before_def delete_welcome_def page_header_invalidate_def)
  note defs = with_user_def username_of_def profile_of_def submission_fields_def find_submission_def character_fields_def
    journal_fields_def update_fields_def stream_fields_def shout_reply_fields_def submission_reply_fields_def
    character_reply_fields_def journal_reply_fields_def update_reply_fields_def
  show "with_user (remove_all_before userid before db) f = with_user db f"
    "submission_fields (remove_all_before userid before db) = submission_fields db"
    "character_fields (remove_all_before userid before db) = character_fields db"
    "journal_fields (remove_all_before userid before db) = journal_fields db"
    "update_fields (remove_all_before userid before db) = update_fields db"
    "stream_fields (remove_all_before userid before db) = stream_fields db"
    "shout_reply_fields (remove_all_before userid before db) = shout_reply_fields db"
    "submission_reply_fields (remove_all_before userid before db) = submission_reply_fields db"
    "character_reply_fields (remove_all_before userid before db) = character_reply_fields db"
    "journal_reply_fields (remove_all_before userid before db) = journal_reply_fields db"
    "update_reply_fields (remove_all_before userid before db) = update_reply_fields db"
    by (rule ext | simp add: defs frame)+
qed

lemma page_types:
  "1010 \<in> set NOTIFICATIONS_PAGE_TYPES" "3010 \<in> set NOTIFICATIONS_PAGE_TYPES" "3020 \<in> set NOTIFICATIONS_PAGE_TYPES"
  "3100 \<in> set NOTIFICATIONS_PAGE_TYPES" "3110 \<in> set NOTIFICATIONS_PAGE_TYPES" "3050 \<in> set NOTIFICATIONS_PAGE_TYPES"
  "3030 \<in> set NOTIFICATIONS_PAGE_TYPES" "3035 \<in> set NOTIFICATIONS_PAGE_TYPES" "3070 \<in> set NOTIFICATIONS_PAGE_TYPES"
  "3075 \<in> set NOTIFICATIONS_PAGE_TYPES" "3080 \<in> set NOTIFICATIONS_PAGE_TYPES" "3085 \<in> set NOTIFICATIONS_PAGE_TYPES"
  "3140 \<in> set NOTIFICATIONS_PAGE_TYPES" "4010 \<in> set NOTIFICATIONS_PAGE_TYPES" "4015 \<in> set NOTIFICATIONS_PAGE_TYPES"
  "4016 \<in> set NOTIFICATIONS_PAGE_TYPES" "4020 \<in> set NOTIFICATIONS_PAGE_TYPES" "4025 \<in> set NOTIFICATIONS_PAGE_TYPES"
  "4050 \<in> set NOTIFICATIONS_PAGE_TYPES" "4030 \<in> set NOTIFICATIONS_PAGE_TYPES" "4035 \<in> set NOTIFICATIONS_PAGE_TYPES"
  "4060 \<in> set NOTIFICATIONS_PAGE_TYPES" "4065 \<in> set NOTIFICATIONS_PAGE_TYPES" "4040 \<in> set NOTIFICATIONS_PAGE_TYPES"
  "4045 \<in> set NOTIFICATIONS_PAGE_TYPES"
  by (simp_all add: NOTIFICATIONS_PAGE_TYPES_def NOTIFICATION_CLUSTERS_def)

text \<open>The journals of the page depend on the rating read, and on the tables only.\<close>

definition journal_notices :: "int \<Rightarrow> 'a content_db_scheme \<Rightarrow> int \<Rightarrow> notification list" where
  "journal_notices userid db rating =
     notices userid [1010] (with_user db (\<lambda>we.
       if exists_where (\<lambda>jo. jo_journalid jo = we_targetid we \<and> jo_rating jo \<le> rating) (t_journal db)
       then journal_fields db (we_targetid we) else None)) db"

lemma select_journals_value:
  "fst (select_journals sfw_mode userid db) = map_sum id (journal_notices userid db) (fst (get_rating sfw_mode userid db))"
proof -
  obtain c where "snd (get_rating sfw_mode userid db) = db\<lparr>c_all_config := c\<rparr>" using get_rating_only_caches by blast
  moreover have "with_user (db\<lparr>c_all_config := c\<rparr>) f = with_user db f" "journal_fields (db\<lparr>c_all_config := c\<rparr>) = journal_fields db" for f
    by (rule ext | simp add: with_user_def username_of_def profile_of_def journal_fields_def)+
  ultimately show ?thesis
    by (cases "get_rating sfw_mode userid db"; cases "fst (get_rating sfw_mode userid db)")
      (auto simp: select_journals_def journal_notices_def notices_def cong: if_cong)
qed

lemma rating_after_removal:
  "fst (get_rating sfw_mode u (remove_all_before userid before db)) = fst (get_rating sfw_mode u db)"
proof -
  have "fst (get_all_config u (remove_all_before userid before db)) = fst (get_all_config u db)"
    by (simp add: remove_all_before_def delete_welcome_def page_header_invalidate_def get_all_config_def read_through_def
        peek_all_config_def query_all_config_def Let_def split: option.split prod.split)
  then show ?thesis
    by (simp add: get_rating_def get_rating_obj_def get_config_rating_def get_config_def and_then_fst)
qed

text \<open>
  C9: \<open>remove_all_before\<close> takes exactly the older notifications of the user away from the three sections of the page
  (comments, notifications, journals), shows all others unchanged to everybody, and leaves the inbox of submissions.
\<close>
theorem remove_all_shown:
  fixes db :: "'a tags_db_scheme"
  shows "let db' = remove_all_before userid before db;
       left = (\<lambda>u. filter (\<lambda>n. \<not> (u = userid \<and> nf_unixtime n < before)))
     in comment_notices u name db' = left u (comment_notices u name db)
        \<and> select_notifications u db' = left u (select_notifications u db)
        \<and> fst (select_journals sfw_mode u db') = map_sum id (left u) (fst (select_journals sfw_mode u db))
        \<and> map (\<lambda>type. inbox_select include_tags type rating limit u backtime nexttime db') [2010, 2030, 2050]
          = map (\<lambda>type. inbox_select include_tags type rating limit u backtime nexttime db) [2010, 2030, 2050]"
proof -
  let ?db' = "remove_all_before userid before db"
  have same: "t_journal ?db' = t_journal db" "t_profile ?db' = t_profile db" "t_submission ?db' = t_submission db"
    "t_character ?db' = t_character db" "t_submission_tags ?db' = t_submission_tags db" "t_searchmapchar ?db' = t_searchmapchar db"
    by (simp_all add: remove_all_before_def delete_welcome_def page_header_invalidate_def)
  have journals: "journal_notices u ?db' = (\<lambda>r. filter (\<lambda>n. \<not> (u = userid \<and> nf_unixtime n < before)) (journal_notices u db r))"
  proof
    fix r
    show "journal_notices u ?db' r
        = filter (\<lambda>n. \<not> (u = userid \<and> nf_unixtime n < before)) (journal_notices u db r)"
      by (simp add: journal_notices_def notices_after_removal page_types fields_after_removal same cong: if_cong)
  qed
  have inbox: "inbox_select include_tags type rating limit u backtime nexttime ?db' = inbox_select include_tags type rating limit u backtime nexttime db"
    if "type \<notin> set NOTIFICATIONS_PAGE_TYPES" for type
  proof -
    have item: "message_item_of include_tags rating ?db' = message_item_of include_tags rating db"
      by (rule ext) (simp add: message_item_of_def submission_message_item_def username_of_def profile_of_def find_submission_def same cong: if_cong)
    have skip: "List.map_filter g (delete_where P rows) = List.map_filter g rows" if "\<And>r. P r \<Longrightarrow> g r = None"
      for g :: "welcome_row \<Rightarrow> message_item option" and P rows
      using that by (induction rows) (auto simp: delete_where_def split: option.split)
    have rows: "t_welcome ?db' = delete_where (\<lambda>we. we_userid we = userid \<and> we_type we \<in> set NOTIFICATIONS_PAGE_TYPES
        \<and> we_unixtime we < before) (t_welcome db)"
      by (simp add: remove_all_before_def delete_welcome_def page_header_invalidate_def)
    show ?thesis unfolding inbox_select_def item rows using that by (subst skip) auto
  qed
  have types: "2010 \<notin> set NOTIFICATIONS_PAGE_TYPES" "2030 \<notin> set NOTIFICATIONS_PAGE_TYPES" "2050 \<notin> set NOTIFICATIONS_PAGE_TYPES"
    by (simp_all add: NOTIFICATIONS_PAGE_TYPES_def NOTIFICATION_CLUSTERS_def)
  have "comment_notices u name ?db' = filter (\<lambda>n. \<not> (u = userid \<and> nf_unixtime n < before)) (comment_notices u name db)"
    by (simp add: comment_notices_def notices_after_removal page_types fields_after_removal)
  moreover have "select_notifications u ?db' = filter (\<lambda>n. \<not> (u = userid \<and> nf_unixtime n < before)) (select_notifications u db)"
    by (simp add: select_notifications_def notices_after_removal page_types fields_after_removal)
  moreover have "fst (select_journals sfw_mode u ?db')
      = map_sum id (filter (\<lambda>n. \<not> (u = userid \<and> nf_unixtime n < before))) (fst (select_journals sfw_mode u db))"
    by (simp add: select_journals_value rating_after_removal journals map_sum.compositionality comp_def id_def)
  ultimately show ?thesis by (simp add: Let_def inbox types)
qed

end
