(* ===== verification/Profile_Laws.thy ===== *)
theory Profile_Laws
  imports Profiles
begin

text \<open>
  A profile keeps most settings twice: as letters of \<open>config\<close> and \<open>settings\<close> or as entries of \<open>jsonb_settings\<close>, and
  in columns of their own that are to replace them. Every operation that writes one of them writes the other, so that
  a column that is set always says what the letters say.
\<close>

subsection \<open>The letters of a configuration\<close>

lemma code_owner:
  assumes "opt \<in> set profile_Config" "o' \<in> set profile_Config" "get_code opt x = [c]" "get_code o' y = [c]"
  shows "o' = opt \<and> y = x"
proof -
  note ok = profile_Config_ok
  have "(x, [c]) \<in> set (value_to_code_map opt)" "(y, [c]) \<in> set (value_to_code_map o')"
    using assms get_code_iff [OF ok, of _ "[c]"] by blast+
  moreover from this have "options_by_code profile_Config [c] = Some opt" "options_by_code profile_Config [c] = Some o'"
    using assms options_by_code_iff [OF ok] by (force simp: opt_codes_def)+
  ultimately show ?thesis
    using get_value_iff [OF ok assms(1), of "[c]"] by (metis list.distinct(1) option.inject)
qed

lemma flag_of_config:
  assumes "config_valid profile_Config vals" "opt \<in> set profile_Config" "get_code opt x = [c]"
  shows "has_flag c (to_code profile_Config vals) \<longleftrightarrow> preference vals (opt_name opt) = Some x"
proof -
  have "has_flag c (to_code profile_Config vals) \<longleftrightarrow> (opt_name opt, Some x) \<in> set vals"
    unfolding has_flag_def to_code_chars [OF profile_Config_ok] using code_owner [OF assms(2) _ assms(3)] assms(2,3) by blast
  also have "\<dots> \<longleftrightarrow> map_of vals (opt_name opt) = Some (Some x)"
    using assms(1) by (simp add: config_valid_def)
  also have "\<dots> \<longleftrightarrow> preference vals (opt_name opt) = Some x"
    by (cases "map_of vals (opt_name opt)") (simp_all add: preference_def)
  finally show ?thesis .
qed

lemma profile_flags:
  assumes "config_valid profile_Config vals"
  shows "has_flag (CHR ''a'') (to_code profile_Config vals) \<longleftrightarrow> preference vals ''rating'' = Some (RatingV MATURE)"
    "has_flag (CHR ''p'') (to_code profile_Config vals) \<longleftrightarrow> preference vals ''rating'' = Some (RatingV EXPLICIT)"
    "has_flag (CHR ''h'') (to_code profile_Config vals) \<longleftrightarrow> flag_set vals ''hideprofile''"
    "has_flag (CHR ''i'') (to_code profile_Config vals) \<longleftrightarrow> flag_set vals ''hidestats''"
    "has_flag (CHR ''v'') (to_code profile_Config vals) \<longleftrightarrow> flag_set vals ''hidefavorites''"
    "has_flag (CHR ''u'') (to_code profile_Config vals) \<longleftrightarrow> flag_set vals ''hidefavbar''"
    "has_flag (CHR ''x'') (to_code profile_Config vals) \<longleftrightarrow> preference vals ''shouts'' = Some (TextV ''friends_only'')"
    "has_flag (CHR ''w'') (to_code profile_Config vals) \<longleftrightarrow> preference vals ''shouts'' = Some (TextV ''staff_only'')"
    "has_flag (CHR ''z'') (to_code profile_Config vals) \<longleftrightarrow> preference vals ''notes'' = Some (TextV ''friends_only'')"
    "has_flag (CHR ''y'') (to_code profile_Config vals) \<longleftrightarrow> preference vals ''notes'' = Some (TextV ''staff_only'')"
    "has_flag (CHR ''s'') (to_code profile_Config vals) \<longleftrightarrow> flag_set vals ''follow_s''"
    "has_flag (CHR ''c'') (to_code profile_Config vals) \<longleftrightarrow> flag_set vals ''follow_c''"
    "has_flag (CHR ''f'') (to_code profile_Config vals) \<longleftrightarrow> flag_set vals ''follow_f''"
    "has_flag (CHR ''t'') (to_code profile_Config vals) \<longleftrightarrow> flag_set vals ''follow_t''"
    "has_flag (CHR ''j'') (to_code profile_Config vals) \<longleftrightarrow> flag_set vals ''follow_j''"
proof -
  have "length profile_Config = 13" by (simp add: profile_Config_def)
  then have opts: "profile_Config ! i \<in> set profile_Config" if "i < 13" for i
    using that by simp
  note flag = flag_of_config [OF assms opts]
  note by_code = get_code_def profile_Config_def BoolOption_def ALL_RATINGS_def flag_set_def nth_Cons'
  show "has_flag (CHR ''a'') (to_code profile_Config vals) \<longleftrightarrow> preference vals ''rating'' = Some (RatingV MATURE)"
    "has_flag (CHR ''p'') (to_code profile_Config vals) \<longleftrightarrow> preference vals ''rating'' = Some (RatingV EXPLICIT)"
    using flag [of 0 "RatingV MATURE" "CHR ''a''"] flag [of 0 "RatingV EXPLICIT" "CHR ''p''"] by (simp_all add: by_code)
  show "has_flag (CHR ''h'') (to_code profile_Config vals) \<longleftrightarrow> flag_set vals ''hideprofile''"
    "has_flag (CHR ''i'') (to_code profile_Config vals) \<longleftrightarrow> flag_set vals ''hidestats''"
    "has_flag (CHR ''v'') (to_code profile_Config vals) \<longleftrightarrow> flag_set vals ''hidefavorites''"
    "has_flag (CHR ''u'') (to_code profile_Config vals) \<longleftrightarrow> flag_set vals ''hidefavbar''"
    using flag [of 2 "BoolV True" "CHR ''h''"] flag [of 3 "BoolV True" "CHR ''i''"] flag [of 4 "BoolV True" "CHR ''v''"]
      flag [of 5 "BoolV True" "CHR ''u''"] by (simp_all add: by_code)
  show "has_flag (CHR ''x'') (to_code profile_Config vals) \<longleftrightarrow> preference vals ''shouts'' = Some (TextV ''friends_only'')"
    "has_flag (CHR ''w'') (to_code profile_Config vals) \<longleftrightarrow> preference vals ''shouts'' = Some (TextV ''staff_only'')"
    "has_flag (CHR ''z'') (to_code profile_Config vals) \<longleftrightarrow> preference vals ''notes'' = Some (TextV ''friends_only'')"
    "has_flag (CHR ''y'') (to_code profile_Config vals) \<longleftrightarrow> preference vals ''notes'' = Some (TextV ''staff_only'')"
    using flag [of 6 "TextV ''friends_only''" "CHR ''x''"] flag [of 6 "TextV ''staff_only''" "CHR ''w''"]
      flag [of 7 "TextV ''friends_only''" "CHR ''z''"] flag [of 7 "TextV ''staff_only''" "CHR ''y''"] by (simp_all add: by_code)
  show "has_flag (CHR ''s'') (to_code profile_Config vals) \<longleftrightarrow> flag_set vals ''follow_s''"
    "has_flag (CHR ''c'') (to_code profile_Config vals) \<longleftrightarrow> flag_set vals ''follow_c''"
    "has_flag (CHR ''f'') (to_code profile_Config vals) \<longleftrightarrow> flag_set vals ''follow_f''"
    "has_flag (CHR ''t'') (to_code profile_Config vals) \<longleftrightarrow> flag_set vals ''follow_t''"
    "has_flag (CHR ''j'') (to_code profile_Config vals) \<longleftrightarrow> flag_set vals ''follow_j''"
    using flag [of 8 "BoolV True" "CHR ''s''"] flag [of 9 "BoolV True" "CHR ''c''"] flag [of 10 "BoolV True" "CHR ''f''"]
      flag [of 11 "BoolV True" "CHR ''t''"] flag [of 12 "BoolV True" "CHR ''j''"] by (simp_all add: by_code)
qed

text \<open>The code of a configuration has letters of options only.\<close>

lemma to_code_letters: "has_flag c (to_code profile_Config vals) \<Longrightarrow> c \<in> set option_codes"
proof -
  assume "has_flag c (to_code profile_Config vals)"
  then obtain opt x where "opt \<in> set profile_Config" "get_code opt x = [c]"
    using to_code_chars [OF profile_Config_ok, of c vals] by (auto simp: has_flag_def)
  moreover from this have "(x, [c]) \<in> set (value_to_code_map opt)" using get_code_iff [OF profile_Config_ok, of opt "[c]"] by blast
  ultimately show ?thesis by (force simp: option_codes_def all_codes_def opt_codes_def)
qed

lemma set_option_codes: "set option_codes = set ''apkhivuxwzyscftj''"
  by (simp add: option_codes_def profile_Config_def all_codes_def opt_codes_def BoolOption_def ALL_RATINGS_def)

subsection \<open>Profiles that agree with their letters\<close>

definition unset_or :: "'v option \<Rightarrow> 'v \<Rightarrow> bool" where
  "unset_or column v \<longleftrightarrow> column = None \<or> column = Some v"

lemma unset_or_simps [simp]: "unset_or None v" "unset_or (Some w) v \<longleftrightarrow> w = v"
  by (simp_all add: unset_or_def)

definition permission_of_flags :: "char \<Rightarrow> char \<Rightarrow> string \<Rightarrow> permissions" where
  "permission_of_flags nobody friends config =
     (if has_flag nobody config then Perm_nobody else if has_flag friends config then Perm_friends else Perm_everyone)"

definition config_mirrored :: "profile_row \<Rightarrow> bool" where
  "config_mirrored pr \<longleftrightarrow>
     (let set = (\<lambda>c. has_flag c (pr_config pr))
      in unset_or (pr_show_age pr) (set (CHR ''b''))
         \<and> unset_or (pr_favorites_visibility pr) (if set (CHR ''v'') then Perm_nobody else Perm_everyone)
         \<and> unset_or (pr_favorites_bar pr) (\<not> set (CHR ''u''))
         \<and> unset_or (pr_shouts_from pr) (permission_of_flags (CHR ''w'') (CHR ''x'') (pr_config pr))
         \<and> unset_or (pr_messages_from pr) (permission_of_flags (CHR ''y'') (CHR ''z'') (pr_config pr))
         \<and> unset_or (pr_profile_guests pr) (\<not> set (CHR ''h''))
         \<and> unset_or (pr_profile_stats pr) (\<not> set (CHR ''i''))
         \<and> unset_or (pr_max_rating pr) (rating_column (rating_of_config (pr_config pr)))
         \<and> unset_or (pr_watch_defaults pr) (filter set ''scftj'')
         \<and> unset_or (pr_thumbnail_bar pr)
             (if set (CHR ''O'') then TB_collections else if set (CHR ''A'') then TB_characters else TB_submissions)
         \<and> length (filter (\<lambda>c. c \<in> {CHR ''O'', CHR ''A''}) (pr_config pr)) \<le> 1)"

definition jsonb_mirrored :: "profile_row \<Rightarrow> bool" where
  "jsonb_mirrored pr \<longleftrightarrow>
     (let setting = profile_setting (case pr_jsonb_settings pr of None \<Rightarrow> [] | Some j \<Rightarrow> j)
      in (\<forall>b. pr_custom_thumbs pr = Some b \<longrightarrow> setting ''disable_custom_thumbs'' = Inr (\<not> b))
         \<and> (\<forall>b. pr_allow_collection_requests pr = Some b \<longrightarrow> setting ''allow_collection_requests'' = Inr b)
         \<and> (\<forall>b. pr_collection_notifs pr = Some b \<longrightarrow> setting ''allow_collection_notifs'' = Inr b))"

text \<open>The settings: one letter each for commissions, trades and requests, then those of streaming.\<close>

definition settings_mirrored :: "profile_row \<Rightarrow> bool" where
  "settings_mirrored pr \<longleftrightarrow>
     (\<exists>commissions trades requests rest. pr_settings pr = [commissions, trades, requests] @ rest
        \<and> {commissions, trades, requests} \<inter> set ''nli'' = {}
        \<and> (\<forall>s. pr_commissions_status pr = Some s \<longrightarrow> exchange_code s = [commissions])
        \<and> (\<forall>s. pr_trades_status pr = Some s \<longrightarrow> exchange_code s = [trades])
        \<and> (\<forall>s. pr_requests_status pr = Some s \<longrightarrow> exchange_code s = [requests])
        \<and> unset_or (pr_streaming_later pr) (has_flag (CHR ''l'') rest)
        \<and> length (filter (\<lambda>c. c \<in> set ''nli'') rest) \<le> 1)"

definition profile_typed :: "profile_row \<Rightarrow> bool" where
  "profile_typed pr \<longleftrightarrow> config_mirrored pr \<and> jsonb_mirrored pr \<and> settings_mirrored pr"

definition profiles_typed :: "'a accounts_db_scheme \<Rightarrow> bool" where
  "profiles_typed db \<longleftrightarrow> list_all profile_typed (t_profile db)"

lemma profiles_typed_update:
  assumes "profiles_typed db" "\<And>pr. P pr \<Longrightarrow> profile_typed pr \<Longrightarrow> profile_typed (f pr)"
  shows "list_all profile_typed (update_where P f (t_profile db))"
  using assms by (auto simp: profiles_typed_def list_all_iff update_where_def)

lemma profiles_typed_frame:
  "profiles_typed (all_config_invalidate u db) = profiles_typed db"
  "profiles_typed (db\<lparr>t_profile := rows\<rparr>) = list_all profile_typed rows"
  by (simp_all add: profiles_typed_def all_config_invalidate_def store_all_config_def)

lemma remove_first_flag_once:
  "length (filter (\<lambda>c. c \<in> set cs) s) \<le> 1 \<Longrightarrow> filter (\<lambda>c. c \<in> set cs) (remove_first_flag cs s) = []"
  "c \<notin> set cs \<Longrightarrow> has_flag c (remove_first_flag cs s) = has_flag c s"
  by (induction s) auto

lemma initial_profile_typed: "profile_typed (initial_profile now userid username)"
  by (simp add: profile_typed_def config_mirrored_def jsonb_mirrored_def settings_mirrored_def initial_profile_def
      permission_of_flags_def rating_of_config_def profile_setting_def profile_setting_defaults_def)

text \<open>The parts of a profile that the invariant is about.\<close>

lemma profile_typed_cong:
  "profile_typed (pr\<lparr>pr_username := x1\<rparr>) = profile_typed pr" "profile_typed (pr\<lparr>pr_full_name := x2\<rparr>) = profile_typed pr"
  "profile_typed (pr\<lparr>pr_catchphrase := x3\<rparr>) = profile_typed pr" "profile_typed (pr\<lparr>pr_profile_text := x4\<rparr>) = profile_typed pr"
  "profile_typed (pr\<lparr>pr_can_suggest_tags := x5\<rparr>) = profile_typed pr" "profile_typed (pr\<lparr>pr_stream_url := x6\<rparr>) = profile_typed pr"
  "profile_typed (pr\<lparr>pr_stream_text := x7\<rparr>) = profile_typed pr"
  by (simp_all add: profile_typed_def config_mirrored_def jsonb_mirrored_def settings_mirrored_def)

lemma exchange_code_letters: "\<exists>c. exchange_code s = [c] \<and> c \<notin> set ''nli''"
  by (cases s) auto

text \<open>An update changes one of the three parts.\<close>

lemma mirrored_frame [simp]:
  "config_mirrored (pr\<lparr>pr_settings := x1\<rparr>) = config_mirrored pr"
  "config_mirrored (pr\<lparr>pr_commissions_status := x2\<rparr>) = config_mirrored pr"
  "config_mirrored (pr\<lparr>pr_trades_status := x3\<rparr>) = config_mirrored pr"
  "config_mirrored (pr\<lparr>pr_requests_status := x4\<rparr>) = config_mirrored pr"
  "config_mirrored (pr\<lparr>pr_streaming_later := x5\<rparr>) = config_mirrored pr"
  "config_mirrored (pr\<lparr>pr_jsonb_settings := x6\<rparr>) = config_mirrored pr"
  "config_mirrored (pr\<lparr>pr_custom_thumbs := x7\<rparr>) = config_mirrored pr"
  "config_mirrored (pr\<lparr>pr_allow_collection_requests := x8\<rparr>) = config_mirrored pr"
  "config_mirrored (pr\<lparr>pr_collection_notifs := x9\<rparr>) = config_mirrored pr"
  "jsonb_mirrored (pr\<lparr>pr_settings := x1\<rparr>) = jsonb_mirrored pr"
  "jsonb_mirrored (pr\<lparr>pr_commissions_status := x2\<rparr>) = jsonb_mirrored pr"
  "jsonb_mirrored (pr\<lparr>pr_trades_status := x3\<rparr>) = jsonb_mirrored pr"
  "jsonb_mirrored (pr\<lparr>pr_requests_status := x4\<rparr>) = jsonb_mirrored pr"
  "jsonb_mirrored (pr\<lparr>pr_streaming_later := x5\<rparr>) = jsonb_mirrored pr"
  "jsonb_mirrored (pr\<lparr>pr_config := y1\<rparr>) = jsonb_mirrored pr"
  "jsonb_mirrored (pr\<lparr>pr_show_age := y2\<rparr>) = jsonb_mirrored pr"
  "jsonb_mirrored (pr\<lparr>pr_favorites_visibility := y3\<rparr>) = jsonb_mirrored pr"
  "jsonb_mirrored (pr\<lparr>pr_favorites_bar := y4\<rparr>) = jsonb_mirrored pr"
  "jsonb_mirrored (pr\<lparr>pr_shouts_from := y5\<rparr>) = jsonb_mirrored pr"
  "jsonb_mirrored (pr\<lparr>pr_messages_from := y6\<rparr>) = jsonb_mirrored pr"
  "jsonb_mirrored (pr\<lparr>pr_profile_guests := y7\<rparr>) = jsonb_mirrored pr"
  "jsonb_mirrored (pr\<lparr>pr_profile_stats := y8\<rparr>) = jsonb_mirrored pr"
  "jsonb_mirrored (pr\<lparr>pr_max_rating := y9\<rparr>) = jsonb_mirrored pr"
  "jsonb_mirrored (pr\<lparr>pr_watch_defaults := z1\<rparr>) = jsonb_mirrored pr"
  "jsonb_mirrored (pr\<lparr>pr_thumbnail_bar := z2\<rparr>) = jsonb_mirrored pr"
  "settings_mirrored (pr\<lparr>pr_config := y1\<rparr>) = settings_mirrored pr"
  "settings_mirrored (pr\<lparr>pr_show_age := y2\<rparr>) = settings_mirrored pr"
  "settings_mirrored (pr\<lparr>pr_favorites_visibility := y3\<rparr>) = settings_mirrored pr"
  "settings_mirrored (pr\<lparr>pr_favorites_bar := y4\<rparr>) = settings_mirrored pr"
  "settings_mirrored (pr\<lparr>pr_shouts_from := y5\<rparr>) = settings_mirrored pr"
  "settings_mirrored (pr\<lparr>pr_messages_from := y6\<rparr>) = settings_mirrored pr"
  "settings_mirrored (pr\<lparr>pr_profile_guests := y7\<rparr>) = settings_mirrored pr"
  "settings_mirrored (pr\<lparr>pr_profile_stats := y8\<rparr>) = settings_mirrored pr"
  "settings_mirrored (pr\<lparr>pr_max_rating := y9\<rparr>) = settings_mirrored pr"
  "settings_mirrored (pr\<lparr>pr_watch_defaults := z1\<rparr>) = settings_mirrored pr"
  "settings_mirrored (pr\<lparr>pr_thumbnail_bar := z2\<rparr>) = settings_mirrored pr"
  "settings_mirrored (pr\<lparr>pr_jsonb_settings := x6\<rparr>) = settings_mirrored pr"
  "settings_mirrored (pr\<lparr>pr_custom_thumbs := x7\<rparr>) = settings_mirrored pr"
  "settings_mirrored (pr\<lparr>pr_allow_collection_requests := x8\<rparr>) = settings_mirrored pr"
  "settings_mirrored (pr\<lparr>pr_collection_notifs := x9\<rparr>) = settings_mirrored pr"
  by (simp_all add: config_mirrored_def jsonb_mirrored_def settings_mirrored_def)

lemma typed_profile_settings:
  assumes "profile_typed pr"
  shows "profile_typed (pr\<lparr>pr_settings := exchange_code c @ exchange_code t @ exchange_code r
            @ (if has_flag (CHR ''l'') (pr_settings pr) then ''l'' else []),
          pr_commissions_status := Some c, pr_trades_status := Some t, pr_requests_status := Some r\<rparr>)"
proof -
  obtain x y z where codes: "exchange_code c = [x]" "exchange_code t = [y]" "exchange_code r = [z]" "{x, y, z} \<inter> set ''nli'' = {}"
    using exchange_code_letters [of c] exchange_code_letters [of t] exchange_code_letters [of r] by auto
  obtain a b d rest where old: "pr_settings pr = [a, b, d] @ rest" "{a, b, d} \<inter> set ''nli'' = {}"
    "unset_or (pr_streaming_later pr) (has_flag (CHR ''l'') rest)"
    using assms by (auto simp: profile_typed_def settings_mirrored_def)
  then have later: "has_flag (CHR ''l'') (pr_settings pr) = has_flag (CHR ''l'') rest" by auto
  have "settings_mirrored (pr\<lparr>pr_settings := [x, y, z] @ (if has_flag (CHR ''l'') rest then ''l'' else []),
      pr_commissions_status := Some c, pr_trades_status := Some t, pr_requests_status := Some r\<rparr>)"
    unfolding settings_mirrored_def
    by (rule exI [of _ x], rule exI [of _ y], rule exI [of _ z], rule exI [of _ "if has_flag (CHR ''l'') rest then ''l'' else []"])
      (use codes old(3) in auto)
  with assms codes later show ?thesis by (simp add: profile_typed_def)
qed

lemma typed_display:
  assumes "profile_typed pr" "flag = (if display \<in> {''O'', ''A''} then display else [])"
  shows "profile_typed (pr\<lparr>pr_config := remove_first_flag ''OA'' (pr_config pr) @ flag, pr_thumbnail_bar := Some (thumbnail_bar_of display)\<rparr>)"
proof -
  define config where "config = remove_first_flag ''OA'' (pr_config pr) @ flag"
  have old: "config_mirrored pr" using assms(1) by (simp add: profile_typed_def)
  then have one: "length (filter (\<lambda>c. c \<in> set ''OA'') (pr_config pr)) \<le> 1" by (simp add: config_mirrored_def Let_def)
  have flag: "has_flag (CHR ''O'') flag \<longleftrightarrow> display = ''O''" "has_flag (CHR ''A'') flag \<longleftrightarrow> display = ''A''"
    "c \<notin> set ''OA'' \<Longrightarrow> \<not> has_flag c flag" "length (filter (\<lambda>c. c \<in> set ''OA'') flag) \<le> 1" for c
    by (simp_all add: assms(2))
  note rest = remove_first_flag_once(1) [OF one]
  have new: "has_flag (CHR ''O'') config \<longleftrightarrow> display = ''O''" "has_flag (CHR ''A'') config \<longleftrightarrow> display = ''A''"
    "length (filter (\<lambda>c. c \<in> {CHR ''O'', CHR ''A''}) config) \<le> 1"
    using rest flag by (auto simp: config_def has_flag_def filter_empty_conv)
  have kept: "has_flag c config = has_flag c (pr_config pr)" if "c \<notin> set ''OA''" for c
    using remove_first_flag_once(2) [OF that] flag(3) [OF that] by (simp add: config_def)
  have "config_mirrored (pr\<lparr>pr_config := config, pr_thumbnail_bar := Some (thumbnail_bar_of display)\<rparr>)"
    using old new by (simp add: config_mirrored_def Let_def rating_of_config_def permission_of_flags_def kept thumbnail_bar_of_def
        split del: if_split cong: if_cong)
  with assms(1) show ?thesis by (simp add: profile_typed_def config_def)
qed

lemma typed_streaming:
  assumes "profile_typed pr" "flag \<in> {[], ''l''}"
  shows "profile_typed (pr\<lparr>pr_settings := remove_first_flag ''nli'' (pr_settings pr) @ flag, pr_streaming_later := Some (flag = ''l'')\<rparr>)"
proof -
  obtain a b d rest where old: "pr_settings pr = [a, b, d] @ rest" "{a, b, d} \<inter> set ''nli'' = {}"
    "length (filter (\<lambda>c. c \<in> set ''nli'') rest) \<le> 1"
    and status: "\<forall>s. pr_commissions_status pr = Some s \<longrightarrow> exchange_code s = [a]" "\<forall>s. pr_trades_status pr = Some s \<longrightarrow> exchange_code s = [b]"
    "\<forall>s. pr_requests_status pr = Some s \<longrightarrow> exchange_code s = [d]"
    using assms(1) by (auto simp: profile_typed_def settings_mirrored_def)
  note gone = remove_first_flag_once(1) [OF old(3)]
  have new: "remove_first_flag ''nli'' (pr_settings pr) @ flag = [a, b, d] @ remove_first_flag ''nli'' rest @ flag" using old(1,2) by auto
  have "\<not> has_flag (CHR ''l'') (remove_first_flag ''nli'' rest)" using gone by (auto simp: has_flag_def filter_empty_conv)
  then have later: "has_flag (CHR ''l'') (remove_first_flag ''nli'' rest @ flag) \<longleftrightarrow> flag = ''l''" using assms(2) by auto
  have "filter (\<lambda>c. c \<in> set ''nli'') (remove_first_flag ''nli'' rest @ flag) = filter (\<lambda>c. c \<in> set ''nli'') flag"
    unfolding filter_append gone by simp
  then have one: "length (filter (\<lambda>c. c \<in> set ''nli'') (remove_first_flag ''nli'' rest @ flag)) \<le> 1"
    using assms(2) by auto
  have "settings_mirrored (pr\<lparr>pr_settings := [a, b, d] @ remove_first_flag ''nli'' rest @ flag, pr_streaming_later := Some (flag = ''l'')\<rparr>)"
    unfolding settings_mirrored_def
    by (rule exI [of _ a], rule exI [of _ b], rule exI [of _ d], rule exI [of _ "remove_first_flag ''nli'' rest @ flag"])
      (use old(2) status later one in simp)
  with assms(1) new show ?thesis by (simp add: profile_typed_def)
qed

lemma typed_show_age:
  assumes "profile_typed pr"
  shows "\<not> has_flag (CHR ''b'') (pr_config pr) \<Longrightarrow> profile_typed (pr\<lparr>pr_config := pr_config pr @ ''b'', pr_show_age := Some True\<rparr>)"
    "profile_typed (pr\<lparr>pr_config := remove_flag (CHR ''b'') (pr_config pr), pr_show_age := Some False\<rparr>)"
proof -
  have old: "config_mirrored pr" using assms by (simp add: profile_typed_def)
  have "filter P (remove_flag (CHR ''b'') s) = filter P s" if "\<not> P (CHR ''b'')" for P s
    using that by (auto simp: remove_flag_def intro: filter_cong)
  then have "config_mirrored (pr\<lparr>pr_config := pr_config pr @ ''b'', pr_show_age := Some True\<rparr>)"
    "config_mirrored (pr\<lparr>pr_config := remove_flag (CHR ''b'') (pr_config pr), pr_show_age := Some False\<rparr>)"
    using old by (simp_all add: config_mirrored_def Let_def rating_of_config_def permission_of_flags_def split del: if_split cong: if_cong)
  with assms show "profile_typed (pr\<lparr>pr_config := pr_config pr @ ''b'', pr_show_age := Some True\<rparr>)"
    "profile_typed (pr\<lparr>pr_config := remove_flag (CHR ''b'') (pr_config pr), pr_show_age := Some False\<rparr>)"
    by (simp_all add: profile_typed_def)
qed

lemma typed_general:
  assumes "profile_typed pr"
  shows "profile_typed (pr\<lparr>pr_config := filter (\<lambda>c. c \<notin> set ''ap'') (pr_config pr), pr_max_rating := Some Rating_general\<rparr>)"
proof -
  define config where "config = filter (\<lambda>c. c \<notin> set ''ap'') (pr_config pr)"
  have flags: "has_flag c config \<longleftrightarrow> has_flag c (pr_config pr) \<and> c \<notin> set ''ap''" for c by (auto simp: has_flag_def config_def)
  have "filter (\<lambda>c. c \<in> {CHR ''O'', CHR ''A''}) config = filter (\<lambda>c. c \<in> {CHR ''O'', CHR ''A''}) (pr_config pr)"
    unfolding config_def filter_filter by (rule filter_cong) auto
  with assms have "config_mirrored (pr\<lparr>pr_config := config, pr_max_rating := Some Rating_general\<rparr>)"
    by (simp add: profile_typed_def config_mirrored_def Let_def rating_of_config_def permission_of_flags_def flags
        split del: if_split cong: if_cong)
  with assms show ?thesis by (simp add: profile_typed_def config_def)
qed

text \<open>Preferences: the letters are those of the configuration, and the ones no option has.\<close>

lemma jsonb_concat_lookup:
  "map_of (jsonb_concat j entries) k
    = (case map_of (rev entries) k of Some b \<Rightarrow> Some b | None \<Rightarrow> map_of (case j of None \<Rightarrow> [] | Some j \<Rightarrow> j) k)"
proof -
  have "map_of (fold (\<lambda>(k, v). AList.update k v) entries j0) k
      = (case map_of (rev entries) k of Some b \<Rightarrow> Some b | None \<Rightarrow> map_of j0 k)" for j0
    by (induction entries rule: rev_induct) (auto simp: update_conv' split: option.split)
  then show ?thesis by (simp add: jsonb_concat_def)
qed

lemma typed_preferences:
  assumes "profile_typed pr" "config_valid profile_Config vals" "preference vals ''rating'' = Some (RatingV rating)"
    and "permission_of (preference vals ''shouts'') = Inr shouts" "permission_of (preference vals ''notes'') = Inr notes"
  shows "profile_typed (
       pr\<lparr>pr_config := filter (\<lambda>c. c \<notin> set option_codes) (pr_config pr) @ to_code profile_Config vals,
          pr_favorites_visibility := Some (if flag_set vals ''hidefavorites'' then Perm_nobody else Perm_everyone),
          pr_favorites_bar := Some (\<not> flag_set vals ''hidefavbar''),
          pr_shouts_from := Some shouts, pr_messages_from := Some notes,
          pr_profile_guests := Some (\<not> flag_set vals ''hideprofile''),
          pr_profile_stats := Some (\<not> flag_set vals ''hidestats''),
          pr_max_rating := Some (rating_column rating), pr_watch_defaults := Some (watch_defaults_of vals),
          pr_jsonb_settings := Some (jsonb_concat (pr_jsonb_settings pr) [(''disable_custom_thumbs'', disable_custom_thumbs)]),
          pr_custom_thumbs := Some (\<not> disable_custom_thumbs)\<rparr>)" (is "profile_typed ?new")
proof -
  let ?code = "to_code profile_Config vals"
  define config where "config = filter (\<lambda>c. c \<notin> set option_codes) (pr_config pr) @ ?code"
  have option: "has_flag c config = has_flag c ?code" if "c \<in> set ''apkhivuxwzyscftj''" for c
    using that unfolding set_option_codes [symmetric] by (auto simp: config_def has_flag_def)
  have other: "has_flag c config = has_flag c (pr_config pr)" if "c \<notin> set ''apkhivuxwzyscftj''" for c
    using that to_code_letters [of c vals] unfolding set_option_codes [symmetric] by (auto simp: config_def has_flag_def)
  have "filter (\<lambda>c. c \<in> {CHR ''O'', CHR ''A''}) ?code = []"
    using to_code_letters [of _ vals] by (fastforce simp: filter_empty_conv has_flag_def set_option_codes)
  moreover have "filter (\<lambda>c. c \<in> {CHR ''O'', CHR ''A''}) (filter (\<lambda>c. c \<notin> set option_codes) (pr_config pr))
      = filter (\<lambda>c. c \<in> {CHR ''O'', CHR ''A''}) (pr_config pr)"
    unfolding filter_filter by (rule filter_cong) (auto simp: set_option_codes)
  ultimately have one: "filter (\<lambda>c. c \<in> {CHR ''O'', CHR ''A''}) config = filter (\<lambda>c. c \<in> {CHR ''O'', CHR ''A''}) (pr_config pr)"
    by (simp only: config_def filter_append append_Nil2)
  note flags = profile_flags [OF assms(2)]
  have shouts: "shouts = permission_of_flags (CHR ''w'') (CHR ''x'') config" "notes = permission_of_flags (CHR ''y'') (CHR ''z'') config"
    using assms(4,5) by (auto simp: permission_of_flags_def option flags permission_of_def PERMISSIONS_def bind_eq_Some_conv
        split: option.splits if_splits)
  have rating: "rating = rating_of_config config"
    using assms(3) by (cases rating) (simp_all add: rating_of_config_def option flags)
  have watch: "watch_defaults_of vals = filter (\<lambda>c. has_flag c config) ''scftj''"
    by (simp add: watch_defaults_of_def option flags)
  have "config_mirrored (pr\<lparr>pr_config := config,
          pr_favorites_visibility := Some (if flag_set vals ''hidefavorites'' then Perm_nobody else Perm_everyone),
          pr_favorites_bar := Some (\<not> flag_set vals ''hidefavbar''),
          pr_shouts_from := Some shouts, pr_messages_from := Some notes,
          pr_profile_guests := Some (\<not> flag_set vals ''hideprofile''),
          pr_profile_stats := Some (\<not> flag_set vals ''hidestats''),
          pr_max_rating := Some (rating_column rating), pr_watch_defaults := Some (watch_defaults_of vals)\<rparr>)"
    unfolding shouts rating watch
    using assms(1) one by (simp add: profile_typed_def config_mirrored_def Let_def option other flags split del: if_split cong: if_cong)
  moreover have "jsonb_mirrored ?new"
    using assms(1) by (simp add: profile_typed_def jsonb_mirrored_def Let_def profile_setting_def profile_setting_defaults_def jsonb_concat_lookup)
  ultimately show ?thesis using assms(1) by (simp add: profile_typed_def config_def)
qed

lemma typed_collection_preferences:
  assumes "profile_typed pr"
  shows "profile_typed (pr\<lparr>pr_jsonb_settings := Some (jsonb_concat (pr_jsonb_settings pr)
            [(''allow_collection_requests'', allow_requests), (''allow_collection_notifs'', notify)]),
          pr_allow_collection_requests := Some allow_requests, pr_collection_notifs := Some notify\<rparr>)"
  using assms by (simp add: profile_typed_def jsonb_mirrored_def Let_def profile_setting_def profile_setting_defaults_def jsonb_concat_lookup)

subsection \<open>The operations\<close>

lemma typed_then:
  "profiles_typed (snd m) \<Longrightarrow> (\<And>x d. profiles_typed d \<Longrightarrow> profiles_typed (snd (k x d))) \<Longrightarrow> profiles_typed (snd (and_then m k))"
  by (cases m; cases "fst m") auto

lemma typed_frames [simp]:
  "profiles_typed (db\<lparr>t_userinfo := a1\<rparr>) = profiles_typed db"
  "profiles_typed (db\<lparr>t_user_links := a2\<rparr>) = profiles_typed db"
  "profiles_typed (db\<lparr>link_seq := a3\<rparr>) = profiles_typed db"
  "profiles_typed (db\<lparr>t_login := a4\<rparr>) = profiles_typed db"
  "profiles_typed (db\<lparr>t_username_history := a5\<rparr>) = profiles_typed db"
  "profiles_typed (db\<lparr>history_seq := a6\<rparr>) = profiles_typed db"
  "profiles_typed (db\<lparr>c_userids := a7\<rparr>) = profiles_typed db"
  "profiles_typed (db\<lparr>c_is_adult := a8\<rparr>) = profiles_typed db"
  "profiles_typed (db\<lparr>c_display_name := a9\<rparr>) = profiles_typed db"
  "profiles_typed (db\<lparr>t_logincreate := b1\<rparr>) = profiles_typed db"
  "profiles_typed (dc\<lparr>t_user_streams := b2\<rparr>) = profiles_typed dc"
  "profiles_typed (dd\<lparr>t_comments := b3\<rparr>) = profiles_typed dd"
  "profiles_typed (dd\<lparr>comments_seq := b4\<rparr>) = profiles_typed dd"
  "profiles_typed (dd\<lparr>c_updateids := b5\<rparr>) = profiles_typed dd"
  "profiles_typed (db\<lparr>c_all_config := b6\<rparr>) = profiles_typed db"
  by (simp_all add: profiles_typed_def)

lemma typed_update_profile:
  "profiles_typed db \<Longrightarrow> (\<And>pr. profile_typed pr \<Longrightarrow> profile_typed (f pr)) \<Longrightarrow> profiles_typed (update_profile userid f db)"
  by (simp add: update_profile_def profiles_typed_frame profiles_typed_update)

lemma typed_edit_profile_settings: "profiles_typed db \<Longrightarrow> profiles_typed (edit_profile_settings userid t r c db)"
  by (simp add: edit_profile_settings_def profiles_typed_frame typed_update_profile typed_profile_settings)

lemma typed_edit_profile: "profiles_typed db \<Longrightarrow> profiles_typed (edit_profile userid name phrase content display db)"
proof -
  assume "profiles_typed db"
  moreover have "profile_typed (pr\<lparr>pr_full_name := name, pr_catchphrase := phrase, pr_profile_text := content,
      pr_config := remove_first_flag ''OA'' (pr_config pr) @ (if display \<in> {''O'', ''A''} then display else []),
      pr_thumbnail_bar := Some (thumbnail_bar_of display)\<rparr>)" if "profile_typed pr" for pr
    using typed_display [OF _ refl, of "pr\<lparr>pr_full_name := name, pr_catchphrase := phrase, pr_profile_text := content\<rparr>" display] that
    by (simp add: profile_typed_cong)
  ultimately show ?thesis
    unfolding edit_profile_def Let_def by (simp only: profiles_typed_frame typed_update_profile)
qed

lemma typed_stream_insert [simp]: "profiles_typed (stream_insert now userid status db) = profiles_typed db"
proof -
  have "welcome_only db (stream_insert now userid status db)"
    by (auto simp: stream_insert_def Let_def intro: welcome_only_trans [OF welcome_only_delete welcome_only_insert] welcome_only_delete)
  then show ?thesis by (simp add: profiles_typed_def welcome_only_frame(4))
qed

lemma typed_note_about [simp]: "profiles_typed (note_about now userid target title message db) = profiles_typed db"
  by (simp add: note_about_def add_comments_row_def)

lemma typed_edit_streaming:
  assumes "profiles_typed db"
  shows "profiles_typed (snd (edit_streaming_settings link_of now my_userid userid stream_text stream_url set_stream len db))"
proof -
  have "profile_typed (pr\<lparr>pr_stream_text := Some stream_text, pr_stream_url := url,
      pr_settings := remove_first_flag ''nli'' (pr_settings pr) @ flag, pr_streaming_later := Some (flag = ''l'')\<rparr>)"
    if "profile_typed pr" "flag \<in> {[], ''l''}" for pr url flag
    using typed_streaming [OF _ that(2), of "pr\<lparr>pr_stream_text := Some stream_text, pr_stream_url := url\<rparr>"] that(1)
    by (simp add: profile_typed_cong)
  note streaming = this
  have later: "profiles_typed (update_profile userid (\<lambda>pr. pr\<lparr>pr_stream_text := Some stream_text, pr_stream_url := url,
      pr_settings := remove_first_flag ''nli'' (pr_settings pr) @ ''l'', pr_streaming_later := Some True\<rparr>) d)"
    and now: "profiles_typed (update_profile userid (\<lambda>pr. pr\<lparr>pr_stream_text := Some stream_text, pr_stream_url := url,
      pr_settings := remove_first_flag ''nli'' (pr_settings pr), pr_streaming_later := Some False\<rparr>) d)"
    if "profiles_typed d" for d :: "'a content_db_scheme" and url
    using streaming [of _ "''l''"] streaming [of _ "[]"] by (intro typed_update_profile that; simp)+
  consider "set_stream = ''start''" | "set_stream = ''later''" | "set_stream = ''still''"
    | "set_stream \<notin> {''start'', ''later'', ''still''}" by blast
  then show ?thesis
    by cases (use assms later now in \<open>simp_all add: edit_streaming_settings_def Let_def split: option.split\<close>)
qed

lemma typed_edit_userinfo: "profiles_typed db \<Longrightarrow> profiles_typed (snd (edit_userinfo today userid form db))"
proof -
  assume db: "profiles_typed db"
  have birth: "profiles_typed (snd (set_birthdate today userid year month d)) = profiles_typed d" for year month and d :: "'a accounts_db_scheme"
    by (simp add: set_birthdate_def Let_def)
  have age: "profiles_typed (set_show_age userid shown d)" if "profiles_typed d" for shown and d :: "'a accounts_db_scheme"
    using that by (auto simp: set_show_age_def profiles_typed_frame intro!: profiles_typed_update typed_update_profile typed_show_age)
  show ?thesis
    using db by (auto simp: edit_userinfo_def Let_def replace_links_def birth profiles_typed_frame
        intro!: typed_then age split: option.split)
qed

lemma typed_edit_preferences:
  assumes "profiles_typed db" "config_valid profile_Config vals"
  shows "profiles_typed (snd (edit_preferences today userid vals disable_custom_thumbs db))"
proof -
  have valid: "config_valid profile_Config (AList.update ''rating'' (Some (RatingV r)) vals)" for r
  proof (rule config_set_valid [OF assms(2)])
    show "hd profile_Config \<in> set profile_Config" by (simp add: profile_Config_def)
    show "config_set vals (hd profile_Config) (RatingV r) = Inr (AList.update ''rating'' (Some (RatingV r)) vals)"
      by (cases r) (simp_all add: config_set_def profile_Config_def opt_values_def ALL_RATINGS_def)
  qed
  have updated: "preference (AList.update ''rating'' (Some (RatingV r)) vals) ''rating'' = Some (RatingV r)" for r
    by (simp add: preference_def update_conv')
  have store: "profiles_typed (store_preferences userid v r s n disable_custom_thumbs d)"
    if "profiles_typed d" "config_valid profile_Config v" "preference v ''rating'' = Some (RatingV r)"
      "permission_of (preference v ''shouts'') = Inr s" "permission_of (preference v ''notes'') = Inr n"
    for v r s n and d :: "'a accounts_db_scheme"
    unfolding store_preferences_def by (intro typed_update_profile that(1) typed_preferences that)
  have adult: "profiles_typed (snd (assert_adult userid d)) = profiles_typed d" for d :: "'a accounts_db_scheme"
    by (simp add: assert_adult_def Let_def store_is_adult_def)
  show ?thesis
    using assms
    by (auto simp: edit_preferences_def Let_def profiles_typed_frame adult valid updated
        intro!: typed_then store split: option.split sum.split config_value.split)
qed

lemma typed_set_collection_preferences:
  "profiles_typed db \<Longrightarrow> profiles_typed (set_collection_preferences userid allow_requests notify db)"
  by (simp add: set_collection_preferences_def profiles_typed_frame typed_update_profile typed_collection_preferences)

lemma typed_change_username:
  assumes "profiles_typed db"
  shows "profiles_typed (snd (change_username lower nfkd now acting target bypass name db))"
proof -
  have read: "profiles_typed (snd (get_username lower target d)) = profiles_typed d" for d :: "'a accounts_db_scheme"
    by (simp add: get_username_def get_display_name_def read_display_name_def read_through_def store_display_name_def Let_def
        and_then_def split: prod.split sum.split option.split)
  have history: "profiles_typed (snd (add_history now u n s c d)) = profiles_typed d"
    and login: "profiles_typed (snd (rename_login u o' n' d)) = profiles_typed d"
    and release: "profiles_typed (release_username now acting u d) = profiles_typed d"
    for d :: "'a accounts_db_scheme" and u n s c o' n'
    by (simp_all add: add_history_def rename_login_def release_username_def userids_invalidate_def store_userid_def Let_def
        split: option.split)
  have profile: "profiles_typed (snd (rename_profile u n d))" if "profiles_typed d" for d :: "'a accounts_db_scheme" and u n
    using that by (simp add: rename_profile_def profiles_typed_frame profiles_typed_update profile_typed_cong)
  have transaction: "profiles_typed (snd (change_username_transaction now acting target bypass c o' n' d))"
    if "profiles_typed d" for d :: "'a accounts_db_scheme" and c o' n'
    using that by (auto simp: change_username_transaction_def Let_def history login release intro!: typed_then profile)
  then have outcome: "profiles_typed e" if "change_username_transaction now acting target bypass c o' n' d = (r, e)" "profiles_typed d"
    for d e :: "'a accounts_db_scheme" and c o' n' r
    using that by (metis snd_conv)
  show ?thesis
  proof (cases "username_create lower nfkd name")
    case (Inl e)
    with assms show ?thesis by (simp add: change_username_def)
  next
    case (Inr new_username)
    then show ?thesis
      unfolding change_username_def Inr sum.case
      by (intro typed_then)
        (auto simp: read assms rollback_def username_invalidate_def store_display_name_def userids_invalidate_def store_userid_def Let_def
          split: prod.split sum.split intro: outcome)
  qed
qed

lemma typed_account_verify:
  assumes "profiles_typed db"
  shows "profiles_typed (snd (account_verify lower now token ip db))"
proof -
  have "profiles_typed (snd (get_updateids d)) = profiles_typed d" for d :: "'a content_db_scheme"
    by (simp add: get_updateids_def read_through_def Let_def split: option.split)
  then have updateids: "profiles_typed e" if "get_updateids d = (ids, e)" "profiles_typed d" for d e :: "'a content_db_scheme" and ids
    using that by (metis snd_conv)
  have verify: "profiles_typed (snd (verify_transaction now ip latest sysname display query d))" if "profiles_typed d"
    for d :: "'a content_db_scheme" and latest sysname display query
    using that by (simp add: verify_transaction_def Let_def profiles_typed_def initial_profile_typed)
  then show ?thesis
    using assms by (auto simp: account_verify_def Let_def delete_expired_def split: option.split sum.split prod.split
        intro!: verify elim!: updateids)
qed

lemma typed_manage_field:
  assumes "profiles_typed (snd s)" "\<And>v d. profiles_typed d \<Longrightarrow> profiles_typed (change v d)"
  shows "profiles_typed (snd (manage_field label change field s))"
  using assms by (simp add: manage_field_def split: option.split)

lemma typed_manage_birthday:
  assumes "profiles_typed db"
  shows "profiles_typed (snd (manage_birthday today userid birthday db))"
proof -
  have "profiles_typed (update_profile userid (\<lambda>pr. pr\<lparr>pr_config := filter (\<lambda>c. c \<notin> set ''ap'') (pr_config pr),
      pr_max_rating := Some Rating_general\<rparr>) (update_userinfo userid g db))" for g
    by (intro typed_update_profile typed_general) (simp_all add: update_userinfo_def assms)
  moreover have "profiles_typed (update_userinfo userid g db)" for g by (simp add: update_userinfo_def assms)
  ultimately show ?thesis
    using assms unfolding manage_birthday_def Let_def by (cases birthday) (simp_all add: profiles_typed_frame del: list.set)
qed

lemma typed_do_manage:
  assumes "profiles_typed db"
  shows "profiles_typed (snd (do_manage lower nfkd now today my_userid userid form db))"
proof -
  have info: "profiles_typed (update_userinfo userid g d) = profiles_typed d" for g and d :: "'a content_db_scheme"
    by (simp add: update_userinfo_def)
  have links: "profiles_typed (snd (remove_social_links userid social s)) = profiles_typed (snd s)" for social and s :: "string list \<times> 'a content_db_scheme"
    by (induction social arbitrary: s) (simp_all add: remove_social_links_def case_prod_unfold)
  have tag: "profiles_typed (snd (manage_permission_tag userid perm s))" if "profiles_typed (snd s)" for perm and s :: "string list \<times> 'a content_db_scheme"
    using that by (auto simp: manage_permission_tag_def Let_def profiles_typed_frame profile_typed_cong intro!: profiles_typed_update split: option.split)
  have rename: "profiles_typed (snd (case mg_username form of
        None \<Rightarrow> (Inr [], db)
      | Some username \<Rightarrow> and_then (change_username lower nfkd now my_userid userid True username db)
            (\<lambda>_ d. (Inr [''- Username: '' @ to_string username], d))))"
    using assms typed_change_username [OF assms] by (auto split: option.split intro!: typed_then)
  have names: "profiles_typed (snd (manage_field ''Catchphrase'' (\<lambda>v. update_profile userid (\<lambda>pr. pr\<lparr>pr_catchphrase := v\<rparr>)) c
       (manage_field ''Full name'' (\<lambda>v. update_profile userid (\<lambda>pr. pr\<lparr>pr_full_name := v\<rparr>)) n (updates, d))))"
    if "profiles_typed d" for c n updates and d :: "'a content_db_scheme"
    using that by (intro typed_manage_field typed_update_profile) (simp_all add: profile_typed_cong)
  have rest: "profiles_typed (snd (manage_permission_tag userid perm (remove_social_links userid social
       (manage_field ''Country'' (\<lambda>v. update_userinfo userid (\<lambda>ui. ui\<lparr>ui_country := v\<rparr>)) c
         (manage_field ''Gender'' (\<lambda>v. update_userinfo userid (\<lambda>ui. ui\<lparr>ui_gender := v\<rparr>)) g (updates, d))))))"
    if "profiles_typed d" for perm social c g updates and d :: "'a content_db_scheme"
    using that by (intro tag) (auto simp: links info intro!: typed_manage_field)
  show ?thesis
    unfolding do_manage_def Let_def case_prod_unfold
    by (intro typed_then rename) (auto intro!: typed_then typed_manage_birthday names rest)
qed

text \<open>One call by anyone with any arguments; it may raise.\<close>

inductive profile_step :: "'a content_db_scheme \<Rightarrow> 'a content_db_scheme \<Rightarrow> bool" where
  new: "profile_step db (snd (account_verify lower now token ip db))"
| rename: "profile_step db (snd (change_username lower nfkd now acting target bypass name db))"
| exchange: "profile_step db (edit_profile_settings userid t r c db)"
| display: "profile_step db (edit_profile userid full_name phrase content display db)"
| streaming: "profile_step db (snd (edit_streaming_settings link_of now my_userid userid stream_text stream_url set_stream len db))"
| userinfo: "profile_step db (snd (edit_userinfo today userid uform db))"
| preferences: "config_valid profile_Config vals \<Longrightarrow> profile_step db (snd (edit_preferences today userid vals thumbs db))"
| collections: "profile_step db (set_collection_preferences userid allow_requests notify db)"
| manage: "profile_step db (snd (do_manage lower nfkd now today my_userid userid mform db))"

lemma profile_step_typed: "profile_step db db' \<Longrightarrow> profiles_typed db \<Longrightarrow> profiles_typed db'"
  by (induction rule: profile_step.induct)
    (simp_all add: typed_account_verify typed_change_username typed_edit_profile_settings typed_edit_profile typed_edit_streaming
      typed_edit_userinfo typed_edit_preferences typed_set_collection_preferences typed_do_manage)

text \<open>
  C8: Whatever accounts are made and renamed, and whatever users and moderators change in settings, preferences, streams
  and profiles, a column that is set always agrees with the letters of \<open>config\<close> and \<open>settings\<close> and with
  \<open>jsonb_settings\<close>, no more than one thumbnail bar and one stream state is noted, and the first three letters of
  \<open>settings\<close> are exchange settings.
\<close>
theorem profiles_stay_typed:
  assumes "profile_step\<^sup>*\<^sup>* db db'" "profiles_typed db"
  shows "profiles_typed db'"
  using assms by (induction rule: rtranclp_induct) (auto intro: profile_step_typed)

theorem profiles_stay_typed_witness:
  "let db = blank_db\<lparr>t_profile := [initial_profile 0 1 ''ann''], t_userinfo := [\<lparr>ui_userid = 1, ui_birthday = None,
             ui_asserted_adult = False, ui_gender = [], ui_country = []\<rparr>]\<rparr>;
       db1 = edit_profile 1 ''Ann'' [] [] ''O'' db;
       db2 = snd (edit_preferences (2024, 5, 1) 1 (AList.update ''rating'' (Some (RatingV MATURE))
               (AList.update ''shouts'' (Some (TextV ''staff_only'')) (AList.update ''notes'' (Some (TextV ''anyone'')) []))) True db1)
   in profiles_typed db2 \<and> map pr_config (t_profile db2) = [''Oaw''] \<and> map pr_max_rating (t_profile db2) = [Some Rating_mature]"
  (is "let db = ?db; db1 = ?e db; db2 = snd (?p db1) in _")
proof -
  let ?vals = "AList.update ''rating'' (Some (RatingV MATURE))
      (AList.update ''shouts'' (Some (TextV ''staff_only'')) (AList.update ''notes'' (Some (TextV ''anyone'')) []))"
  have "config_valid profile_Config ?vals" by code_simp
  then have "profile_step (?e ?db) (snd (?p (?e ?db)))" by (rule profile_step.preferences)
  moreover have "profile_step ?db (?e ?db)" by (rule profile_step.display)
  ultimately have "profile_step\<^sup>*\<^sup>* ?db (snd (?p (?e ?db)))" by (meson r_into_rtranclp rtranclp.rtrancl_into_rtrancl)
  moreover have "profiles_typed ?db" by (simp add: profiles_typed_def initial_profile_typed)
  ultimately have "profiles_typed (snd (?p (?e ?db)))" by (rule profiles_stay_typed)
  moreover have "map pr_config (t_profile (snd (?p (?e ?db)))) = [''Oaw'']"
    "map pr_max_rating (t_profile (snd (?p (?e ?db)))) = [Some Rating_mature]" by code_simp+
  ultimately show ?thesis by (simp add: Let_def)
qed

end
