(* ===== verification/Search.thy ===== *)
theory Search
  imports Post_Laws
begin

text \<open>
  Searching and browsing: \<^verbatim>\<open>weasyl/search.py\<close>, the search page of \<^verbatim>\<open>weasyl/controllers/general.py\<close>
  and the counts of \<^verbatim>\<open>weasyl/controllers/search.py\<close>. A \<open>Query\<close> is the parsed text of a search, a \<open>ResolvedQuery\<close> the same with
  ids; the statement \<open>_prepare_search\<close> puts together is the list \<open>search_rows\<close>, with a row as often as the joins give
  it. Names are code points, as in theory \<open>Forms\<close>. The media of the results, and searching for users with
  \<^verbatim>\<open>SIMILAR TO\<close>, are left out.
\<close>

subsection \<open>Queries\<close>

datatype post_kind = SubmitPost | CharPost | JournalPost

datatype search_type = FindPost post_kind | FindUser

record search_query =
  q_possible_includes :: "ustr set"
  q_required_includes :: "ustr set"
  q_required_excludes :: "ustr set"
  q_required_user_includes :: "ustr set"
  q_required_user_excludes :: "ustr set"
  q_ratings :: "int set"
  q_find :: "search_type option"

definition empty_query :: search_query where
  "empty_query = \<lparr>q_possible_includes = {}, q_required_includes = {}, q_required_excludes = {},
     q_required_user_includes = {}, q_required_user_excludes = {}, q_ratings = {}, q_find = None\<rparr>"

definition QUERY_FIND_MODIFIERS :: "(ustr \<times> search_type) list" where
  "QUERY_FIND_MODIFIERS =
     [(ustr ''#submission'', FindPost SubmitPost), (ustr ''#character'', FindPost CharPost),
      (ustr ''#journal'', FindPost JournalPost), (ustr ''#user'', FindUser)]"

definition QUERY_RATING_MODIFIERS :: "(ustr \<times> int) list" where
  "QUERY_RATING_MODIFIERS =
     [(ustr ''#general'', rating_code GENERAL), (ustr ''#mature'', rating_code MATURE), (ustr ''#explicit'', rating_code EXPLICIT)]"

definition begins_with :: "ustr \<Rightarrow> ustr \<Rightarrow> bool" where
  "begins_with p s = (take (length p) s = p)"

definition add_nonempty :: "ustr option \<Rightarrow> ustr set \<Rightarrow> ustr set" where
  "add_nonempty item s = (case item of None \<Rightarrow> s | Some x \<Rightarrow> insert x s)"

text \<open>\<open>criterion.split(":", 1)[1]\<close>.\<close>

definition after_colon :: "ustr \<Rightarrow> ustr" where
  "after_colon s = tl (dropWhile (\<lambda>c. c \<noteq> 58) s)"

definition add_criterion :: "(ustr \<Rightarrow> ustr) \<Rightarrow> (ustr \<Rightarrow> ustr) \<Rightarrow> ustr \<Rightarrow> search_query \<Rightarrow> search_query result" where
  "add_criterion lower nfkd criterion q =
     (case map_of QUERY_FIND_MODIFIERS criterion of
        Some find_modifier \<Rightarrow> Inr (q\<lparr>q_find := Some find_modifier\<rparr>)
      | None \<Rightarrow>
     (case map_of QUERY_RATING_MODIFIERS criterion of
        Some rating_modifier \<Rightarrow> Inr (q\<lparr>q_ratings := insert rating_modifier (q_ratings q)\<rparr>)
      | None \<Rightarrow>
        if begins_with (ustr ''user:'') criterion \<or> begins_with (ustr ''+user:'') criterion then
          Inr (q\<lparr>q_required_user_includes :=
                   add_nonempty (parse_sysname lower nfkd (after_colon criterion)) (q_required_user_includes q)\<rparr>)
        else if begins_with (ustr ''-user:'') criterion then
          Inr (q\<lparr>q_required_user_excludes :=
                   add_nonempty (parse_sysname lower nfkd (after_colon criterion)) (q_required_user_excludes q)\<rparr>)
        else if begins_with (ustr ''+'') criterion then
          map_sum id (\<lambda>tag. q\<lparr>q_required_includes := add_nonempty tag (q_required_includes q)\<rparr>) (parse_tag (tl criterion))
        else if begins_with (ustr ''-'') criterion then
          map_sum id (\<lambda>tag. q\<lparr>q_required_excludes := add_nonempty tag (q_required_excludes q)\<rparr>) (parse_tag (tl criterion))
        else if begins_with (ustr ''|'') criterion then
          map_sum id (\<lambda>tag. q\<lparr>q_possible_includes := add_nonempty tag (q_possible_includes q)\<rparr>) (parse_tag (tl criterion))
        else
          map_sum id (\<lambda>tag. q\<lparr>q_required_includes := add_nonempty tag (q_required_includes q)\<rparr>) (parse_tag criterion)))"

definition query_nonempty :: "search_query \<Rightarrow> bool" where
  "query_nonempty q =
     (q_possible_includes q \<noteq> {} \<or> q_required_includes q \<noteq> {} \<or> q_required_excludes q \<noteq> {}
      \<or> q_required_user_includes q \<noteq> {} \<or> q_required_user_excludes q \<noteq> {} \<or> q_ratings q \<noteq> {})"

definition get_terms :: "search_query \<Rightarrow> ustr list" where
  "get_terms q =
     sorted_list_of_set (q_required_includes q)
     @ map ((@) (ustr ''|'')) (sorted_list_of_set (q_possible_includes q))
     @ map ((@) (ustr ''-'')) (sorted_list_of_set (q_required_excludes q))
     @ map ((@) (ustr ''user:'')) (sorted_list_of_set (q_required_user_includes q))
     @ map ((@) (ustr ''-user:'')) (sorted_list_of_set (q_required_user_excludes q))"

definition get_terms_string :: "search_query \<Rightarrow> ustr" where
  "get_terms_string q = join [32] (get_terms q)"

text \<open>\<open>_QUERY_DELIMITER.split\<close> without the empty strings, which \<open>parse\<close> skips.\<close>

definition query_words :: "ustr \<Rightarrow> ustr list" where
  "query_words s = split_white (map (\<lambda>c. if c = 44 \<or> c = 59 then 32 else c) s)"

fun add_criteria :: "(ustr \<Rightarrow> ustr) \<Rightarrow> (ustr \<Rightarrow> ustr) \<Rightarrow> ustr list \<Rightarrow> search_query \<Rightarrow> search_query result" where
  "add_criteria lower nfkd [] q = Inr q"
| "add_criteria lower nfkd (c # cs) q =
     (case add_criterion lower nfkd c q of Inl e \<Rightarrow> Inl e | Inr q \<Rightarrow> add_criteria lower nfkd cs q)"

definition normalize_query :: "search_type \<Rightarrow> search_query \<Rightarrow> search_query" where
  "normalize_query find_default q =
     (let required = q_required_includes q;
          possible = q_possible_includes q - required;
          excludes = q_required_excludes q - required;
          possible = possible - excludes;
          (required, possible) = (if card possible = 1 then (required \<union> possible, {}) else (required, possible))
      in q\<lparr>q_possible_includes := possible, q_required_includes := required, q_required_excludes := excludes,
           q_find := Some (case q_find q of None \<Rightarrow> find_default | Some f \<Rightarrow> f)\<rparr>)"

definition query_parse :: "(ustr \<Rightarrow> ustr) \<Rightarrow> (ustr \<Rightarrow> ustr) \<Rightarrow> ustr \<Rightarrow> search_type \<Rightarrow> search_query result" where
  "query_parse lower nfkd query_string find_default =
     map_sum id (normalize_query find_default) (add_criteria lower nfkd (query_words query_string) empty_query)"

definition as_simple :: "search_query \<Rightarrow> ustr option" where
  "as_simple q =
     (case sorted_list_of_set (q_required_includes q) of
        [tag_name] \<Rightarrow>
          if q_possible_includes q = {} \<and> q_required_excludes q = {} \<and> q_required_user_includes q = {}
             \<and> q_required_user_excludes q = {} \<and> q_ratings q = {}
          then Some tag_name else None
      | _ \<Rightarrow> None)"

subsection \<open>Resolving names\<close>

record resolved_query =
  r_possible_includes :: "int set"
  r_required_includes :: "int set"
  r_required_excludes :: "int set"
  r_required_user_includes :: "int set"
  r_required_user_excludes :: "int set"
  r_ratings :: "int set"
  r_find :: post_kind

text \<open>\<open>tag_ids.get(name, 0)\<close> and \<open>user_ids[name]\<close>.\<close>

definition tag_id_in :: "(string \<times> int option) list \<Rightarrow> ustr \<Rightarrow> int" where
  "tag_id_in tag_ids name = (case map_of tag_ids (to_string name) of Some (Some i) \<Rightarrow> i | _ \<Rightarrow> 0)"

definition user_id_in :: "(ustr \<times> int) list \<Rightarrow> ustr \<Rightarrow> int" where
  "user_id_in user_ids name = (case map_of user_ids name of Some i \<Rightarrow> i | None \<Rightarrow> 0)"

definition resolve_search ::
  "(ustr \<Rightarrow> ustr) \<Rightarrow> (ustr \<Rightarrow> ustr) \<Rightarrow> search_query \<Rightarrow> 'a tags_db_scheme
     \<Rightarrow> resolved_query option result \<times> 'a tags_db_scheme" where
  "resolve_search lower nfkd q db =
     (case q_find q of
        Some (FindPost kind) \<Rightarrow>
          (let all_names = q_possible_includes q \<union> q_required_includes q \<union> q_required_excludes q;
               all_user_sysnames = q_required_user_includes q \<union> q_required_user_excludes q;
               (tag_ids, db) = get_ids (map to_string (sorted_list_of_set all_names)) db;
               (user_ids, db) = get_userids (\<lambda>u. map_option to_string (parse_sysname lower nfkd u))
                                  (sorted_list_of_set all_user_sysnames) db;
               required_includes = tag_id_in tag_ids ` q_required_includes q;
               required_user_includes = user_id_in user_ids ` q_required_user_includes q
           in (if 0 \<in> required_includes \<or> 0 \<in> required_user_includes then Inr None
               else Inr (Some
                 \<lparr>r_possible_includes = tag_id_in tag_ids ` q_possible_includes q - {0},
                  r_required_includes = required_includes,
                  r_required_excludes = tag_id_in tag_ids ` q_required_excludes q - {0},
                  r_required_user_includes = required_user_includes,
                  r_required_user_excludes = user_id_in user_ids ` q_required_user_excludes q - {0},
                  r_ratings = q_ratings q, r_find = kind\<rparr>), db))
      | _ \<Rightarrow> (Inl TypeError, db))"

subsection \<open>The statement of a search\<close>

record content_row =
  ct_id :: int
  ct_title :: string
  ct_rating :: int
  ct_unixtime :: int
  ct_userid :: int
  ct_subtype :: int
  ct_hidden :: bool
  ct_friends_only :: bool
  ct_browse_excluded :: "bool option"
  ct_extra :: string

text \<open>The columns of \<open>_TABLE_INFORMATION\<close>, with the subtype it makes up and the field of \<open>extra_fields\<close>.\<close>

definition submission_content :: "submission_row \<Rightarrow> content_row" where
  "submission_content su =
     \<lparr>ct_id = su_submitid su, ct_title = su_title su, ct_rating = su_rating su, ct_unixtime = su_unixtime su,
      ct_userid = su_userid su, ct_subtype = su_subtype su, ct_hidden = su_hidden su,
      ct_friends_only = su_friends_only su, ct_browse_excluded = su_browse_excluded su, ct_extra = []\<rparr>"

definition character_content :: "character_row \<Rightarrow> content_row" where
  "character_content ch =
     \<lparr>ct_id = ch_charid ch, ct_title = ch_char_name ch, ct_rating = ch_rating ch, ct_unixtime = ch_unixtime ch,
      ct_userid = ch_userid ch, ct_subtype = 3999, ct_hidden = ch_hidden ch, ct_friends_only = ch_friends_only ch,
      ct_browse_excluded = None, ct_extra = ch_settings ch\<rparr>"

definition journal_content :: "journal_row \<Rightarrow> content_row" where
  "journal_content jo =
     \<lparr>ct_id = jo_journalid jo, ct_title = jo_title jo, ct_rating = jo_rating jo, ct_unixtime = jo_unixtime jo,
      ct_userid = jo_userid jo, ct_subtype = 3999, ct_hidden = jo_hidden jo, ct_friends_only = jo_friends_only jo,
      ct_browse_excluded = None, ct_extra = jo_content jo\<rparr>"

fun contents :: "post_kind \<Rightarrow> 'a content_db_scheme \<Rightarrow> content_row list" where
  "contents SubmitPost db = map submission_content (t_submission db)"
| "contents CharPost db = map character_content (t_character db)"
| "contents JournalPost db = map journal_content (t_journal db)"

fun searchmap_of :: "post_kind \<Rightarrow> 'a tags_db_scheme \<Rightarrow> searchmap_row list" where
  "searchmap_of SubmitPost db = t_searchmapsubmit db"
| "searchmap_of CharPost db = t_searchmapchar db"
| "searchmap_of JournalPost db = t_searchmapjournal db"

fun favorite_letter :: "post_kind \<Rightarrow> string" where
  "favorite_letter SubmitPost = ''s''"
| "favorite_letter CharPost = ''f''"
| "favorite_letter JournalPost = ''j''"

fun notify_types :: "post_kind \<Rightarrow> int list" where
  "notify_types SubmitPost = [2010, 2030]"
| "notify_types CharPost = [2050]"
| "notify_types JournalPost = [1010]"

text \<open>How many rows the join for \<open>within\<close> has for a post; \<open>None\<close> when there is no such join.\<close>

definition within_rows :: "int \<Rightarrow> string \<Rightarrow> post_kind \<Rightarrow> content_row \<Rightarrow> 'a tags_db_scheme \<Rightarrow> nat option" where
  "within_rows userid area kind c db =
     (if userid = 0 then None
      else if area = ''notify'' then
        Some (length (filter (\<lambda>we. we_targetid we = ct_id c \<and> we_userid we = userid
                                   \<and> we_type we \<in> set (notify_types kind)) (t_welcome db)))
      else if area = ''fave'' then
        Some (length (filter (\<lambda>fa. fa_targetid fa = ct_id c \<and> fa_userid fa = userid
                                   \<and> fa_type fa = favorite_letter kind) (t_favorite db)))
      else if area = ''friend'' then
        Some (length (filter (\<lambda>fu. fu_between userid (ct_userid c) fu \<and> \<not> fu_pending fu) (t_frienduser db)))
      else if area = ''follow'' then
        Some (length (filter (\<lambda>wu. wu_userid wu = userid \<and> wu_otherid wu = ct_userid c) (t_watchuser db)))
      else None)"

definition is_single_tag :: "int \<Rightarrow> resolved_query \<Rightarrow> bool" where
  "is_single_tag userid r =
     (userid = 0 \<and> card (r_required_includes r) = 1 \<and> r_possible_includes r = {} \<and> r_required_excludes r = {})"

definition is_global :: "int \<Rightarrow> string \<Rightarrow> resolved_query \<Rightarrow> bool" where
  "is_global userid area r =
     (\<not> (userid \<noteq> 0 \<and> area \<in> {''notify'', ''fave'', ''friend'', ''follow''}) \<and> r_required_user_includes r = {})"

definition blocked_ids :: "int \<Rightarrow> int \<Rightarrow> 'a tags_db_scheme \<Rightarrow> int set" where
  "blocked_ids userid rating db =
     set (map bt_tagid (filter (\<lambda>bt. bt_userid bt = userid \<and> bt_rating bt = rating) (t_blocktag db)))"

text \<open>The tags of a post in the two ways they are kept: \<open>submission_tags.tags\<close> and \<open>searchmap..\<close>.\<close>

definition tags_array :: "content_row \<Rightarrow> 'a tags_db_scheme \<Rightarrow> int list option" where
  "tags_array c db = map_option tg_tags (find (\<lambda>tg. tg_submitid tg = ct_id c) (t_submission_tags db))"

definition tagged_with :: "post_kind \<Rightarrow> content_row \<Rightarrow> int set \<Rightarrow> 'a tags_db_scheme \<Rightarrow> searchmap_row list" where
  "tagged_with kind c ids db =
     filter (\<lambda>sm. sm_targetid sm = ct_id c \<and> sm_tagid sm \<in> ids) (searchmap_of kind db)"

text \<open>The conditions on the tags, for submissions on the array \<open>tags\<close>, else on the map.\<close>

definition tags_where :: "int \<Rightarrow> resolved_query \<Rightarrow> int set \<Rightarrow> content_row \<Rightarrow> 'a tags_db_scheme \<Rightarrow> bool" where
  "tags_where userid r tags c db =
     (case r_find r of
        SubmitPost \<Rightarrow>
          (userid \<noteq> 0 \<longrightarrow>
             tags \<inter> blocked_ids userid 10 db = {}
             \<and> (ct_rating c < 30 \<or> tags \<inter> blocked_ids userid 30 db = {})
             \<and> (ct_rating c < 40 \<or> tags \<inter> blocked_ids userid 40 db = {}))
          \<and> (r_possible_includes r \<noteq> {} \<longrightarrow> tags \<inter> r_possible_includes r \<noteq> {})
          \<and> (r_required_excludes r \<noteq> {} \<longrightarrow> tags \<inter> r_required_excludes r = {})
      | kind \<Rightarrow>
          (userid \<noteq> 0 \<longrightarrow>
             \<not> exists_where (\<lambda>sm. sm_targetid sm = ct_id c
                 \<and> exists_where (\<lambda>bt. bt_tagid bt = sm_tagid sm \<and> bt_userid bt = userid \<and> bt_rating bt \<le> ct_rating c)
                     (t_blocktag db)) (searchmap_of kind db))
          \<and> (r_possible_includes r \<noteq> {} \<longrightarrow> tagged_with kind c (r_possible_includes r) db \<noteq> [])
          \<and> (r_required_excludes r \<noteq> {} \<longrightarrow> tagged_with kind c (r_required_excludes r) db = []))"

definition content_where ::
  "int \<Rightarrow> int \<Rightarrow> resolved_query \<Rightarrow> string \<Rightarrow> int \<Rightarrow> int \<Rightarrow> content_row \<Rightarrow> 'a tags_db_scheme \<Rightarrow> bool" where
  "content_where userid rating r area cat subcat c db =
     (ct_rating c \<le> rating \<and> \<not> ct_friends_only c \<and> \<not> ct_hidden c
      \<and> (r_find r = SubmitPost \<longrightarrow>
           (if subcat \<noteq> 0 then ct_subtype c = subcat
            else cat \<noteq> 0 \<longrightarrow> cat \<le> ct_subtype c \<and> ct_subtype c < cat + 1000))
      \<and> (userid \<noteq> 0 \<longrightarrow> (r_ratings r \<noteq> {} \<longrightarrow> ct_rating c \<in> r_ratings r) \<and> not_ignored userid (ct_userid c) db)
      \<and> (r_required_user_includes r \<noteq> {} \<longrightarrow> ct_userid c \<in> r_required_user_includes r)
      \<and> (r_required_user_excludes r \<noteq> {} \<longrightarrow> ct_userid c \<notin> r_required_user_excludes r)
      \<and> (is_global userid area r \<and> r_find r = SubmitPost \<longrightarrow> ct_browse_excluded c \<noteq> Some True))"

text \<open>How often the joins and conditions give a post, before the grouping.\<close>

definition joined_rows :: "int \<Rightarrow> int \<Rightarrow> resolved_query \<Rightarrow> string \<Rightarrow> int \<Rightarrow> int \<Rightarrow> content_row \<Rightarrow> 'a tags_db_scheme \<Rightarrow> nat" where
  "joined_rows userid rating r area cat subcat c db =
     (if content_where userid rating r area cat subcat c db then
        (if \<not> is_single_tag userid r \<and> r_find r = SubmitPost then
           (case tags_array c db of
              None \<Rightarrow> 0
            | Some tags \<Rightarrow>
                if r_required_includes r \<subseteq> set tags \<and> tags_where userid r (set tags) c db then 1 else 0)
         else if tags_where userid r {} c db then
           (if r_required_includes r = {} then 1 else length (tagged_with (r_find r) c (r_required_includes r) db))
         else 0)
        * (case within_rows userid area (r_find r) c db of None \<Rightarrow> 1 | Some n \<Rightarrow> n)
      else 0)"

text \<open>\<open>GROUP BY .. HAVING COUNT(searchmap.tagid) = required_include_count\<close>.\<close>

definition is_grouped :: "int \<Rightarrow> resolved_query \<Rightarrow> bool" where
  "is_grouped userid r = (\<not> is_single_tag userid r \<and> r_find r \<noteq> SubmitPost \<and> r_required_includes r \<noteq> {})"

definition result_rows :: "int \<Rightarrow> int \<Rightarrow> resolved_query \<Rightarrow> string \<Rightarrow> int \<Rightarrow> int \<Rightarrow> content_row \<Rightarrow> 'a tags_db_scheme \<Rightarrow> nat" where
  "result_rows userid rating r area cat subcat c db =
     (let n = joined_rows userid rating r area cat subcat c db
      in if is_grouped userid r then (if n = card (r_required_includes r) then 1 else 0) else n)"

definition search_rows_in ::
  "content_row list \<Rightarrow> int \<Rightarrow> int \<Rightarrow> resolved_query \<Rightarrow> string \<Rightarrow> int \<Rightarrow> int \<Rightarrow> 'a tags_db_scheme
     \<Rightarrow> (content_row \<times> string) list" where
  "search_rows_in table userid rating r area cat subcat db =
     concat (map (\<lambda>c. case username_of (ct_userid c) db of
                        None \<Rightarrow> []
                      | Some name \<Rightarrow> replicate (result_rows userid rating r area cat subcat c db) (c, name)) table)"

definition search_rows ::
  "int \<Rightarrow> int \<Rightarrow> resolved_query \<Rightarrow> string \<Rightarrow> int \<Rightarrow> int \<Rightarrow> 'a tags_db_scheme \<Rightarrow> (content_row \<times> string) list" where
  "search_rows userid rating r area cat subcat db =
     search_rows_in (contents (r_find r) db) userid rating r area cat subcat db"

subsection \<open>Pages and counts\<close>

definition find_without_media ::
  "int \<Rightarrow> int \<Rightarrow> nat \<Rightarrow> resolved_query \<Rightarrow> string \<Rightarrow> int \<Rightarrow> int \<Rightarrow> page_filter \<Rightarrow> 'a tags_db_scheme
     \<Rightarrow> (content_row \<times> string) list \<times> page_filter option \<times> page_filter option" where
  "find_without_media userid rating limit r area cat subcat page db =
     browse (\<lambda>(c, _). ct_id c) limit page (search_rows userid rating r area cat subcat db)"

text \<open>
  \<open>sampled percent c\<close> says whether \<open>TABLESAMPLE SYSTEM (percent) REPEATABLE (0)\<close> has the row \<open>c\<close>; the same
  argument gives the same sample. A round counts at most \<open>limit\<close> posts and names the place to go on from.
\<close>

definition count_round ::
  "(int \<Rightarrow> content_row \<Rightarrow> bool) \<Rightarrow> int \<Rightarrow> nat \<Rightarrow> page_filter \<Rightarrow> int \<Rightarrow> int \<Rightarrow> resolved_query \<Rightarrow> string \<Rightarrow> int \<Rightarrow> int
     \<Rightarrow> 'a tags_db_scheme \<Rightarrow> int list" where
  "count_round sampled percent limit page userid rating r area cat subcat db =
     (let table = contents (r_find r) db;
          table = (if percent < 100 then filter (sampled percent) table else table);
          ids = map (\<lambda>(c, _). ct_id c) (search_rows_in table userid rating r area cat subcat db);
          ids = filter (page_bounds id page) ids
      in take limit (if is_back page then sort ids else rev (sort ids)))"

fun continue_page :: "page_filter \<Rightarrow> int list \<Rightarrow> page_filter" where
  "continue_page (PrevFilter backid) ids = PrevFilter (Max (set ids))"
| "continue_page (NextFilter nextid) ids = NextFilter (Min (set ids))"
| "continue_page FIRST_PAGE ids = FIRST_PAGE"

fun count_rounds ::
  "(int \<Rightarrow> nat \<Rightarrow> page_filter \<Rightarrow> int list) \<Rightarrow> int list \<Rightarrow> nat \<Rightarrow> page_filter \<Rightarrow> int" where
  "count_rounds round_ids [] count_limit page = 0"
| "count_rounds round_ids (percent # percents) count_limit page =
     (let ids = round_ids percent count_limit page
      in int (length ids) * (100 div percent)
         + (if length ids < count_limit then 0 else count_rounds round_ids percents 90 (continue_page page ids)))"

definition search_select_count ::
  "(int \<Rightarrow> content_row \<Rightarrow> bool) \<Rightarrow> page_filter \<Rightarrow> int \<Rightarrow> int \<Rightarrow> resolved_query \<Rightarrow> string \<Rightarrow> int \<Rightarrow> int
     \<Rightarrow> 'a tags_db_scheme \<Rightarrow> int result" where
  "search_select_count sampled page userid rating r area cat subcat db =
     (if page = FIRST_PAGE then Inl TypeError
      else Inr (count_rounds (\<lambda>percent limit page.
                  count_round sampled percent limit page userid rating r area cat subcat db) [100, 10, 1] 100 page))"

text \<open>\<open>browse\<close> of \<^verbatim>\<open>search.py\<close>; \<open>q\<close> holds the category and the filter of critique requests.\<close>

datatype browse_page =
    CharacterPage "(character_row \<times> string) list \<times> page_filter option \<times> page_filter option"
  | JournalPage "(journal_row \<times> string) list \<times> page_filter option \<times> page_filter option"
  | SubmissionPage "(submission_row \<times> string) list \<times> page_filter option \<times> page_filter option"

definition search_browse ::
  "bool \<Rightarrow> int \<Rightarrow> int \<Rightarrow> nat \<Rightarrow> string \<Rightarrow> int \<Rightarrow> page_filter \<Rightarrow> 'a tags_db_scheme \<Rightarrow> browse_page" where
  "search_browse sfw_mode userid rating limit sought cat page db =
     (if sought = ''char'' then CharacterPage (character_select_page sfw_mode userid rating limit page db)
      else if sought = ''journal'' then JournalPage (journal_select_browse_page sfw_mode userid rating limit page db)
      else SubmissionPage (submission_page_rows id sfw_mode userid rating limit
        \<lparr>sq_otherid = 0, sq_folderid = 0, sq_subcat = cat, sq_profile_page_filter = False, sq_index_page_filter = False,
         sq_featured_filter = False, sq_critique_only = (sought = ''critique'')\<rparr> page db))"

subsection \<open>The search page and its counts\<close>

definition find_param :: "string \<Rightarrow> search_type option" where
  "find_param sought = map_of [(''submit'', FindPost SubmitPost), (''char'', FindPost CharPost),
     (''journal'', FindPost JournalPost), (''user'', FindUser)] sought"

definition with_ratings :: "char list \<Rightarrow> search_query \<Rightarrow> search_query" where
  "with_ratings rated q =
     q\<lparr>q_ratings := q_ratings q \<union> set (List.map_filter (\<lambda>c. map_option rating_code (CHARACTER_MAP c)) rated)\<rparr>"

datatype search_results =
    UserResults
  | PostResults "(content_row \<times> string) list" "page_filter option" "page_filter option"

text \<open>
  \<open>search_\<close> of \<^verbatim>\<open>controllers/general.py\<close> up to the title of the page; the numbers of the address are given as \<open>int\<close>, 0
  for none. The users of a search for users are found by another query.
\<close>

definition search_page ::
  "(ustr \<Rightarrow> ustr) \<Rightarrow> (ustr \<Rightarrow> ustr) \<Rightarrow> bool \<Rightarrow> int \<Rightarrow> ustr \<Rightarrow> string \<Rightarrow> string \<Rightarrow> char list \<Rightarrow> int \<Rightarrow> int \<Rightarrow> int \<Rightarrow> int
     \<Rightarrow> 'a tags_db_scheme \<Rightarrow> (search_query \<times> search_results) result \<times> 'a tags_db_scheme" where
  "search_page lower nfkd sfw_mode userid q sought area rated cat subcat backid nextid db =
     and_then (get_rating sfw_mode userid db) (\<lambda>rating db.
       let sought = (case find_param sought of None \<Rightarrow> FindPost SubmitPost | Some f \<Rightarrow> f);
           area = (if userid = 0 \<or> area \<notin> {[], ''notify'', ''fave'', ''friend'', ''follow''} then [] else area);
           (cat, subcat) = (if sought \<noteq> FindPost SubmitPost then (0, 0) else (cat, subcat))
       in (case query_parse lower nfkd q sought of
            Inl e \<Rightarrow> (Inl e, db)
          | Inr search_query \<Rightarrow>
              if q_find search_query = Some FindUser then (Inr (search_query, UserResults), db)
              else
                (let search_query = with_ratings rated search_query;
                     search_query = (if card (q_ratings search_query) = length ALL_RATINGS
                                     then search_query\<lparr>q_ratings := {}\<rparr> else search_query)
                 in and_then (resolve_search lower nfkd search_query db) (\<lambda>resolved db.
                      case resolved of
                        None \<Rightarrow> (Inr (search_query, PostResults [] None None), db)
                      | Some r \<Rightarrow>
                          (let page = page_from_compat backid nextid;
                               (query, prev_page, next_page) =
                                 find_without_media userid rating 63 r area cat subcat page db
                           in (Inr (search_query, PostResults query prev_page next_page), db))))))"

text \<open>\<^verbatim>\<open>controllers/search.py\<close>: how many results are on the pages before and after.\<close>

definition count_from ::
  "(int \<Rightarrow> content_row \<Rightarrow> bool) \<Rightarrow> (int \<Rightarrow> page_filter) \<Rightarrow> bool \<Rightarrow> int \<Rightarrow> resolved_query \<Rightarrow> string \<Rightarrow> int \<Rightarrow> int
     \<Rightarrow> ustr option \<Rightarrow> 'a tags_db_scheme \<Rightarrow> int option result \<times> 'a tags_db_scheme" where
  "count_from sampled filter_of sfw_mode userid r area cat subcat anchor db =
     (case anchor of
        None \<Rightarrow> (Inr None, db)
      | Some s \<Rightarrow>
          (case expect_id s of
             Inl e \<Rightarrow> (Inl e, db)
           | Inr i \<Rightarrow>
               and_then (get_rating sfw_mode userid db) (\<lambda>rating db.
                 (map_sum id Some (search_select_count sampled (filter_of i) userid rating r area cat subcat db), db))))"

definition navigation_counts ::
  "(ustr \<Rightarrow> ustr) \<Rightarrow> (ustr \<Rightarrow> ustr) \<Rightarrow> (int \<Rightarrow> content_row \<Rightarrow> bool) \<Rightarrow> bool \<Rightarrow> int \<Rightarrow> ustr \<Rightarrow> search_type \<Rightarrow> string \<Rightarrow> char list
     \<Rightarrow> int \<Rightarrow> int \<Rightarrow> ustr option \<Rightarrow> ustr option \<Rightarrow> 'a tags_db_scheme
     \<Rightarrow> (int option \<times> int option) result \<times> 'a tags_db_scheme" where
  "navigation_counts lower nfkd sampled sfw_mode userid q sought area rated cat subcat backid nextid db =
     (case query_parse lower nfkd q sought of
        Inl e \<Rightarrow> (Inl e, db)
      | Inr query \<Rightarrow>
          and_then (resolve_search lower nfkd (with_ratings rated query) db) (\<lambda>resolved db.
            case resolved of
              None \<Rightarrow> (Inr (Some 0, Some 0), db)
            | Some r \<Rightarrow>
                and_then (count_from sampled PrevFilter sfw_mode userid r area cat subcat backid db) (\<lambda>back_count db.
                  and_then (count_from sampled NextFilter sfw_mode userid r area cat subcat nextid db) (\<lambda>next_count db.
                    (Inr (next_count, back_count), db)))))"

end
