(* ===== verification/Search_Laws.thy ===== *)
theory Search_Laws
  imports Search
begin

text \<open>
  What a search finds. The statement asks for tags in three ways: a submission by its array of tags, a character or
  a journal by counting the rows of the map that match, and one tag for a guest by the map alone. All three find the
  posts one specification names (\<open>search_matches\<close>), which knows the map of tags only, and each once. The parsed
  text of a search and the text made of it again are the same query.
\<close>

subsection \<open>The specification\<close>

definition post_tags :: "post_kind \<Rightarrow> content_row \<Rightarrow> 'a tags_db_scheme \<Rightarrow> int set" where
  "post_tags kind c db = sm_tagid ` {sm \<in> set (searchmap_of kind db). sm_targetid sm = ct_id c}"

definition open_to :: "int \<Rightarrow> int \<Rightarrow> post_kind \<Rightarrow> content_row \<Rightarrow> 'a tags_db_scheme \<Rightarrow> bool" where
  "open_to userid rating kind c db =
     (ct_rating c \<le> rating \<and> \<not> ct_hidden c \<and> \<not> ct_friends_only c
      \<and> (userid \<noteq> 0 \<longrightarrow> not_ignored userid (ct_userid c) db
                      \<and> no_blocked_tag (searchmap_of kind db) userid (ct_id c) (ct_rating c) db))"

definition asked_for :: "resolved_query \<Rightarrow> content_row \<Rightarrow> 'a tags_db_scheme \<Rightarrow> bool" where
  "asked_for r c db =
     (let tags = post_tags (r_find r) c db
      in r_required_includes r \<subseteq> tags
         \<and> (r_possible_includes r = {} \<or> r_possible_includes r \<inter> tags \<noteq> {})
         \<and> r_required_excludes r \<inter> tags = {}
         \<and> (r_required_user_includes r = {} \<or> ct_userid c \<in> r_required_user_includes r)
         \<and> ct_userid c \<notin> r_required_user_excludes r)"

definition in_category :: "int \<Rightarrow> int \<Rightarrow> content_row \<Rightarrow> bool" where
  "in_category cat subcat c =
     (if subcat \<noteq> 0 then ct_subtype c = subcat else cat = 0 \<or> cat \<le> ct_subtype c \<and> ct_subtype c < cat + 1000)"

definition in_area :: "int \<Rightarrow> string \<Rightarrow> post_kind \<Rightarrow> content_row \<Rightarrow> 'a tags_db_scheme \<Rightarrow> bool" where
  "in_area userid area kind c db = (within_rows userid area kind c db \<noteq> Some 0)"

definition search_matches ::
  "int \<Rightarrow> int \<Rightarrow> resolved_query \<Rightarrow> string \<Rightarrow> int \<Rightarrow> int \<Rightarrow> content_row \<Rightarrow> 'a tags_db_scheme \<Rightarrow> bool" where
  "search_matches userid rating r area cat subcat c db =
     (open_to userid rating (r_find r) c db \<and> asked_for r c db \<and> in_area userid area (r_find r) c db
      \<and> (userid \<noteq> 0 \<longrightarrow> r_ratings r = {} \<or> ct_rating c \<in> r_ratings r)
      \<and> (r_find r = SubmitPost \<longrightarrow> in_category cat subcat c
           \<and> (is_global userid area r \<longrightarrow> ct_browse_excluded c \<noteq> Some True)))"

text \<open>The tables as the other modules keep them, and the array of tags in step with the map.\<close>

definition tags_in_step :: "'a tags_db_scheme \<Rightarrow> bool" where
  "tags_in_step db \<longleftrightarrow>
     (\<forall>su \<in> set (t_submission db).
        map_option set (tags_array (submission_content su) db) = Some (post_tags SubmitPost (submission_content su) db))"

definition search_store_ok :: "'a tags_db_scheme \<Rightarrow> bool" where
  "search_store_ok db \<longleftrightarrow>
     posts_ok db \<and> tags_in_step db
     \<and> (\<forall>kind \<in> {CharPost, JournalPost, SubmitPost}. distinct (map (\<lambda>sm. (sm_tagid sm, sm_targetid sm)) (searchmap_of kind db)))
     \<and> (\<forall>bt \<in> set (t_blocktag db). bt_rating bt \<in> {10, 30, 40})
     \<and> (\<forall>su \<in> set (t_submission db). 10 \<le> su_rating su)
     \<and> distinct (map (\<lambda>fa. (fa_userid fa, fa_targetid fa, fa_type fa)) (t_favorite db))
     \<and> distinct (map (\<lambda>wu. (wu_userid wu, wu_otherid wu)) (t_watchuser db))
     \<and> distinct (map (\<lambda>fu. {fu_userid fu, fu_otherid fu}) (t_frienduser db))"

definition notified_once :: "post_kind \<Rightarrow> 'a tags_db_scheme \<Rightarrow> bool" where
  "notified_once kind db \<longleftrightarrow>
     distinct (map (\<lambda>we. (we_userid we, we_targetid we)) (filter (\<lambda>we. we_type we \<in> set (notify_types kind)) (t_welcome db)))"

subsection \<open>Counting the rows of the joins\<close>

lemma length_filter_unique:
  assumes "distinct (map key rows)"
  shows "length (filter (\<lambda>r. key r = k \<and> P r) rows) \<le> 1"
proof -
  let ?keys = "map key (filter (\<lambda>r. key r = k \<and> P r) rows)"
  have "length ?keys = card (set ?keys)"
    using assms distinct_card [of ?keys] by (simp add: distinct_map_filter)
  also have "\<dots> \<le> card {k}" by (rule card_mono) auto
  finally show ?thesis by simp
qed

lemma within_at_most_once:
  assumes "search_store_ok db" "area = ''notify'' \<longrightarrow> notified_once kind db" "within_rows userid area kind c db = Some n"
  shows "n \<le> 1"
proof -
  have "length (filter (\<lambda>we. we_targetid we = ct_id c \<and> we_userid we = userid \<and> we_type we \<in> set (notify_types kind)) (t_welcome db)) \<le> 1"
    if "area = ''notify''"
    using length_filter_unique [of "\<lambda>we. (we_userid we, we_targetid we)"
        "filter (\<lambda>we. we_type we \<in> set (notify_types kind)) (t_welcome db)" "(userid, ct_id c)" "\<lambda>_. True"] assms(2) that
    by (simp add: notified_once_def conj_ac)
  moreover have "length (filter (\<lambda>fa. fa_targetid fa = ct_id c \<and> fa_userid fa = userid \<and> fa_type fa = favorite_letter kind) (t_favorite db)) \<le> 1"
    using length_filter_unique [of "\<lambda>fa. (fa_userid fa, fa_targetid fa, fa_type fa)" "t_favorite db"
        "(userid, ct_id c, favorite_letter kind)" "\<lambda>_. True"] assms(1) by (simp add: search_store_ok_def conj_ac)
  moreover have "length (filter (\<lambda>wu. wu_userid wu = userid \<and> wu_otherid wu = ct_userid c) (t_watchuser db)) \<le> 1"
    using length_filter_unique [of "\<lambda>wu. (wu_userid wu, wu_otherid wu)" "t_watchuser db" "(userid, ct_userid c)" "\<lambda>_. True"]
      assms(1) by (simp add: search_store_ok_def conj_ac)
  moreover have "length (filter (\<lambda>fu. fu_between userid (ct_userid c) fu \<and> \<not> fu_pending fu) (t_frienduser db)) \<le> 1"
    using length_filter_unique [of "\<lambda>fu. {fu_userid fu, fu_otherid fu}" "t_frienduser db" "{userid, ct_userid c}" "\<lambda>fu. \<not> fu_pending fu"]
      assms(1) by (simp add: search_store_ok_def fu_between_def doubleton_eq_iff conj_ac disj_ac eq_commute)
  ultimately show ?thesis
    using assms(3) by (auto simp: within_rows_def split: if_splits)
qed


lemma distinct_searchmap:
  "search_store_ok db \<Longrightarrow> distinct (map (\<lambda>sm. (sm_tagid sm, sm_targetid sm)) (searchmap_of kind db))"
  by (cases kind) (simp_all add: search_store_ok_def)

lemma tags_of_tagged: "sm_tagid ` set (tagged_with kind c ids db) = ids \<inter> post_tags kind c db"
  by (auto simp: tagged_with_def post_tags_def)

lemma length_tagged:
  assumes "search_store_ok db"
  shows "length (tagged_with kind c ids db) = card (ids \<inter> post_tags kind c db)"
proof -
  have "inj_on (\<lambda>sm. (sm_tagid sm, sm_targetid sm)) (set (searchmap_of kind db))" "distinct (searchmap_of kind db)"
    using distinct_searchmap [OF assms, of kind] by (simp_all add: distinct_map)
  then have "inj_on sm_tagid (set (tagged_with kind c ids db))" "distinct (tagged_with kind c ids db)"
    by (auto simp: tagged_with_def inj_on_def)
  then have "length (tagged_with kind c ids db) = card (sm_tagid ` set (tagged_with kind c ids db))"
    by (simp add: card_image distinct_card)
  then show ?thesis by (simp add: tags_of_tagged)
qed

lemma tagged_none: "tagged_with kind c ids db = [] \<longleftrightarrow> ids \<inter> post_tags kind c db = {}"
  by (metis image_is_empty set_empty tags_of_tagged)

lemma tags_array_in_step:
  assumes "search_store_ok db" "c \<in> set (contents SubmitPost db)"
  obtains tags where "tags_array c db = Some tags" "set tags = post_tags SubmitPost c db"
  using assms by (force simp: search_store_ok_def tags_in_step_def)

lemma tags_where_submit:
  assumes "search_store_ok db" "c \<in> set (contents SubmitPost db)" "r_find r = SubmitPost"
  shows "tags_where userid r (post_tags SubmitPost c db) c db
    = ((userid \<noteq> 0 \<longrightarrow> no_blocked_tag (searchmap_of SubmitPost db) userid (ct_id c) (ct_rating c) db)
       \<and> (r_possible_includes r = {} \<or> r_possible_includes r \<inter> post_tags SubmitPost c db \<noteq> {})
       \<and> r_required_excludes r \<inter> post_tags SubmitPost c db = {})"
proof -
  let ?tags = "post_tags SubmitPost c db"
  have ratings: "10 \<le> ct_rating c" "\<And>bt. bt \<in> set (t_blocktag db) \<Longrightarrow> bt_rating bt = 10 \<or> bt_rating bt = 30 \<or> bt_rating bt = 40"
    using assms(1,2) by (auto simp: search_store_ok_def submission_content_def)
  have "(?tags \<inter> blocked_ids userid 10 db = {} \<and> (ct_rating c < 30 \<or> ?tags \<inter> blocked_ids userid 30 db = {})
       \<and> (ct_rating c < 40 \<or> ?tags \<inter> blocked_ids userid 40 db = {}))
    \<longleftrightarrow> \<not> (\<exists>t \<in> ?tags. \<exists>bt \<in> set (t_blocktag db). bt_userid bt = userid \<and> bt_tagid bt = t \<and> bt_rating bt \<le> ct_rating c)"
    using ratings by (fastforce simp: blocked_ids_def)
  also have "\<dots> \<longleftrightarrow> no_blocked_tag (searchmap_of SubmitPost db) userid (ct_id c) (ct_rating c) db"
    by (auto simp: no_blocked_tag_def blocked_tag_def exists_where_iff post_tags_def)
  finally have "(?tags \<inter> blocked_ids userid 10 db = {} \<and> (ct_rating c < 30 \<or> ?tags \<inter> blocked_ids userid 30 db = {})
       \<and> (ct_rating c < 40 \<or> ?tags \<inter> blocked_ids userid 40 db = {}))
    \<longleftrightarrow> no_blocked_tag (searchmap_of SubmitPost db) userid (ct_id c) (ct_rating c) db" .
  with assms(3) show ?thesis by (auto simp: tags_where_def)
qed

lemma tags_where_other:
  "r_find r \<noteq> SubmitPost \<Longrightarrow> tags_where userid r tags c db
    = ((userid \<noteq> 0 \<longrightarrow> no_blocked_tag (searchmap_of (r_find r) db) userid (ct_id c) (ct_rating c) db)
       \<and> (r_possible_includes r = {} \<or> r_possible_includes r \<inter> post_tags (r_find r) c db \<noteq> {})
       \<and> r_required_excludes r \<inter> post_tags (r_find r) c db = {})"
  by (cases "r_find r") (auto simp: tags_where_def tagged_none no_blocked_tag_def blocked_tag_def exists_where_iff)

lemma tags_where_guest:
  "is_single_tag userid r \<Longrightarrow> tags_where userid r tags c db"
  by (cases "r_find r") (auto simp: tags_where_def is_single_tag_def)

subsection \<open>Every post once, and the right ones\<close>

lemma content_where_iff:
  "content_where userid rating r area cat subcat c db \<longleftrightarrow>
     ct_rating c \<le> rating \<and> \<not> ct_hidden c \<and> \<not> ct_friends_only c
     \<and> (userid \<noteq> 0 \<longrightarrow> not_ignored userid (ct_userid c) db \<and> (r_ratings r = {} \<or> ct_rating c \<in> r_ratings r))
     \<and> (r_required_user_includes r = {} \<or> ct_userid c \<in> r_required_user_includes r)
     \<and> ct_userid c \<notin> r_required_user_excludes r
     \<and> (r_find r = SubmitPost \<longrightarrow> in_category cat subcat c \<and> (is_global userid area r \<longrightarrow> ct_browse_excluded c \<noteq> Some True))"
  by (auto simp: content_where_def in_category_def)

definition tags_match :: "int \<Rightarrow> resolved_query \<Rightarrow> content_row \<Rightarrow> 'a tags_db_scheme \<Rightarrow> bool" where
  "tags_match userid r c db =
     ((userid \<noteq> 0 \<longrightarrow> no_blocked_tag (searchmap_of (r_find r) db) userid (ct_id c) (ct_rating c) db)
      \<and> r_required_includes r \<subseteq> post_tags (r_find r) c db
      \<and> (r_possible_includes r = {} \<or> r_possible_includes r \<inter> post_tags (r_find r) c db \<noteq> {})
      \<and> r_required_excludes r \<inter> post_tags (r_find r) c db = {})"

lemma search_matches_iff:
  "search_matches userid rating r area cat subcat c db \<longleftrightarrow>
     content_where userid rating r area cat subcat c db \<and> tags_match userid r c db \<and> in_area userid area (r_find r) c db"
  by (auto simp: search_matches_def open_to_def asked_for_def Let_def content_where_iff tags_match_def)

lemma subset_by_card: "finite A \<Longrightarrow> card (A \<inter> B) = card A \<longleftrightarrow> A \<subseteq> B"
  by (metis Int_lower1 card_subset_eq inf.absorb_iff1)

lemma required_count:
  assumes "search_store_ok db" "finite (r_required_includes r)"
  shows "length (tagged_with (r_find r) c (r_required_includes r) db) = card (r_required_includes r)
     \<longleftrightarrow> r_required_includes r \<subseteq> post_tags (r_find r) c db"
  by (simp add: length_tagged [OF assms(1)] subset_by_card [OF assms(2)])

text \<open>The rows of a post apart from those of the \<open>within\<close> join.\<close>

definition tag_rows :: "int \<Rightarrow> resolved_query \<Rightarrow> content_row \<Rightarrow> 'a tags_db_scheme \<Rightarrow> nat" where
  "tag_rows userid r c db =
     (if \<not> is_single_tag userid r \<and> r_find r = SubmitPost then
        (case tags_array c db of
           None \<Rightarrow> 0
         | Some tags \<Rightarrow>
             if r_required_includes r \<subseteq> set tags \<and> tags_where userid r (set tags) c db then 1 else 0)
      else if tags_where userid r {} c db then
        (if r_required_includes r = {} then 1 else length (tagged_with (r_find r) c (r_required_includes r) db))
      else 0)"

lemma joined_rows_eq:
  "joined_rows userid rating r area cat subcat c db =
     (if content_where userid rating r area cat subcat c db
      then tag_rows userid r c db * (case within_rows userid area (r_find r) c db of None \<Rightarrow> 1 | Some n \<Rightarrow> n) else 0)"
  by (simp add: joined_rows_def tag_rows_def)

lemma tag_rows_array:
  assumes "search_store_ok db" "c \<in> set (contents (r_find r) db)" "\<not> is_single_tag userid r" "r_find r = SubmitPost"
  shows "tag_rows userid r c db = (if tags_match userid r c db then 1 else 0)"
proof -
  obtain tags where tags: "tags_array c db = Some tags" "set tags = post_tags SubmitPost c db"
    using tags_array_in_step [OF assms(1)] assms(2,4) by metis
  show ?thesis
    using assms tags tags_where_submit [OF assms(1) _ assms(4)] by (auto simp: tag_rows_def tags_match_def)
qed

lemma tag_rows_single:
  assumes "search_store_ok db" "is_single_tag userid r"
  shows "tag_rows userid r c db = (if tags_match userid r c db then 1 else 0)"
proof -
  from assms(2) have r: "userid = 0" "card (r_required_includes r) = 1" "r_possible_includes r = {}" "r_required_excludes r = {}"
    by (auto simp: is_single_tag_def)
  then obtain t where t: "r_required_includes r = {t}" by (auto simp: card_1_singleton_iff)
  show ?thesis
    using assms(2) r t tags_where_guest [OF assms(2), of "{}" c db]
    by (simp add: tag_rows_def tags_match_def length_tagged [OF assms(1)])
qed

lemma tag_rows_grouped:
  assumes "search_store_ok db" "finite (r_required_includes r)" "is_grouped userid r"
  shows "tag_rows userid r c db = card (r_required_includes r) \<longleftrightarrow> tags_match userid r c db"
    and "0 < card (r_required_includes r)"
proof -
  from assms(3) have r: "r_find r \<noteq> SubmitPost" "r_required_includes r \<noteq> {}"
    by (simp_all add: is_grouped_def)
  with assms(2) show pos: "0 < card (r_required_includes r)" by (simp add: card_gt_0_iff)
  show "tag_rows userid r c db = card (r_required_includes r) \<longleftrightarrow> tags_match userid r c db"
    using pos r required_count [OF assms(1,2)] by (auto simp: tag_rows_def tags_match_def tags_where_other)
qed

lemma tag_rows_free:
  assumes "r_find r \<noteq> SubmitPost" "r_required_includes r = {}"
  shows "tag_rows userid r c db = (if tags_match userid r c db then 1 else 0)"
  using assms by (simp add: tag_rows_def tags_match_def tags_where_other)

lemma result_rows_iff:
  assumes ok: "search_store_ok db" "finite (r_required_includes r)" "area = ''notify'' \<longrightarrow> notified_once (r_find r) db"
    and c: "c \<in> set (contents (r_find r) db)"
  shows "result_rows userid rating r area cat subcat c db
    = (if search_matches userid rating r area cat subcat c db then 1 else 0)"
proof -
  define k where "k = (case within_rows userid area (r_find r) c db of None \<Rightarrow> 1 | Some n \<Rightarrow> n)"
  have k: "k = (if in_area userid area (r_find r) c db then 1 else 0)"
  proof (cases "within_rows userid area (r_find r) c db")
    case (Some n)
    with within_at_most_once [OF ok(1,3)] have "n \<le> 1" by blast
    with Some show ?thesis by (simp add: k_def in_area_def)
  qed (simp add: k_def in_area_def)
  show ?thesis
  proof (cases "is_grouped userid r")
    case True
    with tag_rows_grouped [OF ok(1,2) True] show ?thesis
      by (simp add: result_rows_def joined_rows_eq flip: k_def) (simp add: k search_matches_iff)
  next
    case False
    then have "tag_rows userid r c db = (if tags_match userid r c db then 1 else 0)"
      using tag_rows_array [OF ok(1) c] tag_rows_single [OF ok(1)] tag_rows_free by (metis is_grouped_def)
    with False show ?thesis
      by (simp add: result_rows_def joined_rows_eq flip: k_def) (simp add: k search_matches_iff)
  qed
qed

lemma search_rows_eq:
  assumes "search_store_ok db" "finite (r_required_includes r)" "area = ''notify'' \<longrightarrow> notified_once (r_find r) db"
  shows "search_rows userid rating r area cat subcat db =
     List.map_filter (\<lambda>c. if search_matches userid rating r area cat subcat c db
                          then map_option (Pair c) (username_of (ct_userid c) db) else None) (contents (r_find r) db)"
proof -
  have "concat (map (\<lambda>c. case username_of (ct_userid c) db of None \<Rightarrow> []
                 | Some name \<Rightarrow> replicate (result_rows userid rating r area cat subcat c db) (c, name)) cs)
      = List.map_filter (\<lambda>c. if search_matches userid rating r area cat subcat c db
                          then map_option (Pair c) (username_of (ct_userid c) db) else None) cs"
    if "set cs \<subseteq> set (contents (r_find r) db)" for cs
    using that by (induction cs) (auto simp: result_rows_iff [OF assms] split: option.split)
  then show ?thesis by (simp add: search_rows_def search_rows_in_def)
qed

lemma in_search_rows:
  assumes "search_store_ok db" "finite (r_required_includes r)" "area = ''notify'' \<longrightarrow> notified_once (r_find r) db"
  shows "(c, name) \<in> set (search_rows userid rating r area cat subcat db) \<longleftrightarrow>
    c \<in> set (contents (r_find r) db) \<and> username_of (ct_userid c) db = Some name \<and> search_matches userid rating r area cat subcat c db"
  unfolding search_rows_eq [OF assms] by (auto simp: in_map_filter split: if_splits)

lemma distinct_contents:
  "posts_ok db \<Longrightarrow> distinct (map ct_id (contents kind db))"
  by (cases kind) (simp_all add: posts_ok_def submission_content_def character_content_def journal_content_def comp_def)

lemma distinct_search_rows:
  assumes "search_store_ok db" "finite (r_required_includes r)" "area = ''notify'' \<longrightarrow> notified_once (r_find r) db"
  shows "distinct (map (\<lambda>(c, _). ct_id c) (search_rows userid rating r area cat subcat db))"
proof -
  have filtered: "distinct (map (\<lambda>(c, _). ct_id c) (List.map_filter (\<lambda>c. if P c then map_option (Pair c) (f c) else None) cs))"
    if "distinct (map ct_id cs)" for P cs and f :: "content_row \<Rightarrow> string option"
    using that by (induction cs) (auto simp: in_map_filter image_iff split: option.split if_splits)
  have "distinct (map ct_id (contents (r_find r) db))"
    using assms(1) by (simp add: search_store_ok_def distinct_contents)
  then show ?thesis unfolding search_rows_eq [OF assms] by (rule filtered)
qed

text \<open>
  C6: A search finds what it asks for. In a well-kept store (and for the notifications, when each post was notified
  once) the rows of the statement are the posts that match the
  specification, each once: posts open to the viewer, with all required tags, at least one of the possible ones and
  none of the excluded, by the right users, in the right category, rating and area. So the array of tags, the counting
  of rows of the map, and the quick way for one tag give the same answers.
\<close>
theorem search_finds:
  assumes "search_store_ok db" "finite (r_required_includes r)" "area = ''notify'' \<longrightarrow> notified_once (r_find r) db"
  shows "search_rows userid rating r area cat subcat db =
     List.map_filter (\<lambda>c. if search_matches userid rating r area cat subcat c db
                          then map_option (Pair c) (username_of (ct_userid c) db) else None) (contents (r_find r) db)"
  by (rule search_rows_eq [OF assms])

text \<open>The site of the examples of posts with the array of its submission's tags: \<open>red\<close> and \<open>fox\<close>.\<close>

definition search_db :: tags_db where
  "search_db = posts_db\<lparr>t_submission_tags := [\<lparr>tg_submitid = 5, tg_tags = [1, 2]\<rparr>]\<rparr>"

definition tag_search :: "post_kind \<Rightarrow> int set \<Rightarrow> resolved_query" where
  "tag_search kind tags =
     \<lparr>r_possible_includes = {}, r_required_includes = tags, r_required_excludes = {}, r_required_user_includes = {},
      r_required_user_excludes = {}, r_ratings = {}, r_find = kind\<rparr>"

lemma search_db_ok: "search_store_ok search_db"
  by code_simp

theorem search_finds_witness:
  "map (\<lambda>(c, name). (ct_id c, name)) (search_rows 1 40 (tag_search SubmitPost {1, 2}) [] 0 0 search_db) = [(5, ''ann'')]
   \<and> search_rows 2 40 (tag_search SubmitPost {1}) [] 0 0 search_db = []"
proof -
  have "search_rows 1 40 (tag_search SubmitPost {1, 2}) [] 0 0 search_db =
      List.map_filter (\<lambda>c. if search_matches 1 40 (tag_search SubmitPost {1, 2}) [] 0 0 c search_db
        then map_option (Pair c) (username_of (ct_userid c) search_db) else None) (contents (r_find (tag_search SubmitPost {1, 2})) search_db)"
    by (rule search_finds [OF search_db_ok]) (simp_all add: tag_search_def)
  moreover have "search_rows 2 40 (tag_search SubmitPost {1}) [] 0 0 search_db =
      List.map_filter (\<lambda>c. if search_matches 2 40 (tag_search SubmitPost {1}) [] 0 0 c search_db
        then map_option (Pair c) (username_of (ct_userid c) search_db) else None) (contents (r_find (tag_search SubmitPost {1})) search_db)"
    by (rule search_finds [OF search_db_ok]) (simp_all add: tag_search_def)
  ultimately show ?thesis by code_simp
qed


subsection \<open>Results can be opened\<close>

lemma open_journal:
  assumes "posts_ok db" "userid \<notin> MODS st" "jo \<in> set (t_journal db)" "open_to userid rating JournalPost (journal_content jo) db"
  shows "check_view st sfw_mode userid rating True anyway missing (jo_userid jo) (jo_rating jo)
         (jo_hidden jo) (jo_friends_only jo) (blocktag_check userid 0 0 (jo_journalid jo) db) db = Inr ()"
  unfolding journal_listed_iff [OF assms(1-3), symmetric]
  using assms(4) by (auto simp: open_to_def journal_browsable_def journal_content_def rating_shown_def macro_frienduser_def
      macro_blocktag_journal_def)

lemma open_character:
  assumes "posts_ok db" "userid \<notin> MODS st" "ch \<in> set (t_character db)" "open_to userid rating CharPost (character_content ch) db"
  shows "check_view st sfw_mode userid rating True anyway missing (ch_userid ch) (ch_rating ch)
         (ch_hidden ch) (ch_friends_only ch) (blocktag_check userid 0 (ch_charid ch) 0 db) db = Inr ()"
  unfolding character_listed_iff [OF assms(1-3), symmetric]
  using assms(4) by (auto simp: open_to_def character_listed_def character_content_def rating_shown_def macro_frienduser_def
      macro_blocktag_char_def)

lemma open_submission:
  assumes "posts_ok db" "userid \<notin> MODS st" "su \<in> set (t_submission db)" "username_of (su_userid su) db = Some name"
    and "open_to userid rating SubmitPost (submission_content su) db"
  shows "check_submission_view st userid (su_submitid su) True anyway db = Inr (su, name) \<and> \<not> rating_exceeded st sfw_mode userid rating su"
proof -
  let ?shown = "su\<lparr>su_browse_excluded := None\<rparr>"
  have "check_submission_view st userid (su_submitid su) True anyway db = Inr (su, name)
    \<longleftrightarrow> \<not> su_hidden su \<and> (su_friends_only su \<longrightarrow> frienduser_check userid (su_userid su) db)
       \<and> \<not> ignoreuser_check userid (su_userid su) db \<and> \<not> blocktag_check userid (su_submitid su) 0 0 db"
    using assms(2,4) found_post(3) [OF assms(1,3)]
    by (simp add: check_submission_view_def submission_row_of_def find_submission_def)
  then show ?thesis
    using assms(2,5) posts_okD(3) [OF assms(1,3)]
    by (auto simp: open_to_def submission_content_def rating_exceeded_def blocktag_check_macro(3) [OF assms(1,3)]
        macro_blocktag_submit_def not_ignored_check ignoreuser_check_def)
qed

text \<open>
  What the tables must keep for that: the array of a submission's tags has all its tags of the map (others too, if it
  likes), and ratings are among the three. Rejecting and undoing suggestions may lose tags of the array.
\<close>

definition tags_covered :: "'a tags_db_scheme \<Rightarrow> bool" where
  "tags_covered db \<longleftrightarrow>
     (\<forall>su \<in> set (t_submission db). 10 \<le> su_rating su
        \<and> (case tags_array (submission_content su) db of
             None \<Rightarrow> True
           | Some tags \<Rightarrow> post_tags SubmitPost (submission_content su) db \<subseteq> set tags))
     \<and> (\<forall>bt \<in> set (t_blocktag db). bt_rating bt \<in> {10, 30, 40})"

lemma store_covered: "search_store_ok db \<Longrightarrow> tags_covered db"
  by (fastforce simp: tags_covered_def search_store_ok_def tags_in_step_def split: option.split)

lemma covered_unblocked:
  assumes "tags_covered db" "c \<in> set (contents SubmitPost db)" "r_find r = SubmitPost" "userid \<noteq> 0"
    and "tags_array c db = Some tags" "tags_where userid r (set tags) c db"
  shows "no_blocked_tag (searchmap_of SubmitPost db) userid (ct_id c) (ct_rating c) db"
proof (rule ccontr)
  assume "\<not> ?thesis"
  then obtain bt where bt: "bt \<in> set (t_blocktag db)" "bt_userid bt = userid" "bt_rating bt \<le> ct_rating c"
    "bt_tagid bt \<in> post_tags SubmitPost c db"
    by (auto simp: no_blocked_tag_def blocked_tag_def exists_where_iff post_tags_def)
  obtain su where su: "su \<in> set (t_submission db)" "c = submission_content su" using assms(2) by auto
  with assms(1,5) have "post_tags SubmitPost c db \<subseteq> set tags" by (auto simp: tags_covered_def dest!: bspec [OF _ su(1)])
  with bt(1,4) assms(1) have covered: "bt_tagid bt \<in> set tags" "bt_rating bt \<in> {10, 30, 40}"
    by (auto simp: tags_covered_def)
  with bt have "bt_tagid bt \<in> set tags \<inter> blocked_ids userid (bt_rating bt) db" by (force simp: blocked_ids_def)
  with assms(3,4,6) covered(2) bt(3) show False by (fastforce simp: tags_where_def)
qed

lemma found_open:
  assumes "r_find r = SubmitPost \<longrightarrow> tags_covered db" "finite (r_required_includes r)"
    and "(c, name) \<in> set (search_rows userid rating r area cat subcat db)"
  shows "c \<in> set (contents (r_find r) db) \<and> username_of (ct_userid c) db = Some name \<and> open_to userid rating (r_find r) c db"
proof -
  have c: "c \<in> set (contents (r_find r) db)" "username_of (ct_userid c) db = Some name"
    "result_rows userid rating r area cat subcat c db \<noteq> 0"
    using assms(3) by (auto simp: search_rows_def search_rows_in_def split: option.splits)
  have "joined_rows userid rating r area cat subcat c db \<noteq> 0"
    using c(3) assms(2) by (auto simp: result_rows_def Let_def is_grouped_def split: if_splits)
  then have row: "content_where userid rating r area cat subcat c db" and tags: "tag_rows userid r c db \<noteq> 0"
    by (auto simp: joined_rows_eq split: if_splits)
  have "no_blocked_tag (searchmap_of (r_find r) db) userid (ct_id c) (ct_rating c) db" if user: "userid \<noteq> 0"
  proof -
    have many: "\<not> is_single_tag userid r" using user by (simp add: is_single_tag_def)
    show ?thesis
    proof (cases "r_find r = SubmitPost")
      case True
      with tags many obtain ts where "tags_array c db = Some ts" "tags_where userid r (set ts) c db"
        by (auto simp: tag_rows_def split: option.splits if_splits)
      with True covered_unblocked [of db c r userid ts] assms(1) c(1) user show ?thesis by simp
    next
      case False
      with tags many have "tags_where userid r {} c db" by (auto simp: tag_rows_def split: if_splits)
      with user show ?thesis unfolding tags_where_other [OF False] by blast
    qed
  qed
  with c row show ?thesis by (auto simp: open_to_def content_where_iff)
qed

text \<open>
  C7: Whatever a search shows can be opened. For every viewer, staff or not, the page of every result (a submission, a
  character or a journal) is shown without an error at the rating of the search: it is not hidden, not for friends
  only, not rated above, not by an ignored user and without blocked tags. Ids are unique, and for submissions the array
  of tags that is searched has all tags of the map that the page looks at: that is not kept when suggestions are
  rejected and undone, and then a result may answer that it has a blocked tag.
\<close>
theorem search_results_open:
  assumes "posts_ok db" "r_find r = SubmitPost \<longrightarrow> tags_covered db" "finite (r_required_includes r)"
    and "(c, name) \<in> set (search_rows userid rating r area cat subcat db)"
  shows "case r_find r of
      SubmitPost \<Rightarrow> (\<exists>su. c = submission_content su \<and> \<not> rating_exceeded st sfw_mode userid rating su
        \<and> check_submission_view st userid (ct_id c) True anyway db = Inr (su, name))
    | CharPost \<Rightarrow> (\<exists>ch. c = character_content ch
        \<and> fst (select_character_and_check st now address sfw_mode userid (ct_id c) rating True anyway False db) = Inr (ch, name))
    | JournalPost \<Rightarrow> (\<exists>jo. c = journal_content jo
        \<and> fst (select_journal_and_check st now address sfw_mode userid (ct_id c) rating True anyway False db) = Inr (jo, name))"
proof -
  have nobody: "userid \<notin> MODS no_staff" by (simp add: no_staff_def)
  note c = found_open [OF assms(2-4)]
  show ?thesis
  proof (cases "r_find r")
    case SubmitPost
    with c obtain su where su: "su \<in> set (t_submission db)" "c = submission_content su" by auto
    with c SubmitPost have "check_submission_view no_staff userid (su_submitid su) True anyway db = Inr (su, name)
        \<and> \<not> rating_exceeded no_staff sfw_mode userid rating su"
      by (intro open_submission [OF assms(1) nobody su(1)]) (simp_all add: submission_content_def)
    then have "check_submission_view st userid (ct_id c) True anyway db = Inr (su, name)" "\<not> rating_exceeded st sfw_mode userid rating su"
      using staff_sees_more(2,3) su(2) by (auto simp: submission_content_def)
    with SubmitPost su(2) show ?thesis by auto
  next
    case CharPost
    with c obtain ch where ch: "ch \<in> set (t_character db)" "c = character_content ch" by auto
    have "check_view st sfw_mode userid rating True anyway ''characterRecordMissing'' (ch_userid ch) (ch_rating ch)
         (ch_hidden ch) (ch_friends_only ch) (blocktag_check userid 0 (ch_charid ch) 0 db) db = Inr ()"
      by (rule staff_sees_more(1) [OF open_character [OF assms(1) nobody ch(1)]]) (use c CharPost ch(2) in simp)
    with c CharPost ch post_row_iff(2) [OF assms(1)] show ?thesis
      by (auto simp: viewed_character_iff character_content_def)
  next
    case JournalPost
    with c obtain jo where jo: "jo \<in> set (t_journal db)" "c = journal_content jo" by auto
    have "check_view st sfw_mode userid rating True anyway ''journalRecordMissing'' (jo_userid jo) (jo_rating jo)
         (jo_hidden jo) (jo_friends_only jo) (blocktag_check userid 0 0 (jo_journalid jo) db) db = Inr ()"
      by (rule staff_sees_more(1) [OF open_journal [OF assms(1) nobody jo(1)]]) (use c JournalPost jo(2) in simp)
    with c JournalPost jo post_row_iff(1) [OF assms(1)] show ?thesis
      by (auto simp: viewed_journal_iff journal_content_def)
  qed
qed

theorem search_results_open_witness:
  "search_rows 0 10 (tag_search SubmitPost {1}) [] 0 0 search_db \<noteq> []
   \<and> (\<exists>su. check_submission_view no_staff 0 5 True False search_db = Inr (su, ''ann''))"
proof -
  define c where "c = submission_content (sample_submission 5 1)"
  have rows: "search_rows 0 10 (tag_search SubmitPost {1}) [] 0 0 search_db = [(c, ''ann'')]"
    unfolding c_def by code_simp
  have "case r_find (tag_search SubmitPost {1}) of
      SubmitPost \<Rightarrow> (\<exists>su. c = submission_content su \<and> \<not> rating_exceeded no_staff False 0 10 su
        \<and> check_submission_view no_staff 0 (ct_id c) True False search_db = Inr (su, ''ann''))
    | CharPost \<Rightarrow> (\<exists>ch. c = character_content ch
        \<and> fst (select_character_and_check no_staff 0 [] False 0 (ct_id c) 10 True False False search_db) = Inr (ch, ''ann''))
    | JournalPost \<Rightarrow> (\<exists>jo. c = journal_content jo
        \<and> fst (select_journal_and_check no_staff 0 [] False 0 (ct_id c) 10 True False False search_db) = Inr (jo, ''ann''))"
    by (rule search_results_open [where area = "[]" and cat = 0 and subcat = 0])
      (use rows search_db_ok store_covered [OF search_db_ok] in \<open>simp_all add: tag_search_def search_store_ok_def\<close>)
  then show ?thesis using rows by (auto simp: tag_search_def c_def submission_content_def sample_submission_def)
qed

subsection \<open>Pages and counts\<close>

text \<open>
  C40: In a well-kept store, following the pages of a search comes to an end and shows every result once, newest
  first. A search of the notifications needs that the searcher was notified of each post once: a post that is both new
  and newly collected by somebody he follows comes twice (below).
\<close>
theorem search_pages_walk:
  assumes "search_store_ok db" "finite (r_required_includes r)" "area = ''notify'' \<longrightarrow> notified_once (r_find r) db" "0 < limit"
  shows "walk_pages (\<lambda>page. find_without_media userid rating limit r area cat subcat page db)
           (Suc (length (search_rows userid rating r area cat subcat db))) FIRST_PAGE
         = Some (newest_first (\<lambda>(c, _). ct_id c) (search_rows userid rating r area cat subcat db))"
  unfolding find_without_media_def browse_def
  using rows.walk_all [OF distinct_search_rows [OF assms(1-3)] assms(4)] by simp

theorem search_pages_walk_witness:
  "walk_pages (\<lambda>page. find_without_media 0 10 63 (tag_search SubmitPost {1}) [] 0 0 page search_db) 2 FIRST_PAGE
     = Some [(submission_content (sample_submission 5 1), ''ann'')]"
proof -
  have rows: "search_rows 0 10 (tag_search SubmitPost {1}) [] 0 0 search_db = [(submission_content (sample_submission 5 1), ''ann'')]"
    by code_simp
  have "walk_pages (\<lambda>page. find_without_media 0 10 63 (tag_search SubmitPost {1}) [] 0 0 page search_db)
           (Suc (length (search_rows 0 10 (tag_search SubmitPost {1}) [] 0 0 search_db))) FIRST_PAGE
         = Some (newest_first (\<lambda>(c, _). ct_id c) (search_rows 0 10 (tag_search SubmitPost {1}) [] 0 0 search_db))"
    by (rule search_pages_walk [OF search_db_ok]) (simp_all add: tag_search_def)
  then show ?thesis unfolding rows by (simp add: newest_first_def numeral_2_eq_2)
qed

text \<open>How many results are left on one side of a page.\<close>

definition results_beyond ::
  "page_filter \<Rightarrow> int \<Rightarrow> int \<Rightarrow> resolved_query \<Rightarrow> string \<Rightarrow> int \<Rightarrow> int \<Rightarrow> 'a tags_db_scheme \<Rightarrow> (content_row \<times> string) list" where
  "results_beyond page userid rating r area cat subcat db =
     filter (page_bounds (\<lambda>(c, _). ct_id c) page) (search_rows userid rating r area cat subcat db)"

lemma filter_page_bounds_map: "filter (page_bounds id page) (map f xs) = map f (filter (page_bounds f page) xs)"
  by (cases page) (simp_all add: page_bounds_fun filter_map comp_def)

lemma count_round_length:
  "length (count_round sampled 100 limit page userid rating r area cat subcat db)
     = min limit (length (results_beyond page userid rating r area cat subcat db))"
  by (simp add: count_round_def Let_def results_beyond_def search_rows_def filter_page_bounds_map)

text \<open>The count next to a page is exact below a hundred results, and at least a hundred otherwise.\<close>

theorem search_count_exact:
  assumes "page \<noteq> FIRST_PAGE"
  shows "case search_select_count sampled page userid rating r area cat subcat db of
      Inl e \<Rightarrow> False
    | Inr n \<Rightarrow> (if length (results_beyond page userid rating r area cat subcat db) < 100
               then n = int (length (results_beyond page userid rating r area cat subcat db)) else 100 \<le> n)"
proof -
  have pos: "0 \<le> count_rounds f percents limit p" if "\<forall>q \<in> set percents. 0 < q" for f percents limit p
    using that by (induction f percents limit p rule: count_rounds.induct) (simp_all add: Let_def div_int_pos_iff)
  show ?thesis
    using assms pos [of "[10, 1]"]
    by (simp add: search_select_count_def count_rounds.simps(2) [of _ 100] count_round_length Let_def del: count_rounds.simps)
qed

subsection \<open>Where the search goes wrong\<close>

text \<open>A post by somebody a user follows, collected by somebody else the user follows, is found twice in the notifications.\<close>

lemma search_notify_twice:
  "map (\<lambda>(c, _). ct_id c) (search_rows 3 10 (tag_search SubmitPost {}) ''notify'' 0 0 (search_db\<lparr>t_welcome :=
     [\<lparr>we_welcomeid = 1, we_userid = 3, we_otherid = 1, we_referid = 0, we_targetid = 5, we_unixtime = 9, we_type = 2010, we_deleted = None\<rparr>,
      \<lparr>we_welcomeid = 2, we_userid = 3, we_otherid = 2, we_referid = 0, we_targetid = 5, we_unixtime = 9, we_type = 2030, we_deleted = None\<rparr>]\<rparr>))
   = [5, 5]"
  by code_simp

text \<open>A rejected suggestion leaves the array of tags as it is, so the submission is still found by the tag.\<close>

lemma rejected_tag_still_found:
  "let db = reject_suggestion 20 1 (SubmissionTarget 5) 2 search_db
   in post_tags SubmitPost (submission_content (sample_submission 5 1)) db = {1}
      \<and> map (\<lambda>(c, _). ct_id c) (search_rows 1 10 (tag_search SubmitPost {2}) [] 0 0 db) = [5]"
  by code_simp

end
