(* ===== verification/Search_Text.thy ===== *)
theory Search_Text
  imports Search
begin

text \<open>
  The text of a search and the query it is parsed into: every parsed query is in a normal form, and the text
  \<open>get_terms_string\<close> makes of it for the canonical address of the results is parsed into the same query again.
\<close>

subsection \<open>Parsed names\<close>

definition is_tag :: "ustr \<Rightarrow> bool" where
  "is_tag t = (expect_tag t = Inr t)"

definition is_sysname :: "ustr \<Rightarrow> bool" where
  "is_sysname u = (u \<noteq> [] \<and> length u \<le> USERNAME_MAX_LENGTH \<and> list_all sysname_char u)"

lemma parsed_tag: "parse_tag s = Inr (Some t) \<Longrightarrow> is_tag t"
  unfolding is_tag_def by (rule parse_tag_normalizes)

lemma parse_is_tag: "is_tag t \<Longrightarrow> parse_tag t = Inr (Some t)"
  unfolding is_tag_def by (rule parse_tag_fixed)

lemma parsed_sysname: "parse_sysname lower nfkd s = Some u \<Longrightarrow> is_sysname u"
  by (auto simp: parse_sysname_def is_sysname_def list_all_iff Let_def split: if_splits)

lemma parse_is_sysname:
  assumes "ascii_rules lower nfkd" "is_sysname u"
  shows "parse_sysname lower nfkd u = Some u"
proof -
  have "list_all is_ascii u" "filter sysname_char u = u" "ascii_lower u = u"
    using assms(2) sysname_char_facts by (auto simp: is_sysname_def list_all_iff ascii_lower_def map_idI)
  with assms show ?thesis by (simp add: parse_sysname_def ascii_rules_def is_sysname_def)
qed

definition name_char :: "int \<Rightarrow> bool" where
  "name_char c = (sysname_char c \<or> c = 95)"

lemma tag_chars: "is_tag t \<Longrightarrow> t \<noteq> [] \<and> list_all name_char t"
proof -
  assume t: "is_tag t"
  then have words: "\<forall>w \<in> set (split_on 95 t). \<forall>c \<in> set w. sysname_char c" and "t \<noteq> []"
    by (auto simp: is_tag_def expect_tag_def normalized_tag_def list_all_iff split: if_splits)
  have "set (join [95] (split_on 95 t)) \<subseteq> insert 95 (\<Union> (set ` set (split_on 95 t)))" by (rule set_join)
  then have "set t \<subseteq> insert 95 (\<Union> (set ` set (split_on 95 t)))" by (simp add: join_split)
  with words \<open>t \<noteq> []\<close> show ?thesis by (auto simp: list_all_iff name_char_def)
qed

lemma sysname_chars: "is_sysname u \<Longrightarrow> u \<noteq> [] \<and> list_all name_char u"
  by (auto simp: is_sysname_def list_all_iff name_char_def)

subsection \<open>Words\<close>

lemma split_white_word:
  "list_all (\<lambda>c. \<not> is_space c) w \<Longrightarrow> split_white_from v (w @ s) = split_white_from (v @ w) s"
  by (induction w arbitrary: v) auto

lemma split_white_join:
  "list_all (\<lambda>w. w \<noteq> [] \<and> list_all (\<lambda>c. \<not> is_space c) w) ws \<Longrightarrow> split_white (join [32] ws) = ws"
proof (induction "[32 :: int]" ws rule: join.induct)
  case (2 w)
  then show ?case using split_white_word [of w "[]" "[]"] by (simp add: split_white_def)
next
  case (3 w v ws)
  have "is_space 32" by (simp add: is_space_def)
  with 3 split_white_word [of w "[]" "32 # join [32] (v # ws)"] show ?case by (simp add: split_white_def)
qed (simp add: split_white_def)

definition term_char :: "int \<Rightarrow> bool" where
  "term_char c = (\<not> is_space c \<and> c \<noteq> 44 \<and> c \<noteq> 59)"

lemma query_words_join:
  assumes "list_all (\<lambda>w. w \<noteq> [] \<and> list_all term_char w) ws"
  shows "query_words (join [32] ws) = ws"
proof -
  have "c = 32 \<or> (\<exists>w \<in> set ws. c \<in> set w)" if "c \<in> set (join [32] ws)" for c
    using that set_join [of 32 ws] by blast
  then have "map (\<lambda>c. if c = 44 \<or> c = 59 then 32 else c) (join [32] ws) = join [32] ws"
    using assms by (intro map_idI) (fastforce simp: list_all_iff term_char_def)
  moreover have "split_white (join [32] ws) = ws"
    using assms by (intro split_white_join) (auto simp: list_all_iff term_char_def)
  ultimately show ?thesis by (simp add: query_words_def)
qed

subsection \<open>Reading the terms back\<close>

lemma ustr_simps:
  "ustr ''user:'' = [117, 115, 101, 114, 58]" "ustr ''+user:'' = [43, 117, 115, 101, 114, 58]"
  "ustr ''-user:'' = [45, 117, 115, 101, 114, 58]" "ustr ''+'' = [43]" "ustr ''-'' = [45]" "ustr ''|'' = [124]"
  by code_simp+

lemma no_modifier:
  assumes "35 \<notin> set s"
  shows "map_of QUERY_FIND_MODIFIERS s = None" "map_of QUERY_RATING_MODIFIERS s = None"
proof -
  have "\<forall>m \<in> fst ` set QUERY_FIND_MODIFIERS \<union> fst ` set QUERY_RATING_MODIFIERS. 35 \<in> set m" by code_simp
  with assms show "map_of QUERY_FIND_MODIFIERS s = None" "map_of QUERY_RATING_MODIFIERS s = None"
    by (auto simp: map_of_eq_None_iff)
qed

lemma begins_with_chars: "begins_with p s \<Longrightarrow> set p \<subseteq> set s"
  unfolding begins_with_def by (metis set_take_subset)

lemma name_char_facts: "name_char c \<Longrightarrow> c \<notin> {35, 43, 44, 45, 58, 59, 124} \<and> \<not> is_space c"
  by (auto simp: name_char_def char_defs)

lemma name_not:
  assumes "list_all name_char s"
  shows "35 \<notin> set s" "43 \<notin> set s" "45 \<notin> set s" "58 \<notin> set s" "124 \<notin> set s"
  using assms name_char_facts by (auto simp: list_all_iff)

lemma read_tag:
  assumes "is_tag t"
  shows "add_criterion lower nfkd t q = Inr (q\<lparr>q_required_includes := insert t (q_required_includes q)\<rparr>)"
proof -
  note n = name_not [OF conjunct2 [OF tag_chars [OF assms]]]
  have "\<not> begins_with p t" if "p \<in> {ustr ''user:'', ustr ''+user:'', ustr ''-user:'', ustr ''+'', ustr ''-'', ustr ''|''}" for p
    using that n begins_with_chars [of p t] by (auto simp: ustr_simps)
  then show ?thesis
    by (simp add: add_criterion_def no_modifier [OF n(1)] parse_is_tag [OF assms] add_nonempty_def)
qed

lemma read_possible:
  assumes "is_tag t"
  shows "add_criterion lower nfkd (ustr ''|'' @ t) q = Inr (q\<lparr>q_possible_includes := insert t (q_possible_includes q)\<rparr>)"
proof -
  note n = name_not [OF conjunct2 [OF tag_chars [OF assms]]]
  have m: "35 \<notin> set (ustr ''|'' @ t)" using n by (simp add: ustr_simps)
  have "\<not> begins_with p (ustr ''|'' @ t)" if "p \<in> {ustr ''user:'', ustr ''+user:'', ustr ''-user:'', ustr ''+'', ustr ''-''}" for p
    using that n begins_with_chars [of p "ustr ''|'' @ t"] by (auto simp: ustr_simps)
  then show ?thesis
    by (simp add: add_criterion_def no_modifier [OF m] parse_is_tag [OF assms] add_nonempty_def begins_with_def)
      (simp add: ustr_simps parse_is_tag [OF assms] add_nonempty_def)
qed

lemma read_exclude:
  assumes "is_tag t"
  shows "add_criterion lower nfkd (ustr ''-'' @ t) q = Inr (q\<lparr>q_required_excludes := insert t (q_required_excludes q)\<rparr>)"
proof -
  note n = name_not [OF conjunct2 [OF tag_chars [OF assms]]]
  have m: "35 \<notin> set (ustr ''-'' @ t)" using n by (simp add: ustr_simps)
  have "\<not> begins_with p (ustr ''-'' @ t)" if "p \<in> {ustr ''user:'', ustr ''+user:'', ustr ''-user:'', ustr ''+''}" for p
    using that n begins_with_chars [of p "ustr ''-'' @ t"] by (auto simp: ustr_simps)
  then show ?thesis
    by (simp add: add_criterion_def no_modifier [OF m] begins_with_def)
      (simp add: ustr_simps parse_is_tag [OF assms] add_nonempty_def)
qed

lemma read_user:
  assumes "ascii_rules lower nfkd" "is_sysname u"
  shows "add_criterion lower nfkd (ustr ''user:'' @ u) q = Inr (q\<lparr>q_required_user_includes := insert u (q_required_user_includes q)\<rparr>)"
proof -
  note n = name_not [OF conjunct2 [OF sysname_chars [OF assms(2)]]]
  have m: "35 \<notin> set (ustr ''user:'' @ u)" using n by (simp add: ustr_simps)
  show ?thesis
    by (simp add: add_criterion_def no_modifier [OF m] begins_with_def)
      (simp add: ustr_simps after_colon_def parse_is_sysname [OF assms] add_nonempty_def)
qed

lemma read_user_exclude:
  assumes "ascii_rules lower nfkd" "is_sysname u"
  shows "add_criterion lower nfkd (ustr ''-user:'' @ u) q = Inr (q\<lparr>q_required_user_excludes := insert u (q_required_user_excludes q)\<rparr>)"
proof -
  note n = name_not [OF conjunct2 [OF sysname_chars [OF assms(2)]]]
  have m: "35 \<notin> set (ustr ''-user:'' @ u)" using n by (simp add: ustr_simps)
  show ?thesis
    by (simp add: add_criterion_def no_modifier [OF m] begins_with_def)
      (simp add: ustr_simps after_colon_def parse_is_sysname [OF assms] add_nonempty_def)
qed


lemma add_criteria_append:
  "add_criteria lower nfkd (xs @ ys) q = (case add_criteria lower nfkd xs q of Inl e \<Rightarrow> Inl e | Inr q \<Rightarrow> add_criteria lower nfkd ys q)"
  by (induction xs arbitrary: q) (auto split: sum.split)

lemma read_terms:
  "list_all is_tag ts \<Longrightarrow> add_criteria lower nfkd ts q = Inr (q\<lparr>q_required_includes := q_required_includes q \<union> set ts\<rparr>)"
  "list_all is_tag ts \<Longrightarrow> add_criteria lower nfkd (map ((@) (ustr ''|'')) ts) q
     = Inr (q\<lparr>q_possible_includes := q_possible_includes q \<union> set ts\<rparr>)"
  "list_all is_tag ts \<Longrightarrow> add_criteria lower nfkd (map ((@) (ustr ''-'')) ts) q
     = Inr (q\<lparr>q_required_excludes := q_required_excludes q \<union> set ts\<rparr>)"
  by (induction ts arbitrary: q) (simp_all add: read_tag read_possible read_exclude)

lemma read_user_terms:
  assumes "ascii_rules lower nfkd"
  shows "list_all is_sysname us \<Longrightarrow> add_criteria lower nfkd (map ((@) (ustr ''user:'')) us) q
      = Inr (q\<lparr>q_required_user_includes := q_required_user_includes q \<union> set us\<rparr>)"
    "list_all is_sysname us \<Longrightarrow> add_criteria lower nfkd (map ((@) (ustr ''-user:'')) us) q
      = Inr (q\<lparr>q_required_user_excludes := q_required_user_excludes q \<union> set us\<rparr>)"
  by (induction us arbitrary: q) (simp_all add: read_user [OF assms] read_user_exclude [OF assms])

subsection \<open>The normal form\<close>

definition query_wf :: "search_query \<Rightarrow> bool" where
  "query_wf q \<longleftrightarrow>
     finite (q_possible_includes q) \<and> finite (q_required_includes q) \<and> finite (q_required_excludes q)
     \<and> finite (q_required_user_includes q) \<and> finite (q_required_user_excludes q)
     \<and> (\<forall>t \<in> q_possible_includes q \<union> q_required_includes q \<union> q_required_excludes q. is_tag t)
     \<and> (\<forall>u \<in> q_required_user_includes q \<union> q_required_user_excludes q. is_sysname u)
     \<and> q_ratings q \<subseteq> {10, 30, 40}"

definition query_normal :: "search_query \<Rightarrow> bool" where
  "query_normal q \<longleftrightarrow>
     query_wf q \<and> q_find q \<noteq> None \<and> card (q_possible_includes q) \<noteq> 1
     \<and> q_possible_includes q \<inter> q_required_includes q = {} \<and> q_possible_includes q \<inter> q_required_excludes q = {}
     \<and> q_required_excludes q \<inter> q_required_includes q = {}"

lemma rating_modifiers: "map_of QUERY_RATING_MODIFIERS c = Some n \<Longrightarrow> n \<in> {10, 30, 40}"
  by (auto simp: QUERY_RATING_MODIFIERS_def split: if_splits)

lemma wf_add_tag:
  assumes "query_wf q" "parse_tag w = Inr tag"
  shows "query_wf (q\<lparr>q_required_includes := add_nonempty tag (q_required_includes q)\<rparr>)"
    "query_wf (q\<lparr>q_required_excludes := add_nonempty tag (q_required_excludes q)\<rparr>)"
    "query_wf (q\<lparr>q_possible_includes := add_nonempty tag (q_possible_includes q)\<rparr>)"
  using assms parsed_tag by (cases tag; auto simp: query_wf_def add_nonempty_def)+

lemma wf_add_user:
  assumes "query_wf q"
  shows "query_wf (q\<lparr>q_required_user_includes := add_nonempty (parse_sysname lower nfkd w) (q_required_user_includes q)\<rparr>)"
    "query_wf (q\<lparr>q_required_user_excludes := add_nonempty (parse_sysname lower nfkd w) (q_required_user_excludes q)\<rparr>)"
  using assms parsed_sysname by (cases "parse_sysname lower nfkd w"; auto simp: query_wf_def add_nonempty_def)+

lemma wf_map_tag:
  assumes "map_sum id g (parse_tag w) = Inr q'" "\<And>tag. parse_tag w = Inr tag \<Longrightarrow> query_wf (g tag)"
  shows "query_wf q'"
  using assms by (cases "parse_tag w") auto

lemma add_criterion_wf:
  assumes "add_criterion lower nfkd c q = Inr q'" "query_wf q"
  shows "query_wf q'"
proof (cases "map_of QUERY_FIND_MODIFIERS c")
  case None
  show ?thesis
  proof (cases "map_of QUERY_RATING_MODIFIERS c")
    case None': None
    show ?thesis
      using assms(1) unfolding add_criterion_def None None' option.case
      by (auto split: if_splits intro: wf_add_user [OF assms(2)] wf_add_tag [OF assms(2)] elim!: wf_map_tag)
  next
    case (Some n)
    with assms None rating_modifiers [OF Some] show ?thesis by (auto simp: add_criterion_def query_wf_def)
  qed
qed (use assms in \<open>auto simp: add_criterion_def query_wf_def\<close>)

lemma add_criteria_wf: "add_criteria lower nfkd cs q = Inr q' \<Longrightarrow> query_wf q \<Longrightarrow> query_wf q'"
  by (induction cs arbitrary: q) (auto split: sum.splits dest: add_criterion_wf)

lemma normalize_normal:
  assumes "query_wf q"
  shows "query_normal (normalize_query f q)"
  using assms by (auto simp: query_normal_def query_wf_def normalize_query_def Let_def card_1_singleton_iff split: option.split)

lemma empty_query_wf: "query_wf empty_query"
  by (simp add: query_wf_def empty_query_def)

lemma normalize_idle:
  assumes "query_normal q"
  shows "normalize_query f q = q"
proof -
  have "q_possible_includes q - q_required_includes q = q_possible_includes q"
    "q_required_excludes q - q_required_includes q = q_required_excludes q"
    "q_possible_includes q - q_required_excludes q = q_possible_includes q"
    using assms by (auto simp: query_normal_def)
  moreover obtain g where "q_find q = Some g" using assms by (auto simp: query_normal_def)
  ultimately show ?thesis
    using assms by (simp add: normalize_query_def query_normal_def)
qed

lemma term_chars:
  assumes "query_wf q"
  shows "list_all (\<lambda>w. w \<noteq> [] \<and> list_all term_char w) (get_terms q)"
proof -
  have name: "list_all term_char w" if "list_all name_char w" for w
    using that name_char_facts by (auto simp: list_all_iff term_char_def)
  have tag: "t \<noteq> [] \<and> list_all term_char t" if "is_tag t" for t using name tag_chars [OF that] by blast
  have user: "u \<noteq> [] \<and> list_all term_char u" if "is_sysname u" for u using name sysname_chars [OF that] by blast
  have prefix: "list_all term_char (ustr ''|'')" "list_all term_char (ustr ''-'')" "list_all term_char (ustr ''user:'')"
    "list_all term_char (ustr ''-user:'')" by code_simp+
  have "list_all (\<lambda>w. w \<noteq> [] \<and> list_all term_char w) (map ((@) p) ws)"
    if "\<forall>w \<in> set ws. w \<noteq> [] \<and> list_all term_char w" "list_all term_char p" for p ws
    using that by (auto simp: list_all_iff)
  with assms prefix tag user show ?thesis
    by (simp add: get_terms_def query_wf_def list_all_iff [of "\<lambda>w. w \<noteq> [] \<and> list_all term_char w" "sorted_list_of_set _"])
qed

lemma read_all_terms:
  assumes "ascii_rules lower nfkd" "query_wf q"
  shows "add_criteria lower nfkd (get_terms q) empty_query = Inr (q\<lparr>q_ratings := {}, q_find := None\<rparr>)"
proof -
  have "list_all is_tag (sorted_list_of_set (q_required_includes q))" "list_all is_tag (sorted_list_of_set (q_possible_includes q))"
    "list_all is_tag (sorted_list_of_set (q_required_excludes q))"
    "list_all is_sysname (sorted_list_of_set (q_required_user_includes q))"
    "list_all is_sysname (sorted_list_of_set (q_required_user_excludes q))"
    using assms(2) by (auto simp: query_wf_def list_all_iff)
  with assms show ?thesis
    by (simp add: get_terms_def add_criteria_append read_terms read_user_terms query_wf_def empty_query_def)
qed

text \<open>
  C30: The text of a query and the query agree. Whatever text was parsed, the query is in normal form (no tag is both
  required, possible or excluded, and never is a single one only possible), and the text made of its terms for the
  canonical address is parsed into the query with its ratings emptied: the text leaves them out, and nothing else is lost.
\<close>
theorem query_text_roundtrip:
  assumes "ascii_rules lower nfkd" "query_parse lower nfkd input f = Inr q"
  shows "query_normal q \<and> query_parse lower nfkd (get_terms_string q) (the (q_find q)) = Inr (q\<lparr>q_ratings := {}\<rparr>)"
proof -
  obtain q0 where q0: "add_criteria lower nfkd (query_words input) empty_query = Inr q0" "q = normalize_query f q0"
    using assms(2) by (cases "add_criteria lower nfkd (query_words input) empty_query") (auto simp: query_parse_def)
  then have normal: "query_normal q"
    using normalize_normal add_criteria_wf empty_query_wf by blast
  then have wf: "query_wf q" by (simp add: query_normal_def)
  have "query_words (get_terms_string q) = get_terms q"
    unfolding get_terms_string_def by (rule query_words_join [OF term_chars [OF wf]])
  then have "query_parse lower nfkd (get_terms_string q) (the (q_find q))
      = Inr (normalize_query (the (q_find q)) (q\<lparr>q_ratings := {}, q_find := None\<rparr>))"
    by (simp add: query_parse_def read_all_terms [OF assms(1) wf])
  also have "normalize_query (the (q_find q)) (q\<lparr>q_ratings := {}, q_find := None\<rparr>)
      = normalize_query (the (q_find q)) (q\<lparr>q_ratings := {}\<rparr>)"
    using normal by (auto simp: normalize_query_def query_normal_def Let_def)
  also have "\<dots> = q\<lparr>q_ratings := {}\<rparr>"
    using normal by (intro normalize_idle) (simp add: query_normal_def query_wf_def)
  finally show ?thesis using normal by simp
qed

theorem query_text_roundtrip_witness:
  "map_sum id get_terms_string (query_parse ascii_lower id (ustr ''Wolf, |red;|fox -dog user:Ann_B #mature'') (FindPost SubmitPost))
     = Inr (ustr ''wolf |fox |red -dog user:annb'')
   \<and> map_sum id get_terms_string (query_parse ascii_lower id (ustr ''wolf |fox |red -dog user:annb'') (FindPost SubmitPost))
     = Inr (ustr ''wolf |fox |red -dog user:annb'')"
proof -
  define input where "input = ustr ''Wolf, |red;|fox -dog user:Ann_B #mature''"
  have "map_sum id (\<lambda>q. (get_terms_string q, the (q_find q))) (query_parse ascii_lower id input (FindPost SubmitPost))
      = Inr (ustr ''wolf |fox |red -dog user:annb'', FindPost SubmitPost)"
    unfolding input_def by code_simp
  then obtain q where q: "query_parse ascii_lower id input (FindPost SubmitPost) = Inr q"
    "get_terms_string q = ustr ''wolf |fox |red -dog user:annb''" "the (q_find q) = FindPost SubmitPost"
    by (cases "query_parse ascii_lower id input (FindPost SubmitPost)") auto
  have "query_parse ascii_lower id (get_terms_string q) (the (q_find q)) = Inr (q\<lparr>q_ratings := {}\<rparr>)"
    using query_text_roundtrip [OF ascii_rules_instance q(1)] by simp
  with q show ?thesis
    by (simp flip: input_def) (simp add: get_terms_string_def get_terms_def)
qed

end
