(* ===== verification/Front_Page.thy ===== *)
theory Front_Page
  imports Search Profiles
begin

text \<open>
  The front page: \<^verbatim>\<open>weasyl/index.py\<close>. \<open>recent_submissions\<close> is the list memcached keeps for two minutes; the
  operations take the list they got. Media, cards and the site news of the page are left out.
\<close>

record front_item =
  fr_is_char :: bool
  fr_id :: int
  fr_userid :: int
  fr_rating :: int
  fr_unixtime :: int
  fr_subtype :: int
  fr_tags :: "int list"

text \<open>\<open>tag_map.get(id, [])\<close> of a list of \<open>select_list\<close>.\<close>

definition tags_from :: "(int \<times> int list) list \<Rightarrow> int \<Rightarrow> int list" where
  "tags_from tag_map i = (case map_of tag_map i of None \<Rightarrow> [] | Some tags \<Rightarrow> tags)"

definition submission_item :: "(int \<times> int list) list \<Rightarrow> submission_row \<Rightarrow> front_item" where
  "submission_item tag_map su =
     \<lparr>fr_is_char = False, fr_id = su_submitid su, fr_userid = su_userid su, fr_rating = su_rating su,
      fr_unixtime = su_unixtime su, fr_subtype = su_subtype su, fr_tags = tags_from tag_map (su_submitid su)\<rparr>"

definition character_item :: "(int \<times> int list) list \<Rightarrow> character_row \<Rightarrow> front_item" where
  "character_item tag_map ch =
     \<lparr>fr_is_char = True, fr_id = ch_charid ch, fr_userid = ch_userid ch, fr_rating = ch_rating ch,
      fr_unixtime = ch_unixtime ch, fr_subtype = 0, fr_tags = tags_from tag_map (ch_charid ch)\<rparr>"

definition recent_of_category :: "int \<Rightarrow> 'a tags_db_scheme \<Rightarrow> submission_row list" where
  "recent_of_category category db =
     map fst (fst (submission_page_rows id False 0 (rating_code EXPLICIT) 256
       \<lparr>sq_otherid = 0, sq_folderid = 0, sq_subcat = category, sq_profile_page_filter = False, sq_index_page_filter = True,
        sq_featured_filter = False, sq_critique_only = False\<rparr> FIRST_PAGE db))"

definition recent_submissions :: "'a tags_db_scheme \<Rightarrow> front_item list" where
  "recent_submissions db =
     (let submissions = concat (map (\<lambda>category. recent_of_category category db) ALL_SUBMISSION_CATEGORIES);
          tag_map = select_tag_list (t_searchmapsubmit db) (map su_submitid submissions);
          characters = map fst (character_select_list False 0 (rating_code EXPLICIT) 256 0 0 0 db);
          char_map = select_tag_list (t_searchmapchar db) (map ch_charid characters)
      in sort_key (\<lambda>s. - fr_unixtime s) (map (submission_item tag_map) submissions @ map (character_item char_map) characters))"

subsection \<open>Filters\<close>

text \<open>The loop of \<open>filter_submissions\<close>; \<open>incidence\<close> counts what was shown of each user.\<close>

definition passes_filter :: "int \<Rightarrow> blocktag_row list \<Rightarrow> int set \<Rightarrow> front_item \<Rightarrow> bool" where
  "passes_filter rating blocked_tags ignored_users s =
     (fr_rating s \<le> rating \<and> fr_userid s \<notin> ignored_users \<and> \<not> blocktag_check_list (fr_rating s) (fr_tags s) blocked_tags)"

fun filter_items ::
  "int \<Rightarrow> blocktag_row list \<Rightarrow> int set \<Rightarrow> nat \<Rightarrow> (int \<Rightarrow> nat) \<Rightarrow> front_item list \<Rightarrow> front_item list" where
  "filter_items rating blocked_tags ignored_users incidence_limit incidence [] = []"
| "filter_items rating blocked_tags ignored_users incidence_limit incidence (s # submissions) =
     (if incidence_limit \<noteq> 0 \<and> incidence (fr_userid s) \<ge> incidence_limit then
        filter_items rating blocked_tags ignored_users incidence_limit incidence submissions
      else if \<not> passes_filter rating blocked_tags ignored_users s then
        filter_items rating blocked_tags ignored_users incidence_limit incidence submissions
      else
        s # filter_items rating blocked_tags ignored_users incidence_limit
              (incidence(fr_userid s := incidence (fr_userid s) + 1)) submissions)"

definition filter_submissions ::
  "bool \<Rightarrow> int \<Rightarrow> front_item list \<Rightarrow> nat \<Rightarrow> 'a tags_db_scheme \<Rightarrow> front_item list result \<times> 'a tags_db_scheme" where
  "filter_submissions sfw_mode userid submissions incidence_limit db =
     (if userid = 0 then
        (Inr (filter_items (rating_code GENERAL) [] {} incidence_limit (\<lambda>_. 0) submissions), db)
      else
        and_then (get_rating sfw_mode userid db) (\<lambda>rating db.
          let (blocked_tags, db) = blocktag_select_ids userid db;
              (ignored_users, db) = cached_list_ignoring userid db
          in (Inr (filter_items rating blocked_tags (set ignored_users) incidence_limit (\<lambda>_. 0) submissions), db)))"

record front_buckets =
  fb_latest :: "front_item list"
  fb_visual :: "front_item list"
  fb_literary :: "front_item list"
  fb_multimedia :: "front_item list"
  fb_characters :: "front_item list"

definition bucket :: "int \<Rightarrow> front_item list \<Rightarrow> front_item list" where
  "bucket n submissions = filter (\<lambda>s. \<not> fr_is_char s \<and> fr_subtype s div 1000 = n) submissions"

definition partition_submissions :: "front_item list \<Rightarrow> front_buckets" where
  "partition_submissions submissions =
     \<lparr>fb_latest = take 22 submissions, fb_visual = take 11 (bucket 1 submissions),
      fb_literary = take 11 (bucket 2 submissions), fb_multimedia = take 11 (bucket 3 submissions),
      fb_characters = take 11 (filter fr_is_char submissions)\<rparr>"

text \<open>
  The rows of \<open>select_critique\<close> and \<open>select_recently_popular\<close> are given as \<open>critique\<close> and \<open>popular\<close>, \<open>shuffle\<close>
  is the order of \<open>random.shuffle\<close>.
\<close>

record front_page =
  fp_buckets :: front_buckets
  fp_critique :: "front_item list"
  fp_streaming :: "(profile_row \<times> user_stream_row) list \<times> int"
  fp_popular :: "front_item list"

definition template_fields ::
  "(front_item list \<Rightarrow> front_item list) \<Rightarrow> ((profile_row \<times> user_stream_row) list \<Rightarrow> (profile_row \<times> user_stream_row) list)
     \<Rightarrow> int \<Rightarrow> bool \<Rightarrow> int \<Rightarrow> front_item list \<Rightarrow> front_item list \<Rightarrow> front_item list \<Rightarrow> 'a tags_db_scheme
     \<Rightarrow> front_page result \<times> 'a tags_db_scheme" where
  "template_fields shuffle shuffle_streams now sfw_mode userid recent critique popular db =
     and_then (filter_submissions sfw_mode userid recent 1 db) (\<lambda>submissions db.
       and_then (filter_submissions sfw_mode userid (shuffle critique) 1 db) (\<lambda>critique db.
         and_then (filter_submissions sfw_mode userid popular 1 db) (\<lambda>popular db.
           (Inr \<lparr>fp_buckets = partition_submissions submissions,
                 fp_critique = newest_first fr_id (take 11 critique),
                 fp_streaming = select_streaming_sample shuffle_streams now userid db,
                 fp_popular = take 11 popular\<rparr>, db))))"


subsection \<open>Who is shown\<close>

definition earlier_shown :: "(front_item \<Rightarrow> bool) \<Rightarrow> front_item list \<Rightarrow> nat \<Rightarrow> nat" where
  "earlier_shown P xs i = length (filter (\<lambda>y. P y \<and> fr_userid y = fr_userid (xs ! i)) (take i xs))"

lemma map_nth_filter_Cons:
  "map ((!) (x # xs)) (filter Q [0..<length (x # xs)])
     = (if Q 0 then [x] else []) @ map ((!) xs) (filter (\<lambda>i. Q (Suc i)) [0..<length xs])"
  by (simp add: upt_conv_Cons filter_map comp_def del: upt_Suc flip: map_Suc_upt)

lemma filter_items_nth:
  "filter_items rating blocked ignored limit incidence xs =
     map ((!) xs) (filter (\<lambda>i. passes_filter rating blocked ignored (xs ! i)
        \<and> (limit = 0 \<or> incidence (fr_userid (xs ! i)) + earlier_shown (passes_filter rating blocked ignored) xs i < limit)) [0..<length xs])"
proof (induction xs arbitrary: incidence)
  case (Cons x xs)
  let ?P = "passes_filter rating blocked ignored"
  have earlier: "earlier_shown ?P (x # xs) (Suc i)
      = (if ?P x \<and> fr_userid x = fr_userid (xs ! i) then 1 else 0) + earlier_shown ?P xs i" for i
    by (simp add: earlier_shown_def)
  have first: "earlier_shown ?P (x # xs) 0 = 0" by (simp add: earlier_shown_def)
  let ?rest = "map ((!) xs) (filter (\<lambda>i. ?P (xs ! i) \<and> (limit = 0 \<or> incidence (fr_userid (xs ! i))
          + ((if ?P x \<and> fr_userid x = fr_userid (xs ! i) then 1 else 0) + earlier_shown ?P xs i) < limit)) [0..<length xs])"
  have tail: "filter_items rating blocked ignored limit f xs = ?rest"
    if "\<And>u n. limit = 0 \<or> (f u + n < limit \<longleftrightarrow> incidence u + ((if ?P x \<and> fr_userid x = u then 1 else 0) + n) < limit)" for f
    unfolding Cons.IH [of f] using that by (intro arg_cong [where f = "map ((!) xs)"] filter_cong) auto
  consider "limit \<noteq> 0" "limit \<le> incidence (fr_userid x)" | "\<not> (limit \<noteq> 0 \<and> limit \<le> incidence (fr_userid x))" "\<not> ?P x"
    | "\<not> (limit \<noteq> 0 \<and> limit \<le> incidence (fr_userid x))" "?P x" by blast
  then show ?case
  proof cases
    case 1
    have step: "filter_items rating blocked ignored limit incidence (x # xs) = ?rest"
    proof -
      have "filter_items rating blocked ignored limit incidence xs = ?rest" by (rule tail) (use 1 in auto)
      with 1 show ?thesis by (simp only: filter_items.simps if_True simp_thms)
    qed
    show ?thesis unfolding map_nth_filter_Cons earlier first step using 1 by simp
  next
    case 2
    have step: "filter_items rating blocked ignored limit incidence (x # xs) = ?rest"
    proof -
      have "filter_items rating blocked ignored limit incidence xs = ?rest" by (rule tail) (use 2 in auto)
      with 2 show ?thesis by (simp only: filter_items.simps if_False if_True simp_thms)
    qed
    show ?thesis unfolding map_nth_filter_Cons earlier first step using 2 by simp
  next
    case 3
    have step: "filter_items rating blocked ignored limit incidence (x # xs) = x # ?rest"
    proof -
      have "filter_items rating blocked ignored limit (incidence(fr_userid x := incidence (fr_userid x) + 1)) xs = ?rest"
        by (rule tail) (use 3 in auto)
      with 3 show ?thesis by (simp only: filter_items.simps if_False simp_thms)
    qed
    show ?thesis unfolding map_nth_filter_Cons earlier first step using 3 by auto
  qed
qed simp


text \<open>A guest ignores nobody and has no blocked tags.\<close>

definition front_allows :: "int \<Rightarrow> int \<Rightarrow> 'a tags_db_scheme \<Rightarrow> front_item \<Rightarrow> bool" where
  "front_allows rating userid db s =
     (fr_rating s \<le> rating
      \<and> (userid = 0 \<or> not_ignored userid (fr_userid s) db
           \<and> list_all (\<lambda>t. \<not> blocked_tag userid t (fr_rating s) db) (fr_tags s)))"

lemma passes_front:
  assumes "userid \<noteq> 0"
  shows "passes_filter rating (query_select_ids userid db) (set (query_list_ignoring userid db)) = front_allows rating userid db"
proof
  fix s :: front_item
  have "blocktag_check_list (fr_rating s) (fr_tags s) (query_select_ids userid db)
      \<longleftrightarrow> (\<exists>t \<in> set (fr_tags s). blocked_tag userid t (fr_rating s) db)"
    by (auto simp: blocktag_check_list_def query_select_ids_def blocked_tag_def exists_where_iff list_ex_iff)
  moreover have "fr_userid s \<in> set (query_list_ignoring userid db) \<longleftrightarrow> \<not> not_ignored userid (fr_userid s) db"
    by (auto simp: query_list_ignoring_def not_ignored_def exists_where_iff image_iff)
  ultimately show "passes_filter rating (query_select_ids userid db) (set (query_list_ignoring userid db)) s
      = front_allows rating userid db s"
    using assms by (simp add: passes_filter_def front_allows_def list_all_iff)
qed

lemma passes_guest: "passes_filter rating [] {} = front_allows rating 0 db"
  by (auto simp: passes_filter_def front_allows_def blocktag_check_list_def list_ex_iff)

text \<open>
  C34: The lists of the front page. A viewer with right caches whose rating setting can be read is shown exactly the
  posts of the list with a rating up to the one \<open>get_rating\<close> gives, and, being signed in, not of an ignored user and
  not under a tag blocked for their rating; in the order of the list, and of every artist only the first \<open>limit\<close> of
  them (all, for 0). A guest is shown the posts rated General under the same limit.
\<close>
theorem front_page_filter:
  assumes "select_ids.all_coherent db" "ignoring.all_coherent db"
    and "fst (get_rating sfw_mode userid db) = Inr rating"
  shows "fst (filter_submissions sfw_mode userid xs limit db) =
     Inr (map ((!) xs) (filter (\<lambda>i. front_allows rating userid db (xs ! i)
        \<and> (limit = 0 \<or> earlier_shown (front_allows rating userid db) xs i < limit)) [0..<length xs]))
     \<and> (userid = 0 \<longrightarrow> rating = rating_code GENERAL)"
proof (cases "userid = 0")
  case True
  with assms(3) have "rating = rating_code GENERAL" by (simp add: get_rating_def get_rating_obj_def)
  with True show ?thesis
    by (simp add: filter_submissions_def filter_items_nth passes_guest [of _ db])
next
  case False
  obtain c where c: "get_rating sfw_mode userid db = (Inr rating, db\<lparr>c_all_config := c\<rparr>)"
    using get_rating_only_caches [of sfw_mode userid db] assms(3) by (metis prod.collapse)
  let ?db = "db\<lparr>c_all_config := c\<rparr>"
  have "select_ids.all_coherent ?db" "ignoring.all_coherent ?db"
    using assms(1,2) by (simp_all add: coherent_def query_select_ids_def peek_select_ids_def query_list_ignoring_def peek_ignoring_def)
  moreover have "ignoring.all_coherent (snd (blocktag_select_ids userid ?db))"
    using calculation(2)
    by (rule ignoring.untouched_keeps)
      (auto simp: blocktag_select_ids_def read_through_def store_select_ids_def peek_ignoring_def query_list_ignoring_def Let_def split: option.split)
  moreover have "query_list_ignoring userid (snd (blocktag_select_ids userid ?db)) = query_list_ignoring userid db"
    by (auto simp: blocktag_select_ids_def read_through_def store_select_ids_def query_list_ignoring_def Let_def split: option.split)
  moreover have "query_select_ids userid ?db = query_select_ids userid db"
    by (simp add: query_select_ids_def)
  ultimately have read: "fst (blocktag_select_ids userid ?db) = query_select_ids userid db"
    "fst (cached_list_ignoring userid (snd (blocktag_select_ids userid ?db))) = query_list_ignoring userid db"
    using select_ids.read_value [of ?db userid] ignoring.read_value [of "snd (blocktag_select_ids userid ?db)" userid]
    by (simp_all add: blocktag_select_ids_def cached_list_ignoring_def)
  from False show ?thesis
    using read
    by (simp add: filter_submissions_def c case_prod_unfold Let_def filter_items_nth flip: passes_front)
qed

theorem front_page_filter_witness:
  "let db = blank_db\<lparr>t_login := [\<lparr>lo_userid = 2, lo_login_name = ''bob'', lo_last_login = 0, lo_email = [],
         lo_twofa_secret = None, lo_ip_address_at_signup = None, lo_voucher = None, lo_last_read_updateid = None\<rparr>],
       t_profile := [sample_profile 2 ''bob'' []],
       t_blocktag := [\<lparr>bt_userid = 2, bt_tagid = 7, bt_rating = 10\<rparr>]\<rparr>;
     post = (\<lambda>i rating tags. \<lparr>fr_is_char = False, fr_id = i, fr_userid = 1, fr_rating = rating, fr_unixtime = 0,
       fr_subtype = 1010, fr_tags = tags\<rparr>);
     posts = [post 9 10 [7], post 8 10 [], post 5 10 []];
     rated = [post 9 30 [], post 8 10 [7], post 5 10 [], post 4 10 []]
   in map_sum id (map fr_id) (fst (filter_submissions False 2 posts 1 db)) = Inr [8]
      \<and> map_sum id (map fr_id) (fst (filter_submissions False 0 rated 2 db)) = Inr [8, 5]"
  (is "let db = ?db; post = ?post; posts = _ post; rated = _ post in _ db posts rated")
proof -
  define db where "db = ?db"
  have "fst (get_rating False 2 db) = Inr 10" "fst (get_rating False 0 db) = Inr 10" unfolding db_def by code_simp+
  moreover have "select_ids.all_coherent db" "ignoring.all_coherent db"
    by (simp_all add: db_def blank_db_def coherent_def peek_select_ids_def peek_ignoring_def)
  ultimately have "fst (filter_submissions False u xs limit db) =
     Inr (map ((!) xs) (filter (\<lambda>i. front_allows 10 u db (xs ! i)
        \<and> (limit = (0 :: nat) \<or> earlier_shown (front_allows 10 u db) xs i < limit)) [0..<length xs]))"
    if "u \<in> {2, 0}" for u xs limit
    using front_page_filter [of db False u 10 xs limit] that by auto
  note shown = this [of 2, simplified] this [of 0, simplified]
  show ?thesis unfolding Let_def by (simp only: shown [unfolded db_def] map_sum.simps) code_simp
qed

end
