(* ===== verification/Site_Updates.thy ===== *)
theory Site_Updates
  imports Comments Pagination
begin

text \<open>
  News of the site: \<^verbatim>\<open>weasyl/siteupdate.py\<close> and \<^verbatim>\<open>weasyl/controllers/siteupdate.py\<close>. An update is shown under the
  name of its author or, with \<open>wesley\<close>, of the site's mascot. The page of an update and the newest update are cached
  (\<open>c_select_view\<close>, \<open>c_select_last\<close>), and so are the ids of all updates and the last one each user has read. Media are
  left out. \<open>HTTPNotFound\<close> is the exception of that name.
\<close>

subsection \<open>Reading\<close>

definition update_author :: "staff_sets \<Rightarrow> siteupdate_row \<Rightarrow> 'a accounts_db_scheme \<Rightarrow> profile_row option" where
  "update_author st sit db =
     (if sit_wesley sit then Option.bind (WESLEY st) (\<lambda>w. profile_of w db) else profile_of (sit_userid sit) db)"

definition update_view :: "staff_sets \<Rightarrow> 'a accounts_db_scheme \<Rightarrow> siteupdate_row \<Rightarrow> siteupdate_view" where
  "update_view st db sit =
     \<lparr>sv_updateid = sit_updateid sit, sv_userid = map_option pr_userid (update_author st sit db),
      sv_title = sit_title sit, sv_content = sit_content sit, sv_unixtime = sit_unixtime sit,
      sv_username = map_option pr_username (update_author st sit db), sv_wesley = sit_wesley sit\<rparr>"

definition query_select_view :: "staff_sets \<Rightarrow> int \<Rightarrow> 'a content_db_scheme \<Rightarrow> siteupdate_view option" where
  "query_select_view st updateid db =
     map_option (update_view st db) (find (\<lambda>sit. sit_updateid sit = updateid) (t_siteupdate db))"

definition peek_select_view :: "int \<Rightarrow> 'a content_db_scheme \<Rightarrow> siteupdate_view option option" where
  "peek_select_view updateid db = map_option Some (c_select_view db updateid)"

definition store_select_view :: "int \<Rightarrow> siteupdate_view option option \<Rightarrow> 'a content_db_scheme \<Rightarrow> 'a content_db_scheme" where
  "store_select_view updateid v db = db\<lparr>c_select_view := (c_select_view db)(updateid := Option.bind v id)\<rparr>"

text \<open>What raises is not cached.\<close>

definition siteupdate_select_view ::
  "staff_sets \<Rightarrow> int \<Rightarrow> 'a content_db_scheme \<Rightarrow> siteupdate_view result \<times> 'a content_db_scheme" where
  "siteupdate_select_view st updateid db =
     (let (v, db) = read_through (\<lambda>v. v \<noteq> None) (peek_select_view updateid) (query_select_view st updateid)
                      (store_select_view updateid) db
      in (case v of None \<Rightarrow> Inl HTTPNotFound | Some view \<Rightarrow> Inr view, db))"

definition shown_comments :: "int \<Rightarrow> 'a content_db_scheme \<Rightarrow> int" where
  "shown_comments updateid db =
     count_where (\<lambda>sc. sc_targetid sc = updateid \<and> sc_hidden_at sc = None) (t_siteupdatecomment db)"

definition newest_updates :: "'a content_db_scheme \<Rightarrow> siteupdate_row list" where
  "newest_updates db = newest_first sit_updateid (t_siteupdate db)"

definition query_select_last :: "staff_sets \<Rightarrow> unit \<Rightarrow> 'a content_db_scheme \<Rightarrow> (siteupdate_view \<times> int) option" where
  "query_select_last st _ db =
     (case newest_updates db of
        [] \<Rightarrow> None
      | sit # _ \<Rightarrow> Some (update_view st db sit, shown_comments (sit_updateid sit) db))"

definition peek_select_last :: "unit \<Rightarrow> 'a content_db_scheme \<Rightarrow> (siteupdate_view \<times> int) option option" where
  "peek_select_last _ db = c_select_last db"

definition store_select_last ::
  "unit \<Rightarrow> (siteupdate_view \<times> int) option option \<Rightarrow> 'a content_db_scheme \<Rightarrow> 'a content_db_scheme" where
  "store_select_last _ v db = db\<lparr>c_select_last := v\<rparr>"

definition select_last :: "staff_sets \<Rightarrow> 'a content_db_scheme \<Rightarrow> (siteupdate_view \<times> int) option \<times> 'a content_db_scheme" where
  "select_last st db =
     read_through (\<lambda>_. True) (peek_select_last ()) (query_select_last st ()) (store_select_last ()) db"

definition siteupdate_select_list :: "staff_sets \<Rightarrow> 'a content_db_scheme \<Rightarrow> siteupdate_view list" where
  "siteupdate_select_list st db = map (update_view st db) (newest_updates db)"

subsection \<open>Writing\<close>

definition siteupdate_create ::
  "int \<Rightarrow> int \<Rightarrow> string \<Rightarrow> string \<Rightarrow> bool \<Rightarrow> 'a content_db_scheme \<Rightarrow> int \<times> 'a content_db_scheme" where
  "siteupdate_create now userid title content as_wesley db =
     (siteupdate_seq db,
      db\<lparr>t_siteupdate := t_siteupdate db @
           [\<lparr>sit_updateid = siteupdate_seq db, sit_userid = userid, sit_wesley = as_wesley, sit_title = title,
             sit_content = content, sit_unixtime = now\<rparr>],
         siteupdate_seq := siteupdate_seq db + 1, c_select_last := None\<rparr>)"

definition siteupdate_edit ::
  "int \<Rightarrow> string \<Rightarrow> string \<Rightarrow> bool \<Rightarrow> 'a content_db_scheme \<Rightarrow> unit result \<times> 'a content_db_scheme" where
  "siteupdate_edit updateid title content as_wesley db =
     (let edited = (\<lambda>sit. sit_updateid sit = updateid);
          db' = db\<lparr>t_siteupdate := update_where edited
                  (\<lambda>sit. sit\<lparr>sit_title := title, sit_content := content, sit_wesley := as_wesley\<rparr>) (t_siteupdate db)\<rparr>
      in if count_where edited (t_siteupdate db) \<noteq> 1 then (Inl HTTPNotFound, db')
         else (Inr (), db'\<lparr>c_select_view := (c_select_view db')(updateid := None), c_select_last := None\<rparr>))"

subsection \<open>The pages\<close>

definition mark_update_read :: "int \<Rightarrow> int \<Rightarrow> 'a accounts_db_scheme \<Rightarrow> 'a accounts_db_scheme" where
  "mark_update_read userid updateid db =
     db\<lparr>t_login := update_where (\<lambda>lo. lo_userid lo = userid)
          (\<lambda>lo. lo\<lparr>lo_last_read_updateid := Some updateid\<rparr>) (t_login db),
        c_last_read := (c_last_read db)(userid := None)\<rparr>"

text \<open>The updates, whether the user may write one, and the last update the user had read before.\<close>

definition site_update_list ::
  "staff_sets \<Rightarrow> int \<Rightarrow> 'a content_db_scheme \<Rightarrow> (siteupdate_view list \<times> bool \<times> int option) \<times> 'a content_db_scheme" where
  "site_update_list st userid db =
     (let updates = siteupdate_select_list st db;
          can_post = userid \<in> ADMINS st
      in if updates \<noteq> [] \<and> userid \<noteq> 0 then
           (let (last_read, db) = get_last_read_updateid userid db;
                last_read_updateid = (case last_read of None \<Rightarrow> 0 | Some i \<Rightarrow> i);
                max_updateid = sv_updateid (hd updates)
            in ((updates, can_post, Some last_read_updateid),
                if max_updateid > last_read_updateid then mark_update_read userid max_updateid db else db))
         else ((updates, can_post, None), db))"

definition site_update_get ::
  "staff_sets \<Rightarrow> int \<Rightarrow> int \<Rightarrow> 'a content_db_scheme
     \<Rightarrow> (siteupdate_view \<times> thread_comment list option) result \<times> 'a content_db_scheme" where
  "site_update_get st userid updateid db =
     and_then (siteupdate_select_view st updateid db) (\<lambda>update db.
       case comment_select st userid 0 0 0 updateid db of
         Inl e \<Rightarrow> (Inl e, db)
       | Inr comments \<Rightarrow>
           (Inr (update, comments),
            if userid = 0 then db
            else db\<lparr>t_login := update_where (\<lambda>lo. lo_userid lo = userid
                        \<and> (case lo_last_read_updateid lo of None \<Rightarrow> 0 | Some i \<Rightarrow> i) < updateid)
                      (\<lambda>lo. lo\<lparr>lo_last_read_updateid := Some updateid\<rparr>) (t_login db),
                    c_last_read := (c_last_read db)(userid := None)\<rparr>))"

definition check_update_form :: "staff_sets \<Rightarrow> int \<Rightarrow> string \<Rightarrow> string \<Rightarrow> unit result" where
  "check_update_form st userid title content =
     (if userid \<notin> ADMINS st then Inl (WeasylError ''InsufficientPermissions'')
      else if strip title = [] then Inl (WeasylError ''titleInvalid'')
      else if strip content = [] then Inl (WeasylError ''contentInvalid'')
      else Inr ())"

definition site_update_put ::
  "staff_sets \<Rightarrow> int \<Rightarrow> int \<Rightarrow> string \<Rightarrow> string \<Rightarrow> bool \<Rightarrow> 'a content_db_scheme \<Rightarrow> unit result \<times> 'a content_db_scheme" where
  "site_update_put st userid updateid title content as_wesley db =
     (case check_update_form st userid title content of
        Inl e \<Rightarrow> (Inl e, db)
      | Inr _ \<Rightarrow> siteupdate_edit updateid (strip title) (strip content) as_wesley db)"

definition site_update_post ::
  "staff_sets \<Rightarrow> int \<Rightarrow> int \<Rightarrow> string \<Rightarrow> string \<Rightarrow> bool \<Rightarrow> 'a content_db_scheme \<Rightarrow> int result \<times> 'a content_db_scheme" where
  "site_update_post st now userid title content as_wesley db =
     (case check_update_form st userid title content of
        Inl e \<Rightarrow> (Inl e, db)
      | Inr _ \<Rightarrow>
          (let (updateid, db) = siteupdate_create now userid (strip title) (strip content) as_wesley db
           in (Inr updateid, db\<lparr>c_updateids := None\<rparr>)))"


subsection \<open>The caches stay current\<close>

lemma update_view_frame:
  "t_profile db' = t_profile db \<Longrightarrow> update_view st db' = update_view st db"
  by (simp add: fun_eq_iff update_view_def update_author_def profile_of_def)

interpretation update_pages: cached_query "\<lambda>v. v \<noteq> None" "query_select_view st" peek_select_view store_select_view for st
proof
  fix v :: "siteupdate_view option option" and k k' and s :: "'a content_db_scheme"
  assume "\<And>x. v = Some x \<Longrightarrow> x \<noteq> None"
  then show "peek_select_view k (store_select_view k' v s) = (if k = k' then v else peek_select_view k s)"
    by (cases v) (auto simp: peek_select_view_def store_select_view_def)
qed (simp add: query_select_view_def store_select_view_def update_view_frame [of "_\<lparr>c_select_view := _\<rparr>"])

interpretation newest_update: cached_query "\<lambda>_. True" "query_select_last st" peek_select_last store_select_last for st
  by unfold_locales (auto simp: query_select_last_def peek_select_last_def store_select_last_def newest_updates_def
      update_view_def update_author_def profile_of_def shown_comments_def split: list.split)

definition updates_ok :: "staff_sets \<Rightarrow> 'a content_db_scheme \<Rightarrow> bool" where
  "updates_ok st db \<longleftrightarrow>
     distinct (map sit_updateid (t_siteupdate db))
     \<and> (\<forall>sit \<in> set (t_siteupdate db). 0 < sit_updateid sit \<and> sit_updateid sit < siteupdate_seq db) \<and> 0 < siteupdate_seq db
     \<and> update_pages.all_coherent st db \<and> newest_update.all_coherent st db
     \<and> coherent c_updateids query_updateids db
     \<and> (\<forall>userid. coherent (\<lambda>db. c_last_read db userid) (query_last_read userid) db)
     \<and> (\<forall>userid i. query_last_read userid db = Some i \<longrightarrow> i \<in> sit_updateid ` set (t_siteupdate db))"

inductive update_step :: "staff_sets \<Rightarrow> 'a content_db_scheme \<Rightarrow> 'a content_db_scheme \<Rightarrow> bool" for st where
  post: "update_step st db (snd (site_update_post st now userid title content as_wesley db))"
| put: "update_step st db (snd (site_update_put st userid updateid title content as_wesley db))"
| list: "update_step st db (snd (site_update_list st userid db))"
| get: "update_step st db (snd (site_update_get st userid updateid db))"
| last: "update_step st db (snd (select_last st db))"
| unread: "update_step st db (snd (site_update_unread_count userid db))"
| comment: "update_step st db (snd (comment_insert now userid submitid charid journalid updateid parentid content db))"
| uncomment: "update_step st db (snd (comment_remove st now userid feature commentid db))"

lemma coherent_updateids_read:
  "coherent c_updateids query_updateids db \<Longrightarrow> coherent c_updateids query_updateids (snd (get_updateids db))"
  by (auto simp: get_updateids_def read_through_def coherent_def query_updateids_def Let_def split: option.splits)

text \<open>What only the cached values of the users may change.\<close>

definition same_updates :: "'a content_db_scheme \<Rightarrow> 'a content_db_scheme \<Rightarrow> bool" where
  "same_updates db db' \<longleftrightarrow>
     t_siteupdate db' = t_siteupdate db \<and> siteupdate_seq db' = siteupdate_seq db \<and> t_profile db' = t_profile db
     \<and> t_siteupdatecomment db' = t_siteupdatecomment db"

lemma same_updates_queries:
  assumes "same_updates db db'"
  shows "query_select_view st i db' = query_select_view st i db"
    "query_select_last st u db' = query_select_last st u db"
    "query_updateids db' = query_updateids db"
proof -
  have "update_view st db' = update_view st db"
    using assms by (intro update_view_frame) (simp add: same_updates_def)
  with assms show "query_select_view st i db' = query_select_view st i db"
    "query_select_last st u db' = query_select_last st u db" "query_updateids db' = query_updateids db"
    by (simp_all add: same_updates_def query_select_view_def query_select_last_def query_updateids_def newest_updates_def
        shown_comments_def split: list.split)
qed

lemma updates_ok_iff:
  "updates_ok st db \<longleftrightarrow>
     distinct (map sit_updateid (t_siteupdate db))
     \<and> (\<forall>sit \<in> set (t_siteupdate db). 0 < sit_updateid sit \<and> sit_updateid sit < siteupdate_seq db) \<and> 0 < siteupdate_seq db
     \<and> (\<forall>i v. c_select_view db i = Some v \<longrightarrow> query_select_view st i db = Some v)
     \<and> (\<forall>v. c_select_last db = Some v \<longrightarrow> v = query_select_last st () db)
     \<and> (\<forall>v. c_updateids db = Some v \<longrightarrow> v = query_updateids db)
     \<and> (\<forall>userid v. c_last_read db userid = Some v \<longrightarrow> v = query_last_read userid db)
     \<and> (\<forall>userid i. query_last_read userid db = Some i \<longrightarrow> i \<in> sit_updateid ` set (t_siteupdate db))"
proof -
  have "update_pages.all_coherent st db \<longleftrightarrow> (\<forall>i v. c_select_view db i = Some v \<longrightarrow> query_select_view st i db = Some v)"
    by (fastforce simp: coherent_def peek_select_view_def)
  then show ?thesis by (simp add: updates_ok_def coherent_def peek_select_last_def)
qed

lemma updates_ok_read:
  assumes "updates_ok st db" "same_updates db db'" "t_login db' = t_login db"
    and "\<And>i. c_select_view db' i = c_select_view db i \<or> c_select_view db' i = query_select_view st i db"
    and "c_select_last db' = c_select_last db \<or> c_select_last db' = Some (query_select_last st () db)"
    and "c_updateids db' = c_updateids db \<or> c_updateids db' = Some (query_updateids db)"
    and "\<And>u. c_last_read db' u = c_last_read db u \<or> c_last_read db' u = Some (query_last_read u db)"
  shows "updates_ok st db'"
proof -
  have tables: "t_siteupdate db' = t_siteupdate db" "siteupdate_seq db' = siteupdate_seq db"
    "query_last_read u db' = query_last_read u db" for u
    using assms(2,3) by (simp_all add: same_updates_def query_last_read_def)
  show ?thesis
    unfolding updates_ok_iff tables same_updates_queries [OF assms(2)]
  proof (intro conjI allI impI)
    note ok = assms(1) [unfolded updates_ok_iff]
    show "query_select_view st i db = Some v" if "c_select_view db' i = Some v" for i v
      using that ok assms(4) [of i] by metis
    show "v = query_select_last st () db" if "c_select_last db' = Some v" for v
      using that ok assms(5) by auto
    show "v = query_updateids db" if "c_updateids db' = Some v" for v
      using that ok assms(6) by auto
    show "v = query_last_read u db" if "c_last_read db' u = Some v" for u v
      using that ok assms(7) [of u] by auto
  qed (use assms(1) in \<open>auto simp: updates_ok_iff\<close>)
qed

text \<open>Comments: the cached newest update, which counts them, is dropped with every change to the comments of updates.\<close>

lemma updates_ok_comment:
  assumes "updates_ok st db" "t_siteupdate db' = t_siteupdate db" "siteupdate_seq db' = siteupdate_seq db"
    "t_profile db' = t_profile db" "t_login db' = t_login db" "c_select_view db' = c_select_view db"
    "c_updateids db' = c_updateids db" "c_last_read db' = c_last_read db"
    and "c_select_last db' = None \<or> c_select_last db' = c_select_last db \<and> t_siteupdatecomment db' = t_siteupdatecomment db"
  shows "updates_ok st db'"
proof -
  have views: "update_view st db' = update_view st db" using assms(4) by (rule update_view_frame)
  have "query_select_view st i db' = query_select_view st i db" "query_updateids db' = query_updateids db"
    "query_last_read u db' = query_last_read u db" for i u
    using assms(2,5) by (simp_all add: query_select_view_def views query_updateids_def query_last_read_def)
  moreover have "query_select_last st () db' = query_select_last st () db" if "c_select_last db' \<noteq> None"
    using that assms(2,9) by (auto simp: query_select_last_def views newest_updates_def shown_comments_def split: list.split)
  ultimately show ?thesis
    using assms(1-3,6-9) by (auto simp: updates_ok_iff)
qed

text \<open>What telling users of a comment may change.\<close>

definition told :: "'a content_db_scheme \<Rightarrow> 'a content_db_scheme \<Rightarrow> bool" where
  "told db db' \<longleftrightarrow> (\<exists>ws n c h. db' = db\<lparr>t_welcome := ws, welcome_seq := n, c_all_config := c, c_page_header := h\<rparr>)"

lemma told_trans: "told a b \<Longrightarrow> told b c \<Longrightarrow> told a c"
  unfolding told_def by fastforce

lemma told_cases:
  "told db db" "welcome_only db db' \<Longrightarrow> told db db'" "config_read db db' \<Longrightarrow> told db db'"
  "told db (page_header_info_invalidate_multi us db)"
proof -
  have told: "told db (db\<lparr>t_welcome := ws, welcome_seq := n, c_all_config := c, c_page_header := h\<rparr>)" for ws n c h
    unfolding told_def by blast
  show "told db db" using told [where ws = "t_welcome db" and n = "welcome_seq db" and c = "c_all_config db" and h = "c_page_header db"] by simp
  show "told db db'" if "welcome_only db db'"
    using that told [where c = "c_all_config db" and h = "c_page_header db"] by (auto simp: welcome_only_def)
  show "told db db'" if "config_read db db'"
    using that told [where ws = "t_welcome db" and n = "welcome_seq db" and h = "c_page_header db"] by (auto simp: config_read_def)
  obtain h where "page_header_info_invalidate_multi us db = db\<lparr>c_page_header := h\<rparr>"
    using page_header_invalidate_frame by blast
  then show "told db (page_header_info_invalidate_multi us db)"
    using told [where ws = "t_welcome db" and n = "welcome_seq db" and c = "c_all_config db" and h = h] by simp
qed

lemma told_keeps_ok: "told db db' \<Longrightarrow> updates_ok st db \<Longrightarrow> updates_ok st db'"
  unfolding told_def by (auto elim!: updates_ok_comment)

lemma told_and_then: "told db (snd m) \<Longrightarrow> (\<And>x db'. told db' (snd (f x db'))) \<Longrightarrow> told db (snd (and_then m f))"
  by (cases m) (auto simp: and_then_def intro: told_trans split: sum.split)

lemma told_notify: "told db (snd (notify_comment now userid commentid parentid parentuserid otherid s c j u db))"
proof -
  have reply: "told db db'" if "welcome_commentreply_insert now userid commentid parentuserid parentid s c j u db = Inr db'" for db'
    using that by (auto simp: welcome_commentreply_insert_def Let_def intro!: told_cases(2) split: option.splits if_splits)
  have others: "told db db'" if "comment_notifications now userid commentid ns s c j u db = Inr db'"
    for db' ns and db :: "'a content_db_scheme"
    using comment_notifications_rows [OF that] by (blast intro: told_cases)
  have tell: "told db' (snd (case comment_notifications now userid commentid ns s c j u db' of
      Inl e \<Rightarrow> (Inl e, db') | Inr db \<Rightarrow> (Inr commentid, db)))" for ns and db' :: "'a content_db_scheme"
    using others by (simp add: told_cases(1) split: sum.split)
  have "told db (snd (and_then (if s \<noteq> 0 then can_notify userid (collection_find_owners s db) db else (Inr [], db))
      (\<lambda>notified db. case comment_notifications now userid commentid
          (filter (\<lambda>other. other \<noteq> userid) (remdups (notified @ [otherid]))) s c j u db of
        Inl e \<Rightarrow> (Inl e, db) | Inr db \<Rightarrow> (Inr commentid, db))))"
    by (rule told_and_then [OF _ tell]) (simp add: told_cases config_read_can_notify)
  moreover have "told db (snd (case welcome_commentreply_insert now userid commentid parentuserid parentid s c j u db of
      Inl e \<Rightarrow> (Inl e, db) | Inr db \<Rightarrow> (Inr commentid, db)))"
    using reply by (simp add: told_cases(1) split: sum.split)
  ultimately show ?thesis
    unfolding notify_comment_def if_distrib [of snd] by (simp only: told_cases(1) snd_conv if_split_asm split: if_split) blast
qed

lemma comment_keeps_ok:
  assumes "updates_ok st db"
  shows "updates_ok st (snd (comment_insert now userid s c j u parentid content db))"
proof -
  have "updates_ok st db'" if "add_comment now feature userid t parentid content db = (commentid, db')" for feature t commentid db'
    using that assms
    by (cases feature) (auto simp: add_comment_def add_comments_row_def elim!: updates_ok_comment)
  then show ?thesis
    using assms by (auto simp: comment_insert_def Let_def intro: told_keeps_ok [OF told_notify] split: sum.splits prod.splits)
qed

lemma uncomment_keeps_ok:
  assumes "updates_ok st db"
  shows "updates_ok st (snd (comment_remove st' now userid feature commentid db))"
proof -
  have "told db (welcome_comment_remove commentid feature db)"
    unfolding welcome_comment_remove_def Let_def
    by (rule told_trans [OF told_cases(2) [OF welcome_only_delete] told_cases(4)])
  then have "updates_ok st (welcome_comment_remove commentid feature db)"
    using assms by (rule told_keeps_ok)
  then have "updates_ok st (hide_comment now userid feature commentid (welcome_comment_remove commentid feature db))"
    by (rule updates_ok_comment) (cases feature; simp add: hide_comment_def hide_comments_row_def)+
  then show ?thesis
    using assms by (auto simp: comment_remove_def split: option.split)
qed

lemma read_effects:
  "snd (siteupdate_select_view st i db) = db \<or> snd (siteupdate_select_view st i db) = db\<lparr>c_select_view := (c_select_view db)(i := query_select_view st i db)\<rparr>"
  "snd (select_last st db) = db \<or> snd (select_last st db) = db\<lparr>c_select_last := Some (query_select_last st () db)\<rparr>"
  "snd (get_updateids db) = db \<or> snd (get_updateids db) = db\<lparr>c_updateids := Some (query_updateids db)\<rparr>"
  by (auto simp: siteupdate_select_view_def select_last_def get_updateids_def read_through_def Let_def store_select_view_def
      store_select_last_def split: option.splits)

lemma read_last_effect:
  "snd (get_last_read_updateid u db) = db
   \<or> snd (get_last_read_updateid u db) = db\<lparr>c_last_read := (c_last_read db)(u := Some (query_last_read u db))\<rparr>"
  by (auto simp: get_last_read_updateid_def read_through_def Let_def split: option.splits)

lemma reads_keep_ok:
  assumes "updates_ok st db"
  shows "updates_ok st (snd (siteupdate_select_view st i db))" "updates_ok st (snd (select_last st db))"
    "updates_ok st (snd (get_updateids db))" "updates_ok st (snd (get_last_read_updateid u db))"
  using read_effects(1) [of st i db] read_effects(2) [of st db] read_effects(3) [of db] read_last_effect [of u db]
  by (auto intro!: updates_ok_read [OF assms] simp: assms same_updates_def)

lemma post_keeps_ok:
  assumes "updates_ok st db"
  shows "updates_ok st (snd (site_update_post st now userid title content as_wesley db))"
proof (cases "check_update_form st userid title content")
  case (Inr u)
  define row where "row = \<lparr>sit_updateid = siteupdate_seq db, sit_userid = userid, sit_wesley = as_wesley,
    sit_title = strip title, sit_content = strip content, sit_unixtime = now\<rparr>"
  define db' where "db' = db\<lparr>t_siteupdate := t_siteupdate db @ [row], siteupdate_seq := siteupdate_seq db + 1,
    c_select_last := None, c_updateids := None\<rparr>"
  have post: "snd (site_update_post st now userid title content as_wesley db) = db'"
    by (simp add: site_update_post_def Inr siteupdate_create_def db'_def row_def)
  note ok = assms [unfolded updates_ok_iff]
  have views: "update_view st db' = update_view st db" by (rule update_view_frame) (simp add: db'_def)
  have "query_select_view st i db' = Some v" if "query_select_view st i db = Some v" for i v
    using that unfolding query_select_view_def views by (auto simp: db'_def find_append)
  moreover have "query_last_read u db' = query_last_read u db" for u
    by (simp add: query_last_read_def db'_def)
  ultimately show ?thesis
    unfolding post updates_ok_iff using ok by (fastforce simp: db'_def row_def)
qed (simp add: site_update_post_def assms)

lemma count_where_key:
  "distinct (map key rows) \<Longrightarrow> count_where (\<lambda>r. key r = k) rows = (if k \<in> key ` set rows then 1 else 0)"
  by (induction rows) (auto simp: count_where_def)

lemma put_keeps_ok:
  assumes "updates_ok st db"
  shows "updates_ok st (snd (site_update_put st userid updateid title content as_wesley db))"
proof (cases "check_update_form st userid title content")
  case (Inr u)
  note ok = assms [unfolded updates_ok_iff]
  define edit where "edit = (\<lambda>sit. sit\<lparr>sit_title := strip title, sit_content := strip content, sit_wesley := as_wesley\<rparr> :: siteupdate_row)"
  define db' where "db' = db\<lparr>t_siteupdate := update_where (\<lambda>sit. sit_updateid sit = updateid) edit (t_siteupdate db)\<rparr>"
  have keys: "map sit_updateid (t_siteupdate db') = map sit_updateid (t_siteupdate db)"
    by (simp add: db'_def edit_def map_key_update_where)
  then have ids: "sit_updateid ` set (t_siteupdate db') = sit_updateid ` set (t_siteupdate db)"
    by (metis set_map)
  have views: "update_view st db' = update_view st db" by (rule update_view_frame) (simp add: db'_def)
  have queries: "query_select_view st i db' = query_select_view st i db" if "i \<noteq> updateid" for i
    using that lookup_update_where [of "\<lambda>sit. sit_updateid sit = updateid" sit_updateid edit i "t_siteupdate db"]
    unfolding query_select_view_def views
    by (cases "find (\<lambda>sit. sit_updateid sit = i) (t_siteupdate db)") (auto simp: db'_def edit_def dest: find_SomeD)
  show ?thesis
  proof (cases "count_where (\<lambda>sit. sit_updateid sit = updateid) (t_siteupdate db) = 1")
    case False
    then have "\<forall>sit \<in> set (t_siteupdate db). sit_updateid sit \<noteq> updateid"
      using ok by (auto simp: count_where_key split: if_splits)
    then have "db' = db" by (simp add: db'_def update_where_def map_idI cong: map_cong)
    with False show ?thesis
      by (simp add: site_update_put_def Inr siteupdate_edit_def Let_def assms flip: edit_def db'_def)
  next
    case True
    define db2 where "db2 = db'\<lparr>c_select_view := (c_select_view db')(updateid := None), c_select_last := None\<rparr>"
    have put: "snd (site_update_put st userid updateid title content as_wesley db) = db2"
      using True by (simp add: site_update_put_def Inr siteupdate_edit_def Let_def db2_def flip: edit_def db'_def)
    have fields: "t_siteupdate db2 = t_siteupdate db'" "siteupdate_seq db2 = siteupdate_seq db" "c_select_last db2 = None"
      "c_select_view db2 i = (if i = updateid then None else c_select_view db i)" "c_updateids db2 = c_updateids db"
      "c_last_read db2 = c_last_read db" "query_last_read u db2 = query_last_read u db" for i u
      by (simp_all add: db2_def db'_def query_last_read_def)
    have "query_select_view st i db2 = query_select_view st i db'" for i
      by (rule same_updates_queries) (simp add: same_updates_def db2_def)
    with queries have views2: "query_select_view st i db2 = query_select_view st i db" if "i \<noteq> updateid" for i
      using that by simp
    have ids2: "query_updateids db2 = query_updateids db" using keys by (simp add: query_updateids_def fields)
    have "\<forall>i \<in> sit_updateid ` set (t_siteupdate db'). 0 < i \<and> i < siteupdate_seq db" unfolding ids using ok by blast
    then have range: "\<forall>sit \<in> set (t_siteupdate db'). 0 < sit_updateid sit \<and> sit_updateid sit < siteupdate_seq db" by blast
    show ?thesis
      unfolding put updates_ok_iff fields(1-3,5-7) ids2 keys ids using ok range
      by (simp add: fields views2)
  qed
qed (simp add: site_update_put_def assms)


lemma mark_keeps_ok:
  assumes "updates_ok st db" "i \<in> sit_updateid ` set (t_siteupdate db)" "\<And>lo. P lo \<Longrightarrow> lo_userid lo = userid"
  shows "updates_ok st (db\<lparr>t_login := update_where P (\<lambda>lo. lo\<lparr>lo_last_read_updateid := Some i\<rparr>) (t_login db),
     c_last_read := (c_last_read db)(userid := None)\<rparr>)" (is "updates_ok st ?db")
proof -
  note ok = assms(1) [unfolded updates_ok_iff]
  have same: "same_updates db ?db" by (simp add: same_updates_def)
  have look: "find (\<lambda>lo. lo_userid lo = u) (t_login ?db)
      = map_option (\<lambda>lo. if P lo then lo\<lparr>lo_last_read_updateid := Some i\<rparr> else lo) (find (\<lambda>lo. lo_userid lo = u) (t_login db))" for u
    using lookup_update_where [of P lo_userid "\<lambda>lo. lo\<lparr>lo_last_read_updateid := Some i\<rparr>" u "t_login db"] by simp
  have mine: "query_last_read u ?db = query_last_read u db \<or> u = userid \<and> query_last_read u ?db = Some i" for u
    using assms(3) unfolding query_last_read_def look
    by (cases "find (\<lambda>lo. lo_userid lo = u) (t_login db)") (auto dest: find_SomeD)
  have "v = query_last_read u ?db" if "c_last_read ?db u = Some v" for u v
    using that ok mine [of u] by (auto split: if_splits)
  moreover have "j \<in> sit_updateid ` set (t_siteupdate ?db)" if "query_last_read u ?db = Some j" for u j
    using that ok mine [of u] assms(2) by auto
  ultimately show ?thesis
    unfolding updates_ok_iff same_updates_queries [OF same] using ok by simp
qed

lemma list_keeps_ok:
  assumes "updates_ok st db"
  shows "updates_ok st (snd (site_update_list st userid db))"
proof -
  let ?db = "snd (get_last_read_updateid userid db)"
  have ok: "updates_ok st ?db" by (rule reads_keep_ok [OF assms])
  have rows: "t_siteupdate ?db = t_siteupdate db" using read_last_effect [of userid db] by auto
  have "sv_updateid (hd (siteupdate_select_list st db)) \<in> sit_updateid ` set (t_siteupdate ?db)"
    if "siteupdate_select_list st db \<noteq> []"
  proof -
    from that have "newest_updates db \<noteq> []" by (simp add: siteupdate_select_list_def)
    then have "hd (newest_updates db) \<in> set (t_siteupdate db)" unfolding newest_updates_def using hd_in_set by force
    with \<open>newest_updates db \<noteq> []\<close> show ?thesis by (simp add: siteupdate_select_list_def hd_map update_view_def rows)
  qed
  with ok assms mark_keeps_ok [OF ok] show ?thesis
    by (auto simp: site_update_list_def Let_def case_prod_unfold mark_update_read_def)
qed

lemma get_keeps_ok:
  assumes "updates_ok st db"
  shows "updates_ok st (snd (site_update_get st userid updateid db))"
proof -
  obtain r d where d: "siteupdate_select_view st updateid db = (r, d)" by (metis surj_pair)
  have ok: "updates_ok st d" using reads_keep_ok(1) [OF assms, of updateid] d by simp
  show ?thesis
  proof (cases r)
    case (Inl e)
    with d ok show ?thesis by (simp add: site_update_get_def)
  next
    case (Inr view)
    have "fst (read_through (\<lambda>v. v \<noteq> None) (peek_select_view updateid) (query_select_view st updateid) (store_select_view updateid) db)
        = query_select_view st updateid db"
      using assms by (intro update_pages.read_value) (simp add: updates_ok_def)
    with d Inr have "query_select_view st updateid db = Some view"
      by (auto simp: siteupdate_select_view_def case_prod_unfold Let_def split: option.splits)
    then have "updateid \<in> sit_updateid ` set (t_siteupdate db)"
      by (auto simp: query_select_view_def dest: find_SomeD)
    moreover have "t_siteupdate d = t_siteupdate db"
      using read_effects(1) [of st updateid db] d by auto
    ultimately have "updateid \<in> sit_updateid ` set (t_siteupdate d)" by simp
    then have mark: "updates_ok st (d\<lparr>t_login := update_where (\<lambda>lo. lo_userid lo = userid
          \<and> (case lo_last_read_updateid lo of None \<Rightarrow> 0 | Some i \<Rightarrow> i) < updateid)
        (\<lambda>lo. lo\<lparr>lo_last_read_updateid := Some updateid\<rparr>) (t_login d), c_last_read := (c_last_read d)(userid := None)\<rparr>)"
      by (rule mark_keeps_ok [OF ok]) simp
    show ?thesis
      using ok mark unfolding site_update_get_def d Inr and_then_simps by (simp split: sum.split)
  qed
qed

lemma update_step_ok: "update_step st db db' \<Longrightarrow> updates_ok st db \<Longrightarrow> updates_ok st db'"
proof (induction rule: update_step.induct)
  case (unread db userid)
  then show ?case
    by (simp add: site_update_unread_count_def Let_def case_prod_unfold reads_keep_ok)
qed (simp_all add: post_keeps_ok put_keeps_ok list_keeps_ok get_keeps_ok reads_keep_ok comment_keeps_ok uncomment_keeps_ok)

text \<open>How many updates are newer than the last one the user has read.\<close>

definition newer_updates :: "int \<Rightarrow> 'a content_db_scheme \<Rightarrow> int" where
  "newer_updates userid db =
     count_where (\<lambda>sit. case query_last_read userid db of None \<Rightarrow> True | Some i \<Rightarrow> i < sit_updateid sit) (t_siteupdate db)"

text \<open>
  C33: The news of the site are current. Whatever updates are written, edited, read and
  commented, the cached page of an update, the
  cached newest update and the number of unread updates in a user's header are what the tables say.
\<close>
theorem site_news_current:
  assumes "(update_step st)\<^sup>*\<^sup>* db db'" "updates_ok st db"
  shows "fst (siteupdate_select_view st updateid db')
        = (case query_select_view st updateid db' of None \<Rightarrow> Inl HTTPNotFound | Some view \<Rightarrow> Inr view)
      \<and> fst (select_last st db') = query_select_last st () db'
      \<and> fst (site_update_unread_count userid db') = Inr (newer_updates userid db')"
proof -
  have ok: "updates_ok st db'"
    using assms by (induction rule: rtranclp_induct) (auto intro: update_step_ok)
  have "fst (read_through (\<lambda>v. v \<noteq> None) (peek_select_view updateid) (query_select_view st updateid) (store_select_view updateid) db')
      = query_select_view st updateid db'"
    using ok by (intro update_pages.read_value) (simp add: updates_ok_def)
  moreover have "fst (select_last st db') = query_select_last st () db'"
    unfolding select_last_def using ok by (intro newest_update.read_value) (simp add: updates_ok_def)
  moreover have "fst (site_update_unread_count userid db') = Inr (newer_updates userid db')"
    unfolding newer_updates_def by (rule site_update_unread_correct) (use ok in \<open>auto simp: updates_ok_def\<close>)
  ultimately show ?thesis
    by (simp add: siteupdate_select_view_def case_prod_unfold Let_def)
qed

theorem site_news_current_witness:
  "let st = \<lparr>DIRECTORS = {}, ADMINS = {1}, MODS = {1}, DEVELOPERS = {}, WESLEY = Some 2\<rparr>;
       db = blank_db\<lparr>t_profile := [sample_profile 1 ''ann'' [], sample_profile 2 ''Wesley'' []],
         t_login := [\<lparr>lo_userid = 1, lo_login_name = ''ann'', lo_last_login = 0, lo_email = [], lo_twofa_secret = None,
           lo_ip_address_at_signup = None, lo_voucher = None, lo_last_read_updateid = None\<rparr>]\<rparr>;
       db1 = snd (select_last st db);
       db2 = snd (site_update_post st 9 1 '' News '' ''text'' True db1)
   in map_option (\<lambda>(v, n). (sv_title v, sv_username v, n)) (fst (select_last st db2)) = Some (''News'', Some ''Wesley'', 0)
      \<and> fst (site_update_unread_count 1 db2) = Inr 1"
  (is "let st = ?st; db = ?db; db1 = _; db2 = _ in _")
proof -
  define st where "st = ?st"
  define db where "db = ?db"
  define db1 where "db1 = snd (select_last st db)"
  define db2 where "db2 = snd (site_update_post st 9 1 '' News '' ''text'' True db1)"
  have "updates_ok st db"
    by (simp add: updates_ok_iff db_def blank_db_def query_last_read_def)
  moreover have "update_step st db db1" unfolding db1_def by (rule update_step.last)
  moreover have "update_step st db1 db2" unfolding db2_def by (rule update_step.post)
  ultimately have "fst (select_last st db2) = query_select_last st () db2 \<and> fst (site_update_unread_count 1 db2) = Inr (newer_updates 1 db2)"
    using site_news_current [of st db db2 0 1] by (meson r_into_rtranclp rtranclp.rtrancl_into_rtrancl)
  moreover have "map_option (\<lambda>(v, n). (sv_title v, sv_username v, n)) (query_select_last st () db2) = Some (''News'', Some ''Wesley'', 0)
      \<and> newer_updates 1 db2 = 1"
    unfolding db2_def db1_def db_def st_def by code_simp
  ultimately show ?thesis by (simp add: Let_def flip: st_def db_def db1_def db2_def)
qed

end
