(* ===== verification/Commissions.thy ===== *)
theory Commissions
  imports Tags
begin

text \<open>
  Commissions, \<^verbatim>\<open>weasyl/commishinfo.py\<close>, with the forms of \<^verbatim>\<open>weasyl/controllers/settings.py\<close> that change them. A user
  has classes of commissions (\<open>commishclass\<close>), prices in them (\<open>commishprice\<close>, in hundredths, with the letter of a
  currency and \<open>a\<close> for an add-on) and a description. A violated unique index raises \<open>IntegrityError\<close>, which the
  handlers for \<open>OperationalError\<close> do not catch. Exchange rates, which come from a service as floating-point numbers, and
  the search of the marketplace are left out.
\<close>

subsection \<open>Currencies\<close>

definition CURRENCY_CHARMAP :: "(char \<times> string) list" where
  "CURRENCY_CHARMAP =
     [(CHR ''e'', ''EUR''), (CHR ''p'', ''GBP''), (CHR ''y'', ''JPY''), (CHR ''c'', ''CAD''), (CHR ''m'', ''MXN''),
      (CHR ''u'', ''AUD''), (CHR ''z'', ''NZD''), (CHR ''n'', ''CNY''), (CHR ''f'', ''CHF'')]"

text \<open>The key \<open>""\<close> of the dictionary is no character; it is the default.\<close>

definition is_currency :: "char \<Rightarrow> bool" where
  "is_currency c = (map_of CURRENCY_CHARMAP c \<noteq> None)"

fun charmap_to_currency_code :: "string \<Rightarrow> string" where
  "charmap_to_currency_code [] = ''USD''"
| "charmap_to_currency_code (c # cs) =
     (case map_of CURRENCY_CHARMAP c of Some code \<Rightarrow> code | None \<Rightarrow> charmap_to_currency_code cs)"

text \<open>
  \<open>Decimal\<close> of a string of digits and points: the digits as a number and how many follow the point. A product is
  rounded, half to even, to the 28 digits of the default context.
\<close>

fun number_of_digits :: "int \<Rightarrow> nat" where
  "number_of_digits n = (if n < 10 then 1 else Suc (number_of_digits (n div 10)))"

declare number_of_digits.simps [simp del]

definition round_to_context :: "int \<Rightarrow> int" where
  "round_to_context n =
     (let q = 10 ^ (number_of_digits n - 28);
          r = n mod q;
          up = 2 * r > q \<or> (2 * r = q \<and> odd (n div q))
      in (n div q + (if up then 1 else 0)) * q)"

definition CURRENCY_PRECISION :: nat where
  "CURRENCY_PRECISION = 2"

definition parse_currency :: "ustr \<Rightarrow> int result" where
  "parse_currency target =
     (let digits = filter (\<lambda>c. is_digit c \<or> c = 46) target
      in if digits = [] then Inr 0
         else (case split_on 46 digits of
             [whole] \<Rightarrow> Inr (round_to_context (int_of_digits whole * 10 ^ CURRENCY_PRECISION))
           | [whole, fraction] \<Rightarrow>
               if whole = [] \<and> fraction = [] then Inl InvalidOperation
               else Inr (round_to_context (int_of_digits (whole @ fraction) * 10 ^ CURRENCY_PRECISION) div 10 ^ length fraction)
           | _ \<Rightarrow> Inl InvalidOperation))"

subsection \<open>Tables\<close>

record commishclass_row =
  ccl_classid :: int
  ccl_userid :: int
  ccl_title :: string

record commishprice_row =
  cp_priceid :: int
  cp_classid :: int
  cp_userid :: int
  cp_title :: string
  cp_amount_min :: int
  cp_amount_max :: int
  cp_settings :: string

record commishdesc_row =
  cd_userid :: int
  cd_content :: string

record commissions_db = tags_db +
  t_commishclass :: "commishclass_row list"
  t_commishprice :: "commishprice_row list"
  t_commishdesc :: "commishdesc_row list"

definition class_key :: "commishclass_row \<Rightarrow> int \<times> int" where
  "class_key c = (ccl_classid c, ccl_userid c)"

definition class_title_key :: "commishclass_row \<Rightarrow> int \<times> string" where
  "class_title_key c = (ccl_userid c, ccl_title c)"

definition price_key :: "commishprice_row \<Rightarrow> int \<times> int \<times> int" where
  "price_key p = (cp_priceid p, cp_classid p, cp_userid p)"

definition price_title_key :: "commishprice_row \<Rightarrow> int \<times> int \<times> string" where
  "price_title_key p = (cp_classid p, cp_userid p, cp_title p)"

text \<open>What a statement would make of a table is refused when it would break a unique index.\<close>

definition classes_unique :: "commishclass_row list \<Rightarrow> bool" where
  "classes_unique rows = (distinct (map class_key rows) \<and> distinct (map class_title_key rows))"

definition prices_unique :: "commishprice_row list \<Rightarrow> bool" where
  "prices_unique rows = (distinct (map price_key rows) \<and> distinct (map price_title_key rows))"

definition put_classes :: "commishclass_row list \<Rightarrow> 'a commissions_db_scheme \<Rightarrow> unit result \<times> 'a commissions_db_scheme" where
  "put_classes rows db =
     (if classes_unique rows then (Inr (), db\<lparr>t_commishclass := rows\<rparr>) else (Inl IntegrityError, db))"

definition put_prices :: "commishprice_row list \<Rightarrow> 'a commissions_db_scheme \<Rightarrow> unit result \<times> 'a commissions_db_scheme" where
  "put_prices rows db =
     (if prices_unique rows then (Inr (), db\<lparr>t_commishprice := rows\<rparr>) else (Inl IntegrityError, db))"

subsection \<open>Showing\<close>

record commission_class =
  cmc_classid :: int
  cmc_title :: string
  cmc_prices :: "commishprice_row list"

record commission_info =
  ci_classes :: "commission_class list"
  ci_content :: string

text \<open>\<open>classes[row.classid].prices.append(..)\<close> for the rows in the order of the query.\<close>

fun fill_classes :: "commishprice_row list \<Rightarrow> commission_class list \<Rightarrow> commission_class list result" where
  "fill_classes [] classes = Inr classes"
| "fill_classes (p # ps) classes =
     (if exists_where (\<lambda>c. cmc_classid c = cp_classid p) classes then
        fill_classes ps (update_where (\<lambda>c. cmc_classid c = cp_classid p) (\<lambda>c. c\<lparr>cmc_prices := cmc_prices c @ [p]\<rparr>) classes)
      else Inl KeyError)"

definition classes_of :: "int \<Rightarrow> 'a commissions_db_scheme \<Rightarrow> commishclass_row list" where
  "classes_of userid db = sort_key ccl_title (filter (\<lambda>c. ccl_userid c = userid) (t_commishclass db))"

definition prices_of :: "int \<Rightarrow> 'a commissions_db_scheme \<Rightarrow> commishprice_row list" where
  "prices_of userid db =
     sort_key cp_classid (sort_key cp_title (filter (\<lambda>p. cp_userid p = userid) (t_commishprice db)))"

definition commission_select :: "int \<Rightarrow> 'a commissions_db_scheme \<Rightarrow> commission_info result" where
  "commission_select userid db =
     map_sum id (\<lambda>classes. \<lparr>ci_classes = classes,
         ci_content = (case find (\<lambda>d. cd_userid d = userid) (t_commishdesc db) of None \<Rightarrow> [] | Some d \<Rightarrow> cd_content d)\<rparr>)
       (fill_classes (prices_of userid db)
          (map (\<lambda>c. \<lparr>cmc_classid = ccl_classid c, cmc_title = ccl_title c, cmc_prices = []\<rparr>) (classes_of userid db)))"

definition select_tag_preferences :: "int \<Rightarrow> 'a tags_db_scheme \<Rightarrow> string list \<times> string list" where
  "select_tag_preferences userid db =
     (let titles = (\<lambda>rows. sort (titles_of (map at_tagid (filter (\<lambda>a. at_targetid a = userid) rows)) db))
      in (titles (t_artist_preferred_tags db), titles (t_artist_optout_tags db)))"

subsection \<open>Changing\<close>

definition MAX_PRICE :: int where
  "MAX_PRICE = 99999999"

text \<open>\<open>SELECT MAX(..) + 1\<close>, and 1 when it is 0 or there is none.\<close>

definition next_id :: "int list \<Rightarrow> int" where
  "next_id ids = (case ids of [] \<Rightarrow> 1 | i # js \<Rightarrow> let n = fold max js i + 1 in if n = 0 then 1 else n)"

definition create_commission_class :: "int \<Rightarrow> string \<Rightarrow> 'a commissions_db_scheme \<Rightarrow> int result \<times> 'a commissions_db_scheme" where
  "create_commission_class userid title db =
     (if title = [] then (Inl (WeasylError ''titleInvalid''), db)
      else
        (let classid = next_id (map ccl_classid (filter (\<lambda>c. ccl_userid c = userid) (t_commishclass db)))
         in and_then (put_classes (t_commishclass db @ [\<lparr>ccl_classid = classid, ccl_userid = userid, ccl_title = title\<rparr>]) db)
              (\<lambda>_ db. (Inr classid, db))))"

text \<open>The attributes of the object \<open>price\<close>.\<close>

record price_form =
  pf_priceid :: int
  pf_classid :: int
  pf_title :: string
  pf_amount_min :: int
  pf_amount_max :: int

definition amounts_error :: "price_form \<Rightarrow> error option" where
  "amounts_error price =
     (if pf_amount_min price > MAX_PRICE then Some (WeasylError ''minamountInvalid'')
      else if pf_amount_max price > MAX_PRICE then Some (WeasylError ''maxamountInvalid'')
      else if pf_amount_max price \<noteq> 0 \<and> pf_amount_max price < pf_amount_min price then Some (WeasylError ''maxamountInvalid'')
      else None)"

definition class_exists :: "int \<Rightarrow> int \<Rightarrow> 'a commissions_db_scheme \<Rightarrow> bool" where
  "class_exists classid userid db = exists_where (\<lambda>c. class_key c = (classid, userid)) (t_commishclass db)"

text \<open>At most one currency, and optionally an \<open>a\<close> for an add-on.\<close>

definition new_price :: "int \<Rightarrow> price_form \<Rightarrow> string \<Rightarrow> string \<Rightarrow> 'a commissions_db_scheme \<Rightarrow> commishprice_row" where
  "new_price userid price currency settings db =
     \<lparr>cp_priceid = next_id (map cp_priceid (filter (\<lambda>p. cp_userid p = userid) (t_commishprice db))),
      cp_classid = pf_classid price, cp_userid = userid, cp_title = pf_title price,
      cp_amount_min = pf_amount_min price, cp_amount_max = pf_amount_max price,
      cp_settings = take 1 (filter is_currency currency) @ (if CHR ''a'' \<in> set settings then ''a'' else [])\<rparr>"

definition create_price ::
  "int \<Rightarrow> price_form \<Rightarrow> string \<Rightarrow> string \<Rightarrow> 'a commissions_db_scheme \<Rightarrow> unit result \<times> 'a commissions_db_scheme" where
  "create_price userid price currency settings db =
     (if pf_title price = [] then (Inl (WeasylError ''titleInvalid''), db)
      else case amounts_error price of
        Some e \<Rightarrow> (Inl e, db)
      | None \<Rightarrow>
          if pf_classid price = 0 \<or> \<not> class_exists (pf_classid price) userid db then (Inl (WeasylError ''classidInvalid''), db)
          else
            put_prices (t_commishprice db @ [new_price userid price currency settings db]) db)"

definition edit_class :: "int \<Rightarrow> int \<Rightarrow> string \<Rightarrow> 'a commissions_db_scheme \<Rightarrow> unit result \<times> 'a commissions_db_scheme" where
  "edit_class userid classid title db =
     (if title = [] then (Inl (WeasylError ''titleInvalid''), db)
      else put_classes (update_where (\<lambda>c. class_key c = (classid, userid)) (\<lambda>c. c\<lparr>ccl_title := title\<rparr>) (t_commishclass db)) db)"

definition edit_price ::
  "int \<Rightarrow> price_form \<Rightarrow> string \<Rightarrow> string \<Rightarrow> bool \<Rightarrow> 'a commissions_db_scheme \<Rightarrow> unit result \<times> 'a commissions_db_scheme" where
  "edit_price userid price currency settings edit_prices db =
     (case amounts_error price of
        Some e \<Rightarrow> (Inl e, db)
      | None \<Rightarrow>
          (let mine = (\<lambda>p. cp_priceid p = pf_priceid price \<and> cp_userid p = userid);
               updates = (\<lambda>p. p\<lparr>cp_settings := filter is_currency currency @ filter (\<lambda>c. c = CHR ''a'') settings,
                 cp_title := (if pf_title price \<noteq> [] then pf_title price else cp_title p),
                 cp_amount_min := (if edit_prices then pf_amount_min price else cp_amount_min p),
                 cp_amount_max := (if edit_prices then pf_amount_max price else cp_amount_max p)\<rparr>)
           in and_then (put_prices (update_where mine updates (t_commishprice db)) db) (\<lambda>_ db'.
                (if count_where mine (t_commishprice db) \<noteq> 1 then Inl (WeasylError ''priceidInvalid'') else Inr (), db'))))"

definition edit_content :: "int \<Rightarrow> string \<Rightarrow> 'a commissions_db_scheme \<Rightarrow> 'a commissions_db_scheme" where
  "edit_content userid content db =
     db\<lparr>t_commishdesc :=
          (if exists_where (\<lambda>d. cd_userid d = userid) (t_commishdesc db)
           then update_where (\<lambda>d. cd_userid d = userid) (\<lambda>d. d\<lparr>cd_content := content\<rparr>) (t_commishdesc db)
           else t_commishdesc db @ [\<lparr>cd_userid = userid, cd_content = content\<rparr>])\<rparr>"

text \<open>One transaction: the exception rolls it back.\<close>

definition remove_class :: "int \<Rightarrow> int \<Rightarrow> 'a commissions_db_scheme \<Rightarrow> unit result \<times> 'a commissions_db_scheme" where
  "remove_class userid classid db =
     (if count_where (\<lambda>c. class_key c = (classid, userid)) (t_commishclass db) \<noteq> 1
      then (Inl (WeasylError ''classidInvalid''), db)
      else (Inr (), db\<lparr>t_commishclass := delete_where (\<lambda>c. class_key c = (classid, userid)) (t_commishclass db),
             t_commishprice := delete_where (\<lambda>p. (cp_classid p, cp_userid p) = (classid, userid)) (t_commishprice db)\<rparr>))"

definition remove_price :: "int \<Rightarrow> int \<Rightarrow> 'a commissions_db_scheme \<Rightarrow> unit result \<times> 'a commissions_db_scheme" where
  "remove_price userid priceid db =
     (let mine = (\<lambda>p. (cp_priceid p, cp_userid p) = (priceid, userid))
      in (if count_where mine (t_commishprice db) \<noteq> 1 then Inl (WeasylError ''priceidInvalid'') else Inr (),
          db\<lparr>t_commishprice := delete_where mine (t_commishprice db)\<rparr>))"

subsection \<open>The forms\<close>

definition parse_amounts :: "ustr \<Rightarrow> ustr \<Rightarrow> (int \<times> int) result" where
  "parse_amounts min_amount max_amount =
     (case parse_currency min_amount of
        Inl e \<Rightarrow> Inl e
      | Inr lo \<Rightarrow> map_sum id (Pair lo) (parse_currency max_amount))"

definition no_dollar :: "string \<Rightarrow> string" where
  "no_dollar currency = filter (\<lambda>c. c \<noteq> CHR ''$'') currency"

text \<open>A price that is refused takes the new class with it; other exceptions leave the class.\<close>

definition control_createcommishclass ::
  "int \<Rightarrow> string \<Rightarrow> string \<Rightarrow> string \<Rightarrow> ustr \<Rightarrow> ustr \<Rightarrow> string \<Rightarrow> 'a commissions_db_scheme
     \<Rightarrow> unit result \<times> 'a commissions_db_scheme" where
  "control_createcommishclass userid title titlepreset price_title min_amount max_amount currency db =
     (let title = (if title \<noteq> [] then title else titlepreset)
      in and_then (create_commission_class userid (strip title) db) (\<lambda>classid db.
           case parse_amounts min_amount max_amount of
             Inl e \<Rightarrow> (Inl e, db)
           | Inr (lo, hi) \<Rightarrow>
               (case create_price userid \<lparr>pf_priceid = 0, pf_classid = classid, pf_title = strip price_title,
                      pf_amount_min = lo, pf_amount_max = hi\<rparr> (no_dollar currency) [] db of
                  (Inl (WeasylError we), db) \<Rightarrow>
                    and_then (remove_class userid classid db) (\<lambda>_ db. (Inl (WeasylError we), db))
                | other \<Rightarrow> other)))"

definition control_editcommishclass ::
  "int \<Rightarrow> string \<Rightarrow> string \<Rightarrow> 'a commissions_db_scheme \<Rightarrow> unit result \<times> 'a commissions_db_scheme" where
  "control_editcommishclass userid classid title db = edit_class userid (get_int classid) (strip title) db"

definition control_removecommishclass ::
  "int \<Rightarrow> string \<Rightarrow> 'a commissions_db_scheme \<Rightarrow> unit result \<times> 'a commissions_db_scheme" where
  "control_removecommishclass userid classid db =
     (if get_int classid = 0 then (Inl (WeasylError ''classidInvalid''), db) else remove_class userid (get_int classid) db)"

definition control_createcommishprice ::
  "int \<Rightarrow> string \<Rightarrow> string \<Rightarrow> ustr \<Rightarrow> ustr \<Rightarrow> string \<Rightarrow> string \<Rightarrow> 'a commissions_db_scheme \<Rightarrow> unit result \<times> 'a commissions_db_scheme" where
  "control_createcommishprice userid title classid min_amount max_amount currency settings db =
     (case parse_amounts min_amount max_amount of
        Inl e \<Rightarrow> (Inl e, db)
      | Inr (lo, hi) \<Rightarrow>
          create_price userid \<lparr>pf_priceid = 0, pf_classid = get_int classid, pf_title = strip title,
            pf_amount_min = lo, pf_amount_max = hi\<rparr> (no_dollar currency) settings db)"

definition control_editcommishprice ::
  "int \<Rightarrow> string \<Rightarrow> string \<Rightarrow> ustr \<Rightarrow> ustr \<Rightarrow> string \<Rightarrow> string \<Rightarrow> 'a commissions_db_scheme \<Rightarrow> unit result \<times> 'a commissions_db_scheme" where
  "control_editcommishprice userid priceid title min_amount max_amount currency settings db =
     (case parse_amounts min_amount max_amount of
        Inl e \<Rightarrow> (Inl e, db)
      | Inr (lo, hi) \<Rightarrow>
          edit_price userid \<lparr>pf_priceid = get_int priceid, pf_classid = 0, pf_title = strip title,
            pf_amount_min = lo, pf_amount_max = hi\<rparr> (no_dollar currency) settings (lo \<noteq> 0 \<or> hi \<noteq> 0) db)"

definition control_removecommishprice ::
  "int \<Rightarrow> string \<Rightarrow> 'a commissions_db_scheme \<Rightarrow> unit result \<times> 'a commissions_db_scheme" where
  "control_removecommishprice userid priceid db =
     (if get_int priceid = 0 then (Inl (WeasylError ''priceidInvalid''), db) else remove_price userid (get_int priceid) db)"

subsection \<open>Prices stay valid\<close>

definition price_valid :: "commishprice_row \<Rightarrow> bool" where
  "price_valid p =
     (cp_title p \<noteq> [] \<and> 0 \<le> cp_amount_min p \<and> cp_amount_min p \<le> MAX_PRICE
      \<and> (cp_amount_max p = 0 \<or> cp_amount_min p \<le> cp_amount_max p \<and> cp_amount_max p \<le> MAX_PRICE)
      \<and> list_all (\<lambda>c. is_currency c \<or> c = CHR ''a'') (cp_settings p))"

definition commissions_ok :: "'a commissions_db_scheme \<Rightarrow> bool" where
  "commissions_ok db \<longleftrightarrow>
     classes_unique (t_commishclass db) \<and> prices_unique (t_commishprice db)
     \<and> distinct (map (\<lambda>p. (cp_priceid p, cp_userid p)) (t_commishprice db))
     \<and> (\<forall>p \<in> set (t_commishprice db). price_valid p \<and> (cp_classid p, cp_userid p) \<in> class_key ` set (t_commishclass db))
     \<and> (\<forall>c \<in> set (t_commishclass db). ccl_title c \<noteq> [])"

lemma round_nonneg: "0 \<le> n \<Longrightarrow> 0 \<le> round_to_context n"
  by (simp add: round_to_context_def Let_def pos_imp_zdiv_nonneg_iff)

lemma digits_nonneg: "list_all is_digit s \<Longrightarrow> 0 \<le> int_of_digits s"
  by (induction s rule: rev_induct) (auto simp: is_digit_def)

lemma parse_currency_nonneg:
  assumes "parse_currency s = Inr n"
  shows "0 \<le> n"
proof -
  let ?digits = "filter (\<lambda>c. is_digit c \<or> c = 46) s"
  have "list_all is_digit w" if "w \<in> set (split_on 46 ?digits)" for w
    using split_on_no_sep [OF that] by (auto simp: list_all_iff)
  then have parts: "\<forall>w \<in> set (split_on 46 ?digits). list_all is_digit w" by blast
  have whole: "0 \<le> round_to_context (int_of_digits w * 10 ^ CURRENCY_PRECISION)" if "list_all is_digit w" for w
    using digits_nonneg [OF that] by (intro round_nonneg) simp
  show ?thesis
    using assms parts whole
    by (auto simp: parse_currency_def Let_def pos_imp_zdiv_nonneg_iff split: list.splits if_splits)
qed

lemma parse_amounts_nonneg: "parse_amounts s t = Inr (lo, hi) \<Longrightarrow> 0 \<le> lo \<and> 0 \<le> hi"
  using parse_currency_nonneg [of s] parse_currency_nonneg [of t]
  by (cases "parse_currency s"; cases "parse_currency t") (auto simp: parse_amounts_def)

lemma next_id_fresh: "next_id ids \<notin> set ids"
proof (cases ids)
  case (Cons i js)
  have "x \<le> fold max js i" if "x \<in> set ids" for x
    using that Max_ge [of "set (i # js)" x] unfolding Cons Max.set_eq_fold by simp
  then have "next_id ids \<in> set ids \<Longrightarrow> next_id ids \<le> fold max js i" by blast
  then show ?thesis by (auto simp: next_id_def Cons Let_def split: if_splits)
qed (simp add: next_id_def)

lemma snd_and_then_same: "(\<And>x d. snd (f x d) = d) \<Longrightarrow> snd (and_then r f) = snd r"
  by (cases r; cases "fst r") (auto simp: and_then_def)

text \<open>What a statement on the prices keeps.\<close>

lemma put_prices_ok:
  assumes "commissions_ok db" "distinct (map (\<lambda>p. (cp_priceid p, cp_userid p)) rows)"
    and "\<And>p. p \<in> set rows \<Longrightarrow> price_valid p \<and> (cp_classid p, cp_userid p) \<in> class_key ` set (t_commishclass db)"
  shows "commissions_ok (snd (put_prices rows db))"
  using assms by (auto simp: put_prices_def commissions_ok_def)

lemma create_price_ok:
  assumes "commissions_ok db" "0 \<le> pf_amount_min price" "0 \<le> pf_amount_max price"
  shows "commissions_ok (snd (create_price userid price currency settings db))"
proof -
  let ?row = "new_price userid price currency settings db"
  have "distinct (map (\<lambda>p. (cp_priceid p, cp_userid p)) (t_commishprice db @ [?row]))"
    using assms(1) next_id_fresh [of "map cp_priceid (filter (\<lambda>p. cp_userid p = userid) (t_commishprice db))"]
    by (force simp: commissions_ok_def new_price_def)
  moreover have "price_valid ?row" if "pf_title price \<noteq> []" "amounts_error price = None"
    using that assms(2,3) by (auto simp: price_valid_def new_price_def amounts_error_def list_all_iff split: if_splits dest: in_set_takeD)
  moreover have "(cp_classid ?row, cp_userid ?row) \<in> class_key ` set (t_commishclass db)" if "class_exists (pf_classid price) userid db"
    using that by (force simp: class_exists_def exists_where_iff new_price_def)
  ultimately have "commissions_ok (snd (put_prices (t_commishprice db @ [?row]) db))"
    if "pf_title price \<noteq> []" "amounts_error price = None" "class_exists (pf_classid price) userid db"
    using that assms(1) by (intro put_prices_ok) (auto simp: commissions_ok_def)
  then show ?thesis
    using assms(1) by (auto simp: create_price_def split: option.split)
qed

lemma edit_price_ok:
  assumes "commissions_ok db" "0 \<le> pf_amount_min price" "0 \<le> pf_amount_max price"
  shows "commissions_ok (snd (edit_price userid price currency settings edit_prices db))"
proof (cases "amounts_error price")
  case None
  let ?mine = "\<lambda>p. cp_priceid p = pf_priceid price \<and> cp_userid p = userid"
  define updates where "updates = (\<lambda>p. p\<lparr>cp_settings := filter is_currency currency @ filter (\<lambda>c. c = CHR ''a'') settings,
       cp_title := (if pf_title price \<noteq> [] then pf_title price else cp_title p),
       cp_amount_min := (if edit_prices then pf_amount_min price else cp_amount_min p),
       cp_amount_max := (if edit_prices then pf_amount_max price else cp_amount_max p)\<rparr> :: commishprice_row)"
  have keys: "cp_priceid (updates p) = cp_priceid p" "cp_classid (updates p) = cp_classid p" "cp_userid (updates p) = cp_userid p" for p
    by (simp_all add: updates_def)
  have valid: "price_valid (updates p)" if "price_valid p" for p
    using that None assms(2,3)
    by (auto simp: price_valid_def updates_def amounts_error_def list_all_iff split: if_splits)
  have "commissions_ok (snd (put_prices (update_where ?mine updates (t_commishprice db)) db))"
  proof (rule put_prices_ok [OF assms(1)])
    show "distinct (map (\<lambda>p. (cp_priceid p, cp_userid p)) (update_where ?mine updates (t_commishprice db)))"
      using assms(1) map_key_update_where [of ?mine "\<lambda>p. (cp_priceid p, cp_userid p)" updates "t_commishprice db"]
      by (simp add: keys commissions_ok_def)
    show "price_valid p \<and> (cp_classid p, cp_userid p) \<in> class_key ` set (t_commishclass db)"
      if "p \<in> set (update_where ?mine updates (t_commishprice db))" for p
      using that assms(1) by (auto simp: table_simps keys valid commissions_ok_def)
  qed
  then show ?thesis
    by (simp add: edit_price_def None Let_def snd_and_then_same flip: updates_def)
qed (simp add: edit_price_def assms)

lemma put_classes_ok:
  assumes "commissions_ok db" "class_key ` set (t_commishclass db) \<subseteq> class_key ` set rows" "\<forall>c \<in> set rows. ccl_title c \<noteq> []"
  shows "commissions_ok (snd (put_classes rows db))"
  using assms by (auto simp: put_classes_def commissions_ok_def)

lemma create_class_ok:
  assumes "commissions_ok db"
  shows "commissions_ok (snd (create_commission_class userid title db))"
proof -
  have "commissions_ok (snd (put_classes (t_commishclass db @ [\<lparr>ccl_classid = i, ccl_userid = userid, ccl_title = title\<rparr>]) db))"
    if "title \<noteq> []" for i
    using assms that by (intro put_classes_ok) (auto simp: commissions_ok_def)
  then show ?thesis
    using assms by (simp add: create_commission_class_def Let_def snd_and_then_same)
qed

lemma edit_class_ok:
  assumes "commissions_ok db"
  shows "commissions_ok (snd (edit_class userid classid title db))"
proof -
  have "class_key ` set (update_where P (\<lambda>c. c\<lparr>ccl_title := title\<rparr>) rows) = class_key ` set rows" for P rows
    using map_key_update_where [of P class_key "\<lambda>c. c\<lparr>ccl_title := title\<rparr>" rows]
    by (metis class_key_def commishclass_row.select_convs(1,2) commishclass_row.surjective commishclass_row.update_convs(3) set_map)
  then show ?thesis
    using assms by (auto simp: edit_class_def table_simps intro!: put_classes_ok) (auto simp: commissions_ok_def)
qed

lemma remove_class_ok:
  assumes "commissions_ok db"
  shows "commissions_ok (snd (remove_class userid classid db))"
  using assms
  by (auto simp: remove_class_def commissions_ok_def classes_unique_def prices_unique_def distinct_map_delete_where table_simps class_key_def image_iff)

lemma remove_price_ok:
  assumes "commissions_ok db"
  shows "commissions_ok (snd (remove_price userid priceid db))"
  using assms by (auto simp: remove_price_def Let_def commissions_ok_def prices_unique_def distinct_map_delete_where table_simps)

subsection \<open>Any use of the forms\<close>

inductive commission_step :: "'a commissions_db_scheme \<Rightarrow> 'a commissions_db_scheme \<Rightarrow> bool" where
  create_class: "commission_step db (snd (control_createcommishclass userid title preset price_title lo hi currency db))"
| edit_class: "commission_step db (snd (control_editcommishclass userid classid title db))"
| remove_class: "commission_step db (snd (control_removecommishclass userid classid db))"
| create_price: "commission_step db (snd (control_createcommishprice userid title classid lo hi currency settings db))"
| edit_price: "commission_step db (snd (control_editcommishprice userid priceid title lo hi currency settings db))"
| remove_price: "commission_step db (snd (control_removecommishprice userid priceid db))"
| edit_content: "commission_step db (edit_content userid content db)"

lemma and_then_keeps:
  assumes "P (snd r)" "\<And>x d. r = (Inr x, d) \<Longrightarrow> P d \<Longrightarrow> P (snd (f x d))"
  shows "P (snd (and_then r f))"
  using assms by (cases r; cases "fst r") (auto simp: and_then_def)

lemma create_class_form_ok:
  assumes "commissions_ok db"
  shows "commissions_ok (snd (control_createcommishclass userid title preset price_title lo hi currency db))"
  unfolding control_createcommishclass_def Let_def
proof (rule and_then_keeps [where P = commissions_ok, OF create_class_ok [OF assms]])
  fix classid d
  assume d: "commissions_ok d"
  show "commissions_ok (snd (case parse_amounts lo hi of
      Inl e \<Rightarrow> (Inl e, d)
    | Inr (lo, hi) \<Rightarrow>
        (case create_price userid \<lparr>pf_priceid = 0, pf_classid = classid, pf_title = strip price_title,
               pf_amount_min = lo, pf_amount_max = hi\<rparr> (no_dollar currency) [] d of
           (Inl (WeasylError we), db) \<Rightarrow> and_then (remove_class userid classid db) (\<lambda>_ db. (Inl (WeasylError we), db))
         | other \<Rightarrow> other)))"
  proof (cases "parse_amounts lo hi")
    case (Inr amounts)
    obtain l h where amounts: "amounts = (l, h)" by (cases amounts)
    define p where "p = create_price userid \<lparr>pf_priceid = 0, pf_classid = classid, pf_title = strip price_title,
               pf_amount_min = l, pf_amount_max = h\<rparr> (no_dollar currency) [] d"
    have ok: "commissions_ok (snd p)"
      unfolding p_def using parse_amounts_nonneg [of lo hi l h] Inr amounts by (intro create_price_ok [OF d]) auto
    have "commissions_ok (snd (case p of (Inl (WeasylError we), db) \<Rightarrow> and_then (remove_class userid classid db) (\<lambda>_ db. (Inl (WeasylError we), db))
         | other \<Rightarrow> other))"
      using ok by (cases p) (auto simp: snd_and_then_same remove_class_ok split: sum.split error.split)
    then show ?thesis by (simp add: Inr amounts flip: p_def)
  qed (simp add: d)
qed

lemma commission_step_ok: "commission_step db db' \<Longrightarrow> commissions_ok db \<Longrightarrow> commissions_ok db'"
proof (induction rule: commission_step.induct)
  case (create_price db userid title classid lo hi currency settings)
  then show ?case
    using parse_amounts_nonneg [of lo hi]
    by (auto simp: control_createcommishprice_def intro!: create_price_ok split: sum.split prod.split)
next
  case (edit_price db userid priceid title lo hi currency settings)
  then show ?case
    using parse_amounts_nonneg [of lo hi]
    by (auto simp: control_editcommishprice_def intro!: edit_price_ok split: sum.split prod.split)
next
  case (edit_content db userid content)
  then show ?case by (simp add: edit_content_def commissions_ok_def)
qed (simp_all add: create_class_form_ok control_editcommishclass_def edit_class_ok control_removecommishclass_def remove_class_ok
    control_removecommishprice_def remove_price_ok)

lemma fill_classes_all:
  assumes "\<forall>p \<in> set ps. cp_classid p \<in> cmc_classid ` set cs"
  shows "fill_classes ps cs = Inr (map (\<lambda>c. c\<lparr>cmc_prices := cmc_prices c @ filter (\<lambda>p. cp_classid p = cmc_classid c) ps\<rparr>) cs)"
  using assms
proof (induction ps arbitrary: cs)
  case (Cons p ps)
  let ?cs = "update_where (\<lambda>c. cmc_classid c = cp_classid p) (\<lambda>c. c\<lparr>cmc_prices := cmc_prices c @ [p]\<rparr>) cs"
  have "map cmc_classid ?cs = map cmc_classid cs" by (rule map_key_update_where) simp
  then have "cmc_classid ` set ?cs = cmc_classid ` set cs" by (metis set_map)
  with Cons.prems have "fill_classes ps ?cs
      = Inr (map (\<lambda>c. c\<lparr>cmc_prices := cmc_prices c @ filter (\<lambda>p. cp_classid p = cmc_classid c) ps\<rparr>) ?cs)"
    by (intro Cons.IH) auto
  moreover have "exists_where (\<lambda>c. cmc_classid c = cp_classid p) cs"
    using Cons.prems by (force simp: exists_where_iff)
  ultimately show ?case by (auto simp: update_where_def)
qed simp

text \<open>
  C31: The list of commissions of a user always shows: whatever the forms were used for, it is made without an error
  of the user's classes with, below each, exactly its prices; every price has a title and at most one limit on either
  side, between nothing and \<open>MAX_PRICE\<close>, the lower not above the upper.
\<close>
theorem commissions_shown:
  assumes "commission_step\<^sup>*\<^sup>* db db'" "commissions_ok db"
  shows "commission_select userid db' = Inr
      \<lparr>ci_classes = map (\<lambda>c. \<lparr>cmc_classid = ccl_classid c, cmc_title = ccl_title c,
           cmc_prices = filter (\<lambda>p. cp_classid p = ccl_classid c) (prices_of userid db')\<rparr>) (classes_of userid db'),
       ci_content = (case find (\<lambda>d. cd_userid d = userid) (t_commishdesc db') of None \<Rightarrow> [] | Some d \<Rightarrow> cd_content d)\<rparr>
    \<and> list_all price_valid (prices_of userid db')"
proof -
  have ok: "commissions_ok db'"
    using assms by (induction rule: rtranclp_induct) (auto intro: commission_step_ok)
  have "\<forall>p \<in> set (prices_of userid db'). cp_classid p \<in> ccl_classid ` set (classes_of userid db')"
    using ok by (fastforce simp: prices_of_def classes_of_def commissions_ok_def class_key_def)
  moreover have "list_all price_valid (prices_of userid db')"
    using ok by (auto simp: prices_of_def commissions_ok_def list_all_iff)
  ultimately show ?thesis
    by (simp add: commission_select_def fill_classes_all image_image comp_def)
qed

definition commissions_start :: commissions_db where
  "commissions_start = tags_db.extend blank_db (commissions_db.fields [] [] [])"

theorem commissions_shown_witness:
  "let db1 = snd (control_createcommishclass 1 ''Badge'' [] '' Colour '' (ustr ''$10'') (ustr ''12.50'') ''e'' commissions_start);
       db2 = snd (control_editcommishprice 1 ''1'' [] (ustr ''9'') (ustr ''8'') [] [] db1)
   in map_sum id (\<lambda>i. map (\<lambda>c. (cmc_title c, map (\<lambda>p. (cp_title p, cp_amount_min p, cp_amount_max p, cp_settings p)) (cmc_prices c))) (ci_classes i))
        (commission_select 1 db2) = Inr [(''Badge'', [(''Colour'', 1000, 1250, ''e'')])]"
proof -
  define db1 where "db1 = snd (control_createcommishclass 1 ''Badge'' [] '' Colour '' (ustr ''$10'') (ustr ''12.50'') ''e'' commissions_start)"
  define db2 where "db2 = snd (control_editcommishprice 1 ''1'' [] (ustr ''9'') (ustr ''8'') [] [] db1)"
  have "commission_step commissions_start db1" unfolding db1_def by (rule commission_step.create_class)
  moreover have "commission_step db1 db2" unfolding db2_def by (rule commission_step.edit_price)
  ultimately have "commission_step\<^sup>*\<^sup>* commissions_start db2" by (meson r_into_rtranclp rtranclp.rtrancl_into_rtrancl)
  moreover have "commissions_ok commissions_start" by code_simp
  ultimately have shown: "commission_select 1 db2 = Inr
      \<lparr>ci_classes = map (\<lambda>c. \<lparr>cmc_classid = ccl_classid c, cmc_title = ccl_title c,
           cmc_prices = filter (\<lambda>p. cp_classid p = ccl_classid c) (prices_of 1 db2)\<rparr>) (classes_of 1 db2),
       ci_content = (case find (\<lambda>d. cd_userid d = 1) (t_commishdesc db2) of None \<Rightarrow> [] | Some d \<Rightarrow> cd_content d)\<rparr>"
    using commissions_shown [of commissions_start db2 1] by blast
  have db1: "(classes_of 1 db2, prices_of 1 db2)
    = ([\<lparr>ccl_classid = 1, ccl_userid = 1, ccl_title = ''Badge''\<rparr>],
       [\<lparr>cp_priceid = 1, cp_classid = 1, cp_userid = 1, cp_title = ''Colour'', cp_amount_min = 1000, cp_amount_max = 1250, cp_settings = ''e''\<rparr>])"
    unfolding db2_def db1_def by code_simp
  show ?thesis using shown db1 by (simp add: Let_def flip: db1_def db2_def)
qed

text \<open>A title in use raises \<open>IntegrityError\<close>, not the error the code means to show; so does the form, which leaves the class.\<close>

lemma duplicate_class_uncaught:
  "let db1 = snd (control_createcommishclass 1 ''Badge'' [] ''Colour'' (ustr ''10'') [] [] commissions_start)
   in fst (control_createcommishclass 1 ''Badge'' [] ''Colour'' (ustr ''10'') [] [] db1) = Inl IntegrityError"
  by code_simp

lemma points_in_price: "parse_currency (ustr ''1.234.567'') = Inl InvalidOperation"
  by code_simp

lemma edited_price_two_currencies:
  "let db1 = snd (control_createcommishclass 1 ''Badge'' [] ''Colour'' (ustr ''10'') [] [] commissions_start);
       db2 = snd (control_editcommishprice 1 ''1'' [] [] [] ''epy'' ''aa'' db1)
   in map cp_settings (t_commishprice db2) = [''epyaa'']"
  by code_simp

end
