(* ===== verification/Reports.thy ===== *)
theory Reports
  imports Notes Tags "HOL-Library.Sublist"
begin

text \<open>
  Reports of posts to the moderators: \<^verbatim>\<open>weasyl/report.py\<close> with the class \<open>Report\<close> of
  \<^verbatim>\<open>libweasyl/models/content.py\<close> and the table of violations of \<^verbatim>\<open>weasyl/macro.py\<close>. A report is about one post and
  has comments: the complaints of users (\<open>violation \<noteq> 0\<close>) and the remarks of moderators. Nothing is written before
  \<open>flush\<close>, which commits. Numbers the code reads by \<open>int\<close> are given as \<open>int\<close>. Media are left out.
\<close>

subsection \<open>Tables\<close>

datatype closure_reason = Legacy | Action_taken | No_action_taken | Invalid_report

record report_row =
  rp_reportid :: int
  rp_target_user :: "int option"
  rp_target_sub :: "int option"
  rp_target_char :: "int option"
  rp_target_journal :: "int option"
  rp_target_comment :: "int option"
  rp_opened_at :: int
  rp_urgency :: int
  rp_closerid :: "int option"
  rp_settings :: string
  rp_closed_at :: "int option"
  rp_closure_reason :: "closure_reason option"
  rp_closure_explanation :: "string option"

record reportcomment_row =
  rk_commentid :: int
  rk_reportid :: int
  rk_violation :: int
  rk_userid :: int
  rk_unixtime :: int
  rk_content :: string

record reports_db = tags_db +
  t_report :: "report_row list"
  report_seq :: int
  t_reportcomment :: "reportcomment_row list"
  reportcomment_seq :: int

definition is_under_review :: "report_row \<Rightarrow> bool" where
  "is_under_review r = has_flag (CHR ''r'') (rp_settings r)"

definition report_is_closed :: "report_row \<Rightarrow> bool" where
  "report_is_closed r = (rp_closerid r \<noteq> None \<and> \<not> is_under_review r)"

definition report_status :: "report_row \<Rightarrow> string" where
  "report_status r =
     (if rp_closerid r = None then ''open'' else if is_under_review r then ''review'' else ''closed'')"

definition related_reports :: "report_row \<Rightarrow> 'a reports_db_scheme \<Rightarrow> report_row list" where
  "related_reports r db =
     sort_key rp_opened_at (filter (\<lambda>x.
       (rp_target_user x, rp_target_sub x, rp_target_char x, rp_target_journal x, rp_target_comment x)
         = (rp_target_user r, rp_target_sub r, rp_target_char r, rp_target_journal r, rp_target_comment r)
       \<and> rp_reportid x \<noteq> rp_reportid r) (t_report db))"

subsection \<open>Violations\<close>

text \<open>Id, urgency, text, and whether a comment is required.\<close>

definition MACRO_REPORT_VIOLATION :: "(int \<times> int \<times> string \<times> bool) list" where
  "MACRO_REPORT_VIOLATION =
     [(0, 0, ''Comment'', False),
      (1010, 10, ''Inappropriate avatar'', False),
      (1020, 10, ''Inappropriate profile picture'', False),
      (1030, 20, ''Spam or alternate account'', False),
      (1999, 20, ''Other (please comment)'', True),
      (2010, 20, ''Harassing content'', False),
      (2020, 30, ''Tracing or plagiarism'', True),
      (2030, 10, ''Rapidly flashing colors'', False),
      (2040, 10, ''Incorrect content rating'', False),
      (2050, 20, ''Perpetual incorrect tagging'', False),
      (2060, 30, ''Low-quality photography'', False),
      (2065, 30, ''Low-quality literature'', False),
      (2070, 20, ''Spamming or flooding'', False),
      (2080, 20, ''Meme or image macro'', False),
      (2090, 20, ''Unacceptable screenshot'', False),
      (2110, 10, ''Illegal content'', False),
      (2120, 10, ''Photographic pornography'', False),
      (2130, 10, ''Offensive content'', False),
      (2140, 10, ''Misleading thumbnail'', False),
      (2999, 20, ''Other (please comment)'', True),
      (3010, 20, ''Harassing content'', False),
      (3020, 20, ''Spamming or flooding'', False),
      (3030, 10, ''Illegal activity'', False),
      (3040, 10, ''Offensive content'', False),
      (3999, 20, ''Other (please comment)'', True),
      (4010, 20, ''Harassing comment'', False),
      (4020, 20, ''Spamming or flooding'', False),
      (4030, 20, ''Inappropriate comment'', False),
      (4999, 20, ''Other (please comment)'', True)]"

definition convert_violation :: "int \<Rightarrow> string" where
  "convert_violation target =
     (case find (\<lambda>(i, _). i = target) MACRO_REPORT_VIOLATION of None \<Rightarrow> ''Unknown'' | Some (_, _, s, _) \<Rightarrow> s)"

subsection \<open>Reporting\<close>

datatype report_target = Target_sub int | Target_char int | Target_journal int

definition dict_of_targetid :: "int \<Rightarrow> int \<Rightarrow> int \<Rightarrow> report_target result" where
  "dict_of_targetid submitid charid journalid =
     (if submitid \<noteq> 0 then Inr (Target_sub submitid)
      else if charid \<noteq> 0 then Inr (Target_char charid)
      else if journalid \<noteq> 0 then Inr (Target_journal journalid)
      else Inl ValueError)"

fun has_target :: "report_target \<Rightarrow> report_row \<Rightarrow> bool" where
  "has_target (Target_sub i) r = (rp_target_sub r = Some i)"
| "has_target (Target_char i) r = (rp_target_char r = Some i)"
| "has_target (Target_journal i) r = (rp_target_journal r = Some i)"

text \<open>\<open>SELECT hidden\<close> of the post.\<close>

fun target_hidden :: "report_target \<Rightarrow> 'a content_db_scheme \<Rightarrow> bool option" where
  "target_hidden (Target_sub i) db = map_option su_hidden (find_submission i db)"
| "target_hidden (Target_char i) db = map_option ch_hidden (find (\<lambda>ch. ch_charid ch = i) (t_character db))"
| "target_hidden (Target_journal i) db = map_option jo_hidden (find (\<lambda>jo. jo_journalid jo = i) (t_journal db))"

definition open_reports_of :: "report_target \<Rightarrow> 'a reports_db_scheme \<Rightarrow> report_row list" where
  "open_reports_of target db = filter (\<lambda>r. has_target target r \<and> \<not> report_is_closed r) (t_report db)"

definition report_form_error :: "staff_sets \<Rightarrow> int \<Rightarrow> int \<Rightarrow> int \<Rightarrow> int \<Rightarrow> int \<Rightarrow> bool \<Rightarrow> string \<Rightarrow> error option" where
  "report_form_error st userid submitid charid journalid violation comment_required content =
     (if submitid = 0 \<and> charid = 0 \<and> journalid = 0 then Some (WeasylError ''Unexpected'')
      else if violation = 0 then (if userid \<notin> MODS st then Some (WeasylError ''Unexpected'') else None)
      else if (submitid \<noteq> 0 \<or> charid \<noteq> 0) \<and> \<not> (2000 \<le> violation \<and> violation < 3000) then Some (WeasylError ''Unexpected'')
      else if journalid \<noteq> 0 \<and> \<not> (3000 \<le> violation \<and> violation < 4000) then Some (WeasylError ''Unexpected'')
      else if comment_required \<and> content = [] then Some (WeasylError ''ReportCommentRequired'')
      else None)"

definition new_report :: "int \<Rightarrow> report_target \<Rightarrow> int \<Rightarrow> int \<Rightarrow> report_row" where
  "new_report reportid target urgency now =
     \<lparr>rp_reportid = reportid, rp_target_user = None,
      rp_target_sub = (case target of Target_sub i \<Rightarrow> Some i | _ \<Rightarrow> None),
      rp_target_char = (case target of Target_char i \<Rightarrow> Some i | _ \<Rightarrow> None),
      rp_target_journal = (case target of Target_journal i \<Rightarrow> Some i | _ \<Rightarrow> None),
      rp_target_comment = None, rp_opened_at = now, rp_urgency = urgency, rp_closerid = None, rp_settings = [],
      rp_closed_at = None, rp_closure_reason = None, rp_closure_explanation = None\<rparr>"

definition add_reportcomment ::
  "int \<Rightarrow> int \<Rightarrow> int \<Rightarrow> int \<Rightarrow> string \<Rightarrow> 'a reports_db_scheme \<Rightarrow> 'a reports_db_scheme" where
  "add_reportcomment now reportid violation userid content db =
     db\<lparr>t_reportcomment := t_reportcomment db @
          [\<lparr>rk_commentid = reportcomment_seq db, rk_reportid = reportid, rk_violation = violation, rk_userid = userid,
            rk_unixtime = now, rk_content = content\<rparr>],
        reportcomment_seq := reportcomment_seq db + 1\<rparr>"

definition report_create ::
  "staff_sets \<Rightarrow> int \<Rightarrow> int \<Rightarrow> string \<Rightarrow> string \<Rightarrow> string \<Rightarrow> string \<Rightarrow> string \<Rightarrow> 'a reports_db_scheme
     \<Rightarrow> unit result \<times> 'a reports_db_scheme" where
  "report_create st now userid submitid charid journalid violation content db =
     (let submitid = get_int submitid; charid = get_int charid; journalid = get_int journalid;
          violation = get_int violation;
          content = take 2000 (strip content)
      in case find (\<lambda>(i, _). i = violation) MACRO_REPORT_VIOLATION of
           None \<Rightarrow> (Inl (WeasylError ''Unexpected''), db)
         | Some (_, urgency, _, comment_required) \<Rightarrow>
             (case report_form_error st userid submitid charid journalid violation comment_required content of
                Some e \<Rightarrow> (Inl e, db)
              | None \<Rightarrow>
                  (case dict_of_targetid submitid charid journalid of
                     Inl e \<Rightarrow> (Inl e, db)
                   | Inr target \<Rightarrow>
                       if target_hidden target db = None \<or> violation \<noteq> 0 \<and> target_hidden target db = Some True
                       then (Inl (WeasylError ''TargetRecordMissing''), db)
                       else
                         (case open_reports_of target db of
                            r # _ \<Rightarrow> (Inr (), add_reportcomment now (rp_reportid r) violation userid content db)
                          | [] \<Rightarrow>
                              if violation = 0 then (Inl (WeasylError ''Unexpected''), db)
                              else (Inr (), add_reportcomment now (report_seq db) violation userid content
                                (db\<lparr>t_report := t_report db @ [new_report (report_seq db) target urgency now],
                                    report_seq := report_seq db + 1\<rparr>))))))"

definition report_check :: "int \<Rightarrow> int \<Rightarrow> int \<Rightarrow> 'a reports_db_scheme \<Rightarrow> bool result" where
  "report_check submitid charid journalid db =
     map_sum id (\<lambda>target. open_reports_of target db \<noteq> []) (dict_of_targetid submitid charid journalid)"

subsection \<open>Showing\<close>

definition comments_of :: "report_row \<Rightarrow> 'a reports_db_scheme \<Rightarrow> reportcomment_row list" where
  "comments_of r db = filter (\<lambda>k. rk_reportid k = rp_reportid r) (t_reportcomment db)"

definition complaints_of :: "report_row \<Rightarrow> 'a reports_db_scheme \<Rightarrow> reportcomment_row list" where
  "complaints_of r db = filter (\<lambda>k. rk_violation k \<noteq> 0) (comments_of r db)"

definition violations_of :: "report_row \<Rightarrow> 'a reports_db_scheme \<Rightarrow> int list" where
  "violations_of r db = sorted_list_of_set (set (map rk_violation (complaints_of r db)))"

definition login_name_of :: "int \<Rightarrow> 'a accounts_db_scheme \<Rightarrow> string option" where
  "login_name_of userid db = map_option lo_login_name (find (\<lambda>lo. lo_userid lo = userid) (t_login db))"

text \<open>\<open>login_name\<close> of the three aliases of \<open>login\<close>, joined on the left; \<open>None\<close> is \<open>NULL\<close>.\<close>

definition owner_logins :: "report_row \<Rightarrow> 'a content_db_scheme \<Rightarrow> string option list" where
  "owner_logins r db =
     map (\<lambda>owner. Option.bind owner (\<lambda>u. login_name_of u db))
       [Option.bind (rp_target_sub r) (\<lambda>i. submission_owner i db),
        Option.bind (rp_target_char r) (\<lambda>i. character_owner i db),
        Option.bind (rp_target_journal r) (\<lambda>i. journal_owner i db)]"

text \<open>
  A name that gives no system name is compared by \<open>login_name IS NULL\<close>. \<open>violation\<close> is -1 for any, as the controller
  makes it.
\<close>

definition in_report_list ::
  "(ustr \<Rightarrow> ustr) \<Rightarrow> (ustr \<Rightarrow> ustr) \<Rightarrow> string \<Rightarrow> ustr \<Rightarrow> int \<Rightarrow> 'a reports_db_scheme \<Rightarrow> report_row \<Rightarrow> bool" where
  "in_report_list lower nfkd status submitter violation db r =
     (complaints_of r db \<noteq> []
      \<and> (status = ''closed'' \<longrightarrow> report_is_closed r) \<and> (status = ''open'' \<longrightarrow> \<not> report_is_closed r)
      \<and> (submitter \<noteq> [] \<longrightarrow> map_option to_string (parse_sysname lower nfkd submitter) \<in> set (owner_logins r db))
      \<and> (violation \<noteq> - 1 \<longrightarrow> violation \<in> set (violations_of r db)))"

definition report_select_list ::
  "(ustr \<Rightarrow> ustr) \<Rightarrow> (ustr \<Rightarrow> ustr) \<Rightarrow> string \<Rightarrow> ustr \<Rightarrow> int \<Rightarrow> 'a reports_db_scheme
     \<Rightarrow> (report_row \<times> int \<times> string list) list" where
  "report_select_list lower nfkd status submitter violation db =
     map (\<lambda>r. (r, int (length (complaints_of r db)), map convert_violation (violations_of r db)))
       (newest_first rp_opened_at (filter (in_report_list lower nfkd status submitter violation db) (t_report db)))"

record old_style_comment =
  oc_userid :: int
  oc_username :: string
  oc_unixtime :: int
  oc_content :: string
  oc_violation :: string

fun old_style_comments :: "reportcomment_row list \<Rightarrow> 'a accounts_db_scheme \<Rightarrow> old_style_comment list result" where
  "old_style_comments [] db = Inr []"
| "old_style_comments (k # ks) db =
     (case username_of (rk_userid k) db of
        None \<Rightarrow> Inl AttributeError
      | Some name \<Rightarrow>
          map_sum id (Cons \<lparr>oc_userid = rk_userid k, oc_username = name, oc_unixtime = rk_unixtime k,
            oc_content = rk_content k, oc_violation = convert_violation (rk_violation k)\<rparr>) (old_style_comments ks db))"

text \<open>The inner joins find a report only with a comment whose poster exists.\<close>

definition report_select_view :: "int \<Rightarrow> 'a reports_db_scheme \<Rightarrow> (report_row \<times> old_style_comment list) result" where
  "report_select_view reportid db =
     (case find (\<lambda>r. rp_reportid r = reportid) (t_report db) of
        None \<Rightarrow> Inl HTTPNotFound
      | Some r \<Rightarrow>
          (let comments = filter (\<lambda>k. login_name_of (rk_userid k) db \<noteq> None) (comments_of r db)
           in if comments = [] then Inl HTTPNotFound
              else map_sum id (\<lambda>cs. (r, sort_key oc_unixtime cs)) (old_style_comments comments db)))"

definition select_reported_list :: "int \<Rightarrow> 'a reports_db_scheme \<Rightarrow> (report_row \<times> reportcomment_row list \<times> int) list" where
  "select_reported_list userid db =
     sort_key (\<lambda>(_, _, latest). - latest)
       (List.map_filter (\<lambda>r. case filter (\<lambda>k. rk_userid k = userid) (complaints_of r db) of
           [] \<Rightarrow> None
         | k # ks \<Rightarrow> Some (r, k # ks, fold max (map rk_unixtime ks) (rk_unixtime k))) (t_report db))"

subsection \<open>Closing\<close>

text \<open>The form: which buttons and boxes are in it, and the fields, \<open>None\<close> where the request has none.\<close>

record close_form =
  cr_reportid :: int
  cr_close_all_user_reports :: bool
  cr_assign :: bool
  cr_unassign :: bool
  cr_action :: string
  cr_explanation :: "string option"
  cr_note_title :: "string option"
  cr_user_note :: "string option"

definition closure_actions :: "string \<Rightarrow> closure_reason option" where
  "closure_actions action = map_of
     [(''no_action_taken'', No_action_taken), (''action_taken'', Action_taken), (''invalid'', Invalid_report)] action"

text \<open>\<open>root_report.target.owner.login_name\<close>; users and comments have no attribute \<open>owner\<close>.\<close>

definition target_owner_login :: "report_row \<Rightarrow> 'a content_db_scheme \<Rightarrow> string result" where
  "target_owner_login r db =
     (let login = (\<lambda>owner. case Option.bind owner (\<lambda>u. login_name_of u db) of None \<Rightarrow> Inl AttributeError | Some n \<Rightarrow> Inr n)
      in if rp_target_user r \<noteq> None then Inl AttributeError
         else case rp_target_sub r of Some i \<Rightarrow> login (submission_owner i db)
       | None \<Rightarrow> (case rp_target_char r of Some i \<Rightarrow> login (character_owner i db)
       | None \<Rightarrow> (case rp_target_journal r of Some i \<Rightarrow> login (journal_owner i db)
       | None \<Rightarrow> if rp_target_comment r \<noteq> None then Inl AttributeError else Inl ValueError)))"

text \<open>What the loop does to each report. An exception leaves it before anything is written.\<close>

definition close_change :: "int \<Rightarrow> int \<Rightarrow> close_form \<Rightarrow> (report_row \<Rightarrow> report_row) result" where
  "close_change now userid form =
     (if cr_assign form then Inr (\<lambda>r. r\<lparr>rp_closerid := Some userid, rp_settings := ''r''\<rparr>)
      else if cr_unassign form then Inr (\<lambda>r. r\<lparr>rp_closerid := None, rp_settings := []\<rparr>)
      else case cr_explanation form of None \<Rightarrow> Inl AttributeError
      | Some explanation \<Rightarrow>
          (case closure_actions (cr_action form) of None \<Rightarrow> Inl KeyError
           | Some reason \<Rightarrow>
               Inr (\<lambda>r. r\<lparr>rp_closerid := Some userid, rp_settings := [], rp_closed_at := Some now,
                          rp_closure_explanation := Some explanation, rp_closure_reason := Some reason\<rparr>)))"

definition closure_note :: "close_form \<Rightarrow> report_row \<Rightarrow> 'a content_db_scheme \<Rightarrow> note_form result" where
  "closure_note form root db =
     (case (cr_note_title form, cr_user_note form) of
        (Some title, Some content) \<Rightarrow>
          (case target_owner_login root db of
             Inl e \<Rightarrow> Inl e
           | Inr recipient \<Rightarrow>
               (case cr_explanation form of None \<Rightarrow> Inl AttributeError
                | Some explanation \<Rightarrow>
                    Inr \<lparr>nf_title = title, nf_content = content, nf_recipient = ustr recipient, nf_mod_copy = True,
                         nf_staff_note = explanation\<rparr>))
      | _ \<Rightarrow> Inl AttributeError)"

definition reports_to_close :: "close_form \<Rightarrow> report_row \<Rightarrow> 'a reports_db_scheme \<Rightarrow> int list result" where
  "reports_to_close form root db =
     (if cr_close_all_user_reports form then
        map_sum id (\<lambda>login. map rp_reportid
            (filter (\<lambda>r. \<not> report_is_closed r \<and> Some login \<in> set (owner_logins r db)) (t_report db)))
          (target_owner_login root db)
      else Inr [rp_reportid root])"

definition report_close ::
  "(ustr \<Rightarrow> ustr) \<Rightarrow> (ustr \<Rightarrow> ustr) \<Rightarrow> staff_sets \<Rightarrow> int \<Rightarrow> int \<Rightarrow> close_form \<Rightarrow> 'a reports_db_scheme
     \<Rightarrow> unit result \<times> 'a reports_db_scheme" where
  "report_close lower nfkd st now userid form db =
     (if userid \<notin> MODS st then (Inl (WeasylError ''InsufficientPermissions''), db)
      else case find (\<lambda>r. rp_reportid r = cr_reportid form) (t_report db) of
        None \<Rightarrow> (Inr (), db)
      | Some root \<Rightarrow>
          if report_is_closed root then (Inr (), db)
          else
            (case reports_to_close form root db of
               Inl e \<Rightarrow> (Inl e, db)
             | Inr ids \<Rightarrow>
                 (case close_change now userid form of
                    Inl e \<Rightarrow> (Inl e, db)
                  | Inr change_report \<Rightarrow>
                      (let db = db\<lparr>t_report := update_where (\<lambda>r. rp_reportid r \<in> set ids) change_report (t_report db)\<rparr>
                       in if cr_action form = ''action_taken'' then
                            (case closure_note form root db of
                               Inl e \<Rightarrow> (Inl e, db)
                             | Inr note_form \<Rightarrow> note_send lower nfkd st now userid note_form db)
                          else (Inr (), db)))))"

subsection \<open>What stays true of reports\<close>

definition target_key :: "report_row \<Rightarrow> int option list" where
  "target_key r = [rp_target_user r, rp_target_sub r, rp_target_char r, rp_target_journal r, rp_target_comment r]"

text \<open>The two checks of the table, and that a report is closed when it has a reason.\<close>

definition report_ok :: "report_row \<Rightarrow> bool" where
  "report_ok r \<longleftrightarrow>
     length (filter (\<lambda>x. x \<noteq> None) (target_key r)) = 1
     \<and> (rp_closed_at r = None \<longleftrightarrow> rp_closure_reason r = None)
     \<and> (rp_closed_at r = None \<longleftrightarrow> rp_closure_explanation r = None)
     \<and> (report_is_closed r \<longleftrightarrow> rp_closed_at r \<noteq> None)"

definition known_user :: "'a accounts_db_scheme \<Rightarrow> int \<Rightarrow> bool" where
  "known_user db userid \<longleftrightarrow> login_name_of userid db \<noteq> None \<and> username_of userid db \<noteq> None"

definition reports_ok :: "'a reports_db_scheme \<Rightarrow> bool" where
  "reports_ok db \<longleftrightarrow>
     distinct (map rp_reportid (t_report db))
     \<and> (\<forall>r \<in> set (t_report db). rp_reportid r < report_seq db \<and> report_ok r \<and> complaints_of r db \<noteq> [])
     \<and> distinct (map target_key (filter (\<lambda>r. \<not> report_is_closed r) (t_report db)))
     \<and> (\<forall>k \<in> set (t_reportcomment db). known_user db (rk_userid k))"

text \<open>What users \<open>U\<close> do to reports, and anything else the site does, which keeps users and leaves reports alone.\<close>

definition same_reports :: "'a reports_db_scheme \<Rightarrow> 'a reports_db_scheme \<Rightarrow> bool" where
  "same_reports db db' \<longleftrightarrow>
     t_report db' = t_report db \<and> report_seq db' = report_seq db \<and> t_reportcomment db' = t_reportcomment db
     \<and> reportcomment_seq db' = reportcomment_seq db"

definition keeps_users :: "'a accounts_db_scheme \<Rightarrow> 'b accounts_db_scheme \<Rightarrow> bool" where
  "keeps_users db db' \<longleftrightarrow> (\<forall>u. known_user db u \<longrightarrow> known_user db' u)"

inductive report_step ::
  "(ustr \<Rightarrow> ustr) \<Rightarrow> (ustr \<Rightarrow> ustr) \<Rightarrow> staff_sets \<Rightarrow> int set \<Rightarrow> 'a reports_db_scheme \<Rightarrow> 'a reports_db_scheme \<Rightarrow> bool"
  for lower nfkd st U where
  create: "userid \<in> U \<Longrightarrow> known_user db userid \<Longrightarrow>
    report_step lower nfkd st U db (snd (report_create st now userid submitid charid journalid violation content db))"
| close: "userid \<in> U \<Longrightarrow> report_step lower nfkd st U db (snd (report_close lower nfkd st now userid form db))"
| elsewhere: "same_reports db db' \<Longrightarrow> keeps_users db db' \<Longrightarrow> report_step lower nfkd st U db db'"

lemma known_user_frame: "t_login db' = t_login db \<Longrightarrow> t_profile db' = t_profile db \<Longrightarrow> known_user db' u = known_user db u"
  by (simp add: known_user_def login_name_of_def username_of_def profile_of_def)

lemma complaints_of_frame:
  "rp_reportid r' = rp_reportid r \<Longrightarrow> t_reportcomment db' = t_reportcomment db @ ks \<Longrightarrow> complaints_of r db \<noteq> [] \<Longrightarrow> complaints_of r' db' \<noteq> []"
  by (simp add: complaints_of_def comments_of_def)

lemma reports_ok_frame:
  assumes "reports_ok db" "same_reports db db'" "keeps_users db db'"
  shows "reports_ok db'"
  using assms by (simp add: reports_ok_def same_reports_def keeps_users_def complaints_of_def comments_of_def)

subsection \<open>Creating\<close>

lemma report_create_cases:
  obtains (same) "snd (report_create st now userid s c j v content db) = db"
  | (comment) target r rs where "open_reports_of target db = r # rs"
      "snd (report_create st now userid s c j v content db)
         = add_reportcomment now (rp_reportid r) (get_int v) userid (take 2000 (strip content)) db"
  | (report) target urgency where "open_reports_of target db = []" "get_int v \<noteq> 0"
      "snd (report_create st now userid s c j v content db)
         = add_reportcomment now (report_seq db) (get_int v) userid (take 2000 (strip content))
             (db\<lparr>t_report := t_report db @ [new_report (report_seq db) target urgency now], report_seq := report_seq db + 1\<rparr>)"
proof (cases "fst (report_create st now userid s c j v content db)")
  case (Inl e)
  then have "snd (report_create st now userid s c j v content db) = db"
    unfolding report_create_def Let_def
    by (auto split: option.split_asm option.split sum.split_asm sum.split list.split_asm list.split prod.split_asm prod.split if_split_asm)
  then show thesis by (rule same)
next
  case (Inr u)
  then obtain urgency where "\<exists>x. find (\<lambda>(i, _). i = get_int v) MACRO_REPORT_VIOLATION = Some (get_int v, urgency, x)"
    by (auto simp: report_create_def Let_def split: option.splits dest!: find_SomeD)
  then obtain words required where found:
    "find (\<lambda>(i, _). i = get_int v) MACRO_REPORT_VIOLATION = Some (get_int v, urgency, words, required)" by auto
  with Inr obtain target where target: "dict_of_targetid (get_int s) (get_int c) (get_int j) = Inr target"
    "report_form_error st userid (get_int s) (get_int c) (get_int j) (get_int v) required (take 2000 (strip content)) = None"
    "\<not> (target_hidden target db = None \<or> get_int v \<noteq> 0 \<and> target_hidden target db = Some True)"
    by (simp add: report_create_def Let_def split: option.splits sum.splits if_splits)
  show thesis
  proof (cases "open_reports_of target db")
    case Nil
    with Inr found target have "get_int v \<noteq> 0" by (auto simp: report_create_def Let_def split: if_splits)
    with Nil found target show thesis by (intro report [of target urgency]) (auto simp: report_create_def Let_def)
  next
    case (Cons r rs)
    with found target show thesis by (intro comment [of target r rs]) (auto simp: report_create_def Let_def)
  qed
qed

lemma has_target_new: "target_key (new_report i t u now) = target_key r \<Longrightarrow> has_target t r"
  by (cases t) (auto simp: target_key_def new_report_def)

lemma new_report_ok: "report_ok (new_report i t u now)" "\<not> report_is_closed (new_report i t u now)"
  by (cases t; simp add: report_ok_def target_key_def new_report_def report_is_closed_def)+

lemma report_create_ok:
  assumes "reports_ok db" "known_user db userid"
  shows "reports_ok (snd (report_create st now userid s c j v content db))"
proof (cases rule: report_create_cases [of st now userid s c j v content db])
  case same
  with assms show ?thesis by simp
next
  case (comment target r rs)
  with assms show ?thesis
    by (auto simp: reports_ok_def add_reportcomment_def complaints_of_def comments_of_def known_user_frame [of "_\<lparr>t_reportcomment := _, reportcomment_seq := _\<rparr>" db])
next
  case (report target urgency)
  let ?new = "new_report (report_seq db) target urgency now"
  define db' where "db' = snd (report_create st now userid s c j v content db)"
  note new = new_report_ok [of "report_seq db" target urgency now]
  have tables: "t_report db' = t_report db @ [?new]" "report_seq db' = report_seq db + 1" "rp_reportid ?new = report_seq db"
    unfolding db'_def report(3) by (simp_all add: add_reportcomment_def new_report_def)
  obtain k where k: "t_reportcomment db' = t_reportcomment db @ [k]" "rk_reportid k = report_seq db" "rk_violation k = get_int v"
    "rk_userid k = userid" unfolding db'_def report(3) by (simp add: add_reportcomment_def)
  have users: "known_user db' u = known_user db u" for u
    unfolding db'_def report(3) by (rule known_user_frame) (simp_all add: add_reportcomment_def)
  note ok = assms(1) [unfolded reports_ok_def]
  have "target_key ?new \<notin> target_key ` set (filter (\<lambda>r. \<not> report_is_closed r) (t_report db))"
    using report(1) has_target_new [of "report_seq db" target urgency now] by (force simp: open_reports_of_def filter_empty_conv)
  then have "distinct (map target_key (filter (\<lambda>r. \<not> report_is_closed r) (t_report db')))"
    using ok new by (simp add: tables)
  moreover have "distinct (map rp_reportid (t_report db'))"
    using ok by (force simp: tables)
  moreover have "complaints_of ?new db' \<noteq> []"
    using report(2) by (simp add: complaints_of_def comments_of_def k tables)
  then have "\<forall>r \<in> set (t_report db'). rp_reportid r < report_seq db' \<and> report_ok r \<and> complaints_of r db' \<noteq> []"
    using ok new complaints_of_frame [OF refl k(1)] by (fastforce simp: tables)
  moreover have "\<forall>k \<in> set (t_reportcomment db'). known_user db' (rk_userid k)"
    using ok assms(2) by (simp add: users k)
  ultimately show ?thesis by (simp add: reports_ok_def flip: db'_def)
qed

subsection \<open>Closing\<close>

text \<open>A note changes neither reports nor users.\<close>

definition apart :: "'a reports_db_scheme \<Rightarrow> 'a reports_db_scheme \<Rightarrow> bool" where
  "apart db db' \<longleftrightarrow> same_reports db db' \<and> t_login db' = t_login db \<and> t_profile db' = t_profile db"

lemma apart_trans: "apart a b \<Longrightarrow> apart b c \<Longrightarrow> apart a c"
  by (simp add: apart_def same_reports_def)

lemma apart_parts:
  fixes db :: "'a reports_db_scheme"
  shows "apart db (permit_sender u v db)" "apart db (page_header_invalidate u db)"
    "apart db (add_message now u v title content db)" "lookups db db' \<Longrightarrow> apart db db'"
    "apart db (snd (add_comments_row now u t t' i content settings db))"
  by (auto simp: apart_def same_reports_def permit_sender_def page_header_invalidate_def add_message_def add_comments_row_def
      lookups_def)

lemma note_send_apart:
  fixes db :: "'a reports_db_scheme"
  shows "apart db (snd (note_send lower nfkd st now userid form db))"
proof (cases rule: note_send_cases [of lower nfkd st now userid form db])
  case (raised e db')
  then show ?thesis by (simp add: apart_parts)
next
  case (sent recipientid d1 d2)
  have "apart d2 (sent_note st now userid recipientid form d2)"
  proof -
    let ?m = "permit_sender userid recipientid (page_header_invalidate recipientid
        (add_message now userid recipientid (strip (nf_title form)) (strip (nf_content form)) d2))"
    have m: "apart d2 ?m"
      by (rule apart_trans [OF apart_trans [OF apart_parts(3) apart_parts(2)] apart_parts(1)])
    then show ?thesis
      by (simp add: sent_note_def Let_def apart_trans [OF m apart_parts(5)])
  qed
  with sent(8,9) show ?thesis using apart_trans [OF apart_parts(4)] by simp
qed

lemma reports_to_close_open:
  assumes "reports_to_close form root db = Inr ids" "distinct (map rp_reportid (t_report db))"
    and "root \<in> set (t_report db)" "\<not> report_is_closed root" "r \<in> set (t_report db)" "rp_reportid r \<in> set ids"
  shows "\<not> report_is_closed r"
proof -
  obtain x where "x \<in> set (t_report db)" "\<not> report_is_closed x" "rp_reportid x = rp_reportid r"
    using assms by (cases "target_owner_login root db") (auto simp: reports_to_close_def split: if_splits)
  with assms(2,5) show ?thesis by (metis distinct_map inj_on_eq_iff)
qed

lemma report_close_cases:
  assumes "distinct (map rp_reportid (t_report db))"
  obtains (same) "snd (report_close lower nfkd st now userid form db) = db"
  | (changed) f ids where "userid \<in> MODS st" "close_change now userid form = Inr f"
      "\<And>r. r \<in> set (t_report db) \<Longrightarrow> rp_reportid r \<in> ids \<Longrightarrow> \<not> report_is_closed r"
      "apart (db\<lparr>t_report := update_where (\<lambda>r. rp_reportid r \<in> ids) f (t_report db)\<rparr>)
         (snd (report_close lower nfkd st now userid form db))"
proof (cases "\<exists>root ids f. userid \<in> MODS st \<and> find (\<lambda>r. rp_reportid r = cr_reportid form) (t_report db) = Some root
    \<and> \<not> report_is_closed root \<and> reports_to_close form root db = Inr ids \<and> close_change now userid form = Inr f")
  case False
  then have "snd (report_close lower nfkd st now userid form db) = db"
    by (auto simp: report_close_def split: option.split sum.split)
  then show thesis by (rule same)
next
  case True
  then obtain root ids f where root: "userid \<in> MODS st" "find (\<lambda>r. rp_reportid r = cr_reportid form) (t_report db) = Some root"
    "\<not> report_is_closed root" "reports_to_close form root db = Inr ids" "close_change now userid form = Inr f" by blast
  let ?db = "db\<lparr>t_report := update_where (\<lambda>r. rp_reportid r \<in> set ids) f (t_report db)\<rparr>"
  have "snd (report_close lower nfkd st now userid form db) = ?db
      \<or> (\<exists>nf. snd (report_close lower nfkd st now userid form db) = snd (note_send lower nfkd st now userid nf ?db))"
    using root by (auto simp: report_close_def Let_def split: sum.split)
  then have "apart ?db (snd (report_close lower nfkd st now userid form db))"
    using note_send_apart [where db = ?db] by (auto simp: apart_def same_reports_def)
  then show thesis
    using changed [of f "set ids"] root reports_to_close_open [OF root(4) assms _ root(3)] find_SomeD [OF root(2)] by blast
qed

lemma close_change_keeps:
  assumes "close_change now userid form = Inr f"
  shows "rp_reportid (f r) = rp_reportid r" "target_key (f r) = target_key r"
    "\<not> report_is_closed r \<Longrightarrow> report_ok r \<Longrightarrow> report_ok (f r)"
proof -
  from assms consider "f = (\<lambda>r. r\<lparr>rp_closerid := Some userid, rp_settings := ''r''\<rparr>)"
    | "f = (\<lambda>r. r\<lparr>rp_closerid := None, rp_settings := []\<rparr>)"
    | e x where "f = (\<lambda>r. r\<lparr>rp_closerid := Some userid, rp_settings := [], rp_closed_at := Some now,
        rp_closure_explanation := Some e, rp_closure_reason := Some x\<rparr>)"
    by (auto simp: close_change_def split: if_splits option.splits)
  note change_cases = this
  show key: "target_key (f r) = target_key r" and "rp_reportid (f r) = rp_reportid r"
    using change_cases by (cases; simp add: target_key_def)+
  show "report_ok (f r)" if "\<not> report_is_closed r" "report_ok r"
    using change_cases
    by cases (use that key in \<open>auto simp: report_ok_def report_is_closed_def is_under_review_def has_flag_def\<close>)
qed

lemma distinct_filter_map:
  assumes "distinct (map key (filter P xs))" "\<And>x. x \<in> set xs \<Longrightarrow> key (g x) = key x \<and> (P (g x) \<longrightarrow> P x)"
  shows "distinct (map key (filter P (map g xs)))"
  using assms
proof (induction xs)
  case (Cons x xs)
  have "distinct (map key (filter P (map g xs)))"
    using Cons by (auto split: if_splits)
  moreover have "key ` set (filter P (map g xs)) \<subseteq> key ` set (filter P xs)"
    using Cons.prems(2) by force
  ultimately show ?case using Cons.prems by (auto split: if_splits)
qed simp

lemma reports_ok_distinct: "reports_ok db \<Longrightarrow> distinct (map rp_reportid (t_report db))"
  by (simp add: reports_ok_def)

lemma report_close_ok:
  assumes "reports_ok db"
  shows "reports_ok (snd (report_close lower nfkd st now userid form db))"
  using reports_ok_distinct [OF assms]
proof (cases rule: report_close_cases [where lower = lower and nfkd = nfkd and st = st and now = now and userid = userid
      and form = form])
  case same
  with assms show ?thesis by simp
next
  case (changed f ids)
  note f = close_change_keeps [OF changed(2)] and ok = assms [unfolded reports_ok_def]
  let ?db = "db\<lparr>t_report := update_where (\<lambda>r. rp_reportid r \<in> ids) f (t_report db)\<rparr>"
  have complaints: "complaints_of (f r) ?db = complaints_of r db" "complaints_of r ?db = complaints_of r db" for r
    by (simp_all add: complaints_of_def comments_of_def f)
  have "distinct (map target_key (filter (\<lambda>r. \<not> report_is_closed r) (t_report ?db)))"
    using ok changed(3) by (simp add: update_where_def) (rule distinct_filter_map; simp add: f)
  moreover have "known_user ?db u = known_user db u" for u by (rule known_user_frame) simp_all
  moreover have "distinct (map rp_reportid (t_report ?db))"
    using ok by (simp add: map_key_update_where f)
  ultimately have "reports_ok ?db"
    using ok changed(3) complaints by (auto simp: reports_ok_def set_update_where f)
  moreover have "keeps_users ?db (snd (report_close lower nfkd st now userid form db))"
    using changed(4) known_user_frame [of "snd (report_close lower nfkd st now userid form db)" ?db]
    by (simp add: apart_def keeps_users_def)
  ultimately show ?thesis
    using reports_ok_frame changed(4) by (auto simp: apart_def)
qed

lemma report_step_ok: "report_step lower nfkd st U db db' \<Longrightarrow> reports_ok db \<Longrightarrow> reports_ok db'"
  by (induction rule: report_step.induct) (auto intro: report_create_ok report_close_ok reports_ok_frame)

subsection \<open>Every reported post is on the list once\<close>

lemma only_some:
  assumes "length (filter (\<lambda>x. x \<noteq> None) xs) = 1" "i < length xs" "xs ! i \<noteq> None" "j < length xs" "j \<noteq> i"
  shows "xs ! j = None"
proof (rule ccontr)
  assume "xs ! j \<noteq> None"
  with assms have "{i, j} \<subseteq> {k. k < length xs \<and> xs ! k \<noteq> None}" by blast
  then have "card {i, j} \<le> length (filter (\<lambda>x. x \<noteq> None) xs)"
    unfolding length_filter_conv_card by (rule card_mono [rotated]) simp
  with assms(1,5) show False by simp
qed

lemma one_some:
  assumes "length (filter (\<lambda>x. x \<noteq> None) xs) = 1" "length (filter (\<lambda>x. x \<noteq> None) ys) = 1" "length xs = length ys"
    and "i < length xs" "xs ! i = Some v" "ys ! i = Some v"
  shows "xs = ys"
proof (rule nth_equalityI)
  fix j assume "j < length xs"
  then show "xs ! j = ys ! j"
    using assms only_some [of xs i j] only_some [of ys i j] by (cases "j = i") auto
qed (rule assms(3))

lemma same_target:
  assumes "report_ok r" "report_ok r'" "has_target t r" "has_target t r'"
  shows "target_key r = target_key r'"
proof -
  obtain i v where "i < 5" "target_key r ! i = Some v" "target_key r' ! i = Some v"
  proof (cases t)
    case (Target_sub v)
    with assms that [of 1 v] show ?thesis by (simp add: target_key_def)
  next
    case (Target_char v)
    with assms that [of 2 v] show ?thesis by (simp add: target_key_def)
  next
    case (Target_journal v)
    with assms that [of 3 v] show ?thesis by (simp add: target_key_def)
  qed
  moreover have "length (target_key x) = 5" for x by (simp add: target_key_def)
  ultimately show ?thesis
    using assms(1,2) one_some [of "target_key r" "target_key r'" i v] by (simp add: report_ok_def)
qed

lemma one_open_report:
  assumes "reports_ok db"
  shows "length (open_reports_of target db) = (if open_reports_of target db \<noteq> [] then 1 else 0)"
proof -
  let ?open = "filter (\<lambda>r. \<not> report_is_closed r) (t_report db)"
  have split: "open_reports_of target db = filter (has_target target) ?open"
    by (simp add: open_reports_of_def conj_commute)
  have "length (filter (has_target target) rs) \<le> 1"
    if "distinct (map target_key rs)" "\<forall>r \<in> set rs. report_ok r" for rs
    using that
  proof (induction rs)
    case (Cons r rs)
    have "filter (has_target target) rs = []" if "has_target target r"
      using Cons.prems same_target [OF _ _ that] by (force simp: filter_empty_conv)
    then show ?case using Cons by auto
  qed simp
  moreover have "distinct (map target_key ?open)" "\<forall>r \<in> set ?open. report_ok r"
    using assms by (auto simp: reports_ok_def)
  ultimately show ?thesis unfolding split by (cases "filter (has_target target) ?open") fastforce+
qed

lemma old_style_comments_ok:
  "\<forall>k \<in> set ks. known_user db (rk_userid k) \<Longrightarrow> \<exists>cs. old_style_comments ks db = Inr cs \<and> length cs = length ks"
  by (induction ks) (fastforce simp: known_user_def)+

lemma select_view_ok:
  assumes "reports_ok db" "r \<in> set (t_report db)"
  shows "\<exists>cs. report_select_view (rp_reportid r) db = Inr (r, cs) \<and> length cs = length (comments_of r db)"
proof -
  have known: "\<forall>k \<in> set (comments_of r db). known_user db (rk_userid k)"
    using assms(1) by (simp add: reports_ok_def comments_of_def)
  then have all: "filter (\<lambda>k. login_name_of (rk_userid k) db \<noteq> None) (comments_of r db) = comments_of r db"
    by (simp add: filter_id_conv known_user_def)
  have "comments_of r db \<noteq> []"
    using assms by (auto simp: reports_ok_def complaints_of_def)
  moreover have "find (\<lambda>x. rp_reportid x = rp_reportid r) (t_report db) = Some r"
    using assms by (intro find_unique) (simp_all add: reports_ok_def)
  ultimately show ?thesis
    using old_style_comments_ok [OF known] by (auto simp: report_select_view_def all Let_def simp del: not_None_eq)
qed

lemma length_filter_newest_first: "length (filter P (newest_first key rows)) = length (filter P rows)"
  by (metis filter_newest_first length_rev length_sort newest_first_def)

text \<open>
  C5: Every reported post is on the moderators' list once, and every entry opens. After any run of reports, remarks,
  decisions and anything else on the site, the list of open reports has one entry for a post exactly when the post's
  page says it is reported; each entry of the whole list names a violation, and its page shows all its comments.
\<close>
theorem reports_listed_once:
  assumes "(report_step lower nfkd st U)\<^sup>*\<^sup>* db db'" "reports_ok db" "dict_of_targetid submitid charid journalid = Inr target"
  shows "length (filter (\<lambda>(r, _). has_target target r) (report_select_list lower nfkd ''open'' [] (- 1) db'))
        = (if report_check submitid charid journalid db' = Inr True then 1 else 0)
      \<and> list_all (\<lambda>(r, n, violations). 0 < n \<and> violations \<noteq> []
          \<and> (\<exists>cs. report_select_view (rp_reportid r) db' = Inr (r, cs) \<and> length cs = length (comments_of r db')))
          (report_select_list lower nfkd [] [] (- 1) db')"
proof -
  have ok: "reports_ok db'"
    using assms(1,2) by (induction rule: rtranclp_induct) (auto intro: report_step_ok)
  have "length (filter (\<lambda>(r, _). has_target target r) (report_select_list lower nfkd ''open'' [] (- 1) db'))
      = length (filter (has_target target) (newest_first rp_opened_at
          (filter (in_report_list lower nfkd ''open'' [] (- 1) db') (t_report db'))))"
    by (simp add: report_select_list_def filter_map comp_def)
  also have "filter (in_report_list lower nfkd ''open'' [] (- 1) db') (t_report db') = filter (\<lambda>r. \<not> report_is_closed r) (t_report db')"
    using ok by (intro filter_cong) (simp_all add: in_report_list_def reports_ok_def)
  also have "length (filter (has_target target) (newest_first rp_opened_at \<dots>)) = length (open_reports_of target db')"
    by (simp add: length_filter_newest_first open_reports_of_def conj_commute)
  finally have "length (filter (\<lambda>(r, _). has_target target r) (report_select_list lower nfkd ''open'' [] (- 1) db'))
      = length (open_reports_of target db')" .
  moreover have "violations_of r db' \<noteq> []" if "complaints_of r db' \<noteq> []" for r
    using that by (simp add: violations_of_def)
  ultimately show ?thesis
    using assms(3) one_open_report [OF ok, of target] select_view_ok [OF ok]
    by (auto simp: report_check_def report_select_list_def list_all_iff newest_first_def in_report_list_def)
qed

text \<open>Users 6 and 7 with two submissions of 7; user 6 is a moderator and reports one of them.\<close>

definition reports_start :: reports_db where
  "reports_start = tags_db.extend (notes_db\<lparr>t_submission := [sample_submission 5 7, sample_submission 8 7]\<rparr>)
     (reports_db.fields [] 1 [] 1)"

definition report_staff :: staff_sets where
  "report_staff = no_staff\<lparr>MODS := {6}\<rparr>"

definition reported_db :: reports_db where
  "reported_db = snd (report_create report_staff 9 6 ''5'' [] [] ''2020'' '' traced '' reports_start)"

lemma reported_step: "report_step ascii_lower id report_staff {6} reports_start reported_db"
  unfolding reported_db_def by (rule report_step.create) (simp, code_simp)

lemma reports_start_ok: "reports_ok reports_start"
  by code_simp

theorem reports_listed_once_witness:
  "map (\<lambda>(r, n, vs). (rp_target_sub r, n, vs)) (report_select_list ascii_lower id ''open'' [] (- 1) reported_db)
     = [(Some 5, 1, [''Tracing or plagiarism''])]
   \<and> length (filter (\<lambda>(r, _). has_target (Target_sub 5) r) (report_select_list ascii_lower id ''open'' [] (- 1) reported_db)) = 1
   \<and> length (filter (\<lambda>(r, _). has_target (Target_sub 8) r) (report_select_list ascii_lower id ''open'' [] (- 1) reported_db)) = 0"
proof -
  have run: "(report_step ascii_lower id report_staff {6})\<^sup>*\<^sup>* reports_start reported_db"
    using reported_step by (rule r_into_rtranclp)
  have "dict_of_targetid 5 0 0 = Inr (Target_sub 5)" "dict_of_targetid 8 0 0 = Inr (Target_sub 8)"
    "report_check 5 0 0 reported_db = Inr True" "report_check 8 0 0 reported_db = Inr False"
    "map (\<lambda>(r, n, vs). (rp_target_sub r, n, vs)) (report_select_list ascii_lower id ''open'' [] (- 1) reported_db)
      = [(Some 5, 1, [''Tracing or plagiarism''])]"
    by code_simp+
  then show ?thesis
    using reports_listed_once [OF run reports_start_ok, of 5 0 0 "Target_sub 5"]
      reports_listed_once [OF run reports_start_ok, of 8 0 0 "Target_sub 8"] by simp
qed

subsection \<open>Decisions stay, and only moderators make them\<close>

definition report_kept :: "staff_sets \<Rightarrow> int set \<Rightarrow> 'a reports_db_scheme \<Rightarrow> 'a reports_db_scheme \<Rightarrow> bool" where
  "report_kept st U db db' \<longleftrightarrow>
     set (filter report_is_closed (t_report db)) \<subseteq> set (t_report db')
     \<and> (U \<inter> MODS st = {} \<longrightarrow> set (t_report db) \<subseteq> set (t_report db'))
     \<and> prefix (t_reportcomment db) (t_reportcomment db')"

lemma report_kept_trans: "report_kept st U a b \<Longrightarrow> report_kept st U b c \<Longrightarrow> report_kept st U a c"
  unfolding report_kept_def by (auto intro: prefix_order.trans)

lemma report_step_kept: "report_step lower nfkd st U db db' \<Longrightarrow> reports_ok db \<Longrightarrow> report_kept st U db db'"
proof (induction rule: report_step.induct)
  case (create userid db now s c j v content)
  show ?case
    by (cases rule: report_create_cases [of st now userid s c j v content db])
      (auto simp: report_kept_def add_reportcomment_def)
next
  case (close userid db now form)
  show ?case
    using reports_ok_distinct [OF close.prems]
  proof (cases rule: report_close_cases [where lower = lower and nfkd = nfkd and st = st and now = now and userid = userid
      and form = form])
    case (changed f ids)
    have "set (filter report_is_closed (t_report db)) \<subseteq> set (update_where (\<lambda>r. rp_reportid r \<in> ids) f (t_report db))"
      using changed(3) by (auto simp: set_update_where)
    moreover have "U \<inter> MODS st \<noteq> {}" using changed(1) close.hyps by blast
    ultimately show ?thesis
      using changed(4) by (auto simp: report_kept_def apart_def same_reports_def)
  qed (simp_all add: report_kept_def)
next
  case (elsewhere db db')
  then show ?case by (auto simp: report_kept_def same_reports_def)
qed

text \<open>
  C32: A decision on a report is final, and reports wait for a moderator. Along any run the closed reports keep their
  closer, time, reason and explanation, the complaints and remarks stay in their order, and as long as no moderator
  acts every report stays as it is, so each post with an open report goes on being shown as reported.
\<close>
theorem reports_final:
  assumes "(report_step lower nfkd st U)\<^sup>*\<^sup>* db db'" "reports_ok db"
  shows "set (filter report_is_closed (t_report db)) \<subseteq> set (t_report db')
      \<and> prefix (t_reportcomment db) (t_reportcomment db')
      \<and> (U \<inter> MODS st = {} \<longrightarrow> report_check submitid charid journalid db = Inr True
           \<longrightarrow> report_check submitid charid journalid db' = Inr True)"
proof -
  have "report_kept st U db db' \<and> reports_ok db'"
    using assms
  proof (induction rule: rtranclp_induct)
    case (step b c)
    then show ?case using report_step_kept [OF step.hyps(2)] report_step_ok [OF step.hyps(2)] report_kept_trans by blast
  qed (simp add: report_kept_def)
  moreover have "open_reports_of target db' \<noteq> []" if "set (t_report db) \<subseteq> set (t_report db')" "open_reports_of target db \<noteq> []" for target
    using that by (force simp: open_reports_of_def filter_empty_conv)
  ultimately show ?thesis
    by (cases "dict_of_targetid submitid charid journalid") (auto simp: report_kept_def report_check_def)
qed

text \<open>After the moderator closed the report, a second report of the post by somebody else opens a new one.\<close>

theorem reports_final_witness:
  "let form = \<lparr>cr_reportid = 1, cr_close_all_user_reports = True, cr_assign = False, cr_unassign = False,
         cr_action = ''invalid'', cr_explanation = Some ''no'', cr_note_title = None, cr_user_note = None\<rparr>;
       db1 = snd (report_close ascii_lower id report_staff 10 6 form reported_db);
       db2 = snd (report_create report_staff 11 7 ''5'' [] [] ''2020'' ''again'' db1)
   in map (\<lambda>r. (rp_reportid r, rp_closerid r)) (filter report_is_closed (t_report db2)) = [(1, Some 6)]
      \<and> set (filter report_is_closed (t_report db1)) \<subseteq> set (t_report db2) \<and> report_check 5 0 0 db2 = Inr True"
proof -
  define form where "form = \<lparr>cr_reportid = 1, cr_close_all_user_reports = True, cr_assign = False, cr_unassign = False,
    cr_action = ''invalid'', cr_explanation = Some ''no'', cr_note_title = None, cr_user_note = None\<rparr>"
  define db1 where "db1 = snd (report_close ascii_lower id report_staff 10 6 form reported_db)"
  define db2 where "db2 = snd (report_create report_staff 11 7 ''5'' [] [] ''2020'' ''again'' db1)"
  have "reports_ok db1" unfolding db1_def
    by (intro report_close_ok report_step_ok [OF reported_step reports_start_ok])
  moreover have "known_user db1 7" unfolding db1_def form_def by code_simp
  then have "(report_step ascii_lower id report_staff {7})\<^sup>*\<^sup>* db1 db2"
    unfolding db2_def by (intro r_into_rtranclp report_step.create) simp_all
  ultimately have "set (filter report_is_closed (t_report db1)) \<subseteq> set (t_report db2)"
    using reports_final by blast
  moreover have "map (\<lambda>r. (rp_reportid r, rp_closerid r)) (filter report_is_closed (t_report db2)) = [(1, Some 6)]
      \<and> report_check 5 0 0 db2 = Inr True"
    unfolding db2_def db1_def form_def by code_simp
  ultimately show ?thesis by (simp add: Let_def flip: form_def db1_def db2_def)
qed

text \<open>
  The reports are closed before the note to the user is sent: when the note is refused, the moderator sees an error,
  and nothing can be repeated, since the report is closed.
\<close>

lemma closed_without_note:
  "let form = \<lparr>cr_reportid = 1, cr_close_all_user_reports = False, cr_assign = False, cr_unassign = False,
         cr_action = ''action_taken'', cr_explanation = Some ''hidden'', cr_note_title = Some '' '', cr_user_note = Some ''Hello''\<rparr>;
       (answer, db1) = report_close ascii_lower id report_staff 10 6 form reported_db
   in answer = Inl (WeasylError ''titleInvalid'') \<and> report_check 5 0 0 db1 = Inr False
      \<and> t_message db1 = t_message reported_db"
  by code_simp

text \<open>A name without letters and digits in the filter for owners selects the reports of everybody.\<close>

lemma nameless_filter_shows_all:
  "map (\<lambda>(r, _). rp_reportid r) (report_select_list ascii_lower id ''open'' (ustr ''!'') (- 1) reported_db) = [1]
   \<and> report_select_list ascii_lower id ''open'' (ustr ''cat'') (- 1) reported_db = []"
  by code_simp

end
