(* ===== verification/Spec2Isabelle.thy ===== *)
theory Spec2Isabelle
  imports Prelude Schema Ratings Prefix_Trie Cache_Proxy Pagination Config_Codes Forms Rate_Limits Database
    Define Relations Welcome Social Folders Collections Favorites Comments Notes Two_Factor Accounts Login_Sessions Ages Tags Tagging
    Posts Journals Media Characters Submissions Messages Profiles Moderation Post_Laws Post_Counts Post_Steps
    Message_Laws Profile_Laws Search Search_Laws Search_Text Front_Page Site_Updates Commissions Reports
begin

text \<open>
  Weasyl is a gallery site for art, writing and music. This development models its server code, the Python packages
  \<^verbatim>\<open>src/weasyl\<close> and \<^verbatim>\<open>src/libweasyl\<close>, from the tables of the database up to the functions the controllers call: what
  each function asks and changes, the exceptions it raises, and the values it keeps in memcached.

  \<^bold>\<open>The program and its state.\<close> Controllers read a request and call the modules of \<^verbatim>\<open>weasyl\<close>; these run SQL on
  PostgreSQL, through SQLAlchemy, and read some queries through memcached. The modules share nothing but the tables
  and the cached values, so the state of the model is one record, built as a chain: the caches (\<open>caches\<close>), the accounts
  (\<open>accounts_db\<close>), the social graph, the posts with their comments (\<open>content_db\<close>), the tags (\<open>tags_db\<close>), and next to the
  tags the commissions (\<open>commissions_db\<close>) and the reports (\<open>reports_db\<close>). A function of the code is a HOL function of the same name, with the
  module's name before it where two modules share one, from its arguments and the state to its result and the new
  state. The caller's time is the argument \<open>now\<close> or \<open>today\<close>, the cookie of the safe mode is \<open>sfw_mode\<close>, the sets of
  staff are \<open>st\<close>.

  \<^item> Exceptions are the left side of a sum. The engine commits every statement that is outside a transaction, so a
    function that raises after a statement returns the exception together with the changed state; a transaction that
    raises returns the state it began with.
  \<^item> Ids are \<open>int\<close>, and 0 is \<open>None\<close> where the code only tests an id for truth. Columns of flags are strings, dates are
    triples of numbers, the text of users is a string, or a list of code points (\<open>ustr\<close>) where the code looks into
    Unicode. Lengths and ranges of columns are not modelled, and rows have no order but the one a query asks for; the
    model keeps the order of insertion.
  \<^item> A unique index refuses a row by \<open>IntegrityError\<close> in the functions that can meet it.

  \<^bold>\<open>Theories.\<close> They are listed with what they model and what their lemmas show.

  \<^item> \<open>Prelude\<close>, \<open>Schema\<close>, \<open>Database\<close>: exceptions (\<^verbatim>\<open>error.py\<close>), statements on tables, the locale \<open>unique_table\<close>; the tables
    (\<^verbatim>\<open>libweasyl/models/tables.py\<close>, \<^verbatim>\<open>staff.py\<close>); the caches, reading through a cache (\<open>read_through\<close>) and the locale
    \<open>cached_query\<close>, whose laws say that a coherent cache stays so and answers as its query does.
  \<^item> \<open>Ratings\<close>, \<open>Prefix_Trie\<close>, \<open>Cache_Proxy\<close>, \<open>Pagination\<close>, \<open>Config_Codes\<close>, \<open>Forms\<close>, \<open>Rate_Limits\<close>: the utilities
    \<^verbatim>\<open>ratings.py\<close>, \<^verbatim>\<open>util/trie.py\<close>, \<^verbatim>\<open>cache.py\<close>, \<^verbatim>\<open>pagination.py\<close>, \<^verbatim>\<open>configuration_builder.py\<close>, \<^verbatim>\<open>forms.py\<close> with
    \<^verbatim>\<open>users.py\<close>, \<^verbatim>\<open>rate_limits.py\<close>. Each against its abstract counterpart: a set of prefixes, what a thread can recall of
    its own calls, the rows in order, the round trip of codes, a bound on the events in a window of time. Of memcached
    nothing is assumed but that \<open>get_multi\<close> answers as \<open>get\<close> (locale \<open>cache_reads\<close>).
  \<^item> \<open>Define\<close>, \<open>Relations\<close>, \<open>Welcome\<close>: what all other modules call (\<^verbatim>\<open>define.py\<close>), the questions about two users
    (\<^verbatim>\<open>macro.py\<close> and the \<open>check\<close> functions), the notifications (\<^verbatim>\<open>welcome.py\<close>).
  \<^item> \<open>Social\<close>, \<open>Folders\<close>, \<open>Collections\<close>, \<open>Favorites\<close>, \<open>Comments\<close>, \<open>Notes\<close>: the modules of these names, \<open>Social\<close> being
    \<^verbatim>\<open>frienduser.py\<close>, \<^verbatim>\<open>ignoreuser.py\<close> and \<^verbatim>\<open>followuser.py\<close>, \<open>Comments\<close> also \<^verbatim>\<open>shout.py\<close>. Friendship as an abstract
    state machine the code refines, nesting of folders, counts of favorites, threads and their display, mailboxes.
  \<^item> \<open>Two_Factor\<close>, \<open>Accounts\<close>, \<open>Login_Sessions\<close>, \<open>Ages\<close>: \<^verbatim>\<open>two_factor_auth.py\<close>, \<^verbatim>\<open>login.py\<close>, \<^verbatim>\<open>resetpassword.py\<close>,
    \<^verbatim>\<open>useralias.py\<close>, \<^verbatim>\<open>sessions.py\<close> and the sessions of \<^verbatim>\<open>middleware.py\<close>, parts of \<^verbatim>\<open>controllers/user.py\<close> and
    \<^verbatim>\<open>profile.py\<close>. Codes are used once, names lead to one account, a session needs a password and the second factor.
  \<^item> \<open>Tags\<close>, \<open>Tagging\<close>: \<^verbatim>\<open>searchtag.py\<close> and \<^verbatim>\<open>blocktag.py\<close>; tagging refines a map from posts to tags and who added
    them, and undoing a decision about a suggestion brings that map back.
  \<^item> \<open>Posts\<close>, \<open>Journals\<close>, \<open>Media\<close>, \<open>Characters\<close>, \<open>Submissions\<close>: the posts (\<^verbatim>\<open>journal.py\<close>, \<^verbatim>\<open>character.py\<close>,
    \<^verbatim>\<open>submission.py\<close>) with their files (\<^verbatim>\<open>media.py\<close>, \<^verbatim>\<open>files.py\<close>, \<^verbatim>\<open>avatar.py\<close>, \<^verbatim>\<open>banner.py\<close>, \<^verbatim>\<open>thumbnail.py\<close>).
    \<open>Post_Laws\<close> ties the lists of posts to their pages, \<open>Post_Counts\<close> and \<open>Post_Steps\<close> keep the cached counts along
    every run of the operations on posts, but for the users two flaws of the code leave with stale ones.
  \<^item> \<open>Messages\<close>, \<open>Message_Laws\<close>: \<^verbatim>\<open>message.py\<close> and its controller, the pages of notifications.
  \<^item> \<open>Profiles\<close>, \<open>Profile_Laws\<close>, \<open>Moderation\<close>: \<^verbatim>\<open>profile.py\<close> and \<^verbatim>\<open>moderation.py\<close>; the columns of a profile that
    repeat its letters of settings never contradict them.
  \<^item> \<open>Search\<close>, \<open>Search_Laws\<close>, \<open>Search_Text\<close>: \<^verbatim>\<open>search.py\<close>, the search page of \<^verbatim>\<open>controllers/general.py\<close> and
    \<^verbatim>\<open>controllers/search.py\<close>. The statement, with its three ways to ask for tags, finds what one specification says;
    what is found can be opened; the pages show all of it; the text of a query is parsed into the query it came from, but for the ratings.
  \<^item> \<open>Front_Page\<close>, \<open>Site_Updates\<close>, \<open>Commissions\<close>, \<open>Reports\<close>: \<^verbatim>\<open>index.py\<close>; \<^verbatim>\<open>siteupdate.py\<close> with its controller;
    \<^verbatim>\<open>commishinfo.py\<close> with its forms in \<^verbatim>\<open>controllers/settings.py\<close>; \<^verbatim>\<open>report.py\<close> with its ORM class. Caches of news stay
    current, prices stay valid, every reported post is on the list of the moderators once.

  \<^bold>\<open>Parameters.\<close> What is not under \<^verbatim>\<open>src\<close> is an argument: bcrypt, pyotp and Fernet (\<open>tfa_env\<close>), the cipher of the undo
  tokens (\<open>undo_env\<close>), the image worker, SHA-256 and the stored files (\<open>image_env\<close>), the sites of embedded videos
  (\<open>embed_env\<close>), lower case and NFKD of Unicode (\<open>lower\<close>, \<open>nfkd\<close>), whether a mail could be sent, random tokens,
  numbers and orders, and the sample \<open>TABLESAMPLE\<close> takes. Hypotheses on them are documented behaviour, like \<open>ascii_rules\<close>
  for the two functions of Unicode, and the witnesses instantiate them.

  \<^bold>\<open>Bounds and fuel.\<close> Most functions are structural. \<open>serializable_retry\<close> counts its attempts, at most \<open>limit\<close>, against the
  list of outcomes of the transaction. The replies of a thread and of a removed comment are followed to the depth of the
  number of rows of the table, which no chain of different comments exceeds, and the lemmas hold for every table; that CPython
  stops a recursion after about a thousand levels is left out.
  \<open>walk_pages\<close> has a step for every row and one more, enough since every page but an empty first one shows a row.
  Everything else computes on the concrete states of the witnesses.

  \<^bold>\<open>Runs.\<close> A step relation lists the operations on a part of the state; invariants hold in every state reachable by it.
  Each operation is one step, as if requests came one after the other. Where the code relies on more the theory says
  so: \<open>concurrent_guesses_count_once\<close> of \<open>Login_Sessions\<close> shows two requests that interleave.

  \<^bold>\<open>Not modelled.\<close> The web layer (routes, middleware but for sessions, templates, most controllers), which parses requests
  around the modelled functions; rendering of texts, cards and feeds; the image worker and the files on disk; the
  mapped classes of SQLAlchemy but for reports; queries by patterns with
  \<^verbatim>\<open>SIMILAR TO\<close>, \<^verbatim>\<open>ILIKE\<close> or \<^verbatim>\<open>LEVENSHTEIN\<close> (searching for users, the staff's search for users, the marketplace of
  commissions) and exchange rates, which are floating-point numbers of a service; migrations, configuration, metrics,
  mail and captcha, which are input and output.

  The claims C1 to C40 stand in the theories of the code they are about, each after a text that says what it claims.
  Lemmas about what goes wrong in the code, like \<open>search_notify_twice\<close>, stand last in their theories.
\<close>

end
